(* ===== verification/Prelude.thy ===== *)
theory Prelude
  imports Main "HOL-Library.AList"
begin

text \<open>
  The shared ground of the development: the named theorem collections, the model of the
  JavaScript values every component uses (ordered maps, strings, decimal numerals, thrown
  errors), the generic lemmas on them, and one interface, a transition system with an
  invariant, that the stateful components interpret.

  A JavaScript \<^verbatim>\<open>Map\<close> (and a plain object used as a dictionary) iterates in insertion order:
  overwriting a key keeps its place and a new key goes to the end. That is exactly
  \<^const>\<open>AList.update\<close> and \<^const>\<open>AList.delete\<close> on association lists with distinct keys, so maps are
  association lists throughout and \<^const>\<open>map_of\<close> is \<^verbatim>\<open>Map.get\<close>.
\<close>

named_theorems store_defs "operations of the in-memory stores"
named_theorems row_defs "operations of the database rows"
named_theorems seg_defs "atomic segments of event-loop code"

section \<open>Names of the model's types\<close>

type_synonym pubkey = string \<comment> \<open>a base58 address\<close>
type_synonym millis = int \<comment> \<open>\<^verbatim>\<open>Date.now()\<close>\<close>
type_synonym byte = nat \<comment> \<open>a \<^verbatim>\<open>Uint8Array\<close> element; \<open>is_byte\<close> is the bound\<close>
type_synonym ('k, 'v) jsmap = "('k \<times> 'v) list"

datatype js_error =
    TypeError
  | SyntaxError
  | RangeError
  | Error string

type_synonym 'a result = "js_error + 'a"

definition bind_result :: "'a result \<Rightarrow> ('a \<Rightarrow> 'b result) \<Rightarrow> 'b result" where
  "bind_result r f = (case r of Inl e \<Rightarrow> Inl e | Inr a \<Rightarrow> f a)"

lemma bind_result_simps [simp]:
  "bind_result (Inl e) f = Inl e"
  "bind_result (Inr a) f = f a"
  by (simp_all add: bind_result_def)

lemma bind_result_eq_Inr_iff:
  "bind_result r f = Inr b \<longleftrightarrow> (\<exists>a. r = Inr a \<and> f a = Inr b)"
  by (cases r) auto

fun traverse :: "('a \<Rightarrow> 'b result) \<Rightarrow> 'a list \<Rightarrow> 'b list result" where
  "traverse f [] = Inr []"
| "traverse f (x # xs) =
     bind_result (f x) (\<lambda>y. bind_result (traverse f xs) (\<lambda>ys. Inr (y # ys)))"

lemma traverse_Inr_map:
  "(\<And>x. x \<in> set xs \<Longrightarrow> f x = Inr (g x)) \<Longrightarrow> traverse f xs = Inr (map g xs)"
  by (induction xs) auto

section \<open>Ordered maps\<close>

lemma map_of_update [simp]: "map_of (AList.update k v m) = (map_of m)(k \<mapsto> v)"
  by (simp add: AList.update_conv')

lemma map_of_delete [simp]: "map_of (AList.delete k m) = (map_of m)(k := None)"
  by (simp add: AList.delete_conv')

definition js_keys_ok :: "('k, 'v) jsmap \<Rightarrow> bool" where
  "js_keys_ok m \<longleftrightarrow> distinct (map fst m)"

lemma js_keys_ok_empty [simp]: "js_keys_ok []"
  by (simp add: js_keys_ok_def)

lemma js_keys_ok_update [simp]: "js_keys_ok m \<Longrightarrow> js_keys_ok (AList.update k v m)"
  by (simp add: js_keys_ok_def AList.distinct_update)

lemma js_keys_ok_delete [simp]: "js_keys_ok m \<Longrightarrow> js_keys_ok (AList.delete k m)"
  by (simp add: js_keys_ok_def AList.distinct_delete)

lemma js_keys_ok_map_snd [simp]:
  "js_keys_ok (map (\<lambda>(k, v). (k, f k v)) m) \<longleftrightarrow> js_keys_ok m"
  by (simp add: js_keys_ok_def comp_def case_prod_unfold)

lemma js_get_in_set: "js_keys_ok m \<Longrightarrow> map_of m k = Some v \<longleftrightarrow> (k, v) \<in> set m"
  by (auto simp: js_keys_ok_def dest: map_of_SomeD)

lemma length_delete_le: "length (AList.delete k m) \<le> length m"
  by (induction m) auto

lemma fst_delete: "map fst (AList.delete k m) = filter (\<lambda>x. x \<noteq> k) (map fst m)"
  by (induction m) auto

text \<open>
  Changing the value of one key in place: a field assignment on an object a map holds, and an SQL
  \<^verbatim>\<open>UPDATE ... WHERE key = $1\<close>. A missing key changes nothing.
\<close>

definition js_modify :: "'k \<Rightarrow> ('v \<Rightarrow> 'v) \<Rightarrow> ('k, 'v) jsmap \<Rightarrow> ('k, 'v) jsmap" where
  "js_modify k f m = map (\<lambda>(k', v). (k', if k' = k then f v else v)) m"

lemma map_of_modify [simp]: "map_of (js_modify k f m) = (map_of m)(k := map_option f (map_of m k))"
  by (induction m) (auto simp: js_modify_def)

lemma js_keys_ok_modify [simp]: "js_keys_ok (js_modify k f m) \<longleftrightarrow> js_keys_ok m"
  by (simp add: js_modify_def js_keys_ok_def comp_def case_prod_unfold)

lemma map_of_map_values: "map_of (map (\<lambda>(k, v). (k, f v)) m) = map_option f \<circ> map_of m"
  by (induction m) (auto simp: fun_eq_iff)

lemma js_values_in_ran: "js_keys_ok m \<Longrightarrow> snd ` set m = ran (map_of m)"
  by (force simp: js_keys_ok_def ran_def image_def)

lemma map_of_filter_key:
  "js_keys_ok m \<Longrightarrow> map_of (filter (\<lambda>(k, v). P k v) m) k =
     (case map_of m k of Some v \<Rightarrow> if P k v then Some v else None | None \<Rightarrow> None)"
  by (induction m) (auto simp: js_keys_ok_def map_of_eq_None_iff split: option.splits)

text \<open>A property of all values of a map.\<close>

definition all_values :: "('v \<Rightarrow> bool) \<Rightarrow> ('k, 'v) jsmap \<Rightarrow> bool" where
  "all_values P m \<longleftrightarrow> list_all (\<lambda>(k, v). P v) m"

lemma all_values_simps [simp]:
  "all_values P []"
  "all_values P ((k, v) # m) \<longleftrightarrow> P v \<and> all_values P m"
  by (simp_all add: all_values_def)

lemma all_values_update [simp]: "all_values P m \<Longrightarrow> P v \<Longrightarrow> all_values P (AList.update k v m)"
  by (induction m) (auto simp: all_values_def)

lemma all_values_get: "all_values P m \<Longrightarrow> map_of m k = Some v \<Longrightarrow> P v"
  by (auto simp: all_values_def list_all_iff dest: map_of_SomeD)

section \<open>Ordered sets\<close>

text \<open>
  A JavaScript \<^verbatim>\<open>Set\<close> iterates in insertion order and adding a member again keeps its place: a list
  without repetitions. \<^verbatim>\<open>new Set(xs)\<close> adds the elements one by one.
\<close>

type_synonym 'a jsset = "'a list"

definition set_add :: "'a \<Rightarrow> 'a jsset \<Rightarrow> 'a jsset" where
  "set_add x s = (if x \<in> set s then s else s @ [x])"

definition new_set :: "'a list \<Rightarrow> 'a jsset" where
  "new_set xs = fold set_add xs []"

lemma set_set_add [simp]: "set (set_add x s) = insert x (set s)"
  by (auto simp: set_add_def)

lemma distinct_set_add [simp]: "distinct (set_add x s) \<longleftrightarrow> distinct s"
  by (auto simp: set_add_def)

lemma set_fold_add: "set (fold set_add xs s) = set xs \<union> set s"
  by (induction xs arbitrary: s) auto

lemma distinct_fold_add: "distinct (fold set_add xs s) \<longleftrightarrow> distinct s"
  by (induction xs arbitrary: s) auto

lemma set_new_set [simp]: "set (new_set xs) = set xs"
  by (simp add: new_set_def set_fold_add)

lemma distinct_new_set [simp]: "distinct (new_set xs)"
  by (simp add: new_set_def distinct_fold_add)

lemma fold_add_distinct: "distinct (s @ xs) \<Longrightarrow> fold set_add xs s = s @ xs"
  by (induction xs arbitrary: s) (auto simp: set_add_def)

lemma new_set_distinct: "distinct xs \<Longrightarrow> new_set xs = xs"
  by (simp add: new_set_def fold_add_distinct)

section \<open>Lists\<close>

lemma int_length_remove1: "x \<in> set xs \<Longrightarrow> int (length (remove1 x xs)) = int (length xs) - 1"
  by (induction xs) auto

lemma find_SomeD: "find P xs = Some x \<Longrightarrow> x \<in> set xs \<and> P x"
  by (auto simp: find_Some_iff)

section \<open>Strings\<close>

definition starts_with :: "string \<Rightarrow> string \<Rightarrow> bool" where
  "starts_with s p \<longleftrightarrow> take (length p) s = p"

lemma starts_with_iff: "starts_with s p \<longleftrightarrow> (\<exists>r. s = p @ r)"
  by (auto simp: starts_with_def) (metis append_take_drop_id)

fun str_includes :: "string \<Rightarrow> string \<Rightarrow> bool" where
  "str_includes [] t \<longleftrightarrow> t = []"
| "str_includes (c # s) t \<longleftrightarrow> starts_with (c # s) t \<or> str_includes s t"

lemma str_includes_iff: "str_includes s t \<longleftrightarrow> (\<exists>a b. s = a @ t @ b)"
proof (induction s)
  case (Cons c s)
  note IH = Cons.IH
  show ?case
  proof
    assume "str_includes (c # s) t"
    then consider "starts_with (c # s) t" | "str_includes s t" by auto
    then show "\<exists>a b. c # s = a @ t @ b"
    proof cases
      case 1
      then obtain r where "c # s = t @ r" by (auto simp: starts_with_iff)
      then have "c # s = [] @ t @ r" by simp
      then show ?thesis by blast
    next
      case 2
      then obtain a b where "s = a @ t @ b" using Cons.IH by blast
      then have "c # s = (c # a) @ t @ b" by simp
      then show ?thesis by blast
    qed
  next
    assume "\<exists>a b. c # s = a @ t @ b"
    then obtain a b where ab: "c # s = a @ t @ b" by blast
    show "str_includes (c # s) t"
    proof (cases a)
      case Nil
      with ab have "starts_with (c # s) t" by (simp only: starts_with_iff append_Nil) blast
      then show ?thesis by simp
    next
      case (Cons d a')
      with ab have "s = a' @ t @ b" by simp
      then have "str_includes s t" using IH by blast
      then show ?thesis by simp
    qed
  qed
qed auto

text \<open>The white space \<^verbatim>\<open>String.prototype.trim\<close> removes, among the code units a \<^typ>\<open>char\<close> can hold.\<close>

definition is_space :: "char \<Rightarrow> bool" where
  "is_space c \<longleftrightarrow> (of_char c :: nat) \<in> {9, 10, 11, 12, 13, 32, 160}"

definition trim :: "string \<Rightarrow> string" where
  "trim s = rev (dropWhile is_space (rev (dropWhile is_space s)))"

fun split_on :: "char \<Rightarrow> string \<Rightarrow> string list" where
  "split_on d [] = [[]]"
| "split_on d (c # s) =
     (if c = d then [] # split_on d s
      else (case split_on d s of [] \<Rightarrow> [[c]] | w # ws \<Rightarrow> (c # w) # ws))"

fun join_with :: "string \<Rightarrow> string list \<Rightarrow> string" where
  "join_with d [] = []"
| "join_with d [w] = w"
| "join_with d (w # ws) = w @ d @ join_with d ws"

lemma split_on_nonempty [simp]: "split_on d s \<noteq> []"
  by (induction s) (auto split: list.splits)

lemma join_split: "join_with [d] (split_on d s) = s"
proof (induction s)
  case (Cons c s)
  obtain w ws where w: "split_on d s = w # ws" by (cases "split_on d s") auto
  from Cons.IH show ?case by (cases ws) (auto simp: w)
qed simp

lemma split_on_no_delim: "w \<in> set (split_on d s) \<Longrightarrow> d \<notin> set w"
  by (induction s arbitrary: w) (auto split: if_splits list.splits)

lemma split_on_single: "d \<notin> set w \<Longrightarrow> split_on d w = [w]"
  by (induction w) auto

lemma split_on_append: "d \<notin> set w \<Longrightarrow> split_on d (w @ d # s) = w # split_on d s"
  by (induction w) auto

lemma split_join:
  "ws \<noteq> [] \<Longrightarrow> (\<And>w. w \<in> set ws \<Longrightarrow> d \<notin> set w) \<Longrightarrow> split_on d (join_with [d] ws) = ws"
  by (induction "[d]" ws rule: join_with.induct) (auto simp: split_on_single split_on_append)

lemma trim_id:
  assumes "s \<noteq> []" and "\<not> is_space (hd s)" and "\<not> is_space (last s)"
  shows "trim s = s"
proof -
  have "dropWhile is_space s = s"
    using assms(1,2) by (cases s) auto
  moreover have "dropWhile is_space (rev s) = rev s"
    using assms(1,3) by (cases s rule: rev_cases) auto
  ultimately show ?thesis by (simp add: trim_def)
qed

lemma trim_ends:
  assumes "trim s \<noteq> []"
  shows "\<not> is_space (hd (trim s))" and "\<not> is_space (last (trim s))"
proof -
  let ?u = "dropWhile is_space s"
  let ?v = "dropWhile is_space (rev ?u)"
  have v: "?v \<noteq> []" using assms by (simp add: trim_def)
  then have "\<not> is_space (hd ?v)" by (rule hd_dropWhile)
  with v show "\<not> is_space (last (trim s))" by (simp add: trim_def last_rev)
  have "rev ?u = takeWhile is_space (rev ?u) @ ?v" by simp
  then have u: "?u = rev ?v @ rev (takeWhile is_space (rev ?u))"
    by (metis rev_append rev_rev_ident)
  have "hd ?u = hd (rev ?v)" using v by (subst u) simp
  moreover have "?u \<noteq> []" using v by (subst u) simp
  ultimately show "\<not> is_space (hd (trim s))"
    using hd_dropWhile [of is_space s] by (simp add: trim_def)
qed

lemma trim_trim [simp]: "trim (trim s) = trim s"
proof (cases "trim s = []")
  case True
  then have "trim (trim s) = trim []" by (rule arg_cong)
  also have "\<dots> = []" by (simp add: trim_def)
  finally show ?thesis using True by simp
next
  case False
  then show ?thesis by (rule trim_id) (use False in \<open>rule trim_ends\<close>)+
qed

section \<open>Decimal numerals\<close>

definition digit_char :: "nat \<Rightarrow> char" where
  "digit_char d = char_of (48 + d)"

lemma digit_char_simps [simp]:
  "digit_char 0 = CHR ''0''" "digit_char 1 = CHR ''1''" "digit_char (Suc 0) = CHR ''1''" "digit_char (Suc (Suc 0)) = CHR ''2''"
  "digit_char 2 = CHR ''2''" "digit_char 3 = CHR ''3''" "digit_char 4 = CHR ''4''"
  "digit_char 5 = CHR ''5''" "digit_char 6 = CHR ''6''" "digit_char 7 = CHR ''7''"
  "digit_char 8 = CHR ''8''" "digit_char 9 = CHR ''9''"
  by code_simp+

fun show_nat :: "nat \<Rightarrow> string" where
  "show_nat n = (if n < 10 then [digit_char n] else show_nat (n div 10) @ [digit_char (n mod 10)])"

declare show_nat.simps [simp del]

lemma show_nat_digit: "n < 10 \<Longrightarrow> show_nat n = [digit_char n]"
  by (simp add: show_nat.simps)

definition show_int :: "int \<Rightarrow> string" where
  "show_int i = (if i < 0 then CHR ''-'' # show_nat (nat (- i)) else show_nat (nat i))"

definition digit_val :: "char \<Rightarrow> nat option" where
  "digit_val c = (let n = of_char c :: nat in if 48 \<le> n \<and> n \<le> 57 then Some (n - 48) else None)"

definition is_digit :: "char \<Rightarrow> bool" where
  "is_digit c \<longleftrightarrow> digit_val c \<noteq> None"

fun digits_val :: "nat \<Rightarrow> string \<Rightarrow> nat option" where
  "digits_val acc [] = Some acc"
| "digits_val acc (c # s) =
     (case digit_val c of None \<Rightarrow> None | Some d \<Rightarrow> digits_val (10 * acc + d) s)"

definition parse_nat :: "string \<Rightarrow> nat option" where
  "parse_nat s = (if s = [] then None else digits_val 0 s)"

text \<open>
  \<^verbatim>\<open>BigInt(s)\<close> on the decimal strings a Solana RPC node returns: the empty string is 0, an optional sign
  is allowed, anything else that is not a run of digits is a \<^verbatim>\<open>SyntaxError\<close>. (The hexadecimal,
  octal and binary prefixes \<^verbatim>\<open>BigInt\<close> also reads do not occur in these fields.)
\<close>

definition BigInt_of :: "string \<Rightarrow> int result" where
  "BigInt_of s0 =
     (let s = trim s0 in
      if s = [] then Inr 0
      else (case s of
          c # r \<Rightarrow>
            (if c = CHR ''-'' then (case parse_nat r of Some n \<Rightarrow> Inr (- int n) | None \<Rightarrow> Inl SyntaxError)
             else if c = CHR ''+'' then (case parse_nat r of Some n \<Rightarrow> Inr (int n) | None \<Rightarrow> Inl SyntaxError)
             else (case parse_nat s of Some n \<Rightarrow> Inr (int n) | None \<Rightarrow> Inl SyntaxError))
        | [] \<Rightarrow> Inr 0))"

lemma digit_val_digit_char [simp]: "d < 10 \<Longrightarrow> digit_val (digit_char d) = Some d"
  by (simp add: digit_val_def digit_char_def)

lemma digits_val_append:
  "digits_val acc (s @ t) = (case digits_val acc s of None \<Rightarrow> None | Some a \<Rightarrow> digits_val a t)"
  by (induction s arbitrary: acc) (auto split: option.splits)

lemma show_nat_nonempty [simp]: "show_nat n \<noteq> []"
  by (subst show_nat.simps) simp

lemma digits_val_show_nat: "digits_val 0 (show_nat n) = Some n"
proof (induction n rule: show_nat.induct)
  case (1 n)
  show ?case
  proof (cases "n < 10")
    case True
    then show ?thesis by (subst show_nat.simps) simp
  next
    case False
    with "1.IH" show ?thesis
      by (subst show_nat.simps) (simp add: digits_val_append)
  qed
qed

lemma parse_show_nat [simp]: "parse_nat (show_nat n) = Some n"
  by (simp add: parse_nat_def digits_val_show_nat)

lemma show_nat_inject [simp]: "show_nat m = show_nat n \<longleftrightarrow> m = n"
  by (metis option.inject parse_show_nat)

lemma digit_char_is_digit: "d < 10 \<Longrightarrow> is_digit (digit_char d)"
  by (simp add: is_digit_def)

lemma show_nat_digits: "c \<in> set (show_nat n) \<Longrightarrow> is_digit c"
proof (induction n rule: show_nat.induct)
  case (1 n)
  then show ?case
    by (cases "n < 10") (auto simp: show_nat.simps [of n] digit_char_is_digit)
qed

lemma is_digit_code: "is_digit c \<longleftrightarrow> 48 \<le> (of_char c :: nat) \<and> (of_char c :: nat) \<le> 57"
  by (simp add: is_digit_def digit_val_def Let_def)

lemma digit_not_space: "is_digit c \<Longrightarrow> \<not> is_space c"
  by (auto simp: is_digit_code is_space_def)

lemma trim_digits:
  assumes "s \<noteq> []" and "\<And>c. c \<in> set s \<Longrightarrow> is_digit c"
  shows "trim s = s"
  by (rule trim_id) (use assms in \<open>simp_all add: digit_not_space\<close>)

lemma not_digit_signs [simp]: "\<not> is_digit (CHR ''-'')" "\<not> is_digit (CHR ''+'')"
  by (simp_all add: is_digit_code)

lemma BigInt_show_nat: "BigInt_of (show_nat n) = Inr (int n)"
proof -
  have t: "trim (show_nat n) = show_nat n"
    by (rule trim_digits) (auto intro: show_nat_digits)
  obtain c r where cr: "show_nat n = c # r" by (cases "show_nat n") auto
  then have "is_digit c" using show_nat_digits [of c n] by simp
  then have "c \<noteq> CHR ''-''" "c \<noteq> CHR ''+''" by (auto simp: is_digit_code)
  moreover have "parse_nat (c # r) = Some n" using parse_show_nat [of n] by (simp add: cr)
  ultimately show ?thesis using t by (simp add: BigInt_of_def cr)
qed

lemma BigInt_show_int: "BigInt_of (show_int i) = Inr i"
proof (cases "i < 0")
  case True
  let ?n = "show_nat (nat (- i))"
  have "trim (CHR ''-'' # ?n) = CHR ''-'' # ?n"
  proof (rule trim_id)
    show "\<not> is_space (last (CHR ''-'' # ?n))"
      using show_nat_digits [of "last ?n" "nat (- i)"] by (simp add: digit_not_space)
  qed (simp_all add: is_space_def)
  with True show ?thesis by (simp add: BigInt_of_def show_int_def)
next
  case False
  then show ?thesis by (simp add: show_int_def BigInt_show_nat)
qed

section \<open>Numeric columns\<close>

text \<open>A text bound to a \<^verbatim>\<open>NUMERIC\<close> parameter: a text that is no number makes the statement fail.\<close>

definition numeric_in :: "string \<Rightarrow> int option" where
  "numeric_in s = (if s = [] then None else case BigInt_of s of Inr i \<Rightarrow> Some i | Inl _ \<Rightarrow> None)"

lemma numeric_in_show_int [simp]: "numeric_in (show_int i) = Some i"
  by (simp add: numeric_in_def BigInt_show_int) (simp add: show_int_def)

lemma numeric_in_show_nat [simp]: "numeric_in (show_nat n) = Some (int n)"
  by (simp add: numeric_in_def BigInt_show_nat)

section \<open>Transition systems with an invariant\<close>

inductive reach :: "('s \<Rightarrow> bool) \<Rightarrow> ('s \<Rightarrow> 's \<Rightarrow> bool) \<Rightarrow> 's \<Rightarrow> bool"
  for init :: "'s \<Rightarrow> bool" and step :: "'s \<Rightarrow> 's \<Rightarrow> bool" where
  reach_init: "init s \<Longrightarrow> reach init step s"
| reach_step: "reach init step s \<Longrightarrow> step s t \<Longrightarrow> reach init step t"

lemma reach_steps: "reach init step s \<Longrightarrow> step\<^sup>*\<^sup>* s t \<Longrightarrow> reach init step t"
  by (rotate_tac 1, induction rule: rtranclp_induct) (auto intro: reach_step)

text \<open>
  The interface between a component that moves in atomic steps and the properties of its
  reachable states: the component provides its initial states, its step relation and an
  invariant with the two laws; the client lemmas hold of every provider.
\<close>

locale invariant_system =
  fixes init :: "'s \<Rightarrow> bool"
    and step :: "'s \<Rightarrow> 's \<Rightarrow> bool"
    and inv :: "'s \<Rightarrow> bool"
  assumes inv_init: "init s \<Longrightarrow> inv s"
    and inv_step: "inv s \<Longrightarrow> step s t \<Longrightarrow> inv t"
begin

lemma reach_inv: "reach init step s \<Longrightarrow> inv s"
  by (induction rule: reach.induct) (auto intro: inv_init inv_step)

lemma steps_inv: "inv s \<Longrightarrow> step\<^sup>*\<^sup>* s t \<Longrightarrow> inv t"
  by (rotate_tac 1, induction rule: rtranclp_induct) (auto intro: inv_step)

end

end
