(* ===== verification/Js_Number.thy ===== *)
theory Js_Number
  imports Prelude Complex_Main
begin

text \<open>
  The JavaScript \<^verbatim>\<open>number\<close> the program computes with: IEEE 754 doubles. A finite double is the
  rational it denotes; an operation computes exactly and rounds to the nearest double, ties to
  even. (The sign of zero is not represented: no comparison or conversion used here shows it.)
  On top of it the library functions the source calls: \<^verbatim>\<open>parseFloat\<close>, \<^verbatim>\<open>toFixed\<close>, \<^verbatim>\<open>toString\<close>,
  \<^verbatim>\<open>Math.floor\<close>, \<^verbatim>\<open>Math.abs\<close>, and the rounding lemmas the components need.
\<close>

section \<open>Rounding\<close>

abbreviation pow2 :: "int \<Rightarrow> rat" where
  "pow2 e \<equiv> 2 powi e"

fun bits :: "nat \<Rightarrow> nat" where
  "bits n = (if n = 0 then 0 else Suc (bits (n div 2)))"

declare bits.simps [simp del]

text \<open>The binary exponent of a positive rational: \<open>2 ^ e \<le> x < 2 ^ (e + 1)\<close>.\<close>

definition rat_exponent :: "rat \<Rightarrow> int" where
  "rat_exponent x =
     (let (p, q) = quotient_of x; e = int (bits (nat p)) - int (bits (nat q))
      in if pow2 e \<le> x then e else e - 1)"

definition round_half_even :: "rat \<Rightarrow> int" where
  "round_half_even x =
     (let f = \<lfloor>x\<rfloor>; d = x - of_int f
      in if d < 1 / 2 then f else if d > 1 / 2 then f + 1 else if even f then f else f + 1)"

definition ulp_exponent :: "rat \<Rightarrow> int" where
  "ulp_exponent x = max (rat_exponent \<bar>x\<bar> - 52) (- 1074)"

definition round_rat :: "rat \<Rightarrow> rat" where
  "round_rat x =
     (if x = 0 then 0
      else of_int (round_half_even (x / pow2 (ulp_exponent x))) * pow2 (ulp_exponent x))"

datatype js_num = NaN | PosInf | NegInf | Num rat

definition to_num :: "rat \<Rightarrow> js_num" where
  "to_num x =
     (let r = round_rat x
      in if r \<ge> pow2 1024 then PosInf else if r \<le> - pow2 1024 then NegInf else Num r)"

section \<open>Operators\<close>

fun num_neg :: "js_num \<Rightarrow> js_num" where
  "num_neg NaN = NaN" | "num_neg PosInf = NegInf" | "num_neg NegInf = PosInf" | "num_neg (Num x) = Num (- x)"

fun num_add :: "js_num \<Rightarrow> js_num \<Rightarrow> js_num" where
  "num_add (Num x) (Num y) = to_num (x + y)"
| "num_add NaN _ = NaN"
| "num_add _ NaN = NaN"
| "num_add PosInf NegInf = NaN"
| "num_add NegInf PosInf = NaN"
| "num_add PosInf _ = PosInf"
| "num_add NegInf _ = NegInf"
| "num_add _ PosInf = PosInf"
| "num_add _ NegInf = NegInf"

definition num_sub :: "js_num \<Rightarrow> js_num \<Rightarrow> js_num" where
  "num_sub x y = num_add x (num_neg y)"

fun inf_of_sign :: "rat \<Rightarrow> js_num" where
  "inf_of_sign s = (if s > 0 then PosInf else if s < 0 then NegInf else NaN)"

fun num_sign :: "js_num \<Rightarrow> rat" where
  "num_sign NaN = 0" | "num_sign PosInf = 1" | "num_sign NegInf = -1" | "num_sign (Num x) = sgn x"

fun num_mul :: "js_num \<Rightarrow> js_num \<Rightarrow> js_num" where
  "num_mul (Num x) (Num y) = to_num (x * y)"
| "num_mul x y = (if x = NaN \<or> y = NaN then NaN else inf_of_sign (num_sign x * num_sign y))"

text \<open>Division by a nonzero finite number.\<close>

fun num_div :: "js_num \<Rightarrow> rat \<Rightarrow> js_num" where
  "num_div (Num x) y = to_num (x / y)"
| "num_div x y = (if x = NaN then NaN else inf_of_sign (num_sign x * sgn y))"

text \<open>Division in general. The model has one zero, and dividing by it gives what dividing by \<open>+0\<close> gives.\<close>

fun num_quot :: "js_num \<Rightarrow> js_num \<Rightarrow> js_num" where
  "num_quot x (Num y) = (if y = 0 then (if x = NaN then NaN else inf_of_sign (num_sign x)) else num_div x y)"
| "num_quot (Num x) PosInf = Num 0"
| "num_quot (Num x) NegInf = Num 0"
| "num_quot _ _ = NaN"

fun num_lt :: "js_num \<Rightarrow> js_num \<Rightarrow> bool" where
  "num_lt (Num x) (Num y) \<longleftrightarrow> x < y"
| "num_lt NegInf y \<longleftrightarrow> y \<noteq> NaN \<and> y \<noteq> NegInf"
| "num_lt x PosInf \<longleftrightarrow> x \<noteq> NaN \<and> x \<noteq> PosInf"
| "num_lt _ _ \<longleftrightarrow> False"

definition num_eq :: "js_num \<Rightarrow> js_num \<Rightarrow> bool" where
  "num_eq x y \<longleftrightarrow> x \<noteq> NaN \<and> x = y"

definition num_le :: "js_num \<Rightarrow> js_num \<Rightarrow> bool" where
  "num_le x y \<longleftrightarrow> num_lt x y \<or> num_eq x y"

fun num_abs :: "js_num \<Rightarrow> js_num" where
  "num_abs NaN = NaN" | "num_abs PosInf = PosInf" | "num_abs NegInf = PosInf" | "num_abs (Num x) = Num \<bar>x\<bar>"

fun num_floor :: "js_num \<Rightarrow> js_num" where
  "num_floor (Num x) = Num (of_int \<lfloor>x\<rfloor>)"
| "num_floor x = x"

section \<open>Conversions\<close>

fun take_digits :: "string \<Rightarrow> string \<times> string" where
  "take_digits s = (takeWhile is_digit s, dropWhile is_digit s)"

definition nat_of_digits :: "string \<Rightarrow> nat" where
  "nat_of_digits s = (case digits_val 0 s of Some n \<Rightarrow> n | None \<Rightarrow> 0)"

abbreviation pow10 :: "int \<Rightarrow> rat" where
  "pow10 e \<equiv> 10 powi e"

text \<open>An optional sign, as a factor, and what follows it.\<close>

definition strip_sign :: "string \<Rightarrow> int \<times> string" where
  "strip_sign s =
     (case s of [] \<Rightarrow> (1, [])
      | c # r \<Rightarrow> if c = CHR ''-'' then (- 1, r) else if c = CHR ''+'' then (1, r) else (1, s))"

text \<open>The exponent part \<^verbatim>\<open>e+12\<close> of a decimal literal; without digits after it there is none.\<close>

fun exponent_part :: "string \<Rightarrow> int" where
  "exponent_part [] = 0"
| "exponent_part (c # s) =
     (if c \<noteq> CHR ''e'' \<and> c \<noteq> CHR ''E'' then 0
      else (let (sg, r) = strip_sign s; d = takeWhile is_digit r
            in if d = [] then 0 else sg * int (nat_of_digits d)))"

text \<open>The longest prefix that is an unsigned decimal literal: its digits and its value.\<close>

definition decimal_prefix :: "string \<Rightarrow> rat option" where
  "decimal_prefix s =
     (let (ip, r) = take_digits s;
          (fp, r') = (case r of [] \<Rightarrow> ([], []) | c # t \<Rightarrow> if c = CHR ''.'' then take_digits t else ([], r))
      in if ip = [] \<and> fp = [] then None
         else Some (of_nat (nat_of_digits (ip @ fp)) * pow10 (exponent_part r' - int (length fp))))"

definition parseFloat :: "string \<Rightarrow> js_num" where
  "parseFloat s0 =
     (let (sg, u) = strip_sign (dropWhile is_space s0);
          v = (if starts_with u ''Infinity'' then PosInf
               else (case decimal_prefix u of Some x \<Rightarrow> to_num x | None \<Rightarrow> NaN))
      in if sg < 0 then num_neg v else v)"

text \<open>\<^verbatim>\<open>Number.prototype.toString\<close>: the shortest decimal that rounds back to the number.\<close>

fun dec_len :: "nat \<Rightarrow> nat" where
  "dec_len n = (if n < 10 then 1 else Suc (dec_len (n div 10)))"

declare dec_len.simps [simp del]

definition dec_exponent :: "rat \<Rightarrow> int" where
  "dec_exponent x =
     (let (p, q) = quotient_of x; n = int (dec_len (nat p)) - int (dec_len (nat q))
      in if pow10 n \<le> x then n + 1 else n)"

fun shortest :: "nat \<Rightarrow> nat \<Rightarrow> rat \<Rightarrow> int \<Rightarrow> nat \<times> nat" where
  "shortest 0 k x n = (nat \<lfloor>x / pow10 (n - int k)\<rfloor>, k)"
| "shortest (Suc fuel) k x n =
     (let u = pow10 (n - int k); s = \<lfloor>x / u + 1 / 2\<rfloor>
      in if round_rat (of_int s * u) = x then (nat s, k) else shortest fuel (Suc k) x n)"

definition zeros :: "nat \<Rightarrow> string" where
  "zeros n = replicate n (CHR ''0'')"

definition show_pos_rat :: "rat \<Rightarrow> string" where
  "show_pos_rat x =
     (let n0 = dec_exponent x; (s, k) = shortest 17 1 x n0; ds = show_nat s;
          n = (if length ds > k then n0 + 1 else n0);
          d = rev (dropWhile (\<lambda>c. c = CHR ''0'') (rev ds)); k' = int (length d);
          ex = n - 1;
          e = (if ex < 0 then ''-'' @ show_nat (nat (- ex)) else ''+'' @ show_nat (nat ex))
      in if k' \<le> n \<and> n \<le> 21 then d @ zeros (nat (n - k'))
         else if 0 < n \<and> n \<le> 21 then take (nat n) d @ ''.'' @ drop (nat n) d
         else if - 6 < n \<and> n \<le> 0 then ''0.'' @ zeros (nat (- n)) @ d
         else if k' = 1 then d @ ''e'' @ e
         else take 1 d @ ''.'' @ drop 1 d @ ''e'' @ e)"

fun num_toString :: "js_num \<Rightarrow> string" where
  "num_toString NaN = ''NaN''"
| "num_toString PosInf = ''Infinity''"
| "num_toString NegInf = ''-Infinity''"
| "num_toString (Num x) =
     (if x = 0 then ''0'' else if x < 0 then ''-'' @ show_pos_rat (- x) else show_pos_rat x)"

text \<open>\<^verbatim>\<open>x.toFixed(f)\<close>: of the two nearest decimals the larger one; \<^verbatim>\<open>RangeError\<close> beyond 100 digits.\<close>

definition fixed_digits :: "nat \<Rightarrow> nat \<Rightarrow> string" where
  "fixed_digits n f =
     (let m = show_nat n; m' = zeros (Suc f - length m) @ m; i = length m' - f
      in if f = 0 then m else take i m' @ ''.'' @ drop i m')"

fun toFixed :: "js_num \<Rightarrow> nat \<Rightarrow> string result" where
  "toFixed v f =
     (if f > 100 then Inl RangeError
      else (case v of
          Num x \<Rightarrow>
            (let a = \<bar>x\<bar>; sg = (if x < 0 then ''-'' else '''')
             in if a \<ge> 10 ^ 21 then Inr (num_toString v)
                else Inr (sg @ fixed_digits (nat \<lfloor>a * 10 ^ f + 1 / 2\<rfloor>) f))
        | _ \<Rightarrow> Inr (num_toString v)))"

declare toFixed.simps [simp del]

lemma toFixed_defined: "f \<le> 100 \<Longrightarrow> \<exists>x. toFixed v f = Inr x"
  by (cases v) (auto simp: toFixed.simps Let_def)

section \<open>Rounding lemmas\<close>

lemma bits_bounds: "0 < n \<Longrightarrow> 2 ^ (bits n - 1) \<le> n \<and> n < 2 ^ bits n"
proof (induction n rule: bits.induct)
  case (1 n)
  show ?case
  proof (cases "n div 2 = 0")
    case True
    with 1 have "n = 1" by simp
    then show ?thesis by (simp add: bits.simps)
  next
    case False
    with 1 have IH: "2 ^ (bits (n div 2) - 1) \<le> n div 2" "n div 2 < 2 ^ bits (n div 2)" by auto
    have b: "bits n = Suc (bits (n div 2))" using 1 by (subst bits.simps) simp
    have "0 < bits (n div 2)" using False by (subst bits.simps) simp
    then obtain m where m: "bits (n div 2) = Suc m" by (cases "bits (n div 2)") auto
    show ?thesis using IH by (simp add: b m) linarith
  qed
qed

lemma rat_exponent_spec:
  assumes "0 < x"
  shows "pow2 (rat_exponent x) \<le> x" and "x < pow2 (rat_exponent x + 1)"
proof -
  obtain p q where pq: "quotient_of x = (p, q)" by fastforce
  have x: "x = of_int p / of_int q" by (rule quotient_of_div [OF pq])
  have q: "0 < q" using quotient_of_denom_pos [OF pq] .
  with assms x have p: "0 < p" by (simp add: zero_less_divide_iff)
  define bp where "bp = bits (nat p)"
  define bq where "bq = bits (nat q)"
  have up: "(2::int) ^ (bp - 1) \<le> p" "p < 2 ^ bp"
    using bits_bounds [of "nat p"] p by (simp_all add: bp_def nat_less_iff le_nat_iff flip: nat_power_eq)
  have uq: "(2::int) ^ (bq - 1) \<le> q" "q < 2 ^ bq"
    using bits_bounds [of "nat q"] q by (simp_all add: bq_def nat_less_iff le_nat_iff flip: nat_power_eq)
  have pos: "0 < bp" "0 < bq" using p q by (simp_all add: bp_def bq_def bits.simps)
  let ?e = "int bp - int bq"
  have rp: "(2::rat) ^ (bp - 1) \<le> of_int p" "(of_int p :: rat) < 2 ^ bp"
    using up by (metis of_int_le_iff of_int_less_iff of_int_numeral of_int_power)+
  have rq: "(2::rat) ^ (bq - 1) \<le> of_int q" "(of_int q :: rat) < 2 ^ bq"
    using uq by (metis of_int_le_iff of_int_less_iff of_int_numeral of_int_power)+
  have "x < 2 ^ bp / 2 ^ (bq - 1)"
    unfolding x using rp rq q p by (intro frac_less) (auto simp: order_less_imp_le)
  also have "\<dots> = pow2 (?e + 1)"
    using pos by (simp add: power_int_diff power_int_add Suc_leI of_nat_diff power_diff)
  finally have hi: "x < pow2 (?e + 1)" .
  have "pow2 (?e - 1) = 2 ^ (bp - 1) / 2 ^ bq"
    using pos by (simp add: power_int_diff power_diff)
  also have "\<dots> \<le> x"
    unfolding x using rp rq q p by (intro frac_le) auto
  finally have lo: "pow2 (?e - 1) \<le> x" .
  have e: "rat_exponent x = (if pow2 ?e \<le> x then ?e else ?e - 1)"
    by (simp add: rat_exponent_def pq bp_def bq_def Let_def)
  show "pow2 (rat_exponent x) \<le> x" "x < pow2 (rat_exponent x + 1)"
    using hi lo by (auto simp: e)
qed

lemma pow2_less_iff [simp]: "pow2 a < pow2 b \<longleftrightarrow> a < b"
  by (meson linorder_not_less one_less_numeral_iff power_int_increasing power_int_strict_increasing
      semiring_norm(76) order_less_imp_le)

lemma pow2_le_iff [simp]: "pow2 a \<le> pow2 b \<longleftrightarrow> a \<le> b"
  by (meson linorder_not_less pow2_less_iff)

lemma rat_exponent_less: "0 < x \<Longrightarrow> x < pow2 e \<Longrightarrow> rat_exponent x < e"
  using rat_exponent_spec(1) [of x] by (meson le_less_trans pow2_less_iff)

lemma rat_exponent_mono: "0 < x \<Longrightarrow> x \<le> y \<Longrightarrow> rat_exponent x \<le> rat_exponent y"
  using rat_exponent_less [of x "rat_exponent y + 1"] rat_exponent_spec(2) [of y] by linarith

text \<open>The rationals a double can hold, the overflow bound apart.\<close>

definition representable :: "rat \<Rightarrow> bool" where
  "representable y \<longleftrightarrow> (\<exists>k e. y = of_int k * pow2 e \<and> \<bar>k\<bar> < 2 ^ 53 \<and> - 1074 \<le> e)"

lemma pow2_split: "e' \<le> e \<Longrightarrow> pow2 e = 2 ^ nat (e - e') * pow2 e'"
  using power_int_add [of "2::rat" "e - e'" e'] by (simp add: power_int_nonneg_exp)

lemma representable_grid:
  assumes "representable y" and "y \<noteq> 0"
  obtains j where "y = of_int j * pow2 (ulp_exponent y)"
proof -
  from assms(1) obtain k e where y: "y = of_int k * pow2 e" "\<bar>k\<bar> < 2 ^ 53" "- 1074 \<le> e"
    by (auto simp: representable_def)
  have "\<bar>y\<bar> = of_int \<bar>k\<bar> * pow2 e" by (simp add: y abs_mult)
  also have "\<dots> < 2 ^ 53 * pow2 e"
  proof -
    have "(of_int \<bar>k\<bar> :: rat) < of_int (2 ^ 53)" using y(2) by (simp only: of_int_less_iff)
    then show ?thesis by (simp add: zero_less_power_int)
  qed
  also have "\<dots> = pow2 (e + 53)" by (simp add: power_int_add)
  finally have "rat_exponent \<bar>y\<bar> < e + 53" using assms(2) by (intro rat_exponent_less) auto
  then have "ulp_exponent y \<le> e" using y(3) by (simp add: ulp_exponent_def)
  then have "y = of_int (k * 2 ^ nat (e - ulp_exponent y)) * pow2 (ulp_exponent y)"
    using y(1) pow2_split [of "ulp_exponent y" e] by simp
  then show ?thesis by (rule that)
qed

lemma rhe_int [simp]: "round_half_even (of_int n) = n"
  by (simp add: round_half_even_def)

lemma rhe_le: "x \<le> of_int n \<Longrightarrow> round_half_even x \<le> n"
proof -
  assume x: "x \<le> of_int n"
  then have "\<lfloor>x\<rfloor> < n \<or> x = of_int n" by linarith
  then show ?thesis by (auto simp: round_half_even_def Let_def)
qed

lemma rhe_ge: "of_int n \<le> x \<Longrightarrow> n \<le> round_half_even x"
  by (auto simp: round_half_even_def Let_def) linarith+

lemma rhe_close: "\<bar>of_int (round_half_even x) - x\<bar> \<le> 1 / 2"
  by (auto simp: round_half_even_def Let_def abs_if) linarith+

lemma round_rat_0 [simp]: "round_rat 0 = 0"
  by (simp add: round_rat_def)

lemma round_rat_representable: "representable y \<Longrightarrow> round_rat y = y"
proof (cases "y = 0")
  case False
  assume "representable y"
  then obtain j where j: "y = of_int j * pow2 (ulp_exponent y)"
    using False by (rule representable_grid)
  have "y / pow2 (ulp_exponent y) = of_int j" by (subst j) simp
  with False j show ?thesis by (simp add: round_rat_def)
qed simp

lemma ulp_exponent_mono: "0 < \<bar>x\<bar> \<Longrightarrow> \<bar>x\<bar> \<le> \<bar>y\<bar> \<Longrightarrow> ulp_exponent x \<le> ulp_exponent y"
  using rat_exponent_mono [of "\<bar>x\<bar>" "\<bar>y\<bar>"] by (simp add: ulp_exponent_def)

lemma round_rat_le_grid:
  assumes "x \<noteq> 0" and "x \<le> of_int j * pow2 (ulp_exponent x)"
  shows "round_rat x \<le> of_int j * pow2 (ulp_exponent x)"
proof -
  have "x / pow2 (ulp_exponent x) \<le> of_int j"
    using assms(2) by (simp add: divide_le_eq)
  then have "round_half_even (x / pow2 (ulp_exponent x)) \<le> j" by (rule rhe_le)
  then show ?thesis using assms(1) by (simp add: round_rat_def)
qed

lemma round_rat_ge_grid:
  assumes "x \<noteq> 0" and "of_int j * pow2 (ulp_exponent x) \<le> x"
  shows "of_int j * pow2 (ulp_exponent x) \<le> round_rat x"
proof -
  have "of_int j \<le> x / pow2 (ulp_exponent x)"
    using assms(2) by (simp add: le_divide_eq)
  then have "j \<le> round_half_even (x / pow2 (ulp_exponent x))" by (rule rhe_ge)
  then show ?thesis using assms(1) by (simp add: round_rat_def)
qed

text \<open>A non-negative number never rounds past a double above it, and never below zero.\<close>

lemma round_rat_nonneg: "0 \<le> x \<Longrightarrow> 0 \<le> round_rat x"
  using round_rat_ge_grid [of x 0] by (cases "x = 0") auto

lemma round_rat_nonpos: "x \<le> 0 \<Longrightarrow> round_rat x \<le> 0"
  using round_rat_le_grid [of x 0] by (cases "x = 0") auto

lemma round_rat_le:
  assumes "0 \<le> x" and "x \<le> y" and "representable y"
  shows "round_rat x \<le> y"
proof (cases "x = 0")
  case True
  with assms show ?thesis by simp
next
  case False
  with assms have pos: "0 < x" "y \<noteq> 0" by auto
  obtain j where j: "y = of_int j * pow2 (ulp_exponent y)"
    using assms(3) pos(2) by (rule representable_grid)
  have u: "ulp_exponent x \<le> ulp_exponent y"
    using assms pos by (intro ulp_exponent_mono) auto
  then have y: "y = of_int (j * 2 ^ nat (ulp_exponent y - ulp_exponent x)) * pow2 (ulp_exponent x)"
    using j pow2_split [OF u] by simp
  show ?thesis
    by (subst y, rule round_rat_le_grid [OF False]) (use assms(2) y in simp)
qed

lemma representable_int: "\<bar>n\<bar> < 2 ^ 53 \<Longrightarrow> representable (of_int n)"
  unfolding representable_def by (intro exI [of _ n] exI [of _ 0]) simp

lemma representable_scaled: "\<bar>k\<bar> < 2 ^ 53 \<Longrightarrow> d \<le> 1074 \<Longrightarrow> representable (of_int k / 2 ^ d)"
  unfolding representable_def
  by (intro exI [of _ k] exI [of _ "- int d"]) (simp add: power_int_minus divide_inverse)

lemma to_num_representable: "representable y \<Longrightarrow> \<bar>y\<bar> < pow2 1024 \<Longrightarrow> to_num y = Num y"
  by (simp only: to_num_def round_rat_representable Let_def abs_less_iff) auto

lemma to_num_int: "\<bar>n\<bar> < 2 ^ 53 \<Longrightarrow> to_num (of_int n) = Num (of_int n)"
proof -
  assume n: "\<bar>n\<bar> < 2 ^ 53"
  have "\<bar>of_int n :: rat\<bar> < of_int (2 ^ 53)" using n by (simp only: of_int_less_iff flip: of_int_abs)
  also have "\<dots> \<le> (2::rat) ^ 1024" by simp
  finally have "\<bar>of_int n :: rat\<bar> < pow2 1024" by simp
  then show ?thesis by (rule to_num_representable [OF representable_int [OF n]])
qed

text \<open>Evaluating a rounding: the binade of the number and the nearest multiple of its grid.\<close>

lemma rat_exponentI:
  assumes "pow2 e \<le> x" and "x < pow2 (e + 1)"
  shows "rat_exponent x = e"
proof -
  have x: "0 < x" using assms(1) by (meson less_le_trans zero_less_numeral zero_less_power_int)
  have "pow2 e < pow2 (rat_exponent x + 1)"
    using assms(1) rat_exponent_spec(2) [OF x] by (rule le_less_trans)
  then have "e \<le> rat_exponent x" by simp
  with rat_exponent_less [OF x assms(2)] show ?thesis by simp
qed

lemma round_rat_eval:
  assumes "pow2 e \<le> x" and "x < pow2 (e + 1)" and "- 1022 \<le> e"
    and "\<bar>x / pow2 (e - 52) - of_int k\<bar> < 1 / 2"
  shows "round_rat x = of_int k * pow2 (e - 52)"
proof -
  have x: "0 < x" using assms(1) by (meson less_le_trans zero_less_numeral zero_less_power_int)
  then have u: "ulp_exponent x = e - 52"
    using rat_exponentI [OF assms(1,2)] assms(3) by (simp add: ulp_exponent_def)
  have "\<bar>of_int (round_half_even (x / pow2 (e - 52))) - of_int k :: rat\<bar> < 1"
    using rhe_close [of "x / pow2 (e - 52)"] assms(4) by linarith
  then have "\<bar>round_half_even (x / pow2 (e - 52)) - k\<bar> < 1"
    by (metis of_int_abs of_int_diff of_int_less_1_iff)
  then have "round_half_even (x / pow2 (e - 52)) = k" by linarith
  with x show ?thesis by (simp add: round_rat_def u)
qed

lemma to_num_small: "\<bar>round_rat x\<bar> < pow2 1024 \<Longrightarrow> to_num x = Num (round_rat x)"
  by (simp only: to_num_def Let_def abs_less_iff) auto

end
