(* ===== verification/Wallet_Lists.thy ===== *)
theory Wallet_Lists
  imports Js_Number
begin

text \<open>
  The address lists of the settings: \<^verbatim>\<open>src/utils/byreal-allow-same-tick.ts\<close> (which earlier opener blocks
  a referer position, and the wallets exempt from that) and \<^verbatim>\<open>src/utils/pool-age-whitelist.ts\<close>. Both
  keep a \<^verbatim>\<open>Set\<close> of strings and store it in the environment file as a comma separated text.
\<close>

section \<open>Values from a request body\<close>

datatype json =
    JUndefined
  | JNull
  | JBool bool
  | JNum js_num
  | JString string
  | JArray "json list"
  | JObject "(string \<times> json) list"

text \<open>\<^verbatim>\<open>String(v)\<close>; inside an array \<^verbatim>\<open>null\<close> and \<^verbatim>\<open>undefined\<close> print as nothing.\<close>

fun js_String :: "json \<Rightarrow> string" and js_element :: "json \<Rightarrow> string" where
  "js_String JUndefined = ''undefined''"
| "js_String JNull = ''null''"
| "js_String (JBool b) = (if b then ''true'' else ''false'')"
| "js_String (JNum x) = num_toString x"
| "js_String (JString s) = s"
| "js_String (JArray vs) = join_with '','' (map js_element vs)"
| "js_String (JObject kvs) = ''[object Object]''"
| "js_element JUndefined = ''''"
| "js_element JNull = ''''"
| "js_element (JBool b) = (if b then ''true'' else ''false'')"
| "js_element (JNum x) = num_toString x"
| "js_element (JString s) = s"
| "js_element (JArray vs) = join_with '','' (map js_element vs)"
| "js_element (JObject kvs) = ''[object Object]''"

section \<open>Same-tick exemptions\<close>

definition shouldIgnoreRefererBlocker ::
  "json \<Rightarrow> string \<Rightarrow> string jsset \<Rightarrow> string jsset \<Rightarrow> bool" where
  "shouldIgnoreRefererBlocker blockerTargetWallet candidateTargetWallet allowOpenedByWallets
     allowOpenAfterOthersWallets =
     (let blocker = (case blockerTargetWallet of JString s \<Rightarrow> trim s | _ \<Rightarrow> '''');
          candidate = trim candidateTargetWallet
      in length blocker > 0 \<and> length candidate > 0 \<and> blocker \<noteq> candidate \<and>
         (blocker \<in> set allowOpenedByWallets \<or> candidate \<in> set allowOpenAfterOthersWallets))"

text \<open>An entry is represented by its \<^verbatim>\<open>targetWallet\<close> field, the only one read.\<close>

definition isRefererDuplicateEntry ::
  "json option \<Rightarrow> string \<Rightarrow> bool \<Rightarrow> string jsset \<Rightarrow> string jsset \<Rightarrow> bool" where
  "isRefererDuplicateEntry entry candidateTargetWallet allowSameWalletReopen allowOpenedByWallets
     allowOpenAfterOthersWallets =
     (case entry of
        None \<Rightarrow> False
      | Some blockerTargetWallet \<Rightarrow>
          if allowSameWalletReopen \<and> blockerTargetWallet = JString candidateTargetWallet then False
          else if shouldIgnoreRefererBlocker blockerTargetWallet candidateTargetWallet
                    allowOpenedByWallets allowOpenAfterOthersWallets then False
          else True)"

definition normalizeByrealAllowSameTickWallets :: "json \<Rightarrow> string list \<Rightarrow> string jsset" where
  "normalizeByrealAllowSameTickWallets inputWallets byrealTargetWallets =
     (let targetSet = new_set (filter (\<lambda>w. w \<noteq> []) (map trim byrealTargetWallets))
      in (case inputWallets of
            JArray ws \<Rightarrow>
              fold (\<lambda>wallet out. let addr = trim (js_String wallet)
                                 in if addr \<in> set targetSet then set_add addr out else out) ws []
          | _ \<Rightarrow> []))"

definition parseWalletSet :: "string \<Rightarrow> string jsset" where
  "parseWalletSet raw = new_set (filter (\<lambda>s. s \<noteq> []) (map trim (split_on (CHR '','') raw)))"

definition serializeWalletSet :: "string list \<Rightarrow> string" where
  "serializeWalletSet wallets = join_with '','' wallets"

section \<open>The pool age whitelist\<close>

definition parseMintSet :: "string \<Rightarrow> string jsset" where
  "parseMintSet raw = new_set (filter (\<lambda>s. length s > 0) (map trim (split_on (CHR '','') raw)))"

definition isPoolAgeWhitelisted :: "string \<Rightarrow> string \<Rightarrow> string jsset \<Rightarrow> bool" where
  "isPoolAgeWhitelisted mintA mintB whitelist \<longleftrightarrow> mintA \<in> set whitelist \<or> mintB \<in> set whitelist"

text \<open>Returns the new whitelist of the configuration and the environment updates.\<close>

definition applyPoolAgeWhitelistConfig ::
  "json \<Rightarrow> string jsset \<Rightarrow> (string, string) jsmap \<Rightarrow> string jsset \<times> (string, string) jsmap" where
  "applyPoolAgeWhitelistConfig body_poolAgeWhitelist whitelist envUpdates =
     (case body_poolAgeWhitelist of
        JArray vs \<Rightarrow>
          (let normalized = new_set (filter (\<lambda>s. length s > 0) (map (trim \<circ> js_String) vs))
           in (fold set_add normalized [],
               AList.update ''POOL_AGE_WHITELIST'' (join_with '','' normalized) envUpdates))
      | _ \<Rightarrow> (whitelist, envUpdates))"

section \<open>Lemmas\<close>

text \<open>A member both writers produce: trimmed, not empty, and with no comma in it.\<close>

definition list_member :: "string \<Rightarrow> bool" where
  "list_member s \<longleftrightarrow> s \<noteq> [] \<and> trim s = s \<and> CHR '','' \<notin> set s"

lemma parse_members:
  "s \<in> set (parseWalletSet raw) \<Longrightarrow> s \<noteq> [] \<and> trim s = s"
  by (auto simp: parseWalletSet_def)

lemma parse_join:
  assumes "distinct ws" and "\<forall>w \<in> set ws. list_member w"
  shows "new_set (filter (\<lambda>s. s \<noteq> []) (map trim (split_on (CHR '','') (join_with '','' ws)))) = ws"
proof (cases "ws = []")
  case True
  then show ?thesis by (simp add: new_set_def trim_def)
next
  case False
  have "split_on (CHR '','') (join_with '','' ws) = ws"
    using False assms(2) by (intro split_join) (auto simp: list_member_def)
  moreover have "map trim ws = ws"
    using assms(2) by (intro map_idI) (auto simp: list_member_def)
  moreover have "filter (\<lambda>s. s \<noteq> []) ws = ws"
    using assms(2) by (auto simp: filter_id_conv list_member_def)
  ultimately show ?thesis by (simp add: new_set_distinct assms(1))
qed

lemma trim_subset: "set (trim s) \<subseteq> set s"
  by (auto simp: trim_def dest!: set_dropWhileD)

section \<open>Properties\<close>

text \<open>
  The settings survive the environment file. A wallet list read from any text, written out and
  read again is the same list, in the same order; and a set of addresses written out is read back
  unchanged whenever its members are trimmed, not empty and without a comma.
\<close>

theorem wallet_list_roundtrip:
  "parseWalletSet (serializeWalletSet (parseWalletSet raw)) = parseWalletSet raw \<and>
   parseMintSet (serializeWalletSet (parseMintSet raw)) = parseMintSet raw"
proof -
  have "\<forall>w \<in> set (parseWalletSet raw). list_member w"
    using trim_subset split_on_no_delim by (fastforce simp: parseWalletSet_def list_member_def)
  then have "parseWalletSet (serializeWalletSet (parseWalletSet raw)) = parseWalletSet raw"
    unfolding serializeWalletSet_def
    by (subst (1) parseWalletSet_def, intro parse_join) (simp_all add: parseWalletSet_def)
  moreover have "parseMintSet r = parseWalletSet r" for r
    by (simp add: parseMintSet_def parseWalletSet_def)
  ultimately show ?thesis by simp
qed

text \<open>
  When an earlier opener does not block. For an entry whose wallet is \<open>b\<close>, the
  candidate \<open>c\<close> is blocked unless reopening by the same wallet is allowed and the wallets are equal,
  or the two wallets differ (both being non-blank) and the opener or the candidate is exempt. In
  particular the exemptions never unblock a wallet against itself, and no entry never blocks.
\<close>

theorem referer_block_iff:
  "(isRefererDuplicateEntry (Some (JString b)) c same opened after \<longleftrightarrow>
     \<not> (same \<and> b = c) \<and>
     \<not> (trim b \<noteq> trim c \<and> trim b \<noteq> [] \<and> trim c \<noteq> [] \<and> (trim b \<in> set opened \<or> trim c \<in> set after))) \<and>
   isRefererDuplicateEntry (Some (JString c)) c False opened after \<and>
   \<not> isRefererDuplicateEntry None c same opened after"
  by (auto simp: isRefererDuplicateEntry_def shouldIgnoreRefererBlocker_def Let_def)

text \<open>
  The normalised exemption list holds trimmed, known target wallets only, each once, and every
  known wallet of the request is kept.
\<close>

theorem normalize_allow_list:
  "distinct (normalizeByrealAllowSameTickWallets (JArray ws) targets) \<and>
   set (normalizeByrealAllowSameTickWallets (JArray ws) targets) =
     {a. a \<noteq> [] \<and> a \<in> trim ` set targets \<and> a \<in> (trim \<circ> js_String) ` set ws}"
proof -
  let ?T = "set (new_set (filter (\<lambda>w. w \<noteq> []) (map trim targets)))"
  let ?add = "\<lambda>wallet out. let addr = trim (js_String wallet) in if addr \<in> ?T then set_add addr out else out"
  have f: "distinct (fold ?add ws out) = distinct out \<and>
      set (fold ?add ws out) = set out \<union> ((trim \<circ> js_String) ` set ws \<inter> ?T)" for out
    by (induction ws arbitrary: out) (auto simp: Let_def)
  show ?thesis
    using f [of "[]"] by (auto simp: normalizeByrealAllowSameTickWallets_def Let_def)
qed

end
