(* ===== verification/Json_Access.thy ===== *)
theory Json_Access
  imports Wallet_Lists
begin

text \<open>
  Reading parsed JSON the way the sources do: property access, truthiness, and the conversions of
  fields to numbers.
\<close>

text \<open>Reading a property: of \<^verbatim>\<open>null\<close> and \<^verbatim>\<open>undefined\<close> it throws, \<^verbatim>\<open>?.\<close> does not.\<close>

fun json_field :: "json \<Rightarrow> string \<Rightarrow> json result" where
  "json_field JUndefined k = Inl TypeError"
| "json_field JNull k = Inl TypeError"
| "json_field (JObject kvs) k = Inr (case map_of kvs k of Some v \<Rightarrow> v | None \<Rightarrow> JUndefined)"
| "json_field _ k = Inr JUndefined"

definition json_opt :: "json \<Rightarrow> string \<Rightarrow> json" where
  "json_opt v k = (case json_field v k of Inr x \<Rightarrow> x | Inl e \<Rightarrow> JUndefined)"

fun json_truthy :: "json \<Rightarrow> bool" where
  "json_truthy JUndefined = False"
| "json_truthy JNull = False"
| "json_truthy (JBool b) = b"
| "json_truthy (JNum x) = (x \<noteq> NaN \<and> x \<noteq> Num 0)"
| "json_truthy (JString s) = (s \<noteq> [])"
| "json_truthy (JArray _) = True"
| "json_truthy (JObject _) = True"

text \<open>\<^verbatim>\<open>parseFloat(v || '0')\<close>\<close>

definition float_or_zero :: "json \<Rightarrow> js_num" where
  "float_or_zero v = parseFloat (js_String (if json_truthy v then v else JString ''0''))"

text \<open>\<^verbatim>\<open>parseInt(s, 10)\<close>, \<open>None\<close> being \<^verbatim>\<open>NaN\<close>\<close>

definition parseInt10 :: "string \<Rightarrow> int option" where
  "parseInt10 s =
     (let (sg, r) = strip_sign (dropWhile is_space s); ds = takeWhile is_digit r
      in if ds = [] then None else Some (sg * int (nat_of_digits ds)))"

definition int_or_zero :: "json \<Rightarrow> js_num" where
  "int_or_zero v =
     (case parseInt10 (js_String (if json_truthy v then v else JString ''0'')) of
        Some i \<Rightarrow> to_num (of_int i) | None \<Rightarrow> NaN)"

end
