(* ===== verification/Ring_Table.thy ===== *)
theory Ring_Table
  imports Prelude "HOL-Library.Multiset"
begin

text \<open>
  The append-only tables of \<^verbatim>\<open>src/state/repo\<close> (\<^verbatim>\<open>events\<close>, \<^verbatim>\<open>swap_history\<close>, \<^verbatim>\<open>claim_history\<close>, \<^verbatim>\<open>dac_history\<close>,
  \<^verbatim>\<open>auth_log\<close>) and the arrays that mirror them. A table is its serial counter and its rows; an append
  is an \<^verbatim>\<open>INSERT\<close> and a capping \<^verbatim>\<open>DELETE\<close> in one transaction; an array is capped by shifting. What
  both come to is the last \<open>n\<close> elements of the sequence of appends, \<open>keep_last\<close>, and the lemmas here
  say so once for every table.
\<close>

section \<open>The last elements of a list\<close>

definition keep_last :: "nat \<Rightarrow> 'a list \<Rightarrow> 'a list" where
  "keep_last n xs = drop (length xs - n) xs"

lemma length_keep_last [simp]: "length (keep_last n xs) = min n (length xs)"
  by (simp add: keep_last_def)

lemma keep_last_all [simp]: "length xs \<le> n \<Longrightarrow> keep_last n xs = xs"
  by (simp add: keep_last_def)

lemma keep_last_idem [simp]: "keep_last n (keep_last n xs) = keep_last n xs"
  by simp

lemma keep_last_map: "keep_last n (map f xs) = map f (keep_last n xs)"
  by (simp add: keep_last_def drop_map)

lemma keep_last_snoc: "0 < n \<Longrightarrow> keep_last n (keep_last n xs @ [x]) = keep_last n (xs @ [x])"
  by (cases "length xs \<le> n") (auto simp: keep_last_def Suc_diff_le)

lemma keep_last_nonempty: "0 < n \<Longrightarrow> xs \<noteq> [] \<Longrightarrow> last (keep_last n xs) = last xs"
  by (simp add: keep_last_def)

lemma set_keep_last: "set (keep_last n xs) \<subseteq> set xs"
  by (simp add: keep_last_def set_drop_subset)

text \<open>\<^verbatim>\<open>while (xs.length > cap) xs.shift()\<close>\<close>

fun shift_while :: "nat \<Rightarrow> 'a list \<Rightarrow> 'a list" where
  "shift_while cap [] = []"
| "shift_while cap (x # xs) = (if length (x # xs) > cap then shift_while cap xs else x # xs)"

lemma shift_while_eq: "shift_while cap xs = keep_last cap xs"
  by (induction xs) (auto simp: keep_last_def Suc_diff_le)

section \<open>Tables\<close>

record 'r ring =
  next_id :: nat
  ring_rows :: "(nat \<times> 'r) list"

definition ring_empty :: "'r ring" where
  "ring_empty = \<lparr>next_id = 1, ring_rows = []\<rparr>"

text \<open>\<^verbatim>\<open>INSERT\<close>: the row gets the next value of the serial column.\<close>

definition ring_insert :: "'r \<Rightarrow> 'r ring \<Rightarrow> 'r ring" where
  "ring_insert r t = t\<lparr>next_id := next_id t + 1, ring_rows := ring_rows t @ [(next_id t, r)]\<rparr>"

text \<open>\<^verbatim>\<open>SELECT id ... ORDER BY id DESC OFFSET off LIMIT 1\<close>, no row being \<^verbatim>\<open>NULL\<close>\<close>

definition id_at_offset :: "nat \<Rightarrow> 'r ring \<Rightarrow> nat option" where
  "id_at_offset off t =
     (let ids = rev (sort (map fst (ring_rows t))) in if off < length ids then Some (ids ! off) else None)"

text \<open>
  \<^verbatim>\<open>DELETE ... WHERE id < (SELECT id ... OFFSET keep - 1 LIMIT 1)\<close>: a comparison with \<^verbatim>\<open>NULL\<close> deletes
  nothing, and a negative \<^verbatim>\<open>OFFSET\<close> is an error. The number of deleted rows comes with the table.
\<close>

definition ring_prune :: "nat \<Rightarrow> 'r ring \<Rightarrow> (nat \<times> 'r ring) result" where
  "ring_prune keep t =
     (if keep = 0 then Inl (Error ''OFFSET must not be negative'')
      else (case id_at_offset (keep - 1) t of
              None \<Rightarrow> Inr (0, t)
            | Some i \<Rightarrow> Inr (length (filter (\<lambda>(k, r). k < i) (ring_rows t)),
                            t\<lparr>ring_rows := filter (\<lambda>(k, r). \<not> k < i) (ring_rows t)\<rparr>)))"

text \<open>The transaction of the repositories' append: an error rolls the insert back.\<close>

definition ring_push :: "nat \<Rightarrow> 'r \<Rightarrow> 'r ring \<Rightarrow> 'r ring result" where
  "ring_push cap r t = bind_result (ring_prune cap (ring_insert r t)) (\<lambda>(n, t'). Inr t')"

definition committed :: "'r ring result \<Rightarrow> 'r ring \<Rightarrow> 'r ring" where
  "committed res t = (case res of Inl e \<Rightarrow> t | Inr t' \<Rightarrow> t')"

text \<open>\<^verbatim>\<open>SELECT ... FROM (SELECT * ... ORDER BY id DESC LIMIT limit) ORDER BY id ASC\<close>\<close>

definition ring_newest :: "nat \<Rightarrow> 'r ring \<Rightarrow> 'r list" where
  "ring_newest limit t = map snd (sort_key fst (take limit (rev (sort_key fst (ring_rows t)))))"

text \<open>\<^verbatim>\<open>ORDER BY id DESC LIMIT limit\<close>\<close>

definition ring_newest_first :: "nat \<Rightarrow> 'r ring \<Rightarrow> 'r list" where
  "ring_newest_first limit t = map snd (take limit (rev (sort_key fst (ring_rows t))))"

definition ring_count :: "'r ring \<Rightarrow> nat" where
  "ring_count t = length (ring_rows t)"

section \<open>What the statements do\<close>

definition ring_ok :: "'r ring \<Rightarrow> bool" where
  "ring_ok t \<longleftrightarrow> sorted_wrt (<) (map fst (ring_rows t)) \<and> (\<forall>(k, r) \<in> set (ring_rows t). k < next_id t)"

definition ring_entries :: "'r ring \<Rightarrow> 'r list" where
  "ring_entries t = map snd (ring_rows t)"

lemma ring_ok_empty [simp]: "ring_ok ring_empty"
  by (simp add: ring_ok_def ring_empty_def)

lemma ring_entries_empty [simp]: "ring_entries ring_empty = []"
  by (simp add: ring_entries_def ring_empty_def)

lemma ring_ok_insert: "ring_ok t \<Longrightarrow> ring_ok (ring_insert r t)"
  by (auto simp: ring_ok_def ring_insert_def sorted_wrt_append)

lemma strict_sorted_sort:
  assumes "sorted_wrt (<) (map fst xs)"
  shows "sort (map fst xs) = map (fst :: 'k::linorder \<times> 'r \<Rightarrow> 'k) xs" and "sort_key fst xs = xs"
proof -
  have s: "sorted (map fst xs)" using assms by (rule strict_sorted_imp_sorted)
  then show "sort (map fst xs) = map fst xs" by (rule sorted_sort_id)
  show "sort_key fst xs = xs" by (rule sort_key_id_if_sorted [OF s])
qed

lemma filter_from_index:
  assumes "sorted_wrt (<) (map fst xs)" and "i < length xs"
  shows "filter (\<lambda>(k, r). \<not> k < fst (xs ! i)) xs = drop i (xs :: ('k::linorder \<times> 'r) list)"
proof -
  let ?P = "\<lambda>(k, r). \<not> k < fst (xs ! i)"
  have lt: "fst (xs ! a) < fst (xs ! b)" if "a < b" "b < length xs" for a b
    using sorted_wrt_nth_less [OF assms(1), of a b] that by simp
  have "filter ?P (take i xs) = []"
  proof -
    have "\<not> ?P x" if "x \<in> set (take i xs)" for x
    proof -
      from that obtain a where "a < i" "x = xs ! a" using assms(2) by (auto simp: in_set_conv_nth)
      with lt [of a i] assms(2) show ?thesis by (auto simp: case_prod_unfold)
    qed
    then show ?thesis by (simp add: filter_empty_conv)
  qed
  moreover have "filter ?P (drop i xs) = drop i xs"
  proof -
    have "?P x" if "x \<in> set (drop i xs)" for x
    proof -
      from that obtain a where a: "a < length xs - i" "x = xs ! (i + a)"
        using assms(2) by (auto simp: in_set_conv_nth)
      then have "i + a < length xs" by linarith
      with a have "\<not> fst x < fst (xs ! i)" using lt [of i "i + a"] by (cases "a = 0") auto
      then show ?thesis by (simp add: case_prod_unfold)
    qed
    then show ?thesis by simp
  qed
  ultimately show ?thesis using filter_append [of ?P "take i xs" "drop i xs"] by simp
qed

lemma id_at_offset_sorted:
  assumes "sorted_wrt (<) (map fst (ring_rows t))"
  shows "id_at_offset off t =
    (if off < length (ring_rows t) then Some (fst (ring_rows t ! (length (ring_rows t) - Suc off))) else None)"
  using strict_sorted_sort(1) [OF assms] by (simp add: id_at_offset_def rev_nth)

lemma ring_ok_drop: "ring_ok t \<Longrightarrow> ring_ok (t\<lparr>ring_rows := drop n (ring_rows t)\<rparr>)"
  by (auto simp: ring_ok_def sorted_wrt_drop simp flip: drop_map dest: in_set_dropD)

lemma ring_prune_ok:
  assumes "ring_ok t" and "0 < keep"
  obtains t' where "ring_prune keep t = Inr (ring_count t - keep, t')" and "ring_ok t'"
    and "ring_entries t' = keep_last keep (ring_entries t)"
proof (cases "keep - 1 < length (ring_rows t)")
  case False
  then have "ring_prune keep t = Inr (ring_count t - keep, t)"
    using assms by (simp add: ring_prune_def id_at_offset_def Let_def ring_count_def)
  moreover have "ring_entries t = keep_last keep (ring_entries t)"
    using False by (simp add: ring_entries_def)
  ultimately show ?thesis using that assms(1) by blast
next
  case True
  let ?n = "length (ring_rows t) - keep"
  have s: "sorted_wrt (<) (map fst (ring_rows t))" using assms(1) by (simp add: ring_ok_def)
  have i: "?n < length (ring_rows t)" using True assms(2) by simp
  have f: "filter (\<lambda>(k, r). \<not> k < fst (ring_rows t ! ?n)) (ring_rows t) = drop ?n (ring_rows t)"
    by (rule filter_from_index [OF s i])
  have "length (filter (\<lambda>(k, r). k < fst (ring_rows t ! ?n)) (ring_rows t)) + length (drop ?n (ring_rows t)) =
      length (ring_rows t)"
    using sum_length_filter_compl [of "\<lambda>(k, r). k < fst (ring_rows t ! ?n)" "ring_rows t"] f
    by (simp add: case_prod_unfold)
  then have "ring_prune keep t = Inr (ring_count t - keep, t\<lparr>ring_rows := drop ?n (ring_rows t)\<rparr>)"
    using True assms(2) f by (simp add: ring_prune_def id_at_offset_sorted [OF s] ring_count_def)
  then show ?thesis using that ring_ok_drop [OF assms(1)] by (simp add: ring_entries_def keep_last_def drop_map)
qed

text \<open>An append keeps the newest \<open>cap\<close> entries.\<close>

lemma ring_push_ok:
  assumes "ring_ok t" and "0 < cap"
  shows "ring_ok (committed (ring_push cap r t) t)"
    and "ring_entries (committed (ring_push cap r t) t) = keep_last cap (ring_entries t @ [r])"
proof -
  obtain t' where "ring_prune cap (ring_insert r t) = Inr (ring_count (ring_insert r t) - cap, t')" "ring_ok t'"
    "ring_entries t' = keep_last cap (ring_entries (ring_insert r t))"
    using ring_prune_ok [OF ring_ok_insert [OF assms(1)] assms(2)] by blast
  then show "ring_ok (committed (ring_push cap r t) t)"
    "ring_entries (committed (ring_push cap r t) t) = keep_last cap (ring_entries t @ [r])"
    by (simp_all add: ring_push_def committed_def ring_entries_def ring_insert_def)
qed

text \<open>A read returns the newest entries, oldest first (or newest first).\<close>

lemma ring_newest_ok: "ring_ok t \<Longrightarrow> ring_newest limit t = keep_last limit (ring_entries t)"
proof -
  assume "ring_ok t"
  then have s: "sorted_wrt (<) (map fst (ring_rows t))" by (simp add: ring_ok_def)
  let ?d = "drop (length (ring_rows t) - limit) (ring_rows t)"
  have "take limit (rev (ring_rows t)) = rev ?d" by (simp add: take_rev)
  moreover have "sort_key fst (rev ?d) = ?d"
  proof -
    have "sorted_wrt (<) (map fst ?d)" using s by (simp add: sorted_wrt_drop flip: drop_map)
    then have d: "sorted (map fst ?d)" "inj_on fst (set ?d)"
      by (simp_all add: strict_sorted_imp_sorted strict_sorted_iff distinct_map)
    then show ?thesis by (intro sort_key_inj_key_eq) simp_all
  qed
  ultimately show ?thesis
    by (simp add: ring_newest_def strict_sorted_sort(2) [OF s] ring_entries_def keep_last_def drop_map)
qed

lemma ring_newest_first_ok: "ring_ok t \<Longrightarrow> ring_newest_first limit t = rev (keep_last limit (ring_entries t))"
  by (simp add: ring_newest_first_def strict_sorted_sort(2) ring_ok_def ring_entries_def keep_last_def take_rev
      rev_map drop_map)

end
