(* ===== verification/Write_Chain.thy ===== *)
theory Write_Chain
  imports Prelude
begin

text \<open>
  The write-through discipline of the state stores: \<^verbatim>\<open>src/state/write-chain.ts\<close> and the pattern every
  store follows (a mutation updates memory and pushes the matching repository call).

  A queued repository call is a value of some type \<open>'w\<close>. The promise chain \<^verbatim>\<open>tail\<close> is the list of
  calls not yet finished, whose head is being attempted for the \<open>attempt\<close>-th time. How the database
  answers one attempt is not up to the program: the statement may be committed, may fail without
  effect, or may be committed while the answer is lost (a connection reset after the commit), which
  the client cannot tell from a failure. \<open>dropped\<close> collects the calls the chain gave up on, the ones
  its error log names.

  The locale \<open>write_through\<close> is the contract between a store and its repository; its client lemmas
  say that memory and database cannot drift apart, whatever the interleaving. Every store
  interprets it on its own operations.
\<close>

section \<open>The chain\<close>

definition RETRY_DELAYS_MS :: "nat list" where
  "RETRY_DELAYS_MS = [500, 2000, 5000]"

record 'w WriteChain =
  enabled :: bool
  retryDelaysMs :: "nat list"
  tail :: "'w list"
  attempt :: nat
  dropped :: "'w list"

definition new_chain :: "nat list \<Rightarrow> 'w WriteChain" where
  "new_chain delays =
     \<lparr>enabled = False, retryDelaysMs = delays, tail = [], attempt = 0, dropped = []\<rparr>"

definition enable :: "'w WriteChain \<Rightarrow> 'w WriteChain" where
  "enable c = c\<lparr>enabled := True\<rparr>"

definition push :: "'w \<Rightarrow> 'w WriteChain \<Rightarrow> 'w WriteChain" where
  "push w c = (if \<not> enabled c then c else c\<lparr>tail := tail c @ [w]\<rparr>)"

datatype db_answer = Ack millis | Nack | LostAck millis

text \<open>One attempt settles: the loop body from \<^verbatim>\<open>await write()\<close> to the next attempt, or out of the loop.\<close>

definition attempt_settles ::
  "(millis \<Rightarrow> 'w \<Rightarrow> 'db \<Rightarrow> 'db) \<Rightarrow> db_answer \<Rightarrow> 'w WriteChain \<times> 'db \<Rightarrow> 'w WriteChain \<times> 'db" where
  "attempt_settles run answer = (\<lambda>(c, db).
     (case tail c of
        [] \<Rightarrow> (c, db)
      | w # rest \<Rightarrow>
          (let retry = (if attempt c \<ge> length (retryDelaysMs c)
                        then c\<lparr>tail := rest, attempt := 0, dropped := dropped c @ [w]\<rparr>
                        else c\<lparr>attempt := attempt c + 1\<rparr>)
           in (case answer of
                 Ack now \<Rightarrow> (c\<lparr>tail := rest, attempt := 0\<rparr>, run now w db)
               | Nack \<Rightarrow> (retry, db)
               | LostAck now \<Rightarrow> (retry, run now w db)))))"

text \<open>\<^verbatim>\<open>drain()\<close> awaits the tail: the chain is drained when no call is left.\<close>

definition drained :: "'w WriteChain \<Rightarrow> bool" where
  "drained c \<longleftrightarrow> tail c = []"

fun settle_all_answers ::
  "(millis \<Rightarrow> 'w \<Rightarrow> 'db \<Rightarrow> 'db) \<Rightarrow> db_answer list \<Rightarrow> 'w WriteChain \<times> 'db \<Rightarrow> 'w WriteChain \<times> 'db" where
  "settle_all_answers run [] s = s"
| "settle_all_answers run (a # as) s = settle_all_answers run as (attempt_settles run a s)"

lemmas chain_defs = new_chain_def enable_def push_def attempt_settles_def drained_def

section \<open>The chain alone: it always drains\<close>

text \<open>The attempts the chain can still make before it is empty.\<close>

definition attempts_left :: "'w WriteChain \<Rightarrow> nat" where
  "attempts_left c =
     (if tail c = [] then 0
      else length (tail c) * Suc (length (retryDelaysMs c)) - min (attempt c) (length (retryDelaysMs c)))"

lemma attempts_left_settles:
  "tail c \<noteq> [] \<Longrightarrow> attempts_left (fst (attempt_settles run a (c, db))) < attempts_left c"
  by (cases a) (auto simp: attempts_left_def attempt_settles_def Let_def min_def split: list.splits)

lemma settles_drained: "tail c = [] \<Longrightarrow> attempt_settles run a (c, db) = (c, db)"
  by (simp add: attempt_settles_def)

lemma settle_all_drains:
  "attempts_left c \<le> length as \<Longrightarrow> drained (fst (settle_all_answers run as (c, db)))"
proof (induction as arbitrary: c db)
  case Nil
  have "tail c = []"
  proof (rule ccontr)
    assume "tail c \<noteq> []"
    then have "0 < attempts_left c" by (cases "tail c") (auto simp: attempts_left_def)
    with Nil show False by simp
  qed
  then show ?case by (simp add: drained_def)
next
  case (Cons a as)
  obtain c' db' where s: "attempt_settles run a (c, db) = (c', db')" by fastforce
  have "attempts_left c' \<le> length as"
  proof (cases "tail c = []")
    case True
    with s show ?thesis by (simp add: settles_drained attempts_left_def)
  next
    case False
    then show ?thesis using attempts_left_settles [of c run a db] Cons.prems s by simp
  qed
  then show ?case using Cons.IH [of c' db'] s by simp
qed

section \<open>A store and its repository\<close>

text \<open>
  The joint state of a store: memory, chain, database. A mutation runs to completion (memory
  changes and the repository calls are pushed); the database answers an attempt at any time.
  With \<open>lossy\<close> false no answer gets lost.
\<close>

type_synonym ('m, 'w, 'db) store_world = "'m \<times> 'w WriteChain \<times> 'db"

inductive store_step ::
  "('op \<Rightarrow> 'm \<Rightarrow> 'm) \<Rightarrow> ('op \<Rightarrow> 'm \<Rightarrow> 'w list) \<Rightarrow> (millis \<Rightarrow> 'w \<Rightarrow> 'db \<Rightarrow> 'db) \<Rightarrow> ('op \<Rightarrow> bool) \<Rightarrow> bool \<Rightarrow>
   ('m, 'w, 'db) store_world \<Rightarrow> ('m, 'w, 'db) store_world \<Rightarrow> bool"
  for mutate calls run ok lossy where
  ss_mutate: "ok op \<Longrightarrow>
     store_step mutate calls run ok lossy (m, c, db) (mutate op m, fold push (calls op m) c, db)"
| ss_answer: "lossy \<or> (\<forall>now. a \<noteq> LostAck now) \<Longrightarrow> attempt_settles run a (c, db) = (c', db') \<Longrightarrow>
     store_step mutate calls run ok lossy (m, c, db) (m, c', db')"

inductive_cases store_stepE: "store_step mutate calls run ok lossy s t"

text \<open>\<^verbatim>\<open>init()\<close> of a store: read the table back, then arm the write-through.\<close>

definition store_init :: "('db \<Rightarrow> 'm) \<Rightarrow> 'db \<Rightarrow> ('m, 'w, 'db) store_world" where
  "store_init load db = (load db, enable (new_chain RETRY_DELAYS_MS), db)"

text \<open>A scripted run of the system: operations of the store and answers of the database, in order.\<close>

datatype 'op script_step = Op 'op | Db db_answer

fun run_script ::
  "('op \<Rightarrow> 'm \<Rightarrow> 'm) \<Rightarrow> ('op \<Rightarrow> 'm \<Rightarrow> 'w list) \<Rightarrow> (millis \<Rightarrow> 'w \<Rightarrow> 'db \<Rightarrow> 'db) \<Rightarrow> 'op script_step list \<Rightarrow>
   ('m, 'w, 'db) store_world \<Rightarrow> ('m, 'w, 'db) store_world" where
  "run_script mutate calls run [] s = s"
| "run_script mutate calls run (Op op # xs) (m, c, db) =
     run_script mutate calls run xs (mutate op m, fold push (calls op m) c, db)"
| "run_script mutate calls run (Db a # xs) (m, c, db) =
     run_script mutate calls run xs (m, attempt_settles run a (c, db))"

fun script_ok :: "('op \<Rightarrow> bool) \<Rightarrow> bool \<Rightarrow> 'op script_step \<Rightarrow> bool" where
  "script_ok ok lossy (Op op) = ok op"
| "script_ok ok lossy (Db (LostAck now)) = lossy"
| "script_ok ok lossy (Db _) = True"

lemma script_steps:
  "list_all (script_ok ok lossy) xs \<Longrightarrow>
   (store_step mutate calls run ok lossy)\<^sup>*\<^sup>* s (run_script mutate calls run xs s)"
proof (induction mutate calls run xs s rule: run_script.induct)
  case (2 mutate calls run op xs m c db)
  then have "(store_step mutate calls run ok lossy)\<^sup>*\<^sup>* (mutate op m, fold push (calls op m) c, db)
      (run_script mutate calls run (Op op # xs) (m, c, db))" by simp
  moreover have "store_step mutate calls run ok lossy (m, c, db) (mutate op m, fold push (calls op m) c, db)"
    using 2 by (intro ss_mutate) simp
  ultimately show ?case by (rule converse_rtranclp_into_rtranclp [rotated])
next
  case (3 mutate calls run a xs m c db)
  obtain c' db' where e: "attempt_settles run a (c, db) = (c', db')" by fastforce
  with 3 have "(store_step mutate calls run ok lossy)\<^sup>*\<^sup>* (m, c', db')
      (run_script mutate calls run (Db a # xs) (m, c, db))" by simp
  moreover have "store_step mutate calls run ok lossy (m, c, db) (m, c', db')"
    by (rule ss_answer [OF _ e]) (use 3 in \<open>cases a; simp\<close>)
  ultimately show ?case by (rule converse_rtranclp_into_rtranclp [rotated])
qed simp

lemma reach_script:
  "dinv db \<Longrightarrow> list_all (script_ok ok lossy) xs \<Longrightarrow>
   reach (\<lambda>s. \<exists>db. dinv db \<and> s = store_init load db) (store_step mutate calls run ok lossy)
     (run_script mutate calls run xs (store_init load db))"
  by (rule reach_steps [OF reach_init script_steps]) auto

lemma fold_push: "enabled c \<Longrightarrow> fold push ws c = c\<lparr>tail := tail c @ ws\<rparr>"
  by (induction ws arbitrary: c) (simp_all add: push_def)

locale write_through =
  fixes mutate :: "'op \<Rightarrow> 'm \<Rightarrow> 'm"
    and calls :: "'op \<Rightarrow> 'm \<Rightarrow> 'w list"
    and run :: "millis \<Rightarrow> 'w \<Rightarrow> 'db \<Rightarrow> 'db"
    and load :: "'db \<Rightarrow> 'm"
    and ok :: "'op \<Rightarrow> bool"
    and call_ok :: "'w \<Rightarrow> bool"
    and minv :: "'m \<Rightarrow> bool"
    and dinv :: "'db \<Rightarrow> bool"
    and mview :: "'m \<Rightarrow> 'v"
    and dview :: "'db \<Rightarrow> 'v"
    and vrun :: "'w \<Rightarrow> 'v \<Rightarrow> 'v"
  assumes run_view: "call_ok w \<Longrightarrow> dinv db \<Longrightarrow> dview (run now w db) = vrun w (dview db)"
    and run_inv: "dinv db \<Longrightarrow> dinv (run now w db)"
    and calls_ok: "ok op \<Longrightarrow> w \<in> set (calls op m) \<Longrightarrow> call_ok w"
    and mutate_view: "ok op \<Longrightarrow> minv m \<Longrightarrow> mview (mutate op m) = fold vrun (calls op m) (mview m)"
    and mutate_inv: "ok op \<Longrightarrow> minv m \<Longrightarrow> minv (mutate op m)"
    and load_view: "dinv db \<Longrightarrow> mview (load db) = dview db"
    and load_inv: "dinv db \<Longrightarrow> minv (load db)"
begin

definition in_sync :: "('m, 'w, 'db) store_world \<Rightarrow> bool" where
  "in_sync = (\<lambda>(m, c, db).
     minv m \<and> dinv db \<and> enabled c \<and> (\<forall>w \<in> set (tail c). call_ok w) \<and>
     (dropped c = [] \<longrightarrow> fold vrun (tail c) (dview db) = mview m))"

lemma in_sync_init: "dinv db \<Longrightarrow> in_sync (store_init load db)"
  by (simp add: in_sync_def store_init_def enable_def new_chain_def load_view load_inv)

lemma in_sync_mutate:
  assumes "in_sync (m, c, db)" and "ok op"
  shows "in_sync (mutate op m, fold push (calls op m) c, db)"
  using assms mutate_inv [OF assms(2)]
  by (auto simp: in_sync_def fold_push mutate_view dest: calls_ok)

lemma in_sync_answer:
  assumes s: "in_sync (m, c, db)" and a: "\<forall>now. a \<noteq> LostAck now"
    and e: "attempt_settles run a (c, db) = (c', db')"
  shows "in_sync (m, c', db')"
proof (cases "tail c")
  case Nil
  with e s show ?thesis by (simp add: settles_drained)
next
  case (Cons w rest)
  show ?thesis
  proof (cases a)
    case (Ack now)
    have "dview (run now w db) = vrun w (dview db)"
      using s Cons by (intro run_view) (auto simp: in_sync_def)
    with s e Cons Ack show ?thesis by (auto simp: in_sync_def attempt_settles_def run_inv)
  next
    case Nack
    with s e Cons show ?thesis by (auto simp: in_sync_def attempt_settles_def Let_def split: if_splits)
  next
    case (LostAck now)
    with a show ?thesis by blast
  qed
qed

lemma in_sync_step: "in_sync s \<Longrightarrow> store_step mutate calls run ok False s t \<Longrightarrow> in_sync t"
  by (erule store_stepE) (auto intro: in_sync_mutate in_sync_answer)

text \<open>A drained chain that dropped nothing means a restart reads back what memory holds.\<close>

lemma in_sync_restart:
  "in_sync (m, c, db) \<Longrightarrow> drained c \<Longrightarrow> dropped c = [] \<Longrightarrow> mview (load db) = mview m"
  by (simp add: in_sync_def drained_def load_view)

end

sublocale write_through \<subseteq> lossless:
  invariant_system "\<lambda>s. \<exists>db. dinv db \<and> s = store_init load db" "store_step mutate calls run ok False" in_sync
  by unfold_locales (auto intro: in_sync_init in_sync_step)

text \<open>
  Where running a call twice is running it once, retrying is harmless even when the answer to a
  committed statement was lost: upserts, updates and deletes by key are such calls.
\<close>

locale idempotent_write_through = write_through +
  assumes idem: "call_ok w \<Longrightarrow> vrun w (vrun w v) = vrun w v"
begin

lemma in_sync_lossy_answer:
  assumes s: "in_sync (m, c, db)" and e: "attempt_settles run a (c, db) = (c', db')"
  shows "in_sync (m, c', db')"
proof (cases "\<exists>now w rest. a = LostAck now \<and> tail c = w # rest")
  case True
  then obtain now w rest where a: "a = LostAck now" and t: "tail c = w # rest" by blast
  then have w: "call_ok w" "dinv db" using s by (auto simp: in_sync_def)
  then have "dview (run now w db) = vrun w (dview db)" by (rule run_view)
  with s e a t w show ?thesis
    by (auto simp: in_sync_def attempt_settles_def Let_def run_inv idem split: if_splits)
next
  case False
  show ?thesis
  proof (cases "tail c")
    case Nil
    with e s show ?thesis by (simp add: settles_drained)
  next
    case (Cons w rest)
    with False have "\<forall>now. a \<noteq> LostAck now" by auto
    with s show ?thesis using e by (rule in_sync_answer)
  qed
qed

lemma in_sync_lossy_step: "in_sync s \<Longrightarrow> store_step mutate calls run ok True s t \<Longrightarrow> in_sync t"
  by (erule store_stepE) (auto intro: in_sync_mutate in_sync_lossy_answer)

end

sublocale idempotent_write_through \<subseteq> lossy:
  invariant_system "\<lambda>s. \<exists>db. dinv db \<and> s = store_init load db" "store_step mutate calls run ok True" in_sync
  by unfold_locales (auto intro: in_sync_init in_sync_lossy_step)

section \<open>Properties of the chain\<close>

text \<open>
  The chain drains. Whatever the database answers, an enabled chain holding some calls is empty
  after at most four settled attempts per call (three retry delays), so \<^verbatim>\<open>flush()\<close> returns.
\<close>

theorem write_chain_drains:
  assumes "retryDelaysMs c = RETRY_DELAYS_MS" and "4 * length (tail c) \<le> length answers"
  shows "drained (fst (settle_all_answers run answers (c, db)))"
proof -
  have "attempts_left c \<le> length answers"
    using assms by (auto simp: attempts_left_def RETRY_DELAYS_MS_def)
  then show ?thesis by (rule settle_all_drains)
qed

theorem write_chain_drains_witness:
  "drained (fst (settle_all_answers (\<lambda>now w db. w # db) [Nack, Nack, Nack, Nack]
     (push (7::nat) (enable (new_chain RETRY_DELAYS_MS)), [])))"
proof (rule write_chain_drains)
  show "retryDelaysMs (push (7::nat) (enable (new_chain RETRY_DELAYS_MS))) = RETRY_DELAYS_MS"
    by (simp add: chain_defs)
  show "4 * length (tail (push (7::nat) (enable (new_chain RETRY_DELAYS_MS)))) \<le> length [Nack, Nack, Nack, Nack]"
    by (simp add: chain_defs)
qed

text \<open>
  Four attempts, then the call is dropped and the next one starts. A call whose first \<open>n\<close> attempts
  fail (\<open>n < 4\<close>) and whose next one is committed is applied exactly once and leaves the chain; a
  call that fails four times is dropped without effect; in both cases the calls behind it stay in
  order.
\<close>

theorem write_chain_retry:
  assumes "retryDelaysMs c = RETRY_DELAYS_MS" and "attempt c = 0" and "tail c = w # rest" and "n < 4"
  shows "settle_all_answers run (replicate n Nack @ [Ack now]) (c, db) =
           (c\<lparr>tail := rest\<rparr>, run now w db) \<and>
         settle_all_answers run (replicate 4 Nack) (c, db) =
           (c\<lparr>tail := rest, dropped := dropped c @ [w]\<rparr>, db)"
proof
  from assms(4) have "n = 0 \<or> n = 1 \<or> n = 2 \<or> n = 3" by auto
  then show "settle_all_answers run (replicate n Nack @ [Ack now]) (c, db) = (c\<lparr>tail := rest\<rparr>, run now w db)"
    using assms(1-3) by (elim disjE) (simp_all add: attempt_settles_def RETRY_DELAYS_MS_def numeral_eq_Suc)
  show "settle_all_answers run (replicate 4 Nack) (c, db) =
          (c\<lparr>tail := rest, dropped := dropped c @ [w]\<rparr>, db)"
    using assms(1-3) by (simp add: attempt_settles_def RETRY_DELAYS_MS_def numeral_eq_Suc)
qed

theorem write_chain_retry_witness:
  "snd (settle_all_answers (\<lambda>now w db. w # db) (replicate 3 Nack @ [Ack 0])
     (push (7::nat) (enable (new_chain RETRY_DELAYS_MS)), [])) = [7]"
proof -
  let ?c = "push (7::nat) (enable (new_chain RETRY_DELAYS_MS))"
  have c: "retryDelaysMs ?c = RETRY_DELAYS_MS" "attempt ?c = 0" "tail ?c = 7 # []"
    by (simp_all add: chain_defs)
  show ?thesis using write_chain_retry [OF c, of 3 "\<lambda>now w db. w # db" 0 "[]"] by simp
qed

end
