(* ===== verification/Keyed_Store.thy ===== *)
theory Keyed_Store
  imports Write_Chain
begin

text \<open>
  What the small stores of \<^verbatim>\<open>src/state\<close> have in common: memory is an ordered map from a key to an
  entry, the table one row per key, and every repository call writes a single row (or wipes the
  table). The locale \<open>keyed_store\<close> states this as laws over the store's operations and its
  repository's statements; that memory and table then agree on every key follows once, from the
  write-through contract, and each store interprets the locale.
\<close>

section \<open>Rows and records\<close>

text \<open>
  The body of the repositories' \<^verbatim>\<open>all()\<close> and of the stores' \<^verbatim>\<open>init\<close>: the rows are written one by one
  into an object, the object's entries one by one into the map.
\<close>

definition rows_to_record :: "('r \<Rightarrow> 'e) \<Rightarrow> (string, 'r) jsmap \<Rightarrow> (string, 'e) jsmap" where
  "rows_to_record entry_of t = fold (\<lambda>(k, r) out. AList.update k (entry_of r) out) t []"

lemma rows_to_record_append:
  "js_keys_ok (out @ map (\<lambda>(k, r). (k, f r)) t) \<Longrightarrow>
   fold (\<lambda>(k, r) out. AList.update k (f r) out) t out = out @ map (\<lambda>(k, r). (k, f r)) t"
proof (induction t arbitrary: out)
  case (Cons x t)
  obtain k r where x: "x = (k, r)" by (cases x)
  with Cons.prems have "k \<notin> set (map fst out)" by (auto simp: js_keys_ok_def)
  then have "AList.update k (f r) out = out @ [(k, f r)]" by (induction out) auto
  with Cons.IH [of "out @ [(k, f r)]"] Cons.prems x show ?case by simp
qed simp

lemma rows_to_record_eq: "js_keys_ok t \<Longrightarrow> rows_to_record f t = map (\<lambda>(k, r). (k, f r)) t"
  using rows_to_record_append [of "[]" f t] by (simp add: rows_to_record_def)

definition record_to_map :: "(string, 'e) jsmap \<Rightarrow> (string, 'e) jsmap" where
  "record_to_map rows = fold (\<lambda>(k, e) m. AList.update k e m) rows []"

lemma record_to_map_eq: "js_keys_ok t \<Longrightarrow> record_to_map t = t"
  using rows_to_record_append [of "[]" "\<lambda>e. e" t] by (simp add: record_to_map_def)

definition row_view :: "('r \<Rightarrow> 'e) \<Rightarrow> (string, 'r) jsmap \<Rightarrow> string \<rightharpoonup> 'e" where
  "row_view entry_of t = map_option entry_of \<circ> map_of t"

lemma row_view_update [simp]: "row_view f (AList.update k r t) = (row_view f t)(k \<mapsto> f r)"
  and row_view_delete [simp]: "row_view f (AList.delete k t) = (row_view f t)(k := None)"
  and row_view_Nil [simp]: "row_view f [] = Map.empty"
  by (auto simp: row_view_def)

lemma row_view_modify [simp]:
  "(\<And>r. f (g r) = h (f r)) \<Longrightarrow>
   row_view f (js_modify k g t) = (row_view f t)(k := map_option h (row_view f t k))"
  by (auto simp: row_view_def option.map_comp comp_def)

lemma load_rows [simp]:
  "js_keys_ok t \<Longrightarrow> map_of (record_to_map (rows_to_record f t)) = row_view f t"
  "js_keys_ok t \<Longrightarrow> js_keys_ok (record_to_map (rows_to_record f t))"
  by (simp_all add: rows_to_record_eq record_to_map_eq map_of_map_values row_view_def)

section \<open>The contract\<close>

locale keyed_store =
  fixes step :: "'op \<Rightarrow> (string, 'e) jsmap \<Rightarrow> (string, 'e) jsmap \<times> 'w list"
    and run :: "millis \<Rightarrow> 'w \<Rightarrow> (string, 'r) jsmap \<Rightarrow> (string, 'r) jsmap"
    and load :: "(string, 'r) jsmap \<Rightarrow> (string, 'e) jsmap"
    and entry_of :: "'r \<Rightarrow> 'e"
    and effect :: "'w \<Rightarrow> (string \<rightharpoonup> 'e) \<Rightarrow> string \<rightharpoonup> 'e"
  assumes run_effect: "row_view entry_of (run now w t) = effect w (row_view entry_of t)"
    and run_keys: "js_keys_ok t \<Longrightarrow> js_keys_ok (run now w t)"
    and step_effect: "map_of (fst (step op m)) = fold effect (snd (step op m)) (map_of m)"
    and step_keys: "js_keys_ok m \<Longrightarrow> js_keys_ok (fst (step op m))"
    and effect_idem: "effect w (effect w v) = effect w v"
    and map_of_load: "js_keys_ok t \<Longrightarrow> map_of (load t) = row_view entry_of t"
    and keys_load: "js_keys_ok t \<Longrightarrow> js_keys_ok (load t)"

sublocale keyed_store \<subseteq> idempotent_write_through
  "\<lambda>op m. fst (step op m)" "\<lambda>op m. snd (step op m)" run load "\<lambda>_. True" "\<lambda>_. True" js_keys_ok js_keys_ok
  map_of "row_view entry_of" effect
  by unfold_locales
    (simp_all add: run_effect run_keys step_effect step_keys effect_idem map_of_load keys_load)

context keyed_store
begin

text \<open>
  Whatever operations ran and however the database answered, memory is the table with the calls
  still queued applied, unless the chain gave up on one.
\<close>

lemma reachable_agree:
  assumes "reach (\<lambda>s. \<exists>db. js_keys_ok db \<and> s = store_init load db)
     (store_step (\<lambda>op m. fst (step op m)) (\<lambda>op m. snd (step op m)) run (\<lambda>_. True) True) (m, c, db)"
    and "dropped c = []"
  shows "map_of m = fold effect (tail c) (row_view entry_of db)"
  using lossy.reach_inv [OF assms(1)] assms(2) by (simp add: in_sync_def)

lemma restart_agree:
  assumes "reach (\<lambda>s. \<exists>db. js_keys_ok db \<and> s = store_init load db)
     (store_step (\<lambda>op m. fst (step op m)) (\<lambda>op m. snd (step op m)) run (\<lambda>_. True) True) (m, c, db)"
    and "drained c" and "dropped c = []"
  shows "map_of (load db) = map_of m"
proof -
  have s: "in_sync (m, c, db)" by (rule lossy.reach_inv [OF assms(1)])
  then show ?thesis using in_sync_restart assms(2,3) by blast
qed

end

text \<open>
  Calls that name the key they write: what the chain gave up on then only matters for the keys of the calls it dropped.
\<close>

locale rowwise_store = keyed_store step run load entry_of effect
  for step :: "'op \<Rightarrow> (string, 'e) jsmap \<Rightarrow> (string, 'e) jsmap \<times> 'w list"
    and run :: "millis \<Rightarrow> 'w \<Rightarrow> (string, 'r) jsmap \<Rightarrow> (string, 'r) jsmap"
    and load entry_of effect +
  fixes touches :: "'w \<Rightarrow> string \<Rightarrow> bool"
  assumes effect_at: "v k = v' k \<Longrightarrow> effect w v k = effect w v' k"
    and effect_elsewhere: "\<not> touches w k \<Longrightarrow> effect w v k = v k"
begin

definition sync_at :: "string \<Rightarrow> ((string, 'e) jsmap, 'w, (string, 'r) jsmap) store_world \<Rightarrow> bool" where
  "sync_at k = (\<lambda>(m, c, db). enabled c \<and> js_keys_ok db \<and>
     ((\<forall>w \<in> set (dropped c). \<not> touches w k) \<longrightarrow> fold effect (tail c) (row_view entry_of db) k = map_of m k))"

lemma fold_at: "v k = v' k \<Longrightarrow> fold effect ws v k = fold effect ws v' k"
proof (induction ws arbitrary: v v')
  case (Cons w ws)
  have "effect w v k = effect w v' k" using Cons.prems by (rule effect_at)
  then have "fold effect ws (effect w v) k = fold effect ws (effect w v') k" by (rule Cons.IH)
  then show ?case by simp
qed simp

lemma sync_at_init: "js_keys_ok db \<Longrightarrow> sync_at k (store_init load db)"
  by (simp add: sync_at_def store_init_def enable_def new_chain_def map_of_load)

lemma sync_at_mutate:
  assumes "sync_at k (m, c, db)"
  shows "sync_at k (fst (step op m), fold push (snd (step op m)) c, db)"
  using assms fold_at [of "fold effect (tail c) (row_view entry_of db)" k "map_of m" "snd (step op m)"]
  by (auto simp: sync_at_def fold_push step_effect)

lemma sync_at_answer:
  assumes s: "sync_at k (m, c, db)" and e: "attempt_settles run a (c, db) = (c', db')"
  shows "sync_at k (m, c', db')"
proof (cases "tail c")
  case Nil
  with e s show ?thesis by (simp add: settles_drained)
next
  case (Cons w rest)
  let ?v = "row_view entry_of db"
  have skip: "fold effect rest ?v k = fold effect rest (effect w ?v) k" if "\<not> touches w k"
    using that by (intro fold_at) (simp add: effect_elsewhere)
  show ?thesis
    using s e Cons skip
    by (cases a) (auto simp: sync_at_def attempt_settles_def Let_def run_effect run_keys effect_idem split: if_splits)
qed

lemma sync_at_step:
  "sync_at k s \<Longrightarrow> store_step (\<lambda>op m. fst (step op m)) (\<lambda>op m. snd (step op m)) run (\<lambda>_. True) True s t \<Longrightarrow> sync_at k t"
  by (erule store_stepE) (auto intro: sync_at_mutate sync_at_answer)

end

sublocale rowwise_store \<subseteq> rows: invariant_system
  "\<lambda>s. \<exists>db. js_keys_ok db \<and> s = store_init load db"
  "store_step (\<lambda>op m. fst (step op m)) (\<lambda>op m. snd (step op m)) run (\<lambda>_. True) True" "\<lambda>s. \<forall>k. sync_at k s"
  by unfold_locales (auto intro: sync_at_init sync_at_step)

context rowwise_store
begin

lemma reachable_agree_at:
  assumes "reach (\<lambda>s. \<exists>db. js_keys_ok db \<and> s = store_init load db)
     (store_step (\<lambda>op m. fst (step op m)) (\<lambda>op m. snd (step op m)) run (\<lambda>_. True) True) (m, c, db)"
    and "\<And>w. w \<in> set (dropped c) \<Longrightarrow> \<not> touches w k"
  shows "map_of m k = fold effect (tail c) (row_view entry_of db) k" and "js_keys_ok db"
proof -
  have "sync_at k (m, c, db)" using rows.reach_inv [OF assms(1)] by blast
  with assms(2) show "map_of m k = fold effect (tail c) (row_view entry_of db) k" "js_keys_ok db" by (auto simp: sync_at_def)
qed

lemma restart_agree_at:
  assumes "reach (\<lambda>s. \<exists>db. js_keys_ok db \<and> s = store_init load db)
     (store_step (\<lambda>op m. fst (step op m)) (\<lambda>op m. snd (step op m)) run (\<lambda>_. True) True) (m, c, db)"
    and "\<And>w. w \<in> set (dropped c) \<Longrightarrow> \<not> touches w k" and "drained c"
  shows "map_of (load db) k = map_of m k"
  using reachable_agree_at [OF assms(1,2)] assms(3) by (simp add: drained_def map_of_load)

end

end
