(* ===== verification/Activity_Log.thy ===== *)
theory Activity_Log
  imports Write_Chain Ring_Table Keyed_Store
begin

text \<open>
  The two feeds of the dashboard, \<^verbatim>\<open>src/state/activity-log.ts\<close>, their repositories
  \<^verbatim>\<open>src/state/repo/events.ts\<close> and \<^verbatim>\<open>src/state/repo/swapHistory.ts\<close>, and the event counter of
  \<^verbatim>\<open>src/dashboard/metrics.ts\<close>.

  An append changes the array and pushes one repository call; the call is an \<^verbatim>\<open>INSERT\<close>, so running it
  twice is not running it once: the store meets the write-through contract as long as no
  acknowledgement is lost, and a theorem shows what happens when one is. A queued call keeps the
  entry by value: the only code that changes an entry afterwards is \<^verbatim>\<open>backfillEventPools\<close>, which
  \<^verbatim>\<open>main\<close> calls once, before the first append. It labels events in memory and not in the table, so
  memory and table are compared up to the pool label of an event.
\<close>

definition truthy :: "string option \<Rightarrow> bool" where
  "truthy x \<longleftrightarrow> (case x of None \<Rightarrow> False | Some s \<Rightarrow> s \<noteq> [])"

lemma truthy_simps [simp]: "\<not> truthy None" "truthy (Some s) \<longleftrightarrow> s \<noteq> []"
  by (simp_all add: truthy_def)

lemma truthyE: "truthy x \<Longrightarrow> (\<And>s. x = Some s \<Longrightarrow> s \<noteq> [] \<Longrightarrow> P) \<Longrightarrow> P"
  by (cases x) auto

section \<open>Data\<close>

record EventLogEntry =
  ev_ts :: millis
  ev_type :: string
  ev_targetWallet :: string
  ev_targetNft :: "string option"
  ev_ourNft :: "string option"
  ev_txSig :: "string option"
  ev_success :: bool
  ev_error :: "string option"
  ev_pool :: "string option"
  ev_dex :: "string option"

record SwapHistoryEntry =
  sw_ts :: millis
  sw_inputMint :: string
  sw_txSig :: string
  sw_inputAmountRaw :: "string option"
  sw_inputDecimals :: "nat option"
  sw_outputAmountRaw :: "string option"

record EventRow =
  row_ts :: millis
  row_type :: string
  row_target_wallet :: string
  row_target_nft :: "string option"
  row_our_nft :: "string option"
  row_tx_sig :: "string option"
  row_success :: bool
  row_error :: "string option"
  row_pool :: "string option"
  row_dex :: "string option"

record SwapRow =
  srow_ts :: millis
  srow_input_mint :: string
  srow_tx_sig :: string
  srow_input_amount_raw :: "string option"
  srow_input_decimals :: "nat option"
  srow_output_amount_raw :: "string option"

definition MAX_EVENTS :: nat where "MAX_EVENTS = 1000"
definition MAX_SWAP_HISTORY :: nat where "MAX_SWAP_HISTORY = 40"

lemma caps_positive [simp]: "0 < MAX_EVENTS" "0 < MAX_SWAP_HISTORY"
  by (simp_all add: MAX_EVENTS_def MAX_SWAP_HISTORY_def)

section \<open>The repositories\<close>

record activity_db =
  db_events :: "EventRow ring"
  db_event_pool_map :: "(string, string) jsmap"
  db_swap_history :: "SwapRow ring"

definition event_toEntry :: "EventRow \<Rightarrow> EventLogEntry" where
  "event_toEntry row =
     \<lparr>ev_ts = row_ts row, ev_type = row_type row, ev_targetWallet = row_target_wallet row,
      ev_targetNft = row_target_nft row, ev_ourNft = row_our_nft row, ev_txSig = row_tx_sig row,
      ev_success = row_success row, ev_error = row_error row, ev_pool = row_pool row, ev_dex = row_dex row\<rparr>"

definition event_values :: "EventLogEntry \<Rightarrow> EventRow" where
  "event_values entry =
     \<lparr>row_ts = ev_ts entry, row_type = ev_type entry, row_target_wallet = ev_targetWallet entry,
      row_target_nft = ev_targetNft entry, row_our_nft = ev_ourNft entry, row_tx_sig = ev_txSig entry,
      row_success = ev_success entry, row_error = ev_error entry, row_pool = ev_pool entry, row_dex = ev_dex entry\<rparr>"

definition swap_toEntry :: "SwapRow \<Rightarrow> SwapHistoryEntry" where
  "swap_toEntry row =
     \<lparr>sw_ts = srow_ts row, sw_inputMint = srow_input_mint row, sw_txSig = srow_tx_sig row,
      sw_inputAmountRaw = srow_input_amount_raw row, sw_inputDecimals = srow_input_decimals row,
      sw_outputAmountRaw = srow_output_amount_raw row\<rparr>"

definition swap_values :: "SwapHistoryEntry \<Rightarrow> SwapRow" where
  "swap_values entry =
     \<lparr>srow_ts = sw_ts entry, srow_input_mint = sw_inputMint entry, srow_tx_sig = sw_txSig entry,
      srow_input_amount_raw = sw_inputAmountRaw entry, srow_input_decimals = sw_inputDecimals entry,
      srow_output_amount_raw = sw_outputAmountRaw entry\<rparr>"

lemma entry_of_values [simp]: "event_toEntry (event_values e) = e" "swap_toEntry (swap_values s) = s"
  by (simp_all add: event_toEntry_def event_values_def swap_toEntry_def swap_values_def)

text \<open>\<^verbatim>\<open>append\<close>: insert, refresh the lookup, trim; an error anywhere rolls all three back.\<close>

definition events_append :: "EventLogEntry \<Rightarrow> nat \<Rightarrow> activity_db \<Rightarrow> activity_db result" where
  "events_append entry cap db =
     (let inserted = ring_insert (event_values entry) (db_events db);
          pools = (case (ev_targetNft entry, ev_pool entry) of
              (Some nft, Some p) \<Rightarrow>
                if nft \<noteq> [] \<and> p \<noteq> [] then AList.update nft p (db_event_pool_map db) else db_event_pool_map db
            | _ \<Rightarrow> db_event_pool_map db)
      in bind_result (ring_prune cap inserted) (\<lambda>(n, t).
           Inr (db\<lparr>db_events := t, db_event_pool_map := pools\<rparr>)))"

definition events_recent :: "nat \<Rightarrow> activity_db \<Rightarrow> EventLogEntry list" where
  "events_recent limit db = map event_toEntry (ring_newest limit (db_events db))"

definition events_count :: "activity_db \<Rightarrow> nat" where
  "events_count db = ring_count (db_events db)"

definition events_prune :: "nat \<Rightarrow> activity_db \<Rightarrow> (nat \<times> activity_db) result" where
  "events_prune keep db =
     bind_result (ring_prune keep (db_events db)) (\<lambda>(n, t). Inr (n, db\<lparr>db_events := t\<rparr>))"

definition events_getPoolFor :: "string \<Rightarrow> activity_db \<Rightarrow> string option" where
  "events_getPoolFor targetNft db = map_of (db_event_pool_map db) targetNft"

definition events_setPoolFor :: "string \<Rightarrow> string \<Rightarrow> activity_db \<Rightarrow> activity_db" where
  "events_setPoolFor targetNft pool db =
     db\<lparr>db_event_pool_map := AList.update targetNft pool (db_event_pool_map db)\<rparr>"

definition events_poolMap :: "activity_db \<Rightarrow> (string, string) jsmap" where
  "events_poolMap db = rows_to_record (\<lambda>p. p) (db_event_pool_map db)"

definition swapHistory_push :: "SwapHistoryEntry \<Rightarrow> nat \<Rightarrow> activity_db \<Rightarrow> activity_db result" where
  "swapHistory_push entry cap db =
     bind_result (ring_push cap (swap_values entry) (db_swap_history db)) (\<lambda>t. Inr (db\<lparr>db_swap_history := t\<rparr>))"

definition swapHistory_list :: "nat \<Rightarrow> activity_db \<Rightarrow> SwapHistoryEntry list" where
  "swapHistory_list limit db = map swap_toEntry (ring_newest limit (db_swap_history db))"

definition swapHistory_count :: "activity_db \<Rightarrow> nat" where
  "swapHistory_count db = ring_count (db_swap_history db)"

section \<open>The store\<close>

text \<open>The counter \<^verbatim>\<open>copybot_events_total\<close>, by its labels.\<close>

type_synonym event_labels = "string \<times> string \<times> string"

record activity =
  eventLog :: "EventLogEntry list"
  swapHistory :: "SwapHistoryEntry list"
  poolMap :: "(string, string) jsmap"
  eventsTotal :: "(event_labels, nat) jsmap"

datatype activity_call =
    AL_event EventLogEntry
  | AL_swap SwapHistoryEntry
  | AL_setPool string string

definition recordEvent :: "EventLogEntry \<Rightarrow> (event_labels, nat) jsmap \<Rightarrow> (event_labels, nat) jsmap" where
  "recordEvent entry counter =
     (let labels = (ev_type entry, (if truthy (ev_dex entry) then the (ev_dex entry) else ''none''),
                    (if ev_success entry then ''true'' else ''false''))
      in AList.update labels ((case map_of counter labels of None \<Rightarrow> 0 | Some n \<Rightarrow> n) + 1) counter)"

definition initActivityLog :: "activity_db \<Rightarrow> activity" where
  "initActivityLog db =
     \<lparr>eventLog = events_recent MAX_EVENTS db, swapHistory = swapHistory_list MAX_SWAP_HISTORY db,
      poolMap = events_poolMap db, eventsTotal = []\<rparr>"

definition pushEvent :: "EventLogEntry \<Rightarrow> string option \<Rightarrow> activity \<Rightarrow> activity \<times> activity_call list" where
  "pushEvent entry0 dex m =
     (let entry = (if truthy dex \<and> \<not> truthy (ev_dex entry0) then entry0\<lparr>ev_dex := dex\<rparr> else entry0);
          pools = (if truthy (ev_pool entry) \<and> truthy (ev_targetNft entry)
                   then AList.update (the (ev_targetNft entry)) (the (ev_pool entry)) (poolMap m) else poolMap m)
      in (m\<lparr>poolMap := pools, eventsTotal := recordEvent entry (eventsTotal m),
            eventLog := shift_while MAX_EVENTS (eventLog m @ [entry])\<rparr>,
          [AL_event entry]))"

definition pushSwap :: "SwapHistoryEntry \<Rightarrow> activity \<Rightarrow> activity \<times> activity_call list" where
  "pushSwap entry m =
     (m\<lparr>swapHistory := shift_while MAX_SWAP_HISTORY (swapHistory m @ [entry])\<rparr>, [AL_swap entry])"

text \<open>One round of the learning loops of \<^verbatim>\<open>backfillEventPools\<close>.\<close>

definition learn_pool ::
  "string \<times> string \<Rightarrow> (string, string) jsmap \<times> activity_call list \<Rightarrow> (string, string) jsmap \<times> activity_call list" where
  "learn_pool = (\<lambda>(targetNft, pool) (pools, calls).
     if truthy (map_of pools targetNft) then (pools, calls)
     else (AList.update targetNft pool pools, calls @ [AL_setPool targetNft pool]))"

definition labelled_events :: "EventLogEntry list \<Rightarrow> (string \<times> string) list" where
  "labelled_events evts =
     map (\<lambda>e. (the (ev_targetNft e), the (ev_pool e)))
       (filter (\<lambda>e. truthy (ev_pool e) \<and> truthy (ev_targetNft e)) evts)"

definition needs_label :: "(string, string) jsmap \<Rightarrow> EventLogEntry \<Rightarrow> bool" where
  "needs_label pools evt \<longleftrightarrow> \<not> truthy (ev_pool evt) \<and> truthy (ev_targetNft evt) \<and>
     truthy (map_of pools (the (ev_targetNft evt)))"

definition backfillEventPools ::
  "(string, string) jsmap \<Rightarrow> activity \<Rightarrow> (nat \<times> nat) \<times> activity \<times> activity_call list" where
  "backfillEventPools positionPools m =
     (let (pools1, calls1) = fold learn_pool positionPools (poolMap m, []);
          (pools, calls) = fold learn_pool (labelled_events (eventLog m)) (pools1, calls1);
          backfilled = length (filter (needs_label pools) (eventLog m));
          relabelled = map (\<lambda>e. if needs_label pools e
              then e\<lparr>ev_pool := map_of pools (the (ev_targetNft e))\<rparr> else e) (eventLog m)
      in ((backfilled, length pools), m\<lparr>poolMap := pools, eventLog := relabelled\<rparr>, calls))"

section \<open>The store as a write-through system\<close>

datatype activity_op =
    AO_event EventLogEntry "string option"
  | AO_swap SwapHistoryEntry
  | AO_backfill "(string, string) jsmap"

fun activity_step :: "activity_op \<Rightarrow> activity \<Rightarrow> activity \<times> activity_call list" where
  "activity_step (AO_event e d) m = pushEvent e d m"
| "activity_step (AO_swap s) m = pushSwap s m"
| "activity_step (AO_backfill ps) m = snd (backfillEventPools ps m)"

definition settled :: "'d result \<Rightarrow> 'd \<Rightarrow> 'd" where
  "settled res db = (case res of Inl e \<Rightarrow> db | Inr db' \<Rightarrow> db')"

fun activity_run :: "millis \<Rightarrow> activity_call \<Rightarrow> activity_db \<Rightarrow> activity_db" where
  "activity_run now (AL_event e) db = settled (events_append e MAX_EVENTS db) db"
| "activity_run now (AL_swap s) db = settled (swapHistory_push s MAX_SWAP_HISTORY db) db"
| "activity_run now (AL_setPool nft p) db = events_setPoolFor nft p db"

text \<open>What memory and table are compared on: the events without their pool labels, the swaps, the lookup.\<close>

definition unlabelled :: "EventLogEntry \<Rightarrow> EventLogEntry" where
  "unlabelled e = e\<lparr>ev_pool := None\<rparr>"

type_synonym activity_view = "EventLogEntry list \<times> SwapHistoryEntry list \<times> (string \<rightharpoonup> string)"

definition activity_mview :: "activity \<Rightarrow> activity_view" where
  "activity_mview m = (map unlabelled (eventLog m), swapHistory m, map_of (poolMap m))"

definition activity_dview :: "activity_db \<Rightarrow> activity_view" where
  "activity_dview db =
     (keep_last MAX_EVENTS (map (unlabelled \<circ> event_toEntry) (ring_entries (db_events db))),
      keep_last MAX_SWAP_HISTORY (map swap_toEntry (ring_entries (db_swap_history db))),
      map_of (db_event_pool_map db))"

fun activity_effect :: "activity_call \<Rightarrow> activity_view \<Rightarrow> activity_view" where
  "activity_effect (AL_event e) (es, ss, pm) =
     (keep_last MAX_EVENTS (es @ [unlabelled e]), ss,
      if truthy (ev_pool e) \<and> truthy (ev_targetNft e) then pm(the (ev_targetNft e) \<mapsto> the (ev_pool e)) else pm)"
| "activity_effect (AL_swap s) (es, ss, pm) = (es, keep_last MAX_SWAP_HISTORY (ss @ [s]), pm)"
| "activity_effect (AL_setPool nft p) (es, ss, pm) = (es, ss, pm(nft \<mapsto> p))"

definition activity_minv :: "activity \<Rightarrow> bool" where
  "activity_minv m \<longleftrightarrow>
     length (eventLog m) \<le> MAX_EVENTS \<and> length (swapHistory m) \<le> MAX_SWAP_HISTORY \<and> js_keys_ok (poolMap m)"

definition activity_dinv :: "activity_db \<Rightarrow> bool" where
  "activity_dinv db \<longleftrightarrow> ring_ok (db_events db) \<and> ring_ok (db_swap_history db) \<and> js_keys_ok (db_event_pool_map db)"

lemma events_append_eq:
  "events_append e MAX_EVENTS db =
     bind_result (ring_push MAX_EVENTS (event_values e) (db_events db)) (\<lambda>t.
       Inr (db\<lparr>db_events := t, db_event_pool_map :=
         (if truthy (ev_pool e) \<and> truthy (ev_targetNft e)
          then AList.update (the (ev_targetNft e)) (the (ev_pool e)) (db_event_pool_map db)
          else db_event_pool_map db)\<rparr>))"
  by (cases "ring_prune MAX_EVENTS (ring_insert (event_values e) (db_events db))")
    (auto simp: events_append_def ring_push_def Let_def split: option.splits)

lemma settled_push:
  assumes "ring_ok t" and "0 < cap"
  obtains t' where "ring_push cap r t = Inr t'" and "ring_ok t'" and "ring_entries t' = keep_last cap (ring_entries t @ [r])"
proof -
  obtain t' where p: "ring_prune cap (ring_insert r t) = Inr (ring_count (ring_insert r t) - cap, t')"
    using ring_prune_ok [OF ring_ok_insert [OF assms(1)] assms(2)] by blast
  then have "ring_push cap r t = Inr t'" by (simp add: ring_push_def)
  with ring_push_ok [OF assms, of r] show ?thesis using that by (simp add: committed_def)
qed

lemma activity_run_event:
  assumes "activity_dinv db"
  shows "activity_dview (activity_run now (AL_event e) db) = activity_effect (AL_event e) (activity_dview db) \<and>
         activity_dinv (activity_run now (AL_event e) db)"
proof -
  obtain t where "ring_push MAX_EVENTS (event_values e) (db_events db) = Inr t" "ring_ok t"
    "ring_entries t = keep_last MAX_EVENTS (ring_entries (db_events db) @ [event_values e])"
    using assms settled_push [of "db_events db" MAX_EVENTS "event_values e"] by (auto simp: activity_dinv_def)
  then show ?thesis using assms
    by (simp add: settled_def events_append_eq activity_dview_def activity_dinv_def keep_last_map keep_last_snoc
        flip: keep_last_map)
qed

lemma activity_run_swap:
  assumes "activity_dinv db"
  shows "activity_dview (activity_run now (AL_swap s) db) = activity_effect (AL_swap s) (activity_dview db) \<and>
         activity_dinv (activity_run now (AL_swap s) db)"
proof -
  obtain t where "ring_push MAX_SWAP_HISTORY (swap_values s) (db_swap_history db) = Inr t" "ring_ok t"
    "ring_entries t = keep_last MAX_SWAP_HISTORY (ring_entries (db_swap_history db) @ [swap_values s])"
    using assms settled_push [of "db_swap_history db" MAX_SWAP_HISTORY "swap_values s"] by (auto simp: activity_dinv_def)
  then show ?thesis using assms
    by (simp add: settled_def swapHistory_push_def activity_dview_def activity_dinv_def keep_last_snoc
        flip: keep_last_map)
qed

lemma activity_run_ok:
  "activity_dinv db \<Longrightarrow> activity_dview (activity_run now w db) = activity_effect w (activity_dview db) \<and>
     activity_dinv (activity_run now w db)"
  by (cases w) (simp_all add: activity_run_event activity_run_swap del: activity_run.simps(1,2),
      simp add: events_setPoolFor_def activity_dview_def activity_dinv_def)

lemma learn_pool_step:
  "learn_pool (nft, pool) (pools, calls) =
     (if truthy (map_of pools nft) then (pools, calls)
      else (AList.update nft pool pools, calls @ [AL_setPool nft pool]))"
  by (simp add: learn_pool_def)

lemma fold_learn:
  assumes "(es, ss, map_of pools) = fold activity_effect calls v" and "js_keys_ok pools"
  shows "(es, ss, map_of (fst (fold learn_pool ps (pools, calls)))) =
           fold activity_effect (snd (fold learn_pool ps (pools, calls))) v \<and>
         js_keys_ok (fst (fold learn_pool ps (pools, calls)))"
  using assms
proof (induction ps arbitrary: pools calls)
  case (Cons p ps)
  obtain nft pool where p: "p = (nft, pool)" by (cases p)
  show ?case
  proof (cases "truthy (map_of pools nft)")
    case True
    with Cons p show ?thesis by (simp add: learn_pool_step)
  next
    case False
    have "(es, ss, map_of (AList.update nft pool pools)) = fold activity_effect (calls @ [AL_setPool nft pool]) v"
      by (simp flip: Cons.prems(1))
    from Cons.IH [OF this js_keys_ok_update [OF Cons.prems(2)]] p False
    show ?thesis by (simp only: fold_simps comp_apply learn_pool_step if_False)
  qed
qed simp

lemma unlabelled_pool [simp]: "unlabelled (e\<lparr>ev_pool := p\<rparr>) = unlabelled e"
  by (simp add: unlabelled_def)

lemma activity_step_ok:
  assumes "activity_minv m"
  shows "activity_mview (fst (activity_step op m)) = fold activity_effect (snd (activity_step op m)) (activity_mview m) \<and>
         activity_minv (fst (activity_step op m))"
proof (cases op)
  case (AO_event e d)
  with assms show ?thesis
    by (simp add: pushEvent_def activity_mview_def activity_minv_def Let_def shift_while_eq flip: keep_last_map)
next
  case (AO_swap s)
  with assms show ?thesis
    by (simp add: pushSwap_def activity_mview_def activity_minv_def shift_while_eq)
next
  case (AO_backfill ps)
  let ?v = "activity_mview m"
  obtain p1 c1 where 1: "fold learn_pool ps (poolMap m, []) = (p1, c1)" by fastforce
  obtain p2 c2 where 2: "fold learn_pool (labelled_events (eventLog m)) (p1, c1) = (p2, c2)" by fastforce
  have "(map unlabelled (eventLog m), swapHistory m, map_of p1) = fold activity_effect c1 ?v \<and> js_keys_ok p1"
    using fold_learn [of "map unlabelled (eventLog m)" "swapHistory m" "poolMap m" "[]" ?v ps] assms 1
    by (simp add: activity_mview_def activity_minv_def)
  then have "(map unlabelled (eventLog m), swapHistory m, map_of p2) = fold activity_effect c2 ?v \<and> js_keys_ok p2"
    using fold_learn [of "map unlabelled (eventLog m)" "swapHistory m" p1 c1 ?v "labelled_events (eventLog m)"] 2
    by simp
  moreover have "unlabelled \<circ> (\<lambda>e. if needs_label p2 e
      then e\<lparr>ev_pool := map_of p2 (the (ev_targetNft e))\<rparr> else e) = unlabelled"
    by (simp add: fun_eq_iff)
  ultimately show ?thesis using assms 1 2 AO_backfill
    by (simp add: backfillEventPools_def activity_mview_def activity_minv_def)
qed

interpretation activity: write_through
  "\<lambda>op m. fst (activity_step op m)" "\<lambda>op m. snd (activity_step op m)" activity_run initActivityLog
  "\<lambda>_. True" "\<lambda>_. True" activity_minv activity_dinv activity_mview activity_dview activity_effect
proof
  fix db assume "activity_dinv db"
  then show "activity_mview (initActivityLog db) = activity_dview db" "activity_minv (initActivityLog db)"
    by (simp_all add: activity_dinv_def activity_mview_def activity_dview_def activity_minv_def initActivityLog_def
        events_recent_def swapHistory_list_def events_poolMap_def ring_newest_ok rows_to_record_eq
        keep_last_map comp_def)
qed (simp_all add: activity_run_ok activity_step_ok)

section \<open>Properties\<close>

definition activity_reach :: "activity \<times> activity_call WriteChain \<times> activity_db \<Rightarrow> bool" where
  "activity_reach = reach (\<lambda>s. \<exists>db. activity_dinv db \<and> s = store_init initActivityLog db)
     (store_step (\<lambda>op m. fst (activity_step op m)) (\<lambda>op m. snd (activity_step op m)) activity_run (\<lambda>_. True) False)"

text \<open>
  The feeds survive a restart. In every state the store can reach as long as no acknowledgement of
  the database is lost, the feeds hold at most 1000 events and 40 swaps; and once the write chain is
  drained and dropped nothing, a restarted bot loads the same events in the same order (their pool
  labels apart, which are recomputed), the same swaps, and the same pool lookup.
\<close>

theorem feeds_survive_restart:
  assumes "activity_reach (m, c, db)"
  shows "length (eventLog m) \<le> 1000 \<and> length (swapHistory m) \<le> 40 \<and>
         (drained c \<and> dropped c = [] \<longrightarrow>
            map unlabelled (eventLog (initActivityLog db)) = map unlabelled (eventLog m) \<and>
            swapHistory (initActivityLog db) = swapHistory m \<and>
            (\<forall>nft. map_of (poolMap (initActivityLog db)) nft = map_of (poolMap m) nft))"
proof -
  have s: "activity.in_sync (m, c, db)"
    using activity.lossless.reach_inv assms unfolding activity_reach_def by blast
  then have "activity_minv m" by (simp add: activity.in_sync_def)
  then have "length (eventLog m) \<le> 1000 \<and> length (swapHistory m) \<le> 40"
    by (simp add: activity_minv_def MAX_EVENTS_def MAX_SWAP_HISTORY_def)
  moreover have "activity_mview (initActivityLog db) = activity_mview m" if "drained c" "dropped c = []"
    by (rule activity.in_sync_restart [OF s that])
  ultimately show ?thesis by (simp add: activity_mview_def)
qed

text \<open>
  A lost acknowledgement duplicates an event. When the transaction of an append commits but its
  answer is lost, the retry inserts the event again: the table, and the feed a restarted bot loads,
  hold it twice although memory holds it once.
\<close>

theorem lost_ack_duplicates_event:
  assumes "activity_dinv db" and "pushEvent e d m = (m', calls)"
    and "settle_all_answers activity_run [LostAck t1, Ack t2]
           (fold push calls (enable (new_chain RETRY_DELAYS_MS)), db) = (c, db')"
  shows "drained c \<and> dropped c = [] \<and>
         (\<exists>e'. calls = [AL_event e'] \<and> last (eventLog m') = e' \<and>
            map unlabelled (eventLog (initActivityLog db')) =
              keep_last 1000 (map unlabelled (eventLog (initActivityLog db)) @ [unlabelled e', unlabelled e']))"
proof -
  obtain e' where calls: "calls = [AL_event e']" and last: "last (eventLog m') = e'"
    using assms(2) by (auto simp: pushEvent_def Let_def shift_while_eq keep_last_nonempty)
  have run: "activity_dview (activity_run t w db) = activity_effect w (activity_dview db) \<and> activity_dinv (activity_run t w db)"
    if "activity_dinv db" for t w db using that by (rule activity_run_ok)
  have db': "db' = activity_run t2 (AL_event e') (activity_run t1 (AL_event e') db)" and c: "tail c = []" "dropped c = []"
    using assms(3) calls by (auto simp: chain_defs RETRY_DELAYS_MS_def simp del: activity_run.simps)
  have init: "activity_mview (initActivityLog x) = activity_dview x" if "activity_dinv x" for x
    using activity.load_view that .
  have "activity_mview (initActivityLog db') =
      activity_effect (AL_event e') (activity_effect (AL_event e') (activity_mview (initActivityLog db)))"
    using assms(1) run db' init by metis
  then have "map unlabelled (eventLog (initActivityLog db')) =
      keep_last MAX_EVENTS (keep_last MAX_EVENTS (map unlabelled (eventLog (initActivityLog db)) @ [unlabelled e']) @ [unlabelled e'])"
    by (simp add: activity_mview_def)
  then show ?thesis using c calls last by (simp add: drained_def keep_last_snoc MAX_EVENTS_def)
qed

text \<open>
  Back-filling labels every event whose pool is known, from the event itself or the lookup, takes
  no label away, and is done once: a second pass finds nothing to label.
\<close>

theorem backfill_once:
  assumes "backfillEventPools ps m = (r, m', calls)"
  shows "length (eventLog m') = length (eventLog m) \<and>
         (\<forall>i < length (eventLog m). truthy (ev_pool (eventLog m ! i)) \<longrightarrow> eventLog m' ! i = eventLog m ! i) \<and>
         fst r = length (filter (\<lambda>(e, e'). e \<noteq> e') (zip (eventLog m) (eventLog m'))) \<and>
         (\<forall>e \<in> set (eventLog m'). \<not> needs_label (poolMap m') e)"
proof -
  obtain p1 c1 where 1: "fold learn_pool ps (poolMap m, []) = (p1, c1)" by fastforce
  obtain p2 c2 where 2: "fold learn_pool (labelled_events (eventLog m)) (p1, c1) = (p2, c2)" by fastforce
  let ?f = "\<lambda>e. if needs_label p2 e then e\<lparr>ev_pool := map_of p2 (the (ev_targetNft e))\<rparr> else e"
  have m': "eventLog m' = map ?f (eventLog m)" "poolMap m' = p2" "fst r = length (filter (needs_label p2) (eventLog m))"
    using assms 1 2 by (auto simp: backfillEventPools_def)
  have "e \<noteq> ?f e \<longleftrightarrow> needs_label p2 e" for e
    by (cases e) (auto simp: needs_label_def)
  then have "length (filter (\<lambda>(e, e'). e \<noteq> e') (zip xs (map ?f xs))) = length (filter (needs_label p2) xs)" for xs
    by (induction xs) auto
  moreover have "\<not> needs_label p2 (?f e)" for e by (auto simp: needs_label_def)
  ultimately show ?thesis using m' by (auto simp: needs_label_def)
qed

definition demo_event :: EventLogEntry where
  "demo_event = \<lparr>ev_ts = 5, ev_type = ''OPEN'', ev_targetWallet = ''w'', ev_targetNft = Some ''n'', ev_ourNft = None,
     ev_txSig = Some ''s'', ev_success = True, ev_error = None, ev_pool = Some ''p'', ev_dex = Some ''orca''\<rparr>"

definition demo_activity_db :: activity_db where
  "demo_activity_db = \<lparr>db_events = ring_empty, db_event_pool_map = [], db_swap_history = ring_empty\<rparr>"

lemma demo_activity_dinv: "activity_dinv demo_activity_db"
  by (simp add: demo_activity_db_def activity_dinv_def)

theorem feeds_survive_restart_witness:
  "\<exists>m c db. activity_reach (m, c, db) \<and> drained c \<and> dropped c = [] \<and> eventLog m = [demo_event] \<and>
     map unlabelled (eventLog (initActivityLog db)) = [unlabelled demo_event]"
proof -
  let ?s = "run_script (\<lambda>op m. fst (activity_step op m)) (\<lambda>op m. snd (activity_step op m)) activity_run
     [Op (AO_event (demo_event\<lparr>ev_dex := None\<rparr>) (Some ''orca'')), Db Nack, Db (Ack 1)]
     (store_init initActivityLog demo_activity_db)"
  have reach: "activity_reach ?s"
    unfolding activity_reach_def using demo_activity_dinv by (rule reach_script) simp_all
  obtain m c db where s: "?s = (m, c, db)" by (rule prod_cases3)
  have "eventLog m = [demo_event]" "tail c = []" "dropped c = []"
    using s by (auto simp: store_init_def initActivityLog_def events_recent_def ring_newest_def demo_activity_db_def
        ring_empty_def pushEvent_def chain_defs RETRY_DELAYS_MS_def demo_event_def MAX_EVENTS_def Let_def
        simp del: activity_run.simps)
  moreover have "activity_reach (m, c, db)" using reach s by simp
  moreover have "map unlabelled (eventLog (initActivityLog db)) = map unlabelled (eventLog m)"
    using feeds_survive_restart [of m c db] calculation by (simp add: drained_def)
  ultimately show ?thesis by (intro exI [of _ m] exI [of _ c] exI [of _ db]) (simp add: drained_def)
qed

theorem lost_ack_duplicates_event_witness:
  "\<exists>m' calls c db'. pushEvent demo_event None (initActivityLog demo_activity_db) = (m', calls) \<and>
     settle_all_answers activity_run [LostAck 1, Ack 2]
       (fold push calls (enable (new_chain RETRY_DELAYS_MS)), demo_activity_db) = (c, db') \<and>
     map unlabelled (eventLog (initActivityLog db')) = [unlabelled demo_event, unlabelled demo_event]"
proof -
  obtain m' calls where p: "pushEvent demo_event None (initActivityLog demo_activity_db) = (m', calls)"
    by (cases "pushEvent demo_event None (initActivityLog demo_activity_db)")
  obtain c db' where s: "settle_all_answers activity_run [LostAck 1, Ack 2]
      (fold push calls (enable (new_chain RETRY_DELAYS_MS)), demo_activity_db) = (c, db')" by fastforce
  have "eventLog (initActivityLog demo_activity_db) = []"
    by (simp add: initActivityLog_def events_recent_def ring_newest_def demo_activity_db_def ring_empty_def)
  moreover have "calls = [AL_event demo_event]" using p by (simp add: pushEvent_def)
  ultimately show ?thesis using lost_ack_duplicates_event [OF demo_activity_dinv p s] p s by auto
qed

end
