(* ===== verification/Positions_Repo.thy ===== *)
theory Positions_Repo
  imports Prelude
begin

text \<open>
  The \<^verbatim>\<open>positions\<close> table and its repository, \<^verbatim>\<open>src/state/repo/positions.ts\<close>. A table is an association
  list from its primary key to the rest of the row: \<^verbatim>\<open>INSERT ... ON CONFLICT DO UPDATE\<close> is
  \<^const>\<open>AList.update\<close>, \<^verbatim>\<open>UPDATE ... WHERE key\<close> is \<^const>\<open>js_modify\<close>, \<^verbatim>\<open>DELETE ... WHERE key\<close> is
  \<^const>\<open>AList.delete\<close>, and \<^verbatim>\<open>now()\<close> is the argument \<open>now\<close>. The order of rows a query without
  \<^verbatim>\<open>ORDER BY\<close> returns is the order of the list; no property depends on it.

  Numbers with a fraction (the SOL rent of a position) have the type \<open>'n\<close>, so that what is proved
  about them does not rest on laws floating point lacks. \<^verbatim>\<open>target_liquidity\<close> is a \<^verbatim>\<open>NUMERIC\<close> column: it
  takes a decimal string and gives one back, through the integer it denotes.
\<close>

section \<open>Rows\<close>

record 'n PositionEntry =
  ourNft :: string
  createdAt :: millis
  pool :: "string option"
  targetWallet :: "string option"
  lockedSol :: "'n option"
  tickLower :: "int option"
  tickUpper :: "int option"
  dex :: "string option"
  targetLiquidity :: "string option"

record 'n PositionRow =
  our_nft :: string
  row_dex :: "string option"
  row_pool :: "string option"
  target_wallet :: "string option"
  locked_sol :: "'n option"
  tick_lower :: "int option"
  tick_upper :: "int option"
  target_liquidity :: "int option"
  created_at :: millis
  updated_at :: millis

type_synonym 'n positions_table = "(string, 'n PositionRow) jsmap"

definition positions_toEntry :: "'n PositionRow \<Rightarrow> 'n PositionEntry" where
  "positions_toEntry r =
     \<lparr>ourNft = our_nft r, createdAt = created_at r, pool = row_pool r, targetWallet = target_wallet r,
      lockedSol = locked_sol r, tickLower = tick_lower r, tickUpper = tick_upper r, dex = row_dex r,
      targetLiquidity = map_option show_int (target_liquidity r)\<rparr>"

section \<open>Statements that write\<close>

definition positions_set ::
  "millis \<Rightarrow> string \<Rightarrow> string \<Rightarrow> string option \<Rightarrow> string option \<Rightarrow> int option \<Rightarrow> int option \<Rightarrow> string option \<Rightarrow>
   'n positions_table \<Rightarrow> 'n positions_table" where
  "positions_set now targetNft ourNft' pool' targetWallet' tickLower' tickUpper' dex' t =
     AList.update targetNft
       \<lparr>our_nft = ourNft', row_dex = dex', row_pool = pool', target_wallet = targetWallet',
        locked_sol = None, tick_lower = tickLower', tick_upper = tickUpper',
        target_liquidity = None, created_at = now, updated_at = now\<rparr> t"

definition positions_importEntry ::
  "millis \<Rightarrow> string \<Rightarrow> 'n PositionEntry \<Rightarrow> 'n positions_table \<Rightarrow> 'n positions_table option" where
  "positions_importEntry now targetNft e t =
     (let ins = (\<lambda>liq. AList.update targetNft
        \<lparr>our_nft = ourNft e, row_dex = dex e, row_pool = pool e, target_wallet = targetWallet e,
         locked_sol = lockedSol e, tick_lower = tickLower e, tick_upper = tickUpper e,
         target_liquidity = liq, created_at = createdAt e, updated_at = now\<rparr> t)
      in (case targetLiquidity e of
            None \<Rightarrow> Some (ins None)
          | Some s \<Rightarrow> map_option (\<lambda>i. ins (Some i)) (numeric_in s)))"

definition positions_delete :: "string \<Rightarrow> 'n positions_table \<Rightarrow> 'n positions_table" where
  "positions_delete targetNft t = AList.delete targetNft t"

definition positions_deleteByOurNft ::
  "string \<Rightarrow> 'n positions_table \<Rightarrow> bool \<times> 'n positions_table" where
  "positions_deleteByOurNft ourNft' t =
     (list_ex (\<lambda>(k, r). our_nft r = ourNft') t, filter (\<lambda>(k, r). our_nft r \<noteq> ourNft') t)"

definition positions_setDex ::
  "millis \<Rightarrow> string \<Rightarrow> string \<Rightarrow> 'n positions_table \<Rightarrow> 'n positions_table" where
  "positions_setDex now targetNft dex' =
     js_modify targetNft (\<lambda>r. r\<lparr>row_dex := Some dex', updated_at := now\<rparr>)"

definition positions_setPool ::
  "millis \<Rightarrow> string \<Rightarrow> string \<Rightarrow> 'n positions_table \<Rightarrow> 'n positions_table" where
  "positions_setPool now targetNft pool' =
     js_modify targetNft (\<lambda>r. r\<lparr>row_pool := Some pool', updated_at := now\<rparr>)"

definition positions_setLockedSol ::
  "millis \<Rightarrow> string \<Rightarrow> 'n \<Rightarrow> 'n positions_table \<Rightarrow> 'n positions_table" where
  "positions_setLockedSol now targetNft sol =
     js_modify targetNft (\<lambda>r. r\<lparr>locked_sol := Some sol, updated_at := now\<rparr>)"

definition positions_setTargetLiquidity ::
  "millis \<Rightarrow> string \<Rightarrow> string \<Rightarrow> 'n positions_table \<Rightarrow> 'n positions_table option" where
  "positions_setTargetLiquidity now targetNft liquidity t =
     map_option (\<lambda>i. js_modify targetNft (\<lambda>r. r\<lparr>target_liquidity := Some i, updated_at := now\<rparr>) t)
       (numeric_in liquidity)"

section \<open>Statements that read\<close>

definition positions_get :: "string \<Rightarrow> 'n positions_table \<Rightarrow> string option" where
  "positions_get targetNft t = map_option our_nft (map_of t targetNft)"

definition positions_getEntry :: "string \<Rightarrow> 'n positions_table \<Rightarrow> 'n PositionEntry option" where
  "positions_getEntry targetNft t = map_option positions_toEntry (map_of t targetNft)"

definition positions_getPool :: "string \<Rightarrow> 'n positions_table \<Rightarrow> string option" where
  "positions_getPool targetNft t = Option.bind (map_of t targetNft) row_pool"

definition positions_getDex :: "string \<Rightarrow> 'n positions_table \<Rightarrow> string option" where
  "positions_getDex targetNft t = Option.bind (map_of t targetNft) row_dex"

definition positions_findByOurNft :: "string \<Rightarrow> 'n positions_table \<Rightarrow> string option" where
  "positions_findByOurNft ourNft' t = map_option fst (find (\<lambda>(k, r). our_nft r = ourNft') t)"

definition positions_size :: "'n positions_table \<Rightarrow> nat" where
  "positions_size t = length t"

definition positions_getAllMyNfts :: "'n positions_table \<Rightarrow> string list" where
  "positions_getAllMyNfts t = map (\<lambda>(k, r). our_nft r) t"

definition positions_getByrealNfts :: "'n positions_table \<Rightarrow> string list" where
  "positions_getByrealNfts t =
     map (\<lambda>(k, r). our_nft r)
       (filter (\<lambda>(k, r). row_dex r = None \<or> row_dex r = Some ''byreal'') t)"

definition positions_getLockedSol :: "string \<Rightarrow> 'n \<Rightarrow> 'n positions_table \<Rightarrow> 'n" where
  "positions_getLockedSol targetNft fallback t =
     (case Option.bind (map_of t targetNft) locked_sol of Some s \<Rightarrow> s | None \<Rightarrow> fallback)"

definition positions_getTargetLiquidity :: "string \<Rightarrow> 'n positions_table \<Rightarrow> string option" where
  "positions_getTargetLiquidity targetNft t =
     map_option show_int (Option.bind (map_of t targetNft) target_liquidity)"

definition positions_hasDuplicateTickRange ::
  "string \<Rightarrow> string \<Rightarrow> int \<Rightarrow> int \<Rightarrow> 'n positions_table \<Rightarrow> bool" where
  "positions_hasDuplicateTickRange wallet pool' lo up t \<longleftrightarrow>
     list_ex (\<lambda>(k, r). target_wallet r = Some wallet \<and> row_pool r = Some pool' \<and>
                       tick_lower r = Some lo \<and> tick_upper r = Some up) t"

record 'a DexCounts =
  cnt_byreal :: 'a
  cnt_orca :: 'a
  cnt_meteora :: 'a
  cnt_pancakeswap :: 'a
  cnt_dammv2 :: 'a

text \<open>\<^verbatim>\<open>DEX_BUCKET\<close>: the bucket of a row; an untagged or unrecognised tag is byreal.\<close>

definition DEX_BUCKET :: "string option \<Rightarrow> string" where
  "DEX_BUCKET d =
     (case d of
        Some s \<Rightarrow> if s \<in> {''orca'', ''meteora'', ''pancakeswap'', ''dammv2''} then s else ''byreal''
      | None \<Rightarrow> ''byreal'')"

definition in_bucket :: "string \<Rightarrow> 'n positions_table \<Rightarrow> 'n PositionRow list" where
  "in_bucket b t = filter (\<lambda>r. DEX_BUCKET (row_dex r) = b) (map snd t)"

definition positions_countByDex :: "'n positions_table \<Rightarrow> nat DexCounts" where
  "positions_countByDex t =
     \<lparr>cnt_byreal = length (in_bucket ''byreal'' t), cnt_orca = length (in_bucket ''orca'' t),
      cnt_meteora = length (in_bucket ''meteora'' t),
      cnt_pancakeswap = length (in_bucket ''pancakeswap'' t),
      cnt_dammv2 = length (in_bucket ''dammv2'' t)\<rparr>"

definition positions_getByrealOpenCount :: "'n positions_table \<Rightarrow> nat" where
  "positions_getByrealOpenCount t = cnt_byreal (positions_countByDex t)"

definition recorded_plus_missing :: "'n::comm_semiring_1 \<Rightarrow> 'n PositionRow list \<Rightarrow> 'n" where
  "recorded_plus_missing fallback rows =
     sum_list (List.map_filter locked_sol rows) +
     of_nat (length (filter (\<lambda>r. locked_sol r = None) rows)) * fallback"

definition positions_getTotalLockedSolByDex ::
  "'n::comm_semiring_1 DexCounts \<Rightarrow> 'n positions_table \<Rightarrow> 'n DexCounts" where
  "positions_getTotalLockedSolByDex fallbacks t =
     \<lparr>cnt_byreal = recorded_plus_missing (cnt_byreal fallbacks) (in_bucket ''byreal'' t),
      cnt_orca = recorded_plus_missing (cnt_orca fallbacks) (in_bucket ''orca'' t),
      cnt_meteora = recorded_plus_missing (cnt_meteora fallbacks) (in_bucket ''meteora'' t),
      cnt_pancakeswap = recorded_plus_missing (cnt_pancakeswap fallbacks) (in_bucket ''pancakeswap'' t),
      cnt_dammv2 = recorded_plus_missing (cnt_dammv2 fallbacks) (in_bucket ''dammv2'' t)\<rparr>"

definition positions_getTotalLockedSol :: "'n::comm_semiring_1 \<Rightarrow> 'n positions_table \<Rightarrow> 'n" where
  "positions_getTotalLockedSol fallback t = recorded_plus_missing fallback (map snd t)"

definition positions_entriesMissingPool :: "'n positions_table \<Rightarrow> (string \<times> string) list" where
  "positions_entriesMissingPool t =
     map (\<lambda>(k, r). (k, our_nft r)) (filter (\<lambda>(k, r). row_pool r = None) t)"

definition positions_entriesMissingLockedSol :: "'n positions_table \<Rightarrow> (string \<times> string) list" where
  "positions_entriesMissingLockedSol t =
     map (\<lambda>(k, r). (k, our_nft r)) (filter (\<lambda>(k, r). locked_sol r = None) t)"

definition positions_toJSON :: "'n positions_table \<Rightarrow> (string, 'n PositionEntry) jsmap" where
  "positions_toJSON t = map (\<lambda>(k, r). (k, positions_toEntry r)) t"

lemmas positions_write_defs [row_defs] =
  positions_set_def positions_importEntry_def positions_delete_def positions_deleteByOurNft_def
  positions_setDex_def positions_setPool_def positions_setLockedSol_def
  positions_setTargetLiquidity_def

section \<open>Lemmas\<close>

lemma map_of_positions_toJSON: "map_of (positions_toJSON t) = map_option positions_toEntry \<circ> map_of t"
  by (simp add: positions_toJSON_def map_of_map_values)

lemma keys_positions_toJSON [simp]: "js_keys_ok (positions_toJSON t) \<longleftrightarrow> js_keys_ok t"
  by (simp add: positions_toJSON_def)

lemma recorded_plus_missing_Cons:
  "recorded_plus_missing fb (r # rs) =
     (case locked_sol r of Some s \<Rightarrow> s | None \<Rightarrow> fb) + recorded_plus_missing fb rs"
  by (simp add: recorded_plus_missing_def List.map_filter_def algebra_simps split: option.splits)

lemma recorded_plus_missing_Nil [simp]: "recorded_plus_missing fb [] = 0"
  by (simp add: recorded_plus_missing_def List.map_filter_def)

end
