(* ===== verification/Position_Map.thy ===== *)
theory Position_Map
  imports Write_Chain Positions_Repo "HOL-Library.Multiset"
begin

text \<open>
  The position map, \<^verbatim>\<open>src/state/position-map.ts\<close>: which of our position NFTs mirrors which NFT of a
  target. Reads are served from memory, an ordered map; a mutation changes memory and hands the
  matching repository calls to the write chain, here the second component of what an operation
  returns. Log lines are left out. \<^verbatim>\<open>Date.now()\<close> is an argument.
\<close>

section \<open>State and repository calls\<close>

type_synonym 'n position_memory = "(string, 'n PositionEntry) jsmap"

datatype 'n position_call =
    PW_set string string "string option" "string option" "int option" "int option" "string option"
  | PW_delete string
  | PW_setDex string string
  | PW_setPool string string
  | PW_setLockedSol string 'n
  | PW_setTargetLiquidity string string

definition PM_new :: "'n position_memory" where
  "PM_new = []"

definition PM_load :: "'n positions_table \<Rightarrow> 'n position_memory" where
  "PM_load db = positions_toJSON db"

section \<open>Mutations\<close>

definition PM_set ::
  "millis \<Rightarrow> string \<Rightarrow> string \<Rightarrow> string option \<Rightarrow> string option \<Rightarrow> int option \<Rightarrow> int option \<Rightarrow> string option \<Rightarrow>
   'n position_memory \<Rightarrow> 'n position_memory \<times> 'n position_call list" where
  "PM_set now targetNft myNft pool' targetWallet' tickLower' tickUpper' dex' m =
     (AList.update targetNft
        \<lparr>ourNft = myNft, createdAt = now, pool = pool', targetWallet = targetWallet',
         lockedSol = None, tickLower = tickLower', tickUpper = tickUpper', dex = dex',
         targetLiquidity = None\<rparr> m,
      [PW_set targetNft myNft pool' targetWallet' tickLower' tickUpper' dex'])"

definition PM_delete ::
  "string \<Rightarrow> 'n position_memory \<Rightarrow> 'n position_memory \<times> 'n position_call list" where
  "PM_delete targetNft m = (AList.delete targetNft m, [PW_delete targetNft])"

definition PM_findByOurNft :: "string \<Rightarrow> 'n position_memory \<Rightarrow> string option" where
  "PM_findByOurNft ourNft' m = map_option fst (find (\<lambda>(k, e). ourNft e = ourNft') m)"

text \<open>\<^verbatim>\<open>if (!targetNft) return false\<close>: an empty key counts as no key.\<close>

definition PM_deleteByOurNft ::
  "string \<Rightarrow> 'n position_memory \<Rightarrow> bool \<times> 'n position_memory \<times> 'n position_call list" where
  "PM_deleteByOurNft ourNft' m =
     (case PM_findByOurNft ourNft' m of
        None \<Rightarrow> (False, m, [])
      | Some targetNft \<Rightarrow> if targetNft = [] then (False, m, []) else (True, PM_delete targetNft m))"

definition PM_setDex ::
  "string \<Rightarrow> string \<Rightarrow> 'n position_memory \<Rightarrow> 'n position_memory \<times> 'n position_call list" where
  "PM_setDex targetNft dex' m =
     (case map_of m targetNft of
        None \<Rightarrow> (m, [])
      | Some _ \<Rightarrow> (js_modify targetNft (\<lambda>e. e\<lparr>dex := Some dex'\<rparr>) m, [PW_setDex targetNft dex']))"

definition PM_setPool ::
  "string \<Rightarrow> string \<Rightarrow> 'n position_memory \<Rightarrow> 'n position_memory \<times> 'n position_call list" where
  "PM_setPool targetNft pool' m =
     (case map_of m targetNft of
        None \<Rightarrow> (m, [])
      | Some _ \<Rightarrow> (js_modify targetNft (\<lambda>e. e\<lparr>pool := Some pool'\<rparr>) m, [PW_setPool targetNft pool']))"

definition PM_setLockedSol ::
  "string \<Rightarrow> 'n \<Rightarrow> 'n position_memory \<Rightarrow> 'n position_memory \<times> 'n position_call list" where
  "PM_setLockedSol targetNft sol m =
     (case map_of m targetNft of
        None \<Rightarrow> (m, [])
      | Some _ \<Rightarrow> (js_modify targetNft (\<lambda>e. e\<lparr>lockedSol := Some sol\<rparr>) m,
                    [PW_setLockedSol targetNft sol]))"

definition PM_setTargetLiquidity ::
  "string \<Rightarrow> string \<Rightarrow> 'n position_memory \<Rightarrow> 'n position_memory \<times> 'n position_call list" where
  "PM_setTargetLiquidity targetNft liquidity m =
     (case map_of m targetNft of
        None \<Rightarrow> (m, [])
      | Some _ \<Rightarrow> (js_modify targetNft (\<lambda>e. e\<lparr>targetLiquidity := Some liquidity\<rparr>) m,
                    [PW_setTargetLiquidity targetNft liquidity]))"

lemmas PM_mutation_defs [store_defs] =
  PM_set_def PM_delete_def PM_deleteByOurNft_def PM_setDex_def PM_setPool_def PM_setLockedSol_def
  PM_setTargetLiquidity_def

section \<open>Queries\<close>

definition PM_get :: "string \<Rightarrow> 'n position_memory \<Rightarrow> string option" where
  "PM_get targetNft m = map_option ourNft (map_of m targetNft)"

definition PM_getPool :: "string \<Rightarrow> 'n position_memory \<Rightarrow> string option" where
  "PM_getPool targetNft m = Option.bind (map_of m targetNft) pool"

definition PM_getDex :: "string \<Rightarrow> 'n position_memory \<Rightarrow> string option" where
  "PM_getDex targetNft m = Option.bind (map_of m targetNft) dex"

definition PM_getTargetLiquidity :: "string \<Rightarrow> 'n position_memory \<Rightarrow> string option" where
  "PM_getTargetLiquidity targetNft m = Option.bind (map_of m targetNft) targetLiquidity"

definition PM_getLockedSol :: "string \<Rightarrow> 'n \<Rightarrow> 'n position_memory \<Rightarrow> 'n" where
  "PM_getLockedSol targetNft fallback m =
     (case Option.bind (map_of m targetNft) lockedSol of Some s \<Rightarrow> s | None \<Rightarrow> fallback)"

definition PM_hasDuplicateTickRange ::
  "string \<Rightarrow> string \<Rightarrow> int \<Rightarrow> int \<Rightarrow> 'n position_memory \<Rightarrow> bool" where
  "PM_hasDuplicateTickRange wallet pool' lo up m \<longleftrightarrow>
     list_ex (\<lambda>(k, e). targetWallet e = Some wallet \<and> pool e = Some pool' \<and>
                       tickLower e = Some lo \<and> tickUpper e = Some up) m"

definition PM_getAllMyNfts :: "'n position_memory \<Rightarrow> string list" where
  "PM_getAllMyNfts m = map (\<lambda>(k, e). ourNft e) m"

definition PM_getByrealNfts :: "'n position_memory \<Rightarrow> string list" where
  "PM_getByrealNfts m =
     map (\<lambda>(k, e). ourNft e)
       (filter (\<lambda>(k, e). dex e = None \<or> dex e = Some '''' \<or> dex e = Some ''byreal'') m)"

definition PM_entries :: "'n position_memory \<Rightarrow> (string \<times> string) list" where
  "PM_entries m = map (\<lambda>(k, e). (k, ourNft e)) m"

definition PM_size :: "'n position_memory \<Rightarrow> nat" where
  "PM_size m = length m"

fun count_entry :: "'n PositionEntry \<Rightarrow> nat DexCounts \<Rightarrow> nat DexCounts" where
  "count_entry e c =
     (if dex e = Some ''orca'' then c\<lparr>cnt_orca := cnt_orca c + 1\<rparr>
      else if dex e = Some ''meteora'' then c\<lparr>cnt_meteora := cnt_meteora c + 1\<rparr>
      else if dex e = Some ''pancakeswap'' then c\<lparr>cnt_pancakeswap := cnt_pancakeswap c + 1\<rparr>
      else if dex e = Some ''dammv2'' then c\<lparr>cnt_dammv2 := cnt_dammv2 c + 1\<rparr>
      else c\<lparr>cnt_byreal := cnt_byreal c + 1\<rparr>)"

definition PM_countByDex :: "'n position_memory \<Rightarrow> nat DexCounts" where
  "PM_countByDex m =
     fold (\<lambda>(k, e). count_entry e) m
       \<lparr>cnt_byreal = 0, cnt_orca = 0, cnt_meteora = 0, cnt_pancakeswap = 0, cnt_dammv2 = 0\<rparr>"

definition PM_getByrealOpenCount :: "'n position_memory \<Rightarrow> nat" where
  "PM_getByrealOpenCount m = cnt_byreal (PM_countByDex m)"

definition or_else :: "'n option \<Rightarrow> 'n \<Rightarrow> 'n" where
  "or_else x d = (case x of Some v \<Rightarrow> v | None \<Rightarrow> d)"

fun lock_entry :: "'n::plus DexCounts \<Rightarrow> 'n PositionEntry \<Rightarrow> 'n DexCounts \<Rightarrow> 'n DexCounts" where
  "lock_entry fb e c =
     (if dex e = Some ''orca'' then c\<lparr>cnt_orca := cnt_orca c + or_else (lockedSol e) (cnt_orca fb)\<rparr>
      else if dex e = Some ''meteora''
        then c\<lparr>cnt_meteora := cnt_meteora c + or_else (lockedSol e) (cnt_meteora fb)\<rparr>
      else if dex e = Some ''pancakeswap''
        then c\<lparr>cnt_pancakeswap := cnt_pancakeswap c + or_else (lockedSol e) (cnt_pancakeswap fb)\<rparr>
      else if dex e = Some ''dammv2''
        then c\<lparr>cnt_dammv2 := cnt_dammv2 c + or_else (lockedSol e) (cnt_dammv2 fb)\<rparr>
      else c\<lparr>cnt_byreal := cnt_byreal c + or_else (lockedSol e) (cnt_byreal fb)\<rparr>)"

declare count_entry.simps [simp del] lock_entry.simps [simp del]

definition PM_getTotalLockedSolByDex ::
  "'n::{zero,plus} DexCounts \<Rightarrow> 'n position_memory \<Rightarrow> 'n DexCounts" where
  "PM_getTotalLockedSolByDex fallbacks m =
     fold (\<lambda>(k, e). lock_entry fallbacks e) m
       \<lparr>cnt_byreal = 0, cnt_orca = 0, cnt_meteora = 0, cnt_pancakeswap = 0, cnt_dammv2 = 0\<rparr>"

definition PM_getTotalLockedSol :: "'n::{zero,plus} \<Rightarrow> 'n position_memory \<Rightarrow> 'n" where
  "PM_getTotalLockedSol fallback m = fold (\<lambda>(k, e) total. total + or_else (lockedSol e) fallback) m 0"

definition PM_entriesMissingPool :: "'n position_memory \<Rightarrow> (string \<times> string) list" where
  "PM_entriesMissingPool m =
     map (\<lambda>(k, e). (k, ourNft e)) (filter (\<lambda>(k, e). pool e = None \<or> pool e = Some '''') m)"

definition PM_entriesMissingLockedSol :: "'n position_memory \<Rightarrow> (string \<times> string) list" where
  "PM_entriesMissingLockedSol m =
     map (\<lambda>(k, e). (k, ourNft e)) (filter (\<lambda>(k, e). lockedSol e = None) m)"

definition PM_toJSON :: "'n position_memory \<Rightarrow> (string, 'n PositionEntry) jsmap" where
  "PM_toJSON m = fold (\<lambda>(k, e) obj. AList.update k e obj) m []"

section \<open>The store as a system\<close>

datatype 'n position_op =
    POset millis string string "string option" "string option" "int option" "int option" "string option"
  | POdelete string
  | POdeleteByOurNft string
  | POsetDex string string
  | POsetPool string string
  | POsetLockedSol string 'n
  | POsetTargetLiquidity string string

fun PM_op :: "'n position_op \<Rightarrow> 'n position_memory \<Rightarrow> 'n position_memory \<times> 'n position_call list" where
  "PM_op (POset now t o' p w lo up d) m = PM_set now t o' p w lo up d m"
| "PM_op (POdelete t) m = PM_delete t m"
| "PM_op (POdeleteByOurNft o') m = snd (PM_deleteByOurNft o' m)"
| "PM_op (POsetDex t d) m = PM_setDex t d m"
| "PM_op (POsetPool t p) m = PM_setPool t p m"
| "PM_op (POsetLockedSol t s) m = PM_setLockedSol t s m"
| "PM_op (POsetTargetLiquidity t l) m = PM_setTargetLiquidity t l m"

definition PM_mutate :: "'n position_op \<Rightarrow> 'n position_memory \<Rightarrow> 'n position_memory" where
  "PM_mutate op m = fst (PM_op op m)"

definition PM_calls :: "'n position_op \<Rightarrow> 'n position_memory \<Rightarrow> 'n position_call list" where
  "PM_calls op m = snd (PM_op op m)"

text \<open>The repository function a queued call runs; a failed statement leaves the table alone.\<close>

fun position_run :: "millis \<Rightarrow> 'n position_call \<Rightarrow> 'n positions_table \<Rightarrow> 'n positions_table" where
  "position_run now (PW_set t o' p w lo up d) db = positions_set now t o' p w lo up d db"
| "position_run now (PW_delete t) db = positions_delete t db"
| "position_run now (PW_setDex t d) db = positions_setDex now t d db"
| "position_run now (PW_setPool t p) db = positions_setPool now t p db"
| "position_run now (PW_setLockedSol t s) db = positions_setLockedSol now t s db"
| "position_run now (PW_setTargetLiquidity t l) db =
     (case positions_setTargetLiquidity now t l db of Some db' \<Rightarrow> db' | None \<Rightarrow> db)"

text \<open>
  The liquidities the executors record are printed integers, which a \<^verbatim>\<open>NUMERIC\<close> column gives back
  unchanged. The creation time is the one field in which the two copies differ by design: memory
  takes the bot's clock, the table the database's.
\<close>

definition canonical_liquidity :: "string \<Rightarrow> bool" where
  "canonical_liquidity l \<longleftrightarrow> (case numeric_in l of Some i \<Rightarrow> show_int i = l | None \<Rightarrow> False)"

fun position_op_ok :: "'n position_op \<Rightarrow> bool" where
  "position_op_ok (POsetTargetLiquidity t l) = canonical_liquidity l"
| "position_op_ok _ = True"

fun position_call_ok :: "'n position_call \<Rightarrow> bool" where
  "position_call_ok (PW_setTargetLiquidity t l) = canonical_liquidity l"
| "position_call_ok _ = True"

definition timeless :: "'n PositionEntry \<Rightarrow> 'n PositionEntry" where
  "timeless e = e\<lparr>createdAt := 0\<rparr>"

definition memory_view :: "'n position_memory \<Rightarrow> string \<rightharpoonup> 'n PositionEntry" where
  "memory_view m = map_option timeless \<circ> map_of m"

definition table_view :: "'n positions_table \<Rightarrow> string \<rightharpoonup> 'n PositionEntry" where
  "table_view t = map_option (timeless \<circ> positions_toEntry) \<circ> map_of t"

definition on_key :: "string \<Rightarrow> ('a \<Rightarrow> 'a) \<Rightarrow> (string \<rightharpoonup> 'a) \<Rightarrow> string \<rightharpoonup> 'a" where
  "on_key k f v = v(k := map_option f (v k))"

fun view_run ::
  "'n position_call \<Rightarrow> (string \<rightharpoonup> 'n PositionEntry) \<Rightarrow> string \<rightharpoonup> 'n PositionEntry" where
  "view_run (PW_set t o' p w lo up d) v =
     v(t \<mapsto> \<lparr>ourNft = o', createdAt = 0, pool = p, targetWallet = w, lockedSol = None,
             tickLower = lo, tickUpper = up, dex = d, targetLiquidity = None\<rparr>)"
| "view_run (PW_delete t) v = v(t := None)"
| "view_run (PW_setDex t d) v = on_key t (dex_update (\<lambda>_. Some d)) v"
| "view_run (PW_setPool t p) v = on_key t (pool_update (\<lambda>_. Some p)) v"
| "view_run (PW_setLockedSol t s) v = on_key t (lockedSol_update (\<lambda>_. Some s)) v"
| "view_run (PW_setTargetLiquidity t l) v = on_key t (targetLiquidity_update (\<lambda>_. Some l)) v"

lemma view_run_idem: "view_run w (view_run w v) = view_run w v"
  by (cases w) (auto simp: on_key_def fun_eq_iff option.map_comp comp_def)

lemma map_option_on_key:
  "map_option f \<circ> (v(k := map_option g (v k))) = on_key k h (map_option f \<circ> v)"
  if "\<And>e. f (g e) = h (f e)"
  by (auto simp: on_key_def fun_eq_iff option.map_comp comp_def that)

lemma map_option_upd: "map_option f \<circ> v(k \<mapsto> e) = (map_option f \<circ> v)(k \<mapsto> f e)"
  and map_option_del: "map_option f \<circ> v(k := None) = (map_option f \<circ> v)(k := None)"
  by auto

lemma on_key_missing: "v k = None \<Longrightarrow> on_key k f v = v"
  by (simp add: on_key_def fun_upd_idem)

lemma canonical_liquidityE:
  assumes "canonical_liquidity l"
  obtains i where "numeric_in l = Some i" "show_int i = l"
  using assms by (auto simp: canonical_liquidity_def split: option.splits)

lemma position_run_view:
  assumes "position_call_ok w"
  shows "table_view (position_run now w db) = view_run w (table_view db)"
proof (cases w)
  case (PW_setTargetLiquidity t l)
  with assms obtain i where "numeric_in l = Some i" "show_int i = l" by (auto elim: canonical_liquidityE)
  then show ?thesis unfolding PW_setTargetLiquidity
    by (auto simp: table_view_def row_defs timeless_def positions_toEntry_def intro!: map_option_on_key)
qed (auto simp: table_view_def row_defs timeless_def positions_toEntry_def map_option_upd
       map_option_del intro!: map_option_on_key)

lemma PM_mutate_view:
  "memory_view (PM_mutate op m) = fold view_run (PM_calls op m) (memory_view m)"
  by (cases op)
    (auto simp: PM_mutate_def PM_calls_def store_defs memory_view_def timeless_def map_option_upd
       map_option_del on_key_def split: option.splits)

lemma PM_calls_ok: "position_op_ok op \<Longrightarrow> w \<in> set (PM_calls op m) \<Longrightarrow> position_call_ok w"
  by (cases op) (auto simp: PM_calls_def store_defs split: option.splits if_splits)

lemma PM_mutate_keys: "js_keys_ok m \<Longrightarrow> js_keys_ok (PM_mutate op m)"
  by (cases op) (auto simp: PM_mutate_def store_defs split: option.splits if_splits)

lemma position_run_keys: "js_keys_ok db \<Longrightarrow> js_keys_ok (position_run now w db)"
  by (cases w) (auto simp: row_defs split: option.splits)

interpretation positions: idempotent_write_through
  PM_mutate PM_calls position_run PM_load position_op_ok position_call_ok js_keys_ok js_keys_ok
  memory_view table_view view_run
proof
  show "memory_view (PM_load db) = table_view db" for db :: "'a positions_table"
    by (simp add: PM_load_def memory_view_def table_view_def map_of_positions_toJSON fun_eq_iff
        option.map_comp)
qed (auto simp: position_run_view PM_mutate_view PM_mutate_keys position_run_keys PM_load_def
      view_run_idem dest: PM_calls_ok)

section \<open>Memory and table agree on every query\<close>

text \<open>
  With distinct keys a map is determined, up to the order of its entries, by its lookup function.
\<close>

lemma same_lookup_same_mset:
  assumes "js_keys_ok xs" and "js_keys_ok ys" and "map_of xs = map_of ys"
  shows "mset xs = mset ys"
proof -
  have "set xs = set ys"
    using assms by (metis js_keys_ok_def map_of_inject_set)
  moreover have "distinct xs" "distinct ys"
    using assms(1,2) by (auto simp: js_keys_ok_def distinct_map)
  ultimately show ?thesis by (simp add: set_eq_iff_mset_eq_distinct)
qed

definition memory_rows :: "'n position_memory \<Rightarrow> (string, 'n PositionEntry) jsmap" where
  "memory_rows m = map (\<lambda>(k, e). (k, timeless e)) m"

definition table_rows :: "'n positions_table \<Rightarrow> (string, 'n PositionEntry) jsmap" where
  "table_rows t = map (\<lambda>(k, r). (k, timeless (positions_toEntry r))) t"

lemma rows_agree:
  assumes "js_keys_ok m" and "js_keys_ok t" and "table_view t = memory_view m"
  shows "mset (table_rows t) = mset (memory_rows m)"
  using assms
  by (intro same_lookup_same_mset)
    (simp_all add: table_rows_def memory_rows_def map_of_map_values memory_view_def table_view_def comp_def)

lemma timeless_simps [simp]:
  "ourNft (timeless e) = ourNft e" "pool (timeless e) = pool e"
  "targetWallet (timeless e) = targetWallet e" "lockedSol (timeless e) = lockedSol e"
  "tickLower (timeless e) = tickLower e" "tickUpper (timeless e) = tickUpper e"
  "dex (timeless e) = dex e" "targetLiquidity (timeless e) = targetLiquidity e"
  by (simp_all add: timeless_def)

lemma toEntry_simps [simp]:
  "ourNft (positions_toEntry r) = our_nft r" "pool (positions_toEntry r) = row_pool r"
  "targetWallet (positions_toEntry r) = target_wallet r" "lockedSol (positions_toEntry r) = locked_sol r"
  "tickLower (positions_toEntry r) = tick_lower r" "tickUpper (positions_toEntry r) = tick_upper r"
  "dex (positions_toEntry r) = row_dex r"
  "targetLiquidity (positions_toEntry r) = map_option show_int (target_liquidity r)"
  by (simp_all add: positions_toEntry_def)

text \<open>What the five counters hold, as sizes and sums over a bucket of entries.\<close>

definition entry_bucket :: "string \<Rightarrow> (string, 'n PositionEntry) jsmap \<Rightarrow> 'n PositionEntry list" where
  "entry_bucket b m = filter (\<lambda>e. DEX_BUCKET (dex e) = b) (map snd m)"

lemma count_entries:
  "fold (\<lambda>(k, e). count_entry e) m c =
     \<lparr>cnt_byreal = cnt_byreal c + length (entry_bucket ''byreal'' m),
      cnt_orca = cnt_orca c + length (entry_bucket ''orca'' m),
      cnt_meteora = cnt_meteora c + length (entry_bucket ''meteora'' m),
      cnt_pancakeswap = cnt_pancakeswap c + length (entry_bucket ''pancakeswap'' m),
      cnt_dammv2 = cnt_dammv2 c + length (entry_bucket ''dammv2'' m)\<rparr>"
proof (induction m arbitrary: c)
  case (Cons x m)
  then show ?case
    by (cases x) (simp add: count_entry.simps entry_bucket_def DEX_BUCKET_def split: option.splits)
qed (simp add: entry_bucket_def)

definition bucket_sum :: "'n::comm_monoid_add \<Rightarrow> 'n PositionEntry list \<Rightarrow> 'n" where
  "bucket_sum fb es = sum_list (map (\<lambda>e. or_else (lockedSol e) fb) es)"

lemma lock_entries:
  "fold (\<lambda>(k, e). lock_entry fb e) m c =
     \<lparr>cnt_byreal = cnt_byreal c + bucket_sum (cnt_byreal fb) (entry_bucket ''byreal'' m),
      cnt_orca = cnt_orca c + bucket_sum (cnt_orca fb) (entry_bucket ''orca'' m),
      cnt_meteora = cnt_meteora c + bucket_sum (cnt_meteora fb) (entry_bucket ''meteora'' m),
      cnt_pancakeswap = cnt_pancakeswap c + bucket_sum (cnt_pancakeswap fb) (entry_bucket ''pancakeswap'' m),
      cnt_dammv2 = cnt_dammv2 c + bucket_sum (cnt_dammv2 fb) (entry_bucket ''dammv2'' m)\<rparr>"
proof (induction m arbitrary: c)
  case (Cons x m)
  then show ?case
    by (cases x) (simp add: lock_entry.simps entry_bucket_def bucket_sum_def DEX_BUCKET_def add.assoc
        split: option.splits)
qed (simp add: entry_bucket_def bucket_sum_def)

lemma fold_total:
  "fold (\<lambda>(k, e) total. total + or_else (lockedSol e) fb) m a = a + bucket_sum fb (map snd m)"
  by (induction m arbitrary: a) (auto simp: bucket_sum_def add.assoc)

lemma recorded_plus_missing_rows:
  "recorded_plus_missing fb rows = bucket_sum fb (map (timeless \<circ> positions_toEntry) rows)"
  by (induction rows) (auto simp: recorded_plus_missing_Cons bucket_sum_def or_else_def)

lemma in_bucket_rows:
  "map (timeless \<circ> positions_toEntry) (in_bucket b t) = entry_bucket b (table_rows t)"
  by (induction t) (auto simp: in_bucket_def entry_bucket_def table_rows_def)

lemma entry_bucket_mset:
  "mset xs = mset ys \<Longrightarrow> mset (entry_bucket b xs) = mset (entry_bucket b ys)"
  by (simp add: entry_bucket_def)

lemma bucket_sum_mset: "mset xs = mset ys \<Longrightarrow> bucket_sum fb xs = bucket_sum fb ys"
  by (simp add: bucket_sum_def flip: sum_mset_sum_list)

lemma entry_bucket_memory: "entry_bucket b (memory_rows m) = map timeless (entry_bucket b m)"
  by (induction m) (auto simp: entry_bucket_def memory_rows_def)

lemma bucket_sum_timeless [simp]: "bucket_sum fb (map timeless es) = bucket_sum fb es"
  by (simp add: bucket_sum_def comp_def)

lemma in_bucket_agree:
  assumes "mset (table_rows t) = mset (memory_rows m)"
  shows "length (in_bucket b t) = length (entry_bucket b m)"
    and "recorded_plus_missing fb (in_bucket b t) = bucket_sum fb (entry_bucket b m)"
proof -
  have e: "mset (entry_bucket b (table_rows t)) = mset (map timeless (entry_bucket b m))"
    using entry_bucket_mset [OF assms] by (simp add: entry_bucket_memory)
  from mset_eq_length [OF e] show "length (in_bucket b t) = length (entry_bucket b m)"
    by (simp flip: in_bucket_rows)
  show "recorded_plus_missing fb (in_bucket b t) = bucket_sum fb (entry_bucket b m)"
    using bucket_sum_mset [OF e] by (simp add: recorded_plus_missing_rows in_bucket_rows)
qed

section \<open>Properties\<close>

definition position_store_reach :: "'n position_memory \<times> 'n position_call WriteChain \<times> 'n positions_table \<Rightarrow> bool" where
  "position_store_reach = reach (\<lambda>s. \<exists>db. js_keys_ok db \<and> s = store_init PM_load db)
     (store_step PM_mutate PM_calls position_run position_op_ok True)"

lemma position_store_sync: "position_store_reach s \<Longrightarrow> positions.in_sync s"
  unfolding position_store_reach_def by (rule positions.lossy.reach_inv)

lemma position_store_agree:
  assumes "position_store_reach (m, c, db)" and "drained c" and "dropped c = []"
  shows "table_view db = memory_view m" and "mset (table_rows db) = mset (memory_rows m)"
proof -
  have s: "positions.in_sync (m, c, db)" using assms(1) by (rule position_store_sync)
  then show v: "table_view db = memory_view m"
    using assms(2,3) by (simp add: positions.in_sync_def drained_def)
  show "mset (table_rows db) = mset (memory_rows m)"
    using s v by (intro rows_agree) (simp_all add: positions.in_sync_def)
qed

text \<open>
  C19: nothing is lost over a restart. Take any interleaving of position map operations with
  database answers, lost acknowledgements included. Once the write chain is drained and has dropped
  no call, the map a restarted bot loads has the same entry for every target NFT, creation times
  apart, and every lookup of the repository answers what the lookup in memory answers.
\<close>

theorem positions_survive_restart:
  fixes m :: "'n position_memory"
  assumes "position_store_reach (m, c, db)" and "drained c" and "dropped c = []"
  shows "map_option timeless (map_of (PM_load db) k) = map_option timeless (map_of m k) \<and>
         positions_get k db = PM_get k m \<and> positions_getPool k db = PM_getPool k m \<and>
         positions_getDex k db = PM_getDex k m \<and>
         positions_getLockedSol k fallback db = PM_getLockedSol k fallback m \<and>
         positions_getTargetLiquidity k db = PM_getTargetLiquidity k m"
proof -
  have v: "map_option (timeless \<circ> positions_toEntry) (map_of db k) = map_option timeless (map_of m k)"
    using fun_cong [OF position_store_agree(1) [OF assms], of k] by (simp add: table_view_def memory_view_def)
  show ?thesis
  proof (cases "map_of m k")
    case None
    with v have "map_of db k = None" by simp
    with None show ?thesis
      by (simp add: PM_load_def map_of_positions_toJSON positions_get_def positions_getPool_def
          positions_getDex_def positions_getLockedSol_def positions_getTargetLiquidity_def
          PM_get_def PM_getPool_def PM_getDex_def PM_getLockedSol_def PM_getTargetLiquidity_def)
  next
    case (Some e)
    with v obtain r where r: "map_of db k = Some r" and e: "timeless (positions_toEntry r) = timeless e"
      by auto
    from e have f: "our_nft r = ourNft e" "row_pool r = pool e" "row_dex r = dex e"
      "locked_sol r = lockedSol e" "map_option show_int (target_liquidity r) = targetLiquidity e"
      by (metis timeless_simps toEntry_simps)+
    show ?thesis using r e Some f
      by (simp add: PM_load_def map_of_positions_toJSON positions_get_def positions_getPool_def
          positions_getDex_def positions_getLockedSol_def positions_getTargetLiquidity_def
          PM_get_def PM_getPool_def PM_getDex_def PM_getLockedSol_def PM_getTargetLiquidity_def)
  qed
qed

text \<open>
  The aggregates agree too. In the same states the repository's grouped counts and its sums of
  locked SOL per DEX (recorded values plus the fallback for rows without one) are what the loops
  over the map in memory compute, the totals over all entries included, in exact arithmetic.
\<close>

theorem position_aggregates_agree:
  fixes m :: "'n::comm_semiring_1 position_memory"
  assumes "position_store_reach (m, c, db)" and "drained c" and "dropped c = []"
  shows "positions_countByDex db = PM_countByDex m \<and>
         positions_getTotalLockedSolByDex fallbacks db = PM_getTotalLockedSolByDex fallbacks m \<and>
         positions_getTotalLockedSol fallback db = PM_getTotalLockedSol fallback m \<and>
         positions_size db = PM_size m"
proof -
  note rows = position_store_agree(2) [OF assms]
  note b = in_bucket_agree [OF rows]
  have "mset (map snd (table_rows db)) = mset (map snd (memory_rows m))"
    using rows by simp
  then have "bucket_sum fallback (map snd (table_rows db)) = bucket_sum fallback (map snd (memory_rows m))"
    by (rule bucket_sum_mset)
  moreover have "map snd (table_rows db) = map (timeless \<circ> positions_toEntry) (map snd db)"
    by (simp add: table_rows_def case_prod_unfold)
  moreover have "map snd (memory_rows m) = map timeless (map snd m)"
    by (simp add: memory_rows_def case_prod_unfold)
  ultimately have "recorded_plus_missing fallback (map snd db) = bucket_sum fallback (map snd m)"
    by (metis bucket_sum_timeless recorded_plus_missing_rows)
  moreover have "length db = length m"
    using mset_eq_length [OF rows] by (simp add: table_rows_def memory_rows_def)
  ultimately show ?thesis
    by (simp add: positions_countByDex_def PM_countByDex_def count_entries b
        positions_getTotalLockedSolByDex_def PM_getTotalLockedSolByDex_def lock_entries
        positions_getTotalLockedSol_def PM_getTotalLockedSol_def fold_total positions_size_def PM_size_def)
qed

text \<open>
  A run for the witnesses: a mapping is recorded and its rent noted; the acknowledgement of the
  first insert is lost, so it runs twice.
\<close>

definition demo_world :: "int position_memory \<times> int position_call WriteChain \<times> int positions_table" where
  "demo_world = run_script PM_mutate PM_calls position_run
     [Op (POset 7 ''tgt'' ''ours'' (Some ''SOL/USDC'') (Some ''wallet'') (Some (-4)) (Some 8) None),
      Op (POsetLockedSol ''tgt'' 5), Db (LostAck 100), Db (Ack 101), Db (Ack 102)]
     (store_init PM_load [])"

definition demo_memory :: "int position_memory" where
  "demo_memory = [(''tgt'', \<lparr>ourNft = ''ours'', createdAt = 7, pool = Some ''SOL/USDC'',
     targetWallet = Some ''wallet'', lockedSol = Some 5, tickLower = Some (-4), tickUpper = Some 8,
     dex = None, targetLiquidity = None\<rparr>)]"

definition demo_table :: "int positions_table" where
  "demo_table = [(''tgt'', \<lparr>our_nft = ''ours'', row_dex = None, row_pool = Some ''SOL/USDC'',
     target_wallet = Some ''wallet'', locked_sol = Some 5, tick_lower = Some (-4),
     tick_upper = Some 8, target_liquidity = None, created_at = 101, updated_at = 102\<rparr>)]"

definition demo_chain :: "int position_call WriteChain" where
  "demo_chain = enable (new_chain RETRY_DELAYS_MS)"

lemma demo_reach: "position_store_reach (demo_memory, demo_chain, demo_table)"
proof -
  have "demo_world = (demo_memory, demo_chain, demo_table)"
    by (simp add: demo_world_def demo_memory_def demo_chain_def demo_table_def store_init_def PM_load_def
        positions_toJSON_def chain_defs RETRY_DELAYS_MS_def PM_mutate_def PM_calls_def PM_set_def
        PM_setLockedSol_def positions_set_def positions_setLockedSol_def js_modify_def)
  moreover have "position_store_reach demo_world"
    unfolding position_store_reach_def demo_world_def by (rule reach_script) simp_all
  ultimately show ?thesis by simp
qed

theorem positions_survive_restart_witness:
  "positions_get ''tgt'' demo_table = Some ''ours'' \<and> positions_getLockedSol ''tgt'' 0 demo_table = 5"
  using positions_survive_restart [OF demo_reach, of "''tgt''" 0]
  by (simp add: demo_chain_def chain_defs demo_memory_def PM_get_def PM_getLockedSol_def)

theorem position_aggregates_agree_witness:
  "cnt_byreal (positions_countByDex demo_table) = 1 \<and> positions_getTotalLockedSol 9 demo_table = 5"
proof -
  have c: "drained demo_chain"
    "dropped demo_chain = []"
    by (simp_all add: demo_chain_def chain_defs)
  have "positions_countByDex demo_table = PM_countByDex demo_memory"
    "positions_getTotalLockedSol 9 demo_table = PM_getTotalLockedSol 9 demo_memory"
    using position_aggregates_agree [OF demo_reach c] by blast+
  moreover have "cnt_byreal (PM_countByDex demo_memory) = 1"
    by (simp add: demo_memory_def PM_countByDex_def count_entry.simps)
  moreover have "PM_getTotalLockedSol 9 demo_memory = 5"
    by (simp add: demo_memory_def PM_getTotalLockedSol_def or_else_def)
  ultimately show ?thesis by simp
qed

end
