(* ===== verification/Bn_Js.thy ===== *)
theory Bn_Js
  imports Js_Number
begin

text \<open>
  Big integers of the package bn.js, which the amounts of the program are. The package is not part
  of the program: its operations are the fields of a record the definitions take, and \<open>bn_spec\<close> is
  what its documentation says of them. \<open>val\<close> is the integer a big integer denotes.
\<close>

record 'b BN =
  bn_of_string :: "string \<Rightarrow> 'b result"
  bn_of_num :: "js_num \<Rightarrow> 'b result"
  bn_add :: "'b \<Rightarrow> 'b \<Rightarrow> 'b"
  bn_sub :: "'b \<Rightarrow> 'b \<Rightarrow> 'b"
  bn_mul :: "'b \<Rightarrow> 'b \<Rightarrow> 'b"
  bn_div :: "'b \<Rightarrow> 'b \<Rightarrow> 'b"
  bn_gt :: "'b \<Rightarrow> 'b \<Rightarrow> bool"
  bn_lte :: "'b \<Rightarrow> 'b \<Rightarrow> bool"
  bn_eq :: "'b \<Rightarrow> 'b \<Rightarrow> bool"
  bn_isZero :: "'b \<Rightarrow> bool"
  bn_toString :: "'b \<Rightarrow> string"
  bn_toNumber :: "'b \<Rightarrow> js_num result"

text \<open>
  The documented behaviour on what the program passes: decimal strings and integral numbers below
  \<open>2 ^ 53\<close> are read exactly (a larger number, or none, fails an assertion), sums, differences and
  products are exact, division truncates towards zero, printing is decimal, and \<^verbatim>\<open>toNumber\<close> fails
  beyond 53 bits.
\<close>

definition bn_spec :: "'b BN \<Rightarrow> ('b \<Rightarrow> int) \<Rightarrow> bool" where
  "bn_spec bn val \<longleftrightarrow>
     (\<forall>i. \<exists>b. bn_of_string bn (show_int i) = Inr b \<and> val b = i) \<and>
     (\<forall>i. \<bar>i\<bar> < 2 ^ 53 \<longrightarrow> (\<exists>b. bn_of_num bn (Num (of_int i)) = Inr b \<and> val b = i)) \<and>
     (\<forall>a b. val (bn_add bn a b) = val a + val b) \<and>
     (\<forall>a b. val (bn_sub bn a b) = val a - val b) \<and>
     (\<forall>a b. val (bn_mul bn a b) = val a * val b) \<and>
     (\<forall>a b. 0 \<le> val a \<longrightarrow> 0 < val b \<longrightarrow> val (bn_div bn a b) = val a div val b) \<and>
     (\<forall>a b. bn_gt bn a b \<longleftrightarrow> val a > val b) \<and>
     (\<forall>a b. bn_lte bn a b \<longleftrightarrow> val a \<le> val b) \<and>
     (\<forall>a b. bn_eq bn a b \<longleftrightarrow> val a = val b) \<and>
     (\<forall>a. bn_isZero bn a \<longleftrightarrow> val a = 0) \<and>
     (\<forall>a. bn_toString bn a = show_int (val a)) \<and>
     (\<forall>a. bn_toNumber bn a = (if \<bar>val a\<bar> < 2 ^ 53 then Inr (Num (of_int (val a)))
                              else Inl (Error ''Number can only safely store up to 53 bits'')))"

lemma bn_spec_int: "bn_spec bn val \<Longrightarrow> \<exists>b. bn_of_string bn (show_int i) = Inr b \<and> val b = i"
  and bn_spec_num: "bn_spec bn val \<Longrightarrow> \<bar>i\<bar> < 2 ^ 53 \<Longrightarrow> \<exists>b. bn_of_num bn (Num (of_int i)) = Inr b \<and> val b = i"
  and bn_spec_add: "bn_spec bn val \<Longrightarrow> val (bn_add bn a b) = val a + val b"
  and bn_spec_sub: "bn_spec bn val \<Longrightarrow> val (bn_sub bn a b) = val a - val b"
  and bn_spec_mul: "bn_spec bn val \<Longrightarrow> val (bn_mul bn a b) = val a * val b"
  and bn_spec_div: "bn_spec bn val \<Longrightarrow> 0 \<le> val a \<Longrightarrow> 0 < val b \<Longrightarrow> val (bn_div bn a b) = val a div val b"
  and bn_spec_gt: "bn_spec bn val \<Longrightarrow> bn_gt bn a b \<longleftrightarrow> val a > val b"
  and bn_spec_lte: "bn_spec bn val \<Longrightarrow> bn_lte bn a b \<longleftrightarrow> val a \<le> val b"
  and bn_spec_eq: "bn_spec bn val \<Longrightarrow> bn_eq bn a b \<longleftrightarrow> val a = val b"
  and bn_spec_zero: "bn_spec bn val \<Longrightarrow> bn_isZero bn a \<longleftrightarrow> val a = 0"
  and bn_spec_show: "bn_spec bn val \<Longrightarrow> bn_toString bn a = show_int (val a)"
  and bn_spec_toNumber: "bn_spec bn val \<Longrightarrow> \<bar>val a\<bar> < 2 ^ 53 \<Longrightarrow> bn_toNumber bn a = Inr (Num (of_int (val a)))"
  and bn_spec_toNumber_big: "bn_spec bn val \<Longrightarrow> \<not> \<bar>val a\<bar> < 2 ^ 53 \<Longrightarrow>
     bn_toNumber bn a = Inl (Error ''Number can only safely store up to 53 bits'')"
  unfolding bn_spec_def by meson+

lemmas bn_spec_simps =
  bn_spec_add bn_spec_sub bn_spec_mul bn_spec_gt bn_spec_lte bn_spec_eq bn_spec_zero bn_spec_show

lemma bn_spec_string: "bn_spec bn val \<Longrightarrow> \<exists>b. bn_of_string bn (show_nat n) = Inr b \<and> val b = int n"
  using bn_spec_int [of bn val "int n"] by (simp add: show_int_def)

lemma bn_spec_stringE:
  assumes "bn_spec bn val"
  obtains b where "bn_of_string bn (show_nat n) = Inr b" and "val b = int n"
  using bn_spec_string [OF assms] by blast

lemma bn_spec_numeralE:
  assumes "bn_spec bn val" and "n < 2 ^ 53"
  obtains b where "bn_of_num bn (Num (of_nat n)) = Inr b" and "val b = int n"
proof -
  from assms(2) have "int n < 2 ^ 53" by (metis of_nat_less_iff of_nat_numeral of_nat_power)
  then show ?thesis using bn_spec_num [OF assms(1), of "int n"] that by auto
qed

text \<open>Integers satisfy the description of the package.\<close>

definition int_BN :: "int BN" where
  "int_BN = \<lparr>bn_of_string = BigInt_of,
     bn_of_num = (\<lambda>x. case x of Num q \<Rightarrow> if \<bar>q\<bar> < 2 ^ 53 then Inr \<lfloor>q\<rfloor> else Inl (Error ''Assertion failed'')
                                | _ \<Rightarrow> Inl (Error ''Assertion failed'')),
     bn_add = (+), bn_sub = (-),
     bn_mul = (*), bn_div = (\<lambda>a b. sgn a * sgn b * (\<bar>a\<bar> div \<bar>b\<bar>)), bn_gt = (>), bn_lte = (\<le>), bn_eq = (=),
     bn_isZero = (\<lambda>a. a = 0), bn_toString = show_int,
     bn_toNumber = (\<lambda>a. if \<bar>a\<bar> < 2 ^ 53 then Inr (Num (of_int a))
                        else Inl (Error ''Number can only safely store up to 53 bits''))\<rparr>"

lemma int_BN_spec: "bn_spec int_BN id"
proof -
  have "\<bar>i\<bar> < 2 ^ 53 \<Longrightarrow> \<bar>of_int i :: rat\<bar> < 2 ^ 53" for i :: int
    by (metis of_int_abs of_int_less_iff of_int_numeral of_int_power)
  then show ?thesis by (auto simp: bn_spec_def int_BN_def BigInt_show_int sgn_if)
qed

end
