(* ===== verification/Pending_Swaps.thy ===== *)
theory Pending_Swaps
  imports Keyed_Store Bn_Js
begin

text \<open>
  The pending swaps, \<^verbatim>\<open>src/state/pending-swaps-store.ts\<close> and \<^verbatim>\<open>src/state/repo/pendingSwaps.ts\<close>: tokens
  received from closed positions, held per mint until the target's own swap says what proportion
  to sell. All executors share the one map; a mutation hands the write chain one repository call,
  here the second component of what an operation returns. \<^verbatim>\<open>Date.now()\<close> is an argument, and a
  mutation whose amount is no number throws.

  An entry has the three fields the executors agree on and whatever else an older shape carried
  (\<open>ps_extra\<close>); \<^verbatim>\<open>botReceived\<close> may be missing. A payload goes through \<^verbatim>\<open>JSON.stringify\<close> into a
  \<^verbatim>\<open>JSONB\<close> column and comes back as it was.
\<close>

section \<open>Data\<close>

record 'j PendingSwapEntry =
  ps_pending :: string
  ps_botReceived :: "string option"
  ps_createdAt :: millis
  ps_extra :: "(string, 'j) jsmap"

record 'p PendingSwapRow =
  ps_payload :: 'p
  ps_updatedAt :: millis

type_synonym 'j pending_memory = "(string, 'j PendingSwapEntry) jsmap"
type_synonym 'j pending_table = "(string, 'j PendingSwapEntry PendingSwapRow) jsmap"

datatype 'j pending_call =
    PS_set string "'j PendingSwapEntry"
  | PS_delete string
  | PS_clear

datatype AmountField = pending_field | botReceived_field

section \<open>The repository\<close>

definition pendingSwaps_get :: "string \<Rightarrow> 'j pending_table \<Rightarrow> 'j PendingSwapEntry option" where
  "pendingSwaps_get inputMint t = map_option ps_payload (map_of t inputMint)"

definition pendingSwaps_set ::
  "millis \<Rightarrow> string \<Rightarrow> 'j PendingSwapEntry \<Rightarrow> 'j pending_table \<Rightarrow> 'j pending_table" where
  "pendingSwaps_set now inputMint payload t =
     AList.update inputMint \<lparr>ps_payload = payload, ps_updatedAt = now\<rparr> t"

definition pendingSwaps_del :: "string \<Rightarrow> 'j pending_table \<Rightarrow> 'j pending_table" where
  "pendingSwaps_del inputMint t = AList.delete inputMint t"

definition pendingSwaps_all :: "'j pending_table \<Rightarrow> 'j pending_memory" where
  "pendingSwaps_all t = rows_to_record ps_payload t"

definition pendingSwaps_list :: "'j pending_table \<Rightarrow> (string \<times> 'j PendingSwapEntry PendingSwapRow) list" where
  "pendingSwaps_list t = sort_key (\<lambda>(k, r). ps_updatedAt r) t"

definition pendingSwaps_clear :: "'j pending_table \<Rightarrow> 'j pending_table" where
  "pendingSwaps_clear t = []"

definition amount_field :: "AmountField \<Rightarrow> 'j PendingSwapEntry \<Rightarrow> string option" where
  "amount_field f e = (case f of pending_field \<Rightarrow> Some (ps_pending e) | botReceived_field \<Rightarrow> ps_botReceived e)"

definition set_amount_field :: "AmountField \<Rightarrow> string \<Rightarrow> 'j PendingSwapEntry \<Rightarrow> 'j PendingSwapEntry" where
  "set_amount_field f v e =
     (case f of pending_field \<Rightarrow> e\<lparr>ps_pending := v\<rparr> | botReceived_field \<Rightarrow> e\<lparr>ps_botReceived := Some v\<rparr>)"

definition seed :: "millis \<Rightarrow> 'j PendingSwapEntry" where
  "seed createdAt = \<lparr>ps_pending = ''0'', ps_botReceived = Some ''0'', ps_createdAt = createdAt, ps_extra = []\<rparr>"

text \<open>The addition inside the statement; a text that is no number makes it fail.\<close>

definition pendingSwaps_accumulate ::
  "millis \<Rightarrow> string \<Rightarrow> AmountField \<Rightarrow> string \<Rightarrow> millis \<Rightarrow> 'j pending_table \<Rightarrow> (string \<times> 'j pending_table) option" where
  "pendingSwaps_accumulate now inputMint field delta createdAtMs t =
     Option.bind (numeric_in delta) (\<lambda>d.
     Option.bind
       (case map_of t inputMint of
          None \<Rightarrow> Some (set_amount_field field (show_int d) (seed createdAtMs))
        | Some row \<Rightarrow>
            map_option (\<lambda>old. set_amount_field field (show_int (old + d)) (ps_payload row))
              (numeric_in (case amount_field field (ps_payload row) of Some s \<Rightarrow> s | None \<Rightarrow> ''0'')))
       (\<lambda>payload. map_option (\<lambda>v. (v, pendingSwaps_set now inputMint payload t)) (amount_field field payload)))"

section \<open>The store\<close>

definition initPendingSwaps :: "'j pending_table \<Rightarrow> 'j pending_memory" where
  "initPendingSwaps t = record_to_map (pendingSwaps_all t)"

definition countPendingSwaps :: "'j pending_memory \<Rightarrow> nat" where
  "countPendingSwaps m = length m"

definition getPendingSwap :: "string \<Rightarrow> 'j pending_memory \<Rightarrow> 'j PendingSwapEntry option" where
  "getPendingSwap inputMint m = map_of m inputMint"

definition allPendingSwaps :: "'j pending_memory \<Rightarrow> 'j pending_memory" where
  "allPendingSwaps m = record_to_map m"

definition setPendingSwap ::
  "string \<Rightarrow> 'j PendingSwapEntry \<Rightarrow> 'j pending_memory \<Rightarrow> 'j pending_memory \<times> 'j pending_call list" where
  "setPendingSwap inputMint entry m = (AList.update inputMint entry m, [PS_set inputMint entry])"

definition entry_or_seed :: "millis \<Rightarrow> string \<Rightarrow> 'j pending_memory \<Rightarrow> 'j PendingSwapEntry" where
  "entry_or_seed now inputMint m = (case map_of m inputMint of Some e \<Rightarrow> e | None \<Rightarrow> seed now)"

definition addPending ::
  "'b BN \<Rightarrow> millis \<Rightarrow> string \<Rightarrow> 'b \<Rightarrow> 'j pending_memory \<Rightarrow>
   (string \<times> 'j pending_memory \<times> 'j pending_call list) result" where
  "addPending bn now inputMint amount m =
     (let entry = entry_or_seed now inputMint m
      in bind_result (bn_of_string bn (ps_pending entry)) (\<lambda>held.
           let total = bn_toString bn (bn_add bn held amount);
               updated = entry\<lparr>ps_pending := total\<rparr>
           in Inr (total, AList.update inputMint updated m, [PS_set inputMint updated])))"

definition truthy_or :: "string option \<Rightarrow> string \<Rightarrow> string" where
  "truthy_or s d = (case s of Some v \<Rightarrow> if v = [] then d else v | None \<Rightarrow> d)"

definition addBotReceived ::
  "'b BN \<Rightarrow> millis \<Rightarrow> string \<Rightarrow> 'b \<Rightarrow> 'j pending_memory \<Rightarrow>
   (string \<times> 'j pending_memory \<times> 'j pending_call list) result" where
  "addBotReceived bn now inputMint amount m =
     (let entry = entry_or_seed now inputMint m
      in bind_result (bn_of_string bn (truthy_or (ps_botReceived entry) ''0'')) (\<lambda>got.
           let total = bn_toString bn (bn_add bn got amount);
               updated = entry\<lparr>ps_botReceived := Some total\<rparr>
           in Inr (total, AList.update inputMint updated m, [PS_set inputMint updated])))"

definition deletePendingSwap :: "string \<Rightarrow> 'j pending_memory \<Rightarrow> 'j pending_memory \<times> 'j pending_call list" where
  "deletePendingSwap inputMint m = (AList.delete inputMint m, [PS_delete inputMint])"

definition clearPendingSwaps :: "'j pending_memory \<Rightarrow> 'j pending_memory \<times> 'j pending_call list" where
  "clearPendingSwaps m = ([], [PS_clear])"

lemmas pending_store_defs [store_defs] =
  setPendingSwap_def addPending_def addBotReceived_def deletePendingSwap_def clearPendingSwaps_def

lemmas pending_row_defs [row_defs] =
  pendingSwaps_set_def pendingSwaps_del_def pendingSwaps_clear_def

section \<open>The store as a system\<close>

datatype ('b, 'j) pending_op =
    PSOset string "'j PendingSwapEntry"
  | PSOadd millis string 'b
  | PSOreceived millis string 'b
  | PSOdelete string
  | PSOclear

text \<open>An operation that throws leaves memory alone and pushes nothing.\<close>

fun pending_op_step ::
  "'b BN \<Rightarrow> ('b, 'j) pending_op \<Rightarrow> 'j pending_memory \<Rightarrow> 'j pending_memory \<times> 'j pending_call list" where
  "pending_op_step bn (PSOset k e) m = setPendingSwap k e m"
| "pending_op_step bn (PSOadd now k a) m = (case addPending bn now k a m of Inr (_, r) \<Rightarrow> r | Inl _ \<Rightarrow> (m, []))"
| "pending_op_step bn (PSOreceived now k a) m =
     (case addBotReceived bn now k a m of Inr (_, r) \<Rightarrow> r | Inl _ \<Rightarrow> (m, []))"
| "pending_op_step bn (PSOdelete k) m = deletePendingSwap k m"
| "pending_op_step bn PSOclear m = clearPendingSwaps m"

fun pending_run :: "millis \<Rightarrow> 'j pending_call \<Rightarrow> 'j pending_table \<Rightarrow> 'j pending_table" where
  "pending_run now (PS_set k e) t = pendingSwaps_set now k e t"
| "pending_run now (PS_delete k) t = pendingSwaps_del k t"
| "pending_run now PS_clear t = pendingSwaps_clear t"

fun pending_effect ::
  "'j pending_call \<Rightarrow> (string \<rightharpoonup> 'j PendingSwapEntry) \<Rightarrow> string \<rightharpoonup> 'j PendingSwapEntry" where
  "pending_effect (PS_set k e) v = v(k \<mapsto> e)"
| "pending_effect (PS_delete k) v = v(k := None)"
| "pending_effect PS_clear v = Map.empty"

lemma bind_result_split: "P (bind_result r f) \<longleftrightarrow> (\<forall>e. r = Inl e \<longrightarrow> P (Inl e)) \<and> (\<forall>a. r = Inr a \<longrightarrow> P (f a))"
  by (cases r) auto

text \<open>The mints a call writes.\<close>

fun pending_touches :: "'j pending_call \<Rightarrow> string \<Rightarrow> bool" where
  "pending_touches (PS_set k e) k' \<longleftrightarrow> k' = k"
| "pending_touches (PS_delete k) k' \<longleftrightarrow> k' = k"
| "pending_touches PS_clear k' \<longleftrightarrow> True"

interpretation pendings: rowwise_store "pending_op_step bn" pending_run initPendingSwaps ps_payload pending_effect pending_touches
  for bn :: "'b BN"
proof
  fix op :: "('b, 'j) pending_op" and m :: "'j pending_memory"
  show "map_of (fst (pending_op_step bn op m)) = fold pending_effect (snd (pending_op_step bn op m)) (map_of m)"
    by (cases op) (auto simp: store_defs Let_def split: bind_result_split)
  show "js_keys_ok m \<Longrightarrow> js_keys_ok (fst (pending_op_step bn op m))"
    by (cases op) (auto simp: store_defs Let_def split: bind_result_split)
next
  fix w :: "'j pending_call" and t :: "'j pending_table" and v now
  show "row_view ps_payload (pending_run now w t) = pending_effect w (row_view ps_payload t)"
    by (cases w) (simp_all add: row_defs)
  show "js_keys_ok t \<Longrightarrow> js_keys_ok (pending_run now w t)" by (cases w) (simp_all add: row_defs)
  show "pending_effect w (pending_effect w v) = pending_effect w v" by (cases w) auto
  show "js_keys_ok t \<Longrightarrow> map_of (initPendingSwaps t) = row_view ps_payload t"
    by (simp add: initPendingSwaps_def pendingSwaps_all_def)
  show "js_keys_ok t \<Longrightarrow> js_keys_ok (initPendingSwaps t)"
    by (simp add: initPendingSwaps_def pendingSwaps_all_def)
  show "v k = v' k \<Longrightarrow> pending_effect w v k = pending_effect w v' k" for v v' k by (cases w) auto
  show "\<not> pending_touches w k \<Longrightarrow> pending_effect w v k = v k" for v k by (cases w) auto
qed

section \<open>Amounts\<close>

text \<open>The amounts an entry holds, and that they are decimal numerals.\<close>

definition amount_value :: "string \<Rightarrow> nat" where
  "amount_value s = (case numeric_in s of Some i \<Rightarrow> nat i | None \<Rightarrow> 0)"

definition held :: "'j pending_memory \<Rightarrow> string \<Rightarrow> nat" where
  "held m k = (case map_of m k of Some e \<Rightarrow> amount_value (ps_pending e) | None \<Rightarrow> 0)"

definition got :: "'j pending_memory \<Rightarrow> string \<Rightarrow> nat" where
  "got m k = (case map_of m k of Some e \<Rightarrow> amount_value (truthy_or (ps_botReceived e) ''0'') | None \<Rightarrow> 0)"

definition decimal_text :: "string \<Rightarrow> bool" where
  "decimal_text s \<longleftrightarrow> s = show_nat (amount_value s)"

definition entry_ok :: "'j PendingSwapEntry \<Rightarrow> bool" where
  "entry_ok e \<longleftrightarrow> decimal_text (ps_pending e) \<and> decimal_text (truthy_or (ps_botReceived e) ''0'')"

abbreviation amounts_ok :: "'j pending_memory \<Rightarrow> bool" where
  "amounts_ok \<equiv> all_values entry_ok"

lemma amount_value_show [simp]: "amount_value (show_nat n) = n"
  by (simp add: amount_value_def)

lemma decimal_text_show [simp]: "decimal_text (show_nat n)"
  by (simp add: decimal_text_def)

lemma zero_text: "''0'' = show_nat 0"
  by (simp add: show_nat_digit)

lemma amount_value_zero [simp]: "amount_value ''0'' = 0" "decimal_text ''0''"
  unfolding zero_text by simp_all

lemma truthy_or_show [simp]: "truthy_or (Some (show_nat n)) d = show_nat n"
  by (simp add: truthy_or_def)

lemma entry_ok_seed [simp]: "entry_ok (seed now)"
  by (simp add: entry_ok_def seed_def truthy_or_def)

lemma entry_or_seed_ok: "amounts_ok m \<Longrightarrow> entry_ok (entry_or_seed now k m)"
  by (auto simp: entry_or_seed_def dest: all_values_get split: option.splits)

lemma entry_or_seed_values:
  "amount_value (ps_pending (entry_or_seed now k m)) = held m k"
  "amount_value (truthy_or (ps_botReceived (entry_or_seed now k m)) ''0'') = got m k"
  by (auto simp: entry_or_seed_def held_def got_def seed_def truthy_or_def split: option.splits)

lemma held_update [simp]:
  "held (AList.update k e m) k' = (if k' = k then amount_value (ps_pending e) else held m k')"
  and got_update [simp]:
  "got (AList.update k e m) k' = (if k' = k then amount_value (truthy_or (ps_botReceived e) ''0'') else got m k')"
  by (simp_all add: held_def got_def)

lemma show_int_sum: "val a = int i \<Longrightarrow> 0 \<le> val b \<Longrightarrow> show_int (val a + val b) = show_nat (i + nat (val b))"
  by (simp add: show_int_def nat_add_distrib)

lemma read_amount:
  assumes "bn_spec bn val" and "decimal_text s"
  obtains b where "bn_of_string bn s = Inr b" and "val b = int (amount_value s)"
  using bn_spec_stringE [OF assms(1), of "amount_value s"] assms(2) by (metis decimal_text_def)

text \<open>Crediting a mint: it never throws, adds the amount exactly, and touches nothing else.\<close>

lemma addPending_credits:
  assumes spec: "bn_spec bn val" and ok: "amounts_ok m" and "0 \<le> val a"
    and e_def: "e = (entry_or_seed now k m)\<lparr>ps_pending := show_nat (held m k + nat (val a))\<rparr>"
  shows "addPending bn now k a m =
     Inr (show_nat (held m k + nat (val a)), AList.update k e m, [PS_set k e])"
    and "amounts_ok (AList.update k e m)"
proof -
  note v = entry_or_seed_values [of now k m] and eok = entry_or_seed_ok [OF ok, of now k]
  obtain b where b: "bn_of_string bn (ps_pending (entry_or_seed now k m)) = Inr b" "val b = int (held m k)"
    using read_amount [OF spec, of "ps_pending (entry_or_seed now k m)"] eok v(1) by (auto simp: entry_ok_def)
  have "bn_toString bn (bn_add bn b a) = show_nat (held m k + nat (val a))"
    using show_int_sum [of val b, OF b(2) assms(3)] by (simp add: bn_spec_simps [OF spec])
  then show "addPending bn now k a m =
     Inr (show_nat (held m k + nat (val a)), AList.update k e m, [PS_set k e])"
    by (simp add: addPending_def b e_def Let_def)
  show "amounts_ok (AList.update k e m)"
    using ok eok by (simp add: e_def entry_ok_def)
qed

lemma addBotReceived_credits:
  assumes spec: "bn_spec bn val" and ok: "amounts_ok m" and "0 \<le> val a"
    and e_def: "e = (entry_or_seed now k m)\<lparr>ps_botReceived := Some (show_nat (got m k + nat (val a)))\<rparr>"
  shows "addBotReceived bn now k a m =
     Inr (show_nat (got m k + nat (val a)), AList.update k e m, [PS_set k e])"
    and "amounts_ok (AList.update k e m)"
proof -
  note v = entry_or_seed_values [of now k m] and eok = entry_or_seed_ok [OF ok, of now k]
  obtain b where b: "bn_of_string bn (truthy_or (ps_botReceived (entry_or_seed now k m)) ''0'') = Inr b"
      "val b = int (got m k)"
    using read_amount [OF spec, of "truthy_or (ps_botReceived (entry_or_seed now k m)) ''0''"] eok v(2)
    by (auto simp: entry_ok_def)
  have "bn_toString bn (bn_add bn b a) = show_nat (got m k + nat (val a))"
    using show_int_sum [of val b, OF b(2) assms(3)] by (simp add: bn_spec_simps [OF spec])
  then show "addBotReceived bn now k a m =
     Inr (show_nat (got m k + nat (val a)), AList.update k e m, [PS_set k e])"
    by (simp add: addBotReceived_def b e_def Let_def)
  show "amounts_ok (AList.update k e m)"
    using ok eok by (simp add: e_def entry_ok_def)
qed

text \<open>What an operation credits to a mint, as held by us and as received by the target.\<close>

fun credit_held :: "('b \<Rightarrow> int) \<Rightarrow> string \<Rightarrow> ('b, 'j) pending_op \<Rightarrow> nat" where
  "credit_held val k (PSOadd now k' a) = (if k' = k then nat (val a) else 0)"
| "credit_held val k _ = 0"

fun credit_got :: "('b \<Rightarrow> int) \<Rightarrow> string \<Rightarrow> ('b, 'j) pending_op \<Rightarrow> nat" where
  "credit_got val k (PSOreceived now k' a) = (if k' = k then nat (val a) else 0)"
| "credit_got val k _ = 0"

fun is_credit :: "('b \<Rightarrow> int) \<Rightarrow> ('b, 'j) pending_op \<Rightarrow> bool" where
  "is_credit val (PSOadd now k a) = (0 \<le> val a)"
| "is_credit val (PSOreceived now k a) = (0 \<le> val a)"
| "is_credit val _ = False"

definition run_ops :: "'b BN \<Rightarrow> ('b, 'j) pending_op list \<Rightarrow> 'j pending_memory \<Rightarrow> 'j pending_memory" where
  "run_ops bn ops m = fold (\<lambda>op m. fst (pending_op_step bn op m)) ops m"

lemma credit_step:
  assumes "bn_spec bn val" and "amounts_ok m" and "is_credit val op"
  defines "m' \<equiv> fst (pending_op_step bn op m)"
  shows "amounts_ok m'" and "held m' k = held m k + credit_held val k op"
    and "got m' k = got m k + credit_got val k op"
proof -
  have "amounts_ok m' \<and> held m' k = held m k + credit_held val k op \<and> got m' k = got m k + credit_got val k op"
  proof (cases op)
    case (PSOadd now k' a)
    then have a: "0 \<le> val a" using assms(3) by simp
    show ?thesis
      using addPending_credits [where now = now and k = k', OF assms(1,2) a refl] entry_or_seed_values [of now k' m]
      by (auto simp: m'_def PSOadd)
  next
    case (PSOreceived now k' a)
    then have a: "0 \<le> val a" using assms(3) by simp
    show ?thesis
      using addBotReceived_credits [where now = now and k = k', OF assms(1,2) a refl] entry_or_seed_values [of now k' m]
      by (auto simp: m'_def PSOreceived)
  qed (use assms(3) in simp_all)
  then show "amounts_ok m'" "held m' k = held m k + credit_held val k op"
    "got m' k = got m k + credit_got val k op" by blast+
qed

lemma credits_add_up:
  assumes "bn_spec bn val" and "amounts_ok m" and "list_all (is_credit val) ops"
  shows "amounts_ok (run_ops bn ops m) \<and>
    held (run_ops bn ops m) k = held m k + sum_list (map (credit_held val k) ops) \<and>
    got (run_ops bn ops m) k = got m k + sum_list (map (credit_got val k) ops)"
  using assms(2,3)
proof (induction ops arbitrary: m)
  case (Cons op ops)
  then have op: "is_credit val op" by simp
  note s = credit_step [OF assms(1) Cons.prems(1) op]
  show ?case using Cons.IH [OF s(1)] Cons.prems(2) s(2,3) [of k] by (simp add: run_ops_def)
qed (simp add: run_ops_def)

text \<open>The repository's own addition, on a row whose amounts are numerals.\<close>

definition row_value :: "AmountField \<Rightarrow> 'j pending_memory \<Rightarrow> string \<Rightarrow> nat" where
  "row_value field m k = (case field of pending_field \<Rightarrow> held m k | botReceived_field \<Rightarrow> got m k)"

definition add_amount ::
  "AmountField \<Rightarrow> 'b BN \<Rightarrow> millis \<Rightarrow> string \<Rightarrow> 'b \<Rightarrow> 'j pending_memory \<Rightarrow>
   (string \<times> 'j pending_memory \<times> 'j pending_call list) result" where
  "add_amount field = (case field of pending_field \<Rightarrow> addPending | botReceived_field \<Rightarrow> addBotReceived)"

lemma accumulate_row:
  assumes spec: "bn_spec bn val" and ok: "amounts_ok m" and a: "0 \<le> val a"
    and same: "map_of m k = row_view ps_payload t k"
    and filled: "\<And>e. map_of m k = Some e \<Longrightarrow> ps_botReceived e \<noteq> Some ''''"
  shows "\<exists>v e t'. pendingSwaps_accumulate now k field (show_int (val a)) created t = Some (v, t') \<and>
     add_amount field bn created k a m = Inr (v, AList.update k e m, [PS_set k e]) \<and>
     row_view ps_payload t' = (row_view ps_payload t)(k \<mapsto> e)"
proof -
  note v = entry_or_seed_values [of created k m]
  have i: "show_int (val a) = show_nat (nat (val a))" "show_int (int n + val a) = show_nat (n + nat (val a))" for n
    using a by (simp_all add: show_int_def nat_add_distrib)
  show ?thesis
  proof (cases "map_of t k")
    case None
    then have n: "map_of m k = None" using same by (simp add: row_view_def)
    then have "held m k = 0" "got m k = 0" "entry_or_seed created k m = seed created"
      by (simp_all add: held_def got_def entry_or_seed_def)
    then show ?thesis
      using None addPending_credits [OF spec ok a refl, where now = created and k = k]
        addBotReceived_credits [OF spec ok a refl, where now = created and k = k]
      by (cases field)
        (simp_all add: pendingSwaps_accumulate_def add_amount_def set_amount_field_def amount_field_def
          pendingSwaps_set_def seed_def i a)
  next
    case (Some row)
    then have m: "map_of m k = Some (ps_payload row)" using same by (simp add: row_view_def)
    have e: "entry_or_seed created k m = ps_payload row" by (simp add: entry_or_seed_def m)
    have eok: "entry_ok (ps_payload row)" using all_values_get [OF ok m] .
    have p: "numeric_in (ps_pending (ps_payload row)) = Some (int (held m k))"
      using eok m by (metis e entry_ok_def entry_or_seed_values(1) decimal_text_def numeric_in_show_nat)
    have q: "numeric_in (case ps_botReceived (ps_payload row) of Some s \<Rightarrow> s | None \<Rightarrow> ''0'') = Some (int (got m k))"
    proof -
      have "(case ps_botReceived (ps_payload row) of Some s \<Rightarrow> s | None \<Rightarrow> ''0'') =
          truthy_or (ps_botReceived (ps_payload row)) ''0''"
        using filled [OF m] by (auto simp: truthy_or_def split: option.splits)
      then show ?thesis
        using eok v(2) by (metis e entry_ok_def decimal_text_def numeric_in_show_nat)
    qed
    show ?thesis
      using Some p q addPending_credits [OF spec ok a refl, where now = created and k = k]
        addBotReceived_credits [OF spec ok a refl, where now = created and k = k]
      by (cases field)
        (simp_all add: pendingSwaps_accumulate_def add_amount_def set_amount_field_def amount_field_def
          pendingSwaps_set_def e i a)
  qed
qed

section \<open>Properties\<close>

definition pending_store_reach ::
  "'b BN \<Rightarrow> 'j pending_memory \<times> 'j pending_call WriteChain \<times> 'j pending_table \<Rightarrow> bool" where
  "pending_store_reach bn = reach (\<lambda>s. \<exists>db. js_keys_ok db \<and> s = store_init initPendingSwaps db)
     (store_step (\<lambda>op m. fst (pending_op_step bn op m)) (\<lambda>op m. snd (pending_op_step bn op m))
        pending_run (\<lambda>_. True) True)"

text \<open>
  C21: pending amounts survive. Take any interleaving of the stores' operations, credits of several
  executors included, with database answers, lost acknowledgements included. For every mint that
  none of the calls the chain gave up on writes (a call is given up on after four failed attempts;
  a wipe of the table writes every mint), memory holds what the table holds with the queued calls
  applied; and once the chain is drained, the repository answers for that mint what memory answers,
  and so does the map a restarted bot loads. Nothing is said of the mints of dropped calls: there a
  restart may bring back a deleted entry or an old amount.
\<close>

theorem pending_swaps_survive:
  assumes "pending_store_reach bn (m, c, db)" and "\<And>w. w \<in> set (dropped c) \<Longrightarrow> \<not> pending_touches w k"
  shows "getPendingSwap k m = fold pending_effect (tail c) (\<lambda>k. pendingSwaps_get k db) k \<and>
         (drained c \<longrightarrow> pendingSwaps_get k db = getPendingSwap k m \<and>
                       getPendingSwap k (initPendingSwaps db) = getPendingSwap k m)"
proof -
  have v: "(\<lambda>k. pendingSwaps_get k db) = row_view ps_payload db"
    by (simp add: fun_eq_iff pendingSwaps_get_def row_view_def)
  have a: "map_of m k = fold pending_effect (tail c) (row_view ps_payload db) k"
    using pendings.reachable_agree_at(1) assms unfolding pending_store_reach_def by blast
  moreover have "drained c \<Longrightarrow> map_of (initPendingSwaps db) k = map_of m k"
    using pendings.restart_agree_at assms unfolding pending_store_reach_def by blast
  moreover have "drained c \<Longrightarrow> pendingSwaps_get k db = map_of m k"
    using a fun_cong [OF v, of k] by (simp add: drained_def)
  ultimately show ?thesis by (simp add: getPendingSwap_def v)
qed

text \<open>
  C25: credits are never lost. In whatever order the executors credit mints, every credit succeeds,
  and afterwards each mint holds what it held plus exactly what was credited to it, for our own
  amount and for the amount the target received alike; a credit to one mint never shows in another.
\<close>

theorem pending_credits_add_up:
  assumes "bn_spec bn val" and "amounts_ok m" and "list_all (is_credit val) ops"
  shows "held (run_ops bn ops m) k = held m k + sum_list (map (credit_held val k) ops) \<and>
         got (run_ops bn ops m) k = got m k + sum_list (map (credit_got val k) ops)"
  using credits_add_up [OF assms] by blast

text \<open>
  Adding in SQL is adding in memory. On a mint for which table and memory hold the same entry,
  with numerals in it, the repository's \<^verbatim>\<open>accumulate\<close> returns the total the store's addition returns and
  writes the entry the store's repository call would write.
\<close>

theorem accumulate_is_add:
  assumes "bn_spec bn val" and "amounts_ok m" and "0 \<le> val a"
    and "map_of m k = pendingSwaps_get k t"
    and "\<And>e. map_of m k = Some e \<Longrightarrow> ps_botReceived e \<noteq> Some ''''"
  shows "\<exists>v e t'. pendingSwaps_accumulate now k field (show_int (val a)) created t = Some (v, t') \<and>
     (case field of pending_field \<Rightarrow> addPending | botReceived_field \<Rightarrow> addBotReceived) bn created k a m =
       Inr (v, AList.update k e m, [PS_set k e]) \<and>
     pendingSwaps_get k t' = Some e \<and> (\<forall>k'. k' \<noteq> k \<longrightarrow> pendingSwaps_get k' t' = pendingSwaps_get k' t)"
proof -
  have same: "map_of m k = row_view ps_payload t k" using assms(4) by (simp add: row_view_def pendingSwaps_get_def)
  obtain v e t' where *: "pendingSwaps_accumulate now k field (show_int (val a)) created t = Some (v, t')"
      "add_amount field bn created k a m = Inr (v, AList.update k e m, [PS_set k e])"
      "row_view ps_payload t' = (row_view ps_payload t)(k \<mapsto> e)"
    using accumulate_row [OF assms(1-3) same assms(5), of now field created] by blast
  have "pendingSwaps_get k' t' = ((row_view ps_payload t)(k \<mapsto> e)) k'" for k'
    using *(3) by (metis comp_apply pendingSwaps_get_def row_view_def)
  then have "pendingSwaps_get k t' = Some e \<and> (\<forall>k'. k' \<noteq> k \<longrightarrow> pendingSwaps_get k' t' = pendingSwaps_get k' t)"
    by (simp add: row_view_def pendingSwaps_get_def)
  with *(1,2) show ?thesis unfolding add_amount_def by blast
qed

text \<open>
  A run for the witnesses: 7 units of a token are credited, the acknowledgement of the upsert is
  lost and it runs again; a credit of another token fails four times and is dropped.
\<close>

definition demo_entry :: "unit PendingSwapEntry" where
  "demo_entry = (seed 5)\<lparr>ps_pending := show_nat 7\<rparr>"

lemma demo_credit:
  "addPending int_BN 5 ''M'' 7 [] = Inr (show_nat 7, [(''M'', demo_entry)], [PS_set ''M'' demo_entry])"
  "addPending int_BN 5 ''N'' 7 [(''M'', demo_entry)] =
     Inr (show_nat 7, [(''M'', demo_entry), (''N'', demo_entry)], [PS_set ''N'' demo_entry])"
proof -
  have ok: "amounts_ok [(''M'', demo_entry)]"
    by (simp add: all_values_def demo_entry_def entry_ok_def seed_def decimal_text_def amount_value_def) code_simp
  show "addPending int_BN 5 ''M'' 7 [] = Inr (show_nat 7, [(''M'', demo_entry)], [PS_set ''M'' demo_entry])"
    using addPending_credits(1) [where m = "[]" and a = 7 and now = 5 and k = "''M''", OF int_BN_spec _ _ refl]
    by (simp add: held_def entry_or_seed_def demo_entry_def)
  show "addPending int_BN 5 ''N'' 7 [(''M'', demo_entry)] =
     Inr (show_nat 7, [(''M'', demo_entry), (''N'', demo_entry)], [PS_set ''N'' demo_entry])"
    using addPending_credits(1) [where a = 7 and now = 5 and k = "''N''", OF int_BN_spec ok _ refl]
    by (simp add: held_def entry_or_seed_def demo_entry_def)
qed

abbreviation demo_chain :: "unit pending_call WriteChain" where
  "demo_chain \<equiv> (enable (new_chain RETRY_DELAYS_MS))\<lparr>dropped := [PS_set ''N'' demo_entry]\<rparr>"

lemma pending_demo_reach:
  "pending_store_reach int_BN ([(''M'', demo_entry), (''N'', demo_entry)], demo_chain,
     [(''M'', \<lparr>ps_payload = demo_entry, ps_updatedAt = 101\<rparr>)])"
proof -
  let ?w = "run_script (\<lambda>op m. fst (pending_op_step int_BN op m)) (\<lambda>op m. snd (pending_op_step int_BN op m))
     pending_run [Op (PSOadd 5 ''M'' 7), Db (LostAck 100), Db (Ack 101), Op (PSOadd 5 ''N'' 7), Db Nack, Db Nack, Db Nack, Db Nack]
     (store_init initPendingSwaps [])"
  have "?w = ([(''M'', demo_entry), (''N'', demo_entry)], demo_chain,
      [(''M'', \<lparr>ps_payload = demo_entry, ps_updatedAt = 101\<rparr>)])"
    by (simp add: store_init_def initPendingSwaps_def pendingSwaps_all_def rows_to_record_eq record_to_map_eq
        demo_credit chain_defs RETRY_DELAYS_MS_def pendingSwaps_set_def)
  moreover have "pending_store_reach int_BN ?w"
    unfolding pending_store_reach_def by (rule reach_script) simp_all
  ultimately show ?thesis by metis
qed

theorem pending_swaps_survive_witness:
  "getPendingSwap ''M'' (initPendingSwaps [(''M'', \<lparr>ps_payload = demo_entry, ps_updatedAt = 101\<rparr>)]) = Some demo_entry"
proof -
  have "drained demo_chain" by (simp add: chain_defs)
  then show ?thesis using pending_swaps_survive [OF pending_demo_reach, of "''M''"] by (simp add: getPendingSwap_def)
qed

theorem pending_credits_add_up_witness:
  "held (run_ops int_BN [PSOadd 1 ''A'' 3, PSOadd 2 ''B'' 4, PSOreceived 3 ''A'' 9, PSOadd 4 ''A'' 5]
     ([] :: unit pending_memory)) ''A'' = 8"
  using pending_credits_add_up [OF int_BN_spec, of "[] :: unit pending_memory"
      "[PSOadd 1 ''A'' 3, PSOadd 2 ''B'' 4, PSOreceived 3 ''A'' 9, PSOadd 4 ''A'' 5]" "''A''"]
  by (simp add: held_def)

theorem accumulate_is_add_witness:
  "\<exists>v e t'. pendingSwaps_accumulate 9 ''M'' pending_field (show_int (id 4)) 2 ([] :: unit pending_table) = Some (v, t') \<and>
     (case pending_field of pending_field \<Rightarrow> addPending | botReceived_field \<Rightarrow> addBotReceived) int_BN 2 ''M'' 4 [] =
       Inr (v, AList.update ''M'' e [], [PS_set ''M'' e]) \<and>
     pendingSwaps_get ''M'' t' = Some e \<and>
     (\<forall>k'. k' \<noteq> ''M'' \<longrightarrow> pendingSwaps_get k' t' = pendingSwaps_get k' ([] :: unit pending_table))"
  by (rule accumulate_is_add [OF int_BN_spec]) (simp_all add: pendingSwaps_get_def)

end
