(* ===== verification/Byreal_Pending.thy ===== *)
theory Byreal_Pending
  imports Pending_Swaps
begin

text \<open>
  The Byreal executor's use of the pending swaps (\<^verbatim>\<open>src/executor/byreal-position.ts\<close>): crediting what a
  close returned to us and to the target, selling our share when the target sells, the dashboard's
  forced sale, and the periodic synchronisation with the wallet's balance.

  An asynchronous method is cut at its \<^verbatim>\<open>await\<close>s: a definition ending in \<open>_begin\<close> runs up to the first
  one, \<open>_decide\<close> and \<open>_settles\<close> resume with what was awaited, in whatever state the rest of the bot has
  left by then. The state is the executor's lock, the shared map, and the repository calls pushed so
  far. The node's answers and Jupiter's are arguments.
\<close>

section \<open>State and tokens\<close>

record 'j byreal_state =
  busy :: bool
  swaps :: "'j pending_memory"
  pushed :: "'j pending_call list"

definition on_store ::
  "('j pending_memory \<Rightarrow> 'j pending_memory \<times> 'j pending_call list) \<Rightarrow> 'j byreal_state \<Rightarrow> 'j byreal_state" where
  "on_store f s = (case f (swaps s) of (m, ws) \<Rightarrow> s\<lparr>swaps := m, pushed := pushed s @ ws\<rparr>)"

definition acquire :: "'j byreal_state \<Rightarrow> bool \<times> 'j byreal_state" where
  "acquire s = (if busy s then (False, s) else (True, s\<lparr>busy := True\<rparr>))"

definition release :: "'j byreal_state \<Rightarrow> 'j byreal_state" where
  "release s = s\<lparr>busy := False\<rparr>"

definition USDC_MINT :: pubkey where
  "USDC_MINT = ''EPjFWdd5AufqSSqeM2qN1xzybapC8G4wEGGkZwyTDt1v''"

definition USDT_MINT :: pubkey where
  "USDT_MINT = ''Es9vMFrzaCERmKfrE1SBVYuL9sSMdCL3DscMVPR1YnG5''"

definition USDT_T22 :: pubkey where
  "USDT_T22 = ''Es9vMFrzaCERmJfrF4H2FYD4KCoNkY11McCe8BenwNYB''"

definition NATIVE_MINT :: pubkey where
  "NATIVE_MINT = ''So11111111111111111111111111111111111111112''"

text \<open>The tokens that are kept as they are: stablecoins and SOL.\<close>

definition is_quote :: "pubkey \<Rightarrow> bool" where
  "is_quote m \<longleftrightarrow> m = USDC_MINT \<or> m = USDT_MINT \<or> m = USDT_T22 \<or> m = NATIVE_MINT"

text \<open>\<^verbatim>\<open>a.lte(new BN(n))\<close>.\<close>

definition lte_lit :: "'b BN \<Rightarrow> 'b \<Rightarrow> nat \<Rightarrow> bool result" where
  "lte_lit bn a n = bind_result (bn_of_num bn (Num (of_nat n))) (\<lambda>b. Inr (bn_lte bn a b))"

section \<open>Credits\<close>

definition addPendingSwap ::
  "'b BN \<Rightarrow> millis \<Rightarrow> pubkey \<Rightarrow> 'b \<Rightarrow> 'j byreal_state \<Rightarrow> 'j byreal_state result" where
  "addPendingSwap bn now mintStr amount s =
     (if is_quote mintStr then Inr s
      else bind_result (lte_lit bn amount 0) (\<lambda>none.
        if none then Inr s
        else bind_result (addPending bn now mintStr amount (swaps s)) (\<lambda>(total, r). Inr (on_store (\<lambda>_. r) s))))"

text \<open>A token whose amount is no number throws; the credits of the tokens before it stay.\<close>

fun recordBotCloseReceived ::
  "'b BN \<Rightarrow> millis \<Rightarrow> (pubkey \<times> string) list \<Rightarrow> 'j byreal_state \<Rightarrow> js_error option \<times> 'j byreal_state" where
  "recordBotCloseReceived bn now [] s = (None, s)"
| "recordBotCloseReceived bn now ((mint, amount) # rest) s =
     (if is_quote mint then recordBotCloseReceived bn now rest s
      else (case bind_result (bn_of_string bn amount) (\<lambda>b.
                 bind_result (lte_lit bn b 0) (\<lambda>none.
                   if none then Inr s
                   else bind_result (addBotReceived bn now mint b (swaps s)) (\<lambda>(total, r). Inr (on_store (\<lambda>_. r) s)))) of
              Inr s' \<Rightarrow> recordBotCloseReceived bn now rest s'
            | Inl e \<Rightarrow> (Some e, s)))"

section \<open>The wallet's balance of a token\<close>

text \<open>
  \<open>token_balance\<close> is the node's answer for the associated token account under a token program,
  \<open>native_balance\<close> its answers for the lamports, one per place that asks.
\<close>

definition available_lamports :: "'b BN \<Rightarrow> int \<Rightarrow> 'b result" where
  "available_lamports bn nativeLamports = bn_of_num bn (Num (of_int (max 0 (nativeLamports - 50000000))))"

fun balance_loop ::
  "'b BN \<Rightarrow> (pubkey \<Rightarrow> string result) \<Rightarrow> (pubkey option \<Rightarrow> int result) \<Rightarrow> bool \<Rightarrow> pubkey list \<Rightarrow> 'b option" where
  "balance_loop bn token_balance native_balance isWsol [] = None"
| "balance_loop bn token_balance native_balance isWsol (programId # rest) =
     (case bind_result (token_balance programId) (\<lambda>value.
           bind_result (bn_of_string bn value) (\<lambda>amount.
             if isWsol then
               bind_result (native_balance (Some programId)) (\<lambda>lamports.
               bind_result (available_lamports bn lamports) (\<lambda>avail. Inr (bn_add bn amount avail)))
             else Inr amount)) of
        Inr b \<Rightarrow> Some b
      | Inl _ \<Rightarrow> balance_loop bn token_balance native_balance isWsol rest)"

definition TOKEN_PROGRAMS :: "pubkey list" where
  "TOKEN_PROGRAMS = [''TokenkegQfeZyiNwAJbNbGKPFXCWuBvf9Ss623VQ5DA'', ''TokenzQdBNbLqP5VEhdkAS6EPFLC1PHnBqCXEpPxuEb'']"

definition getTokenBalance ::
  "'b BN \<Rightarrow> (pubkey \<Rightarrow> string result) \<Rightarrow> (pubkey option \<Rightarrow> int result) \<Rightarrow> pubkey \<Rightarrow> 'b result" where
  "getTokenBalance bn token_balance native_balance mint =
     (let isWsol = mint = NATIVE_MINT; zero = bn_of_num bn (Num 0)
      in (case balance_loop bn token_balance native_balance isWsol TOKEN_PROGRAMS of
            Some b \<Rightarrow> Inr b
          | None \<Rightarrow>
              if isWsol then
                (case bind_result (native_balance None) (available_lamports bn) of Inr b \<Rightarrow> Inr b | Inl _ \<Rightarrow> zero)
              else zero))"

section \<open>Selling our share\<close>

definition clearPending :: "pubkey \<Rightarrow> 'j byreal_state \<Rightarrow> 'j byreal_state" where
  "clearPending inputMint s = on_store (deletePendingSwap inputMint) s"

definition clearAllPendingSwaps :: "'j byreal_state \<Rightarrow> 'j byreal_state" where
  "clearAllPendingSwaps s = on_store clearPendingSwaps s"

definition clearOnePendingSwap :: "pubkey \<Rightarrow> 'j byreal_state \<Rightarrow> 'j byreal_state" where
  "clearOnePendingSwap inputMint s = clearPending inputMint s"

definition subtractPending ::
  "'b BN \<Rightarrow> pubkey \<Rightarrow> 'b \<Rightarrow> 'b \<Rightarrow> 'j byreal_state \<Rightarrow> 'j byreal_state result" where
  "subtractPending bn inputMint ourSwapped botSwapped s =
     (case getPendingSwap inputMint (swaps s) of
        None \<Rightarrow> Inr s
      | Some entry \<Rightarrow>
          bind_result (bn_of_string bn (ps_pending entry)) (\<lambda>have_now.
          let remaining = bn_sub bn have_now ourSwapped
          in bind_result (lte_lit bn remaining 1000) (\<lambda>dust.
               if dust then Inr (on_store (deletePendingSwap inputMint) s)
               else bind_result (if truthy_or (ps_botReceived entry) '''' = '''' then bn_of_num bn (Num 0)
                                 else bn_of_string bn (truthy_or (ps_botReceived entry) '''')) (\<lambda>botReceived.
                 let botRemaining = bn_sub bn botReceived botSwapped
                 in bind_result (lte_lit bn botRemaining 0) (\<lambda>none.
                      Inr (on_store (setPendingSwap inputMint
                        (entry\<lparr>ps_pending := bn_toString bn remaining,
                               ps_botReceived := Some (if none then ''0'' else bn_toString bn botRemaining)\<rparr>)) s))))))"

text \<open>
  What \<^verbatim>\<open>executePendingSwap\<close> plans before it touches anything: nothing to sell, a share computed from
  the target's amounts, or the wallet's whole balance when the target's amount is not known. The
  percentage is only logged, but computing it can throw.
\<close>

datatype 'b swap_plan =
    Nothing_pending
  | Share 'b 'b \<comment> \<open>our amount and the target's\<close>
  | Whole_balance 'b \<comment> \<open>the target's amount\<close>

definition executePendingSwap_begin ::
  "'b BN \<Rightarrow> pubkey \<Rightarrow> string \<Rightarrow> 'j byreal_state \<Rightarrow> 'b swap_plan result" where
  "executePendingSwap_begin bn inputMint botSwapAmount s =
     (case getPendingSwap inputMint (swaps s) of
        None \<Rightarrow> Inr Nothing_pending
      | Some entry \<Rightarrow>
          bind_result (bn_of_string bn (ps_pending entry)) (\<lambda>pendingAmount.
          bind_result (lte_lit bn pendingAmount 1000) (\<lambda>dust.
            if dust then Inr Nothing_pending
            else bind_result (if truthy_or (ps_botReceived entry) '''' = '''' then Inr None
                              else bind_result (bn_of_string bn (truthy_or (ps_botReceived entry) '''')) (\<lambda>b. Inr (Some b)))
                   (\<lambda>botReceived.
              bind_result (bn_of_string bn botSwapAmount) (\<lambda>botSwap.
                (case botReceived of
                   Some r \<Rightarrow>
                     if bn_isZero bn r then Inr (Whole_balance botSwap)
                     else bind_result (bn_of_num bn (Num 10000)) (\<lambda>tenk.
                            bind_result (bn_toNumber bn (bn_div bn (bn_mul bn botSwap tenk) r)) (\<lambda>pct.
                              Inr (Share (bn_div bn (bn_mul bn pendingAmount botSwap) r) botSwap)))
                 | None \<Rightarrow> Inr (Whole_balance botSwap)))))))"

text \<open>The rest up to the swap itself: the answer, or the amount handed to Jupiter.\<close>

datatype outcome = Returned "string option" | Swapping string

definition executePendingSwap_decide ::
  "'b BN \<Rightarrow> bool \<Rightarrow> pubkey \<Rightarrow> 'b \<Rightarrow> 'b \<Rightarrow> 'j byreal_state \<Rightarrow> (outcome \<times> 'j byreal_state) result" where
  "executePendingSwap_decide bn dryRun inputMint swapAmount botSwap s =
     bind_result (lte_lit bn swapAmount 1000) (\<lambda>small.
       if small then Inr (Returned None, clearPending inputMint s)
       else if dryRun then
         bind_result (subtractPending bn inputMint swapAmount botSwap s) (\<lambda>s'.
           Inr (Returned (Some ''dry-run-pending-swap''), s'))
       else (case acquire s of
               (False, s') \<Rightarrow> Inr (Returned None, s')
             | (True, s') \<Rightarrow> Inr (Swapping (bn_toString bn swapAmount), s')))"

text \<open>Jupiter's answer: a signature, none, or a thrown error. An error of the subtraction is caught too.\<close>

definition executePendingSwap_settles ::
  "'b BN \<Rightarrow> pubkey \<Rightarrow> 'b \<Rightarrow> 'b \<Rightarrow> string option result \<Rightarrow> 'j byreal_state \<Rightarrow> string option \<times> 'j byreal_state" where
  "executePendingSwap_settles bn inputMint swapAmount botSwap answer s =
     (case answer of
        Inr (Some sig) \<Rightarrow>
          if sig = [] then (None, release s)
          else (case subtractPending bn inputMint swapAmount botSwap s of
                  Inr s' \<Rightarrow> (Some sig, release s')
                | Inl _ \<Rightarrow> (None, release s))
      | _ \<Rightarrow> (None, release s))"

definition forceSwapPending_begin :: "'b BN \<Rightarrow> pubkey \<Rightarrow> 'j byreal_state \<Rightarrow> bool result" where
  "forceSwapPending_begin bn inputMint s =
     (case getPendingSwap inputMint (swaps s) of
        None \<Rightarrow> Inr False
      | Some entry \<Rightarrow>
          if ps_pending entry = [] then Inr False
          else bind_result (bn_of_string bn (ps_pending entry)) (\<lambda>b.
               bind_result (lte_lit bn b 1000) (\<lambda>dust. Inr (\<not> dust))))"

definition forceSwapPending_decide ::
  "'b BN \<Rightarrow> bool \<Rightarrow> pubkey \<Rightarrow> 'b \<Rightarrow> 'j byreal_state \<Rightarrow> (outcome \<times> 'j byreal_state) result" where
  "forceSwapPending_decide bn dryRun inputMint balance s =
     bind_result (lte_lit bn balance 1000) (\<lambda>dust.
       if dust then Inr (Returned None, clearPending inputMint s)
       else if dryRun then Inr (Returned (Some ''dry-run-force-swap''), clearPending inputMint s)
       else (case acquire s of
               (False, s') \<Rightarrow> Inr (Returned None, s')
             | (True, s') \<Rightarrow> Inr (Swapping (bn_toString bn balance), s')))"

definition forceSwapPending_settles ::
  "pubkey \<Rightarrow> string option result \<Rightarrow> 'j byreal_state \<Rightarrow> string option \<times> 'j byreal_state" where
  "forceSwapPending_settles inputMint answer s =
     (case answer of
        Inr (Some sig) \<Rightarrow> if sig = [] then (None, release s) else (Some sig, release (clearPending inputMint s))
      | _ \<Rightarrow> (None, release s))"

section \<open>Synchronising with the wallet\<close>

text \<open>
  One iteration of \<^verbatim>\<open>logPendingStatus\<close>: up to the \<^verbatim>\<open>await\<close> (the amount to compare with, unless the entry
  is dropped), and after it. \<open>entry\<close> is the one of the copy the loop iterates over.
\<close>

definition logPendingStatus_begin ::
  "'b BN \<Rightarrow> pubkey \<Rightarrow> 'j PendingSwapEntry \<Rightarrow> 'j byreal_state \<Rightarrow> ('b option \<times> 'j byreal_state) result" where
  "logPendingStatus_begin bn mint entry s =
     bind_result (bn_of_string bn (truthy_or (Some (ps_pending entry)) ''0'')) (\<lambda>pending.
       if bn_isZero bn pending then Inr (None, on_store (deletePendingSwap mint) s)
       else Inr (Some pending, s))"

definition logPendingStatus_resume ::
  "'b BN \<Rightarrow> pubkey \<Rightarrow> 'j PendingSwapEntry \<Rightarrow> 'b \<Rightarrow> 'b result \<Rightarrow> 'j byreal_state \<Rightarrow> 'j byreal_state" where
  "logPendingStatus_resume bn mint entry pending answer s =
     (case bind_result answer (\<lambda>balance.
           bind_result (lte_lit bn balance 1000) (\<lambda>dust.
             if dust then Inr (on_store (deletePendingSwap mint) s)
             else if \<not> bn_eq bn balance pending
               then Inr (on_store (setPendingSwap mint (entry\<lparr>ps_pending := bn_toString bn balance\<rparr>)) s)
             else Inr s)) of
        Inr s' \<Rightarrow> s'
      | Inl _ \<Rightarrow> s)"

text \<open>The loop when nothing else runs in between; an error ends it.\<close>

fun status_loop ::
  "'b BN \<Rightarrow> (pubkey \<Rightarrow> 'b result) \<Rightarrow> (pubkey \<times> 'j PendingSwapEntry) list \<Rightarrow> 'j byreal_state \<Rightarrow>
   js_error option \<times> 'j byreal_state" where
  "status_loop bn balance [] s = (None, s)"
| "status_loop bn balance ((mint, entry) # rest) s =
     (case logPendingStatus_begin bn mint entry s of
        Inl e \<Rightarrow> (Some e, s)
      | Inr (None, s') \<Rightarrow> status_loop bn balance rest s'
      | Inr (Some pending, s') \<Rightarrow>
          status_loop bn balance rest (logPendingStatus_resume bn mint entry pending (balance mint) s'))"

definition logPendingStatus ::
  "'b BN \<Rightarrow> (pubkey \<Rightarrow> 'b result) \<Rightarrow> 'j byreal_state \<Rightarrow> js_error option \<times> 'j byreal_state" where
  "logPendingStatus bn balance s = status_loop bn balance (allPendingSwaps (swaps s)) s"

lemmas byreal_store_defs [store_defs] =
  on_store_def acquire_def release_def clearPending_def getPendingSwap_def

section \<open>Lemmas\<close>

lemma lte_lit_val: "bn_spec bn val \<Longrightarrow> n < 2 ^ 53 \<Longrightarrow> lte_lit bn a n = Inr (val a \<le> int n)"
  by (rule bn_spec_numeralE) (auto simp: lte_lit_def bn_spec_simps)

lemma lte_lit_simps:
  assumes "bn_spec bn val"
  shows "lte_lit bn a 0 = Inr (val a \<le> 0)" and "lte_lit bn a 1000 = Inr (val a \<le> 1000)"
  using lte_lit_val [OF assms, of 0 a] lte_lit_val [OF assms, of 1000 a] by simp_all

lemma held_entry: "map_of m k = Some e \<Longrightarrow> held m k = amount_value (ps_pending e)"
  and got_entry: "map_of m k = Some e \<Longrightarrow> got m k = amount_value (truthy_or (ps_botReceived e) ''0'')"
  by (simp_all add: held_def got_def)

lemma read_pending:
  assumes "bn_spec bn val" and "amounts_ok m" and "map_of m k = Some e"
  obtains b where "bn_of_string bn (ps_pending e) = Inr b" and "val b = int (held m k)"
  using read_amount [OF assms(1), of "ps_pending e"] all_values_get [OF assms(2,3)] assms(3)
  by (auto simp: entry_ok_def held_entry)

lemma truthy_or_zero: "truthy_or x '''' \<noteq> '''' \<Longrightarrow> truthy_or x ''0'' = truthy_or x ''''"
  and truthy_or_missing: "truthy_or x '''' = '''' \<Longrightarrow> truthy_or x ''0'' = ''0''"
  by (auto simp: truthy_or_def split: option.splits if_splits)

lemma read_received:
  assumes spec: "bn_spec bn val" and "amounts_ok m" and e: "map_of m k = Some e"
  obtains b where "(if truthy_or (ps_botReceived e) '''' = '''' then bn_of_num bn (Num 0)
      else bn_of_string bn (truthy_or (ps_botReceived e) '''')) = Inr b" and "val b = int (got m k)"
proof (cases "truthy_or (ps_botReceived e) '''' = ''''")
  case True
  then have "got m k = 0" using e by (simp add: got_entry truthy_or_missing)
  with True show ?thesis using bn_spec_numeralE [OF spec, of 0] that by auto
next
  case False
  have "decimal_text (truthy_or (ps_botReceived e) ''0'')"
    using all_values_get [OF assms(2) e] by (simp add: entry_ok_def)
  with False show ?thesis
    using read_amount [OF spec, of "truthy_or (ps_botReceived e) ''''"] that e
    by (simp add: got_entry truthy_or_zero) metis
qed

lemma on_store_simps [simp]:
  "swaps (on_store f s) = fst (f (swaps s))" "busy (on_store f s) = busy s"
  "pushed (on_store f s) = pushed s @ snd (f (swaps s))"
  by (simp_all add: on_store_def split: prod.splits)

lemma release_simps [simp]: "swaps (release s) = swaps s" "busy (release s) = False" "pushed (release s) = pushed s"
  by (simp_all add: release_def)

text \<open>The subtraction after a sale, in the state the sale left behind.\<close>

lemma subtractPending_exact:
  assumes spec: "bn_spec bn val" and ok: "amounts_ok (swaps s)" and e: "map_of (swaps s) k = Some e"
    and a: "0 \<le> val a" and b: "0 \<le> val b"
  defines "e' \<equiv> e\<lparr>ps_pending := show_nat (held (swaps s) k - nat (val a)),
                  ps_botReceived := Some (show_nat (got (swaps s) k - nat (val b)))\<rparr>"
  shows "subtractPending bn k a b s =
     Inr (if int (held (swaps s) k) - val a \<le> 1000 then on_store (deletePendingSwap k) s
          else on_store (setPendingSwap k e') s)"
proof -
  obtain h where h: "bn_of_string bn (ps_pending e) = Inr h" "val h = int (held (swaps s) k)"
    using read_pending [OF spec ok e] .
  obtain r where r: "(if truthy_or (ps_botReceived e) '''' = '''' then bn_of_num bn (Num 0)
      else bn_of_string bn (truthy_or (ps_botReceived e) '''')) = Inr r" "val r = int (got (swaps s) k)"
    using read_received [OF spec ok e] .
  have sub: "show_int (int n - val c) = show_nat (n - nat (val c))" if "0 \<le> int n - val c" "0 \<le> val c" for n c
    using that by (simp add: show_int_def nat_diff_distrib)
  have z: "''0'' = show_nat (got (swaps s) k - nat (val b))" if "int (got (swaps s) k) - val b \<le> 0"
  proof -
    from that have "got (swaps s) k - nat (val b) = 0" by linarith
    then show ?thesis by (simp add: zero_text)
  qed
  show ?thesis
  proof (cases "int (held (swaps s) k) - val a \<le> 1000")
    case True
    then show ?thesis
      by (simp add: subtractPending_def getPendingSwap_def e h lte_lit_simps [OF spec] bn_spec_simps [OF spec] Let_def)
  next
    case False
    have "subtractPending bn k a b s = Inr (on_store (setPendingSwap k
        (e\<lparr>ps_pending := show_int (int (held (swaps s) k) - val a),
           ps_botReceived := Some (if int (got (swaps s) k) - val b \<le> 0 then ''0''
                                   else show_int (int (got (swaps s) k) - val b))\<rparr>)) s)"
      unfolding subtractPending_def
      using False
      by (simp only: getPendingSwap_def e option.case h bind_result_simps Let_def lte_lit_simps [OF spec]
          bn_spec_simps [OF spec] r if_False)
    also have "show_int (int (held (swaps s) k) - val a) = show_nat (held (swaps s) k - nat (val a))"
      using False a by (intro sub) simp_all
    also have "(if int (got (swaps s) k) - val b \<le> 0 then ''0'' else show_int (int (got (swaps s) k) - val b)) =
        show_nat (got (swaps s) k - nat (val b))"
      using z sub [of "got (swaps s) k" b] b by simp
    finally show ?thesis using False by (simp add: e'_def)
  qed
qed

section \<open>Properties\<close>


text \<open>
  A settled sale is booked exactly once. When Jupiter returns a signature, in whatever state the
  bot then is, the sold amount is taken from what the mint now holds, credits that arrived in the
  meantime included, and the target's sale from what it received; a remainder of dust drops the
  entry; no other mint changes and the lock is free again. Without a signature, or on an error,
  nothing but the lock changes.
\<close>

theorem pending_sale_booked:
  assumes "bn_spec bn val" and "amounts_ok (swaps s)" and "map_of (swaps s) k \<noteq> None"
    and "0 \<le> val a" and "0 \<le> val b" and "sig \<noteq> []"
  shows "\<exists>s'. executePendingSwap_settles bn k a b (Inr (Some sig)) s = (Some sig, s') \<and> busy s' = False \<and>
     (if held (swaps s) k \<le> nat (val a) + 1000 then map_of (swaps s') k = None
      else held (swaps s') k = held (swaps s) k - nat (val a) \<and> got (swaps s') k = got (swaps s) k - nat (val b)) \<and>
     (\<forall>k'. k' \<noteq> k \<longrightarrow> map_of (swaps s') k' = map_of (swaps s) k') \<and>
     executePendingSwap_settles bn k a b (Inr None) s = (None, release s) \<and>
     executePendingSwap_settles bn k a b (Inl err) s = (None, release s)"
proof -
  obtain e where e: "map_of (swaps s) k = Some e" using assms(3) by auto
  have d: "int (held (swaps s) k) - val a \<le> 1000 \<longleftrightarrow> held (swaps s) k \<le> nat (val a) + 1000"
    using assms(4) by linarith
  show ?thesis
    using subtractPending_exact [OF assms(1,2) e assms(4,5)] assms(6)
    by (simp add: executePendingSwap_settles_def d deletePendingSwap_def setPendingSwap_def)
qed

lemma balance_unreachable:
  assumes "bn_spec bn val"
  obtains z where "val z = 0" and "getTokenBalance bn (\<lambda>_. Inl e) (\<lambda>_. Inl e') = (\<lambda>_. Inr z)"
proof -
  obtain z where z: "bn_of_num bn (Num 0) = Inr z" "val z = 0" using bn_spec_num [OF assms, of 0] by auto
  then have "getTokenBalance bn (\<lambda>_. Inl e) (\<lambda>_. Inl e') = (\<lambda>_. Inr z)"
    by (intro ext) (simp add: getTokenBalance_def TOKEN_PROGRAMS_def Let_def)
  with z(2) show ?thesis by (rule that)
qed

lemma status_step_outage:
  assumes spec: "bn_spec bn val" and e: "entry_ok e" and z: "val z = 0"
  shows "status_loop bn (\<lambda>_. Inr z) ((k, e) # es) s =
     status_loop bn (\<lambda>_. Inr z) es (on_store (deletePendingSwap k) s)"
proof -
  have ne: "ps_pending e \<noteq> []"
    using e show_nat_nonempty [of "amount_value (ps_pending e)"] by (metis entry_ok_def decimal_text_def)
  have "decimal_text (ps_pending e)" using e by (simp add: entry_ok_def)
  then obtain p where p: "bn_of_string bn (ps_pending e) = Inr p"
    by (rule read_amount [OF spec])
  show ?thesis
    by (simp add: logPendingStatus_begin_def logPendingStatus_resume_def truthy_or_def ne p z
        lte_lit_simps [OF spec])
qed

lemma status_loop_outage:
  assumes spec: "bn_spec bn val" and z: "val z = 0" and "list_all (\<lambda>(k, e). entry_ok e) es"
  shows "\<exists>s'. status_loop bn (\<lambda>_. Inr z) es s = (None, s') \<and>
     set (map fst (swaps s')) = set (map fst (swaps s)) - set (map fst es)"
  using assms(3)
proof (induction es arbitrary: s)
  case (Cons x es)
  obtain k e where x: "x = (k, e)" by (cases x)
  with Cons.prems have e: "entry_ok e" and es: "list_all (\<lambda>(k, e). entry_ok e) es" by simp_all
  have "set (map fst (AList.delete k (swaps s))) = set (map fst (swaps s)) - {k}"
    unfolding fst_delete by auto
  then show ?case
    using Cons.IH [OF es, of "on_store (deletePendingSwap k) s"] status_step_outage [OF spec e z, of k es s]
    by (auto simp: x deletePendingSwap_def)
qed simp

text \<open>
  An unreachable node erases the pending swaps. The periodic synchronisation means to ignore
  failed balance requests, but \<^verbatim>\<open>getTokenBalance\<close> turns them into a balance of zero: if no request
  succeeds while it runs, every entry is taken for dust and dropped, whatever it holds.
\<close>

theorem rpc_outage_erases_pending:
  assumes "bn_spec bn val" and "amounts_ok (swaps s)" and "js_keys_ok (swaps s)"
  shows "\<exists>s'. logPendingStatus bn (getTokenBalance bn (\<lambda>_. Inl e) (\<lambda>_. Inl e')) s = (None, s') \<and> swaps s' = []"
proof -
  obtain z where z: "val z = 0" "getTokenBalance bn (\<lambda>_. Inl e) (\<lambda>_. Inl e') = (\<lambda>_. Inr z)"
    by (rule balance_unreachable [OF assms(1)])
  have "list_all (\<lambda>(k, e). entry_ok e) (swaps s)" using assms(2) by (simp add: all_values_def)
  then obtain s' where "status_loop bn (\<lambda>_. Inr z) (swaps s) s = (None, s')" "set (map fst (swaps s')) = {}"
    using status_loop_outage [OF assms(1) z(1), of "swaps s" s] by auto
  then show ?thesis using z(2) by (simp add: logPendingStatus_def allPendingSwaps_def record_to_map_eq [OF assms(3)])
qed

text \<open>
  The synchronisation overwrites concurrent credits. The loop writes back the entry it copied
  before waiting for the balance. A credit to the amount the target received that arrives during
  the wait is gone afterwards, whenever the wallet's balance differs from the recorded amount.
\<close>

theorem status_sync_drops_credit:
  assumes "bn_spec bn val" and "amounts_ok (swaps s)" and "map_of (swaps s) k = Some e"
    and "logPendingStatus_begin bn k e s = Inr (Some p, s1)"
    and "0 < val a" and "addBotReceived bn now k a (swaps s1) = Inr (tot, m2, ws)"
    and "1000 < val balance" and "val balance \<noteq> val p"
  shows "got m2 k = got (swaps s) k + nat (val a) \<and>
    got (swaps (logPendingStatus_resume bn k e p (Inr balance) (s1\<lparr>swaps := m2\<rparr>))) k = got (swaps s) k"
proof -
  have s1: "s1 = s"
    using assms(4) by (auto simp: logPendingStatus_begin_def bind_result_eq_Inr_iff split: if_splits)
  have m2: "m2 = AList.update k ((entry_or_seed now k (swaps s))
      \<lparr>ps_botReceived := Some (show_nat (got (swaps s) k + nat (val a)))\<rparr>) (swaps s)"
    using addBotReceived_credits(1) [where now = now and k = k and a = a, OF assms(1,2) _ refl] assms(5,6) s1 by auto
  have "bn_toString bn balance = show_nat (nat (val balance))"
    using assms(7) by (simp add: bn_spec_simps [OF assms(1)] show_int_def)
  then have "swaps (logPendingStatus_resume bn k e p (Inr balance) (s1\<lparr>swaps := m2\<rparr>)) =
      AList.update k (e\<lparr>ps_pending := show_nat (nat (val balance))\<rparr>) m2"
    using assms(7,8)
    by (simp add: logPendingStatus_resume_def lte_lit_simps [OF assms(1)] bn_spec_eq [OF assms(1)] setPendingSwap_def)
  then show ?thesis using m2 assms(3) by (simp add: got_entry)
qed

section \<open>A state for the witnesses\<close>

definition demo_state :: "unit byreal_state" where
  "demo_state = \<lparr>busy = True, swaps = [(''M'', \<lparr>ps_pending = show_nat 5000, ps_botReceived = Some (show_nat 8000),
     ps_createdAt = 1, ps_extra = []\<rparr>)], pushed = []\<rparr>"

lemma demo_state_facts:
  "amounts_ok (swaps demo_state)" "held (swaps demo_state) ''M'' = 5000" "got (swaps demo_state) ''M'' = 8000"
  "map_of (swaps demo_state) ''M'' \<noteq> None" "js_keys_ok (swaps demo_state)"
  by (simp_all add: demo_state_def entry_ok_def held_def got_def js_keys_ok_def)


theorem pending_sale_booked_witness:
  "\<exists>s'. executePendingSwap_settles int_BN ''M'' 2500 4000 (Inr (Some ''sig'')) demo_state = (Some ''sig'', s') \<and>
     busy s' = False \<and> held (swaps s') ''M'' = 2500 \<and> got (swaps s') ''M'' = 4000"
  using pending_sale_booked [OF int_BN_spec demo_state_facts(1,4), of 2500 4000 "''sig''"]
  by (auto simp: demo_state_facts)

theorem rpc_outage_erases_pending_witness:
  "\<exists>s'. logPendingStatus int_BN (getTokenBalance int_BN (\<lambda>_. Inl (Error ''429'')) (\<lambda>_. Inl (Error ''429''))) demo_state =
     (None, s') \<and> swaps s' = []"
  by (rule rpc_outage_erases_pending [OF int_BN_spec demo_state_facts(1,5)])

theorem status_sync_drops_credit_witness:
  "\<exists>e tot m2 ws. map_of (swaps demo_state) ''M'' = Some e \<and>
     addBotReceived int_BN 9 ''M'' 300 (swaps demo_state) = Inr (tot, m2, ws) \<and> got m2 ''M'' = 8300 \<and>
     got (swaps (logPendingStatus_resume int_BN ''M'' e 5000 (Inr 6000) (demo_state\<lparr>swaps := m2\<rparr>))) ''M'' = 8000"
proof -
  obtain e where e: "map_of (swaps demo_state) ''M'' = Some e" using demo_state_facts(4) by auto
  have p: "ps_pending e = show_nat 5000" using e by (auto simp: demo_state_def)
  have b: "logPendingStatus_begin int_BN ''M'' e demo_state = Inr (Some 5000, demo_state)"
    by (simp add: logPendingStatus_begin_def p int_BN_def BigInt_show_nat)
  obtain tot m2 ws where c: "addBotReceived int_BN 9 ''M'' 300 (swaps demo_state) = Inr (tot, m2, ws)"
    using addBotReceived_credits(1) [where now = 9 and k = "''M''" and a = 300, OF int_BN_spec demo_state_facts(1) _ refl]
    by auto
  have "got m2 ''M'' = 8300 \<and>
      got (swaps (logPendingStatus_resume int_BN ''M'' e 5000 (Inr 6000) (demo_state\<lparr>swaps := m2\<rparr>))) ''M'' = 8000"
    using status_sync_drops_credit [OF int_BN_spec demo_state_facts(1) e b _ c, of 6000] by (simp add: demo_state_facts)
  with c e show ?thesis by blast
qed

end
