(* ===== verification/Token_Risk.thy ===== *)
theory Token_Risk
  imports Keyed_Store Js_Number
begin

text \<open>
  Risk control per token: the realised profit and loss of each token
  (\<^verbatim>\<open>src/state/token-pnl-store.ts\<close>, \<^verbatim>\<open>src/state/repo/tokenPnl.ts\<close>) and the Byreal executor's loss streaks,
  cooldowns, blacklist and position cap (\<^verbatim>\<open>src/executor/byreal-position.ts\<close>).

  A payload is an open record: the four fields the executor writes, each possibly missing in an
  older record, and the rest. Whole minutes and counts of the configuration are integers; amounts
  in dollars are \<^verbatim>\<open>number\<close>s.
\<close>

section \<open>The store of realised profit and loss\<close>

record 'j TokenPnlPayload =
  tp_totalPnl :: "js_num option"
  tp_tradeCount :: "js_num option"
  tp_lastLossPnl :: "js_num option"
  tp_lastTradeAt :: "millis option"
  tp_extra :: "(string, 'j) jsmap"

record 'p TokenPnlRow =
  tp_payload :: 'p
  tp_updatedAt :: millis

type_synonym 'j pnl_memory = "(string, 'j TokenPnlPayload) jsmap"
type_synonym 'j pnl_table = "(string, 'j TokenPnlPayload TokenPnlRow) jsmap"

definition tokenPnl_get :: "string \<Rightarrow> 'j pnl_table \<Rightarrow> 'j TokenPnlPayload option" where
  "tokenPnl_get mint t = map_option tp_payload (map_of t mint)"

definition tokenPnl_upsert :: "millis \<Rightarrow> string \<Rightarrow> 'j TokenPnlPayload \<Rightarrow> 'j pnl_table \<Rightarrow> 'j pnl_table" where
  "tokenPnl_upsert now mint payload t = AList.update mint \<lparr>tp_payload = payload, tp_updatedAt = now\<rparr> t"

definition tokenPnl_all :: "'j pnl_table \<Rightarrow> 'j pnl_memory" where
  "tokenPnl_all t = rows_to_record tp_payload t"

definition tokenPnl_list :: "'j pnl_table \<Rightarrow> (string \<times> 'j TokenPnlPayload TokenPnlRow) list" where
  "tokenPnl_list t = sort_key (\<lambda>(k, r). - tp_updatedAt r) t"

definition tokenPnl_del :: "string \<Rightarrow> 'j pnl_table \<Rightarrow> 'j pnl_table" where
  "tokenPnl_del mint t = AList.delete mint t"

datatype 'j pnl_call = TP_upsert string "'j TokenPnlPayload"

definition initTokenPnl :: "'j pnl_table \<Rightarrow> 'j pnl_memory" where
  "initTokenPnl t = record_to_map (tokenPnl_all t)"

definition countTokenPnl :: "'j pnl_memory \<Rightarrow> nat" where
  "countTokenPnl m = length m"

definition getTokenPnl :: "string \<Rightarrow> 'j pnl_memory \<Rightarrow> 'j TokenPnlPayload option" where
  "getTokenPnl mint m = map_of m mint"

definition allTokenPnl :: "'j pnl_memory \<Rightarrow> 'j pnl_memory" where
  "allTokenPnl m = record_to_map m"

definition setTokenPnl :: "string \<Rightarrow> 'j TokenPnlPayload \<Rightarrow> 'j pnl_memory \<Rightarrow> 'j pnl_memory \<times> 'j pnl_call list" where
  "setTokenPnl mint payload m = (AList.update mint payload m, [TP_upsert mint payload])"

fun pnl_run :: "millis \<Rightarrow> 'j pnl_call \<Rightarrow> 'j pnl_table \<Rightarrow> 'j pnl_table" where
  "pnl_run now (TP_upsert mint payload) t = tokenPnl_upsert now mint payload t"

fun pnl_step :: "string \<times> 'j TokenPnlPayload \<Rightarrow> 'j pnl_memory \<Rightarrow> 'j pnl_memory \<times> 'j pnl_call list" where
  "pnl_step (mint, payload) m = setTokenPnl mint payload m"

fun pnl_effect :: "'j pnl_call \<Rightarrow> (string \<rightharpoonup> 'j TokenPnlPayload) \<Rightarrow> string \<rightharpoonup> 'j TokenPnlPayload" where
  "pnl_effect (TP_upsert mint payload) v = v(mint \<mapsto> payload)"

interpretation pnls: keyed_store pnl_step pnl_run initTokenPnl tp_payload pnl_effect
proof
  fix op :: "string \<times> 'j TokenPnlPayload" and m :: "'j pnl_memory"
  show "map_of (fst (pnl_step op m)) = fold pnl_effect (snd (pnl_step op m)) (map_of m)"
    by (cases op) (simp add: setTokenPnl_def)
  show "js_keys_ok m \<Longrightarrow> js_keys_ok (fst (pnl_step op m))" by (cases op) (simp add: setTokenPnl_def)
next
  fix w :: "'j pnl_call" and t :: "'j pnl_table" and v now
  show "row_view tp_payload (pnl_run now w t) = pnl_effect w (row_view tp_payload t)"
    by (cases w) (simp add: tokenPnl_upsert_def)
  show "js_keys_ok t \<Longrightarrow> js_keys_ok (pnl_run now w t)" by (cases w) (simp add: tokenPnl_upsert_def)
  show "pnl_effect w (pnl_effect w v) = pnl_effect w v" by (cases w) simp
  show "js_keys_ok t \<Longrightarrow> map_of (initTokenPnl t) = row_view tp_payload t"
    "js_keys_ok t \<Longrightarrow> js_keys_ok (initTokenPnl t)"
    by (simp_all add: initTokenPnl_def tokenPnl_all_def)
qed

section \<open>Which token of a pool\<close>

fun split_slash :: "string \<Rightarrow> string list" where
  "split_slash [] = [[]]"
| "split_slash (c # s) =
     (if c = CHR ''/'' then [] # split_slash s
      else (case split_slash s of p # ps \<Rightarrow> (c # p) # ps | [] \<Rightarrow> [[c]]))"

definition WSOL_MINT :: pubkey where
  "WSOL_MINT = ''So11111111111111111111111111111111111111112''"

definition USDC :: pubkey where
  "USDC = ''EPjFWdd5AufqSSqeM2qN1xzybapC8G4wEGGkZwyTDt1v''"

definition extractToken :: "string \<Rightarrow> string" where
  "extractToken pool =
     (case split_slash pool of
        [a, b] \<Rightarrow> if a = WSOL_MINT \<or> a = USDC then b else a
      | _ \<Rightarrow> pool)"

section \<open>The executor's risk state\<close>

record risk_config =
  tokenLossStreakLimit :: int
  tokenCooldownMinutes :: int
  tokenWhitelist :: "string jsset"
  tokenBlacklist :: "string jsset"
  byrealSkipSol :: bool

record 'j risk_state =
  tokenLossStreak :: "(string, nat) jsmap"
  tokenCooldowns :: "(string, millis) jsmap"
  tokenPnls :: "'j pnl_memory"
  pnl_pushed :: "'j pnl_call list"

text \<open>\<^verbatim>\<open>if (!until) return false\<close>: a deadline of zero counts as none.\<close>

definition isTokenCoolingDown :: "millis \<Rightarrow> string \<Rightarrow> 'j risk_state \<Rightarrow> bool \<times> 'j risk_state" where
  "isTokenCoolingDown now pool s =
     (if pool = [] then (False, s)
      else let token = extractToken pool
           in (case map_of (tokenCooldowns s) token of
                 None \<Rightarrow> (False, s)
               | Some deadline \<Rightarrow>
                   if deadline = 0 then (False, s)
                   else if now \<ge> deadline
                     then (False, s\<lparr>tokenCooldowns := AList.delete token (tokenCooldowns s),
                                    tokenLossStreak := AList.delete token (tokenLossStreak s)\<rparr>)
                   else (True, s)))"

definition num_or_zero :: "js_num option \<Rightarrow> js_num" where
  "num_or_zero x = (case x of Some v \<Rightarrow> if v = NaN then Num 0 else v | None \<Rightarrow> Num 0)"

definition is_loss :: "js_num \<Rightarrow> bool" where
  "is_loss pnlUsd \<longleftrightarrow> num_lt pnlUsd (Num 0)"

definition streak_of :: "string \<Rightarrow> 'j risk_state \<Rightarrow> nat" where
  "streak_of token s = (case map_of (tokenLossStreak s) token of Some n \<Rightarrow> n | None \<Rightarrow> 0)"

text \<open>The first half of \<^verbatim>\<open>recordTokenPnl\<close>: streak and cooldown.\<close>

definition record_streak :: "risk_config \<Rightarrow> millis \<Rightarrow> string \<Rightarrow> js_num \<Rightarrow> 'j risk_state \<Rightarrow> 'j risk_state" where
  "record_streak cfg now token pnlUsd s =
     (if is_loss pnlUsd then
        let streak = streak_of token s + 1;
            s1 = s\<lparr>tokenLossStreak := AList.update token streak (tokenLossStreak s)\<rparr>
        in if int streak \<ge> tokenLossStreakLimit cfg \<and> tokenLossStreakLimit cfg > 0 \<and>
              token \<notin> set (tokenWhitelist cfg)
           then s1\<lparr>tokenCooldowns := AList.update token (now + tokenCooldownMinutes cfg * 60 * 1000) (tokenCooldowns s1)\<rparr>
           else s1
      else s\<lparr>tokenLossStreak := AList.update token 0 (tokenLossStreak s),
             tokenCooldowns := AList.delete token (tokenCooldowns s)\<rparr>)"

text \<open>The second half: the persisted record. Missing fields start at zero, stored ones override them.\<close>

definition over_zero :: "'a::zero option \<Rightarrow> 'a option" where
  "over_zero x = (case x of None \<Rightarrow> Some 0 | Some v \<Rightarrow> Some v)"

definition over_num :: "js_num option \<Rightarrow> js_num option" where
  "over_num x = (case x of None \<Rightarrow> Some (Num 0) | Some v \<Rightarrow> Some v)"

definition with_defaults :: "'j TokenPnlPayload option \<Rightarrow> 'j TokenPnlPayload" where
  "with_defaults stored =
     (case stored of
        None \<Rightarrow> \<lparr>tp_totalPnl = Some (Num 0), tp_tradeCount = Some (Num 0), tp_lastLossPnl = Some (Num 0),
                 tp_lastTradeAt = Some 0, tp_extra = []\<rparr>
      | Some p \<Rightarrow> p\<lparr>tp_totalPnl := over_num (tp_totalPnl p), tp_tradeCount := over_num (tp_tradeCount p),
                   tp_lastLossPnl := over_num (tp_lastLossPnl p), tp_lastTradeAt := over_zero (tp_lastTradeAt p)\<rparr>)"

definition record_pnl :: "millis \<Rightarrow> string \<Rightarrow> js_num \<Rightarrow> 'j risk_state \<Rightarrow> 'j risk_state" where
  "record_pnl now token pnlUsd s =
     (let base = with_defaults (getTokenPnl token (tokenPnls s));
          entry = base\<lparr>tp_totalPnl := Some (num_add (num_or_zero (tp_totalPnl base)) pnlUsd),
                       tp_tradeCount := Some (num_add (num_or_zero (tp_tradeCount base)) (Num 1)),
                       tp_lastLossPnl := (if is_loss pnlUsd then Some pnlUsd else tp_lastLossPnl base),
                       tp_lastTradeAt := Some now\<rparr>;
          r = setTokenPnl token entry (tokenPnls s)
      in s\<lparr>tokenPnls := fst r, pnl_pushed := pnl_pushed s @ snd r\<rparr>)"

definition recordTokenPnl :: "risk_config \<Rightarrow> millis \<Rightarrow> string \<Rightarrow> js_num \<Rightarrow> 'j risk_state \<Rightarrow> 'j risk_state" where
  "recordTokenPnl cfg now pool pnlUsd s =
     (if pool = [] then s
      else record_pnl now (extractToken pool) pnlUsd (record_streak cfg now (extractToken pool) pnlUsd s))"

definition isTokenBlacklisted :: "risk_config \<Rightarrow> string \<Rightarrow> bool" where
  "isTokenBlacklisted cfg pool =
     (if pool = [] then False
      else (case split_slash pool of
              [a, b] \<Rightarrow>
                if byrealSkipSol cfg \<and> (a = WSOL_MINT \<or> b = WSOL_MINT) then True
                else a \<in> set (tokenBlacklist cfg) \<or> b \<in> set (tokenBlacklist cfg)
            | _ \<Rightarrow> pool \<in> set (tokenBlacklist cfg)))"

record ByrealPositionCapStatus =
  cap_enabled :: bool
  cap_current :: nat
  cap_cap :: int
  cap_reached :: bool
  cap_reason :: "string option"

definition getByrealPositionCapStatus :: "nat \<Rightarrow> int \<Rightarrow> ByrealPositionCapStatus" where
  "getByrealPositionCapStatus current cap =
     (let enabled = cap > 0; reached = (enabled \<and> int current \<ge> cap)
      in \<lparr>cap_enabled = enabled, cap_current = current, cap_cap = cap, cap_reached = reached,
          cap_reason = (if reached then Some (''Byreal position cap reached ('' @ show_nat current @ ''/'' @ show_int cap @ '')'')
                        else None)\<rparr>)"

section \<open>Lemmas\<close>

lemma record_pnl_risk [simp]:
  "tokenLossStreak (record_pnl now token p s) = tokenLossStreak s"
  "tokenCooldowns (record_pnl now token p s) = tokenCooldowns s"
  "streak_of token' (record_pnl now token p s) = streak_of token' s"
  by (simp_all add: record_pnl_def Let_def streak_of_def)

lemma streak_of_record:
  "streak_of token' (record_streak cfg now token p s) =
     (if token' \<noteq> token then streak_of token' s else if is_loss p then streak_of token s + 1 else 0)"
  by (simp add: record_streak_def streak_of_def Let_def)

lemma cooldown_record:
  "map_of (tokenCooldowns (record_streak cfg now token p s)) token' =
     (if token' \<noteq> token then map_of (tokenCooldowns s) token'
      else if \<not> is_loss p then None
      else if int (streak_of token s + 1) \<ge> tokenLossStreakLimit cfg \<and> tokenLossStreakLimit cfg > 0 \<and>
              token \<notin> set (tokenWhitelist cfg)
        then Some (now + tokenCooldownMinutes cfg * 60 * 1000)
      else map_of (tokenCooldowns s) token)"
  by (simp add: record_streak_def Let_def)

text \<open>The closes of one pool, in order.\<close>

definition record_all :: "risk_config \<Rightarrow> string \<Rightarrow> (millis \<times> js_num) list \<Rightarrow> 'j risk_state \<Rightarrow> 'j risk_state" where
  "record_all cfg pool closes s = fold (\<lambda>(now, p). recordTokenPnl cfg now pool p) closes s"

lemma streak_of_losses:
  "pool \<noteq> [] \<Longrightarrow> list_all (\<lambda>(now, p). is_loss p) closes \<Longrightarrow>
   streak_of (extractToken pool) (record_all cfg pool closes s) = streak_of (extractToken pool) s + length closes"
  by (induction closes arbitrary: s)
    (auto simp: record_all_def recordTokenPnl_def streak_of_record)

lemma record_all_snoc:
  "record_all cfg pool (closes @ [(t, p)]) s = recordTokenPnl cfg t pool p (record_all cfg pool closes s)"
  by (simp add: record_all_def)

lemma cooldown_after_losses:
  assumes "pool \<noteq> []" and "0 < tokenLossStreakLimit cfg" and "extractToken pool \<notin> set (tokenWhitelist cfg)"
    and "list_all (\<lambda>(now, p). is_loss p) (closes @ [(t, p)])"
    and "tokenLossStreakLimit cfg \<le> int (length closes + 1)"
  shows "map_of (tokenCooldowns (record_all cfg pool (closes @ [(t, p)]) s)) (extractToken pool) =
    Some (t + tokenCooldownMinutes cfg * 60 * 1000)"
  using assms streak_of_losses [of pool closes cfg s]
  by (simp add: record_all_snoc recordTokenPnl_def cooldown_record)

section \<open>Properties\<close>

text \<open>
  A losing streak pauses the token. After at least \<^verbatim>\<open>TOKEN_LOSS_STREAK_LIMIT\<close> losing closes in a row
  of a token that is not whitelisted, whatever came before, the token is cooling down exactly until
  the configured minutes after the last close have passed; the query that finds the time over
  forgets the streak; and a close that is no loss ends the pause and the streak at once.
\<close>

theorem loss_streak_cools_down:
  assumes "pool \<noteq> []" and "0 < tokenLossStreakLimit cfg" and "extractToken pool \<notin> set (tokenWhitelist cfg)"
    and "list_all (\<lambda>(now, p). is_loss p) (closes @ [(t, p)])"
    and "tokenLossStreakLimit cfg \<le> int (length closes + 1)"
    and "0 < t + tokenCooldownMinutes cfg * 60 * 1000" and "\<not> is_loss q"
  shows "(fst (isTokenCoolingDown now pool (record_all cfg pool (closes @ [(t, p)]) s)) \<longleftrightarrow>
            now < t + tokenCooldownMinutes cfg * 60 * 1000) \<and>
         (now \<ge> t + tokenCooldownMinutes cfg * 60 * 1000 \<longrightarrow>
            streak_of (extractToken pool) (snd (isTokenCoolingDown now pool (record_all cfg pool (closes @ [(t, p)]) s))) = 0) \<and>
         \<not> fst (isTokenCoolingDown now pool (record_all cfg pool (closes @ [(t, p), (t', q)]) s)) \<and>
         streak_of (extractToken pool) (record_all cfg pool (closes @ [(t, p), (t', q)]) s) = 0"
proof -
  let ?s = "record_all cfg pool (closes @ [(t, p)]) s"
  have c: "map_of (tokenCooldowns ?s) (extractToken pool) = Some (t + tokenCooldownMinutes cfg * 60 * 1000)"
    by (rule cooldown_after_losses [OF assms(1-5)])
  have e: "record_all cfg pool (closes @ [(t, p), (t', q)]) s = recordTokenPnl cfg t' pool q ?s"
    by (simp add: record_all_def)
  have "fst (isTokenCoolingDown now pool ?s) \<longleftrightarrow> now < t + tokenCooldownMinutes cfg * 60 * 1000"
    using c assms(1,6) by (simp add: isTokenCoolingDown_def Let_def)
  moreover have "streak_of (extractToken pool) (snd (isTokenCoolingDown now pool ?s)) = 0"
    if "now \<ge> t + tokenCooldownMinutes cfg * 60 * 1000"
    using that c assms(1,6) by (simp add: isTokenCoolingDown_def Let_def streak_of_def)
  moreover have "\<not> fst (isTokenCoolingDown now pool (recordTokenPnl cfg t' pool q ?s))"
    "streak_of (extractToken pool) (recordTokenPnl cfg t' pool q ?s) = 0"
    using assms(1,7)
    by (simp_all add: isTokenCoolingDown_def Let_def recordTokenPnl_def cooldown_record streak_of_record)
  ultimately show ?thesis unfolding e by blast
qed

definition demo_risk :: risk_config where
  "demo_risk = \<lparr>tokenLossStreakLimit = 2, tokenCooldownMinutes = 60, tokenWhitelist = [], tokenBlacklist = [],
     byrealSkipSol = True\<rparr>"

definition demo_fresh :: "unit risk_state" where
  "demo_fresh = \<lparr>tokenLossStreak = [], tokenCooldowns = [], tokenPnls = [], pnl_pushed = []\<rparr>"

theorem loss_streak_cools_down_witness:
  "fst (isTokenCoolingDown 5000 ''T/U'' (record_all demo_risk ''T/U'' ([(1, Num (- 3))] @ [(2, Num (- 4))]) demo_fresh)) \<and>
   \<not> fst (isTokenCoolingDown 3600002 ''T/U'' (record_all demo_risk ''T/U'' ([(1, Num (- 3))] @ [(2, Num (- 4))]) demo_fresh))"
proof -
  have "fst (isTokenCoolingDown now ''T/U'' (record_all demo_risk ''T/U'' ([(1, Num (- 3))] @ [(2, Num (- 4))]) demo_fresh)) \<longleftrightarrow>
      now < 3600002" for now
    using loss_streak_cools_down [of "''T/U''" demo_risk "[(1, Num (- 3))]" 2 "Num (- 4)" "Num 5" now demo_fresh 3]
    by (simp add: demo_risk_def is_loss_def)
  then show ?thesis by simp
qed

end
