(* ===== verification/Opened_Referers.thy ===== *)
theory Opened_Referers
  imports Keyed_Store
begin

text \<open>
  The referer positions already copied, \<^verbatim>\<open>src/state/opened-referers-store.ts\<close> and
  \<^verbatim>\<open>src/state/repo/openedReferers.ts\<close>: the guard against mirroring one underlying position through two
  target wallets. Timestamps are milliseconds in memory and in the table alike.
\<close>

section \<open>Data and repository\<close>

record OpenedRefererEntry =
  or_targetNft :: string
  or_ourNft :: string
  or_targetWallet :: string
  or_openedAt :: millis

record RefererRow =
  rr_target_nft :: string
  rr_our_nft :: string
  rr_target_wallet :: string
  rr_opened_at :: millis

type_synonym referer_memory = "(string, OpenedRefererEntry) jsmap"
type_synonym referer_table = "(string, RefererRow) jsmap"

definition referer_toEntry :: "RefererRow \<Rightarrow> OpenedRefererEntry" where
  "referer_toEntry row =
     \<lparr>or_targetNft = rr_target_nft row, or_ourNft = rr_our_nft row, or_targetWallet = rr_target_wallet row,
      or_openedAt = rr_opened_at row\<rparr>"

definition openedReferers_has :: "string \<Rightarrow> referer_table \<Rightarrow> bool" where
  "openedReferers_has refererPosition t \<longleftrightarrow> map_of t refererPosition \<noteq> None"

definition openedReferers_get :: "string \<Rightarrow> referer_table \<Rightarrow> OpenedRefererEntry option" where
  "openedReferers_get refererPosition t = map_option referer_toEntry (map_of t refererPosition)"

definition openedReferers_add ::
  "string \<Rightarrow> string \<Rightarrow> string \<Rightarrow> string \<Rightarrow> millis \<Rightarrow> referer_table \<Rightarrow> referer_table" where
  "openedReferers_add refererPosition targetNft ourNft targetWallet openedAt t =
     AList.update refererPosition
       \<lparr>rr_target_nft = targetNft, rr_our_nft = ourNft, rr_target_wallet = targetWallet, rr_opened_at = openedAt\<rparr> t"

definition openedReferers_del :: "string \<Rightarrow> referer_table \<Rightarrow> referer_table" where
  "openedReferers_del refererPosition t = AList.delete refererPosition t"

definition openedReferers_deleteByTargetNft :: "string \<Rightarrow> referer_table \<Rightarrow> bool \<times> referer_table" where
  "openedReferers_deleteByTargetNft targetNft t =
     (list_ex (\<lambda>(k, r). rr_target_nft r = targetNft) t, filter (\<lambda>(k, r). rr_target_nft r \<noteq> targetNft) t)"

definition openedReferers_all :: "referer_table \<Rightarrow> referer_memory" where
  "openedReferers_all t = rows_to_record referer_toEntry t"

definition openedReferers_count :: "referer_table \<Rightarrow> nat" where
  "openedReferers_count t = length t"

section \<open>The store\<close>

datatype referer_call =
    OR_add string string string string millis
  | OR_delete string

definition initOpenedReferers :: "referer_table \<Rightarrow> referer_memory" where
  "initOpenedReferers t = record_to_map (openedReferers_all t)"

definition countOpenedReferers :: "referer_memory \<Rightarrow> nat" where
  "countOpenedReferers m = length m"

definition getOpenedReferer :: "string \<Rightarrow> referer_memory \<Rightarrow> OpenedRefererEntry option" where
  "getOpenedReferer refererPosition m = map_of m refererPosition"

definition allOpenedReferers :: "referer_memory \<Rightarrow> referer_memory" where
  "allOpenedReferers m = record_to_map m"

definition addOpenedReferer ::
  "millis \<Rightarrow> string \<Rightarrow> string \<Rightarrow> string \<Rightarrow> string \<Rightarrow> referer_memory \<Rightarrow> referer_memory \<times> referer_call list" where
  "addOpenedReferer now refererPosition targetNft ourNft targetWallet m =
     (AList.update refererPosition
        \<lparr>or_targetNft = targetNft, or_ourNft = ourNft, or_targetWallet = targetWallet, or_openedAt = now\<rparr> m,
      [OR_add refererPosition targetNft ourNft targetWallet now])"

definition removeOpenedRefererByTargetNft ::
  "string \<Rightarrow> referer_memory \<Rightarrow> bool \<times> referer_memory \<times> referer_call list" where
  "removeOpenedRefererByTargetNft targetNft m =
     (case find (\<lambda>(k, e). or_targetNft e = targetNft) m of
        Some (refererPosition, e) \<Rightarrow> (True, AList.delete refererPosition m, [OR_delete refererPosition])
      | None \<Rightarrow> (False, m, []))"

datatype referer_op =
    OOadd millis string string string string
  | OOremove string

fun referer_step :: "referer_op \<Rightarrow> referer_memory \<Rightarrow> referer_memory \<times> referer_call list" where
  "referer_step (OOadd now r t o' w) m = addOpenedReferer now r t o' w m"
| "referer_step (OOremove t) m = snd (removeOpenedRefererByTargetNft t m)"

fun referer_run :: "millis \<Rightarrow> referer_call \<Rightarrow> referer_table \<Rightarrow> referer_table" where
  "referer_run now (OR_add r t o' w at) db = openedReferers_add r t o' w at db"
| "referer_run now (OR_delete r) db = openedReferers_del r db"

fun referer_effect ::
  "referer_call \<Rightarrow> (string \<rightharpoonup> OpenedRefererEntry) \<Rightarrow> string \<rightharpoonup> OpenedRefererEntry" where
  "referer_effect (OR_add r t o' w at) v =
     v(r \<mapsto> \<lparr>or_targetNft = t, or_ourNft = o', or_targetWallet = w, or_openedAt = at\<rparr>)"
| "referer_effect (OR_delete r) v = v(r := None)"

lemmas referer_defs = addOpenedReferer_def removeOpenedRefererByTargetNft_def
  openedReferers_add_def openedReferers_del_def referer_toEntry_def

interpretation referers: keyed_store referer_step referer_run initOpenedReferers referer_toEntry referer_effect
proof
  fix op :: referer_op and m :: referer_memory
  show "map_of (fst (referer_step op m)) = fold referer_effect (snd (referer_step op m)) (map_of m)"
    by (cases op) (auto simp: referer_defs split: option.splits)
  show "js_keys_ok m \<Longrightarrow> js_keys_ok (fst (referer_step op m))"
    by (cases op) (auto simp: referer_defs split: option.splits)
next
  fix w :: referer_call and t :: referer_table and v now
  show "row_view referer_toEntry (referer_run now w t) = referer_effect w (row_view referer_toEntry t)"
    by (cases w) (simp_all add: referer_defs)
  show "js_keys_ok t \<Longrightarrow> js_keys_ok (referer_run now w t)" by (cases w) (simp_all add: referer_defs)
  show "referer_effect w (referer_effect w v) = referer_effect w v" by (cases w) auto
  show "js_keys_ok t \<Longrightarrow> map_of (initOpenedReferers t) = row_view referer_toEntry t"
    "js_keys_ok t \<Longrightarrow> js_keys_ok (initOpenedReferers t)"
    by (simp_all add: initOpenedReferers_def openedReferers_all_def)
qed

section \<open>Properties\<close>

definition referer_store_reach :: "referer_memory \<times> referer_call WriteChain \<times> referer_table \<Rightarrow> bool" where
  "referer_store_reach = reach (\<lambda>s. \<exists>db. js_keys_ok db \<and> s = store_init initOpenedReferers db)
     (store_step (\<lambda>op m. fst (referer_step op m)) (\<lambda>op m. snd (referer_step op m)) referer_run (\<lambda>_. True) True)"

text \<open>
  The duplicate guard survives a restart. In every state the store can reach, lost
  acknowledgements included, a drained chain that dropped nothing means that the table has a row for
  exactly the referers memory has, with the same entry, and so has the map a restarted bot loads;
  in particular a referer released because its position closed does not come back.
\<close>

theorem referers_survive_restart:
  assumes "referer_store_reach (m, c, db)" and "drained c" and "dropped c = []"
  shows "openedReferers_get r db = getOpenedReferer r m \<and>
         (openedReferers_has r db \<longleftrightarrow> getOpenedReferer r m \<noteq> None) \<and>
         getOpenedReferer r (initOpenedReferers db) = getOpenedReferer r m"
proof -
  have "map_of m = row_view referer_toEntry db"
    using referers.reachable_agree assms unfolding referer_store_reach_def by (fastforce simp: drained_def)
  then have g: "openedReferers_get r db = map_of m r"
    by (simp add: openedReferers_get_def row_view_def)
  moreover have "openedReferers_has r db \<longleftrightarrow> map_of m r \<noteq> None"
    by (simp add: openedReferers_has_def openedReferers_get_def flip: g)
  moreover have "map_of (initOpenedReferers db) = map_of m"
    using referers.restart_agree assms unfolding referer_store_reach_def by blast
  ultimately show ?thesis by (simp add: getOpenedReferer_def)
qed

text \<open>
  Closing releases exactly one referer. The removal reports whether some referer was recorded for
  the target NFT; if so exactly one entry goes, one that points at that NFT, and the single call
  pushed deletes that row; every other entry stays.
\<close>

theorem close_releases_one_referer:
  assumes "js_keys_ok m" and "removeOpenedRefererByTargetNft nft m = (found, m', ws)"
  shows "(found \<longleftrightarrow> (\<exists>r e. getOpenedReferer r m = Some e \<and> or_targetNft e = nft)) \<and>
         (found \<longrightarrow> (\<exists>r e. getOpenedReferer r m = Some e \<and> or_targetNft e = nft \<and> ws = [OR_delete r] \<and>
                          getOpenedReferer r m' = None \<and>
                          (\<forall>r'. r' \<noteq> r \<longrightarrow> getOpenedReferer r' m' = getOpenedReferer r' m))) \<and>
         (\<not> found \<longrightarrow> m' = m \<and> ws = [])"
proof (cases "find (\<lambda>(k, e). or_targetNft e = nft) m")
  case None
  then have "\<And>r e. (r, e) \<in> set m \<Longrightarrow> or_targetNft e \<noteq> nft" by (auto simp: find_None_iff)
  then have "\<And>r e. getOpenedReferer r m = Some e \<Longrightarrow> or_targetNft e \<noteq> nft"
    by (auto simp: getOpenedReferer_def dest: map_of_SomeD)
  with None assms(2) show ?thesis by (auto simp: removeOpenedRefererByTargetNft_def)
next
  case (Some x)
  obtain r e where x: "x = (r, e)" by (cases x)
  with Some have "(r, e) \<in> set m" and t: "or_targetNft e = nft" by (auto dest: find_SomeD)
  then have g: "getOpenedReferer r m = Some e" using assms(1) by (simp add: getOpenedReferer_def js_get_in_set)
  with Some x t assms(2) show ?thesis by (auto simp: removeOpenedRefererByTargetNft_def getOpenedReferer_def)
qed

definition demo_referer :: OpenedRefererEntry where
  "demo_referer = \<lparr>or_targetNft = ''nft'', or_ourNft = ''ours'', or_targetWallet = ''w'', or_openedAt = 7\<rparr>"

lemma demo_referer_reach:
  "referer_store_reach ([(''R'', demo_referer)], enable (new_chain RETRY_DELAYS_MS),
     [(''R'', \<lparr>rr_target_nft = ''nft'', rr_our_nft = ''ours'', rr_target_wallet = ''w'', rr_opened_at = 7\<rparr>)])"
proof -
  let ?w = "run_script (\<lambda>op m. fst (referer_step op m)) (\<lambda>op m. snd (referer_step op m)) referer_run
     [Op (OOadd 5 ''Q'' ''old'' ''ours'' ''w''), Op (OOremove ''old''), Op (OOadd 7 ''R'' ''nft'' ''ours'' ''w''),
      Db (Ack 1), Db (LostAck 2), Db (Ack 3), Db (Ack 4)] (store_init initOpenedReferers [])"
  have "?w = ([(''R'', demo_referer)], enable (new_chain RETRY_DELAYS_MS),
      [(''R'', \<lparr>rr_target_nft = ''nft'', rr_our_nft = ''ours'', rr_target_wallet = ''w'', rr_opened_at = 7\<rparr>)])"
    by (simp add: store_init_def initOpenedReferers_def openedReferers_all_def rows_to_record_eq record_to_map_eq
        referer_defs chain_defs RETRY_DELAYS_MS_def demo_referer_def)
  moreover have "referer_store_reach ?w"
    unfolding referer_store_reach_def by (rule reach_script) simp_all
  ultimately show ?thesis by metis
qed

theorem referers_survive_restart_witness:
  "openedReferers_has ''R''
     [(''R'', \<lparr>rr_target_nft = ''nft'', rr_our_nft = ''ours'', rr_target_wallet = ''w'', rr_opened_at = 7\<rparr>)]"
proof -
  have "drained (enable (new_chain RETRY_DELAYS_MS) :: referer_call WriteChain)"
    "dropped (enable (new_chain RETRY_DELAYS_MS) :: referer_call WriteChain) = []" by (simp_all add: chain_defs)
  then show ?thesis using referers_survive_restart [OF demo_referer_reach, of "''R''"] by (simp add: getOpenedReferer_def)
qed

theorem close_releases_one_referer_witness:
  "\<exists>r e. getOpenedReferer r [(''R'', demo_referer)] = Some e \<and> or_targetNft e = ''nft'' \<and>
     removeOpenedRefererByTargetNft ''nft'' [(''R'', demo_referer)] = (True, [], [OR_delete r])"
proof -
  have k: "js_keys_ok [(''R'', demo_referer)]" by (simp add: js_keys_ok_def)
  have e: "removeOpenedRefererByTargetNft ''nft'' [(''R'', demo_referer)] = (True, [], [OR_delete ''R''])"
    by (simp add: removeOpenedRefererByTargetNft_def demo_referer_def)
  show ?thesis using close_releases_one_referer [OF k e] e by auto
qed

end
