(* ===== verification/Ratio.thy ===== *)
theory Ratio
  imports Bn_Js
begin

text \<open>
  Scaling a target's amounts to ours: \<^verbatim>\<open>src/utils/ratio.ts\<close>. Amounts are big integers of the package
  bn.js, which is not part of the program: its operations are the fields of a record the
  definitions take, and \<open>bn_spec\<close> is what its documentation says of them. Ratios are \<^verbatim>\<open>number\<close>s.
\<close>

section \<open>The functions\<close>

record ratio_config =
  walletAmountRatios :: "(string, js_num) jsmap"
  amountRatio :: js_num

definition getAmountRatio :: "ratio_config \<Rightarrow> string option \<Rightarrow> js_num" where
  "getAmountRatio cfg walletAddress =
     (case walletAddress of
        Some w \<Rightarrow> if w = [] then amountRatio cfg
                  else (case map_of (walletAmountRatios cfg) w of
                          Some perWallet \<Rightarrow> perWallet
                        | None \<Rightarrow> amountRatio cfg)
      | None \<Rightarrow> amountRatio cfg)"

definition ratioBps :: "js_num \<Rightarrow> js_num" where
  "ratioBps ratio = num_floor (num_mul ratio (Num 10000))"

definition scale_by_bps :: "'b BN \<Rightarrow> 'b \<Rightarrow> js_num \<Rightarrow> 'b result" where
  "scale_by_bps bn amount bps =
     bind_result (bn_of_num bn bps) (\<lambda>b.
     bind_result (bn_of_num bn (Num 10000)) (\<lambda>tenk. Inr (bn_div bn (bn_mul bn amount b) tenk)))"

definition scaleAmount :: "'b BN \<Rightarrow> ratio_config \<Rightarrow> 'b \<Rightarrow> string option \<Rightarrow> 'b result" where
  "scaleAmount bn cfg amount walletAddress =
     (let ratio = getAmountRatio cfg walletAddress
      in if num_eq ratio (Num 1) then Inr amount else scale_by_bps bn amount (ratioBps ratio))"

definition scaleNumericAmount :: "ratio_config \<Rightarrow> js_num \<Rightarrow> string option \<Rightarrow> js_num" where
  "scaleNumericAmount cfg amount walletAddress =
     num_floor (num_mul amount (getAmountRatio cfg walletAddress))"

definition computeSwapCapRaw :: "'b BN \<Rightarrow> string option \<Rightarrow> js_num \<Rightarrow> string option result" where
  "computeSwapCapRaw bn inputAmountRaw ratio =
     bind_result (bn_of_string bn (case inputAmountRaw of
         None \<Rightarrow> ''0'' | Some s \<Rightarrow> if s = [] then ''0'' else s)) (\<lambda>targetRaw.
     bind_result (scale_by_bps bn targetRaw (ratioBps ratio)) (\<lambda>scaled.
     bind_result (bn_of_num bn (Num 0)) (\<lambda>zero.
     Inr (if bn_gt bn scaled zero then Some (bn_toString bn scaled) else None))))"

section \<open>Lemmas\<close>

text \<open>The basis points of a ratio between 0 and \<open>b\<close>.\<close>

lemma ratioBps_bounds:
  assumes "0 \<le> r" and "r \<le> of_nat b" and "b < 2 ^ 36"
  obtains k where "ratioBps (Num r) = Num (of_int k)" and "0 \<le> k" and "k \<le> 10000 * int b"
proof -
  have "int b < 2 ^ 36" using assms(3) by (metis of_nat_less_iff of_nat_numeral of_nat_power)
  then have bound: "10000 * int b < 2 ^ 53" by simp
  have rep: "representable (of_int (10000 * int b))"
    using bound by (intro representable_int) simp
  have le: "r * 10000 \<le> of_int (10000 * int b)" using assms(2) by simp
  have lo: "0 \<le> round_rat (r * 10000)" using assms(1) by (intro round_rat_nonneg) simp
  have hi: "round_rat (r * 10000) \<le> of_int (10000 * int b)"
    using assms(1) le rep by (intro round_rat_le) simp_all
  have "(of_int (10000 * int b) :: rat) < of_int (2 ^ 53)" using bound by (simp only: of_int_less_iff)
  also have "\<dots> \<le> pow2 1024" by simp
  finally have "\<bar>round_rat (r * 10000)\<bar> < pow2 1024" using lo hi by (simp only: abs_of_nonneg)
  then have "ratioBps (Num r) = Num (of_int \<lfloor>round_rat (r * 10000)\<rfloor>)"
    by (simp only: ratioBps_def num_mul.simps to_num_small num_floor.simps)
  moreover have "0 \<le> \<lfloor>round_rat (r * 10000)\<rfloor>" using lo by simp
  moreover have "\<lfloor>round_rat (r * 10000)\<rfloor> \<le> 10000 * int b" using hi by linarith
  ultimately show ?thesis by (rule that)
qed

lemma scale_by_bps_value:
  assumes spec: "bn_spec bn val" and "0 \<le> val a" and "0 \<le> k" and "k < 2 ^ 53"
  obtains c where "scale_by_bps bn a (Num (of_int k)) = Inr c" and "val c = val a * k div 10000"
proof -
  obtain b where b: "bn_of_num bn (Num (of_int k)) = Inr b" "val b = k"
    using bn_spec_num [OF spec, of k] assms(3,4) by auto
  obtain t where t: "bn_of_num bn (Num 10000) = Inr t" "val t = 10000"
    using bn_spec_num [OF spec, of 10000] by auto
  have "val (bn_div bn (bn_mul bn a b) t) = val a * k div 10000"
    using bn_spec_div [OF spec, of "bn_mul bn a b" t] b t assms(2,3) by (simp add: bn_spec_mul [OF spec])
  with b t show ?thesis by (intro that) (simp_all add: scale_by_bps_def)
qed

section \<open>Properties\<close>

text \<open>
  The cap of a copied swap. For a ratio between 0 and 1 and a target amount in raw units, the
  function returns either no cap, exactly when scaling gives zero, or the decimal of a positive
  amount that is at most the target's own amount. So an absent or dust-sized target amount is
  never turned into a swap, and a cap is never above what the target swapped.
\<close>

theorem swap_cap_sound:
  assumes "bn_spec bn val" and "0 \<le> r" and "r \<le> 1"
  shows "\<exists>k. 0 \<le> k \<and> k \<le> 10000 \<and> ratioBps (Num r) = Num (of_int k) \<and>
           computeSwapCapRaw bn (Some (show_nat n)) (Num r) =
             Inr (if int n * k div 10000 > 0 then Some (show_int (int n * k div 10000)) else None) \<and>
           int n * k div 10000 \<le> int n \<and>
           computeSwapCapRaw bn None (Num r) = Inr None"
proof -
  obtain k where k: "ratioBps (Num r) = Num (of_int k)" "0 \<le> k" "k \<le> 10000"
    using ratioBps_bounds [of r 1] assms(2,3) by auto
  obtain z where z: "bn_of_num bn (Num 0) = Inr z" "val z = 0"
    using bn_spec_num [OF assms(1), of 0] by auto
  have cap: "computeSwapCapRaw bn (Some (show_nat m)) (Num r) =
      Inr (if int m * k div 10000 > 0 then Some (show_int (int m * k div 10000)) else None)" for m
  proof -
    obtain a where a: "bn_of_string bn (show_nat m) = Inr a" "val a = int m"
      using bn_spec_string [OF assms(1)] by blast
    obtain c where c: "scale_by_bps bn a (Num (of_int k)) = Inr c" "val c = val a * k div 10000"
      using scale_by_bps_value [OF assms(1), of a k] a k by auto
    have "bn_gt bn c z \<longleftrightarrow> val c > 0" "bn_toString bn c = show_int (val c)"
      using z by (simp_all add: bn_spec_gt [OF assms(1)] bn_spec_show [OF assms(1)])
    with a c z k show ?thesis by (simp add: computeSwapCapRaw_def)
  qed
  have "show_nat 0 = ''0''" by (simp add: show_nat.simps)
  then have "computeSwapCapRaw bn None (Num r) = Inr None"
    using cap [of 0] by (simp add: computeSwapCapRaw_def)
  moreover have "int n * k div 10000 \<le> int n"
  proof -
    have "int n * k \<le> int n * 10000" using k by (intro mult_left_mono) auto
    then show ?thesis using zdiv_mono1 [of "int n * k" "int n * 10000" 10000] by simp
  qed
  ultimately show ?thesis using k cap [of n] by blast
qed

text \<open>Integers satisfy the description of the package.\<close>

theorem swap_cap_sound_witness:
  "\<exists>k. 0 \<le> k \<and> k \<le> 10000 \<and> ratioBps (Num (1 / 2)) = Num (of_int k) \<and>
     computeSwapCapRaw int_BN (Some (show_nat 1)) (Num (1 / 2)) =
       Inr (if int 1 * k div 10000 > 0 then Some (show_int (int 1 * k div 10000)) else None) \<and>
     int 1 * k div 10000 \<le> int 1 \<and> computeSwapCapRaw int_BN None (Num (1 / 2)) = Inr None"
  by (rule swap_cap_sound [OF int_BN_spec]) simp_all

text \<open>
  Scaling an amount. With a ratio of exactly 1 the amount is returned unchanged; with any
  other ratio in \<open>[0, 1]\<close>, whether the wallet's own or the global one, the result exists and is the
  amount times the basis points over 10000, rounded down: never negative, never above the amount.
\<close>

theorem scaleAmount_bounds:
  assumes "bn_spec bn val" and "getAmountRatio cfg w = Num r" and "0 \<le> r" and "r \<le> 1" and "0 \<le> val a"
  shows "\<exists>c. scaleAmount bn cfg a w = Inr c \<and> 0 \<le> val c \<and> val c \<le> val a \<and> (r = 1 \<longrightarrow> c = a)"
proof (cases "r = 1")
  case True
  with assms show ?thesis by (simp add: scaleAmount_def num_eq_def)
next
  case False
  obtain k where k: "ratioBps (Num r) = Num (of_int k)" "0 \<le> k" "k \<le> 10000"
    using ratioBps_bounds [of r 1] assms(3,4) by auto
  obtain c where c: "scale_by_bps bn a (Num (of_int k)) = Inr c" "val c = val a * k div 10000"
    using scale_by_bps_value [OF assms(1,5), of k] k by auto
  have "val a * k \<le> val a * 10000" using k assms(5) by (intro mult_left_mono) auto
  then have "val c \<le> val a" using zdiv_mono1 [of "val a * k" "val a * 10000" 10000] c by simp
  moreover have "0 \<le> val c" using c k assms(5) by (simp add: pos_imp_zdiv_nonneg_iff)
  moreover have "scaleAmount bn cfg a w = Inr c"
    using assms(2) False k c by (simp add: scaleAmount_def num_eq_def)
  ultimately show ?thesis using False by blast
qed

theorem scaleAmount_bounds_witness:
  "\<exists>c. scaleAmount int_BN \<lparr>walletAmountRatios = [(''W'', Num (1 / 4))], amountRatio = Num 1\<rparr> 10 (Some ''W'') = Inr c \<and>
       0 \<le> id c \<and> id c \<le> id (10::int) \<and> (1 / 4 = (1::rat) \<longrightarrow> c = 10)"
  by (rule scaleAmount_bounds [OF int_BN_spec]) (simp_all add: getAmountRatio_def)

text \<open>
  A configured ratio of 0.57 scales by 0.5699. The product \<^verbatim>\<open>0.57 * 10000\<close> is the double just
  below 5700, and \<^verbatim>\<open>Math.floor\<close> takes it to 5699 basis points, so the scaled amounts fall one basis
  point short of the ratio that was configured.
\<close>

theorem ratio_057_rounds_down: "ratioBps (to_num (57 / 100)) = Num 5699"
proof -
  have r: "round_rat (57 / 100) = of_int 5134103575202365 * pow2 (- 1 - 52)"
    by (rule round_rat_eval) simp_all
  have a: "to_num (57 / 100) = Num (5134103575202365 / 2 ^ 53)"
    by (subst to_num_small) (simp_all add: r)
  have p: "round_rat (5134103575202365 / 2 ^ 53 * 10000) = of_int 6267216278323199 * pow2 (12 - 52)"
    by (rule round_rat_eval) simp_all
  have "to_num (5134103575202365 / 2 ^ 53 * 10000) = Num (6267216278323199 / 2 ^ 40)"
    by (subst to_num_small) (simp_all only: p, simp_all)
  moreover have "\<lfloor>6267216278323199 / 2 ^ 40 :: rat\<rfloor> = 5699" by (rule floor_unique) simp_all
  ultimately show ?thesis by (simp only: ratioBps_def a num_mul.simps num_floor.simps) simp
qed

end
