(* ===== verification/Parser_Data.thy ===== *)
theory Parser_Data
  imports Js_Number
begin

text \<open>
  The data of the transaction parser, \<^verbatim>\<open>src/monitor/parser.ts\<close>: the parts of a parsed transaction it
  reads, the events it emits, the instruction discriminator tables, and the helpers all DEX parsers
  share (new and burned position NFTs, the NFT the target holds, received token amounts). The base58
  decoder is a package of its own: an argument, with \<^const>\<open>None\<close> where it throws.
\<close>

section \<open>Transactions as the RPC node returns them\<close>

record UiTokenAmount =
  amount :: string
  decimals :: nat
  uiAmount :: "js_num option"
  uiAmountString :: "string option"

record TokenBalance =
  accountIndex :: nat
  mint :: string
  owner :: "string option"
  uiTokenAmount :: UiTokenAmount

record Instruction =
  programId :: pubkey
  ix_accounts :: "pubkey list option"
  ix_data :: "string option"

record TxMeta =
  meta_err :: bool
  fee :: js_num
  preBalances :: "js_num list option"
  postBalances :: "js_num list option"
  preTokenBalances :: "TokenBalance list option"
  postTokenBalances :: "TokenBalance list option"
  innerInstructions :: "Instruction list list option"

record ParsedTx =
  tx_meta :: "TxMeta option"
  instructions :: "Instruction list"
  accountKeys :: "pubkey list"

record parser_config =
  byrealProgramId :: pubkey
  orcaProgramId :: pubkey
  meteoraProgramId :: pubkey
  pcsProgramId :: pubkey
  memoProgramId :: pubkey
  pcsEnabled :: bool

text \<open>\<^verbatim>\<open>tx.meta?.field || []\<close>\<close>

definition or_empty :: "('m \<Rightarrow> 'a list option) \<Rightarrow> 'm option \<Rightarrow> 'a list" where
  "or_empty field meta = (case Option.bind meta field of Some xs \<Rightarrow> xs | None \<Rightarrow> [])"

abbreviation pre_tokens :: "ParsedTx \<Rightarrow> TokenBalance list" where
  "pre_tokens tx \<equiv> or_empty preTokenBalances (tx_meta tx)"

abbreviation post_tokens :: "ParsedTx \<Rightarrow> TokenBalance list" where
  "post_tokens tx \<equiv> or_empty postTokenBalances (tx_meta tx)"

section \<open>Discriminators\<close>

definition ORCA_IX_DISC :: "(string, string) jsmap" where
  "ORCA_IX_DISC =
     [(''2e9cf3760dcdfbb2'', ''increase_liquidity''),
      (''851d59df45eeb00a'', ''increase_liquidity_v2''),
      (''a026d06f685b2c01'', ''decrease_liquidity''),
      (''3a7fbc3e4f52c460'', ''decrease_liquidity_v2''),
      (''a498cf631eba13b6'', ''collect_fees''),
      (''cf755fbfe5b4e20f'', ''collect_fees_v2''),
      (''87802f4d0f98f031'', ''open_position''),
      (''f21d86303a6e0e3c'', ''open_position_with_metadata''),
      (''d42f5f5c726683fa'', ''open_position_with_token_extensions''),
      (''7b86510031446262'', ''close_position'')]"

definition DAMMV2_PROGRAM_ID :: pubkey where
  "DAMMV2_PROGRAM_ID = ''cpamdpZCGKUy5JxQXB4dcpGPiikHawvSWAd6mEn1sGG''"

definition DAMMV2_IX_DISC :: "(string, string) jsmap" where
  "DAMMV2_IX_DISC =
     [(''30d7c59960cbb485'', ''create_position''),
      (''b59d59438fb63448'', ''add_liquidity''),
      (''5055d14818ceb16c'', ''remove_liquidity''),
      (''0a333d2370691855'', ''remove_all_liquidity''),
      (''7b86510031446262'', ''close_position''),
      (''b4269a118521a2d3'', ''claim_position_fee''),
      (''955fb5f25e5a9ea2'', ''claim_reward'')]"

definition METEORA_IX_DISC :: "(string, string) jsmap" where
  "METEORA_IX_DISC =
     [(''dbc0ea47bebf6650'', ''initialize_position''),
      (''8f13f291d50f6873'', ''initialize_position2''),
      (''2e527d92558de499'', ''initialize_position_pda''),
      (''fbbdbef475fe2394'', ''initialize_position_by_operator''),
      (''7b86510031446262'', ''close_position''),
      (''ae5a2373ba2893e2'', ''close_position2''),
      (''3b7cd4765b986e9d'', ''close_position_if_empty''),
      (''b59d59438fb63448'', ''add_liquidity''),
      (''e4a24e1c46db7473'', ''add_liquidity2''),
      (''0703967f94283dc8'', ''add_liquidity_by_strategy''),
      (''03dd95da6f8d76d5'', ''add_liquidity_by_strategy2''),
      (''2905eeaf64e106cd'', ''add_liquidity_by_strategy_one_side''),
      (''1c8cee63e7a21595'', ''add_liquidity_by_weight''),
      (''5e9b6797465fdca5'', ''add_liquidity_one_side''),
      (''a1c26754ab47fa9a'', ''add_liquidity_one_side_precise''),
      (''2133a3c975627de7'', ''add_liquidity_one_side_precise2''),
      (''5055d14818ceb16c'', ''remove_liquidity''),
      (''e6d7527ff165e392'', ''remove_liquidity2''),
      (''1a526698f04a691a'', ''remove_liquidity_by_range''),
      (''cc02c391359191cd'', ''remove_liquidity_by_range2''),
      (''0a333d2370691855'', ''remove_all_liquidity''),
      (''a9204f8988e84689'', ''claim_fee''),
      (''70bf65ab1c907fbb'', ''claim_fee2''),
      (''5c04b0c177b95309'', ''rebalance_liquidity'')]"

type_synonym bs58_decoder = "string \<Rightarrow> byte list option"

definition hex_digit :: "nat \<Rightarrow> char" where
  "hex_digit d = (if d < 10 then digit_char d else char_of (87 + d))"

definition to_hex :: "byte list \<Rightarrow> string" where
  "to_hex bs = concat (map (\<lambda>b. [hex_digit (b div 16), hex_digit (b mod 16)]) bs)"

definition getIxDiscriminator :: "bs58_decoder \<Rightarrow> string option \<Rightarrow> string" where
  "getIxDiscriminator bs58 data =
     (case Option.bind data bs58 of
        None \<Rightarrow> ''''
      | Some bytes \<Rightarrow> if length bytes < 8 then '''' else to_hex (take 8 bytes))"

section \<open>Events\<close>

type_synonym received = "(string \<times> string) list" \<comment> \<open>mint and amount\<close>

datatype ParsedEvent =
    JUPITER_SWAP (inputMint: string) (outputMint: string) (inputAmount: string) (outputAmount: string)
      (inputDecimals: nat) (outputDecimals: nat) (inputAmountRaw: string) (inputPreBalanceRaw: string)
  | BYREAL_OPEN_POSITION (poolId: string) (tickLower: int) (tickUpper: int) (liquidity: string)
      (refererPosition: "string option") (tokenAmountA: string) (tokenAmountB: string)
      (positionNftMint: string) (poolMints: "string option")
  | BYREAL_INCREASE_LIQUIDITY (positionNftMint: string)
  | BYREAL_DECREASE_LIQUIDITY (positionNftMint: string) (liquidity: string)
  | BYREAL_CLOSE_POSITION (positionNftMint: string) (receivedTokens: received)
  | BYREAL_COLLECT_FEES (positionNftMint: string)
  | ORCA_OPEN_POSITION (poolAddress: string) (tickLower: int) (tickUpper: int) (positionNftMint: string)
      (poolMints: "string option")
  | ORCA_CLOSE_POSITION (positionNftMint: string) (receivedTokens: received)
  | ORCA_INCREASE_LIQUIDITY (positionNftMint: string)
  | ORCA_DECREASE_LIQUIDITY (positionNftMint: string)
  | METEORA_OPEN_POSITION (poolAddress: string) (lowerBinId: int) (width: int) (positionAddress: string)
  | METEORA_CLOSE_POSITION (positionAddress: string) (receivedTokens: received)
  | METEORA_ADD_LIQUIDITY (positionAddress: string)
  | METEORA_REMOVE_LIQUIDITY (positionAddress: string)
  | PCS_OPEN_POSITION (poolId: string) (tickLower: int) (tickUpper: int) (liquidity: string)
      (refererPosition: "string option") (tokenAmountA: string) (tokenAmountB: string)
      (positionNftMint: string) (poolMints: "string option")
  | PCS_INCREASE_LIQUIDITY (positionNftMint: string)
  | PCS_DECREASE_LIQUIDITY (positionNftMint: string) (liquidity: string)
  | PCS_CLOSE_POSITION (positionNftMint: string) (receivedTokens: received)
  | PCS_COLLECT_FEES (positionNftMint: string)
  | DAMMV2_OPEN_POSITION (poolAddress: string) (positionNftMint: string)
  | DAMMV2_CLOSE_POSITION (positionNftMint: string) (receivedTokens: received)
  | DAMMV2_ADD_LIQUIDITY (positionNftMint: string)
  | DAMMV2_REMOVE_LIQUIDITY (positionNftMint: string)
  | DAMMV2_CLAIM_FEE (positionNftMint: string)
  | UNKNOWN

section \<open>Shared helpers\<close>

text \<open>All instructions of one program, top-level ones first, then the inner ones.\<close>

definition find_instructions :: "pubkey \<Rightarrow> ParsedTx \<Rightarrow> Instruction list" where
  "find_instructions program tx =
     filter (\<lambda>ix. programId ix = program) (instructions tx) @
     filter (\<lambda>ix. programId ix = program) (concat (or_empty innerInstructions (tx_meta tx)))"

definition accounts :: "Instruction \<Rightarrow> pubkey list" where
  "accounts ix = (case ix_accounts ix of Some as \<Rightarrow> as | None \<Rightarrow> [])"

definition is_nft :: "TokenBalance \<Rightarrow> bool" where
  "is_nft b \<longleftrightarrow> decimals (uiTokenAmount b) = 0 \<and> uiAmount (uiTokenAmount b) = Some (Num 1)"

definition same_account :: "TokenBalance \<Rightarrow> TokenBalance \<Rightarrow> bool" where
  "same_account a b \<longleftrightarrow> accountIndex a = accountIndex b \<and> mint a = mint b"

definition findNewNftMintsFromTx :: "ParsedTx \<Rightarrow> pubkey \<Rightarrow> string list" where
  "findNewNftMintsFromTx tx target =
     map mint (filter (\<lambda>post. owner post = Some target \<and> is_nft post \<and>
                              \<not> list_ex (\<lambda>pre. same_account pre post) (pre_tokens tx)) (post_tokens tx))"

definition findClosedNftMintsFromTx :: "ParsedTx \<Rightarrow> pubkey \<Rightarrow> string list" where
  "findClosedNftMintsFromTx tx target =
     map mint (filter (\<lambda>pre. owner pre = Some target \<and> is_nft pre \<and>
        (case find (\<lambda>p. same_account p pre) (post_tokens tx) of
           None \<Rightarrow> True
         | Some post \<Rightarrow> uiAmount (uiTokenAmount post) = Some (Num 0))) (pre_tokens tx))"

text \<open>The first NFT the target held before the transaction: the loops that \<^verbatim>\<open>break\<close> after one event.\<close>

definition first_held_nft :: "ParsedTx \<Rightarrow> pubkey \<Rightarrow> string option" where
  "first_held_nft tx target =
     map_option mint (find (\<lambda>pre. owner pre = Some target \<and> is_nft pre) (pre_tokens tx))"

definition held_event :: "(string \<Rightarrow> ParsedEvent) \<Rightarrow> ParsedTx \<Rightarrow> pubkey \<Rightarrow> ParsedEvent list" where
  "held_event ev tx target = (case first_held_nft tx target of Some nft \<Rightarrow> [ev nft] | None \<Rightarrow> [])"

definition received_preMap :: "ParsedTx \<Rightarrow> pubkey \<Rightarrow> (string, string) jsmap" where
  "received_preMap tx botStr =
     fold (\<lambda>pre m. if owner pre = Some botStr \<and> decimals (uiTokenAmount pre) > 0
                   then AList.update (mint pre) (amount (uiTokenAmount pre)) m else m) (pre_tokens tx) []"

definition or_zero :: "string option \<Rightarrow> string" where
  "or_zero s = (case s of Some t \<Rightarrow> if t = [] then ''0'' else t | None \<Rightarrow> ''0'')"

fun received_loop :: "(string, string) jsmap \<Rightarrow> pubkey \<Rightarrow> TokenBalance list \<Rightarrow> received result" where
  "received_loop preMap botStr [] = Inr []"
| "received_loop preMap botStr (post # rest) =
     (if owner post \<noteq> Some botStr \<or> decimals (uiTokenAmount post) = 0 then received_loop preMap botStr rest
      else bind_result (BigInt_of (amount (uiTokenAmount post))) (\<lambda>postAmt.
           bind_result (BigInt_of (or_zero (map_of preMap (mint post)))) (\<lambda>preAmt.
           bind_result (received_loop preMap botStr rest) (\<lambda>received.
             Inr (if postAmt - preAmt > 0 then (mint post, show_int (postAmt - preAmt)) # received
                  else received)))))"

definition parseBotReceivedTokens :: "ParsedTx \<Rightarrow> pubkey \<Rightarrow> received result" where
  "parseBotReceivedTokens tx target = received_loop (received_preMap tx target) target (post_tokens tx)"

end
