(* ===== verification/Parser_Swap.thy ===== *)
theory Parser_Swap
  imports Parser_Data
begin

text \<open>
  \<^verbatim>\<open>parseJupiterSwap\<close> of \<^verbatim>\<open>src/monitor/parser.ts\<close>: a swap is recognised from the target's token balances
  before and after the transaction, one token down and one up, or the native SOL balance in place
  of one of them. The two loops fill a map from mint to balances; the third picks the mints; the
  SOL balance fills a gap; wraps of SOL and NFT transfers are filtered out.
\<close>

section \<open>Balance changes\<close>

record balance_change =
  bc_pre :: js_num
  bc_post :: js_num
  bc_decimals :: nat
  bc_preRaw :: string
  bc_postRaw :: string

definition ui_number :: "TokenBalance \<Rightarrow> js_num" where
  "ui_number bal = parseFloat (or_zero (uiAmountString (uiTokenAmount bal)))"

definition add_pre :: "pubkey \<Rightarrow> TokenBalance \<Rightarrow> (string, balance_change) jsmap \<Rightarrow> (string, balance_change) jsmap" where
  "add_pre target bal changes =
     (if owner bal = Some target \<and> mint bal \<noteq> []
      then AList.update (mint bal)
             \<lparr>bc_pre = ui_number bal, bc_post = Num 0, bc_decimals = decimals (uiTokenAmount bal),
              bc_preRaw = amount (uiTokenAmount bal), bc_postRaw = ''0''\<rparr> changes
      else changes)"

definition add_post :: "pubkey \<Rightarrow> TokenBalance \<Rightarrow> (string, balance_change) jsmap \<Rightarrow> (string, balance_change) jsmap" where
  "add_post target bal changes =
     (if owner bal = Some target \<and> mint bal \<noteq> []
      then (let existing = (case map_of changes (mint bal) of
                  Some c \<Rightarrow> c
                | None \<Rightarrow> \<lparr>bc_pre = Num 0, bc_post = Num 0, bc_decimals = decimals (uiTokenAmount bal),
                           bc_preRaw = ''0'', bc_postRaw = ''0''\<rparr>)
            in AList.update (mint bal)
                 (existing\<lparr>bc_post := ui_number bal, bc_postRaw := amount (uiTokenAmount bal)\<rparr>) changes)
      else changes)"

definition balance_changes :: "ParsedTx \<Rightarrow> pubkey \<Rightarrow> (string, balance_change) jsmap" where
  "balance_changes tx target =
     fold (add_post target) (post_tokens tx) (fold (add_pre target) (pre_tokens tx) [])"

section \<open>Input and output\<close>

record swap_sides =
  sw_inputMint :: string
  sw_outputMint :: string
  sw_inputAmount :: string
  sw_outputAmount :: string
  sw_inputDecimals :: nat
  sw_outputDecimals :: nat
  sw_inputAmountRaw :: string
  sw_inputPreBalanceRaw :: string

definition no_sides :: swap_sides where
  "no_sides = \<lparr>sw_inputMint = '''', sw_outputMint = '''', sw_inputAmount = ''0'', sw_outputAmount = ''0'',
     sw_inputDecimals = 9, sw_outputDecimals = 9, sw_inputAmountRaw = ''0'', sw_inputPreBalanceRaw = ''0''\<rparr>"

definition TOKEN_EPS :: js_num where "TOKEN_EPS = to_num (1 / 10 ^ 6)"
definition SOL_EPS :: js_num where "SOL_EPS = to_num (1 / 100)"

definition SOL_MINT :: string where
  "SOL_MINT = ''So11111111111111111111111111111111111111112''"

definition pick_side :: "string \<times> balance_change \<Rightarrow> swap_sides \<Rightarrow> swap_sides result" where
  "pick_side = (\<lambda>(m, c) s.
     (let diff = num_sub (bc_post c) (bc_pre c)
      in if num_lt diff (num_neg TOKEN_EPS) then
           bind_result (toFixed (num_abs diff) (bc_decimals c)) (\<lambda>amt.
           bind_result (BigInt_of (bc_preRaw c)) (\<lambda>pr.
           bind_result (BigInt_of (bc_postRaw c)) (\<lambda>po.
             (let rawDiff = pr - po
              in Inr (s\<lparr>sw_inputMint := m, sw_inputAmount := amt, sw_inputDecimals := bc_decimals c,
                        sw_inputPreBalanceRaw := bc_preRaw c,
                        sw_inputAmountRaw := show_int (if rawDiff > 0 then rawDiff else - rawDiff)\<rparr>)))))
         else if num_lt TOKEN_EPS diff then
           bind_result (toFixed diff (bc_decimals c)) (\<lambda>amt.
             Inr (s\<lparr>sw_outputMint := m, sw_outputAmount := amt, sw_outputDecimals := bc_decimals c\<rparr>))
         else Inr s))"

fun pick_sides :: "(string, balance_change) jsmap \<Rightarrow> swap_sides \<Rightarrow> swap_sides result" where
  "pick_sides [] s = Inr s"
| "pick_sides (x # xs) s = bind_result (pick_side x s) (pick_sides xs)"

definition number_at :: "js_num list \<Rightarrow> nat \<Rightarrow> js_num" where
  "number_at xs i = (if i < length xs then xs ! i else NaN)"

fun index_of :: "'a \<Rightarrow> 'a list \<Rightarrow> nat option" where
  "index_of x [] = None"
| "index_of x (y # ys) = (if y = x then Some 0 else map_option Suc (index_of x ys))"

definition txFee :: "ParsedTx \<Rightarrow> js_num" where
  "txFee tx = num_div (case tx_meta tx of
       Some m \<Rightarrow> if fee m = Num 0 \<or> fee m = NaN then Num 5000 else fee m
     | None \<Rightarrow> Num 5000) (10 ^ 9)"

definition sol_side :: "ParsedTx \<Rightarrow> pubkey \<Rightarrow> swap_sides \<Rightarrow> swap_sides result" where
  "sol_side tx target s =
     (case (Option.bind (tx_meta tx) preBalances, Option.bind (tx_meta tx) postBalances,
            index_of target (accountKeys tx)) of
        (Some solPre, Some solPost, Some targetIdx) \<Rightarrow>
          (let solDiff = num_div (num_sub (number_at solPost targetIdx) (number_at solPre targetIdx)) (10 ^ 9);
               feeAdj = (if targetIdx = 0 then txFee tx else Num 0)
           in if num_lt solDiff (num_neg SOL_EPS) \<and> sw_inputMint s = [] then
                bind_result (toFixed (num_abs (num_add solDiff feeAdj)) 9) (\<lambda>amt.
                  Inr (s\<lparr>sw_inputMint := SOL_MINT, sw_inputAmount := amt, sw_inputDecimals := 9\<rparr>))
              else if num_lt SOL_EPS solDiff \<and> sw_outputMint s = [] then
                bind_result (toFixed solDiff 9) (\<lambda>amt.
                  Inr (s\<lparr>sw_outputMint := SOL_MINT, sw_outputAmount := amt, sw_outputDecimals := 9\<rparr>))
              else Inr s)
      | _ \<Rightarrow> Inr s)"

definition swap_event :: "swap_sides \<Rightarrow> ParsedEvent option" where
  "swap_event s =
     (if sw_inputMint s \<noteq> [] \<and> sw_outputMint s \<noteq> [] then
        if sw_inputMint s = SOL_MINT \<and> sw_outputMint s = SOL_MINT then None
        else if (sw_inputDecimals s = 0 \<and> num_le (parseFloat (sw_inputAmount s)) (Num 1)) \<or>
                (sw_outputDecimals s = 0 \<and> num_le (parseFloat (sw_outputAmount s)) (Num 1)) then None
        else Some (JUPITER_SWAP (sw_inputMint s) (sw_outputMint s) (sw_inputAmount s) (sw_outputAmount s)
               (sw_inputDecimals s) (sw_outputDecimals s) (sw_inputAmountRaw s) (sw_inputPreBalanceRaw s))
      else None)"

definition parseJupiterSwap :: "ParsedTx \<Rightarrow> pubkey \<Rightarrow> ParsedEvent option result" where
  "parseJupiterSwap tx target =
     bind_result (pick_sides (balance_changes tx target) no_sides) (\<lambda>s.
     bind_result (sol_side tx target s) (\<lambda>s'. Inr (swap_event s')))"

section \<open>Lemmas\<close>

lemma fold_add_pre_keys: "js_keys_ok m \<Longrightarrow> js_keys_ok (fold (add_pre target) bs m)"
  by (induction bs arbitrary: m) (auto simp: add_pre_def)

lemma fold_add_post_keys: "js_keys_ok m \<Longrightarrow> js_keys_ok (fold (add_post target) bs m)"
  by (induction bs arbitrary: m) (auto simp: add_post_def Let_def)

lemma balance_changes_keys: "js_keys_ok (balance_changes tx target)"
  by (simp add: balance_changes_def fold_add_pre_keys fold_add_post_keys)

text \<open>Whose balances the map holds: a change of a mint comes from balances the target owns.\<close>

definition owned_in :: "pubkey \<Rightarrow> TokenBalance list \<Rightarrow> string set" where
  "owned_in target bs = {mint b | b. b \<in> set bs \<and> owner b = Some target \<and> mint b \<noteq> []}"

definition owned_mints :: "ParsedTx \<Rightarrow> pubkey \<Rightarrow> string set" where
  "owned_mints tx target = owned_in target (pre_tokens tx) \<union> owned_in target (post_tokens tx)"

lemma owned_in_Cons:
  "owned_in target (b # bs) = (if owner b = Some target \<and> mint b \<noteq> [] then {mint b} else {}) \<union> owned_in target bs"
  by (auto simp: owned_in_def)

lemma fold_add_pre_dom:
  "fst ` set (fold (add_pre target) bs m) \<subseteq> fst ` set m \<union> owned_in target bs"
proof (induction bs arbitrary: m)
  case (Cons b bs)
  have "fst ` set (add_pre target b m) \<subseteq>
      fst ` set m \<union> (if owner b = Some target \<and> mint b \<noteq> [] then {mint b} else {})"
    by (auto simp: add_pre_def Let_def dom_update simp flip: dom_map_of_conv_image_fst)
  with Cons.IH [of "add_pre target b m"] show ?case unfolding owned_in_Cons fold_simps by blast
qed simp

lemma fold_add_post_dom:
  "fst ` set (fold (add_post target) bs m) \<subseteq> fst ` set m \<union> owned_in target bs"
proof (induction bs arbitrary: m)
  case (Cons b bs)
  have "fst ` set (add_post target b m) \<subseteq>
      fst ` set m \<union> (if owner b = Some target \<and> mint b \<noteq> [] then {mint b} else {})"
    by (auto simp: add_post_def Let_def dom_update simp flip: dom_map_of_conv_image_fst)
  with Cons.IH [of "add_post target b m"] show ?case unfolding owned_in_Cons fold_simps by blast
qed simp

lemma balance_changes_dom: "fst ` set (balance_changes tx target) \<subseteq> owned_mints tx target"
proof -
  have "fst ` set (fold (add_pre target) (pre_tokens tx) []) \<subseteq> owned_in target (pre_tokens tx)"
    using fold_add_pre_dom [of target "pre_tokens tx" "[]"] by simp
  then show ?thesis
    unfolding balance_changes_def owned_mints_def
    by (rule order_trans [OF fold_add_post_dom Un_mono [OF _ order_refl]])
qed

text \<open>What the loop over the changes leaves: each side is empty or one of the mints seen, never the same one twice.\<close>

definition sides_ok :: "string set \<Rightarrow> swap_sides \<Rightarrow> bool" where
  "sides_ok M s \<longleftrightarrow>
     (sw_inputMint s = [] \<or> sw_inputMint s \<in> M) \<and> (sw_outputMint s = [] \<or> sw_outputMint s \<in> M) \<and>
     (sw_inputMint s = sw_outputMint s \<longrightarrow> sw_inputMint s = [])"

lemma sides_ok_mono: "sides_ok M s \<Longrightarrow> M \<subseteq> N \<Longrightarrow> sides_ok N s"
  by (auto simp: sides_ok_def)

lemma pick_side_cases:
  assumes "pick_side (m, c) s = Inr s'"
  shows "s' = s \<or> (sw_inputMint s' = m \<and> sw_outputMint s' = sw_outputMint s) \<or>
    (sw_outputMint s' = m \<and> sw_inputMint s' = sw_inputMint s)"
proof -
  let ?d = "num_sub (bc_post c) (bc_pre c)"
  consider "num_lt ?d (num_neg TOKEN_EPS)" | "\<not> num_lt ?d (num_neg TOKEN_EPS)" "num_lt TOKEN_EPS ?d"
    | "\<not> num_lt ?d (num_neg TOKEN_EPS)" "\<not> num_lt TOKEN_EPS ?d" by blast
  then show ?thesis
  proof cases
    case 1
    with assms show ?thesis by (auto simp: pick_side_def Let_def bind_result_eq_Inr_iff)
  next
    case 2
    with assms show ?thesis by (auto simp: pick_side_def Let_def bind_result_eq_Inr_iff)
  next
    case 3
    with assms show ?thesis by (simp add: pick_side_def Let_def)
  qed
qed

lemma pick_side_ok:
  assumes "sides_ok M s" and "m \<notin> M" and "m \<noteq> []" and "pick_side (m, c) s = Inr s'"
  shows "sides_ok (insert m M) s'"
  using pick_side_cases [OF assms(4)] assms(1-3)
  by (elim disjE) (simp_all add: sides_ok_def, blast+)

lemma pick_sides_ok:
  assumes "sides_ok M s" and "distinct (map fst cs)" and "fst ` set cs \<inter> M = {}" and "[] \<notin> fst ` set cs"
    and "pick_sides cs s = Inr s'"
  shows "sides_ok (M \<union> fst ` set cs) s'"
  using assms
proof (induction cs arbitrary: M s)
  case (Cons x cs)
  obtain m c where x: "x = (m, c)" by fastforce
  from Cons.prems(5) obtain t where t: "pick_side (m, c) s = Inr t" "pick_sides cs t = Inr s'"
    by (auto simp: x bind_result_eq_Inr_iff)
  have "sides_ok (insert m M) t"
    using Cons.prems t(1) by (intro pick_side_ok) (auto simp: x)
  then have "sides_ok (insert m M \<union> fst ` set cs) s'"
    using Cons.prems t(2) by (intro Cons.IH) (auto simp: x)
  then show ?case by (simp add: x)
qed simp

lemma parse_sides_ok:
  assumes "pick_sides (balance_changes tx target) no_sides = Inr s"
  shows "sides_ok (owned_mints tx target) s"
proof -
  have "[] \<notin> fst ` set (balance_changes tx target)"
    using balance_changes_dom [of tx target] by (auto simp: owned_mints_def owned_in_def)
  then have "sides_ok ({} \<union> fst ` set (balance_changes tx target)) s"
    using assms balance_changes_keys [of tx target]
    by (intro pick_sides_ok [of _ no_sides]) (auto simp: sides_ok_def no_sides_def js_keys_ok_def)
  then show ?thesis using sides_ok_mono balance_changes_dom by simp
qed

lemma sol_side_cases:
  assumes "sol_side tx target s = Inr s'"
  shows "s' = s \<or>
    (sw_inputMint s = [] \<and> sw_inputMint s' = SOL_MINT \<and> sw_outputMint s' = sw_outputMint s) \<or>
    (sw_outputMint s = [] \<and> sw_outputMint s' = SOL_MINT \<and> sw_inputMint s' = sw_inputMint s)"
  using assms
  by (auto simp: sol_side_def Let_def bind_result_eq_Inr_iff split: option.splits if_splits)

section \<open>Properties\<close>

text \<open>
  What a swap event is. A recognised swap has two different, non-empty mints; each is a mint of
  which the target owns a token balance in this transaction, or SOL itself. In particular a wrap or
  unwrap of SOL is never reported as a swap.
\<close>

theorem swap_mints_distinct:
  assumes "parseJupiterSwap tx target = Inr (Some ev)"
  shows "inputMint ev \<noteq> outputMint ev \<and>
         {inputMint ev, outputMint ev} \<subseteq> insert SOL_MINT (owned_mints tx target) \<and>
         inputMint ev \<noteq> [] \<and> outputMint ev \<noteq> []"
proof -
  from assms obtain s s' where s: "pick_sides (balance_changes tx target) no_sides = Inr s"
    and s': "sol_side tx target s = Inr s'" and ev: "swap_event s' = Some ev"
    by (auto simp: parseJupiterSwap_def bind_result_eq_Inr_iff)
  have m: "inputMint ev = sw_inputMint s'" "outputMint ev = sw_outputMint s'"
    "sw_inputMint s' \<noteq> []" "sw_outputMint s' \<noteq> []"
    "\<not> (sw_inputMint s' = SOL_MINT \<and> sw_outputMint s' = SOL_MINT)"
    using ev by (auto simp: swap_event_def split: if_splits)
  from parse_sides_ok [OF s] sol_side_cases [OF s'] m show ?thesis
    by (auto simp: sides_ok_def)
qed

lemma two_legs:
  assumes cs: "balance_changes tx target = [(a, ca), (b, cb)] \<or> balance_changes tx target = [(b, cb), (a, ca)]"
    and down: "num_lt (num_sub (bc_post ca) (bc_pre ca)) (num_neg TOKEN_EPS)"
    and up: "num_lt TOKEN_EPS (num_sub (bc_post cb) (bc_pre cb))"
      "\<not> num_lt (num_sub (bc_post cb) (bc_pre cb)) (num_neg TOKEN_EPS)"
    and dec: "bc_decimals ca \<in> {1..100}" "bc_decimals cb \<in> {1..100}"
    and raw: "bc_preRaw ca = show_nat p" "bc_postRaw ca = show_nat q"
  shows "\<exists>x y. parseJupiterSwap tx target =
     Inr (Some (JUPITER_SWAP a b x y (bc_decimals ca) (bc_decimals cb) (show_int \<bar>int p - int q\<bar>) (show_nat p)))"
proof -
  have ne: "a \<noteq> []" "b \<noteq> []" and d: "a \<noteq> b"
    using cs balance_changes_dom [of tx target] balance_changes_keys [of tx target]
    by (auto simp: owned_mints_def owned_in_def js_keys_ok_def)
  obtain x where x: "toFixed (num_abs (num_sub (bc_post ca) (bc_pre ca))) (bc_decimals ca) = Inr x"
    using dec(1) toFixed_defined by (metis atLeastAtMost_iff)
  obtain y where y: "toFixed (num_sub (bc_post cb) (bc_pre cb)) (bc_decimals cb) = Inr y"
    using dec(2) toFixed_defined by (metis atLeastAtMost_iff)
  define s where "s = \<lparr>sw_inputMint = a, sw_outputMint = b, sw_inputAmount = x, sw_outputAmount = y,
     sw_inputDecimals = bc_decimals ca, sw_outputDecimals = bc_decimals cb,
     sw_inputAmountRaw = show_int \<bar>int p - int q\<bar>, sw_inputPreBalanceRaw = show_nat p\<rparr>"
  have "pick_sides (balance_changes tx target) no_sides = Inr s"
    using cs
    by (elim disjE) (auto simp: pick_side_def down up x y raw BigInt_show_nat no_sides_def s_def Let_def abs_if)
  moreover have "sol_side tx target s = Inr s"
    using ne by (auto simp: sol_side_def s_def Let_def split: option.splits)
  moreover have "swap_event s = Some (JUPITER_SWAP a b x y (bc_decimals ca) (bc_decimals cb)
      (show_int \<bar>int p - int q\<bar>) (show_nat p))"
    using ne d dec by (auto simp: swap_event_def s_def)
  ultimately show ?thesis by (auto simp: parseJupiterSwap_def)
qed

text \<open>
  A swap of two tokens is recognised. When exactly two of the target's token balances changed, one
  fell and one rose by more than the threshold, both of fungible tokens (1 to 100 decimals), and
  the falling one went from \<open>p\<close> to \<open>q\<close> raw units, the parser reports a swap of the first mint into the
  second, whatever order the balances come in, with \<open>p - q\<close> as the raw input amount and \<open>p\<close> as the
  balance before.
\<close>

theorem token_swap_recognised:
  assumes "balance_changes tx target = [(a, ca), (b, cb)] \<or> balance_changes tx target = [(b, cb), (a, ca)]"
    and "num_lt (num_sub (bc_post ca) (bc_pre ca)) (num_neg TOKEN_EPS)"
    and "num_lt TOKEN_EPS (num_sub (bc_post cb) (bc_pre cb))"
    and "\<not> num_lt (num_sub (bc_post cb) (bc_pre cb)) (num_neg TOKEN_EPS)"
    and "bc_decimals ca \<in> {1..100}" and "bc_decimals cb \<in> {1..100}"
    and "bc_preRaw ca = show_nat p" and "bc_postRaw ca = show_nat q" and "q \<le> p"
  shows "\<exists>x y. parseJupiterSwap tx target =
     Inr (Some (JUPITER_SWAP a b x y (bc_decimals ca) (bc_decimals cb) (show_nat (p - q)) (show_nat p)))"
proof -
  have "show_int \<bar>int p - int q\<bar> = show_nat (p - q)"
    using assms(9) by (simp add: show_int_def nat_diff_distrib)
  then show ?thesis using two_legs [OF assms(1-8)] by simp
qed

text \<open>A swap of 10 A for 3 B, as the node reports it.\<close>

definition demo_balance :: "nat \<Rightarrow> string \<Rightarrow> nat \<Rightarrow> nat \<Rightarrow> TokenBalance" where
  "demo_balance i m units dec =
     \<lparr>accountIndex = i, mint = m, owner = Some ''target'',
      uiTokenAmount = \<lparr>amount = show_nat (units * 10 ^ dec), decimals = dec, uiAmount = None,
                       uiAmountString = Some (show_nat units)\<rparr>\<rparr>"

definition demo_swap_tx :: ParsedTx where
  "demo_swap_tx = \<lparr>tx_meta = Some \<lparr>meta_err = False, fee = Num 5000, preBalances = None, postBalances = None,
      preTokenBalances = Some [demo_balance 1 ''A'' 40 6], postTokenBalances = Some [demo_balance 1 ''A'' 30 6, demo_balance 2 ''B'' 3 9],
      innerInstructions = None\<rparr>, instructions = [], accountKeys = [''target'']\<rparr>"

lemma nat_of_digits_show [simp]: "nat_of_digits (show_nat n) = n"
  by (simp add: nat_of_digits_def digits_val_show_nat)

lemma takeWhile_digits_show [simp]: "takeWhile is_digit (show_nat n) = show_nat n"
  by (rule takeWhile_eq_all_conv [THEN iffD2]) (auto intro: show_nat_digits)

lemma parseFloat_show_nat:
  assumes "n < 2 ^ 53"
  shows "parseFloat (show_nat n) = Num (of_nat n)"
proof -
  obtain c r where s: "show_nat n = c # r" by (cases "show_nat n") auto
  have c: "is_digit c" using show_nat_digits [of c n] by (simp add: s)
  have e: "dropWhile is_digit (show_nat n) = []"
    by (simp add: dropWhile_eq_Nil_conv) (blast intro: show_nat_digits)
  have d: "decimal_prefix (show_nat n) = Some (of_nat n)"
    by (simp add: decimal_prefix_def e del: dropWhile_eq_Nil_conv)
  have "\<not> starts_with (show_nat n) ''Infinity''"
    using c by (auto simp: starts_with_def s is_digit_code)
  moreover have "dropWhile is_space (show_nat n) = show_nat n"
    using c by (simp add: s digit_not_space)
  moreover have "c \<noteq> CHR ''-''" "c \<noteq> CHR ''+''" using c by auto
  moreover have "to_num (of_nat n) = Num (of_nat n)"
    using to_num_int [of "int n"] assms by (simp add: of_nat_less_numeral_power_cancel_iff)
  ultimately show ?thesis using d by (simp add: parseFloat_def strip_sign_def s)
qed

lemma eps_num: obtains e where "TOKEN_EPS = Num e" "0 < e" "e < 1"
proof -
  have r: "round_rat (1 / 10 ^ 6) = of_int 4722366482869645 * pow2 (- 20 - 52)"
    by (rule round_rat_eval) simp_all
  have "TOKEN_EPS = Num (4722366482869645 / 2 ^ 72)"
    unfolding TOKEN_EPS_def by (subst to_num_small) (simp_all only: r, simp_all)
  then show ?thesis by (rule that) simp_all
qed

definition demo_A :: balance_change where
  "demo_A = \<lparr>bc_pre = Num 40, bc_post = Num 30, bc_decimals = 6, bc_preRaw = show_nat 40000000, bc_postRaw = show_nat 30000000\<rparr>"

definition demo_B :: balance_change where
  "demo_B = \<lparr>bc_pre = Num 0, bc_post = Num 3, bc_decimals = 9, bc_preRaw = ''0'', bc_postRaw = show_nat 3000000000\<rparr>"

lemma demo_changes: "balance_changes demo_swap_tx ''target'' = [(''A'', demo_A), (''B'', demo_B)]"
  by (simp add: balance_changes_def demo_swap_tx_def or_empty_def add_pre_def add_post_def demo_balance_def
      ui_number_def or_zero_def parseFloat_show_nat demo_A_def demo_B_def)

lemma demo_diffs:
  "num_lt (num_sub (bc_post demo_A) (bc_pre demo_A)) (num_neg TOKEN_EPS)"
  "num_lt TOKEN_EPS (num_sub (bc_post demo_B) (bc_pre demo_B))"
  "\<not> num_lt (num_sub (bc_post demo_B) (bc_pre demo_B)) (num_neg TOKEN_EPS)"
proof -
  obtain e where e: "TOKEN_EPS = Num e" "0 < e" "e < 1" by (rule eps_num)
  have n: "to_num (- 10) = Num (- 10)" "to_num 3 = Num 3"
    using to_num_int [of "- 10"] to_num_int [of 3] by simp_all
  show "num_lt (num_sub (bc_post demo_A) (bc_pre demo_A)) (num_neg TOKEN_EPS)"
    "num_lt TOKEN_EPS (num_sub (bc_post demo_B) (bc_pre demo_B))"
    "\<not> num_lt (num_sub (bc_post demo_B) (bc_pre demo_B)) (num_neg TOKEN_EPS)"
    using e(2,3) by (simp_all add: e(1) n num_sub_def demo_A_def demo_B_def)
qed

lemma demo_sides:
  "bc_decimals demo_A \<in> {1..100}" "bc_decimals demo_B \<in> {1..100}"
  "bc_preRaw demo_A = show_nat 40000000" "bc_postRaw demo_A = show_nat 30000000"
  by (simp_all add: demo_A_def demo_B_def)

theorem token_swap_recognised_witness:
  "\<exists>x y. parseJupiterSwap demo_swap_tx ''target'' =
     Inr (Some (JUPITER_SWAP ''A'' ''B'' x y (bc_decimals demo_A) (bc_decimals demo_B)
       (show_nat (40000000 - 30000000)) (show_nat 40000000)))"
  by (rule token_swap_recognised [OF disjI1 [OF demo_changes] demo_diffs demo_sides]) simp

theorem swap_mints_distinct_witness:
  "\<exists>ev. parseJupiterSwap demo_swap_tx ''target'' = Inr (Some ev) \<and> inputMint ev \<noteq> outputMint ev"
  using two_legs [OF disjI1 [OF demo_changes] demo_diffs demo_sides] swap_mints_distinct by blast

end
