(* ===== verification/Parser_Dex.thy ===== *)
theory Parser_Dex
  imports Parser_Data
begin

text \<open>
  The five DEX parsers of \<^verbatim>\<open>src/monitor/parser.ts\<close>: Byreal and PancakeSwap recognise operations by the
  \<^verbatim>\<open>Instruction:\<close> log lines of Anchor programs, Orca, Meteora DLMM and DAMM v2 by the discriminators of
  their instructions. All but Meteora DLMM identify positions by an NFT of the target; Meteora
  DLMM positions are accounts named in the instruction.
\<close>

section \<open>Byreal\<close>

definition some_log :: "string list \<Rightarrow> string \<Rightarrow> bool" where
  "some_log logs t \<longleftrightarrow> list_ex (\<lambda>l. str_includes l t) logs"

definition is_alnum :: "char \<Rightarrow> bool" where
  "is_alnum c \<longleftrightarrow> (let n = of_char c :: nat in (65 \<le> n \<and> n \<le> 90) \<or> (97 \<le> n \<and> n \<le> 122) \<or> (48 \<le> n \<and> n \<le> 57))"

definition MEMO_KEY :: string where "MEMO_KEY = ''referer_position=''"

text \<open>The leftmost match of \<^verbatim>\<open>/referer_position=([A-Za-z0-9]+)/\<close>, its group.\<close>

fun memo_match :: "string \<Rightarrow> string option" where
  "memo_match [] = None"
| "memo_match (c # s) =
     (let w = takeWhile is_alnum (drop (length MEMO_KEY) (c # s))
      in if starts_with (c # s) MEMO_KEY \<and> w \<noteq> [] then Some w else memo_match s)"

fun first_match :: "('a \<Rightarrow> 'b option) \<Rightarrow> 'a list \<Rightarrow> 'b option" where
  "first_match f [] = None"
| "first_match f (x # xs) = (case f x of Some y \<Rightarrow> Some y | None \<Rightarrow> first_match f xs)"

definition find_referer :: "bool \<Rightarrow> string list \<Rightarrow> string option" where
  "find_referer hasMemo logs = (if hasMemo then first_match memo_match logs else None)"

record raydium_flags =
  hasOpenPosition :: bool
  isToken22Position :: bool
  hasDecreaseLiquidity :: bool
  hasIncreaseLiquidity :: bool
  hasClosePosition :: bool

definition raydium_flags_of :: "string list \<Rightarrow> raydium_flags" where
  "raydium_flags_of logs =
     \<lparr>hasOpenPosition = list_ex (\<lambda>l. str_includes l ''Instruction: OpenPosition'' \<or>
                                     str_includes l ''Instruction: OpenPositionV2'' \<or>
                                     str_includes l ''Instruction: OpenPositionWithToken22Nft'') logs,
      isToken22Position = some_log logs ''Instruction: OpenPositionWithToken22Nft'',
      hasDecreaseLiquidity = list_ex (\<lambda>l. str_includes l ''Instruction: DecreaseLiquidity'' \<or>
                                          str_includes l ''Instruction: DecreaseLiquidityV2'') logs,
      hasIncreaseLiquidity = list_ex (\<lambda>l. str_includes l ''Instruction: IncreaseLiquidity'' \<or>
                                          str_includes l ''Instruction: IncreaseLiquidityV2'') logs,
      hasClosePosition = some_log logs ''Instruction: ClosePosition''\<rparr>"

definition findAllByrealInstructions :: "parser_config \<Rightarrow> ParsedTx \<Rightarrow> Instruction list" where
  "findAllByrealInstructions cfg tx = find_instructions (byrealProgramId cfg) tx"

text \<open>Pool and mint pair of a new position: from the instruction that names its NFT, else from the first one.\<close>

definition vault_mints :: "nat \<Rightarrow> nat \<Rightarrow> pubkey list \<Rightarrow> string option" where
  "vault_mints mintAIdx mintBIdx as =
     (if length as \<ge> mintBIdx + 1 then Some (as ! mintAIdx @ ''/'' @ as ! mintBIdx) else None)"

definition open_pool :: "bool \<Rightarrow> Instruction list \<Rightarrow> string \<Rightarrow> string \<times> string option" where
  "open_pool isToken22 ixs nft =
     (let poolStateIdx = (if isToken22 then 4 else 5); mintAIdx = (if isToken22 then 18 else 20);
          mintBIdx = (if isToken22 then 19 else 21); minAccounts = poolStateIdx + 1;
          (pid, pm) = (case find (\<lambda>ix. length (accounts ix) \<ge> minAccounts \<and> accounts ix ! 2 = nft) ixs of
             Some ix \<Rightarrow> (accounts ix ! poolStateIdx, vault_mints mintAIdx mintBIdx (accounts ix))
           | None \<Rightarrow> ('''', None))
      in if pid = [] \<and> ixs \<noteq> [] then
           (let as = accounts (hd ixs)
            in (if length as \<ge> minAccounts then as ! poolStateIdx else '''',
                if pm = None \<or> pm = Some [] then (case vault_mints mintAIdx mintBIdx as of Some x \<Rightarrow> Some x | None \<Rightarrow> pm)
                else pm))
         else (pid, pm))"

definition parseOpenPositions ::
  "parser_config \<Rightarrow> ParsedTx \<Rightarrow> string option \<Rightarrow> bool \<Rightarrow> pubkey \<Rightarrow> ParsedEvent list" where
  "parseOpenPositions cfg tx referer isToken22 target =
     map (\<lambda>nft. let (pid, pm) = open_pool isToken22 (findAllByrealInstructions cfg tx) nft
                in BYREAL_OPEN_POSITION pid 0 0 ''0'' referer ''0'' ''0'' nft pm)
       (findNewNftMintsFromTx tx target)"

definition parseIncreaseLiquidity :: "ParsedTx \<Rightarrow> pubkey \<Rightarrow> ParsedEvent list" where
  "parseIncreaseLiquidity tx target = held_event BYREAL_INCREASE_LIQUIDITY tx target"

text \<open>
  Close events for the burned NFTs; without any, and without a close instruction, one decrease of
  the NFT held. The event constructors are arguments: the four NFT based DEXes repeat this code.
\<close>

definition decrease_or_close ::
  "(string \<Rightarrow> received \<Rightarrow> ParsedEvent) \<Rightarrow> (string \<Rightarrow> ParsedEvent) \<Rightarrow> ParsedTx \<Rightarrow> bool \<Rightarrow> pubkey \<Rightarrow>
   ParsedEvent list result" where
  "decrease_or_close close_ev decrease_ev tx hasClose target =
     (let closedNfts = findClosedNftMintsFromTx tx target
      in bind_result (parseBotReceivedTokens tx target) (\<lambda>received.
           Inr (map (\<lambda>nft. close_ev nft received) closedNfts @
                (if closedNfts = [] \<and> \<not> hasClose then held_event decrease_ev tx target else []))))"

definition parseDecreaseOrClose :: "ParsedTx \<Rightarrow> bool \<Rightarrow> pubkey \<Rightarrow> ParsedEvent list result" where
  "parseDecreaseOrClose =
     decrease_or_close BYREAL_CLOSE_POSITION (\<lambda>nft. BYREAL_DECREASE_LIQUIDITY nft ''0'')"

definition parseByrealOperations ::
  "parser_config \<Rightarrow> ParsedTx \<Rightarrow> string list \<Rightarrow> bool \<Rightarrow> pubkey \<Rightarrow> ParsedEvent list result" where
  "parseByrealOperations cfg tx logs hasMemo target =
     (let fl = raydium_flags_of logs;
          opens = (if hasOpenPosition fl
                   then parseOpenPositions cfg tx (find_referer hasMemo logs) (isToken22Position fl) target else []);
          incs = (if hasIncreaseLiquidity fl \<and> \<not> hasOpenPosition fl then parseIncreaseLiquidity tx target else [])
      in bind_result
           (if (hasDecreaseLiquidity fl \<and> \<not> hasOpenPosition fl) \<or> hasClosePosition fl
            then parseDecreaseOrClose tx (hasClosePosition fl) target else Inr [])
           (\<lambda>closes. Inr (opens @ incs @ closes)))"

section \<open>Orca Whirlpool\<close>

definition findAllOrcaInstructions :: "parser_config \<Rightarrow> ParsedTx \<Rightarrow> Instruction list" where
  "findAllOrcaInstructions cfg tx = find_instructions (orcaProgramId cfg) tx"

datatype dex_op = OpenOp | CloseOp | IncreaseOp | DecreaseOp | FeesOp | RebalanceOp

definition orca_class :: "string \<Rightarrow> dex_op option" where
  "orca_class name =
     (if starts_with name ''open_position'' then Some OpenOp
      else if name = ''close_position'' then Some CloseOp
      else if starts_with name ''increase_liquidity'' then Some IncreaseOp
      else if starts_with name ''decrease_liquidity'' then Some DecreaseOp
      else if starts_with name ''collect_fees'' then Some FeesOp
      else None)"

text \<open>The name of an instruction in a discriminator table, and whether some instruction has a class.\<close>

definition ix_name :: "(string, string) jsmap \<Rightarrow> bs58_decoder \<Rightarrow> Instruction \<Rightarrow> string option" where
  "ix_name table bs58 ix = map_of table (getIxDiscriminator bs58 (ix_data ix))"

definition has_op ::
  "(string, string) jsmap \<Rightarrow> (string \<Rightarrow> dex_op option) \<Rightarrow> bs58_decoder \<Rightarrow> Instruction list \<Rightarrow> dex_op \<Rightarrow> bool" where
  "has_op table cls bs58 ixs op \<longleftrightarrow>
     list_ex (\<lambda>ix. Option.bind (ix_name table bs58 ix) cls = Some op) ixs"

definition orca_pool :: "Instruction list \<Rightarrow> string \<Rightarrow> string" where
  "orca_pool ixs nft =
     (let POOL_IDX = 5; NFT_MINT_IDX = 3;
          pa = (case find (\<lambda>ix. length (accounts ix) > POOL_IDX \<and> accounts ix ! NFT_MINT_IDX = nft) ixs of
             Some ix \<Rightarrow> accounts ix ! POOL_IDX | None \<Rightarrow> '''')
      in if pa = [] \<and> ixs \<noteq> [] \<and> length (accounts (hd ixs)) > POOL_IDX then accounts (hd ixs) ! POOL_IDX else pa)"

definition parseOrcaOpenPositions :: "parser_config \<Rightarrow> ParsedTx \<Rightarrow> pubkey \<Rightarrow> ParsedEvent list" where
  "parseOrcaOpenPositions cfg tx target =
     map (\<lambda>nft. ORCA_OPEN_POSITION (orca_pool (findAllOrcaInstructions cfg tx) nft) 0 0 nft None)
       (findNewNftMintsFromTx tx target)"

definition parseOrcaIncreaseLiquidity :: "ParsedTx \<Rightarrow> pubkey \<Rightarrow> ParsedEvent list" where
  "parseOrcaIncreaseLiquidity tx target = held_event ORCA_INCREASE_LIQUIDITY tx target"

definition parseOrcaDecreaseOrClose :: "ParsedTx \<Rightarrow> bool \<Rightarrow> pubkey \<Rightarrow> ParsedEvent list result" where
  "parseOrcaDecreaseOrClose = decrease_or_close ORCA_CLOSE_POSITION ORCA_DECREASE_LIQUIDITY"

definition parseOrcaOperations ::
  "bs58_decoder \<Rightarrow> parser_config \<Rightarrow> ParsedTx \<Rightarrow> pubkey \<Rightarrow> ParsedEvent list result" where
  "parseOrcaOperations bs58 cfg tx target =
     (let has = has_op ORCA_IX_DISC orca_class bs58 (findAllOrcaInstructions cfg tx);
          opens = (if has OpenOp then parseOrcaOpenPositions cfg tx target else []);
          incs = (if has IncreaseOp \<and> \<not> has OpenOp then parseOrcaIncreaseLiquidity tx target else [])
      in bind_result
           (if (has DecreaseOp \<and> \<not> has OpenOp) \<or> has CloseOp
            then parseOrcaDecreaseOrClose tx (has CloseOp) target else Inr [])
           (\<lambda>closes. bind_result
              (if has FeesOp \<and> \<not> has DecreaseOp \<and> \<not> has CloseOp \<and> \<not> has OpenOp \<and> \<not> has IncreaseOp
               then parseOrcaDecreaseOrClose tx False target else Inr [])
              (\<lambda>fees. Inr (opens @ incs @ closes @ fees))))"

section \<open>Meteora DLMM\<close>

definition findAllMeteoraInstructions :: "parser_config \<Rightarrow> ParsedTx \<Rightarrow> Instruction list" where
  "findAllMeteoraInstructions cfg tx = find_instructions (meteoraProgramId cfg) tx"

definition meteora_class :: "string \<Rightarrow> dex_op option" where
  "meteora_class name =
     (if starts_with name ''initialize_position'' then Some OpenOp
      else if starts_with name ''close_position'' then Some CloseOp
      else if starts_with name ''add_liquidity'' then Some IncreaseOp
      else if starts_with name ''remove_liquidity'' \<or> name = ''remove_all_liquidity'' then Some DecreaseOp
      else if starts_with name ''claim_fee'' then Some FeesOp
      else if name = ''rebalance_liquidity'' then Some RebalanceOp
      else None)"

definition readInt32LE :: "byte list \<Rightarrow> nat \<Rightarrow> int" where
  "readInt32LE bs i =
     (let n = int (bs ! i + 256 * bs ! (i + 1) + 65536 * bs ! (i + 2) + 16777216 * bs ! (i + 3))
      in if n \<ge> 2 ^ 31 then n - 2 ^ 32 else n)"

definition bin_range :: "bs58_decoder \<Rightarrow> string option \<Rightarrow> int \<times> int" where
  "bin_range bs58 data =
     (case Option.bind data bs58 of
        Some bytes \<Rightarrow> if length bytes \<ge> 16 then (readInt32LE bytes 8, readInt32LE bytes 12) else (0, 0)
      | None \<Rightarrow> (0, 0))"

definition meteora_open_event :: "bs58_decoder \<Rightarrow> pubkey \<Rightarrow> Instruction \<Rightarrow> ParsedEvent option" where
  "meteora_open_event bs58 target ix =
     (case ix_name METEORA_IX_DISC bs58 ix of
        None \<Rightarrow> None
      | Some name \<Rightarrow>
          if \<not> starts_with name ''initialize_position'' then None
          else (let as = accounts ix;
                    (positionIdx, poolIdx) = (if name = ''initialize_position_pda'' then (2, 3) else (1, 2))
                in if length as \<le> max positionIdx poolIdx then None
                   else if as ! 0 \<noteq> target then None
                   else (let (lo, w) = bin_range bs58 (ix_data ix)
                         in Some (METEORA_OPEN_POSITION (as ! poolIdx) lo w (as ! positionIdx)))))"

definition parseMeteoraOpenPositions :: "bs58_decoder \<Rightarrow> Instruction list \<Rightarrow> pubkey \<Rightarrow> ParsedEvent list" where
  "parseMeteoraOpenPositions bs58 ixs target = List.map_filter (meteora_open_event bs58 target) ixs"

text \<open>
  The position an instruction of one class names, when the target is its sender: the account
  indices of position and sender depend on the class.
\<close>

definition sent_position ::
  "bs58_decoder \<Rightarrow> dex_op \<Rightarrow> nat \<Rightarrow> nat \<Rightarrow> pubkey \<Rightarrow> Instruction \<Rightarrow> string option" where
  "sent_position bs58 op positionIdx senderIdx target ix =
     (if Option.bind (ix_name METEORA_IX_DISC bs58 ix) meteora_class \<noteq> Some op then None
      else if length (accounts ix) < 3 then None
      else if accounts ix ! senderIdx \<noteq> target then None
      else Some (accounts ix ! positionIdx))"

definition parseMeteoraAddLiquidity :: "bs58_decoder \<Rightarrow> Instruction list \<Rightarrow> pubkey \<Rightarrow> ParsedEvent list" where
  "parseMeteoraAddLiquidity bs58 ixs target =
     map METEORA_ADD_LIQUIDITY (new_set (List.map_filter (sent_position bs58 IncreaseOp 0 2 target) ixs))"

definition claim_position :: "bs58_decoder \<Rightarrow> pubkey \<Rightarrow> Instruction \<Rightarrow> string option" where
  "claim_position bs58 target ix =
     (if ix_name METEORA_IX_DISC bs58 ix = Some ''claim_fee2''
      then sent_position bs58 FeesOp 1 2 target ix else sent_position bs58 FeesOp 0 2 target ix)"

definition parseMeteoraRemoveOrClose ::
  "bs58_decoder \<Rightarrow> ParsedTx \<Rightarrow> Instruction list \<Rightarrow> pubkey \<Rightarrow> ParsedEvent list result" where
  "parseMeteoraRemoveOrClose bs58 tx ixs target =
     (let closedPositions = new_set (List.map_filter (sent_position bs58 CloseOp 0 1 target) ixs);
          removed = new_set (List.map_filter (sent_position bs58 DecreaseOp 0 2 target) ixs)
      in if closedPositions \<noteq> [] then
           bind_result (parseBotReceivedTokens tx target) (\<lambda>received.
             Inr (map (\<lambda>p. METEORA_CLOSE_POSITION p received) closedPositions))
         else if removed \<noteq> [] then Inr (map METEORA_REMOVE_LIQUIDITY removed)
         else Inr (case first_match (claim_position bs58 target) ixs of
                Some p \<Rightarrow> [METEORA_REMOVE_LIQUIDITY p] | None \<Rightarrow> []))"

definition parseMeteoraOperations ::
  "bs58_decoder \<Rightarrow> parser_config \<Rightarrow> ParsedTx \<Rightarrow> pubkey \<Rightarrow> ParsedEvent list result" where
  "parseMeteoraOperations bs58 cfg tx target =
     (let ixs = findAllMeteoraInstructions cfg tx;
          has = has_op METEORA_IX_DISC meteora_class bs58 ixs;
          opens = (if has OpenOp then parseMeteoraOpenPositions bs58 ixs target else []);
          adds = (if has IncreaseOp \<and> \<not> has OpenOp then parseMeteoraAddLiquidity bs58 ixs target else [])
      in bind_result
           (if (has DecreaseOp \<and> \<not> has OpenOp) \<or> has CloseOp
            then parseMeteoraRemoveOrClose bs58 tx ixs target else Inr [])
           (\<lambda>removes. bind_result
              (if has FeesOp \<and> \<not> has DecreaseOp \<and> \<not> has CloseOp \<and> \<not> has OpenOp \<and> \<not> has IncreaseOp
               then parseMeteoraRemoveOrClose bs58 tx ixs target else Inr [])
              (\<lambda>fees. Inr (opens @ adds @ removes @ fees))))"

section \<open>PancakeSwap CLMM\<close>

definition findAllPcsInstructions :: "parser_config \<Rightarrow> ParsedTx \<Rightarrow> Instruction list" where
  "findAllPcsInstructions cfg tx = find_instructions (pcsProgramId cfg) tx"

definition parsePcsOpenPositions ::
  "parser_config \<Rightarrow> ParsedTx \<Rightarrow> string option \<Rightarrow> bool \<Rightarrow> pubkey \<Rightarrow> ParsedEvent list" where
  "parsePcsOpenPositions cfg tx referer isToken22 target =
     map (\<lambda>nft. let (pid, pm) = open_pool isToken22 (findAllPcsInstructions cfg tx) nft
                in PCS_OPEN_POSITION pid 0 0 ''0'' referer ''0'' ''0'' nft pm)
       (findNewNftMintsFromTx tx target)"

definition parsePcsIncreaseLiquidity :: "ParsedTx \<Rightarrow> pubkey \<Rightarrow> ParsedEvent list" where
  "parsePcsIncreaseLiquidity tx target = held_event PCS_INCREASE_LIQUIDITY tx target"

definition parsePcsDecreaseOrClose :: "ParsedTx \<Rightarrow> bool \<Rightarrow> pubkey \<Rightarrow> ParsedEvent list result" where
  "parsePcsDecreaseOrClose =
     decrease_or_close PCS_CLOSE_POSITION (\<lambda>nft. PCS_DECREASE_LIQUIDITY nft ''0'')"

definition parsePcsOperations ::
  "parser_config \<Rightarrow> ParsedTx \<Rightarrow> string list \<Rightarrow> bool \<Rightarrow> pubkey \<Rightarrow> ParsedEvent list result" where
  "parsePcsOperations cfg tx logs hasMemo target =
     (let fl = raydium_flags_of logs;
          opens = (if hasOpenPosition fl
                   then parsePcsOpenPositions cfg tx (find_referer hasMemo logs) (isToken22Position fl) target else []);
          incs = (if hasIncreaseLiquidity fl \<and> \<not> hasOpenPosition fl then parsePcsIncreaseLiquidity tx target else [])
      in bind_result
           (if (hasDecreaseLiquidity fl \<and> \<not> hasOpenPosition fl) \<or> hasClosePosition fl
            then parsePcsDecreaseOrClose tx (hasClosePosition fl) target else Inr [])
           (\<lambda>closes. Inr (opens @ incs @ closes)))"

section \<open>Meteora DAMM v2\<close>

definition findAllDammv2Instructions :: "ParsedTx \<Rightarrow> Instruction list" where
  "findAllDammv2Instructions tx = find_instructions DAMMV2_PROGRAM_ID tx"

definition dammv2_class :: "string \<Rightarrow> dex_op option" where
  "dammv2_class name =
     (if name = ''create_position'' then Some OpenOp
      else if name = ''close_position'' then Some CloseOp
      else if name = ''add_liquidity'' then Some IncreaseOp
      else if name = ''remove_liquidity'' \<or> name = ''remove_all_liquidity'' then Some DecreaseOp
      else if name = ''claim_position_fee'' then Some FeesOp
      else None)"

definition dammv2_pool :: "bs58_decoder \<Rightarrow> Instruction list \<Rightarrow> string" where
  "dammv2_pool bs58 ixs =
     (case find (\<lambda>ix. ix_name DAMMV2_IX_DISC bs58 ix = Some ''create_position'' \<and> length (accounts ix) > 3) ixs of
        Some ix \<Rightarrow> accounts ix ! 3 | None \<Rightarrow> '''')"

definition parseDammv2OpenPositions ::
  "bs58_decoder \<Rightarrow> ParsedTx \<Rightarrow> Instruction list \<Rightarrow> pubkey \<Rightarrow> ParsedEvent list" where
  "parseDammv2OpenPositions bs58 tx ixs target =
     map (\<lambda>nft. DAMMV2_OPEN_POSITION (dammv2_pool bs58 ixs) nft) (findNewNftMintsFromTx tx target)"

definition parseDammv2AddLiquidity :: "ParsedTx \<Rightarrow> pubkey \<Rightarrow> ParsedEvent list" where
  "parseDammv2AddLiquidity tx target = held_event DAMMV2_ADD_LIQUIDITY tx target"

definition parseDammv2RemoveOrClose :: "ParsedTx \<Rightarrow> bool \<Rightarrow> pubkey \<Rightarrow> ParsedEvent list result" where
  "parseDammv2RemoveOrClose = decrease_or_close DAMMV2_CLOSE_POSITION DAMMV2_REMOVE_LIQUIDITY"

definition parseDammv2Operations ::
  "bs58_decoder \<Rightarrow> ParsedTx \<Rightarrow> pubkey \<Rightarrow> ParsedEvent list result" where
  "parseDammv2Operations bs58 tx target =
     (let ixs = findAllDammv2Instructions tx;
          has = has_op DAMMV2_IX_DISC dammv2_class bs58 ixs;
          opens = (if has OpenOp then parseDammv2OpenPositions bs58 tx ixs target else []);
          adds = (if has IncreaseOp \<and> \<not> has OpenOp then parseDammv2AddLiquidity tx target else [])
      in bind_result
           (if (has DecreaseOp \<and> \<not> has OpenOp) \<or> has CloseOp
            then parseDammv2RemoveOrClose tx (has CloseOp) target else Inr [])
           (\<lambda>closes. Inr (opens @ adds @ closes @
              (if has FeesOp \<and> \<not> has DecreaseOp \<and> \<not> has CloseOp \<and> \<not> has OpenOp \<and> \<not> has IncreaseOp
               then held_event DAMMV2_CLAIM_FEE tx target else []))))"

end
