(* ===== verification/Parser.thy ===== *)
theory Parser
  imports Parser_Swap Parser_Dex
begin

text \<open>
  \<^verbatim>\<open>parseTransaction\<close> of \<^verbatim>\<open>src/monitor/parser.ts\<close>, which puts the DEX parsers and the swap parser together,
  and the properties of the whole parser. The RPC connection is outside the program: the answers to
  the at most three requests are an argument. The waits between requests have no effect on the
  result.
\<close>

section \<open>The whole parser\<close>

datatype rpc_answer = Fetched ParsedTx | NotYet | RequestFailed

text \<open>\<^verbatim>\<open>for (let attempt = 0; attempt < 3; attempt++)\<close>\<close>

function fetch_from :: "(nat \<Rightarrow> rpc_answer) \<Rightarrow> nat \<Rightarrow> ParsedTx option" where
  "fetch_from rpc attempt =
     (if attempt < 3 then
        (case rpc attempt of Fetched tx \<Rightarrow> Some tx | NotYet \<Rightarrow> fetch_from rpc (attempt + 1)
           | RequestFailed \<Rightarrow> fetch_from rpc (attempt + 1))
      else None)"
  by auto
termination by (relation "measure (\<lambda>(_, attempt). 3 - attempt)") auto

declare fetch_from.simps [simp del]

record involved =
  involvesByreal :: bool
  involvesOrca :: bool
  involvesMeteora :: bool
  involvesPcs :: bool
  involvesDammv2 :: bool
  involvesMemo :: bool

definition involved_in :: "parser_config \<Rightarrow> string list \<Rightarrow> involved" where
  "involved_in cfg logs =
     \<lparr>involvesByreal = some_log logs (byrealProgramId cfg), involvesOrca = some_log logs (orcaProgramId cfg),
      involvesMeteora = some_log logs (meteoraProgramId cfg),
      involvesPcs = (pcsEnabled cfg \<and> some_log logs (pcsProgramId cfg)),
      involvesDammv2 = some_log logs DAMMV2_PROGRAM_ID, involvesMemo = some_log logs (memoProgramId cfg)\<rparr>"

definition SYSTEM_PROGRAM_SUCCESS :: string where
  "SYSTEM_PROGRAM_SUCCESS = ''Program 11111111111111111111111111111111 success''"

definition is_spam :: "involved \<Rightarrow> string list \<Rightarrow> bool" where
  "is_spam iv logs \<longleftrightarrow>
     \<not> involvesByreal iv \<and> \<not> involvesOrca iv \<and> \<not> involvesMeteora iv \<and> \<not> involvesPcs iv \<and>
     \<not> involvesDammv2 iv \<and>
     length (filter (\<lambda>l. l = SYSTEM_PROGRAM_SUCCESS) logs) \<ge> 5 \<and>
     \<not> some_log logs ''Program ComputeBudget111111111111111111111111111111 invoke''"

definition meta_failed :: "ParsedTx \<Rightarrow> bool" where
  "meta_failed tx \<longleftrightarrow> (case tx_meta tx of Some m \<Rightarrow> meta_err m | None \<Rightarrow> False)"

definition dex_events ::
  "bs58_decoder \<Rightarrow> parser_config \<Rightarrow> involved \<Rightarrow> ParsedTx \<Rightarrow> string list \<Rightarrow> pubkey \<Rightarrow> ParsedEvent list result" where
  "dex_events bs58 cfg iv tx logs target =
     bind_result (if involvesByreal iv then parseByrealOperations cfg tx logs (involvesMemo iv) target else Inr [])
     (\<lambda>byrealEvents.
     bind_result (if involvesOrca iv \<and> \<not> involvesByreal iv then parseOrcaOperations bs58 cfg tx target else Inr [])
     (\<lambda>orcaEvents.
     bind_result (if involvesMeteora iv \<and> \<not> involvesByreal iv \<and> \<not> involvesOrca iv
                  then parseMeteoraOperations bs58 cfg tx target else Inr [])
     (\<lambda>meteoraEvents.
     bind_result (if involvesPcs iv \<and> \<not> involvesByreal iv \<and> \<not> involvesOrca iv \<and> \<not> involvesMeteora iv
                  then parsePcsOperations cfg tx logs (involvesMemo iv) target else Inr [])
     (\<lambda>pcsEvents.
     bind_result (if involvesDammv2 iv \<and> \<not> involvesByreal iv \<and> \<not> involvesOrca iv
                  then parseDammv2Operations bs58 tx target else Inr [])
     (\<lambda>dammv2Events. Inr (byrealEvents @ orcaEvents @ meteoraEvents @ pcsEvents @ dammv2Events))))))"

definition parseTransaction ::
  "bs58_decoder \<Rightarrow> parser_config \<Rightarrow> (nat \<Rightarrow> rpc_answer) \<Rightarrow> string list \<Rightarrow> pubkey \<Rightarrow> ParsedEvent list result" where
  "parseTransaction bs58 cfg rpc logs target =
     (let iv = involved_in cfg logs
      in if is_spam iv logs then Inr [UNKNOWN]
         else (case fetch_from rpc 0 of
             None \<Rightarrow> Inr [UNKNOWN]
           | Some tx \<Rightarrow>
               if meta_failed tx then Inr [UNKNOWN]
               else bind_result (dex_events bs58 cfg iv tx logs target) (\<lambda>events.
                    bind_result (if \<not> involvesByreal iv \<and> events = []
                                 then bind_result (parseJupiterSwap tx target)
                                        (\<lambda>ev. Inr (case ev of Some e \<Rightarrow> [e] | None \<Rightarrow> []))
                                 else Inr events)
                    (\<lambda>events'. Inr (if length events' > 0 then events' else [UNKNOWN])))))"

section \<open>What an event may be about\<close>

text \<open>
  The specification: a position event of a transaction concerns a position of the target. For the
  NFT based DEXes, an opened position is an NFT that appears in an account the target owns, any
  other one an NFT the target held before, and for a close the NFT is burned. For Meteora DLMM the
  position and the target are named together in an instruction of the Meteora program.
\<close>

definition nft_opened :: "ParsedTx \<Rightarrow> pubkey \<Rightarrow> string \<Rightarrow> bool" where
  "nft_opened tx target nft \<longleftrightarrow>
     (\<exists>b \<in> set (post_tokens tx). mint b = nft \<and> owner b = Some target \<and> is_nft b \<and>
        (\<forall>p \<in> set (pre_tokens tx). \<not> same_account p b))"

definition nft_held :: "ParsedTx \<Rightarrow> pubkey \<Rightarrow> string \<Rightarrow> bool" where
  "nft_held tx target nft \<longleftrightarrow>
     (\<exists>b \<in> set (pre_tokens tx). mint b = nft \<and> owner b = Some target \<and> is_nft b)"

definition nft_burned :: "ParsedTx \<Rightarrow> pubkey \<Rightarrow> string \<Rightarrow> bool" where
  "nft_burned tx target nft \<longleftrightarrow>
     (\<exists>b \<in> set (pre_tokens tx). mint b = nft \<and> owner b = Some target \<and> is_nft b \<and>
        ((\<exists>p \<in> set (post_tokens tx). same_account p b) \<longrightarrow>
         (\<exists>p \<in> set (post_tokens tx). same_account p b \<and> uiAmount (uiTokenAmount p) = Some (Num 0))))"

lemma closed_nft_burned: "nft \<in> set (findClosedNftMintsFromTx tx target) \<Longrightarrow> nft_burned tx target nft"
proof -
  assume "nft \<in> set (findClosedNftMintsFromTx tx target)"
  then obtain b where b: "b \<in> set (pre_tokens tx)" "mint b = nft" "owner b = Some target" "is_nft b"
    and c: "case find (\<lambda>p. same_account p b) (post_tokens tx) of None \<Rightarrow> True
             | Some post \<Rightarrow> uiAmount (uiTokenAmount post) = Some (Num 0)"
    by (auto simp: findClosedNftMintsFromTx_def)
  have "\<exists>p \<in> set (post_tokens tx). same_account p b \<and> uiAmount (uiTokenAmount p) = Some (Num 0)"
    if "\<exists>p \<in> set (post_tokens tx). same_account p b"
  proof -
    from that obtain p where "find (\<lambda>p. same_account p b) (post_tokens tx) = Some p"
      by (cases "find (\<lambda>p. same_account p b) (post_tokens tx)") (auto simp: find_None_iff)
    with c show ?thesis using find_SomeD by fastforce
  qed
  with b show ?thesis by (auto simp: nft_burned_def)
qed

text \<open>An account whose balance after the transaction, where one is listed, is zero.\<close>

definition emptied :: "ParsedTx \<Rightarrow> TokenBalance \<Rightarrow> bool" where
  "emptied tx b \<longleftrightarrow>
     (\<forall>p \<in> set (post_tokens tx). same_account p b \<longrightarrow> uiAmount (uiTokenAmount p) = Some (Num 0))"

lemma emptied_nft_closed:
  assumes "b \<in> set (pre_tokens tx)" and "owner b = Some target" and "is_nft b" and "emptied tx b"
  shows "mint b \<in> set (findClosedNftMintsFromTx tx target)"
proof -
  have "uiAmount (uiTokenAmount p) = Some (Num 0)" if "find (\<lambda>p. same_account p b) (post_tokens tx) = Some p" for p
    using that assms(4) by (auto simp: emptied_def find_Some_iff)
  then show ?thesis using assms(1-3) by (auto simp: findClosedNftMintsFromTx_def split: option.splits)
qed

definition named_with :: "parser_config \<Rightarrow> ParsedTx \<Rightarrow> pubkey \<Rightarrow> string \<Rightarrow> bool" where
  "named_with cfg tx target p \<longleftrightarrow>
     (\<exists>ix \<in> set (findAllMeteoraInstructions cfg tx). p \<in> set (accounts ix) \<and> target \<in> set (accounts ix))"

fun about_target :: "parser_config \<Rightarrow> ParsedTx \<Rightarrow> pubkey \<Rightarrow> ParsedEvent \<Rightarrow> bool" where
  "about_target cfg tx t (BYREAL_OPEN_POSITION _ _ _ _ _ _ _ n _) = nft_opened tx t n"
| "about_target cfg tx t (PCS_OPEN_POSITION _ _ _ _ _ _ _ n _) = nft_opened tx t n"
| "about_target cfg tx t (ORCA_OPEN_POSITION _ _ _ n _) = nft_opened tx t n"
| "about_target cfg tx t (DAMMV2_OPEN_POSITION _ n) = nft_opened tx t n"
| "about_target cfg tx t (BYREAL_CLOSE_POSITION n _) = (nft_held tx t n \<and> nft_burned tx t n)"
| "about_target cfg tx t (PCS_CLOSE_POSITION n _) = (nft_held tx t n \<and> nft_burned tx t n)"
| "about_target cfg tx t (ORCA_CLOSE_POSITION n _) = (nft_held tx t n \<and> nft_burned tx t n)"
| "about_target cfg tx t (DAMMV2_CLOSE_POSITION n _) = (nft_held tx t n \<and> nft_burned tx t n)"
| "about_target cfg tx t (METEORA_OPEN_POSITION _ _ _ p) = named_with cfg tx t p"
| "about_target cfg tx t (METEORA_CLOSE_POSITION p _) = named_with cfg tx t p"
| "about_target cfg tx t (METEORA_ADD_LIQUIDITY p) = named_with cfg tx t p"
| "about_target cfg tx t (METEORA_REMOVE_LIQUIDITY p) = named_with cfg tx t p"
| "about_target cfg tx t UNKNOWN = True"
| "about_target cfg tx t (JUPITER_SWAP a b _ _ _ _ _ _) = ({a, b} \<subseteq> insert SOL_MINT (owned_mints tx t))"
| "about_target cfg tx t (BYREAL_INCREASE_LIQUIDITY n) = nft_held tx t n"
| "about_target cfg tx t (BYREAL_DECREASE_LIQUIDITY n _) = nft_held tx t n"
| "about_target cfg tx t (BYREAL_COLLECT_FEES n) = nft_held tx t n"
| "about_target cfg tx t (ORCA_INCREASE_LIQUIDITY n) = nft_held tx t n"
| "about_target cfg tx t (ORCA_DECREASE_LIQUIDITY n) = nft_held tx t n"
| "about_target cfg tx t (PCS_INCREASE_LIQUIDITY n) = nft_held tx t n"
| "about_target cfg tx t (PCS_DECREASE_LIQUIDITY n _) = nft_held tx t n"
| "about_target cfg tx t (PCS_COLLECT_FEES n) = nft_held tx t n"
| "about_target cfg tx t (DAMMV2_ADD_LIQUIDITY n) = nft_held tx t n"
| "about_target cfg tx t (DAMMV2_REMOVE_LIQUIDITY n) = nft_held tx t n"
| "about_target cfg tx t (DAMMV2_CLAIM_FEE n) = nft_held tx t n"

datatype event_dex = Byreal | Orca | Meteora | Pcs | Dammv2 | Swap | NoDex

fun dex_of :: "ParsedEvent \<Rightarrow> event_dex" where
  "dex_of (JUPITER_SWAP _ _ _ _ _ _ _ _) = Swap"
| "dex_of (BYREAL_OPEN_POSITION _ _ _ _ _ _ _ _ _) = Byreal"
| "dex_of (BYREAL_INCREASE_LIQUIDITY _) = Byreal"
| "dex_of (BYREAL_DECREASE_LIQUIDITY _ _) = Byreal"
| "dex_of (BYREAL_CLOSE_POSITION _ _) = Byreal"
| "dex_of (BYREAL_COLLECT_FEES _) = Byreal"
| "dex_of (ORCA_OPEN_POSITION _ _ _ _ _) = Orca"
| "dex_of (ORCA_CLOSE_POSITION _ _) = Orca"
| "dex_of (ORCA_INCREASE_LIQUIDITY _) = Orca"
| "dex_of (ORCA_DECREASE_LIQUIDITY _) = Orca"
| "dex_of (METEORA_OPEN_POSITION _ _ _ _) = Meteora"
| "dex_of (METEORA_CLOSE_POSITION _ _) = Meteora"
| "dex_of (METEORA_ADD_LIQUIDITY _) = Meteora"
| "dex_of (METEORA_REMOVE_LIQUIDITY _) = Meteora"
| "dex_of (PCS_OPEN_POSITION _ _ _ _ _ _ _ _ _) = Pcs"
| "dex_of (PCS_INCREASE_LIQUIDITY _) = Pcs"
| "dex_of (PCS_DECREASE_LIQUIDITY _ _) = Pcs"
| "dex_of (PCS_CLOSE_POSITION _ _) = Pcs"
| "dex_of (PCS_COLLECT_FEES _) = Pcs"
| "dex_of (DAMMV2_OPEN_POSITION _ _) = Dammv2"
| "dex_of (DAMMV2_CLOSE_POSITION _ _) = Dammv2"
| "dex_of (DAMMV2_ADD_LIQUIDITY _) = Dammv2"
| "dex_of (DAMMV2_REMOVE_LIQUIDITY _) = Dammv2"
| "dex_of (DAMMV2_CLAIM_FEE _) = Dammv2"
| "dex_of UNKNOWN = NoDex"

section \<open>Lemmas on the helpers\<close>

lemma new_nft_opened: "nft \<in> set (findNewNftMintsFromTx tx target) \<Longrightarrow> nft_opened tx target nft"
  by (auto simp: findNewNftMintsFromTx_def nft_opened_def list_ex_iff)

lemma closed_nft_held: "nft \<in> set (findClosedNftMintsFromTx tx target) \<Longrightarrow> nft_held tx target nft"
  by (auto simp: findClosedNftMintsFromTx_def nft_held_def)

lemma first_held_nft_held: "first_held_nft tx target = Some nft \<Longrightarrow> nft_held tx target nft"
  by (auto simp: first_held_nft_def nft_held_def find_Some_iff)

lemma held_eventD: "e \<in> set (held_event ev tx target) \<Longrightarrow> \<exists>n. e = ev n \<and> nft_held tx target n"
  by (auto simp: held_event_def first_held_nft_held split: option.splits)

lemma decrease_or_closeD:
  assumes "decrease_or_close cl de tx hc target = Inr es" and "e \<in> set es"
  shows "(\<exists>n r. e = cl n r \<and> nft_held tx target n \<and> nft_burned tx target n) \<or> (\<exists>n. e = de n \<and> nft_held tx target n)"
proof -
  from assms(1) obtain r where es: "es = map (\<lambda>nft. cl nft r) (findClosedNftMintsFromTx tx target) @
      (if findClosedNftMintsFromTx tx target = [] \<and> \<not> hc then held_event de tx target else [])"
    by (auto simp: decrease_or_close_def bind_result_eq_Inr_iff Let_def)
  from assms(2) consider n where "n \<in> set (findClosedNftMintsFromTx tx target)" "e = cl n r"
    | "e \<in> set (held_event de tx target)"
    by (auto simp: es split: if_splits)
  then show ?thesis
  proof cases
    case 1
    then show ?thesis using closed_nft_held closed_nft_burned by auto
  next
    case 2
    then show ?thesis by (blast dest: held_eventD)
  qed
qed

lemma sent_positionD:
  assumes "sent_position bs58 op i j target ix = Some p" and "i < 3" and "j < 3"
  shows "p \<in> set (accounts ix) \<and> target \<in> set (accounts ix)"
  using assms by (auto simp: sent_position_def split: if_splits)

lemma meteora_openD:
  assumes "meteora_open_event bs58 target ix = Some e"
  shows "\<exists>q lo w p. e = METEORA_OPEN_POSITION q lo w p \<and> p \<in> set (accounts ix) \<and> target \<in> set (accounts ix)"
  using assms
  by (auto simp: meteora_open_event_def Let_def nth_mem split: option.splits if_splits prod.splits
      intro!: nth_mem [of 0])

lemma first_matchD: "first_match f xs = Some y \<Longrightarrow> \<exists>x \<in> set xs. f x = Some y"
  by (induction xs) (auto split: option.splits)

lemma map_filterD: "y \<in> set (List.map_filter f xs) \<Longrightarrow> \<exists>x \<in> set xs. f x = Some y"
  by (force simp: List.map_filter_def)

section \<open>Lemmas on the DEX parsers\<close>

definition events_ok :: "parser_config \<Rightarrow> ParsedTx \<Rightarrow> pubkey \<Rightarrow> event_dex \<Rightarrow> ParsedEvent list \<Rightarrow> bool" where
  "events_ok cfg tx target d es \<longleftrightarrow> (\<forall>e \<in> set es. about_target cfg tx target e \<and> dex_of e = d)"

lemma events_ok_simps [simp]:
  "events_ok cfg tx target d []"
  "events_ok cfg tx target d (xs @ ys) \<longleftrightarrow> events_ok cfg tx target d xs \<and> events_ok cfg tx target d ys"
  by (auto simp: events_ok_def)

lemma held_event_ok:
  assumes "\<And>n. nft_held tx target n \<Longrightarrow> about_target cfg tx target (ev n)" and "\<And>n. dex_of (ev n) = d"
  shows "events_ok cfg tx target d (held_event ev tx target)"
  using assms by (auto simp: events_ok_def dest!: held_eventD)

lemma decrease_or_close_ok:
  assumes "decrease_or_close cl de tx hc target = Inr es"
    and "\<And>n r. nft_held tx target n \<Longrightarrow> nft_burned tx target n \<Longrightarrow> about_target cfg tx target (cl n r)"
    and "\<And>n. nft_held tx target n \<Longrightarrow> about_target cfg tx target (de n)"
    and "\<And>n r. dex_of (cl n r) = d" and "\<And>n. dex_of (de n) = d"
  shows "events_ok cfg tx target d es"
  unfolding events_ok_def
proof
  fix e assume "e \<in> set es"
  from decrease_or_closeD [OF assms(1) this] show "about_target cfg tx target e \<and> dex_of e = d"
    using assms(2-5) by auto
qed

lemma new_events_ok:
  assumes "\<And>n. nft_opened tx target n \<Longrightarrow> about_target cfg tx target (ev n) \<and> dex_of (ev n) = d"
  shows "events_ok cfg tx target d (map ev (findNewNftMintsFromTx tx target))"
  using assms new_nft_opened by (auto simp: events_ok_def)

lemma parseByreal_ok:
  assumes "parseByrealOperations cfg tx logs memo target = Inr es"
  shows "events_ok cfg tx target Byreal es"
  using assms
  by (auto simp: parseByrealOperations_def Let_def bind_result_eq_Inr_iff parseDecreaseOrClose_def
      parseOpenPositions_def parseIncreaseLiquidity_def
      intro!: new_events_ok held_event_ok split: if_splits prod.splits
      elim!: decrease_or_close_ok)

lemma parsePcs_ok:
  assumes "parsePcsOperations cfg tx logs memo target = Inr es"
  shows "events_ok cfg tx target Pcs es"
  using assms
  by (auto simp: parsePcsOperations_def Let_def bind_result_eq_Inr_iff parsePcsDecreaseOrClose_def
      parsePcsOpenPositions_def parsePcsIncreaseLiquidity_def
      intro!: new_events_ok held_event_ok split: if_splits prod.splits
      elim!: decrease_or_close_ok)

lemma parseOrca_ok:
  assumes "parseOrcaOperations bs58 cfg tx target = Inr es"
  shows "events_ok cfg tx target Orca es"
  using assms
  by (auto simp: parseOrcaOperations_def Let_def bind_result_eq_Inr_iff parseOrcaDecreaseOrClose_def
      parseOrcaOpenPositions_def parseOrcaIncreaseLiquidity_def
      intro!: new_events_ok held_event_ok split: if_splits
      elim!: decrease_or_close_ok)

lemma parseDammv2_ok:
  assumes "parseDammv2Operations bs58 tx target = Inr es"
  shows "events_ok cfg tx target Dammv2 es"
  using assms
  by (auto simp: parseDammv2Operations_def Let_def bind_result_eq_Inr_iff parseDammv2RemoveOrClose_def
      parseDammv2OpenPositions_def parseDammv2AddLiquidity_def
      intro!: new_events_ok held_event_ok split: if_splits
      elim!: decrease_or_close_ok)

lemma meteora_positions_ok:
  assumes "\<And>p. p \<in> set ps \<Longrightarrow> named_with cfg tx target p"
    and "\<And>p. about_target cfg tx target (ev p) = named_with cfg tx target p" and "\<And>p. dex_of (ev p) = d"
  shows "events_ok cfg tx target d (map ev ps)"
  using assms by (auto simp: events_ok_def)

lemma sent_positions_named:
  assumes "p \<in> set (List.map_filter (sent_position bs58 op i j target) (findAllMeteoraInstructions cfg tx))"
    and "i < 3" and "j < 3"
  shows "named_with cfg tx target p"
  using map_filterD [OF assms(1)] sent_positionD [OF _ assms(2,3)] unfolding named_with_def by blast

lemma claim_named:
  assumes "first_match (claim_position bs58 target) (findAllMeteoraInstructions cfg tx) = Some p"
  shows "named_with cfg tx target p"
proof -
  obtain ix where ix: "ix \<in> set (findAllMeteoraInstructions cfg tx)" "claim_position bs58 target ix = Some p"
    using first_matchD [OF assms] by blast
  have "p \<in> set (accounts ix) \<and> target \<in> set (accounts ix)"
  proof (cases "ix_name METEORA_IX_DISC bs58 ix = Some ''claim_fee2''")
    case True
    with ix(2) have "sent_position bs58 FeesOp 1 2 target ix = Some p" by (simp add: claim_position_def)
    then show ?thesis by (rule sent_positionD) simp_all
  next
    case False
    with ix(2) have "sent_position bs58 FeesOp 0 2 target ix = Some p" by (simp add: claim_position_def)
    then show ?thesis by (rule sent_positionD) simp_all
  qed
  with ix(1) show ?thesis by (auto simp: named_with_def)
qed

lemma parseMeteoraRemove_ok:
  assumes "parseMeteoraRemoveOrClose bs58 tx (findAllMeteoraInstructions cfg tx) target = Inr es"
  shows "events_ok cfg tx target Meteora es"
proof -
  let ?sent = "\<lambda>op i j. new_set (List.map_filter (sent_position bs58 op i j target) (findAllMeteoraInstructions cfg tx))"
  have n: "named_with cfg tx target p" if "p \<in> set (?sent op i j)" "i < 3" "j < 3" for p op i j
    using that by (auto intro: sent_positions_named)
  have c: "events_ok cfg tx target Meteora (map (\<lambda>p. METEORA_CLOSE_POSITION p r) (?sent CloseOp 0 1))" for r
    by (rule meteora_positions_ok) (auto intro: n [of _ _ 0 1] n [of _ _ 0 2])
  have d: "events_ok cfg tx target Meteora (map METEORA_REMOVE_LIQUIDITY (?sent DecreaseOp 0 2))"
    by (rule meteora_positions_ok) (auto intro: n [of _ _ 0 1] n [of _ _ 0 2])
  show ?thesis
    using assms c d
    by (auto simp: parseMeteoraRemoveOrClose_def Let_def bind_result_eq_Inr_iff events_ok_def claim_named
        split: if_splits option.splits)
qed

lemma parseMeteora_ok:
  assumes "parseMeteoraOperations bs58 cfg tx target = Inr es"
  shows "events_ok cfg tx target Meteora es"
proof -
  let ?ixs = "findAllMeteoraInstructions cfg tx"
  have "events_ok cfg tx target Meteora (parseMeteoraOpenPositions bs58 ?ixs target)"
    unfolding parseMeteoraOpenPositions_def events_ok_def
    by (auto dest!: map_filterD meteora_openD simp: named_with_def)
  moreover have "events_ok cfg tx target Meteora (parseMeteoraAddLiquidity bs58 ?ixs target)"
    unfolding parseMeteoraAddLiquidity_def
    by (rule meteora_positions_ok) (auto intro: sent_positions_named [of _ _ _ 0 2])
  ultimately show ?thesis using assms
    by (auto simp: parseMeteoraOperations_def Let_def bind_result_eq_Inr_iff dest: parseMeteoraRemove_ok
        split: if_splits)
qed

section \<open>Lemmas on the whole\<close>

lemma fetch_from_Some: "fetch_from rpc a = Some tx \<Longrightarrow> \<exists>b. b < 3 \<and> rpc b = Fetched tx"
proof (induction rpc a rule: fetch_from.induct)
  case (1 rpc a)
  then show ?case
    by (subst (asm) (2) fetch_from.simps) (auto split: if_splits rpc_answer.splits)
qed

lemma fetch_from_None: "(\<And>b tx. a \<le> b \<Longrightarrow> b < 3 \<Longrightarrow> rpc b \<noteq> Fetched tx) \<Longrightarrow> fetch_from rpc a = None"
proof (induction rpc a rule: fetch_from.induct)
  case (1 rpc a)
  show ?case
  proof (cases "a < 3")
    case True
    then have "fetch_from rpc (a + 1) = None" if "rpc a = NotYet \<or> rpc a = RequestFailed"
      using 1 that by auto
    then show ?thesis using True "1.prems" [of a] by (subst fetch_from.simps) (auto split: rpc_answer.splits)
  qed (simp add: fetch_from.simps)
qed

text \<open>Which DEXes a transaction that involves some programs can give events of.\<close>

definition allowed_dexes :: "involved \<Rightarrow> event_dex set" where
  "allowed_dexes iv =
     (if involvesByreal iv then {Byreal}
      else if involvesOrca iv then {Orca}
      else (if involvesDammv2 iv then {Dammv2} else {}) \<union>
           (if involvesMeteora iv then {Meteora} else if involvesPcs iv then {Pcs} else {}))"

lemma dex_events_ok:
  assumes "dex_events bs58 cfg iv tx logs target = Inr es" and "e \<in> set es"
  shows "about_target cfg tx target e \<and> dex_of e \<in> allowed_dexes iv"
proof -
  from assms obtain b o' m p d where es: "es = b @ o' @ m @ p @ d"
    and b: "(if involvesByreal iv then parseByrealOperations cfg tx logs (involvesMemo iv) target else Inr []) = Inr b"
    and o: "(if involvesOrca iv \<and> \<not> involvesByreal iv then parseOrcaOperations bs58 cfg tx target else Inr []) = Inr o'"
    and m: "(if involvesMeteora iv \<and> \<not> involvesByreal iv \<and> \<not> involvesOrca iv
             then parseMeteoraOperations bs58 cfg tx target else Inr []) = Inr m"
    and p: "(if involvesPcs iv \<and> \<not> involvesByreal iv \<and> \<not> involvesOrca iv \<and> \<not> involvesMeteora iv
             then parsePcsOperations cfg tx logs (involvesMemo iv) target else Inr []) = Inr p"
    and d: "(if involvesDammv2 iv \<and> \<not> involvesByreal iv \<and> \<not> involvesOrca iv
             then parseDammv2Operations bs58 tx target else Inr []) = Inr d"
    by (auto simp: dex_events_def bind_result_eq_Inr_iff)
  have ok: "events_ok cfg tx target Byreal b" "events_ok cfg tx target Orca o'"
    "events_ok cfg tx target Meteora m" "events_ok cfg tx target Pcs p" "events_ok cfg tx target Dammv2 d"
    using b o m p d
    by (auto split: if_splits dest: parseByreal_ok parseOrca_ok parseMeteora_ok parsePcs_ok parseDammv2_ok)
  have ne: "b \<noteq> [] \<longrightarrow> Byreal \<in> allowed_dexes iv" "o' \<noteq> [] \<longrightarrow> Orca \<in> allowed_dexes iv"
    "m \<noteq> [] \<longrightarrow> Meteora \<in> allowed_dexes iv" "p \<noteq> [] \<longrightarrow> Pcs \<in> allowed_dexes iv"
    "d \<noteq> [] \<longrightarrow> Dammv2 \<in> allowed_dexes iv"
    using b o m p d by (auto simp: allowed_dexes_def split: if_splits)
  from assms(2) show ?thesis using ok ne by (auto simp: es events_ok_def)
qed

lemma swap_about_target:
  assumes "parseJupiterSwap tx target = Inr (Some e)"
  shows "about_target cfg tx target e \<and> dex_of e = Swap"
proof -
  from assms obtain s s' where s: "pick_sides (balance_changes tx target) no_sides = Inr s"
    and s': "sol_side tx target s = Inr s'" and ev: "swap_event s' = Some e"
    by (auto simp: parseJupiterSwap_def bind_result_eq_Inr_iff)
  have "sides_ok (owned_mints tx target) s" by (rule parse_sides_ok [OF s])
  with sol_side_cases [OF s'] ev show ?thesis
    by (auto simp: swap_event_def sides_ok_def split: if_splits)
qed

text \<open>The three ways a result comes about.\<close>

lemma parseTransaction_cases:
  assumes "parseTransaction bs58 cfg rpc logs target = Inr evs"
  obtains "evs = [UNKNOWN]"
  | tx where "fetch_from rpc 0 = Some tx" "\<not> meta_failed tx" "evs \<noteq> []"
      "dex_events bs58 cfg (involved_in cfg logs) tx logs target = Inr evs"
  | tx e where "fetch_from rpc 0 = Some tx" "\<not> meta_failed tx" "\<not> involvesByreal (involved_in cfg logs)"
      "dex_events bs58 cfg (involved_in cfg logs) tx logs target = Inr []"
      "parseJupiterSwap tx target = Inr (Some e)" "evs = [e]"
proof (cases "is_spam (involved_in cfg logs) logs")
  case True
  with assms that(1) show thesis by (simp add: parseTransaction_def)
next
  case spam: False
  show thesis
  proof (cases "fetch_from rpc 0")
    case None
    with spam assms that(1) show thesis by (simp add: parseTransaction_def)
  next
    case (Some tx)
    show thesis
    proof (cases "meta_failed tx")
      case True
      with spam Some assms that(1) show thesis by (simp add: parseTransaction_def)
    next
      case False
      with spam Some assms obtain es es' where d: "dex_events bs58 cfg (involved_in cfg logs) tx logs target = Inr es"
        and sw: "(if \<not> involvesByreal (involved_in cfg logs) \<and> es = []
             then bind_result (parseJupiterSwap tx target) (\<lambda>ev. Inr (case ev of Some e \<Rightarrow> [e] | None \<Rightarrow> []))
             else Inr es) = Inr es'"
        and evs: "evs = (if length es' > 0 then es' else [UNKNOWN])"
        by (auto simp: parseTransaction_def Let_def bind_result_eq_Inr_iff)
      show thesis
      proof (cases "\<not> involvesByreal (involved_in cfg logs) \<and> es = []")
        case True
        then obtain ev where "parseJupiterSwap tx target = Inr ev"
          "es' = (case ev of Some e \<Rightarrow> [e] | None \<Rightarrow> [])"
          using sw by (auto simp: bind_result_eq_Inr_iff)
        with True d evs Some False that show thesis by (cases ev) auto
      next
        case no: False
        then have "es' = es" using sw by (simp split: if_splits)
        with d evs Some False that show thesis by (cases es) auto
      qed
    qed
  qed
qed

section \<open>The parser does not throw on what an RPC node returns\<close>

text \<open>Raw amounts are decimal numerals and mints have at most 100 decimals (the chain stores them in a byte, 9 or less in practice).\<close>

definition wf_balance :: "TokenBalance \<Rightarrow> bool" where
  "wf_balance b \<longleftrightarrow> (\<exists>n. amount (uiTokenAmount b) = show_nat n) \<and> decimals (uiTokenAmount b) \<le> 100"

definition wf_tx :: "ParsedTx \<Rightarrow> bool" where
  "wf_tx tx \<longleftrightarrow> (\<forall>b \<in> set (pre_tokens tx) \<union> set (post_tokens tx). wf_balance b)"

definition numeral_text :: "string \<Rightarrow> bool" where
  "numeral_text s \<longleftrightarrow> (\<exists>n. s = show_nat n)"

lemma numeral_text_zero [simp]: "numeral_text ''0''"
  unfolding numeral_text_def by (rule exI [of _ 0]) (simp add: show_nat.simps)

lemma BigInt_numeral: "numeral_text s \<Longrightarrow> \<exists>n. BigInt_of s = Inr (int n)"
  by (auto simp: numeral_text_def BigInt_show_nat)

lemma or_zero_numeral: "(\<And>t. s = Some t \<Longrightarrow> numeral_text t) \<Longrightarrow> numeral_text (or_zero s)"
  by (auto simp: or_zero_def split: option.splits)

lemma preMap_numerals:
  assumes "\<forall>b \<in> set bs. wf_balance b" and "all_values numeral_text m"
  shows "all_values numeral_text (fold (\<lambda>pre m. if owner pre = Some t \<and> decimals (uiTokenAmount pre) > 0
     then AList.update (mint pre) (amount (uiTokenAmount pre)) m else m) bs m)"
  using assms
proof (induction bs arbitrary: m)
  case (Cons b bs)
  then have "numeral_text (amount (uiTokenAmount b))" by (auto simp: wf_balance_def numeral_text_def)
  with Cons show ?case by simp
qed simp

lemma received_loop_total:
  assumes "\<forall>b \<in> set bs. wf_balance b" and "all_values numeral_text m"
  shows "\<exists>rs. received_loop m t bs = Inr rs"
  using assms
proof (induction bs)
  case (Cons b bs)
  obtain n where n: "BigInt_of (amount (uiTokenAmount b)) = Inr (int n)"
    using Cons.prems(1) BigInt_numeral by (auto simp: wf_balance_def numeral_text_def)
  have "numeral_text (or_zero (map_of m (mint b)))"
    by (rule or_zero_numeral, rule all_values_get [OF Cons.prems(2)])
  then obtain k where k: "BigInt_of (or_zero (map_of m (mint b))) = Inr (int k)"
    using BigInt_numeral by blast
  show ?case using Cons.IH Cons.prems n k by auto
qed simp

lemma parseBotReceivedTokens_total: "wf_tx tx \<Longrightarrow> \<exists>rs. parseBotReceivedTokens tx target = Inr rs"
  unfolding parseBotReceivedTokens_def received_preMap_def
  by (intro received_loop_total preMap_numerals) (auto simp: wf_tx_def)

lemma decrease_or_close_total: "wf_tx tx \<Longrightarrow> \<exists>es. decrease_or_close cl de tx hc target = Inr es"
  using parseBotReceivedTokens_total [of tx target] by (auto simp: decrease_or_close_def Let_def)

lemma parseMeteoraRemove_total: "wf_tx tx \<Longrightarrow> \<exists>es. parseMeteoraRemoveOrClose bs58 tx ixs target = Inr es"
  using parseBotReceivedTokens_total [of tx target] by (auto simp: parseMeteoraRemoveOrClose_def Let_def)

lemma bind_total: "\<exists>a. r = Inr a \<Longrightarrow> (\<And>a. \<exists>b. f a = Inr b) \<Longrightarrow> \<exists>b. bind_result r f = Inr b"
  by auto

lemma if_total: "\<exists>a. r = Inr a \<Longrightarrow> \<exists>a. (if c then r else Inr b) = Inr a"
  by auto

lemma dex_parsers_total:
  assumes "wf_tx tx"
  shows "\<exists>es. parseByrealOperations cfg tx logs memo target = Inr es"
    and "\<exists>es. parseOrcaOperations bs58 cfg tx target = Inr es"
    and "\<exists>es. parseMeteoraOperations bs58 cfg tx target = Inr es"
    and "\<exists>es. parsePcsOperations cfg tx logs memo target = Inr es"
    and "\<exists>es. parseDammv2Operations bs58 tx target = Inr es"
  unfolding parseByrealOperations_def parseOrcaOperations_def parseMeteoraOperations_def
    parsePcsOperations_def parseDammv2Operations_def parseDecreaseOrClose_def parseOrcaDecreaseOrClose_def
    parsePcsDecreaseOrClose_def parseDammv2RemoveOrClose_def Let_def
  by (intro bind_total if_total decrease_or_close_total [OF assms] parseMeteoraRemove_total [OF assms];
      simp)+

lemma dex_events_total: "wf_tx tx \<Longrightarrow> \<exists>es. dex_events bs58 cfg iv tx logs target = Inr es"
  unfolding dex_events_def by (intro bind_total if_total dex_parsers_total; simp)

definition wf_change :: "balance_change \<Rightarrow> bool" where
  "wf_change c \<longleftrightarrow> numeral_text (bc_preRaw c) \<and> numeral_text (bc_postRaw c) \<and> bc_decimals c \<le> 100"

lemma wf_balance_numeral: "wf_balance b \<Longrightarrow> numeral_text (amount (uiTokenAmount b)) \<and> decimals (uiTokenAmount b) \<le> 100"
  by (auto simp: wf_balance_def numeral_text_def)

lemma add_pre_wf: "wf_balance b \<Longrightarrow> all_values wf_change m \<Longrightarrow> all_values wf_change (add_pre t b m)"
  by (simp add: add_pre_def wf_change_def wf_balance_numeral)

lemma add_post_wf:
  assumes "wf_balance b" and "all_values wf_change m"
  shows "all_values wf_change (add_post t b m)"
proof (cases "map_of m (mint b)")
  case None
  with assms show ?thesis by (simp add: add_post_def wf_change_def wf_balance_numeral)
next
  case (Some c)
  then have "wf_change c" using assms(2) by (rule all_values_get [rotated])
  with Some assms show ?thesis by (simp add: add_post_def wf_change_def wf_balance_numeral)
qed

lemma balance_changes_wf:
  assumes "wf_tx tx"
  shows "all_values wf_change (balance_changes tx t)"
proof -
  have pre: "all_values wf_change (fold (add_pre t) bs m)"
    if "\<forall>b \<in> set bs. wf_balance b" "all_values wf_change m" for bs m
    using that by (induction bs arbitrary: m) (simp_all add: add_pre_wf)
  have post: "all_values wf_change (fold (add_post t) bs m)"
    if "\<forall>b \<in> set bs. wf_balance b" "all_values wf_change m" for bs m
    using that by (induction bs arbitrary: m) (simp_all add: add_post_wf)
  show ?thesis unfolding balance_changes_def using assms by (intro post pre) (auto simp: wf_tx_def)
qed

lemma pick_side_total:
  assumes "wf_change c"
  shows "\<exists>s'. pick_side (m, c) s = Inr s'"
proof -
  obtain a b where "BigInt_of (bc_preRaw c) = Inr (int a)" "BigInt_of (bc_postRaw c) = Inr (int b)"
    using assms BigInt_numeral unfolding wf_change_def by blast
  moreover have t: "\<exists>x. toFixed v (bc_decimals c) = Inr x" for v
    using assms by (intro toFixed_defined) (simp add: wf_change_def)
  moreover obtain x y where "toFixed (num_abs (num_sub (bc_post c) (bc_pre c))) (bc_decimals c) = Inr x"
    "toFixed (num_sub (bc_post c) (bc_pre c)) (bc_decimals c) = Inr y"
    using t by blast
  ultimately show ?thesis by (simp add: pick_side_def Let_def)
qed

lemma pick_sides_total: "all_values wf_change cs \<Longrightarrow> \<exists>s'. pick_sides cs s = Inr s'"
proof (induction cs arbitrary: s)
  case (Cons x cs)
  obtain m c where x: "x = (m, c)" by fastforce
  then have "wf_change c" "all_values wf_change cs" using Cons.prems by simp_all
  moreover from this(1) obtain t where "pick_side (m, c) s = Inr t" using pick_side_total by blast
  ultimately show ?case using Cons.IH [of t] by (simp add: x)
qed simp

lemma sol_side_total: "\<exists>s'. sol_side tx t s = Inr s'"
proof -
  have t: "\<exists>x. toFixed v 9 = Inr x" for v by (rule toFixed_defined) simp
  have "\<exists>s'. bind_result (toFixed v 9) (\<lambda>amt. Inr (g amt)) = Inr s'" for v and g :: "string \<Rightarrow> swap_sides"
    using t [of v] by auto
  then show ?thesis unfolding sol_side_def Let_def by (auto split: option.split)
qed

lemma parseJupiterSwap_total: "wf_tx tx \<Longrightarrow> \<exists>e. parseJupiterSwap tx target = Inr e"
  unfolding parseJupiterSwap_def
  by (intro bind_total pick_sides_total balance_changes_wf sol_side_total) auto

section \<open>Received amounts\<close>

text \<open>The raw balance, and the target's fungible balance of a mint before the transaction: the last one listed.\<close>

definition raw :: "TokenBalance \<Rightarrow> int" where
  "raw b = (case BigInt_of (amount (uiTokenAmount b)) of Inr i \<Rightarrow> i | Inl _ \<Rightarrow> 0)"

definition is_fungible_of :: "pubkey \<Rightarrow> TokenBalance \<Rightarrow> bool" where
  "is_fungible_of t b \<longleftrightarrow> owner b = Some t \<and> decimals (uiTokenAmount b) > 0"

definition raw_before :: "ParsedTx \<Rightarrow> pubkey \<Rightarrow> string \<Rightarrow> int" where
  "raw_before tx t m =
     (case find (\<lambda>p. is_fungible_of t p \<and> mint p = m) (rev (pre_tokens tx)) of Some p \<Rightarrow> raw p | None \<Rightarrow> 0)"

lemma find_append: "find P (xs @ ys) = (case find P xs of Some x \<Rightarrow> Some x | None \<Rightarrow> find P ys)"
  by (induction xs) auto

lemma map_of_preMap:
  "map_of (fold (\<lambda>pre m. if owner pre = Some t \<and> decimals (uiTokenAmount pre) > 0
      then AList.update (mint pre) (amount (uiTokenAmount pre)) m else m) bs m) k =
   (case find (\<lambda>p. is_fungible_of t p \<and> mint p = k) (rev bs) of
      Some p \<Rightarrow> Some (amount (uiTokenAmount p)) | None \<Rightarrow> map_of m k)"
proof (induction bs arbitrary: m)
  case (Cons b bs)
  show ?case
    by (simp only: fold_simps Cons.IH rev.simps find_append)
      (auto simp: is_fungible_of_def split: option.splits)
qed simp

lemma raw_numeral: "wf_balance b \<Longrightarrow> BigInt_of (amount (uiTokenAmount b)) = Inr (raw b)"
  by (auto simp: wf_balance_def raw_def BigInt_show_nat)

lemma BigInt_zero: "BigInt_of ''0'' = Inr 0"
  using BigInt_show_nat [of 0] by (simp add: show_nat.simps)

lemma raw_before_numeral:
  assumes "wf_tx tx"
  shows "BigInt_of (or_zero (map_of (received_preMap tx t) m)) = Inr (raw_before tx t m)"
proof -
  have "wf_balance p" if "find P (rev (pre_tokens tx)) = Some p" for p P
  proof -
    have "p \<in> set (rev (pre_tokens tx))" using that nth_mem by (force simp: find_Some_iff simp del: set_rev)
    then show ?thesis using assms by (simp add: wf_tx_def)
  qed
  moreover have "amount (uiTokenAmount p) \<noteq> []" if "wf_balance p" for p
    using that show_nat_nonempty by (metis wf_balance_def)
  ultimately show ?thesis
    by (auto simp: received_preMap_def map_of_preMap raw_before_def or_zero_def BigInt_zero raw_numeral
        split: option.splits)
qed

lemma received_loop_eq:
  assumes "wf_tx tx" and "\<forall>b \<in> set bs. wf_balance b"
  shows "received_loop (received_preMap tx t) t bs =
     Inr (map (\<lambda>b. (mint b, show_int (raw b - raw_before tx t (mint b))))
       (filter (\<lambda>b. is_fungible_of t b \<and> raw b > raw_before tx t (mint b)) bs))"
  using assms(2)
  by (induction bs) (auto simp: is_fungible_of_def raw_numeral raw_before_numeral [OF assms(1)])

section \<open>Properties\<close>

text \<open>
  C17: events only about the target. Every event the parser returns other than UNKNOWN comes from a
  transaction the node returned and that did not fail, and is about a position of the target: an
  NFT minted into its account for an open, an NFT it held and that was burned for a close, an NFT
  it held otherwise, a Meteora position named together with it, or a swap between its tokens.
\<close>

theorem events_about_target:
  assumes "parseTransaction bs58 cfg rpc logs target = Inr evs" and "e \<in> set evs" and "e \<noteq> UNKNOWN"
  shows "\<exists>a tx. a < 3 \<and> rpc a = Fetched tx \<and> \<not> meta_failed tx \<and> about_target cfg tx target e"
  using assms(1)
proof (cases rule: parseTransaction_cases)
  case 1
  with assms(2,3) show ?thesis by simp
next
  case (2 tx)
  with assms(2) show ?thesis using fetch_from_Some [of rpc 0 tx] dex_events_ok by blast
next
  case (3 tx e')
  with assms(2) show ?thesis using fetch_from_Some [of rpc 0 tx] swap_about_target [of tx target e' cfg] by auto
qed

text \<open>
  The shape of a result. It is never empty; UNKNOWN and a swap only come alone; a transaction
  that involves Byreal gives Byreal events only (or UNKNOWN); one that involves Orca but not Byreal
  gives Orca events or a swap; otherwise Meteora DLMM hides PancakeSwap, and DAMM v2 events may
  stand beside either.
\<close>

theorem parse_shape:
  assumes "parseTransaction bs58 cfg rpc logs target = Inr evs"
  shows "evs \<noteq> [] \<and> (evs = [UNKNOWN] \<or>
     (dex_of ` set evs \<subseteq> allowed_dexes (involved_in cfg logs)) \<or>
     (\<exists>e. evs = [e] \<and> dex_of e = Swap \<and> \<not> involvesByreal (involved_in cfg logs)))"
  using assms
proof (cases rule: parseTransaction_cases)
  case (2 tx)
  then show ?thesis using dex_events_ok by (auto simp: image_subset_iff)
next
  case (3 tx e)
  then show ?thesis using swap_about_target [of tx target e cfg] by auto
qed simp

text \<open>
  No crash. When the node returns well-formed balances (decimal amounts, at most 100 decimals) the
  parser returns a list of events; it never throws, whatever the logs and instruction data are.
\<close>

theorem parse_never_throws:
  assumes "\<And>a tx. a < 3 \<Longrightarrow> rpc a = Fetched tx \<Longrightarrow> wf_tx tx"
  shows "\<exists>evs. parseTransaction bs58 cfg rpc logs target = Inr evs"
proof (cases "fetch_from rpc 0")
  case (Some tx)
  then have "wf_tx tx" using fetch_from_Some assms by blast
  then obtain es sw where "dex_events bs58 cfg (involved_in cfg logs) tx logs target = Inr es"
    "parseJupiterSwap tx target = Inr sw"
    using dex_events_total parseJupiterSwap_total by blast
  with Some show ?thesis by (auto simp: parseTransaction_def Let_def)
qed (simp add: parseTransaction_def Let_def)

text \<open>
  Nothing is copied from a transaction that did not happen. If the node returns the transaction
  in none of three requests, or returns it as failed, the result is the single event UNKNOWN.
\<close>

theorem failed_tx_unknown:
  assumes "(\<forall>a tx. a < 3 \<longrightarrow> rpc a \<noteq> Fetched tx) \<or> (\<exists>tx. fetch_from rpc 0 = Some tx \<and> meta_failed tx)"
  shows "parseTransaction bs58 cfg rpc logs target = Inr [UNKNOWN]"
proof -
  have "fetch_from rpc 0 = None" if "\<forall>a tx. a < 3 \<longrightarrow> rpc a \<noteq> Fetched tx"
    using that by (intro fetch_from_None) auto
  then show ?thesis using assms by (auto simp: parseTransaction_def Let_def)
qed

text \<open>
  Received amounts. On well-formed balances the tokens reported as received in a close are
  exactly the target's fungible token accounts whose raw balance rose over the mint's balance
  before, in the order listed, each with the exact difference.
\<close>

theorem received_exact:
  assumes "wf_tx tx"
  shows "parseBotReceivedTokens tx t =
     Inr (map (\<lambda>b. (mint b, show_int (raw b - raw_before tx t (mint b))))
       (filter (\<lambda>b. is_fungible_of t b \<and> raw b > raw_before tx t (mint b)) (post_tokens tx)))"
  unfolding parseBotReceivedTokens_def
  by (rule received_loop_eq [OF assms]) (use assms in \<open>simp add: wf_tx_def\<close>)

text \<open>
  A close is seen. When the logs show the Byreal program and a \<^verbatim>\<open>ClosePosition\<close> instruction, the
  transaction is returned, succeeded and is well formed, the result has a close event for every
  NFT the target held before and whose account is gone or empty after it, and no decrease event.
\<close>

theorem byreal_close_seen:
  assumes "fetch_from rpc 0 = Some tx" and "\<not> meta_failed tx" and "wf_tx tx"
    and "some_log logs (byrealProgramId cfg)" and "some_log logs ''Instruction: ClosePosition''"
    and "b \<in> set (pre_tokens tx)" and "owner b = Some target" and "is_nft b" and "emptied tx b"
  shows "\<exists>evs r. parseTransaction bs58 cfg rpc logs target = Inr evs \<and>
     BYREAL_CLOSE_POSITION (mint b) r \<in> set evs \<and> (\<forall>n l. BYREAL_DECREASE_LIQUIDITY n l \<notin> set evs)"
proof -
  obtain r where r: "parseBotReceivedTokens tx target = Inr r"
    using parseBotReceivedTokens_total [OF assms(3)] by blast
  let ?iv = "involved_in cfg logs"
  have iv: "involvesByreal ?iv" using assms(4) by (simp add: involved_in_def)
  have cl: "hasClosePosition (raydium_flags_of logs)" using assms(5) by (simp add: raydium_flags_of_def)
  define cs where "cs = map (\<lambda>n. BYREAL_CLOSE_POSITION n r) (findClosedNftMintsFromTx tx target)"
  have "parseDecreaseOrClose tx True target = Inr cs"
    by (simp add: parseDecreaseOrClose_def decrease_or_close_def r cs_def)
  moreover define os where "os =
    (if hasOpenPosition (raydium_flags_of logs)
     then parseOpenPositions cfg tx (find_referer (involvesMemo ?iv) logs) (isToken22Position (raydium_flags_of logs)) target
     else []) @
    (if hasIncreaseLiquidity (raydium_flags_of logs) \<and> \<not> hasOpenPosition (raydium_flags_of logs)
     then parseIncreaseLiquidity tx target else [])"
  ultimately have p: "parseByrealOperations cfg tx logs (involvesMemo ?iv) target = Inr (os @ cs)"
    using cl by (simp add: parseByrealOperations_def Let_def)
  have os: "\<forall>n l. BYREAL_DECREASE_LIQUIDITY n l \<notin> set os"
    by (auto simp: os_def parseOpenPositions_def parseIncreaseLiquidity_def image_iff dest: held_eventD
        split: prod.splits)
  have d: "dex_events bs58 cfg ?iv tx logs target = Inr (os @ cs)"
    using iv p by (simp add: dex_events_def)
  have m: "BYREAL_CLOSE_POSITION (mint b) r \<in> set cs"
    using emptied_nft_closed [OF assms(6-9)] by (simp add: cs_def)
  then have "parseTransaction bs58 cfg rpc logs target = Inr (os @ cs)"
    using assms(1,2) iv d by (auto simp: parseTransaction_def Let_def is_spam_def)
  moreover have "\<forall>n l. BYREAL_DECREASE_LIQUIDITY n l \<notin> set (os @ cs)" using os by (auto simp: cs_def)
  ultimately show ?thesis using m by auto
qed

section \<open>A transaction for the witnesses\<close>

text \<open>The target burns its position NFT through Byreal and receives 5 raw units of a token.\<close>

definition demo_cfg :: parser_config where
  "demo_cfg = \<lparr>byrealProgramId = ''BYR'', orcaProgramId = ''ORC'', meteoraProgramId = ''MET'',
     pcsProgramId = ''PCS'', memoProgramId = ''MEM'', pcsEnabled = True\<rparr>"

definition demo_logs :: "string list" where
  "demo_logs = [''Program BYR invoke [1]'', ''Program log: Instruction: ClosePosition'']"

definition demo_token :: "nat \<Rightarrow> string \<Rightarrow> string \<Rightarrow> nat \<Rightarrow> js_num option \<Rightarrow> TokenBalance" where
  "demo_token i m a d ui = \<lparr>accountIndex = i, mint = m, owner = Some ''target'',
     uiTokenAmount = \<lparr>amount = a, decimals = d, uiAmount = ui, uiAmountString = None\<rparr>\<rparr>"

definition demo_close_tx :: "bool \<Rightarrow> ParsedTx" where
  "demo_close_tx failed = \<lparr>tx_meta = Some \<lparr>meta_err = failed, fee = Num 5000, preBalances = None, postBalances = None,
      preTokenBalances = Some [demo_token 1 ''nft'' ''1'' 0 (Some (Num 1)), demo_token 2 ''tok'' ''3'' 6 None],
      postTokenBalances = Some [demo_token 2 ''tok'' ''8'' 6 None],
      innerInstructions = None\<rparr>, instructions = [], accountKeys = [''target'']\<rparr>"

definition demo_rpc :: "bool \<Rightarrow> nat \<Rightarrow> rpc_answer" where
  "demo_rpc failed a = (if a = 0 then NotYet else Fetched (demo_close_tx failed))"

lemma demo_wf: "wf_tx (demo_close_tx failed)"
proof -
  have "''1'' = show_nat 1" "''3'' = show_nat 3" "''8'' = show_nat 8"
    by (simp_all add: show_nat_digit)
  then show ?thesis
    by (simp add: wf_tx_def wf_balance_def demo_close_tx_def or_empty_def demo_token_def)
qed

lemma demo_fetch: "fetch_from (demo_rpc failed) 0 = Some (demo_close_tx failed)"
  by (simp add: fetch_from.simps demo_rpc_def)

lemma demo_facts:
  "\<not> meta_failed (demo_close_tx False)" "meta_failed (demo_close_tx True)"
  "some_log demo_logs (byrealProgramId demo_cfg)" "some_log demo_logs ''Instruction: ClosePosition''"
  "demo_token 1 ''nft'' ''1'' 0 (Some (Num 1)) \<in> set (pre_tokens (demo_close_tx False))"
  "owner (demo_token 1 ''nft'' ''1'' 0 (Some (Num 1))) = Some ''target''"
  "is_nft (demo_token 1 ''nft'' ''1'' 0 (Some (Num 1)))"
  "emptied (demo_close_tx False) (demo_token 1 ''nft'' ''1'' 0 (Some (Num 1)))"
  "mint (demo_token 1 ''nft'' ''1'' 0 (Some (Num 1))) = ''nft''"
  by (simp_all add: meta_failed_def demo_close_tx_def some_log_def demo_logs_def demo_cfg_def starts_with_def
      emptied_def or_empty_def demo_token_def is_nft_def same_account_def)

theorem byreal_close_seen_witness:
  "\<exists>evs r. parseTransaction (\<lambda>_. None) demo_cfg (demo_rpc False) demo_logs ''target'' = Inr evs \<and>
     BYREAL_CLOSE_POSITION ''nft'' r \<in> set evs \<and> (\<forall>n l. BYREAL_DECREASE_LIQUIDITY n l \<notin> set evs)"
  by (rule byreal_close_seen [OF demo_fetch demo_facts(1) demo_wf demo_facts(3-8), unfolded demo_facts(9)])

theorem failed_tx_unknown_witness:
  "parseTransaction (\<lambda>_. None) demo_cfg (demo_rpc True) demo_logs ''target'' = Inr [UNKNOWN]"
  by (rule failed_tx_unknown) (use demo_fetch demo_facts(2) in blast)

theorem parse_never_throws_witness:
  "\<exists>evs. parseTransaction (\<lambda>_. None) demo_cfg (demo_rpc False) demo_logs ''target'' = Inr evs"
  by (rule parse_never_throws) (auto simp: demo_rpc_def demo_wf split: if_splits)

lemma demo_raw: "raw (demo_token i m [digit_char d] k ui) = int d" if "d < 10"
  using BigInt_show_nat [of d] that by (simp add: raw_def demo_token_def show_nat_digit)

theorem received_exact_witness:
  "parseBotReceivedTokens (demo_close_tx False) ''target'' = Inr [(''tok'', ''5'')]"
proof -
  have r: "raw (demo_token 2 ''tok'' ''8'' 6 None) = 8" "raw (demo_token 2 ''tok'' ''3'' 6 None) = 3"
    using demo_raw [of 8 2 "''tok''" 6 None] demo_raw [of 3 2 "''tok''" 6 None] by simp_all
  have f: "is_fungible_of ''target'' (demo_token 2 ''tok'' a 6 None)" "mint (demo_token 2 ''tok'' a 6 None) = ''tok''" for a
    by (simp_all add: is_fungible_of_def demo_token_def)
  have b: "raw_before (demo_close_tx False) ''target'' ''tok'' = 3"
    using r(2) f by (simp add: raw_before_def demo_close_tx_def or_empty_def)
  have s: "show_int 5 = ''5''" using show_nat_digit [of 5] by (simp add: show_int_def)
  have p: "post_tokens (demo_close_tx False) = [demo_token 2 ''tok'' ''8'' 6 None]"
    by (simp add: demo_close_tx_def or_empty_def)
  show ?thesis using received_exact [OF demo_wf, of False "''target''"] by (simp add: p r f b s)
qed

lemma demo_parse:
  "\<exists>r. parseTransaction (\<lambda>_. None) demo_cfg (demo_rpc False) demo_logs ''target'' = Inr [BYREAL_CLOSE_POSITION ''nft'' r]"
proof -
  obtain r where r: "parseBotReceivedTokens (demo_close_tx False) ''target'' = Inr r"
    using parseBotReceivedTokens_total [OF demo_wf] by blast
  have c: "findClosedNftMintsFromTx (demo_close_tx False) ''target'' = [''nft'']"
    by (simp add: findClosedNftMintsFromTx_def demo_close_tx_def or_empty_def demo_token_def is_nft_def same_account_def)
  have iv: "involved_in demo_cfg demo_logs = \<lparr>involvesByreal = True, involvesOrca = False, involvesMeteora = False,
      involvesPcs = False, involvesDammv2 = False, involvesMemo = False\<rparr>"
    by (simp add: involved_in_def some_log_def demo_cfg_def demo_logs_def starts_with_def DAMMV2_PROGRAM_ID_def)
  have fl: "raydium_flags_of demo_logs = \<lparr>hasOpenPosition = False, isToken22Position = False,
      hasDecreaseLiquidity = False, hasIncreaseLiquidity = False, hasClosePosition = True\<rparr>"
    by (simp add: raydium_flags_of_def some_log_def demo_logs_def starts_with_def)
  show ?thesis
    by (simp add: parseTransaction_def iv demo_fetch demo_facts is_spam_def dex_events_def
        parseByrealOperations_def fl parseDecreaseOrClose_def decrease_or_close_def r c)
qed

theorem events_about_target_witness:
  "\<exists>r. parseTransaction (\<lambda>_. None) demo_cfg (demo_rpc False) demo_logs ''target'' = Inr [BYREAL_CLOSE_POSITION ''nft'' r] \<and>
     (\<exists>a tx. a < 3 \<and> demo_rpc False a = Fetched tx \<and> \<not> meta_failed tx \<and>
        about_target demo_cfg tx ''target'' (BYREAL_CLOSE_POSITION ''nft'' r))"
proof -
  obtain r where r: "parseTransaction (\<lambda>_. None) demo_cfg (demo_rpc False) demo_logs ''target'' =
      Inr [BYREAL_CLOSE_POSITION ''nft'' r]"
    using demo_parse by blast
  from events_about_target [OF r, of "BYREAL_CLOSE_POSITION ''nft'' r"] r show ?thesis by auto
qed

theorem parse_shape_witness:
  "\<exists>evs. parseTransaction (\<lambda>_. None) demo_cfg (demo_rpc False) demo_logs ''target'' = Inr evs \<and> evs \<noteq> []"
  using demo_parse parse_shape by blast

end
