(* ===== verification/Dispatch.thy ===== *)
theory Dispatch
  imports Activity_Log Position_Map Byreal_Pending Token_Risk Opened_Referers Ratio Wallet_Lists Json_Access Parser
begin

text \<open>
  The routing of parsed events to the executors, \<^verbatim>\<open>handleEvent\<close> of \<^verbatim>\<open>src/index.ts\<close>, and the executors'
  queries it guards with. One definition per \<^verbatim>\<open>case\<close> of its switch.

  The state \<open>bot\<close> gathers what the handler reads and writes: the flags of the five executors, the
  position map, the opened referers, the pending swaps, the token risk, and the activity feed. What
  an executor does when asked to copy an operation is an argument (\<open>copy_ops\<close>): any function of the
  whole state that returns or throws and leaves any state. A handler returns, besides the new state,
  the list of copies it asked for, in order; the theorems speak about that list. Promises the handler
  starts and does not await are recorded in \<open>background\<close>. Log lines are left out. The times are
  those \<^verbatim>\<open>Date.now()\<close> returns at the guards, at the feed entry and at the swap entry.

  Literals outside ASCII are their UTF-8 bytes.
\<close>

section \<open>State\<close>

datatype dex_id = BYREAL | ORCA | METEORA | PCS | DAMMV2

record executor =
  solPaused :: bool
  drawdownPaused :: bool
  drawdownPausedAt :: "millis option"
  lastSkipReason :: "string option"
  poolIdToMints :: "(string, string) jsmap"

datatype task = InvalidateAssetCaches | RefreshSolPrice | FetchPositionPnl string string

record ('j, 'x) bot =
  execs :: "dex_id \<Rightarrow> executor"
  positions :: "js_num position_memory"
  referers :: referer_memory
  pendings :: "'j byreal_state"
  risk :: "'j risk_state"
  feed :: activity
  feed_calls :: "activity_call list"
  background :: "task list"
  startAssetUsd :: "js_num option"
  drawdownWarning :: bool
  other :: 'x

text \<open>
  An executor other than Byreal's is \<^verbatim>\<open>null\<close> exactly when its DEX is disabled. \<open>wallet_ratios\<close> of Byreal is
  \<^verbatim>\<open>walletAmountRatios\<close>, \<open>close_only\<close> of Byreal is \<^verbatim>\<open>closeOnlyWallets\<close>.
\<close>

record dispatch_config =
  dex_enabled :: "dex_id \<Rightarrow> bool"
  close_only :: "dex_id \<Rightarrow> string jsset"
  wallet_ratios :: "dex_id \<Rightarrow> (string, js_num) jsmap"
  amount_ratio :: js_num
  risk_cfg :: risk_config
  pcsSkipSol :: bool
  allowSameWalletReopen :: bool
  byrealAllowSameTickWallets :: "string jsset"
  byrealAllowOpenAfterOthersWallets :: "string jsset"

record times =
  at_guard :: millis
  at_push :: millis
  at_swap :: millis

section \<open>Asking an executor\<close>

datatype copy_call =
    CopyOpen dex_id string string "string option" string
  | CopyIncrease dex_id string string
  | CopyDecrease dex_id string
  | CopyClose dex_id string
  | CopyClaimFee string
  | SwapToUSDC string string

record 's copy_ops =
  copyOpenPosition :: "dex_id \<Rightarrow> string \<Rightarrow> string \<Rightarrow> string option \<Rightarrow> string \<Rightarrow> 's \<Rightarrow> string option result \<times> 's"
  copyIncreaseLiquidity :: "dex_id \<Rightarrow> string \<Rightarrow> string \<Rightarrow> 's \<Rightarrow> string option result \<times> 's"
  copyDecreaseLiquidity :: "dex_id \<Rightarrow> string \<Rightarrow> 's \<Rightarrow> (string \<times> string) option result \<times> 's"
  copyClosePosition :: "dex_id \<Rightarrow> string \<Rightarrow> 's \<Rightarrow> string option result \<times> 's"
  copyClaimFee :: "string \<Rightarrow> 's \<Rightarrow> string option result \<times> 's"
  swapTokenToUSDC :: "string \<Rightarrow> string \<Rightarrow> 's \<Rightarrow> (string \<times> string \<times> string option) option result \<times> 's"

type_synonym ('s, 'a) proc = "'s \<Rightarrow> 'a result \<times> copy_call list \<times> 's"

definition finish :: "('s, unit) proc" where
  "finish s = (Inr (), [], s)"

definition bind_proc :: "('s, 'a) proc \<Rightarrow> ('a \<Rightarrow> ('s, 'b) proc) \<Rightarrow> ('s, 'b) proc" where
  "bind_proc p f s =
     (case p s of
        (Inl e, cs, s') \<Rightarrow> (Inl e, cs, s')
      | (Inr a, cs, s') \<Rightarrow> (case f a s' of (r, cs', s'') \<Rightarrow> (r, cs @ cs', s'')))"

definition ask :: "copy_call \<Rightarrow> ('s \<Rightarrow> 'a result \<times> 's) \<Rightarrow> ('s, 'a) proc" where
  "ask c f s = (case f s of (r, s') \<Rightarrow> (r, [c], s'))"

section \<open>Feed entries\<close>

definition utf8 :: "nat list \<Rightarrow> string" where
  "utf8 bytes = map char_of bytes"

definition TXT_SOL :: string where "TXT_SOL = ''SOL '' @ utf8 [228, 184, 141, 232, 182, 179]"
definition TXT_DRAWDOWN :: string where
  "TXT_DRAWDOWN = utf8 [232, 179, 135, 231, 148, 162, 232, 183, 140, 229, 185, 133, 230, 154, 171, 229, 129, 156]"
definition TXT_COOLDOWN :: string where
  "TXT_COOLDOWN = utf8 [228, 187, 163, 229, 185, 163, 229, 134, 183, 233, 157, 156, 230, 156, 159]"
definition TXT_BLACKLIST :: string where
  "TXT_BLACKLIST = utf8 [233, 187, 145, 229, 144, 141, 229, 150, 174, 228, 187, 163, 229, 185, 163]"
definition TXT_DUP_TARGET :: string where
  "TXT_DUP_TARGET = utf8 [233, 135, 141, 232, 164, 135, 231, 155, 174, 230, 168, 153]"
definition TXT_DUP_SOURCE :: string where
  "TXT_DUP_SOURCE = utf8 [233, 135, 141, 232, 164, 135, 228, 190, 134, 230, 186, 144]"
definition TXT_NO_MAPPING :: string where
  "TXT_NO_MAPPING = utf8 [231, 132, 161, 230, 152, 160, 229, 176, 132]"

text \<open>The prefix of a DEX in its skip reasons.\<close>

fun dex_word :: "dex_id \<Rightarrow> string" where
  "dex_word BYREAL = ''''"
| "dex_word ORCA = ''Orca''"
| "dex_word METEORA = ''Meteora''"
| "dex_word PCS = ''PCS''"
| "dex_word DAMMV2 = ''DAMMV2''"

definition entry_of ::
  "millis \<Rightarrow> string \<Rightarrow> string \<Rightarrow> string option \<Rightarrow> string option \<Rightarrow> bool \<Rightarrow> string option \<Rightarrow> string option \<Rightarrow> EventLogEntry" where
  "entry_of now kind wallet nft sig ok err pl =
     \<lparr>ev_ts = now, ev_type = kind, ev_targetWallet = wallet, ev_targetNft = nft, ev_ourNft = None,
      ev_txSig = sig, ev_success = ok, ev_error = err, ev_pool = pl, ev_dex = None\<rparr>"

definition push_event :: "EventLogEntry \<Rightarrow> string option \<Rightarrow> ('j, 'x) bot \<Rightarrow> ('j, 'x) bot" where
  "push_event entry tag s =
     (case pushEvent entry tag (feed s) of (m, ws) \<Rightarrow> s\<lparr>feed := m, feed_calls := feed_calls s @ ws\<rparr>)"

definition push_swap :: "SwapHistoryEntry \<Rightarrow> ('j, 'x) bot \<Rightarrow> ('j, 'x) bot" where
  "push_swap entry s =
     (case pushSwap entry (feed s) of (m, ws) \<Rightarrow> s\<lparr>feed := m, feed_calls := feed_calls s @ ws\<rparr>)"

text \<open>What \<^verbatim>\<open>handleEvent\<close> closes over: the times, the tag of the DEX and the wallet.\<close>

record handler_cx =
  cx_times :: times
  cx_dex :: "string option"
  cx_wallet :: string

definition skip :: "handler_cx \<Rightarrow> string \<Rightarrow> string \<Rightarrow> string option \<Rightarrow> (('j, 'x) bot, unit) proc" where
  "skip cx nft reason pl s =
     finish (push_event (entry_of (at_push (cx_times cx)) ''SKIP'' (cx_wallet cx) (Some nft) None True (Some reason) pl)
       (cx_dex cx) s)"

text \<open>\<^verbatim>\<open>sig || undefined\<close>\<close>

definition or_undefined :: "string option \<Rightarrow> string option" where
  "or_undefined x = (if truthy x then x else None)"

definition start_tasks :: "task list \<Rightarrow> ('j, 'x) bot \<Rightarrow> ('j, 'x) bot" where
  "start_tasks ts s = s\<lparr>background := background s @ ts\<rparr>"

text \<open>The entry for a copied operation, and the follow-up of a successful one.\<close>

definition report ::
  "handler_cx \<Rightarrow> string \<Rightarrow> string \<Rightarrow> string option \<Rightarrow> string option \<Rightarrow> task list \<Rightarrow> (('j, 'x) bot, unit) proc" where
  "report cx kind nft sig pl tasks s =
     (let s1 = push_event (entry_of (at_push (cx_times cx)) kind (cx_wallet cx) (Some nft) (or_undefined sig)
                 (truthy sig) None pl) (cx_dex cx) s
      in finish (if truthy sig then start_tasks tasks s1 else s1))"

section \<open>Queries of the executors\<close>

definition hasMapping :: "string \<Rightarrow> ('j, 'x) bot \<Rightarrow> bool" where
  "hasMapping nft s \<longleftrightarrow> truthy (PM_get nft (positions s))"

definition isRefererDuplicate :: "dispatch_config \<Rightarrow> string option \<Rightarrow> string \<Rightarrow> ('j, 'x) bot \<Rightarrow> bool" where
  "isRefererDuplicate cfg refererPosition' wallet s =
     (if \<not> truthy refererPosition' then False
      else isRefererDuplicateEntry
             (map_option (\<lambda>e. JString (or_targetWallet e)) (getOpenedReferer (the refererPosition') (referers s)))
             wallet (allowSameWalletReopen cfg) (byrealAllowSameTickWallets cfg)
             (byrealAllowOpenAfterOthersWallets cfg))"

definition coolingDown :: "millis \<Rightarrow> string \<Rightarrow> ('j, 'x) bot \<Rightarrow> bool \<times> ('j, 'x) bot" where
  "coolingDown now mints s = (case isTokenCoolingDown now mints (risk s) of (c, r) \<Rightarrow> (c, s\<lparr>risk := r\<rparr>))"

text \<open>\<^verbatim>\<open>openPoolMints && byrealExecutor.isTokenCoolingDown(openPoolMints)\<close>\<close>

definition cooldown_guard :: "millis \<Rightarrow> string option \<Rightarrow> ('j, 'x) bot \<Rightarrow> bool \<times> ('j, 'x) bot" where
  "cooldown_guard now known s = (if truthy known then coolingDown now (the known) s else (False, s))"

definition pcs_isTokenBlacklisted :: "dispatch_config \<Rightarrow> string \<Rightarrow> bool" where
  "pcs_isTokenBlacklisted cfg mints = isTokenBlacklisted ((risk_cfg cfg)\<lparr>byrealSkipSol := pcsSkipSol cfg\<rparr>) mints"

definition set_exec :: "dex_id \<Rightarrow> (executor \<Rightarrow> executor) \<Rightarrow> ('j, 'x) bot \<Rightarrow> ('j, 'x) bot" where
  "set_exec d f s = s\<lparr>execs := (execs s)(d := f (execs s d))\<rparr>"

text \<open>The mints of a pool: from the executor's cache, else from the event, which fills the cache.\<close>

definition resolve_mints ::
  "dex_id \<Rightarrow> string \<Rightarrow> string option \<Rightarrow> ('j, 'x) bot \<Rightarrow> string option \<times> ('j, 'x) bot" where
  "resolve_mints d pid mints s =
     (let cached = map_of (poolIdToMints (execs s d)) pid
      in if \<not> truthy cached \<and> truthy mints
         then (mints, set_exec d (\<lambda>x. x\<lparr>poolIdToMints := AList.update pid (the mints) (poolIdToMints x)\<rparr>) s)
         else (cached, s))"

text \<open>\<^verbatim>\<open>const skipReason = executor.lastSkipReason; executor.lastSkipReason = null\<close>\<close>

definition take_skip_reason :: "dex_id \<Rightarrow> ('j, 'x) bot \<Rightarrow> string option \<times> ('j, 'x) bot" where
  "take_skip_reason d s = (lastSkipReason (execs s d), set_exec d (\<lambda>x. x\<lparr>lastSkipReason := None\<rparr>) s)"

definition received_close ::
  "'b BN \<Rightarrow> handler_cx \<Rightarrow> received \<Rightarrow> (('j, 'x) bot, unit) proc" where
  "received_close bn cx toks s =
     (case recordBotCloseReceived bn (at_guard (cx_times cx)) toks (pendings s) of
        (err, p) \<Rightarrow> (case err of Some e \<Rightarrow> Inl e | None \<Rightarrow> Inr (), [], s\<lparr>pendings := p\<rparr>))"

section \<open>The cases of the switch\<close>

type_synonym ('j, 'x) handler = "(('j, 'x) bot, unit) proc"

definition handle_JUPITER_SWAP ::
  "'b BN \<Rightarrow> ('j, 'x) bot copy_ops \<Rightarrow> dispatch_config \<Rightarrow> handler_cx \<Rightarrow> string \<Rightarrow> string \<Rightarrow> string \<Rightarrow> ('j, 'x) handler" where
  "handle_JUPITER_SWAP bn ops cfg cx inM outMint amountRaw s =
     (if outMint \<noteq> USDC_MINT then finish s
      else let lookup = (\<lambda>d. map_of (wallet_ratios cfg d) (cx_wallet cx));
               ratio = or_else (lookup ORCA) (or_else (lookup METEORA) (or_else (lookup PCS)
                         (or_else (lookup DAMMV2) (or_else (lookup BYREAL) (amount_ratio cfg)))))
           in (case computeSwapCapRaw bn (Some amountRaw) ratio of
                 Inl e \<Rightarrow> (Inl e, [], s)
               | Inr None \<Rightarrow> finish s
               | Inr (Some cap) \<Rightarrow>
                   bind_proc (ask (SwapToUSDC inM cap) (swapTokenToUSDC ops inM cap)) (\<lambda>result s1.
                     case result of
                       None \<Rightarrow> finish s1
                     | Some (sig, sold, got') \<Rightarrow>
                         finish (start_tasks [InvalidateAssetCaches]
                           (push_swap \<lparr>sw_ts = at_swap (cx_times cx), sw_inputMint = inM, sw_txSig = sig,
                               sw_inputAmountRaw = Some sold, sw_inputDecimals = None, sw_outputAmountRaw = got'\<rparr>
                             (push_event (entry_of (at_push (cx_times cx)) ''SWAP'' (cx_wallet cx) None (Some sig) True None
                                 (Some (inM @ ''/'' @ USDC_MINT))) (cx_dex cx) s1)))) s))"

text \<open>
  After the copy of an open: an intended skip, the entry otherwise. \<open>skipped_pool\<close> and \<open>opened_pool\<close> are
  the pool fields of the two entries.
\<close>

definition after_open ::
  "dex_id \<Rightarrow> handler_cx \<Rightarrow> string \<Rightarrow> (string \<Rightarrow> string) \<Rightarrow> (('j, 'x) bot \<Rightarrow> string option) \<Rightarrow> (('j, 'x) bot \<Rightarrow> string option) \<Rightarrow>
   string option \<Rightarrow> ('j, 'x) handler" where
  "after_open d cx nft wording skipped_pool opened_pool ourSig s =
     (case take_skip_reason d s of (skipReason, s1) \<Rightarrow>
        if ourSig = None \<and> truthy skipReason then skip cx nft (wording (the skipReason)) (skipped_pool s1) s1
        else report cx ''OPEN'' nft ourSig (opened_pool s1) [RefreshSolPrice, InvalidateAssetCaches] s1)"

definition pool_of :: "string \<Rightarrow> ('j, 'x) bot \<Rightarrow> string option" where
  "pool_of nft s = PM_getPool nft (positions s)"

definition handle_BYREAL_OPEN ::
  "('j, 'x) bot copy_ops \<Rightarrow> dispatch_config \<Rightarrow> handler_cx \<Rightarrow> string \<Rightarrow> string \<Rightarrow> string option \<Rightarrow> string option \<Rightarrow>
   ('j, 'x) handler" where
  "handle_BYREAL_OPEN ops cfg cx nft pid referer mints s =
     (if solPaused (execs s BYREAL) then skip cx nft TXT_SOL None s
      else if drawdownPaused (execs s BYREAL) then skip cx nft TXT_DRAWDOWN None s
      else if cx_wallet cx \<in> set (close_only cfg BYREAL) then skip cx nft ''close-only'' None s
      else (case resolve_mints BYREAL pid mints s of (known, s1) \<Rightarrow>
           (case cooldown_guard (at_guard (cx_times cx)) known s1 of (cooling, s2) \<Rightarrow>
              if cooling then skip cx nft TXT_COOLDOWN known s2
              else if truthy known \<and> isTokenBlacklisted (risk_cfg cfg) (the known)
                then skip cx nft TXT_BLACKLIST known s2
              else if hasMapping nft s2 then skip cx nft TXT_DUP_TARGET None s2
              else if isRefererDuplicate cfg referer (cx_wallet cx) s2 then skip cx nft TXT_DUP_SOURCE None s2
              else bind_proc (ask (CopyOpen BYREAL nft pid referer (cx_wallet cx))
                                  (copyOpenPosition ops BYREAL nft pid referer (cx_wallet cx)))
                     (after_open BYREAL cx nft (\<lambda>r. r) (pool_of nft) (pool_of nft)) s2)))"

definition handle_BYREAL_INCREASE ::
  "('j, 'x) bot copy_ops \<Rightarrow> dispatch_config \<Rightarrow> handler_cx \<Rightarrow> string \<Rightarrow> ('j, 'x) handler" where
  "handle_BYREAL_INCREASE ops cfg cx nft s =
     (if solPaused (execs s BYREAL) then skip cx nft TXT_SOL None s
      else if drawdownPaused (execs s BYREAL) then skip cx nft TXT_DRAWDOWN None s
      else if cx_wallet cx \<in> set (close_only cfg BYREAL) then skip cx nft ''close-only'' None s
      else if truthy (pool_of nft s) \<and> isTokenBlacklisted (risk_cfg cfg) (the (pool_of nft s))
        then skip cx nft TXT_BLACKLIST (pool_of nft s) s
      else if \<not> hasMapping nft s then skip cx nft TXT_NO_MAPPING None s
      else bind_proc (ask (CopyIncrease BYREAL nft (cx_wallet cx)) (copyIncreaseLiquidity ops BYREAL nft (cx_wallet cx)))
             (\<lambda>ourSig. report cx ''INCREASE'' nft ourSig None [InvalidateAssetCaches]) s)"

text \<open>The decreases and removals of every DEX: the executor may report that it closed instead.\<close>

definition after_decrease ::
  "handler_cx \<Rightarrow> string \<Rightarrow> (string \<times> string) option \<Rightarrow> ('j, 'x) handler" where
  "after_decrease cx nft result s =
     (let kind = (case result of Some (k, sig) \<Rightarrow> if k \<noteq> [] then k else ''DECREASE'' | None \<Rightarrow> ''DECREASE'');
          s1 = push_event (entry_of (at_push (cx_times cx)) kind (cx_wallet cx) (Some nft)
                 (or_undefined (map_option snd result)) (result \<noteq> None) None None) (cx_dex cx) s
      in finish (if result \<noteq> None then start_tasks [InvalidateAssetCaches] s1 else s1))"

definition no_mapping :: "dex_id \<Rightarrow> string" where
  "no_mapping d = (if d = BYREAL then TXT_NO_MAPPING else dex_word d @ '' '' @ TXT_NO_MAPPING)"

definition handle_BYREAL_DECREASE ::
  "('j, 'x) bot copy_ops \<Rightarrow> handler_cx \<Rightarrow> string \<Rightarrow> ('j, 'x) handler" where
  "handle_BYREAL_DECREASE ops cx nft s =
     (if \<not> hasMapping nft s then skip cx nft TXT_NO_MAPPING None s
      else bind_proc (ask (CopyDecrease BYREAL nft) (copyDecreaseLiquidity ops BYREAL nft)) (after_decrease cx nft) s)"

definition handle_BYREAL_CLOSE ::
  "'b BN \<Rightarrow> ('j, 'x) bot copy_ops \<Rightarrow> handler_cx \<Rightarrow> string \<Rightarrow> received \<Rightarrow> ('j, 'x) handler" where
  "handle_BYREAL_CLOSE bn ops cx nft toks =
     bind_proc (received_close bn cx toks) (\<lambda>_ s.
       if \<not> hasMapping nft s then skip cx nft TXT_NO_MAPPING None s
       else let closePool = pool_of nft s; closeOurNft = PM_get nft (positions s)
            in bind_proc (ask (CopyClose BYREAL nft) (copyClosePosition ops BYREAL nft))
                 (\<lambda>ourSig. report cx ''CLOSE'' nft ourSig closePool
                    ([RefreshSolPrice, InvalidateAssetCaches] @
                     (if truthy closePool \<and> truthy closeOurNft
                      then [FetchPositionPnl (the closePool) (the closeOurNft)] else []))) s)"

text \<open>The reason of a pause: missing SOL is named first.\<close>

definition pause_reason :: "executor \<Rightarrow> string" where
  "pause_reason x = (if solPaused x then TXT_SOL else TXT_DRAWDOWN)"

definition paused :: "executor \<Rightarrow> bool" where
  "paused x \<longleftrightarrow> drawdownPaused x \<or> solPaused x"

definition handle_ORCA_OPEN ::
  "('j, 'x) bot copy_ops \<Rightarrow> dispatch_config \<Rightarrow> handler_cx \<Rightarrow> string \<Rightarrow> string \<Rightarrow> string option \<Rightarrow> ('j, 'x) handler" where
  "handle_ORCA_OPEN ops cfg cx nft addr mints s =
     (if \<not> dex_enabled cfg ORCA then finish s
      else if paused (execs s ORCA) then skip cx nft (''Orca: '' @ pause_reason (execs s ORCA)) None s
      else if cx_wallet cx \<in> set (close_only cfg ORCA) then skip cx nft ''Orca close-only'' None s
      else if hasMapping nft s then skip cx nft (''Orca '' @ TXT_DUP_TARGET) None s
      else bind_proc (ask (CopyOpen ORCA nft addr None (cx_wallet cx)) (copyOpenPosition ops ORCA nft addr None (cx_wallet cx)))
             (after_open ORCA cx nft (\<lambda>r. ''Orca: '' @ r) (\<lambda>_. mints)
                (\<lambda>s1. if truthy mints then mints else pool_of nft s1)) s)"

definition handle_METEORA_OPEN ::
  "('j, 'x) bot copy_ops \<Rightarrow> dispatch_config \<Rightarrow> handler_cx \<Rightarrow> string \<Rightarrow> string \<Rightarrow> ('j, 'x) handler" where
  "handle_METEORA_OPEN ops cfg cx pos addr s =
     (if \<not> dex_enabled cfg METEORA then finish s
      else if paused (execs s METEORA) then skip cx pos (''Meteora: '' @ pause_reason (execs s METEORA)) None s
      else if cx_wallet cx \<in> set (close_only cfg METEORA) then skip cx pos ''Meteora close-only'' None s
      else if hasMapping pos s then skip cx pos (''Meteora '' @ TXT_DUP_TARGET) None s
      else bind_proc (ask (CopyOpen METEORA pos addr None (cx_wallet cx)) (copyOpenPosition ops METEORA pos addr None (cx_wallet cx)))
             (after_open METEORA cx pos (\<lambda>r. ''Meteora: '' @ r) (\<lambda>_. None) (pool_of pos)) s)"

definition handle_PCS_OPEN ::
  "('j, 'x) bot copy_ops \<Rightarrow> dispatch_config \<Rightarrow> handler_cx \<Rightarrow> string \<Rightarrow> string \<Rightarrow> string option \<Rightarrow> string option \<Rightarrow>
   ('j, 'x) handler" where
  "handle_PCS_OPEN ops cfg cx nft pid referer mints s =
     (if \<not> dex_enabled cfg PCS then finish s
      else if paused (execs s PCS) then skip cx nft (''PCS: '' @ pause_reason (execs s PCS)) None s
      else if cx_wallet cx \<in> set (close_only cfg PCS) then skip cx nft ''PCS close-only'' None s
      else (case resolve_mints PCS pid mints s of (known, s1) \<Rightarrow>
           if truthy known \<and> pcs_isTokenBlacklisted cfg (the known) then skip cx nft (''PCS '' @ TXT_BLACKLIST) known s1
           else (case cooldown_guard (at_guard (cx_times cx)) known s1 of (cooling, s2) \<Rightarrow>
                if cooling then skip cx nft (''PCS '' @ TXT_COOLDOWN) known s2
                else if hasMapping nft s2 then skip cx nft (''PCS '' @ TXT_DUP_TARGET) None s2
                else bind_proc (ask (CopyOpen PCS nft pid referer (cx_wallet cx))
                                    (copyOpenPosition ops PCS nft pid referer (cx_wallet cx)))
                       (after_open PCS cx nft (\<lambda>r. ''PCS: '' @ r) (pool_of nft) (pool_of nft)) s2)))"

definition handle_DAMMV2_OPEN ::
  "('j, 'x) bot copy_ops \<Rightarrow> dispatch_config \<Rightarrow> handler_cx \<Rightarrow> string \<Rightarrow> string \<Rightarrow> ('j, 'x) handler" where
  "handle_DAMMV2_OPEN ops cfg cx nft addr s =
     (if \<not> dex_enabled cfg DAMMV2 then finish s
      else if paused (execs s DAMMV2) then skip cx nft (''DAMMV2: '' @ pause_reason (execs s DAMMV2)) None s
      else if cx_wallet cx \<in> set (close_only cfg DAMMV2) then skip cx nft ''DAMMV2 close-only'' None s
      else if hasMapping nft s then skip cx nft (''DAMMV2 '' @ TXT_DUP_TARGET) None s
      else bind_proc (ask (CopyOpen DAMMV2 nft addr None (cx_wallet cx)) (copyOpenPosition ops DAMMV2 nft addr None (cx_wallet cx)))
             (after_open DAMMV2 cx nft (\<lambda>r. ''DAMMV2: '' @ r) (\<lambda>_. None) (pool_of nft)) s)"

text \<open>
  The four other DEXes share the text of their increase, decrease and close cases up to the name of
  the executor; an increase by a close-only wallet leaves no entry.
\<close>

definition handle_increase ::
  "('j, 'x) bot copy_ops \<Rightarrow> dispatch_config \<Rightarrow> handler_cx \<Rightarrow> dex_id \<Rightarrow> string \<Rightarrow> ('j, 'x) handler" where
  "handle_increase ops cfg cx d nft s =
     (if \<not> dex_enabled cfg d then finish s
      else if paused (execs s d) then skip cx nft (dex_word d @ '' paused'') None s
      else if cx_wallet cx \<in> set (close_only cfg d) then finish s
      else if \<not> hasMapping nft s then skip cx nft (no_mapping d) None s
      else bind_proc (ask (CopyIncrease d nft (cx_wallet cx)) (copyIncreaseLiquidity ops d nft (cx_wallet cx)))
             (\<lambda>ourSig. report cx ''INCREASE'' nft ourSig None [InvalidateAssetCaches]) s)"

definition handle_decrease ::
  "('j, 'x) bot copy_ops \<Rightarrow> dispatch_config \<Rightarrow> handler_cx \<Rightarrow> dex_id \<Rightarrow> string \<Rightarrow> ('j, 'x) handler" where
  "handle_decrease ops cfg cx d nft s =
     (if \<not> dex_enabled cfg d then finish s
      else if \<not> hasMapping nft s then skip cx nft (no_mapping d) None s
      else bind_proc (ask (CopyDecrease d nft) (copyDecreaseLiquidity ops d nft)) (after_decrease cx nft) s)"

definition handle_close ::
  "'b BN \<Rightarrow> ('j, 'x) bot copy_ops \<Rightarrow> dispatch_config \<Rightarrow> handler_cx \<Rightarrow> dex_id \<Rightarrow> string \<Rightarrow> received \<Rightarrow> ('j, 'x) handler" where
  "handle_close bn ops cfg cx d nft toks s0 =
     (if \<not> dex_enabled cfg d then finish s0
      else bind_proc (received_close bn cx toks) (\<lambda>_ s.
        if \<not> hasMapping nft s then skip cx nft (no_mapping d) None s
        else let closePool = pool_of nft s
             in bind_proc (ask (CopyClose d nft) (copyClosePosition ops d nft))
                  (\<lambda>ourSig. report cx ''CLOSE'' nft ourSig closePool [RefreshSolPrice, InvalidateAssetCaches]) s) s0)"

text \<open>The cases themselves.\<close>

definition handle_ORCA_INCREASE ::
  "('j, 'x) bot copy_ops \<Rightarrow> dispatch_config \<Rightarrow> handler_cx \<Rightarrow> string \<Rightarrow> ('j, 'x) handler" where
  "handle_ORCA_INCREASE ops cfg cx nft = handle_increase ops cfg cx ORCA nft"

definition handle_METEORA_ADD ::
  "('j, 'x) bot copy_ops \<Rightarrow> dispatch_config \<Rightarrow> handler_cx \<Rightarrow> string \<Rightarrow> ('j, 'x) handler" where
  "handle_METEORA_ADD ops cfg cx nft = handle_increase ops cfg cx METEORA nft"

definition handle_PCS_INCREASE ::
  "('j, 'x) bot copy_ops \<Rightarrow> dispatch_config \<Rightarrow> handler_cx \<Rightarrow> string \<Rightarrow> ('j, 'x) handler" where
  "handle_PCS_INCREASE ops cfg cx nft = handle_increase ops cfg cx PCS nft"

definition handle_DAMMV2_ADD ::
  "('j, 'x) bot copy_ops \<Rightarrow> dispatch_config \<Rightarrow> handler_cx \<Rightarrow> string \<Rightarrow> ('j, 'x) handler" where
  "handle_DAMMV2_ADD ops cfg cx nft = handle_increase ops cfg cx DAMMV2 nft"

definition handle_ORCA_DECREASE ::
  "('j, 'x) bot copy_ops \<Rightarrow> dispatch_config \<Rightarrow> handler_cx \<Rightarrow> string \<Rightarrow> ('j, 'x) handler" where
  "handle_ORCA_DECREASE ops cfg cx nft = handle_decrease ops cfg cx ORCA nft"

definition handle_METEORA_REMOVE ::
  "('j, 'x) bot copy_ops \<Rightarrow> dispatch_config \<Rightarrow> handler_cx \<Rightarrow> string \<Rightarrow> ('j, 'x) handler" where
  "handle_METEORA_REMOVE ops cfg cx nft = handle_decrease ops cfg cx METEORA nft"

definition handle_PCS_DECREASE ::
  "('j, 'x) bot copy_ops \<Rightarrow> dispatch_config \<Rightarrow> handler_cx \<Rightarrow> string \<Rightarrow> ('j, 'x) handler" where
  "handle_PCS_DECREASE ops cfg cx nft = handle_decrease ops cfg cx PCS nft"

definition handle_DAMMV2_REMOVE ::
  "('j, 'x) bot copy_ops \<Rightarrow> dispatch_config \<Rightarrow> handler_cx \<Rightarrow> string \<Rightarrow> ('j, 'x) handler" where
  "handle_DAMMV2_REMOVE ops cfg cx nft = handle_decrease ops cfg cx DAMMV2 nft"

definition handle_ORCA_CLOSE ::
  "'b BN \<Rightarrow> ('j, 'x) bot copy_ops \<Rightarrow> dispatch_config \<Rightarrow> handler_cx \<Rightarrow> string \<Rightarrow> received \<Rightarrow> ('j, 'x) handler" where
  "handle_ORCA_CLOSE bn ops cfg cx nft toks = handle_close bn ops cfg cx ORCA nft toks"

definition handle_PCS_CLOSE ::
  "'b BN \<Rightarrow> ('j, 'x) bot copy_ops \<Rightarrow> dispatch_config \<Rightarrow> handler_cx \<Rightarrow> string \<Rightarrow> received \<Rightarrow> ('j, 'x) handler" where
  "handle_PCS_CLOSE bn ops cfg cx nft toks = handle_close bn ops cfg cx PCS nft toks"

definition handle_DAMMV2_CLOSE ::
  "'b BN \<Rightarrow> ('j, 'x) bot copy_ops \<Rightarrow> dispatch_config \<Rightarrow> handler_cx \<Rightarrow> string \<Rightarrow> received \<Rightarrow> ('j, 'x) handler" where
  "handle_DAMMV2_CLOSE bn ops cfg cx nft toks = handle_close bn ops cfg cx DAMMV2 nft toks"

lemmas shared_cases =
  handle_ORCA_INCREASE_def handle_METEORA_ADD_def handle_PCS_INCREASE_def handle_DAMMV2_ADD_def
  handle_ORCA_DECREASE_def handle_METEORA_REMOVE_def handle_PCS_DECREASE_def handle_DAMMV2_REMOVE_def
  handle_ORCA_CLOSE_def handle_PCS_CLOSE_def handle_DAMMV2_CLOSE_def

text \<open>Meteora's close also reports an intended skip.\<close>

definition handle_METEORA_CLOSE ::
  "'b BN \<Rightarrow> ('j, 'x) bot copy_ops \<Rightarrow> dispatch_config \<Rightarrow> handler_cx \<Rightarrow> string \<Rightarrow> received \<Rightarrow> ('j, 'x) handler" where
  "handle_METEORA_CLOSE bn ops cfg cx pos toks s0 =
     (if \<not> dex_enabled cfg METEORA then finish s0
      else bind_proc (received_close bn cx toks) (\<lambda>_ s.
        if \<not> hasMapping pos s then skip cx pos (no_mapping METEORA) None s
        else let closePool = pool_of pos s
             in bind_proc (ask (CopyClose METEORA pos) (copyClosePosition ops METEORA pos))
                  (\<lambda>ourSig s1. case take_skip_reason METEORA s1 of (skipReason, s2) \<Rightarrow>
                     if ourSig = None \<and> truthy skipReason then skip cx pos (''Meteora: '' @ the skipReason) None s2
                     else report cx ''CLOSE'' pos ourSig closePool [RefreshSolPrice, InvalidateAssetCaches] s2) s) s0)"

definition handle_DAMMV2_CLAIM_FEE ::
  "('j, 'x) bot copy_ops \<Rightarrow> dispatch_config \<Rightarrow> handler_cx \<Rightarrow> string \<Rightarrow> ('j, 'x) handler" where
  "handle_DAMMV2_CLAIM_FEE ops cfg cx nft s =
     (if \<not> dex_enabled cfg DAMMV2 then finish s
      else if \<not> hasMapping nft s then skip cx nft (no_mapping DAMMV2) None s
      else bind_proc (ask (CopyClaimFee nft) (copyClaimFee ops nft)) (\<lambda>ourSig s1.
             finish (if truthy ourSig then start_tasks [InvalidateAssetCaches] s1 else s1)) s)"

section \<open>handleEvent\<close>

fun event_type :: "ParsedEvent \<Rightarrow> string" where
  "event_type (JUPITER_SWAP _ _ _ _ _ _ _ _) = ''JUPITER_SWAP''"
| "event_type (BYREAL_OPEN_POSITION _ _ _ _ _ _ _ _ _) = ''BYREAL_OPEN_POSITION''"
| "event_type (BYREAL_INCREASE_LIQUIDITY _) = ''BYREAL_INCREASE_LIQUIDITY''"
| "event_type (BYREAL_DECREASE_LIQUIDITY _ _) = ''BYREAL_DECREASE_LIQUIDITY''"
| "event_type (BYREAL_CLOSE_POSITION _ _) = ''BYREAL_CLOSE_POSITION''"
| "event_type (BYREAL_COLLECT_FEES _) = ''BYREAL_COLLECT_FEES''"
| "event_type (ORCA_OPEN_POSITION _ _ _ _ _) = ''ORCA_OPEN_POSITION''"
| "event_type (ORCA_CLOSE_POSITION _ _) = ''ORCA_CLOSE_POSITION''"
| "event_type (ORCA_INCREASE_LIQUIDITY _) = ''ORCA_INCREASE_LIQUIDITY''"
| "event_type (ORCA_DECREASE_LIQUIDITY _) = ''ORCA_DECREASE_LIQUIDITY''"
| "event_type (METEORA_OPEN_POSITION _ _ _ _) = ''METEORA_OPEN_POSITION''"
| "event_type (METEORA_CLOSE_POSITION _ _) = ''METEORA_CLOSE_POSITION''"
| "event_type (METEORA_ADD_LIQUIDITY _) = ''METEORA_ADD_LIQUIDITY''"
| "event_type (METEORA_REMOVE_LIQUIDITY _) = ''METEORA_REMOVE_LIQUIDITY''"
| "event_type (PCS_OPEN_POSITION _ _ _ _ _ _ _ _ _) = ''PCS_OPEN_POSITION''"
| "event_type (PCS_INCREASE_LIQUIDITY _) = ''PCS_INCREASE_LIQUIDITY''"
| "event_type (PCS_DECREASE_LIQUIDITY _ _) = ''PCS_DECREASE_LIQUIDITY''"
| "event_type (PCS_CLOSE_POSITION _ _) = ''PCS_CLOSE_POSITION''"
| "event_type (PCS_COLLECT_FEES _) = ''PCS_COLLECT_FEES''"
| "event_type (DAMMV2_OPEN_POSITION _ _) = ''DAMMV2_OPEN_POSITION''"
| "event_type (DAMMV2_CLOSE_POSITION _ _) = ''DAMMV2_CLOSE_POSITION''"
| "event_type (DAMMV2_ADD_LIQUIDITY _) = ''DAMMV2_ADD_LIQUIDITY''"
| "event_type (DAMMV2_REMOVE_LIQUIDITY _) = ''DAMMV2_REMOVE_LIQUIDITY''"
| "event_type (DAMMV2_CLAIM_FEE _) = ''DAMMV2_CLAIM_FEE''"
| "event_type UNKNOWN = ''UNKNOWN''"

definition eventDex :: "ParsedEvent \<Rightarrow> string option" where
  "eventDex ev =
     (if starts_with (event_type ev) ''DAMMV2_'' then Some ''dammv2''
      else if starts_with (event_type ev) ''ORCA_'' then Some ''orca''
      else if starts_with (event_type ev) ''METEORA_'' then Some ''meteora''
      else if starts_with (event_type ev) ''PCS_'' then Some ''pancakeswap''
      else if event_type ev = ''JUPITER_SWAP'' then None
      else if event_type ev = ''UNKNOWN'' then None
      else Some ''byreal'')"

definition handleEvent ::
  "'b BN \<Rightarrow> ('j, 'x) bot copy_ops \<Rightarrow> dispatch_config \<Rightarrow> times \<Rightarrow> string \<Rightarrow> ParsedEvent \<Rightarrow> ('j, 'x) handler" where
  "handleEvent bn ops cfg tm wallet ev =
     (let cx = \<lparr>cx_times = tm, cx_dex = eventDex ev, cx_wallet = wallet\<rparr>
      in (case ev of
            JUPITER_SWAP inM outM _ _ _ _ amt _ \<Rightarrow> handle_JUPITER_SWAP bn ops cfg cx inM outM amt
          | BYREAL_OPEN_POSITION pid _ _ _ ref _ _ nft mints \<Rightarrow> handle_BYREAL_OPEN ops cfg cx nft pid ref mints
          | BYREAL_INCREASE_LIQUIDITY nft \<Rightarrow> handle_BYREAL_INCREASE ops cfg cx nft
          | BYREAL_DECREASE_LIQUIDITY nft _ \<Rightarrow> handle_BYREAL_DECREASE ops cx nft
          | BYREAL_CLOSE_POSITION nft toks \<Rightarrow> handle_BYREAL_CLOSE bn ops cx nft toks
          | BYREAL_COLLECT_FEES nft \<Rightarrow> finish
          | ORCA_OPEN_POSITION addr _ _ nft mints \<Rightarrow> handle_ORCA_OPEN ops cfg cx nft addr mints
          | ORCA_CLOSE_POSITION nft toks \<Rightarrow> handle_ORCA_CLOSE bn ops cfg cx nft toks
          | ORCA_INCREASE_LIQUIDITY nft \<Rightarrow> handle_ORCA_INCREASE ops cfg cx nft
          | ORCA_DECREASE_LIQUIDITY nft \<Rightarrow> handle_ORCA_DECREASE ops cfg cx nft
          | METEORA_OPEN_POSITION addr _ _ pos \<Rightarrow> handle_METEORA_OPEN ops cfg cx pos addr
          | METEORA_CLOSE_POSITION pos toks \<Rightarrow> handle_METEORA_CLOSE bn ops cfg cx pos toks
          | METEORA_ADD_LIQUIDITY pos \<Rightarrow> handle_METEORA_ADD ops cfg cx pos
          | METEORA_REMOVE_LIQUIDITY pos \<Rightarrow> handle_METEORA_REMOVE ops cfg cx pos
          | PCS_OPEN_POSITION pid _ _ _ ref _ _ nft mints \<Rightarrow> handle_PCS_OPEN ops cfg cx nft pid ref mints
          | PCS_INCREASE_LIQUIDITY nft \<Rightarrow> handle_PCS_INCREASE ops cfg cx nft
          | PCS_DECREASE_LIQUIDITY nft _ \<Rightarrow> handle_PCS_DECREASE ops cfg cx nft
          | PCS_CLOSE_POSITION nft toks \<Rightarrow> handle_PCS_CLOSE bn ops cfg cx nft toks
          | PCS_COLLECT_FEES nft \<Rightarrow> finish
          | DAMMV2_OPEN_POSITION addr nft \<Rightarrow> handle_DAMMV2_OPEN ops cfg cx nft addr
          | DAMMV2_CLOSE_POSITION nft toks \<Rightarrow> handle_DAMMV2_CLOSE bn ops cfg cx nft toks
          | DAMMV2_ADD_LIQUIDITY nft \<Rightarrow> handle_DAMMV2_ADD ops cfg cx nft
          | DAMMV2_REMOVE_LIQUIDITY nft \<Rightarrow> handle_DAMMV2_REMOVE ops cfg cx nft
          | DAMMV2_CLAIM_FEE nft \<Rightarrow> handle_DAMMV2_CLAIM_FEE ops cfg cx nft
          | UNKNOWN \<Rightarrow> finish))"

text \<open>The body of the queued operation: the events one after the other; an error ends it and is logged.\<close>

fun handle_events ::
  "'b BN \<Rightarrow> ('j, 'x) bot copy_ops \<Rightarrow> dispatch_config \<Rightarrow> (nat \<Rightarrow> times) \<Rightarrow> string \<Rightarrow> nat \<Rightarrow> ParsedEvent list \<Rightarrow> ('j, 'x) handler" where
  "handle_events bn ops cfg tm wallet i [] = finish"
| "handle_events bn ops cfg tm wallet i (ev # evs) =
     bind_proc (handleEvent bn ops cfg (tm i) wallet ev) (\<lambda>_. handle_events bn ops cfg tm wallet (Suc i) evs)"

definition process_tx ::
  "'b BN \<Rightarrow> ('j, 'x) bot copy_ops \<Rightarrow> dispatch_config \<Rightarrow> (nat \<Rightarrow> times) \<Rightarrow> string \<Rightarrow> ParsedEvent list result \<Rightarrow>
   ('j, 'x) bot \<Rightarrow> copy_call list \<times> ('j, 'x) bot" where
  "process_tx bn ops cfg tm wallet parsed s =
     (case parsed of
        Inl e \<Rightarrow> ([], s)
      | Inr events \<Rightarrow> (case handle_events bn ops cfg tm wallet 0 events s of (r, cs, s') \<Rightarrow> (cs, s')))"

end
