(* ===== verification/Dispatch_Safety.thy ===== *)
theory Dispatch_Safety
  imports Dispatch
begin

text \<open>
  What the routing of \<^verbatim>\<open>handleEvent\<close> guarantees, for any behaviour of the executors: which copies an
  event can lead to, when an open is asked for, and that closes are never held back.
\<close>

section \<open>The copies a handler asks for\<close>

definition copies_of :: "('s, 'a) proc \<Rightarrow> 's \<Rightarrow> copy_call list" where
  "copies_of p s = fst (snd (p s))"

lemma copies_finish [simp]: "copies_of finish s = []"
  by (simp add: copies_of_def finish_def)

lemma copies_ask [simp]: "copies_of (ask c f) s = [c]"
  by (simp add: copies_of_def ask_def split: prod.splits)

lemma copies_skip [simp]: "copies_of (skip cx nft reason pl) s = []"
  by (simp add: copies_of_def skip_def finish_def)

lemma copies_report [simp]: "copies_of (report cx kind nft sig pl ts) s = []"
  by (simp add: copies_of_def report_def finish_def Let_def)

lemma copies_after_open [simp]: "copies_of (after_open d cx nft w p q sig) s = []"
proof -
  obtain r s1 where "take_skip_reason d s = (r, s1)" by fastforce
  then have "after_open d cx nft w p q sig s =
      (if sig = None \<and> truthy r then skip cx nft (w (the r)) (p s1) s1
       else report cx ''OPEN'' nft sig (q s1) [RefreshSolPrice, InvalidateAssetCaches] s1)"
    by (simp add: after_open_def)
  then show ?thesis
    using copies_skip [of cx nft "w (the r)" "p s1" s1]
      copies_report [of cx "''OPEN''" nft sig "q s1" "[RefreshSolPrice, InvalidateAssetCaches]" s1]
    by (simp add: copies_of_def)
qed

lemma copies_after_decrease [simp]: "copies_of (after_decrease cx nft r) s = []"
  by (simp add: copies_of_def after_decrease_def finish_def Let_def)

lemma copies_received [simp]: "copies_of (received_close bn cx toks) s = []"
  by (simp add: copies_of_def received_close_def split: prod.splits)

text \<open>A sequence whose second part asks for nothing.\<close>

lemma copies_bind_quiet: "(\<And>a s'. copies_of (f a) s' = []) \<Longrightarrow> copies_of (bind_proc p f) s = copies_of p s"
  by (auto simp: copies_of_def bind_proc_def split: prod.splits sum.splits) (metis fst_conv snd_conv)

lemma copies_bind_first:
  "copies_of p s = [] \<Longrightarrow>
   copies_of (bind_proc p f) s = (case fst (p s) of Inl e \<Rightarrow> [] | Inr a \<Rightarrow> copies_of (f a) (snd (snd (p s))))"
  by (auto simp: copies_of_def bind_proc_def split: prod.splits sum.splits)

lemma copies_if: "copies_of (\<lambda>s. if b s then p s else q s) s = (if b s then copies_of p s else copies_of q s)"
  by (simp add: copies_of_def)

lemma copies_asked [simp]:
  "copies_of (bind_proc (ask c f) (after_open d cx nft w p q)) s = [c]"
  "copies_of (bind_proc (ask c f') (\<lambda>r. report cx kind nft r pl ts)) s = [c]"
  "copies_of (bind_proc (ask c f'') (after_decrease cx nft)) s = [c]"
  by (simp_all add: copies_bind_quiet)

lemma received_result:
  "fst (received_close bn cx toks s) = Inr () \<longleftrightarrow>
     fst (recordBotCloseReceived bn (at_guard (cx_times cx)) toks (pendings s)) = None"
  "snd (snd (received_close bn cx toks s)) =
     s\<lparr>pendings := snd (recordBotCloseReceived bn (at_guard (cx_times cx)) toks (pendings s))\<rparr>"
  by (auto simp: received_close_def split: prod.splits option.splits)

section \<open>States the guards leave alone\<close>

lemma hasMapping_indep [simp]:
  "hasMapping nft (s\<lparr>risk := r\<rparr>) = hasMapping nft s"
  "hasMapping nft (s\<lparr>pendings := p\<rparr>) = hasMapping nft s"
  "hasMapping nft (s\<lparr>execs := x\<rparr>) = hasMapping nft s"
  by (simp_all add: hasMapping_def)

lemma isRefererDuplicate_indep [simp]:
  "isRefererDuplicate cfg ref w (s\<lparr>risk := r\<rparr>) = isRefererDuplicate cfg ref w s"
  "isRefererDuplicate cfg ref w (s\<lparr>execs := x\<rparr>) = isRefererDuplicate cfg ref w s"
  by (simp_all add: isRefererDuplicate_def)

lemma resolve_mints_state:
  "resolve_mints d pid mints s = (known, s1) \<Longrightarrow>
     hasMapping nft s1 = hasMapping nft s \<and> isRefererDuplicate cfg ref w s1 = isRefererDuplicate cfg ref w s \<and> risk s1 = risk s"
  by (auto simp: resolve_mints_def set_exec_def Let_def split: if_splits)

lemma cooldown_guard_state:
  "cooldown_guard now known s = (c, s1) \<Longrightarrow>
     hasMapping nft s1 = hasMapping nft s \<and> isRefererDuplicate cfg ref w s1 = isRefererDuplicate cfg ref w s \<and>
     (c \<longleftrightarrow> truthy known \<and> fst (isTokenCoolingDown now (the known) (risk s)))"
  by (auto simp: cooldown_guard_def coolingDown_def split: prod.splits if_splits)

section \<open>When an open is asked for\<close>

text \<open>The mints the guards use: what the cache or the event knows of the pool.\<close>

definition known_mints :: "dex_id \<Rightarrow> string \<Rightarrow> string option \<Rightarrow> ('j, 'x) bot \<Rightarrow> string option" where
  "known_mints d pid mints s = fst (resolve_mints d pid mints s)"

definition token_clear :: "dispatch_config \<Rightarrow> millis \<Rightarrow> dex_id \<Rightarrow> string option \<Rightarrow> ('j, 'x) bot \<Rightarrow> bool" where
  "token_clear cfg now d known s \<longleftrightarrow>
     (truthy known \<longrightarrow> \<not> fst (isTokenCoolingDown now (the known) (risk s)) \<and>
        \<not> (if d = PCS then pcs_isTokenBlacklisted cfg (the known) else isTokenBlacklisted (risk_cfg cfg) (the known)))"

definition may_open ::
  "dispatch_config \<Rightarrow> millis \<Rightarrow> string \<Rightarrow> dex_id \<Rightarrow> string \<Rightarrow> string \<Rightarrow> string option \<Rightarrow> string option \<Rightarrow> ('j, 'x) bot \<Rightarrow> bool" where
  "may_open cfg now wallet d nft pid ref mints s \<longleftrightarrow>
     (d \<noteq> BYREAL \<longrightarrow> dex_enabled cfg d) \<and> \<not> solPaused (execs s d) \<and> \<not> drawdownPaused (execs s d) \<and>
     wallet \<notin> set (close_only cfg d) \<and> \<not> hasMapping nft s \<and>
     (d = BYREAL \<or> d = PCS \<longrightarrow> token_clear cfg now d (known_mints d pid mints s) s) \<and>
     (d = BYREAL \<longrightarrow> \<not> isRefererDuplicate cfg ref wallet s)"

lemmas copies_raw = copies_skip [unfolded copies_of_def] copies_finish [unfolded copies_of_def]
  copies_asked [unfolded copies_of_def] copies_ask [unfolded copies_of_def]

lemma byreal_open_copies:
  "copies_of (handle_BYREAL_OPEN ops cfg cx nft pid ref mints) s =
     (if may_open cfg (at_guard (cx_times cx)) (cx_wallet cx) BYREAL nft pid ref mints s
      then [CopyOpen BYREAL nft pid ref (cx_wallet cx)] else [])"
proof -
  obtain known s1 where r: "resolve_mints BYREAL pid mints s = (known, s1)" by fastforce
  obtain c s2 where c: "cooldown_guard (at_guard (cx_times cx)) known s1 = (c, s2)" by fastforce
  note st = resolve_mints_state [OF r, of nft cfg ref "cx_wallet cx"] cooldown_guard_state [OF c, of nft cfg ref "cx_wallet cx"]
  have k: "known_mints BYREAL pid mints s = known" by (simp add: known_mints_def r)
  show ?thesis
    using st by (auto simp: handle_BYREAL_OPEN_def copies_of_def may_open_def token_clear_def r c k copies_raw)
qed

lemma pcs_open_copies:
  "copies_of (handle_PCS_OPEN ops cfg cx nft pid ref mints) s =
     (if may_open cfg (at_guard (cx_times cx)) (cx_wallet cx) PCS nft pid ref mints s
      then [CopyOpen PCS nft pid ref (cx_wallet cx)] else [])"
proof -
  obtain known s1 where r: "resolve_mints PCS pid mints s = (known, s1)" by fastforce
  obtain c s2 where c: "cooldown_guard (at_guard (cx_times cx)) known s1 = (c, s2)" by fastforce
  note st = resolve_mints_state [OF r, of nft cfg ref "cx_wallet cx"] cooldown_guard_state [OF c, of nft cfg ref "cx_wallet cx"]
  have k: "known_mints PCS pid mints s = known" by (simp add: known_mints_def r)
  show ?thesis
    using st by (auto simp: handle_PCS_OPEN_def copies_of_def may_open_def token_clear_def paused_def r c k copies_raw)
qed

lemma plain_open_copies:
  "copies_of (handle_ORCA_OPEN ops cfg cx nft addr mints) s =
     (if may_open cfg now (cx_wallet cx) ORCA nft addr None mints s then [CopyOpen ORCA nft addr None (cx_wallet cx)] else [])"
  "copies_of (handle_METEORA_OPEN ops cfg cx nft addr) s =
     (if may_open cfg now (cx_wallet cx) METEORA nft addr None None s then [CopyOpen METEORA nft addr None (cx_wallet cx)] else [])"
  "copies_of (handle_DAMMV2_OPEN ops cfg cx nft addr) s =
     (if may_open cfg now (cx_wallet cx) DAMMV2 nft addr None None s then [CopyOpen DAMMV2 nft addr None (cx_wallet cx)] else [])"
  by (auto simp: handle_ORCA_OPEN_def handle_METEORA_OPEN_def handle_DAMMV2_OPEN_def copies_of_def may_open_def paused_def copies_raw)

section \<open>The copy policy\<close>

text \<open>What an event asks the bot to mirror, and the copies the policy allows for it.\<close>

datatype action =
    AOpen dex_id string string "string option" "string option"
  | AIncrease dex_id string
  | ADecrease dex_id string
  | AClose dex_id string received
  | AClaim string
  | ASwap string string string
  | ANone

fun action_of :: "ParsedEvent \<Rightarrow> action" where
  "action_of (JUPITER_SWAP inM outM _ _ _ _ amt _) = ASwap inM outM amt"
| "action_of (BYREAL_OPEN_POSITION pid _ _ _ ref _ _ nft mints) = AOpen BYREAL nft pid ref mints"
| "action_of (ORCA_OPEN_POSITION addr _ _ nft mints) = AOpen ORCA nft addr None mints"
| "action_of (METEORA_OPEN_POSITION addr _ _ p) = AOpen METEORA p addr None None"
| "action_of (PCS_OPEN_POSITION pid _ _ _ ref _ _ nft mints) = AOpen PCS nft pid ref mints"
| "action_of (DAMMV2_OPEN_POSITION addr nft) = AOpen DAMMV2 nft addr None None"
| "action_of (BYREAL_INCREASE_LIQUIDITY nft) = AIncrease BYREAL nft"
| "action_of (ORCA_INCREASE_LIQUIDITY nft) = AIncrease ORCA nft"
| "action_of (METEORA_ADD_LIQUIDITY p) = AIncrease METEORA p"
| "action_of (PCS_INCREASE_LIQUIDITY nft) = AIncrease PCS nft"
| "action_of (DAMMV2_ADD_LIQUIDITY nft) = AIncrease DAMMV2 nft"
| "action_of (BYREAL_DECREASE_LIQUIDITY nft _) = ADecrease BYREAL nft"
| "action_of (ORCA_DECREASE_LIQUIDITY nft) = ADecrease ORCA nft"
| "action_of (METEORA_REMOVE_LIQUIDITY p) = ADecrease METEORA p"
| "action_of (PCS_DECREASE_LIQUIDITY nft _) = ADecrease PCS nft"
| "action_of (DAMMV2_REMOVE_LIQUIDITY nft) = ADecrease DAMMV2 nft"
| "action_of (BYREAL_CLOSE_POSITION nft toks) = AClose BYREAL nft toks"
| "action_of (ORCA_CLOSE_POSITION nft toks) = AClose ORCA nft toks"
| "action_of (METEORA_CLOSE_POSITION p toks) = AClose METEORA p toks"
| "action_of (PCS_CLOSE_POSITION nft toks) = AClose PCS nft toks"
| "action_of (DAMMV2_CLOSE_POSITION nft toks) = AClose DAMMV2 nft toks"
| "action_of (DAMMV2_CLAIM_FEE nft) = AClaim nft"
| "action_of (BYREAL_COLLECT_FEES _) = ANone"
| "action_of (PCS_COLLECT_FEES _) = ANone"
| "action_of UNKNOWN = ANone"

definition live :: "dispatch_config \<Rightarrow> dex_id \<Rightarrow> bool" where
  "live cfg d \<longleftrightarrow> d = BYREAL \<or> dex_enabled cfg d"

definition may_increase :: "dispatch_config \<Rightarrow> string \<Rightarrow> dex_id \<Rightarrow> string \<Rightarrow> ('j, 'x) bot \<Rightarrow> bool" where
  "may_increase cfg wallet d nft s \<longleftrightarrow>
     live cfg d \<and> \<not> solPaused (execs s d) \<and> \<not> drawdownPaused (execs s d) \<and> wallet \<notin> set (close_only cfg d) \<and>
     (d = BYREAL \<longrightarrow> \<not> (truthy (pool_of nft s) \<and> isTokenBlacklisted (risk_cfg cfg) (the (pool_of nft s)))) \<and>
     hasMapping nft s"

text \<open>The received amounts of a close are all numbers.\<close>

definition amounts_ok :: "'b BN \<Rightarrow> millis \<Rightarrow> received \<Rightarrow> ('j, 'x) bot \<Rightarrow> bool" where
  "amounts_ok bn now toks s \<longleftrightarrow> fst (recordBotCloseReceived bn now toks (pendings s)) = None"

definition swap_ratio :: "dispatch_config \<Rightarrow> string \<Rightarrow> js_num" where
  "swap_ratio cfg wallet =
     (case List.map_filter (\<lambda>d. map_of (wallet_ratios cfg d) wallet) [ORCA, METEORA, PCS, DAMMV2, BYREAL] of
        r # _ \<Rightarrow> r | [] \<Rightarrow> amount_ratio cfg)"

fun policy :: "'b BN \<Rightarrow> dispatch_config \<Rightarrow> millis \<Rightarrow> string \<Rightarrow> ('j, 'x) bot \<Rightarrow> action \<Rightarrow> copy_call list" where
  "policy bn cfg now wallet s (AOpen d nft pid ref mints) =
     (if may_open cfg now wallet d nft pid ref mints s then [CopyOpen d nft pid ref wallet] else [])"
| "policy bn cfg now wallet s (AIncrease d nft) =
     (if may_increase cfg wallet d nft s then [CopyIncrease d nft wallet] else [])"
| "policy bn cfg now wallet s (ADecrease d nft) =
     (if live cfg d \<and> hasMapping nft s then [CopyDecrease d nft] else [])"
| "policy bn cfg now wallet s (AClose d nft toks) =
     (if live cfg d \<and> hasMapping nft s \<and> amounts_ok bn now toks s then [CopyClose d nft] else [])"
| "policy bn cfg now wallet s (AClaim nft) =
     (if dex_enabled cfg DAMMV2 \<and> hasMapping nft s then [CopyClaimFee nft] else [])"
| "policy bn cfg now wallet s (ASwap inM outM amt) =
     (if outM = USDC_MINT
      then (case computeSwapCapRaw bn (Some amt) (swap_ratio cfg wallet) of
              Inr (Some cap) \<Rightarrow> [SwapToUSDC inM cap] | _ \<Rightarrow> [])
      else [])"
| "policy bn cfg now wallet s ANone = []"

lemma increase_copies:
  "copies_of (handle_BYREAL_INCREASE ops cfg cx nft) s =
     (if may_increase cfg (cx_wallet cx) BYREAL nft s then [CopyIncrease BYREAL nft (cx_wallet cx)] else [])"
  "d \<noteq> BYREAL \<Longrightarrow> copies_of (handle_increase ops cfg cx d nft) s =
     (if may_increase cfg (cx_wallet cx) d nft s then [CopyIncrease d nft (cx_wallet cx)] else [])"
  by (auto simp: handle_BYREAL_INCREASE_def handle_increase_def copies_of_def may_increase_def paused_def live_def copies_raw)

lemma decrease_copies:
  "copies_of (handle_BYREAL_DECREASE ops cx nft) s = (if hasMapping nft s then [CopyDecrease BYREAL nft] else [])"
  "copies_of (handle_decrease ops cfg cx d nft) s =
     (if dex_enabled cfg d \<and> hasMapping nft s then [CopyDecrease d nft] else [])"
  by (auto simp: handle_BYREAL_DECREASE_def handle_decrease_def copies_of_def copies_raw)

text \<open>A close: the amounts are recorded, then the mapping decides.\<close>

lemma close_bind_copies:
  assumes "\<And>s'. copies_of (body ()) s' = (if hasMapping nft s' then [c] else [])"
  shows "copies_of (bind_proc (received_close bn cx toks) body) s =
     (if hasMapping nft s \<and> amounts_ok bn (at_guard (cx_times cx)) toks s then [c] else [])"
proof -
  have "copies_of (bind_proc (received_close bn cx toks) body) s =
      (case fst (received_close bn cx toks s) of Inl e \<Rightarrow> [] | Inr a \<Rightarrow> copies_of (body a) (snd (snd (received_close bn cx toks s))))"
    by (rule copies_bind_first) simp
  then show ?thesis
    using received_result [of bn cx toks s] assms
    by (cases "fst (received_close bn cx toks s)") (auto simp: amounts_ok_def)
qed

lemma meteora_close_quiet:
  "copies_of (\<lambda>s1. case take_skip_reason METEORA s1 of (r, s2) \<Rightarrow>
     if sig = None \<and> truthy r then skip cx p (w r) None s2 else report cx kind p sig pl ts s2) s = []"
  by (auto simp: copies_of_def copies_raw copies_report [unfolded copies_of_def] split: prod.splits)

lemma meteora_close_asked:
  "fst (snd (bind_proc (ask c f) (\<lambda>sig s1. case take_skip_reason METEORA s1 of (r, s2) \<Rightarrow>
     if sig = None \<and> truthy r then skip cx p (w r) None s2 else report cx kind p sig pl ts s2) s)) = [c]"
  by (fold copies_of_def) (simp add: copies_bind_quiet meteora_close_quiet)

lemma close_copies:
  "copies_of (handle_BYREAL_CLOSE bn ops cx nft toks) s =
     (if hasMapping nft s \<and> amounts_ok bn (at_guard (cx_times cx)) toks s then [CopyClose BYREAL nft] else [])"
  "copies_of (handle_close bn ops cfg cx d nft toks) s =
     (if dex_enabled cfg d \<and> hasMapping nft s \<and> amounts_ok bn (at_guard (cx_times cx)) toks s then [CopyClose d nft] else [])"
  "copies_of (handle_METEORA_CLOSE bn ops cfg cx nft toks) s =
     (if dex_enabled cfg METEORA \<and> hasMapping nft s \<and> amounts_ok bn (at_guard (cx_times cx)) toks s
      then [CopyClose METEORA nft] else [])"
proof -
  show "copies_of (handle_BYREAL_CLOSE bn ops cx nft toks) s =
      (if hasMapping nft s \<and> amounts_ok bn (at_guard (cx_times cx)) toks s then [CopyClose BYREAL nft] else [])"
    unfolding handle_BYREAL_CLOSE_def by (rule close_bind_copies) (simp add: copies_of_def copies_raw Let_def)
  show "copies_of (handle_close bn ops cfg cx d nft toks) s =
      (if dex_enabled cfg d \<and> hasMapping nft s \<and> amounts_ok bn (at_guard (cx_times cx)) toks s then [CopyClose d nft] else [])"
    unfolding handle_close_def
    by (subst copies_if, subst close_bind_copies) (auto simp: copies_of_def copies_raw Let_def)
  show "copies_of (handle_METEORA_CLOSE bn ops cfg cx nft toks) s =
      (if dex_enabled cfg METEORA \<and> hasMapping nft s \<and> amounts_ok bn (at_guard (cx_times cx)) toks s
       then [CopyClose METEORA nft] else [])"
    unfolding handle_METEORA_CLOSE_def
    by (subst copies_if, subst close_bind_copies) (auto simp: copies_of_def copies_raw meteora_close_asked Let_def)
qed

lemma claim_copies:
  "copies_of (handle_DAMMV2_CLAIM_FEE ops cfg cx nft) s =
     (if dex_enabled cfg DAMMV2 \<and> hasMapping nft s then [CopyClaimFee nft] else [])"
proof -
  have "copies_of (bind_proc (ask c f) (\<lambda>sig s1. finish (if truthy sig then start_tasks ts s1 else s1))) s = [c]" for c f ts
    by (subst copies_bind_quiet) (simp_all add: copies_of_def finish_def copies_raw)
  then show ?thesis by (auto simp: handle_DAMMV2_CLAIM_FEE_def copies_of_def copies_raw)
qed

lemma swap_ratio_chain:
  "or_else (map_of (wallet_ratios cfg ORCA) w) (or_else (map_of (wallet_ratios cfg METEORA) w)
     (or_else (map_of (wallet_ratios cfg PCS) w) (or_else (map_of (wallet_ratios cfg DAMMV2) w)
     (or_else (map_of (wallet_ratios cfg BYREAL) w) (amount_ratio cfg))))) = swap_ratio cfg w"
  by (auto simp: swap_ratio_def or_else_def List.map_filter_def split: option.splits)

lemma swap_copies:
  "copies_of (handle_JUPITER_SWAP bn ops cfg cx inM outM amt) s = policy bn cfg now (cx_wallet cx) s' (ASwap inM outM amt)"
proof -
  have "copies_of (bind_proc (ask c f) (\<lambda>r s1. case r of None \<Rightarrow> finish s1 | Some (a, b, d) \<Rightarrow> finish (g a b d s1))) s = [c]" for c f g
    by (subst copies_bind_quiet) (auto simp: copies_of_def finish_def copies_raw split: option.splits prod.splits)
  then show ?thesis
    by (auto simp: handle_JUPITER_SWAP_def Let_def swap_ratio_chain copies_of_def copies_raw
        split: sum.splits option.splits)
qed

lemma handleEvent_copies:
  "copies_of (handleEvent bn ops cfg tm wallet ev) s = policy bn cfg (at_guard tm) wallet s (action_of ev)"
  by (cases ev)
    (simp_all add: handleEvent_def shared_cases byreal_open_copies pcs_open_copies
      plain_open_copies [where now = "at_guard tm"] increase_copies decrease_copies close_copies claim_copies
      swap_copies [where now = "at_guard tm" and s' = s] live_def)

text \<open>
  C3: \<^verbatim>\<open>handleEvent\<close> implements the copy policy. Whatever the executors do, the copies it asks for are
  exactly those of the policy: at most one, of the event's kind, DEX and position. An open needs a
  live DEX without pause, a wallet that is not close-only, no mapping for the position yet, and, on
  Byreal and PancakeSwap, tokens that are neither blacklisted nor cooling down, on Byreal also no
  duplicate referer; an increase needs the same of pauses, wallet and blacklist, and a mapping;
  decreases and closes need a mapping only, so no pause and no list holds them back; a swap to USDC is
  copied up to the scaled amount when that is positive.
\<close>

theorem dispatch_policy:
  "copies_of (handleEvent bn ops cfg tm wallet ev) s = policy bn cfg (at_guard tm) wallet s (action_of ev) \<and>
   length (copies_of (handleEvent bn ops cfg tm wallet ev) s) \<le> 1"
proof -
  have "length (policy bn cfg (at_guard tm) wallet s a) \<le> 1" for a
    by (cases a) (auto split: sum.splits option.splits)
  then show ?thesis by (simp add: handleEvent_copies)
qed

section \<open>Events that are not copied\<close>

text \<open>All the state outside the feed, the caches of pool mints and expired cooldowns.\<close>

definition same_book :: "('j, 'x) bot \<Rightarrow> ('j, 'x) bot \<Rightarrow> bool" where
  "same_book s s' \<longleftrightarrow>
     positions s' = positions s \<and> referers s' = referers s \<and> background s' = background s \<and> other s' = other s \<and>
     startAssetUsd s' = startAssetUsd s \<and> drawdownWarning s' = drawdownWarning s \<and>
     tokenPnls (risk s') = tokenPnls (risk s) \<and>
     (\<forall>d. solPaused (execs s' d) = solPaused (execs s d) \<and> drawdownPaused (execs s' d) = drawdownPaused (execs s d) \<and>
          lastSkipReason (execs s' d) = lastSkipReason (execs s d)) \<and>
     (feed_calls s' = feed_calls s \<or> (\<exists>e. ev_type e = ''SKIP'' \<and> feed_calls s' = feed_calls s @ [AL_event e]))"

lemma same_book_refl [simp]: "same_book s s"
  by (simp add: same_book_def)

lemma skip_event_call:
  "pushEvent (entry_of now ''SKIP'' w nft sig ok err pl) tag m = (m', ws) \<Longrightarrow> \<exists>e. ev_type e = ''SKIP'' \<and> ws = [AL_event e]"
  by (auto simp: pushEvent_def entry_of_def Let_def)

text \<open>State after a skip: one entry more.\<close>

lemma same_book_skip:
  assumes "same_book s s1" and "feed_calls s1 = feed_calls s"
  shows "same_book s (snd (snd (skip cx nft reason pl s1)))"
proof -
  obtain m ws where "pushEvent (entry_of (at_push (cx_times cx)) ''SKIP'' (cx_wallet cx) (Some nft) None True (Some reason) pl)
      (cx_dex cx) (feed s1) = (m, ws)" by fastforce
  moreover from this have "\<exists>e. ev_type e = ''SKIP'' \<and> ws = [AL_event e]" by (rule skip_event_call)
  ultimately show ?thesis using assms by (auto simp: same_book_def skip_def finish_def push_event_def)
qed

lemma same_book_resolve:
  "resolve_mints d pid mints s = (known, s1) \<Longrightarrow> same_book s s1 \<and> feed_calls s1 = feed_calls s"
  by (auto simp: resolve_mints_def set_exec_def same_book_def Let_def split: if_splits)

lemma same_book_cooldown:
  "cooldown_guard now known s1 = (c, s2) \<Longrightarrow> same_book s s1 \<Longrightarrow> feed_calls s1 = feed_calls s \<Longrightarrow>
     same_book s s2 \<and> feed_calls s2 = feed_calls s"
proof -
  assume c: "cooldown_guard now known s1 = (c, s2)" and b: "same_book s s1" "feed_calls s1 = feed_calls s"
  have t: "tokenPnls (snd (isTokenCoolingDown now p r)) = tokenPnls r" for p r
    by (simp add: isTokenCoolingDown_def Let_def split: option.splits)
  obtain r where "s2 = s1\<lparr>risk := r\<rparr>" and "tokenPnls r = tokenPnls (risk s1)"
  proof (cases "truthy known")
    case True
    with c have "s2 = s1\<lparr>risk := snd (isTokenCoolingDown now (the known) (risk s1))\<rparr>"
      by (auto simp: cooldown_guard_def coolingDown_def split: prod.splits)
    with that t show thesis by blast
  next
    case False
    with c that [of "risk s1"] show thesis by (simp add: cooldown_guard_def)
  qed
  with b show ?thesis by (simp add: same_book_def)
qed

lemma same_book_received:
  "same_book s (snd (snd (received_close bn cx toks s))) \<and> feed_calls (snd (snd (received_close bn cx toks s))) = feed_calls s"
  by (auto simp: received_close_def same_book_def split: prod.splits)

lemma open_uncopied:
  "copies_of (handle_BYREAL_OPEN ops cfg cx nft pid ref mints) s = [] \<Longrightarrow>
     same_book s (snd (snd (handle_BYREAL_OPEN ops cfg cx nft pid ref mints s)))"
  "copies_of (handle_PCS_OPEN ops cfg cx nft pid ref mints) s = [] \<Longrightarrow>
     same_book s (snd (snd (handle_PCS_OPEN ops cfg cx nft pid ref mints s)))"
proof -
  obtain known s1 where r: "resolve_mints BYREAL pid mints s = (known, s1)" by fastforce
  obtain c s2 where c: "cooldown_guard (at_guard (cx_times cx)) known s1 = (c, s2)" by fastforce
  note b = same_book_resolve [OF r]
  note b2 = same_book_cooldown [OF c conjunct1 [OF b] conjunct2 [OF b]]
  show "copies_of (handle_BYREAL_OPEN ops cfg cx nft pid ref mints) s = [] \<Longrightarrow>
      same_book s (snd (snd (handle_BYREAL_OPEN ops cfg cx nft pid ref mints s)))"
    using b b2 by (auto simp: handle_BYREAL_OPEN_def copies_of_def r c copies_raw intro: same_book_skip split: if_splits)
next
  obtain known s1 where r: "resolve_mints PCS pid mints s = (known, s1)" by fastforce
  obtain c s2 where c: "cooldown_guard (at_guard (cx_times cx)) known s1 = (c, s2)" by fastforce
  note b = same_book_resolve [OF r]
  note b2 = same_book_cooldown [OF c conjunct1 [OF b] conjunct2 [OF b]]
  show "copies_of (handle_PCS_OPEN ops cfg cx nft pid ref mints) s = [] \<Longrightarrow>
      same_book s (snd (snd (handle_PCS_OPEN ops cfg cx nft pid ref mints s)))"
    using b b2 by (auto simp: handle_PCS_OPEN_def copies_of_def r c copies_raw finish_def intro: same_book_skip split: if_splits)
qed

lemma plain_uncopied:
  "copies_of (handle_ORCA_OPEN ops cfg cx nft addr mints) s = [] \<Longrightarrow> same_book s (snd (snd (handle_ORCA_OPEN ops cfg cx nft addr mints s)))"
  "copies_of (handle_METEORA_OPEN ops cfg cx nft addr) s = [] \<Longrightarrow> same_book s (snd (snd (handle_METEORA_OPEN ops cfg cx nft addr s)))"
  "copies_of (handle_DAMMV2_OPEN ops cfg cx nft addr) s = [] \<Longrightarrow> same_book s (snd (snd (handle_DAMMV2_OPEN ops cfg cx nft addr s)))"
  "copies_of (handle_BYREAL_INCREASE ops cfg cx nft) s = [] \<Longrightarrow> same_book s (snd (snd (handle_BYREAL_INCREASE ops cfg cx nft s)))"
  "copies_of (handle_increase ops cfg cx d nft) s = [] \<Longrightarrow> same_book s (snd (snd (handle_increase ops cfg cx d nft s)))"
  "copies_of (handle_BYREAL_DECREASE ops cx nft) s = [] \<Longrightarrow> same_book s (snd (snd (handle_BYREAL_DECREASE ops cx nft s)))"
  "copies_of (handle_decrease ops cfg cx d nft) s = [] \<Longrightarrow> same_book s (snd (snd (handle_decrease ops cfg cx d nft s)))"
  by (auto simp: handle_ORCA_OPEN_def handle_METEORA_OPEN_def handle_DAMMV2_OPEN_def handle_BYREAL_INCREASE_def
      handle_increase_def handle_BYREAL_DECREASE_def handle_decrease_def copies_of_def copies_raw finish_def
      intro: same_book_skip split: if_splits)

lemma close_bind_uncopied:
  assumes "copies_of (bind_proc (received_close bn cx toks) body) s = []"
    and "\<And>s'. copies_of (body ()) s' = [] \<Longrightarrow> \<exists>reason. body () s' = skip cx nft reason None s'"
  shows "same_book s (snd (snd (bind_proc (received_close bn cx toks) body s)))"
proof -
  obtain r cs s1 where r: "received_close bn cx toks s = (r, cs, s1)" by (rule prod_cases3)
  have b: "same_book s s1" "feed_calls s1 = feed_calls s" and cs: "cs = []"
    using same_book_received [of s bn cx toks] copies_received [of bn cx toks s] r by (simp_all add: copies_of_def)
  show ?thesis
  proof (cases r)
    case (Inl e)
    with r b show ?thesis by (simp add: bind_proc_def)
  next
    case (Inr u)
    with assms(1) r cs have "copies_of (body ()) s1 = []"
      by (auto simp: copies_of_def bind_proc_def split: prod.splits)
    then obtain reason where e: "body () s1 = skip cx nft reason None s1" using assms(2) by blast
    have "same_book s (snd (snd (skip cx nft reason None s1)))" by (rule same_book_skip [OF b])
    with Inr r e show ?thesis by (auto simp: bind_proc_def split: prod.splits)
  qed
qed

lemma close_uncopied:
  "copies_of (handle_BYREAL_CLOSE bn ops cx nft toks) s = [] \<Longrightarrow>
     same_book s (snd (snd (handle_BYREAL_CLOSE bn ops cx nft toks s)))"
  "copies_of (handle_close bn ops cfg cx d nft toks) s = [] \<Longrightarrow>
     same_book s (snd (snd (handle_close bn ops cfg cx d nft toks s)))"
  "copies_of (handle_METEORA_CLOSE bn ops cfg cx nft toks) s = [] \<Longrightarrow>
     same_book s (snd (snd (handle_METEORA_CLOSE bn ops cfg cx nft toks s)))"
proof -
  show "copies_of (handle_BYREAL_CLOSE bn ops cx nft toks) s = [] \<Longrightarrow>
      same_book s (snd (snd (handle_BYREAL_CLOSE bn ops cx nft toks s)))"
    unfolding handle_BYREAL_CLOSE_def
    by (erule close_bind_uncopied [where nft = nft]) (auto simp: copies_of_def copies_raw Let_def split: if_splits)
  show "same_book s (snd (snd (handle_close bn ops cfg cx d nft toks s)))"
    if "copies_of (handle_close bn ops cfg cx d nft toks) s = []"
  proof (cases "dex_enabled cfg d")
    case True
    from that True show ?thesis unfolding handle_close_def copies_if
      by (auto intro!: close_bind_uncopied [where nft = nft] simp: copies_of_def copies_raw Let_def split: if_splits)
  qed (simp add: handle_close_def finish_def)
  show "same_book s (snd (snd (handle_METEORA_CLOSE bn ops cfg cx nft toks s)))"
    if "copies_of (handle_METEORA_CLOSE bn ops cfg cx nft toks) s = []"
  proof (cases "dex_enabled cfg METEORA")
    case True
    from that True show ?thesis unfolding handle_METEORA_CLOSE_def copies_if
      by (auto intro!: close_bind_uncopied [where nft = nft] simp: copies_of_def copies_raw meteora_close_asked Let_def
          split: if_splits)
  qed (simp add: handle_METEORA_CLOSE_def finish_def)
qed

lemma other_uncopied:
  "copies_of (handle_DAMMV2_CLAIM_FEE ops cfg cx nft) s = [] \<Longrightarrow>
     same_book s (snd (snd (handle_DAMMV2_CLAIM_FEE ops cfg cx nft s)))"
  "copies_of (handle_JUPITER_SWAP bn ops cfg cx inM outM amt) s = [] \<Longrightarrow>
     same_book s (snd (snd (handle_JUPITER_SWAP bn ops cfg cx inM outM amt s)))"
proof -
  assume "copies_of (handle_DAMMV2_CLAIM_FEE ops cfg cx nft) s = []"
  then have "\<not> (dex_enabled cfg DAMMV2 \<and> hasMapping nft s)" by (auto simp: claim_copies split: if_splits)
  then show "same_book s (snd (snd (handle_DAMMV2_CLAIM_FEE ops cfg cx nft s)))"
    by (auto simp: handle_DAMMV2_CLAIM_FEE_def finish_def intro: same_book_skip)
next
  assume "copies_of (handle_JUPITER_SWAP bn ops cfg cx inM outM amt) s = []"
  then have "outM \<noteq> USDC_MINT \<or> (\<forall>cap. computeSwapCapRaw bn (Some amt) (swap_ratio cfg (cx_wallet cx)) \<noteq> Inr (Some cap))"
    by (auto simp: swap_copies [where now = 0 and s' = s] split: if_splits)
  then show "same_book s (snd (snd (handle_JUPITER_SWAP bn ops cfg cx inM outM amt s)))"
    by (auto simp: handle_JUPITER_SWAP_def Let_def swap_ratio_chain finish_def split: sum.splits option.splits)
qed

text \<open>
  An event that is not copied changes nothing of the book. When no copy is asked for, the position
  map, the referers, the PnL records, every executor's pauses and skip reason and the background work
  are as before, and the feed has at most one entry more, a \<^verbatim>\<open>SKIP\<close>.
\<close>

theorem uncopied_event_frame:
  assumes "copies_of (handleEvent bn ops cfg tm wallet ev) s = []"
  shows "same_book s (snd (snd (handleEvent bn ops cfg tm wallet ev s)))"
  using assms
  by (cases ev) (simp_all add: handleEvent_def shared_cases open_uncopied plain_uncopied close_uncopied other_uncopied finish_def)

section \<open>From a transaction to the copies\<close>

lemma bind_proc_copies:
  "c \<in> set (copies_of (bind_proc p f) s) \<Longrightarrow> c \<in> set (copies_of p s) \<or> (\<exists>a s'. c \<in> set (copies_of (f a) s'))"
  by (auto simp: copies_of_def bind_proc_def split: prod.splits sum.splits) (metis fst_conv snd_conv)

lemma handle_events_copies:
  fixes s :: "('j, 'x) bot"
  shows "c \<in> set (copies_of (handle_events bn ops cfg tm wallet i evs) s) \<Longrightarrow>
     \<exists>ev \<in> set evs. \<exists>j. \<exists>s' :: ('j, 'x) bot. c \<in> set (policy bn cfg (at_guard (tm j)) wallet s' (action_of ev))"
proof (induction evs arbitrary: i s)
  case (Cons ev evs)
  from Cons.prems consider "c \<in> set (copies_of (handleEvent bn ops cfg (tm i) wallet ev) s)"
    | s' where "c \<in> set (copies_of (handle_events bn ops cfg tm wallet (Suc i) evs) s')"
    by (auto dest!: bind_proc_copies)
  then show ?case
  proof cases
    case 1
    then have "c \<in> set (policy bn cfg (at_guard (tm i)) wallet s (action_of ev))" by (simp add: handleEvent_copies)
    then show ?thesis by (intro bexI [of _ ev] exI [of _ i] exI [of _ s]) simp_all
  next
    case 2
    then show ?thesis using Cons.IH by fastforce
  qed
qed simp

lemma parsed_about_target:
  assumes "parseTransaction bs58 cfg rpc logs target = Inr evs" and "ev \<in> set evs" and "ev \<noteq> UNKNOWN"
  obtains tx b where "b < 3" and "rpc b = Fetched tx" and "\<not> meta_failed tx" and "about_target cfg tx target ev"
  using assms(1)
proof (cases rule: parseTransaction_cases)
  case 1
  with assms show ?thesis by simp
next
  case (2 tx)
  then obtain b where "b < 3" "rpc b = Fetched tx" using fetch_from_Some by blast
  moreover have "about_target cfg tx target ev" using dex_events_ok [OF 2(4) assms(2)] by simp
  ultimately show ?thesis using that 2 by blast
next
  case (3 tx e)
  then obtain b where "b < 3" "rpc b = Fetched tx" using fetch_from_Some by blast
  moreover have "about_target cfg tx target ev" using swap_about_target [OF 3(5)] 3(6) assms(2) by simp
  ultimately show ?thesis using that 3 by blast
qed

text \<open>What a copy must have behind it in the transaction that led to it.\<close>

fun call_about :: "parser_config \<Rightarrow> ParsedTx \<Rightarrow> pubkey \<Rightarrow> copy_call \<Rightarrow> bool" where
  "call_about cfg tx w (CopyOpen d nft pid ref wallet) \<longleftrightarrow>
     wallet = w \<and> (if d = METEORA then named_with cfg tx w nft else nft_opened tx w nft)"
| "call_about cfg tx w (CopyIncrease d nft wallet) \<longleftrightarrow>
     wallet = w \<and> (if d = METEORA then named_with cfg tx w nft else nft_held tx w nft)"
| "call_about cfg tx w (CopyDecrease d nft) \<longleftrightarrow> (if d = METEORA then named_with cfg tx w nft else nft_held tx w nft)"
| "call_about cfg tx w (CopyClose d nft) \<longleftrightarrow> (if d = METEORA then named_with cfg tx w nft else nft_burned tx w nft)"
| "call_about cfg tx w (CopyClaimFee nft) \<longleftrightarrow> nft_held tx w nft"
| "call_about cfg tx w (SwapToUSDC m cap) \<longleftrightarrow> m \<in> insert SOL_MINT (owned_mints tx w)"

fun action_about :: "parser_config \<Rightarrow> ParsedTx \<Rightarrow> pubkey \<Rightarrow> action \<Rightarrow> bool" where
  "action_about cfg tx w (AOpen d nft pid ref mints) \<longleftrightarrow> (if d = METEORA then named_with cfg tx w nft else nft_opened tx w nft)"
| "action_about cfg tx w (AIncrease d nft) \<longleftrightarrow> (if d = METEORA then named_with cfg tx w nft else nft_held tx w nft)"
| "action_about cfg tx w (ADecrease d nft) \<longleftrightarrow> (if d = METEORA then named_with cfg tx w nft else nft_held tx w nft)"
| "action_about cfg tx w (AClose d nft toks) \<longleftrightarrow> (if d = METEORA then named_with cfg tx w nft else nft_burned tx w nft)"
| "action_about cfg tx w (AClaim nft) \<longleftrightarrow> nft_held tx w nft"
| "action_about cfg tx w (ASwap inM outM amt) \<longleftrightarrow> inM \<in> insert SOL_MINT (owned_mints tx w)"
| "action_about cfg tx w ANone \<longleftrightarrow> True"

lemma event_action_about: "about_target pcfg tx w ev \<Longrightarrow> action_about pcfg tx w (action_of ev)"
  by (cases ev) simp_all

lemma in_singleton_if: "c \<in> set (if b then [d] else []) \<longleftrightarrow> b \<and> c = d"
  by auto

lemma policy_swap:
  "c \<in> set (policy bn cfg now w s (ASwap inM outM amt)) \<Longrightarrow> \<exists>cap'. c = SwapToUSDC inM cap'"
  by (cases "computeSwapCapRaw bn (Some amt) (swap_ratio cfg w)"; cases "outM = USDC_MINT")
    (auto split: option.splits)

lemma policy_about:
  assumes "c \<in> set (policy bn cfg now w s a)" and "action_about pcfg tx w a"
  shows "call_about pcfg tx w c"
proof (cases a)
  case (ASwap inM outM amt)
  then obtain cap' where "c = SwapToUSDC inM cap'" using policy_swap assms(1) by metis
  with assms(2) ASwap show ?thesis by simp
qed (use assms in \<open>simp_all only: policy.simps in_singleton_if, auto\<close>)

text \<open>
  C2: the bot copies only what the target did. Whatever the node answers, whatever the executors do and
  whatever the state, every copy that the handling of a transaction asks for is about a position (or
  token) of the target wallet in that transaction, which was fetched and succeeded: an open copies a
  position whose NFT arrived in an account of the target, a close one whose NFT the target held and
  that is gone, an increase, decrease or claim one the target holds; on Meteora DLMM the position
  and the target are named in one instruction of the Meteora program; a swap sells a token the target
  has an account of.
\<close>

theorem copies_concern_target:
  fixes s :: "('j, 'x) bot"
  assumes "c \<in> set (fst (process_tx bn ops cfg tm wallet (parseTransaction bs58 pcfg rpc logs wallet) s))"
  shows "\<exists>b tx. b < 3 \<and> rpc b = Fetched tx \<and> \<not> meta_failed tx \<and> call_about pcfg tx wallet c"
proof -
  obtain evs where evs: "parseTransaction bs58 pcfg rpc logs wallet = Inr evs"
    using assms by (cases "parseTransaction bs58 pcfg rpc logs wallet") (auto simp: process_tx_def)
  have "c \<in> set (copies_of (handle_events bn ops cfg tm wallet 0 evs) s)"
    using assms by (auto simp: evs process_tx_def copies_of_def split: prod.splits)
  then obtain ev j and s' :: "('j, 'x) bot" where ev: "ev \<in> set evs"
    and c: "c \<in> set (policy bn cfg (at_guard (tm j)) wallet s' (action_of ev))"
    using handle_events_copies by blast
  from c have "ev \<noteq> UNKNOWN" by auto
  from parsed_about_target [OF evs ev this] event_action_about policy_about [OF c] show ?thesis by metis
qed

section \<open>Witnesses\<close>

definition demo_executor :: executor where
  "demo_executor = \<lparr>solPaused = False, drawdownPaused = False, drawdownPausedAt = None, lastSkipReason = None, poolIdToMints = []\<rparr>"

definition demo_entry :: "js_num PositionEntry" where
  "demo_entry = \<lparr>ourNft = ''mine'', createdAt = 1, pool = None, targetWallet = Some ''target'', lockedSol = None,
     tickLower = None, tickUpper = None, dex = None, targetLiquidity = None\<rparr>"

definition demo_bot :: "bool \<Rightarrow> (unit, unit) bot" where
  "demo_bot is_paused = \<lparr>execs = (\<lambda>_. demo_executor\<lparr>solPaused := is_paused\<rparr>), positions = [(''nft'', demo_entry)], referers = [],
     pendings = \<lparr>busy = False, swaps = [], pushed = []\<rparr>,
     risk = \<lparr>tokenLossStreak = [], tokenCooldowns = [], tokenPnls = [], pnl_pushed = []\<rparr>,
     feed = \<lparr>eventLog = [], swapHistory = [], poolMap = [], eventsTotal = []\<rparr>, feed_calls = [], background = [],
     startAssetUsd = None, drawdownWarning = False, other = ()\<rparr>"

definition demo_dispatch :: dispatch_config where
  "demo_dispatch = \<lparr>dex_enabled = (\<lambda>_. False), close_only = (\<lambda>_. []), wallet_ratios = (\<lambda>_. []), amount_ratio = Num 1,
     risk_cfg = \<lparr>tokenLossStreakLimit = 3, tokenCooldownMinutes = 60, tokenWhitelist = [], tokenBlacklist = [], byrealSkipSol = False\<rparr>,
     pcsSkipSol = False, allowSameWalletReopen = False, byrealAllowSameTickWallets = [], byrealAllowOpenAfterOthersWallets = []\<rparr>"

definition demo_ops :: "'s copy_ops" where
  "demo_ops = \<lparr>copyOpenPosition = (\<lambda>_ _ _ _ _ s. (Inr (Some ''sig''), s)), copyIncreaseLiquidity = (\<lambda>_ _ _ s. (Inr (Some ''sig''), s)),
     copyDecreaseLiquidity = (\<lambda>_ _ s. (Inr None, s)), copyClosePosition = (\<lambda>_ _ s. (Inr (Some ''sig''), s)),
     copyClaimFee = (\<lambda>_ s. (Inr None, s)), swapTokenToUSDC = (\<lambda>_ _ s. (Inr None, s))\<rparr>"

definition demo_times :: times where
  "demo_times = \<lparr>at_guard = 10, at_push = 20, at_swap = 20\<rparr>"

definition demo_open :: ParsedEvent where
  "demo_open = BYREAL_OPEN_POSITION ''pool'' 0 10 ''5'' None '''' '''' ''new'' None"

theorem uncopied_event_frame_witness:
  "same_book (demo_bot True) (snd (snd (handleEvent int_BN demo_ops demo_dispatch demo_times ''target'' demo_open (demo_bot True))))"
proof (rule uncopied_event_frame)
  show "copies_of (handleEvent int_BN demo_ops demo_dispatch demo_times ''target'' demo_open) (demo_bot True) = []"
    by (simp add: handleEvent_copies demo_open_def may_open_def demo_bot_def)
qed

lemma demo_close_copied:
  "CopyClose BYREAL ''nft'' \<in> set (fst (process_tx int_BN demo_ops demo_dispatch (\<lambda>_. demo_times) ''target''
     (parseTransaction (\<lambda>_. None) demo_cfg (demo_rpc False) demo_logs ''target'') (demo_bot True)))"
  by code_simp

theorem copies_concern_target_witness:
  "\<exists>b tx. b < 3 \<and> demo_rpc False b = Fetched tx \<and> \<not> meta_failed tx \<and> call_about demo_cfg tx ''target'' (CopyClose BYREAL ''nft'')"
  by (rule copies_concern_target [OF demo_close_copied])

end
