(* ===== verification/Operation_Queue.thy ===== *)
theory Operation_Queue
  imports Prelude
begin

text \<open>
  The operation queue of \<^verbatim>\<open>src/executor/queue.ts\<close>: every Solana write of the bot goes through it.
  JavaScript runs a piece of code without interruption up to its next \<^verbatim>\<open>await\<close> (or to the callback it
  hands to \<^verbatim>\<open>setImmediate\<close> or \<^verbatim>\<open>setTimeout\<close>), so each operation below is one such segment: \<open>enqueue\<close>
  is the whole method, \<open>drain_loop\<close> runs from the loop head to the \<^verbatim>\<open>await item.fn()\<close> or out of the
  loop, \<open>item_settles\<close> is what follows the settled \<^verbatim>\<open>await\<close> (a rejected one is only logged), and
  \<open>executeNow\<close>, \<open>execute_now_poll\<close>, \<open>execute_now_settles\<close> are the three segments of \<^verbatim>\<open>executeNow\<close>.
  The step relation lets the event loop run them in any order it could.

  The record has the class's fields, then what the event loop holds (how many \<^verbatim>\<open>setImmediate\<close>
  callbacks of \<^verbatim>\<open>drain\<close> are queued, which \<^verbatim>\<open>executeNow\<close> calls sleep between two polls), then two logs
  that exist only to state the properties: the items in the order they were enqueued and started.
\<close>

section \<open>Data\<close>

datatype QueuePriority = HIGH | NORMAL

record 'f QueueItem =
  item_id :: string
  item_label :: string
  item_priority :: QueuePriority
  item_fn :: 'f
  item_enqueuedAt :: millis

record 'f OperationQueue =
  highQueue :: "'f QueueItem list"
  normalQueue :: "'f QueueItem list"
  running :: "'f QueueItem option"
  immediateRunning :: bool
  immediateWaiting :: int
  draining :: bool
  idCounter :: nat
  highPrioritySeq :: nat
  lastCompletedAt :: millis

record 'f QueueWorld = "'f OperationQueue" +
  scheduled_drains :: nat
  sleeping_calls :: "string list"
  enqueued_log :: "'f QueueItem list"
  started_log :: "'f QueueItem list"

record PendingView =
  pv_id :: string
  pv_label :: string
  pv_priority :: QueuePriority
  pv_enqueuedAt :: millis

record 'f QueueStatus =
  st_running :: "'f QueueItem option"
  st_pending :: "PendingView list"
  st_immediateRunning :: bool

definition new_queue :: "'f QueueWorld" where
  "new_queue =
     \<lparr>highQueue = [], normalQueue = [], running = None, immediateRunning = False,
      immediateWaiting = 0, draining = False, idCounter = 0, highPrioritySeq = 0,
      lastCompletedAt = 0,
      scheduled_drains = 0, sleeping_calls = [], enqueued_log = [], started_log = []\<rparr>"

section \<open>Operations\<close>

definition scheduleDrain :: "'f QueueWorld \<Rightarrow> 'f QueueWorld" where
  "scheduleDrain w =
     (if draining w then w else w\<lparr>scheduled_drains := scheduled_drains w + 1\<rparr>)"

definition enqueue ::
  "string \<Rightarrow> QueuePriority \<Rightarrow> 'f \<Rightarrow> millis \<Rightarrow> 'f QueueWorld \<Rightarrow> string \<times> 'f QueueWorld" where
  "enqueue label priority fn now w =
     (let n = Suc (idCounter w);
          qid = ''q-'' @ show_nat n;
          item = \<lparr>item_id = qid, item_label = label, item_priority = priority, item_fn = fn,
                  item_enqueuedAt = now\<rparr>;
          w1 = w\<lparr>idCounter := n, enqueued_log := enqueued_log w @ [item]\<rparr>;
          w2 = (if priority = HIGH
                then w1\<lparr>highPrioritySeq := highPrioritySeq w1 + 1, highQueue := highQueue w1 @ [item]\<rparr>
                else w1\<lparr>normalQueue := normalQueue w1 @ [item]\<rparr>)
      in (qid, scheduleDrain w2))"

text \<open>
  \<^verbatim>\<open>enqueueWithResult\<close> wraps the operation: how the caller's promise settles, and what the wrapped
  operation itself does in the drain loop (it rethrows).
\<close>

datatype ('a, 'e) settlement = Resolved 'a | Rejected 'e

definition wrap_with_result :: "'e + 'a \<Rightarrow> ('a, 'e) settlement \<times> ('e + unit)" where
  "wrap_with_result outcome =
     (case outcome of Inr r \<Rightarrow> (Resolved r, Inr ()) | Inl e \<Rightarrow> (Rejected e, Inl e))"

definition has_pending :: "'f QueueWorld \<Rightarrow> bool" where
  "has_pending w \<longleftrightarrow> highQueue w \<noteq> [] \<or> normalQueue w \<noteq> []"

definition drain_exit :: "'f QueueWorld \<Rightarrow> 'f QueueWorld" where
  "drain_exit w =
     (let w1 = w\<lparr>draining := False\<rparr>
      in if has_pending w1 \<and> \<not> immediateRunning w1 \<and> immediateWaiting w1 = 0
         then scheduleDrain w1 else w1)"

definition start_item :: "'f QueueItem \<Rightarrow> 'f QueueWorld \<Rightarrow> 'f QueueWorld" where
  "start_item item w = w\<lparr>running := Some item, started_log := started_log w @ [item]\<rparr>"

definition drain_loop :: "'f QueueWorld \<Rightarrow> 'f QueueWorld" where
  "drain_loop w =
     (if \<not> has_pending w then drain_exit w
      else if immediateRunning w \<or> immediateWaiting w > 0 then drain_exit w
      else (case highQueue w of
              item # rest \<Rightarrow> start_item item (w\<lparr>highQueue := rest\<rparr>)
            | [] \<Rightarrow> (case normalQueue w of
                      item # rest \<Rightarrow> start_item item (w\<lparr>normalQueue := rest\<rparr>)
                    | [] \<Rightarrow> drain_exit w)))"

definition drain :: "'f QueueWorld \<Rightarrow> 'f QueueWorld" where
  "drain w = (if draining w then w else drain_loop (w\<lparr>draining := True\<rparr>))"

definition item_settles :: "millis \<Rightarrow> 'f QueueWorld \<Rightarrow> 'f QueueWorld" where
  "item_settles now w = drain_loop (w\<lparr>running := None, lastCompletedAt := now\<rparr>)"

definition execute_now_check :: "string \<Rightarrow> 'f QueueWorld \<Rightarrow> 'f QueueWorld" where
  "execute_now_check label w =
     (if running w \<noteq> None \<or> immediateRunning w
      then w\<lparr>sleeping_calls := sleeping_calls w @ [label]\<rparr>
      else w\<lparr>immediateRunning := True, immediateWaiting := immediateWaiting w - 1\<rparr>)"

definition executeNow :: "string \<Rightarrow> 'f QueueWorld \<Rightarrow> 'f QueueWorld" where
  "executeNow label w = execute_now_check label (w\<lparr>immediateWaiting := immediateWaiting w + 1\<rparr>)"

definition execute_now_poll :: "string \<Rightarrow> 'f QueueWorld \<Rightarrow> 'f QueueWorld" where
  "execute_now_poll label w =
     execute_now_check label (w\<lparr>sleeping_calls := remove1 label (sleeping_calls w)\<rparr>)"

definition execute_now_settles :: "'f QueueWorld \<Rightarrow> 'f QueueWorld" where
  "execute_now_settles w = scheduleDrain (w\<lparr>immediateRunning := False\<rparr>)"

definition pending_view :: "'f QueueItem \<Rightarrow> PendingView" where
  "pending_view i = \<lparr>pv_id = item_id i, pv_label = item_label i, pv_priority = item_priority i,
                     pv_enqueuedAt = item_enqueuedAt i\<rparr>"

definition getStatus :: "'f QueueWorld \<Rightarrow> 'f QueueStatus" where
  "getStatus w = \<lparr>st_running = running w,
                  st_pending = map pending_view (highQueue w) @ map pending_view (normalQueue w),
                  st_immediateRunning = immediateRunning w\<rparr>"

definition pendingCount :: "'f QueueWorld \<Rightarrow> nat" where
  "pendingCount w = length (highQueue w) + length (normalQueue w)"

definition isHighPriorityRunningOrPending :: "'f QueueWorld \<Rightarrow> bool" where
  "isHighPriorityRunningOrPending w \<longleftrightarrow>
     (case running w of Some i \<Rightarrow> item_priority i = HIGH | None \<Rightarrow> False) \<or> highQueue w \<noteq> []"

definition hasHighPriorityActivityAfter :: "nat \<Rightarrow> 'f QueueWorld \<Rightarrow> bool" where
  "hasHighPriorityActivityAfter s w \<longleftrightarrow>
     highPrioritySeq w > s \<or> isHighPriorityRunningOrPending w"

definition isExecuting :: "'f QueueWorld \<Rightarrow> bool" where
  "isExecuting w \<longleftrightarrow> running w \<noteq> None \<or> immediateRunning w"

section \<open>Steps of the event loop\<close>

inductive queue_step :: "'f QueueWorld \<Rightarrow> 'f QueueWorld \<Rightarrow> bool" where
  qs_enqueue: "queue_step w (snd (enqueue label priority fn now w))"
| qs_drain: "scheduled_drains w = Suc n \<Longrightarrow> queue_step w (drain (w\<lparr>scheduled_drains := n\<rparr>))"
| qs_settle: "running w \<noteq> None \<Longrightarrow> queue_step w (item_settles now w)"
| qs_now: "queue_step w (executeNow label w)"
| qs_poll: "label \<in> set (sleeping_calls w) \<Longrightarrow> queue_step w (execute_now_poll label w)"
| qs_now_settle: "immediateRunning w \<Longrightarrow> queue_step w (execute_now_settles w)"

inductive_cases queue_stepE: "queue_step w w'"

abbreviation queue_reach :: "'f QueueWorld \<Rightarrow> bool" where
  "queue_reach \<equiv> reach (\<lambda>w. w = new_queue) queue_step"

lemmas queue_segs [seg_defs] =
  scheduleDrain_def enqueue_def drain_exit_def start_item_def drain_loop_def drain_def
  item_settles_def execute_now_check_def executeNow_def execute_now_poll_def
  execute_now_settles_def has_pending_def Let_def

section \<open>The invariant\<close>

text \<open>
  The control part: a drain loop is active exactly while a queued item runs, no queued item
  runs beside an immediate operation, every reservation belongs to a sleeping call, and work
  that could start has a \<^verbatim>\<open>drain\<close> callback queued.
\<close>

definition queue_control :: "'f QueueWorld \<Rightarrow> bool" where
  "queue_control w \<longleftrightarrow>
     (running w \<noteq> None \<longleftrightarrow> draining w) \<and>
     \<not> (running w \<noteq> None \<and> immediateRunning w) \<and>
     immediateWaiting w = int (length (sleeping_calls w)) \<and>
     (has_pending w \<and> running w = None \<and> \<not> immediateRunning w \<and> sleeping_calls w = []
        \<longrightarrow> 0 < scheduled_drains w)"

text \<open>The data part: nothing is lost, duplicated or reordered within a priority.\<close>

definition of_priority :: "QueuePriority \<Rightarrow> 'f QueueItem list \<Rightarrow> 'f QueueItem list" where
  "of_priority p = filter (\<lambda>i. item_priority i = p)"

definition queue_data :: "'f QueueWorld \<Rightarrow> bool" where
  "queue_data w \<longleftrightarrow>
     of_priority HIGH (enqueued_log w) = of_priority HIGH (started_log w) @ highQueue w \<and>
     of_priority NORMAL (enqueued_log w) = of_priority NORMAL (started_log w) @ normalQueue w \<and>
     map item_id (enqueued_log w) = map (\<lambda>n. ''q-'' @ show_nat (Suc n)) [0..<idCounter w] \<and>
     highPrioritySeq w = length (of_priority HIGH (enqueued_log w)) \<and>
     (case running w of None \<Rightarrow> True | Some i \<Rightarrow> started_log w \<noteq> [] \<and> last (started_log w) = i)"

definition queue_inv :: "'f QueueWorld \<Rightarrow> bool" where
  "queue_inv w \<longleftrightarrow> queue_control w \<and> queue_data w"

lemma of_priority_simps [simp]:
  "of_priority p [] = []"
  "of_priority p (xs @ ys) = of_priority p xs @ of_priority p ys"
  "of_priority p [i] = (if item_priority i = p then [i] else [])"
  by (simp_all add: of_priority_def)

lemma of_priority_set: "i \<in> set (of_priority p xs) \<longleftrightarrow> i \<in> set xs \<and> item_priority i = p"
  by (auto simp: of_priority_def)

lemma queue_data_priorities:
  assumes "queue_data w"
  shows "i \<in> set (highQueue w) \<Longrightarrow> item_priority i = HIGH"
    and "i \<in> set (normalQueue w) \<Longrightarrow> item_priority i = NORMAL"
proof -
  from assms have h: "of_priority HIGH (enqueued_log w) = of_priority HIGH (started_log w) @ highQueue w"
    and n: "of_priority NORMAL (enqueued_log w) = of_priority NORMAL (started_log w) @ normalQueue w"
    by (auto simp: queue_data_def)
  show "i \<in> set (highQueue w) \<Longrightarrow> item_priority i = HIGH"
    using of_priority_set [of i HIGH "enqueued_log w"] by (simp add: h)
  show "i \<in> set (normalQueue w) \<Longrightarrow> item_priority i = NORMAL"
    using of_priority_set [of i NORMAL "enqueued_log w"] by (simp add: n)
qed

section \<open>Every segment keeps the invariant\<close>

lemma control_enqueue: "queue_control w \<Longrightarrow> queue_control (snd (enqueue l p f t w))"
  by (auto simp: queue_control_def queue_segs)

lemma control_drain_loop:
  assumes "running w = None" and "draining w"
    and "immediateWaiting w = int (length (sleeping_calls w))"
  shows "queue_control (drain_loop w)"
  using assms
  by (auto simp: queue_control_def queue_segs split: list.splits)

lemma control_drain:
  assumes c: "queue_control w" and "scheduled_drains w = Suc n"
  shows "queue_control (drain (w\<lparr>scheduled_drains := n\<rparr>))"
proof (cases "draining w")
  case True
  with c show ?thesis by (auto simp: drain_def queue_control_def has_pending_def)
next
  case False
  have "queue_control (drain_loop (w\<lparr>scheduled_drains := n, draining := True\<rparr>))"
    by (rule control_drain_loop) (use c False in \<open>auto simp: queue_control_def\<close>)
  with False show ?thesis by (simp add: drain_def)
qed

lemma control_settles: "queue_control w \<Longrightarrow> running w \<noteq> None \<Longrightarrow> queue_control (item_settles t w)"
  unfolding item_settles_def by (rule control_drain_loop) (auto simp: queue_control_def)

lemma control_now: "queue_control w \<Longrightarrow> queue_control (executeNow l w)"
  by (auto simp: queue_control_def queue_segs)

lemma control_poll:
  "queue_control w \<Longrightarrow> l \<in> set (sleeping_calls w) \<Longrightarrow> queue_control (execute_now_poll l w)"
  by (auto simp: queue_control_def queue_segs int_length_remove1)

lemma control_now_settles:
  "queue_control w \<Longrightarrow> immediateRunning w \<Longrightarrow> queue_control (execute_now_settles w)"
  by (auto simp: queue_control_def queue_segs)

lemmas control_intros =
  control_enqueue control_drain control_settles control_now control_poll control_now_settles

lemma control_step: "queue_control w \<Longrightarrow> queue_step w w' \<Longrightarrow> queue_control w'"
  by (erule queue_stepE) (simp_all add: control_intros)

text \<open>Segments that leave the item lists alone leave the data part alone.\<close>

definition same_items :: "'f QueueWorld \<Rightarrow> 'f QueueWorld \<Rightarrow> bool" where
  "same_items w w' \<longleftrightarrow>
     highQueue w' = highQueue w \<and> normalQueue w' = normalQueue w \<and>
     enqueued_log w' = enqueued_log w \<and> started_log w' = started_log w \<and>
     idCounter w' = idCounter w \<and> highPrioritySeq w' = highPrioritySeq w"

lemma data_same_items:
  "queue_data w \<Longrightarrow> same_items w w' \<Longrightarrow> running w' = running w \<or> running w' = None \<Longrightarrow> queue_data w'"
  by (cases "running w") (auto simp: queue_data_def same_items_def)

lemma data_enqueue: "queue_data w \<Longrightarrow> queue_data (snd (enqueue l p f t w))"
  by (cases p) (auto simp: queue_data_def queue_segs split: option.splits)

lemma data_drain_loop:
  assumes d: "queue_data w" and r: "running w = None"
  shows "queue_data (drain_loop w)"
proof (cases "running (drain_loop w)")
  case None
  then have "same_items w (drain_loop w)"
    by (auto simp: same_items_def queue_segs split: list.splits if_splits)
  with d None show ?thesis by (auto intro: data_same_items)
next
  case (Some i)
  note prio = queue_data_priorities [OF d]
  from Some d r show ?thesis
    by (auto simp: queue_data_def queue_segs prio split: list.splits if_splits)
qed

lemma data_drain:
  "queue_data w \<Longrightarrow> queue_control w \<Longrightarrow> queue_data (drain (w\<lparr>scheduled_drains := n\<rparr>))"
  by (cases "draining w")
    (auto simp: drain_def queue_control_def same_items_def intro!: data_drain_loop intro: data_same_items)

lemma data_settles: "queue_data w \<Longrightarrow> queue_data (item_settles t w)"
  unfolding item_settles_def
  by (rule data_drain_loop) (auto simp: same_items_def intro: data_same_items)

lemma data_immediate:
  "queue_data w \<Longrightarrow> queue_data (executeNow l w)"
  "queue_data w \<Longrightarrow> queue_data (execute_now_poll l w)"
  "queue_data w \<Longrightarrow> queue_data (execute_now_settles w)"
  by (rule data_same_items, assumption, auto simp: same_items_def queue_segs)+

lemma queue_inv_new: "queue_inv new_queue"
  by (simp add: queue_inv_def queue_control_def queue_data_def new_queue_def has_pending_def)

lemma queue_inv_step: "queue_inv w \<Longrightarrow> queue_step w w' \<Longrightarrow> queue_inv w'"
  unfolding queue_inv_def
  by (intro conjI, blast intro: control_step)
    (erule queue_stepE; auto intro: data_enqueue data_drain data_settles data_immediate)

interpretation queue: invariant_system "\<lambda>w. w = new_queue" queue_step queue_inv
  by unfold_locales (auto intro: queue_inv_new queue_inv_step)

section \<open>What a run does\<close>

lemma drain_loop_starts:
  assumes "\<not> immediateRunning w" and "immediateWaiting w = 0"
    and "highQueue w @ normalQueue w = i # rest"
  shows "drain_loop w =
     start_item i (if highQueue w = [] then w\<lparr>normalQueue := rest\<rparr> else w\<lparr>highQueue := tl (highQueue w)\<rparr>)"
  using assms by (auto simp: drain_loop_def has_pending_def append_eq_Cons_conv split: list.splits)

lemma settle_all:
  assumes "\<not> immediateRunning w" and "immediateWaiting w = 0" and "running w = None"
    and "pendingCount w = n"
  shows "\<not> has_pending ((item_settles t ^^ n) (drain_loop w)) \<and>
         running ((item_settles t ^^ n) (drain_loop w)) = None \<and>
         started_log ((item_settles t ^^ n) (drain_loop w)) =
           started_log w @ highQueue w @ normalQueue w"
  using assms
proof (induction n arbitrary: w)
  case 0
  then show ?case by (simp add: pendingCount_def drain_loop_def has_pending_def drain_exit_def)
next
  case (Suc n)
  obtain i rest where ir: "highQueue w @ normalQueue w = i # rest"
    using Suc.prems(4) by (cases "highQueue w @ normalQueue w") (auto simp: pendingCount_def)
  define v where "v = (drain_loop w)\<lparr>running := None, lastCompletedAt := t\<rparr>"
  have start: "drain_loop w = start_item i
      (if highQueue w = [] then w\<lparr>normalQueue := rest\<rparr> else w\<lparr>highQueue := tl (highQueue w)\<rparr>)"
    using Suc.prems(1,2) ir by (rule drain_loop_starts)
  have v: "\<not> immediateRunning v" "immediateWaiting v = 0" "running v = None"
    "highQueue v @ normalQueue v = rest" "started_log v = started_log w @ [i]"
    using Suc.prems ir by (auto simp: v_def start start_item_def append_eq_Cons_conv)
  have "length (highQueue v @ normalQueue v) = length rest" by (simp add: v(4))
  then have "pendingCount v = length rest" by (simp add: pendingCount_def)
  moreover have "length rest = n"
    using Suc.prems(4) arg_cong [OF ir, of length] by (simp add: pendingCount_def)
  ultimately have n: "pendingCount v = n" by simp
  have "(item_settles t ^^ Suc n) (drain_loop w) = (item_settles t ^^ n) (drain_loop v)"
    by (simp add: funpow_swap1 item_settles_def v_def)
  with Suc.IH [OF v(1-3) n] v(4,5) ir show ?case by simp
qed

lemma step_started:
  assumes "queue_control w" and "queue_step w w'" and "started_log w' \<noteq> started_log w"
  shows "immediateWaiting w = 0 \<and> \<not> immediateRunning w \<and>
         (\<exists>i. started_log w' = started_log w @ [i] \<and>
              i = hd (highQueue w @ normalQueue w) \<and> has_pending w)"
  using assms(2)
proof cases
  case (qs_settle now)
  with assms show ?thesis
    by (auto simp: queue_segs queue_control_def split: list.splits if_splits)
next
  case (qs_drain n)
  with assms show ?thesis
    by (auto simp: queue_segs queue_control_def split: list.splits if_splits)
qed (use assms(3) in \<open>auto simp: queue_segs split: if_splits\<close>)

lemma step_enqueued_extends: "queue_step w w' \<Longrightarrow> \<exists>xs. enqueued_log w' = enqueued_log w @ xs"
  by (erule queue_stepE) (auto simp: queue_segs split: list.splits)

lemma steps_enqueued_extends:
  "queue_step\<^sup>*\<^sup>* w w' \<Longrightarrow> \<exists>xs. enqueued_log w' = enqueued_log w @ xs"
  by (induction rule: rtranclp_induct) (auto dest: step_enqueued_extends)

lemma distinct_queue_ids: "queue_data w \<Longrightarrow> distinct (map item_id (enqueued_log w))"
  by (simp add: queue_data_def distinct_map inj_on_def)

section \<open>Properties\<close>

text \<open>A state used by the witnesses: one HIGH and one NORMAL item enqueued, nothing started.\<close>

definition two_items :: "unit QueueWorld" where
  "two_items = snd (enqueue ''close'' HIGH () 2 (snd (enqueue ''orphan'' NORMAL () 1 new_queue)))"

lemma reach_two_items: "queue_reach two_items"
proof -
  have "queue_reach (snd (enqueue ''orphan'' NORMAL () 1 new_queue))"
    by (rule reach.reach_step [where s = new_queue]) (simp add: reach.reach_init, rule qs_enqueue)
  then show ?thesis
    unfolding two_items_def by (rule reach.reach_step) (rule qs_enqueue)
qed

text \<open>
  C1: serialisation. In every state the event loop can reach, a queued item and an immediate
  operation never execute at the same time; since \<open>running\<close> holds one item, at most one Solana
  write is in flight. Moreover a queued item is running exactly while the drain loop is active.
\<close>

theorem queue_serialises:
  assumes "queue_reach w"
  shows "\<not> (running w \<noteq> None \<and> immediateRunning w) \<and> (running w \<noteq> None \<longleftrightarrow> draining w)"
  using queue.reach_inv [OF assms] by (auto simp: queue_inv_def queue_control_def)

theorem queue_serialises_witness:
  "queue_reach two_items \<and> \<not> (running two_items \<noteq> None \<and> immediateRunning two_items)"
  using queue_serialises [OF reach_two_items] reach_two_items by blast

text \<open>
  C4: no item is lost, duplicated, or overtaken inside its priority. The items ever enqueued
  have pairwise distinct ids, and those of one priority are, in order, the started ones followed
  by the ones still in that priority's queue.
\<close>

theorem queue_fifo_no_loss:
  assumes "queue_reach w"
  shows "distinct (map item_id (enqueued_log w)) \<and>
         of_priority HIGH (enqueued_log w) = of_priority HIGH (started_log w) @ highQueue w \<and>
         of_priority NORMAL (enqueued_log w) = of_priority NORMAL (started_log w) @ normalQueue w"
proof -
  have "queue_data w" using queue.reach_inv [OF assms] by (simp add: queue_inv_def)
  with distinct_queue_ids [OF this] show ?thesis by (simp add: queue_data_def)
qed

theorem queue_fifo_no_loss_witness:
  "map item_id (enqueued_log two_items) = [''q-1'', ''q-2''] \<and>
   of_priority HIGH (enqueued_log two_items) = of_priority HIGH (started_log two_items) @ highQueue two_items"
  using queue_fifo_no_loss [OF reach_two_items]
  by (simp add: two_items_def enqueue_def scheduleDrain_def new_queue_def Let_def show_nat.simps)

text \<open>
  HIGH goes first and a reserved queue starts nothing. Whenever a step starts a queued item,
  no \<^verbatim>\<open>executeNow\<close> call holds or waits for the queue, and a NORMAL item starts only when no HIGH
  item is pending.
\<close>

theorem queue_start_order:
  assumes "queue_reach w" and "queue_step w w'" and "started_log w' = started_log w @ [i]"
  shows "\<not> immediateRunning w \<and> sleeping_calls w = [] \<and>
         (item_priority i = NORMAL \<longrightarrow> highQueue w = [])"
proof -
  have inv: "queue_control w" "queue_data w"
    using queue.reach_inv [OF assms(1)] by (auto simp: queue_inv_def)
  from step_started [OF inv(1) assms(2)] assms(3)
  have st: "immediateWaiting w = 0" "\<not> immediateRunning w" "i = hd (highQueue w @ normalQueue w)"
    by auto
  have "item_priority i = HIGH" if "highQueue w \<noteq> []"
    using that queue_data_priorities(1) [OF inv(2), of i] st(3) by (cases "highQueue w") auto
  then have "item_priority i = NORMAL \<longrightarrow> highQueue w = []" by (cases "highQueue w = []") auto
  moreover have "sleeping_calls w = []" using st(1) inv(1) by (auto simp: queue_control_def)
  ultimately show ?thesis using st(2) by blast
qed

theorem queue_start_order_witness:
  "\<not> immediateRunning two_items \<and> sleeping_calls two_items = [] \<and>
   started_log (drain (two_items\<lparr>scheduled_drains := 1\<rparr>)) = started_log two_items @ [hd (highQueue two_items)]"
proof -
  have step: "queue_step two_items (drain (two_items\<lparr>scheduled_drains := 1\<rparr>))"
    by (rule qs_drain) (simp add: two_items_def enqueue_def scheduleDrain_def new_queue_def Let_def)
  have "started_log (drain (two_items\<lparr>scheduled_drains := 1\<rparr>)) = started_log two_items @ [hd (highQueue two_items)]"
    by (simp add: two_items_def queue_segs new_queue_def)
  with queue_start_order [OF reach_two_items step this] show ?thesis by simp
qed

text \<open>
  C22: no stuck queue. In every reachable state with pending items, either an operation is
  executing (and its end resumes the drain), or an \<^verbatim>\<open>executeNow\<close> call is polling, or a \<^verbatim>\<open>drain\<close>
  callback is queued. And a queue left alone runs dry: the next drain callback followed by one
  settlement per pending item starts all of them, HIGH before NORMAL and each in order.
\<close>

theorem queue_never_stuck:
  assumes "queue_reach w" and "has_pending w" and "\<not> isExecuting w" and "sleeping_calls w = []"
  shows "\<exists>n. scheduled_drains w = Suc n \<and>
    (let w' = (item_settles t ^^ pendingCount w) (drain (w\<lparr>scheduled_drains := n\<rparr>))
     in \<not> has_pending w' \<and> running w' = None \<and>
        started_log w' = started_log w @ highQueue w @ normalQueue w)"
proof -
  have c: "queue_control w" using queue.reach_inv [OF assms(1)] by (simp add: queue_inv_def)
  with assms(2-4) obtain n where n: "scheduled_drains w = Suc n"
    by (auto simp: queue_control_def isExecuting_def gr0_conv_Suc)
  let ?v = "w\<lparr>scheduled_drains := n, draining := True\<rparr>"
  have "drain (w\<lparr>scheduled_drains := n\<rparr>) = drain_loop ?v"
    using c assms(3) by (auto simp: drain_def queue_control_def isExecuting_def)
  moreover have "\<not> immediateRunning ?v" "immediateWaiting ?v = 0" "running ?v = None"
    "pendingCount ?v = pendingCount w"
    using c assms(3,4) by (auto simp: queue_control_def isExecuting_def pendingCount_def)
  ultimately show ?thesis using settle_all [of ?v "pendingCount w" t] n by (simp add: Let_def)
qed

theorem queue_never_stuck_witness:
  "\<exists>n. scheduled_drains two_items = Suc n \<and>
    \<not> has_pending ((item_settles 9 ^^ 2) (drain (two_items\<lparr>scheduled_drains := n\<rparr>)))"
proof -
  have h: "has_pending two_items" "\<not> isExecuting two_items" "sleeping_calls two_items = []"
    "pendingCount two_items = 2"
    by (simp_all add: two_items_def queue_segs new_queue_def isExecuting_def pendingCount_def)
  show ?thesis
    using queue_never_stuck [OF reach_two_items h(1-3), of 9] h(4) by (auto simp: Let_def)
qed

text \<open>
  The HIGH-activity snapshot. A caller that remembered the sequence number of a reachable
  state and asks again later is told of activity exactly when a HIGH item was enqueued in
  between or HIGH work is running or pending.
\<close>

theorem high_priority_snapshot:
  assumes "queue_reach w" and "queue_step\<^sup>*\<^sup>* w w'"
  shows "hasHighPriorityActivityAfter (highPrioritySeq w) w' \<longleftrightarrow>
         of_priority HIGH (drop (length (enqueued_log w)) (enqueued_log w')) \<noteq> [] \<or>
         isHighPriorityRunningOrPending w'"
proof -
  have "queue_data w" "queue_data w'"
    using queue.reach_inv [OF assms(1)] queue.steps_inv [OF queue.reach_inv [OF assms(1)] assms(2)]
    by (auto simp: queue_inv_def)
  then have seq: "highPrioritySeq w = length (of_priority HIGH (enqueued_log w))"
    "highPrioritySeq w' = length (of_priority HIGH (enqueued_log w'))"
    by (auto simp: queue_data_def)
  obtain xs where "enqueued_log w' = enqueued_log w @ xs"
    using steps_enqueued_extends [OF assms(2)] by blast
  with seq show ?thesis by (auto simp: hasHighPriorityActivityAfter_def)
qed

theorem high_priority_snapshot_witness:
  "hasHighPriorityActivityAfter (highPrioritySeq (new_queue :: unit QueueWorld)) two_items"
proof -
  let ?q = "new_queue :: unit QueueWorld"
  have "queue_step\<^sup>*\<^sup>* ?q two_items"
    unfolding two_items_def
    by (rule rtranclp.rtrancl_into_rtrancl [OF r_into_rtranclp]) (rule qs_enqueue)+
  moreover have "of_priority HIGH (drop (length (enqueued_log ?q)) (enqueued_log two_items)) \<noteq> []"
    by (simp add: two_items_def queue_segs new_queue_def of_priority_def)
  ultimately show ?thesis
    using high_priority_snapshot [OF reach.reach_init [of "\<lambda>w. w = ?q", OF refl]] by blast
qed

end
