(* ===== verification/Bot_Main.thy ===== *)
theory Bot_Main
  imports Dispatch_Safety Operation_Queue
begin

text \<open>
  The rest of \<^verbatim>\<open>src/index.ts\<close>: the lock file, the callback of the log subscription (deduplication, spam
  filter, hand-over to the operation queue), the drawdown protection called on every portfolio
  snapshot, and the PnL look-up after a close. Start-up wiring, timers and process signals are left
  out.
\<close>

section \<open>The lock file\<close>

text \<open>
  The content of the lock file, if it exists. \<open>alive\<close> says whether \<^verbatim>\<open>process.kill(pid, 0)\<close> returns; it
  throws for a PID that is no number, which \<open>None\<close> stands for.
\<close>

datatype lock_result = ExitsWith nat | Locked string

definition acquireLock :: "(int \<Rightarrow> bool) \<Rightarrow> nat \<Rightarrow> string option \<Rightarrow> lock_result" where
  "acquireLock alive self file =
     (case file of
        None \<Rightarrow> Locked (show_nat self)
      | Some content \<Rightarrow>
          (case parseInt10 (trim content) of
             None \<Rightarrow> Locked (show_nat self)
           | Some oldPid \<Rightarrow> if alive oldPid then ExitsWith 1 else Locked (show_nat self)))"

definition releaseLock :: "string option \<Rightarrow> string option" where
  "releaseLock file = None"

section \<open>The subscription callback\<close>

record tx_job =
  job_signature :: string
  job_logs :: "string list"
  job_wallet :: pubkey

record intake =
  processedSignatures :: "string jsset"
  opQueue :: "tx_job QueueWorld"

text \<open>\<^verbatim>\<open>processedSignatures.add(signature)\<close> and the eviction of the oldest one beyond 1000.\<close>

definition remember :: "string \<Rightarrow> string jsset \<Rightarrow> string jsset" where
  "remember signature seen =
     (let s1 = set_add signature seen
      in if length s1 > 1000
         then (case s1 of first # rest \<Rightarrow> if first \<noteq> [] then rest else s1 | [] \<Rightarrow> s1)
         else s1)"

definition involvesDex :: "parser_config \<Rightarrow> string list \<Rightarrow> bool" where
  "involvesDex cfg logs \<longleftrightarrow>
     list_ex (\<lambda>l. str_includes l (byrealProgramId cfg) \<or> str_includes l (orcaProgramId cfg) \<or>
        str_includes l (meteoraProgramId cfg) \<or> (pcsEnabled cfg \<and> str_includes l (pcsProgramId cfg)) \<or>
        str_includes l DAMMV2_PROGRAM_ID) logs"

definition SYS_SUCCESS :: string where
  "SYS_SUCCESS = ''Program 11111111111111111111111111111111 success''"

definition filtered_pre_queue :: "parser_config \<Rightarrow> string list \<Rightarrow> bool" where
  "filtered_pre_queue cfg logs \<longleftrightarrow>
     \<not> involvesDex cfg logs \<and>
     length (filter (\<lambda>l. l = SYS_SUCCESS) logs) \<ge> 5 \<and>
     \<not> list_ex (\<lambda>l. str_includes l ''ComputeBudget111111111111111111111111111111'') logs"

definition on_logs :: "parser_config \<Rightarrow> millis \<Rightarrow> tx_job \<Rightarrow> intake \<Rightarrow> intake" where
  "on_logs cfg now job w =
     (if job_signature job \<in> set (processedSignatures w) then w
      else let w1 = w\<lparr>processedSignatures := remember (job_signature job) (processedSignatures w)\<rparr>
           in if filtered_pre_queue cfg (job_logs job) then w1
              else w1\<lparr>opQueue := snd (enqueue
                     (''TX:'' @ take 8 (job_wallet job) @ '':'' @ take 8 (job_signature job)) HIGH job now (opQueue w1))\<rparr>)"

definition start_intake :: intake where
  "start_intake = \<lparr>processedSignatures = [], opQueue = new_queue\<rparr>"

section \<open>Drawdown protection\<close>

text \<open>\<open>live cfg d\<close> says that the executor exists; the threshold is in per cent.\<close>

definition drawdown_of :: "js_num \<Rightarrow> js_num \<Rightarrow> js_num" where
  "drawdown_of start totalUsd = num_mul (num_quot (num_sub start totalUsd) start) (Num 100)"

definition pause_all :: "dispatch_config \<Rightarrow> (dex_id \<Rightarrow> millis) \<Rightarrow> ('j, 'x) bot \<Rightarrow> ('j, 'x) bot" where
  "pause_all cfg now s =
     s\<lparr>execs := (\<lambda>d. if live cfg d then (execs s d)\<lparr>drawdownPaused := True, drawdownPausedAt := Some (now d)\<rparr> else execs s d)\<rparr>"

definition on_snapshot ::
  "dispatch_config \<Rightarrow> js_num \<Rightarrow> (dex_id \<Rightarrow> millis) \<Rightarrow> js_num \<Rightarrow> ('j, 'x) bot \<Rightarrow> ('j, 'x) bot" where
  "on_snapshot cfg threshold now totalUsd s =
     (case startAssetUsd s of
        None \<Rightarrow> s\<lparr>startAssetUsd := Some totalUsd\<rparr>
      | Some start \<Rightarrow>
          if drawdownPaused (execs s BYREAL) then s
          else if num_le threshold (Num 0) then s
          else if num_le threshold (drawdown_of start totalUsd)
            then (if \<not> drawdownWarning s then s\<lparr>drawdownWarning := True\<rparr> else pause_all cfg now s)
          else if drawdownWarning s then s\<lparr>drawdownWarning := False\<rparr> else s)"

section \<open>PnL of a closed position\<close>

fun find_position :: "string \<Rightarrow> json list \<Rightarrow> json option result" where
  "find_position nft [] = Inr None"
| "find_position nft (p # ps) =
     bind_result (json_field p ''nftMintAddress'') (\<lambda>m. if m = JString nft then Inr (Some p) else find_position nft ps)"

text \<open>
  \<open>answer\<close> is the parsed body, \<open>None\<close> when the response is not ok. Throwing is the caller's debug
  line, so it leaves the state alone.
\<close>

definition fetchPositionPnl ::
  "dispatch_config \<Rightarrow> millis \<Rightarrow> json option \<Rightarrow> string \<Rightarrow> string \<Rightarrow> ('j, 'x) bot \<Rightarrow> ('j, 'x) bot" where
  "fetchPositionPnl cfg now answer pl nft s =
     (case answer of
        None \<Rightarrow> s
      | Some body \<Rightarrow>
          (case json_opt (json_opt (json_opt body ''result'') ''data'') ''positions'' of
             JArray ps \<Rightarrow>
               (case find_position nft ps of
                  Inr (Some p) \<Rightarrow>
                    if json_opt p ''pnlUsd'' \<noteq> JUndefined
                    then s\<lparr>risk := recordTokenPnl (risk_cfg cfg) now pl
                           (num_add (num_add (float_or_zero (json_opt p ''pnlUsd'')) (float_or_zero (json_opt p ''earnedUsd'')))
                              (float_or_zero (json_opt p ''bonusUsd''))) (risk s)\<rparr>
                    else s
                | _ \<Rightarrow> s)
           | _ \<Rightarrow> s))"

section \<open>Properties of the intake\<close>

definition intake_ok :: "intake \<Rightarrow> bool" where
  "intake_ok w \<longleftrightarrow> distinct (processedSignatures w) \<and> length (processedSignatures w) \<le> 1000 \<and> [] \<notin> set (processedSignatures w)"

lemma remember_new:
  assumes "x \<notin> set seen" and "[] \<notin> set (x # seen)" and "length seen \<le> 1000"
  shows "remember x seen = (if length seen = 1000 then tl seen @ [x] else seen @ [x])"
  using assms by (cases seen) (auto simp: remember_def set_add_def Let_def)

lemma on_logs_signatures:
  "processedSignatures (on_logs cfg now job w) =
     (if job_signature job \<in> set (processedSignatures w) then processedSignatures w
      else remember (job_signature job) (processedSignatures w))"
  by (simp add: on_logs_def Let_def)

lemma intake_ok_on_logs: "intake_ok w \<Longrightarrow> job_signature job \<noteq> [] \<Longrightarrow> intake_ok (on_logs cfg now job w)"
  by (cases "processedSignatures w") (auto simp: intake_ok_def on_logs_signatures remember_new)

text \<open>A signature with \<open>k\<close> younger ones behind it: a notification adds at most one to them.\<close>

definition age :: "string \<Rightarrow> intake \<Rightarrow> nat option" where
  "age sig w = (if sig \<in> set (processedSignatures w)
     then Some (length (takeWhile (\<lambda>x. x \<noteq> sig) (rev (processedSignatures w)))) else None)"

lemma age_on_logs:
  assumes "intake_ok w" and "job_signature job \<noteq> []" and "age sig w = Some k" and "k < 999"
  shows "\<exists>k' \<le> Suc k. age sig (on_logs cfg now job w) = Some k'"
proof (cases "job_signature job \<in> set (processedSignatures w)")
  case True
  with assms show ?thesis by (auto simp: age_def on_logs_signatures split: if_splits)
next
  case False
  let ?p = "processedSignatures w" and ?x = "job_signature job"
  have sig: "sig \<in> set ?p" and k: "k = length (takeWhile (\<lambda>x. x \<noteq> sig) (rev ?p))"
    using assms(3) by (auto simp: age_def split: if_splits)
  have r: "remember ?x ?p = (if length ?p = 1000 then tl ?p @ [?x] else ?p @ [?x])"
    using False assms(1,2) by (intro remember_new) (auto simp: intake_ok_def)
  have "sig \<noteq> ?x" using sig False by blast
  obtain y ys where p: "?p = y # ys" using sig by (cases ?p) auto
  show ?thesis
  proof (cases "length ?p = 1000")
    case True
    have "sig \<in> set ys"
    proof (rule ccontr)
      assume "sig \<notin> set ys"
      then have "takeWhile (\<lambda>x. x \<noteq> sig) (rev ys @ [y]) = rev ys @ takeWhile (\<lambda>x. x \<noteq> sig) [y]"
        by (intro takeWhile_append2) auto
      then have "k \<ge> length ys" using k p by simp
      with True p assms(4) show False by simp
    qed
    moreover from this have "takeWhile (\<lambda>x. x \<noteq> sig) (rev ys @ [y]) = takeWhile (\<lambda>x. x \<noteq> sig) (rev ys)"
      by (intro takeWhile_append1 [of sig]) auto
    ultimately show ?thesis using True p r k False \<open>sig \<noteq> ?x\<close> by (auto simp: age_def on_logs_signatures)
  next
    case n: False
    then have "processedSignatures (on_logs cfg now job w) = ?p @ [?x]" using False r by (simp add: on_logs_signatures)
    then show ?thesis using sig k \<open>sig \<noteq> ?x\<close> by (auto simp: age_def)
  qed
qed

definition deliver :: "parser_config \<Rightarrow> (millis \<times> tx_job) list \<Rightarrow> intake \<Rightarrow> intake" where
  "deliver cfg ns w = fold (\<lambda>(now, job). on_logs cfg now job) ns w"

lemma deliver_simps [simp]:
  "deliver cfg [] w = w"
  "deliver cfg ((now, job) # ns) w = deliver cfg ns (on_logs cfg now job w)"
  by (simp_all add: deliver_def)

lemma intake_ok_deliver:
  "intake_ok w \<Longrightarrow> (\<forall>(now, job) \<in> set ns. job_signature job \<noteq> []) \<Longrightarrow> intake_ok (deliver cfg ns w)"
  by (induction ns arbitrary: w) (auto simp: intake_ok_on_logs)

lemma age_deliver:
  assumes "intake_ok w" and "\<forall>(now, job) \<in> set ns. job_signature job \<noteq> []" and "age sig w = Some k"
    and "k + length ns \<le> 999"
  shows "\<exists>k'. age sig (deliver cfg ns w) = Some k'"
  using assms
proof (induction ns arbitrary: w k)
  case (Cons n ns)
  obtain now job where n: "n = (now, job)" by (cases n)
  have job: "job_signature job \<noteq> []" using Cons.prems(2) n by simp
  obtain k' where k': "k' \<le> Suc k" "age sig (on_logs cfg now job w) = Some k'"
    using age_on_logs [OF Cons.prems(1) job Cons.prems(3)] Cons.prems(4) by auto
  show ?case
    using Cons.IH [OF intake_ok_on_logs [OF Cons.prems(1) job] _ k'(2)] Cons.prems(2,4) k'(1) n by simp
qed simp

lemma age_delivered:
  assumes "intake_ok w" and "job_signature job \<noteq> []" and "job_signature job \<notin> set (processedSignatures w)"
  shows "age (job_signature job) (on_logs cfg now job w) = Some 0"
  using assms by (auto simp: age_def on_logs_signatures remember_new intake_ok_def)

text \<open>
  C18: a transaction is handled once. After any history of notifications, a signature that was not
  remembered is recorded; if the subscription delivers it again within the next 999 notifications,
  whatever they are, the second delivery changes nothing: nothing is queued a second time.
\<close>

theorem duplicate_notification_ignored:
  assumes "\<forall>(now, job) \<in> set (before @ (t, job) # later). job_signature job \<noteq> []" and "length later \<le> 999"
    and "job_signature job \<notin> set (processedSignatures (deliver cfg before start_intake))"
    and "job_signature again = job_signature job"
  shows "on_logs cfg t' again (deliver cfg (before @ (t, job) # later) start_intake) =
         deliver cfg (before @ (t, job) # later) start_intake"
proof -
  let ?w = "deliver cfg before start_intake"
  have ok: "intake_ok ?w" using assms(1) by (intro intake_ok_deliver) (auto simp: intake_ok_def start_intake_def)
  have job: "job_signature job \<noteq> []" using assms(1) by auto
  have "\<exists>k. age (job_signature job) (deliver cfg later (on_logs cfg t job ?w)) = Some k"
    by (rule age_deliver [OF intake_ok_on_logs [OF ok job] _ age_delivered [OF ok job assms(3)]]) (use assms(1,2) in auto)
  moreover have "deliver cfg (before @ (t, job) # later) start_intake = deliver cfg later (on_logs cfg t job ?w)"
    by (simp add: deliver_def)
  ultimately show ?thesis using assms(4) by (auto simp: on_logs_def age_def split: if_splits)
qed

lemma includes_trans: "str_includes l t \<Longrightarrow> str_includes t u \<Longrightarrow> str_includes l u"
  unfolding str_includes_iff by (metis append.assoc)

lemma filtered_is_spam: "filtered_pre_queue cfg logs \<Longrightarrow> is_spam (involved_in cfg logs) logs"
proof -
  assume f: "filtered_pre_queue cfg logs"
  have s: "SYS_SUCCESS = SYSTEM_PROGRAM_SUCCESS" by (simp add: SYS_SUCCESS_def SYSTEM_PROGRAM_SUCCESS_def)
  have i: "str_includes ''Program ComputeBudget111111111111111111111111111111 invoke'' ''ComputeBudget111111111111111111111111111111''"
    by code_simp
  have "\<not> str_includes l ''Program ComputeBudget111111111111111111111111111111 invoke''" if "l \<in> set logs" for l
    using f that includes_trans [OF _ i] by (auto simp: filtered_pre_queue_def list_ex_iff)
  then show ?thesis
    using f s by (auto simp: filtered_pre_queue_def is_spam_def involved_in_def involvesDex_def some_log_def list_ex_iff)
qed

text \<open>
  The filter before the queue loses nothing. A transaction it drops would have been parsed to the
  single event \<^verbatim>\<open>UNKNOWN\<close>, whatever the node answers, and handling that asks for no copy and changes
  nothing.
\<close>

theorem prefilter_loses_nothing:
  assumes "filtered_pre_queue cfg logs"
  shows "parseTransaction bs58 cfg rpc logs wallet = Inr [UNKNOWN] \<and>
         process_tx bn ops dcfg tm wallet (parseTransaction bs58 cfg rpc logs wallet) s = ([], s)"
  using filtered_is_spam [OF assms]
  by (simp add: parseTransaction_def process_tx_def handleEvent_def bind_proc_def finish_def)

section \<open>Properties of the drawdown protection\<close>

fun twice_in_a_row :: "('a \<Rightarrow> bool) \<Rightarrow> 'a list \<Rightarrow> bool" where
  "twice_in_a_row P [] = False"
| "twice_in_a_row P [x] = False"
| "twice_in_a_row P (x # y # ys) \<longleftrightarrow> (P x \<and> P y) \<or> twice_in_a_row P (y # ys)"

definition snapshots :: "dispatch_config \<Rightarrow> js_num \<Rightarrow> ((dex_id \<Rightarrow> millis) \<times> js_num) list \<Rightarrow> ('j, 'x) bot \<Rightarrow> ('j, 'x) bot" where
  "snapshots cfg threshold xs s = fold (\<lambda>(now, total'). on_snapshot cfg threshold now total') xs s"

lemma snapshots_simps [simp]:
  "snapshots cfg threshold [] s = s"
  "snapshots cfg threshold ((now, t) # xs) s = snapshots cfg threshold xs (on_snapshot cfg threshold now t s)"
  by (simp_all add: snapshots_def)

lemma snapshots_paused:
  "startAssetUsd s = Some start \<Longrightarrow> drawdownPaused (execs s BYREAL) \<Longrightarrow> snapshots cfg threshold xs s = s"
  by (induction xs) (auto simp: on_snapshot_def)

lemma snapshots_pause_iff:
  fixes s :: "('j, 'x) bot"
  assumes "startAssetUsd s = Some start" and "\<And>d. live cfg d \<Longrightarrow> \<not> drawdownPaused (execs s d)" and "live cfg d"
  shows "drawdownPaused (execs (snapshots cfg threshold xs s) d) \<longleftrightarrow>
     \<not> num_le threshold (Num 0) \<and>
     ((drawdownWarning s \<and> xs \<noteq> [] \<and> num_le threshold (drawdown_of start (snd (hd xs)))) \<or>
      twice_in_a_row (\<lambda>(now, t). num_le threshold (drawdown_of start t)) xs)"
  using assms(1,2)
proof (induction xs arbitrary: s)
  case Nil
  then show ?case using assms(3) by simp
next
  case (Cons x xs)
  obtain now t where x: "x = (now, t)" by (cases x)
  have b: "\<not> drawdownPaused (execs s BYREAL)" using Cons.prems(2) by (simp add: live_def)
  let ?s' = "on_snapshot cfg threshold now t s"
  consider "num_le threshold (Num 0)"
    | "\<not> num_le threshold (Num 0)" "num_le threshold (drawdown_of start t)" "drawdownWarning s"
    | "\<not> num_le threshold (Num 0)" "num_le threshold (drawdown_of start t)" "\<not> drawdownWarning s"
    | "\<not> num_le threshold (Num 0)" "\<not> num_le threshold (drawdown_of start t)" by blast
  then show ?case
  proof cases
    case 1
    with b Cons.prems(1) have "?s' = s" by (simp add: on_snapshot_def)
    with 1 x show ?thesis using Cons.IH [OF Cons.prems] by simp
  next
    case 2
    with b Cons.prems(1) have s': "?s' = pause_all cfg now s" by (simp add: on_snapshot_def)
    have "snapshots cfg threshold xs ?s' = ?s'"
      by (rule snapshots_paused) (use Cons.prems(1) in \<open>simp_all add: s' pause_all_def live_def\<close>)
    with 2 x s' assms(3) show ?thesis by (simp add: pause_all_def)
  next
    case 3
    with b Cons.prems(1) have s': "?s' = s\<lparr>drawdownWarning := True\<rparr>" by (simp add: on_snapshot_def)
    have "drawdownPaused (execs (snapshots cfg threshold xs ?s') d) \<longleftrightarrow>
        \<not> num_le threshold (Num 0) \<and> ((drawdownWarning ?s' \<and> xs \<noteq> [] \<and> num_le threshold (drawdown_of start (snd (hd xs)))) \<or>
          twice_in_a_row (\<lambda>(now, t). num_le threshold (drawdown_of start t)) xs)"
      by (rule Cons.IH) (use Cons.prems in \<open>simp_all add: s'\<close>)
    with 3 x s' show ?thesis by (cases xs) (auto split: prod.splits)
  next
    case 4
    with b Cons.prems(1) have s': "?s' = s\<lparr>drawdownWarning := False\<rparr>" by (auto simp: on_snapshot_def)
    have "drawdownPaused (execs (snapshots cfg threshold xs ?s') d) \<longleftrightarrow>
        \<not> num_le threshold (Num 0) \<and> ((drawdownWarning ?s' \<and> xs \<noteq> [] \<and> num_le threshold (drawdown_of start (snd (hd xs)))) \<or>
          twice_in_a_row (\<lambda>(now, t). num_le threshold (drawdown_of start t)) xs)"
      by (rule Cons.IH) (use Cons.prems in \<open>simp_all add: s'\<close>)
    with 4 x s' show ?thesis by (cases xs) (auto split: prod.splits)
  qed
qed

text \<open>
  C12: the drawdown protection. Starting without pause and warning, the first snapshot sets the
  reference; after any further snapshots every live executor is paused exactly if the protection is on
  and two consecutive ones lay at least the threshold below the reference (one alone never pauses).
  From then on no event makes the bot open or increase a position, on any DEX.
\<close>

theorem drawdown_pause:
  fixes s :: "('j, 'x) bot"
  assumes "startAssetUsd s = None" and "\<not> drawdownWarning s" and "\<And>d. live cfg d \<Longrightarrow> \<not> drawdownPaused (execs s d)"
    and "final = snapshots cfg threshold ((t0, reference) # xs) s"
    and "fell \<longleftrightarrow> \<not> num_le threshold (Num 0) \<and> twice_in_a_row (\<lambda>(t, v). num_le threshold (drawdown_of reference v)) xs"
  shows "(live cfg d \<longrightarrow> (drawdownPaused (execs final d) \<longleftrightarrow> fell)) \<and>
         (fell \<longrightarrow> (\<forall>c \<in> set (copies_of (handleEvent bn ops cfg tm wallet ev) final).
            (\<forall>e nft pid ref w. c \<noteq> CopyOpen e nft pid ref w) \<and> (\<forall>e nft w. c \<noteq> CopyIncrease e nft w)))"
proof -
  let ?s1 = "s\<lparr>startAssetUsd := Some reference\<rparr>"
  have final: "final = snapshots cfg threshold xs ?s1" using assms(1,4) by (simp add: on_snapshot_def)
  have p: "drawdownPaused (execs final e) \<longleftrightarrow> fell" if "live cfg e" for e
    using snapshots_pause_iff [of ?s1 reference cfg e threshold xs] assms(2,3,5) that by (simp add: final)
  have "\<not> may_open cfg n w e nft pid ref mints final \<and> \<not> may_increase cfg w e nft final" if fell for n w e nft pid ref mints
    using p [of e] that by (auto simp: may_open_def may_increase_def live_def)
  then have "fell \<longrightarrow> (\<forall>c \<in> set (policy bn cfg (at_guard tm) wallet final a).
      (\<forall>e nft pid ref w. c \<noteq> CopyOpen e nft pid ref w) \<and> (\<forall>e nft w. c \<noteq> CopyIncrease e nft w))" for a
  proof (cases a)
    case (ASwap inM outM amt)
    then show ?thesis using policy_swap [of _ bn cfg "at_guard tm" wallet final inM outM amt] by blast
  qed (simp_all add: in_singleton_if)
  then show ?thesis using p by (simp add: handleEvent_copies)
qed

section \<open>Properties of the lock\<close>

lemma show_nat_trim: "trim (show_nat n) = show_nat n"
proof (rule trim_id)
  have d: "\<not> is_space c" if "is_digit c" for c
    using that by (auto simp: is_digit_def digit_val_def is_space_def Let_def split: if_splits)
  show "\<not> is_space (hd (show_nat n))" by (rule d, rule show_nat_digits [of _ n]) simp
  show "\<not> is_space (last (show_nat n))" by (rule d, rule show_nat_digits [of _ n]) simp
qed simp

lemma parseInt10_show_nat: "parseInt10 (show_nat n) = Some (int n)"
proof -
  have t: "takeWhile is_digit (show_nat n) = show_nat n" using show_nat_digits by (simp add: takeWhile_eq_all_conv)
  obtain c r where cr: "show_nat n = c # r" by (cases "show_nat n") auto
  then have c: "is_digit c" using show_nat_digits [of c n] by simp
  then have "strip_sign (show_nat n) = (1, show_nat n)" by (auto simp: strip_sign_def cr is_digit_def digit_val_def)
  moreover have "dropWhile is_space (show_nat n) = show_nat n"
    using c by (auto simp: cr is_digit_def digit_val_def is_space_def Let_def split: if_splits)
  moreover have "nat_of_digits (show_nat n) = n" by (simp add: nat_of_digits_def digits_val_show_nat)
  ultimately show ?thesis using t by (simp add: parseInt10_def)
qed

text \<open>
  One instance at a time. The PID an instance writes into the lock file is read back, so an instance
  that starts while the first one runs exits with code 1 and never subscribes; once the first is gone
  or has released the lock, a new one takes it over.
\<close>

theorem second_instance_exits:
  assumes "acquireLock alive0 first file0 = Locked file"
  shows "(alive (int first) \<longrightarrow> acquireLock alive second (Some file) = ExitsWith 1) \<and>
         (\<not> alive (int first) \<longrightarrow> acquireLock alive second (Some file) = Locked (show_nat second)) \<and>
         acquireLock alive second (releaseLock (Some file)) = Locked (show_nat second)"
proof -
  have "file = show_nat first" using assms by (auto simp: acquireLock_def split: option.splits if_splits)
  then show ?thesis by (simp add: acquireLock_def releaseLock_def show_nat_trim parseInt10_show_nat)
qed

section \<open>Witnesses\<close>

definition demo_job :: tx_job where
  "demo_job = \<lparr>job_signature = ''s1'', job_logs = [''Program BYR invoke [1]''], job_wallet = ''target''\<rparr>"

theorem duplicate_notification_ignored_witness:
  "on_logs demo_cfg 9 (demo_job\<lparr>job_logs := []\<rparr>) (deliver demo_cfg ([] @ (1, demo_job) # [(2, demo_job\<lparr>job_signature := ''s2''\<rparr>)]) start_intake) =
   deliver demo_cfg ([] @ (1, demo_job) # [(2, demo_job\<lparr>job_signature := ''s2''\<rparr>)]) start_intake"
  by (rule duplicate_notification_ignored) (simp_all add: demo_job_def start_intake_def)

theorem prefilter_loses_nothing_witness:
  "process_tx int_BN demo_ops demo_dispatch (\<lambda>_. demo_times) ''target''
     (parseTransaction (\<lambda>_. None) demo_cfg (demo_rpc False) (replicate 5 SYS_SUCCESS) ''target'') (demo_bot False) = ([], demo_bot False)"
proof -
  have "filtered_pre_queue demo_cfg (replicate 5 SYS_SUCCESS)" by code_simp
  then show ?thesis using prefilter_loses_nothing by blast
qed

theorem drawdown_pause_witness:
  "drawdownPaused (execs (snapshots demo_dispatch (Num 20) [(\<lambda>_. 1, Num 100), (\<lambda>_. 2, Num 0), (\<lambda>_. 3, Num 0)] (demo_bot False)) BYREAL)"
proof -
  have "to_num 100 = Num 100" "to_num 1 = Num 1" using to_num_int [of 100] to_num_int [of 1] by simp_all
  then have "drawdown_of (Num 100) (Num 0) = Num 100" by (simp add: drawdown_of_def num_sub_def)
  then have "num_le (Num 20) (drawdown_of (Num 100) (Num 0))" "\<not> num_le (Num 20) (Num 0)"
    by (simp_all add: num_le_def num_eq_def)
  then have f: "True \<longleftrightarrow> \<not> num_le (Num 20) (Num 0) \<and>
      twice_in_a_row (\<lambda>(t, v). num_le (Num 20) (drawdown_of (Num 100) v)) [(\<lambda>_::dex_id. 2::millis, Num 0), (\<lambda>_. 3, Num 0)]" by simp
  have "startAssetUsd (demo_bot False) = None" "\<not> drawdownWarning (demo_bot False)"
    "\<And>d. live demo_dispatch d \<Longrightarrow> \<not> drawdownPaused (execs (demo_bot False) d)"
    by (simp_all add: demo_bot_def demo_executor_def)
  from drawdown_pause [where d = BYREAL and bn = int_BN and ops = demo_ops and tm = demo_times and wallet = "''target''"
      and ev = UNKNOWN, OF this refl f]
  show ?thesis by (simp add: live_def)
qed

theorem second_instance_exits_witness:
  "acquireLock (\<lambda>p. p = 42) 7 (Some (show_nat 42)) = ExitsWith 1"
proof -
  have "acquireLock (\<lambda>_. False) 42 None = Locked (show_nat 42)" by (simp add: acquireLock_def)
  from second_instance_exits [OF this, of "\<lambda>p. p = 42" 7] show ?thesis by simp
qed

end
