(* ===== verification/Asset_Trend.thy ===== *)
theory Asset_Trend
  imports Json_Access Ring_Table
begin

text \<open>
  The portfolio snapshots: \<^verbatim>\<open>src/dashboard/asset-trend.ts\<close>, its repository
  \<^verbatim>\<open>src/state/repo/snapshots.ts\<close> and the shared total of \<^verbatim>\<open>src/state/portfolio-state.ts\<close>. The answers of
  the HTTP services and of the executors' valuations are arguments; an \<open>Inl\<close> is a request that
  failed. The model keeps the three tiers, the boundaries of the aggregation, the price cache and the
  repository calls a commit pushes.
\<close>

section \<open>Snapshots and their table\<close>

text \<open>A snapshot is its time and its numeric fields by name.\<close>

record AssetSnapshot =
  as_ts :: millis
  as_fields :: "(string, js_num) jsmap"

datatype Granularity = GRaw | GHourly | GDaily

definition VALUE_COLUMNS :: "(string \<times> string) list" where
  "VALUE_COLUMNS =
     [(''tokens_usd'', ''tokensUsd''), (''lp_value_usd'', ''lpValueUsd''), (''unclaimed_usd'', ''unclaimedUsd''),
      (''bonus_usd'', ''bonusUsd''), (''locked_sol_usd'', ''lockedSolUsd''), (''total_usd'', ''totalUsd''),
      (''sol_price'', ''solPrice''), (''sol_balance_usd'', ''solBalanceUsd''), (''byreal_lp_usd'', ''byrealLpUsd''),
      (''byreal_fees_usd'', ''byrealFeesUsd''), (''byreal_locked_usd'', ''byrealLockedUsd''), (''orca_lp_usd'', ''orcaLpUsd''),
      (''orca_fees_usd'', ''orcaFeesUsd''), (''orca_locked_usd'', ''orcaLockedUsd''), (''meteora_lp_usd'', ''meteoraLpUsd''),
      (''meteora_fees_usd'', ''meteoraFeesUsd''), (''meteora_locked_usd'', ''meteoraLockedUsd''), (''pcs_lp_usd'', ''pcsLpUsd''),
      (''pcs_fees_usd'', ''pcsFeesUsd''), (''pcs_locked_usd'', ''pcsLockedUsd''), (''dammv2_lp_usd'', ''dammv2LpUsd''),
      (''dammv2_fees_usd'', ''dammv2FeesUsd''), (''dammv2_locked_usd'', ''dammv2LockedUsd'')]"

text \<open>The columns declared \<^verbatim>\<open>NOT NULL\<close>.\<close>

definition REQUIRED_COLUMNS :: "string list" where
  "REQUIRED_COLUMNS = [''tokens_usd'', ''lp_value_usd'', ''unclaimed_usd'', ''bonus_usd'', ''locked_sol_usd'', ''total_usd'']"

text \<open>A row: the value of each column, \<open>None\<close> being \<^verbatim>\<open>NULL\<close>. \<^verbatim>\<open>NUMERIC\<close> keeps a number exactly.\<close>

type_synonym snapshot_row = "(string \<times> js_num option) list"
type_synonym snapshot_table = "(Granularity \<times> millis, snapshot_row) jsmap"

definition snapshot_values :: "AssetSnapshot \<Rightarrow> snapshot_row" where
  "snapshot_values snapshot = map (\<lambda>(column, field). (column, map_of (as_fields snapshot) field)) VALUE_COLUMNS"

definition toSnapshot :: "millis \<Rightarrow> snapshot_row \<Rightarrow> AssetSnapshot" where
  "toSnapshot ts row =
     \<lparr>as_ts = ts,
      as_fields = fold (\<lambda>(column, field) out.
          case Option.bind (map_of row column) (\<lambda>v. v) of Some v \<Rightarrow> AList.update field v out | None \<Rightarrow> out) VALUE_COLUMNS []\<rparr>"

definition snapshots_insert :: "Granularity \<Rightarrow> AssetSnapshot \<Rightarrow> snapshot_table \<Rightarrow> snapshot_table result" where
  "snapshots_insert g snapshot t =
     (let row = snapshot_values snapshot
      in if list_ex (\<lambda>c. map_of row c = Some None) REQUIRED_COLUMNS then Inl (Error ''null value in column'')
         else Inr (AList.update (g, as_ts snapshot) row t))"

definition tier_rows :: "Granularity \<Rightarrow> snapshot_table \<Rightarrow> (millis \<times> snapshot_row) list" where
  "tier_rows g t = map (\<lambda>((g', ts), row). (ts, row)) (filter (\<lambda>((g', ts), row). g' = g) t)"

text \<open>\<^verbatim>\<open>ORDER BY ts DESC LIMIT limit\<close>, then \<^verbatim>\<open>ORDER BY ts ASC\<close>\<close>

definition snapshots_latest :: "Granularity \<Rightarrow> nat \<Rightarrow> snapshot_table \<Rightarrow> AssetSnapshot list" where
  "snapshots_latest g limit t =
     map (\<lambda>(ts, row). toSnapshot ts row) (sort_key fst (take limit (rev (sort_key fst (tier_rows g t)))))"

definition snapshots_all :: "Granularity \<Rightarrow> snapshot_table \<Rightarrow> AssetSnapshot list" where
  "snapshots_all g t = map (\<lambda>(ts, row). toSnapshot ts row) (sort_key fst (tier_rows g t))"

definition snapshots_latestTs :: "Granularity \<Rightarrow> snapshot_table \<Rightarrow> millis" where
  "snapshots_latestTs g t = (case rev (sort_key fst (tier_rows g t)) of (ts, row) # _ \<Rightarrow> ts | [] \<Rightarrow> 0)"

definition snapshots_count :: "Granularity \<Rightarrow> snapshot_table \<Rightarrow> nat" where
  "snapshots_count g t = length (tier_rows g t)"

text \<open>What survives \<^verbatim>\<open>DELETE ... WHERE granularity = g AND ts < cutoff\<close>.\<close>

definition row_kept :: "Granularity \<Rightarrow> millis \<Rightarrow> (Granularity \<times> millis) \<times> snapshot_row \<Rightarrow> bool" where
  "row_kept g cutoff = (\<lambda>((g', ts), row). \<not> (g' = g \<and> ts < cutoff))"

definition snapshots_prune :: "Granularity \<Rightarrow> nat \<Rightarrow> snapshot_table \<Rightarrow> (nat \<times> snapshot_table) result" where
  "snapshots_prune g keep t =
     (if keep = 0 then Inl (Error ''OFFSET must not be negative'')
      else let ts_desc = rev (sort (map fst (tier_rows g t)))
           in if keep - 1 < length ts_desc
              then let cutoff = ts_desc ! (keep - 1); kept = filter (row_kept g cutoff) t
                   in Inr (length t - length kept, kept)
              else Inr (0, t))"

definition snapshots_pruneOlderThan :: "Granularity \<Rightarrow> millis \<Rightarrow> snapshot_table \<Rightarrow> nat \<times> snapshot_table" where
  "snapshots_pruneOlderThan g cutoff t =
     (let kept = filter (row_kept g cutoff) t in (length t - length kept, kept))"

section \<open>The collector's state\<close>

definition MAX_RAW :: nat where "MAX_RAW = 576"
definition MAX_HOURLY :: nat where "MAX_HOURLY = 720"

datatype trend_call =
    TC_insert Granularity AssetSnapshot
  | TC_retain millis millis

record trend =
  tr_raw :: "AssetSnapshot list"
  tr_hourly :: "AssetSnapshot list"
  tr_daily :: "AssetSnapshot list"
  lastAggregatedHour :: millis
  lastAggregatedDay :: millis
  latestTotalUsd :: js_num
  snapshotInProgress :: bool
  tr_calls :: "trend_call list"

definition floorToHour :: "millis \<Rightarrow> millis" where
  "floorToHour ts = (ts div (60 * 60 * 1000)) * (60 * 60 * 1000)"

definition floorToDay :: "millis \<Rightarrow> millis" where
  "floorToDay ts = (ts div (24 * 60 * 60 * 1000)) * (24 * 60 * 60 * 1000)"

definition new_trend :: trend where
  "new_trend = \<lparr>tr_raw = [], tr_hourly = [], tr_daily = [], lastAggregatedHour = 0, lastAggregatedDay = 0,
     latestTotalUsd = Num 0, snapshotInProgress = False, tr_calls = []\<rparr>"

definition setLatestTotalUsd :: "js_num \<Rightarrow> trend \<Rightarrow> trend" where
  "setLatestTotalUsd v t = t\<lparr>latestTotalUsd := v\<rparr>"

definition getLatestTotalUsd :: "trend \<Rightarrow> js_num" where
  "getLatestTotalUsd t = latestTotalUsd t"

definition getTrendLatestTs :: "trend \<Rightarrow> millis" where
  "getTrendLatestTs t = (if tr_raw t = [] then 0 else as_ts (last (tr_raw t)))"

definition loadTrend :: "snapshot_table \<Rightarrow> trend \<Rightarrow> trend" where
  "loadTrend db t0 =
     (let t = t0\<lparr>tr_raw := snapshots_latest GRaw MAX_RAW db, tr_hourly := snapshots_latest GHourly MAX_HOURLY db,
                 tr_daily := snapshots_all GDaily db\<rparr>;
          t1 = (if tr_hourly t \<noteq> [] then t\<lparr>lastAggregatedHour := floorToHour (as_ts (last (tr_hourly t)))\<rparr> else t)
      in if tr_daily t1 \<noteq> [] then t1\<lparr>lastAggregatedDay := floorToDay (as_ts (last (tr_daily t1)))\<rparr> else t1)"

text \<open>Promotion into one tier: the last of the lower tier's snapshots between the two boundaries.\<close>

definition promote :: "millis \<Rightarrow> millis \<Rightarrow> AssetSnapshot list \<Rightarrow> AssetSnapshot option" where
  "promote lastBoundary boundary lower =
     (if lastBoundary > 0 \<and> boundary > lastBoundary
      then (let candidates = filter (\<lambda>s. as_ts s \<ge> lastBoundary \<and> as_ts s < boundary) lower
            in if candidates \<noteq> [] then Some (last candidates) else None)
      else None)"

definition aggregateTiers :: "AssetSnapshot \<Rightarrow> trend \<Rightarrow> (Granularity \<times> AssetSnapshot) list \<times> trend" where
  "aggregateTiers snapshot t =
     (let currentHour = floorToHour (as_ts snapshot);
          currentDay = floorToDay (as_ts snapshot);
          endOfHour = promote (lastAggregatedHour t) currentHour (tr_raw t);
          t1 = (case endOfHour of Some s \<Rightarrow> t\<lparr>tr_hourly := tr_hourly t @ [s]\<rparr> | None \<Rightarrow> t)\<lparr>lastAggregatedHour := currentHour\<rparr>;
          endOfDay = promote (lastAggregatedDay t1) currentDay (tr_hourly t1);
          t2 = (case endOfDay of Some s \<Rightarrow> t1\<lparr>tr_daily := tr_daily t1 @ [s]\<rparr> | None \<Rightarrow> t1)\<lparr>lastAggregatedDay := currentDay\<rparr>
      in ((case endOfHour of Some s \<Rightarrow> [(GHourly, s)] | None \<Rightarrow> []) @ (case endOfDay of Some s \<Rightarrow> [(GDaily, s)] | None \<Rightarrow> []), t2))"

definition snap_field :: "string \<Rightarrow> AssetSnapshot \<Rightarrow> js_num" where
  "snap_field k s = (case map_of (as_fields s) k of Some v \<Rightarrow> v | None \<Rightarrow> NaN)"

text \<open>\<open>now\<close> is the time of the retention; the result carries the total handed to the snapshot callback.\<close>

definition commitSnapshot :: "millis \<Rightarrow> AssetSnapshot \<Rightarrow> trend \<Rightarrow> js_num \<times> trend" where
  "commitSnapshot now snapshot t =
     (let t1 = t\<lparr>tr_raw := tr_raw t @ [snapshot], tr_calls := tr_calls t @ [TC_insert GRaw snapshot]\<rparr>;
          (promoted, t2) = aggregateTiers snapshot t1;
          rawCutoff = now - 48 * 60 * 60 * 1000;
          hourlyCutoff = now - 30 * 24 * 60 * 60 * 1000;
          raw1 = filter (\<lambda>s. as_ts s \<ge> rawCutoff) (tr_raw t2);
          hourly1 = filter (\<lambda>s. as_ts s \<ge> hourlyCutoff) (tr_hourly t2);
          t3 = t2\<lparr>tr_raw := (if length raw1 > MAX_RAW then drop (length raw1 - MAX_RAW) raw1 else raw1),
                  tr_hourly := (if length hourly1 > MAX_HOURLY then drop (length hourly1 - MAX_HOURLY) hourly1 else hourly1),
                  tr_calls := tr_calls t2 @ map (\<lambda>(g, s). TC_insert g s) promoted @ [TC_retain rawCutoff hourlyCutoff]\<rparr>
      in (snap_field ''totalUsd'' snapshot, setLatestTotalUsd (snap_field ''totalUsd'' snapshot) t3))"

text \<open>
  What a pushed call does to the table; the four statements of the retention are separate, and one
  that throws leaves the effects of those before it.
\<close>

fun trend_run :: "trend_call \<Rightarrow> snapshot_table \<Rightarrow> snapshot_table" where
  "trend_run (TC_insert g s) db = (case snapshots_insert g s db of Inr db' \<Rightarrow> db' | Inl e \<Rightarrow> db)"
| "trend_run (TC_retain rawCutoff hourlyCutoff) db =
     (let db1 = snd (snapshots_pruneOlderThan GRaw rawCutoff db)
      in (case snapshots_prune GRaw MAX_RAW db1 of
            Inl e \<Rightarrow> db1
          | Inr (n, db2) \<Rightarrow>
              (let db3 = snd (snapshots_pruneOlderThan GHourly hourlyCutoff db2)
               in (case snapshots_prune GHourly MAX_HOURLY db3 of Inl e \<Rightarrow> db3 | Inr (m, db4) \<Rightarrow> db4))))"

section \<open>Fetching the values\<close>

text \<open>
  The Jupiter holdings: the SOL amount and, per mint, the amounts of its accounts (\<open>None\<close> where the
  field is no array).
\<close>

record holdings_body =
  hb_uiAmount :: json
  hb_tokens :: "(string \<times> js_num list option) list"

definition sum_positive :: "js_num list \<Rightarrow> js_num" where
  "sum_positive xs = fold (\<lambda>x acc. if num_lt (Num 0) x then num_add acc x else acc) xs (Num 0)"

definition fetchJupiterHoldings :: "holdings_body result \<Rightarrow> (js_num \<times> (string, js_num) jsmap) result" where
  "fetchJupiterHoldings res =
     bind_result res (\<lambda>body.
       Inr (float_or_zero (hb_uiAmount body),
            fold (\<lambda>(m, accs) h.
                case accs of
                  None \<Rightarrow> h
                | Some xs \<Rightarrow> if num_lt (Num 0) (sum_positive xs) then AList.update m (sum_positive xs) h else h)
              (hb_tokens body) []))"

text \<open>
  Prices: \<open>ask\<close> is the service's answer for the requested mints. Fresh prices go into the cache.
\<close>

definition TREND_SOL_MINT :: string where
  "TREND_SOL_MINT = ''So11111111111111111111111111111111111111112''"

definition fetchJupiterPrices ::
  "(string list \<Rightarrow> (string \<times> json) list result) \<Rightarrow> string list \<Rightarrow> (string, js_num) jsmap \<Rightarrow>
   ((string, js_num) jsmap \<times> (string, js_num) jsmap) result" where
  "fetchJupiterPrices service mints cache =
     (if mints = [] then Inr ([], cache)
      else bind_result (service (mints @ [TREND_SOL_MINT])) (\<lambda>rows.
        let prices = fold (\<lambda>(m, info) ps.
                let p = json_opt info ''usdPrice''
                in if json_truthy p then AList.update m (parseFloat (js_String p)) ps else ps) rows []
        in Inr (prices, fold (\<lambda>(m, p) c. AList.update m p c) prices cache)))"

record byreal_overview =
  bo_totalValue :: js_num
  bo_unclaimedFee :: js_num
  bo_unclaimedRewards :: js_num
  bo_openPositionCount :: js_num

definition fetchByrealOverview :: "json result \<Rightarrow> byreal_overview result" where
  "fetchByrealOverview res =
     bind_result res (\<lambda>body.
       let r = json_opt (json_opt body ''result'') ''data''
       in if \<not> json_truthy r then Inl (Error ''Byreal overview empty'')
          else Inr \<lparr>bo_totalValue = float_or_zero (json_opt r ''totalValue''),
                    bo_unclaimedFee = float_or_zero (json_opt r ''unclaimedFee''),
                    bo_unclaimedRewards = float_or_zero (json_opt r ''unclaimedRewards''),
                    bo_openPositionCount = int_or_zero (json_opt r ''openPositionCount'')\<rparr>)"

fun unclaimed_sum :: "json list \<Rightarrow> js_num \<Rightarrow> js_num result" where
  "unclaimed_sum [] acc = Inr acc"
| "unclaimed_sum (item # rest) acc =
     bind_result (json_field item ''amount'') (\<lambda>a. bind_result (json_field item ''price'') (\<lambda>p.
       unclaimed_sum rest (num_add acc (num_mul (float_or_zero a) (float_or_zero p)))))"

text \<open>\<^verbatim>\<open>for (const item of list)\<close> throws when \<^verbatim>\<open>list\<close> is not iterable; a string's characters have no fields.\<close>

definition fetchByrealUnclaimedFees :: "json result \<Rightarrow> js_num result" where
  "fetchByrealUnclaimedFees res =
     bind_result res (\<lambda>body.
       let l = json_opt (json_opt (json_opt body ''result'') ''data'') ''list''
       in if \<not> json_truthy l then Inl (Error ''Byreal unclaimed-v2 empty'')
          else (case l of
                  JArray items \<Rightarrow> unclaimed_sum items (Num 0)
                | JString s \<Rightarrow> unclaimed_sum (map (\<lambda>c. JString [c]) s) (Num 0)
                | _ \<Rightarrow> Inl TypeError))"

definition bonus_of :: "string \<Rightarrow> json \<Rightarrow> js_num" where
  "bonus_of k body =
     float_or_zero (json_opt (json_opt (json_opt (json_opt body ''result'') ''data'') k) ''totalBonusUsd'')"

definition fetchEpochBonus :: "json result \<Rightarrow> json result \<Rightarrow> js_num result" where
  "fetchEpochBonus r1 r2 =
     bind_result r1 (\<lambda>d1. bind_result r2 (\<lambda>d2. Inr (num_add (bonus_of ''1'' d1) (bonus_of ''2'' d2))))"

section \<open>A snapshot's values\<close>

text \<open>
  The answers one round of requests gets. A DEX's valuation is missing when its executor is disabled;
  a failed one counts as zero.
\<close>

type_synonym lp_answer = "(js_num \<times> js_num \<times> js_num) result option"

record snapshot_answers =
  an_holdings :: "holdings_body result"
  an_overview :: "json result"
  an_bonus1 :: "json result"
  an_bonus2 :: "json result"
  an_unclaimed :: "json result"
  an_prices :: "string list \<Rightarrow> (string \<times> json) list result"
  an_orca :: lp_answer
  an_meteora :: lp_answer
  an_pcs :: lp_answer
  an_dammv2 :: lp_answer

record rents =
  rentPerPosition :: js_num
  orcaRentPerPosition :: js_num
  meteoraRentPerPosition :: js_num
  pcsRentPerPosition :: js_num
  dammv2RentPerPosition :: js_num

fun lp_part :: "js_num \<Rightarrow> js_num \<Rightarrow> lp_answer \<Rightarrow> js_num \<times> js_num \<times> js_num" where
  "lp_part rent solPrice None = (Num 0, Num 0, Num 0)"
| "lp_part rent solPrice (Some (Inl e)) = (Num 0, Num 0, Num 0)"
| "lp_part rent solPrice (Some (Inr (lpUsd, feeUsd, count'))) =
     (lpUsd, feeUsd, num_mul (num_mul count' rent) solPrice)"

text \<open>\<^verbatim>\<open>a || b\<close> on a number that may be missing\<close>

definition num_or :: "js_num option \<Rightarrow> js_num \<Rightarrow> js_num" where
  "num_or x d = (case x of Some v \<Rightarrow> if v = NaN \<or> v = Num 0 then d else v | None \<Rightarrow> d)"

definition fixed_to :: "nat \<Rightarrow> js_num \<Rightarrow> js_num" where
  "fixed_to digits x = (case toFixed x digits of Inr s \<Rightarrow> parseFloat s | Inl e \<Rightarrow> NaN)"

definition sum5 :: "js_num \<Rightarrow> js_num \<Rightarrow> js_num \<Rightarrow> js_num \<Rightarrow> js_num \<Rightarrow> js_num" where
  "sum5 a b c d e = num_add (num_add (num_add (num_add a b) c) d) e"

definition tokens_value ::
  "(string, js_num) jsmap \<Rightarrow> (string, js_num) jsmap \<Rightarrow> (string, js_num) jsmap \<Rightarrow> js_num \<Rightarrow> js_num" where
  "tokens_value holdings prices cache start =
     fold (\<lambda>(m, uiAmount') acc. num_add acc (num_mul uiAmount' (num_or (map_of prices m) (num_or (map_of cache m) (Num 0)))))
       holdings start"

definition snapshot_of ::
  "rents \<Rightarrow> js_num \<Rightarrow> snapshot_answers \<Rightarrow> millis \<Rightarrow> js_num \<Rightarrow> (string, js_num) jsmap \<Rightarrow> (string, js_num) jsmap \<Rightarrow>
   (string, js_num) jsmap \<Rightarrow> byreal_overview \<Rightarrow> js_num \<Rightarrow> js_num option \<Rightarrow> AssetSnapshot" where
  "snapshot_of rs knownSolPrice an now solBalance holdings prices cache ov bonusUsd unclaimed =
     (let solPrice = num_or (map_of prices TREND_SOL_MINT) knownSolPrice;
          solBalanceUsd = num_mul solBalance solPrice;
          tokensUsd = tokens_value holdings prices cache solBalanceUsd;
          byrealLpUsd = bo_totalValue ov;
          byrealFeesUsd = (case unclaimed of Some u \<Rightarrow> u | None \<Rightarrow> num_add (bo_unclaimedFee ov) (bo_unclaimedRewards ov));
          byrealLockedUsd = num_mul (num_mul (bo_openPositionCount ov) (rentPerPosition rs)) solPrice;
          (orcaLp, orcaFees, orcaLocked) = lp_part (orcaRentPerPosition rs) solPrice (an_orca an);
          (metLp, metFees, metLocked) = lp_part (meteoraRentPerPosition rs) solPrice (an_meteora an);
          (pcsLp, pcsFees, pcsLocked) = lp_part (pcsRentPerPosition rs) solPrice (an_pcs an);
          (dv2Lp, dv2Fees, dv2Locked) = lp_part (dammv2RentPerPosition rs) solPrice (an_dammv2 an);
          lpValueUsd = sum5 byrealLpUsd orcaLp metLp pcsLp dv2Lp;
          unclaimedUsd = sum5 byrealFeesUsd orcaFees metFees pcsFees dv2Fees;
          lockedSolUsd = sum5 byrealLockedUsd orcaLocked metLocked pcsLocked dv2Locked;
          totalUsd = sum5 tokensUsd lpValueUsd unclaimedUsd bonusUsd lockedSolUsd
      in \<lparr>as_ts = now,
          as_fields = [(''tokensUsd'', fixed_to 2 tokensUsd), (''lpValueUsd'', fixed_to 2 lpValueUsd),
            (''unclaimedUsd'', fixed_to 2 unclaimedUsd), (''bonusUsd'', fixed_to 2 bonusUsd),
            (''lockedSolUsd'', fixed_to 2 lockedSolUsd), (''totalUsd'', fixed_to 2 totalUsd),
            (''solPrice'', fixed_to 4 solPrice), (''solBalanceUsd'', fixed_to 2 solBalanceUsd),
            (''byrealLpUsd'', fixed_to 2 byrealLpUsd), (''orcaLpUsd'', fixed_to 2 orcaLp),
            (''byrealFeesUsd'', fixed_to 2 byrealFeesUsd), (''orcaFeesUsd'', fixed_to 2 orcaFees),
            (''byrealLockedUsd'', fixed_to 2 byrealLockedUsd), (''orcaLockedUsd'', fixed_to 2 orcaLocked),
            (''meteoraLpUsd'', fixed_to 2 metLp), (''meteoraFeesUsd'', fixed_to 2 metFees), (''meteoraLockedUsd'', fixed_to 2 metLocked),
            (''pcsLpUsd'', fixed_to 2 pcsLp), (''pcsFeesUsd'', fixed_to 2 pcsFees), (''pcsLockedUsd'', fixed_to 2 pcsLocked),
            (''dammv2LpUsd'', fixed_to 2 dv2Lp), (''dammv2FeesUsd'', fixed_to 2 dv2Fees), (''dammv2LockedUsd'', fixed_to 2 dv2Locked)]\<rparr>)"

text \<open>
  \<^verbatim>\<open>fetchSnapshotData\<close>: the snapshot and the new price cache. The first of the parallel requests that
  fails makes the whole fail, except the unclaimed fees, which have a fall-back.
\<close>

definition fetchSnapshotData ::
  "rents \<Rightarrow> js_num \<Rightarrow> snapshot_answers \<Rightarrow> millis \<Rightarrow> (string, js_num) jsmap \<Rightarrow> (AssetSnapshot \<times> (string, js_num) jsmap) result" where
  "fetchSnapshotData rs knownSolPrice an now cache =
     bind_result (fetchJupiterHoldings (an_holdings an)) (\<lambda>(solBalance, holdings).
     bind_result (fetchByrealOverview (an_overview an)) (\<lambda>ov.
     bind_result (fetchEpochBonus (an_bonus1 an) (an_bonus2 an)) (\<lambda>bonusUsd.
     bind_result (fetchJupiterPrices (an_prices an) (map fst holdings) cache) (\<lambda>(prices, cache').
       Inr (snapshot_of rs knownSolPrice an now solBalance holdings prices cache' ov bonusUsd
              (case fetchByrealUnclaimedFees (an_unclaimed an) of Inr u \<Rightarrow> Some u | Inl e \<Rightarrow> None), cache')))))"

section \<open>Collecting\<close>

definition ANOMALY_PCT :: js_num where
  "ANOMALY_PCT = parseFloat ''0.01''"

definition pct_change :: "js_num \<Rightarrow> js_num \<Rightarrow> js_num" where
  "pct_change prev cur = num_quot (num_abs (num_sub cur prev)) prev"

text \<open>
  \<^verbatim>\<open>collectAssetSnapshot\<close> in two segments: up to the first answer, which either commits or waits, and
  after the re-query, which commits whatever it gets. \<open>None\<close> is a failed fetch: the snapshot is skipped.
\<close>

datatype collect_next = Committed "js_num option" | Requery

definition collect_begin :: "trend \<Rightarrow> trend option" where
  "collect_begin t = (if snapshotInProgress t then None else Some (t\<lparr>snapshotInProgress := True\<rparr>))"

definition commit_and_release :: "millis \<Rightarrow> AssetSnapshot option \<Rightarrow> trend \<Rightarrow> collect_next \<times> trend" where
  "commit_and_release now snapshot t =
     (case snapshot of
        None \<Rightarrow> (Committed None, t\<lparr>snapshotInProgress := False\<rparr>)
      | Some s \<Rightarrow> (case commitSnapshot now s t of (total', t') \<Rightarrow> (Committed (Some total'), t'\<lparr>snapshotInProgress := False\<rparr>)))"

definition collect_answer :: "millis \<Rightarrow> AssetSnapshot option \<Rightarrow> trend \<Rightarrow> collect_next \<times> trend" where
  "collect_answer now snapshot t =
     (case snapshot of
        None \<Rightarrow> commit_and_release now None t
      | Some s \<Rightarrow>
          if tr_raw t \<noteq> [] \<and> num_lt (Num 0) (snap_field ''totalUsd'' (last (tr_raw t))) \<and>
             num_le ANOMALY_PCT (pct_change (snap_field ''totalUsd'' (last (tr_raw t))) (snap_field ''totalUsd'' s))
          then (Requery, t)
          else commit_and_release now (Some s) t)"

definition collect_requeried :: "millis \<Rightarrow> millis \<Rightarrow> AssetSnapshot option \<Rightarrow> trend \<Rightarrow> collect_next \<times> trend" where
  "collect_requeried ts now snapshot t =
     commit_and_release now (map_option (\<lambda>s. s\<lparr>as_ts := ts\<rparr>) snapshot) t"

section \<open>The table keeps what it is given\<close>

lemma column_fields_distinct: "distinct (map snd VALUE_COLUMNS)" "distinct (map fst VALUE_COLUMNS)"
  by (simp_all add: VALUE_COLUMNS_def)

lemma fields_of_row:
  assumes "distinct (map snd cols)" and "distinct (map fst cols)" and "field \<in> set (map snd cols)"
    and "\<And>c f. (c, f) \<in> set cols \<Longrightarrow> map_of row c = Some (g f)"
  shows "map_of (fold (\<lambda>(column, field) out.
      case Option.bind (map_of row column) (\<lambda>v. v) of Some v \<Rightarrow> AList.update field v out | None \<Rightarrow> out) cols out) field =
      (case g field of Some v \<Rightarrow> Some v | None \<Rightarrow> map_of out field)"
  using assms
proof (induction cols arbitrary: out)
  case (Cons cf cols)
  obtain c f where cf: "cf = (c, f)" by (cases cf)
  have row: "map_of row c = Some (g f)" using Cons.prems(4) cf by simp
  let ?out = "case g f of Some v \<Rightarrow> AList.update f v out | None \<Rightarrow> out"
  let ?F = "\<lambda>(column, field) out. case Option.bind (map_of row column) (\<lambda>v. v) of Some v \<Rightarrow> AList.update field v out | None \<Rightarrow> out"
  have notin: "map_of (fold ?F cs o') f' = map_of o' f'" if "f' \<notin> set (map snd cs)" for cs o' f'
    using that by (induction cs arbitrary: o') (auto split: option.splits)
  show ?case
  proof (cases "field = f")
    case True
    then have "field \<notin> set (map snd cols)" using Cons.prems(1) cf by simp
    then show ?thesis using True row notin [of field cols ?out] cf by (auto split: option.splits)
  next
    case False
    then have "map_of (fold ?F cols ?out) field = (case g field of Some v \<Rightarrow> Some v | None \<Rightarrow> map_of ?out field)"
      using Cons.prems cf by (intro Cons.IH) auto
    then show ?thesis using False row cf by (auto split: option.splits)
  qed
qed simp

lemma snapshot_row_roundtrip:
  assumes "field \<in> set (map snd VALUE_COLUMNS)"
  shows "map_of (as_fields (toSnapshot ts (snapshot_values s))) field = map_of (as_fields s) field"
proof -
  have "map_of (snapshot_values s) c = Some (map_of (as_fields s) f)" if "(c, f) \<in> set VALUE_COLUMNS" for c f
  proof -
    have "distinct (map fst (snapshot_values s))"
      using column_fields_distinct(2) by (simp add: snapshot_values_def comp_def case_prod_unfold)
    moreover have "(c, map_of (as_fields s) f) \<in> set (snapshot_values s)"
      using that by (force simp: snapshot_values_def)
    ultimately show ?thesis by (simp add: map_of_eq_Some_iff)
  qed
  from fields_of_row [where out = "[]" and g = "map_of (as_fields s)", OF column_fields_distinct assms this] show ?thesis
    by (simp add: toSnapshot_def split: option.splits)
qed

text \<open>
  A stored snapshot is read back. Inserting a snapshot that has the six totals succeeds; every field
  the table has a column for is then read back as it was, for that granularity and time, and every
  other row is as before.
\<close>

theorem snapshot_roundtrip:
  assumes "\<forall>f \<in> {''tokensUsd'', ''lpValueUsd'', ''unclaimedUsd'', ''bonusUsd'', ''lockedSolUsd'', ''totalUsd''}.
      map_of (as_fields s) f \<noteq> None"
  shows "\<exists>db' row. snapshots_insert g s db = Inr db' \<and> map_of db' (g, as_ts s) = Some row \<and>
     (\<forall>f \<in> set (map snd VALUE_COLUMNS). map_of (as_fields (toSnapshot (as_ts s) row)) f = map_of (as_fields s) f) \<and>
     (\<forall>k. k \<noteq> (g, as_ts s) \<longrightarrow> map_of db' k = map_of db k)"
proof -
  have "\<not> list_ex (\<lambda>c. map_of (snapshot_values s) c = Some None) REQUIRED_COLUMNS"
    using assms by (simp add: REQUIRED_COLUMNS_def snapshot_values_def VALUE_COLUMNS_def)
  then show ?thesis
    by (simp add: snapshots_insert_def snapshot_row_roundtrip del: map_map)
qed

section \<open>Retention in memory and in the table\<close>

lemma sort_map_fst: "sort (map fst xs) = map fst (sort_key fst xs)"
  by (rule properties_for_sort) simp_all

lemma tier_sorted:
  assumes "js_keys_ok db"
  shows "sorted_wrt (<) (map fst (sort_key fst (tier_rows g db)))"
proof -
  have "distinct (map fst (tier_rows g db))"
    using assms by (induction db) (auto simp: tier_rows_def js_keys_ok_def image_iff split: prod.splits)
  then show ?thesis by (simp add: strict_sorted_iff distinct_map flip: sort_map_fst)
qed

lemma tier_rows_simps [simp]:
  "tier_rows g [] = []"
  "tier_rows g (((g', ts), row) # db) = (if g' = g then (ts, row) # tier_rows g db else tier_rows g db)"
  by (simp_all add: tier_rows_def)

lemma tier_rows_filter:
  "tier_rows g (filter (row_kept g0 cutoff) db) =
     (if g = g0 then filter (\<lambda>(ts, row). \<not> ts < cutoff) (tier_rows g db) else tier_rows g db)"
  by (induction db) (auto simp: row_kept_def)

lemma snapshots_prune_tier:
  assumes "js_keys_ok db" and "0 < keep"
  obtains n db' where "snapshots_prune g keep db = Inr (n, db')" and "js_keys_ok db'"
    and "sort_key fst (tier_rows g db') = keep_last keep (sort_key fst (tier_rows g db))"
    and "\<And>h. h \<noteq> g \<Longrightarrow> tier_rows h db' = tier_rows h db"
proof (cases "keep - 1 < length (tier_rows g db)")
  case False
  then have "snapshots_prune g keep db = Inr (0, db)" using assms(2) by (simp add: snapshots_prune_def)
  moreover have "sort_key fst (tier_rows g db) = keep_last keep (sort_key fst (tier_rows g db))"
    using False by simp
  ultimately show ?thesis using that assms(1) by blast
next
  case True
  let ?xs = "sort_key fst (tier_rows g db)"
  let ?i = "length ?xs - keep"
  let ?cut = "fst (?xs ! ?i)"
  let ?db = "filter (row_kept g ?cut) db"
  have i: "?i < length ?xs" using True assms(2) by simp
  have "rev (map fst ?xs) ! (keep - 1) = ?cut" using True assms(2) by (simp add: rev_nth)
  then have p: "snapshots_prune g keep db = Inr (length db - length ?db, ?db)"
    using True assms(2) by (simp add: snapshots_prune_def sort_map_fst Let_def)
  have "sort_key fst (tier_rows g ?db) = filter (\<lambda>(ts, row). \<not> ts < ?cut) ?xs"
    by (simp add: tier_rows_filter filter_sort)
  also have "\<dots> = drop ?i ?xs" by (rule filter_from_index [OF tier_sorted [OF assms(1)] i])
  finally have "sort_key fst (tier_rows g ?db) = keep_last keep ?xs" by (simp add: keep_last_def)
  moreover have "js_keys_ok ?db" using assms(1) by (simp add: js_keys_ok_def distinct_map inj_on_def)
  moreover have "tier_rows h ?db = tier_rows h db" if "h \<noteq> g" for h using that by (simp add: tier_rows_filter)
  ultimately show ?thesis using p that by blast
qed

definition retain :: "nat \<Rightarrow> millis \<Rightarrow> AssetSnapshot list \<Rightarrow> AssetSnapshot list" where
  "retain cap cutoff xs = keep_last cap (filter (\<lambda>s. as_ts s \<ge> cutoff) xs)"

lemma caps_trend [simp]: "0 < MAX_RAW" "0 < MAX_HOURLY"
  by (simp_all add: MAX_RAW_def MAX_HOURLY_def)

lemma retain_step:
  assumes "js_keys_ok db" and "0 < cap" and "snapshots_prune g cap (snd (snapshots_pruneOlderThan g cutoff db)) = Inr (n, db')"
  shows "js_keys_ok db' \<and> snapshots_all g db' = retain cap cutoff (snapshots_all g db) \<and>
         (\<forall>h. h \<noteq> g \<longrightarrow> snapshots_all h db' = snapshots_all h db)"
proof -
  let ?db1 = "filter (row_kept g cutoff) db"
  have k: "js_keys_ok ?db1" using assms(1) by (simp add: js_keys_ok_def distinct_map inj_on_def)
  from assms(3) have p: "snapshots_prune g cap ?db1 = Inr (n, db')" by (simp add: snapshots_pruneOlderThan_def Let_def)
  obtain n' db'' where q: "snapshots_prune g cap ?db1 = Inr (n', db'')" "js_keys_ok db''"
    "sort_key fst (tier_rows g db'') = keep_last cap (sort_key fst (tier_rows g ?db1))"
    "\<And>h. h \<noteq> g \<Longrightarrow> tier_rows h db'' = tier_rows h ?db1"
    using snapshots_prune_tier [OF k assms(2), of g] by blast
  have s: "sort_key fst (tier_rows g ?db1) = filter (\<lambda>(ts, row). \<not> ts < cutoff) (sort_key fst (tier_rows g db))"
    by (simp add: tier_rows_filter filter_sort)
  have "filter (\<lambda>s. cutoff \<le> as_ts s) (map (\<lambda>(ts, row). toSnapshot ts row) xs) =
      map (\<lambda>(ts, row). toSnapshot ts row) (filter (\<lambda>(ts, row). \<not> ts < cutoff) xs)" for xs
    by (induction xs) (auto simp: toSnapshot_def)
  then show ?thesis
    using p q s by (auto simp: snapshots_all_def retain_def keep_last_map tier_rows_filter)
qed

text \<open>
  memory and table retain the same snapshots. A commit keeps, in the five-minute and hourly tiers, the
  newest 576 and 720 of the snapshots not older than 48 hours and 30 days, and pushes one retention
  call with the same two limits; applied to any table that call keeps by the same rule and leaves the
  daily tier alone. Both tiers are within their limits.
\<close>

theorem retention_agrees:
  assumes "commitSnapshot now s t = (total', t')" and "js_keys_ok db"
  shows "\<exists>rc hc promoted. last (tr_calls t') = TC_retain rc hc \<and> rc = now - 172800000 \<and> hc = now - 2592000000 \<and>
     tr_raw t' = retain 576 rc (tr_raw t @ [s]) \<and> tr_hourly t' = retain 720 hc (tr_hourly t @ promoted) \<and>
     length (tr_raw t') \<le> 576 \<and> length (tr_hourly t') \<le> 720 \<and>
     snapshots_all GRaw (trend_run (TC_retain rc hc) db) = retain 576 rc (snapshots_all GRaw db) \<and>
     snapshots_all GHourly (trend_run (TC_retain rc hc) db) = retain 720 hc (snapshots_all GHourly db) \<and>
     snapshots_all GDaily (trend_run (TC_retain rc hc) db) = snapshots_all GDaily db"
proof -
  let ?rc = "now - 172800000" and ?hc = "now - 2592000000"
  let ?t1 = "t\<lparr>tr_raw := tr_raw t @ [s], tr_calls := tr_calls t @ [TC_insert GRaw s]\<rparr>"
  obtain ps t2 where agg: "aggregateTiers s ?t1 = (ps, t2)" by fastforce
  have raw2: "tr_raw t2 = tr_raw t @ [s]" and "\<exists>promoted. tr_hourly t2 = tr_hourly t @ promoted"
    using agg by (auto simp: aggregateTiers_def Let_def split: option.splits)
  then obtain promoted where h2: "tr_hourly t2 = tr_hourly t @ promoted" by blast
  have cut: "(if length xs > n then drop (length xs - n) xs else xs) = keep_last n xs" for n and xs :: "AssetSnapshot list"
    by (simp add: keep_last_def)
  have mem: "last (tr_calls t') = TC_retain ?rc ?hc" "tr_raw t' = retain MAX_RAW ?rc (tr_raw t @ [s])"
    "tr_hourly t' = retain MAX_HOURLY ?hc (tr_hourly t @ promoted)"
    using assms(1) agg by (auto simp: commitSnapshot_def Let_def setLatestTotalUsd_def cut raw2 h2 retain_def)
  let ?db1 = "snd (snapshots_pruneOlderThan GRaw ?rc db)"
  have k1: "js_keys_ok ?db1"
    using assms(2) by (simp add: snapshots_pruneOlderThan_def Let_def js_keys_ok_def distinct_map inj_on_def)
  obtain n db2 where p1: "snapshots_prune GRaw MAX_RAW ?db1 = Inr (n, db2)" using snapshots_prune_tier [OF k1] by (metis caps_trend(1))
  note r1 = retain_step [OF assms(2) caps_trend(1) p1]
  let ?db3 = "snd (snapshots_pruneOlderThan GHourly ?hc db2)"
  have k3: "js_keys_ok ?db3"
    using r1 by (simp add: snapshots_pruneOlderThan_def Let_def js_keys_ok_def distinct_map inj_on_def)
  obtain m db4 where p2: "snapshots_prune GHourly MAX_HOURLY ?db3 = Inr (m, db4)" using snapshots_prune_tier [OF k3] by (metis caps_trend(2))
  note r2 = retain_step [OF conjunct1 [OF r1] caps_trend(2) p2]
  have "trend_run (TC_retain ?rc ?hc) db = db4" by (simp add: p1 p2)
  with mem r1 r2 show ?thesis
    by (auto simp: retain_def MAX_RAW_def MAX_HOURLY_def)
qed

section \<open>The hourly tier\<close>

lemma floorToHour_le: "floorToHour ts \<le> ts"
  by (simp add: floorToHour_def)

lemma floorToHour_mono: "a \<le> b \<Longrightarrow> floorToHour a \<le> floorToHour b"
  by (simp add: floorToHour_def zdiv_mono1)

lemma floorToHour_idem [simp]: "floorToHour (floorToHour a) = floorToHour a"
  by (simp add: floorToHour_def)

definition hours_ok :: "trend \<Rightarrow> bool" where
  "hours_ok t \<longleftrightarrow>
     sorted_wrt (<) (map (floorToHour \<circ> as_ts) (tr_hourly t)) \<and>
     (\<forall>s \<in> set (tr_hourly t). floorToHour (as_ts s) < lastAggregatedHour t) \<and>
     floorToHour (lastAggregatedHour t) = lastAggregatedHour t"

lemma promote_bounds:
  "promote lo hi xs = Some s \<Longrightarrow> lo \<le> as_ts s \<and> as_ts s < hi \<and> s \<in> set xs"
proof -
  assume p: "promote lo hi xs = Some s"
  let ?c = "filter (\<lambda>s. lo \<le> as_ts s \<and> as_ts s < hi) xs"
  have "?c \<noteq> []" and s: "s = last ?c" using p by (auto simp: promote_def Let_def split: if_splits)
  then have "s \<in> set ?c" by (metis last_in_set)
  then show ?thesis by simp
qed

lemma sorted_wrt_map_filter: "sorted_wrt R (map f xs) \<Longrightarrow> sorted_wrt R (map f (filter P xs))"
  by (induction xs) auto

lemma sorted_wrt_retain: "sorted_wrt R (map f xs) \<Longrightarrow> sorted_wrt R (map f (retain cap cutoff xs))"
  by (simp add: retain_def keep_last_def sorted_wrt_map_filter sorted_wrt_drop flip: drop_map)

lemma set_retain: "set (retain cap cutoff xs) \<subseteq> set xs"
  using set_keep_last [of cap "filter (\<lambda>s. cutoff \<le> as_ts s) xs"] by (auto simp: retain_def)

lemma aggregate_hourly:
  "tr_hourly (snd (aggregateTiers s t)) =
     tr_hourly t @ (case promote (lastAggregatedHour t) (floorToHour (as_ts s)) (tr_raw t) of Some p \<Rightarrow> [p] | None \<Rightarrow> [])"
  "lastAggregatedHour (snd (aggregateTiers s t)) = floorToHour (as_ts s)"
  by (simp_all add: aggregateTiers_def Let_def split: option.split)

lemma commit_hourly:
  assumes "commitSnapshot now s t = (total', t')"
  shows "tr_hourly t' = retain MAX_HOURLY (now - 2592000000)
           (tr_hourly t @ (case promote (lastAggregatedHour t) (floorToHour (as_ts s)) (tr_raw t @ [s]) of Some p \<Rightarrow> [p] | None \<Rightarrow> []))"
    and "lastAggregatedHour t' = floorToHour (as_ts s)"
proof -
  define t1 where "t1 = t\<lparr>tr_raw := tr_raw t @ [s], tr_calls := tr_calls t @ [TC_insert GRaw s]\<rparr>"
  define t2 where "t2 = snd (aggregateTiers s t1)"
  have "tr_hourly t' = retain MAX_HOURLY (now - 2592000000) (tr_hourly t2)" "lastAggregatedHour t' = lastAggregatedHour t2"
    using assms unfolding commitSnapshot_def t1_def [symmetric]
    by (auto simp: Let_def setLatestTotalUsd_def retain_def keep_last_def t2_def split: prod.splits)
  then show "tr_hourly t' = retain MAX_HOURLY (now - 2592000000)
           (tr_hourly t @ (case promote (lastAggregatedHour t) (floorToHour (as_ts s)) (tr_raw t @ [s]) of Some p \<Rightarrow> [p] | None \<Rightarrow> []))"
    and "lastAggregatedHour t' = floorToHour (as_ts s)"
    by (simp_all add: t2_def aggregate_hourly t1_def)
qed

lemma hours_ok_commit:
  assumes "hours_ok t" and "lastAggregatedHour t \<le> as_ts s" and "commitSnapshot now s t = (total', t')"
  shows "hours_ok t'"
proof -
  let ?p = "case promote (lastAggregatedHour t) (floorToHour (as_ts s)) (tr_raw t @ [s]) of Some p \<Rightarrow> [p] | None \<Rightarrow> []"
  have mono: "lastAggregatedHour t \<le> floorToHour (as_ts s)"
    using floorToHour_mono [OF assms(2)] assms(1) by (simp add: hours_ok_def)
  have new: "lastAggregatedHour t \<le> floorToHour (as_ts p) \<and> floorToHour (as_ts p) < floorToHour (as_ts s)" if "p \<in> set ?p" for p
  proof -
    have b: "lastAggregatedHour t \<le> as_ts p" "as_ts p < floorToHour (as_ts s)"
      using that promote_bounds by (auto split: option.splits)
    then show ?thesis
      using floorToHour_mono [OF b(1)] floorToHour_le [of "as_ts p"] assms(1) by (auto simp: hours_ok_def)
  qed
  have "sorted_wrt (<) (map (floorToHour \<circ> as_ts) (tr_hourly t @ ?p))"
    using assms(1) new by (fastforce simp: hours_ok_def sorted_wrt_append split: option.splits)
  moreover have "floorToHour (as_ts x) < floorToHour (as_ts s)" if "x \<in> set (tr_hourly t @ ?p)" for x
    using that assms(1) mono new by (auto simp: hours_ok_def)
  ultimately show ?thesis
    using commit_hourly [OF assms(3)] set_retain [of MAX_HOURLY "now - 2592000000" "tr_hourly t @ ?p"]
    by (auto simp: hours_ok_def sorted_wrt_retain)
qed

definition commits :: "(millis \<times> AssetSnapshot) list \<Rightarrow> trend \<Rightarrow> trend" where
  "commits xs t = fold (\<lambda>(now, s) t. snd (commitSnapshot now s t)) xs t"

lemma hours_ok_commits:
  "hours_ok t \<Longrightarrow> sorted (map (as_ts \<circ> snd) xs) \<Longrightarrow> (\<forall>x \<in> set xs. lastAggregatedHour t \<le> as_ts (snd x)) \<Longrightarrow>
   hours_ok (commits xs t)"
proof (induction xs arbitrary: t)
  case (Cons x xs)
  obtain now s where x: "x = (now, s)" by (cases x)
  obtain total' t' where c: "commitSnapshot now s t = (total', t')" by fastforce
  have "hours_ok t'" using Cons.prems x by (intro hours_ok_commit [OF _ _ c]) auto
  moreover have "lastAggregatedHour t' \<le> as_ts (snd y)" if "y \<in> set xs" for y
  proof -
    have "as_ts s \<le> as_ts (snd y)" using Cons.prems(2) x that by auto
    then show ?thesis using commit_hourly(2) [OF c] floorToHour_le [of "as_ts s"] by simp
  qed
  ultimately have "hours_ok (commits xs t')" using Cons.prems(2) by (intro Cons.IH) auto
  then show ?case using x c by (simp add: commits_def)
qed (simp add: commits_def)

text \<open>
  One snapshot per hour. In a run of the collector whose clock does not go back, the hourly tier holds
  at most one snapshot per hour, in the order of the hours, and none of the current hour.
\<close>

theorem one_snapshot_per_hour:
  assumes "sorted (map (as_ts \<circ> snd) xs)" and "\<forall>x \<in> set xs. 0 \<le> as_ts (snd x)"
  shows "sorted_wrt (<) (map (floorToHour \<circ> as_ts) (tr_hourly (commits xs new_trend))) \<and>
         (\<forall>s \<in> set (tr_hourly (commits xs new_trend)). floorToHour (as_ts s) < lastAggregatedHour (commits xs new_trend))"
proof -
  have "hours_ok new_trend" by (simp add: hours_ok_def new_trend_def floorToHour_def)
  then have "hours_ok (commits xs new_trend)" using assms by (intro hours_ok_commits) (auto simp: new_trend_def)
  then show ?thesis by (simp add: hours_ok_def)
qed

text \<open>
  A restart repeats the last hour. After a restart, \<^verbatim>\<open>loadTrend\<close> takes the hour of the last hourly snapshot
  for the last aggregated one, so the next snapshot of a later hour promotes that snapshot again, as
  long as no younger one of a finished hour is there: memory then holds it twice, although the table,
  keyed by tier and time, holds it once.
\<close>

theorem restart_repeats_hour:
  assumes "snapshots_latest GHourly MAX_HOURLY db = hs @ [h]"
    and "snapshots_latest GRaw MAX_RAW db = rs @ [h] @ later"
    and "\<forall>r \<in> set later. floorToHour (as_ts s) \<le> as_ts r"
    and "0 < floorToHour (as_ts h)" and "floorToHour (as_ts h) < floorToHour (as_ts s)"
  shows "\<exists>daily t'. aggregateTiers s ((loadTrend db new_trend)\<lparr>tr_raw := snapshots_latest GRaw MAX_RAW db @ [s]\<rparr>) =
           ((GHourly, h) # daily, t') \<and> tr_hourly t' = hs @ [h, h]"
proof -
  let ?t = "(loadTrend db new_trend)\<lparr>tr_raw := snapshots_latest GRaw MAX_RAW db @ [s]\<rparr>"
  have l: "lastAggregatedHour ?t = floorToHour (as_ts h)" "tr_hourly ?t = hs @ [h]"
    using assms(1) by (simp_all add: loadTrend_def Let_def new_trend_def)
  have hour: "as_ts h < floorToHour (as_ts s)"
  proof (rule ccontr)
    assume "\<not> as_ts h < floorToHour (as_ts s)"
    then have "floorToHour (floorToHour (as_ts s)) \<le> floorToHour (as_ts h)" by (intro floorToHour_mono) simp
    with assms(5) show False by simp
  qed
  have none: "filter (\<lambda>r. floorToHour (as_ts h) \<le> as_ts r \<and> as_ts r < floorToHour (as_ts s)) (later @ [s]) = []"
    using assms(3) floorToHour_le [of "as_ts s"] by (auto simp: filter_empty_conv)
  have "promote (floorToHour (as_ts h)) (floorToHour (as_ts s)) (rs @ [h] @ later @ [s]) = Some h"
    using assms(4,5) hour none floorToHour_le [of "as_ts h"] by (simp add: promote_def)
  then show ?thesis using l assms(2) by (auto simp: aggregateTiers_def Let_def split: option.splits)
qed

section \<open>Witnesses\<close>

definition demo_snap :: "millis \<Rightarrow> AssetSnapshot" where
  "demo_snap ts = \<lparr>as_ts = ts, as_fields = [(''tokensUsd'', Num 1), (''lpValueUsd'', Num 0), (''unclaimedUsd'', Num 0),
     (''bonusUsd'', Num 0), (''lockedSolUsd'', Num 0), (''totalUsd'', Num 1)]\<rparr>"

definition demo_trend_db :: snapshot_table where
  "demo_trend_db = [((GRaw, 7000000), snapshot_values (demo_snap 7000000)), ((GHourly, 7000000), snapshot_values (demo_snap 7000000)),
     ((GRaw, 7300000), snapshot_values (demo_snap 7300000))]"

theorem snapshot_roundtrip_witness:
  "\<exists>db' row. snapshots_insert GRaw (demo_snap 5) demo_trend_db = Inr db' \<and> map_of db' (GRaw, 5) = Some row \<and>
     map_of (as_fields (toSnapshot 5 row)) ''totalUsd'' = Some (Num 1)"
proof -
  have a: "\<forall>f \<in> {''tokensUsd'', ''lpValueUsd'', ''unclaimedUsd'', ''bonusUsd'', ''lockedSolUsd'', ''totalUsd''}.
      map_of (as_fields (demo_snap 5)) f \<noteq> None" by (simp add: demo_snap_def)
  have "''totalUsd'' \<in> set (map snd VALUE_COLUMNS)" "map_of (as_fields (demo_snap 5)) ''totalUsd'' = Some (Num 1)" "as_ts (demo_snap 5) = 5"
    by (simp_all add: VALUE_COLUMNS_def demo_snap_def)
  then show ?thesis using snapshot_roundtrip [OF a, of GRaw demo_trend_db] by fastforce
qed

theorem retention_agrees_witness:
  "length (tr_raw (snd (commitSnapshot 7300000 (demo_snap 7300000) new_trend))) \<le> 576"
proof -
  have "js_keys_ok demo_trend_db" by (simp add: js_keys_ok_def demo_trend_db_def)
  from retention_agrees [OF prod.collapse [symmetric] this, of 7300000 "demo_snap 7300000" new_trend] show ?thesis by blast
qed

theorem one_snapshot_per_hour_witness:
  "sorted_wrt (<) (map (floorToHour \<circ> as_ts) (tr_hourly (commits [(7000000, demo_snap 7000000), (7300000, demo_snap 7300000)] new_trend)))"
  using one_snapshot_per_hour [of "[(7000000, demo_snap 7000000), (7300000, demo_snap 7300000)]"]
  by (simp add: demo_snap_def)

theorem restart_repeats_hour_witness:
  "\<exists>h daily t'. aggregateTiers (demo_snap 7400000)
     ((loadTrend demo_trend_db new_trend)\<lparr>tr_raw := snapshots_latest GRaw MAX_RAW demo_trend_db @ [demo_snap 7400000]\<rparr>) =
       ((GHourly, h) # daily, t') \<and> tr_hourly t' = [h, h]"
proof -
  let ?h = "toSnapshot 7000000 (snapshot_values (demo_snap 7000000))"
  let ?r = "toSnapshot 7300000 (snapshot_values (demo_snap 7300000))"
  have hourly: "snapshots_latest GHourly MAX_HOURLY demo_trend_db = [] @ [?h]"
    by (simp add: snapshots_latest_def demo_trend_db_def MAX_HOURLY_def)
  have raws: "snapshots_latest GRaw MAX_RAW demo_trend_db = [] @ [?h] @ [?r]"
    by (simp add: snapshots_latest_def demo_trend_db_def MAX_RAW_def)
  have "\<exists>daily t'. aggregateTiers (demo_snap 7400000)
      ((loadTrend demo_trend_db new_trend)\<lparr>tr_raw := snapshots_latest GRaw MAX_RAW demo_trend_db @ [demo_snap 7400000]\<rparr>) =
        ((GHourly, ?h) # daily, t') \<and> tr_hourly t' = [] @ [?h, ?h]"
    by (rule restart_repeats_hour [OF hourly raws]) (simp_all add: demo_snap_def toSnapshot_def floorToHour_def)
  then show ?thesis by auto
qed

end
