(* ===== verification/Ws_Monitor.thy ===== *)
theory Ws_Monitor
  imports Prelude
begin

text \<open>
  The log subscription monitor, \<^verbatim>\<open>src/monitor/websocket.ts\<close>: which wallets are watched, and the life of the
  connection (subscribing, reconnecting after a failure or after a silence, resubscribing when the
  configuration changes, stopping).

  The methods run on one event loop and give it up at the sleep of \<^verbatim>\<open>reconnect\<close>; each method up to that
  point is one step, and waking up is another. The node decides whether subscribing works: \<open>fails\<close>
  is the index of the wallet whose \<^verbatim>\<open>onLogs\<close> throws, if one does. The socket's own state reports
  (\<^verbatim>\<open>trackSocketState\<close>) only feed a gauge.
\<close>

section \<open>Wallets\<close>

record monitor_config =
  targetWallets :: "pubkey list"
  closeOnlyWallets :: "pubkey jsset"
  orcaTargetWallets :: "pubkey list"
  orcaCloseOnlyWallets :: "pubkey jsset"
  meteoraTargetWallets :: "pubkey list"
  meteoraCloseOnlyWallets :: "pubkey jsset"
  pcsTargetWallets :: "pubkey list"
  pcsCloseOnlyWallets :: "pubkey jsset"
  dammv2TargetWallets :: "pubkey list"
  dammv2CloseOnlyWallets :: "pubkey jsset"

text \<open>The loop over one list, with the set of addresses seen and the wallets collected so far.\<close>

definition collect_wallets :: "pubkey list \<Rightarrow> pubkey jsset \<times> pubkey list \<Rightarrow> pubkey jsset \<times> pubkey list" where
  "collect_wallets ws acc =
     fold (\<lambda>w (seen, wallets). if w \<notin> set seen then (set_add w seen, wallets @ [w]) else (seen, wallets)) ws acc"

definition getAllMonitoredWallets :: "monitor_config \<Rightarrow> pubkey list" where
  "getAllMonitoredWallets cfg =
     snd (collect_wallets (dammv2CloseOnlyWallets cfg) (collect_wallets (dammv2TargetWallets cfg)
         (collect_wallets (pcsCloseOnlyWallets cfg) (collect_wallets (pcsTargetWallets cfg)
         (collect_wallets (meteoraCloseOnlyWallets cfg) (collect_wallets (meteoraTargetWallets cfg)
         (collect_wallets (orcaCloseOnlyWallets cfg) (collect_wallets (orcaTargetWallets cfg)
         (collect_wallets (closeOnlyWallets cfg) (collect_wallets (targetWallets cfg) ([], [])))))))))))"

section \<open>State\<close>

text \<open>
  \<open>generation\<close> counts the connections made; a subscription is the wallet it watches and the connection
  it is on. \<open>asleep\<close>: a \<^verbatim>\<open>reconnect\<close> waits for its delay. \<open>starting\<close>: \<^verbatim>\<open>start()\<close> still awaits its first
  \<^verbatim>\<open>subscribe()\<close>, which is in such a \<^verbatim>\<open>reconnect\<close>. \<open>exited\<close>: the process called \<^verbatim>\<open>process.exit(1)\<close>.
\<close>

record monitor =
  generation :: nat
  subscriptionIds :: "(pubkey \<times> nat) list"
  retryCount :: nat
  lastEventTime :: millis
  reconnecting :: bool
  heartbeat :: bool
  asleep :: bool
  starting :: bool
  exited :: bool

definition maxRetries :: nat where "maxRetries = 20"

definition new_monitor :: "millis \<Rightarrow> monitor" where
  "new_monitor now = \<lparr>generation = 0, subscriptionIds = [], retryCount = 0, lastEventTime = now, reconnecting = False,
     heartbeat = False, asleep = False, starting = False, exited = False\<rparr>"

definition removeAllSubscriptions :: "monitor \<Rightarrow> monitor" where
  "removeAllSubscriptions m = m\<lparr>subscriptionIds := []\<rparr>"

text \<open>\<^verbatim>\<open>reconnect()\<close> up to its sleep.\<close>

definition reconnect_begin :: "monitor \<Rightarrow> monitor" where
  "reconnect_begin m =
     (if reconnecting m then m
      else let m1 = m\<lparr>reconnecting := True\<rparr>
           in if retryCount m1 \<ge> maxRetries then m1\<lparr>exited := True\<rparr>
              else removeAllSubscriptions (m1\<lparr>retryCount := retryCount m1 + 1, asleep := True\<rparr>))"

definition reconnect_delay :: "nat \<Rightarrow> nat" where
  "reconnect_delay retries = min (1000 * 2 ^ retries) 60000"

text \<open>\<^verbatim>\<open>subscribe()\<close>: a failing \<^verbatim>\<open>onLogs\<close> leaves the subscriptions made before it.\<close>

definition subscribe :: "monitor_config \<Rightarrow> nat option \<Rightarrow> monitor \<Rightarrow> monitor" where
  "subscribe cfg fails m0 =
     (let m = removeAllSubscriptions m0;
          all = map (\<lambda>w. (w, generation m)) (getAllMonitoredWallets cfg)
      in (case fails of
            Some i \<Rightarrow>
              if i < length all then reconnect_begin (m\<lparr>subscriptionIds := take i all\<rparr>)
              else m\<lparr>subscriptionIds := all, retryCount := 0\<rparr>
          | None \<Rightarrow> m\<lparr>subscriptionIds := all, retryCount := 0\<rparr>))"

text \<open>
  The rest of \<^verbatim>\<open>reconnect()\<close> after the sleep, its \<^verbatim>\<open>finally\<close> included; a \<^verbatim>\<open>start()\<close> that was waiting for it
  goes on to \<^verbatim>\<open>startHeartbeat()\<close>.
\<close>

definition reconnect_wake :: "monitor_config \<Rightarrow> nat option \<Rightarrow> monitor \<Rightarrow> monitor" where
  "reconnect_wake cfg fails m =
     (subscribe cfg fails (m\<lparr>asleep := False, generation := generation m + 1\<rparr>))
       \<lparr>reconnecting := False, heartbeat := heartbeat m \<or> starting m, starting := False\<rparr>"

definition monitor_start :: "monitor_config \<Rightarrow> nat option \<Rightarrow> monitor \<Rightarrow> monitor" where
  "monitor_start cfg fails m =
     (let m1 = subscribe cfg fails m in if asleep m1 then m1\<lparr>starting := True\<rparr> else m1\<lparr>heartbeat := True\<rparr>)"

definition resubscribe :: "monitor_config \<Rightarrow> nat option \<Rightarrow> monitor \<Rightarrow> monitor" where
  "resubscribe cfg fails m = subscribe cfg fails m"

definition SILENCE_RECONNECT_MIN :: int where "SILENCE_RECONNECT_MIN = 20"

definition heartbeat_tick :: "millis \<Rightarrow> monitor \<Rightarrow> monitor" where
  "heartbeat_tick now m =
     (let silentMin = (now - lastEventTime m) div 60000
      in if silentMin \<ge> SILENCE_RECONNECT_MIN \<and> \<not> reconnecting m
         then reconnect_begin (m\<lparr>lastEventTime := now\<rparr>) else m)"

text \<open>A notification: whether it is handed to the callback.\<close>

definition on_log_info :: "millis \<Rightarrow> bool \<Rightarrow> monitor \<Rightarrow> bool \<times> monitor" where
  "on_log_info now err m = (\<not> err, m\<lparr>lastEventTime := now, retryCount := 0\<rparr>)"

definition monitor_stop :: "monitor \<Rightarrow> monitor" where
  "monitor_stop m = removeAllSubscriptions (m\<lparr>heartbeat := False\<rparr>)"

section \<open>The monitor as a system\<close>

text \<open>
  A notification arrives on a live subscription. Start-up, where the first \<^verbatim>\<open>subscribe\<close> may fail, is the
  initial step; \<^verbatim>\<open>resubscribe\<close> may come at any time, even while a reconnect sleeps.
\<close>

inductive monitor_step :: "monitor \<Rightarrow> monitor \<Rightarrow> bool" where
  wake: "asleep m \<Longrightarrow> \<not> exited m \<Longrightarrow> monitor_step m (reconnect_wake cfg fails m)"
| tick: "heartbeat m \<Longrightarrow> \<not> exited m \<Longrightarrow> monitor_step m (heartbeat_tick now m)"
| event: "s \<in> set (subscriptionIds m) \<Longrightarrow> \<not> exited m \<Longrightarrow> monitor_step m (snd (on_log_info now err m))"
| resub: "\<not> exited m \<Longrightarrow> monitor_step m (resubscribe cfg fails m)"
| stop: "\<not> exited m \<Longrightarrow> monitor_step m (monitor_stop m)"

inductive_cases monitor_stepE: "monitor_step m m'"

definition monitor_reach :: "monitor \<Rightarrow> bool" where
  "monitor_reach = reach (\<lambda>m. \<exists>cfg fails now. m = monitor_start cfg fails (new_monitor now)) monitor_step"

definition monitor_inv :: "monitor \<Rightarrow> bool" where
  "monitor_inv m \<longleftrightarrow>
     (reconnecting m \<longleftrightarrow> asleep m \<or> exited m) \<and> retryCount m \<le> maxRetries \<and> (asleep m \<longrightarrow> \<not> exited m) \<and>
     (\<forall>(w, g) \<in> set (subscriptionIds m). g = generation m) \<and> distinct (map fst (subscriptionIds m))"

lemmas monitor_defs = reconnect_begin_def removeAllSubscriptions_def subscribe_def reconnect_wake_def monitor_start_def
  resubscribe_def heartbeat_tick_def on_log_info_def monitor_stop_def Let_def

lemma collect_wallets_new_set:
  "collect_wallets ws (xs, xs) = (fold set_add ws xs, fold set_add ws xs)"
proof (induction ws arbitrary: xs)
  case (Cons w ws)
  have "collect_wallets (w # ws) (xs, xs) = collect_wallets ws (set_add w xs, set_add w xs)"
    by (simp add: collect_wallets_def set_add_def)
  with Cons show ?case by simp
qed (simp add: collect_wallets_def)

lemma monitored_wallets:
  "getAllMonitoredWallets cfg =
     new_set (targetWallets cfg @ closeOnlyWallets cfg @ orcaTargetWallets cfg @ orcaCloseOnlyWallets cfg @
       meteoraTargetWallets cfg @ meteoraCloseOnlyWallets cfg @ pcsTargetWallets cfg @ pcsCloseOnlyWallets cfg @
       dammv2TargetWallets cfg @ dammv2CloseOnlyWallets cfg)"
  by (simp add: getAllMonitoredWallets_def collect_wallets_new_set new_set_def)

lemma inv_reconnect_begin:
  "monitor_inv m \<Longrightarrow> \<not> exited m \<Longrightarrow> monitor_inv (reconnect_begin m)"
  by (auto simp: monitor_inv_def monitor_defs maxRetries_def)

lemma inv_with_subscriptions:
  assumes "monitor_inv m"
  shows "monitor_inv (m\<lparr>subscriptionIds := take i (map (\<lambda>w. (w, generation m)) (getAllMonitoredWallets cfg))\<rparr>)"
    and "monitor_inv (m\<lparr>subscriptionIds := map (\<lambda>w. (w, generation m)) (getAllMonitoredWallets cfg), retryCount := 0\<rparr>)"
  using assms by (auto simp: monitor_inv_def monitored_wallets take_map comp_def dest: in_set_takeD)

lemma inv_subscribe: "monitor_inv m \<Longrightarrow> \<not> exited m \<Longrightarrow> monitor_inv (subscribe cfg fails m)"
proof -
  assume m: "monitor_inv m" "\<not> exited m"
  let ?m = "removeAllSubscriptions m"
  have r: "monitor_inv ?m" "generation ?m = generation m" "\<not> exited ?m"
    using m by (auto simp: monitor_inv_def removeAllSubscriptions_def)
  then show ?thesis
    using inv_with_subscriptions [OF r(1)]
    by (auto simp: subscribe_def Let_def intro!: inv_reconnect_begin split: option.splits)
qed

lemma inv_wake:
  assumes "monitor_inv m" and "asleep m"
  shows "monitor_inv (reconnect_wake cfg fails m)"
proof -
  let ?m = "m\<lparr>asleep := False, generation := generation m + 1\<rparr>"
  have "reconnecting m" "\<not> exited m" using assms by (auto simp: monitor_inv_def)
  moreover have "retryCount m \<le> maxRetries" using assms by (simp add: monitor_inv_def)
  ultimately show ?thesis
    by (auto simp: monitor_inv_def reconnect_wake_def subscribe_def reconnect_begin_def removeAllSubscriptions_def Let_def
        monitored_wallets take_map comp_def split: option.splits dest: in_set_takeD)
qed

lemma inv_start: "monitor_inv (monitor_start cfg fails (new_monitor now))"
proof -
  have "monitor_inv (subscribe cfg fails (new_monitor now))"
    by (rule inv_subscribe) (auto simp: monitor_inv_def new_monitor_def)
  then show ?thesis by (simp add: monitor_inv_def monitor_start_def Let_def)
qed

lemma inv_monitor_step: "monitor_inv m \<Longrightarrow> monitor_step m m' \<Longrightarrow> monitor_inv m'"
proof (erule monitor_stepE)
  fix now assume m: "monitor_inv m" "m' = heartbeat_tick now m" "\<not> exited m"
  moreover have "monitor_inv (m\<lparr>lastEventTime := now\<rparr>)" using m(1) by (simp add: monitor_inv_def)
  ultimately show "monitor_inv m'"
    using inv_reconnect_begin [of "m\<lparr>lastEventTime := now\<rparr>"] by (simp add: heartbeat_tick_def Let_def)
qed (auto simp: inv_wake resubscribe_def inv_subscribe, auto simp: monitor_inv_def on_log_info_def monitor_stop_def removeAllSubscriptions_def)

interpretation ws: invariant_system
  "\<lambda>m. \<exists>cfg fails now. m = monitor_start cfg fails (new_monitor now)" monitor_step monitor_inv
  by unfold_locales (auto intro: inv_start inv_monitor_step)

section \<open>Properties\<close>

lemma subscribe_ok: "subscriptionIds (subscribe cfg None m) = map (\<lambda>w. (w, generation m)) (getAllMonitoredWallets cfg)"
  "retryCount (subscribe cfg None m) = 0" "reconnecting (subscribe cfg None m) = reconnecting m"
  by (simp_all add: subscribe_def removeAllSubscriptions_def Let_def)

lemma set_monitored_wallets:
  "set (getAllMonitoredWallets cfg) =
     set (targetWallets cfg) \<union> set (closeOnlyWallets cfg) \<union> set (orcaTargetWallets cfg) \<union> set (orcaCloseOnlyWallets cfg) \<union>
     set (meteoraTargetWallets cfg) \<union> set (meteoraCloseOnlyWallets cfg) \<union> set (pcsTargetWallets cfg) \<union>
     set (pcsCloseOnlyWallets cfg) \<union> set (dammv2TargetWallets cfg) \<union> set (dammv2CloseOnlyWallets cfg)"
  by (auto simp: monitored_wallets)

definition demo_monitor_cfg :: monitor_config where
  "demo_monitor_cfg = \<lparr>targetWallets = [''A'', ''B''], closeOnlyWallets = [''C''], orcaTargetWallets = [''B''],
     orcaCloseOnlyWallets = [], meteoraTargetWallets = [''A''], meteoraCloseOnlyWallets = [], pcsTargetWallets = [],
     pcsCloseOnlyWallets = [''D''], dammv2TargetWallets = [], dammv2CloseOnlyWallets = []\<rparr>"

lemma demo_wallets: "getAllMonitoredWallets demo_monitor_cfg = [''A'', ''B'', ''C'', ''D'']"
  by (simp add: monitored_wallets demo_monitor_cfg_def new_set_def set_add_def)

text \<open>The first subscription fails on the second wallet, so the monitor sleeps before its first retry.\<close>

definition demo_asleep :: monitor where
  "demo_asleep = monitor_start demo_monitor_cfg (Some 1) (new_monitor 0)"

lemma demo_asleep_reach: "monitor_reach demo_asleep"
  unfolding monitor_reach_def demo_asleep_def by (rule reach_init) blast

lemma demo_asleep_asleep: "asleep demo_asleep" "\<not> exited demo_asleep" "retryCount demo_asleep = 1"
  by (simp_all add: demo_asleep_def monitor_defs demo_wallets new_monitor_def maxRetries_def)

text \<open>
  C26: In every state the monitor can get into, at most one reconnect is under way (the flag is set exactly
  while one sleeps or the process has given up), the retry counter stays within its bound of 20, and the
  subscriptions it holds are all on the current connection and watch no wallet twice.
\<close>

theorem monitor_state_invariant:
  assumes "monitor_reach m"
  shows "(reconnecting m \<longleftrightarrow> asleep m \<or> exited m) \<and> retryCount m \<le> 20 \<and>
    (\<forall>(w, g) \<in> set (subscriptionIds m). g = generation m) \<and> distinct (map fst (subscriptionIds m))"
  using ws.reach_inv [of m] assms by (auto simp: monitor_reach_def monitor_inv_def maxRetries_def)

text \<open>
  A reconnect whose new connection accepts the subscriptions ends with one subscription on that
  connection for every wallet in any of the ten configured lists and for no other, and the retry counter is
  back at zero.
\<close>

theorem reconnect_restores_subscriptions:
  assumes "monitor_reach m" and "asleep m"
  shows "let m' = reconnect_wake cfg None m
    in fst ` set (subscriptionIds m') =
         set (targetWallets cfg) \<union> set (closeOnlyWallets cfg) \<union> set (orcaTargetWallets cfg) \<union> set (orcaCloseOnlyWallets cfg) \<union>
         set (meteoraTargetWallets cfg) \<union> set (meteoraCloseOnlyWallets cfg) \<union> set (pcsTargetWallets cfg) \<union>
         set (pcsCloseOnlyWallets cfg) \<union> set (dammv2TargetWallets cfg) \<union> set (dammv2CloseOnlyWallets cfg) \<and>
       (\<forall>(w, g) \<in> set (subscriptionIds m'). g = Suc (generation m)) \<and> distinct (map fst (subscriptionIds m')) \<and>
       retryCount m' = 0 \<and> \<not> reconnecting m'"
proof -
  have "monitor_inv m" using ws.reach_inv [of m] assms(1) by (simp add: monitor_reach_def)
  then have "monitor_inv (reconnect_wake cfg None m)" using assms(2) by (rule inv_wake)
  then show ?thesis
    by (auto simp: Let_def reconnect_wake_def subscribe_ok monitor_inv_def set_monitored_wallets [symmetric] image_image)
qed

text \<open>
  When a subscription fails again on the fresh connection of a reconnect, the retry that the error
  handler asks for is dropped, because the reconnect it runs inside still counts as in progress: the monitor is
  left with the wallets before the failing one, no retry pending and the counter not advanced, and no heartbeat
  changes that until twenty minutes without any notification have passed.
\<close>

theorem failed_retry_is_dropped:
  assumes "monitor_reach m" and "asleep m" and "i < length (getAllMonitoredWallets cfg)"
  shows "let m' = reconnect_wake cfg (Some i) m
    in map fst (subscriptionIds m') = take i (getAllMonitoredWallets cfg) \<and> \<not> asleep m' \<and> \<not> reconnecting m' \<and>
       retryCount m' = retryCount m \<and>
       (\<forall>now. now - lastEventTime m < 20 * 60000 \<longrightarrow> heartbeat_tick now m' = m') \<and>
       (\<forall>now. now - lastEventTime m \<ge> 20 * 60000 \<longrightarrow> asleep (heartbeat_tick now m') \<or> exited (heartbeat_tick now m'))"
proof -
  have inv: "monitor_inv m" using ws.reach_inv [of m] assms(1) by (simp add: monitor_reach_def)
  have "(now - t) div 60000 \<ge> 20 \<longleftrightarrow> now - t \<ge> 20 * 60000" for now t :: int by linarith
  moreover have "reconnecting m" using inv assms(2) by (simp add: monitor_inv_def)
  ultimately show ?thesis using assms(3)
    by (auto simp: Let_def reconnect_wake_def subscribe_def removeAllSubscriptions_def reconnect_begin_def take_map comp_def
        heartbeat_tick_def SILENCE_RECONNECT_MIN_def)
qed

theorem monitor_state_invariant_witness:
  "(reconnecting demo_asleep \<longleftrightarrow> asleep demo_asleep \<or> exited demo_asleep) \<and> retryCount demo_asleep \<le> 20"
  using monitor_state_invariant [OF demo_asleep_reach] by simp

theorem reconnect_restores_subscriptions_witness:
  "fst ` set (subscriptionIds (reconnect_wake demo_monitor_cfg None demo_asleep)) = {''A'', ''B'', ''C'', ''D''}"
  using reconnect_restores_subscriptions [OF demo_asleep_reach demo_asleep_asleep(1), of demo_monitor_cfg]
  by (auto simp: Let_def demo_monitor_cfg_def)

theorem failed_retry_is_dropped_witness:
  "let m' = reconnect_wake demo_monitor_cfg (Some 2) demo_asleep
   in map fst (subscriptionIds m') = [''A'', ''B''] \<and> \<not> asleep m' \<and> retryCount m' = 1 \<and> heartbeat_tick 1199999 m' = m'"
proof -
  have "lastEventTime demo_asleep = 0" by (simp add: demo_asleep_def monitor_defs demo_wallets new_monitor_def maxRetries_def)
  then show ?thesis
    using failed_retry_is_dropped [OF demo_asleep_reach demo_asleep_asleep(1), of 2 demo_monitor_cfg]
    by (simp add: Let_def demo_wallets demo_asleep_asleep)
qed

end
