(* ===== verification/Js_Date.thy ===== *)
theory Js_Date
  imports Js_Number Wallet_Lists
begin

text \<open>
  What the sources use of JavaScript's \<^verbatim>\<open>Date\<close>: UTC hours, minutes and weekdays, calendar years and days, the ISO
  form, and the two computations made with them in \<^verbatim>\<open>src/executor/auto-claim.ts\<close> and \<^verbatim>\<open>src/executor/dac.ts\<close>: the
  ISO week of an instant and the next time of a schedule. An instant is its milliseconds since 1970.
\<close>

section \<open>Days and years\<close>

definition DAY_MS :: int where "DAY_MS = 86400000"

definition utc_day :: "int \<Rightarrow> int" where "utc_day t = t div DAY_MS"
definition getUTCHours :: "int \<Rightarrow> int" where "getUTCHours t = t div 3600000 mod 24"
definition getUTCMinutes :: "int \<Rightarrow> int" where "getUTCMinutes t = t div 60000 mod 60"
definition getUTCDay :: "int \<Rightarrow> int" where "getUTCDay t = (utc_day t + 4) mod 7"

text \<open>\<^verbatim>\<open>setUTCHours(h, m, 0, 0)\<close>, and \<^verbatim>\<open>setUTCDate(getUTCDate() + n)\<close>\<close>

definition setUTCHours :: "int \<Rightarrow> int \<Rightarrow> int \<Rightarrow> int" where
  "setUTCHours h m t = utc_day t * DAY_MS + h * 3600000 + m * 60000"

definition add_days :: "int \<Rightarrow> int \<Rightarrow> int" where "add_days n t = t + n * DAY_MS"

text \<open>The day on which a year of the proleptic Gregorian calendar begins, and the year of a day.\<close>

definition leap_days :: "int \<Rightarrow> int" where
  "leap_days z = z div 4 - z div 100 + z div 400"

definition year_start :: "int \<Rightarrow> int" where
  "year_start y = 365 * (y - 1970) + (leap_days (y - 1) - leap_days 1969)"

lemma div_step: "0 < (k :: int) \<Longrightarrow> y div k = (y - 1) div k + (if k dvd y then 1 else 0)"
proof -
  assume k: "0 < k"
  have y: "y = k * (y div k) + y mod k" by simp
  show ?thesis
  proof (cases "k dvd y")
    case True
    then have "y - 1 = k * (y div k - 1) + (k - 1)" by (simp add: algebra_simps)
    then have "(y - 1) div k = y div k - 1" using k int_div_pos_eq [of "y - 1" k "y div k - 1" "k - 1"] by simp
    with True show ?thesis by simp
  next
    case False
    then have "0 < y mod k" using k by (simp add: order.not_eq_order_implies_strict dvd_eq_mod_eq_0)
    moreover have "y - 1 = k * (y div k) + (y mod k - 1)" using y by linarith
    ultimately have "(y - 1) div k = y div k" using k pos_mod_bound [OF k, of y] int_div_pos_eq [of "y - 1" k "y div k" "y mod k - 1"] by simp
    with False show ?thesis by simp
  qed
qed

lemma leap_days_step: "leap_days y = leap_days (y - 1) \<or> leap_days y = leap_days (y - 1) + 1"
proof -
  have "(400 :: int) dvd y \<Longrightarrow> 100 dvd y" "(100 :: int) dvd y \<Longrightarrow> 4 dvd y" by (auto elim!: dvd_trans [rotated])
  then show ?thesis
    unfolding leap_days_def div_step [of 4 y, simplified] div_step [of 100 y, simplified] div_step [of 400 y, simplified]
    by (cases "4 dvd y"; cases "100 dvd y"; cases "400 dvd y") simp_all
qed

lemma year_start_step: "year_start y + 365 \<le> year_start (y + 1)" "year_start (y + 1) \<le> year_start y + 366"
  using leap_days_step [of y] by (auto simp: year_start_def)

function year_from :: "int \<Rightarrow> int \<Rightarrow> int" where
  "year_from y d = (if year_start (y + 1) \<le> d then year_from (y + 1) d else y)"
  by pat_completeness auto
termination
proof (relation "measure (\<lambda>(y, d). nat (d - year_start y))")
  fix y d assume "year_start (y + 1) \<le> d"
  with year_start_step(1) [of y] show "((y + 1, d), (y, d)) \<in> measure (\<lambda>(y, d). nat (d - year_start y))" by simp
qed simp

declare year_from.simps [simp del]

definition year_of :: "int \<Rightarrow> int" where
  "year_of d = year_from (1970 + (if d < 0 then d div 365 else d div 366) - 1) d"

lemma year_from_ok: "year_start y \<le> d \<Longrightarrow> year_start (year_from y d) \<le> d \<and> d < year_start (year_from y d + 1)"
proof (induction y d rule: year_from.induct)
  case (1 y d)
  show ?case
  proof (cases "year_start (y + 1) \<le> d")
    case True
    with "1.IH" show ?thesis by (subst (1 2) year_from.simps) simp
  next
    case False
    with "1.prems" show ?thesis by (subst (1 2) year_from.simps) simp
  qed
qed

lemma leap_days_bound: "400 * leap_days z \<le> 97 * z + 396"
proof -
  define a b c where abc: "a = z div 4" "b = z div 100" "c = z div 400"
  have "4 * a \<le> z" "z \<le> 100 * b + 99" "400 * c \<le> z" unfolding abc by simp_all
  then have "400 * (a - b + c) \<le> 97 * z + 396" by simp
  then show ?thesis by (simp only: abc leap_days_def)
qed

lemma leap_days_1969: "leap_days 1969 = 477" "leap_days 1970 = 477"
  by (simp_all add: leap_days_def)

lemma year_start_far: "y \<le> 1970 \<Longrightarrow> year_start y \<le> 365 * (y - 1970) + 1" "1970 \<le> y \<Longrightarrow> year_start y \<le> 366 * (y - 1970)"
proof -
  show "y \<le> 1970 \<Longrightarrow> year_start y \<le> 365 * (y - 1970) + 1"
  proof -
    assume "y \<le> 1970"
    then have "400 * leap_days (y - 1) < 400 * 479" using leap_days_bound [of "y - 1"] by simp
    then show ?thesis by (simp add: year_start_def leap_days_1969)
  qed
  assume "1970 \<le> y"
  then consider "y = 1970" | "y = 1971" | "1972 \<le> y" by linarith
  then show "year_start y \<le> 366 * (y - 1970)"
    by cases (use leap_days_bound [of "y - 1"] in \<open>simp_all add: year_start_def leap_days_1969\<close>)
qed

theorem year_of_ok: "year_start (year_of d) \<le> d \<and> d < year_start (year_of d + 1)"
proof -
  let ?y = "1970 + (if d < 0 then d div 365 else d div 366) - 1"
  have "year_start ?y \<le> d"
  proof (cases "d < 0")
    case True
    have "365 * (d div 365) \<le> d" by simp
    then show ?thesis using True year_start_far(1) [of ?y] by simp
  next
    case False
    have "366 * (d div 366) \<le> d" by simp
    moreover have "year_start ?y \<le> year_start (1970 + d div 366)" using year_start_step(1) [of ?y] False by simp
    moreover have "0 \<le> d div 366" using False by simp
    ultimately show ?thesis using False year_start_far(2) [of "1970 + d div 366"] by simp
  qed
  then show ?thesis unfolding year_of_def by (rule year_from_ok)
qed

section \<open>Rendering\<close>

text \<open>\<^verbatim>\<open>String(n).padStart(w, '0')\<close>\<close>

definition pad0 :: "nat \<Rightarrow> string \<Rightarrow> string" where
  "pad0 w s = replicate (w - length s) CHR ''0'' @ s"

fun month_day :: "int list \<Rightarrow> int \<Rightarrow> int \<Rightarrow> int \<times> int" where
  "month_day [] m r = (m, r + 1)"
| "month_day (len # rest) m r = (if r < len then (m, r + 1) else month_day rest (m + 1) (r - len))"

definition leap_year :: "int \<Rightarrow> bool" where
  "leap_year y \<longleftrightarrow> year_start (y + 1) - year_start y = 366"

text \<open>\<^verbatim>\<open>toISOString\<close>: an instant beyond 8.64e15 milliseconds is an invalid date.\<close>

definition toISOString :: "int \<Rightarrow> string result" where
  "toISOString t =
     (if \<bar>t\<bar> > 8640000000000000 then Inl RangeError
      else let d = utc_day t; y = year_of d;
               (m, day) = month_day [31, if leap_year y then 29 else 28, 31, 30, 31, 30, 31, 31, 30, 31, 30] 1 (d - year_start y);
               two = (\<lambda>i. pad0 2 (show_int i));
               yy = (if 0 \<le> y \<and> y \<le> 9999 then pad0 4 (show_int y) else (if y < 0 then ''-'' else ''+'') @ pad0 6 (show_int \<bar>y\<bar>))
        in Inr (yy @ ''-'' @ two m @ ''-'' @ two day @ ''T'' @ two (getUTCHours t) @ '':'' @ two (getUTCMinutes t) @ '':'' @
             two (t div 1000 mod 60) @ ''.'' @ pad0 3 (show_int (t mod 1000)) @ ''Z''))"

section \<open>ISO weeks\<close>

text \<open>
  \<^verbatim>\<open>getISOWeek\<close>: the date in the process's own time zone, \<open>zone\<close> milliseconds east of UTC, moved to the Thursday of
  its week, whose year and number of the week it takes.
\<close>

definition thursday_of :: "int \<Rightarrow> int" where
  "thursday_of d = d + 4 - (let w = (d + 4) mod 7 in if w = 0 then 7 else w)"

definition ceil_div :: "int \<Rightarrow> int \<Rightarrow> int" where
  "ceil_div a b = - ((- a) div b)"

definition getISOWeek :: "int \<Rightarrow> int \<Rightarrow> string" where
  "getISOWeek zone t =
     (let th = thursday_of (utc_day (t + zone)); y = year_of th; n = ceil_div (th - year_start y + 1) 7
      in show_int y @ ''-W'' @ pad0 2 (show_int n))"

text \<open>Weeks begin on Monday; day 0 was a Thursday.\<close>

definition week_of :: "int \<Rightarrow> int" where
  "week_of d = (d + 3) div 7"

lemma thursday_of_week: "thursday_of d = 7 * week_of d"
proof -
  have "(d + 4) mod 7 = ((d + 3) mod 7 + 1) mod 7" using mod_add_left_eq [of "d + 3" 7 1] by (simp add: add.assoc)
  then have "(d + 4) mod 7 = (if (d + 3) mod 7 = 6 then 0 else (d + 3) mod 7 + 1)"
    using pos_mod_bound [of 7 "d + 3"] pos_mod_sign [of 7 "d + 3"] by (cases "(d + 3) mod 7 = 6") (simp_all add: mod_pos_pos_trivial)
  moreover have "7 * ((d + 3) div 7) = d + 3 - (d + 3) mod 7" by (simp add: minus_mod_eq_mult_div)
  ultimately show ?thesis by (auto simp: thursday_of_def week_of_def Let_def)
qed

lemma ceil_div_suc: "ceil_div (x + 1) 7 = x div 7 + 1"
  unfolding ceil_div_def by presburger

definition week_number :: "int \<Rightarrow> int" where
  "week_number w = (7 * w - year_start (year_of (7 * w))) div 7 + 1"

lemma week_number_range: "1 \<le> week_number w" "week_number w \<le> 53"
proof -
  have "0 \<le> 7 * w - year_start (year_of (7 * w))" "7 * w - year_start (year_of (7 * w)) \<le> 365"
    using year_of_ok [of "7 * w"] year_start_step(2) [of "year_of (7 * w)"] by linarith+
  then show "1 \<le> week_number w" "week_number w \<le> 53" unfolding week_number_def by simp_all
qed

lemma getISOWeek_eq:
  "getISOWeek zone t = (let w = week_of (utc_day (t + zone)) in show_int (year_of (7 * w)) @ ''-W'' @ pad0 2 (show_int (week_number w)))"
  by (simp add: getISOWeek_def thursday_of_week ceil_div_suc week_number_def Let_def)

lemma week_labels: "list_all (\<lambda>n. length (pad0 2 (show_int n)) = 2 \<and> int (nat_of_digits (pad0 2 (show_int n))) = n) [1..53]"
  by code_simp

lemma show_int_inj: "show_int a = show_int b \<Longrightarrow> a = b"
  by (metis BigInt_show_int Inr_inject)

text \<open>Two instants have the same label exactly if they lie in the same week of the calendar.\<close>

lemma same_week_label:
  "getISOWeek zone t = getISOWeek zone u \<longleftrightarrow> week_of (utc_day (t + zone)) = week_of (utc_day (u + zone))"
proof
  define v w where vw: "v = week_of (utc_day (t + zone))" "w = week_of (utc_day (u + zone))"
  have range: "week_number x \<in> set [1..53]" for x using week_number_range by simp
  have len: "length (pad0 2 (show_int (week_number x))) = 2" for x
    using week_labels range [of x] unfolding list_all_iff by blast
  assume "getISOWeek zone t = getISOWeek zone u"
  then have "(show_int (year_of (7 * v)) @ ''-W'') @ pad0 2 (show_int (week_number v)) =
      (show_int (year_of (7 * w)) @ ''-W'') @ pad0 2 (show_int (week_number w))"
    by (simp add: getISOWeek_eq vw Let_def)
  moreover have "length (pad0 2 (show_int (week_number v))) = length (pad0 2 (show_int (week_number w)))" by (simp only: len)
  ultimately have "show_int (year_of (7 * v)) @ ''-W'' = show_int (year_of (7 * w)) @ ''-W'' \<and>
      pad0 2 (show_int (week_number v)) = pad0 2 (show_int (week_number w))"
    by (subst (asm) append_eq_append_conv) (erule disjI2, assumption)
  then have eq: "show_int (year_of (7 * v)) @ ''-W'' = show_int (year_of (7 * w)) @ ''-W''"
      "pad0 2 (show_int (week_number v)) = pad0 2 (show_int (week_number w))" by (rule conjunct1, rule conjunct2)
  have "year_of (7 * v) = year_of (7 * w)" using eq(1) by (simp add: show_int_inj)
  moreover have "week_number v = week_number w"
    using week_labels eq(2) range [of v] range [of w] unfolding list_all_iff by metis
  moreover have "(7 * v - c) div 7 = (7 * w - c) div 7 \<Longrightarrow> v = w" for c by presburger
  ultimately show "week_of (utc_day (t + zone)) = week_of (utc_day (u + zone))"
    unfolding week_number_def vw [symmetric] by simp
qed (simp add: getISOWeek_eq)

section \<open>Schedules\<close>

text \<open>\<^verbatim>\<open>msUntilNextClaim\<close>: to the next Tuesday, 08:30 UTC.\<close>

definition msUntilNextClaim :: "int \<Rightarrow> int" where
  "msUntilNextClaim now =
     (let target = add_days ((2 - getUTCDay now + 7) mod 7) (setUTCHours 8 30 now)
      in (if target \<le> now then add_days 7 target else target) - now)"

text \<open>\<^verbatim>\<open>msUntilNextDac\<close>: to the next \<open>hour\<close>:\<open>minute\<close> in Taipei, eight hours ahead of UTC.\<close>

definition msUntilNextDac :: "int \<Rightarrow> int \<Rightarrow> int \<Rightarrow> int" where
  "msUntilNextDac hour minute now =
     (let target = setUTCHours ((hour - 8 + 24) mod 24) minute now
      in (if target \<le> now then add_days 1 target else target) - now)"

lemma setUTCHours_bounds:
  assumes "0 \<le> h" and "h < 24" and "0 \<le> m" and "m < 60"
  shows "utc_day (setUTCHours h m t) = utc_day t" "setUTCHours h m t mod DAY_MS = h * 3600000 + m * 60000"
proof -
  have r: "0 \<le> h * 3600000 + m * 60000" "h * 3600000 + m * 60000 < DAY_MS" using assms by (simp_all add: DAY_MS_def)
  then show "utc_day (setUTCHours h m t) = utc_day t" "setUTCHours h m t mod DAY_MS = h * 3600000 + m * 60000"
    unfolding setUTCHours_def utc_day_def by (simp_all add: add.assoc DAY_MS_def)
qed

text \<open>The instants of a daily schedule are those with the same rest of the day; the next is the only one within a day.\<close>

lemma next_daily:
  fixes now c :: int
  assumes "0 \<le> c" and "c < DAY_MS"
  defines "target \<equiv> utc_day now * DAY_MS + c"
  defines "nx \<equiv> if target \<le> now then target + DAY_MS else target"
  shows "now < nx" "nx \<le> now + DAY_MS" "nx mod DAY_MS = c"
proof -
  have t: "target mod DAY_MS = c" unfolding target_def using assms(1,2) by simp
  have n: "utc_day now * DAY_MS \<le> now" "now < utc_day now * DAY_MS + DAY_MS" unfolding utc_day_def DAY_MS_def by simp_all
  show "now < nx" "nx \<le> now + DAY_MS" unfolding nx_def target_def using n assms(1,2) by (simp_all add: not_le)
  show "nx mod DAY_MS = c" unfolding nx_def using t by (simp add: DAY_MS_def)
qed

lemma next_tuesday:
  fixes now :: int
  defines "nx \<equiv> now + msUntilNextClaim now"
  shows "now < nx" "nx \<le> now + 7 * DAY_MS" "getUTCDay nx = 2" "nx mod DAY_MS = 30600000"
proof -
  define d where "d = utc_day now"
  define k where "k = (2 - getUTCDay now + 7) mod 7"
  define target where "target = (d + k) * DAY_MS + 30600000"
  have nxt: "nx = (if target \<le> now then target + 7 * DAY_MS else target)"
    unfolding nx_def msUntilNextClaim_def target_def add_days_def setUTCHours_def Let_def k_def d_def by (simp add: algebra_simps)
  have k: "0 \<le> k" "k < 7" unfolding k_def by simp_all
  have tuesday: "(d + k + 4) mod 7 = 2" unfolding k_def getUTCDay_def d_def by presburger
  have n: "d * DAY_MS \<le> now" "now < d * DAY_MS + DAY_MS" unfolding d_def utc_day_def DAY_MS_def by simp_all
  have day: "utc_day (x * DAY_MS + 30600000) = x" "(x * DAY_MS + 30600000) mod DAY_MS = 30600000" for x
    unfolding utc_day_def DAY_MS_def by simp_all
  have split: "nx = (d + k + 7 * (if target \<le> now then 1 else 0)) * DAY_MS + 30600000"
    unfolding nxt target_def by (simp add: algebra_simps)
  show "nx mod DAY_MS = 30600000" unfolding split by (rule day)
  show "getUTCDay nx = 2" unfolding split getUTCDay_def day using tuesday by (simp; presburger)
  show "now < nx" unfolding nxt target_def using n k by (simp add: DAY_MS_def algebra_simps not_le)
  show "nx \<le> now + 7 * DAY_MS"
  proof (cases "target \<le> now")
    case False
    show ?thesis
    proof (cases "k = 0")
      case True
      then show ?thesis using n False unfolding nxt target_def DAY_MS_def by simp
    next
      case nz: False
      then show ?thesis using n k False unfolding nxt target_def DAY_MS_def by (simp add: algebra_simps)
    qed
  qed (simp add: nxt)
qed

end
