(* ===== verification/Histories.thy ===== *)
theory Histories
  imports Dispatch Js_Date
begin

text \<open>
  The two histories of \<^verbatim>\<open>src/state/repo/histories.ts\<close>, the weekly claims and the daily conversions, with the arrays that
  mirror them in \<^verbatim>\<open>src/executor/auto-claim.ts\<close> and \<^verbatim>\<open>src/executor/dac.ts\<close>. Both are rings of \<open>Ring_Table\<close>.
\<close>

section \<open>Data\<close>

record ClaimHistoryEntry =
  ch_ts :: millis
  ch_snapshotTs :: "millis option"
  ch_week :: string
  ch_totalPools :: nat
  ch_totalBonusUsd :: js_num
  ch_txSignatures :: "string list"
  ch_error :: "string option"

datatype dac_status = dac_success | dac_skipped | dac_swap_failed | dac_transfer_failed

record DacRecord =
  dr_ts :: millis
  dr_profitUsd :: js_num
  dr_dacAmountUsd :: js_num
  dr_cbbtcReceived :: string
  dr_tokenReceived :: string
  dr_tokenSymbol :: string
  dr_tokenMint :: string
  dr_swapSig :: "string option"
  dr_transferSig :: "string option"
  dr_transferTo :: string
  dr_status :: dac_status
  dr_reason :: "string option"

definition MAX_CLAIM_HISTORY :: nat where "MAX_CLAIM_HISTORY = 52"
definition MAX_DAC_HISTORY :: nat where "MAX_DAC_HISTORY = 365"

section \<open>The repositories\<close>

text \<open>A payload is a \<^verbatim>\<open>JSONB\<close> column: the entry itself.\<close>

definition pushClaim :: "ClaimHistoryEntry \<Rightarrow> nat \<Rightarrow> ClaimHistoryEntry ring \<Rightarrow> ClaimHistoryEntry ring result" where
  "pushClaim entry cap t = ring_push cap entry t"

definition listClaims :: "nat \<Rightarrow> ClaimHistoryEntry ring \<Rightarrow> ClaimHistoryEntry list" where
  "listClaims limit t = ring_newest limit t"

text \<open>\<^verbatim>\<open>WHERE payload ->> 'error' IS NULL ORDER BY id DESC LIMIT 1\<close>\<close>

definition latestSuccessfulClaim :: "ClaimHistoryEntry ring \<Rightarrow> ClaimHistoryEntry option" where
  "latestSuccessfulClaim t = find (\<lambda>e. ch_error e = None) (ring_newest_first (ring_count t) t)"

definition countClaims :: "ClaimHistoryEntry ring \<Rightarrow> nat" where
  "countClaims t = ring_count t"

definition pushDac :: "DacRecord \<Rightarrow> nat \<Rightarrow> DacRecord ring \<Rightarrow> DacRecord ring result" where
  "pushDac record cap t = ring_push cap record t"

definition listDac :: "nat \<Rightarrow> DacRecord ring \<Rightarrow> DacRecord list" where
  "listDac limit t = ring_newest limit t"

definition latestDacTs :: "DacRecord ring \<Rightarrow> millis" where
  "latestDacTs t = (case ring_newest_first 1 t of r # _ \<Rightarrow> dr_ts r | [] \<Rightarrow> 0)"

definition countDac :: "DacRecord ring \<Rightarrow> nat" where
  "countDac t = ring_count t"

section \<open>The claims in memory\<close>

text \<open>The result line of the dashboard, \<^verbatim>\<open>formatClaimResult\<close>.\<close>

definition formatClaimResult :: "ClaimHistoryEntry \<Rightarrow> string" where
  "formatClaimResult e =
     (if truthy (ch_error e) \<and> ch_totalPools e = 0
      then utf8 [229, 164, 177, 230, 149, 151, 58, 32] @ the (ch_error e)
      else let d = (case ch_snapshotTs e of Some s \<Rightarrow> if s = 0 then ch_ts e else s | None \<Rightarrow> ch_ts e);
               snap = utf8 [229, 191, 171, 231, 133, 167, 32] @ pad0 2 (show_int ((getUTCHours d + 8) mod 24)) @ '':'' @
                      pad0 2 (show_int (getUTCMinutes d));
               usd = (case toFixed (ch_totalBonusUsd e) 2 of Inr s \<Rightarrow> s | Inl _ \<Rightarrow> [])
        in utf8 [233, 160, 152, 229, 143, 150, 230, 136, 144, 229, 138, 159, 239, 188, 140] @ usd @ '' USD'' @
           utf8 [239, 188, 136] @ snap @ utf8 [239, 188, 137])"

record claims =
  claimHistory :: "ClaimHistoryEntry list"
  lastClaimWeek :: string
  lastClaimTs :: millis
  lastClaimResult :: string

definition loadClaimHistory :: "ClaimHistoryEntry ring \<Rightarrow> claims" where
  "loadClaimHistory t =
     (let c = \<lparr>claimHistory = listClaims MAX_CLAIM_HISTORY t, lastClaimWeek = [], lastClaimTs = 0, lastClaimResult = []\<rparr>
      in case latestSuccessfulClaim t of
           None \<Rightarrow> c
         | Some e \<Rightarrow> c\<lparr>lastClaimWeek := ch_week e, lastClaimTs := ch_ts e, lastClaimResult := formatClaimResult e\<rparr>)"

definition finalize :: "ClaimHistoryEntry \<Rightarrow> string \<Rightarrow> claims \<Rightarrow> claims \<times> ClaimHistoryEntry list" where
  "finalize entry currentWeek c =
     (let c1 = c\<lparr>claimHistory := shift_while MAX_CLAIM_HISTORY (claimHistory c @ [entry]), lastClaimTs := ch_ts entry,
                 lastClaimResult := formatClaimResult entry\<rparr>
      in (if truthy (ch_error entry) then c1 else c1\<lparr>lastClaimWeek := currentWeek\<rparr>, [entry]))"

text \<open>A queued call, as the chain runs it.\<close>

definition claim_run :: "millis \<Rightarrow> ClaimHistoryEntry \<Rightarrow> ClaimHistoryEntry ring \<Rightarrow> ClaimHistoryEntry ring" where
  "claim_run now entry t = committed (pushClaim entry MAX_CLAIM_HISTORY t) t"

text \<open>\<^verbatim>\<open>dacHistory.push(record)\<close> and what goes with it.\<close>

definition saveDac :: "DacRecord \<Rightarrow> DacRecord list \<Rightarrow> DacRecord list \<times> DacRecord list" where
  "saveDac record history = (shift_while MAX_DAC_HISTORY (history @ [record]), [record])"

definition dac_run :: "millis \<Rightarrow> DacRecord \<Rightarrow> DacRecord ring \<Rightarrow> DacRecord ring" where
  "dac_run now record t = committed (pushDac record MAX_DAC_HISTORY t) t"

section \<open>The stores meet the write-through contract\<close>

definition claim_view :: "ClaimHistoryEntry ring \<Rightarrow> ClaimHistoryEntry list" where
  "claim_view t = keep_last MAX_CLAIM_HISTORY (ring_entries t)"

definition dac_view :: "DacRecord ring \<Rightarrow> DacRecord list" where
  "dac_view t = keep_last MAX_DAC_HISTORY (ring_entries t)"

text \<open>The week of the newest claim without an error, as far as the history goes back, is the remembered one.\<close>

definition newest_success :: "ClaimHistoryEntry list \<Rightarrow> ClaimHistoryEntry option" where
  "newest_success es = find (\<lambda>e. ch_error e = None) (rev es)"

definition claims_inv :: "claims \<Rightarrow> bool" where
  "claims_inv c \<longleftrightarrow> length (claimHistory c) \<le> MAX_CLAIM_HISTORY \<and>
     (\<forall>e. newest_success (claimHistory c) = Some e \<longrightarrow> lastClaimWeek c = ch_week e)"

lemma caps_positive_h [simp]: "0 < MAX_CLAIM_HISTORY" "0 < MAX_DAC_HISTORY"
  by (simp_all add: MAX_CLAIM_HISTORY_def MAX_DAC_HISTORY_def)

lemma find_in_append: "find P (xs @ ys) = (case find P xs of Some x \<Rightarrow> Some x | None \<Rightarrow> find P ys)"
  by (induction xs) auto

lemma newest_success_kept: "newest_success (keep_last n es) = Some e \<Longrightarrow> newest_success es = Some e"
  unfolding newest_success_def keep_last_def
  using find_in_append [of "\<lambda>e. ch_error e = None" "rev (drop (length es - n) es)" "rev (take (length es - n) es)"]
  by (metis append_take_drop_id option.simps(5) rev_append)

lemma newest_success_snoc: "newest_success (es @ [e]) = (if ch_error e = None then Some e else newest_success es)"
  by (simp add: newest_success_def)

text \<open>An entry's error is never the empty text, and a claim is booked under its own week.\<close>

definition claim_ok :: "ClaimHistoryEntry \<Rightarrow> bool" where
  "claim_ok e \<longleftrightarrow> ch_error e \<noteq> Some []"

lemma finalize_inv:
  assumes "claims_inv c" and "claim_ok e"
  shows "claims_inv (fst (finalize e (ch_week e) c))"
proof -
  have err: "truthy (ch_error e) \<longleftrightarrow> ch_error e \<noteq> None" using assms(2) by (cases "ch_error e") (auto simp: claim_ok_def)
  have "lastClaimWeek (fst (finalize e (ch_week e) c)) = ch_week x"
    if "newest_success (keep_last MAX_CLAIM_HISTORY (claimHistory c @ [e])) = Some x" for x
    using newest_success_kept [OF that] assms(1)
    by (auto simp: newest_success_snoc finalize_def Let_def err claims_inv_def split: if_splits)
  then show ?thesis by (auto simp: claims_inv_def finalize_def Let_def shift_while_eq)
qed

lemma ring_history_run:
  assumes "ring_ok t" and "0 < cap"
  shows "keep_last cap (ring_entries (committed (ring_push cap r t) t)) = keep_last cap (keep_last cap (ring_entries t) @ [r])"
    and "ring_ok (committed (ring_push cap r t) t)"
  using ring_push_ok [OF assms, of r] by (simp_all add: keep_last_snoc assms(2))

lemma latest_success: "ring_ok t \<Longrightarrow> latestSuccessfulClaim t = newest_success (ring_entries t)"
  by (simp add: latestSuccessfulClaim_def newest_success_def ring_newest_first_ok ring_count_def ring_entries_def)

interpretation claim_store: write_through
  "\<lambda>e c. fst (finalize e (ch_week e) c)" "\<lambda>e c. snd (finalize e (ch_week e) c)" claim_run loadClaimHistory
  claim_ok "\<lambda>_. True" claims_inv ring_ok claimHistory claim_view "\<lambda>e es. keep_last MAX_CLAIM_HISTORY (es @ [e])"
proof
  fix t :: "ClaimHistoryEntry ring" assume t: "ring_ok t"
  show view: "claimHistory (loadClaimHistory t) = claim_view t"
    using t by (simp add: loadClaimHistory_def claim_view_def listClaims_def ring_newest_ok Let_def split: option.splits)
  show "claims_inv (loadClaimHistory t)"
    using view latest_success [OF t] newest_success_kept [of MAX_CLAIM_HISTORY "ring_entries t"]
    by (auto simp: claims_inv_def claim_view_def loadClaimHistory_def Let_def)
qed (auto simp: claim_run_def pushClaim_def claim_view_def ring_history_run finalize_inv,
     simp add: finalize_def Let_def shift_while_eq)

interpretation dac_store: write_through
  "\<lambda>r h. fst (saveDac r h)" "\<lambda>r h. snd (saveDac r h)" dac_run "listDac MAX_DAC_HISTORY"
  "\<lambda>_. True" "\<lambda>_. True" "\<lambda>h. length h \<le> MAX_DAC_HISTORY" ring_ok "\<lambda>h. h" dac_view "\<lambda>r h. keep_last MAX_DAC_HISTORY (h @ [r])"
  by unfold_locales
    (simp_all add: dac_run_def pushDac_def dac_view_def ring_history_run saveDac_def shift_while_eq listDac_def ring_newest_ok)

section \<open>Properties\<close>

definition claims_reach :: "claims \<times> ClaimHistoryEntry WriteChain \<times> ClaimHistoryEntry ring \<Rightarrow> bool" where
  "claims_reach = reach (\<lambda>s. \<exists>t. ring_ok t \<and> s = store_init loadClaimHistory t)
     (store_step (\<lambda>e c. fst (finalize e (ch_week e) c)) (\<lambda>e c. snd (finalize e (ch_week e) c)) claim_run claim_ok False)"

text \<open>
  C40: A week that was claimed stays claimed over a restart as long as its claim is kept. In every reachable state of the
  claim history in which no write was dropped, no acknowledgement was lost and the writes are through, a restarted bot
  loads the same at most 52 claims. If one of them is without an error, the bot and the restarted bot remember the week
  of the newest such claim. If all of them failed, so after a success and 52 failed claims, a restarted bot remembers no
  week, unless the table holds older rows from elsewhere.
\<close>

theorem claims_survive_restart:
  assumes "claims_reach (c, chain, t)" and "drained chain" and "dropped chain = []"
  shows "claimHistory (loadClaimHistory t) = claimHistory c \<and> length (claimHistory c) \<le> 52 \<and>
    (case find (\<lambda>e. ch_error e = None) (rev (claimHistory c)) of
       Some e \<Rightarrow> lastClaimWeek c = ch_week e \<and> lastClaimWeek (loadClaimHistory t) = ch_week e
     | None \<Rightarrow> length (ring_entries t) \<le> 52 \<longrightarrow> lastClaimWeek (loadClaimHistory t) = [])"
proof -
  have s: "claim_store.in_sync (c, chain, t)"
    using claim_store.lossless.reach_inv assms(1) unfolding claims_reach_def by blast
  have eq: "claimHistory (loadClaimHistory t) = claimHistory c" by (rule claim_store.in_sync_restart [OF s assms(2,3)])
  have inv: "claims_inv c" "claims_inv (loadClaimHistory t)"
    using s claim_store.load_inv by (auto simp: claim_store.in_sync_def)
  have ring: "ring_ok t" using s by (simp add: claim_store.in_sync_def)
  have forgets: "lastClaimWeek (loadClaimHistory t) = []" if "newest_success (claimHistory c) = None" "length (ring_entries t) \<le> 52"
    using latest_success [OF ring] claim_store.load_view [OF ring] eq that
    by (simp add: loadClaimHistory_def claim_view_def keep_last_def MAX_CLAIM_HISTORY_def Let_def)
  show ?thesis
    using eq inv forgets unfolding claims_inv_def MAX_CLAIM_HISTORY_def
    by (auto simp: newest_success_def [symmetric] split: option.splits)
qed

definition demo_claim :: ClaimHistoryEntry where
  "demo_claim = \<lparr>ch_ts = 5, ch_snapshotTs = Some 5, ch_week = ''2026-W01'', ch_totalPools = 1, ch_totalBonusUsd = Num 3,
     ch_txSignatures = [''s''], ch_error = None\<rparr>"

theorem claims_survive_restart_witness:
  "\<exists>c chain t. claims_reach (c, chain, t) \<and> drained chain \<and> claimHistory c = [demo_claim] \<and> lastClaimWeek (loadClaimHistory t) = ''2026-W01''"
proof -
  let ?s = "run_script (\<lambda>e c. fst (finalize e (ch_week e) c)) (\<lambda>e c. snd (finalize e (ch_week e) c)) claim_run
     [Op demo_claim, Db Nack, Db (Ack 1)] (store_init loadClaimHistory ring_empty)"
  have reach: "claims_reach ?s"
    unfolding claims_reach_def by (rule reach_script [where dinv = ring_ok]) (simp_all add: demo_claim_def claim_ok_def)
  obtain c chain t where s: "?s = (c, chain, t)" by (rule prod_cases3)
  have load: "loadClaimHistory ring_empty = \<lparr>claimHistory = [], lastClaimWeek = [], lastClaimTs = 0, lastClaimResult = []\<rparr>"
    by (simp add: loadClaimHistory_def listClaims_def latestSuccessfulClaim_def ring_newest_def ring_newest_first_def ring_empty_def)
  have "claimHistory c = [demo_claim]" "lastClaimWeek c = ''2026-W01''" "tail chain = []" "dropped chain = []"
    using s by (auto simp: store_init_def load finalize_def Let_def chain_defs RETRY_DELAYS_MS_def demo_claim_def MAX_CLAIM_HISTORY_def)
  moreover have "claims_reach (c, chain, t)" using reach s by simp
  ultimately show ?thesis
    using claims_survive_restart [of c chain t] by (auto simp: drained_def demo_claim_def intro!: exI [of _ c] exI [of _ chain] exI [of _ t])
qed

end
