(* ===== verification/Async_Ops.thy ===== *)
theory Async_Ops
  imports Json_Access
begin

text \<open>
  Methods that talk to the chain and to services: functions from a state to a result (a thrown error is
  \<open>Inl\<close>) and a new state, with the combinators the sources' control flow needs (sequence, \<^verbatim>\<open>try\<close>/\<^verbatim>\<open>catch\<close>,
  \<^verbatim>\<open>finally\<close>), the error tests the executors share, and their retry loop.

  The second part is the proof method for such programs. \<open>always R m\<close> says that \<open>m\<close> takes every state to an
  \<open>R\<close>-related one. The locale \<open>step_relation\<close> collects the rules for a reflexive and transitive \<open>R\<close>; it is
  interpreted on the relations the component proofs use, "this part of the state is untouched" and "only
  such transactions are added to what was sent".
\<close>

section \<open>Operations\<close>

type_synonym ('s, 'a) op = "'s \<Rightarrow> 'a result \<times> 's"

definition ret :: "'a \<Rightarrow> ('s, 'a) op" where
  "ret a s = (Inr a, s)"

definition throw :: "js_error \<Rightarrow> ('s, 'a) op" where
  "throw e s = (Inl e, s)"

definition of_result :: "'a result \<Rightarrow> ('s, 'a) op" where
  "of_result r s = (r, s)"

definition bind_op :: "('s, 'a) op \<Rightarrow> ('a \<Rightarrow> ('s, 'b) op) \<Rightarrow> ('s, 'b) op" where
  "bind_op m f s = (case m s of (Inl e, s') \<Rightarrow> (Inl e, s') | (Inr a, s') \<Rightarrow> f a s')"

text \<open>\<^verbatim>\<open>try { m } catch (e) { h(e) }\<close>\<close>

definition catch_op :: "('s, 'a) op \<Rightarrow> (js_error \<Rightarrow> ('s, 'a) op) \<Rightarrow> ('s, 'a) op" where
  "catch_op m h s = (case m s of (Inl e, s') \<Rightarrow> h e s' | (Inr a, s') \<Rightarrow> (Inr a, s'))"

text \<open>\<^verbatim>\<open>try { m } finally { f }\<close> for a final block that neither throws nor returns\<close>

definition finally_op :: "('s, 'a) op \<Rightarrow> ('s \<Rightarrow> 's) \<Rightarrow> ('s, 'a) op" where
  "finally_op m f s = (case m s of (r, s') \<Rightarrow> (r, f s'))"

text \<open>The outcome as a value, for code that goes on after the \<^verbatim>\<open>try\<close> statement in either case.\<close>

definition try_op :: "('s, 'a) op \<Rightarrow> ('s, 'a result) op" where
  "try_op m s = (case m s of (r, s') \<Rightarrow> (Inr r, s'))"

definition look :: "('s \<Rightarrow> 'a) \<Rightarrow> ('s, 'a) op" where
  "look f s = (Inr (f s), s)"

definition change :: "('s \<Rightarrow> 's) \<Rightarrow> ('s, unit) op" where
  "change f s = (Inr (), f s)"

text \<open>An operation of a part of the state.\<close>

definition zoom :: "('s \<Rightarrow> 't) \<Rightarrow> (('t \<Rightarrow> 't) \<Rightarrow> 's \<Rightarrow> 's) \<Rightarrow> ('t, 'a) op \<Rightarrow> ('s, 'a) op" where
  "zoom get upd m s = (case m (get s) of (r, t) \<Rightarrow> (r, upd (\<lambda>_. t) s))"

fun each :: "('a \<Rightarrow> ('s, unit) op) \<Rightarrow> 'a list \<Rightarrow> ('s, unit) op" where
  "each f [] = ret ()"
| "each f (x # xs) = bind_op (f x) (\<lambda>_. each f xs)"

section \<open>Tests on errors\<close>

definition lower_char :: "char \<Rightarrow> char" where
  "lower_char c = (let n = of_char c :: nat in if 65 \<le> n \<and> n \<le> 90 then char_of (n + 32) else c)"

definition toLowerCase :: "string \<Rightarrow> string" where
  "toLowerCase s = map lower_char s"

text \<open>
  \<^verbatim>\<open>err?.message || ''\<close>. The built-in errors' own messages contain none of the phrases that are tested for.
\<close>

fun error_message :: "js_error \<Rightarrow> string" where
  "error_message (Error msg) = msg"
| "error_message _ = ''''"

text \<open>\<^verbatim>\<open>/a|b|c/i.test(msg)\<close> for plain words, given in lower case\<close>

definition mentions :: "string list \<Rightarrow> js_error \<Rightarrow> bool" where
  "mentions words e \<longleftrightarrow> list_ex (str_includes (toLowerCase (error_message e))) words"

definition TRANSIENT_WORDS :: "string list" where
  "TRANSIENT_WORDS =
     [''502'', ''503'', ''504'', ''429'', ''econnreset'', ''etimedout'', ''enotfound'', ''timeout'', ''too many requests'',
      ''internal server error'', ''blockhash not found'', ''block height exceeded'', ''has expired'',
      ''priceslippagecheck'', ''0x1785'']"

definition isTransientError :: "js_error \<Rightarrow> bool" where
  "isTransientError e \<longleftrightarrow> mentions TRANSIENT_WORDS e"

definition insufficient_lamports :: "js_error \<Rightarrow> bool" where
  "insufficient_lamports e \<longleftrightarrow> mentions [''insufficient lamports''] e"

definition isRetryableSimError :: "js_error \<Rightarrow> bool" where
  "isRetryableSimError e \<longleftrightarrow> mentions [''simulation failed'', ''insufficient funds''] e \<and> \<not> insufficient_lamports e"

text \<open>\<^verbatim>\<open>/\b(...)\b/i\<close>: the phrase stands between two word boundaries; \<open>prev\<close> is the character before.\<close>

definition word_char :: "char \<Rightarrow> bool" where
  "word_char c = (let n = of_char c :: nat
     in (48 \<le> n \<and> n \<le> 57) \<or> (65 \<le> n \<and> n \<le> 90) \<or> n = 95 \<or> (97 \<le> n \<and> n \<le> 122))"

fun has_phrase :: "bool \<Rightarrow> string \<Rightarrow> string \<Rightarrow> bool" where
  "has_phrase after_word t [] \<longleftrightarrow> False"
| "has_phrase after_word t (c # s) \<longleftrightarrow>
     (\<not> after_word \<and> starts_with (c # s) t \<and>
        (case drop (length t) (c # s) of [] \<Rightarrow> True | d # _ \<Rightarrow> \<not> word_char d)) \<or>
     has_phrase (word_char c) t s"

definition isPositionGoneError :: "js_error \<Rightarrow> bool" where
  "isPositionGoneError e \<longleftrightarrow>
     list_ex (\<lambda>t. has_phrase False t (toLowerCase (error_message e)))
       [''not found'', ''does not exist'', ''account not found'', ''account does not exist'', ''could not find'',
        ''position not found'']"

section \<open>Retrying\<close>

text \<open>
  \<^verbatim>\<open>retryOnTransient(fn, label, maxRetries)\<close>, the loop with \<open>n\<close> attempts left. The delays between the
  attempts have no effect of their own.
\<close>

fun retry_loop :: "nat \<Rightarrow> ('s, 'a) op \<Rightarrow> ('s, 'a) op" where
  "retry_loop 0 fn = throw (Error ''unreachable'')"
| "retry_loop (Suc n) fn =
     catch_op fn (\<lambda>e. if n > 0 \<and> isTransientError e then retry_loop n fn else throw e)"

definition retryOnTransient :: "('s, 'a) op \<Rightarrow> ('s, 'a) op" where
  "retryOnTransient fn = retry_loop 3 fn"

section \<open>What operations do to the state\<close>

definition always :: "('s \<Rightarrow> 's \<Rightarrow> bool) \<Rightarrow> ('s, 'a) op \<Rightarrow> bool" where
  "always R m \<longleftrightarrow> (\<forall>s. R s (snd (m s)))"

text \<open>\<open>gives m a\<close>: in some state \<open>m\<close> returns \<open>a\<close>.\<close>

definition gives :: "('s, 'a) op \<Rightarrow> 'a \<Rightarrow> bool" where
  "gives m a \<longleftrightarrow> (\<exists>s s'. m s = (Inr a, s'))"

definition never_throws :: "('s, 'a) op \<Rightarrow> bool" where
  "never_throws m \<longleftrightarrow> (\<forall>s. \<exists>a. fst (m s) = Inr a)"

text \<open>A contract that relates the state before, the result and the state after.\<close>

definition meets :: "('s, 'a) op \<Rightarrow> ('s \<Rightarrow> 'a result \<Rightarrow> 's \<Rightarrow> bool) \<Rightarrow> bool" where
  "meets m Q \<longleftrightarrow> (\<forall>s. Q s (fst (m s)) (snd (m s)))"

lemma bind_op_simps:
  "m s = (Inl e, s') \<Longrightarrow> bind_op m f s = (Inl e, s')"
  "m s = (Inr a, s') \<Longrightarrow> bind_op m f s = f a s'"
  by (simp_all add: bind_op_def)

lemma op_simps:
  "ret a s = (Inr a, s)" "throw e s = (Inl e, s)" "of_result r s = (r, s)" "look g s = (Inr (g s), s)"
  "change f s = (Inr (), f s)"
  by (simp_all add: ret_def throw_def of_result_def look_def change_def)

lemma bind_simple [simp]:
  "bind_op (ret a) f = f a" "bind_op (throw e) f = throw e" "bind_op (look g) f s = f (g s) s"
  "bind_op (change h) f s = f () (h s)" "bind_op (of_result (Inr a)) f = f a" "bind_op (of_result (Inl e)) f = throw e"
  by (simp_all add: bind_op_def fun_eq_iff op_simps)

lemma meetsI: "(\<And>s r s'. m s = (r, s') \<Longrightarrow> Q s r s') \<Longrightarrow> meets m Q"
  by (simp add: meets_def)

lemma meetsD: "meets m Q \<Longrightarrow> m s = (r, s') \<Longrightarrow> Q s r s'"
  by (metis fst_conv meets_def snd_conv)

lemma alwaysD: "always R m \<Longrightarrow> m s = (r, s') \<Longrightarrow> R s s'"
  by (metis always_def snd_conv)

lemma givesI: "m s = (Inr a, s') \<Longrightarrow> gives m a"
  by (auto simp: gives_def)

lemma gives_simps [simp]:
  "gives (ret a) b \<longleftrightarrow> b = a" "gives (throw e) b \<longleftrightarrow> False" "gives (of_result r) b \<longleftrightarrow> r = Inr b"
  by (auto simp: gives_def op_simps)

lemma gives_bindE:
  assumes "gives (bind_op m f) b"
  obtains a where "gives m a" and "gives (f a) b"
proof -
  from assms obtain s s' where b: "bind_op m f s = (Inr b, s')" by (auto simp: gives_def)
  obtain r t where m: "m s = (r, t)" by fastforce
  with b obtain a where "r = Inr a" "f a t = (Inr b, s')" by (cases r) (auto simp: bind_op_def)
  with m that show thesis by (blast intro: givesI)
qed

locale step_relation =
  fixes R :: "'s \<Rightarrow> 's \<Rightarrow> bool"
  assumes refl: "R s s"
    and trans: "R s t \<Longrightarrow> R t u \<Longrightarrow> R s u"
begin

lemma simple: "always R (ret a)" "always R (throw e)" "always R (of_result r)" "always R (look g)"
  by (simp_all add: always_def refl op_simps)

lemma changed: "(\<And>s. R s (f s)) \<Longrightarrow> always R (change f)"
  by (simp add: always_def op_simps)

lemma bind:
  assumes "always R m" and "\<And>a. gives m a \<Longrightarrow> always R (f a)"
  shows "always R (bind_op m f)"
  unfolding always_def
proof
  fix s
  obtain r s' where m: "m s = (r, s')" by fastforce
  then have "R s s'" using assms(1) by (rule alwaysD [rotated])
  then show "R s (snd (bind_op m f s))"
  proof (cases r)
    case (Inr a)
    with m have "R s' (snd (f a s'))" using assms(2) [OF givesI] by (simp add: always_def)
    then show ?thesis using m Inr \<open>R s s'\<close> by (auto simp: bind_op_def intro: trans)
  qed (simp add: m bind_op_def)
qed

lemma catched:
  assumes "always R m" and "\<And>e. always R (h e)"
  shows "always R (catch_op m h)"
  unfolding always_def
proof
  fix s
  obtain r s' where m: "m s = (r, s')" by fastforce
  then have "R s s'" using assms(1) by (rule alwaysD [rotated])
  moreover have "R s' (snd (h e s'))" for e using assms(2) by (simp add: always_def)
  ultimately show "R s (snd (catch_op m h s))" using m by (cases r) (auto simp: catch_op_def intro: trans)
qed

lemma finalised:
  assumes "always R m" and "\<And>s. R s (f s)"
  shows "always R (finally_op m f)"
  using assms unfolding always_def finally_op_def by (auto split: prod.splits) (metis snd_conv trans)

lemma tried: "always R m \<Longrightarrow> always R (try_op m)"
  by (auto simp: always_def try_op_def split: prod.splits) (metis snd_conv)

lemma mapped: "(\<And>x. x \<in> set xs \<Longrightarrow> always R (f x)) \<Longrightarrow> always R (each f xs)"
  by (induction xs) (auto intro: simple bind)

lemma retry_loop: "always R m \<Longrightarrow> always R (retry_loop n m)"
  by (induction n) (simp_all add: catched simple split: if_split)

lemma retried: "always R m \<Longrightarrow> always R (retryOnTransient m)"
  by (simp add: retryOnTransient_def retry_loop)

lemmas rules = simple bind catched finalised tried mapped retried

text \<open>
  A contract absorbs an \<open>R\<close>-step before the operation it is about: then what comes first only has to stay
  within \<open>R\<close> and to establish the contract when it throws.
\<close>

lemma meets_bind:
  assumes "always R m" and "\<And>a. gives m a \<Longrightarrow> meets (f a) Q"
    and "\<And>s t r u. R s t \<Longrightarrow> Q t r u \<Longrightarrow> Q s r u" and "\<And>s e t. R s t \<Longrightarrow> Q s (Inl e) t"
  shows "meets (bind_op m f) Q"
proof (rule meetsI)
  fix s r u assume u: "bind_op m f s = (r, u)"
  obtain r' t where m: "m s = (r', t)" by fastforce
  have t: "R s t" using assms(1) m by (rule alwaysD)
  show "Q s r u"
  proof (cases r')
    case (Inl e)
    with m u have "r = Inl e" "u = t" by (auto simp: bind_op_def)
    with t assms(4) show ?thesis by simp
  next
    case (Inr a)
    with m u have "Q t r u" using assms(2) [OF givesI, of s a t] meetsD [of "f a" Q t r u] by (simp add: bind_op_def)
    with t assms(3) show ?thesis by blast
  qed
qed

end

text \<open>A projection of the state stays the same.\<close>

definition same :: "('s \<Rightarrow> 't) \<Rightarrow> 's \<Rightarrow> 's \<Rightarrow> bool" where
  "same f s s' \<longleftrightarrow> f s' = f s"

interpretation same: step_relation "same f" for f :: "'s \<Rightarrow> 't"
  by unfold_locales (simp_all add: same_def)

text \<open>A log of the state only grows, by entries that satisfy \<open>P\<close>.\<close>

definition logs_only :: "('s \<Rightarrow> 't list) \<Rightarrow> ('t \<Rightarrow> bool) \<Rightarrow> 's \<Rightarrow> 's \<Rightarrow> bool" where
  "logs_only f P s s' \<longleftrightarrow> (\<exists>ts. f s' = f s @ ts \<and> list_all P ts)"

interpretation logs: step_relation "logs_only f P" for f :: "'s \<Rightarrow> 't list" and P
proof
  show "logs_only f P s s" for s by (simp add: logs_only_def)
  show "logs_only f P s t \<Longrightarrow> logs_only f P t u \<Longrightarrow> logs_only f P s u" for s t u by (force simp: logs_only_def)
qed

lemma logs_only_mono: "logs_only f P s t \<Longrightarrow> (\<And>x. P x \<Longrightarrow> Q x) \<Longrightarrow> logs_only f Q s t"
  by (auto simp: logs_only_def list_all_iff)

lemma always_mono: "always R m \<Longrightarrow> (\<And>s t. R s t \<Longrightarrow> R' s t) \<Longrightarrow> always R' m"
  by (simp add: always_def)

lemma never_throws_catch: "(\<And>e. never_throws (h e)) \<Longrightarrow> never_throws (catch_op m h)"
  by (auto simp: never_throws_def catch_op_def split: prod.splits sum.splits)

lemma never_throws_finally: "never_throws m \<Longrightarrow> never_throws (finally_op m f)"
  by (auto simp: never_throws_def finally_op_def split: prod.splits) (metis fst_conv)

lemma never_throws_bind: "never_throws m \<Longrightarrow> (\<And>a. never_throws (f a)) \<Longrightarrow> never_throws (bind_op m f)"
  unfolding never_throws_def bind_op_def by (auto split: prod.splits sum.splits) (metis fst_conv sum.distinct(1))

lemma never_throws_simple: "never_throws (ret a)" "never_throws (look g)" "never_throws (change h)" "never_throws (try_op m)"
  by (auto simp: never_throws_def try_op_def op_simps split: prod.splits)

lemma never_throwsD: "never_throws m \<Longrightarrow> m s = (r, s') \<Longrightarrow> \<exists>a. r = Inr a"
  by (metis fst_conv never_throws_def)

lemma zoom_same_other: "(\<And>t s. g (upd (\<lambda>_. t) s) = g s) \<Longrightarrow> always (same g) (zoom get upd m)"
  by (auto simp: always_def zoom_def same_def split: prod.splits)

text \<open>The loop makes at least one and at most \<open>n\<close> attempts; it throws the last attempt's error.\<close>

lemma retry_loop_returns:
  "retry_loop n fn s = (Inr a, s') \<Longrightarrow> \<exists>t. fn t = (Inr a, s')"
proof (induction n arbitrary: s)
  case (Suc n)
  then show ?case by (auto simp: catch_op_def op_simps split: prod.splits sum.splits if_splits)
qed (simp add: op_simps)

lemma retry_loop_gives: "gives (retry_loop n fn) a \<Longrightarrow> gives fn a"
  unfolding gives_def by (blast dest: retry_loop_returns)

end
