(* ===== verification/Signer_Policy.thy ===== *)
theory Signer_Policy
  imports Wallet_Lists
begin

text \<open>
  The signer's policy engine: \<^verbatim>\<open>signer/policy.ts\<close>, the lookup table resolution of
  \<^verbatim>\<open>signer/alt-resolver.ts\<close> and the allowlists of \<^verbatim>\<open>signer/config.ts\<close>. The Solana library (parsing
  transactions and lookup tables, deriving associated token accounts) and the RPC node are not part
  of the program: they are the records \<open>web3\<close> and \<open>signer_rpc\<close> the definitions take, unconstrained.
\<close>

section \<open>Transactions\<close>

record compiled_ix =
  programIdIndex :: nat
  accountKeyIndexes :: "nat list"
  cix_data :: "byte list"

record message =
  staticAccountKeys :: "pubkey list"
  addressTableLookups :: "pubkey list" \<comment> \<open>the table keys; the indices are read by the library only\<close>
  compiledInstructions :: "compiled_ix list"

record legacy_ix =
  lix_programId :: pubkey
  lix_keys :: "pubkey list"
  lix_data :: "byte list"

datatype tx_type = versioned | legacy

datatype transaction = VersionedTx message | LegacyTx "legacy_ix list"

record web3 =
  deserialize_versioned :: "byte list \<Rightarrow> message result"
  transaction_from :: "byte list \<Rightarrow> legacy_ix list result"
  alt_addresses :: "byte list \<Rightarrow> pubkey list result"
  getAccountKeys :: "message \<Rightarrow> (pubkey \<times> pubkey list) list \<Rightarrow> pubkey list result"
  ata_address :: "pubkey \<Rightarrow> pubkey \<Rightarrow> pubkey \<Rightarrow> pubkey result"
  valid_pubkey :: "string \<Rightarrow> bool"

record sim_result =
  sim_err :: bool
  sim_logs :: "string list option"

record signer_rpc =
  getMultipleAccountsInfo :: "pubkey list \<Rightarrow> byte list option list result"
  getAccountInfo :: "pubkey \<Rightarrow> pubkey option result" \<comment> \<open>the owner of an existing account\<close>
  simulateTransaction :: "transaction \<Rightarrow> sim_result result"

section \<open>Configuration\<close>

definition DEFAULT_BYREAL :: pubkey where
  "DEFAULT_BYREAL = ''REALQqNEomY6cQGZJUGwywTBD2UmDT32rZcNnfxQ5N2''"

definition TOKEN_PROGRAM :: pubkey where
  "TOKEN_PROGRAM = ''TokenkegQfeZyiNwAJbNbGKPFXCWuBvf9Ss623VQ5DA''"

definition TOKEN_2022 :: pubkey where
  "TOKEN_2022 = ''TokenzQdBNbLqP5VEhdkAS6EPFLC1PHnBqCXEpPxuEb''"

definition SYSTEM_PROGRAM :: pubkey where
  "SYSTEM_PROGRAM = ''11111111111111111111111111111111''"

definition JUPITER_PROGRAM :: pubkey where
  "JUPITER_PROGRAM = ''JUP6LkbZbjS1jKKwapdHNy74zcZ3tLUZoi5QNyVTaV4''"

definition env_or :: "string option \<Rightarrow> string \<Rightarrow> string" where
  "env_or v d = (case v of Some s \<Rightarrow> if s = [] then d else s | None \<Rightarrow> d)"

record signer_config =
  programAllowlist :: "string jsset"
  destinationWhitelist :: "string jsset"
  byreal_env :: "string option"

text \<open>The literal entries of the program allowlist, after the configurable Byreal program.\<close>

definition PROGRAM_ALLOWLIST_TAIL :: "string list" where
  "PROGRAM_ALLOWLIST_TAIL =
     [''whirLbMiicVdio4qvUfM5KAg6Ct8VwpYzGff3uctyCc'',
      ''LBUZKhRxPF3XUpBCjp4YzTKgLccjZhTSDM9YuVaPwxo'',
      ''cpamdpZCGKUy5JxQXB4dcpGPiikHawvSWAd6mEn1sGG'',
      ''HpNfyc2Saw7RKkQd8nEL4khUcuPhQ7WwY1B2qjx8jxFq'',
      ''JUP6LkbZbjS1jKKwapdHNy74zcZ3tLUZoi5QNyVTaV4'',
      ''11111111111111111111111111111111'',
      ''ComputeBudget111111111111111111111111111111'',
      ''MemoSq4gqABAXKb96qnH8TysNcWxMyWCqXgDLGmfcHr'',
      ''TokenkegQfeZyiNwAJbNbGKPFXCWuBvf9Ss623VQ5DA'',
      ''TokenzQdBNbLqP5VEhdkAS6EPFLC1PHnBqCXEpPxuEb'',
      ''ATokenGPvbdGVxr1b2hvZbsiqW5xWH25efTNsLJA8knL'',
      ''AddressLookupTab1e1111111111111111111111111'',
      ''metaqbxxUerdq28cj1RbAWkYQm3ybzjb6a8bt518x1s'',
      ''PhoeNiXZ8ByJGLkxNfZRnkUfjvmuYqLR89jjFHGqdXY'',
      ''srmqPvymJeFKQ4zGQed1GFppgkRHL9kaELCbyksJtPX'',
      ''opnb2LAfJYbRMAHHvqjCwQxanZn7ReEHp1k81EQMQvR'',
      ''MarBmsSgKXdrN1egZf5sqe1TMai9K1rChYNDJgjq7aD'',
      ''CAMMCzo5YL8w4VFF8KVHrK22GGUsp5VTaW7grrKgrWqK'',
      ''RVKd61ztZW9GUwhRbbLoYVRE5Xf1B2tVscKqwZqXgEr'',
      ''675kPX9MHTjS2zt1qfr1NYHuzeLXfQM9H24wFSUt1Mp8'',
      ''whirLbMiicVdio4qvUfM5KAg6Ct8VwpYzGff3uctyCc'',
      ''LBUZKhRxPF3XUpBCjp4YzTKgLccjZhTSDM9YuVaPwxo'',
      ''Eo7WjKq67rjJQSZxS6z3YkapzY3eMj6Xy8X5EQVn5UaB'',
      ''DjVE6JNiYqPL2QXyCUUh8rNjHrbz9hXHNYt99MQ59qw1'',
      ''SSwpkEEcbUqx4vtoEByFjSkhKdCT862DNVb52nZg1UZ'',
      ''DecZY86MU5Gj7kppfUCEmd4LbXXuyZH1yHaP2NTqdiZB'',
      ''MERLuDFBMmsHnsBPZw2sDQZHvXFMwp8EdjudcU2HKky'',
      ''SSwapUtytfBdBn1b9NUGG6foMVPtcWgpRU32HToDUZr'',
      ''So1endDq2YkqhipRh3WViPa8hFMqshtxtZTV7LJHZ1K'',
      ''pfeeUxB6jkeY1Hxd7CsFCAjcbHA9rWtchMGdZ6VojVZ'']"

definition signerConfig :: "string option \<Rightarrow> string option \<Rightarrow> signer_config" where
  "signerConfig byreal_id dest_whitelist =
     \<lparr>programAllowlist = new_set (env_or byreal_id DEFAULT_BYREAL # PROGRAM_ALLOWLIST_TAIL),
      destinationWhitelist =
        new_set (filter (\<lambda>s. length s > 0) (map trim (split_on (CHR '','') (env_or dest_whitelist '''')))),
      byreal_env = byreal_id\<rparr>"

definition DEX_PROGRAMS :: "signer_config \<Rightarrow> string jsset" where
  "DEX_PROGRAMS cfg = new_set
     [env_or (byreal_env cfg) DEFAULT_BYREAL, ''whirLbMiicVdio4qvUfM5KAg6Ct8VwpYzGff3uctyCc'',
      ''LBUZKhRxPF3XUpBCjp4YzTKgLccjZhTSDM9YuVaPwxo'', ''cpamdpZCGKUy5JxQXB4dcpGPiikHawvSWAd6mEn1sGG'',
      ''HpNfyc2Saw7RKkQd8nEL4khUcuPhQ7WwY1B2qjx8jxFq'', ''JUP6LkbZbjS1jKKwapdHNy74zcZ3tLUZoi5QNyVTaV4'']"

section \<open>Lookup tables\<close>

definition nth_opt :: "'a list \<Rightarrow> nat \<Rightarrow> 'a option" where
  "nth_opt xs i = (if i < length xs then Some (xs ! i) else None)"

fun resolve_tables ::
  "web3 \<Rightarrow> pubkey list \<Rightarrow> nat \<Rightarrow> byte list option list \<Rightarrow> (pubkey \<times> pubkey list) list result" where
  "resolve_tables w [] i infos = Inr []"
| "resolve_tables w (k # ks) i infos =
     (case Option.bind (nth_opt infos i) (\<lambda>x. x) of
        None \<Rightarrow> Inl (Error (''ALT account not found: '' @ k))
      | Some bytes \<Rightarrow>
          bind_result (alt_addresses w bytes) (\<lambda>addrs.
          bind_result (resolve_tables w ks (Suc i) infos) (\<lambda>rest. Inr ((k, addrs) # rest))))"

definition resolveALTs :: "web3 \<Rightarrow> signer_rpc \<Rightarrow> message \<Rightarrow> pubkey list result" where
  "resolveALTs w rpc msg =
     (let lookups = addressTableLookups msg
      in if lookups = [] then Inr (staticAccountKeys msg)
         else bind_result (getMultipleAccountsInfo rpc lookups) (\<lambda>infos.
              bind_result (resolve_tables w lookups 0 infos) (\<lambda>tables. getAccountKeys w msg tables)))"

definition extractProgramIds :: "pubkey list \<Rightarrow> message \<Rightarrow> pubkey list" where
  "extractProgramIds allKeys msg =
     new_set (List.map_filter (\<lambda>ix. nth_opt allKeys (programIdIndex ix)) (compiledInstructions msg))"

section \<open>Transfer destinations\<close>

datatype reject_reason =
    ALT_resolution_failed js_error
  | Unknown_program pubkey
  | SetAuthority_blocked
  | Unknown_invoked_program pubkey
  | Standalone_transfer pubkey

datatype PolicyResult = Allowed | Rejected reject_reason

definition isAtaForWhitelistedOwner :: "web3 \<Rightarrow> signer_config \<Rightarrow> string \<Rightarrow> string \<Rightarrow> string \<Rightarrow> bool" where
  "isAtaForWhitelistedOwner w cfg destAddress mintAddress tokenProgramId \<longleftrightarrow>
     valid_pubkey w destAddress \<and> valid_pubkey w mintAddress \<and> valid_pubkey w tokenProgramId \<and>
     list_ex (\<lambda>owner. valid_pubkey w owner \<and>
                ata_address w owner tokenProgramId mintAddress = Inr destAddress) (destinationWhitelist cfg)"

definition checkTransferDestination ::
  "web3 \<Rightarrow> signer_rpc \<Rightarrow> signer_config \<Rightarrow> string \<Rightarrow> bool \<Rightarrow> string option \<Rightarrow> string \<Rightarrow> PolicyResult" where
  "checkTransferDestination w rpc cfg destAddress hasDexInstruction mintAddress tokenProgramId =
     (if destAddress \<in> set (destinationWhitelist cfg) then Allowed
      else if (case mintAddress of
                 Some m \<Rightarrow> m \<noteq> [] \<and> isAtaForWhitelistedOwner w cfg destAddress m tokenProgramId
               | None \<Rightarrow> False) then Allowed
      else if hasDexInstruction then Allowed
      else (case (if valid_pubkey w destAddress then getAccountInfo rpc destAddress else Inl (Error ''Invalid public key'')) of
              Inr (Some owner) \<Rightarrow>
                if owner \<noteq> SYSTEM_PROGRAM \<and> owner \<in> set (programAllowlist cfg) then Allowed
                else Rejected (Standalone_transfer destAddress)
            | _ \<Rightarrow> Rejected (Standalone_transfer destAddress)))"

section \<open>Static checks\<close>

definition SPL_TRANSFER :: nat where "SPL_TRANSFER = 3"
definition SPL_APPROVE :: nat where "SPL_APPROVE = 4"
definition SPL_SET_AUTHORITY :: nat where "SPL_SET_AUTHORITY = 6"
definition SPL_TRANSFER_CHECKED :: nat where "SPL_TRANSFER_CHECKED = 12"

fun check_programs :: "signer_config \<Rightarrow> pubkey list \<Rightarrow> PolicyResult" where
  "check_programs cfg [] = Allowed"
| "check_programs cfg (pid # rest) =
     (if pid \<notin> set (programAllowlist cfg) then Rejected (Unknown_program pid) else check_programs cfg rest)"

text \<open>
  What one SPL token instruction leads to: its program, its first data byte and its accounts (with a
  gap where an index is out of range). Both loops apply it to their kind of instruction.
\<close>

definition check_spl ::
  "web3 \<Rightarrow> signer_rpc \<Rightarrow> signer_config \<Rightarrow> bool \<Rightarrow> pubkey option \<Rightarrow> byte option \<Rightarrow> (nat \<Rightarrow> pubkey option) \<Rightarrow> PolicyResult" where
  "check_spl w rpc cfg hasDex program disc account =
     (case program of
        None \<Rightarrow> Allowed
      | Some programId \<Rightarrow>
          if programId \<noteq> TOKEN_PROGRAM \<and> programId \<noteq> TOKEN_2022 then Allowed
          else if disc = Some SPL_TRANSFER \<or> disc = Some SPL_TRANSFER_CHECKED then
            (case account (if disc = Some SPL_TRANSFER then 1 else 2) of
               Some dest \<Rightarrow>
                 if dest = [] then Allowed
                 else checkTransferDestination w rpc cfg dest hasDex
                        (if disc = Some SPL_TRANSFER_CHECKED then account 1 else None) programId
             | None \<Rightarrow> Allowed)
          else if disc = Some SPL_SET_AUTHORITY then Rejected SetAuthority_blocked
          else Allowed)"

definition compiled_account :: "pubkey list \<Rightarrow> compiled_ix \<Rightarrow> nat \<Rightarrow> pubkey option" where
  "compiled_account allKeys ix i = Option.bind (nth_opt (accountKeyIndexes ix) i) (nth_opt allKeys)"

fun check_compiled ::
  "web3 \<Rightarrow> signer_rpc \<Rightarrow> signer_config \<Rightarrow> bool \<Rightarrow> pubkey list \<Rightarrow> compiled_ix list \<Rightarrow> PolicyResult" where
  "check_compiled w rpc cfg hasDex allKeys [] = Allowed"
| "check_compiled w rpc cfg hasDex allKeys (ix # rest) =
     (case check_spl w rpc cfg hasDex (nth_opt allKeys (programIdIndex ix)) (nth_opt (cix_data ix) 0)
             (compiled_account allKeys ix) of
        Allowed \<Rightarrow> check_compiled w rpc cfg hasDex allKeys rest
      | r \<Rightarrow> r)"

fun check_legacy ::
  "web3 \<Rightarrow> signer_rpc \<Rightarrow> signer_config \<Rightarrow> bool \<Rightarrow> legacy_ix list \<Rightarrow> PolicyResult" where
  "check_legacy w rpc cfg hasDex [] = Allowed"
| "check_legacy w rpc cfg hasDex (ix # rest) =
     (case check_spl w rpc cfg hasDex (Some (lix_programId ix)) (nth_opt (lix_data ix) 0) (nth_opt (lix_keys ix)) of
        Allowed \<Rightarrow> check_legacy w rpc cfg hasDex rest
      | r \<Rightarrow> r)"

section \<open>Simulation\<close>

definition is_word_char :: "char \<Rightarrow> bool" where
  "is_word_char c \<longleftrightarrow> (let n = of_char c :: nat
     in (48 \<le> n \<and> n \<le> 57) \<or> (65 \<le> n \<and> n \<le> 90) \<or> (97 \<le> n \<and> n \<le> 122) \<or> n = 95)"

text \<open>
  The leftmost match of \<^verbatim>\<open>/Program (\w{32,44}) invoke/\<close>: since a space is no word character, the group is
  the whole run of word characters.
\<close>

fun invoke_match :: "string \<Rightarrow> string option" where
  "invoke_match [] = None"
| "invoke_match (c # s) =
     (let t = drop 8 (c # s); w = takeWhile is_word_char t
      in if starts_with (c # s) ''Program '' \<and> 32 \<le> length w \<and> length w \<le> 44 \<and>
            starts_with (drop (length w) t) '' invoke''
         then Some w else invoke_match s)"

definition extractInvokedPrograms :: "string list \<Rightarrow> string list" where
  "extractInvokedPrograms logs = new_set (List.map_filter invoke_match logs)"

definition check_simulation ::
  "signer_config \<Rightarrow> pubkey list \<Rightarrow> sim_result result \<Rightarrow> PolicyResult" where
  "check_simulation cfg programIds sim =
     (case sim of
        Inl _ \<Rightarrow> Allowed
      | Inr r \<Rightarrow>
          (case sim_logs r of
             Some logs \<Rightarrow>
               if JUPITER_PROGRAM \<in> set programIds then Allowed
               else (case find (\<lambda>pid. pid \<notin> set (programAllowlist cfg)) (extractInvokedPrograms logs) of
                       Some pid \<Rightarrow> Rejected (Unknown_invoked_program pid)
                     | None \<Rightarrow> Allowed)
           | None \<Rightarrow> Allowed))"

section \<open>The policy\<close>

definition and_then :: "PolicyResult \<Rightarrow> PolicyResult \<Rightarrow> PolicyResult" where
  "and_then a b = (case a of Allowed \<Rightarrow> b | r \<Rightarrow> r)"

definition checkPolicy ::
  "web3 \<Rightarrow> signer_rpc \<Rightarrow> signer_config \<Rightarrow> byte list \<Rightarrow> tx_type \<Rightarrow> PolicyResult result" where
  "checkPolicy w rpc cfg txBytes type =
     (case type of
        versioned \<Rightarrow>
          bind_result (deserialize_versioned w txBytes) (\<lambda>msg.
            (case resolveALTs w rpc msg of
               Inl e \<Rightarrow> Inr (Rejected (ALT_resolution_failed e))
             | Inr allKeys \<Rightarrow>
                 (let programIds = extractProgramIds allKeys msg;
                      hasDex = list_ex (\<lambda>p. p \<in> set (DEX_PROGRAMS cfg)) programIds
                  in Inr (and_then (check_programs cfg programIds)
                         (and_then (check_compiled w rpc cfg hasDex allKeys (compiledInstructions msg))
                           (check_simulation cfg programIds (simulateTransaction rpc (VersionedTx msg))))))))
      | legacy \<Rightarrow>
          bind_result (transaction_from w txBytes) (\<lambda>ixs.
            (let programIds = map lix_programId ixs;
                 hasDex = list_ex (\<lambda>p. p \<in> set (DEX_PROGRAMS cfg)) programIds
             in Inr (and_then (check_programs cfg programIds)
                    (and_then (check_legacy w rpc cfg hasDex ixs)
                      (check_simulation cfg programIds (simulateTransaction rpc (LegacyTx ixs))))))))"

section \<open>Lemmas\<close>

lemma and_then_Allowed [simp]: "and_then a b = Allowed \<longleftrightarrow> a = Allowed \<and> b = Allowed"
  by (cases a) (auto simp: and_then_def)

lemma check_programs_Allowed: "check_programs cfg ps = Allowed \<longleftrightarrow> set ps \<subseteq> set (programAllowlist cfg)"
  by (induction ps) auto

lemma check_compiled_Allowed:
  "check_compiled w rpc cfg hasDex keys ixs = Allowed \<longleftrightarrow>
   (\<forall>ix \<in> set ixs. check_spl w rpc cfg hasDex (nth_opt keys (programIdIndex ix)) (nth_opt (cix_data ix) 0)
      (compiled_account keys ix) = Allowed)"
  by (induction ixs) (auto split: PolicyResult.splits)

lemma check_legacy_Allowed:
  "check_legacy w rpc cfg hasDex ixs = Allowed \<longleftrightarrow>
   (\<forall>ix \<in> set ixs. check_spl w rpc cfg hasDex (Some (lix_programId ix)) (nth_opt (lix_data ix) 0)
      (nth_opt (lix_keys ix)) = Allowed)"
  by (induction ixs) (auto split: PolicyResult.splits)

text \<open>
  The destinations a transfer may go to. The last case is wide: the token programs are on the program
  allowlist and own every token account, so any existing token account is one of them.
\<close>

definition dest_ok :: "web3 \<Rightarrow> signer_rpc \<Rightarrow> signer_config \<Rightarrow> bool \<Rightarrow> pubkey \<Rightarrow> pubkey option \<Rightarrow> pubkey \<Rightarrow> bool" where
  "dest_ok w rpc cfg hasDex dest mint program \<longleftrightarrow>
     dest \<in> set (destinationWhitelist cfg) \<or>
     (\<exists>m. mint = Some m \<and> m \<noteq> [] \<and> isAtaForWhitelistedOwner w cfg dest m program) \<or>
     hasDex \<or>
     (\<exists>owner. valid_pubkey w dest \<and> getAccountInfo rpc dest = Inr (Some owner) \<and> owner \<noteq> SYSTEM_PROGRAM \<and>
        owner \<in> set (programAllowlist cfg))"

lemma checkTransferDestination_Allowed:
  "checkTransferDestination w rpc cfg dest hasDex mint program = Allowed \<longleftrightarrow>
   dest_ok w rpc cfg hasDex dest mint program"
  by (auto simp: checkTransferDestination_def dest_ok_def split: if_splits option.splits sum.splits)

text \<open>
  What the policy demands of one instruction: an allowlisted program, and of a token program's
  instruction that it is no \<^verbatim>\<open>SetAuthority\<close> and that a transfer goes to an acceptable destination.
  Nothing is demanded of an \<^verbatim>\<open>Approve\<close>, nor of an instruction of any other program, the system
  program's native transfers among them.
\<close>

definition ix_ok ::
  "web3 \<Rightarrow> signer_rpc \<Rightarrow> signer_config \<Rightarrow> bool \<Rightarrow> pubkey \<Rightarrow> byte option \<Rightarrow> (nat \<Rightarrow> pubkey option) \<Rightarrow> bool" where
  "ix_ok w rpc cfg hasDex program disc account \<longleftrightarrow>
     program \<in> set (programAllowlist cfg) \<and>
     (program \<in> {TOKEN_PROGRAM, TOKEN_2022} \<longrightarrow>
        disc \<noteq> Some SPL_SET_AUTHORITY \<and>
        (\<forall>dest. disc = Some SPL_TRANSFER \<and> account 1 = Some dest \<and> dest \<noteq> [] \<longrightarrow>
           dest_ok w rpc cfg hasDex dest None program) \<and>
        (\<forall>dest. disc = Some SPL_TRANSFER_CHECKED \<and> account 2 = Some dest \<and> dest \<noteq> [] \<longrightarrow>
           dest_ok w rpc cfg hasDex dest (account 1) program))"

lemma discs_distinct [simp]:
  "SPL_TRANSFER \<noteq> SPL_SET_AUTHORITY" "SPL_TRANSFER_CHECKED \<noteq> SPL_SET_AUTHORITY"
  "SPL_TRANSFER \<noteq> SPL_TRANSFER_CHECKED" "SPL_TRANSFER_CHECKED \<noteq> SPL_TRANSFER" "SPL_SET_AUTHORITY \<noteq> SPL_TRANSFER"
  "SPL_SET_AUTHORITY \<noteq> SPL_TRANSFER_CHECKED" "SPL_APPROVE \<noteq> SPL_TRANSFER" "SPL_APPROVE \<noteq> SPL_TRANSFER_CHECKED"
  "SPL_APPROVE \<noteq> SPL_SET_AUTHORITY"
  by (simp_all add: SPL_TRANSFER_def SPL_SET_AUTHORITY_def SPL_TRANSFER_CHECKED_def SPL_APPROVE_def)

lemma check_spl_ok:
  "p \<in> set (programAllowlist cfg) \<Longrightarrow>
   check_spl w rpc cfg hasDex (Some p) disc account = Allowed \<longleftrightarrow> ix_ok w rpc cfg hasDex p disc account"
  by (auto simp: check_spl_def ix_ok_def checkTransferDestination_Allowed split: option.splits)

lemma check_spl_no_program [simp]: "check_spl w rpc cfg hasDex None disc account = Allowed"
  by (simp add: check_spl_def)

lemma ix_ok_program: "ix_ok w rpc cfg hasDex p disc account \<Longrightarrow> p \<in> set (programAllowlist cfg)"
  by (simp add: ix_ok_def)

lemma extractProgramIds_iff:
  "p \<in> set (extractProgramIds keys msg) \<longleftrightarrow>
   (\<exists>ix \<in> set (compiledInstructions msg). nth_opt keys (programIdIndex ix) = Some p)"
  by (force simp: extractProgramIds_def List.map_filter_def)

text \<open>The two static checks together, for each kind of transaction.\<close>

lemma static_compiled_Allowed:
  "check_programs cfg (extractProgramIds keys msg) = Allowed \<and>
   check_compiled w rpc cfg hasDex keys (compiledInstructions msg) = Allowed \<longleftrightarrow>
   (\<forall>ix \<in> set (compiledInstructions msg). \<forall>p. nth_opt keys (programIdIndex ix) = Some p \<longrightarrow>
      ix_ok w rpc cfg hasDex p (nth_opt (cix_data ix) 0) (compiled_account keys ix))"
  (is "?static \<longleftrightarrow> ?each")
proof
  assume ?static
  then show ?each
    using check_spl_ok extractProgramIds_iff
    by (fastforce simp: check_programs_Allowed check_compiled_Allowed)
next
  assume each: ?each
  then have "set (extractProgramIds keys msg) \<subseteq> set (programAllowlist cfg)"
    using ix_ok_program by (fastforce simp: extractProgramIds_iff)
  moreover have "check_spl w rpc cfg hasDex (nth_opt keys (programIdIndex ix)) (nth_opt (cix_data ix) 0)
      (compiled_account keys ix) = Allowed" if ix: "ix \<in> set (compiledInstructions msg)" for ix
  proof (cases "nth_opt keys (programIdIndex ix)")
    case (Some p)
    then show ?thesis using each ix check_spl_ok ix_ok_program by metis
  qed simp
  ultimately show ?static by (simp add: check_programs_Allowed check_compiled_Allowed)
qed

lemma static_legacy_Allowed:
  "check_programs cfg (map lix_programId ixs) = Allowed \<and> check_legacy w rpc cfg hasDex ixs = Allowed \<longleftrightarrow>
   (\<forall>ix \<in> set ixs. ix_ok w rpc cfg hasDex (lix_programId ix) (nth_opt (lix_data ix) 0) (nth_opt (lix_keys ix)))"
  using check_spl_ok ix_ok_program
  by (fastforce simp: check_programs_Allowed check_legacy_Allowed)

definition sim_ok :: "signer_config \<Rightarrow> bool \<Rightarrow> sim_result result \<Rightarrow> bool" where
  "sim_ok cfg jupiter sim \<longleftrightarrow>
     (\<forall>r logs. sim = Inr r \<and> sim_logs r = Some logs \<and> \<not> jupiter \<longrightarrow>
        set (extractInvokedPrograms logs) \<subseteq> set (programAllowlist cfg))"

lemma check_simulation_Allowed:
  "check_simulation cfg ps sim = Allowed \<longleftrightarrow> sim_ok cfg (JUPITER_PROGRAM \<in> set ps) sim"
  by (auto simp: check_simulation_def sim_ok_def find_None_iff find_Some_iff subset_iff
      split: sum.splits option.splits intro: nth_mem)

section \<open>Properties\<close>

text \<open>
  C5: exactly what the policy allows. A versioned transaction is allowed if and only if it parses, its
  lookup tables resolve, every instruction whose program index is in range is acceptable, and the
  simulation is; a legacy transaction if and only if it parses, every instruction is acceptable and the
  simulation is. An instruction is acceptable if its program is allowlisted and, for the two token
  programs, if it is no \<^verbatim>\<open>SetAuthority\<close> and a \<^verbatim>\<open>Transfer\<close> or \<^verbatim>\<open>TransferChecked\<close> goes to a whitelisted
  address, to the associated token account of a whitelisted owner, to any existing account owned by an
  allowlisted program other than the system program (which every token account is), or anywhere at all
  beside a DEX instruction. \<^verbatim>\<open>Approve\<close> and the instructions of all other programs, native SOL transfers
  among them, are not looked at. The simulation stops a transaction only if it returned, with a log, the
  transaction does not call Jupiter, and the log shows an invoked program that is not allowlisted.
\<close>

theorem policy_exact:
  "(checkPolicy w rpc cfg txBytes versioned = Inr Allowed \<longleftrightarrow>
     (\<exists>msg keys. deserialize_versioned w txBytes = Inr msg \<and> resolveALTs w rpc msg = Inr keys \<and>
       (\<forall>ix \<in> set (compiledInstructions msg). \<forall>p. nth_opt keys (programIdIndex ix) = Some p \<longrightarrow>
          ix_ok w rpc cfg (\<exists>q \<in> set (extractProgramIds keys msg). q \<in> set (DEX_PROGRAMS cfg)) p
            (nth_opt (cix_data ix) 0) (compiled_account keys ix)) \<and>
       sim_ok cfg (JUPITER_PROGRAM \<in> set (extractProgramIds keys msg)) (simulateTransaction rpc (VersionedTx msg)))) \<and>
   (checkPolicy w rpc cfg txBytes legacy = Inr Allowed \<longleftrightarrow>
     (\<exists>ixs. transaction_from w txBytes = Inr ixs \<and>
       (\<forall>ix \<in> set ixs. ix_ok w rpc cfg (\<exists>q \<in> set ixs. lix_programId q \<in> set (DEX_PROGRAMS cfg))
          (lix_programId ix) (nth_opt (lix_data ix) 0) (nth_opt (lix_keys ix))) \<and>
       sim_ok cfg (JUPITER_PROGRAM \<in> lix_programId ` set ixs) (simulateTransaction rpc (LegacyTx ixs))))"
  (is "?versioned \<and> ?legacy")
proof
  show ?versioned
  proof (cases "deserialize_versioned w txBytes")
    case (Inr msg)
    then show ?thesis
      by (cases "resolveALTs w rpc msg") (simp_all add: checkPolicy_def Let_def check_simulation_Allowed
          list_ex_iff static_compiled_Allowed [symmetric] conj_assoc)
  qed (simp add: checkPolicy_def)
  show ?legacy
    by (auto simp: checkPolicy_def bind_result_eq_Inr_iff Let_def check_simulation_Allowed list_ex_iff
        static_legacy_Allowed [symmetric])
qed

text \<open>
  \<^verbatim>\<open>SetAuthority\<close> is never signed. Any versioned or legacy transaction that parses, resolves and
  contains a \<^verbatim>\<open>SetAuthority\<close> of either token program is rejected, whatever else it contains.
\<close>

theorem set_authority_rejected:
  "(transaction_from w txBytes = Inr ixs \<and> ix \<in> set ixs \<and> lix_programId ix \<in> {TOKEN_PROGRAM, TOKEN_2022} \<and>
     nth_opt (lix_data ix) 0 = Some SPL_SET_AUTHORITY \<longrightarrow>
     (\<exists>r. checkPolicy w rpc cfg txBytes legacy = Inr (Rejected r))) \<and>
   (deserialize_versioned w txBytes = Inr msg \<and> resolveALTs w rpc msg = Inr keys \<and>
     cix \<in> set (compiledInstructions msg) \<and>
     nth_opt keys (programIdIndex cix) \<in> {Some TOKEN_PROGRAM, Some TOKEN_2022} \<and>
     nth_opt (cix_data cix) 0 = Some SPL_SET_AUTHORITY \<longrightarrow>
     (\<exists>r. checkPolicy w rpc cfg txBytes versioned = Inr (Rejected r)))"
proof (intro conjI impI; elim conjE)
  assume t: "transaction_from w txBytes = Inr ixs"
    and ix: "ix \<in> set ixs" "lix_programId ix \<in> {TOKEN_PROGRAM, TOKEN_2022}"
      "nth_opt (lix_data ix) 0 = Some SPL_SET_AUTHORITY"
  have "check_legacy w rpc cfg hasDex ixs \<noteq> Allowed" for hasDex
    using ix by (auto simp: check_legacy_Allowed check_spl_def intro!: bexI [of _ ix])
  with t show "\<exists>r. checkPolicy w rpc cfg txBytes legacy = Inr (Rejected r)"
    by (auto simp: checkPolicy_def Let_def and_then_def split: PolicyResult.split)
next
  assume t: "deserialize_versioned w txBytes = Inr msg" "resolveALTs w rpc msg = Inr keys"
    and ix: "cix \<in> set (compiledInstructions msg)"
      "nth_opt keys (programIdIndex cix) \<in> {Some TOKEN_PROGRAM, Some TOKEN_2022}"
      "nth_opt (cix_data cix) 0 = Some SPL_SET_AUTHORITY"
  have "check_compiled w rpc cfg hasDex keys (compiledInstructions msg) \<noteq> Allowed" for hasDex
    using ix by (auto simp: check_compiled_Allowed check_spl_def intro!: bexI [of _ cix])
  with t show "\<exists>r. checkPolicy w rpc cfg txBytes versioned = Inr (Rejected r)"
    by (auto simp: checkPolicy_def Let_def and_then_def split: PolicyResult.split)
qed

text \<open>Instructions that move value to, or put it at the disposal of, somebody not vouched for.\<close>

definition unvouched :: "web3 \<Rightarrow> signer_rpc \<Rightarrow> legacy_ix \<Rightarrow> bool" where
  "unvouched w rpc ix \<longleftrightarrow>
     lix_programId ix = SYSTEM_PROGRAM \<or>
     lix_programId ix \<in> {TOKEN_PROGRAM, TOKEN_2022} \<and>
       (nth_opt (lix_data ix) 0 = Some SPL_APPROVE \<or>
        nth_opt (lix_data ix) 0 \<in> {Some SPL_TRANSFER, Some SPL_TRANSFER_CHECKED} \<and>
          (\<exists>dest owner. nth_opt (lix_keys ix) (if nth_opt (lix_data ix) 0 = Some SPL_TRANSFER then 1 else 2) = Some dest \<and>
             valid_pubkey w dest \<and> getAccountInfo rpc dest = Inr (Some owner) \<and> owner \<in> {TOKEN_PROGRAM, TOKEN_2022}))"

lemma own_programs_allowlisted:
  "{SYSTEM_PROGRAM, TOKEN_PROGRAM, TOKEN_2022} \<subseteq> set (programAllowlist (signerConfig b d))"
  by (simp add: signerConfig_def PROGRAM_ALLOWLIST_TAIL_def SYSTEM_PROGRAM_def TOKEN_PROGRAM_def TOKEN_2022_def)

lemma own_programs_distinct [simp]:
  "TOKEN_PROGRAM \<noteq> SYSTEM_PROGRAM" "TOKEN_2022 \<noteq> SYSTEM_PROGRAM"
  "SYSTEM_PROGRAM \<noteq> TOKEN_PROGRAM" "SYSTEM_PROGRAM \<noteq> TOKEN_2022"
  by (simp_all add: SYSTEM_PROGRAM_def TOKEN_PROGRAM_def TOKEN_2022_def)

lemma unvouched_ix_ok:
  assumes "unvouched w rpc ix" and own: "{SYSTEM_PROGRAM, TOKEN_PROGRAM, TOKEN_2022} \<subseteq> set (programAllowlist cfg)"
  shows "ix_ok w rpc cfg hasDex (lix_programId ix) (nth_opt (lix_data ix) 0) (nth_opt (lix_keys ix))"
  using assms discs_distinct [symmetric] unfolding unvouched_def ix_ok_def dest_ok_def by auto

lemma empty_whitelist: "destinationWhitelist (signerConfig b None) = []"
  by (simp add: signerConfig_def env_or_def new_set_def trim_def)

text \<open>
  C7: transfers nobody vouched for are signed. With the shipped configuration and no destination
  whitelist, a legacy transaction is allowed whenever each of its instructions is one of these: a
  \<^verbatim>\<open>Transfer\<close> or \<^verbatim>\<open>TransferChecked\<close> of any amount to an existing token account, whoever owns it; an
  \<^verbatim>\<open>Approve\<close> of any delegate; any instruction of the system program, such as a native SOL transfer to
  any address; and the log of the simulation, if there is one, shows no other programs. The README
  says that such standalone transfers need a whitelisted destination and are never signed otherwise.
\<close>

theorem unvouched_transfers_signed:
  assumes "transaction_from w txBytes = Inr ixs" and "\<forall>ix \<in> set ixs. unvouched w rpc ix"
    and "\<forall>sim logs. simulateTransaction rpc (LegacyTx ixs) = Inr sim \<and> sim_logs sim = Some logs \<longrightarrow>
      set (extractInvokedPrograms logs) \<subseteq> {SYSTEM_PROGRAM, TOKEN_PROGRAM, TOKEN_2022}"
  shows "checkPolicy w rpc (signerConfig byreal None) txBytes legacy = Inr Allowed \<and>
    destinationWhitelist (signerConfig byreal None) = []"
proof -
  have "sim_ok (signerConfig byreal None) b (simulateTransaction rpc (LegacyTx ixs))" for b
    using assms(3) own_programs_allowlisted unfolding sim_ok_def by blast
  then show ?thesis
    using assms(1,2) unvouched_ix_ok [OF _ own_programs_allowlisted] static_legacy_Allowed
    by (auto simp: checkPolicy_def Let_def check_simulation_Allowed empty_whitelist)
qed

section \<open>A library and a node for the witnesses\<close>

definition demo_ix :: legacy_ix where
  "demo_ix = \<lparr>lix_programId = TOKEN_PROGRAM, lix_keys = [''s'', ''d'', ''a''], lix_data = SPL_TRANSFER # [1]\<rparr>"

definition demo_web3 :: "message \<Rightarrow> legacy_ix list \<Rightarrow> web3" where
  "demo_web3 msg ixs = \<lparr>deserialize_versioned = (\<lambda>_. Inr msg), transaction_from = (\<lambda>_. Inr ixs),
     alt_addresses = (\<lambda>_. Inr []), getAccountKeys = (\<lambda>m _. Inr (staticAccountKeys m)),
     ata_address = (\<lambda>_ _ _. Inl TypeError), valid_pubkey = (\<lambda>_. True)\<rparr>"

definition demo_node :: signer_rpc where
  "demo_node = \<lparr>getMultipleAccountsInfo = (\<lambda>_. Inr []), getAccountInfo = (\<lambda>_. Inr (Some TOKEN_PROGRAM)),
     simulateTransaction = (\<lambda>_. Inr \<lparr>sim_err = False, sim_logs = None\<rparr>)\<rparr>"

definition demo_msg :: message where
  "demo_msg = \<lparr>staticAccountKeys = [''wallet'', ''ComputeBudget111111111111111111111111111111''],
     addressTableLookups = [], compiledInstructions = [\<lparr>programIdIndex = 1, accountKeyIndexes = [], cix_data = [2]\<rparr>]\<rparr>"

text \<open>
  Three instructions nobody vouched for: tokens to a stranger's token account, a delegate, and SOL to
  a stranger.
\<close>

definition demo_drain :: "legacy_ix list" where
  "demo_drain = [demo_ix, demo_ix\<lparr>lix_data := [SPL_APPROVE, 1]\<rparr>,
     \<lparr>lix_programId = SYSTEM_PROGRAM, lix_keys = [''a'', ''stranger''], lix_data = [2, 0, 0, 0, 1]\<rparr>]"

theorem unvouched_transfers_signed_witness:
  "checkPolicy (demo_web3 demo_msg demo_drain) demo_node (signerConfig None None) [] legacy = Inr Allowed"
proof -
  have "\<forall>ix \<in> set demo_drain. unvouched (demo_web3 demo_msg demo_drain) demo_node ix"
    by (simp add: demo_drain_def unvouched_def demo_ix_def demo_web3_def demo_node_def nth_opt_def)
  moreover have "transaction_from (demo_web3 demo_msg demo_drain) [] = Inr demo_drain"
    by (simp add: demo_web3_def)
  ultimately show ?thesis
    using unvouched_transfers_signed [of "demo_web3 demo_msg demo_drain" "[]" demo_drain demo_node None]
    by (auto simp: demo_node_def)
qed

text \<open>
  A wallet that whitelists the owner \<^verbatim>\<open>me\<close>, whose associated token account is \<^verbatim>\<open>my-ata\<close>; every account
  the node knows is an ordinary wallet. A \<^verbatim>\<open>TransferChecked\<close> to \<^verbatim>\<open>my-ata\<close> is allowed, in either format; one to
  \<^verbatim>\<open>d\<close> is not.
\<close>

definition demo_checked :: "pubkey \<Rightarrow> legacy_ix" where
  "demo_checked dest = \<lparr>lix_programId = TOKEN_PROGRAM, lix_keys = [''s'', ''mint'', dest, ''a''], lix_data = [SPL_TRANSFER_CHECKED]\<rparr>"

definition demo_checked_msg :: message where
  "demo_checked_msg = \<lparr>staticAccountKeys = [''s'', ''mint'', ''my-ata'', ''a'', TOKEN_PROGRAM], addressTableLookups = [],
     compiledInstructions = [\<lparr>programIdIndex = 4, accountKeyIndexes = [0, 1, 2, 3], cix_data = [SPL_TRANSFER_CHECKED]\<rparr>]\<rparr>"

definition demo_owner :: "legacy_ix list \<Rightarrow> web3" where
  "demo_owner ixs = (demo_web3 demo_checked_msg ixs)\<lparr>ata_address :=
     (\<lambda>own prog mint. if own = ''me'' \<and> mint = ''mint'' then Inr ''my-ata'' else Inl TypeError)\<rparr>"

definition demo_wallets :: signer_rpc where
  "demo_wallets = demo_node\<lparr>getAccountInfo := (\<lambda>_. Inr (Some SYSTEM_PROGRAM))\<rparr>"

lemma demo_whitelist: "destinationWhitelist (signerConfig None (Some ''me'')) = [''me'']"
  by (simp add: signerConfig_def env_or_def) code_simp

lemma demo_not_dex: "TOKEN_PROGRAM \<notin> set (DEX_PROGRAMS (signerConfig None d))"
  by (simp add: DEX_PROGRAMS_def signerConfig_def env_or_def DEFAULT_BYREAL_def TOKEN_PROGRAM_def)

lemma demo_sim_ok: "sim_ok cfg b (simulateTransaction demo_wallets tx)"
  by (simp add: sim_ok_def demo_wallets_def demo_node_def)

lemma demo_ata_ok:
  assumes "account 1 = Some ''mint''" and "account 2 = Some ''my-ata''"
  shows "ix_ok (demo_owner ixs) rpc (signerConfig None (Some ''me'')) hasDex TOKEN_PROGRAM (Some SPL_TRANSFER_CHECKED) account"
  using assms own_programs_allowlisted
  by (auto simp: ix_ok_def dest_ok_def isAtaForWhitelistedOwner_def demo_whitelist demo_owner_def demo_web3_def)

lemma demo_keys:
  "resolveALTs w rpc demo_checked_msg = Inr (staticAccountKeys demo_checked_msg)"
  "extractProgramIds (staticAccountKeys demo_checked_msg) demo_checked_msg = [TOKEN_PROGRAM]"
  "ix \<in> set (compiledInstructions demo_checked_msg) \<Longrightarrow>
     nth_opt (staticAccountKeys demo_checked_msg) (programIdIndex ix) = Some TOKEN_PROGRAM \<and>
     nth_opt (cix_data ix) 0 = Some SPL_TRANSFER_CHECKED \<and>
     compiled_account (staticAccountKeys demo_checked_msg) ix 1 = Some ''mint'' \<and>
     compiled_account (staticAccountKeys demo_checked_msg) ix 2 = Some ''my-ata''"
  by (simp_all add: resolveALTs_def demo_checked_msg_def extractProgramIds_def List.map_filter_def nth_opt_def
      new_set_def set_add_def compiled_account_def numeral_2_eq_2)

theorem policy_exact_witness:
  "checkPolicy (demo_owner [demo_checked ''my-ata'']) demo_wallets (signerConfig None (Some ''me'')) [] legacy = Inr Allowed \<and>
   checkPolicy (demo_owner []) demo_wallets (signerConfig None (Some ''me'')) [] versioned = Inr Allowed \<and>
   checkPolicy (demo_owner [demo_checked ''d'']) demo_wallets (signerConfig None (Some ''me'')) [] legacy \<noteq> Inr Allowed"
proof (intro conjI)
  let ?cfg = "signerConfig None (Some ''me'')"
  have tx: "transaction_from (demo_owner ixs) [] = Inr ixs"
    "deserialize_versioned (demo_owner ixs) [] = Inr demo_checked_msg" for ixs
    by (simp_all add: demo_owner_def demo_web3_def)
  have ix: "lix_programId (demo_checked d) = TOKEN_PROGRAM" "nth_opt (lix_data (demo_checked d)) 0 = Some SPL_TRANSFER_CHECKED"
    "nth_opt (lix_keys (demo_checked d)) 1 = Some ''mint''" "nth_opt (lix_keys (demo_checked d)) 2 = Some d" for d
    by (simp_all add: demo_checked_def nth_opt_def)
  show "checkPolicy (demo_owner [demo_checked ''my-ata'']) demo_wallets ?cfg [] legacy = Inr Allowed"
    using demo_ata_ok [of "nth_opt (lix_keys (demo_checked ''my-ata''))"]
    by (subst policy_exact [THEN conjunct2]) (simp add: tx demo_sim_ok demo_not_dex ix [unfolded One_nat_def])
  show "checkPolicy (demo_owner []) demo_wallets ?cfg [] versioned = Inr Allowed"
    by (subst policy_exact [THEN conjunct1]) (auto simp: tx demo_sim_ok demo_not_dex demo_keys demo_keys(3) [unfolded One_nat_def] intro!: demo_ata_ok)
  have "\<not> ix_ok (demo_owner ixs) demo_wallets ?cfg False TOKEN_PROGRAM (Some SPL_TRANSFER_CHECKED)
    (nth_opt (lix_keys (demo_checked ''d'')))" for ixs
    by (auto simp: ix_ok_def dest_ok_def ix isAtaForWhitelistedOwner_def demo_whitelist demo_owner_def demo_wallets_def demo_node_def)
  then show "checkPolicy (demo_owner [demo_checked ''d'']) demo_wallets ?cfg [] legacy \<noteq> Inr Allowed"
    by (subst policy_exact [THEN conjunct2]) (simp add: tx demo_not_dex ix)
qed

theorem set_authority_rejected_witness:
  "\<exists>r. checkPolicy (demo_web3 demo_msg [demo_ix\<lparr>lix_data := [6]\<rparr>]) demo_node (signerConfig None None) [] legacy =
     Inr (Rejected r)"
proof -
  let ?ix = "demo_ix\<lparr>lix_data := [6]\<rparr>"
  have "transaction_from (demo_web3 demo_msg [?ix]) [] = Inr [?ix]" "?ix \<in> set [?ix]"
    "lix_programId ?ix \<in> {TOKEN_PROGRAM, TOKEN_2022}" "nth_opt (lix_data ?ix) 0 = Some SPL_SET_AUTHORITY"
    by (simp_all add: demo_web3_def demo_ix_def nth_opt_def SPL_SET_AUTHORITY_def)
  then show ?thesis using set_authority_rejected by blast
qed

end
