(* ===== verification/Signer_Wire.thy ===== *)
theory Signer_Wire
  imports Prelude
begin

text \<open>
  The wire between the bot and the signer daemon: a Unix socket carrying frames of a 4-byte
  big-endian length and that many bytes. \<^verbatim>\<open>src/utils/wallet.ts\<close> has the client, \<^verbatim>\<open>signer/index.ts\<close> the
  server. A socket delivers a byte stream in arbitrary chunks, one \<^verbatim>\<open>data\<close> event each, so both sides
  are state machines over chunks. The transactions inside are base64 texts.
\<close>

section \<open>Frames\<close>

definition is_byte :: "nat \<Rightarrow> bool" where
  "is_byte b \<longleftrightarrow> b < 256"

definition writeUInt32BE :: "nat \<Rightarrow> byte list" where
  "writeUInt32BE n = [n div 16777216 mod 256, n div 65536 mod 256, n div 256 mod 256, n mod 256]"

definition readUInt32BE :: "byte list \<Rightarrow> nat" where
  "readUInt32BE bs = bs ! 0 * 16777216 + bs ! 1 * 65536 + bs ! 2 * 256 + bs ! 3"

definition frame :: "byte list \<Rightarrow> byte list" where
  "frame payload = writeUInt32BE (length payload) @ payload"

section \<open>The server's connection\<close>

record Conn =
  buffer :: "byte list"
  expectedLen :: int

definition new_conn :: Conn where
  "new_conn = \<lparr>buffer = [], expectedLen = - 1\<rparr>"

text \<open>The \<^verbatim>\<open>data\<close> handler up to the call of \<^verbatim>\<open>handleRequest\<close>: the payload it is called with, if any.\<close>

definition on_data :: "byte list \<Rightarrow> Conn \<Rightarrow> byte list option \<times> Conn" where
  "on_data chunk c =
     (let buf = buffer c @ chunk;
          (ex, buf) = (if expectedLen c < 0 \<and> length buf \<ge> 4 then (int (readUInt32BE buf), drop 4 buf)
                       else (expectedLen c, buf))
      in if ex \<ge> 0 \<and> int (length buf) \<ge> ex
         then (Some (take (nat ex) buf), \<lparr>buffer = drop (nat ex) buf, expectedLen = - 1\<rparr>)
         else (None, \<lparr>buffer = buf, expectedLen = ex\<rparr>))"

fun feed :: "byte list list \<Rightarrow> Conn \<Rightarrow> byte list list \<times> Conn" where
  "feed [] c = ([], c)"
| "feed (x # xs) c =
     (let (p, c') = on_data x c; (ps, c'') = feed xs c'
      in ((case p of Some y \<Rightarrow> y # ps | None \<Rightarrow> ps), c''))"

section \<open>The client\<close>

text \<open>\<^verbatim>\<open>sendToSigner\<close>: what it writes, and its \<^verbatim>\<open>data\<close> handler until the promise is resolved.\<close>

definition client_writes :: "byte list \<Rightarrow> byte list" where
  "client_writes payload = writeUInt32BE (length payload) @ payload"

record Client =
  chunks :: "byte list list"
  cl_expectedLen :: int
  received :: int
  resolved :: "byte list option"

definition new_client :: Client where
  "new_client = \<lparr>chunks = [], cl_expectedLen = - 1, received = 0, resolved = None\<rparr>"

definition client_data :: "byte list \<Rightarrow> Client \<Rightarrow> Client" where
  "client_data chunk c =
     (if resolved c \<noteq> None then c
      else
       (let c1 = c\<lparr>chunks := chunks c @ [chunk], received := received c + int (length chunk)\<rparr>;
            c2 = (if cl_expectedLen c1 < 0 \<and> received c1 \<ge> 4
                  then (let header = concat (chunks c1)
                        in c1\<lparr>cl_expectedLen := int (readUInt32BE header), chunks := [drop 4 header],
                              received := received c1 - 4\<rparr>)
                  else c1)
        in if cl_expectedLen c2 \<ge> 0 \<and> received c2 \<ge> cl_expectedLen c2
           then c2\<lparr>resolved := Some (take (nat (cl_expectedLen c2)) (concat (chunks c2)))\<rparr>
           else c2))"

section \<open>Base64\<close>

definition b64_char :: "nat \<Rightarrow> char" where
  "b64_char n =
     (if n < 26 then char_of (65 + n) else if n < 52 then char_of (71 + n)
      else if n < 62 then char_of (n - 4) else if n = 62 then CHR ''+'' else CHR ''/'')"

definition b64_val :: "char \<Rightarrow> nat option" where
  "b64_val c =
     (let n = of_char c :: nat
      in if 65 \<le> n \<and> n \<le> 90 then Some (n - 65) else if 97 \<le> n \<and> n \<le> 122 then Some (n - 71)
         else if 48 \<le> n \<and> n \<le> 57 then Some (n + 4) else if n = 43 \<or> n = 45 then Some 62
         else if n = 47 \<or> n = 95 then Some 63 else None)"

fun base64_encode :: "byte list \<Rightarrow> string" where
  "base64_encode [] = []"
| "base64_encode [a] = [b64_char (a div 4), b64_char (a mod 4 * 16), CHR ''='', CHR ''='']"
| "base64_encode [a, b] =
     [b64_char (a div 4), b64_char (a mod 4 * 16 + b div 16), b64_char (b mod 16 * 4), CHR ''='']"
| "base64_encode (a # b # c # r) =
     b64_char (a div 4) # b64_char (a mod 4 * 16 + b div 16) # b64_char (b mod 16 * 4 + c div 64) #
     b64_char (c mod 64) # base64_encode r"

fun sextets :: "nat list \<Rightarrow> byte list" where
  "sextets (p # q # r # s # t) = (p * 4 + q div 16) # (q mod 16 * 16 + r div 4) # (r mod 4 * 64 + s) # sextets t"
| "sextets [p, q, r] = [p * 4 + q div 16, q mod 16 * 16 + r div 4]"
| "sextets [p, q] = [p * 4 + q div 16]"
| "sextets _ = []"

text \<open>Characters outside the alphabet, the padding among them, are skipped.\<close>

definition base64_decode :: "string \<Rightarrow> byte list" where
  "base64_decode s = sextets (List.map_filter b64_val s)"

section \<open>Lemmas\<close>

lemma read_Cons: "readUInt32BE (a # b # c # d # r) = a * 16777216 + b * 65536 + c * 256 + d"
  by (simp add: readUInt32BE_def)

lemma read_write_uint32:
  assumes "n < 2 ^ 32"
  shows "readUInt32BE (writeUInt32BE n @ r) = n"
proof -
  have d: "n div 65536 = n div 256 div 256" "n div 16777216 = n div 256 div 256 div 256"
    by (simp_all flip: div_mult2_eq)
  have "n div 256 div 256 div 256 < 256" using assms by simp
  then have m: "n div 256 div 256 div 256 mod 256 = n div 256 div 256 div 256" by (rule mod_less)
  have "256 * (n div 256) + n mod 256 = n"
    "256 * (n div 256 div 256) + n div 256 mod 256 = n div 256"
    "256 * (n div 256 div 256 div 256) + n div 256 div 256 mod 256 = n div 256 div 256"
    by (rule mult_div_mod_eq)+
  then show ?thesis
    unfolding writeUInt32BE_def append.simps read_Cons d m by linarith
qed

lemma length_write [simp]: "length (writeUInt32BE n) = 4"
  by (simp add: writeUInt32BE_def)

lemma frame_nonempty [simp]: "frame p \<noteq> []"
  by (simp add: frame_def writeUInt32BE_def)

lemma length_frame [simp]: "length (frame p) = 4 + length p"
  by (simp add: frame_def)

lemma drop_frame [simp]: "drop 4 (frame p) = p"
  by (simp add: frame_def)

lemma prefix_header:
  assumes "p @ r = frame payload" and "4 \<le> length p" and "length payload < 2 ^ 32"
  shows "readUInt32BE p = length payload"
proof -
  have "take 4 p = take 4 (frame payload)"
    using assms(1,2) by (metis append_eq_append_conv_if take_append take_all diff_is_0_eq take0 append_Nil2)
  then have "take 4 p = writeUInt32BE (length payload)" by (simp add: frame_def)
  then have "p = writeUInt32BE (length payload) @ drop 4 p" by (metis append_take_drop_id)
  then show ?thesis using read_write_uint32 [OF assms(3)] by metis
qed

text \<open>The state of a connection that has read a proper prefix of a frame.\<close>

definition reading :: "byte list \<Rightarrow> byte list \<Rightarrow> Conn" where
  "reading payload p =
     (if length p < 4 then \<lparr>buffer = p, expectedLen = - 1\<rparr>
      else \<lparr>buffer = drop 4 p, expectedLen = int (length payload)\<rparr>)"

lemma on_data_reading:
  assumes "p @ c @ r = frame payload" and "length payload < 2 ^ 32" and "p \<noteq> frame payload"
  shows "on_data c (reading payload p) =
     (if r = [] then (Some payload, new_conn) else (None, reading payload (p @ c)))"
proof -
  have len: "length p + length c + length r = 4 + length payload"
    using arg_cong [OF assms(1), of length] by simp
  have pc: "readUInt32BE (p @ c) = length payload" if "4 \<le> length (p @ c)"
    using prefix_header [of "p @ c" r payload] assms that by simp
  have full: "drop 4 (p @ c) = payload" if "r = []" using assms(1) that by (metis append_Nil2 drop_frame)
  have r: "length (p @ c) - 4 \<ge> length payload \<longleftrightarrow> r = []" if "4 \<le> length (p @ c)"
    using len that by (simp only: length_append flip: length_0_conv) linarith
  show ?thesis
  proof (cases "length p < 4")
    case True
    from True len pc full r show ?thesis
      by (auto simp: on_data_def reading_def new_conn_def Let_def simp del: drop_append)
  next
    case False
    then have d: "drop 4 p @ c = drop 4 (p @ c)" by simp
    show ?thesis using False len full r
      by (auto simp: on_data_def reading_def new_conn_def Let_def d simp del: drop_append)
  qed
qed

lemma on_data_empty: "on_data [] new_conn = (None, new_conn)"
  by (simp add: on_data_def new_conn_def)

lemma feed_empty: "concat xs = [] \<Longrightarrow> feed xs new_conn = ([], new_conn)"
  by (induction xs) (auto simp: on_data_empty)

lemma feed_reading:
  assumes "p @ concat xs = frame payload" and "length payload < 2 ^ 32" and "p \<noteq> frame payload"
  shows "feed xs (reading payload p) = ([payload], new_conn)"
  using assms
proof (induction xs arbitrary: p)
  case (Cons x xs)
  note step = on_data_reading [of p x "concat xs" payload]
  show ?case
  proof (cases "concat xs = []")
    case True
    with Cons.prems step show ?thesis by (simp add: feed_empty)
  next
    case False
    then have "p @ x \<noteq> frame payload"
      using Cons.prems(1) by (metis append_assoc append_self_conv concat.simps(2))
    moreover have "on_data x (reading payload p) = (None, reading payload (p @ x))"
      using step Cons.prems False by (simp only: append_assoc concat.simps) simp
    ultimately show ?thesis using Cons.IH [of "p @ x"] Cons.prems by simp
  qed
qed simp

text \<open>The client reads like the server, up to how it stores the bytes.\<close>

definition client_reading :: "byte list \<Rightarrow> byte list \<Rightarrow> Client \<Rightarrow> bool" where
  "client_reading payload p c \<longleftrightarrow>
     resolved c = None \<and>
     (if length p < 4 then concat (chunks c) = p \<and> cl_expectedLen c = - 1 \<and> received c = int (length p)
      else concat (chunks c) = drop 4 p \<and> cl_expectedLen c = int (length payload) \<and>
           received c = int (length p) - 4)"

lemma client_data_reading:
  assumes "client_reading payload p c" and "p @ x @ r = frame payload" and "length payload < 2 ^ 32"
    and "p \<noteq> frame payload"
  shows "if r = [] then resolved (client_data x c) = Some payload
         else client_reading payload (p @ x) (client_data x c)"
proof -
  have len: "length p + length x + length r = 4 + length payload"
    using arg_cong [OF assms(2), of length] by simp
  have px: "readUInt32BE (p @ x) = length payload" if "4 \<le> length (p @ x)"
    using prefix_header [of "p @ x" r payload] assms that by simp
  have full: "drop 4 (p @ x) = payload" if "r = []" using assms(2) that by (metis append_Nil2 drop_frame)
  have r: "length (p @ x) - 4 \<ge> length payload \<longleftrightarrow> r = []" if "4 \<le> length (p @ x)"
    using len that by (simp only: length_append flip: length_0_conv) linarith
  show ?thesis
  proof (cases "length p < 4")
    case True
    with assms(1) have c: "concat (chunks c) = p" "cl_expectedLen c = - 1" "received c = int (length p)"
      "resolved c = None" by (auto simp: client_reading_def)
    from True len px full r c show ?thesis
      by (auto simp: client_data_def client_reading_def Let_def simp del: drop_append)
  next
    case False
    with assms(1) have c: "concat (chunks c) = drop 4 p" "cl_expectedLen c = int (length payload)"
      "received c = int (length p) - 4" "resolved c = None" by (auto simp: client_reading_def)
    have d: "drop 4 p @ x = drop 4 (p @ x)" using False by simp
    from False len full r c show ?thesis
      by (auto simp: client_data_def client_reading_def Let_def d simp del: drop_append)
  qed
qed

lemma client_done: "resolved c \<noteq> None \<Longrightarrow> fold client_data xs c = c"
  by (induction xs) (auto simp: client_data_def)

lemma client_feed:
  assumes "client_reading payload p c" and "p @ concat xs = frame payload" and "length payload < 2 ^ 32"
    and "p \<noteq> frame payload"
  shows "resolved (fold client_data xs c) = Some payload"
  using assms
proof (induction xs arbitrary: p c)
  case (Cons x xs)
  note step = client_data_reading [of payload p c x "concat xs"]
  show ?case
  proof (cases "concat xs = []")
    case True
    with Cons.prems step have "resolved (client_data x c) = Some payload" by simp
    then show ?thesis using client_done [of "client_data x c" xs] by simp
  next
    case False
    then have "p @ x \<noteq> frame payload"
      using Cons.prems(2) by (metis append_assoc append_self_conv concat.simps(2))
    moreover have "client_reading payload (p @ x) (client_data x c)"
      using step Cons.prems False by (simp only: concat.simps if_False simp_thms)
    ultimately show ?thesis using Cons.IH [of "p @ x" "client_data x c"] Cons.prems by simp
  qed
qed simp

lemma b64_val_char [simp]: "n < 64 \<Longrightarrow> b64_val (b64_char n) = Some n"
  by (auto simp: b64_char_def b64_val_def Let_def)

lemma b64_val_pad [simp]: "b64_val (CHR ''='') = None"
  by (simp add: b64_val_def)

lemma map_filter_Cons [simp]:
  "List.map_filter f (x # xs) = (case f x of Some y \<Rightarrow> y # List.map_filter f xs | None \<Rightarrow> List.map_filter f xs)"
  "List.map_filter f [] = []"
  by (auto simp: List.map_filter_def split: option.splits)

lemma div_mod_join: "y < k \<Longrightarrow> (x * k + y) div k = (x::nat)" "y < k \<Longrightarrow> (x * k + y) mod k = (y::nat)"
  by simp_all

lemma byte_parts:
  fixes a :: nat
  shows "a < 256 \<Longrightarrow> a div 4 < 64" "a < 256 \<Longrightarrow> a div 16 < 16" "a < 256 \<Longrightarrow> a div 64 < 4"
    "a mod 4 < 4" "a mod 16 < 16" "a mod 64 < 64"
  by simp_all

lemma sextet_range:
  fixes x y :: nat
  shows "x < 4 \<Longrightarrow> x * 16 < 64" "x < 4 \<Longrightarrow> y < 16 \<Longrightarrow> x * 16 + y < 64"
    "x < 16 \<Longrightarrow> x * 4 < 64" "x < 16 \<Longrightarrow> y < 4 \<Longrightarrow> x * 4 + y < 64"
  by simp_all

lemma sextet_bounds:
  fixes a b c :: nat
  shows "a mod 4 * 16 < 64" "b < 256 \<Longrightarrow> a mod 4 * 16 + b div 16 < 64"
    "b mod 16 * 4 < 64" "c < 256 \<Longrightarrow> b mod 16 * 4 + c div 64 < 64"
  by (rule sextet_range byte_parts | assumption)+

lemma sextet_join:
  fixes a b c :: nat
  shows "a div 4 * 4 + a mod 4 * 16 div 16 = a"
    "b < 256 \<Longrightarrow> a div 4 * 4 + (a mod 4 * 16 + b div 16) div 16 = a"
    "b < 256 \<Longrightarrow> (a mod 4 * 16 + b div 16) mod 16 * 16 + b mod 16 = b"
    "b < 256 \<Longrightarrow> c < 256 \<Longrightarrow> (a mod 4 * 16 + b div 16) mod 16 * 16 + (b mod 16 * 4 + c div 64) div 4 = b"
    "c < 256 \<Longrightarrow> (b mod 16 * 4 + c div 64) mod 4 * 64 + c mod 64 = c"
  by (simp_all only: div_mod_join byte_parts div_mult_self_is_m div_mult_mod_eq zero_less_numeral)

lemma base64_roundtrip_sextets:
  "\<forall>b \<in> set bs. b < 256 \<Longrightarrow> sextets (List.map_filter b64_val (base64_encode bs)) = bs"
proof (induction bs rule: base64_encode.induct)
  case (2 a)
  then show ?case by (simp only: list.set ball_simps) (simp add: byte_parts sextet_bounds sextet_join)
next
  case (3 a b)
  then have "a < 256" "b < 256" by simp_all
  then show ?case by (simp add: byte_parts sextet_bounds sextet_join del: div_mult_self3 mod_mult_self3)
next
  case (4 a b c r)
  then have "a < 256" "b < 256" "c < 256" by simp_all
  with 4 show ?case by (simp add: byte_parts sextet_bounds sextet_join del: div_mult_self3 mod_mult_self3)
qed simp

lemma base64_roundtrip: "\<forall>b \<in> set bs. is_byte b \<Longrightarrow> base64_decode (base64_encode bs) = bs"
  unfolding base64_decode_def is_byte_def by (rule base64_roundtrip_sextets)

section \<open>Properties\<close>

text \<open>
  C35: framing survives any chunking, both ways. However the socket cuts the bytes the client writes
  for one request into chunks, the server calls its handler exactly once, with the payload, and is
  ready for the next frame; and however it cuts a response frame, the client's promise resolves
  with exactly the response.
\<close>

theorem framing_roundtrip:
  assumes "length payload < 2 ^ 32"
  shows "(\<forall>xs. concat xs = client_writes payload \<longrightarrow> feed xs new_conn = ([payload], new_conn)) \<and>
         (\<forall>xs. concat xs = frame payload \<longrightarrow> resolved (fold client_data xs new_client) = Some payload)"
proof (intro conjI allI impI)
  fix xs assume "concat xs = client_writes payload"
  then have "[] @ concat xs = frame payload" by (simp add: client_writes_def frame_def)
  from feed_reading [OF this assms] show "feed xs new_conn = ([payload], new_conn)"
    by (simp add: reading_def new_conn_def frame_nonempty [symmetric])
next
  fix xs assume "concat xs = frame payload"
  moreover have "client_reading payload [] new_client" by (simp add: client_reading_def new_client_def)
  ultimately show "resolved (fold client_data xs new_client) = Some payload"
    using client_feed [of payload "[]" new_client xs] assms by (simp add: frame_nonempty [symmetric])
qed

theorem framing_roundtrip_witness:
  "feed [[0], [0, 0], [2, 65], [66]] new_conn = ([[65, 66]], new_conn)"
proof -
  have "concat [[0], [0, 0], [2, 65], [66]] = client_writes [65, 66]"
    by (simp add: client_writes_def writeUInt32BE_def)
  moreover have "length [65, 66 :: nat] < 2 ^ 32" by simp
  ultimately show ?thesis using framing_roundtrip by blast
qed

text \<open>
  Pipelined frames stall. Two requests that arrive in one chunk: the handler is called for the
  first only, the second stays in the buffer, and nothing more happens until the peer sends another
  byte.
\<close>

theorem pipelined_frame_stalls:
  assumes "length a < 2 ^ 32"
  shows "on_data (frame a @ frame b) new_conn = (Some a, \<lparr>buffer = frame b, expectedLen = - 1\<rparr>)"
proof -
  have "readUInt32BE (frame a @ frame b) = length a"
    using read_write_uint32 [OF assms] by (simp add: frame_def)
  moreover have "drop 4 (frame a @ frame b) = a @ frame b" by simp
  ultimately show ?thesis by (simp add: on_data_def new_conn_def)
qed

theorem pipelined_frame_stalls_witness:
  "on_data [0, 0, 0, 1, 7, 0, 0, 0, 1, 8] new_conn = (Some [7], \<lparr>buffer = [0, 0, 0, 1, 8], expectedLen = - 1\<rparr>)"
  using pipelined_frame_stalls [of "[7]" "[8]"] by (simp add: frame_def writeUInt32BE_def)

end
