(* ===== verification/Chain_World.thy ===== *)
theory Chain_World
  imports Async_Ops Bn_Js Parser_Data Signer_Policy Signer_Wire
begin

text \<open>
  What the executors ask of the outside world: the node (package \<^verbatim>\<open>@solana/web3.js\<close>), the Jupiter service and
  the SDK of the Byreal program. None of it is part of the program; each request is a field of \<open>services\<close>, a
  function of the state \<open>'w\<close> of the world that may throw and may change that state. The model's own record of
  the traffic is \<open>net\<close>: the world and, in order, every transaction handed over for sending.

  A status other than 2xx, a network error and a body that is no JSON are all a thrown error: the sources
  turn the first into one at once.
\<close>

section \<open>Pools, positions and transactions\<close>

record 'b pool_info =
  poolId :: string
  pi_mintA :: pubkey
  pi_mintB :: pubkey
  sqrtPriceX64 :: 'b
  mintDecimalsA :: nat
  mintDecimalsB :: nat

text \<open>\<^verbatim>\<open>IGetPositionInfoByNftMintReturn\<close>: the raw position, its pool, and its two token amounts.\<close>

record 'b position_info =
  pos_tickLower :: int
  pos_tickUpper :: int
  pos_liquidity :: 'b
  pos_pool :: "'b pool_info"
  pos_amountA :: 'b
  pos_amountB :: 'b
  pos_uiAmountA :: "string option"
  pos_uiAmountB :: "string option"

datatype base_side = BaseA | BaseB

record 'b open_params =
  op_pool :: "'b pool_info"
  op_tickLower :: int
  op_tickUpper :: int
  op_base :: base_side
  op_baseAmount :: 'b
  op_otherAmountMax :: 'b

record 'b pool_quote =
  allTrade :: bool
  maxAmountIn :: 'b
  isOutputMintA :: bool
  executionPrice :: 'b

text \<open>
  A transaction by what it asks the chain to do. \<open>SwapTx\<close> carries the message that is signed; the position
  transactions name the position's NFT.
\<close>

datatype 'b orca_tx =
    InitTicksTx pubkey int int
  | WhirlOpenTx pubkey int int 'b 'b \<comment> \<open>pool, ticks, the most of either token\<close>
  | WhirlIncreaseTx string 'b 'b
  | WhirlDecreaseTx string 'b
  | WhirlCollectTx string
  | WhirlCloseTx string nat \<comment> \<open>one of the transactions that close a position\<close>

datatype 'b dlmm_tx =
    DlmmOpenTx pubkey string int int 'b 'b \<comment> \<open>pool, position, bins, the amounts\<close>
  | DlmmInitTx pubkey string int int "int list" nat \<comment> \<open>first bin, width, the later ends, bin arrays to create\<close>
  | DlmmDepositTx pubkey string int int 'b 'b
  | DlmmRemoveTx pubkey string int int 'b \<comment> \<open>bins, basis points\<close>
  | DlmmClaimTx pubkey string
  | DlmmCloseTx pubkey string

datatype 'b damm_tx =
    DammCreateTx pubkey string
  | DammDepositTx pubkey string 'b 'b 'b \<comment> \<open>liquidity, the most of either token\<close>
  | DammRemoveTx pubkey string "'b option" \<comment> \<open>liquidity, or all of it\<close>
  | DammClaimTx pubkey string
  | DammCloseTx pubkey string bool \<comment> \<open>with the liquidity it still has\<close>

datatype 'b chain_tx =
    SwapTx message
  | PoolSwapTx "'b pool_info" "'b pool_quote"
  | OpenTx "'b open_params" "string option" \<comment> \<open>with the referer memo\<close>
  | AddLiquidityTx string base_side 'b 'b
  | DecreaseTx string 'b
  | DecreaseFullTx string bool \<comment> \<open>and close the position\<close>
  | CollectFeesTx string
  | OrcaTx "'b orca_tx"
  | PcsTx "'b chain_tx" \<comment> \<open>the same transaction of the PancakeSwap program\<close>
  | DlmmTx "'b dlmm_tx" nat \<comment> \<open>one of the transactions the SDK makes of it\<close>
  | DammTx "'b damm_tx"
  | TransferTx string string int nat \<comment> \<open>mint, receiving wallet, raw amount, decimals\<close>

section \<open>Services\<close>

record ('b, 'w) services =
  sv_now :: "'w \<Rightarrow> millis \<times> 'w"
  sv_send :: "'b chain_tx \<Rightarrow> 'w \<Rightarrow> string result \<times> 'w" \<comment> \<open>build, sign and send\<close>
  sv_confirm :: "string \<Rightarrow> 'w \<Rightarrow> unit result \<times> 'w"
  sv_getTransaction_err :: "string \<Rightarrow> 'w \<Rightarrow> bool result \<times> 'w" \<comment> \<open>\<^verbatim>\<open>txResult?.meta?.err\<close> is set\<close>
  sv_getParsedTransaction :: "string \<Rightarrow> 'w \<Rightarrow> ParsedTx option result \<times> 'w"
  sv_balance_answers :: "pubkey \<Rightarrow> 'w \<Rightarrow> ((pubkey \<Rightarrow> string result) \<times> (pubkey option \<Rightarrow> int result)) \<times> 'w"
  sv_signVersioned :: "message \<Rightarrow> 'w \<Rightarrow> message result \<times> 'w"
  sv_deserialize :: "byte list \<Rightarrow> message result"
  sv_quote :: "string \<Rightarrow> string \<Rightarrow> string \<Rightarrow> 'w \<Rightarrow> json result \<times> 'w"
  sv_swap :: "json \<Rightarrow> 'w \<Rightarrow> json result \<times> 'w"
  sv_order :: "string \<Rightarrow> string \<Rightarrow> string \<Rightarrow> 'w \<Rightarrow> json result \<times> 'w"
  sv_execute :: "message \<Rightarrow> json \<Rightarrow> 'w \<Rightarrow> json result \<times> 'w"
  sv_holdings :: "'w \<Rightarrow> json result \<times> 'w"
  sv_getPosition :: "string \<Rightarrow> 'w \<Rightarrow> 'b position_info option result \<times> 'w"
  sv_createPosition :: "'b open_params \<Rightarrow> 'w \<Rightarrow> string option result \<times> 'w" \<comment> \<open>the new NFT's address\<close>
  sv_quoteExactOut :: "'b pool_info \<Rightarrow> pubkey \<Rightarrow> 'b \<Rightarrow> 'w \<Rightarrow> 'b pool_quote result \<times> 'w"
  sv_poolOpenTime :: "string \<Rightarrow> 'w \<Rightarrow> int option \<times> 'w" \<comment> \<open>\<^verbatim>\<open>getPoolInfo(mint)?.openTime\<close>\<close>
  sv_tokenLiquidity :: "string \<Rightarrow> 'w \<Rightarrow> js_num option result \<times> 'w" \<comment> \<open>\<^verbatim>\<open>checkTokenLiquidity\<close>\<close>
  sv_tokenSymbol :: "string \<Rightarrow> 'w \<Rightarrow> string \<times> 'w"
  sv_otherDex :: "string \<Rightarrow> string \<Rightarrow> 'w \<Rightarrow> bool result \<times> 'w" \<comment> \<open>the other executors' position checkers\<close>

text \<open>
  The trace \<open>sent\<close> and the world; beside them the cache of the wallet's holdings \<^verbatim>\<open>jupiter-swap.ts\<close> keeps, and the
  pools \<^verbatim>\<open>meteora-position.ts\<close> has created.
\<close>

record ('b, 'w) net =
  world :: 'w
  sent :: "'b chain_tx list"
  holdingsCache :: "((string, int) jsmap \<times> millis) option"
  dlmmPools :: "(string, 'b pool_info \<times> millis) jsmap"

type_synonym ('b, 'w, 'a) net_op = "(('b, 'w) net, 'a) op"

definition request :: "('w \<Rightarrow> 'a result \<times> 'w) \<Rightarrow> ('b, 'w, 'a) net_op" where
  "request f n = (case f (world n) of (r, w) \<Rightarrow> (r, n\<lparr>world := w\<rparr>))"

definition consult :: "('w \<Rightarrow> 'a \<times> 'w) \<Rightarrow> ('b, 'w, 'a) net_op" where
  "consult f n = (case f (world n) of (a, w) \<Rightarrow> (Inr a, n\<lparr>world := w\<rparr>))"

text \<open>Handing a transaction over: it is in the trace whatever the answer is.\<close>

definition submit :: "'b chain_tx \<Rightarrow> ('w \<Rightarrow> 'a result \<times> 'w) \<Rightarrow> ('b, 'w, 'a) net_op" where
  "submit t f n = (case f (world n) of (r, w) \<Rightarrow> (r, n\<lparr>world := w, sent := sent n @ [t]\<rparr>))"

lemma request_same [simp]: "always (same sent) (request f)" "always (same holdingsCache) (request f)"
  by (auto simp: always_def same_def request_def split: prod.splits)

lemma consult_same [simp]: "always (same sent) (consult f)" "always (same holdingsCache) (consult f)"
  by (auto simp: always_def same_def consult_def split: prod.splits)

lemma never_throws_consult [simp]: "never_throws (consult f)"
  by (auto simp: never_throws_def consult_def split: prod.splits)

text \<open>Which transactions an operation may submit.\<close>

abbreviation submits :: "('b chain_tx \<Rightarrow> bool) \<Rightarrow> ('b, 'w, 'a) net_op \<Rightarrow> bool" where
  "submits P m \<equiv> always (logs_only sent P) m"

lemma submits_simple: "submits P (request f)" "submits P (consult h)" "P t \<Longrightarrow> submits P (submit t g)"
  by (auto simp: always_def logs_only_def request_def consult_def submit_def split: prod.splits)

lemma submits_change: "(\<And>n. sent (f n) = sent n) \<Longrightarrow> submits P (change f)"
  by (auto simp: always_def logs_only_def op_simps)

lemma submits_mono: "submits P m \<Longrightarrow> (\<And>t. P t \<Longrightarrow> Q t) \<Longrightarrow> submits Q m"
  by (erule always_mono) (rule logs_only_mono)

lemmas submits_rules = submits_simple submits_change logs.rules

section \<open>Transactions of the node's index\<close>

text \<open>
  \<^verbatim>\<open>verifyTxSuccess\<close>, the loop with \<open>n\<close> attempts left: \<open>False\<close> also when the transaction cannot be found.
\<close>

fun verify_loop :: "('b, 'w) services \<Rightarrow> nat \<Rightarrow> string \<Rightarrow> ('b, 'w, bool) net_op" where
  "verify_loop sv 0 sig = ret False"
| "verify_loop sv (Suc n) sig =
     bind_op (try_op (request (sv_getParsedTransaction sv sig))) (\<lambda>r.
       case r of
         Inl e \<Rightarrow> if n > 0 then verify_loop sv n sig else ret False
       | Inr tx \<Rightarrow>
           (case Option.bind tx tx_meta of
              None \<Rightarrow> if n > 0 then verify_loop sv n sig else ret False
            | Some meta \<Rightarrow> ret (\<not> meta_err meta)))"

definition verifyTxSuccess :: "('b, 'w) services \<Rightarrow> string \<Rightarrow> ('b, 'w, bool) net_op" where
  "verifyTxSuccess sv sig = verify_loop sv 3 sig"

text \<open>
  \<^verbatim>\<open>parseTxTokenChanges\<close>: per mint the last balance entry of the owner counts, the mints in the order in
  which they first appear before and then after, and only gains are reported.
\<close>

fun owned_amounts :: "string \<Rightarrow> TokenBalance list \<Rightarrow> (string, int) jsmap \<Rightarrow> (string, int) jsmap result" where
  "owned_amounts ownerStr [] m = Inr m"
| "owned_amounts ownerStr (b # bs) m =
     (if owner b = Some ownerStr \<and> mint b \<noteq> [] then
        bind_result (BigInt_of (amount (uiTokenAmount b))) (\<lambda>v. owned_amounts ownerStr bs (AList.update (mint b) v m))
      else owned_amounts ownerStr bs m)"

definition gain :: "(string, int) jsmap \<Rightarrow> (string, int) jsmap \<Rightarrow> string \<Rightarrow> int" where
  "gain pre post k =
     (case map_of post k of Some v \<Rightarrow> v | None \<Rightarrow> 0) - (case map_of pre k of Some v \<Rightarrow> v | None \<Rightarrow> 0)"

definition token_changes :: "string \<Rightarrow> TxMeta \<Rightarrow> (string \<times> int) list result" where
  "token_changes ownerStr meta =
     bind_result (owned_amounts ownerStr (or_empty preTokenBalances (Some meta)) []) (\<lambda>pre.
     bind_result (owned_amounts ownerStr (or_empty postTokenBalances (Some meta)) []) (\<lambda>post.
       Inr (map (\<lambda>k. (k, gain pre post k))
              (filter (\<lambda>k. gain pre post k > 0) (new_set (map fst pre @ map fst post))))))"

definition parseTxTokenChanges ::
  "'b BN \<Rightarrow> ('b, 'w) services \<Rightarrow> string \<Rightarrow> string \<Rightarrow> ('b, 'w, (string \<times> 'b) list) net_op" where
  "parseTxTokenChanges bn sv sig ownerStr =
     catch_op
       (bind_op (request (sv_getParsedTransaction sv sig)) (\<lambda>tx.
          case Option.bind tx tx_meta of
            None \<Rightarrow> ret []
          | Some meta \<Rightarrow>
              bind_op (of_result (token_changes ownerStr meta)) (\<lambda>changes.
                of_result (traverse (\<lambda>(k, d). bind_result (bn_of_string bn (show_int d)) (\<lambda>b. Inr (k, b))) changes))))
       (\<lambda>_. ret [])"

lemma verify_loop_never_throws: "never_throws (verify_loop sv n sig)"
proof (induction n)
  case (Suc n)
  then show ?case
    by (auto intro!: never_throws_bind never_throws_simple split: sum.splits option.splits)
qed (simp add: never_throws_simple)

lemma verify_submits: "submits P (verifyTxSuccess sv sig)"
proof -
  have "submits P (verify_loop sv n sig)" for n
    by (induction n) (auto intro!: submits_rules split: sum.splits option.splits)
  then show ?thesis by (simp add: verifyTxSuccess_def)
qed

lemma parse_submits: "submits P (parseTxTokenChanges bn sv sig ownerStr)"
  unfolding parseTxTokenChanges_def by (intro logs.catched logs.bind submits_simple) (auto intro!: submits_rules split: option.splits)

lemma token_changes_never_throw: "never_throws (parseTxTokenChanges bn sv sig ownerStr)"
  unfolding parseTxTokenChanges_def by (intro never_throws_catch never_throws_simple)

end
