(* ===== verification/Jupiter_Swap.thy ===== *)
theory Jupiter_Swap
  imports Chain_World Ratio
begin

text \<open>
  Swaps through the Jupiter service and through a Byreal pool, \<^verbatim>\<open>src/executor/jupiter-swap.ts\<close>. The answers of
  the service are JSON values that may have any shape, so every field access may throw; the service and the
  node are the \<open>services\<close> of \<open>Chain_World\<close>. \<^verbatim>\<open>lastSwapError\<close>, which only words a notification, and log lines are
  left out.
\<close>

record swap_config =
  swc_dryRun :: bool
  swc_ultra :: bool \<comment> \<open>\<^verbatim>\<open>jupSwapMode === 'ultra'\<close>\<close>
  swc_maxRetry :: nat
  swc_user :: pubkey \<comment> \<open>\<^verbatim>\<open>getUserAddress()\<close>\<close>
  swc_ratios :: ratio_config

section \<open>The wallet's holdings\<close>

text \<open>\<^verbatim>\<open>BigInt(v)\<close>\<close>

fun json_BigInt :: "json \<Rightarrow> int result" where
  "json_BigInt JUndefined = Inl TypeError"
| "json_BigInt JNull = Inl TypeError"
| "json_BigInt (JBool b) = Inr (if b then 1 else 0)"
| "json_BigInt (JNum x) = (case x of Num q \<Rightarrow> if q = of_int \<lfloor>q\<rfloor> then Inr \<lfloor>q\<rfloor> else Inl RangeError | _ \<Rightarrow> Inl RangeError)"
| "json_BigInt v = BigInt_of (js_String v)"

text \<open>BigInt division cuts towards zero.\<close>

definition big_div :: "int \<Rightarrow> int \<Rightarrow> int" where
  "big_div a b = sgn a * sgn b * (\<bar>a\<bar> div \<bar>b\<bar>)"

fun account_total :: "json list \<Rightarrow> int \<Rightarrow> int result" where
  "account_total [] t = Inr t"
| "account_total (acc # rest) t =
     bind_result (json_field acc ''amount'') (\<lambda>a.
       if json_truthy a then bind_result (json_BigInt a) (\<lambda>v. account_total rest (t + v)) else account_total rest t)"

fun holdings_of :: "(string \<times> json) list \<Rightarrow> (string, int) jsmap \<Rightarrow> (string, int) jsmap result" where
  "holdings_of [] m = Inr m"
| "holdings_of ((k, v) # rest) m =
     (case v of
        JArray accs \<Rightarrow> bind_result (account_total accs 0) (\<lambda>t. holdings_of rest (AList.update k t m))
      | _ \<Rightarrow> holdings_of rest m)"

text \<open>\<^verbatim>\<open>Object.entries(v)\<close> for a value of type \<^verbatim>\<open>object\<close>, nothing for another one\<close>

fun object_entries :: "json \<Rightarrow> (string \<times> json) list" where
  "object_entries (JObject kvs) = kvs"
| "object_entries (JArray xs) = zip (map show_nat [0..<length xs]) xs"
| "object_entries _ = []"

definition HOLDINGS_CACHE_MS :: int where "HOLDINGS_CACHE_MS = 30000"

definition zero_if_none :: "int option \<Rightarrow> int" where
  "zero_if_none x = (case x of Some v \<Rightarrow> v | None \<Rightarrow> 0)"

definition fetch_holdings :: "('b, 'w) services \<Rightarrow> string \<Rightarrow> ('b, 'w, int option) net_op" where
  "fetch_holdings sv inM =
     catch_op
       (bind_op (request (sv_holdings sv)) (\<lambda>js.
        bind_op (of_result (json_field js ''tokens'')) (\<lambda>tokens.
        bind_op (of_result (holdings_of (object_entries tokens) [])) (\<lambda>balances.
        bind_op (consult (sv_now sv)) (\<lambda>now.
        bind_op (change (\<lambda>n. n\<lparr>holdingsCache := Some (balances, now)\<rparr>)) (\<lambda>_.
          ret (Some (zero_if_none (map_of balances inM)))))))))
       (\<lambda>_. ret None)"

definition getInputBalance :: "('b, 'w) services \<Rightarrow> string \<Rightarrow> ('b, 'w, int option) net_op" where
  "getInputBalance sv inM =
     bind_op (look holdingsCache) (\<lambda>cache.
       case cache of
         None \<Rightarrow> fetch_holdings sv inM
       | Some (data, fetchedAt) \<Rightarrow>
           bind_op (consult (sv_now sv)) (\<lambda>now.
             if now - fetchedAt < HOLDINGS_CACHE_MS then ret (Some (zero_if_none (map_of data inM)))
             else fetch_holdings sv inM))"

definition invalidateHoldingsCache :: "('b, 'w) net \<Rightarrow> ('b, 'w) net" where
  "invalidateHoldingsCache n = n\<lparr>holdingsCache := None\<rparr>"

section \<open>Priority fees\<close>

definition COMPUTE_BUDGET_PROGRAM :: pubkey where
  "COMPUTE_BUDGET_PROGRAM = ''ComputeBudget111111111111111111111111111111''"

definition getJupiterComputeBudgetInstructionType :: "message \<Rightarrow> compiled_ix \<Rightarrow> byte option" where
  "getJupiterComputeBudgetInstructionType msg ix =
     (if programIdIndex ix < length (staticAccountKeys msg) \<and>
         staticAccountKeys msg ! programIdIndex ix = COMPUTE_BUDGET_PROGRAM
      then (case cix_data ix of [] \<Rightarrow> None | b # _ \<Rightarrow> Some b) else None)"

definition stripJupiterComputeUnitPrice :: "message \<Rightarrow> nat \<times> message" where
  "stripJupiterComputeUnitPrice msg =
     (let price = (\<lambda>ix. getJupiterComputeBudgetInstructionType msg ix = Some 3)
      in (length (filter price (compiledInstructions msg)),
          msg\<lparr>compiledInstructions := filter (\<lambda>ix. \<not> price ix) (compiledInstructions msg)\<rparr>))"

section \<open>Sending\<close>

definition send_once :: "('b, 'w) services \<Rightarrow> message \<Rightarrow> ('b, 'w, string) net_op" where
  "send_once sv tx =
     bind_op (submit (SwapTx tx) (sv_send sv (SwapTx tx))) (\<lambda>sig.
     bind_op (request (sv_confirm sv sig)) (\<lambda>_.
     bind_op (request (sv_getTransaction_err sv sig)) (\<lambda>err.
       if err then throw (Error ''TX confirmed but failed on-chain'') else ret sig)))"

fun send_loop :: "('b, 'w) services \<Rightarrow> nat \<Rightarrow> message \<Rightarrow> ('b, 'w, string) net_op" where
  "send_loop sv 0 tx = throw (Error ''All retries exhausted'')"
| "send_loop sv (Suc n) tx = catch_op (send_once sv tx) (\<lambda>e. if n = 0 then throw e else send_loop sv n tx)"

definition sendWithRetry :: "swap_config \<Rightarrow> ('b, 'w) services \<Rightarrow> message \<Rightarrow> ('b, 'w, string) net_op" where
  "sendWithRetry cfg sv tx = send_loop sv (swc_maxRetry cfg) tx"

text \<open>\<^verbatim>\<open>VersionedTransaction.deserialize(Buffer.from(field, 'base64'))\<close>, stripped and signed\<close>

definition decoded_tx :: "('b, 'w) services \<Rightarrow> json \<Rightarrow> message result" where
  "decoded_tx sv field =
     (case field of JString s \<Rightarrow> sv_deserialize sv (base64_decode s) | _ \<Rightarrow> Inl TypeError)"

definition signed_tx :: "('b, 'w) services \<Rightarrow> json \<Rightarrow> ('b, 'w, message) net_op" where
  "signed_tx sv field =
     bind_op (of_result (decoded_tx sv field)) (\<lambda>tx.
       request (sv_signVersioned sv (snd (stripJupiterComputeUnitPrice tx))))"

text \<open>A quote: an answer with a truthy \<^verbatim>\<open>error\<close> or \<^verbatim>\<open>errorCode\<close> is an error too.\<close>

definition get_quote :: "('b, 'w) services \<Rightarrow> string \<Rightarrow> string \<Rightarrow> string \<Rightarrow> ('b, 'w, json) net_op" where
  "get_quote sv inM outM amt =
     bind_op (request (sv_quote sv inM outM amt)) (\<lambda>data.
     bind_op (of_result (json_field data ''error'')) (\<lambda>e.
     bind_op (of_result (json_field data ''errorCode'')) (\<lambda>c.
       if json_truthy e \<or> json_truthy c then throw (Error (js_String (if json_truthy c then c else e))) else ret data)))"

definition buildAndSendMetis :: "swap_config \<Rightarrow> ('b, 'w) services \<Rightarrow> json \<Rightarrow> ('b, 'w, string option) net_op" where
  "buildAndSendMetis cfg sv quote =
     bind_op (try_op (request (sv_swap sv quote))) (\<lambda>r.
       case r of
         Inl e \<Rightarrow> ret None
       | Inr swapData \<Rightarrow>
           catch_op
             (bind_op (of_result (json_field swapData ''swapTransaction'')) (\<lambda>field.
              bind_op (signed_tx sv field) (\<lambda>signed.
              bind_op (sendWithRetry cfg sv signed) (\<lambda>sig.
              bind_op (change invalidateHoldingsCache) (\<lambda>_. ret (Some sig))))))
             (\<lambda>_. ret None))"

definition metisSwap :: "swap_config \<Rightarrow> ('b, 'w) services \<Rightarrow> string \<Rightarrow> string \<Rightarrow> string \<Rightarrow> ('b, 'w, string option) net_op" where
  "metisSwap cfg sv inM outM amt =
     bind_op (try_op (get_quote sv inM outM amt)) (\<lambda>r.
       case r of Inl e \<Rightarrow> ret None | Inr quote \<Rightarrow> buildAndSendMetis cfg sv quote)"

definition get_order :: "('b, 'w) services \<Rightarrow> string \<Rightarrow> string \<Rightarrow> string \<Rightarrow> ('b, 'w, json \<times> json) net_op" where
  "get_order sv inM outM amt =
     bind_op (request (sv_order sv inM outM amt)) (\<lambda>order.
     bind_op (of_result (json_field order ''transaction'')) (\<lambda>tx.
     bind_op (of_result (json_field order ''requestId'')) (\<lambda>rid.
       if json_truthy tx \<and> json_truthy rid then ret (tx, rid) else throw (Error ''Invalid order''))))"

definition ultraSwap :: "('b, 'w) services \<Rightarrow> string \<Rightarrow> string \<Rightarrow> string \<Rightarrow> ('b, 'w, string option) net_op" where
  "ultraSwap sv inM outM amt =
     bind_op (try_op (get_order sv inM outM amt)) (\<lambda>r.
       case r of
         Inl e \<Rightarrow> ret None
       | Inr (tx, rid) \<Rightarrow>
           catch_op
             (bind_op (signed_tx sv tx) (\<lambda>signed.
              bind_op (submit (SwapTx signed) (sv_execute sv signed rid)) (\<lambda>answer.
              bind_op (of_result (json_field answer ''status'')) (\<lambda>status.
              bind_op (of_result (json_field answer ''signature'')) (\<lambda>sig.
                if status = JString ''Success'' \<and> json_truthy sig
                then bind_op (change invalidateHoldingsCache) (\<lambda>_. ret (Some (js_String sig)))
                else throw (Error ''Execute status''))))))
             (\<lambda>_. ret None))"

definition jupSwapExactIn ::
  "swap_config \<Rightarrow> ('b, 'w) services \<Rightarrow> string \<Rightarrow> string \<Rightarrow> string \<Rightarrow> ('b, 'w, string option) net_op" where
  "jupSwapExactIn cfg sv inM outM amt = (if swc_ultra cfg then ultraSwap sv inM outM amt else metisSwap cfg sv inM outM amt)"

section \<open>Swapping for a wanted amount\<close>

text \<open>The input for a wanted output at the rate of the probe; a zero output has no rate.\<close>

definition needed_input :: "json \<Rightarrow> string \<Rightarrow> int option result" where
  "needed_input probe outputAmountRaw =
     bind_result (json_field probe ''inAmount'') (\<lambda>i.
     bind_result (json_BigInt i) (\<lambda>probeIn.
     bind_result (json_field probe ''outAmount'') (\<lambda>out.
     bind_result (json_BigInt out) (\<lambda>probeOut.
       if probeOut = 0 then Inr None
       else bind_result (BigInt_of outputAmountRaw) (\<lambda>desired. Inr (Some (big_div (desired * probeIn) probeOut)))))))"

definition balance_short :: "int option \<Rightarrow> json \<Rightarrow> bool result" where
  "balance_short inputBalance quote =
     (case inputBalance of
        None \<Rightarrow> Inr False
      | Some b \<Rightarrow> bind_result (json_field quote ''inAmount'') (\<lambda>i. bind_result (json_BigInt i) (\<lambda>need. Inr (b < need))))"

definition swapForToken ::
  "swap_config \<Rightarrow> ('b, 'w) services \<Rightarrow> string \<Rightarrow> string \<Rightarrow> string \<Rightarrow> ('b, 'w, string option) net_op" where
  "swapForToken cfg sv inM outM outputAmountRaw =
     (if swc_dryRun cfg then ret (Some ''dry-run-swap'')
      else bind_op (try_op (get_quote sv inM outM ''1000000'')) (\<lambda>r.
        case r of
          Inl e \<Rightarrow> ret None
        | Inr probe \<Rightarrow>
            bind_op (of_result (needed_input probe outputAmountRaw)) (\<lambda>n.
              case n of
                None \<Rightarrow> ret None
              | Some needed \<Rightarrow>
                  bind_op (try_op (get_quote sv inM outM (show_int needed))) (\<lambda>q.
                    case q of
                      Inl e \<Rightarrow> ret None
                    | Inr quote \<Rightarrow>
                        bind_op (getInputBalance sv inM) (\<lambda>bal.
                        bind_op (of_result (balance_short bal quote)) (\<lambda>short.
                          if short then ret None else jupSwapExactIn cfg sv inM outM (show_int needed)))))))"

definition swapViaByrealPool ::
  "'b BN \<Rightarrow> swap_config \<Rightarrow> ('b, 'w) services \<Rightarrow> 'b pool_info \<Rightarrow> pubkey \<Rightarrow> string \<Rightarrow> ('b, 'w, string option) net_op" where
  "swapViaByrealPool bn cfg sv pl outM outputAmountRaw =
     (if swc_dryRun cfg then ret (Some ''dry-run-byreal-swap'')
      else catch_op
        (bind_op (of_result (bn_of_string bn outputAmountRaw)) (\<lambda>wanted.
         bind_op (request (sv_quoteExactOut sv pl outM wanted)) (\<lambda>quote.
         bind_op (of_result (bn_of_string bn
           (if \<not> isOutputMintA quote then ''4295048017'' else ''79226673521066979257578248090''))) (\<lambda>limit.
         let tx = PoolSwapTx pl (quote\<lparr>executionPrice := limit\<rparr>)
         in bind_op (submit tx (sv_send sv tx)) (\<lambda>sig. ret (Some sig))))))
        (\<lambda>_. ret None))"

definition executeJupiterSwap ::
  "swap_config \<Rightarrow> ('b, 'w) services \<Rightarrow> string \<Rightarrow> string \<Rightarrow> string \<Rightarrow> nat \<Rightarrow> ('b, 'w, string option) net_op" where
  "executeJupiterSwap cfg sv inM outM inputAmountUi inDecimals =
     (let rawAmount = num_floor (num_mul (parseFloat inputAmountUi) (to_num (10 ^ inDecimals)));
          scaled = scaleNumericAmount (swc_ratios cfg) rawAmount None
      in if num_le scaled (Num 0) then ret None
         else if swc_dryRun cfg then ret (Some ''dry-run-jupiter-swap'')
         else jupSwapExactIn cfg sv inM outM (num_toString scaled))"

section \<open>What a swap brought\<close>

definition owned_amount :: "string \<Rightarrow> string \<Rightarrow> TokenBalance list \<Rightarrow> int result" where
  "owned_amount outM wallet bs =
     (case find (\<lambda>b. mint b = outM \<and> owner b = Some wallet) bs of
        None \<Rightarrow> Inr 0
      | Some b \<Rightarrow> if amount (uiTokenAmount b) = [] then Inr 0 else BigInt_of (amount (uiTokenAmount b)))"

definition swap_output :: "string \<Rightarrow> string \<Rightarrow> TxMeta \<Rightarrow> string option result" where
  "swap_output outM wallet meta =
     bind_result (owned_amount outM wallet (or_empty preTokenBalances (Some meta))) (\<lambda>preAmount.
     bind_result (owned_amount outM wallet (or_empty postTokenBalances (Some meta))) (\<lambda>postAmount.
       Inr (if postAmount \<le> preAmount then None else Some (show_int (postAmount - preAmount)))))"

fun output_loop :: "('b, 'w) services \<Rightarrow> nat \<Rightarrow> string \<Rightarrow> string \<Rightarrow> string \<Rightarrow> ('b, 'w, string option) net_op" where
  "output_loop sv 0 sig outM wallet = ret None"
| "output_loop sv (Suc n) sig outM wallet =
     bind_op (try_op (bind_op (request (sv_getParsedTransaction sv sig)) (\<lambda>tx.
         case Option.bind tx tx_meta of
           None \<Rightarrow> ret None
         | Some meta \<Rightarrow> bind_op (of_result (swap_output outM wallet meta)) (\<lambda>r. ret (Some r)))))
       (\<lambda>r. case r of
              Inr (Some out) \<Rightarrow> ret out
            | _ \<Rightarrow> if n > 0 then output_loop sv n sig outM wallet else ret None)"

definition getActualSwapOutput :: "('b, 'w) services \<Rightarrow> string \<Rightarrow> string \<Rightarrow> string \<Rightarrow> ('b, 'w, string option) net_op" where
  "getActualSwapOutput sv sig outM wallet = output_loop sv 3 sig outM wallet"

section \<open>Lemmas\<close>

definition no_price_ix :: "message \<Rightarrow> bool" where
  "no_price_ix msg \<longleftrightarrow> (\<forall>ix \<in> set (compiledInstructions msg). getJupiterComputeBudgetInstructionType msg ix \<noteq> Some 3)"

lemma ix_type_indep:
  "getJupiterComputeBudgetInstructionType (msg\<lparr>compiledInstructions := xs\<rparr>) ix = getJupiterComputeBudgetInstructionType msg ix"
  by (simp add: getJupiterComputeBudgetInstructionType_def)

lemma strip_no_price: "no_price_ix (snd (stripJupiterComputeUnitPrice msg))"
  by (simp add: no_price_ix_def stripJupiterComputeUnitPrice_def Let_def ix_type_indep)

text \<open>Signing leaves the message alone, as the wallet's documentation says.\<close>

definition signs_message :: "('b, 'w) services \<Rightarrow> bool" where
  "signs_message sv \<longleftrightarrow> (\<forall>msg w msg' w'. sv_signVersioned sv msg w = (Inr msg', w') \<longrightarrow> msg' = msg)"

lemma gives_request: "gives (request f) a \<Longrightarrow> \<exists>w w'. f w = (Inr a, w')"
  unfolding gives_def request_def by (force split: prod.splits)

lemma signed_tx_gives:
  assumes "signs_message sv" and "gives (signed_tx sv field) msg"
  shows "no_price_ix msg"
  using assms(2) unfolding signed_tx_def
proof (elim gives_bindE)
  fix tx
  assume "gives (request (sv_signVersioned sv (snd (stripJupiterComputeUnitPrice tx)))) msg"
  then have "msg = snd (stripJupiterComputeUnitPrice tx)"
    using assms(1) unfolding signs_message_def by (blast dest: gives_request)
  then show ?thesis by (simp add: strip_no_price)
qed

lemma swap_submits:
  assumes "\<And>msg. gives (signed_tx sv field) msg \<Longrightarrow> P (SwapTx msg)"
  shows "\<And>msg. P (SwapTx msg) \<Longrightarrow> submits P (send_loop sv n msg)" and "submits P (signed_tx sv field)"
proof -
  show "submits P (send_loop sv n msg)" if "P (SwapTx msg)" for msg
    by (induction n) (auto intro!: submits_rules that simp: send_once_def)
  show "submits P (signed_tx sv field)"
    unfolding signed_tx_def by (intro logs.bind submits_simple) (auto intro!: submits_rules)
qed

lemma jupSwap_submits:
  assumes "\<And>field msg. gives (signed_tx sv field) msg \<Longrightarrow> P (SwapTx msg)"
  shows "submits P (jupSwapExactIn cfg sv inM outM amt)"
proof -
  have q: "submits P (get_quote sv i out a)" for i out a by (auto simp: get_quote_def intro!: submits_rules)
  have r: "submits P (get_order sv i out a)" for i out a by (auto simp: get_order_def intro!: submits_rules)
  have b: "submits P (buildAndSendMetis cfg sv quote)" for quote
    unfolding buildAndSendMetis_def sendWithRetry_def
    by (auto intro!: submits_rules swap_submits assms simp: invalidateHoldingsCache_def split: sum.splits)
  have "submits P (metisSwap cfg sv inM outM amt)"
    unfolding metisSwap_def by (auto intro!: submits_rules q b split: sum.splits)
  moreover have "submits P (ultraSwap sv inM outM amt)"
    unfolding ultraSwap_def
    by (auto intro!: submits_rules r swap_submits(2) assms simp: invalidateHoldingsCache_def split: sum.splits prod.splits)
  ultimately show ?thesis by (simp add: jupSwapExactIn_def)
qed

lemma swapForToken_submits:
  assumes "\<And>field msg. gives (signed_tx sv field) msg \<Longrightarrow> P (SwapTx msg)"
  shows "submits P (swapForToken cfg sv inM outM amt)"
proof -
  have q: "submits P (get_quote sv i out a)" for i out a by (auto simp: get_quote_def intro!: submits_rules)
  have f: "submits P (fetch_holdings sv i)" for i by (auto simp: fetch_holdings_def intro!: submits_rules)
  have g: "submits P (getInputBalance sv i)" for i
    unfolding getInputBalance_def by (auto intro!: submits_rules f split: option.splits prod.splits)
  show ?thesis
    unfolding swapForToken_def
    by (auto intro!: submits_rules q g jupSwap_submits assms split: sum.splits option.splits)
qed

lemma jupSwap_dry: "swc_dryRun cfg \<Longrightarrow> swapForToken cfg sv inM outM amt = ret (Some ''dry-run-swap'')"
  "swc_dryRun cfg \<Longrightarrow> swapViaByrealPool bn cfg sv pl outM amt = ret (Some ''dry-run-byreal-swap'')"
  by (simp_all add: swapForToken_def swapViaByrealPool_def)

lemma poolSwap_submits:
  "(\<And>q. P (PoolSwapTx pl q)) \<Longrightarrow> submits P (swapViaByrealPool bn cfg sv pl outM amt)"
  unfolding swapViaByrealPool_def Let_def by (auto intro!: submits_rules)

lemma output_submits: "submits P (getActualSwapOutput sv sig outM wallet)"
proof -
  have "submits P (output_loop sv n sig outM wallet)" for n
    by (induction n) (auto intro!: submits_rules split: sum.splits option.splits)
  then show ?thesis by (simp add: getActualSwapOutput_def)
qed

end
