(* ===== verification/Dac.thy ===== *)
theory Dac
  imports Histories Asset_Trend Jupiter_Swap
begin

text \<open>
  The daily conversion of profits, \<^verbatim>\<open>src/executor/dac.ts\<close>: once a day the growth of the assets without SOL is compared
  with a threshold, USDC is swapped for a BTC token, and what the swap brought is transferred to another wallet. A run
  works on the traffic \<open>net\<close> and on the record it fills in; the module's variables are \<open>dac_bot\<close>. Two runs may overlap
  in time, so a run is split where the code first waits: \<open>dac_begin\<close> up to there, \<open>dac_finish\<close> from there on.

  The notification that ends a run is output. The text of an error is that of its \<^verbatim>\<open>Error\<close>; the texts of the
  engine's own errors are left out.
\<close>

section \<open>Configuration, services and state\<close>

record dac_config =
  dacEnabled :: bool
  dacAmountUsd :: js_num
  dacThresholdMultiplier :: js_num
  dacExecuteHour :: int
  dacExecuteMinute :: int
  dacTransferTo :: string
  dacTargetMint :: string
  dacTargetSymbol :: string

text \<open>
  What a run asks beside the services of \<open>Chain_World\<close>: the snapshots 15 seconds after a forced one, the raw balance
  and the decimals of the wallet's account for a mint, and whether a text is a public key and a wallet has an
  associated account for a mint (\<^verbatim>\<open>new PublicKey\<close> and \<^verbatim>\<open>getAssociatedTokenAddressSync\<close>, which may throw).
\<close>

record 'w dac_services =
  ds_trend :: "'w \<Rightarrow> trend \<times> 'w"
  ds_tokenBalance :: "string \<Rightarrow> 'w \<Rightarrow> (string \<times> nat) result \<times> 'w"
  ds_publicKey :: "string \<Rightarrow> unit result"
  ds_ata :: "string \<Rightarrow> string \<Rightarrow> unit result"

record ('b, 'w) dac_bot =
  dac_net :: "('b, 'w) net"
  dacHistory :: "DacRecord list"
  dacRunning :: bool
  dac_calls :: "DacRecord list" \<comment> \<open>queued repository calls\<close>
  dac_timer :: "millis option"
  nextScheduledTime :: millis

type_synonym ('b, 'w, 'a) dac_op = "(('b, 'w) net \<times> DacRecord, 'a) op"

definition on_net :: "('b, 'w, 'a) net_op \<Rightarrow> ('b, 'w, 'a) dac_op" where
  "on_net m = zoom fst apfst m"

definition jot :: "(DacRecord \<Rightarrow> DacRecord) \<Rightarrow> ('b, 'w, unit) dac_op" where
  "jot f = change (apsnd f)"

section \<open>Scheduling\<close>

text \<open>\<open>now\<close> and \<open>now'\<close>: the clock as the two calls read it. The timer is due \<open>ms\<close> milliseconds after it is set.\<close>

definition scheduleNextDac :: "dac_config \<Rightarrow> millis \<Rightarrow> millis \<Rightarrow> ('b, 'w) dac_bot \<Rightarrow> ('b, 'w) dac_bot" where
  "scheduleNextDac cfg now now' s =
     (if \<not> dacEnabled cfg then s
      else let ms = msUntilNextDac (dacExecuteHour cfg) (dacExecuteMinute cfg) now
           in s\<lparr>nextScheduledTime := now' + ms, dac_timer := Some (now' + ms)\<rparr>)"

definition startDacScheduler :: "dac_config \<Rightarrow> DacRecord ring \<Rightarrow> millis \<Rightarrow> millis \<Rightarrow> ('b, 'w) dac_bot \<Rightarrow> ('b, 'w) dac_bot" where
  "startDacScheduler cfg t now now' s = scheduleNextDac cfg now now' (s\<lparr>dacHistory := listDac MAX_DAC_HISTORY t\<rparr>)"

definition stopDacScheduler :: "('b, 'w) dac_bot \<Rightarrow> ('b, 'w) dac_bot" where
  "stopDacScheduler s = s\<lparr>dac_timer := None\<rparr>"

section \<open>The profit\<close>

definition taipei_midnight :: "millis \<Rightarrow> millis" where
  "taipei_midnight now = setUTCHours 0 0 (now + 8 * 60 * 60 * 1000) - 8 * 60 * 60 * 1000"

definition without_sol :: "AssetSnapshot \<Rightarrow> js_num" where
  "without_sol s =
     num_sub (num_sub (snap_field ''totalUsd'' s) (num_or (map_of (as_fields s) ''solBalanceUsd'') (Num 0)))
       (num_or (map_of (as_fields s) ''lockedSolUsd'') (Num 0))"

definition profit_of :: "trend \<Rightarrow> millis \<Rightarrow> js_num result" where
  "profit_of t now =
     (case find (\<lambda>s. as_ts s < taipei_midnight now) (rev (tr_daily t)) of
        None \<Rightarrow> Inr (Num 0)
      | Some yesterday \<Rightarrow>
          if tr_raw t = [] then Inr (Num 0)
          else bind_result (toISOString (as_ts yesterday)) (\<lambda>_. Inr (num_sub (without_sol (last (tr_raw t))) (without_sol yesterday))))"

definition calculateProfit :: "('b, 'w) services \<Rightarrow> 'w dac_services \<Rightarrow> ('b, 'w, js_num) net_op" where
  "calculateProfit sv ds =
     bind_op (consult (ds_trend ds)) (\<lambda>t. bind_op (consult (sv_now sv)) (\<lambda>now. of_result (profit_of t now)))"

section \<open>Swap and transfer\<close>

definition fixed2 :: "js_num \<Rightarrow> string" where
  "fixed2 x = (case toFixed x 2 of Inr s \<Rightarrow> s | Inl e \<Rightarrow> [])"

definition received_text :: "int \<Rightarrow> nat \<Rightarrow> string result" where
  "received_text d dec = toFixed (num_quot (to_num (of_int d)) (to_num (10 ^ dec))) dec"

definition set_received :: "string \<Rightarrow> DacRecord \<Rightarrow> DacRecord" where
  "set_received t r = r\<lparr>dr_cbbtcReceived := t, dr_tokenReceived := t\<rparr>"

definition set_status :: "dac_status \<Rightarrow> string \<Rightarrow> DacRecord \<Rightarrow> DacRecord" where
  "set_status st reason r = r\<lparr>dr_status := st, dr_reason := Some reason\<rparr>"

definition dac_transfer ::
  "('b, 'w) services \<Rightarrow> 'w dac_services \<Rightarrow> string \<Rightarrow> string \<Rightarrow> string \<Rightarrow> int \<Rightarrow> ('b, 'w, unit) dac_op" where
  "dac_transfer sv ds transferTo targetMint targetSymbol preSwapBalance =
     catch_op
       (bind_op (of_result (ds_publicKey ds transferTo)) (\<lambda>_.
        bind_op (of_result (ds_ata ds targetMint transferTo)) (\<lambda>_.
        bind_op (on_net (request (ds_tokenBalance ds targetMint))) (\<lambda>(amt, dec).
        bind_op (of_result (BigInt_of amt)) (\<lambda>postSwapBalance.
          let transferAmount = postSwapBalance - preSwapBalance;
              tx = TransferTx targetMint transferTo transferAmount dec
          in bind_op (of_result (received_text transferAmount dec)) (\<lambda>t.
             bind_op (jot (set_received t)) (\<lambda>_.
               if transferAmount \<le> 0 then jot (set_status dac_transfer_failed (targetSymbol @ '' delta is 0 after swap''))
               else bind_op (on_net (submit tx (sv_send sv tx))) (\<lambda>sig.
                    bind_op (on_net (request (sv_confirm sv sig))) (\<lambda>_.
                      jot (\<lambda>r. r\<lparr>dr_transferSig := Some sig, dr_status := dac_success\<rparr>))))))))))
       (\<lambda>e. jot (set_status dac_transfer_failed (''Transfer failed: '' @ error_message e)))"

definition dac_no_transfer :: "'w dac_services \<Rightarrow> string \<Rightarrow> int \<Rightarrow> ('b, 'w, unit) dac_op" where
  "dac_no_transfer ds targetMint preSwapBalance =
     bind_op (jot (\<lambda>r. r\<lparr>dr_status := dac_success\<rparr>)) (\<lambda>_.
       catch_op
         (bind_op (on_net (request (ds_tokenBalance ds targetMint))) (\<lambda>(amt, dec).
          bind_op (of_result (BigInt_of amt)) (\<lambda>postBalance.
          bind_op (of_result (received_text (postBalance - preSwapBalance) dec)) (\<lambda>t. jot (set_received t)))))
         (\<lambda>_. ret ()))"

text \<open>The balance before the swap; an account that cannot be read counts as empty.\<close>

definition pre_balance :: "'w dac_services \<Rightarrow> string \<Rightarrow> ('b, 'w, int) net_op" where
  "pre_balance ds targetMint =
     catch_op (bind_op (request (ds_tokenBalance ds targetMint)) (\<lambda>(amt, dec). of_result (BigInt_of amt))) (\<lambda>_. ret 0)"

definition executeDacSwapAndTransfer ::
  "swap_config \<Rightarrow> ('b, 'w) services \<Rightarrow> 'w dac_services \<Rightarrow> js_num \<Rightarrow> js_num \<Rightarrow> string \<Rightarrow> string \<Rightarrow> string \<Rightarrow> bool \<Rightarrow>
   ('b, 'w, unit) dac_op" where
  "executeDacSwapAndTransfer sc sv ds amountUsd thresholdMultiplier transferTo targetMint targetSymbol skipProfitCheck =
     bind_op (on_net (calculateProfit sv ds)) (\<lambda>profit.
     bind_op (jot (\<lambda>r. r\<lparr>dr_profitUsd := fixed_to 2 profit\<rparr>)) (\<lambda>_.
       let threshold = num_mul amountUsd thresholdMultiplier
       in if \<not> skipProfitCheck \<and> num_lt profit threshold
          then jot (\<lambda>r. r\<lparr>dr_reason := Some (''profit $'' @ fixed2 profit @ '' below threshold $'' @ fixed2 threshold)\<rparr>)
          else
            bind_op (of_result (ds_publicKey ds targetMint)) (\<lambda>_.
            bind_op (of_result (ds_ata ds targetMint (swc_user sc))) (\<lambda>_.
            bind_op (on_net (pre_balance ds targetMint)) (\<lambda>preSwapBalance.
            bind_op (on_net (jupSwapExactIn sc sv USDC_MINT targetMint (num_toString (num_floor (num_mul amountUsd (Num 1000000))))))
              (\<lambda>swapSig.
            bind_op (jot (\<lambda>r. r\<lparr>dr_swapSig := swapSig\<rparr>)) (\<lambda>_.
              if \<not> truthy swapSig then jot (set_status dac_swap_failed ''Jupiter swap returned null'')
              else if transferTo \<noteq> [] then dac_transfer sv ds transferTo targetMint targetSymbol preSwapBalance
              else dac_no_transfer ds targetMint preSwapBalance)))))))"

section \<open>A run\<close>

definition dac_record :: "dac_config \<Rightarrow> millis \<Rightarrow> string \<Rightarrow> string option \<Rightarrow> DacRecord" where
  "dac_record cfg ts symbol reason =
     \<lparr>dr_ts = ts, dr_profitUsd = Num 0, dr_dacAmountUsd = num_or (Some (dacAmountUsd cfg)) (Num 0), dr_cbbtcReceived = [],
      dr_tokenReceived = [], dr_tokenSymbol = symbol, dr_tokenMint = dacTargetMint cfg, dr_swapSig = None,
      dr_transferSig = None, dr_transferTo = dacTransferTo cfg, dr_status = dac_skipped, dr_reason = reason\<rparr>"

definition alreadyRanToday :: "millis \<Rightarrow> DacRecord list \<Rightarrow> bool" where
  "alreadyRanToday now history = list_ex (\<lambda>r. dr_status r = dac_success \<and> dr_ts r \<ge> taipei_midnight now) history"

text \<open>Up to the first wait: either the answer at once, or the record of the run that has begun.\<close>

definition dac_begin ::
  "dac_config \<Rightarrow> bool \<Rightarrow> millis \<Rightarrow> millis \<Rightarrow> ('b, 'w) dac_bot \<Rightarrow> (DacRecord + DacRecord) \<times> ('b, 'w) dac_bot" where
  "dac_begin cfg skipProfitCheck now ts s =
     (if dacRunning s
      then (Inl (dac_record cfg ts (dacTargetSymbol cfg) (Some ''Another DAC run already in progress'')), s)
      else if \<not> skipProfitCheck \<and> alreadyRanToday now (dacHistory s)
      then (Inl (dac_record cfg ts (dacTargetSymbol cfg) (Some ''Already ran successfully today'')), s\<lparr>dacRunning := False\<rparr>)
      else (Inr (dac_record cfg ts (if dacTargetSymbol cfg = [] then ''BTC'' else dacTargetSymbol cfg) None), s\<lparr>dacRunning := True\<rparr>))"

definition dac_body ::
  "dac_config \<Rightarrow> swap_config \<Rightarrow> ('b, 'w) services \<Rightarrow> 'w dac_services \<Rightarrow> bool \<Rightarrow> ('b, 'w, unit) dac_op" where
  "dac_body cfg sc sv ds skipProfitCheck =
     (let amountUsd = num_or (Some (dacAmountUsd cfg)) (Num 0);
          thresholdMultiplier = num_or (Some (dacThresholdMultiplier cfg)) (Num 1);
          targetSymbol = (if dacTargetSymbol cfg = [] then ''BTC'' else dacTargetSymbol cfg)
      in catch_op
           (if num_le amountUsd (Num 0) then jot (\<lambda>r. r\<lparr>dr_reason := Some ''dacAmountUsd is 0 or negative, skipping''\<rparr>)
            else executeDacSwapAndTransfer sc sv ds amountUsd thresholdMultiplier (dacTransferTo cfg) (dacTargetMint cfg)
                   targetSymbol skipProfitCheck)
           (\<lambda>e. jot (set_status dac_swap_failed (''Unexpected error: '' @ error_message e))))"

definition dac_finish ::
  "dac_config \<Rightarrow> swap_config \<Rightarrow> ('b, 'w) services \<Rightarrow> 'w dac_services \<Rightarrow> bool \<Rightarrow> DacRecord \<Rightarrow> ('b, 'w) dac_bot \<Rightarrow>
   DacRecord \<times> ('b, 'w) dac_bot" where
  "dac_finish cfg sc sv ds skipProfitCheck rec s =
     (case snd (dac_body cfg sc sv ds skipProfitCheck (dac_net s, rec)) of
        (n, r) \<Rightarrow>
          (case saveDac r (dacHistory s) of
             (history, calls) \<Rightarrow>
               (r, s\<lparr>dac_net := n, dacRunning := False, dacHistory := history, dac_calls := dac_calls s @ calls\<rparr>)))"

definition triggerDac ::
  "dac_config \<Rightarrow> swap_config \<Rightarrow> ('b, 'w) services \<Rightarrow> 'w dac_services \<Rightarrow> bool \<Rightarrow> millis \<Rightarrow> millis \<Rightarrow> ('b, 'w) dac_bot \<Rightarrow>
   DacRecord \<times> ('b, 'w) dac_bot" where
  "triggerDac cfg sc sv ds skipProfitCheck now ts s =
     (case dac_begin cfg skipProfitCheck now ts s of
        (Inl r, s') \<Rightarrow> (r, s')
      | (Inr r, s') \<Rightarrow> dac_finish cfg sc sv ds skipProfitCheck r s')"


text \<open>The callback of the timer: a run, then the next timer.\<close>

definition dac_timer_fires ::
  "dac_config \<Rightarrow> swap_config \<Rightarrow> ('b, 'w) services \<Rightarrow> 'w dac_services \<Rightarrow> millis \<Rightarrow> millis \<Rightarrow> millis \<Rightarrow> millis \<Rightarrow>
   ('b, 'w) dac_bot \<Rightarrow> ('b, 'w) dac_bot" where
  "dac_timer_fires cfg sc sv ds now ts now1 now2 s =
     scheduleNextDac cfg now1 now2 (snd (triggerDac cfg sc sv ds False now ts (s\<lparr>dac_timer := None\<rparr>)))"

section \<open>What a run hands over\<close>

lemmas dac_run_simps = on_net_def zoom_def jot_def op_simps set_status_def set_received_def apfst_def apsnd_def

definition is_swap :: "'b chain_tx \<Rightarrow> bool" where
  "is_swap t \<longleftrightarrow> (\<exists>msg. t = SwapTx msg)"

text \<open>The transfers of a run: none, or one of what the balance grew by.\<close>

definition dac_transfers :: "string \<Rightarrow> string \<Rightarrow> 'b chain_tx list \<Rightarrow> bool" where
  "dac_transfers m dest ts \<longleftrightarrow> ts = [] \<or> (\<exists>a dec. 0 < a \<and> ts = [TransferTx m dest a dec])"

lemma on_net_bind: "bind_op (on_net m) f (n, r) = (case m n of (Inl e, n') \<Rightarrow> (Inl e, (n', r)) | (Inr a, n') \<Rightarrow> f a (n', r))"
  by (simp add: bind_op_def dac_run_simps split: prod.splits sum.splits)

lemma jot_run: "jot f (n, r) = (Inr (), (n, f r))" "bind_op (jot f) g (n, r) = g () (n, f r)"
  by (simp_all add: dac_run_simps bind_op_def)

lemma result_bind: "bind_op (of_result x) f s = (case x of Inl e \<Rightarrow> (Inl e, s) | Inr a \<Rightarrow> f a s)"
  by (simp add: bind_op_def op_simps split: sum.splits)

lemma dac_transfer_run:
  assumes "dac_transfer sv ds dest m sy pre (n, r) = (x, (n', r'))"
  shows "\<exists>ts. sent n' = sent n @ ts \<and> dac_transfers m dest ts \<and>
    (dr_status r' = dac_success \<and> ts \<noteq> [] \<or> dr_status r' = dac_transfer_failed) \<and>
    dr_ts r' = dr_ts r \<and> dr_swapSig r' = dr_swapSig r"
  using assms unfolding dac_transfer_def catch_op_def
  by (auto simp: on_net_bind jot_run result_bind request_def submit_def set_status_def set_received_def dac_transfers_def Let_def
      split: prod.splits sum.splits if_splits)

lemma dac_no_transfer_run:
  assumes "dac_no_transfer ds m pre (n, r) = (x, (n', r'))"
  shows "sent n' = sent n" "dr_status r' = dac_success" "dr_ts r' = dr_ts r" "dr_swapSig r' = dr_swapSig r"
  using assms unfolding dac_no_transfer_def catch_op_def jot_run
  by (auto simp: on_net_bind jot_run result_bind request_def set_received_def op_simps split: prod.splits sum.splits)

lemma submitted_by: "submits P m \<Longrightarrow> m n = (x, n') \<Longrightarrow> \<exists>ts. sent n' = sent n @ ts \<and> list_all P ts"
  by (drule (1) alwaysD) (simp add: logs_only_def)

lemma dac_swap_run: "jupSwapExactIn sc sv a b c n = (x, n') \<Longrightarrow> \<exists>ts. sent n' = sent n @ ts \<and> list_all is_swap ts"
  by (rule submitted_by [OF jupSwap_submits]) (simp_all add: is_swap_def)

lemma pre_balance_run: "pre_balance ds m n = (x, n') \<Longrightarrow> sent n' = sent n"
  unfolding pre_balance_def catch_op_def
  by (auto simp: bind_op_def request_def op_simps split: prod.splits sum.splits)

lemma profit_run: "calculateProfit sv ds n = (x, n') \<Longrightarrow> sent n' = sent n"
  unfolding calculateProfit_def by (auto simp: bind_op_def consult_def op_simps split: prod.splits sum.splits)

text \<open>The contract of a run, on the transactions it hands over and the record it leaves.\<close>

definition dac_outcome :: "string \<Rightarrow> string \<Rightarrow> 'b chain_tx list \<Rightarrow> DacRecord \<Rightarrow> bool" where
  "dac_outcome m dest ts r \<longleftrightarrow> (\<exists>swaps tr. ts = swaps @ tr \<and> list_all is_swap swaps \<and> dac_transfers m dest tr \<and>
     (tr \<noteq> [] \<longrightarrow> truthy (dr_swapSig r) \<and> dest \<noteq> []) \<and>
     (dr_status r = dac_success \<longrightarrow> truthy (dr_swapSig r) \<and> (tr \<noteq> [] \<or> dest = [])) \<and>
     (dr_status r = dac_skipped \<longrightarrow> ts = []))"

lemma outcome_intros:
  "dr_status r \<noteq> dac_success \<Longrightarrow> dac_outcome m dest [] r"
  "list_all is_swap ts \<Longrightarrow> dr_status r = dac_swap_failed \<Longrightarrow> dac_outcome m dest ts r"
  "list_all is_swap ts \<Longrightarrow> truthy (dr_swapSig r) \<Longrightarrow> dr_status r = dac_success \<Longrightarrow> dac_outcome m [] ts r"
  "list_all is_swap ts \<Longrightarrow> truthy (dr_swapSig r) \<Longrightarrow> dest \<noteq> [] \<Longrightarrow> dac_transfers m dest tr \<Longrightarrow>
     dr_status r = dac_success \<and> tr \<noteq> [] \<or> dr_status r = dac_transfer_failed \<Longrightarrow> dac_outcome m dest (ts @ tr) r"
  unfolding dac_outcome_def dac_transfers_def
  by (auto intro: exI [of _ "[]"] exI [of _ ts])

text \<open>A thrown error leaves only swaps behind; the caller books it as a failed swap.\<close>

lemma execute_run:
  assumes "executeDacSwapAndTransfer sc sv ds amt k dest m sy byHand (n, r) = (x, (n', r'))" and "dr_status r = dac_skipped"
  shows "\<exists>ts. sent n' = sent n @ ts \<and> dr_ts r' = dr_ts r \<and>
    (case x of Inr _ \<Rightarrow> dac_outcome m dest ts r' | Inl _ \<Rightarrow> list_all is_swap ts)"
proof -
  obtain p n1 where p: "calculateProfit sv ds n = (p, n1)" by fastforce
  have s1: "sent n1 = sent n" using p by (rule profit_run)
  obtain b n2 where b: "pre_balance ds m n1 = (b, n2)" by fastforce
  have s2: "sent n2 = sent n1" using b by (rule pre_balance_run)
  obtain w n3 where w: "jupSwapExactIn sc sv USDC_MINT m (num_toString (num_floor (num_mul amt (Num 1000000)))) n2 = (w, n3)"
    by fastforce
  obtain ts where s3: "sent n3 = sent n2 @ ts" "list_all is_swap ts" using dac_swap_run [OF w] by blast
  show ?thesis
  proof (cases "\<exists>sig pr pb. w = Inr sig \<and> truthy sig \<and> p = Inr pr \<and> b = Inr pb \<and> (byHand \<or> \<not> num_lt pr (num_mul amt k)) \<and>
      ds_publicKey ds m = Inr () \<and> ds_ata ds m (swc_user sc) = Inr ()")
    case True
    then obtain sig pr pb where k: "w = Inr sig" "truthy sig" "p = Inr pr" "b = Inr pb"
      "byHand \<or> \<not> num_lt pr (num_mul amt k)" "ds_publicKey ds m = Inr ()" "ds_ata ds m (swc_user sc) = Inr ()" by blast
    define r1 where "r1 = r\<lparr>dr_profitUsd := fixed_to 2 pr, dr_swapSig := sig\<rparr>"
    have eq: "(if dest \<noteq> [] then dac_transfer sv ds dest m sy pb else dac_no_transfer ds m pb) (n3, r1) = (x, (n', r'))"
      using assms(1) k p b w unfolding executeDacSwapAndTransfer_def
      by (auto simp: on_net_bind jot_run result_bind Let_def r1_def split: if_splits)
    show ?thesis
    proof (cases "dest = []")
      case True
      with eq have "dac_no_transfer ds m pb (n3, r1) = (x, (n', r'))" by simp
      note run = dac_no_transfer_run [OF this]
      have "dac_outcome m [] ts r'" using s3(2) run(2,4) k(2) by (intro outcome_intros(3)) (simp_all add: r1_def)
      then show ?thesis using run(1,3) s1 s2 s3 True by (auto simp: r1_def split: sum.splits)
    next
      case False
      with eq have "dac_transfer sv ds dest m sy pb (n3, r1) = (x, (n', r'))" by simp
      from dac_transfer_run [OF this] obtain tr where tr: "sent n' = sent n3 @ tr" "dac_transfers m dest tr"
        "dr_status r' = dac_success \<and> tr \<noteq> [] \<or> dr_status r' = dac_transfer_failed" "dr_ts r' = dr_ts r1" "dr_swapSig r' = dr_swapSig r1"
        by blast
      have "dac_outcome m dest (ts @ tr) r'" using s3(2) False tr k(2) by (intro outcome_intros(4)) (simp_all add: r1_def)
      moreover have "\<exists>u. x = Inr u"
        using \<open>dac_transfer sv ds dest m sy pb (n3, r1) = (x, (n', r'))\<close>
        by (auto simp: dac_transfer_def catch_op_def jot_run split: prod.splits sum.splits)
      ultimately show ?thesis using tr s1 s2 s3 by (auto simp: r1_def)
    qed
  next
    case False
    then show ?thesis
      using assms p b w s1 s2 s3 unfolding executeDacSwapAndTransfer_def
      by (auto simp: on_net_bind jot_run result_bind Let_def set_status_def intro!: outcome_intros split: sum.splits if_splits)
  qed
qed

lemma dac_body_run:
  assumes "snd (dac_body cfg sc sv ds byHand (n, r)) = (n', r')" and "dr_status r = dac_skipped"
  shows "\<exists>ts. sent n' = sent n @ ts \<and> dr_ts r' = dr_ts r \<and> dac_outcome (dacTargetMint cfg) (dacTransferTo cfg) ts r'"
proof (cases "num_le (num_or (Some (dacAmountUsd cfg)) (Num 0)) (Num 0)")
  case True
  then show ?thesis using assms by (auto simp: dac_body_def catch_op_def jot_run intro!: outcome_intros(1))
next
  case False
  define m where "m = executeDacSwapAndTransfer sc sv ds (num_or (Some (dacAmountUsd cfg)) (Num 0))
    (num_or (Some (dacThresholdMultiplier cfg)) (Num 1)) (dacTransferTo cfg) (dacTargetMint cfg)
    (if dacTargetSymbol cfg = [] then ''BTC'' else dacTargetSymbol cfg) byHand"
  obtain x n1 r1 where m: "m (n, r) = (x, (n1, r1))" by (metis prod_cases3)
  from execute_run [OF this [unfolded m_def] assms(2)] obtain ts where ts: "sent n1 = sent n @ ts" "dr_ts r1 = dr_ts r"
    "case x of Inr _ \<Rightarrow> dac_outcome (dacTargetMint cfg) (dacTransferTo cfg) ts r1 | Inl _ \<Rightarrow> list_all is_swap ts" by blast
  have body: "dac_body cfg sc sv ds byHand = catch_op m (\<lambda>e. jot (set_status dac_swap_failed (''Unexpected error: '' @ error_message e)))"
    using False by (simp add: dac_body_def m_def Let_def)
  show ?thesis
  proof (cases x)
    case (Inl e)
    then have "n' = n1" "r' = set_status dac_swap_failed (''Unexpected error: '' @ error_message e) r1"
      using assms(1) m by (simp_all add: body catch_op_def jot_run)
    then show ?thesis using ts Inl by (auto simp: set_status_def intro!: outcome_intros(2))
  next
    case (Inr u)
    then show ?thesis using assms(1) m ts by (simp add: body catch_op_def)
  qed
qed

lemma dac_finish_run:
  assumes "dac_finish cfg sc sv ds byHand rec s = (r, s')" and "dr_status rec = dac_skipped"
  shows "\<exists>ts. sent (dac_net s') = sent (dac_net s) @ ts \<and> dac_outcome (dacTargetMint cfg) (dacTransferTo cfg) ts r"
    and "dr_ts r = dr_ts rec" and "\<not> dacRunning s'" and "dacHistory s' = keep_last MAX_DAC_HISTORY (dacHistory s @ [r])"
    and "dac_calls s' = dac_calls s @ [r]"
  using assms dac_body_run [of cfg sc sv ds byHand "dac_net s" rec "fst (snd (dac_body cfg sc sv ds byHand (dac_net s, rec)))" r]
  by (auto simp: dac_finish_def saveDac_def shift_while_eq split: prod.splits)

lemma dac_begin_cases:
  assumes "dac_begin cfg byHand now ts s = (x, s')"
  obtains r where "x = Inl r" and "s' = s" and "dr_status r = dac_skipped"
  | r where "x = Inr r" and "s' = s\<lparr>dacRunning := True\<rparr>" and "\<not> dacRunning s" and "dr_status r = dac_skipped" and "dr_ts r = ts"
      and "byHand \<or> \<not> alreadyRanToday now (dacHistory s)"
  using assms by (auto simp: dac_begin_def dac_record_def split: if_splits)


section \<open>Overlapping runs\<close>

text \<open>
  The runs as the event loop interleaves them. The state has, beside the module's variables, the run under way with
  the configuration it began with, and the list of all finished runs, each with the flag of a run by hand; the records a
  start found in the table count as runs by hand.
\<close>

type_synonym ('b, 'w) dac_sys = "('b, 'w) dac_bot \<times> (dac_config \<times> bool \<times> DacRecord) option \<times> (bool \<times> DacRecord) list"

inductive dac_step :: "swap_config \<Rightarrow> ('b, 'w) services \<Rightarrow> 'w dac_services \<Rightarrow> ('b, 'w) dac_sys \<Rightarrow> ('b, 'w) dac_sys \<Rightarrow> bool"
  for sc sv ds where
  begun: "now \<le> ts \<Longrightarrow> dac_begin cfg byHand now ts s = (Inr r, s') \<Longrightarrow>
     dac_step sc sv ds (s, cur, runs) (s', Some (cfg, byHand, r), runs)"
| refused: "dac_begin cfg byHand now ts s = (Inl r, s') \<Longrightarrow> dac_step sc sv ds (s, cur, runs) (s', cur, runs)"
| finished: "dac_finish cfg sc sv ds byHand r s = (r', s') \<Longrightarrow>
     dac_step sc sv ds (s, Some (cfg, byHand, r), runs) (s', None, runs @ [(byHand, r')])"
| elsewhere: "dac_step sc sv ds (s, cur, runs) (s\<lparr>dac_net := n, dac_timer := t, nextScheduledTime := u\<rparr>, cur, runs)"

definition dac_init :: "('b, 'w) dac_sys \<Rightarrow> bool" where
  "dac_init = (\<lambda>(s, cur, runs). \<exists>t. ring_ok t \<and> \<not> dacRunning s \<and> cur = None \<and> dacHistory s = listDac MAX_DAC_HISTORY t \<and>
     runs = map (Pair True) (dacHistory s))"

definition dac_reach :: "swap_config \<Rightarrow> ('b, 'w) services \<Rightarrow> 'w dac_services \<Rightarrow> ('b, 'w) dac_sys \<Rightarrow> bool" where
  "dac_reach sc sv ds = reach dac_init (dac_step sc sv ds)"

text \<open>No success of the last 365 runs before an automatic success was on its day or later.\<close>

definition dac_once :: "(bool \<times> DacRecord) list \<Rightarrow> bool" where
  "dac_once runs \<longleftrightarrow> (\<forall>i j. i < j \<and> j < length runs \<and> j - i \<le> MAX_DAC_HISTORY \<and> \<not> fst (runs ! j) \<and>
     dr_status (snd (runs ! i)) = dac_success \<longrightarrow> dr_status (snd (runs ! j)) = dac_success \<longrightarrow>
     dr_ts (snd (runs ! i)) < taipei_midnight (dr_ts (snd (runs ! j))))"

definition dac_inv :: "('b, 'w) dac_sys \<Rightarrow> bool" where
  "dac_inv = (\<lambda>(s, cur, runs). dacHistory s = keep_last MAX_DAC_HISTORY (map snd runs) \<and> (dacRunning s \<longleftrightarrow> cur \<noteq> None) \<and> dac_once runs \<and>
     (\<forall>cfg byHand r. cur = Some (cfg, byHand, r) \<longrightarrow> dr_status r = dac_skipped \<and>
        (\<not> byHand \<longrightarrow> (\<forall>x \<in> set (dacHistory s). dr_status x = dac_success \<longrightarrow> dr_ts x < taipei_midnight (dr_ts r)))))"

lemma taipei_midnight_mono: "now \<le> ts \<Longrightarrow> taipei_midnight now \<le> taipei_midnight ts"
  unfolding taipei_midnight_def setUTCHours_def utc_day_def DAY_MS_def
  using zdiv_mono1 [of "now + 28800000" "ts + 28800000" 86400000] by simp

lemma dac_once_snoc:
  assumes "dac_once runs"
    and "\<not> byHand \<Longrightarrow> dr_status r = dac_success \<Longrightarrow>
      (\<And>x. x \<in> set (keep_last MAX_DAC_HISTORY (map snd runs)) \<Longrightarrow> dr_status x = dac_success \<Longrightarrow> dr_ts x < taipei_midnight (dr_ts r))"
  shows "dac_once (runs @ [(byHand, r)])"
  unfolding dac_once_def
proof (intro allI impI)
  fix i j
  assume h: "i < j \<and> j < length (runs @ [(byHand, r)]) \<and> j - i \<le> MAX_DAC_HISTORY \<and> \<not> fst ((runs @ [(byHand, r)]) ! j) \<and>
     dr_status (snd ((runs @ [(byHand, r)]) ! i)) = dac_success" "dr_status (snd ((runs @ [(byHand, r)]) ! j)) = dac_success"
  show "dr_ts (snd ((runs @ [(byHand, r)]) ! i)) < taipei_midnight (dr_ts (snd ((runs @ [(byHand, r)]) ! j)))"
  proof (cases "j = length runs")
    case False
    then have less: "i < length runs" "j < length runs" using h(1) by auto
    then have "(runs @ [(byHand, r)]) ! i = runs ! i" "(runs @ [(byHand, r)]) ! j = runs ! j" by (simp_all add: nth_append)
    then show ?thesis using h less assms(1) unfolding dac_once_def by metis
  next
    case True
    have "snd (runs ! i) \<in> set (drop (length runs - MAX_DAC_HISTORY) (map snd runs))"
      unfolding in_set_conv_nth using h True
      by (intro exI [of _ "i - (length runs - MAX_DAC_HISTORY)"]) auto
    then show ?thesis using h True assms(2) [of "snd (runs ! i)"] by (auto simp: nth_append keep_last_def)
  qed
qed

interpretation dac_runs: invariant_system dac_init "dac_step sc sv ds" dac_inv
  for sc and sv :: "('b, 'w) services" and ds :: "'w dac_services"
proof
  fix s :: "('b, 'w) dac_sys" assume "dac_init s"
  then obtain b cur runs t where s: "s = (b, cur, runs)" "ring_ok t" "\<not> dacRunning b" "cur = None"
      "dacHistory b = listDac MAX_DAC_HISTORY t" "runs = map (Pair True) (dacHistory b)" by (cases s) (auto simp: dac_init_def)
  then have "keep_last MAX_DAC_HISTORY (dacHistory b) = dacHistory b" by (simp add: listDac_def ring_newest_ok)
  with s show "dac_inv s" by (auto simp: dac_inv_def dac_once_def comp_def)
next
  fix s t :: "('b, 'w) dac_sys" assume inv: "dac_inv s" and "dac_step sc sv ds s t"
  from this(2) show "dac_inv t"
  proof (cases rule: dac_step.cases)
    case (begun now ts cfg byHand b r b' cur runs)
    from begun(4) show ?thesis
    proof (cases rule: dac_begin_cases)
      case (2 r')
      then show ?thesis using inv begun(1,2,3) taipei_midnight_mono [OF begun(3)]
        by (auto simp: dac_inv_def alreadyRanToday_def list_ex_iff not_le)
    qed auto
  next
    case (refused cfg byHand now ts b r b' cur runs)
    then have "b' = b" by (auto elim: dac_begin_cases)
    with inv refused show ?thesis by simp
  next
    case (finished cfg byHand r b r' b' runs)
    then have "dr_status r = dac_skipped" using inv by (simp add: dac_inv_def)
    note run = dac_finish_run [OF finished(3) this]
    have "dac_once (runs @ [(byHand, r')])"
      using inv finished(1) run(2) by (intro dac_once_snoc) (auto simp: dac_inv_def)
    then show ?thesis using inv finished(1,2) run(3,4) by (simp add: dac_inv_def keep_last_snoc)
  qed (use inv in \<open>auto simp: dac_inv_def\<close>)
qed

section \<open>Properties\<close>

definition taipei_day :: "millis \<Rightarrow> int" where
  "taipei_day t = utc_day (t + 8 * 60 * 60 * 1000)"

lemma before_midnight: "t < taipei_midnight u \<Longrightarrow> taipei_day t < taipei_day u"
  unfolding taipei_midnight_def taipei_day_def setUTCHours_def utc_day_def DAY_MS_def by simp

text \<open>
  C33: Automatic conversions succeed at most once a day. In every reachable state of the runs, however timers, manual runs
  and the steps of a run interleave and however the configuration changes, a run is under way exactly if the flag is
  set, and an automatic run that succeeded was preceded by no success of the same day in Taipei among the last 365 runs.
\<close>

theorem dac_once_a_day:
  assumes "dac_reach sc sv ds (s, cur, runs)"
  shows "(dacRunning s \<longleftrightarrow> cur \<noteq> None) \<and>
    (\<forall>i j. i < j \<and> j < length runs \<and> j - i \<le> 365 \<and> dr_status (snd (runs ! i)) = dac_success \<and>
       dr_status (snd (runs ! j)) = dac_success \<and> taipei_day (dr_ts (snd (runs ! i))) = taipei_day (dr_ts (snd (runs ! j))) \<longrightarrow>
       fst (runs ! j))"
proof -
  have "dac_inv (s, cur, runs)" using assms unfolding dac_reach_def by (rule dac_runs.reach_inv)
  then have "dac_once runs" "dacRunning s \<longleftrightarrow> cur \<noteq> None" by (simp_all add: dac_inv_def)
  then show ?thesis unfolding dac_once_def MAX_DAC_HISTORY_def by (metis before_midnight less_irrefl)
qed

text \<open>
  C32: What a conversion may do. A run hands over swaps and then at most one transfer, of a positive amount of the
  configured token to the configured wallet and only after a swap was answered with a signature. A run booked as a
  success has a swap and, if a wallet is configured, the transfer; a run booked as skipped handed nothing over. Every
  run that is not refused gives the flag back and is booked in memory and for the table, whatever went wrong.
\<close>

theorem dac_run_bounded:
  assumes "triggerDac cfg sc sv ds byHand now ts s = (r, s')"
  shows "\<exists>swaps tr. sent (dac_net s') = sent (dac_net s) @ swaps @ tr \<and> list_all is_swap swaps \<and>
    (tr = [] \<or> (\<exists>a dec. 0 < a \<and> tr = [TransferTx (dacTargetMint cfg) (dacTransferTo cfg) a dec]) \<and>
       truthy (dr_swapSig r) \<and> dacTransferTo cfg \<noteq> []) \<and>
    (dr_status r = dac_success \<longrightarrow> truthy (dr_swapSig r) \<and> (tr \<noteq> [] \<or> dacTransferTo cfg = [])) \<and>
    (dr_status r = dac_skipped \<longrightarrow> swaps @ tr = []) \<and>
    (s' = s \<and> dr_status r = dac_skipped \<or>
     \<not> dacRunning s' \<and> dacHistory s' = keep_last 365 (dacHistory s @ [r]) \<and> dac_calls s' = dac_calls s @ [r])"
proof (cases "dac_begin cfg byHand now ts s")
  case (Pair x t)
  then show ?thesis
  proof (cases rule: dac_begin_cases)
    case (1 r')
    then have "r = r'" "s' = s" using assms Pair by (simp_all add: triggerDac_def)
    then show ?thesis using 1 by (intro exI [of _ "[]"]) simp
  next
    case (2 r')
    then have fin: "dac_finish cfg sc sv ds byHand r' t = (r, s')" using assms Pair by (simp add: triggerDac_def)
    note run = dac_finish_run [OF fin 2(4)]
    from run(1) obtain all where all: "sent (dac_net s') = sent (dac_net t) @ all"
      "dac_outcome (dacTargetMint cfg) (dacTransferTo cfg) all r" by blast
    then obtain swaps tr where o: "all = swaps @ tr" "list_all is_swap swaps" "dac_transfers (dacTargetMint cfg) (dacTransferTo cfg) tr"
      "tr \<noteq> [] \<longrightarrow> truthy (dr_swapSig r) \<and> dacTransferTo cfg \<noteq> []"
      "dr_status r = dac_success \<longrightarrow> truthy (dr_swapSig r) \<and> (tr \<noteq> [] \<or> dacTransferTo cfg = [])"
      "dr_status r = dac_skipped \<longrightarrow> all = []" by (auto simp: dac_outcome_def)
    show ?thesis
      by (intro exI [of _ swaps] exI [of _ tr])
        (use o all(1) run(3,4,5) 2(2) in \<open>auto simp: dac_transfers_def MAX_DAC_HISTORY_def\<close>)
  qed
qed

text \<open>The swap of a conversion is not held back by a dry run, unlike the swaps of the executors.\<close>

lemma dac_ignores_dry_run:
  "triggerDac cfg (sc\<lparr>swc_dryRun := True\<rparr>) sv ds byHand now ts s = triggerDac cfg (sc\<lparr>swc_dryRun := False\<rparr>) sv ds byHand now ts s"
proof -
  have "jupSwapExactIn (sc\<lparr>swc_dryRun := True\<rparr>) sv a b c = jupSwapExactIn (sc\<lparr>swc_dryRun := False\<rparr>) sv a b c" for a b c
  proof -
    have "buildAndSendMetis (sc\<lparr>swc_dryRun := True\<rparr>) sv q = buildAndSendMetis (sc\<lparr>swc_dryRun := False\<rparr>) sv q" for q
    proof -
      have sr: "sendWithRetry (sc\<lparr>swc_dryRun := True\<rparr>) = sendWithRetry (sc\<lparr>swc_dryRun := False\<rparr>)"
        by (simp add: fun_eq_iff sendWithRetry_def)
      show ?thesis unfolding buildAndSendMetis_def sr by (rule refl)
    qed
    then have b: "buildAndSendMetis (sc\<lparr>swc_dryRun := True\<rparr>) sv = buildAndSendMetis (sc\<lparr>swc_dryRun := False\<rparr>) sv" by blast
    show ?thesis unfolding jupSwapExactIn_def metisSwap_def b by simp
  qed
  then have jup: "jupSwapExactIn (sc\<lparr>swc_dryRun := True\<rparr>) sv = jupSwapExactIn (sc\<lparr>swc_dryRun := False\<rparr>) sv"
    by (simp add: fun_eq_iff)
  have ex: "executeDacSwapAndTransfer (sc\<lparr>swc_dryRun := True\<rparr>) sv ds = executeDacSwapAndTransfer (sc\<lparr>swc_dryRun := False\<rparr>) sv ds"
  proof (intro ext)
    have user: "swc_user (sc\<lparr>swc_dryRun := b\<rparr>) = swc_user sc" for b by simp
    show "executeDacSwapAndTransfer (sc\<lparr>swc_dryRun := True\<rparr>) sv ds a k d m y h u =
        executeDacSwapAndTransfer (sc\<lparr>swc_dryRun := False\<rparr>) sv ds a k d m y h u" for a k d m y h u
      unfolding executeDacSwapAndTransfer_def jup user by (rule refl)
  qed
  have "dac_body cfg (sc\<lparr>swc_dryRun := True\<rparr>) sv ds byHand = dac_body cfg (sc\<lparr>swc_dryRun := False\<rparr>) sv ds byHand"
    unfolding dac_body_def ex by (rule refl)
  then have "dac_finish cfg (sc\<lparr>swc_dryRun := True\<rparr>) sv ds byHand r u = dac_finish cfg (sc\<lparr>swc_dryRun := False\<rparr>) sv ds byHand r u" for r u
    by (simp add: dac_finish_def)
  then show ?thesis by (auto simp: triggerDac_def split: prod.splits sum.splits)
qed

text \<open>
  The comment says that only what the swap brought is transferred. If the balance before the swap cannot be read, the
  whole balance is.
\<close>

lemma unreadable_balance_swept:
  assumes "calculateProfit sv ds n = (Inr p, n1)" and "byHand"
    and "\<And>k. ds_publicKey ds k = Inr ()" and "\<And>k o'. ds_ata ds k o' = Inr ()"
    and "request (ds_tokenBalance ds m) n1 = (Inl e, n2)"
    and "jupSwapExactIn sc sv USDC_MINT m (num_toString (num_floor (num_mul amt (Num 1000000)))) n2 = (Inr (Some sig), n3)" and "sig \<noteq> []"
    and "request (ds_tokenBalance ds m) n3 = (Inr (txt, dec), n4)" and "BigInt_of txt = Inr b" and "0 < b" and "dec \<le> 100" and "dest \<noteq> []"
  shows "last (sent (fst (snd (executeDacSwapAndTransfer sc sv ds amt k dest m sy byHand (n, r))))) = TransferTx m dest b dec"
proof -
  have pre: "pre_balance ds m n1 = (Inr 0, n2)" using assms(5) by (simp add: pre_balance_def catch_op_def bind_op_def op_simps)
  obtain t where t: "received_text b dec = Inr t" using assms(11) toFixed_defined by (auto simp: received_text_def)
  show ?thesis
    using assms pre t unfolding executeDacSwapAndTransfer_def dac_transfer_def catch_op_def
    by (auto simp: on_net_bind jot_run result_bind Let_def submit_def request_def split: prod.splits sum.splits)
qed

section \<open>Witnesses\<close>

text \<open>A world in which every swap is executed, raising the balance by 20.\<close>

definition dac_demo_sv :: "(int, nat) services" where
  "dac_demo_sv =
     \<lparr>sv_now = (\<lambda>w. (100000000, w)), sv_send = (\<lambda>t w. (Inr ''TRANSFER'', w)), sv_confirm = (\<lambda>_ w. (Inr (), w)),
      sv_getTransaction_err = (\<lambda>_ w. (Inr False, w)), sv_getParsedTransaction = (\<lambda>_ w. (Inr None, w)),
      sv_balance_answers = (\<lambda>_ w. ((\<lambda>_. Inl TypeError, \<lambda>_. Inr 0), w)),
      sv_signVersioned = (\<lambda>m w. (Inr m, w)),
      sv_deserialize = (\<lambda>_. Inr \<lparr>staticAccountKeys = [], addressTableLookups = [], compiledInstructions = []\<rparr>),
      sv_quote = (\<lambda>_ _ _ w. (Inl TypeError, w)), sv_swap = (\<lambda>_ w. (Inl TypeError, w)),
      sv_order = (\<lambda>_ _ _ w. (Inr (JObject [(''transaction'', JString ''AAAA''), (''requestId'', JString ''r'')]), w)),
      sv_execute = (\<lambda>_ _ w. (Inr (JObject [(''status'', JString ''Success''), (''signature'', JString ''SWAP'')]), Suc w)),
      sv_holdings = (\<lambda>w. (Inl TypeError, w)), sv_getPosition = (\<lambda>nft w. (Inr None, w)), sv_createPosition = (\<lambda>_ w. (Inr None, w)),
      sv_quoteExactOut = (\<lambda>p _ b w. (Inl TypeError, w)), sv_poolOpenTime = (\<lambda>_ w. (None, w)),
      sv_tokenLiquidity = (\<lambda>_ w. (Inr None, w)), sv_tokenSymbol = (\<lambda>m w. (m, w)), sv_otherDex = (\<lambda>_ _ w. (Inr False, w))\<rparr>"

definition dac_demo_ds :: "nat dac_services" where
  "dac_demo_ds = \<lparr>ds_trend = (\<lambda>w. (new_trend, w)), ds_tokenBalance = (\<lambda>_ w. (Inr (show_int (5 + 20 * int w), 2), w)),
     ds_publicKey = (\<lambda>_. Inr ()), ds_ata = (\<lambda>_ _. Inr ())\<rparr>"

definition dac_demo_sc :: swap_config where
  "dac_demo_sc = \<lparr>swc_dryRun = False, swc_ultra = True, swc_maxRetry = 3, swc_user = ''US'',
     swc_ratios = \<lparr>walletAmountRatios = [], amountRatio = Num 1\<rparr>\<rparr>"

definition dac_demo_cfg :: dac_config where
  "dac_demo_cfg = \<lparr>dacEnabled = True, dacAmountUsd = Num 10, dacThresholdMultiplier = Num 1, dacExecuteHour = 9, dacExecuteMinute = 0,
     dacTransferTo = ''DEST'', dacTargetMint = ''BTC'', dacTargetSymbol = ''cbBTC''\<rparr>"

definition dac_demo_bot :: "(int, nat) dac_bot" where
  "dac_demo_bot = \<lparr>dac_net = \<lparr>world = 0, sent = [], holdingsCache = None, dlmmPools = []\<rparr>, dacHistory = [], dacRunning = False,
     dac_calls = [], dac_timer = None, nextScheduledTime = 0\<rparr>"

definition dac_demo_run :: "bool \<Rightarrow> (int, nat) dac_bot \<Rightarrow> DacRecord \<times> (int, nat) dac_bot" where
  "dac_demo_run byHand s = triggerDac dac_demo_cfg dac_demo_sc dac_demo_sv dac_demo_ds byHand 100000000 100000000 s"

lemma dac_demo_simps:
  "sv_send dac_demo_sv t w = (Inr ''TRANSFER'', w)" "sv_confirm dac_demo_sv u w = (Inr (), w)"
  "ds_tokenBalance dac_demo_ds m w = (Inr (show_int (5 + 20 * int w), 2), w)"
  "ds_publicKey dac_demo_ds k = Inr ()" "ds_ata dac_demo_ds k l = Inr ()"
  "dacAmountUsd dac_demo_cfg = Num 10" "dacTransferTo dac_demo_cfg = ''DEST''" "dacTargetMint dac_demo_cfg = ''BTC''"
  by (simp_all add: dac_demo_sv_def dac_demo_ds_def dac_demo_cfg_def)

lemma dac_demo_steps:
  "calculateProfit dac_demo_sv dac_demo_ds n = (Inr (Num 0), n)"
  "pre_balance dac_demo_ds m n = (Inr (5 + 20 * int (world n)), n)"
  "\<exists>msg. jupSwapExactIn dac_demo_sc dac_demo_sv a b c n =
     (Inr (Some ''SWAP''), n\<lparr>world := Suc (world n), sent := sent n @ [SwapTx msg], holdingsCache := None\<rparr>)"
  "\<exists>t. received_text 20 2 = Inr t"
proof -
  show "calculateProfit dac_demo_sv dac_demo_ds n = (Inr (Num 0), n)"
    by (simp add: calculateProfit_def bind_op_def consult_def op_simps dac_demo_sv_def dac_demo_ds_def profit_of_def new_trend_def)
  show "pre_balance dac_demo_ds m n = (Inr (5 + 20 * int (world n)), n)"
    by (simp add: pre_balance_def catch_op_def bind_op_def request_def op_simps dac_demo_ds_def BigInt_show_int)
  show "\<exists>msg. jupSwapExactIn dac_demo_sc dac_demo_sv a b c n =
     (Inr (Some ''SWAP''), n\<lparr>world := Suc (world n), sent := sent n @ [SwapTx msg], holdingsCache := None\<rparr>)"
    by (rule exI [of _ "snd (stripJupiterComputeUnitPrice \<lparr>staticAccountKeys = [], addressTableLookups = [], compiledInstructions = []\<rparr>)"])
      (simp add: jupSwapExactIn_def ultraSwap_def get_order_def signed_tx_def decoded_tx_def try_op_def catch_op_def bind_op_def request_def
        submit_def op_simps dac_demo_sv_def dac_demo_sc_def invalidateHoldingsCache_def)
  show "\<exists>t. received_text 20 2 = Inr t" by (simp add: received_text_def toFixed_defined)
qed

text \<open>A run by hand in that world swaps and transfers the 20.\<close>

lemma dac_demo_finish:
  assumes "dr_status r = dac_skipped"
  obtains msg r' s' where "dac_finish dac_demo_cfg dac_demo_sc dac_demo_sv dac_demo_ds True r s = (r', s')"
    and "dr_status r' = dac_success" and "dr_ts r' = dr_ts r"
    and "sent (dac_net s') = sent (dac_net s) @ [SwapTx msg, TransferTx ''BTC'' ''DEST'' 20 2]" and "\<not> dacRunning s'"
proof -
  define n where "n = dac_net s"
  define amt where "amt = num_toString (num_floor (num_mul (Num 10) (Num 1000000)))"
  obtain msg where sw: "jupSwapExactIn dac_demo_sc dac_demo_sv USDC_MINT ''BTC'' amt n =
     (Inr (Some ''SWAP''), n\<lparr>world := Suc (world n), sent := sent n @ [SwapTx msg], holdingsCache := None\<rparr>)"
    using dac_demo_steps(3) by blast
  obtain n' r' where body: "snd (dac_body dac_demo_cfg dac_demo_sc dac_demo_sv dac_demo_ds True (n, r)) = (n', r')" by fastforce
  have "sent n' = sent n @ [SwapTx msg, TransferTx ''BTC'' ''DEST'' 20 2] \<and> dr_status r' = dac_success"
    using body sw dac_demo_steps(4)
    unfolding dac_body_def executeDacSwapAndTransfer_def dac_transfer_def catch_op_def Let_def amt_def
    by (auto simp: on_net_bind jot_run result_bind dac_demo_steps(1,2) request_def submit_def dac_demo_simps num_or_def num_le_def num_eq_def BigInt_show_int set_received_def)
  moreover have "dr_ts r' = dr_ts r" using dac_body_run [OF body assms] by blast
  ultimately show thesis
    using body that [of r' _ msg] by (auto simp: dac_finish_def saveDac_def n_def split: prod.splits)
qed

lemma dac_demo_begin:
  assumes "\<not> dacRunning s"
  obtains r where "dac_begin dac_demo_cfg True now ts s = (Inr r, s\<lparr>dacRunning := True\<rparr>)" and "dr_status r = dac_skipped" and "dr_ts r = ts"
  using assms by (auto simp: dac_begin_def dac_record_def)

theorem dac_run_bounded_witness:
  "\<exists>r s' swaps a dec. triggerDac dac_demo_cfg dac_demo_sc dac_demo_sv dac_demo_ds True 7 7 dac_demo_bot = (r, s') \<and>
     dr_status r = dac_success \<and> sent (dac_net s') = swaps @ [TransferTx ''BTC'' ''DEST'' a dec] \<and> list_all is_swap swaps \<and> 0 < a"
proof -
  have idle: "\<not> dacRunning dac_demo_bot" by (simp add: dac_demo_bot_def)
  obtain r0 where b: "dac_begin dac_demo_cfg True 7 7 dac_demo_bot = (Inr r0, dac_demo_bot\<lparr>dacRunning := True\<rparr>)" "dr_status r0 = dac_skipped"
    using dac_demo_begin [OF idle] by blast
  obtain r s' where f: "dac_finish dac_demo_cfg dac_demo_sc dac_demo_sv dac_demo_ds True r0 (dac_demo_bot\<lparr>dacRunning := True\<rparr>) = (r, s')"
    "dr_status r = dac_success" using dac_demo_finish [OF b(2)] by metis
  have t: "triggerDac dac_demo_cfg dac_demo_sc dac_demo_sv dac_demo_ds True 7 7 dac_demo_bot = (r, s')"
    using b f by (simp add: triggerDac_def)
  have "sent (dac_net dac_demo_bot) = []" by (simp add: dac_demo_bot_def)
  with dac_run_bounded [OF t] f(2) show ?thesis
    unfolding dac_demo_simps using t by fastforce
qed

theorem dac_once_a_day_witness:
  "\<exists>s cur r q. dac_reach dac_demo_sc dac_demo_sv dac_demo_ds (s, cur, [(True, r), (True, q)]) \<and> dr_status r = dac_success \<and>
     dr_status q = dac_success \<and> taipei_day (dr_ts r) = taipei_day (dr_ts q) \<and> fst ([(True, r), (True, q)] ! 1) \<and> \<not> dacRunning s"
proof -
  let ?step = "dac_step dac_demo_sc dac_demo_sv dac_demo_ds"
  have run: "\<exists>s' q. ?step\<^sup>*\<^sup>* (s, None, runs) (s', None, runs @ [(True, q)]) \<and> \<not> dacRunning s' \<and> dr_status q = dac_success \<and> dr_ts q = 7"
    if free: "\<not> dacRunning s" for s runs
  proof -
    obtain r0 where b: "dac_begin dac_demo_cfg True 7 7 s = (Inr r0, s\<lparr>dacRunning := True\<rparr>)" "dr_status r0 = dac_skipped" "dr_ts r0 = 7"
      using dac_demo_begin [OF free] by blast
    obtain q s' where f: "dac_finish dac_demo_cfg dac_demo_sc dac_demo_sv dac_demo_ds True r0 (s\<lparr>dacRunning := True\<rparr>) = (q, s')"
      "dr_status q = dac_success" "dr_ts q = dr_ts r0" "\<not> dacRunning s'" using dac_demo_finish [OF b(2)] by metis
    have "?step (s, None, runs) (s\<lparr>dacRunning := True\<rparr>, Some (dac_demo_cfg, True, r0), runs)" using b(1) by (intro begun) auto
    moreover have "?step (s\<lparr>dacRunning := True\<rparr>, Some (dac_demo_cfg, True, r0), runs) (s', None, runs @ [(True, q)])"
      using f(1) by (rule finished)
    ultimately have "?step\<^sup>*\<^sup>* (s, None, runs) (s', None, runs @ [(True, q)])" by (rule r_into_rtranclp [THEN rtranclp.rtrancl_into_rtrancl])
    then show ?thesis using f(2,3,4) b(3) by (intro exI [of _ s'] exI [of _ q]) simp
  qed
  have idle: "\<not> dacRunning dac_demo_bot" "dacHistory dac_demo_bot = []" by (simp_all add: dac_demo_bot_def)
  have init: "dac_init (dac_demo_bot, None, [])"
    using idle by (auto simp: dac_init_def listDac_def ring_newest_ok intro!: exI [of _ ring_empty])
  from run [OF idle(1), of "[]"] obtain s1 r where 1: "?step\<^sup>*\<^sup>* (dac_demo_bot, None, []) (s1, None, [(True, r)])" "\<not> dacRunning s1"
    "dr_status r = dac_success" "dr_ts r = 7" by auto
  from run [OF 1(2), of "[(True, r)]"] obtain s2 q where 2: "?step\<^sup>*\<^sup>* (s1, None, [(True, r)]) (s2, None, [(True, r), (True, q)])"
    "\<not> dacRunning s2" "dr_status q = dac_success" "dr_ts q = 7" by auto
  have reach: "dac_reach dac_demo_sc dac_demo_sv dac_demo_ds (s2, None, [(True, r), (True, q)])"
    unfolding dac_reach_def using reach_init [of dac_init, OF init] rtranclp_trans [OF 1(1) 2(1)] by (rule reach_steps)
  show ?thesis using dac_once_a_day [OF reach] reach 1 2 by (intro exI [of _ s2] exI [of _ None] exI [of _ r] exI [of _ q]) auto
qed

end
