(* ===== verification/Claim_Api.thy ===== *)
theory Claim_Api
  imports Histories Async_Ops
begin

text \<open>
  What the two kinds of claims of \<^verbatim>\<open>src/executor/auto-claim.ts\<close> share: the conversions of JSON values they rely on, the
  reading of a response of the Byreal service, and the dependencies (\<^verbatim>\<open>CopyBonusDeps\<close>, \<^verbatim>\<open>ClaimDeps\<close>) the functions take
  as arguments in the source too. Every request posted, with its answer, and every fee transaction
  handed over is kept in a trace.
\<close>

section \<open>Conversions\<close>

definition digit_value :: "char \<Rightarrow> nat" where
  "digit_value c =
     (let n = of_char c :: nat
      in if 48 \<le> n \<and> n \<le> 57 then n - 48 else if 97 \<le> n \<and> n \<le> 122 then n - 87 else if 65 \<le> n \<and> n \<le> 90 then n - 55 else 99)"

definition radix_value :: "nat \<Rightarrow> string \<Rightarrow> js_num" where
  "radix_value b s =
     (if s \<noteq> [] \<and> list_all (\<lambda>c. digit_value c < b) s then to_num (of_nat (fold (\<lambda>c n. n * b + digit_value c) s 0)) else NaN)"

text \<open>The rest of a text after a decimal literal without sign; \<open>None\<close> if there is no literal.\<close>

definition after_exponent :: "string \<Rightarrow> string" where
  "after_exponent s =
     (case s of [] \<Rightarrow> []
      | c # r \<Rightarrow> if c \<noteq> CHR ''e'' \<and> c \<noteq> CHR ''E'' then s
                else (let (sg, t) = strip_sign r in if takeWhile is_digit t = [] then s else dropWhile is_digit t))"

definition after_decimal :: "string \<Rightarrow> string" where
  "after_decimal s =
     (let r = dropWhile is_digit s
      in after_exponent (case r of [] \<Rightarrow> [] | c # t \<Rightarrow> if c = CHR ''.'' then dropWhile is_digit t else r))"

text \<open>\<^verbatim>\<open>Number(s)\<close> of a text: unlike \<^verbatim>\<open>parseFloat\<close> it takes the whole text or gives \<^verbatim>\<open>NaN\<close>.\<close>

definition number_of_string :: "string \<Rightarrow> js_num" where
  "number_of_string s =
     (let t = trim s; pre = map lower_char (take 2 t); body = drop 2 t
      in if t = [] then Num 0
         else if pre = ''0x'' then radix_value 16 body
         else if pre = ''0o'' then radix_value 8 body
         else if pre = ''0b'' then radix_value 2 body
         else (let (sg, u) = strip_sign t;
                   v = (if u = ''Infinity'' then PosInf
                        else (case decimal_prefix u of Some x \<Rightarrow> if after_decimal u = [] then to_num x else NaN | None \<Rightarrow> NaN))
               in if sg < 0 then num_neg v else v))"

fun js_Number :: "json \<Rightarrow> js_num" where
  "js_Number JUndefined = NaN"
| "js_Number JNull = Num 0"
| "js_Number (JBool b) = Num (if b then 1 else 0)"
| "js_Number (JNum x) = x"
| "js_Number v = number_of_string (js_String v)"

definition isFinite :: "js_num \<Rightarrow> bool" where
  "isFinite x \<longleftrightarrow> (case x of Num _ \<Rightarrow> True | _ \<Rightarrow> False)"

text \<open>
  \<^verbatim>\<open>a ?? b\<close>, \<^verbatim>\<open>a || b\<close>, \<^verbatim>\<open>v || {}\<close>; \<^verbatim>\<open>Array.isArray(v) ? v : []\<close>; the elements a \<^verbatim>\<open>for ... of\<close> visits.
\<close>

definition nullish_or :: "json \<Rightarrow> json \<Rightarrow> json" where
  "nullish_or a b = (if a = JNull \<or> a = JUndefined then b else a)"

definition json_or :: "json \<Rightarrow> json \<Rightarrow> json" where
  "json_or a b = (if json_truthy a then a else b)"

definition or_object :: "json \<Rightarrow> json" where
  "or_object v = json_or v (JObject [])"

definition array_or_empty :: "json \<Rightarrow> json list" where
  "array_or_empty v = (case v of JArray xs \<Rightarrow> xs | _ \<Rightarrow> [])"

definition iterate :: "json \<Rightarrow> json list result" where
  "iterate v = (case v of JArray xs \<Rightarrow> Inr xs | JString s \<Rightarrow> Inr (map (\<lambda>c. JString [c]) s) | _ \<Rightarrow> Inl TypeError)"

text \<open>
  A \<^verbatim>\<open>Set\<close> of parsed values: equal texts, numbers and flags are the same member; two parsed objects or arrays never are.
\<close>

definition primitive :: "json \<Rightarrow> bool" where
  "primitive v \<longleftrightarrow> (case v of JArray _ \<Rightarrow> False | JObject _ \<Rightarrow> False | _ \<Rightarrow> True)"

definition json_has :: "json list \<Rightarrow> json \<Rightarrow> bool" where
  "json_has s v \<longleftrightarrow> primitive v \<and> v \<in> set s"

definition json_add :: "json \<Rightarrow> json list \<Rightarrow> json list" where
  "json_add v s = (if json_has s v then s else s @ [v])"

text \<open>\<^verbatim>\<open>encodeURIComponent\<close>\<close>

definition hex_digit :: "nat \<Rightarrow> char" where
  "hex_digit n = char_of (if n < 10 then n + 48 else n + 55)"

definition encodeURIComponent :: "string \<Rightarrow> string" where
  "encodeURIComponent s =
     concat (map (\<lambda>c. if word_char c \<or> c \<in> set ''-.!~*()'' \<or> of_char c = (39 :: nat) then [c]
                     else let n = of_char c :: nat in [CHR ''%'', hex_digit (n div 16), hex_digit (n mod 16)]) s)"

text \<open>\<^verbatim>\<open>err.message || String(err)\<close>; the engine's own errors appear by their names.\<close>

fun error_text :: "js_error \<Rightarrow> string" where
  "error_text (Error m) = (if m = [] then ''Error'' else m)"
| "error_text TypeError = ''TypeError''"
| "error_text RangeError = ''RangeError''"
| "error_text SyntaxError = ''SyntaxError''"

lemma error_text_nonempty [simp]: "error_text e \<noteq> []"
  by (cases e) auto

section \<open>Responses\<close>

text \<open>A response: its status, the status text and the body; \<open>parse\<close> is \<^verbatim>\<open>JSON.parse\<close>.\<close>

definition parseByrealJsonResponse ::
  "(string \<Rightarrow> json option) \<Rightarrow> string \<Rightarrow> string \<Rightarrow> nat \<times> string \<times> string \<Rightarrow> json result" where
  "parseByrealJsonResponse parse method apiPath =
     (\<lambda>(status, statusText, text).
       let preview = take 160 text
       in if \<not> (200 \<le> status \<and> status \<le> 299)
          then Inl (Error (method @ '' '' @ apiPath @ '' '' @ show_nat status @ '' '' @ statusText @ '': '' @ preview))
          else (case parse text of
                  Some v \<Rightarrow> Inr v
                | None \<Rightarrow> Inl (Error (method @ '' '' @ apiPath @ '' returned non-JSON: '' @ preview))))"

text \<open>\<^verbatim>\<open>res?.result?.data ?? res?.data ?? res\<close>\<close>

definition getResponseData :: "json \<Rightarrow> json" where
  "getResponseData res = nullish_or (json_opt (json_opt res ''result'') ''data'') (nullish_or (json_opt res ''data'') res)"

section \<open>Dependencies\<close>

record 'w claim_deps =
  apiGet :: "string \<Rightarrow> 'w \<Rightarrow> json result \<times> 'w"
  apiPost :: "string \<Rightarrow> json \<Rightarrow> 'w \<Rightarrow> json result \<times> 'w"
  getWalletAddress :: string
  signRewardPayload :: "json \<Rightarrow> 'w \<Rightarrow> string result \<times> 'w"
  sendFeePayload :: "json \<Rightarrow> 'w \<Rightarrow> string result \<times> 'w"

record 'w claim_net =
  cn_world :: 'w
  cn_posts :: "(string \<times> json \<times> json result) list"
  cn_fees :: "json list"

type_synonym ('w, 'l, 'a) claim_op = "('w claim_net \<times> 'l, 'a) op"

definition ask :: "('w \<Rightarrow> 'a result \<times> 'w) \<Rightarrow> ('w, 'l, 'a) claim_op" where
  "ask f = (\<lambda>(n, l). case f (cn_world n) of (r, w) \<Rightarrow> (r, (n\<lparr>cn_world := w\<rparr>, l)))"

definition post :: "'w claim_deps \<Rightarrow> string \<Rightarrow> json \<Rightarrow> ('w, 'l, json) claim_op" where
  "post deps path body =
     (\<lambda>(n, l). case apiPost deps path body (cn_world n) of
        (r, w) \<Rightarrow> (r, (n\<lparr>cn_world := w, cn_posts := cn_posts n @ [(path, body, r)]\<rparr>, l)))"

definition send_fee :: "'w claim_deps \<Rightarrow> json \<Rightarrow> ('w, 'l, string) claim_op" where
  "send_fee deps entry =
     (\<lambda>(n, l). case sendFeePayload deps entry (cn_world n) of
        (r, w) \<Rightarrow> (r, (n\<lparr>cn_world := w, cn_fees := cn_fees n @ [entry]\<rparr>, l)))"

definition jot_l :: "('l \<Rightarrow> 'l) \<Rightarrow> ('w, 'l, unit) claim_op" where
  "jot_l f = change (apsnd f)"

definition peek :: "('l \<Rightarrow> 'a) \<Rightarrow> ('w, 'l, 'a) claim_op" where
  "peek f = look (f \<circ> snd)"


section \<open>Running requests\<close>

lemma claim_run_simps:
  "bind_op (jot_l f) g (n, l) = g () (n, f l)" "jot_l f (n, l) = (Inr (), (n, f l))" "bind_op (peek h) g' (n, l) = g' (h l) (n, l)"
  "peek h (n, l) = (Inr (h l), (n, l))"
  by (simp_all add: jot_l_def peek_def bind_op_def op_simps)

lemma bind_now: "bind_op (of_result x) f s = (case x of Inr a \<Rightarrow> f a s | Inl e \<Rightarrow> (Inl e, s))"
  by (simp add: bind_op_def op_simps split: sum.splits)

lemma ask_run: "ask f (n, l) = (r, s') \<Longrightarrow> \<exists>w. s' = (n\<lparr>cn_world := w\<rparr>, l)"
  by (auto simp: ask_def split: prod.splits)

lemma post_run:
  "post deps p b (n, l) = (r, s') \<Longrightarrow> \<exists>w. s' = (n\<lparr>cn_world := w, cn_posts := cn_posts n @ [(p, b, r)]\<rparr>, l) \<and>
     apiPost deps p b (cn_world n) = (r, w)"
  by (auto simp: post_def split: prod.splits)

end
