(* ===== verification/Bonus_Claim.thy ===== *)
theory Bonus_Claim
  imports Claim_Api
begin

text \<open>
  The weekly claim of copy bonuses, \<^verbatim>\<open>src/executor/auto-claim.ts\<close>: batches of rewards are encoded by the service, signed
  and ordered until nothing is left. The loop has no bound of its own; it runs here with a number of rounds, \<open>None\<close>
  meaning that they were not enough, and \<open>bonus_loop_ends\<close> says how many are.

  The error of an entry is a text of the source or, for a thrown error, \<open>error_text\<close>.
\<close>

section \<open>Posting with retries\<close>

definition isCopyBonusTransientError :: "js_error \<Rightarrow> bool" where
  "isCopyBonusTransientError e \<longleftrightarrow>
     (let m = toLowerCase (error_text e)
      in list_ex (\<lambda>t. has_phrase False t m) [''429'', ''502'', ''503'', ''504''] \<or>
         list_ex (str_includes m) [''gateway time-out'', ''timeout'', ''timed out'', ''econnreset'', ''etimedout''])"

fun post_loop :: "'w claim_deps \<Rightarrow> nat \<Rightarrow> string \<Rightarrow> json \<Rightarrow> ('w, 'l, json) claim_op" where
  "post_loop deps 0 apiPath body = post deps apiPath body"
| "post_loop deps (Suc n) apiPath body =
     catch_op (post deps apiPath body) (\<lambda>e. if isCopyBonusTransientError e then post_loop deps n apiPath body else throw e)"

text \<open>Three attempts; the delays between them have no effect of their own.\<close>

definition copyBonusPostWithRetry :: "'w claim_deps \<Rightarrow> string \<Rightarrow> json \<Rightarrow> ('w, 'l, json) claim_op" where
  "copyBonusPostWithRetry deps apiPath body = post_loop deps 2 apiPath body"

section \<open>A round\<close>

record bonus_job =
  bj_entry :: ClaimHistoryEntry
  seenOrderCodes :: "json list"
  seenRewardKeys :: "json list"

definition set_error :: "string \<Rightarrow> bonus_job \<Rightarrow> bonus_job" where
  "set_error msg j = j\<lparr>bj_entry := (bj_entry j)\<lparr>ch_error := Some msg\<rparr>\<rparr>"

text \<open>The round's result says whether another round follows. \<^verbatim>\<open>stopOrError\<close>, then \<^verbatim>\<open>break\<close>.\<close>

definition stopOrError :: "string \<Rightarrow> ('w, bonus_job, bool) claim_op" where
  "stopOrError msg =
     bind_op (peek (\<lambda>j. ch_totalPools (bj_entry j))) (\<lambda>p.
       if p > 0 then ret False else bind_op (jot_l (set_error msg)) (\<lambda>_. ret False))"

definition ENCODE_V2 :: string where "ENCODE_V2 = ''incentive/encode-v2''"
definition ORDER_V2 :: string where "ORDER_V2 = ''incentive/order-v2''"

text \<open>\<^verbatim>\<open>item.txCode || item.poolAddress\<close>\<close>

definition reward_key :: "json \<Rightarrow> json result" where
  "reward_key item =
     bind_result (json_field item ''txCode'') (\<lambda>c. bind_result (json_field item ''poolAddress'') (\<lambda>p. Inr (json_or c p)))"

fun duplicateReward :: "json list \<Rightarrow> json list \<Rightarrow> bool result" where
  "duplicateReward seen [] = Inr False"
| "duplicateReward seen (item # items) =
     bind_result (reward_key item) (\<lambda>k. if json_truthy k \<and> json_has seen k then Inr True else duplicateReward seen items)"

text \<open>
  \<^verbatim>\<open>encoded.rewardEncodeItems || []\<close> and its \<^verbatim>\<open>length\<close>: what is no array but not empty has no method \<^verbatim>\<open>some\<close>.
\<close>

definition reward_items :: "json \<Rightarrow> json list result" where
  "reward_items v =
     (if \<not> json_truthy v \<or> json_opt v ''length'' = JNum (Num 0) then Inr []
      else (case v of JArray xs \<Rightarrow> Inr xs | _ \<Rightarrow> Inl TypeError))"

definition signed_item :: "json \<Rightarrow> string \<Rightarrow> json" where
  "signed_item item tx =
     JObject [(''txCode'', json_opt item ''txCode''), (''poolAddress'', json_opt item ''poolAddress''), (''signedTx'', JString tx)]"

fun sign_rewards :: "'w claim_deps \<Rightarrow> json list \<Rightarrow> ('w, 'l, json list) claim_op" where
  "sign_rewards deps [] = ret []"
| "sign_rewards deps (item # items) =
     bind_op (try_op (ask (signRewardPayload deps (json_opt item ''txPayload'')))) (\<lambda>r.
     bind_op (sign_rewards deps items) (\<lambda>signed.
       ret (case r of Inr tx \<Rightarrow> signed_item item tx # signed | Inl e \<Rightarrow> signed)))"

definition order_body :: "json \<Rightarrow> string \<Rightarrow> json list \<Rightarrow> json" where
  "order_body orderCode wallet signed =
     JObject [(''orderCode'', orderCode), (''walletAddress'', JString wallet), (''signedTxPayload'', JArray signed)]"

definition add_signature :: "json \<Rightarrow> bonus_job \<Rightarrow> bonus_job" where
  "add_signature sig j = j\<lparr>bj_entry := (bj_entry j)\<lparr>ch_txSignatures := ch_txSignatures (bj_entry j) @ [js_String sig]\<rparr>\<rparr>"

definition book_batch :: "js_num \<Rightarrow> json list \<Rightarrow> json \<Rightarrow> bonus_job \<Rightarrow> bonus_job" where
  "book_batch totalBonusUsd items orderCode j =
     j\<lparr>bj_entry := (bj_entry j)\<lparr>ch_totalBonusUsd := num_add (ch_totalBonusUsd (bj_entry j)) totalBonusUsd,
                                ch_totalPools := ch_totalPools (bj_entry j) + length items\<rparr>,
       seenOrderCodes := (if json_truthy orderCode then json_add orderCode (seenOrderCodes j) else seenOrderCodes j),
       seenRewardKeys := fold (\<lambda>item s. case reward_key item of Inr k \<Rightarrow> if json_truthy k then json_add k s else s | Inl e \<Rightarrow> s)
                           items (seenRewardKeys j)\<rparr>"

definition order_batch :: "'w claim_deps \<Rightarrow> js_num \<Rightarrow> json list \<Rightarrow> json \<Rightarrow> ('w, bonus_job, bool) claim_op" where
  "order_batch deps totalBonusUsd items orderCode =
     bind_op (sign_rewards deps items) (\<lambda>signed.
       if signed = [] then bind_op (jot_l (set_error ''all signatures failed'')) (\<lambda>_. ret False)
       else bind_op (copyBonusPostWithRetry deps ORDER_V2 (order_body orderCode (getWalletAddress deps) signed)) (\<lambda>orderRes.
         let orderData = or_object (getResponseData orderRes)
         in bind_op (each (\<lambda>tx. bind_op (of_result (json_field tx ''txSignature'')) (\<lambda>sig.
                if json_truthy sig then jot_l (add_signature sig) else ret ())) (array_or_empty (json_opt orderData ''txList''))) (\<lambda>_.
            bind_op (each (\<lambda>t. bind_op (of_result (json_field t ''tokenSymbol'')) (\<lambda>_. ret ()))
                (array_or_empty (json_opt orderData ''claimTokenList''))) (\<lambda>_.
            bind_op (jot_l (book_batch totalBonusUsd items orderCode)) (\<lambda>_. ret True)))))"

definition encode_body :: "string \<Rightarrow> json" where
  "encode_body wallet = JObject [(''walletAddress'', JString wallet), (''positionAddresses'', JArray []), (''type'', JNum (Num 2))]"

definition claim_batch :: "'w claim_deps \<Rightarrow> js_num \<Rightarrow> ('w, bonus_job, bool) claim_op" where
  "claim_batch deps totalBonusUsd =
     bind_op (copyBonusPostWithRetry deps ENCODE_V2 (encode_body (getWalletAddress deps))) (\<lambda>encodeRes.
       let encoded = or_object (getResponseData encodeRes); orderCode = json_opt encoded ''orderCode''
       in bind_op (of_result (reward_items (json_opt encoded ''rewardEncodeItems''))) (\<lambda>items.
            if items = [] then stopOrError ''no rewards available''
            else bind_op (peek (\<lambda>j. json_truthy orderCode \<and> json_has (seenOrderCodes j) orderCode)) (\<lambda>duplicateOrder.
                 bind_op (peek seenRewardKeys) (\<lambda>seen.
                 bind_op (of_result (duplicateReward seen items)) (\<lambda>dup.
                   if duplicateOrder \<or> dup then ret False else order_batch deps totalBonusUsd items orderCode)))))"

text \<open>\<^verbatim>\<open>epochs['3']\<close>\<close>

definition third :: "json \<Rightarrow> json" where
  "third v = (case v of JArray xs \<Rightarrow> if 3 < length xs then xs ! 3 else JUndefined
     | JString s \<Rightarrow> if 3 < length s then JString [s ! 3] else JUndefined | _ \<Rightarrow> json_opt v ''3'')"

text \<open>\<^verbatim>\<open>new Date(x).toISOString()\<close> of a finite number\<close>

definition iso_of_num :: "js_num \<Rightarrow> string result" where
  "iso_of_num x = (case x of Num q \<Rightarrow> toISOString (if q < 0 then \<lceil>q\<rceil> else \<lfloor>q\<rfloor>) | _ \<Rightarrow> Inl RangeError)"

definition bonus_round :: "'w claim_deps \<Rightarrow> millis \<Rightarrow> ('w, bonus_job, bool) claim_op" where
  "bonus_round deps nowMs =
     bind_op (try_op (ask (apiGet deps
        (''copyfarmer/epoch-bonus?walletAddress='' @ encodeURIComponent (getWalletAddress deps) @ ''&type=-1'')))) (\<lambda>r.
       case r of
         Inl e \<Rightarrow> stopOrError (''epoch-bonus unavailable: '' @ error_text e)
       | Inr epochRes \<Rightarrow>
           let epoch = third (or_object (getResponseData epochRes));
               totalBonusUsd = js_Number (json_opt epoch ''totalBonusUsd'');
               claimTime = js_Number (json_opt epoch ''claimTime'');
               endTime = js_Number (json_opt epoch ''endTime'');
               now = Num (of_int nowMs)
           in if \<not> json_truthy epoch then stopOrError ''no rewards available''
              else if \<not> isFinite totalBonusUsd \<or> \<not> isFinite claimTime \<or> \<not> isFinite endTime
              then stopOrError ''malformed epoch bonus data''
              else if num_le totalBonusUsd (Num 0) then stopOrError ''no rewards available''
              else if num_lt now claimTime
              then bind_op (of_result (iso_of_num claimTime)) (\<lambda>t. stopOrError (''bonus not claimable until '' @ t))
              else if num_le endTime now then stopOrError ''bonus claim window ended''
              else catch_op (claim_batch deps totalBonusUsd)
                     (\<lambda>e. bind_op (jot_l (set_error (error_text e))) (\<lambda>_. ret False)))"

section \<open>The claim\<close>

fun bonus_loop :: "'w claim_deps \<Rightarrow> millis \<Rightarrow> nat \<Rightarrow> ('w, bonus_job, ClaimHistoryEntry option) claim_op" where
  "bonus_loop deps nowMs 0 = ret None"
| "bonus_loop deps nowMs (Suc n) =
     bind_op (bonus_round deps nowMs) (\<lambda>go. if go then bonus_loop deps nowMs n else peek (\<lambda>j. Some (bj_entry j)))"

definition new_claim :: "string \<Rightarrow> millis \<Rightarrow> bonus_job" where
  "new_claim week nowMs =
     \<lparr>bj_entry = \<lparr>ch_ts = nowMs, ch_snapshotTs = Some nowMs, ch_week = week, ch_totalPools = 0, ch_totalBonusUsd = Num 0,
        ch_txSignatures = [], ch_error = None\<rparr>, seenOrderCodes = [], seenRewardKeys = []\<rparr>"

text \<open>\<^verbatim>\<open>claimCopyBonusWithDepsForTest\<close>, with \<open>rounds\<close> rounds in a time zone \<open>zone\<close> milliseconds east of UTC.\<close>

definition claimCopyBonusWithDeps ::
  "nat \<Rightarrow> int \<Rightarrow> 'w claim_deps \<Rightarrow> millis \<Rightarrow> 'w claim_net \<Rightarrow> ClaimHistoryEntry option result \<times> 'w claim_net" where
  "claimCopyBonusWithDeps rounds zone deps nowMs n =
     (case bonus_loop deps nowMs rounds (n, new_claim (getISOWeek zone nowMs) nowMs) of (r, (n', j)) \<Rightarrow> (r, n'))"

text \<open>\<^verbatim>\<open>claimCopyBonus\<close>: an entry that was returned is booked.\<close>

definition claimCopyBonus ::
  "nat \<Rightarrow> int \<Rightarrow> 'w claim_deps \<Rightarrow> millis \<Rightarrow> 'w claim_net \<times> claims \<Rightarrow>
   ClaimHistoryEntry option result \<times> 'w claim_net \<times> claims \<times> ClaimHistoryEntry list" where
  "claimCopyBonus rounds zone deps nowMs =
     (\<lambda>(n, c). case claimCopyBonusWithDeps rounds zone deps nowMs n of
        (Inr (Some e), n') \<Rightarrow> (case finalize e (ch_week e) c of (c', calls) \<Rightarrow> (Inr (Some e), n', c', calls))
      | (r, n') \<Rightarrow> (r, n', c, []))"

text \<open>
  The scheduler: the time of the next timer, and its callback, which sets the next one whatever happens.
\<close>

definition scheduleNextClaim :: "bool \<Rightarrow> millis \<Rightarrow> millis option" where
  "scheduleNextClaim autoClaimEnabled now = (if \<not> autoClaimEnabled then None else Some (now + msUntilNextClaim now))"

definition claim_timer_fires ::
  "nat \<Rightarrow> int \<Rightarrow> 'w claim_deps \<Rightarrow> millis \<Rightarrow> 'w claim_net \<times> claims \<Rightarrow> 'w claim_net \<times> claims \<times> ClaimHistoryEntry list" where
  "claim_timer_fires rounds zone deps now s =
     (if lastClaimWeek (snd s) = getISOWeek zone now then (fst s, snd s, [])
      else snd (claimCopyBonus rounds zone deps now s))"

definition startAutoClaimScheduler :: "bool \<Rightarrow> ClaimHistoryEntry ring \<Rightarrow> millis \<Rightarrow> claims \<times> millis option" where
  "startAutoClaimScheduler autoClaimEnabled t now = (loadClaimHistory t, scheduleNextClaim autoClaimEnabled now)"


section \<open>What a round does\<close>

type_synonym order = "json \<times> json result"

definition orders :: "'w claim_net \<Rightarrow> order list" where
  "orders n = map snd (filter (\<lambda>(p, t). p = ORDER_V2) (cn_posts n))"

text \<open>An order failed for the moment only; the attempts at one order, of which all but the last failed that way.\<close>

definition transient :: "order \<Rightarrow> bool" where
  "transient t \<longleftrightarrow> (case snd t of Inl e \<Rightarrow> isCopyBonusTransientError e | Inr v \<Rightarrow> False)"

definition attempts :: "json \<Rightarrow> order list \<Rightarrow> bool" where
  "attempts b ts \<longleftrightarrow> ts \<noteq> [] \<and> length ts \<le> 3 \<and> list_all (\<lambda>t. fst t = b) ts \<and> list_all transient (butlast ts)"

lemma attempts_nth:
  assumes "attempts b ts" and "i < j" and "j < length ts"
  shows "fst (ts ! i) = b" "fst (ts ! j) = b" "transient (ts ! i)" "j \<le> i + 2"
proof -
  have "i < length (butlast ts)" using assms by simp
  then show "transient (ts ! i)" using assms(1) by (simp add: attempts_def list_all_length nth_butlast)
qed (use assms in \<open>auto simp: attempts_def list_all_length\<close>)

lemma encode_not_order [simp]: "ENCODE_V2 \<noteq> ORDER_V2"
  by (simp add: ENCODE_V2_def ORDER_V2_def)

lemma orders_simps [simp]:
  "orders (n\<lparr>cn_world := w\<rparr>) = orders n"
  "orders (n\<lparr>cn_world := w, cn_posts := cn_posts n @ [(p, b, x)]\<rparr>) = orders n @ (if p = ORDER_V2 then [(b, x)] else [])"
  by (simp_all add: orders_def)

lemma post_loop_run:
  "post_loop deps m p b (n, l) = (r, s') \<Longrightarrow> \<exists>n' ts. s' = (n', l) \<and> orders n' = orders n @ (if p = ORDER_V2 then ts else []) \<and>
     ts \<noteq> [] \<and> length ts \<le> Suc m \<and> list_all (\<lambda>t. fst t = b) ts \<and> list_all transient (butlast ts) \<and>
     (\<forall>v. r = Inr v \<longrightarrow> (\<exists>w w'. apiPost deps p b w = (Inr v, w')))"
proof (induction m arbitrary: n)
  case 0
  then show ?case by (auto dest!: post_run intro!: exI [of _ "[(b, r)]"]; blast)
next
  case (Suc m)
  obtain x s where x: "post deps p b (n, l) = (x, s)" by (rule prod.exhaust)
  from post_run [OF x] obtain w where w: "s = (n\<lparr>cn_world := w, cn_posts := cn_posts n @ [(p, b, x)]\<rparr>, l)"
    "apiPost deps p b (cn_world n) = (x, w)" by blast
  show ?case
  proof (cases "transient (b, x)")
    case True
    then have "post_loop deps m p b s = (r, s')" using Suc.prems x by (auto simp: catch_op_def transient_def split: sum.splits)
    from Suc.IH [OF this [unfolded w(1)]] obtain n' ts where "s' = (n', l)"
      "orders n' = orders n @ (if p = ORDER_V2 then [(b, x)] else []) @ (if p = ORDER_V2 then ts else [])"
      "ts \<noteq> [] \<and> length ts \<le> Suc m \<and> list_all (\<lambda>t. fst t = b) ts \<and> list_all transient (butlast ts)"
      "\<forall>v. r = Inr v \<longrightarrow> (\<exists>w w'. apiPost deps p b w = (Inr v, w'))" by auto
    then show ?thesis using True by (intro exI [of _ n'] exI [of _ "(b, x) # ts"]) auto
  next
    case False
    then have "r = x" "s' = s" using Suc.prems x by (auto simp: catch_op_def op_simps transient_def split: sum.splits)
    then show ?thesis using w by (auto intro!: exI [of _ "[(b, x)]"])
  qed
qed

lemma sign_rewards_run:
  "sign_rewards deps items (n, l) = (r, s') \<Longrightarrow> \<exists>n' signed. s' = (n', l) \<and> orders n' = orders n \<and> r = Inr signed \<and>
     (\<forall>x \<in> set signed. \<exists>item \<in> set items. \<exists>tx. x = signed_item item tx)"
proof (induction items arbitrary: n r s')
  case (Cons item items)
  obtain x s where x: "ask (signRewardPayload deps (json_opt item ''txPayload'')) (n, l) = (x, s)" by (rule prod.exhaust)
  from ask_run [OF x] obtain w where w: "s = (n\<lparr>cn_world := w\<rparr>, l)" by blast
  obtain q t where q: "sign_rewards deps items s = (q, t)" by (rule prod.exhaust)
  from Cons.IH [OF q [unfolded w]] obtain n' signed where h: "t = (n', l)" "orders n' = orders n" "q = Inr signed"
    "\<forall>x \<in> set signed. \<exists>item \<in> set items. \<exists>tx. x = signed_item item tx" by auto
  have "r = Inr (case x of Inr tx \<Rightarrow> signed_item item tx # signed | Inl e \<Rightarrow> signed)" "s' = t"
    using Cons.prems x q h by (auto simp: bind_op_def try_op_def op_simps)
  then show ?case using h by (auto split: sum.splits)
qed (simp add: op_simps)

text \<open>The codes and keys of an order, the fresh orders and those a job has booked.\<close>

definition order_code :: "json \<Rightarrow> json" where
  "order_code b = json_opt b ''orderCode''"

definition order_keys :: "json \<Rightarrow> json list" where
  "order_keys b = map (\<lambda>x. json_or (json_opt x ''txCode'') (json_opt x ''poolAddress'')) (array_or_empty (json_opt b ''signedTxPayload''))"

definition named :: "json \<Rightarrow> bool" where
  "named v \<longleftrightarrow> json_truthy v \<and> primitive v"

definition fresh_order :: "bonus_job \<Rightarrow> json \<Rightarrow> bool" where
  "fresh_order j b \<longleftrightarrow> (named (order_code b) \<longrightarrow> order_code b \<notin> set (seenOrderCodes j)) \<and>
     (\<forall>k \<in> set (order_keys b). named k \<longrightarrow> k \<notin> set (seenRewardKeys j))"

definition booked_order :: "bonus_job \<Rightarrow> json \<Rightarrow> bool" where
  "booked_order j b \<longleftrightarrow> (named (order_code b) \<longrightarrow> order_code b \<in> set (seenOrderCodes j)) \<and>
     (\<forall>k \<in> set (order_keys b). named k \<longrightarrow> k \<in> set (seenRewardKeys j))"

text \<open>Two orders overlap if they carry the same order code or a reward of the same key.\<close>

definition overlap :: "json \<Rightarrow> json \<Rightarrow> bool" where
  "overlap b b' \<longleftrightarrow> (named (order_code b) \<and> order_code b = order_code b') \<or>
     (\<exists>k \<in> set (order_keys b) \<inter> set (order_keys b'). named k)"

lemma fresh_booked_disjoint: "booked_order j b \<Longrightarrow> fresh_order j b' \<Longrightarrow> \<not> overlap b b' \<and> \<not> overlap b' b"
  by (auto simp: booked_order_def fresh_order_def overlap_def)

lemma order_body_simps:
  "order_code (order_body c w signed) = c" "json_opt (order_body c w signed) ''signedTxPayload'' = JArray signed"
  by (simp_all add: order_code_def order_body_def json_opt_def)

lemma duplicateReward_no:
  "duplicateReward seen items = Inr False \<Longrightarrow> item \<in> set items \<Longrightarrow> \<exists>k. reward_key item = Inr k \<and> (json_truthy k \<longrightarrow> \<not> json_has seen k)"
  by (induction items) (auto simp: bind_result_eq_Inr_iff split: if_splits)

lemma reward_key_opt: "reward_key item = Inr k \<Longrightarrow> k = json_or (json_opt item ''txCode'') (json_opt item ''poolAddress'')"
  by (auto simp: reward_key_def bind_result_eq_Inr_iff json_opt_def)

lemma order_keys_items:
  assumes "\<forall>x \<in> set signed. \<exists>item \<in> set items. \<exists>tx. x = signed_item item tx" and "k \<in> set (order_keys (order_body c w signed))"
  obtains item where "item \<in> set items" and "k = json_or (json_opt item ''txCode'') (json_opt item ''poolAddress'')"
proof -
  from assms(2) obtain x where x: "x \<in> set signed" "k = json_or (json_opt x ''txCode'') (json_opt x ''poolAddress'')"
    by (auto simp: order_keys_def order_body_simps array_or_empty_def)
  with assms(1) obtain item tx where "item \<in> set items" "x = signed_item item tx" by blast
  with x(2) that show thesis by (auto simp: signed_item_def json_opt_def)
qed

lemma booked_keys:
  "set (fold (\<lambda>item s. case reward_key item of Inr k \<Rightarrow> if json_truthy k then json_add k s else s | Inl e \<Rightarrow> s) items seen) \<supseteq> set seen"
  "item \<in> set items \<Longrightarrow> reward_key item = Inr k \<Longrightarrow> json_truthy k \<Longrightarrow>
     k \<in> set (fold (\<lambda>item s. case reward_key item of Inr k \<Rightarrow> if json_truthy k then json_add k s else s | Inl e \<Rightarrow> s) items seen)"
proof -
  let ?f = "\<lambda>item s. case reward_key item of Inr k \<Rightarrow> if json_truthy k then json_add k s else s | Inl e \<Rightarrow> s"
  show sub: "set (fold ?f items seen) \<supseteq> set seen" for items seen
  proof (induction items arbitrary: seen)
    case (Cons i items)
    have "set seen \<subseteq> set (?f i seen)" by (auto simp: json_add_def split: sum.splits)
    then show ?case using Cons.IH [of "?f i seen"] by simp
  qed simp
  show "k \<in> set (fold ?f items seen)" if "item \<in> set items" "reward_key item = Inr k" "json_truthy k"
    using that
  proof (induction items arbitrary: seen)
    case (Cons i items)
    show ?case
    proof (cases "item = i")
      case True
      then have "k \<in> set (?f i seen)" using Cons.prems by (auto simp: json_add_def json_has_def)
      then show ?thesis using sub [of "?f i seen" items] by auto
    qed (use Cons in auto)
  qed simp
qed

text \<open>The entry a round leaves: its identity is kept, and an error is never the empty text.\<close>

definition keeps_entry :: "bonus_job \<Rightarrow> bonus_job \<Rightarrow> bool" where
  "keeps_entry j j' \<longleftrightarrow> ch_ts (bj_entry j') = ch_ts (bj_entry j) \<and> ch_week (bj_entry j') = ch_week (bj_entry j) \<and>
     (ch_error (bj_entry j') = ch_error (bj_entry j) \<or> (\<exists>m. ch_error (bj_entry j') = Some m \<and> m \<noteq> []))"

definition same_books :: "bonus_job \<Rightarrow> bonus_job \<Rightarrow> bool" where
  "same_books j j' \<longleftrightarrow> seenOrderCodes j' = seenOrderCodes j \<and> seenRewardKeys j' = seenRewardKeys j \<and>
     ch_totalPools (bj_entry j') = ch_totalPools (bj_entry j)"

text \<open>
  The outcomes of a round that began with the job \<open>j\<close>: it ends the loop without an order; it ends the loop with an
  error after a fresh order; or a fresh order was placed, the batch booked, and another round follows.
\<close>

definition fresh_batch :: "bonus_job \<Rightarrow> json list \<Rightarrow> json \<Rightarrow> bool" where
  "fresh_batch j items code \<longleftrightarrow> items \<noteq> [] \<and> (named code \<longrightarrow> code \<notin> set (seenOrderCodes j)) \<and>
     (\<forall>item \<in> set items. \<forall>k. reward_key item = Inr k \<and> named k \<longrightarrow> k \<notin> set (seenRewardKeys j))"

definition booked_batch :: "bonus_job \<Rightarrow> json list \<Rightarrow> json \<Rightarrow> bool" where
  "booked_batch j items code \<longleftrightarrow> (named code \<longrightarrow> code \<in> set (seenOrderCodes j)) \<and>
     (\<forall>item \<in> set items. \<forall>k. reward_key item = Inr k \<and> named k \<longrightarrow> k \<in> set (seenRewardKeys j))"

text \<open>The batch an answer of \<^verbatim>\<open>encode-v2\<close> carries.\<close>

definition batch_of :: "json \<Rightarrow> json list result \<times> json" where
  "batch_of res =
     (let encoded = or_object (getResponseData res)
      in (reward_items (json_opt encoded ''rewardEncodeItems''), json_opt encoded ''orderCode''))"

definition encoded_batch :: "'w claim_deps \<Rightarrow> json list \<Rightarrow> json \<Rightarrow> bool" where
  "encoded_batch deps items code \<longleftrightarrow>
     (\<exists>w w' v. apiPost deps ENCODE_V2 (encode_body (getWalletAddress deps)) w = (Inr v, w') \<and> batch_of v = (Inr items, code))"

datatype round_kind = no_order | failed_order json "order list" | done_order json "order list" "json list" json

fun round_ok :: "'w claim_net \<times> bonus_job \<Rightarrow> bool result \<Rightarrow> 'w claim_net \<times> bonus_job \<Rightarrow> round_kind \<Rightarrow> bool" where
  "round_ok (n, j) r (n', j') no_order \<longleftrightarrow> orders n' = orders n \<and> same_books j j' \<and> r \<noteq> Inr True \<and>
     (r = Inr False \<longrightarrow> ch_error (bj_entry j') \<noteq> None \<or> ch_totalPools (bj_entry j) > 0 \<or> seenOrderCodes j \<noteq> [] \<or> seenRewardKeys j \<noteq> [])"
| "round_ok (n, j) r (n', j') (failed_order b ts) \<longleftrightarrow> orders n' = orders n @ ts \<and> attempts b ts \<and> fresh_order j b \<and> r \<noteq> Inr True \<and>
     (r = Inr False \<longrightarrow> ch_error (bj_entry j') \<noteq> None)"
| "round_ok (n, j) r (n', j') (done_order b ts items code) \<longleftrightarrow> orders n' = orders n @ ts \<and> attempts b ts \<and> fresh_order j b \<and> r = Inr True \<and>
     booked_order j' b \<and> set (seenOrderCodes j) \<subseteq> set (seenOrderCodes j') \<and> set (seenRewardKeys j) \<subseteq> set (seenRewardKeys j') \<and>
     ch_totalPools (bj_entry j') > 0 \<and> ch_error (bj_entry j') = ch_error (bj_entry j) \<and> fresh_batch j items code \<and> booked_batch j' items code"

definition round_run :: "'w claim_deps \<Rightarrow> 'w claim_net \<times> bonus_job \<Rightarrow> bool result \<Rightarrow> 'w claim_net \<times> bonus_job \<Rightarrow> bool" where
  "round_run deps s r s' \<longleftrightarrow> keeps_entry (snd s) (snd s') \<and>
     (\<exists>kind. round_ok s r s' kind \<and> (case kind of done_order b ts items code \<Rightarrow> encoded_batch deps items code | _ \<Rightarrow> True))"

lemma keeps_entry_refl [simp]: "keeps_entry j j"
  by (simp add: keeps_entry_def)

lemma same_books_simps [simp]: "same_books j j" "same_books j (set_error m j)" "same_books j (add_signature x j)"
  by (simp_all add: same_books_def set_error_def add_signature_def)

lemma keeps_entry_simps [simp]:
  "m \<noteq> [] \<Longrightarrow> keeps_entry j (set_error m j)" "keeps_entry j (add_signature x j)" "keeps_entry j (book_batch u items c j)"
  by (simp_all add: keeps_entry_def set_error_def add_signature_def book_batch_def)

lemma stop_run:
  assumes "stopOrError msg (n, j) = (r, s')" and "msg \<noteq> []"
  shows "round_run deps (n, j) r s'"
proof -
  have "r = Inr False" "s' = (n, if ch_totalPools (bj_entry j) > 0 then j else set_error msg j)"
    using assms(1) by (auto simp: stopOrError_def claim_run_simps op_simps split: if_splits)
  moreover have "round_ok (n, j) (Inr False) (n, if ch_totalPools (bj_entry j) > 0 then j else set_error msg j) no_order"
    by (simp add: set_error_def same_books_def)
  ultimately show ?thesis
    using assms(2) unfolding round_run_def by (intro conjI exI [of _ no_order]) (auto simp del: round_ok.simps)
qed

text \<open>Signatures are only added to the entry.\<close>

definition only_signatures :: "bonus_job \<Rightarrow> bonus_job \<Rightarrow> bool" where
  "only_signatures j j' \<longleftrightarrow> same_books j j' \<and> keeps_entry j j' \<and> ch_error (bj_entry j') = ch_error (bj_entry j)"

lemma signatures_run:
  "each (\<lambda>tx. bind_op (of_result (json_field tx ''txSignature'')) (\<lambda>sig.
       if json_truthy sig then jot_l (add_signature sig) else ret ())) txs (n, j) = (r, s') \<Longrightarrow>
   \<exists>j'. s' = (n, j') \<and> only_signatures j j'"
proof (induction txs arbitrary: j)
  case Nil
  then show ?case by (auto simp: op_simps only_signatures_def)
next
  case (Cons tx txs)
  show ?case
  proof (cases "json_field tx ''txSignature''")
    case (Inl e)
    then show ?thesis using Cons.prems by (auto simp: bind_op_def op_simps only_signatures_def)
  next
    case (Inr sig)
    define j1 where "j1 = (if json_truthy sig then add_signature sig j else j)"
    have "only_signatures j j1" by (simp add: j1_def only_signatures_def same_books_def keeps_entry_def add_signature_def)
    moreover obtain j' where "s' = (n, j')" "only_signatures j1 j'"
      using Cons.IH [of j1] Cons.prems Inr by (auto simp: bind_op_def op_simps jot_l_def j1_def split: if_splits)
    ultimately show ?thesis by (auto simp: only_signatures_def same_books_def keeps_entry_def)
  qed
qed

lemma symbols_run:
  "each (\<lambda>t. bind_op (of_result (json_field t ''tokenSymbol'')) (\<lambda>_. ret ())) ts s = (r, s') \<Longrightarrow> s' = s"
  by (induction ts) (auto simp: bind_op_def op_simps split: sum.splits)

lemma booked_codes: "set (seenOrderCodes j) \<subseteq> set (seenOrderCodes (book_batch u items c j))"
  "json_truthy c \<Longrightarrow> c \<in> set (seenOrderCodes (book_batch u items c j))"
  by (auto simp: book_batch_def json_add_def json_has_def)

lemma fresh_body:
  assumes "\<forall>x \<in> set signed. \<exists>item \<in> set items. \<exists>tx. x = signed_item item tx"
    and "\<not> (json_truthy c \<and> json_has (seenOrderCodes j) c)" and "duplicateReward (seenRewardKeys j) items = Inr False"
  shows "fresh_order j (order_body c w signed)"
proof -
  have "k \<notin> set (seenRewardKeys j)" if "k \<in> set (order_keys (order_body c w signed))" "named k" for k
    using order_keys_items [OF assms(1) that(1)] duplicateReward_no [OF assms(3)] reward_key_opt that(2)
    by (metis json_has_def named_def)
  then show ?thesis using assms(2) by (auto simp: fresh_order_def order_body_simps named_def json_has_def)
qed

lemma booked_body:
  assumes "\<forall>x \<in> set signed. \<exists>item \<in> set items. \<exists>tx. x = signed_item item tx"
    and "duplicateReward seen items = Inr False"
  shows "booked_order (book_batch u items c j) (order_body c w signed)"
proof -
  have "k \<in> set (seenRewardKeys (book_batch u items c j))" if k: "k \<in> set (order_keys (order_body c w signed))" "named k" for k
  proof -
    obtain item where i: "item \<in> set items" "k = json_or (json_opt item ''txCode'') (json_opt item ''poolAddress'')"
      by (rule order_keys_items [OF assms(1) k(1)])
    with duplicateReward_no [OF assms(2) i(1)] have "reward_key item = Inr k" using reward_key_opt by blast
    with k(2) i(1) booked_keys(2) show ?thesis by (simp add: book_batch_def named_def)
  qed
  then show ?thesis using booked_codes(2) by (auto simp: booked_order_def order_body_simps named_def)
qed

lemma book_simps:
  "ch_error (bj_entry (book_batch u items c j)) = ch_error (bj_entry j)"
  "items \<noteq> [] \<Longrightarrow> 0 < ch_totalPools (bj_entry (book_batch u items c j))"
  "set (seenRewardKeys j) \<subseteq> set (seenRewardKeys (book_batch u items c j))"
  using booked_keys(1) by (simp_all add: book_batch_def)

lemma booked_batch_book:
  "booked_batch (book_batch u items c j) items c"
  using booked_codes(2) booked_keys(2) by (auto simp: booked_batch_def book_batch_def named_def json_add_def json_has_def)

lemma fresh_batchI:
  assumes "items \<noteq> []" and "\<not> (json_truthy c \<and> json_has (seenOrderCodes j) c)" and "duplicateReward (seenRewardKeys j) items = Inr False"
  shows "fresh_batch j items c"
  using assms duplicateReward_no [OF assms(3)] by (fastforce simp: fresh_batch_def named_def json_has_def)

lemma order_batch_run:
  assumes run: "order_batch deps u items c (n, j) = (r, s')"
    and fresh: "items \<noteq> []" "\<not> (json_truthy c \<and> json_has (seenOrderCodes j) c)" "duplicateReward (seenRewardKeys j) items = Inr False"
    and enc: "encoded_batch deps items c"
  shows "keeps_entry j (snd s') \<and> (r \<noteq> Inr True \<and> orders (fst s') = orders n \<and> same_books j (snd s') \<and>
       (r = Inr False \<longrightarrow> ch_error (bj_entry (snd s')) \<noteq> None) \<or>
     (\<exists>b ts. orders (fst s') = orders n @ ts \<and> attempts b ts \<and> fresh_order j b \<and>
       ((\<exists>e. r = Inl e) \<or> round_ok (n, j) r s' (done_order b ts items c))))"
proof -
  obtain x t where x: "sign_rewards deps items (n, j) = (x, t)" by (rule prod.exhaust)
  from sign_rewards_run [OF x] obtain n1 signed where t: "t = (n1, j)" "orders n1 = orders n" "x = Inr signed"
    "\<forall>x \<in> set signed. \<exists>item \<in> set items. \<exists>tx. x = signed_item item tx" by blast
  show ?thesis
  proof (cases "signed = []")
    case True
    then have "r = Inr False" "s' = (n1, set_error ''all signatures failed'' j)"
      using run x t by (auto simp: order_batch_def bind_op_def claim_run_simps op_simps)
    then show ?thesis using t by (simp add: set_error_def same_books_def keeps_entry_def)
  next
    case False
    define b where "b = order_body c (getWalletAddress deps) signed"
    obtain y u1 where y: "copyBonusPostWithRetry deps ORDER_V2 b (n1, j) = (y, u1)" by (rule prod.exhaust)
    from post_loop_run [OF this [unfolded copyBonusPostWithRetry_def]] obtain n2 ts
      where u1: "u1 = (n2, j)" "orders n2 = orders n @ ts" and at: "attempts b ts" using t by (auto simp: attempts_def)
    have fb: "fresh_order j b" unfolding b_def by (rule fresh_body [OF t(4) fresh(2,3)])
    show ?thesis
    proof (cases y)
      case (Inl e)
      then have "r = Inl e" "s' = (n2, j)"
        using run x t(1,3) y u1 False by (auto simp: order_batch_def bind_op_def b_def)
      then have "\<exists>b ts. orders (fst s') = orders n @ ts \<and> attempts b ts \<and> fresh_order j b \<and>
       ((\<exists>e. r = Inl e) \<or> round_ok (n, j) r s' (done_order b ts items c))"
        using u1(2) at fb by (intro exI [of _ b] exI [of _ ts]) simp
      then show ?thesis using \<open>s' = (n2, j)\<close> by simp
    next
      case (Inr res)
      define txs where "txs = array_or_empty (json_opt (or_object (getResponseData res)) ''txList'')"
      define toks where "toks = array_or_empty (json_opt (or_object (getResponseData res)) ''claimTokenList'')"
      define f where "f = (\<lambda>tx. bind_op (of_result (json_field tx ''txSignature'')) (\<lambda>sig.
         if json_truthy sig then jot_l (add_signature sig) else ret ()) :: ('a, bonus_job, unit) claim_op)"
      define g where "g = (\<lambda>t. bind_op (of_result (json_field t ''tokenSymbol'')) (\<lambda>_. ret ()) :: ('a, bonus_job, unit) claim_op)"
      have rest: "bind_op (each f txs) (\<lambda>_. bind_op (each g toks) (\<lambda>_. bind_op (jot_l (book_batch u items c)) (\<lambda>_. ret True))) (n2, j) = (r, s')"
        using run x t(1,3) y u1(1) Inr False unfolding order_batch_def Let_def f_def g_def txs_def toks_def b_def
        by (simp add: bind_op_simps(2) [where s = "(n, j)"] bind_op_simps(2) [where s = "(n1, j)"])
      obtain p v where p: "each f txs (n2, j) = (p, v)" by (rule prod.exhaust)
      from signatures_run [OF this [unfolded f_def]] obtain j1 where v: "v = (n2, j1)" "only_signatures j j1" by blast
      obtain q v' where q: "each g toks (n2, j1) = (q, v')" by (rule prod.exhaust)
      from symbols_run [OF this [unfolded g_def]] have v': "v' = (n2, j1)" .
      have r: "(r, s') = (case p of Inl e \<Rightarrow> (Inl e, (n2, j1)) | Inr _ \<Rightarrow>
          (case q of Inl e \<Rightarrow> (Inl e, (n2, j1)) | Inr _ \<Rightarrow> (Inr True, (n2, book_batch u items c j1))))"
        using rest p q v(1) v' by (auto simp: bind_op_def claim_run_simps op_simps jot_l_def split: sum.splits)
      show ?thesis
      proof (cases "\<exists>e. r = Inl e")
        case True
        then have "s' = (n2, j1)" using r by (auto split: sum.splits)
        then have "\<exists>b ts. orders (fst s') = orders n @ ts \<and> attempts b ts \<and> fresh_order j b \<and>
       ((\<exists>e. r = Inl e) \<or> round_ok (n, j) r s' (done_order b ts items c))"
          using True u1(2) at fb by (intro exI [of _ b] exI [of _ ts]) simp
        then show ?thesis using \<open>s' = (n2, j1)\<close> v(2) by (simp add: only_signatures_def)
      next
        case False
        then have s': "r = Inr True" "s' = (n2, book_batch u items c j1)" using r by (auto split: sum.splits)
        have j1: "seenOrderCodes j1 = seenOrderCodes j" "seenRewardKeys j1 = seenRewardKeys j" "ch_error (bj_entry j1) = ch_error (bj_entry j)"
          using v(2) by (auto simp: only_signatures_def same_books_def)
        have "round_ok (n, j) r s' (done_order b ts items c)"
          using u1(2) at fb s' j1 booked_body [OF t(4) fresh(3), where u = u and c = c and j = j1] fresh_batchI [OF fresh] booked_batch_book [of u items c j1]
            booked_codes(1) [of j1 u items c] book_simps [where u = u and items = items and c = c and j = j1] fresh(1)
          by (simp add: b_def)
        moreover have "keeps_entry j (book_batch u items c j1)"
          using v(2) by (auto simp: only_signatures_def keeps_entry_def book_batch_def)
        moreover from calculation have "\<exists>b ts. orders (fst s') = orders n @ ts \<and> attempts b ts \<and> fresh_order j b \<and>
       ((\<exists>e. r = Inl e) \<or> round_ok (n, j) r s' (done_order b ts items c))"
          using u1(2) at fb s'(2) by (intro exI [of _ b] exI [of _ ts]) simp
        ultimately show ?thesis using s'(2) by simp
      qed
    qed
  qed
qed

text \<open>What the body of the \<^verbatim>\<open>try\<close> statement does, before a thrown error is booked.\<close>

definition batch_run :: "'w claim_deps \<Rightarrow> 'w claim_net \<times> bonus_job \<Rightarrow> bool result \<Rightarrow> 'w claim_net \<times> bonus_job \<Rightarrow> bool" where
  "batch_run deps s r s' \<longleftrightarrow> keeps_entry (snd s) (snd s') \<and>
     (round_ok s r s' no_order \<or>
      (\<exists>b ts. orders (fst s') = orders (fst s) @ ts \<and> attempts b ts \<and> fresh_order (snd s) b \<and>
         ((\<exists>e. r = Inl e) \<or> (\<exists>items c. encoded_batch deps items c \<and> round_ok s r s' (done_order b ts items c)))))"

lemma round_then_batch: "round_run deps s r s' \<Longrightarrow> r \<noteq> Inr True \<Longrightarrow> orders (fst s') = orders (fst s) \<Longrightarrow> same_books (snd s) (snd s') \<Longrightarrow>
    batch_run deps s r s'"
  unfolding round_run_def batch_run_def
  by (cases s; cases s') (auto elim!: round_ok.elims)

lemma order_batch_meets:
  assumes "order_batch deps u items c (n, j) = (r, s')" "items \<noteq> []" "\<not> (json_truthy c \<and> json_has (seenOrderCodes j) c)"
    "duplicateReward (seenRewardKeys j) items = Inr False" "encoded_batch deps items c"
  shows "batch_run deps (n, j) r s'"
  using order_batch_run [OF assms] assms(5) unfolding batch_run_def
  by (cases s') (auto simp del: round_ok.simps(3); blast)

lemma stop_batch: "stopOrError msg (n, j) = (r, s') \<Longrightarrow> msg \<noteq> [] \<Longrightarrow> batch_run deps (n, j) r s'"
  by (rule round_then_batch [OF stop_run])
    (auto simp: stopOrError_def claim_run_simps op_simps split: if_splits)

lemma claim_batch_run:
  assumes "claim_batch deps u (n, j) = (r, s')"
  shows "batch_run deps (n, j) r s'"
proof -
  obtain x t where x: "copyBonusPostWithRetry deps ENCODE_V2 (encode_body (getWalletAddress deps)) (n, j) = (x, t)" by (rule prod.exhaust)
  from post_loop_run [OF this [unfolded copyBonusPostWithRetry_def]] obtain n1 where t: "t = (n1, j)" "orders n1 = orders n"
    "\<forall>v. x = Inr v \<longrightarrow> (\<exists>w w'. apiPost deps ENCODE_V2 (encode_body (getWalletAddress deps)) w = (Inr v, w'))" by auto
  have moved: "batch_run deps (n1, j) r s' \<Longrightarrow> batch_run deps (n, j) r s'"
    using t(2) unfolding batch_run_def by (cases s') simp
  have none: "round_ok (n, j) (Inl e) (n1, j) no_order" for e using t(2) by simp
  show ?thesis
  proof (cases x)
    case (Inl e)
    then have "r = Inl e" "s' = (n1, j)" using assms x t(1) by (auto simp: claim_batch_def bind_op_def)
    then show ?thesis using none unfolding batch_run_def by simp
  next
    case (Inr v)
    obtain its c where b: "batch_of v = (its, c)" by (rule prod.exhaust)
    show ?thesis
    proof (cases its)
      case (Inl e)
      then have "r = Inl e" "s' = (n1, j)"
        using assms x t(1) Inr b by (auto simp: claim_batch_def bind_op_def batch_of_def Let_def op_simps)
      then show ?thesis using none unfolding batch_run_def by simp
    next
      case items: (Inr items)
      have enc: "encoded_batch deps items c" using t(3) Inr b items unfolding encoded_batch_def by blast
      have body: "claim_batch deps u (n, j) = (if items = [] then stopOrError ''no rewards available''
          else bind_op (peek (\<lambda>j. json_truthy c \<and> json_has (seenOrderCodes j) c)) (\<lambda>d. bind_op (peek seenRewardKeys) (\<lambda>seen.
            bind_op (of_result (duplicateReward seen items)) (\<lambda>dup. if d \<or> dup then ret False else order_batch deps u items c)))) (n1, j)"
        using x t(1) Inr b items by (auto simp: claim_batch_def bind_op_simps(2) [where s = "(n, j)"] batch_of_def Let_def bind_now)
      show ?thesis
      proof (cases "items = []")
        case True
        with body assms have "stopOrError ''no rewards available'' (n1, j) = (r, s')" by simp
        then show ?thesis by (intro moved stop_batch) auto
      next
        case nonempty: False
        have rest: "bind_op (of_result (duplicateReward (seenRewardKeys j) items)) (\<lambda>dup.
            if json_truthy c \<and> json_has (seenOrderCodes j) c \<or> dup then ret False else order_batch deps u items c) (n1, j) = (r, s')"
          using body assms nonempty by (simp add: claim_run_simps)
        show ?thesis
        proof (cases "duplicateReward (seenRewardKeys j) items")
          case (Inl e)
          then have "r = Inl e" "s' = (n1, j)" using rest nonempty by (auto simp: bind_op_def op_simps)
          then show ?thesis using none unfolding batch_run_def by simp
        next
          case dup: (Inr d)
          show ?thesis
          proof (cases "json_truthy c \<and> json_has (seenOrderCodes j) c \<or> d")
            case True
            then have "r = Inr False" "s' = (n1, j)" using rest nonempty dup by (auto simp: op_simps bind_now)
            moreover have "seenOrderCodes j \<noteq> [] \<or> seenRewardKeys j \<noteq> []"
            proof (rule ccontr)
              assume "\<not> ?thesis"
              then have "duplicateReward [] items = Inr True" using True dup by (auto simp: json_has_def)
              moreover have "duplicateReward [] its \<noteq> Inr True" for its by (induction its) (auto simp: bind_result_eq_Inr_iff json_has_def split: if_splits)
              ultimately show False by blast
            qed
            ultimately show ?thesis using t(2) unfolding batch_run_def by simp
          next
            case False
            then have "order_batch deps u items c (n1, j) = (r, s')" using rest nonempty dup by (auto simp: bind_now)
            then show ?thesis using False dup nonempty enc by (intro moved order_batch_meets) auto
          qed
        qed
      qed
    qed
  qed
qed

text \<open>The error of a failed batch is booked and ends the loop.\<close>

lemma batch_caught:
  assumes "batch_run deps s r s1"
    and "(q, s') = (case r of Inl e \<Rightarrow> (Inr False, (fst s1, set_error (error_text e) (snd s1))) | Inr go \<Rightarrow> (Inr go, s1))"
  shows "round_run deps s q s'"
proof -
  obtain n j n1 j1 where s: "s = (n, j)" "s1 = (n1, j1)" by (metis surj_pair)
  have keep: "keeps_entry j (set_error (error_text e) j1)" if "keeps_entry j j1" for e
    using that by (simp add: keeps_entry_def set_error_def)
  have err: "ch_error (bj_entry (set_error m j1)) \<noteq> None" "same_books j (set_error m j1) \<longleftrightarrow> same_books j j1" for m
    by (simp_all add: set_error_def same_books_def)
  from assms(1) have k: "keeps_entry j j1" by (simp add: batch_run_def s)
  from assms(1) consider (none) "round_ok s r s1 no_order"
    | (failed) b m e where "orders n1 = orders n @ m" "attempts b m" "fresh_order j b" "r = Inl e"
    | (placed) b m items c where "encoded_batch deps items c" "round_ok s r s1 (done_order b m items c)" unfolding batch_run_def s by auto
  then show ?thesis
  proof cases
    case none
    show ?thesis
    proof (cases r)
      case (Inl e)
      then have "round_ok s q s' no_order" using none assms(2) err by (simp add: s)
      then show ?thesis using assms(2) Inl keep [OF k] unfolding round_run_def by (intro conjI exI [of _ no_order]) (auto simp: s)
    next
      case (Inr go)
      then show ?thesis using assms(2) none k unfolding round_run_def by (intro conjI exI [of _ no_order]) (auto simp: s)
    qed
  next
    case failed
    then have "round_ok s q s' (failed_order b m)" using assms(2) err by (simp add: s)
    then show ?thesis using assms(2) failed keep [OF k] unfolding round_run_def
      by (intro conjI exI [of _ "failed_order b m"]) (auto simp: s)
  next
    case placed
    then have "r = Inr True" by (simp add: s)
    then show ?thesis using assms(2) placed k unfolding round_run_def
      by (intro conjI exI [of _ "done_order b m items c"]) (simp_all add: s)
  qed
qed

lemma bonus_round_run:
  assumes "bonus_round deps now (n, j) = (r, s')"
  shows "round_run deps (n, j) r s'"
proof -
  let ?path = "''copyfarmer/epoch-bonus?walletAddress='' @ encodeURIComponent (getWalletAddress deps) @ ''&type=-1''"
  obtain x t where x: "ask (apiGet deps ?path) (n, j) = (x, t)" by (rule prod.exhaust)
  from ask_run [OF x] obtain w where t: "t = (n\<lparr>cn_world := w\<rparr>, j)" by blast
  define n1 where "n1 = n\<lparr>cn_world := w\<rparr>"
  have moved: "round_run deps (n1, j) r s' \<Longrightarrow> round_run deps (n, j) r s'"
    unfolding round_run_def n1_def by (cases s') (auto elim!: round_ok.elims split: round_kind.splits)
  let ?e = "third (or_object (getResponseData (projr x)))"
  let ?u = "js_Number (json_opt ?e ''totalBonusUsd'')"
  let ?c = "js_Number (json_opt ?e ''claimTime'')"
  have alt: "(\<exists>msg. msg \<noteq> [] \<and> stopOrError msg (n1, j) = (r, s')) \<or> (\<exists>e. r = Inl e \<and> s' = (n1, j)) \<or>
      catch_op (claim_batch deps ?u) (\<lambda>e. bind_op (jot_l (set_error (error_text e))) (\<lambda>_. ret False)) (n1, j) = (r, s')"
  proof (cases x)
    case (Inl e)
    then show ?thesis using assms x t unfolding bonus_round_def n1_def by (auto simp: bind_op_def try_op_def)
  next
    case (Inr v)
    show ?thesis
    proof (cases "num_lt (Num (of_int now)) ?c")
      case True
      then show ?thesis using assms x t Inr unfolding bonus_round_def n1_def
        by (auto simp: bind_op_def try_op_def op_simps Let_def split: if_splits sum.splits)
    next
      case False
      then show ?thesis using assms x t Inr unfolding bonus_round_def n1_def
        by (auto simp: bind_op_def [of "try_op _"] try_op_def Let_def split: if_splits)
    qed
  qed
  then consider (stop) msg where "msg \<noteq> []" "stopOrError msg (n1, j) = (r, s')" | (thrown) e where "r = Inl e" "s' = (n1, j)"
    | (batch) "catch_op (claim_batch deps ?u) (\<lambda>e. bind_op (jot_l (set_error (error_text e))) (\<lambda>_. ret False)) (n1, j) = (r, s')" by blast
  then show ?thesis
  proof cases
    case stop
    then show ?thesis by (intro moved stop_run)
  next
    case thrown
    then have "round_ok (n1, j) r s' no_order" by simp
    then show ?thesis using thrown by (intro moved) (auto simp: round_run_def intro!: exI [of _ no_order])
  next
    case batch
    obtain y s1 where y: "claim_batch deps ?u (n1, j) = (y, s1)" by (rule prod.exhaust)
    have "(r, s') = (case y of Inl e \<Rightarrow> (Inr False, (fst s1, set_error (error_text e) (snd s1))) | Inr go \<Rightarrow> (Inr go, s1))"
      using batch y by (cases s1) (auto simp: catch_op_def claim_run_simps op_simps split: sum.splits)
    then show ?thesis by (intro moved batch_caught [OF claim_batch_run [OF y]])
  qed
qed

section \<open>The loop\<close>

text \<open>
  At the head of every round: the orders so far are booked. Two that overlap are attempts at one order, the earlier one
  failed for the moment only.
\<close>

definition disjoint_orders :: "order list \<Rightarrow> bool" where
  "disjoint_orders os \<longleftrightarrow> (\<forall>i j. i < j \<and> j < length os \<and> overlap (fst (os ! i)) (fst (os ! j)) \<longrightarrow>
     fst (os ! i) = fst (os ! j) \<and> transient (os ! i) \<and> j \<le> i + 2)"

definition job_inv :: "order list \<Rightarrow> 'w claim_net \<times> bonus_job \<Rightarrow> bool" where
  "job_inv os0 s \<longleftrightarrow> (\<exists>os. orders (fst s) = os0 @ os \<and> disjoint_orders os \<and> (\<forall>t \<in> set os. booked_order (snd s) (fst t))) \<and>
     ch_error (bj_entry (snd s)) = None \<and>
     (ch_totalPools (bj_entry (snd s)) = 0 \<longrightarrow> seenOrderCodes (snd s) = [] \<and> seenRewardKeys (snd s) = [])"

lemma disjoint_add:
  assumes "disjoint_orders os" and "\<forall>t \<in> set os. booked_order job (fst t)" and "fresh_order job b" and "attempts b ts"
  shows "disjoint_orders (os @ ts)"
  unfolding disjoint_orders_def
proof (intro allI impI, elim conjE)
  fix i j assume ij: "i < j" "j < length (os @ ts)" and ov: "overlap (fst ((os @ ts) ! i)) (fst ((os @ ts) ! j))"
  let ?goal = "\<lambda>p q. fst p = fst q \<and> transient p \<and> j \<le> i + 2"
  consider "j < length os" | "i < length os" "length os \<le> j" | "length os \<le> i" by linarith
  then show "?goal ((os @ ts) ! i) ((os @ ts) ! j)"
  proof cases
    case 1
    then show ?thesis using assms(1) ij(1) ov by (simp add: disjoint_orders_def nth_append)
  next
    case 2
    then have "booked_order job (fst ((os @ ts) ! i))" using assms(2) by (simp add: nth_append)
    moreover have "fst ((os @ ts) ! j) = b" using 2 ij assms(4) by (simp add: nth_append attempts_def list_all_length)
    ultimately show ?thesis using fresh_booked_disjoint assms(3) ov by auto
  next
    case 3
    then show ?thesis using attempts_nth [OF assms(4), of "i - length os" "j - length os"] ij by (simp add: nth_append) linarith
  qed
qed

text \<open>What the claim as a whole gives.\<close>

definition claim_result :: "order list \<Rightarrow> bonus_job \<Rightarrow> ClaimHistoryEntry option result \<Rightarrow> 'w claim_net \<times> bonus_job \<Rightarrow> bool" where
  "claim_result os0 j0 r s' \<longleftrightarrow> (\<exists>os. orders (fst s') = os0 @ os \<and> disjoint_orders os) \<and>
     (\<forall>e. r = Inr (Some e) \<longrightarrow> ch_ts e = ch_ts (bj_entry j0) \<and> ch_week e = ch_week (bj_entry j0) \<and> claim_ok e \<and>
        (ch_error e = None \<longrightarrow> ch_totalPools e > 0))"

lemma bonus_loop_run:
  "job_inv os0 (n, j) \<Longrightarrow> keeps_entry j0 j \<Longrightarrow> ch_error (bj_entry j0) = None \<Longrightarrow>
   bonus_loop deps now m (n, j) = (r, s') \<Longrightarrow> claim_result os0 j0 r s'"
proof (induction m arbitrary: n j)
  case 0
  then show ?case by (auto simp: claim_result_def job_inv_def op_simps)
next
  case (Suc m)
  from Suc.prems(1) obtain os where os: "orders n = os0 @ os" "disjoint_orders os" "\<forall>t \<in> set os. booked_order j (fst t)"
    "ch_error (bj_entry j) = None" "ch_totalPools (bj_entry j) = 0 \<longrightarrow> seenOrderCodes j = [] \<and> seenRewardKeys j = []"
    by (auto simp: job_inv_def)
  obtain x n1 j1 where x: "bonus_round deps now (n, j) = (x, (n1, j1))" by (metis surj_pair)
  from bonus_round_run [OF x] obtain kind where k: "keeps_entry j j1" "round_ok (n, j) x (n1, j1) kind" by (auto simp: round_run_def)
  have k0: "keeps_entry j0 j1" using Suc.prems(2) k(1) by (auto simp: keeps_entry_def)
  have rest: "(case x of Inl e \<Rightarrow> (Inl e, (n1, j1)) | Inr go \<Rightarrow> (if go then bonus_loop deps now m else peek (\<lambda>j. Some (bj_entry j))) (n1, j1)) = (r, s')"
    using Suc.prems(4) x by (simp add: bind_op_def split: sum.splits)
  show ?case
  proof (cases "x = Inr True")
    case True
    then obtain b i items c where d: "kind = done_order b i items c" using k(2) by (cases kind) auto
    have old: "\<forall>t \<in> set os. booked_order j1 (fst t)" using os(3) k(2) d by (auto simp: booked_order_def)
    have "job_inv os0 (n1, j1)"
      using k(2) d os disjoint_add [OF os(2,3), of b i] old
      unfolding job_inv_def by (auto simp: attempts_def list_all_iff intro!: exI [of _ "os @ i"])
    moreover have "bonus_loop deps now m (n1, j1) = (r, s')" using rest True by simp
    ultimately show ?thesis using Suc.IH k0 Suc.prems(3) by blast
  next
    case False
    then have s': "s' = (n1, j1)" "\<And>e. r = Inr (Some e) \<Longrightarrow> x = Inr False \<and> e = bj_entry j1"
      using rest by (auto simp: claim_run_simps split: sum.splits if_splits)
    have "\<exists>os. orders n1 = os0 @ os \<and> disjoint_orders os"
    proof (cases kind)
      case (failed_order b i)
      then show ?thesis using k(2) os(1) disjoint_add [OF os(2,3), of b i] by auto
    qed (use k(2) os False in auto)
    moreover have "ch_error (bj_entry j1) = None \<longrightarrow> ch_totalPools (bj_entry j1) > 0" if "x = Inr False"
      using k(2) os(5) that by (cases kind) (auto simp: same_books_def)
    moreover have "ch_ts (bj_entry j1) = ch_ts (bj_entry j0)" "ch_week (bj_entry j1) = ch_week (bj_entry j0)" "claim_ok (bj_entry j1)"
      using k0 Suc.prems(3) by (auto simp: keeps_entry_def claim_ok_def)
    ultimately show ?thesis using s' unfolding claim_result_def by (metis fst_conv)
  qed
qed

text \<open>
  The service has finitely many rewards: the codes and keys of the batches it encodes are among \<open>codes\<close> and \<open>keys\<close>, and
  a batch that is not empty has at least one of them.
\<close>

definition finite_rewards :: "'w claim_deps \<Rightarrow> json list \<Rightarrow> json list \<Rightarrow> bool" where
  "finite_rewards deps codes keys \<longleftrightarrow> (\<forall>items code. encoded_batch deps items code \<and> items \<noteq> [] \<longrightarrow>
     named code \<and> code \<in> set codes \<or> (\<exists>item \<in> set items. \<exists>k. reward_key item = Inr k \<and> named k \<and> k \<in> set keys))"

definition open_rewards :: "json list \<Rightarrow> json list \<Rightarrow> bonus_job \<Rightarrow> nat" where
  "open_rewards codes keys j = card (set codes - set (seenOrderCodes j)) + card (set keys - set (seenRewardKeys j))"

lemma round_progress:
  assumes "finite_rewards deps codes keys" and "bonus_round deps now (n, j) = (Inr True, (n', j'))"
  shows "open_rewards codes keys j' < open_rewards codes keys j"
proof -
  from bonus_round_run [OF assms(2)] obtain kind where k: "round_ok (n, j) (Inr True) (n', j') kind"
    "case kind of done_order b i items code \<Rightarrow> encoded_batch deps items code | _ \<Rightarrow> True" by (auto simp: round_run_def)
  then obtain b i items code where d: "kind = done_order b i items code" by (cases kind) auto
  have sub: "set (seenOrderCodes j) \<subseteq> set (seenOrderCodes j')" "set (seenRewardKeys j) \<subseteq> set (seenRewardKeys j')"
    and fresh: "fresh_batch j items code" and booked: "booked_batch j' items code" using k d by auto
  have le: "card (set codes - set (seenOrderCodes j')) \<le> card (set codes - set (seenOrderCodes j))"
    "card (set keys - set (seenRewardKeys j')) \<le> card (set keys - set (seenRewardKeys j))" using sub by (auto intro!: card_mono)
  have "encoded_batch deps items code" "items \<noteq> []" using k(2) d fresh by (simp_all add: fresh_batch_def)
  with assms(1) consider "named code" "code \<in> set codes"
    | item k where "item \<in> set items" "reward_key item = Inr k" "named k" "k \<in> set keys"
    unfolding finite_rewards_def by blast
  then show ?thesis
  proof cases
    case 1
    then have "card (set codes - set (seenOrderCodes j')) < card (set codes - set (seenOrderCodes j))"
      using fresh booked sub(1) by (intro psubset_card_mono) (auto simp: fresh_batch_def booked_batch_def)
    with le(2) show ?thesis by (simp add: open_rewards_def)
  next
    case 2
    then have "k \<notin> set (seenRewardKeys j)" "k \<in> set (seenRewardKeys j')"
      using fresh booked unfolding fresh_batch_def booked_batch_def by blast+
    with 2(4) have "card (set keys - set (seenRewardKeys j')) < card (set keys - set (seenRewardKeys j))"
      using sub(2) by (intro psubset_card_mono) auto
    with le(1) show ?thesis by (simp add: open_rewards_def)
  qed
qed

lemma bonus_loop_ends:
  "finite_rewards deps codes keys \<Longrightarrow> open_rewards codes keys j < m \<Longrightarrow> fst (bonus_loop deps now m (n, j)) \<noteq> Inr None"
proof (induction m arbitrary: n j)
  case (Suc m)
  obtain x n1 j1 where x: "bonus_round deps now (n, j) = (x, (n1, j1))" by (metis surj_pair)
  show ?case
  proof (cases "x = Inr True")
    case True
    with Suc.prems x round_progress [of deps codes keys now n j n1 j1] have "open_rewards codes keys j1 < m" by simp
    then show ?thesis using Suc.IH [of j1 n1] Suc.prems(1) x True by (simp add: bind_op_def)
  qed (use x in \<open>auto simp: bind_op_def claim_run_simps split: sum.splits\<close>)
qed simp

section \<open>Properties\<close>

text \<open>
  C34: A claim of bonuses places no order twice. Of two orders one claim posts, however the service answers and however
  many rounds it takes, that carry the same order code or a reward of the same key, the later is the earlier one again, at
  most the second one after it, and the service answered the earlier one with a transient error. The entry that is
  returned carries the time and the ISO week of the claim, and it is without an error only if pools were claimed.
\<close>

theorem no_bonus_ordered_twice:
  assumes "claimCopyBonusWithDeps rounds zone deps now n = (r, n')"
  shows "\<exists>os. orders n' = orders n @ os \<and>
    (\<forall>i j. i < j \<and> j < length os \<and> overlap (fst (os ! i)) (fst (os ! j)) \<longrightarrow>
       fst (os ! i) = fst (os ! j) \<and> (\<exists>e. snd (os ! i) = Inl e \<and> isCopyBonusTransientError e) \<and> j \<le> i + 2) \<and>
    (\<forall>e. r = Inr (Some e) \<longrightarrow> ch_ts e = now \<and> ch_week e = getISOWeek zone now \<and> ch_error e \<noteq> Some [] \<and>
       (ch_error e = None \<longrightarrow> 0 < ch_totalPools e))"
proof -
  let ?j = "new_claim (getISOWeek zone now) now"
  obtain s' where s': "bonus_loop deps now rounds (n, ?j) = (r, s')" "fst s' = n'"
    using assms by (auto simp: claimCopyBonusWithDeps_def split: prod.splits)
  have res: "claim_result (orders n) ?j r s'"
    by (rule bonus_loop_run [OF _ _ _ s'(1)]) (auto simp: job_inv_def new_claim_def disjoint_orders_def)
  then obtain os where os: "orders n' = orders n @ os" "disjoint_orders os" using s'(2) by (auto simp: claim_result_def)
  have "transient t \<Longrightarrow> \<exists>e. snd t = Inl e \<and> isCopyBonusTransientError e" for t by (auto simp: transient_def split: sum.splits)
  then show ?thesis
    using os res by (intro exI [of _ os]) (auto simp: disjoint_orders_def claim_result_def new_claim_def claim_ok_def)
qed

text \<open>
  C37: The claim ends. If the service has finitely many rewards, as many rounds as there are order codes and reward keys,
  and one more, are enough for the unbounded loop: the claim returns an entry or throws.
\<close>

theorem bonus_claim_ends:
  assumes "finite_rewards deps codes keys" and "length codes + length keys < rounds"
  shows "(\<exists>e. fst (claimCopyBonusWithDeps rounds zone deps now n) = Inr (Some e)) \<or>
    (\<exists>err. fst (claimCopyBonusWithDeps rounds zone deps now n) = Inl err)"
proof -
  let ?j = "new_claim (getISOWeek zone now) now"
  have "open_rewards codes keys ?j \<le> length codes + length keys"
    unfolding open_rewards_def new_claim_def by (simp add: add_mono card_length)
  then have "fst (bonus_loop deps now rounds (n, ?j)) \<noteq> Inr None" using assms by (intro bonus_loop_ends) auto
  then show ?thesis
    unfolding claimCopyBonusWithDeps_def by (cases "bonus_loop deps now rounds (n, ?j)") (auto split: sum.splits, metis not_None_eq sum.exhaust)
qed

section \<open>Witnesses\<close>

text \<open>A service with one reward, which is gone once it is ordered; it is unavailable when the order comes first.\<close>

definition bonus_answer :: "json result" where
  "bonus_answer = Inr (JObject [(''data'', JObject [(''txList'', JArray [JObject [(''txSignature'', JString ''s'')]])])])"

definition bonus_demo :: "nat claim_deps" where
  "bonus_demo =
     \<lparr>apiGet = (\<lambda>_ w. (Inr (JObject [(''data'', JObject [(''3'', JObject [(''totalBonusUsd'', JNum (Num 5)), (''claimTime'', JNum (Num 0)),
          (''endTime'', JNum (Num 100))])])]), w)),
      apiPost = (\<lambda>p b w. if p = ORDER_V2 then (if w = 0 then Inl (Error ''503'') else bonus_answer, Suc w)
        else (Inr (JObject [(''data'', if w = 0 then JObject [(''orderCode'', JString ''o''),
          (''rewardEncodeItems'', JArray [JObject [(''txCode'', JString ''t''), (''poolAddress'', JString ''p'')]])] else JObject [])]), w)),
      getWalletAddress = ''US'', signRewardPayload = (\<lambda>_ w. (Inr ''signed'', w)), sendFeePayload = (\<lambda>_ w. (Inr ''s'', w))\<rparr>"

definition bonus_net :: "nat claim_net" where
  "bonus_net = \<lparr>cn_world = 0, cn_posts = [], cn_fees = []\<rparr>"

lemma bonus_demo_simps:
  "apiGet bonus_demo p w = (Inr (JObject [(''data'', JObject [(''3'', JObject [(''totalBonusUsd'', JNum (Num 5)), (''claimTime'', JNum (Num 0)),
          (''endTime'', JNum (Num 100))])])]), w)"
  "apiPost bonus_demo ORDER_V2 b w = (if w = 0 then Inl (Error ''503'') else bonus_answer, Suc w)"
  "apiPost bonus_demo ENCODE_V2 b w = (Inr (JObject [(''data'', if w = 0 then JObject [(''orderCode'', JString ''o''),
          (''rewardEncodeItems'', JArray [JObject [(''txCode'', JString ''t''), (''poolAddress'', JString ''p'')]])] else JObject [])]), w)"
  "getWalletAddress bonus_demo = ''US''" "signRewardPayload bonus_demo x w = (Inr ''signed'', w)"
  by (simp_all add: bonus_demo_def)

lemma bonus_demo_entry: "bonus_round bonus_demo 7 (n, j) =
    catch_op (claim_batch bonus_demo (Num 5)) (\<lambda>e. bind_op (jot_l (set_error (error_text e))) (\<lambda>_. ret False)) (n, j)"
  by (simp add: bonus_round_def bind_op_def try_op_def ask_def bonus_demo_simps getResponseData_def json_opt_def nullish_or_def or_object_def
      json_or_def third_def isFinite_def num_le_def num_eq_def Let_def)

lemma unavailable: "isCopyBonusTransientError (Error ''503'')"
  by code_simp

definition bonus_item :: json where
  "bonus_item = JObject [(''txCode'', JString ''t''), (''poolAddress'', JString ''p'')]"

definition bonus_order :: json where
  "bonus_order = order_body (JString ''o'') ''US'' [signed_item bonus_item ''signed'']"

definition bonus_orders :: "order list" where
  "bonus_orders = [(bonus_order, Inl (Error ''503'')), (bonus_order, bonus_answer)]"

definition encode_post :: "json result \<Rightarrow> string \<times> json \<times> json result" where
  "encode_post r = (ENCODE_V2, encode_body ''US'', r)"

lemmas bonus_eval = claim_batch_def copyBonusPostWithRetry_def numeral_2_eq_2 catch_op_def bind_op_def post_def bonus_demo_simps getResponseData_def
  json_opt_def nullish_or_def or_object_def json_or_def reward_items_def claim_run_simps op_simps bind_now reward_key_def json_has_def
  bind_result_def array_or_empty_def ask_def try_op_def encode_post_def unavailable

lemma bonus_demo_first:
  assumes "cn_world n = 0" and "seenOrderCodes j = []" and "seenRewardKeys j = []"
  shows "\<exists>r. claim_batch bonus_demo (Num 5) (n, j) =
    (Inr True, (n\<lparr>cn_world := 2, cn_posts := cn_posts n @ encode_post r # map (Pair ORDER_V2) bonus_orders\<rparr>,
      book_batch (Num 5) [bonus_item] (JString ''o'') (add_signature (JString ''s'') j)))"
  using assms by (simp add: bonus_eval order_batch_def Let_def bonus_order_def bonus_item_def bonus_orders_def bonus_answer_def) (rule exI, rule refl)

lemma bonus_demo_second:
  assumes "cn_world n = Suc w" and "0 < ch_totalPools (bj_entry j)"
  shows "\<exists>r. claim_batch bonus_demo (Num 5) (n, j) = (Inr False, (n\<lparr>cn_posts := cn_posts n @ [encode_post r]\<rparr>, j))"
  using assms by (simp add: bonus_eval stopOrError_def Let_def) (rule exI, rule refl)

lemma orders_demo: "orders (n\<lparr>cn_world := w, cn_posts := cn_posts n @ encode_post r # map (Pair ORDER_V2) bonus_orders\<rparr>) = orders n @ bonus_orders"
  "orders (n\<lparr>cn_posts := cn_posts n @ [encode_post r]\<rparr>) = orders n"
  by (simp_all add: orders_def encode_post_def bonus_orders_def)

lemma bonus_demo_run:
  "\<exists>e n'. claimCopyBonusWithDeps (Suc (Suc m)) zone bonus_demo 7 bonus_net = (Inr (Some e), n') \<and> orders n' = bonus_orders \<and>
     ch_totalPools e = 1 \<and> ch_error e = None"
proof -
  let ?j = "new_claim (getISOWeek zone 7) 7"
  let ?j1 = "book_batch (Num 5) [bonus_item] (JString ''o'') (add_signature (JString ''s'') ?j)"
  obtain n1 where 1: "bonus_round bonus_demo 7 (bonus_net, ?j) = (Inr True, (n1, ?j1))"
    and n1: "cn_world n1 = Suc 1" "orders n1 = bonus_orders"
    using bonus_demo_first [of bonus_net ?j] orders_demo(1) [of bonus_net] unfolding bonus_demo_entry
    by (auto simp: catch_op_def bonus_net_def new_claim_def orders_def)
  have p: "ch_totalPools (bj_entry ?j1) = 1" "ch_error (bj_entry ?j1) = None"
    by (simp_all add: book_batch_def add_signature_def new_claim_def)
  obtain n2 where 2: "bonus_round bonus_demo 7 (n1, ?j1) = (Inr False, (n2, ?j1))" and n2: "orders n2 = bonus_orders"
    using bonus_demo_second [of n1 1 ?j1] p n1 orders_demo(2) [of n1] unfolding bonus_demo_entry by (auto simp: catch_op_def)
  have "bonus_loop bonus_demo 7 (Suc (Suc m)) (bonus_net, ?j) = (Inr (Some (bj_entry ?j1)), (n2, ?j1))"
    unfolding bonus_loop.simps bind_op_simps(2) [where m = "bonus_round bonus_demo 7", OF 1] if_True
      bind_op_simps(2) [where m = "bonus_round bonus_demo 7", OF 2] by (simp add: claim_run_simps)
  then show ?thesis using p n2 by (simp add: claimCopyBonusWithDeps_def)
qed

lemma bonus_orders_overlap: "overlap (fst (bonus_orders ! 0)) (fst (bonus_orders ! 1))"
  by (simp add: bonus_orders_def bonus_order_def overlap_def order_body_simps named_def primitive_def)

theorem no_bonus_ordered_twice_witness:
  "\<exists>e n'. claimCopyBonusWithDeps 5 8 bonus_demo 7 bonus_net = (Inr (Some e), n') \<and> orders n' = bonus_orders \<and>
     overlap (fst (bonus_orders ! 0)) (fst (bonus_orders ! 1)) \<and> fst (bonus_orders ! 0) = fst (bonus_orders ! 1) \<and>
     ch_week e = getISOWeek 8 7 \<and> 0 < ch_totalPools e"
proof -
  obtain e n' where r: "claimCopyBonusWithDeps 5 8 bonus_demo 7 bonus_net = (Inr (Some e), n')" "orders n' = bonus_orders" "ch_error e = None"
    using bonus_demo_run [of 3 8] by (auto simp: numeral_eq_Suc)
  have n: "orders bonus_net = []" "1 < length bonus_orders" by (simp_all add: orders_def bonus_net_def bonus_orders_def)
  from no_bonus_ordered_twice [OF r(1)] obtain os where os: "bonus_orders = os"
    and pairs: "\<forall>i j. i < j \<and> j < length os \<and> overlap (fst (os ! i)) (fst (os ! j)) \<longrightarrow>
       fst (os ! i) = fst (os ! j) \<and> (\<exists>e. snd (os ! i) = Inl e \<and> isCopyBonusTransientError e) \<and> j \<le> i + 2"
    and e: "ch_week e = getISOWeek 8 7" "0 < ch_totalPools e"
    using r n by auto
  have "fst (bonus_orders ! 0) = fst (bonus_orders ! 1)" using pairs bonus_orders_overlap n(2) os by fastforce
  then show ?thesis using r e bonus_orders_overlap by blast
qed

lemma bonus_demo_finite: "finite_rewards bonus_demo [JString ''o''] []"
proof -
  have "items = [] \<or> code = JString ''o''" if "encoded_batch bonus_demo items code" for items code
    using that unfolding encoded_batch_def bonus_demo_simps batch_of_def
    by (auto simp: getResponseData_def json_opt_def nullish_or_def or_object_def json_or_def reward_items_def split: if_splits)
  moreover have "named (JString ''o'')" by (simp add: named_def primitive_def)
  ultimately show ?thesis unfolding finite_rewards_def by (metis list.set_intros(1))
qed

theorem bonus_claim_ends_witness:
  "finite_rewards bonus_demo [JString ''o''] [] \<and> (\<exists>e. fst (claimCopyBonusWithDeps 2 8 bonus_demo 7 bonus_net) = Inr (Some e) \<and> ch_error e = None)"
proof -
  have "fst (claimCopyBonusWithDeps 2 8 bonus_demo 7 bonus_net) \<noteq> Inr None"
    using bonus_claim_ends [OF bonus_demo_finite, of 2 8 7 bonus_net] by auto
  then show ?thesis using bonus_demo_finite bonus_demo_run [of 0 8] by (auto simp: numeral_2_eq_2)
qed

section \<open>The schedule\<close>

text \<open>Tuesday, 16:30 in Taiwan, eight hours ahead of UTC.\<close>

definition claim_hour :: "millis \<Rightarrow> bool" where
  "claim_hour t \<longleftrightarrow> getUTCDay (t + 8 * 3600000) = 2 \<and> (t + 8 * 3600000) mod DAY_MS = 16 * 3600000 + 30 * 60000"

lemma claim_hour_iff: "claim_hour t \<longleftrightarrow> (\<exists>d. t = d * DAY_MS + 30600000 \<and> (d + 4) mod 7 = 2)"
proof
  assume h: "claim_hour t"
  define d where "d = (t + 28800000) div DAY_MS"
  have "t + 28800000 = d * DAY_MS + (t + 28800000) mod DAY_MS" by (simp add: d_def)
  then have "t = d * DAY_MS + 30600000" using h by (simp add: claim_hour_def)
  moreover have "(d + 4) mod 7 = 2" using h by (simp add: claim_hour_def getUTCDay_def utc_day_def d_def)
  ultimately show "\<exists>d. t = d * DAY_MS + 30600000 \<and> (d + 4) mod 7 = 2" by blast
next
  assume "\<exists>d. t = d * DAY_MS + 30600000 \<and> (d + 4) mod 7 = 2"
  then obtain d where d: "t = d * DAY_MS + 30600000" "(d + 4) mod 7 = 2" by blast
  have "(t + 28800000) div DAY_MS = d" "(t + 28800000) mod DAY_MS = 59400000" unfolding d(1) DAY_MS_def by simp_all
  then show "claim_hour t" using d(2) by (simp add: claim_hour_def getUTCDay_def utc_day_def)
qed

text \<open>
  C39: The timer of the weekly claim is set to the next Tuesday, 16:30 in Taiwan: it lies in the future, it is such an
  instant, and there is none before it.
\<close>

theorem claim_timer_next:
  assumes "scheduleNextClaim True now = Some t"
  shows "now < t \<and> claim_hour t \<and> (\<forall>u. now < u \<and> u < t \<longrightarrow> \<not> claim_hour u)"
proof -
  have t: "t = now + msUntilNextClaim now" using assms by (simp add: scheduleNextClaim_def)
  note nx = next_tuesday [of now, folded t]
  define d where "d = t div DAY_MS"
  have td: "t = d * DAY_MS + 30600000" using nx(4) by (simp add: d_def) (metis div_mult_mod_eq)
  have d7: "(d + 4) mod 7 = 2" using nx(3) by (simp add: getUTCDay_def utc_day_def d_def)
  have "\<not> claim_hour u" if u: "now < u" "u < t" for u
  proof
    assume "claim_hour u"
    then obtain e where e: "u = e * DAY_MS + 30600000" "(e + 4) mod 7 = 2" by (auto simp: claim_hour_iff)
    have "e < d" "d < e + 7" using u nx(2) td e(1) by (simp_all add: DAY_MS_def)
    with e(2) d7 show False by presburger
  qed
  then show ?thesis using nx(1) td d7 by (auto simp: claim_hour_iff)
qed

theorem claim_timer_next_witness: "scheduleNextClaim True 0 = Some 462600000 \<and> claim_hour 462600000 \<and> \<not> claim_hour 30600000"
proof -
  have s: "scheduleNextClaim True 0 = Some 462600000" by code_simp
  then show ?thesis using claim_timer_next [OF s] by simp
qed

end
