(* ===== verification/Fee_Claim.thy ===== *)
theory Fee_Claim
  imports Claim_Api Bonus_Claim
begin

text \<open>
  The claim of a wallet's liquidity fees and rewards, \<^verbatim>\<open>claimLpFeesCliParityForTest\<close> of \<^verbatim>\<open>src/executor/auto-claim.ts\<close>, with
  the sending of a fee transaction. First up to 100 rounds of rewards, then one fee transaction per open position. No
  error leaves it: each one is noted among the failures of the result, whose addresses, codes and signatures are parsed
  values.
\<close>

section \<open>The result\<close>

record LpFeeClaimResult =
  rewardRounds :: nat
  feeRounds :: nat
  totalItems :: nat
  lp_txSignatures :: "json list"
  lp_failures :: "(string \<times> string \<times> string) list" \<comment> \<open>phase, reference, error\<close>
  claimedTokens :: "(json \<times> js_num \<times> js_num) list" \<comment> \<open>symbol, amount, decimals\<close>

record fee_job =
  fj_result :: LpFeeClaimResult
  tokenTotals :: "(json \<times> js_num \<times> js_num) list"
  seenSignatures :: "json list"
  processedRewardPositions :: "json list"

definition createLpFeeClaimResult :: LpFeeClaimResult where
  "createLpFeeClaimResult = \<lparr>rewardRounds = 0, feeRounds = 0, totalItems = 0, lp_txSignatures = [], lp_failures = [], claimedTokens = []\<rparr>"

definition extractSignature :: "json \<Rightarrow> json" where
  "extractSignature entry =
     (case entry of JString s \<Rightarrow> entry | _ \<Rightarrow> json_or (json_opt entry ''txSignature'') (json_or (json_opt entry ''signature'') JNull))"

definition addUniqueSignature :: "json \<Rightarrow> fee_job \<Rightarrow> fee_job" where
  "addUniqueSignature sig j =
     (if \<not> json_truthy sig \<or> json_has (seenSignatures j) sig then j
      else let sigs = lp_txSignatures (fj_result j) @ [sig]
           in j\<lparr>seenSignatures := json_add sig (seenSignatures j),
                fj_result := (fj_result j)\<lparr>lp_txSignatures := sigs, totalItems := length sigs\<rparr>\<rparr>)"

text \<open>A \<^verbatim>\<open>Map\<close> keyed by a parsed value.\<close>

definition totals_get :: "(json \<times> 'v) list \<Rightarrow> json \<Rightarrow> 'v option" where
  "totals_get m k = (if primitive k then map_of m k else None)"

definition totals_set :: "json \<Rightarrow> 'v \<Rightarrow> (json \<times> 'v) list \<Rightarrow> (json \<times> 'v) list" where
  "totals_set k v m = (if primitive k then AList.update k v m else m @ [(k, v)])"

definition add_total :: "json \<Rightarrow> fee_job \<Rightarrow> fee_job" where
  "add_total token j =
     (let symbol = json_or (json_opt token ''tokenSymbol'') (json_opt token ''symbol'');
          zero = JNum (Num 0);
          amt = js_Number (nullish_or (json_opt token ''tokenAmount'') (nullish_or (json_opt token ''amount'') zero));
          dec = js_Number (nullish_or (json_opt token ''tokenDecimals'') (nullish_or (json_opt token ''decimals'') zero))
      in if \<not> json_truthy symbol \<or> \<not> isFinite amt then j
         else let old = (case totals_get (tokenTotals j) symbol of Some (a, d) \<Rightarrow> a | None \<Rightarrow> Num 0)
              in j\<lparr>tokenTotals := totals_set symbol (num_add old amt, dec) (tokenTotals j)\<rparr>)"

text \<open>\<^verbatim>\<open>for (const token of tokens)\<close>; a missing token throws.\<close>

definition addTokenTotals :: "json \<Rightarrow> ('w, fee_job, unit) claim_op" where
  "addTokenTotals tokens =
     bind_op (of_result (iterate tokens)) (\<lambda>ts.
       each (\<lambda>token. bind_op (of_result (json_field token ''tokenSymbol'')) (\<lambda>_. jot_l (add_total token))) ts)"

definition number_or_zero :: "json \<Rightarrow> js_num" where
  "number_or_zero v = js_Number (json_or v (JNum (Num 0)))"

definition hasPositiveUnclaimedReward :: "json \<Rightarrow> bool" where
  "hasPositiveUnclaimedReward item =
     num_lt (Num 0) (num_sub (num_sub (number_or_zero (json_opt item ''syncedTokenAmount'')) (number_or_zero (json_opt item ''lockedTokenAmount'')))
       (number_or_zero (json_opt item ''claimedTokenAmount'')))"

definition fail :: "string \<Rightarrow> string \<Rightarrow> js_error \<Rightarrow> ('w, fee_job, unit) claim_op" where
  "fail phase ref e =
     jot_l (\<lambda>j. j\<lparr>fj_result := (fj_result j)\<lparr>lp_failures := lp_failures (fj_result j) @ [(phase, ref, error_text e)]\<rparr>\<rparr>)"

section \<open>Rewards\<close>

definition reward_positions :: "json \<Rightarrow> json list \<Rightarrow> json list" where
  "reward_positions data processed =
     (let rewards = array_or_empty (json_opt data ''unclaimedOpenIncentives'') @ array_or_empty (json_opt data ''unclaimedClosedIncentives'');
          addrs = map (\<lambda>item. json_opt item ''positionAddress'') (filter hasPositiveUnclaimedReward rewards)
      in fold json_add (filter (\<lambda>a. json_truthy a \<and> \<not> json_has processed a) addrs) [])"

definition signed_reward :: "json \<Rightarrow> string \<Rightarrow> json" where
  "signed_reward item tx =
     JObject [(''poolAddress'', json_opt item ''poolAddress''), (''txCode'', json_opt item ''txCode''), (''signedTx'', JString tx)]"

definition round_ref :: "nat \<Rightarrow> string" where
  "round_ref k = ''round-'' @ show_nat k"

fun sign_fee_rewards :: "'w claim_deps \<Rightarrow> nat \<Rightarrow> json list \<Rightarrow> ('w, fee_job, json list) claim_op" where
  "sign_fee_rewards deps k [] = ret []"
| "sign_fee_rewards deps k (item # items) =
     bind_op (try_op (bind_op (of_result (json_field item ''poolAddress'')) (\<lambda>_.
        ask (signRewardPayload deps (json_opt item ''txPayload''))))) (\<lambda>r.
       case r of
         Inr tx \<Rightarrow> bind_op (sign_fee_rewards deps k items) (\<lambda>signed. ret (signed_reward item tx # signed))
       | Inl e \<Rightarrow>
           bind_op (of_result (json_field item ''txCode'')) (\<lambda>code.
           bind_op (fail ''reward-sign'' (js_String (json_or code (json_or (json_opt item ''poolAddress'') (JString (round_ref k))))) e) (\<lambda>_.
             sign_fee_rewards deps k items)))"

definition book_order :: "json list \<Rightarrow> json list \<Rightarrow> json \<Rightarrow> ('w, fee_job, unit) claim_op" where
  "book_order items positionAddresses orderRes =
     (let orderData = or_object (getResponseData orderRes); toks = array_or_empty (json_opt orderData ''claimTokenList'')
      in bind_op (each (\<lambda>tx. jot_l (addUniqueSignature (extractSignature tx))) (array_or_empty (json_opt orderData ''txList''))) (\<lambda>_.
         bind_op (if toks \<noteq> [] then addTokenTotals (JArray toks)
                  else each (\<lambda>item. addTokenTotals (json_or (json_opt item ''rewardClaimInfo'') (JArray []))) items) (\<lambda>_.
           jot_l (\<lambda>j. j\<lparr>processedRewardPositions := fold json_add positionAddresses (processedRewardPositions j)\<rparr>))))"

definition is_empty_list :: "json \<Rightarrow> bool" where
  "is_empty_list v \<longleftrightarrow> v = JArray [] \<or> json_opt v ''length'' = JNum (Num 0)"

definition order_rewards :: "'w claim_deps \<Rightarrow> nat \<Rightarrow> json list \<Rightarrow> json \<Rightarrow> ('w, fee_job, bool) claim_op" where
  "order_rewards deps k addrs encodeRes =
     (let encoded = or_object (getResponseData encodeRes);
          itemsv = json_or (json_opt encoded ''rewardEncodeItems'') (JArray []);
          orderCode = json_opt encoded ''orderCode''
      in if is_empty_list itemsv then ret False
         else bind_op (jot_l (\<lambda>j. j\<lparr>fj_result := (fj_result j)\<lparr>rewardRounds := k\<rparr>\<rparr>)) (\<lambda>_.
              bind_op (of_result (iterate itemsv)) (\<lambda>items.
              bind_op (sign_fee_rewards deps k items) (\<lambda>signed.
                if signed = [] then ret False
                else bind_op (try_op (bind_op (post deps ORDER_V2 (order_body orderCode (getWalletAddress deps) signed))
                        (\<lambda>orderRes. book_order items addrs orderRes))) (\<lambda>r.
                     case r of
                       Inl e \<Rightarrow> bind_op (fail ''reward-order'' (js_String (json_or orderCode (JString (round_ref k)))) e) (\<lambda>_. ret False)
                     | Inr _ \<Rightarrow> ret True)))))"

definition reward_round :: "'w claim_deps \<Rightarrow> nat \<Rightarrow> ('w, fee_job, bool) claim_op" where
  "reward_round deps k =
     bind_op (try_op (ask (apiGet deps (''position/unclaimed-data?userAddress='' @ encodeURIComponent (getWalletAddress deps))))) (\<lambda>r.
       case r of
         Inl e \<Rightarrow> bind_op (fail ''reward-query'' (round_ref k) e) (\<lambda>_. ret False)
       | Inr res \<Rightarrow>
           bind_op (peek processedRewardPositions) (\<lambda>processed.
             let addrs = reward_positions (or_object (getResponseData res)) processed
             in if addrs = [] then ret False
                else bind_op (try_op (post deps ENCODE_V2 (JObject [(''walletAddress'', JString (getWalletAddress deps)),
                        (''positionAddresses'', JArray addrs), (''type'', JNum (Num 1))]))) (\<lambda>r.
                     case r of
                       Inl e \<Rightarrow> bind_op (fail ''reward-encode'' (round_ref k) e) (\<lambda>_. ret False)
                     | Inr encodeRes \<Rightarrow> order_rewards deps k addrs encodeRes)))"

fun reward_rounds :: "'w claim_deps \<Rightarrow> nat \<Rightarrow> nat \<Rightarrow> ('w, fee_job, unit) claim_op" where
  "reward_rounds deps k 0 = ret ()"
| "reward_rounds deps k (Suc n) = bind_op (reward_round deps k) (\<lambda>go. if go then reward_rounds deps (Suc k) n else ret ())"

section \<open>Fees\<close>

definition page_rows :: "json \<Rightarrow> json list" where
  "page_rows data = (case json_opt data ''positions'' of JArray rows \<Rightarrow> rows | _ \<Rightarrow> array_or_empty (json_opt data ''records''))"

definition add_rows :: "json list \<Rightarrow> json list \<Rightarrow> json list" where
  "add_rows rows found = fold (\<lambda>row ps. let a = json_opt row ''positionAddress'' in if json_truthy a then json_add a ps else ps) rows found"

fun position_pages :: "'w claim_deps \<Rightarrow> nat \<Rightarrow> nat \<Rightarrow> json list \<Rightarrow> ('w, 'l, json list) claim_op" where
  "position_pages deps page 0 found = ret found"
| "position_pages deps page (Suc n) found =
     bind_op (ask (apiGet deps (''position/list?userAddress='' @ encodeURIComponent (getWalletAddress deps) @ ''&page='' @ show_nat page @
         ''&pageSize=100&status=0''))) (\<lambda>res.
       let data = or_object (getResponseData res); rows = page_rows data; found' = add_rows rows found; total = number_or_zero (json_opt data ''total'')
       in if rows = [] then ret found
          else if num_lt (Num 0) total \<and> num_le total (Num (of_nat (length found'))) then ret found'
          else position_pages deps (Suc page) n found')"

definition listActivePositionAddresses :: "'w claim_deps \<Rightarrow> ('w, 'l, json list) claim_op" where
  "listActivePositionAddresses deps = position_pages deps 1 100 []"

text \<open>The loop over the fee entries; an entry that is missing throws.\<close>

fun send_fees :: "'w claim_deps \<Rightarrow> json list \<Rightarrow> json list \<Rightarrow> ('w, fee_job, unit) claim_op" where
  "send_fees deps sentPositions [] = ret ()"
| "send_fees deps sentPositions (entry # entries) =
     bind_op (of_result (json_field entry ''positionAddress'')) (\<lambda>p.
       if \<not> json_truthy p \<or> json_has sentPositions p then send_fees deps sentPositions entries
       else bind_op (try_op (bind_op (send_fee deps entry) (\<lambda>sig.
              bind_op (jot_l (addUniqueSignature (JString sig))) (\<lambda>_.
                addTokenTotals (json_or (json_opt entry ''tokens'') (JArray [])))))) (\<lambda>r.
            bind_op (case r of Inl e \<Rightarrow> fail ''fee-send'' (js_String p) e | Inr _ \<Rightarrow> ret ()) (\<lambda>_.
              send_fees deps (json_add p sentPositions) entries)))"

text \<open>\<^verbatim>\<open>feeEntries.length > 0\<close>\<close>

definition some_entries :: "json \<Rightarrow> bool" where
  "some_entries v = (case v of JArray xs \<Rightarrow> xs \<noteq> [] | JString s \<Rightarrow> s \<noteq> [] | _ \<Rightarrow> num_lt (Num 0) (js_Number (json_opt v ''length'')))"

definition claim_fees :: "'w claim_deps \<Rightarrow> json list \<Rightarrow> ('w, fee_job, unit) claim_op" where
  "claim_fees deps positionAddresses =
     bind_op (try_op (post deps ''incentive/encode-fee''
         (JObject [(''walletAddress'', JString (getWalletAddress deps)), (''positionAddresses'', JArray positionAddresses)]))) (\<lambda>r.
     bind_op (case r of Inl e \<Rightarrow> fail ''fee-encode'' (getWalletAddress deps) e | Inr _ \<Rightarrow> ret ()) (\<lambda>_.
       let feeEntries = (case r of Inl e \<Rightarrow> JArray [] | Inr res \<Rightarrow> json_or (getResponseData res) (JArray []))
       in bind_op (if some_entries feeEntries then jot_l (\<lambda>j. j\<lparr>fj_result := (fj_result j)\<lparr>feeRounds := 1\<rparr>\<rparr>) else ret ()) (\<lambda>_.
          bind_op (of_result (iterate feeEntries)) (\<lambda>entries. send_fees deps [] entries))))"

definition claim_all :: "'w claim_deps \<Rightarrow> ('w, fee_job, unit) claim_op" where
  "claim_all deps =
     bind_op (reward_rounds deps 1 100) (\<lambda>_.
     bind_op (try_op (listActivePositionAddresses deps)) (\<lambda>r.
       case r of
         Inl e \<Rightarrow> fail ''fee-list'' (getWalletAddress deps) e
       | Inr addrs \<Rightarrow> if addrs = [] then ret () else claim_fees deps addrs))"

definition claimLpFees :: "'w claim_deps \<Rightarrow> 'w claim_net \<Rightarrow> LpFeeClaimResult \<times> 'w claim_net" where
  "claimLpFees deps n =
     (case catch_op (claim_all deps) (\<lambda>e. fail ''fatal'' ''claimLpFees'' e)
             (n, \<lparr>fj_result = createLpFeeClaimResult, tokenTotals = [], seenSignatures = [], processedRewardPositions = []\<rparr>) of
        (r, (n', j)) \<Rightarrow>
          ((fj_result j)\<lparr>claimedTokens := tokenTotals j, totalItems := length (lp_txSignatures (fj_result j))\<rparr>, n'))"

section \<open>Sending a fee transaction\<close>

record 'w fee_services =
  fs_sign :: "json \<Rightarrow> 'w \<Rightarrow> (string \<times> string) result \<times> 'w" \<comment> \<open>the bytes and the block hash of the signed message\<close>
  fs_sendRaw :: "string \<Rightarrow> 'w \<Rightarrow> string result \<times> 'w"
  fs_latestHeight :: "'w \<Rightarrow> int result \<times> 'w"
  fs_confirm :: "string \<Rightarrow> string \<Rightarrow> int \<Rightarrow> 'w \<Rightarrow> json result \<times> 'w" \<comment> \<open>\<^verbatim>\<open>confirm?.value?.err\<close>\<close>

definition sendSignedFeePayload :: "(json \<Rightarrow> string) \<Rightarrow> 'w fee_services \<Rightarrow> json \<Rightarrow> ('w, string) op" where
  "sendSignedFeePayload stringify fs txPayload =
     bind_op (fs_sign fs txPayload) (\<lambda>(bytes, blockhash).
     bind_op (fs_sendRaw fs bytes) (\<lambda>signature.
     bind_op (fs_latestHeight fs) (\<lambda>height.
     bind_op (fs_confirm fs signature blockhash height) (\<lambda>err.
       if json_truthy err then throw (Error (''Transaction confirmed but failed: '' @ stringify err)) else ret signature))))"

section \<open>What a claim keeps\<close>

definition unique :: "json list \<Rightarrow> bool" where
  "unique vs \<longleftrightarrow> distinct (filter primitive vs)"

definition fee_inv :: "fee_job \<Rightarrow> bool" where
  "fee_inv j \<longleftrightarrow> set (seenSignatures j) = set (lp_txSignatures (fj_result j)) \<and> unique (lp_txSignatures (fj_result j)) \<and>
     rewardRounds (fj_result j) \<le> 100"

text \<open>A step keeps the invariant and hands no fee transaction over.\<close>

definition fee_rel :: "'w claim_net \<times> fee_job \<Rightarrow> 'w claim_net \<times> fee_job \<Rightarrow> bool" where
  "fee_rel s s' \<longleftrightarrow> (fee_inv (snd s) \<longrightarrow> fee_inv (snd s')) \<and> cn_fees (fst s') = cn_fees (fst s)"

interpretation fee: step_relation "fee_rel :: 'w claim_net \<times> fee_job \<Rightarrow> 'w claim_net \<times> fee_job \<Rightarrow> bool"
  by unfold_locales (simp_all add: fee_rel_def)

lemma add_signature_inv: "fee_inv j \<Longrightarrow> fee_inv (addUniqueSignature sig j)"
  by (auto simp: fee_inv_def addUniqueSignature_def unique_def json_has_def json_add_def Let_def)

lemma add_total_inv: "fee_inv (add_total token j) \<longleftrightarrow> fee_inv j"
  by (simp add: fee_inv_def add_total_def Let_def split: option.splits prod.splits)

lemma fee_simple:
  "(\<And>j. fee_inv j \<Longrightarrow> fee_inv (f j)) \<Longrightarrow> always fee_rel (jot_l f)" "always fee_rel (ask g)" "always fee_rel (post deps p b)"
  "always fee_rel (peek h)"
  by (auto simp: always_def fee_rel_def jot_l_def ask_def post_def peek_def op_simps split: prod.splits)

lemma fail_rel: "always fee_rel (fail p r e)"
  unfolding fail_def by (rule fee_simple) (simp add: fee_inv_def)

lemmas fee_rules = fee.rules fee_simple(2-4) fail_rel

lemma totals_rel: "always fee_rel (addTokenTotals tokens)"
  unfolding addTokenTotals_def by (intro fee_rules fee_simple(1)) (simp_all add: add_total_inv)

lemma sign_rel: "always fee_rel (sign_fee_rewards deps k items)"
  by (induction items) (auto intro!: fee_rules split: sum.splits)

lemma book_rel: "always fee_rel (book_order items addrs res)"
  unfolding book_order_def Let_def
  by (auto intro!: fee_rules fee_simple(1) totals_rel add_signature_inv simp: fee_inv_def)

lemma order_rewards_rel: "k \<le> 100 \<Longrightarrow> always fee_rel (order_rewards deps k addrs res)"
  unfolding order_rewards_def Let_def
  by (auto intro!: fee_rules fee_simple(1) sign_rel book_rel simp: fee_inv_def split: sum.splits)

lemma reward_round_rel: "k \<le> 100 \<Longrightarrow> always fee_rel (reward_round deps k)"
  unfolding reward_round_def Let_def by (auto intro!: fee_rules order_rewards_rel split: sum.splits)

lemma reward_rounds_rel: "k + n \<le> 101 \<Longrightarrow> always fee_rel (reward_rounds deps k n)"
  by (induction n arbitrary: k) (auto intro!: fee_rules reward_round_rel)

lemma pages_rel: "always fee_rel (position_pages deps page n found)"
  by (induction n arbitrary: page found) (auto intro!: fee_rules simp: Let_def)

text \<open>Of the fee entries one transaction is handed over per position.\<close>

definition entry_position :: "json \<Rightarrow> json" where
  "entry_position entry = json_opt entry ''positionAddress''"

definition fees_ok :: "json list \<Rightarrow> 'w claim_net \<times> fee_job \<Rightarrow> 'w claim_net \<times> fee_job \<Rightarrow> bool" where
  "fees_ok sentPositions s s' \<longleftrightarrow> (fee_inv (snd s) \<longrightarrow> fee_inv (snd s')) \<and>
     (\<exists>fs. cn_fees (fst s') = cn_fees (fst s) @ fs \<and> unique (map entry_position fs) \<and>
        (\<forall>e \<in> set fs. json_truthy (entry_position e) \<and> \<not> json_has sentPositions (entry_position e)))"

lemma fees_ok_rel: "fee_rel s s' \<Longrightarrow> fees_ok sentPositions s s'"
  by (simp add: fee_rel_def fees_ok_def unique_def)

lemma fees_ok_then: "fees_ok sentPositions s t \<Longrightarrow> fee_rel t u \<Longrightarrow> fees_ok sentPositions s u"
  "fee_rel s t \<Longrightarrow> fees_ok sentPositions t u \<Longrightarrow> fees_ok sentPositions s u"
  by (auto simp: fee_rel_def fees_ok_def)

text \<open>One transaction, then those of the remaining entries.\<close>

lemma fees_ok_step:
  assumes "json_truthy p" and "\<not> json_has sentPositions p" and "entry_position entry = p"
    and "fee_inv (snd s) \<longrightarrow> fee_inv (snd t)" and "cn_fees (fst t) = cn_fees (fst s) @ [entry]"
    and "fees_ok (json_add p sentPositions) t u"
  shows "fees_ok sentPositions s u"
proof -
  from assms(6) obtain fs where fs: "cn_fees (fst u) = cn_fees (fst t) @ fs" "unique (map entry_position fs)"
    "\<forall>e \<in> set fs. json_truthy (entry_position e) \<and> \<not> json_has (json_add p sentPositions) (entry_position e)" by (auto simp: fees_ok_def)
  have "unique (map entry_position (entry # fs))"
    using fs(2,3) assms(3) by (auto simp: unique_def json_has_def json_add_def split: if_splits)
  moreover have "\<forall>e \<in> set (entry # fs). json_truthy (entry_position e) \<and> \<not> json_has sentPositions (entry_position e)"
    using fs(3) assms(1-3) by (auto simp: json_has_def json_add_def split: if_splits)
  ultimately show ?thesis using assms(4-6) fs(1) by (auto simp: fees_ok_def intro!: exI [of _ "entry # fs"])
qed

lemma send_fees_ok: "send_fees deps sentPositions entries s = (r, s') \<Longrightarrow> fees_ok sentPositions s s'"
proof (induction entries arbitrary: sentPositions s)
  case Nil
  then show ?case by (simp add: op_simps fees_ok_rel fee.refl)
next
  case (Cons entry entries)
  show ?case
  proof (cases "json_field entry ''positionAddress''")
    case (Inl e)
    then show ?thesis using Cons.prems by (auto simp: bind_now intro: fees_ok_rel fee.refl)
  next
    case (Inr p)
    show ?thesis
    proof (cases "\<not> json_truthy p \<or> json_has sentPositions p")
      case True
      then show ?thesis using Cons.prems Inr by (intro Cons.IH) (auto simp: bind_now)
    next
      case False
      have pos: "entry_position entry = p" using Inr by (simp add: entry_position_def json_opt_def)
      define m where "m = bind_op (send_fee deps entry) (\<lambda>sig. bind_op (jot_l (addUniqueSignature (JString sig))) (\<lambda>_.
          addTokenTotals (json_or (json_opt entry ''tokens'') (JArray []))))"
      define rest where "rest = (\<lambda>r :: unit result. bind_op (case r of Inl e \<Rightarrow> fail ''fee-send'' (js_String p) e | Inr _ \<Rightarrow> ret ()) (\<lambda>_.
          send_fees deps (json_add p sentPositions) entries))"
      obtain x t where x: "m s = (x, t)" by (rule prod.exhaust)
      have run: "rest x t = (r, s')"
        using Cons.prems Inr False x unfolding send_fees.simps m_def [symmetric] by (simp add: bind_now bind_op_def [of "try_op m"] try_op_def rest_def)
      obtain n j where s: "s = (n, j)" by (rule prod.exhaust)
      have sent: "cn_fees (fst t) = cn_fees n @ [entry] \<and> (fee_inv j \<longrightarrow> fee_inv (snd t))"
      proof -
        obtain y w where y: "sendFeePayload deps entry (cn_world n) = (y, w)" by (rule prod.exhaust)
        let ?s1 = "(n\<lparr>cn_world := w, cn_fees := cn_fees n @ [entry]\<rparr>, j)"
        have after: "always fee_rel (bind_op (jot_l (addUniqueSignature (JString sig))) (\<lambda>_.
            addTokenTotals (json_or (json_opt entry ''tokens'') (JArray []))))" for sig
          by (intro fee_rules fee_simple(1) totals_rel add_signature_inv)
        have "fee_rel ?s1 t"
        proof (cases y)
          case (Inl e)
          then show ?thesis using x y s by (auto simp: m_def bind_op_def send_fee_def fee.refl)
        next
          case (Inr sig)
          then have "bind_op (jot_l (addUniqueSignature (JString sig))) (\<lambda>_.
              addTokenTotals (json_or (json_opt entry ''tokens'') (JArray []))) ?s1 = (x, t)"
            using x y s by (auto simp: m_def bind_op_def [of "send_fee deps entry"]) (simp add: send_fee_def)
          then show ?thesis by (rule alwaysD [OF after])
        qed
        then show ?thesis by (simp add: fee_rel_def)
      qed
      define g where "g = (case x of Inl e \<Rightarrow> fail ''fee-send'' (js_String p) e | Inr _ \<Rightarrow> (ret () :: ('a, fee_job, unit) claim_op))"
      obtain z u where z: "g t = (z, u)" by (rule prod.exhaust)
      have "always fee_rel g" unfolding g_def by (auto intro: fee_rules split: sum.splits)
      then have u1: "fee_rel t u" using z by (rule alwaysD)
      have u2: "send_fees deps (json_add p sentPositions) entries u = (r, s') \<or> s' = u"
        using run z unfolding rest_def g_def by (simp add: bind_op_def split: sum.splits)
      have "fees_ok (json_add p sentPositions) u s'" using u2
        by (elim disjE) (erule Cons.IH, simp add: fees_ok_rel fee.refl)
      then have "fees_ok (json_add p sentPositions) t s'" by (rule fees_ok_then(2) [OF u1])
      then show ?thesis by (rule fees_ok_step [OF _ _ pos, rotated 4]) (use False sent s in simp_all)
    qed
  qed
qed

section \<open>Properties\<close>

lemma claim_all_ok: "claim_all deps s = (r, s') \<Longrightarrow> fees_ok [] s s'"
proof -
  assume run: "claim_all deps s = (r, s')"
  obtain x t where x: "reward_rounds deps 1 100 s = (x, t)" by (rule prod.exhaust)
  have t: "fee_rel s t" by (rule alwaysD [OF reward_rounds_rel x]) simp
  obtain y u where y: "try_op (listActivePositionAddresses deps) t = (y, u)" by (rule prod.exhaust)
  have u: "fee_rel t u"
    using fee.tried [OF pages_rel, of deps 1 100 "[]"] y unfolding listActivePositionAddresses_def by (rule alwaysD)
  have fees: "fees_ok [] v v'" if "claim_fees deps addrs v = (q, v')" for addrs q v v'
  proof -
    define entries where "entries = (\<lambda>r :: json result. case r of Inl e \<Rightarrow> JArray [] | Inr res \<Rightarrow> json_or (getResponseData res) (JArray []))"
    define first where "first = bind_op (try_op (post deps ''incentive/encode-fee''
         (JObject [(''walletAddress'', JString (getWalletAddress deps)), (''positionAddresses'', JArray addrs)]))) (\<lambda>r.
       bind_op (case r of Inl e \<Rightarrow> fail ''fee-encode'' (getWalletAddress deps) e | Inr _ \<Rightarrow> ret ()) (\<lambda>_.
       bind_op (if some_entries (entries r) then jot_l (\<lambda>j. j\<lparr>fj_result := (fj_result j)\<lparr>feeRounds := 1\<rparr>\<rparr>) else ret ()) (\<lambda>_.
         of_result (iterate (entries r)))))"
    have eq: "claim_fees deps addrs = bind_op first (\<lambda>es. send_fees deps [] es)"
      by (rule ext) (simp add: claim_fees_def first_def entries_def Let_def bind_op_def split: prod.splits sum.splits)
    have "always fee_rel first"
      unfolding first_def by (auto intro!: fee_rules fee_simple(1) simp: fee_inv_def split: sum.splits)
    moreover obtain z w where z: "first v = (z, w)" by (rule prod.exhaust)
    ultimately have "fee_rel v w" by (rule alwaysD)
    moreover have "send_fees deps [] es w = (q, v')" if "z = Inr es" for es using \<open>claim_fees deps addrs v = (q, v')\<close> z that by (simp add: eq bind_op_def)
    moreover have "v' = w" if "z = Inl e" for e using \<open>claim_fees deps addrs v = (q, v')\<close> z that by (simp add: eq bind_op_def)
    ultimately show ?thesis
      using fees_ok_then(2) [of v w "[]" v', OF _ send_fees_ok] fees_ok_rel [of v w "[]"] by (cases z) simp_all
  qed
  have failed: "fees_ok [] v v'" if "fail p w e v = (q, v')" for p w e q v v'
    by (rule fees_ok_rel [OF alwaysD [OF fail_rel that]])
  have "fees_ok [] u s' \<or> s' = u \<or> s' = t"
    using run x y fees failed [of _ _ _ u r s'] unfolding claim_all_def
    by (auto simp: bind_op_def op_simps split: sum.splits if_splits)
  then show ?thesis using t u fees_ok_then(2) fees_ok_rel fee.trans by metis
qed

text \<open>
  C38: A claim of liquidity fees always returns, and never claims the same thing twice. Whatever the service and the node
  answer, the result lists no signature twice and counts those it lists, at most 100 rounds of rewards were made, and
  the fee transactions handed over are for positions that are all different.
\<close>

theorem fees_claimed_once:
  assumes "claimLpFees deps n = (res, n')"
  shows "unique (lp_txSignatures res) \<and> totalItems res = length (lp_txSignatures res) \<and> rewardRounds res \<le> 100 \<and>
    (\<exists>fs. cn_fees n' = cn_fees n @ fs \<and> unique (map entry_position fs) \<and> list_all (\<lambda>e. json_truthy (entry_position e)) fs)"
proof -
  let ?j = "\<lparr>fj_result = createLpFeeClaimResult, tokenTotals = [], seenSignatures = [], processedRewardPositions = []\<rparr>"
  obtain x s where x: "claim_all deps (n, ?j) = (x, s)" by (rule prod.exhaust)
  have ok: "fees_ok [] (n, ?j) s" using x by (rule claim_all_ok)
  obtain r j where rj: "catch_op (claim_all deps) (\<lambda>e. fail ''fatal'' ''claimLpFees'' e) (n, ?j) = (r, (n', j))"
    "res = (fj_result j)\<lparr>claimedTokens := tokenTotals j, totalItems := length (lp_txSignatures (fj_result j))\<rparr>"
    using assms by (auto simp: claimLpFees_def split: prod.splits)
  have "fees_ok [] (n, ?j) (n', j)"
  proof (cases x)
    case (Inl e)
    then have "fail ''fatal'' ''claimLpFees'' e s = (r, (n', j))" using rj(1) x by (simp add: catch_op_def)
    from alwaysD [OF fail_rel this] show ?thesis by (rule fees_ok_then(1) [OF ok])
  next
    case (Inr u)
    then show ?thesis using rj(1) x ok by (simp add: catch_op_def)
  qed
  moreover have "fee_inv ?j" by (simp add: fee_inv_def createLpFeeClaimResult_def unique_def)
  ultimately show ?thesis using rj(2) by (auto simp: fees_ok_def fee_inv_def list_all_iff)
qed

text \<open>
  A fee transaction counts as sent only if the chain confirmed it without an error: the signature is returned exactly
  if signing, sending, reading the block height and confirming succeeded and the confirmation carries no error.
\<close>

lemma fee_payload_confirmed:
  "fst (sendSignedFeePayload stringify fs p w) = Inr sig \<longleftrightarrow>
   (\<exists>bytes hash w1 w2 height w3 err w4. fs_sign fs p w = (Inr (bytes, hash), w1) \<and> fs_sendRaw fs bytes w1 = (Inr sig, w2) \<and>
      fs_latestHeight fs w2 = (Inr height, w3) \<and> fs_confirm fs sig hash height w3 = (Inr err, w4) \<and> \<not> json_truthy err)"
  unfolding sendSignedFeePayload_def
  by (auto simp: bind_op_def op_simps split: prod.splits sum.splits if_splits)

section \<open>Witness\<close>

text \<open>A service without rewards and with one open position, for which it gives two fee entries.\<close>

definition fee_demo :: "nat claim_deps" where
  "fee_demo =
     \<lparr>apiGet = (\<lambda>p w. (Inr (JObject [(''data'', JObject [(''positions'', JArray [JObject [(''positionAddress'', JString ''A'')]]), (''total'', JNum (Num 1))])]), w)),
      apiPost = (\<lambda>p b w. (Inr (JObject [(''data'', JArray [JObject [(''positionAddress'', JString ''A'')], JObject [(''positionAddress'', JString ''A'')]])]), w)),
      getWalletAddress = ''US'', signRewardPayload = (\<lambda>_ w. (Inr ''signed'', w)), sendFeePayload = (\<lambda>_ w. (Inr ''s'', Suc w))\<rparr>"

lemma fee_demo_run:
  "case claimLpFees fee_demo bonus_net of (res, n) \<Rightarrow> lp_txSignatures res = [JString ''s''] \<and> lp_failures res = [] \<and> length (cn_fees n) = 1"
  by code_simp

theorem fees_claimed_once_witness:
  "\<exists>res n. claimLpFees fee_demo bonus_net = (res, n) \<and> lp_txSignatures res = [JString ''s''] \<and> totalItems res = 1 \<and> length (cn_fees n) = 1"
proof -
  obtain res n where r: "claimLpFees fee_demo bonus_net = (res, n)" by (rule prod.exhaust)
  then show ?thesis using fee_demo_run fees_claimed_once [OF r] by auto
qed

end
