(* ===== verification/Dashboard_Auth.thy ===== *)
theory Dashboard_Auth
  imports Histories
begin

text \<open>
  Who reaches the dashboard's routes, \<^verbatim>\<open>src/dashboard/server.ts\<close>: the HTTP listener of \<^verbatim>\<open>startDashboard\<close> up to the hand-over to
  \<^verbatim>\<open>handleAPI\<close>, the sign-in of the WebSocket feed (\<^verbatim>\<open>attachDashboardRealtime\<close>), the counting of failures per address, and
  the log of sign-ins with its table (\<^verbatim>\<open>src/state/repo/authLog.ts\<close>). The path of a request is the one \<^verbatim>\<open>URL\<close> gives. A
  request or a message is handled in one piece by the event loop; the clock readings it makes are arguments.
\<close>

section \<open>The log of sign-ins\<close>

record AuthLogEntry =
  al_ts :: millis
  al_ip :: string
  al_event :: string

definition MAX_AUTH_LOG :: nat where "MAX_AUTH_LOG = 200"

datatype auth_call = AC_push AuthLogEntry | AC_clear

definition authLog_push :: "AuthLogEntry \<Rightarrow> nat \<Rightarrow> AuthLogEntry ring \<Rightarrow> AuthLogEntry ring result" where
  "authLog_push e cap t = ring_push cap e t"

definition authLog_list :: "nat \<Rightarrow> AuthLogEntry ring \<Rightarrow> AuthLogEntry list" where
  "authLog_list limit t = ring_newest_first limit t"

definition authLog_clear :: "AuthLogEntry ring \<Rightarrow> AuthLogEntry ring" where
  "authLog_clear t = t\<lparr>ring_rows := []\<rparr>"

definition authLog_count :: "AuthLogEntry ring \<Rightarrow> nat" where
  "authLog_count t = ring_count t"

text \<open>The calls as the chain runs them.\<close>

fun auth_run :: "millis \<Rightarrow> auth_call \<Rightarrow> AuthLogEntry ring \<Rightarrow> AuthLogEntry ring" where
  "auth_run now (AC_push e) t = committed (authLog_push e MAX_AUTH_LOG t) t"
| "auth_run now AC_clear t = authLog_clear t"

definition initAuthLog :: "AuthLogEntry ring \<Rightarrow> AuthLogEntry list" where
  "initAuthLog t = rev (authLog_list MAX_AUTH_LOG t)"

text \<open>\<^verbatim>\<open>splice(0, length - MAX_AUTH_LOG)\<close>\<close>

definition pushAuthLog :: "AuthLogEntry \<Rightarrow> AuthLogEntry list \<Rightarrow> AuthLogEntry list \<times> auth_call list" where
  "pushAuthLog e l =
     (let l1 = l @ [e] in (if length l1 > MAX_AUTH_LOG then drop (length l1 - MAX_AUTH_LOG) l1 else l1, [AC_push e]))"

definition deleteAuthLog :: "AuthLogEntry list \<Rightarrow> AuthLogEntry list \<times> auth_call list" where
  "deleteAuthLog l = ([], [AC_clear])"

datatype auth_op = Push AuthLogEntry | Wipe

fun auth_apply :: "auth_op \<Rightarrow> AuthLogEntry list \<Rightarrow> AuthLogEntry list \<times> auth_call list" where
  "auth_apply (Push e) l = pushAuthLog e l"
| "auth_apply Wipe l = deleteAuthLog l"

section \<open>Failures\<close>

record failure =
  f_count :: nat
  blockedUntil :: millis

type_synonym failures = "(string, failure) jsmap"

definition MAX_FAILURES :: nat where "MAX_FAILURES = 5"
definition LOCK_DURATION_MS :: int where "LOCK_DURATION_MS = 60 * 60 * 1000"

definition isBlocked :: "millis \<Rightarrow> string \<Rightarrow> failures \<Rightarrow> bool \<times> failures" where
  "isBlocked now ip m =
     (case map_of m ip of
        None \<Rightarrow> (False, m)
      | Some entry \<Rightarrow> if blockedUntil entry > now then (True, m) else (False, AList.delete ip m))"

definition recordFailure :: "millis \<Rightarrow> string \<Rightarrow> failures \<Rightarrow> failures" where
  "recordFailure now ip m =
     (let entry = (case map_of m ip of Some e \<Rightarrow> e | None \<Rightarrow> \<lparr>f_count = 0, blockedUntil = 0\<rparr>);
          e1 = entry\<lparr>f_count := f_count entry + 1\<rparr>
      in AList.update ip (if f_count e1 \<ge> MAX_FAILURES then e1\<lparr>blockedUntil := now + LOCK_DURATION_MS\<rparr> else e1) m)"

definition clearFailure :: "string \<Rightarrow> failures \<Rightarrow> failures" where
  "clearFailure ip m = AList.delete ip m"

section \<open>Requests\<close>

record http_request =
  rq_method :: string
  rq_path :: string
  rq_cfConnectingIp :: "string option"
  rq_xForwardedFor :: "string option"
  rq_remoteAddress :: "string option"
  rq_authorization :: "string option"

definition getClientIP :: "http_request \<Rightarrow> string" where
  "getClientIP req =
     (case rq_cfConnectingIp req of
        Some ip \<Rightarrow> ip
      | None \<Rightarrow>
          (case rq_xForwardedFor req of
             Some xff \<Rightarrow> trim (takeWhile (\<lambda>c. c \<noteq> CHR '','') xff)
           | None \<Rightarrow> (case rq_remoteAddress req of Some a \<Rightarrow> if a = [] then ''unknown'' else a | None \<Rightarrow> ''unknown'')))"

definition checkAuth :: "string \<Rightarrow> http_request \<Rightarrow> bool" where
  "checkAuth password req =
     (let auth = (case rq_authorization req of Some a \<Rightarrow> a | None \<Rightarrow> [])
      in if starts_with auth ''Bearer '' then drop 7 auth = password else False)"

datatype http_answer =
    Observability string string \<comment> \<open>method and path, answered by \<^verbatim>\<open>handleObservability\<close>\<close>
  | Not_Found | Too_Many | No_Content | Robots | Html_Page | Health_Ok | Unauthorized
  | Api_Call \<comment> \<open>handed over to \<^verbatim>\<open>handleAPI\<close>\<close>

record dashboard =
  failureMap :: failures
  authLog :: "AuthLogEntry list"
  authLogCalls :: "auth_call list"
  wsOpen :: "(nat, string \<times> bool) jsmap" \<comment> \<open>connections with handlers: address, signed in\<close>
  authenticatedClients :: "nat jsset"

definition log_auth :: "millis \<Rightarrow> string \<Rightarrow> string \<Rightarrow> dashboard \<Rightarrow> dashboard" where
  "log_auth now ip event d =
     (case pushAuthLog \<lparr>al_ts = now, al_ip = ip, al_event = event\<rparr> (authLog d) of
        (l, calls) \<Rightarrow> d\<lparr>authLog := l, authLogCalls := authLogCalls d @ calls\<rparr>)"

definition handle_request :: "string \<Rightarrow> millis \<Rightarrow> http_request \<Rightarrow> dashboard \<Rightarrow> http_answer \<times> dashboard" where
  "handle_request password now req d =
     (let path = rq_path req; ip = getClientIP req
      in if path = ''/health'' \<or> path = ''/metrics'' then (Observability (rq_method req) path, d)
         else if password = [] then (Not_Found, d)
         else (case isBlocked now ip (failureMap d) of
             (True, m) \<Rightarrow> (Too_Many, d\<lparr>failureMap := m\<rparr>)
           | (False, m) \<Rightarrow>
               let d1 = d\<lparr>failureMap := m\<rparr>
               in if rq_method req = ''OPTIONS'' then (No_Content, d1)
                  else if path = ''/robots.txt'' then (Robots, d1)
                  else if path = ''/'' \<or> path = ''/index.html'' then (Html_Page, d1)
                  else if path = ''/api/health'' then (Health_Ok, d1)
                  else if starts_with path ''/api/'' then
                    (if \<not> checkAuth password req
                     then (Unauthorized, log_auth now ip (utf8 [65, 80, 73, 32, 232, 170, 141, 232, 173, 137, 229, 164, 177, 230, 149, 151, 32] @ path) (d1\<lparr>failureMap := recordFailure now ip m\<rparr>))
                     else (Api_Call, d1\<lparr>failureMap := clearFailure ip m\<rparr>))
                  else (Not_Found, d1)))"

section \<open>The feed\<close>

text \<open>A connection that is not refused gets its handlers; \<open>c\<close> names it.\<close>

definition ws_connect :: "millis \<Rightarrow> nat \<Rightarrow> string \<Rightarrow> dashboard \<Rightarrow> dashboard" where
  "ws_connect now c ip d =
     (case isBlocked now ip (failureMap d) of
        (True, m) \<Rightarrow> log_auth now ip (utf8 [233, 128, 163, 231, 183, 154, 232, 162, 171, 229, 176, 129, 233, 142, 150, 239, 188, 136, 233, 160, 187, 231, 142, 135, 233, 153, 144, 229, 136, 182, 239, 188, 137]) (d\<lparr>failureMap := m\<rparr>)
      | (False, m) \<Rightarrow> d\<lparr>failureMap := m, wsOpen := AList.update c (ip, False) (wsOpen d)\<rparr>)"

text \<open>A message, \<open>None\<close> being a text that is no JSON; what the handler throws is ignored.\<close>

definition ws_message :: "string \<Rightarrow> millis \<Rightarrow> nat \<Rightarrow> json option \<Rightarrow> dashboard \<Rightarrow> dashboard" where
  "ws_message password now c body d =
     (case (map_of (wsOpen d) c, body) of
        (Some (ip, authed), Some msg) \<Rightarrow>
          (case json_field msg ''type'' of
             Inr (JString t) \<Rightarrow>
               if t \<noteq> ''auth'' then d
               else if json_opt msg ''password'' = JString password
               then log_auth now ip (utf8 [231, 153, 187, 229, 133, 165, 230, 136, 144, 229, 138, 159])
                      (d\<lparr>failureMap := clearFailure ip (failureMap d), wsOpen := AList.update c (ip, True) (wsOpen d),
                         authenticatedClients := set_add c (authenticatedClients d)\<rparr>)
               else log_auth now ip (utf8 [229, 175, 134, 231, 162, 188, 233, 140, 175, 232, 170, 164]) (d\<lparr>failureMap := recordFailure now ip (failureMap d)\<rparr>)
           | _ \<Rightarrow> d)
      | _ \<Rightarrow> d)"

text \<open>The ten seconds without a sign-in are over; the connection is told to close.\<close>

definition ws_timeout :: "millis \<Rightarrow> nat \<Rightarrow> dashboard \<Rightarrow> dashboard" where
  "ws_timeout now c d =
     (case map_of (wsOpen d) c of Some (ip, False) \<Rightarrow> log_auth now ip (utf8 [232, 170, 141, 232, 173, 137, 233, 128, 190, 230, 153, 130]) d | _ \<Rightarrow> d)"

definition ws_closed :: "nat \<Rightarrow> dashboard \<Rightarrow> dashboard" where
  "ws_closed c d =
     (if map_of (wsOpen d) c = None then d
      else d\<lparr>wsOpen := AList.delete c (wsOpen d), authenticatedClients := filter (\<lambda>k. k \<noteq> c) (authenticatedClients d)\<rparr>)"

text \<open>Those a line of the log is sent to.\<close>

definition log_recipients :: "dashboard \<Rightarrow> nat list" where
  "log_recipients d = authenticatedClients d"

section \<open>Events\<close>

datatype dash_event =
    Http millis http_request
  | Ws_Connect millis nat string
  | Ws_Message millis nat "json option"
  | Ws_Timeout millis nat
  | Ws_Closed nat

fun dash_step :: "string \<Rightarrow> dash_event \<Rightarrow> dashboard \<Rightarrow> http_answer option \<times> dashboard" where
  "dash_step password (Http now req) d = (case handle_request password now req d of (a, d') \<Rightarrow> (Some a, d'))"
| "dash_step password (Ws_Connect now c ip) d = (None, if password = [] then d else ws_connect now c ip d)"
| "dash_step password (Ws_Message now c body) d = (None, ws_message password now c body d)"
| "dash_step password (Ws_Timeout now c) d = (None, ws_timeout now c d)"
| "dash_step password (Ws_Closed c) d = (None, ws_closed c d)"

fun dash_run :: "string \<Rightarrow> dash_event list \<Rightarrow> dashboard \<Rightarrow> http_answer option list \<times> dashboard" where
  "dash_run password [] d = ([], d)"
| "dash_run password (ev # evs) d =
     (case dash_step password ev d of (a, d1) \<Rightarrow> (case dash_run password evs d1 of (as, d2) \<Rightarrow> (a # as, d2)))"

definition start_dashboard :: "AuthLogEntry ring \<Rightarrow> dashboard" where
  "start_dashboard t = \<lparr>failureMap = [], authLog = initAuthLog t, authLogCalls = [], wsOpen = [], authenticatedClients = []\<rparr>"

section \<open>The log meets the write-through contract\<close>

definition auth_view :: "AuthLogEntry ring \<Rightarrow> AuthLogEntry list" where
  "auth_view t = keep_last MAX_AUTH_LOG (ring_entries t)"

fun auth_effect :: "auth_call \<Rightarrow> AuthLogEntry list \<Rightarrow> AuthLogEntry list" where
  "auth_effect (AC_push e) l = keep_last MAX_AUTH_LOG (l @ [e])"
| "auth_effect AC_clear l = []"

lemma auth_cap_positive [simp]: "0 < MAX_AUTH_LOG"
  by (simp add: MAX_AUTH_LOG_def)

lemma entries_clear [simp]: "ring_entries (authLog_clear t) = []"
  by (simp add: ring_entries_def authLog_clear_def)

lemma initAuthLog_ok: "ring_ok t \<Longrightarrow> initAuthLog t = auth_view t"
  by (simp add: initAuthLog_def authLog_list_def auth_view_def ring_newest_first_ok keep_last_def rev_take)

lemma push_keeps_last: "fst (pushAuthLog e l) = keep_last MAX_AUTH_LOG (l @ [e])"
  by (simp add: pushAuthLog_def keep_last_def Let_def)

interpretation auth_store: write_through
  "\<lambda>op l. fst (auth_apply op l)" "\<lambda>op l. snd (auth_apply op l)" auth_run initAuthLog "\<lambda>_. True" "\<lambda>_. True"
  "\<lambda>l. length l \<le> MAX_AUTH_LOG" ring_ok "\<lambda>l. l" auth_view auth_effect
proof
  fix w now and t :: "AuthLogEntry ring" assume t: "ring_ok t"
  show "auth_view (auth_run now w t) = auth_effect w (auth_view t)"
    by (cases w) (simp_all add: authLog_push_def auth_view_def ring_history_run t entries_clear)
  show "ring_ok (auth_run now w t)"
    by (cases w) (simp_all add: authLog_push_def ring_history_run t authLog_clear_def, simp add: ring_ok_def)
next
  fix op and l :: "AuthLogEntry list"
  show "fst (auth_apply op l) = fold auth_effect (snd (auth_apply op l)) l" "length (fst (auth_apply op l)) \<le> MAX_AUTH_LOG"
    by (cases op; simp add: push_keeps_last deleteAuthLog_def; simp add: pushAuthLog_def Let_def)+
qed (simp_all add: initAuthLog_ok auth_view_def)

section \<open>Properties\<close>

lemma log_auth_simps [simp]:
  "failureMap (log_auth now ip ev d) = failureMap d" "wsOpen (log_auth now ip ev d) = wsOpen d"
  "authenticatedClients (log_auth now ip ev d) = authenticatedClients d"
  by (simp_all add: log_auth_def split: prod.splits)

lemma handle_request_sockets:
  "handle_request password now req d = (a, d') \<Longrightarrow> wsOpen d' = wsOpen d \<and> authenticatedClients d' = authenticatedClients d"
  by (auto simp: handle_request_def Let_def split: if_splits prod.splits bool.splits)

lemma api_call_authorized:
  assumes "handle_request password now req d = (Api_Call, d')"
  shows "password \<noteq> [] \<and> rq_authorization req = Some (''Bearer '' @ password)"
proof -
  have c: "checkAuth password req" "password \<noteq> []"
    using assms by (auto simp: handle_request_def Let_def split: if_splits prod.splits bool.splits)
  then have "starts_with (case rq_authorization req of Some a \<Rightarrow> a | None \<Rightarrow> []) ''Bearer ''"
    "drop 7 (case rq_authorization req of Some a \<Rightarrow> a | None \<Rightarrow> []) = password"
    by (auto simp: checkAuth_def Let_def split: if_splits)
  moreover have "length ''Bearer '' = 7" by simp
  ultimately have "(case rq_authorization req of Some a \<Rightarrow> a | None \<Rightarrow> []) = ''Bearer '' @ password"
    unfolding starts_with_def by (metis append_take_drop_id)
  then show ?thesis using c(2) by (auto split: option.splits)
qed

text \<open>The connections that have shown the password.\<close>

definition showed :: "string \<Rightarrow> dash_event list \<Rightarrow> nat \<Rightarrow> bool" where
  "showed password evs c \<longleftrightarrow>
     password \<noteq> [] \<and> (\<exists>now msg. Ws_Message now c (Some msg) \<in> set evs \<and> json_opt msg ''password'' = JString password)"

lemma dash_step_sockets:
  assumes "dash_step password ev d = (a, d')" and "password = [] \<longrightarrow> wsOpen d = []"
  shows "(password = [] \<longrightarrow> wsOpen d' = []) \<and> (\<forall>c \<in> set (authenticatedClients d'). c \<in> set (authenticatedClients d) \<or> showed password [ev] c)"
proof (cases ev)
  case (Http now req)
  then show ?thesis using assms by (auto split: prod.splits dest: handle_request_sockets)
next
  case (Ws_Connect now c ip)
  then show ?thesis using assms by (auto simp: ws_connect_def split: if_splits prod.splits bool.splits)
next
  case (Ws_Message now c body)
  then have d': "d' = ws_message password now c body d" using assms(1) by simp
  show ?thesis
  proof (cases "\<exists>ip authed msg. map_of (wsOpen d) c = Some (ip, authed) \<and> body = Some msg \<and> json_field msg ''type'' = Inr (JString ''auth'') \<and>
      json_opt msg ''password'' = JString password")
    case True
    then show ?thesis using assms(2) Ws_Message by (auto simp: d' ws_message_def showed_def)
  next
    case False
    then show ?thesis using assms(2) Ws_Message
      by (auto simp: d' ws_message_def split: option.splits sum.splits json.splits if_splits)
  qed
next
  case (Ws_Timeout now c)
  then show ?thesis using assms by (auto simp: ws_timeout_def split: option.splits bool.splits prod.splits)
next
  case (Ws_Closed c)
  then show ?thesis using assms by (auto simp: ws_closed_def split: if_splits)
qed

lemma dash_run_sockets:
  "dash_run password evs d = (as, d') \<Longrightarrow> password = [] \<longrightarrow> wsOpen d = [] \<Longrightarrow>
   \<forall>c \<in> set (authenticatedClients d'). c \<in> set (authenticatedClients d) \<or> showed password evs c"
proof (induction evs arbitrary: d as)
  case (Cons ev evs)
  obtain a d1 where 1: "dash_step password ev d = (a, d1)" by (rule prod.exhaust)
  obtain bs where 2: "dash_run password evs d1 = (bs, d')" using Cons.prems(1) 1 by (auto split: prod.splits)
  show ?case using Cons.IH [OF 2] dash_step_sockets [OF 1 Cons.prems(2)] unfolding showed_def by fastforce
qed simp

lemma dash_run_answers:
  "dash_run password evs d = (as, d') \<Longrightarrow> length as = length evs \<and> (\<forall>i < length evs. \<exists>e. as ! i = fst (dash_step password (evs ! i) e))"
proof (induction evs arbitrary: d as)
  case (Cons ev evs)
  obtain a d1 where 1: "dash_step password ev d = (a, d1)" by (rule prod.exhaust)
  obtain bs where 2: "dash_run password evs d1 = (bs, d')" and as: "as = a # bs" using Cons.prems(1) 1 by (auto split: prod.splits)
  show ?case using Cons.IH [OF 2] 1 by (auto simp: as nth_Cons split: nat.splits) (metis fst_conv)
qed simp

text \<open>
  C31: Nobody gets past the dashboard's door without its password. In every run of HTTP requests and WebSocket events, a
  request reaches the routes only if a password is configured and the request's header is exactly that password as a
  bearer token, and the bot's log is sent only to connections that sent the password in a message.
\<close>

theorem dashboard_needs_password:
  assumes "dash_run password evs (start_dashboard t) = (as, d)"
  shows "(\<forall>i < length evs. as ! i = Some Api_Call \<longrightarrow> (\<exists>now req. evs ! i = Http now req \<and> password \<noteq> [] \<and>
      rq_authorization req = Some (''Bearer '' @ password))) \<and>
    (\<forall>c \<in> set (log_recipients d). password \<noteq> [] \<and>
      (\<exists>now msg. Ws_Message now c (Some msg) \<in> set evs \<and> json_opt msg ''password'' = JString password))"
proof
  show "\<forall>c \<in> set (log_recipients d). password \<noteq> [] \<and>
      (\<exists>now msg. Ws_Message now c (Some msg) \<in> set evs \<and> json_opt msg ''password'' = JString password)"
    using dash_run_sockets [OF assms] by (simp add: start_dashboard_def log_recipients_def showed_def)
  show "\<forall>i < length evs. as ! i = Some Api_Call \<longrightarrow> (\<exists>now req. evs ! i = Http now req \<and> password \<noteq> [] \<and>
      rq_authorization req = Some (''Bearer '' @ password))"
  proof (intro allI impI)
    fix i assume i: "i < length evs" "as ! i = Some Api_Call"
    then obtain e where e: "fst (dash_step password (evs ! i) e) = Some Api_Call" using dash_run_answers [OF assms] by metis
    then obtain now req where ev: "evs ! i = Http now req" by (cases "evs ! i") auto
    with e obtain e' where "handle_request password now req e = (Api_Call, e')" by (auto split: prod.splits)
    with ev api_call_authorized show "\<exists>now req. evs ! i = Http now req \<and> password \<noteq> [] \<and> rq_authorization req = Some (''Bearer '' @ password)"
      by blast
  qed
qed

text \<open>One failure of an address at most is ever counted.\<close>

definition barely_counted :: "failures \<Rightarrow> bool" where
  "barely_counted m \<longleftrightarrow> js_keys_ok m \<and> (\<forall>ip e. map_of m ip = Some e \<longrightarrow> f_count e \<le> 1 \<and> blockedUntil e = 0)"

lemma handle_request_counts:
  assumes "barely_counted (failureMap d)" and "0 \<le> now" and "handle_request password now req d = (a, d')"
  shows "barely_counted (failureMap d') \<and> a \<noteq> Too_Many"
proof -
  have del: "barely_counted (AList.delete ip m)" if "barely_counted m" for ip m
    using that by (auto simp: barely_counted_def map_of_delete)
  have rec: "barely_counted (recordFailure now ip (AList.delete ip m))" if "barely_counted m" for ip m
    using that by (auto simp: barely_counted_def recordFailure_def Let_def MAX_FAILURES_def map_of_delete map_of_update)
  have fresh: "barely_counted (recordFailure now ip m)" if "barely_counted m" "map_of m ip = None" for ip m
    using that by (auto simp: barely_counted_def recordFailure_def Let_def MAX_FAILURES_def map_of_update)
  show ?thesis
  proof (cases "map_of (failureMap d) (getClientIP req)")
    case None
    then show ?thesis using assms del fresh
      by (auto simp: handle_request_def Let_def isBlocked_def clearFailure_def split: if_splits)
  next
    case (Some e)
    then have "\<not> blockedUntil e > now" using assms(1,2) by (auto simp: barely_counted_def)
    then show ?thesis using assms Some del rec
      by (auto simp: handle_request_def Let_def isBlocked_def clearFailure_def split: if_splits)
  qed
qed

text \<open>
  C36: The lock against guessing passwords never closes on HTTP requests. Five failures are meant to block an address for an
  hour, but the test at the start of each request forgets the failures of an address that is not yet blocked: in no
  sequence of requests, however many wrong passwords they carry, is one refused as too many.
\<close>

theorem http_guesses_never_blocked:
  assumes "dash_run password evs (start_dashboard t) = (as, d)"
    and "list_all (\<lambda>ev. case ev of Http now req \<Rightarrow> 0 \<le> now | _ \<Rightarrow> False) evs"
  shows "Some Too_Many \<notin> set as"
proof -
  have "Some Too_Many \<notin> set as \<and> barely_counted (failureMap d')"
    if "dash_run password evs d0 = (as, d')" "barely_counted (failureMap d0)"
      "list_all (\<lambda>ev. case ev of Http now req \<Rightarrow> 0 \<le> now | _ \<Rightarrow> False) evs" for d0 d' evs as
    using that
  proof (induction evs arbitrary: d0 as)
    case (Cons ev evs)
    then obtain now req where ev: "ev = Http now req" "0 \<le> now" by (cases ev) auto
    obtain a d1 where 1: "handle_request password now req d0 = (a, d1)" by (rule prod.exhaust)
    obtain bs where 2: "dash_run password evs d1 = (bs, d')" and as: "as = Some a # bs"
      using Cons.prems(1) 1 ev by (auto split: prod.splits)
    have "barely_counted (failureMap d1) \<and> a \<noteq> Too_Many" by (rule handle_request_counts [OF Cons.prems(2) ev(2) 1])
    then show ?case using Cons.IH [OF 2] Cons.prems(3) as by auto
  qed simp
  from this [OF assms(1) _ assms(2)] show ?thesis by (simp add: barely_counted_def start_dashboard_def)
qed

section \<open>Witnesses\<close>

definition guess :: "string \<Rightarrow> http_request" where
  "guess p = \<lparr>rq_method = ''GET'', rq_path = ''/api/status'', rq_cfConnectingIp = None, rq_xForwardedFor = None,
     rq_remoteAddress = Some ''9.9.9.9'', rq_authorization = Some (''Bearer '' @ p)\<rparr>"

theorem dashboard_needs_password_witness:
  "let (as, d) = dash_run ''pw'' [Http 1 (guess ''x''), Http 2 (guess ''pw''), Ws_Connect 3 7 ''1'', Ws_Message 4 7 (Some (JObject
       [(''type'', JString ''auth''), (''password'', JString ''pw'')]))] (start_dashboard ring_empty)
   in as ! 0 = Some Unauthorized \<and> as ! 1 = Some Api_Call \<and> log_recipients d = [7] \<and> rq_authorization (guess ''pw'') = Some (''Bearer '' @ ''pw'')"
proof -
  let ?evs = "[Http 1 (guess ''x''), Http 2 (guess ''pw''), Ws_Connect 3 7 ''1'', Ws_Message 4 7 (Some (JObject
       [(''type'', JString ''auth''), (''password'', JString ''pw'')]))]"
  have e: "let (as, d) = dash_run ''pw'' ?evs (start_dashboard ring_empty)
    in as ! 0 = Some Unauthorized \<and> as ! 1 = Some Api_Call \<and> log_recipients d = [7]" by code_simp
  obtain as d where r: "dash_run ''pw'' ?evs (start_dashboard ring_empty) = (as, d)" by (rule prod.exhaust)
  have "as ! 1 = Some Api_Call" using e r by simp
  then have "rq_authorization (guess ''pw'') = Some (''Bearer '' @ ''pw'')"
    using conjunct1 [OF dashboard_needs_password [OF r], rule_format, of 1] by auto
  with e show ?thesis by (simp add: r)
qed

theorem http_guesses_never_blocked_witness:
  "Some Too_Many \<notin> set (fst (dash_run ''pw'' (map (\<lambda>k. Http (int k) (guess ''x'')) [0..<1000]) (start_dashboard ring_empty)))"
proof -
  let ?evs = "map (\<lambda>k. Http (int k) (guess ''x'')) [0..<1000]"
  obtain as d where r: "dash_run ''pw'' ?evs (start_dashboard ring_empty) = (as, d)" by (rule prod.exhaust)
  have "list_all (\<lambda>ev. case ev of Http now req \<Rightarrow> 0 \<le> now | _ \<Rightarrow> False) ?evs" by (simp add: list_all_iff)
  from http_guesses_never_blocked [OF r this] show ?thesis by (simp add: r)
qed

end
