(* ===== verification/Pump_Pending.thy ===== *)
theory Pump_Pending
  imports Write_Chain
begin

text \<open>
  Tokens waiting for an approval before they are copied, \<^verbatim>\<open>src/state/pump-pending.ts\<close> and
  \<^verbatim>\<open>src/state/repo/pumpPending.ts\<close>. A token is pending, approved or rejected; a pending one lapses after
  an hour. A rejection also moves the token between the configured lists, which are part of the
  state here together with the updates sent to the \<^verbatim>\<open>.env\<close> file; the cache of token names is not.

  Every operation is atomic. \<^verbatim>\<open>pollApprovals\<close> consists of two loops whose bodies are atomic up to their
  last statement: \<open>expire_one\<close> and \<open>apply_result\<close>. \<open>pollApprovals\<close> composes them when nothing else runs in
  between; the store's step relation has them as steps of their own.
\<close>

section \<open>Data\<close>

definition EXPIRY_MS :: int where
  "EXPIRY_MS = 60 * 60 * 1000"

datatype PumpStatus = pump_pending | pump_approved | pump_rejected

record PumpPendingEntry =
  pp_mint :: string
  pp_symbol :: string
  pp_pool :: string
  pp_targetWallet :: string
  pp_detectedAt :: millis
  pp_status :: PumpStatus
  pp_notifiedAt :: "millis option"
  pp_resolvedAt :: "millis option"

record PumpRow =
  pr_mint :: string
  pr_symbol :: string
  pr_pool :: string
  pr_target_wallet :: string
  pr_detected_at :: millis
  pr_status :: PumpStatus
  pr_notified_at :: "millis option"
  pr_resolved_at :: "millis option"

type_synonym pump_table = "(string, PumpRow) jsmap"
type_synonym pump_map = "(string, PumpPendingEntry) jsmap"

section \<open>The repository\<close>

definition pump_toEntry :: "PumpRow \<Rightarrow> PumpPendingEntry" where
  "pump_toEntry row =
     \<lparr>pp_mint = pr_mint row, pp_symbol = pr_symbol row, pp_pool = pr_pool row,
      pp_targetWallet = pr_target_wallet row, pp_detectedAt = pr_detected_at row, pp_status = pr_status row,
      pp_notifiedAt = pr_notified_at row, pp_resolvedAt = pr_resolved_at row\<rparr>"

definition pumpPending_importEntry :: "PumpPendingEntry \<Rightarrow> pump_table \<Rightarrow> pump_table" where
  "pumpPending_importEntry e t =
     AList.update (pp_mint e)
       \<lparr>pr_mint = pp_mint e, pr_symbol = pp_symbol e, pr_pool = pp_pool e, pr_target_wallet = pp_targetWallet e,
        pr_detected_at = pp_detectedAt e, pr_status = pp_status e, pr_notified_at = pp_notifiedAt e,
        pr_resolved_at = pp_resolvedAt e\<rparr> t"

definition pumpPending_add :: "PumpPendingEntry \<Rightarrow> pump_table \<Rightarrow> pump_table" where
  "pumpPending_add e t =
     AList.update (pp_mint e)
       \<lparr>pr_mint = pp_mint e, pr_symbol = pp_symbol e, pr_pool = pp_pool e, pr_target_wallet = pp_targetWallet e,
        pr_detected_at = pp_detectedAt e, pr_status = pump_pending, pr_notified_at = pp_notifiedAt e,
        pr_resolved_at = None\<rparr> t"

definition pumpPending_resolve ::
  "string \<Rightarrow> PumpStatus \<Rightarrow> millis \<Rightarrow> pump_table \<Rightarrow> PumpPendingEntry option \<times> pump_table" where
  "pumpPending_resolve mint status resolvedAt t =
     (case map_of t mint of
        Some row \<Rightarrow>
          if pr_status row = pump_pending
          then (let row' = row\<lparr>pr_status := status, pr_resolved_at := Some resolvedAt\<rparr>
                in (Some (pump_toEntry row'), js_modify mint (\<lambda>_. row') t))
          else (None, t)
      | None \<Rightarrow> (None, t))"

definition pumpPending_approve :: "string \<Rightarrow> millis \<Rightarrow> pump_table \<Rightarrow> PumpPendingEntry option \<times> pump_table" where
  "pumpPending_approve mint resolvedAt t = pumpPending_resolve mint pump_approved resolvedAt t"

definition pumpPending_reject :: "string \<Rightarrow> millis \<Rightarrow> pump_table \<Rightarrow> PumpPendingEntry option \<times> pump_table" where
  "pumpPending_reject mint resolvedAt t = pumpPending_resolve mint pump_rejected resolvedAt t"

definition pumpPending_setStatus :: "string \<Rightarrow> PumpStatus \<Rightarrow> millis \<Rightarrow> pump_table \<Rightarrow> pump_table" where
  "pumpPending_setStatus mint status resolvedAt t =
     js_modify mint (\<lambda>r. r\<lparr>pr_status := status, pr_resolved_at := Some resolvedAt\<rparr>) t"

definition lapsed_row :: "millis \<Rightarrow> int \<Rightarrow> PumpRow \<Rightarrow> bool" where
  "lapsed_row now expiryMs r \<longleftrightarrow> pr_status r = pump_pending \<and> pr_detected_at r < now - expiryMs"

definition pumpPending_expire :: "millis \<Rightarrow> int \<Rightarrow> pump_table \<Rightarrow> PumpPendingEntry list \<times> pump_table" where
  "pumpPending_expire now expiryMs t =
     (let t' = map (\<lambda>(k, r). (k, if lapsed_row now expiryMs r
                                 then r\<lparr>pr_status := pump_rejected, pr_resolved_at := Some now\<rparr> else r)) t
      in (map (\<lambda>(k, r). pump_toEntry (r\<lparr>pr_status := pump_rejected, pr_resolved_at := Some now\<rparr>))
            (filter (\<lambda>(k, r). lapsed_row now expiryMs r) t), t'))"

definition pumpPending_get :: "string \<Rightarrow> pump_table \<Rightarrow> PumpPendingEntry option" where
  "pumpPending_get mint t = map_option pump_toEntry (map_of t mint)"

definition pumpPending_isPending :: "string \<Rightarrow> millis \<Rightarrow> int \<Rightarrow> pump_table \<Rightarrow> bool" where
  "pumpPending_isPending mint now expiryMs t \<longleftrightarrow>
     (case map_of t mint of
        Some r \<Rightarrow> pr_status r = pump_pending \<and> pr_detected_at r \<ge> now - expiryMs
      | None \<Rightarrow> False)"

definition pumpPending_hasStatus :: "string \<Rightarrow> PumpStatus \<Rightarrow> pump_table \<Rightarrow> bool" where
  "pumpPending_hasStatus mint status t \<longleftrightarrow> (case map_of t mint of Some r \<Rightarrow> pr_status r = status | None \<Rightarrow> False)"

definition pumpPending_isApproved :: "string \<Rightarrow> pump_table \<Rightarrow> bool" where
  "pumpPending_isApproved mint t = pumpPending_hasStatus mint pump_approved t"

definition pumpPending_isRejected :: "string \<Rightarrow> pump_table \<Rightarrow> bool" where
  "pumpPending_isRejected mint t = pumpPending_hasStatus mint pump_rejected t"

definition pumpPending_hasPending :: "millis \<Rightarrow> int \<Rightarrow> pump_table \<Rightarrow> bool" where
  "pumpPending_hasPending now expiryMs t \<longleftrightarrow>
     list_ex (\<lambda>(k, r). pr_status r = pump_pending \<and> pr_detected_at r \<ge> now - expiryMs) t"

definition pumpPending_list :: "pump_table \<Rightarrow> PumpPendingEntry list" where
  "pumpPending_list t = map (\<lambda>(k, r). pump_toEntry r) (sort_key (\<lambda>(k, r). - pr_detected_at r) t)"

definition pumpPending_del :: "string \<Rightarrow> pump_table \<Rightarrow> pump_table" where
  "pumpPending_del mint t = AList.delete mint t"

section \<open>The store\<close>

record pump_state =
  pendingMap :: pump_map
  blacklist :: "string jsset"
  whitelist :: "string jsset"
  env_updates :: "(string \<times> string) list list"

datatype pump_call =
    PP_add PumpPendingEntry
  | PP_setStatus string PumpStatus millis
  | PP_delete string

definition initPumpPending :: "string jsset \<Rightarrow> string jsset \<Rightarrow> pump_table \<Rightarrow> pump_state" where
  "initPumpPending bl wl t =
     \<lparr>pendingMap = fold (\<lambda>entry m. AList.update (pp_mint entry) entry m) (pumpPending_list t) [],
      blacklist = bl, whitelist = wl, env_updates = []\<rparr>"

definition isPumpPending :: "millis \<Rightarrow> string \<Rightarrow> pump_state \<Rightarrow> bool" where
  "isPumpPending now mint s =
     (case map_of (pendingMap s) mint of
        None \<Rightarrow> False
      | Some entry \<Rightarrow>
          if pp_status entry \<noteq> pump_pending then False
          else if now - pp_detectedAt entry > EXPIRY_MS then False
          else True)"

definition isPumpApproved :: "string \<Rightarrow> pump_state \<Rightarrow> bool" where
  "isPumpApproved mint s \<longleftrightarrow> (case map_of (pendingMap s) mint of Some e \<Rightarrow> pp_status e = pump_approved | None \<Rightarrow> False)"

definition isPumpRejected :: "string \<Rightarrow> pump_state \<Rightarrow> bool" where
  "isPumpRejected mint s \<longleftrightarrow> (case map_of (pendingMap s) mint of Some e \<Rightarrow> pp_status e = pump_rejected | None \<Rightarrow> False)"

definition addPumpPending :: "PumpPendingEntry \<Rightarrow> pump_state \<Rightarrow> pump_state \<times> pump_call list" where
  "addPumpPending entry s =
     (s\<lparr>pendingMap := AList.update (pp_mint entry) (entry\<lparr>pp_status := pump_pending\<rparr>) (pendingMap s)\<rparr>,
      [PP_add entry])"

fun join_comma :: "string list \<Rightarrow> string" where
  "join_comma [] = []"
| "join_comma [x] = x"
| "join_comma (x # y # xs) = x @ '','' @ join_comma (y # xs)"

definition resolvePump :: "millis \<Rightarrow> string \<Rightarrow> PumpStatus \<Rightarrow> pump_state \<Rightarrow> pump_state \<times> pump_call list" where
  "resolvePump now mint status s =
     (case map_of (pendingMap s) mint of
        None \<Rightarrow> (s, [])
      | Some _ \<Rightarrow>
          let s1 = s\<lparr>pendingMap := js_modify mint (\<lambda>e. e\<lparr>pp_status := status, pp_resolvedAt := Some now\<rparr>) (pendingMap s)\<rparr>;
              bl = set_add mint (blacklist s1);
              wl = filter (\<lambda>m. m \<noteq> mint) (whitelist s1)
          in (if status = pump_rejected
              then s1\<lparr>blacklist := bl, whitelist := wl,
                      env_updates := env_updates s1 @
                        [[(''TOKEN_WHITELIST'', join_comma wl), (''TOKEN_BLACKLIST'', join_comma bl)]]\<rparr>
              else s1,
              [PP_setStatus mint status now]))"

definition deletePumpEntry :: "string \<Rightarrow> pump_state \<Rightarrow> pump_state \<times> pump_call list" where
  "deletePumpEntry mint s = (s\<lparr>pendingMap := AList.delete mint (pendingMap s)\<rparr>, [PP_delete mint])"

definition getPumpPendingList :: "pump_state \<Rightarrow> PumpPendingEntry list" where
  "getPumpPendingList s = map snd (pendingMap s)"

section \<open>Polling for decisions\<close>

text \<open>The body of the expiry loop for one entry; \<open>now\<close> is the time the poll began, \<open>clock\<close> the time of the resolution.\<close>

definition lapsed :: "millis \<Rightarrow> PumpPendingEntry \<Rightarrow> bool" where
  "lapsed now entry \<longleftrightarrow> pp_status entry = pump_pending \<and> now - pp_detectedAt entry > EXPIRY_MS"

definition expire_one ::
  "millis \<Rightarrow> millis \<Rightarrow> string \<Rightarrow> PumpPendingEntry \<Rightarrow> pump_state \<Rightarrow> pump_state \<times> pump_call list" where
  "expire_one now clock mint entry s = (if lapsed now entry then resolvePump clock mint pump_rejected s else (s, []))"

text \<open>A decision of the approval service: the status as text and a time, zero when absent.\<close>

record kv_result =
  kv_status :: string
  kv_timestamp :: int

definition decided :: "kv_result \<Rightarrow> PumpStatus option" where
  "decided r =
     (if kv_status r = ''approved'' then Some pump_approved
      else if kv_status r = ''rejected'' then Some pump_rejected else None)"

definition apply_result ::
  "millis \<Rightarrow> string \<Rightarrow> kv_result \<Rightarrow> pump_state \<Rightarrow> pump_state \<times> pump_call list" where
  "apply_result clock mint r s =
     (case map_of (pendingMap s) mint of
        None \<Rightarrow> (s, [])
      | Some entry \<Rightarrow>
          if pp_status entry \<noteq> pump_pending then (s, [])
          else (case decided r of
                  None \<Rightarrow> (s, [])
                | Some status \<Rightarrow>
                    if kv_timestamp r \<noteq> 0 \<and> kv_timestamp r < pp_detectedAt entry then (s, [])
                    else resolvePump clock mint status s))"

definition seq_ops ::
  "('a \<Rightarrow> pump_state \<Rightarrow> pump_state \<times> pump_call list) \<Rightarrow> 'a list \<Rightarrow> pump_state \<Rightarrow> pump_state \<times> pump_call list" where
  "seq_ops f xs s =
     fold (\<lambda>x (s, ws). case f x s of (s', ws') \<Rightarrow> (s', ws @ ws')) xs (s, [])"

text \<open>
  The whole poll: \<open>answer\<close> is what the service returned, none without a service or on an error.
\<close>

definition pollApprovals ::
  "millis \<Rightarrow> (string \<Rightarrow> millis) \<Rightarrow> (string, kv_result) jsmap option \<Rightarrow> pump_state \<Rightarrow> pump_state \<times> pump_call list" where
  "pollApprovals now clock answer s =
     (let (s1, ws1) = seq_ops (\<lambda>(mint, entry). expire_one now (clock mint) mint entry) (pendingMap s) s
      in if \<not> list_ex (\<lambda>(k, e). pp_status e = pump_pending) (pendingMap s1) then (s1, ws1)
         else (case answer of
                 None \<Rightarrow> (s1, ws1)
               | Some data \<Rightarrow>
                   (case seq_ops (\<lambda>(mint, r). apply_result (clock mint) mint r) data s1 of
                      (s2, ws2) \<Rightarrow> (s2, ws1 @ ws2))))"

section \<open>The store as a system\<close>

datatype pump_op =
    PPOadd PumpPendingEntry
  | PPOresolve millis string PumpStatus
  | PPOdelete string
  | PPOexpire millis millis string PumpPendingEntry
  | PPOresult millis string kv_result

fun pump_step :: "pump_op \<Rightarrow> pump_state \<Rightarrow> pump_state \<times> pump_call list" where
  "pump_step (PPOadd e) s = addPumpPending e s"
| "pump_step (PPOresolve now mint status) s = resolvePump now mint status s"
| "pump_step (PPOdelete mint) s = deletePumpEntry mint s"
| "pump_step (PPOexpire now clock mint e) s = expire_one now clock mint e s"
| "pump_step (PPOresult clock mint r) s = apply_result clock mint r s"

text \<open>A newly detected token has no time of resolution: no executor passes one.\<close>

fun pump_op_ok :: "pump_op \<Rightarrow> bool" where
  "pump_op_ok (PPOadd e) = (pp_resolvedAt e = None)"
| "pump_op_ok _ = True"

fun pump_call_ok :: "pump_call \<Rightarrow> bool" where
  "pump_call_ok (PP_add e) = (pp_resolvedAt e = None)"
| "pump_call_ok _ = True"

fun pump_run :: "millis \<Rightarrow> pump_call \<Rightarrow> pump_table \<Rightarrow> pump_table" where
  "pump_run now (PP_add e) t = pumpPending_add e t"
| "pump_run now (PP_setStatus mint status at) t = pumpPending_setStatus mint status at t"
| "pump_run now (PP_delete mint) t = pumpPending_del mint t"

fun pump_effect :: "pump_call \<Rightarrow> (string \<rightharpoonup> PumpPendingEntry) \<Rightarrow> string \<rightharpoonup> PumpPendingEntry" where
  "pump_effect (PP_add e) v = v(pp_mint e \<mapsto> e\<lparr>pp_status := pump_pending\<rparr>)"
| "pump_effect (PP_setStatus mint status at) v =
     v(mint := map_option (\<lambda>e. e\<lparr>pp_status := status, pp_resolvedAt := Some at\<rparr>) (v mint))"
| "pump_effect (PP_delete mint) v = v(mint := None)"

definition pump_rows_ok :: "pump_table \<Rightarrow> bool" where
  "pump_rows_ok t \<longleftrightarrow> js_keys_ok t \<and> list_all (\<lambda>(k, r). pr_mint r = k) t"

definition pump_view :: "pump_table \<Rightarrow> string \<rightharpoonup> PumpPendingEntry" where
  "pump_view t = map_option pump_toEntry \<circ> map_of t"

lemmas pump_op_defs = addPumpPending_def resolvePump_def deletePumpEntry_def expire_one_def apply_result_def

lemma resolvePump_view:
  "map_of (pendingMap (fst (resolvePump now mint status s))) =
     fold pump_effect (snd (resolvePump now mint status s)) (map_of (pendingMap s))"
  "js_keys_ok (pendingMap s) \<Longrightarrow> js_keys_ok (pendingMap (fst (resolvePump now mint status s)))"
  by (auto simp: resolvePump_def Let_def split: option.splits)

lemma pump_step_view:
  "map_of (pendingMap (fst (pump_step op s))) = fold pump_effect (snd (pump_step op s)) (map_of (pendingMap s))"
  "js_keys_ok (pendingMap s) \<Longrightarrow> js_keys_ok (pendingMap (fst (pump_step op s)))"
  by (cases op; auto simp: addPumpPending_def deletePumpEntry_def expire_one_def apply_result_def resolvePump_view
      split: option.splits)+

lemma pump_step_calls_ok: "pump_op_ok op \<Longrightarrow> w \<in> set (snd (pump_step op s)) \<Longrightarrow> pump_call_ok w"
  by (cases op) (auto simp: pump_op_defs Let_def split: option.splits if_splits)

lemma pump_run_view: "pump_call_ok w \<Longrightarrow> pump_view (pump_run now w t) = pump_effect w (pump_view t)"
  by (cases w)
    (auto simp: pump_view_def pumpPending_add_def pumpPending_setStatus_def pumpPending_del_def pump_toEntry_def
      fun_eq_iff option.map_comp comp_def)

lemma rows_update: "list_all (\<lambda>(k, r). P k r) t \<Longrightarrow> P k r \<Longrightarrow> list_all (\<lambda>(k, r). P k r) (AList.update k r t)"
  and rows_delete: "list_all (\<lambda>(k, r). P k r) t \<Longrightarrow> list_all (\<lambda>(k, r). P k r) (AList.delete k t)"
  and rows_modify: "list_all (\<lambda>(k, r). P k r) t \<Longrightarrow> (\<And>r. P k r \<Longrightarrow> P k (f r)) \<Longrightarrow>
    list_all (\<lambda>(k, r). P k r) (js_modify k f t)"
  by (induction t) (auto simp: js_modify_def)

lemma pump_run_ok: "pump_rows_ok t \<Longrightarrow> pump_rows_ok (pump_run now w t)"
  by (cases w)
    (simp_all add: pump_rows_ok_def pumpPending_add_def pumpPending_setStatus_def pumpPending_del_def
      rows_update rows_delete rows_modify)

lemma update_fresh_entries:
  "distinct (map fst out @ map f es) \<Longrightarrow>
   fold (\<lambda>e m. AList.update (f e) e m) es out = out @ map (\<lambda>e. (f e, e)) es"
proof (induction es arbitrary: out)
  case (Cons e es)
  then have "f e \<notin> set (map fst out)" by auto
  then have "AList.update (f e) e out = out @ [(f e, e)]" by (induction out) auto
  with Cons.IH [of "out @ [(f e, e)]"] Cons.prems show ?case by simp
qed simp

lemma map_of_sort_key: "js_keys_ok t \<Longrightarrow> map_of (sort_key f t) = map_of t"
  by (metis distinct_map js_keys_ok_def map_of_inject_set set_sort distinct_sort inj_on_def distinct_map)

lemma pump_load:
  assumes "pump_rows_ok t"
  shows "map_of (pendingMap (initPumpPending bl wl t)) = pump_view t"
    and "js_keys_ok (pendingMap (initPumpPending bl wl t))"
proof -
  let ?s = "sort_key (\<lambda>(k, r). - pr_detected_at r) t"
  have k: "\<And>k r. (k, r) \<in> set ?s \<Longrightarrow> pr_mint r = k" using assms by (auto simp: pump_rows_ok_def list_all_iff)
  have m: "map pp_mint (pumpPending_list t) = map fst ?s"
    unfolding pumpPending_list_def map_map by (intro map_cong refl) (use k in \<open>auto simp: pump_toEntry_def\<close>)
  have d: "distinct (map pp_mint (pumpPending_list t))"
    unfolding m using assms by (simp add: pump_rows_ok_def js_keys_ok_def distinct_map)
  then have p: "pendingMap (initPumpPending bl wl t) = map (\<lambda>e. (pp_mint e, e)) (pumpPending_list t)"
    using update_fresh_entries [of "[]" pp_mint "pumpPending_list t"] by (simp add: initPumpPending_def)
  with d show "js_keys_ok (pendingMap (initPumpPending bl wl t))" by (simp add: js_keys_ok_def comp_def)
  have "map (\<lambda>e. (pp_mint e, e)) (pumpPending_list t) = map (\<lambda>(k, r). (k, pump_toEntry r)) ?s"
    using k by (auto simp: pumpPending_list_def pump_toEntry_def)
  then show "map_of (pendingMap (initPumpPending bl wl t)) = pump_view t"
    using assms by (simp add: p map_of_map_values pump_view_def pump_rows_ok_def map_of_sort_key)
qed

interpretation pumps: idempotent_write_through
  "\<lambda>op s. fst (pump_step op s)" "\<lambda>op s. snd (pump_step op s)" pump_run "initPumpPending bl wl"
  pump_op_ok pump_call_ok "\<lambda>s. js_keys_ok (pendingMap s)" pump_rows_ok "\<lambda>s. map_of (pendingMap s)" pump_view pump_effect
  for bl wl
proof
  show "pump_effect w (pump_effect w v) = pump_effect w v" for w v
    by (cases w) (auto simp: option.map_comp comp_def)
qed (auto simp: pump_run_view pump_run_ok pump_step_view pump_load dest: pump_step_calls_ok)

section \<open>Lemmas\<close>

definition resolved :: "millis \<Rightarrow> PumpStatus \<Rightarrow> PumpPendingEntry \<Rightarrow> PumpPendingEntry" where
  "resolved at status e = e\<lparr>pp_status := status, pp_resolvedAt := Some at\<rparr>"

lemma seq_ops_fst: "fst (seq_ops f xs s) = fold (\<lambda>x s. fst (f x s)) xs s"
proof -
  have "fst (fold (\<lambda>x (s, ws). case f x s of (s', ws') \<Rightarrow> (s', ws @ ws')) xs (s, ws)) =
      fold (\<lambda>x s. fst (f x s)) xs s" for ws
    by (induction xs arbitrary: s ws) (auto split: prod.splits)
  then show ?thesis by (simp add: seq_ops_def)
qed

lemma resolvePump_get:
  "map_of (pendingMap (fst (resolvePump at mint status s))) k =
     (if k = mint then map_option (resolved at status) (map_of (pendingMap s) k) else map_of (pendingMap s) k)"
  by (auto simp: resolvePump_def Let_def resolved_def split: option.splits)

lemma expire_one_get:
  "map_of (pendingMap (fst (expire_one now at mint e s))) k =
     (if k = mint \<and> lapsed now e then map_option (resolved at pump_rejected) (map_of (pendingMap s) k)
      else map_of (pendingMap s) k)"
  by (simp add: expire_one_def resolvePump_get)

lemma expire_fold:
  "js_keys_ok es \<Longrightarrow>
   map_of (pendingMap (fold (\<lambda>x s. fst ((\<lambda>(mint, entry). expire_one now (clock mint) mint entry) x s)) es s)) k =
     (case map_of es k of
        Some e \<Rightarrow> if lapsed now e then map_option (resolved (clock k) pump_rejected) (map_of (pendingMap s) k)
                  else map_of (pendingMap s) k
      | None \<Rightarrow> map_of (pendingMap s) k)"
proof (induction es arbitrary: s)
  case (Cons x es)
  obtain mint e where x: "x = (mint, e)" by (cases x)
  have keys: "js_keys_ok es" "mint \<notin> set (map fst es)" using Cons.prems x by (simp_all add: js_keys_ok_def)
  then have "map_of es mint = None" by (simp add: map_of_eq_None_iff)
  then show ?case
    using Cons.IH [OF keys(1), of "fst (expire_one now (clock mint) mint e s)"]
    by (auto simp: x expire_one_get split: option.splits)
qed simp

text \<open>What a decision makes of the entry of its mint.\<close>

definition after_result :: "millis \<Rightarrow> kv_result \<Rightarrow> PumpPendingEntry \<Rightarrow> PumpPendingEntry" where
  "after_result at r e =
     (case decided r of
        None \<Rightarrow> e
      | Some status \<Rightarrow>
          if pp_status e = pump_pending \<and> (kv_timestamp r = 0 \<or> kv_timestamp r \<ge> pp_detectedAt e)
          then resolved at status e else e)"

lemma apply_result_get:
  "map_of (pendingMap (fst (apply_result at mint r s))) k =
     (if k = mint then map_option (after_result at r) (map_of (pendingMap s) k) else map_of (pendingMap s) k)"
  by (auto simp: apply_result_def after_result_def resolvePump_get split: option.splits)

lemma result_fold:
  "js_keys_ok data \<Longrightarrow>
   map_of (pendingMap (fold (\<lambda>x s. fst ((\<lambda>(mint, r). apply_result (clock mint) mint r) x s)) data s)) k =
     (case map_of data k of
        Some r \<Rightarrow> map_option (after_result (clock k) r) (map_of (pendingMap s) k)
      | None \<Rightarrow> map_of (pendingMap s) k)"
proof (induction data arbitrary: s)
  case (Cons x data)
  obtain mint r where x: "x = (mint, r)" by (cases x)
  have keys: "js_keys_ok data" "mint \<notin> set (map fst data)" using Cons.prems x by (simp_all add: js_keys_ok_def)
  then have "map_of data mint = None" by (simp add: map_of_eq_None_iff)
  then show ?case
    using Cons.IH [OF keys(1), of "fst (apply_result (clock mint) mint r s)"]
    by (auto simp: x apply_result_get split: option.splits)
qed simp

text \<open>A rejected token is on the blacklist and not on the whitelist.\<close>

definition rejects_listed :: "pump_state \<Rightarrow> bool" where
  "rejects_listed s \<longleftrightarrow>
     (\<forall>k e. map_of (pendingMap s) k = Some e \<longrightarrow> pp_status e = pump_rejected \<longrightarrow>
        k \<in> set (blacklist s) \<and> k \<notin> set (whitelist s))"

lemma rejects_listed_resolve: "rejects_listed s \<Longrightarrow> rejects_listed (fst (resolvePump at mint status s))"
  unfolding rejects_listed_def resolvePump_def
  by (auto simp: Let_def split: option.splits if_splits)

lemma rejects_listed_step: "rejects_listed s \<Longrightarrow> rejects_listed (fst (pump_step op s))"
proof (cases op)
  case (PPOadd e)
  then show "rejects_listed s \<Longrightarrow> ?thesis" by (auto simp: rejects_listed_def addPumpPending_def)
next
  case (PPOdelete k)
  then show "rejects_listed s \<Longrightarrow> ?thesis" by (auto simp: rejects_listed_def deletePumpEntry_def split: if_splits)
qed (auto simp: rejects_listed_resolve expire_one_def apply_result_def split: option.splits)

lemma rejects_listed_fold:
  "(\<And>x s. rejects_listed s \<Longrightarrow> rejects_listed (fst (f x s))) \<Longrightarrow> rejects_listed s \<Longrightarrow>
   rejects_listed (fst (seq_ops f xs s))"
  unfolding seq_ops_fst by (induction xs arbitrary: s) auto

lemma poll_fst:
  "fst (pollApprovals now clock answer s) =
     (let s1 = fst (seq_ops (\<lambda>(mint, entry). expire_one now (clock mint) mint entry) (pendingMap s) s)
      in if \<not> list_ex (\<lambda>(k, e). pp_status e = pump_pending) (pendingMap s1) then s1
         else (case answer of
                 None \<Rightarrow> s1
               | Some data \<Rightarrow> fst (seq_ops (\<lambda>(mint, r). apply_result (clock mint) mint r) data s1)))"
  by (simp add: pollApprovals_def Let_def case_prod_unfold split: option.splits)

lemma rejects_listed_poll: "rejects_listed s \<Longrightarrow> rejects_listed (fst (pollApprovals now clock answer s))"
proof -
  assume s: "rejects_listed s"
  have e: "rejects_listed s \<Longrightarrow> rejects_listed (fst ((\<lambda>(mint, entry). expire_one now (clock mint) mint entry) x s))"
    and r: "rejects_listed s \<Longrightarrow> rejects_listed (fst ((\<lambda>(mint, r). apply_result (clock mint) mint r) y s))" for x y s
    using rejects_listed_step [of s "PPOexpire now (clock (fst x)) (fst x) (snd x)"]
      rejects_listed_step [of s "PPOresult (clock (fst y)) (fst y) (snd y)"]
    by (simp_all add: case_prod_unfold)
  have E: "rejects_listed s \<Longrightarrow>
      rejects_listed (fst (seq_ops (\<lambda>(mint, entry). expire_one now (clock mint) mint entry) xs s))"
    and R: "rejects_listed s \<Longrightarrow>
      rejects_listed (fst (seq_ops (\<lambda>(mint, r). apply_result (clock mint) mint r) ys s))" for xs ys s
    by (erule rejects_listed_fold [rotated], erule e) (erule rejects_listed_fold [rotated], erule r)
  show ?thesis unfolding poll_fst Let_def using E [OF s] R [OF E [OF s]] by (simp split: option.splits)
qed

definition polled :: "millis \<Rightarrow> (string \<Rightarrow> millis) \<Rightarrow> (string, kv_result) jsmap \<Rightarrow> string \<Rightarrow> PumpPendingEntry \<Rightarrow> PumpPendingEntry" where
  "polled now clock data k e =
     (if lapsed now e then resolved (clock k) pump_rejected e
      else (case map_of data k of Some r \<Rightarrow> after_result (clock k) r e | None \<Rightarrow> e))"

lemma after_result_settled: "pp_status e \<noteq> pump_pending \<Longrightarrow> after_result at r e = e"
  by (simp add: after_result_def split: option.splits)

lemma poll_get:
  assumes "js_keys_ok (pendingMap s)" and "js_keys_ok data"
  shows "map_of (pendingMap (fst (pollApprovals now clock (Some data) s))) k =
    map_option (polled now clock data k) (map_of (pendingMap s) k)"
proof -
  define s1 where "s1 = fst (seq_ops (\<lambda>(mint, entry). expire_one now (clock mint) mint entry) (pendingMap s) s)"
  have s1: "map_of (pendingMap s1) k =
      map_option (\<lambda>e. if lapsed now e then resolved (clock k) pump_rejected e else e) (map_of (pendingMap s) k)" for k
    using expire_fold [OF assms(1), of now clock s k] by (auto simp: s1_def seq_ops_fst split: option.splits)
  have settled: "after_result at r (resolved at' pump_rejected e) = resolved at' pump_rejected e" for at r at' e
    by (simp add: after_result_settled resolved_def)
  show ?thesis
  proof (cases "list_ex (\<lambda>(k, e). pp_status e = pump_pending) (pendingMap s1)")
    case True
    then have "fst (pollApprovals now clock (Some data) s) =
        fst (seq_ops (\<lambda>(mint, r). apply_result (clock mint) mint r) data s1)"
      by (simp add: poll_fst s1_def Let_def)
    then show ?thesis
      using result_fold [OF assms(2), of clock s1 k] s1 [of k] settled
      by (cases "map_of (pendingMap s) k"; cases "map_of data k") (auto simp: seq_ops_fst polled_def)
  next
    case False
    then have e: "fst (pollApprovals now clock (Some data) s) = s1"
      by (simp add: poll_fst s1_def Let_def)
    have "pp_status e \<noteq> pump_pending" if "map_of (pendingMap s) k = Some e" "\<not> lapsed now e" for e
      using False that s1 [of k] by (auto simp: list_ex_iff dest: map_of_SomeD)
    then show ?thesis
      using s1 [of k]
      by (cases "map_of (pendingMap s) k") (auto simp: e polled_def after_result_settled split: option.splits)
  qed
qed

section \<open>Properties\<close>

text \<open>
  What a poll decides. After a poll that ran undisturbed, a token already approved or rejected is
  unchanged, so a late reply cannot flip it; a token pending for more than an hour is rejected; any
  other pending token takes the decision of the service if there is one made after its detection
  (or undated), and stays pending otherwise. Tokens unknown before are unknown after, and every
  rejected token is on the blacklist and off the whitelist.
\<close>

theorem poll_decides:
  assumes "js_keys_ok (pendingMap s)" and "js_keys_ok data" and "rejects_listed s"
    and "pollApprovals now clock (Some data) s = (s', ws)"
  shows "(map_of (pendingMap s) k = None \<longrightarrow> map_of (pendingMap s') k = None) \<and>
    (\<forall>e. map_of (pendingMap s) k = Some e \<longrightarrow>
      (pp_status e \<noteq> pump_pending \<longrightarrow> map_of (pendingMap s') k = Some e) \<and>
      (pp_status e = pump_pending \<and> now - pp_detectedAt e > EXPIRY_MS \<longrightarrow>
         map_of (pendingMap s') k = Some (resolved (clock k) pump_rejected e)) \<and>
      (pp_status e = pump_pending \<and> \<not> now - pp_detectedAt e > EXPIRY_MS \<longrightarrow>
         map_of (pendingMap s') k = Some
           (case map_of data k of
              Some r \<Rightarrow>
                (case decided r of
                   Some status \<Rightarrow>
                     if kv_timestamp r = 0 \<or> kv_timestamp r \<ge> pp_detectedAt e
                     then resolved (clock k) status e else e
                 | None \<Rightarrow> e)
            | None \<Rightarrow> e))) \<and>
    (isPumpRejected k s' \<longrightarrow> k \<in> set (blacklist s') \<and> k \<notin> set (whitelist s'))"
proof -
  have g: "map_of (pendingMap s') k = map_option (polled now clock data k) (map_of (pendingMap s) k)"
    using poll_get [OF assms(1,2), of now clock k] assms(4) by simp
  have "rejects_listed s'" using rejects_listed_poll [OF assms(3), of now clock "Some data"] assms(4) by simp
  then have "isPumpRejected k s' \<longrightarrow> k \<in> set (blacklist s') \<and> k \<notin> set (whitelist s')"
    by (auto simp: isPumpRejected_def rejects_listed_def split: option.splits)
  moreover have "polled now clock data k e = e" if "pp_status e \<noteq> pump_pending" for e
    using that by (simp add: polled_def lapsed_def after_result_settled split: option.splits)
  ultimately show ?thesis
    using g by (auto simp: polled_def lapsed_def after_result_def split: option.splits)
qed

definition pump_store_reach ::
  "string jsset \<Rightarrow> string jsset \<Rightarrow> pump_state \<times> pump_call WriteChain \<times> pump_table \<Rightarrow> bool" where
  "pump_store_reach bl wl = reach (\<lambda>s. \<exists>db. pump_rows_ok db \<and> s = store_init (initPumpPending bl wl) db)
     (store_step (\<lambda>op s. fst (pump_step op s)) (\<lambda>op s. snd (pump_step op s)) pump_run pump_op_ok True)"

text \<open>
  Decisions survive a restart. In every state the store can reach, lost acknowledgements
  included, a drained chain that dropped nothing means that the table's queries (pending within the
  hour, approved, rejected) answer what the executors' checks in memory answer, and that a restarted
  bot loads the same entry for every token.
\<close>

theorem pump_decisions_survive:
  assumes "pump_store_reach bl wl (s, c, db)" and "drained c" and "dropped c = []"
  shows "pumpPending_isApproved mint db = isPumpApproved mint s \<and>
         pumpPending_isRejected mint db = isPumpRejected mint s \<and>
         pumpPending_isPending mint now EXPIRY_MS db = isPumpPending now mint s \<and>
         map_of (pendingMap (initPumpPending bl' wl' db)) mint = map_of (pendingMap s) mint"
proof -
  have y: "pumps.in_sync (s, c, db)" using assms(1) unfolding pump_store_reach_def by (rule pumps.lossy.reach_inv)
  then have v: "pump_view db = map_of (pendingMap s)" and rows: "pump_rows_ok db"
    using assms(2,3) by (simp_all add: pumps.in_sync_def drained_def)
  have m: "map_of (pendingMap s) mint = map_option pump_toEntry (map_of db mint)"
    by (simp add: pump_view_def flip: v)
  have "pumpPending_isApproved mint db = isPumpApproved mint s"
    "pumpPending_isRejected mint db = isPumpRejected mint s"
    by (auto simp: pumpPending_isApproved_def pumpPending_isRejected_def pumpPending_hasStatus_def
        isPumpApproved_def isPumpRejected_def m pump_toEntry_def split: option.splits)
  moreover have "pumpPending_isPending mint now EXPIRY_MS db = isPumpPending now mint s"
    by (auto simp: pumpPending_isPending_def isPumpPending_def m pump_toEntry_def split: option.splits)
  ultimately show ?thesis using pump_load(1) [OF rows, of bl' wl'] v by simp
qed

section \<open>A run for the witnesses\<close>

definition demo_pump_token :: PumpPendingEntry where
  "demo_pump_token = \<lparr>pp_mint = ''Mpump'', pp_symbol = ''M'', pp_pool = ''Mpump/U'', pp_targetWallet = ''w'',
     pp_detectedAt = 1000, pp_status = pump_pending, pp_notifiedAt = None, pp_resolvedAt = None\<rparr>"

definition demo_pumps :: pump_state where
  "demo_pumps = \<lparr>pendingMap = [(''Mpump'', demo_pump_token)], blacklist = [], whitelist = [''Mpump''], env_updates = []\<rparr>"

theorem poll_decides_witness:
  "map_of (pendingMap (fst (pollApprovals 2000 (\<lambda>_. 2001) (Some [(''Mpump'', \<lparr>kv_status = ''approved'', kv_timestamp = 1500\<rparr>)]) demo_pumps))) ''Mpump'' =
     Some (resolved 2001 pump_approved demo_pump_token) \<and>
   map_of (pendingMap (fst (pollApprovals 2000 (\<lambda>_. 2001) (Some [(''Mpump'', \<lparr>kv_status = ''approved'', kv_timestamp = 900\<rparr>)]) demo_pumps))) ''Mpump'' =
     Some demo_pump_token"
proof -
  have a: "js_keys_ok (pendingMap demo_pumps)" "rejects_listed demo_pumps" "map_of (pendingMap demo_pumps) ''Mpump'' = Some demo_pump_token"
    by (auto simp: demo_pumps_def js_keys_ok_def rejects_listed_def demo_pump_token_def split: if_splits)
  have b: "js_keys_ok [(''Mpump'', r :: kv_result)]" for r by (simp add: js_keys_ok_def)
  have "map_of (pendingMap (fst (pollApprovals 2000 (\<lambda>_. 2001) (Some [(''Mpump'', r)]) demo_pumps))) ''Mpump'' =
      Some (case decided r of
              Some status \<Rightarrow> if kv_timestamp r = 0 \<or> kv_timestamp r \<ge> 1000 then resolved 2001 status demo_pump_token else demo_pump_token
            | None \<Rightarrow> demo_pump_token)" for r
  proof (cases "pollApprovals 2000 (\<lambda>_. 2001) (Some [(''Mpump'', r)]) demo_pumps")
    case (Pair s' ws)
    have "pp_status demo_pump_token = pump_pending \<and> \<not> 2000 - pp_detectedAt demo_pump_token > EXPIRY_MS \<and> pp_detectedAt demo_pump_token = 1000"
      by (simp add: demo_pump_token_def EXPIRY_MS_def)
    then show ?thesis using poll_decides [OF a(1) b a(2) Pair, of "''Mpump''"] Pair a(3)
      by (simp split: option.splits)
  qed
  then show ?thesis by (simp add: decided_def)
qed

lemma demo_pump_reach:
  "pump_store_reach [] [''Mpump''] (demo_pumps, enable (new_chain RETRY_DELAYS_MS),
     [(''Mpump'', \<lparr>pr_mint = ''Mpump'', pr_symbol = ''M'', pr_pool = ''Mpump/U'', pr_target_wallet = ''w'',
        pr_detected_at = 1000, pr_status = pump_pending, pr_notified_at = None, pr_resolved_at = None\<rparr>)])"
    (is "pump_store_reach _ _ ?goal")
proof -
  let ?w = "run_script (\<lambda>op s. fst (pump_step op s)) (\<lambda>op s. snd (pump_step op s)) pump_run
     [Op (PPOadd demo_pump_token), Db (LostAck 1), Db Nack, Db (Ack 3)] (store_init (initPumpPending [] [''Mpump'']) [])"
  have "?w = ?goal"
    by (simp add: store_init_def initPumpPending_def pumpPending_list_def addPumpPending_def pumpPending_add_def
        chain_defs RETRY_DELAYS_MS_def demo_pump_token_def demo_pumps_def)
  moreover have "pump_store_reach [] [''Mpump''] ?w"
    unfolding pump_store_reach_def by (rule reach_script) (simp_all add: pump_rows_ok_def demo_pump_token_def)
  ultimately show ?thesis by metis
qed

theorem pump_decisions_survive_witness:
  "pumpPending_isPending ''Mpump'' 2000 EXPIRY_MS
     [(''Mpump'', \<lparr>pr_mint = ''Mpump'', pr_symbol = ''M'', pr_pool = ''Mpump/U'', pr_target_wallet = ''w'',
        pr_detected_at = 1000, pr_status = pump_pending, pr_notified_at = None, pr_resolved_at = None\<rparr>)] =
   isPumpPending 2000 ''Mpump'' demo_pumps"
proof -
  have "drained (enable (new_chain RETRY_DELAYS_MS) :: pump_call WriteChain)"
    "dropped (enable (new_chain RETRY_DELAYS_MS) :: pump_call WriteChain) = []" by (simp_all add: chain_defs)
  then show ?thesis using pump_decisions_survive [OF demo_pump_reach] by blast
qed

end
