(* ===== verification/Signer_Server.thy ===== *)
theory Signer_Server
  imports Signer_Wire Signer_Policy
begin

text \<open>
  The signer daemon around the policy (\<^verbatim>\<open>signer/index.ts\<close>, \<^verbatim>\<open>signer/crypto.ts\<close>) and the bot's side of it
  (\<^verbatim>\<open>src/utils/wallet.ts\<close>). Requests and responses are JSON values: a request the server reads is the
  result of \<^verbatim>\<open>JSON.parse\<close>, which may have thrown. Parsing, signing and serialising transactions is the
  Solana library's, AES-GCM and scrypt are Node's: both are records of functions.
\<close>

section \<open>Handling a request\<close>

record 'key signing =
  sign_message :: "'key \<Rightarrow> message \<Rightarrow> byte list result" \<comment> \<open>\<^verbatim>\<open>sign\<close> and \<^verbatim>\<open>serialize\<close>\<close>
  sign_legacy :: "'key \<Rightarrow> legacy_ix list \<Rightarrow> byte list result" \<comment> \<open>\<^verbatim>\<open>partialSign\<close> and \<^verbatim>\<open>serialize\<close>\<close>

definition signTransaction :: "web3 \<Rightarrow> 'key signing \<Rightarrow> 'key \<Rightarrow> byte list \<Rightarrow> tx_type \<Rightarrow> byte list result" where
  "signTransaction w sg keypair txBytes type =
     (case type of
        versioned \<Rightarrow> bind_result (deserialize_versioned w txBytes) (sign_message sg keypair)
      | legacy \<Rightarrow> bind_result (transaction_from w txBytes) (sign_legacy sg keypair))"

text \<open>Property access and truthiness of a JSON value.\<close>

definition json_get :: "json \<Rightarrow> string \<Rightarrow> json result" where
  "json_get v k =
     (case v of
        JNull \<Rightarrow> Inl TypeError
      | JUndefined \<Rightarrow> Inl TypeError
      | JObject kvs \<Rightarrow> Inr (case map_of (rev kvs) k of Some x \<Rightarrow> x | None \<Rightarrow> JUndefined)
      | _ \<Rightarrow> Inr JUndefined)"

definition truthy :: "json \<Rightarrow> bool" where
  "truthy v =
     (case v of JUndefined \<Rightarrow> False | JNull \<Rightarrow> False | JBool b \<Rightarrow> b
      | JNum x \<Rightarrow> x \<noteq> Num 0 \<and> x \<noteq> NaN | JString s \<Rightarrow> s \<noteq> [] | JArray _ \<Rightarrow> True | JObject _ \<Rightarrow> True)"

datatype response = SignedTx string | Failed string

definition toResponse :: "response \<Rightarrow> json" where
  "toResponse r =
     (case r of
        SignedTx tx \<Rightarrow> JObject [(''ok'', JBool True), (''tx'', JString tx)]
      | Failed e \<Rightarrow> JObject [(''ok'', JBool False), (''error'', JString e)])"

text \<open>
  The texts of errors and of policy reasons are arguments. \<open>other\<close> is \<^verbatim>\<open>Buffer.from\<close> on a value that is
  no string: whatever bytes it makes are the ones checked and signed.
\<close>

record texts =
  error_text :: "js_error \<Rightarrow> string"
  reason_text :: "reject_reason \<Rightarrow> string"

definition request_bytes :: "(json \<Rightarrow> byte list result) \<Rightarrow> json \<Rightarrow> byte list result" where
  "request_bytes other v = (case v of JString s \<Rightarrow> Inr (base64_decode s) | _ \<Rightarrow> other v)"

definition type_of_text :: "json \<Rightarrow> tx_type option" where
  "type_of_text v = (if v = JString ''versioned'' then Some versioned
                     else if v = JString ''legacy'' then Some legacy else None)"

definition handle_parsed ::
  "web3 \<Rightarrow> 'key signing \<Rightarrow> signer_rpc \<Rightarrow> signer_config \<Rightarrow> texts \<Rightarrow> (json \<Rightarrow> byte list result) \<Rightarrow> 'key \<Rightarrow> json \<Rightarrow>
   response result" where
  "handle_parsed w sg rpc cfg tx other keypair request =
     bind_result (json_get request ''type'') (\<lambda>ty.
     bind_result (json_get request ''tx'') (\<lambda>body.
       if \<not> truthy ty \<or> \<not> truthy body then Inr (Failed ''Invalid request: missing type or tx'')
       else (case type_of_text ty of
               None \<Rightarrow> Inr (Failed (''Invalid type: '' @ js_String ty))
             | Some type \<Rightarrow>
                 bind_result (request_bytes other body) (\<lambda>txBytes.
                 bind_result (checkPolicy w rpc cfg txBytes type) (\<lambda>policyResult.
                   (case policyResult of
                      Rejected r \<Rightarrow> Inr (Failed (reason_text tx r))
                    | Allowed \<Rightarrow>
                        bind_result (signTransaction w sg keypair txBytes type) (\<lambda>signedBytes.
                          Inr (SignedTx (base64_encode signedBytes)))))))))"

text \<open>The whole handler: the request counter, and errors turned into responses.\<close>

definition handleRequest ::
  "web3 \<Rightarrow> 'key signing \<Rightarrow> signer_rpc \<Rightarrow> signer_config \<Rightarrow> texts \<Rightarrow> (json \<Rightarrow> byte list result) \<Rightarrow> 'key \<Rightarrow>
   json result \<Rightarrow> nat \<Rightarrow> json \<times> nat" where
  "handleRequest w sg rpc cfg tx other keypair request requestCount =
     (toResponse (case bind_result request (handle_parsed w sg rpc cfg tx other keypair) of
                    Inr r \<Rightarrow> r | Inl e \<Rightarrow> Failed (error_text tx e)),
      requestCount + 1)"

section \<open>The bot's side\<close>

definition sign_request :: "tx_type \<Rightarrow> byte list \<Rightarrow> json" where
  "sign_request type txBytes =
     JObject [(''type'', JString (case type of versioned \<Rightarrow> ''versioned'' | legacy \<Rightarrow> ''legacy'')),
              (''tx'', JString (base64_encode txBytes))]"

text \<open>\<^verbatim>\<open>remoteSign\<close>: \<open>send\<close> is the round trip over the socket, from the request to the parsed response.\<close>

definition remoteSign ::
  "(json \<Rightarrow> json result) \<Rightarrow> (json \<Rightarrow> byte list result) \<Rightarrow> tx_type \<Rightarrow> byte list \<Rightarrow> byte list result" where
  "remoteSign send other type txBytes =
     bind_result (send (sign_request type txBytes)) (\<lambda>res.
     bind_result (json_get res ''ok'') (\<lambda>ok.
       if \<not> truthy ok then
         bind_result (json_get res ''error'') (\<lambda>e. Inl (Error (''Signer rejected TX: '' @ js_String e)))
       else bind_result (json_get res ''tx'') (request_bytes other)))"

record wallet_config =
  signerSocketPath :: string
  privateKey :: string
  walletPublicKey :: string

record 'key wallet =
  w_keypair :: "'key option"
  w_publicKey :: "pubkey option"

definition new_wallet :: "'key wallet" where
  "new_wallet = \<lparr>w_keypair = None, w_publicKey = None\<rparr>"

record 'key keys =
  keypair_from :: "string \<Rightarrow> 'key result" \<comment> \<open>base58 decoding and \<^verbatim>\<open>Keypair.fromSecretKey\<close>\<close>
  public_of :: "'key \<Rightarrow> pubkey"
  pubkey_from :: "string \<Rightarrow> pubkey result"

definition useRemoteSigner :: "wallet_config \<Rightarrow> bool" where
  "useRemoteSigner cfg \<longleftrightarrow> signerSocketPath cfg \<noteq> []"

definition getKeypair :: "'key keys \<Rightarrow> wallet_config \<Rightarrow> 'key wallet \<Rightarrow> 'key result \<times> 'key wallet" where
  "getKeypair ks cfg st =
     (if useRemoteSigner cfg then (Inl (Error ''getKeypair() is disabled in signer mode''), st)
      else (case w_keypair st of
              Some k \<Rightarrow> (Inr k, st)
            | None \<Rightarrow>
                if privateKey cfg = [] then (Inl (Error ''PRIVATE_KEY not configured and SIGNER_SOCKET_PATH not set''), st)
                else (case keypair_from ks (privateKey cfg) of
                        Inl e \<Rightarrow> (Inl e, st)
                      | Inr k \<Rightarrow> (Inr k, st\<lparr>w_keypair := Some k\<rparr>))))"

definition getUserAddress :: "'key keys \<Rightarrow> wallet_config \<Rightarrow> 'key wallet \<Rightarrow> pubkey result \<times> 'key wallet" where
  "getUserAddress ks cfg st =
     (case w_publicKey st of
        Some p \<Rightarrow> (Inr p, st)
      | None \<Rightarrow>
          if useRemoteSigner cfg then
            (if walletPublicKey cfg = [] then (Inl (Error ''WALLET_PUBLIC_KEY required in signer mode''), st)
             else (case pubkey_from ks (walletPublicKey cfg) of
                     Inl e \<Rightarrow> (Inl e, st)
                   | Inr p \<Rightarrow> (Inr p, st\<lparr>w_publicKey := Some p\<rparr>)))
          else (case getKeypair ks cfg st of
                  (Inl e, st') \<Rightarrow> (Inl e, st')
                | (Inr k, st') \<Rightarrow> (Inr (public_of ks k), st'\<lparr>w_publicKey := Some (public_of ks k)\<rparr>)))"

text \<open>
  The signing functions: remotely, or with the key of this process. \<open>'t\<close> is the library's
  transaction object; \<open>tx_serialize\<close>, \<open>tx_parse\<close> and the signing methods are its own.
\<close>

record ('key, 't) tx_ops =
  tx_serialize :: "'t \<Rightarrow> byte list result"
  tx_parse :: "byte list \<Rightarrow> 't result"
  tx_sign :: "'key list \<Rightarrow> 't \<Rightarrow> 't result"
  tx_partialSign :: "'key \<Rightarrow> 't \<Rightarrow> 't result"

definition remote_round ::
  "('key, 't) tx_ops \<Rightarrow> (tx_type \<Rightarrow> byte list \<Rightarrow> byte list result) \<Rightarrow> tx_type \<Rightarrow> 't \<Rightarrow> 't result" where
  "remote_round ops rs type tx =
     bind_result (tx_serialize ops tx) (\<lambda>unsigned. bind_result (rs type unsigned) (tx_parse ops))"

definition local_sign ::
  "'key keys \<Rightarrow> wallet_config \<Rightarrow> ('key, 't) tx_ops \<Rightarrow> 'key list \<Rightarrow> 't \<Rightarrow> 'key wallet \<Rightarrow> 't result \<times> 'key wallet" where
  "local_sign ks cfg ops extra tx st =
     (case getKeypair ks cfg st of
        (Inl e, st') \<Rightarrow> (Inl e, st')
      | (Inr k, st') \<Rightarrow> (tx_sign ops (k # extra) tx, st'))"

definition signVersioned where
  "signVersioned ks cfg ops rs tx st =
     (if useRemoteSigner cfg then (remote_round ops rs versioned tx, st) else local_sign ks cfg ops [] tx st)"

definition signLegacy where
  "signLegacy ks cfg ops rs tx st =
     (if useRemoteSigner cfg then (remote_round ops rs legacy tx, st) else local_sign ks cfg ops [] tx st)"

fun partial_sign_all :: "('key, 't) tx_ops \<Rightarrow> 'key list \<Rightarrow> 't \<Rightarrow> 't result" where
  "partial_sign_all ops [] tx = Inr tx"
| "partial_sign_all ops (k # ks) tx = bind_result (tx_partialSign ops k tx) (partial_sign_all ops ks)"

definition signLegacyWithExtra where
  "signLegacyWithExtra ks cfg ops rs tx extraSigners st =
     (if useRemoteSigner cfg
      then (bind_result (partial_sign_all ops extraSigners tx) (remote_round ops rs legacy), st)
      else local_sign ks cfg ops extraSigners tx st)"

section \<open>The key file\<close>

record EncryptedData =
  salt :: string
  iv :: string
  tag :: string
  ed_data :: string

record node_crypto =
  scryptSync :: "string \<Rightarrow> byte list \<Rightarrow> byte list"
  gcm_encrypt :: "byte list \<Rightarrow> byte list \<Rightarrow> byte list \<Rightarrow> byte list \<times> byte list" \<comment> \<open>key, iv, text: ciphertext and tag\<close>
  gcm_setup :: "byte list \<Rightarrow> byte list \<Rightarrow> byte list \<Rightarrow> unit result" \<comment> \<open>\<^verbatim>\<open>createDecipheriv\<close> and \<^verbatim>\<open>setAuthTag\<close>\<close>
  gcm_decrypt :: "byte list \<Rightarrow> byte list \<Rightarrow> byte list \<Rightarrow> byte list \<Rightarrow> byte list result" \<comment> \<open>key, iv, tag, ciphertext\<close>
  utf8_encode :: "string \<Rightarrow> byte list"
  utf8_decode :: "byte list \<Rightarrow> string"

definition hex_char :: "nat \<Rightarrow> char" where
  "hex_char d = (if d < 10 then char_of (48 + d) else char_of (87 + d))"

definition hex_val :: "char \<Rightarrow> nat option" where
  "hex_val c =
     (let n = of_char c :: nat
      in if 48 \<le> n \<and> n \<le> 57 then Some (n - 48) else if 97 \<le> n \<and> n \<le> 102 then Some (n - 87)
         else if 65 \<le> n \<and> n \<le> 70 then Some (n - 55) else None)"

definition hex_encode :: "byte list \<Rightarrow> string" where
  "hex_encode bs = concat (map (\<lambda>b. [hex_char (b div 16), hex_char (b mod 16)]) bs)"

text \<open>\<^verbatim>\<open>Buffer.from(s, 'hex')\<close> stops at the first pair that is no hexadecimal.\<close>

fun hex_decode :: "string \<Rightarrow> byte list" where
  "hex_decode (a # b # r) =
     (case (hex_val a, hex_val b) of (Some x, Some y) \<Rightarrow> (16 * x + y) # hex_decode r | _ \<Rightarrow> [])"
| "hex_decode _ = []"

definition encryptKey :: "node_crypto \<Rightarrow> byte list \<Rightarrow> byte list \<Rightarrow> string \<Rightarrow> string \<Rightarrow> EncryptedData" where
  "encryptKey nc salt_bytes iv_bytes privKey password =
     (let key = scryptSync nc password salt_bytes;
          (encrypted, t) = gcm_encrypt nc key iv_bytes (utf8_encode nc privKey)
      in \<lparr>salt = hex_encode salt_bytes, iv = hex_encode iv_bytes, tag = hex_encode t, ed_data = hex_encode encrypted\<rparr>)"

definition decryptKey :: "node_crypto \<Rightarrow> EncryptedData \<Rightarrow> string \<Rightarrow> string result" where
  "decryptKey nc encrypted password =
     (let key = scryptSync nc password (hex_decode (salt encrypted));
          iv_bytes = hex_decode (iv encrypted); tag_bytes = hex_decode (tag encrypted)
      in bind_result (gcm_setup nc key iv_bytes tag_bytes) (\<lambda>_.
           case gcm_decrypt nc key iv_bytes tag_bytes (hex_decode (ed_data encrypted)) of
             Inr decrypted \<Rightarrow> Inr (utf8_decode nc decrypted)
           | Inl _ \<Rightarrow> Inl (Error ''Wrong password'')))"

section \<open>Unlocking\<close>

text \<open>
  The unlock page: the status it answers and, once the password is right, the key the daemon starts
  with. The body of a \<^verbatim>\<open>POST\<close> is the result of \<^verbatim>\<open>JSON.parse\<close>; a password that is no string makes the key
  derivation throw, which counts as a wrong password.
\<close>

datatype http_method = GET | POST | OtherMethod

definition unlock_page ::
  "node_crypto \<Rightarrow> EncryptedData \<Rightarrow> http_method \<Rightarrow> string \<Rightarrow> json result \<Rightarrow> nat \<times> string option" where
  "unlock_page nc encrypted method url body =
     (if method = GET \<and> (url = ''/'' \<or> url = ''/unlock'') then (200, None)
      else if method = POST \<and> url = ''/unlock'' then
        (case bind_result body (\<lambda>b. json_get b ''password'') of
           Inl _ \<Rightarrow> (400, None)
         | Inr password \<Rightarrow>
             if \<not> truthy password then (400, None)
             else (case password of
                     JString pw \<Rightarrow> (case decryptKey nc encrypted pw of Inr key \<Rightarrow> (200, Some key) | Inl _ \<Rightarrow> (401, None))
                   | _ \<Rightarrow> (401, None)))
      else (404, None))"

section \<open>Lemmas\<close>

lemma unlock_page_Some:
  "snd (unlock_page nc encrypted method url body) = Some key \<Longrightarrow>
   method = POST \<and> url = ''/unlock'' \<and> (\<exists>pw. pw \<noteq> [] \<and> decryptKey nc encrypted pw = Inr key)"
  by (auto simp: unlock_page_def truthy_def split: if_splits sum.splits json.splits)

lemma hex_val_char [simp]: "d < 16 \<Longrightarrow> hex_val (hex_char d) = Some d"
  by (auto simp: hex_char_def hex_val_def Let_def)

lemma hex_roundtrip: "\<forall>b \<in> set bs. b < 256 \<Longrightarrow> hex_decode (hex_encode bs) = bs"
proof (induction bs)
  case (Cons b bs)
  then have "b < 256" by simp
  then have "b div 16 < 16" "b mod 16 < 16" "16 * (b div 16) + b mod 16 = b"
    by (simp_all add: byte_parts)
  with Cons show ?case by (simp add: hex_encode_def)
qed (simp add: hex_encode_def)

lemma handle_parsed_SignedTx:
  assumes "handle_parsed w sg rpc cfg tx other keypair request = Inr (SignedTx t)"
  obtains type body txBytes signedBytes where
    "json_get request ''tx'' = Inr body" "request_bytes other body = Inr txBytes"
    "checkPolicy w rpc cfg txBytes type = Inr Allowed"
    "signTransaction w sg keypair txBytes type = Inr signedBytes" "t = base64_encode signedBytes"
proof -
  from assms obtain type body txBytes pr where r: "json_get request ''tx'' = Inr body"
    "request_bytes other body = Inr txBytes" "checkPolicy w rpc cfg txBytes type = Inr pr"
    "(case pr of Rejected r \<Rightarrow> Inr (Failed (reason_text tx r))
      | Allowed \<Rightarrow> bind_result (signTransaction w sg keypair txBytes type) (\<lambda>sb. Inr (SignedTx (base64_encode sb)))) =
     Inr (SignedTx t)"
    by (auto simp: handle_parsed_def bind_result_eq_Inr_iff split: if_splits option.splits)
  show thesis
  proof (cases pr)
    case Allowed
    with r show thesis by (auto simp: bind_result_eq_Inr_iff intro: that)
  next
    case (Rejected x)
    with r show thesis by simp
  qed
qed

lemma toResponse_ok: "json_get (toResponse r) ''ok'' = Inr (JBool True) \<longleftrightarrow> (\<exists>t. r = SignedTx t)"
  by (cases r) (auto simp: toResponse_def json_get_def)

section \<open>Properties\<close>

text \<open>
  C9: no signature without the policy. If the daemon answers a request with \<^verbatim>\<open>ok: true\<close>, the request
  parsed, the bytes of its transaction passed the policy, and the answer carries the signature of
  exactly those bytes; every other outcome, errors included, is answered with \<^verbatim>\<open>ok: false\<close>.
\<close>

theorem no_signature_without_policy:
  "(json_get (fst (handleRequest w sg rpc cfg tx other keypair request n)) ''ok'' = Inr (JBool True) \<longrightarrow>
     (\<exists>req body type txBytes signedBytes.
        request = Inr req \<and> json_get req ''tx'' = Inr body \<and> request_bytes other body = Inr txBytes \<and>
        checkPolicy w rpc cfg txBytes type = Inr Allowed \<and>
        signTransaction w sg keypair txBytes type = Inr signedBytes \<and>
        json_get (fst (handleRequest w sg rpc cfg tx other keypair request n)) ''tx'' =
          Inr (JString (base64_encode signedBytes)))) \<and>
   (json_get (fst (handleRequest w sg rpc cfg tx other keypair request n)) ''ok'' = Inr (JBool True) \<or>
    json_get (fst (handleRequest w sg rpc cfg tx other keypair request n)) ''ok'' = Inr (JBool False))"
proof -
  define r where "r = (case bind_result request (handle_parsed w sg rpc cfg tx other keypair) of
    Inr r \<Rightarrow> r | Inl e \<Rightarrow> Failed (error_text tx e))"
  have h: "fst (handleRequest w sg rpc cfg tx other keypair request n) = toResponse r"
    by (simp add: handleRequest_def r_def)
  show ?thesis
  proof (cases r)
    case (SignedTx t)
    then obtain req where q: "request = Inr req" "handle_parsed w sg rpc cfg tx other keypair req = Inr (SignedTx t)"
      by (cases request) (auto simp: r_def split: sum.splits)
    from q(2) obtain type body txBytes signedBytes where "json_get req ''tx'' = Inr body"
      "request_bytes other body = Inr txBytes" "checkPolicy w rpc cfg txBytes type = Inr Allowed"
      "signTransaction w sg keypair txBytes type = Inr signedBytes" "t = base64_encode signedBytes"
      by (rule handle_parsed_SignedTx)
    moreover have "json_get (toResponse (SignedTx t)) ''tx'' = Inr (JString t)"
      by (simp add: toResponse_def json_get_def)
    ultimately show ?thesis unfolding h SignedTx using q(1) toResponse_ok [of "SignedTx t"] by blast
  next
    case (Failed e)
    then show ?thesis by (simp add: h toResponse_def json_get_def)
  qed
qed

definition demo_signing :: "unit signing" where
  "demo_signing = \<lparr>sign_message = (\<lambda>_ _. Inr [1, 2, 3]), sign_legacy = (\<lambda>_ _. Inr [4])\<rparr>"

definition demo_texts :: texts where
  "demo_texts = \<lparr>error_text = (\<lambda>_. ''error''), reason_text = (\<lambda>_. ''rejected'')\<rparr>"

definition demo_answer :: json where
  "demo_answer = fst (handleRequest (demo_web3 demo_msg []) demo_signing demo_node (signerConfig None None) demo_texts
     (\<lambda>_. Inl TypeError) () (Inr (sign_request legacy [9])) 0)"

lemma demo_answer_ok: "json_get demo_answer ''ok'' = Inr (JBool True)"
proof -
  have "checkPolicy (demo_web3 demo_msg []) demo_node (signerConfig None None) b legacy = Inr Allowed" for b
    by (simp add: checkPolicy_def demo_web3_def demo_node_def check_simulation_def and_then_def)
  moreover have "signTransaction (demo_web3 demo_msg []) demo_signing () b legacy = Inr [4]" for b
    by (simp add: signTransaction_def demo_web3_def demo_signing_def)
  moreover have "base64_encode [9] \<noteq> []" by simp
  ultimately show ?thesis
    by (simp add: demo_answer_def handleRequest_def handle_parsed_def sign_request_def json_get_def truthy_def
        type_of_text_def request_bytes_def toResponse_def)
qed

theorem no_signature_without_policy_witness:
  "\<exists>type txBytes. checkPolicy (demo_web3 demo_msg []) demo_node (signerConfig None None) txBytes type = Inr Allowed \<and>
     json_get demo_answer ''ok'' = Inr (JBool True)"
proof -
  have "json_get (fst (handleRequest (demo_web3 demo_msg []) demo_signing demo_node (signerConfig None None) demo_texts
     (\<lambda>_. Inl TypeError) () (Inr (sign_request legacy [9])) 0)) ''ok'' = Inr (JBool True)"
    using demo_answer_ok unfolding demo_answer_def .
  from no_signature_without_policy [THEN conjunct1, rule_format, OF this] demo_answer_ok
  show ?thesis by blast
qed

text \<open>
  C28: signing end to end. When the bot sends transaction bytes to the daemon and gets its answer
  back, \<^verbatim>\<open>remoteSign\<close> returns bytes exactly when the policy allows the transaction and the daemon's
  library signs it, and then it returns exactly what the daemon signed.
\<close>

theorem remote_sign_exact:
  assumes "\<forall>b \<in> set txBytes. is_byte b" and "txBytes \<noteq> []"
    and "\<And>s. signTransaction w sg keypair txBytes type = Inr s \<Longrightarrow> \<forall>b \<in> set s. is_byte b"
  shows "remoteSign (\<lambda>req. Inr (fst (handleRequest w sg rpc cfg tx other keypair (Inr req) n))) other' type txBytes = Inr s \<longleftrightarrow>
     checkPolicy w rpc cfg txBytes type = Inr Allowed \<and> signTransaction w sg keypair txBytes type = Inr s"
proof -
  let ?req = "sign_request type txBytes"
  have ne: "base64_encode txBytes \<noteq> []" using assms(2) by (cases txBytes rule: base64_encode.cases) auto
  note dec = base64_roundtrip
  have g: "json_get (sign_request ty bs) ''type'' = Inr (JString (case ty of versioned \<Rightarrow> ''versioned'' | legacy \<Rightarrow> ''legacy''))"
    "json_get (sign_request ty bs) ''tx'' = Inr (JString (base64_encode bs))" for ty bs
    by (simp_all add: sign_request_def json_get_def)
  have hp: "handle_parsed w sg rpc cfg tx other keypair ?req =
      bind_result (checkPolicy w rpc cfg txBytes type) (\<lambda>policyResult.
        (case policyResult of Rejected r \<Rightarrow> Inr (Failed (reason_text tx r))
         | Allowed \<Rightarrow> bind_result (signTransaction w sg keypair txBytes type) (\<lambda>sb. Inr (SignedTx (base64_encode sb)))))"
    by (cases type) (simp_all add: handle_parsed_def g ne truthy_def type_of_text_def request_bytes_def dec [OF assms(1)]
        cong: PolicyResult.case_cong)
  have fail: "remoteSign (\<lambda>req. Inr (toResponse (Failed e))) other' type txBytes \<noteq> Inr s" for e
    by (simp add: remoteSign_def toResponse_def json_get_def truthy_def)
  have ok: "remoteSign (\<lambda>req. Inr (toResponse (SignedTx (base64_encode sb)))) other' type txBytes = Inr sb"
    if "\<forall>b \<in> set sb. is_byte b" for sb
    by (simp add: remoteSign_def toResponse_def json_get_def truthy_def request_bytes_def dec [OF that])
  have send: "remoteSign (\<lambda>req. Inr (fst (handleRequest w sg rpc cfg tx other keypair (Inr req) n))) other' type txBytes =
      remoteSign (\<lambda>req. Inr (toResponse (case handle_parsed w sg rpc cfg tx other keypair ?req of
        Inr r \<Rightarrow> r | Inl e \<Rightarrow> Failed (error_text tx e)))) other' type txBytes"
    by (simp add: remoteSign_def handleRequest_def)
  show ?thesis
  proof (cases "checkPolicy w rpc cfg txBytes type")
    case (Inl e)
    then show ?thesis by (simp add: send hp fail)
  next
    case (Inr pr)
    show ?thesis
    proof (cases pr)
      case Allowed
      with Inr show ?thesis
        using assms(3) by (cases "signTransaction w sg keypair txBytes type") (auto simp: send hp fail ok)
    next
      case (Rejected r)
      with Inr show ?thesis by (simp add: send hp fail)
    qed
  qed
qed

theorem remote_sign_exact_witness:
  "remoteSign (\<lambda>req. Inr (fst (handleRequest (demo_web3 demo_msg []) demo_signing demo_node (signerConfig None None) demo_texts
     (\<lambda>_. Inl TypeError) () (Inr req) 0))) (\<lambda>_. Inl TypeError) legacy [9] = Inr [4]"
proof -
  have p: "checkPolicy (demo_web3 demo_msg []) demo_node (signerConfig None None) [9] legacy = Inr Allowed"
    by (simp add: checkPolicy_def demo_web3_def demo_node_def check_simulation_def and_then_def)
  have s: "signTransaction (demo_web3 demo_msg []) demo_signing () [9] legacy = Inr [4]"
    by (simp add: signTransaction_def demo_web3_def demo_signing_def)
  have "\<forall>b \<in> set [9::nat]. is_byte b" "[9::nat] \<noteq> []" by (simp_all add: is_byte_def)
  from remote_sign_exact [OF this, of "demo_web3 demo_msg []" demo_signing "()" legacy] s p
  show ?thesis by (simp add: is_byte_def)
qed

text \<open>
  In signer mode the private key never enters the bot. Whatever the bot signs and however often it
  asks for its address, with a signer socket configured the wallet state holds no key pair, and
  asking for one fails.
\<close>

theorem signer_mode_keyless:
  assumes "useRemoteSigner cfg" and "w_keypair st = None"
  shows "(\<exists>e. fst (getKeypair ks cfg st) = Inl e) \<and>
     w_keypair (snd (getKeypair ks cfg st)) = None \<and> w_keypair (snd (getUserAddress ks cfg st)) = None \<and>
     w_keypair (snd (signVersioned ks cfg ops rs t st)) = None \<and>
     w_keypair (snd (signLegacy ks cfg ops rs t st)) = None \<and>
     w_keypair (snd (signLegacyWithExtra ks cfg ops rs t extra st)) = None \<and>
     getUserAddress ks (cfg\<lparr>privateKey := other_key\<rparr>) st = getUserAddress ks cfg st"
  using assms
  by (simp add: getKeypair_def getUserAddress_def signVersioned_def signLegacy_def signLegacyWithExtra_def
      useRemoteSigner_def split: option.split sum.split)

theorem signer_mode_keyless_witness:
  "\<exists>e. fst (getKeypair \<lparr>keypair_from = (\<lambda>s. Inr s), public_of = (\<lambda>s. s), pubkey_from = (\<lambda>s. Inr s)\<rparr>
      \<lparr>signerSocketPath = ''/tmp/s'', privateKey = ''k'', walletPublicKey = ''p''\<rparr> new_wallet) = Inl e"
proof -
  have "useRemoteSigner \<lparr>signerSocketPath = ''/tmp/s'', privateKey = ''k'', walletPublicKey = ''p''\<rparr>"
    "w_keypair (new_wallet :: string wallet) = None"
    by (simp_all add: useRemoteSigner_def new_wallet_def)
  then show ?thesis by (rule signer_mode_keyless [THEN conjunct1])
qed

text \<open>
  The key file round trip. Where the library's AES-GCM decrypts what it encrypted and UTF-8 decoding
  inverts encoding, a key encrypted with a password is read back from the JSON fields with the same
  password, for any salt and nonce.
\<close>

theorem keyfile_roundtrip:
  assumes gcm: "\<And>k i p. \<forall>b \<in> set p. is_byte b \<Longrightarrow> gcm_setup nc k i (snd (gcm_encrypt nc k i p)) = Inr () \<and>
      gcm_decrypt nc k i (snd (gcm_encrypt nc k i p)) (fst (gcm_encrypt nc k i p)) = Inr p"
    and bytes: "\<And>k i p. \<forall>b \<in> set (fst (gcm_encrypt nc k i p)) \<union> set (snd (gcm_encrypt nc k i p)). is_byte b"
    and utf8: "utf8_decode nc (utf8_encode nc key) = key" "\<forall>b \<in> set (utf8_encode nc key). is_byte b"
    and rand: "\<forall>b \<in> set sl \<union> set nonce. is_byte b"
  shows "decryptKey nc (encryptKey nc sl nonce key password) password = Inr key"
proof -
  obtain c t where ct: "gcm_encrypt nc (scryptSync nc password sl) nonce (utf8_encode nc key) = (c, t)" by fastforce
  have "\<forall>b \<in> set c \<union> set t. is_byte b"
    using bytes [of "scryptSync nc password sl" nonce "utf8_encode nc key"] by (simp add: ct)
  then have h: "hex_decode (hex_encode c) = c" "hex_decode (hex_encode t) = t"
    "hex_decode (hex_encode sl) = sl" "hex_decode (hex_encode nonce) = nonce"
    using rand by (auto intro!: hex_roundtrip simp: is_byte_def)
  show ?thesis
    using gcm [OF utf8(2), of "scryptSync nc password sl" nonce]
    by (simp add: decryptKey_def encryptKey_def ct h utf8 Let_def)
qed

definition demo_crypto :: node_crypto where
  "demo_crypto = \<lparr>scryptSync = (\<lambda>_ _. []), gcm_encrypt = (\<lambda>_ _ p. (map (\<lambda>b. b mod 256) p, [])),
     gcm_setup = (\<lambda>_ _ _. Inr ()), gcm_decrypt = (\<lambda>_ _ _ d. Inr d), utf8_encode = map of_char, utf8_decode = map char_of\<rparr>"

theorem keyfile_roundtrip_witness:
  "decryptKey demo_crypto (encryptKey demo_crypto [7] [8] ''secret'' ''pw'') ''pw'' = Inr ''secret''"
proof (rule keyfile_roundtrip)
  fix k i p :: "byte list"
  assume "\<forall>b \<in> set p. is_byte b"
  then have "map (\<lambda>b. b mod 256) p = p" by (intro map_idI) (simp add: is_byte_def)
  then show "gcm_setup demo_crypto k i (snd (gcm_encrypt demo_crypto k i p)) = Inr () \<and>
      gcm_decrypt demo_crypto k i (snd (gcm_encrypt demo_crypto k i p)) (fst (gcm_encrypt demo_crypto k i p)) = Inr p"
    by (simp add: demo_crypto_def)
next
  show "utf8_decode demo_crypto (utf8_encode demo_crypto ''secret'') = ''secret''"
    by (simp only: demo_crypto_def node_crypto.simps map_map comp_def char_of_char map_ident)
qed (auto simp: demo_crypto_def is_byte_def)

end
