(* ===== verification/Byreal_Exec.thy ===== *)
theory Byreal_Exec
  imports Jupiter_Swap Dispatch Pump_Pending
begin

text \<open>
  The Byreal executor (\<^verbatim>\<open>src/executor/byreal-position.ts\<close>): its state, the steps its operations share, and the
  copy of an open. The state is the bot of \<open>Dispatch\<close>; what only executors use (the traffic, the pump approvals,
  caches, and the repository calls they push) is its field \<open>other\<close>. Operations run to their end: the operation
  queue starts the next one only then, and \<open>busy\<close> keeps the rest out.

  Notifications and log lines are left out. Work that is started and not awaited is recorded in \<open>late\<close>.
\<close>

section \<open>State and configuration\<close>

datatype late_task = RefreshSolBalance | ReadLockedSol string string | RefreshDexSol dex_id

text \<open>What the executors of the other DEXes keep beside their pause flags.\<close>

record dex_env =
  dx_busy :: bool
  dx_rent :: js_num
  dx_solPausedAt :: "millis option"
  dx_tvl :: "(string, js_num \<times> millis) jsmap" \<comment> \<open>pool TVL cache\<close>

record ('b, 'w) xenv =
  net :: "('b, 'w) net"
  position_calls :: "js_num position_call list"
  referer_calls :: "referer_call list"
  pumps :: pump_state
  pump_calls :: "pump_call list"
  rentPerPosition :: js_num
  solPausedAt :: "millis option"
  lpAssets :: "(string \<times> js_num) list option" \<comment> \<open>\<^verbatim>\<open>_lpAssetsCache\<close>: mint and \<^verbatim>\<open>liquidityUsd\<close>\<close>
  latestTotalUsd :: js_num
  late :: "late_task list"
  dexes :: "dex_id \<Rightarrow> dex_env"

type_synonym ('j, 'b, 'w) xbot = "('j, ('b, 'w) xenv) bot"
type_synonym ('j, 'b, 'w, 'a) xop = "(('j, 'b, 'w) xbot, 'a) op"

datatype pump_mode = pump_filter_off | pump_filter_full | pump_filter_discord

record exec_config =
  xc_swap :: swap_config
  skipSameTickRange :: bool
  pumpFilterMode :: pump_mode
  minPoolAgeDays :: js_num
  poolAgeWhitelist :: "string jsset"
  minPoolTvl :: js_num
  poolTvlWhitelist :: "string jsset"
  coinConcentrationOverrides :: "(string, js_num \<times> js_num) jsmap"
  maxCoinConcentrationUsd :: js_num
  maxCoinConcentrationPct :: js_num
  byrealMaxOpenPositions :: int

abbreviation dryRun :: "exec_config \<Rightarrow> bool" where
  "dryRun xc \<equiv> swc_dryRun (xc_swap xc)"

text \<open>What does not change while the bot runs: the package, the services, the two parts of the configuration.\<close>

record ('b, 'w) xcx =
  xbn :: "'b BN"
  xsv :: "('b, 'w) services"
  xdc :: dispatch_config
  xc :: exec_config

definition set_other :: "(('b, 'w) xenv \<Rightarrow> ('b, 'w) xenv) \<Rightarrow> ('j, 'b, 'w) xbot \<Rightarrow> ('j, 'b, 'w) xbot" where
  "set_other f s = s\<lparr>other := f (other s)\<rparr>"

definition on_net :: "('b, 'w, 'a) net_op \<Rightarrow> ('j, 'b, 'w, 'a) xop" where
  "on_net m = zoom (\<lambda>s. net (other s)) (\<lambda>f. set_other (\<lambda>x. x\<lparr>net := f (net x)\<rparr>)) m"

definition on_positions ::
  "(js_num position_memory \<Rightarrow> js_num position_memory \<times> js_num position_call list) \<Rightarrow> ('j, 'b, 'w) xbot \<Rightarrow> ('j, 'b, 'w) xbot" where
  "on_positions f s =
     (case f (positions s) of (m, ws) \<Rightarrow>
        set_other (\<lambda>x. x\<lparr>position_calls := position_calls x @ ws\<rparr>) (s\<lparr>positions := m\<rparr>))"

definition on_referers ::
  "(referer_memory \<Rightarrow> referer_memory \<times> referer_call list) \<Rightarrow> ('j, 'b, 'w) xbot \<Rightarrow> ('j, 'b, 'w) xbot" where
  "on_referers f s =
     (case f (referers s) of (m, ws) \<Rightarrow>
        set_other (\<lambda>x. x\<lparr>referer_calls := referer_calls x @ ws\<rparr>) (s\<lparr>referers := m\<rparr>))"

definition on_pumps :: "(pump_state \<Rightarrow> pump_state \<times> pump_call list) \<Rightarrow> ('j, 'b, 'w) xbot \<Rightarrow> ('j, 'b, 'w) xbot" where
  "on_pumps f = set_other (\<lambda>x. case f (pumps x) of (p, ws) \<Rightarrow> x\<lparr>pumps := p, pump_calls := pump_calls x @ ws\<rparr>)"

definition later :: "late_task \<Rightarrow> ('j, 'b, 'w) xbot \<Rightarrow> ('j, 'b, 'w) xbot" where
  "later t = set_other (\<lambda>x. x\<lparr>late := late x @ [t]\<rparr>)"

definition now_op :: "('b, 'w) xcx \<Rightarrow> ('j, 'b, 'w, millis) xop" where
  "now_op cx = on_net (consult (sv_now (xsv cx)))"

text \<open>\<^verbatim>\<open>if (!this.acquire(...)) return null; try { m } ... finally { this.release() }\<close>\<close>

definition with_lock :: "('j, 'b, 'w, 'a option) xop \<Rightarrow> ('j, 'b, 'w, 'a option) xop" where
  "with_lock m s =
     (case acquire (pendings s) of
        (False, p) \<Rightarrow> (Inr None, s\<lparr>pendings := p\<rparr>)
      | (True, p) \<Rightarrow> finally_op m (\<lambda>t. t\<lparr>pendings := release (pendings t)\<rparr>) (s\<lparr>pendings := p\<rparr>))"

section \<open>Shared steps\<close>

text \<open>\<^verbatim>\<open>retryGetPosition\<close>, the loop with \<open>n\<close> attempts left\<close>

fun get_position_loop :: "('b, 'w) services \<Rightarrow> nat \<Rightarrow> string \<Rightarrow> ('b, 'w, 'b position_info option) net_op" where
  "get_position_loop sv 0 nft = ret None"
| "get_position_loop sv (Suc n) nft =
     bind_op (try_op (request (sv_getPosition sv nft))) (\<lambda>r.
       case r of Inr (Some info) \<Rightarrow> ret (Some info) | _ \<Rightarrow> get_position_loop sv n nft)"

definition retryGetPosition :: "('b, 'w) services \<Rightarrow> string \<Rightarrow> ('b, 'w, 'b position_info option) net_op" where
  "retryGetPosition sv nft = get_position_loop sv 3 nft"

definition token_balance :: "('b, 'w) xcx \<Rightarrow> pubkey \<Rightarrow> ('b, 'w, 'b) net_op" where
  "token_balance cx m =
     bind_op (consult (sv_balance_answers (xsv cx) m)) (\<lambda>(tb, nb).
       of_result (Byreal_Pending.getTokenBalance (xbn cx) tb nb m))"

text \<open>One transaction of the SDK: built, signed and sent, up to three times on transient errors.\<close>

definition send_tx :: "('b, 'w) services \<Rightarrow> 'b chain_tx \<Rightarrow> ('b, 'w, string) net_op" where
  "send_tx sv t = retryOnTransient (submit t (sv_send sv t))"

definition STABLE_MINTS :: "string list" where
  "STABLE_MINTS = [USDC_MINT, USDT_MINT, USDT_T22]"

definition pool_label :: "'b pool_info \<Rightarrow> string" where
  "pool_label p = pi_mintA p @ ''/'' @ pi_mintB p"

definition bn_lt :: "'b BN \<Rightarrow> 'b \<Rightarrow> 'b \<Rightarrow> bool" where
  "bn_lt bn a b = bn_gt bn b a"

definition bn_min :: "'b BN \<Rightarrow> 'b \<Rightarrow> 'b \<Rightarrow> 'b" where
  "bn_min bn a b = (if bn_lt bn a b then a else b)"

definition bn_lit :: "'b BN \<Rightarrow> nat \<Rightarrow> ('s, 'b) op" where
  "bn_lit bn n = of_result (bn_of_num bn (Num (of_nat n)))"

section \<open>Filters before an open or an increase\<close>

definition pump_mint :: "'b pool_info \<Rightarrow> string option" where
  "pump_mint p =
     (if str_includes (toLowerCase (pi_mintA p)) ''pump'' then Some (pi_mintA p)
      else if str_includes (toLowerCase (pi_mintB p)) ''pump'' then Some (pi_mintB p) else None)"

text \<open>The answer of a filter: the reason to skip, if there is one.\<close>

definition tick_filter ::
  "('b, 'w) xcx \<Rightarrow> string \<Rightarrow> 'b position_info \<Rightarrow> ('j, 'b, 'w, string option) xop" where
  "tick_filter cx wallet info =
     look (\<lambda>s. if skipSameTickRange (xc cx) \<and> wallet \<noteq> [] \<and>
                  PM_hasDuplicateTickRange wallet (pool_label (pos_pool info)) (pos_tickLower info) (pos_tickUpper info) (positions s)
               then Some (utf8 [233, 135, 141, 232, 164, 135, 32, 116, 105, 99, 107, 32, 231, 175, 132, 229, 156, 141]) else None)"

definition pump_entry :: "string \<Rightarrow> string \<Rightarrow> string \<Rightarrow> string \<Rightarrow> millis \<Rightarrow> PumpPendingEntry" where
  "pump_entry m symbol label wallet now =
     \<lparr>pp_mint = m, pp_symbol = symbol, pp_pool = label, pp_targetWallet = wallet, pp_detectedAt = now,
      pp_status = pump_pending, pp_notifiedAt = None, pp_resolvedAt = None\<rparr>"

text \<open>How a token's symbol is found and what a pool is called differ between the executors.\<close>

definition pump_filter_by ::
  "(string \<Rightarrow> ('j, 'b, 'w, string) xop) \<Rightarrow> string \<Rightarrow> ('b, 'w) xcx \<Rightarrow> string \<Rightarrow> 'b pool_info \<Rightarrow> ('j, 'b, 'w, string option) xop" where
  "pump_filter_by symbol_of label cx wallet p =
     (case (pumpFilterMode (xc cx), pump_mint p) of
        (pump_filter_off, _) \<Rightarrow> ret None
      | (_, None) \<Rightarrow> ret None
      | (mode, Some m) \<Rightarrow>
          bind_op (look (\<lambda>s. pumps (other s))) (\<lambda>ps.
            if isPumpApproved m ps then ret None
            else if mode = pump_filter_full
              then ret (Some (''Pump '' @ utf8 [228, 187, 163, 229, 185, 163, 233, 129, 142, 230, 191, 190]))
            else if isPumpRejected m ps
              then ret (Some (''Pump '' @ utf8 [228, 187, 163, 229, 185, 163, 229, 183, 178, 230, 139, 146, 231, 181, 149]))
            else bind_op (now_op cx) (\<lambda>now.
                 bind_op (if isPumpPending now m ps then ret ()
                          else bind_op (symbol_of m) (\<lambda>symbol.
                               bind_op (now_op cx) (\<lambda>detected.
                                 change (on_pumps (addPumpPending (pump_entry m symbol label wallet detected))))))
                   (\<lambda>_. ret (Some (''Pump '' @ utf8 [228, 187, 163, 229, 185, 163, 231, 173, 137, 229, 190, 133, 231, 162, 186, 232, 170, 141]))))))"

definition pump_filter ::
  "('b, 'w) xcx \<Rightarrow> string \<Rightarrow> 'b pool_info \<Rightarrow> ('j, 'b, 'w, string option) xop" where
  "pump_filter cx wallet p = pump_filter_by (\<lambda>m. on_net (consult (sv_tokenSymbol (xsv cx) m))) (pool_label p) cx wallet p"

definition too_young :: "js_num \<Rightarrow> millis \<Rightarrow> int \<Rightarrow> bool" where
  "too_young days now openTime \<longleftrightarrow> num_lt (Num (of_int (now div 1000 - openTime))) (num_mul days (Num 86400))"

definition age_text :: "js_num \<Rightarrow> millis \<Rightarrow> int \<Rightarrow> string result" where
  "age_text days now openTime =
     bind_result (toFixed (num_div (Num (of_int (now div 1000 - openTime))) 86400) 1) (\<lambda>ageDays.
       Inr (utf8 [230, 177, 160, 229, 173, 144, 229, 164, 170, 230, 150, 176, 32, 40] @ ageDays @ ''d < '' @ num_toString days @ ''d)''))"

definition age_filter :: "('b, 'w) xcx \<Rightarrow> 'b pool_info \<Rightarrow> ('j, 'b, 'w, string option) xop" where
  "age_filter cx p =
     (let days = minPoolAgeDays (xc cx)
      in if num_lt (Num 0) days \<and> \<not> isPoolAgeWhitelisted (pi_mintA p) (pi_mintB p) (poolAgeWhitelist (xc cx)) then
           bind_op (on_net (consult (sv_poolOpenTime (xsv cx) (pi_mintA p)))) (\<lambda>entry.
             case entry of
               None \<Rightarrow> ret None
             | Some openTime \<Rightarrow>
                 if openTime \<le> 0 then ret None
                 else bind_op (now_op cx) (\<lambda>now.
                        if too_young days now openTime
                        then bind_op (of_result (age_text days now openTime)) (\<lambda>t. ret (Some t)) else ret None))
         else ret None)"

definition tvl_text :: "string \<Rightarrow> js_num option \<Rightarrow> js_num \<Rightarrow> string result" where
  "tvl_text label tvl least =
     bind_result (case tvl of None \<Rightarrow> Inr ''?'' | Some v \<Rightarrow> toFixed v 0) (\<lambda>shown.
       Inr (utf8 [84, 86, 76, 32, 228, 184, 141, 232, 182, 179, 32, 40] @ label @ '' $'' @ shown @ '' < $'' @ num_toString least @ '')''))"

fun tvl_filter :: "('b, 'w) xcx \<Rightarrow> (string \<times> string) list \<Rightarrow> ('j, 'b, 'w, string option) xop" where
  "tvl_filter cx [] = ret None"
| "tvl_filter cx ((m, label) # rest) =
     (if m \<in> set (poolTvlWhitelist (xc cx)) \<or> m \<in> set STABLE_MINTS then tvl_filter cx rest
      else bind_op (on_net (request (sv_tokenLiquidity (xsv cx) m))) (\<lambda>tvl.
        if (case tvl of None \<Rightarrow> True | Some v \<Rightarrow> num_lt v (minPoolTvl (xc cx)))
        then bind_op (of_result (tvl_text label tvl (minPoolTvl (xc cx)))) (\<lambda>t. ret (Some t))
        else tvl_filter cx rest))"

definition tvl_check :: "('b, 'w) xcx \<Rightarrow> 'b pool_info \<Rightarrow> ('j, 'b, 'w, string option) xop" where
  "tvl_check cx p =
     (if num_lt (Num 0) (minPoolTvl (xc cx)) then tvl_filter cx [(pi_mintA p, ''mintA''), (pi_mintB p, ''mintB'')] else ret None)"

section \<open>Concentration\<close>

text \<open>The price of token A in token B, from the fixed-point square root, with the roundings of the code.\<close>

definition price_A_in_B :: "'b BN \<Rightarrow> 'b pool_info \<Rightarrow> js_num result" where
  "price_A_in_B bn p =
     bind_result (bn_of_string bn ''18446744073709551616'') (\<lambda>two64.
     bind_result (bn_of_num bn (Num 1000000)) (\<lambda>scale.
     bind_result (bn_toNumber bn (bn_div bn (bn_mul bn (sqrtPriceX64 p) scale) two64)) (\<lambda>sqrtScaled.
       let sqrtPrice = num_div sqrtScaled 1000000
       in Inr (num_quot (num_mul (num_mul sqrtPrice sqrtPrice) (to_num (10 ^ mintDecimalsA p))) (to_num (10 ^ mintDecimalsB p))))))"

definition is_stable :: "string \<Rightarrow> bool" where
  "is_stable m \<longleftrightarrow> m \<in> set STABLE_MINTS"

definition ui_amount :: "string option \<Rightarrow> js_num" where
  "ui_amount a = parseFloat (case a of Some s \<Rightarrow> if s = [] then ''0'' else s | None \<Rightarrow> ''0'')"

definition new_position_usd :: "'b BN \<Rightarrow> ratio_config \<Rightarrow> string \<Rightarrow> 'b position_info \<Rightarrow> js_num result" where
  "new_position_usd bn ratios wallet info =
     bind_result (price_A_in_B bn (pos_pool info)) (\<lambda>price.
       let ratio = getAmountRatio ratios (Some wallet);
           amtA = ui_amount (pos_uiAmountA info); amtB = ui_amount (pos_uiAmountB info);
           a = is_stable (pi_mintA (pos_pool info)); b = is_stable (pi_mintB (pos_pool info))
       in Inr (if \<not> a \<and> b then num_mul (num_add (num_mul amtA price) amtB) ratio
               else if a \<and> \<not> b then
                 (if num_lt (Num 0) price then num_mul (num_add amtA (num_quot amtB price)) ratio else Num 0)
               else Num 0))"

definition concentration_text :: "string \<Rightarrow> string \<Rightarrow> string \<Rightarrow> string" where
  "concentration_text tag body m =
     utf8 [233, 155, 134, 228, 184, 173, 229, 186, 166, 232, 182, 133, 233, 153, 144, 32, 91] @ tag @ ''] '' @ body @ '' ('' @ take 8 m @ '')''"

definition mint_to_check :: "'b pool_info \<Rightarrow> string option" where
  "mint_to_check p =
     (if \<not> is_stable (pi_mintA p) then Some (pi_mintA p)
      else if \<not> is_stable (pi_mintB p) then Some (pi_mintB p) else None)"

definition checkConcentrationLimit ::
  "'b BN \<Rightarrow> exec_config \<Rightarrow> string \<Rightarrow> 'b position_info \<Rightarrow> string \<Rightarrow> (string \<times> js_num) list option \<Rightarrow> js_num \<Rightarrow> string option result" where
  "checkConcentrationLimit bn c wallet info tag assets totalPortfolioUsd =
     (case mint_to_check (pos_pool info) of
        None \<Rightarrow> Inr None
      | Some m \<Rightarrow>
          let override = map_of (coinConcentrationOverrides c) m;
              limitUsd = (case override of Some (u, q) \<Rightarrow> u | None \<Rightarrow> maxCoinConcentrationUsd c);
              limitPct = (case override of Some (u, q) \<Rightarrow> q | None \<Rightarrow> maxCoinConcentrationPct c)
          in if num_le limitUsd (Num 0) \<and> num_le limitPct (Num 0) then Inr None
             else let existing = (case assets of Some items \<Rightarrow> (case map_of items m of Some u \<Rightarrow> u | None \<Rightarrow> Num 0) | None \<Rightarrow> Num 0)
               in bind_result (new_position_usd bn (swc_ratios (xc_swap c)) wallet info) (\<lambda>added.
                  let projected = num_add existing added
                  in if num_lt (Num 0) limitUsd \<and> num_lt limitUsd projected then
                       bind_result (toFixed projected 0) (\<lambda>t.
                         Inr (Some (concentration_text tag (''$'' @ t @ '' > $'' @ num_toString limitUsd) m)))
                     else if num_lt (Num 0) limitPct \<and> num_lt (Num 0) totalPortfolioUsd then
                       let pct = num_mul (num_quot projected totalPortfolioUsd) (Num 100)
                       in if num_lt limitPct pct then
                            bind_result (toFixed pct 1) (\<lambda>t.
                              Inr (Some (concentration_text tag (t @ ''% > '' @ num_toString limitPct @ ''%'') m)))
                          else Inr None
                     else Inr None))"

definition concentration_filter ::
  "('b, 'w) xcx \<Rightarrow> string \<Rightarrow> string \<Rightarrow> 'b position_info \<Rightarrow> ('j, 'b, 'w, string option) xop" where
  "concentration_filter cx wallet tag info =
     bind_op (look (\<lambda>s. (lpAssets (other s), latestTotalUsd (other s)))) (\<lambda>(assets, tot).
       of_result (checkConcentrationLimit (xbn cx) (xc cx) wallet info tag assets tot))"

text \<open>The first filter that has a reason ends the sequence.\<close>

fun first_reason :: "('j, 'b, 'w, string option) xop list \<Rightarrow> ('j, 'b, 'w, string option) xop" where
  "first_reason [] = ret None"
| "first_reason (f # fs) = bind_op f (\<lambda>r. case r of Some reason \<Rightarrow> ret (Some reason) | None \<Rightarrow> first_reason fs)"

end
