(* ===== verification/Byreal_Open.thy ===== *)
theory Byreal_Open
  imports Byreal_Exec
begin

text \<open>
  \<^verbatim>\<open>copyOpenPosition\<close> and \<^verbatim>\<open>copyIncreaseLiquidity\<close> of the Byreal executor: the guards and filters, raising the
  two tokens by swaps, the position transaction with its retries, and the bookkeeping.
\<close>

section \<open>Raising the tokens\<close>

text \<open>Swaps are tried in turn until one has a signature.\<close>

fun attempts :: "('b, 'w, string option) net_op list \<Rightarrow> ('b, 'w, string option) net_op" where
  "attempts [] = ret None"
| "attempts (m # ms) = bind_op m (\<lambda>r. if truthy r then ret r else attempts ms)"

definition swap_in :: "('b, 'w) xcx \<Rightarrow> string \<Rightarrow> string \<Rightarrow> 'b \<Rightarrow> ('b, 'w, string option) net_op" where
  "swap_in cx from into deficit = swapForToken (xc_swap (xc cx)) (xsv cx) from into (bn_toString (xbn cx) deficit)"

definition pool_swap_in :: "('b, 'w) xcx \<Rightarrow> 'b pool_info \<Rightarrow> string \<Rightarrow> 'b \<Rightarrow> ('b, 'w, string option) net_op" where
  "pool_swap_in cx p into deficit = swapViaByrealPool (xbn cx) (xc_swap (xc cx)) (xsv cx) p into (bn_toString (xbn cx) deficit)"

definition usdc_swap :: "('b, 'w) xcx \<Rightarrow> string \<Rightarrow> 'b \<Rightarrow> ('b, 'w, string option) net_op list" where
  "usdc_swap cx into deficit = (if into \<noteq> USDC_MINT then [swap_in cx USDC_MINT into deficit] else [])"

text \<open>Token A is raised from token B first, token B from USDC first.\<close>

definition ways_to_A :: "('b, 'w) xcx \<Rightarrow> 'b pool_info \<Rightarrow> 'b \<Rightarrow> 'b \<Rightarrow> ('b, 'w, string option) net_op list" where
  "ways_to_A cx p balB deficit =
     (if pi_mintA p = NATIVE_MINT then usdc_swap cx (pi_mintA p) deficit
      else (if bn_isZero (xbn cx) balB then []
            else [swap_in cx (pi_mintB p) (pi_mintA p) deficit, pool_swap_in cx p (pi_mintA p) deficit]) @
           usdc_swap cx (pi_mintA p) deficit)"

definition ways_to_B :: "('b, 'w) xcx \<Rightarrow> 'b pool_info \<Rightarrow> 'b \<Rightarrow> 'b \<Rightarrow> ('b, 'w, string option) net_op list" where
  "ways_to_B cx p balA deficit =
     (if pi_mintB p = NATIVE_MINT then usdc_swap cx (pi_mintB p) deficit
      else usdc_swap cx (pi_mintB p) deficit @
           (if bn_isZero (xbn cx) balA then []
            else [swap_in cx (pi_mintA p) (pi_mintB p) deficit, pool_swap_in cx p (pi_mintB p) deficit]))"

text \<open>
  One side: nothing to do when the balance suffices; \<open>None\<close> when no swap works; otherwise the balance grows by
  what the swap's transaction shows, or is read again.
\<close>

definition raise_side ::
  "('b, 'w) xcx \<Rightarrow> ('b \<Rightarrow> ('b, 'w, string option) net_op list) \<Rightarrow> string \<Rightarrow> 'b \<Rightarrow> 'b \<Rightarrow> ('b, 'w, 'b option) net_op" where
  "raise_side cx ways m balance wanted =
     (if bn_lt (xbn cx) balance wanted \<and> \<not> bn_isZero (xbn cx) wanted then
        bind_op (attempts (ways (bn_sub (xbn cx) wanted balance))) (\<lambda>sig.
          if \<not> truthy sig then ret None
          else bind_op (getActualSwapOutput (xsv cx) (the sig) m (swc_user (xc_swap (xc cx)))) (\<lambda>added.
            if truthy added
            then bind_op (of_result (bn_of_string (xbn cx) (the added))) (\<lambda>b. ret (Some (bn_add (xbn cx) balance b)))
            else bind_op (token_balance cx m) (\<lambda>b. ret (Some b))))
      else ret (Some balance))"

definition raise_tokens ::
  "('b, 'w) xcx \<Rightarrow> 'b pool_info \<Rightarrow> 'b \<Rightarrow> 'b \<Rightarrow> ('b, 'w, ('b \<times> 'b) option) net_op" where
  "raise_tokens cx p wantA wantB =
     bind_op (token_balance cx (pi_mintA p)) (\<lambda>balA0.
     bind_op (token_balance cx (pi_mintB p)) (\<lambda>balB0.
     bind_op (raise_side cx (ways_to_A cx p balB0) (pi_mintA p) balA0 wantA) (\<lambda>ra.
       case ra of
         None \<Rightarrow> ret None
       | Some balA \<Rightarrow>
           bind_op (raise_side cx (ways_to_B cx p balA) (pi_mintB p) balB0 wantB) (\<lambda>rb.
             case rb of
               None \<Rightarrow> ret None
             | Some balB \<Rightarrow>
                 if bn_isZero (xbn cx) balA \<and> bn_isZero (xbn cx) balB then ret None else ret (Some (balA, balB))))))"

text \<open>The amounts of the position transaction: never more than wanted, never more than there is.\<close>

definition deposit_of ::
  "'b BN \<Rightarrow> 'b \<Rightarrow> 'b \<Rightarrow> 'b \<times> 'b \<Rightarrow> (base_side \<times> 'b \<times> 'b) result" where
  "deposit_of bn wantA wantB bals =
     bind_result (bn_of_num bn (Num 0)) (\<lambda>zero.
       let (balA, balB) = bals
       in Inr (if bn_gt bn wantA zero then (BaseA, bn_min bn wantA balA, bn_min bn wantB balB)
               else (BaseB, bn_min bn wantB balB, bn_min bn wantA balA)))"

text \<open>
  The loop of position transactions: a retryable simulation error reads the balances again and tries once
  more; \<open>act\<close> is one attempt with given amounts.
\<close>

fun deposit_loop ::
  "('b, 'w) xcx \<Rightarrow> 'b pool_info \<Rightarrow> 'b \<Rightarrow> 'b \<Rightarrow> (base_side \<times> 'b \<times> 'b \<Rightarrow> ('b, 'w, 'a) net_op) \<Rightarrow> nat \<Rightarrow> 'b \<times> 'b \<Rightarrow>
   ('b, 'w, 'a) net_op" where
  "deposit_loop cx p wantA wantB act 0 bals = throw (Error ''unreachable'')"
| "deposit_loop cx p wantA wantB act (Suc n) bals =
     bind_op (of_result (deposit_of (xbn cx) wantA wantB bals)) (\<lambda>d.
       catch_op (act d) (\<lambda>e.
         if n > 0 \<and> isRetryableSimError e then
           bind_op (token_balance cx (pi_mintA p)) (\<lambda>balA.
           bind_op (token_balance cx (pi_mintB p)) (\<lambda>balB.
             deposit_loop cx p wantA wantB act n (balA, balB)))
         else throw e))"

section \<open>Opening\<close>

definition open_params_of :: "'b position_info \<Rightarrow> base_side \<times> 'b \<times> 'b \<Rightarrow> 'b open_params" where
  "open_params_of info d =
     \<lparr>op_pool = pos_pool info, op_tickLower = pos_tickLower info, op_tickUpper = pos_tickUpper info, op_base = fst d,
      op_baseAmount = fst (snd d), op_otherAmountMax = snd (snd d)\<rparr>"

definition memo_of :: "string option \<Rightarrow> string option" where
  "memo_of referer = (if truthy referer then Some (''referer_position='' @ the referer) else None)"

definition open_attempt ::
  "('b, 'w) xcx \<Rightarrow> 'b position_info \<Rightarrow> string option \<Rightarrow> base_side \<times> 'b \<times> 'b \<Rightarrow> ('b, 'w, string \<times> string option) net_op" where
  "open_attempt cx info referer d =
     bind_op (request (sv_createPosition (xsv cx) (open_params_of info d))) (\<lambda>nft.
     bind_op (send_tx (xsv cx) (OpenTx (open_params_of info d) (memo_of referer))) (\<lambda>sig. ret (sig, nft)))"

text \<open>The bookkeeping right after the transaction is sent.\<close>

definition save_open ::
  "('b, 'w) xcx \<Rightarrow> string \<Rightarrow> string \<Rightarrow> string option \<Rightarrow> string \<Rightarrow> 'b position_info \<Rightarrow> string option \<Rightarrow> ('j, 'b, 'w, unit) xop" where
  "save_open cx nft pid referer wallet info ours =
     bind_op (now_op cx) (\<lambda>now.
     bind_op (change (\<lambda>s.
         if truthy ours then
           set_exec BYREAL (\<lambda>x. x\<lparr>poolIdToMints := AList.update pid (pool_label (pos_pool info)) (poolIdToMints x)\<rparr>)
             (on_positions (PM_setTargetLiquidity nft (bn_toString (xbn cx) (pos_liquidity info)))
               (on_positions (PM_setLockedSol nft (rentPerPosition (other s)))
                 (on_positions (PM_set now nft (the ours) (Some (pool_label (pos_pool info))) (Some wallet)
                   (Some (pos_tickLower info)) (Some (pos_tickUpper info)) None) s)))
         else s)) (\<lambda>_.
     bind_op (now_op cx) (\<lambda>now'.
       change (\<lambda>s. if truthy referer
                   then on_referers (addOpenedReferer now' (the referer) nft (truthy_or ours '''') wallet) s else s))))"

definition set_skip_reason :: "string option \<Rightarrow> ('j, 'b, 'w) xbot \<Rightarrow> ('j, 'b, 'w) xbot" where
  "set_skip_reason r = set_exec BYREAL (\<lambda>x. x\<lparr>lastSkipReason := r\<rparr>)"

definition open_filters ::
  "('b, 'w) xcx \<Rightarrow> string \<Rightarrow> 'b position_info \<Rightarrow> ('j, 'b, 'w, string option) xop" where
  "open_filters cx wallet info =
     first_reason [tick_filter cx wallet info, pump_filter cx wallet (pos_pool info), age_filter cx (pos_pool info),
       tvl_check cx (pos_pool info), concentration_filter cx wallet ''OPEN'' info]"

text \<open>From the filters on, with the target's position at hand.\<close>

definition open_with ::
  "('b, 'w) xcx \<Rightarrow> string \<Rightarrow> string \<Rightarrow> string option \<Rightarrow> string \<Rightarrow> 'b position_info \<Rightarrow> ('j, 'b, 'w, string option) xop" where
  "open_with cx nft pid referer wallet info =
     bind_op (open_filters cx wallet info) (\<lambda>reason.
       case reason of
         Some r \<Rightarrow> bind_op (change (set_skip_reason (Some r))) (\<lambda>_. ret None)
       | None \<Rightarrow>
           let ratios = swc_ratios (xc_swap (xc cx))
           in bind_op (of_result (scaleAmount (xbn cx) ratios (pos_amountA info) (Some wallet))) (\<lambda>wantA.
              bind_op (of_result (scaleAmount (xbn cx) ratios (pos_amountB info) (Some wallet))) (\<lambda>wantB.
              bind_op (on_net (raise_tokens cx (pos_pool info) wantA wantB)) (\<lambda>bals.
                case bals of
                  None \<Rightarrow> ret None
                | Some b \<Rightarrow>
                    bind_op (on_net (deposit_loop cx (pos_pool info) wantA wantB (open_attempt cx info referer) 2 b)) (\<lambda>(sig, ours).
                    bind_op (save_open cx nft pid referer wallet info ours) (\<lambda>_.
                    bind_op (on_net (try_op (request (sv_confirm (xsv cx) sig)))) (\<lambda>_.
                    bind_op (change (later (ReadLockedSol sig nft))) (\<lambda>_. ret (Some sig)))))))))"

definition open_failed :: "('b, 'w) xcx \<Rightarrow> js_error \<Rightarrow> ('j, 'b, 'w, string option) xop" where
  "open_failed cx e =
     (if insufficient_lamports e then
        bind_op (now_op cx) (\<lambda>now.
        bind_op (change (\<lambda>s. set_other (\<lambda>x. x\<lparr>solPausedAt := Some now\<rparr>) (set_exec BYREAL (\<lambda>x. x\<lparr>solPaused := True\<rparr>) s))) (\<lambda>_.
          ret None))
      else ret None)"

definition byreal_copyOpen ::
  "('b, 'w) xcx \<Rightarrow> string \<Rightarrow> string \<Rightarrow> string option \<Rightarrow> string \<Rightarrow> ('j, 'b, 'w, string option) xop" where
  "byreal_copyOpen cx nft pid referer wallet s =
     (let cap = getByrealPositionCapStatus (PM_getByrealOpenCount (positions s)) (byrealMaxOpenPositions (xc cx))
      in if truthy (PM_get nft (positions s)) then (Inr None, s)
         else if truthy referer \<and> isRefererDuplicate (xdc cx) referer wallet s then (Inr None, s)
         else if cap_reached cap then (Inr None, set_skip_reason (cap_reason cap) s)
         else if dryRun (xc cx) then (Inr (Some ''dry-run-open-position''), s)
         else with_lock (finally_op
                (catch_op
                  (bind_op (on_net (retryGetPosition (xsv cx) nft)) (\<lambda>info.
                     case info of None \<Rightarrow> ret None | Some i \<Rightarrow> open_with cx nft pid referer wallet i))
                  (open_failed cx))
                (later RefreshSolBalance)) s)"

section \<open>Increasing\<close>

definition increase_filters ::
  "('b, 'w) xcx \<Rightarrow> string \<Rightarrow> 'b position_info \<Rightarrow> ('j, 'b, 'w, string option) xop" where
  "increase_filters cx wallet info =
     first_reason
       [look (\<lambda>s. if pumpFilterMode (xc cx) \<noteq> pump_filter_off \<and>
                    (case pump_mint (pos_pool info) of Some m \<Rightarrow> \<not> isPumpApproved m (pumps (other s)) | None \<Rightarrow> False)
                 then Some ''pump'' else None),
        age_filter cx (pos_pool info), tvl_check cx (pos_pool info), concentration_filter cx wallet ''INCREASE'' info]"

text \<open>What is missing from our position to the scaled target, never negative.\<close>

definition missing_amount :: "'b BN \<Rightarrow> 'b \<Rightarrow> 'b \<Rightarrow> 'b result" where
  "missing_amount bn full mine = (if bn_gt bn full mine then Inr (bn_sub bn full mine) else bn_of_num bn (Num 0))"

definition held_amount :: "('b, 'w) xcx \<Rightarrow> ('b position_info \<Rightarrow> 'b) \<Rightarrow> 'b position_info option \<Rightarrow> ('s, 'b) op" where
  "held_amount cx field mine = (case mine of Some i \<Rightarrow> ret (field i) | None \<Rightarrow> bn_lit (xbn cx) 0)"

definition increase_with ::
  "('b, 'w) xcx \<Rightarrow> string \<Rightarrow> string \<Rightarrow> string \<Rightarrow> 'b position_info \<Rightarrow> ('j, 'b, 'w, string option) xop" where
  "increase_with cx nft ours wallet info =
     bind_op (increase_filters cx wallet info) (\<lambda>reason.
       if reason \<noteq> None then ret None
       else let ratios = swc_ratios (xc_swap (xc cx)); bn = xbn cx
         in bind_op (of_result (scaleAmount bn ratios (pos_amountA info) (Some wallet))) (\<lambda>fullA.
            bind_op (of_result (scaleAmount bn ratios (pos_amountB info) (Some wallet))) (\<lambda>fullB.
            bind_op (on_net (retryGetPosition (xsv cx) ours)) (\<lambda>mine.
            bind_op (held_amount cx pos_amountA mine) (\<lambda>myA.
            bind_op (held_amount cx pos_amountB mine) (\<lambda>myB.
            bind_op (of_result (missing_amount bn fullA myA)) (\<lambda>wantA.
            bind_op (of_result (missing_amount bn fullB myB)) (\<lambda>wantB.
              if bn_isZero bn wantA \<and> bn_isZero bn wantB then ret None
              else bind_op (on_net (raise_tokens cx (pos_pool info) wantA wantB)) (\<lambda>bals.
                case bals of
                  None \<Rightarrow> ret None
                | Some b \<Rightarrow>
                    bind_op (on_net (deposit_loop cx (pos_pool info) wantA wantB
                      (\<lambda>(base, amt, other_max). send_tx (xsv cx) (AddLiquidityTx ours base amt other_max)) 2 b)) (\<lambda>sig.
                    bind_op (on_net (retryGetPosition (xsv cx) nft)) (\<lambda>updated.
                    bind_op (change (case updated of
                        Some i \<Rightarrow> on_positions (PM_setTargetLiquidity nft (bn_toString bn (pos_liquidity i)))
                      | None \<Rightarrow> (\<lambda>s. s))) (\<lambda>_. ret (Some sig)))))))))))))"

definition byreal_copyIncrease :: "('b, 'w) xcx \<Rightarrow> string \<Rightarrow> string \<Rightarrow> ('j, 'b, 'w, string option) xop" where
  "byreal_copyIncrease cx nft wallet s =
     (case PM_get nft (positions s) of
        None \<Rightarrow> (Inr None, s)
      | Some ours \<Rightarrow>
          if ours = [] then (Inr None, s)
          else if dryRun (xc cx) then (Inr (Some ''dry-run-increase''), s)
          else with_lock (catch_op
                 (bind_op (on_net (retryGetPosition (xsv cx) nft)) (\<lambda>info.
                    case info of None \<Rightarrow> ret None | Some i \<Rightarrow> increase_with cx nft ours wallet i))
                 (\<lambda>_. ret None)) s)"

end
