(* ===== verification/Byreal_Open_Safety.thy ===== *)
theory Byreal_Open_Safety
  imports Byreal_Open
begin

text \<open>
  What the copy of an open and of an increase may do: which transactions they hand over, and what they leave in
  the position map and the list of opened referers.
\<close>

section \<open>Frames\<close>

text \<open>A part of the state that neither the traffic nor the pump approvals touch.\<close>

definition off_net :: "(('j, 'b, 'w) xbot \<Rightarrow> 'p) \<Rightarrow> bool" where
  "off_net g \<longleftrightarrow> (\<forall>s n. g (set_other (\<lambda>x. x\<lparr>net := n\<rparr>) s) = g s) \<and> (\<forall>s f. g (on_pumps f s) = g s)"

lemma on_net_off: "off_net g \<Longrightarrow> always (same g) (on_net m)"
  unfolding on_net_def by (rule zoom_same_other) (simp add: off_net_def)

lemma now_off: "off_net g \<Longrightarrow> always (same g) (now_op cx)"
  by (simp add: now_op_def on_net_off)

lemma pumps_off: "off_net g \<Longrightarrow> always (same g) (change (on_pumps f))"
  by (rule same.changed) (simp add: off_net_def same_def)

lemmas off_rules = same.rules on_net_off now_off pumps_off

lemma first_reason_off: "(\<And>f. f \<in> set fs \<Longrightarrow> always (same g) f) \<Longrightarrow> always (same g) (first_reason fs)"
  by (induction fs) (auto intro!: same.rules split: option.splits)

lemma tvl_filter_off: "off_net g \<Longrightarrow> always (same g) (tvl_filter cx ms)"
  by (induction cx ms rule: tvl_filter.induct) (auto intro!: off_rules split: option.splits)

lemma filter_off:
  assumes "off_net g"
  shows "always (same g) (tick_filter cx w i)" "always (same g) (pump_filter cx w p)"
    "always (same g) (age_filter cx p)" "always (same g) (tvl_check cx p)"
    "always (same g) (concentration_filter cx w t i)"
proof -
  show "always (same g) (tvl_check cx p)"
    by (simp add: tvl_check_def same.simple tvl_filter_off assms del: tvl_filter.simps)
  show "always (same g) (tick_filter cx w i)" by (simp add: tick_filter_def same.simple)
  show "always (same g) (age_filter cx p)"
    using assms by (auto simp: age_filter_def Let_def intro!: off_rules split: option.splits)
  show "always (same g) (concentration_filter cx w t i)"
    using assms by (auto simp: concentration_filter_def intro!: off_rules split: prod.splits)
  show "always (same g) (pump_filter cx w p)"
    using assms by (auto simp: pump_filter_def pump_filter_by_def intro!: off_rules split: pump_mode.splits option.splits)
qed

lemma open_filters_off: "off_net g \<Longrightarrow> always (same g) (open_filters cx w i)"
  unfolding open_filters_def by (rule first_reason_off) (auto intro: filter_off)

lemma increase_filters_off: "off_net g \<Longrightarrow> always (same g) (increase_filters cx w i)"
  unfolding increase_filters_def by (rule first_reason_off) (auto intro: filter_off same.simple)

text \<open>The books of the executor: the position map and the opened referers, beside the rent they are written with.\<close>

definition books :: "('j, 'b, 'w) xbot \<Rightarrow> js_num position_memory \<times> referer_memory \<times> js_num" where
  "books s = (positions s, referers s, rentPerPosition (other s))"

lemma off_books [simp]: "off_net books" "off_net pendings" "off_net positions" "off_net referers"
  by (auto simp: off_net_def books_def set_other_def on_pumps_def split: prod.splits)

lemma books_simps [simp]:
  "books (set_skip_reason r s) = books s" "books (set_exec d f s) = books s" "books (later t s) = books s"
  "books (s\<lparr>pendings := p\<rparr>) = books s" "books (set_other (\<lambda>x. x\<lparr>solPausedAt := v\<rparr>) s) = books s"
  by (simp_all add: books_def set_skip_reason_def set_exec_def later_def set_other_def)

lemma pendings_simps [simp]:
  "pendings (set_skip_reason r s) = pendings s" "pendings (set_exec d f s) = pendings s" "pendings (later t s) = pendings s"
  "pendings (set_other h s) = pendings s" "pendings (on_positions f1 s) = pendings s" "pendings (on_referers f2 s) = pendings s"
  by (simp_all add: set_skip_reason_def set_exec_def later_def set_other_def on_positions_def on_referers_def split: prod.splits)

lemma change_same: "(\<And>s. g (f s) = g s) \<Longrightarrow> always (same g) (change f)"
  by (simp add: same.changed same_def)

section \<open>The books after an open\<close>

definition opened_entry ::
  "'b BN \<Rightarrow> millis \<Rightarrow> string \<Rightarrow> js_num \<Rightarrow> string \<Rightarrow> 'b position_info \<Rightarrow> js_num PositionEntry" where
  "opened_entry bn now ours rent wallet info =
     \<lparr>ourNft = ours, createdAt = now, pool = Some (pool_label (pos_pool info)), targetWallet = Some wallet,
      lockedSol = Some rent, tickLower = Some (pos_tickLower info), tickUpper = Some (pos_tickUpper info), dex = None,
      targetLiquidity = Some (bn_toString bn (pos_liquidity info))\<rparr>"

definition opened ::
  "'b BN \<Rightarrow> string \<Rightarrow> string option \<Rightarrow> string \<Rightarrow> 'b position_info \<Rightarrow> string option \<Rightarrow> ('j, 'b, 'w) xbot \<Rightarrow> ('j, 'b, 'w) xbot \<Rightarrow> bool" where
  "opened bn nft referer wallet info ours s s' \<longleftrightarrow>
     (\<exists>now now'.
        map_of (positions s') =
          (if truthy ours
           then (map_of (positions s))(nft \<mapsto> opened_entry bn now (the ours) (rentPerPosition (other s)) wallet info)
           else map_of (positions s)) \<and>
        map_of (referers s') =
          (if truthy referer
           then (map_of (referers s))(the referer \<mapsto>
                  \<lparr>or_targetNft = nft, or_ourNft = truthy_or ours '''', or_targetWallet = wallet, or_openedAt = now'\<rparr>)
           else map_of (referers s)))"

lemma now_opE:
  obtains n s1 where "now_op cx s = (Inr n, s1)" and "books s1 = books s"
proof -
  obtain n w where "sv_now (xsv cx) (world (net (other s))) = (n, w)" by fastforce
  then obtain s1 where n: "now_op cx s = (Inr n, s1)" by (simp add: now_op_def on_net_def zoom_def consult_def)
  moreover have "books s1 = books s" using alwaysD [OF now_off [OF off_books(1)] n] by (simp add: same_def)
  ultimately show thesis by (rule that)
qed

lemma save_open_opened:
  assumes "save_open cx nft pid referer wallet info ours s = (r, s')"
  shows "r = Inr ()" and "opened (xbn cx) nft referer wallet info ours s s'"
proof -
  obtain n s1 where n: "now_op cx s = (Inr n, s1)" "books s1 = books s" by (rule now_opE)
  define s2 where "s2 = (if truthy ours then
           set_exec BYREAL (\<lambda>x. x\<lparr>poolIdToMints := AList.update pid (pool_label (pos_pool info)) (poolIdToMints x)\<rparr>)
             (on_positions (PM_setTargetLiquidity nft (bn_toString (xbn cx) (pos_liquidity info)))
               (on_positions (PM_setLockedSol nft (rentPerPosition (other s1)))
                 (on_positions (PM_set n nft (the ours) (Some (pool_label (pos_pool info))) (Some wallet)
                   (Some (pos_tickLower info)) (Some (pos_tickUpper info)) None) s1)))
         else s1)"
  obtain n' s3 where n': "now_op cx s2 = (Inr n', s3)" "books s3 = books s2" by (rule now_opE)
  have s': "r = Inr ()" "s' = (if truthy referer
      then on_referers (addOpenedReferer n' (the referer) nft (truthy_or ours '''') wallet) s3 else s3)"
    using assms unfolding save_open_def
    by (simp_all add: bind_op_def n(1) op_simps n'(1) flip: s2_def)
  then show "r = Inr ()" by simp
  have "map_of (positions s2) = (if truthy ours
      then (map_of (positions s))(nft \<mapsto> opened_entry (xbn cx) n (the ours) (rentPerPosition (other s)) wallet info)
      else map_of (positions s))" and "referers s2 = referers s"
    using n(2) by (auto simp: s2_def books_def on_positions_def set_exec_def set_other_def PM_set_def PM_setLockedSol_def
        PM_setTargetLiquidity_def opened_entry_def fun_eq_iff)
  then show "opened (xbn cx) nft referer wallet info ours s s'"
    using s'(2) n'(2) by (auto simp: opened_def books_def on_referers_def addOpenedReferer_def set_other_def)
qed

lemma gives_catchE:
  assumes "gives (catch_op m h) a"
  obtains "gives m a" | e where "gives (h e) a"
proof -
  from assms obtain s s' where c: "catch_op m h s = (Inr a, s')" by (auto simp: gives_def)
  obtain r t where m: "m s = (r, t)" by fastforce
  show thesis
  proof (cases r)
    case (Inl e) with m c have "h e t = (Inr a, s')" by (simp add: catch_op_def)
    then show ?thesis by (blast intro: that(2) givesI)
  next
    case (Inr b) with m c have "m s = (Inr a, s')" by (simp add: catch_op_def)
    then show ?thesis by (blast intro: that(1) givesI)
  qed
qed

lemma deposit_loop_gives: "gives (deposit_loop cx p wA wB act n bals) x \<Longrightarrow> \<exists>d. gives (act d) x"
proof (induction n arbitrary: bals)
  case (Suc n)
  show ?case
    using Suc.prems unfolding deposit_loop.simps
    by (elim gives_bindE gives_catchE)
       (auto simp del: split_paired_Ex split: if_splits elim!: gives_bindE dest: Suc.IH)
qed simp

lemma submit_gives: "gives (submit t f) a \<Longrightarrow> \<exists>w w'. f w = (Inr a, w')"
proof -
  assume "gives (submit t f) a"
  then obtain s s' where g: "submit t f s = (Inr a, s')" by (auto simp: gives_def)
  obtain r w where "f (world s) = (r, w)" by fastforce
  with g show ?thesis by (auto simp: submit_def)
qed

lemma send_tx_gives: "gives (send_tx sv t) sig \<Longrightarrow> \<exists>w w'. sv_send sv t w = (Inr sig, w')"
  unfolding send_tx_def retryOnTransient_def by (drule retry_loop_gives) (rule submit_gives)

lemma on_net_gives:
  assumes "gives (on_net m :: ('j, 'b, 'w, 'a) xop) a"
  shows "gives m a"
proof -
  obtain s s' where g: "(on_net m :: ('j, 'b, 'w, 'a) xop) s = (Inr a, s')" using assms by (auto simp: gives_def)
  obtain r t where "m (net (other s)) = (r, t)" by fastforce
  with g show ?thesis by (auto simp: on_net_def zoom_def intro: givesI)
qed

text \<open>The signature an open returns is the node's answer to a transaction that opens the target's range.\<close>

definition sent_open :: "('b, 'w) xcx \<Rightarrow> 'b position_info \<Rightarrow> string option \<Rightarrow> string \<Rightarrow> bool" where
  "sent_open cx info referer sig \<longleftrightarrow>
     (\<exists>d w w'. sv_send (xsv cx) (OpenTx (open_params_of info d) (memo_of referer)) w = (Inr sig, w'))"

lemma open_attempt_gives: "gives (open_attempt cx info referer d) (sig, ours) \<Longrightarrow> sent_open cx info referer sig"
  unfolding open_attempt_def sent_open_def
  by (auto simp del: split_paired_Ex elim!: gives_bindE dest!: send_tx_gives) blast

definition open_contract ::
  "('b, 'w) xcx \<Rightarrow> string \<Rightarrow> string option \<Rightarrow> string \<Rightarrow> 'b position_info \<Rightarrow> ('j, 'b, 'w) xbot \<Rightarrow> string option result \<Rightarrow>
   ('j, 'b, 'w) xbot \<Rightarrow> bool" where
  "open_contract cx nft referer wallet info s r s' \<longleftrightarrow>
     (case r of
        Inr (Some sig) \<Rightarrow> sent_open cx info referer sig \<and> (\<exists>ours. opened (xbn cx) nft referer wallet info ours s s')
      | _ \<Rightarrow> books s' = books s)"

lemma opened_books: "books s = books t \<Longrightarrow> books u = books v \<Longrightarrow> opened bn nft rf w i o' s u = opened bn nft rf w i o' t v"
  by (simp add: opened_def books_def)

lemma contract_absorbs: "same books s t \<Longrightarrow> open_contract cx nft rf w i t r u \<Longrightarrow> open_contract cx nft rf w i s r u"
  by (auto simp: open_contract_def same_def split: sum.splits option.splits dest: opened_books [of s t u u for u, THEN iffD2, rotated 2])

lemma contract_fails: "same books s t \<Longrightarrow> open_contract cx nft rf w i s (Inl e) t"
  by (simp add: open_contract_def same_def)

lemma contract_none: "always (same books) m \<Longrightarrow> (\<And>a. gives m a \<Longrightarrow> a = None) \<Longrightarrow> meets m (open_contract cx nft rf w i)"
  by (rule meetsI) (auto simp: open_contract_def same_def dest: alwaysD givesI split: sum.splits option.splits)

lemma contract_bind:
  assumes "always (same books) m" and "\<And>a. gives m a \<Longrightarrow> meets (f a) (open_contract cx nft rf w i)"
  shows "meets (bind_op m f) (open_contract cx nft rf w i)"
  using assms by (rule same.meets_bind) (blast intro: contract_absorbs contract_fails)+

lemma open_tail_contract:
  assumes "sent_open cx info referer sig"
  shows "meets (bind_op (save_open cx nft pid referer wallet info ours) (\<lambda>_.
                bind_op (on_net (try_op (request (sv_confirm (xsv cx) sig)))) (\<lambda>_.
                bind_op (change (later (ReadLockedSol sig nft))) (\<lambda>_. ret (Some sig)))))
           (open_contract cx nft referer wallet info)"
proof (rule meetsI)
  fix s r s' assume run: "bind_op (save_open cx nft pid referer wallet info ours) (\<lambda>_.
                bind_op (on_net (try_op (request (sv_confirm (xsv cx) sig)))) (\<lambda>_.
                bind_op (change (later (ReadLockedSol sig nft))) (\<lambda>_. ret (Some sig)))) s = (r, s')"
  obtain r1 s1 where 1: "save_open cx nft pid referer wallet info ours s = (r1, s1)" by fastforce
  note saved = save_open_opened [OF 1]
  obtain r2 s2 where 2: "on_net (try_op (request (sv_confirm (xsv cx) sig))) s1 = (r2, s2)" by fastforce
  then obtain a where "r2 = Inr a" by (auto simp: on_net_def zoom_def try_op_def split: prod.splits)
  with run 1 2 saved(1) have "r = Inr (Some sig)" "s' = later (ReadLockedSol sig nft) s2"
    by (auto simp: bind_op_def op_simps)
  moreover have "books s2 = books s1" using alwaysD [OF on_net_off [OF off_books(1)] 2] by (simp add: same_def)
  ultimately show "open_contract cx nft referer wallet info s r s'"
    using saved(2) assms opened_books [of s s s' s1] by (auto simp: open_contract_def)
qed

lemma open_with_contract: "meets (open_with cx nft pid referer wallet info) (open_contract cx nft referer wallet info)"
proof -
  let ?Q = "open_contract cx nft referer wallet info"
  have skip: "meets (bind_op (change (set_skip_reason (Some r))) (\<lambda>_. ret None)) ?Q" for r
    by (rule contract_none) (auto intro!: same.rules change_same elim!: gives_bindE)
  have none: "meets (ret None) ?Q" by (rule contract_none) (auto intro: same.simple)
  have deposit: "meets (bind_op (on_net (deposit_loop cx (pos_pool info) wA wB (open_attempt cx info referer) 2 b)) (\<lambda>(sig, ours).
                    bind_op (save_open cx nft pid referer wallet info ours) (\<lambda>_.
                    bind_op (on_net (try_op (request (sv_confirm (xsv cx) sig)))) (\<lambda>_.
                    bind_op (change (later (ReadLockedSol sig nft))) (\<lambda>_. ret (Some sig)))))) ?Q" for wA wB b
    by (rule contract_bind [OF on_net_off [OF off_books(1)]])
       (auto dest!: on_net_gives deposit_loop_gives open_attempt_gives intro!: open_tail_contract)
  show ?thesis
    unfolding open_with_def Let_def
    by (intro contract_bind [OF open_filters_off [OF off_books(1)]])
       (auto intro!: contract_bind same.simple on_net_off off_books skip none deposit split: option.splits)
qed

lemma gives_try_request:
  assumes "gives (try_op (request f) :: ('b, 'w, 'a result) net_op) r"
  shows "\<exists>w w'. f w = (r, w')"
proof -
  obtain s s' where t: "(try_op (request f) :: ('b, 'w, 'a result) net_op) s = (Inr r, s')"
    using assms by (auto simp: gives_def)
  obtain q w where "f (world s) = (q, w)" by fastforce
  with t show ?thesis by (auto simp: try_op_def request_def)
qed

lemma get_position_gives: "gives (retryGetPosition sv nft) (Some info) \<Longrightarrow> \<exists>w w'. sv_getPosition sv nft w = (Inr (Some info), w')"
proof -
  have "gives (get_position_loop sv n nft) (Some info) \<Longrightarrow> \<exists>w w'. sv_getPosition sv nft w = (Inr (Some info), w')" for n
  proof (induction n)
    case (Suc n)
    from Suc.prems show ?case
    proof (simp only: get_position_loop.simps, elim gives_bindE)
      fix r :: "'a position_info option result"
      assume r: "gives (try_op (request (sv_getPosition sv nft))) r"
        and f: "gives (case r of Inr (Some i) \<Rightarrow> ret (Some i) | _ \<Rightarrow> get_position_loop sv n nft) (Some info)"
      from gives_try_request [OF r] f Suc.IH show ?thesis by (auto split: sum.splits option.splits)
    qed
  qed simp
  then show "gives (retryGetPosition sv nft) (Some info) \<Longrightarrow> ?thesis" by (simp add: retryGetPosition_def)
qed

lemma save_open_pendings: "always (same pendings) (save_open cx nft pid referer wallet info ours)"
  unfolding save_open_def by (auto intro!: off_rules change_same off_books)

lemma open_body_pendings:
  "always (same pendings) (catch_op (bind_op (on_net (retryGetPosition sv nft)) (\<lambda>i.
      case i of None \<Rightarrow> ret None | Some info \<Rightarrow> open_with cx nft pid referer wallet info)) (open_failed cx))"
  unfolding open_with_def open_failed_def Let_def
  by (auto intro!: off_rules change_same off_books open_filters_off save_open_pendings split: option.splits prod.splits)

lemma open_failed_books: "always (same books) (open_failed cx e)" "never_throws (open_failed cx e)" "gives (open_failed cx e) a \<Longrightarrow> a = None"
proof -
  have n: "never_throws (now_op cx)" unfolding never_throws_def by (metis fst_conv now_opE)
  show "always (same books) (open_failed cx e)"
    unfolding open_failed_def by (auto intro!: off_rules change_same off_books)
  show "never_throws (open_failed cx e)"
    unfolding open_failed_def by (auto intro!: never_throws_bind never_throws_simple n)
  show "gives (open_failed cx e) a \<Longrightarrow> a = None"
    unfolding open_failed_def by (auto split: if_splits elim!: gives_bindE)
qed

text \<open>The locked part of the copy, whatever the target's position looks like.\<close>

lemma open_body_outcome:
  fixes s s' :: "('j, 'b, 'w) xbot"
  assumes "catch_op (bind_op (on_net (retryGetPosition (xsv cx) nft)) (\<lambda>i.
      case i of None \<Rightarrow> ret None | Some info \<Rightarrow> open_with cx nft pid referer wallet info)) (open_failed cx) s = (r, s')"
  shows "(r = Inr None \<and> books s' = books s) \<or>
    (\<exists>sig info w w' ours. r = Inr (Some sig) \<and> sv_getPosition (xsv cx) nft w = (Inr (Some info), w') \<and>
       sent_open cx info referer sig \<and> opened (xbn cx) nft referer wallet info ours s s')"
proof -
  define body :: "('j, 'b, 'w, string option) xop" where "body = bind_op (on_net (retryGetPosition (xsv cx) nft)) (\<lambda>i.
      case i of None \<Rightarrow> ret None | Some info \<Rightarrow> open_with cx nft pid referer wallet info)"
  define Q where "Q s r s' \<longleftrightarrow> (case r of Inr (Some sig) \<Rightarrow> \<exists>info w w' ours.
      sv_getPosition (xsv cx) nft w = (Inr (Some info), w') \<and> sent_open cx info referer sig \<and>
      opened (xbn cx) nft referer wallet info ours s s' | _ \<Rightarrow> books s' = books s)"
    for s s' :: "('j, 'b, 'w) xbot" and r :: "string option result"
  have q: "meets body Q"
    unfolding body_def
  proof (rule same.meets_bind [OF on_net_off [OF off_books(1)]])
    fix i assume i: "gives (on_net (retryGetPosition (xsv cx) nft)) i"
    show "meets (case i of None \<Rightarrow> ret None | Some info \<Rightarrow> open_with cx nft pid referer wallet info) Q"
    proof (cases i)
      case (Some info)
      with i have "\<exists>w w'. sv_getPosition (xsv cx) nft w = (Inr (Some info), w')"
        by (auto dest!: on_net_gives get_position_gives)
      with Some open_with_contract [of cx nft pid referer wallet info] show ?thesis
        by (fastforce simp: meets_def open_contract_def Q_def split: sum.splits option.splits)
    qed (simp add: meets_def Q_def op_simps)
  next
    show "Q s r u" if "same books s t" "Q t r u" for s t u r
    proof -
      have "opened bn nft referer wallet i o' t u \<Longrightarrow> opened bn nft referer wallet i o' s u" for bn i o'
        using that(1) opened_books [of s t u u] by (simp add: same_def)
      with that show ?thesis unfolding Q_def same_def by (cases r) (auto split: option.splits, blast)
    qed
    show "Q s (Inl e) t" if "same books s t" for s e t using that by (simp add: Q_def same_def)
  qed
  obtain r1 t where b: "body s = (r1, t)" by fastforce
  have Qt: "Q s r1 t" using q b by (rule meetsD)
  show ?thesis
  proof (cases r1)
    case (Inl e)
    then have f: "open_failed cx e t = (r, s')" using assms b by (simp add: catch_op_def body_def)
    then obtain a where "r = Inr a" using never_throwsD [OF open_failed_books(2)] by blast
    moreover have "a = None" using f calculation by (auto intro: open_failed_books(3) givesI)
    moreover have "books s' = books s"
      using alwaysD [OF open_failed_books(1) f] Qt Inl by (simp add: same_def Q_def)
    ultimately show ?thesis by simp
  next
    case (Inr a)
    then have "r = Inr a" "s' = t" using assms b by (auto simp: catch_op_def body_def)
    with Inr Qt show ?thesis by (cases a) (auto simp: Q_def)
  qed
qed

section \<open>The transactions of an open\<close>

definition traffic :: "('j, 'b, 'w) xbot \<Rightarrow> 'b chain_tx list" where
  "traffic s = sent (net (other s))"

abbreviation sends :: "('b chain_tx \<Rightarrow> bool) \<Rightarrow> ('j, 'b, 'w, 'a) xop \<Rightarrow> bool" where
  "sends P m \<equiv> always (logs_only traffic P) m"

lemma on_net_sends: "submits P m \<Longrightarrow> sends P (on_net m)"
  unfolding always_def logs_only_def on_net_def zoom_def traffic_def
  by (simp add: set_other_def split: prod.splits) (metis snd_conv)

lemma traffic_simps [simp]:
  "traffic (set_skip_reason r s) = traffic s" "traffic (set_exec d f s) = traffic s" "traffic (later t s) = traffic s"
  "traffic (on_positions f1 s) = traffic s" "traffic (on_referers f2 s) = traffic s" "traffic (on_pumps f3 s) = traffic s"
  "traffic (set_other (\<lambda>x. x\<lparr>solPausedAt := v\<rparr>) s) = traffic s" "traffic (s\<lparr>pendings := p\<rparr>) = traffic s"
  by (simp_all add: traffic_def set_skip_reason_def set_exec_def later_def set_other_def on_positions_def on_referers_def
      on_pumps_def split: prod.splits)

lemma change_sends: "(\<And>s. traffic (f s) = traffic s) \<Longrightarrow> sends P (change f)"
  by (rule logs.changed) (simp add: logs_only_def)

lemma now_sends: "sends P (now_op cx)"
  by (simp add: now_op_def on_net_sends submits_simple)

lemmas sends_rules = logs.rules now_sends change_sends

lemma first_reason_sends: "(\<And>f. f \<in> set fs \<Longrightarrow> sends P f) \<Longrightarrow> sends P (first_reason fs)"
  by (induction fs) (auto intro!: logs.rules split: option.splits)

lemma net_request_sends: "sends P (on_net (request f))" "sends P (on_net (consult h))"
  by (simp_all add: on_net_sends submits_simple)

lemma tvl_filter_sends: "sends P (tvl_filter cx ms)"
  by (induction cx ms rule: tvl_filter.induct) (auto intro!: sends_rules net_request_sends split: option.splits)

lemma filter_sends:
  "sends P (tick_filter cx w i)" "sends P (pump_filter cx w p)" "sends P (age_filter cx p)" "sends P (tvl_check cx p)"
  "sends P (concentration_filter cx w t i)"
  by (auto simp: tvl_check_def tick_filter_def age_filter_def concentration_filter_def pump_filter_def pump_filter_by_def Let_def
      simp del: tvl_filter.simps
      intro!: sends_rules net_request_sends tvl_filter_sends split: prod.splits option.splits pump_mode.splits)

lemma filters_send: "sends P (open_filters cx w i)" "sends P (increase_filters cx w i)"
proof -
  show "sends P (open_filters cx w i)"
    unfolding open_filters_def by (rule first_reason_sends) (auto intro: filter_sends)
  show "sends P (increase_filters cx w i)"
    unfolding increase_filters_def by (rule first_reason_sends) (auto intro: filter_sends logs.simple)
qed

lemma balance_submits: "submits P (token_balance cx m)"
  unfolding token_balance_def by (auto intro!: submits_rules)

lemma get_position_submits: "submits P (retryGetPosition sv nft)"
proof -
  have "submits P (get_position_loop sv n nft)" for n
    by (induction n) (auto intro!: submits_rules split: sum.splits option.splits)
  then show ?thesis by (simp add: retryGetPosition_def)
qed

text \<open>Raising the tokens submits swaps only.\<close>

fun swap_for :: "'b pool_info \<Rightarrow> 'b chain_tx \<Rightarrow> bool" where
  "swap_for p (SwapTx m) = True"
| "swap_for p (PoolSwapTx p' q) = (p' = p)"
| "swap_for p _ = False"

lemma attempts_submits: "(\<And>m. m \<in> set ms \<Longrightarrow> submits P m) \<Longrightarrow> submits P (attempts ms)"
  by (induction ms) (auto intro!: submits_rules)

lemma ways_submit:
  assumes "\<And>t. swap_for p t \<Longrightarrow> P t"
  shows "m \<in> set (ways_to_A cx p b d) \<Longrightarrow> submits P m" "m \<in> set (ways_to_B cx p b d) \<Longrightarrow> submits P m"
  using assms
  by (auto simp: ways_to_A_def ways_to_B_def usdc_swap_def swap_in_def pool_swap_in_def
      intro!: swapForToken_submits poolSwap_submits split: if_splits)

lemma raise_side_submits:
  assumes "\<And>d x. x \<in> set (ways d) \<Longrightarrow> submits P x"
  shows "submits P (raise_side cx ways m bal want)"
proof -
  have "submits P (attempts (ways d))" for d by (rule attempts_submits) (rule assms)
  then show ?thesis
    unfolding raise_side_def by (auto intro!: submits_rules output_submits balance_submits)
qed

lemma raise_tokens_submits:
  assumes "\<And>t. swap_for p t \<Longrightarrow> P t"
  shows "submits P (raise_tokens cx p wA wB)"
proof -
  have A: "submits P (raise_side cx (ways_to_A cx p b) m bal want)" for b m bal want
    by (rule raise_side_submits) (rule ways_submit(1) [OF assms])
  have B: "submits P (raise_side cx (ways_to_B cx p b) m bal want)" for b m bal want
    by (rule raise_side_submits) (rule ways_submit(2) [OF assms])
  show ?thesis
    unfolding raise_tokens_def
    by (auto intro!: submits_rules balance_submits A B split: option.splits)
qed

lemma send_tx_submits: "P t \<Longrightarrow> submits P (send_tx sv t)"
  unfolding send_tx_def by (intro logs.retried submits_simple)

lemma deposit_loop_submits:
  assumes "\<And>bals d. deposit_of (xbn cx) wA wB bals = Inr d \<Longrightarrow> submits P (act d)"
  shows "submits P (deposit_loop cx p wA wB act n bals)"
proof (induction n arbitrary: bals)
  case (Suc n)
  show ?case
    unfolding deposit_loop.simps
    by (intro logs.bind logs.simple logs.catched) (auto intro!: assms submits_rules balance_submits Suc.IH)
qed (simp add: logs.simple)

text \<open>Deposits within two bounds.\<close>

definition bounded_by :: "('b \<Rightarrow> int) \<Rightarrow> 'b \<Rightarrow> 'b \<Rightarrow> base_side \<Rightarrow> 'b \<Rightarrow> 'b \<Rightarrow> bool" where
  "bounded_by val wA wB base amt other_max \<longleftrightarrow>
     (case base of BaseA \<Rightarrow> val amt \<le> val wA \<and> val other_max \<le> val wB
                 | BaseB \<Rightarrow> val amt \<le> val wB \<and> val other_max \<le> val wA)"

lemma deposit_bounded:
  assumes "bn_spec bn val" and "deposit_of bn wA wB bals = Inr (base, amt, other_max)"
  shows "bounded_by val wA wB base amt other_max"
proof -
  have le: "val (bn_min bn a b) \<le> val a" for a b
    using bn_spec_gt [OF assms(1)] by (simp add: bn_min_def bn_lt_def)
  obtain balA balB where b: "bals = (balA, balB)" by fastforce
  obtain z where "bn_of_num bn (Num 0) = Inr z" using assms(2) by (auto simp: deposit_of_def bind_result_eq_Inr_iff)
  then show ?thesis using assms(2) le by (auto simp: deposit_of_def b bounded_by_def split: if_splits)
qed

definition faithful_open ::
  "('b, 'w) xcx \<Rightarrow> ('b \<Rightarrow> int) \<Rightarrow> string option \<Rightarrow> string \<Rightarrow> 'b position_info \<Rightarrow> 'b chain_tx \<Rightarrow> bool" where
  "faithful_open cx val referer wallet info t \<longleftrightarrow>
     swap_for (pos_pool info) t \<or>
     (\<exists>prm wA wB. t = OpenTx prm (memo_of referer) \<and> op_pool prm = pos_pool info \<and>
        op_tickLower prm = pos_tickLower info \<and> op_tickUpper prm = pos_tickUpper info \<and>
        scaleAmount (xbn cx) (swc_ratios (xc_swap (xc cx))) (pos_amountA info) (Some wallet) = Inr wA \<and>
        scaleAmount (xbn cx) (swc_ratios (xc_swap (xc cx))) (pos_amountB info) (Some wallet) = Inr wB \<and>
        bounded_by val wA wB (op_base prm) (op_baseAmount prm) (op_otherAmountMax prm))"

lemma open_attempt_sends:
  assumes "bn_spec (xbn cx) val" and "deposit_of (xbn cx) wA wB bals = Inr d"
    and "scaleAmount (xbn cx) (swc_ratios (xc_swap (xc cx))) (pos_amountA info) (Some wallet) = Inr wA"
    and "scaleAmount (xbn cx) (swc_ratios (xc_swap (xc cx))) (pos_amountB info) (Some wallet) = Inr wB"
  shows "submits (faithful_open cx val referer wallet info) (open_attempt cx info referer d)"
proof -
  have "bounded_by val wA wB (fst d) (fst (snd d)) (snd (snd d))"
    using assms(2) by (intro deposit_bounded [OF assms(1), of _ _ bals]) simp
  with assms(3,4) have "faithful_open cx val referer wallet info (OpenTx (open_params_of info d) (memo_of referer))"
    by (auto simp: faithful_open_def open_params_of_def)
  then show ?thesis unfolding open_attempt_def by (auto intro!: submits_rules send_tx_submits)
qed

lemma open_with_sends:
  assumes bn: "bn_spec (xbn cx) val"
  shows "sends (faithful_open cx val referer wallet info) (open_with cx nft pid referer wallet info)"
proof -
  let ?P = "faithful_open cx val referer wallet info"
  have r: "sends ?P (on_net (raise_tokens cx (pos_pool info) wA wB))" for wA wB
    by (intro on_net_sends raise_tokens_submits) (simp add: faithful_open_def)
  have s: "sends ?P (save_open cx nft pid referer wallet info ours)" for ours
    unfolding save_open_def by (auto intro!: sends_rules)
  have c: "sends ?P (on_net (try_op (request (sv_confirm (xsv cx) sig))))" for sig
    by (intro on_net_sends logs.tried submits_simple)
  have t: "sends ?P (bind_op (save_open cx nft pid referer wallet info ours) (\<lambda>_.
      bind_op (on_net (try_op (request (sv_confirm (xsv cx) sig)))) (\<lambda>_.
      bind_op (change (later (ReadLockedSol sig nft))) (\<lambda>_. ret (Some sig)))))" for sig ours
    by (intro logs.bind s c change_sends logs.simple) simp
  have d: "sends ?P (on_net (deposit_loop cx (pos_pool info) wA wB (open_attempt cx info referer) 2 b))"
    if "scaleAmount (xbn cx) (swc_ratios (xc_swap (xc cx))) (pos_amountA info) (Some wallet) = Inr wA"
      "scaleAmount (xbn cx) (swc_ratios (xc_swap (xc cx))) (pos_amountB info) (Some wallet) = Inr wB" for wA wB b
    by (intro on_net_sends deposit_loop_submits open_attempt_sends [OF bn _ that])
  show ?thesis
    unfolding open_with_def Let_def
    by (intro logs.bind filters_send)
       (auto intro!: logs.bind logs.simple r t d change_sends split: option.splits prod.splits)
qed

lemma open_failed_sends: "sends P (open_failed cx e)"
  unfolding open_failed_def by (auto intro!: sends_rules)

section \<open>Properties\<close>

lemma with_lock_run:
  assumes "with_lock m s = (r, s')"
  obtains (held) "busy (pendings s)" "r = Inr None" "s' = s"
  | (ran) t where "\<not> busy (pendings s)" "m (s\<lparr>pendings := (pendings s)\<lparr>busy := True\<rparr>\<rparr>) = (r, t)"
      "s' = t\<lparr>pendings := release (pendings t)\<rparr>"
proof (cases "busy (pendings s)")
  case True
  then have "with_lock m s = (Inr None, s)" by (simp add: with_lock_def acquire_def)
  with assms have "r = Inr None" "s' = s" by simp_all
  with True show thesis by (rule held)
next
  case False
  let ?s = "s\<lparr>pendings := (pendings s)\<lparr>busy := True\<rparr>\<rparr>"
  obtain r1 t where m: "m ?s = (r1, t)" by fastforce
  from False m have "with_lock m s = (r1, t\<lparr>pendings := release (pendings t)\<rparr>)"
    by (simp add: with_lock_def acquire_def finally_op_def)
  with assms have "r1 = r" "s' = t\<lparr>pendings := release (pendings t)\<rparr>" by simp_all
  with m False show thesis by (intro ran) simp_all
qed

text \<open>The ways \<^verbatim>\<open>copyOpenPosition\<close> can go.\<close>

lemma copyOpen_cases:
  assumes "byreal_copyOpen cx nft pid referer wallet s = (r, s')"
  obtains (refused) "r = Inr None" "books s' = books s" "traffic s' = traffic s" "pendings s' = pendings s"
  | (dry) "dryRun (xc cx)" "r = Inr (Some ''dry-run-open-position'')" "s' = s"
  | (ran) t where "\<not> dryRun (xc cx)" "\<not> truthy (PM_get nft (positions s))"
      "\<not> cap_reached (getByrealPositionCapStatus (PM_getByrealOpenCount (positions s)) (byrealMaxOpenPositions (xc cx)))"
      "\<not> busy (pendings s)"
      "catch_op (bind_op (on_net (retryGetPosition (xsv cx) nft)) (\<lambda>i.
         case i of None \<Rightarrow> ret None | Some info \<Rightarrow> open_with cx nft pid referer wallet info)) (open_failed cx)
         (s\<lparr>pendings := (pendings s)\<lparr>busy := True\<rparr>\<rparr>) = (r, t)"
      "s' = (later RefreshSolBalance t)\<lparr>pendings := release (pendings t)\<rparr>"
proof -
  consider "s' = s" "r = Inr None"
    | "s' = set_skip_reason (cap_reason (getByrealPositionCapStatus (PM_getByrealOpenCount (positions s)) (byrealMaxOpenPositions (xc cx)))) s" "r = Inr None"
    | "dryRun (xc cx)" "r = Inr (Some ''dry-run-open-position'')" "s' = s"
    | "\<not> dryRun (xc cx)" "\<not> truthy (PM_get nft (positions s))"
      "\<not> cap_reached (getByrealPositionCapStatus (PM_getByrealOpenCount (positions s)) (byrealMaxOpenPositions (xc cx)))"
      "with_lock (finally_op (catch_op (bind_op (on_net (retryGetPosition (xsv cx) nft)) (\<lambda>i.
         case i of None \<Rightarrow> ret None | Some info \<Rightarrow> open_with cx nft pid referer wallet info)) (open_failed cx))
         (later RefreshSolBalance)) s = (r, s')"
    using assms unfolding byreal_copyOpen_def Let_def by (auto split: if_splits)
  then show thesis
  proof cases
    case 4
    from 4(4) show thesis
    proof (cases rule: with_lock_run)
      case held
      then show ?thesis by (intro refused) auto
    next
      case (ran u)
      from ran(2) obtain t where "catch_op (bind_op (on_net (retryGetPosition (xsv cx) nft)) (\<lambda>i.
         case i of None \<Rightarrow> ret None | Some info \<Rightarrow> open_with cx nft pid referer wallet info)) (open_failed cx)
         (s\<lparr>pendings := (pendings s)\<lparr>busy := True\<rparr>\<rparr>) = (r, t)" "u = later RefreshSolBalance t"
        by (auto simp: finally_op_def split: prod.splits)
      with ran 4 that(3) [of t] show ?thesis by simp
    qed
  qed (auto intro: refused dry)
qed

text \<open>
  C6: Copying an open is all or nothing. It never throws and leaves the executor's lock as it found it. When it
  returns nothing, the position map and the opened referers are as before. When it returns a signature (outside
  a dry run, which changes nothing), the target's position was not mapped yet, the node gave that signature for
  a transaction that opens the target's tick range in the target's pool, and the books contain exactly one new
  entry each: the mapping of the target's NFT to ours with the target's pool, range, wallet and liquidity, and
  the referer when there is one.
\<close>

theorem open_all_or_nothing:
  fixes s s' :: "('j, 'b, 'w) xbot"
  assumes "byreal_copyOpen cx nft pid referer wallet s = (r, s')"
  shows "\<exists>ans. r = Inr ans \<and> busy (pendings s') = busy (pendings s) \<and>
    (case ans of
       None \<Rightarrow> positions s' = positions s \<and> referers s' = referers s
     | Some sig \<Rightarrow>
         if dryRun (xc cx) then s' = s
         else \<not> truthy (PM_get nft (positions s)) \<and>
           (\<exists>info w w' ours. sv_getPosition (xsv cx) nft w = (Inr (Some info), w') \<and> sent_open cx info referer sig \<and>
              opened (xbn cx) nft referer wallet info ours s s'))"
  using assms
proof (cases rule: copyOpen_cases)
  case (ran t)
  let ?s = "s\<lparr>pendings := (pendings s)\<lparr>busy := True\<rparr>\<rparr>"
  have "pendings t = pendings ?s" using alwaysD [OF open_body_pendings ran(5)] by (simp add: same_def)
  then have lock: "busy (pendings s') = busy (pendings s)" using ran(4,6) by (simp add: release_def)
  have books: "books s' = books t" using ran(6) by simp
  from open_body_outcome [OF ran(5)] show ?thesis
  proof
    assume "r = Inr None \<and> books t = books ?s"
    with books lock show ?thesis by (auto simp: books_def)
  next
    assume "\<exists>sig info w w' ours. r = Inr (Some sig) \<and> sv_getPosition (xsv cx) nft w = (Inr (Some info), w') \<and>
       sent_open cx info referer sig \<and> opened (xbn cx) nft referer wallet info ours ?s t"
    then obtain sig info w w' ours where o: "r = Inr (Some sig)" "sv_getPosition (xsv cx) nft w = (Inr (Some info), w')"
      "sent_open cx info referer sig" "opened (xbn cx) nft referer wallet info ours ?s t" by blast
    have "opened (xbn cx) nft referer wallet info ours s s'"
      using o(4) opened_books [of ?s s t s'] books by simp
    with o lock ran(1,2) show ?thesis by auto
  qed
qed (auto simp: books_def)

text \<open>
  C8: Every transaction handed over while an open is copied is a swap that raises the tokens or the opening
  transaction itself, and that one stays within the target: it names the target's pool and tick range as the
  chain reported them, carries the referer memo, and deposits no more of either token than the target's amount
  scaled by the configured ratio.
\<close>

theorem open_within_target:
  fixes s s' :: "('j, 'b, 'w) xbot"
  assumes "bn_spec (xbn cx) val" and "byreal_copyOpen cx nft pid referer wallet s = (r, s')"
  shows "\<exists>ts. traffic s' = traffic s @ ts \<and>
    (ts = [] \<or> (\<exists>info w w'. sv_getPosition (xsv cx) nft w = (Inr (Some info), w') \<and>
       list_all (faithful_open cx val referer wallet info) ts))"
  using assms(2)
proof (cases rule: copyOpen_cases)
  case (ran t)
  let ?s = "s\<lparr>pendings := (pendings s)\<lparr>busy := True\<rparr>\<rparr>"
  obtain i s1 where i: "on_net (retryGetPosition (xsv cx) nft) ?s = (i, s1)" by fastforce
  have "traffic s1 = traffic s"
    using alwaysD [OF on_net_sends [OF get_position_submits [of "\<lambda>_. False"]] i] by (auto simp: logs_only_def list_all_iff)
  moreover have "traffic s' = traffic t" using ran(6) by simp
  moreover have "\<exists>info ts. traffic t = traffic s1 @ ts \<and> (ts = [] \<or>
      (i = Inr (Some info) \<and> list_all (faithful_open cx val referer wallet info) ts))"
  proof (cases "\<exists>info. i = Inr (Some info)")
    case False
    then have "catch_op (\<lambda>_. case i of Inl e \<Rightarrow> (Inl e, s1) | Inr _ \<Rightarrow> (Inr None, s1)) (open_failed cx) ?s = (r, t)"
      using ran(5) i by (auto simp: bind_op_def catch_op_def op_simps split: sum.splits option.splits)
    then have "t = s1 \<or> (\<exists>e. open_failed cx e s1 = (r, t))" by (auto simp: catch_op_def split: sum.splits)
    then have "traffic t = traffic s1" using alwaysD [OF open_failed_sends [where P = "\<lambda>_. False"]]
      by (fastforce simp: logs_only_def list_all_iff)
    then show ?thesis by auto
  next
    case True
    then obtain info where info: "i = Inr (Some info)" by blast
    have "sends (faithful_open cx val referer wallet info) (catch_op (open_with cx nft pid referer wallet info) (open_failed cx))"
      by (intro logs.catched open_with_sends assms(1) open_failed_sends)
    moreover have "catch_op (open_with cx nft pid referer wallet info) (open_failed cx) s1 = (r, t)"
      using ran(5) i info by (simp add: bind_op_def catch_op_def)
    ultimately have "logs_only traffic (faithful_open cx val referer wallet info) s1 t" by (rule alwaysD)
    with info show ?thesis by (auto simp: logs_only_def)
  qed
  moreover have "i = Inr (Some info) \<Longrightarrow> \<exists>w w'. sv_getPosition (xsv cx) nft w = (Inr (Some info), w')" for info
    using i by (auto dest!: givesI on_net_gives get_position_gives)
  ultimately show ?thesis by (metis append_Nil2)
qed auto

section \<open>Witnesses\<close>

definition xdemo_pool :: "int pool_info" where
  "xdemo_pool = \<lparr>poolId = ''POOL'', pi_mintA = ''MA'', pi_mintB = ''MB'', sqrtPriceX64 = 2 ^ 64, mintDecimalsA = 6, mintDecimalsB = 6\<rparr>"

definition xdemo_info :: "int position_info" where
  "xdemo_info = \<lparr>pos_tickLower = -10, pos_tickUpper = 10, pos_liquidity = 5000, pos_pool = xdemo_pool, pos_amountA = 1000,
     pos_amountB = 1200, pos_uiAmountA = Some ''1'', pos_uiAmountB = Some ''2''\<rparr>"

text \<open>A world that counts the requests it gets; the first transaction is refused with a transient error.\<close>

definition xdemo_sv :: "(int, nat) services" where
  "xdemo_sv =
     \<lparr>sv_now = (\<lambda>w. (7, w)), sv_send = (\<lambda>t w. (if w = 0 then Inl (Error ''503'') else Inr ''SIG'', Suc w)),
      sv_confirm = (\<lambda>_ w. (Inr (), w)), sv_getTransaction_err = (\<lambda>_ w. (Inr False, w)),
      sv_getParsedTransaction = (\<lambda>_ w. (Inr None, w)),
      sv_balance_answers = (\<lambda>_ w. ((\<lambda>_. Inr ''1500'', \<lambda>_. Inr 0), w)),
      sv_signVersioned = (\<lambda>m w. (Inr m, w)), sv_deserialize = (\<lambda>_. Inl TypeError),
      sv_quote = (\<lambda>_ _ _ w. (Inl TypeError, w)), sv_swap = (\<lambda>_ w. (Inl TypeError, w)),
      sv_order = (\<lambda>_ _ _ w. (Inl TypeError, w)), sv_execute = (\<lambda>_ _ w. (Inl TypeError, w)),
      sv_holdings = (\<lambda>w. (Inl TypeError, w)),
      sv_getPosition = (\<lambda>nft w. (Inr (if nft = ''T'' then Some xdemo_info else None), w)),
      sv_createPosition = (\<lambda>_ w. (Inr (Some ''OURS''), w)),
      sv_quoteExactOut = (\<lambda>p _ b w. (Inr \<lparr>allTrade = True, maxAmountIn = b, isOutputMintA = False, executionPrice = b\<rparr>, w)),
      sv_poolOpenTime = (\<lambda>_ w. (None, w)), sv_tokenLiquidity = (\<lambda>_ w. (Inr None, w)), sv_tokenSymbol = (\<lambda>m w. (m, w)),
      sv_otherDex = (\<lambda>_ _ w. (Inr False, w))\<rparr>"

definition xdemo_config :: exec_config where
  "xdemo_config =
     \<lparr>xc_swap = \<lparr>swc_dryRun = False, swc_ultra = True, swc_maxRetry = 3, swc_user = ''US'',
                swc_ratios = \<lparr>walletAmountRatios = [], amountRatio = Num 1\<rparr>\<rparr>,
      skipSameTickRange = True, pumpFilterMode = pump_filter_full, minPoolAgeDays = Num 0, poolAgeWhitelist = [],
      minPoolTvl = Num 0, poolTvlWhitelist = [], coinConcentrationOverrides = [], maxCoinConcentrationUsd = Num 0,
      maxCoinConcentrationPct = Num 0, byrealMaxOpenPositions = 5\<rparr>"

definition xdemo_cx :: "(int, nat) xcx" where
  "xdemo_cx = \<lparr>xbn = int_BN, xsv = xdemo_sv,
     xdc = \<lparr>dex_enabled = (\<lambda>_. False), close_only = (\<lambda>_. []), wallet_ratios = (\<lambda>_. []), amount_ratio = Num 1,
       risk_cfg = \<lparr>tokenLossStreakLimit = 3, tokenCooldownMinutes = 60, tokenWhitelist = [], tokenBlacklist = [], byrealSkipSol = False\<rparr>,
       pcsSkipSol = False, allowSameWalletReopen = False, byrealAllowSameTickWallets = [], byrealAllowOpenAfterOthersWallets = []\<rparr>,
     xc = xdemo_config\<rparr>"

definition xdemo_bot :: "js_num position_memory \<Rightarrow> (unit, int, nat) xbot" where
  "xdemo_bot ps =
     \<lparr>execs = (\<lambda>_. \<lparr>solPaused = False, drawdownPaused = False, drawdownPausedAt = None, lastSkipReason = None, poolIdToMints = []\<rparr>),
      positions = ps, referers = [], pendings = \<lparr>busy = False, swaps = [], pushed = []\<rparr>,
      risk = \<lparr>tokenLossStreak = [], tokenCooldowns = [], tokenPnls = [], pnl_pushed = []\<rparr>,
      feed = \<lparr>eventLog = [], swapHistory = [], poolMap = [], eventsTotal = []\<rparr>, feed_calls = [], background = [],
      startAssetUsd = None, drawdownWarning = False,
      other = \<lparr>net = \<lparr>world = 0, sent = [], holdingsCache = None, dlmmPools = []\<rparr>, position_calls = [], referer_calls = [],
        pumps = \<lparr>pendingMap = [], blacklist = [], whitelist = [], env_updates = []\<rparr>, pump_calls = [],
        rentPerPosition = Num 1, solPausedAt = None, lpAssets = None, latestTotalUsd = Num 0, late = [],
        dexes = (\<lambda>_. \<lparr>dx_busy = False, dx_rent = Num 1, dx_solPausedAt = None, dx_tvl = []\<rparr>)\<rparr>\<rparr>"

lemmas xdemo_defs = xdemo_cx_def xdemo_sv_def xdemo_config_def

lemma xdemo_transient: "isTransientError (Error ''503'')" by code_simp
lemma xdemo_pump: "pump_mint xdemo_pool = None" by code_simp

lemma xdemo_fields [simp]: "xsv xdemo_cx = xdemo_sv" "xbn xdemo_cx = int_BN" "xc xdemo_cx = xdemo_config"
  "swc_ratios (xc_swap xdemo_config) = \<lparr>walletAmountRatios = [], amountRatio = Num 1\<rparr>" "dryRun xdemo_config = False"
  "pos_pool xdemo_info = xdemo_pool"
  by (simp_all add: xdemo_defs xdemo_info_def)

lemma xdemo_read: "on_net (retryGetPosition xdemo_sv ''T'') s = (Inr (Some xdemo_info), s)"
  by (simp add: retryGetPosition_def numeral_3_eq_3 on_net_def zoom_def bind_op_def try_op_def request_def xdemo_sv_def op_simps set_other_def)

lemma xdemo_filters: "positions s = [] \<Longrightarrow> open_filters xdemo_cx w xdemo_info s = (Inr None, s)"
proof -
  assume p: "positions s = []"
  have c: "checkConcentrationLimit int_BN xdemo_config w xdemo_info t a u = Inr None" for t a u
    by (simp add: checkConcentrationLimit_def Let_def xdemo_config_def num_le_def num_eq_def split: option.splits)
  have "tick_filter xdemo_cx w xdemo_info s = (Inr None, s)"
    using p by (simp add: tick_filter_def op_simps PM_hasDuplicateTickRange_def)
  moreover have "pump_filter xdemo_cx w xdemo_pool s = (Inr None, s)"
    by (simp add: pump_filter_def pump_filter_by_def xdemo_pump op_simps split: pump_mode.splits)
  moreover have "age_filter xdemo_cx xdemo_pool s = (Inr None, s)"
    by (simp add: age_filter_def op_simps xdemo_config_def Let_def)
  moreover have "tvl_check xdemo_cx xdemo_pool s = (Inr None, s)"
    by (simp add: tvl_check_def op_simps xdemo_config_def)
  moreover have "concentration_filter xdemo_cx w ''OPEN'' xdemo_info s = (Inr None, s)"
    by (simp add: concentration_filter_def bind_op_def c op_simps)
  ultimately show ?thesis by (simp add: open_filters_def bind_op_def op_simps)
qed

lemma xdemo_balance: "token_balance xdemo_cx m n = (Inr 1500, n)" if "m \<noteq> NATIVE_MINT"
proof -
  have "BigInt_of ''1500'' = Inr 1500" by code_simp
  with that show ?thesis
    by (simp add: token_balance_def bind_op_def consult_def xdemo_sv_def op_simps getTokenBalance_def TOKEN_PROGRAMS_def int_BN_def)
qed

lemma xdemo_raise: "raise_tokens xdemo_cx xdemo_pool 1000 1200 n = (Inr (Some (1500, 1500)), n)"
  by (simp add: raise_tokens_def raise_side_def bind_op_def xdemo_balance xdemo_pool_def NATIVE_MINT_def bn_lt_def int_BN_def op_simps)

lemma xdemo_send:
  "world n = 0 \<Longrightarrow> send_tx xdemo_sv t n = (Inr ''SIG'', n\<lparr>world := 2, sent := sent n @ [t, t]\<rparr>)"
  by (simp add: send_tx_def retryOnTransient_def numeral_3_eq_3 catch_op_def submit_def op_simps xdemo_transient xdemo_sv_def)

lemma xdemo_deposit:
  "world n = 0 \<Longrightarrow> deposit_loop xdemo_cx xdemo_pool 1000 1200 (open_attempt xdemo_cx xdemo_info rf) 2 (1500, 1500) n =
     (let t = OpenTx (open_params_of xdemo_info (BaseA, 1000, 1200)) (memo_of rf)
      in (Inr (''SIG'', Some ''OURS''), n\<lparr>world := 2, sent := sent n @ [t, t]\<rparr>))"
proof -
  assume w: "world n = 0"
  have "deposit_of int_BN 1000 1200 (1500, 1500) = Inr (BaseA, 1000, 1200)" by code_simp
  moreover have "request (sv_createPosition xdemo_sv p) n = (Inr (Some ''OURS''), n)" for p
    by (simp add: request_def xdemo_sv_def)
  ultimately show ?thesis
    by (simp add: numeral_2_eq_2 bind_op_def catch_op_def op_simps open_attempt_def xdemo_send w Let_def)
qed

lemma xdemo_open:
  "\<exists>s'. byreal_copyOpen xdemo_cx ''T'' ''POOL'' (Some ''REF'') ''W'' (xdemo_bot []) = (Inr (Some ''SIG''), s')"
proof -
  have a: "scaleAmount int_BN \<lparr>walletAmountRatios = [], amountRatio = Num 1\<rparr> x (Some ''W'') = Inr x" for x
    by (simp add: scaleAmount_def getAmountRatio_def num_eq_def)
  have amounts: "pos_amountA xdemo_info = 1000" "pos_amountB xdemo_info = 1200" by (simp_all add: xdemo_info_def)
  let ?s = "(xdemo_bot [])\<lparr>pendings := (pendings (xdemo_bot []))\<lparr>busy := True\<rparr>\<rparr>"
  have p: "positions ?s = []" "world (net (other ?s)) = 0" by (simp_all add: xdemo_bot_def)
  have g: "\<not> truthy (PM_get ''T'' (positions (xdemo_bot [])))"
    "\<not> isRefererDuplicate (xdc xdemo_cx) (Some ''REF'') ''W'' (xdemo_bot [])"
    "\<not> cap_reached (getByrealPositionCapStatus (PM_getByrealOpenCount (positions (xdemo_bot []))) (byrealMaxOpenPositions xdemo_config))"
    by code_simp+
  have idle: "busy (pendings (xdemo_bot [])) = False" by (simp add: xdemo_bot_def)
  have 1: "on_net (raise_tokens xdemo_cx xdemo_pool 1000 1200) ?s = (Inr (Some (1500, 1500)), ?s)"
    by (simp add: on_net_def zoom_def xdemo_raise set_other_def)
  obtain s2 where 2: "on_net (deposit_loop xdemo_cx xdemo_pool 1000 1200 (open_attempt xdemo_cx xdemo_info (Some ''REF'')) 2 (1500, 1500)) ?s =
      (Inr (''SIG'', Some ''OURS''), s2)"
    using xdemo_deposit [OF p(2)] by (simp add: on_net_def zoom_def Let_def)
  obtain r s3 where 3: "save_open xdemo_cx ''T'' ''POOL'' (Some ''REF'') ''W'' xdemo_info (Some ''OURS'') s2 = (r, s3)" by fastforce
  obtain q s4 where 4: "on_net (try_op (request (sv_confirm xdemo_sv ''SIG''))) s3 = (Inr q, s4)"
    by (simp add: on_net_def zoom_def try_op_def request_def xdemo_sv_def)
  have "open_with xdemo_cx ''T'' ''POOL'' (Some ''REF'') ''W'' xdemo_info ?s = (Inr (Some ''SIG''), later (ReadLockedSol ''SIG'' ''T'') s4)"
    unfolding open_with_def
    using 1 2 3 4 save_open_opened(1) [OF 3] by (simp add: bind_op_def xdemo_filters [OF p(1)] a amounts op_simps)
  moreover have "byreal_copyOpen xdemo_cx ''T'' ''POOL'' (Some ''REF'') ''W'' (xdemo_bot []) =
      with_lock (finally_op (catch_op (bind_op (on_net (retryGetPosition xdemo_sv ''T'')) (\<lambda>i.
        case i of None \<Rightarrow> ret None | Some info \<Rightarrow> open_with xdemo_cx ''T'' ''POOL'' (Some ''REF'') ''W'' info)) (open_failed xdemo_cx))
        (later RefreshSolBalance)) (xdemo_bot [])"
    by (simp add: byreal_copyOpen_def Let_def g)
  ultimately show ?thesis
    using xdemo_read [of ?s] by (simp add: with_lock_def acquire_def finally_op_def catch_op_def bind_op_def idle)
qed

text \<open>
  The opening transaction is refused once with a transient error and sent again.
\<close>

theorem open_all_or_nothing_witness:
  "\<exists>s'. byreal_copyOpen xdemo_cx ''T'' ''POOL'' (Some ''REF'') ''W'' (xdemo_bot []) = (Inr (Some ''SIG''), s') \<and>
     \<not> busy (pendings s') \<and> sent_open xdemo_cx xdemo_info (Some ''REF'') ''SIG''"
proof -
  obtain s' where s': "byreal_copyOpen xdemo_cx ''T'' ''POOL'' (Some ''REF'') ''W'' (xdemo_bot []) = (Inr (Some ''SIG''), s')"
    using xdemo_open by blast
  have "sv_getPosition xdemo_sv ''T'' w = (Inr (Some info), w') \<Longrightarrow> info = xdemo_info" for w w' info
    by (simp add: xdemo_sv_def)
  with open_all_or_nothing [OF s'] have "\<not> busy (pendings s') \<and> sent_open xdemo_cx xdemo_info (Some ''REF'') ''SIG''"
    by (auto simp: xdemo_bot_def)
  with s' show ?thesis by blast
qed

theorem open_within_target_witness:
  "\<exists>s' ts. byreal_copyOpen xdemo_cx ''T'' ''POOL'' (Some ''REF'') ''W'' (xdemo_bot []) = (Inr (Some ''SIG''), s') \<and>
     traffic s' = ts \<and> list_all (faithful_open xdemo_cx id (Some ''REF'') ''W'' xdemo_info) ts"
proof -
  obtain s' where s': "byreal_copyOpen xdemo_cx ''T'' ''POOL'' (Some ''REF'') ''W'' (xdemo_bot []) = (Inr (Some ''SIG''), s')"
    using xdemo_open by blast
  have "sv_getPosition xdemo_sv ''T'' w = (Inr (Some info), w') \<Longrightarrow> info = xdemo_info" for w w' info
    by (simp add: xdemo_sv_def)
  with open_within_target [of xdemo_cx id, OF _ s'] int_BN_spec s' show ?thesis
    by (auto simp: traffic_def xdemo_bot_def)
qed
end
