(* ===== verification/Byreal_Copy.thy ===== *)
theory Byreal_Copy
  imports Byreal_Open "HOL-Library.Char_ord" "HOL-Library.List_Lexorder"
begin

text \<open>
  The other operations of the Byreal executor (\<^verbatim>\<open>src/executor/byreal-position.ts\<close>): copying a decrease and a close,
  closing by hand, selling a token, pending swaps, claiming fees, and the reconciliation that finds positions whose target is gone, with the
  helpers of \<^verbatim>\<open>src/executor/reconcile-status.ts\<close> and \<^verbatim>\<open>src/executor/byreal-nft-audit.ts\<close>.
\<close>

section \<open>Decreasing\<close>

text \<open>The share of our liquidity that corresponds to what the target removed.\<close>

definition decrease_share :: "'b BN \<Rightarrow> 'b \<Rightarrow> 'b \<Rightarrow> 'b \<Rightarrow> 'b" where
  "decrease_share bn myLiq removed stored = bn_div bn (bn_mul bn myLiq removed) stored"

text \<open>
  How much to remove: \<open>None\<close> is everything, zero is only the fees. The percentage is only logged, but computing
  it can throw. The liquidity remembered for the target is replaced before anything is sent.
\<close>

definition decrease_amount :: "('b, 'w) xcx \<Rightarrow> string \<Rightarrow> string \<Rightarrow> 'b option \<Rightarrow> ('j, 'b, 'w, 'b option) xop" where
  "decrease_amount cx nft ours current =
     (let bn = xbn cx
      in case current of
           None \<Rightarrow> ret None
         | Some cur \<Rightarrow>
             if bn_isZero bn cur then ret None
             else bind_op (look (\<lambda>s. PM_getTargetLiquidity nft (positions s))) (\<lambda>storedStr.
               if \<not> truthy storedStr then bind_op (bn_lit bn 0) (\<lambda>z. ret (Some z))
               else bind_op (of_result (bn_of_string bn (the storedStr))) (\<lambda>stored.
                 if bn_lt bn cur stored then
                   let removed = bn_sub bn stored cur
                   in bind_op (bn_lit bn 10000) (\<lambda>tenk.
                      bind_op (of_result (bn_toNumber bn (bn_div bn (bn_mul bn removed tenk) stored))) (\<lambda>_.
                      bind_op (on_net (retryGetPosition (xsv cx) ours)) (\<lambda>mine.
                      bind_op (change (on_positions (PM_setTargetLiquidity nft (bn_toString bn cur)))) (\<lambda>_.
                        ret (map_option (\<lambda>i. decrease_share bn (pos_liquidity i) removed stored) mine)))))
                 else bind_op (bn_lit bn 0) (\<lambda>z. ret (Some z)))))"

text \<open>A loop of at most \<open>n\<close> attempts; which errors are worth another attempt is an argument.\<close>

fun attempt_loop :: "(js_error \<Rightarrow> bool) \<Rightarrow> nat \<Rightarrow> ('s, 'a) op \<Rightarrow> ('s, 'a) op" where
  "attempt_loop again 0 m = throw (Error ''unreachable'')"
| "attempt_loop again (Suc n) m =
     catch_op m (\<lambda>e. if n > 0 \<and> again e then attempt_loop again n m else throw e)"

definition collect_fees :: "('b, 'w) xcx \<Rightarrow> string \<Rightarrow> ('j, 'b, 'w, (string \<times> string) option) xop" where
  "collect_fees cx ours =
     (if dryRun (xc cx) then ret (Some (''COLLECT_FEE'', ''dry-run-collect-fee''))
      else with_lock (catch_op
        (bind_op (on_net (attempt_loop isRetryableSimError 2 (send_tx (xsv cx) (CollectFeesTx ours)))) (\<lambda>sig.
           ret (Some (''COLLECT_FEE'', sig))))
        (\<lambda>_. ret None)))"

text \<open>A partial decrease reads our liquidity again in every attempt and never asks for more than it.\<close>

definition send_partial :: "('b, 'w) xcx \<Rightarrow> string \<Rightarrow> 'b \<Rightarrow> ('b, 'w, string) net_op" where
  "send_partial cx ours amt =
     retryOnTransient
       (bind_op (retryGetPosition (xsv cx) ours) (\<lambda>mine.
        bind_op (held_amount cx pos_liquidity mine) (\<lambda>myLiq.
        let liq = bn_min (xbn cx) amt myLiq
        in if bn_isZero (xbn cx) liq then throw (Error ''Our position has zero liquidity, nothing to decrease'')
           else submit (DecreaseTx ours liq) (sv_send (xsv cx) (DecreaseTx ours liq)))))"

text \<open>What a transaction brought us becomes pending swaps; a failing credit ends the loop.\<close>

definition credit_one :: "('b, 'w) xcx \<Rightarrow> string \<times> 'b \<Rightarrow> ('j, 'b, 'w, unit) xop" where
  "credit_one cx mb =
     bind_op (now_op cx) (\<lambda>now.
     bind_op (look pendings) (\<lambda>p.
     bind_op (of_result (addPendingSwap (xbn cx) now (fst mb) (snd mb) p)) (\<lambda>p'. change (\<lambda>s. s\<lparr>pendings := p'\<rparr>))))"

definition credit_received :: "('b, 'w) xcx \<Rightarrow> string \<Rightarrow> ('j, 'b, 'w, unit) xop" where
  "credit_received cx sig =
     bind_op (on_net (parseTxTokenChanges (xbn cx) (xsv cx) sig (swc_user (xc_swap (xc cx))))) (each (credit_one cx))"

definition decrease_liquidity ::
  "('b, 'w) xcx \<Rightarrow> string \<Rightarrow> 'b option \<Rightarrow> ('j, 'b, 'w, (string \<times> string) option) xop" where
  "decrease_liquidity cx ours amt =
     (if dryRun (xc cx) then ret (Some (''DECREASE'', ''dry-run-decrease''))
      else with_lock (catch_op
        (bind_op (on_net (attempt_loop isRetryableSimError 2
            (case amt of Some a \<Rightarrow> send_partial cx ours a | None \<Rightarrow> send_tx (xsv cx) (DecreaseFullTx ours False)))) (\<lambda>sig.
         bind_op (catch_op (credit_received cx sig) (\<lambda>_. ret ())) (\<lambda>_.
           ret (Some (''DECREASE'', sig)))))
        (\<lambda>_. ret None)))"

definition byreal_copyDecrease :: "('b, 'w) xcx \<Rightarrow> string \<Rightarrow> ('j, 'b, 'w, (string \<times> string) option) xop" where
  "byreal_copyDecrease cx nft s =
     (case PM_get nft (positions s) of
        None \<Rightarrow> (Inr None, s)
      | Some ours \<Rightarrow>
          if ours = [] then (Inr None, s)
          else bind_op (on_net (retryGetPosition (xsv cx) nft)) (\<lambda>target.
               bind_op (decrease_amount cx nft ours (map_option pos_liquidity target)) (\<lambda>amt.
                 case amt of
                   Some a \<Rightarrow> if bn_isZero (xbn cx) a then collect_fees cx ours else decrease_liquidity cx ours (Some a)
                 | None \<Rightarrow> decrease_liquidity cx ours None)) s)"

section \<open>Closing\<close>

definition forget :: "string \<Rightarrow> ('j, 'b, 'w) xbot \<Rightarrow> ('j, 'b, 'w) xbot" where
  "forget nft s =
     on_referers (\<lambda>m. snd (removeOpenedRefererByTargetNft nft m)) (on_positions (PM_delete nft) s)"

text \<open>
  Sending the close until the chain confirms it: at most three times. An empty signature counts as none.
\<close>

fun close_loop :: "('b, 'w) services \<Rightarrow> nat \<Rightarrow> string \<Rightarrow> ('b, 'w, string option) net_op" where
  "close_loop sv 0 ours = ret None"
| "close_loop sv (Suc n) ours =
     bind_op (try_op (send_tx sv (DecreaseFullTx ours True))) (\<lambda>r.
       case r of
         Inl e \<Rightarrow> if n > 0 \<and> (isRetryableSimError e \<or> isTransientError e) then close_loop sv n ours else throw e
       | Inr sig \<Rightarrow>
           if sig = [] then ret None
           else bind_op (verifyTxSuccess sv sig) (\<lambda>ok. if ok then ret (Some sig) else close_loop sv n ours))"

definition byreal_copyClose :: "('b, 'w) xcx \<Rightarrow> string \<Rightarrow> ('j, 'b, 'w, string option) xop" where
  "byreal_copyClose cx nft s =
     (case PM_get nft (positions s) of
        None \<Rightarrow> (Inr None, s)
      | Some ours \<Rightarrow>
          if ours = [] then (Inr None, s)
          else if dryRun (xc cx) then (Inr (Some ''dry-run-close''), s)
          else with_lock (catch_op
                 (bind_op (on_net (close_loop (xsv cx) 3 ours)) (\<lambda>r.
                    case r of
                      None \<Rightarrow> ret None
                    | Some sig \<Rightarrow>
                        bind_op (change (forget nft)) (\<lambda>_.
                        bind_op (credit_received cx sig) (\<lambda>_. ret (Some sig)))))
                 (\<lambda>_. ret None)) s)"

text \<open>The dashboard's close: the mapping goes as soon as the transaction is sent.\<close>

definition manualClosePosition :: "('b, 'w) xcx \<Rightarrow> string \<Rightarrow> ('j, 'b, 'w, string option) xop" where
  "manualClosePosition cx ours s =
     (let target = PM_findByOurNft ours (positions s);
          forget_it = (\<lambda>t. if truthy t then forget (the t) else (\<lambda>s. s))
      in if dryRun (xc cx) then (Inr (Some ''dry-run-manual-close''), s)
         else with_lock (catch_op
           (bind_op (on_net (attempt_loop (\<lambda>e. isRetryableSimError e \<or> isTransientError e) 2
               (send_tx (xsv cx) (DecreaseFullTx ours True)))) (\<lambda>sig.
            bind_op (change (forget_it target)) (\<lambda>_. ret (Some sig))))
           (\<lambda>e. if isPositionGoneError e
                then bind_op (look (\<lambda>s. case target of Some t \<Rightarrow> Some t | None \<Rightarrow> PM_findByOurNft ours (positions s))) (\<lambda>stale.
                     bind_op (change (forget_it stale)) (\<lambda>_. ret None))
                else ret None)) s)"

section \<open>Selling a token\<close>

definition swapTokenToUSDC_op ::
  "('b, 'w) xcx \<Rightarrow> string \<Rightarrow> string option \<Rightarrow> ('j, 'b, 'w, (string \<times> string \<times> string option) option) xop" where
  "swapTokenToUSDC_op cx m maxAmountRaw =
     (let bn = xbn cx; cfg = xc_swap (xc cx)
      in if is_quote m then ret None
         else bind_op (on_net (token_balance cx m)) (\<lambda>balance.
              bind_op (of_result (lte_lit bn balance 1000)) (\<lambda>dust.
                if dust then ret None
                else bind_op (if truthy maxAmountRaw then
                                bind_op (of_result (bn_of_string bn (the maxAmountRaw))) (\<lambda>limit.
                                bind_op (bn_lit bn 0) (\<lambda>z.
                                  ret (if bn_gt bn limit z \<and> bn_lt bn limit balance then limit else balance)))
                              else ret balance) (\<lambda>amt.
                     bind_op (of_result (lte_lit bn amt 1000)) (\<lambda>small.
                       if small then ret None
                       else let amountRaw = bn_toString bn amt
                         in if swc_dryRun cfg then ret (Some (''dry-run-swap'', amountRaw, None))
                            else with_lock (catch_op
                              (bind_op (on_net (jupSwapExactIn cfg (xsv cx) m USDC_MINT amountRaw)) (\<lambda>sig.
                                 if truthy sig then
                                   bind_op (on_net (getActualSwapOutput (xsv cx) (the sig) USDC_MINT (swc_user cfg))) (\<lambda>out.
                                     ret (Some (the sig, amountRaw, if truthy out then out else None)))
                                 else ret None))
                              (\<lambda>_. ret None)))))))"

text \<open>
  The operations on pending swaps around their steps: the balance is read when it is needed, the lock is taken by the
  step that decides, and Jupiter's answer settles it.
\<close>

definition set_pendings :: "'j byreal_state \<Rightarrow> ('j, 'b, 'w, unit) xop" where
  "set_pendings p = change (\<lambda>s. s\<lparr>pendings := p\<rparr>)"

definition sell_as_decided ::
  "('b, 'w) xcx \<Rightarrow> pubkey \<Rightarrow> ('j byreal_state \<Rightarrow> (outcome \<times> 'j byreal_state) result) \<Rightarrow>
   (string option result \<Rightarrow> 'j byreal_state \<Rightarrow> string option \<times> 'j byreal_state) \<Rightarrow> ('j, 'b, 'w, string option) xop" where
  "sell_as_decided cx m decide settle =
     bind_op (look (\<lambda>s. decide (pendings s))) (\<lambda>d.
     bind_op (of_result d) (\<lambda>(out, p).
     bind_op (set_pendings p) (\<lambda>_.
       case out of
         Returned answer \<Rightarrow> ret answer
       | Swapping amountRaw \<Rightarrow>
           bind_op (try_op (on_net (jupSwapExactIn (xc_swap (xc cx)) (xsv cx) m USDC_MINT amountRaw))) (\<lambda>sig.
           bind_op (look (\<lambda>s. settle sig (pendings s))) (\<lambda>(answer, p').
           bind_op (set_pendings p') (\<lambda>_. ret answer))))))"

definition executePendingSwap :: "('b, 'w) xcx \<Rightarrow> pubkey \<Rightarrow> string \<Rightarrow> ('j, 'b, 'w, string option) xop" where
  "executePendingSwap cx m botSwapAmount =
     (let bn = xbn cx;
          sell = (\<lambda>swapAmount botSwap. sell_as_decided cx m
            (executePendingSwap_decide bn (dryRun (xc cx)) m swapAmount botSwap) (executePendingSwap_settles bn m swapAmount botSwap))
      in bind_op (look (\<lambda>s. executePendingSwap_begin bn m botSwapAmount (pendings s))) (\<lambda>plan.
         bind_op (of_result plan) (\<lambda>pl.
           case pl of
             Nothing_pending \<Rightarrow> ret None
           | Share swapAmount botSwap \<Rightarrow> sell swapAmount botSwap
           | Whole_balance botSwap \<Rightarrow> bind_op (on_net (token_balance cx m)) (\<lambda>balance. sell balance botSwap))))"

definition forceSwapPending :: "('b, 'w) xcx \<Rightarrow> pubkey \<Rightarrow> ('j, 'b, 'w, string option) xop" where
  "forceSwapPending cx m =
     bind_op (look (\<lambda>s. forceSwapPending_begin (xbn cx) m (pendings s))) (\<lambda>b.
     bind_op (of_result b) (\<lambda>go.
       if \<not> go then ret None
       else bind_op (on_net (token_balance cx m)) (\<lambda>balance.
              sell_as_decided cx m (forceSwapPending_decide (xbn cx) (dryRun (xc cx)) m balance) (forceSwapPending_settles m))))"

section \<open>Claiming the fees of all positions\<close>

text \<open>
  What the SDK is asked: the wallet's positions on chain, and the batches of instructions that collect their fees, each
  as the transaction built of it with the number of its instructions.
\<close>

record ('b, 'w) fee_sdk =
  fs_positions :: "'w \<Rightarrow> string list result \<times> 'w"
  fs_batches :: "string list \<Rightarrow> 'w \<Rightarrow> ('b chain_tx \<times> nat) list result \<times> 'w"

record fees_collected =
  fc_totalPositions :: nat
  fc_txCount :: nat
  fc_results :: "(string result \<times> nat) list" \<comment> \<open>signature or error, and \<^verbatim>\<open>positionCount\<close>\<close>

fun collect_batches :: "('b, 'w) xcx \<Rightarrow> ('b chain_tx \<times> nat) list \<Rightarrow> ('b, 'w, (string result \<times> nat) list) net_op" where
  "collect_batches cx [] = ret []"
| "collect_batches cx ((t, k) # bs) =
     bind_op (try_op (send_tx (xsv cx) t)) (\<lambda>r. bind_op (collect_batches cx bs) (\<lambda>rest. ret ((r, k) # rest)))"

definition collectAllFees :: "('b, 'w) xcx \<Rightarrow> ('b, 'w) fee_sdk \<Rightarrow> ('j, 'b, 'w, fees_collected) xop" where
  "collectAllFees cx sdk s =
     (case acquire (pendings s) of
        (False, p) \<Rightarrow> (Inl (Error ''Executor busy, another operation in progress''), s\<lparr>pendings := p\<rparr>)
      | (True, p) \<Rightarrow>
          finally_op
            (on_net (bind_op (request (fs_positions sdk)) (\<lambda>nfts.
               if nfts = [] then ret \<lparr>fc_totalPositions = 0, fc_txCount = 0, fc_results = []\<rparr>
               else if dryRun (xc cx) then ret \<lparr>fc_totalPositions = length nfts, fc_txCount = 0, fc_results = []\<rparr>
               else bind_op (request (fs_batches sdk nfts)) (\<lambda>bs.
                    bind_op (collect_batches cx bs) (\<lambda>rs.
                      ret \<lparr>fc_totalPositions = length nfts, fc_txCount = length bs, fc_results = rs\<rparr>)))))
            (\<lambda>t. t\<lparr>pendings := release (pendings t)\<rparr>) (s\<lparr>pendings := p\<rparr>))"

section \<open>Reconciliation\<close>

definition classifyByrealReconcilePosition :: "'b BN \<Rightarrow> 'b position_info option \<Rightarrow> bool" where
  "classifyByrealReconcilePosition bn p = (case p of None \<Rightarrow> True | Some i \<Rightarrow> bn_isZero bn (pos_liquidity i))"

datatype lookup = Orphan | Active | Unclear

text \<open>A failed look-up proves that a position is gone only when the error says so; a transient one never does.\<close>

definition position_status :: "('b, 'w) xcx \<Rightarrow> string \<Rightarrow> ('b, 'w, lookup) net_op" where
  "position_status cx nft =
     bind_op (try_op (request (sv_getPosition (xsv cx) nft))) (\<lambda>r.
       ret (case r of
              Inr p \<Rightarrow> if classifyByrealReconcilePosition (xbn cx) p then Orphan else Active
            | Inl e \<Rightarrow> if isTransientError e then Unclear else if isPositionGoneError e then Orphan else Unclear))"

text \<open>A position of another DEX looks like an orphan here; the other executors are asked in turn.\<close>

fun other_dex :: "('b, 'w) xcx \<Rightarrow> string \<Rightarrow> string list \<Rightarrow> ('j, 'b, 'w, bool) xop" where
  "other_dex cx nft [] = ret False"
| "other_dex cx nft (d # ds) =
     bind_op (on_net (try_op (request (sv_otherDex (xsv cx) d nft)))) (\<lambda>r.
       if r = Inr True then bind_op (change (on_positions (PM_setDex nft d))) (\<lambda>_. ret True)
       else other_dex cx nft ds)"

definition OTHER_DEXES :: "string list" where
  "OTHER_DEXES = [''orca'', ''meteora'', ''pancakeswap'']"

text \<open>One entry of the scan: \<open>True\<close> when a close of our position is to be queued.\<close>

definition reconcile_entry :: "('b, 'w) xcx \<Rightarrow> string \<times> string \<Rightarrow> ('j, 'b, 'w, bool) xop" where
  "reconcile_entry cx e =
     (case e of (tgt, ours) \<Rightarrow>
        bind_op (look (\<lambda>s. PM_getDex tgt (positions s))) (\<lambda>d.
          if truthy d \<and> d \<noteq> Some ''byreal'' then ret False
          else bind_op (on_net (position_status cx tgt)) (\<lambda>st.
            if st \<noteq> Orphan then ret False
            else bind_op (other_dex cx tgt OTHER_DEXES) (\<lambda>foreign.
              if foreign then ret False
              else bind_op (on_net (position_status cx ours)) (\<lambda>mine.
                case mine of
                  Orphan \<Rightarrow> bind_op (change (forget tgt)) (\<lambda>_. ret False)
                | Unclear \<Rightarrow> ret False
                | Active \<Rightarrow> ret True)))))"

fun reconcile_scan :: "('b, 'w) xcx \<Rightarrow> (string \<times> string) list \<Rightarrow> ('j, 'b, 'w, (string \<times> string) list) xop" where
  "reconcile_scan cx [] = ret []"
| "reconcile_scan cx (e # es) =
     bind_op (reconcile_entry cx e) (\<lambda>b. bind_op (reconcile_scan cx es) (\<lambda>rest. ret (if b then e # rest else rest)))"

text \<open>\<^verbatim>\<open>enqueueReconcile\<close>: the closes it queues, in order.\<close>

definition enqueueReconcile :: "('b, 'w) xcx \<Rightarrow> ('j, 'b, 'w, (string \<times> string) list) xop" where
  "enqueueReconcile cx s = reconcile_scan cx (PM_entries (positions s)) s"

definition closeOrphan :: "('b, 'w) xcx \<Rightarrow> string \<Rightarrow> string \<Rightarrow> ('j, 'b, 'w, unit) xop" where
  "closeOrphan cx tgt ours =
     (if dryRun (xc cx) then ret ()
      else catch_op
        (bind_op (on_net (bind_op (send_tx (xsv cx) (DecreaseFullTx ours True)) (verifyTxSuccess (xsv cx)))) (\<lambda>ok.
           if ok then change (forget tgt) else ret ()))
        (\<lambda>e. if mentions [''not found''] e then change (forget tgt) else ret ()))"

text \<open>
  \<^verbatim>\<open>reconcilePositions\<close>, the reconciliation in one go: every error that is not transient counts as gone, our own
  position is not looked up, and the close, the same as \<^verbatim>\<open>closeOrphan\<close>'s, takes the lock.
\<close>

definition reconcile_at_once :: "('b, 'w) xcx \<Rightarrow> string \<times> string \<Rightarrow> ('j, 'b, 'w, unit) xop" where
  "reconcile_at_once cx e =
     (case e of (tgt, ours) \<Rightarrow>
        bind_op (look (\<lambda>s. PM_getDex tgt (positions s))) (\<lambda>d.
          if truthy d \<and> d \<noteq> Some ''byreal'' then ret ()
          else bind_op (on_net (try_op (request (sv_getPosition (xsv cx) tgt)))) (\<lambda>r.
            if \<not> (case r of Inr p \<Rightarrow> classifyByrealReconcilePosition (xbn cx) p | Inl err \<Rightarrow> \<not> isTransientError err) then ret ()
            else bind_op (other_dex cx tgt OTHER_DEXES) (\<lambda>foreign.
              if foreign \<or> dryRun (xc cx) then ret ()
              else bind_op (with_lock (bind_op (closeOrphan cx tgt ours) (\<lambda>_. ret (Some ())))) (\<lambda>_. ret ())))))"

definition reconcilePositions :: "('b, 'w) xcx \<Rightarrow> ('j, 'b, 'w, unit) xop" where
  "reconcilePositions cx s = each (reconcile_at_once cx) (PM_entries (positions s)) s"

section \<open>Audit\<close>

record ByrealNftAuditResult =
  mappedCount :: nat
  onChainCount :: nat
  unmappedOnChain :: "string list"
  mappedMissingOnChain :: "string list"
  importedToMapping :: "string list"

text \<open>\<^verbatim>\<open>sort()\<close> orders addresses by their characters.\<close>

definition diffByrealNftAudit :: "string list \<Rightarrow> string list \<Rightarrow> ByrealNftAuditResult" where
  "diffByrealNftAudit mappedNfts onChainNfts =
     (let mapped = new_set mappedNfts; onChain = new_set onChainNfts
      in \<lparr>mappedCount = length mapped, onChainCount = length onChain,
          unmappedOnChain = sort (filter (\<lambda>n. n \<notin> set mapped) onChain),
          mappedMissingOnChain = sort (filter (\<lambda>n. n \<notin> set onChain) mapped),
          importedToMapping = []\<rparr>)"

text \<open>The wallet's token accounts under one token program; NFTs have no decimals and the amount one.\<close>

record token_account =
  ta_mint :: string
  ta_amount :: string
  ta_decimals :: nat

definition nft_candidates :: "token_account list result list \<Rightarrow> string jsset" where
  "nft_candidates answers =
     new_set (concat (map (\<lambda>r. case r of
         Inl e \<Rightarrow> []
       | Inr accs \<Rightarrow> map ta_mint (filter (\<lambda>a. ta_mint a \<noteq> [] \<and> ta_decimals a = 0 \<and> ta_amount a = ''1'') accs)) answers))"

fun read_positions :: "('b, 'w) xcx \<Rightarrow> string list \<Rightarrow> ('b, 'w, (string, 'b position_info) jsmap) net_op" where
  "read_positions cx [] = ret []"
| "read_positions cx (n # ns) =
     bind_op (try_op (request (sv_getPosition (xsv cx) n))) (\<lambda>r.
     bind_op (read_positions cx ns) (\<lambda>rest.
       ret (case r of Inr (Some i) \<Rightarrow> (n, i) # rest | _ \<Rightarrow> rest)))"

definition import_one :: "('b, 'w) xcx \<Rightarrow> (string, 'b position_info) jsmap \<Rightarrow> string \<Rightarrow> ('j, 'b, 'w, unit) xop" where
  "import_one cx infos n =
     (case map_of infos n of
        None \<Rightarrow> ret ()
      | Some i \<Rightarrow>
          bind_op (now_op cx) (\<lambda>now.
            change (\<lambda>s. on_positions (PM_setTargetLiquidity n (bn_toString (xbn cx) (pos_liquidity i)))
              (on_positions (PM_set now n n (Some (pool_label (pos_pool i))) (Some ''ONCHAIN_AUDIT'') (Some (pos_tickLower i))
                (Some (pos_tickUpper i)) (Some ''byreal'')) s))))"

text \<open>The imported ones are those whose position was read; each gets a close in the queue.\<close>

definition auditByrealNftsOnChain ::
  "('b, 'w) xcx \<Rightarrow> token_account list result list \<Rightarrow> ('j, 'b, 'w, ByrealNftAuditResult) xop" where
  "auditByrealNftsOnChain cx answers =
     bind_op (on_net (read_positions cx (nft_candidates answers))) (\<lambda>infos.
     bind_op (look (\<lambda>s. diffByrealNftAudit (PM_getByrealNfts (positions s)) (map fst infos))) (\<lambda>res.
     bind_op (each (import_one cx infos) (unmappedOnChain res)) (\<lambda>_.
       ret (res\<lparr>importedToMapping := filter (\<lambda>n. map_of infos n \<noteq> None) (unmappedOnChain res)\<rparr>))))"

end
