(* ===== verification/Byreal_Copy_Safety.thy ===== *)
theory Byreal_Copy_Safety
  imports Byreal_Copy Byreal_Open_Safety
begin

text \<open>
  What decreases, closes and the reconciliation may do: when a mapping is dropped, how much liquidity leaves, and
  that a dry run sends nothing.
\<close>

section \<open>Frames\<close>

lemma attempt_loop_gives: "gives (attempt_loop again n m) a \<Longrightarrow> gives m a"
proof (induction n)
  case (Suc n)
  from Suc.prems show ?case
    unfolding attempt_loop.simps by (elim gives_catchE) (auto split: if_splits dest: Suc.IH)
qed simp

lemma attempt_loop_submits: "submits P m \<Longrightarrow> submits P (attempt_loop again n m)"
  by (induction n) (auto intro!: submits_rules)

lemma credit_off: "off_net g \<Longrightarrow> (\<And>s p. g (s\<lparr>pendings := p\<rparr>) = g s) \<Longrightarrow> always (same g) (credit_received cx sig)"
proof -
  assume g: "off_net g" "\<And>s p. g (s\<lparr>pendings := p\<rparr>) = g s"
  then have one: "always (same g) (credit_one cx mb)" for mb
    unfolding credit_one_def by (auto intro!: off_rules change_same)
  show ?thesis
    unfolding credit_received_def by (intro same.bind on_net_off g(1) same.mapped one)
qed

lemma credit_sends: "sends P (credit_received cx sig)"
proof -
  have "sends P (credit_one cx mb)" for mb
    unfolding credit_one_def by (auto intro!: sends_rules)
  then show ?thesis
    unfolding credit_received_def by (intro logs.bind on_net_sends parse_submits logs.mapped)
qed

lemma off_busy: "off_net (\<lambda>s. busy (pendings s))"
  by (auto simp: off_net_def set_other_def on_pumps_def split: prod.splits)

lemma addPendingSwap_busy: "addPendingSwap bn now m a p = Inr p' \<Longrightarrow> busy p' = busy p"
  by (auto simp: addPendingSwap_def bind_result_eq_Inr_iff on_store_def split: if_splits prod.splits)

lemma credit_one_busy: "always (same (\<lambda>s. busy (pendings s))) (credit_one cx mb)"
  unfolding always_def
proof
  fix s
  obtain n s1 where n: "now_op cx s = (Inr n, s1)" by (rule now_opE)
  have b: "busy (pendings s1) = busy (pendings s)" using alwaysD [OF now_off [OF off_busy] n] by (simp add: same_def)
  have "credit_one cx mb s = (case addPendingSwap (xbn cx) n (fst mb) (snd mb) (pendings s1) of
      Inl e \<Rightarrow> (Inl e, s1) | Inr p \<Rightarrow> (Inr (), s1\<lparr>pendings := p\<rparr>))"
    using n by (simp add: credit_one_def bind_op_def op_simps split: sum.split)
  with b show "same (\<lambda>s. busy (pendings s)) s (snd (credit_one cx mb s))"
    by (auto simp: same_def dest: addPendingSwap_busy split: sum.splits)
qed

lemma credit_busy: "always (same (\<lambda>s. busy (pendings s))) (credit_received cx sig)"
  unfolding credit_received_def by (intro same.bind on_net_off off_busy same.mapped credit_one_busy)

section \<open>Closing\<close>

text \<open>The chain confirmed the close of our position: the transaction was accepted and is indexed without an error.\<close>

definition confirmed :: "('b, 'w) services \<Rightarrow> string \<Rightarrow> bool" where
  "confirmed sv sig \<longleftrightarrow>
     (\<exists>w w' tx meta. sv_getParsedTransaction sv sig w = (Inr (Some tx), w') \<and> tx_meta tx = Some meta \<and> \<not> meta_err meta)"

definition close_confirmed :: "('b, 'w) services \<Rightarrow> string \<Rightarrow> string \<Rightarrow> bool" where
  "close_confirmed sv ours sig \<longleftrightarrow>
     (\<exists>w w'. sv_send sv (DecreaseFullTx ours True) w = (Inr sig, w')) \<and> confirmed sv sig"

lemma verify_gives: "gives (verifyTxSuccess sv sig) True \<Longrightarrow> confirmed sv sig"
proof -
  have "gives (verify_loop sv n sig) True \<Longrightarrow> confirmed sv sig" for n
  proof (induction n)
    case (Suc n)
    from Suc.prems show ?case
    proof (simp only: verify_loop.simps, elim gives_bindE)
      fix r assume r: "gives (try_op (request (sv_getParsedTransaction sv sig))) r"
        and f: "gives (case r of
         Inl e \<Rightarrow> if n > 0 then verify_loop sv n sig else ret False
       | Inr tx \<Rightarrow> (case Option.bind tx tx_meta of
              None \<Rightarrow> if n > 0 then verify_loop sv n sig else ret False
            | Some meta \<Rightarrow> ret (\<not> meta_err meta))) True"
      show ?thesis
        using gives_try_request [OF r] f Suc.IH
        by (auto simp: confirmed_def split: sum.splits if_splits option.splits Option.bind_splits)
    qed
  qed simp
  then show "gives (verifyTxSuccess sv sig) True \<Longrightarrow> ?thesis" by (simp add: verifyTxSuccess_def)
qed

lemma gives_tryE:
  assumes "gives (try_op m) (Inr a)"
  shows "gives m a"
proof -
  obtain s s' where t: "try_op m s = (Inr (Inr a), s')" using assms by (auto simp: gives_def)
  obtain r t where "m s = (r, t)" by fastforce
  with t show ?thesis by (auto simp: try_op_def intro: givesI)
qed

lemma close_loop_gives: "gives (close_loop sv n ours) (Some sig) \<Longrightarrow> close_confirmed sv ours sig"
proof (induction n)
  case (Suc n)
  from Suc.prems show ?case
  proof (simp only: close_loop.simps, elim gives_bindE)
    fix r assume r: "gives (try_op (send_tx sv (DecreaseFullTx ours True))) r"
      and f: "gives (case r of
         Inl e \<Rightarrow> if n > 0 \<and> (isRetryableSimError e \<or> isTransientError e) then close_loop sv n ours else throw e
       | Inr sig \<Rightarrow>
           if sig = [] then ret None
           else bind_op (verifyTxSuccess sv sig) (\<lambda>ok. if ok then ret (Some sig) else close_loop sv n ours)) (Some sig)"
    show ?thesis
    proof (cases r)
      case (Inl e) with f Suc.IH show ?thesis by (auto split: if_splits)
    next
      case (Inr x)
      have "\<exists>w w'. sv_send sv (DecreaseFullTx ours True) w = (Inr x, w')"
        using r Inr by (auto dest!: gives_tryE send_tx_gives)
      with f Inr Suc.IH show ?thesis
        by (auto simp: close_confirmed_def split: if_splits elim!: gives_bindE dest: verify_gives) blast+
    qed
  qed
qed simp

lemma map_of_forget: "map_of (positions (forget nft s)) = (map_of (positions s))(nft := None)"
  by (simp add: forget_def on_referers_def on_positions_def set_other_def PM_delete_def split: prod.splits)

lemma forget_books:
  "positions (forget nft s) = AList.delete nft (positions s)"
  "referers (forget nft s) = fst (snd (removeOpenedRefererByTargetNft nft (referers s)))"
  by (simp_all add: forget_def on_referers_def on_positions_def set_other_def PM_delete_def case_prod_beta)

lemma forget_busy: "busy (pendings (forget nft s)) = busy (pendings s)"
  by (simp add: forget_def)

lemma forget_traffic: "traffic (forget nft s) = traffic s"
  by (simp add: forget_def)

text \<open>The locked part of \<^verbatim>\<open>copyClosePosition\<close>.\<close>

definition close_body :: "('b, 'w) xcx \<Rightarrow> string \<Rightarrow> string \<Rightarrow> ('j, 'b, 'w, string option) xop" where
  "close_body cx nft ours =
     catch_op
       (bind_op (on_net (close_loop (xsv cx) 3 ours)) (\<lambda>r.
          case r of
            None \<Rightarrow> ret None
          | Some sig \<Rightarrow>
              bind_op (change (forget nft)) (\<lambda>_.
              bind_op (credit_received cx sig) (\<lambda>_. ret (Some sig)))))
       (\<lambda>_. ret None)"

lemma close_body_outcome:
  assumes "close_body cx nft ours s = (r, s')"
  shows "busy (pendings s') = busy (pendings s) \<and>
    ((r = Inr None \<and> positions s' = positions s \<and> referers s' = referers s) \<or>
     (\<exists>sig. (r = Inr None \<or> r = Inr (Some sig)) \<and> close_confirmed (xsv cx) ours sig \<and>
        positions s' = positions (forget nft s) \<and> referers s' = referers (forget nft s)))"
proof -
  obtain q t where q: "on_net (close_loop (xsv cx) 3 ours) s = (q, t)" by fastforce
  have t: "books t = books s" "busy (pendings t) = busy (pendings s)"
    using alwaysD [OF on_net_off [OF off_books(1)] q] alwaysD [OF on_net_off [OF off_busy] q] by (simp_all add: same_def)
  show ?thesis
  proof (cases "\<exists>sig. q = Inr (Some sig)")
    case False
    then have "r = Inr None" "s' = t"
      using assms q by (auto simp: close_body_def catch_op_def bind_op_def op_simps split: sum.splits option.splits)
    with t show ?thesis by (auto simp: books_def)
  next
    case True
    then obtain sig where sig: "q = Inr (Some sig)" by blast
    then have c: "close_confirmed (xsv cx) ours sig" using q by (auto dest!: givesI on_net_gives close_loop_gives)
    obtain z u where z: "credit_received cx sig (forget nft t) = (z, u)" by fastforce
    have "books u = books (forget nft t)" "busy (pendings u) = busy (pendings t)"
      using alwaysD [OF credit_off [OF off_books(1)] z] alwaysD [OF credit_busy z] by (simp_all add: same_def forget_busy)
    moreover have "positions (forget nft t) = positions (forget nft s)" "referers (forget nft t) = referers (forget nft s)"
      using t(1) by (simp_all add: books_def forget_books)
    moreover have "s' = u" "r = Inr None \<or> r = Inr (Some sig)"
      using assms q z sig by (auto simp: close_body_def catch_op_def bind_op_def op_simps split: sum.splits)
    ultimately show ?thesis using c t(2) by (auto simp: books_def)
  qed
qed

section \<open>Decreasing\<close>

lemma get_position_never_throws: "never_throws (retryGetPosition sv nft)"
proof -
  have "never_throws (get_position_loop sv n nft)" for n
    by (induction n) (auto intro!: never_throws_bind never_throws_simple split: sum.splits option.splits)
  then show ?thesis by (simp add: retryGetPosition_def)
qed

lemma on_net_never_throws: "never_throws m \<Longrightarrow> never_throws (on_net m)"
  unfolding never_throws_def on_net_def zoom_def by (auto split: prod.splits) (metis fst_conv)

lemma bn_lit_run:
  assumes "bn_spec bn val" and "n < 2 ^ 53"
  obtains b where "bn_lit bn n s = (Inr b, s)" and "val b = int n"
  using bn_spec_numeralE [OF assms] by (metis bn_lit_def of_result_def)

lemma setTargetLiquidity_books:
  assumes "map_of (positions s) nft = Some e"
  shows "PM_getTargetLiquidity nft (positions (on_positions (PM_setTargetLiquidity nft l) s)) = Some l"
    and "\<And>k. PM_get k (positions (on_positions (PM_setTargetLiquidity nft l) s)) = PM_get k (positions s)"
  using assms
  by (auto simp: on_positions_def PM_setTargetLiquidity_def PM_getTargetLiquidity_def PM_get_def set_other_def)

text \<open>The target went from a positive liquidity \<open>st\<close>, as remembered, to the smaller positive one \<open>cur\<close>.\<close>

lemma decrease_amount_run:
  fixes s :: "('j, 'b, 'w) xbot"
  assumes bn: "bn_spec (xbn cx) val" and e: "map_of (positions s) nft = Some e" "targetLiquidity e = Some (show_nat st)"
    and cur: "0 < val cur" "val cur < int st"
  obtains mine s1 stored where "on_net (retryGetPosition (xsv cx) ours) s = (Inr mine, s1)" "val stored = int st"
    and "decrease_amount cx nft ours (Some cur) s =
      (Inr (map_option (\<lambda>i. decrease_share (xbn cx) (pos_liquidity i) (bn_sub (xbn cx) stored cur) stored) mine),
       on_positions (PM_setTargetLiquidity nft (show_int (val cur))) s1)"
proof -
  obtain stored where st: "bn_of_string (xbn cx) (show_nat st) = Inr stored" "val stored = int st"
    by (rule bn_spec_stringE [OF bn])
  obtain tenk where t: "bn_lit (xbn cx) 10000 s = (Inr tenk, s)" "val tenk = 10000"
    by (rule bn_lit_run [OF bn, of 10000]) auto
  obtain mine s1 where m: "on_net (retryGetPosition (xsv cx) ours) s = (Inr mine, s1)"
    using never_throwsD [OF on_net_never_throws [OF get_position_never_throws]] by (metis surj_pair)
  let ?q = "bn_div (xbn cx) (bn_mul (xbn cx) (bn_sub (xbn cx) stored cur) tenk) stored"
  have "val ?q = (int st - val cur) * 10000 div int st"
    using cur st(2) t(2) by (subst bn_spec_div [OF bn]) (simp_all add: bn_spec_simps [OF bn])
  moreover have "(int st - val cur) * 10000 div int st \<le> (10000 * int st) div int st"
    using cur by (intro zdiv_mono1) auto
  moreover have "0 \<le> (int st - val cur) * 10000 div int st" using cur by (simp add: pos_imp_zdiv_nonneg_iff)
  ultimately have "\<bar>val ?q\<bar> < 2 ^ 53" using cur by simp
  then obtain x where x: "bn_toNumber (xbn cx) ?q = Inr x" using bn_spec_toNumber [OF bn] by blast
  have "truthy (PM_getTargetLiquidity nft (positions s))" "the (PM_getTargetLiquidity nft (positions s)) = show_nat st"
    using e by (auto simp: PM_getTargetLiquidity_def)
  moreover have "bn_lt (xbn cx) cur stored" "\<not> bn_isZero (xbn cx) cur"
    using cur st(2) by (simp_all add: bn_lt_def bn_spec_simps [OF bn])
  ultimately have "decrease_amount cx nft ours (Some cur) s =
      (Inr (map_option (\<lambda>i. decrease_share (xbn cx) (pos_liquidity i) (bn_sub (xbn cx) stored cur) stored) mine),
       on_positions (PM_setTargetLiquidity nft (show_int (val cur))) s1)"
    using st t m x by (simp add: decrease_amount_def Let_def bind_op_def op_simps bn_spec_show [OF bn])
  with m st(2) that show thesis by blast
qed

text \<open>Truncating the removed share keeps at least the target's remaining share.\<close>

lemma share_bounds:
  fixes L c st :: int
  assumes "0 \<le> L" "0 \<le> c" "c < st"
  shows "L * (st - c) div st \<le> L" and "L * c \<le> (L - L * (st - c) div st) * st" and "0 \<le> L * (st - c) div st"
proof -
  have st: "0 < st" using assms by simp
  have "L * (st - c) div st * st \<le> L * (st - c)" using st by (metis div_mult_mod_eq le_add_same_cancel1 mult.commute pos_mod_sign)
  then show "L * c \<le> (L - L * (st - c) div st) * st" by (simp add: algebra_simps)
  have "L * (st - c) div st \<le> L * st div st" using assms by (intro zdiv_mono1 mult_left_mono) auto
  then show "L * (st - c) div st \<le> L" using st by simp
  show "0 \<le> L * (st - c) div st" using assms by (simp add: pos_imp_zdiv_nonneg_iff)
qed

text \<open>Which transactions a decrease may send: for a given amount, only on our position, never closing it.\<close>

definition decrease_tx :: "('b \<Rightarrow> int) \<Rightarrow> string \<Rightarrow> 'b option \<Rightarrow> 'b chain_tx \<Rightarrow> bool" where
  "decrease_tx val ours amt t \<longleftrightarrow>
     (case amt of
        None \<Rightarrow> t = DecreaseFullTx ours False
      | Some a \<Rightarrow> if val a = 0 then t = CollectFeesTx ours
                  else \<exists>liq. t = DecreaseTx ours liq \<and> val liq \<le> val a \<and> val liq \<noteq> 0)"

lemma with_lock_sends: "sends P m \<Longrightarrow> sends P (with_lock m)"
  unfolding always_def
proof
  fix s assume m: "\<forall>s. logs_only traffic P s (snd (m s))"
  obtain r s' where run: "with_lock m s = (r, s')" by fastforce
  then show "logs_only traffic P s (snd (with_lock m s))"
  proof (cases rule: with_lock_run)
    case held then show ?thesis using run by (simp add: logs_only_def)
  next
    case (ran t)
    then show ?thesis using run m [rule_format, of "s\<lparr>pendings := (pendings s)\<lparr>busy := True\<rparr>\<rparr>"] by (auto simp: logs_only_def)
  qed
qed

lemma send_partial_submits:
  assumes bn: "bn_spec (xbn cx) val"
  shows "submits (\<lambda>t. \<exists>liq. t = DecreaseTx ours liq \<and> val liq \<le> val a \<and> val liq \<noteq> 0) (send_partial cx ours a)"
proof -
  have min: "val (bn_min (xbn cx) a b) \<le> val a" for b
    using bn_spec_gt [OF bn] by (simp add: bn_min_def bn_lt_def)
  have h: "submits P (held_amount cx f mine)" for P f mine
    by (auto simp: held_amount_def bn_lit_def intro!: submits_rules split: option.splits)
  show ?thesis
    unfolding send_partial_def Let_def
    by (intro logs.retried logs.bind get_position_submits h)
       (auto intro!: submits_rules min simp: bn_spec_zero [OF bn])
qed

lemma decrease_sends:
  assumes bn: "bn_spec (xbn cx) val"
  shows "sends (decrease_tx val ours None) (decrease_liquidity cx ours None)"
    and "val a \<noteq> 0 \<Longrightarrow> sends (decrease_tx val ours (Some a)) (decrease_liquidity cx ours (Some a))"
    and "val a = 0 \<Longrightarrow> sends (decrease_tx val ours (Some a)) (collect_fees cx ours)"
proof -
  show "sends (decrease_tx val ours None) (decrease_liquidity cx ours None)"
    unfolding decrease_liquidity_def
    by (auto intro!: with_lock_sends logs.rules on_net_sends attempt_loop_submits send_tx_submits credit_sends simp: decrease_tx_def)
  show "sends (decrease_tx val ours (Some a)) (collect_fees cx ours)" if "val a = 0"
    unfolding collect_fees_def
    by (auto intro!: with_lock_sends logs.rules on_net_sends attempt_loop_submits send_tx_submits simp: decrease_tx_def that)
  show "sends (decrease_tx val ours (Some a)) (decrease_liquidity cx ours (Some a))" if a: "val a \<noteq> 0"
  proof -
    have "submits (decrease_tx val ours (Some a)) (send_partial cx ours a)"
      by (rule submits_mono [OF send_partial_submits [OF bn]]) (simp add: decrease_tx_def a)
    then show ?thesis
      unfolding decrease_liquidity_def
      by (auto intro!: with_lock_sends logs.rules on_net_sends attempt_loop_submits credit_sends)
  qed
qed

text \<open>
  One after the other: another transaction is handed over only after the service refused the one before, and when the
  operation throws, all of them were refused.
\<close>

definition refused :: "('b, 'w) xcx \<Rightarrow> 'b chain_tx \<Rightarrow> bool" where
  "refused cx t \<longleftrightarrow> (\<exists>e w w'. sv_send (xsv cx) t w = (Inl e, w'))"

definition in_turn :: "('s \<Rightarrow> 't list) \<Rightarrow> ('t \<Rightarrow> bool) \<Rightarrow> 's \<Rightarrow> 'a result \<Rightarrow> 's \<Rightarrow> bool" where
  "in_turn lg R s r s' \<longleftrightarrow>
     (\<exists>ts. lg s' = lg s @ ts \<and> list_all R (case r of Inr _ \<Rightarrow> butlast ts | Inl _ \<Rightarrow> ts))"

lemma in_turn_quiet: "always (same lg) m \<Longrightarrow> meets m (in_turn lg R)"
  by (rule meetsI) (auto simp: in_turn_def same_def dest!: alwaysD split: sum.split intro!: exI [of _ "[]"])

lemma in_turn_simple: "meets (ret a) (in_turn lg R)" "meets (throw e) (in_turn lg R)"
  by (intro in_turn_quiet same.simple)+

lemma in_turn_bind:
  assumes "always (same lg) m" and "\<And>a. meets (f a) (in_turn lg R)"
  shows "meets (bind_op m f) (in_turn lg R)"
  using assms by (rule same.meets_bind) (auto simp: in_turn_def same_def)

lemma in_turn_catch:
  assumes "meets m (in_turn lg R)" and "\<And>e. meets (h e) (in_turn lg R)"
  shows "meets (catch_op m h) (in_turn lg R)"
proof (rule meetsI)
  fix s r s' assume run: "catch_op m h s = (r, s')"
  obtain q t where m: "m s = (q, t)" by fastforce
  have q: "in_turn lg R s q t" using assms(1) m by (rule meetsD)
  show "in_turn lg R s r s'"
  proof (cases q)
    case (Inl e)
    then have "h e t = (r, s')" using run m by (simp add: catch_op_def)
    then have "in_turn lg R t r s'" by (rule meetsD [OF assms(2)])
    then obtain us where us: "lg s' = lg t @ us" "list_all R (case r of Inr _ \<Rightarrow> butlast us | Inl _ \<Rightarrow> us)"
      by (auto simp: in_turn_def)
    moreover obtain ts where "lg t = lg s @ ts" "list_all R ts" using q Inl by (auto simp: in_turn_def)
    ultimately show ?thesis
      by (auto simp: in_turn_def butlast_append split: sum.splits intro!: exI [of _ "ts @ us"] dest: in_set_butlastD simp: list_all_iff)
  qed (use run m q in \<open>simp add: catch_op_def\<close>)
qed

text \<open>What comes after a success neither sends nor throws.\<close>

lemma in_turn_then:
  assumes m: "meets m (in_turn lg R)" and f: "\<And>a. always (same lg) (f a)" "\<And>a. never_throws (f a)"
  shows "meets (bind_op m f) (in_turn lg R)"
proof (rule meetsI)
  fix s r s' assume run: "bind_op m f s = (r, s')"
  obtain q t where q: "m s = (q, t)" by fastforce
  have t: "in_turn lg R s q t" using m q by (rule meetsD)
  show "in_turn lg R s r s'"
  proof (cases q)
    case (Inl e)
    with run q t show ?thesis by (auto simp: bind_op_def in_turn_def)
  next
    case (Inr a)
    with run q have f': "f a t = (r, s')" by (simp add: bind_op_def)
    moreover obtain b where "r = Inr b" using never_throwsD [OF f(2) f'] by blast
    ultimately show ?thesis using t Inr alwaysD [OF f(1) f'] by (auto simp: in_turn_def same_def)
  qed
qed

lemma in_turn_loops:
  assumes "meets m (in_turn lg R)"
  shows "meets (attempt_loop again n m) (in_turn lg R)" "meets (retryOnTransient m) (in_turn lg R)"
proof -
  show "meets (attempt_loop again n m) (in_turn lg R)"
    by (induction n) (auto intro!: in_turn_catch assms in_turn_simple)
  have "meets (retry_loop k m) (in_turn lg R)" for k
    by (induction k) (auto intro!: in_turn_catch assms in_turn_simple)
  then show "meets (retryOnTransient m) (in_turn lg R)" by (simp add: retryOnTransient_def)
qed

lemma in_turn_net: "meets m (in_turn sent R) \<Longrightarrow> meets (on_net m) (in_turn traffic R)"
proof (rule meetsI)
  fix s r s' assume m: "meets m (in_turn sent R)" and run: "on_net m s = (r, s')"
  obtain q t where q: "m (net (other s)) = (q, t)" by fastforce
  then have "r = q" "traffic s' = sent t" using run by (auto simp: on_net_def zoom_def set_other_def traffic_def)
  with meetsD [OF m q] show "in_turn traffic R s r s'" by (simp add: in_turn_def traffic_def)
qed

lemma in_turn_lock: "meets m (in_turn traffic R) \<Longrightarrow> meets (with_lock m) (in_turn traffic R)"
proof (rule meetsI)
  fix s r s' assume m: "meets m (in_turn traffic R)" and run: "with_lock m s = (r, s')"
  from run show "in_turn traffic R s r s'"
  proof (cases rule: with_lock_run)
    case (ran t)
    then show ?thesis using meetsD [OF m ran(2)] by (simp add: in_turn_def)
  qed (simp add: in_turn_def)
qed

lemma submit_in_turn: "meets (submit t (sv_send (xsv cx) t)) (in_turn sent (refused cx))"
  by (rule meetsI) (auto simp: submit_def in_turn_def refused_def split: prod.splits sum.split intro!: exI [of _ "[t]"]; blast)

lemma mute: "submits (\<lambda>_. False) m \<Longrightarrow> always (same sent) m" "sends (\<lambda>_. False) m' \<Longrightarrow> always (same traffic) m'"
  by (auto simp: always_def same_def logs_only_def list_all_iff; fastforce)+

lemma decrease_in_turn:
  "meets (decrease_liquidity cx ours amt) (in_turn traffic (refused cx))"
  "meets (collect_fees cx ours) (in_turn traffic (refused cx))"
proof -
  have tx: "meets (send_tx (xsv cx) t) (in_turn sent (refused cx))" for t
    unfolding send_tx_def by (intro in_turn_loops submit_in_turn)
  have h: "submits (\<lambda>_. False) (held_amount cx f mine)" for f mine
    by (auto simp: held_amount_def bn_lit_def intro!: submits_rules split: option.splits)
  have part: "meets (send_partial cx ours a) (in_turn sent (refused cx))" for a
    unfolding send_partial_def Let_def
    by (auto intro!: in_turn_loops in_turn_bind submit_in_turn in_turn_simple mute get_position_submits h)
  have credit: "always (same traffic) (bind_op (catch_op (credit_received cx sig) (\<lambda>_. ret ())) (\<lambda>_. ret x))" for sig and x :: "(string \<times> string) option"
    by (intro mute logs.rules credit_sends)
  show "meets (decrease_liquidity cx ours amt) (in_turn traffic (refused cx))"
    unfolding decrease_liquidity_def
    by (auto intro!: in_turn_lock in_turn_catch in_turn_then in_turn_net in_turn_loops in_turn_simple tx part credit
        never_throws_bind never_throws_catch never_throws_simple split: option.split)
  show "meets (collect_fees cx ours) (in_turn traffic (refused cx))"
    unfolding collect_fees_def
    by (auto intro!: in_turn_lock in_turn_catch in_turn_then in_turn_net in_turn_loops in_turn_simple same.simple tx never_throws_simple)
qed

lemma with_lock_off:
  assumes "always (same g) m" and "\<And>s p. g (s\<lparr>pendings := p\<rparr>) = g s"
  shows "always (same g) (with_lock m)"
  unfolding always_def
proof
  fix s
  obtain r s' where run: "with_lock m s = (r, s')" by fastforce
  then show "same g s (snd (with_lock m s))"
  proof (cases rule: with_lock_run)
    case held then show ?thesis using run by (simp add: same_def)
  next
    case (ran t)
    then show ?thesis using run alwaysD [OF assms(1) ran(2)] assms(2) by (simp add: same_def)
  qed
qed

lemma decrease_positions:
  "always (same positions) (decrease_liquidity cx ours amt)" "always (same positions) (collect_fees cx ours)"
  unfolding decrease_liquidity_def collect_fees_def
  by (auto intro!: with_lock_off same.rules on_net_off credit_off)

text \<open>A decrease as far as the transaction: reading the target, fixing the amount, and acting on it.\<close>

lemma copyDecrease_run:
  assumes "PM_get nft (positions s) = Some ours" "ours \<noteq> []"
    and "on_net (retryGetPosition (xsv cx) nft) s = (Inr target, s1)"
    and "decrease_amount cx nft ours (map_option pos_liquidity target) s1 = (Inr amt, s2)"
  shows "byreal_copyDecrease cx nft s =
    (case amt of
       Some a \<Rightarrow> if bn_isZero (xbn cx) a then collect_fees cx ours s2 else decrease_liquidity cx ours (Some a) s2
     | None \<Rightarrow> decrease_liquidity cx ours None s2)"
  using assms by (simp add: byreal_copyDecrease_def bind_op_def split: option.splits)

lemma copyDecrease_outcome:
  fixes s s' :: "('j, 'b, 'w) xbot"
  assumes bn: "bn_spec (xbn cx) val"
    and e: "map_of (positions s) nft = Some e" "ourNft e \<noteq> []" "targetLiquidity e = Some (show_nat st)"
    and target: "on_net (retryGetPosition (xsv cx) nft) s = (Inr (Some ti), s1)"
    and cur: "0 < val (pos_liquidity ti)" "val (pos_liquidity ti) < int st"
    and mine: "on_net (retryGetPosition (xsv cx) (ourNft e)) s1 = (Inr mine, s2)"
    and run: "byreal_copyDecrease cx nft s = (r, s')"
  obtains stored ts where "val stored = int st" and "traffic s' = traffic s @ ts" and "list_all (refused cx) (butlast ts)"
    and "list_all (decrease_tx val (ourNft e)
        (map_option (\<lambda>i. decrease_share (xbn cx) (pos_liquidity i) (bn_sub (xbn cx) stored (pos_liquidity ti)) stored) mine)) ts"
    and "PM_getTargetLiquidity nft (positions s') = Some (show_int (val (pos_liquidity ti)))"
proof -
  have s1: "positions s1 = positions s" "traffic s1 = traffic s"
    using alwaysD [OF on_net_off [OF off_books(3)] target]
      alwaysD [OF on_net_sends [OF get_position_submits [of "\<lambda>_. False"]] target]
    by (auto simp: same_def logs_only_def list_all_iff)
  obtain mine' s2' stored where m: "on_net (retryGetPosition (xsv cx) (ourNft e)) s1 = (Inr mine', s2')" and st: "val stored = int st"
    and d: "decrease_amount cx nft (ourNft e) (Some (pos_liquidity ti)) s1 =
      (Inr (map_option (\<lambda>i. decrease_share (xbn cx) (pos_liquidity i) (bn_sub (xbn cx) stored (pos_liquidity ti)) stored) mine'),
       on_positions (PM_setTargetLiquidity nft (show_int (val (pos_liquidity ti)))) s2')"
    by (rule decrease_amount_run [OF bn, of s1 nft e st "pos_liquidity ti" "ourNft e"]) (use e s1 cur in auto)
  from m mine have eq: "mine' = mine" "s2' = s2" by simp_all
  have s2: "positions s2 = positions s" "traffic s2 = traffic s"
    using alwaysD [OF on_net_off [OF off_books(3)] mine] s1
      alwaysD [OF on_net_sends [OF get_position_submits [of "\<lambda>_. False"]] mine]
    by (auto simp: same_def logs_only_def list_all_iff)
  define amt where "amt = map_option (\<lambda>i. decrease_share (xbn cx) (pos_liquidity i) (bn_sub (xbn cx) stored (pos_liquidity ti)) stored) mine"
  define u where "u = on_positions (PM_setTargetLiquidity nft (show_int (val (pos_liquidity ti)))) s2"
  have run': "(case amt of Some a \<Rightarrow> if bn_isZero (xbn cx) a then collect_fees cx (ourNft e) u else decrease_liquidity cx (ourNft e) (Some a) u
     | None \<Rightarrow> decrease_liquidity cx (ourNft e) None u) = (r, s')"
    using copyDecrease_run [of nft s "ourNft e" cx "Some ti" s1 amt u] e(1,2) target d run by (simp add: PM_get_def amt_def u_def eq)
  have "logs_only traffic (decrease_tx val (ourNft e) amt) u s'"
    using run' alwaysD [OF decrease_sends(1) [OF bn]] alwaysD [OF decrease_sends(2) [OF bn]] alwaysD [OF decrease_sends(3) [OF bn]]
    by (auto split: option.splits if_splits simp: bn_spec_zero [OF bn])
  moreover have "positions s' = positions u"
    using run' alwaysD [OF decrease_positions(1)] alwaysD [OF decrease_positions(2)] by (auto simp: same_def split: option.splits if_splits)
  moreover have "traffic u = traffic s" using s2 by (simp add: u_def)
  moreover have "PM_getTargetLiquidity nft (positions u) = Some (show_int (val (pos_liquidity ti)))"
    unfolding u_def using e(1) s2(1) by (intro setTargetLiquidity_books(1)) simp
  moreover have "in_turn traffic (refused cx) u r s'"
    using run' meetsD [OF decrease_in_turn(1)] meetsD [OF decrease_in_turn(2)] by (auto split: option.splits if_splits)
  then have "\<exists>ts. traffic s' = traffic u @ ts \<and> list_all (refused cx) (butlast ts)"
    by (cases r) (auto simp: in_turn_def list_all_iff dest: in_set_butlastD)
  ultimately show thesis using st that [of stored] by (auto simp: logs_only_def amt_def)
qed

section \<open>Reconciliation\<close>

text \<open>The chain says a position is gone: it has no account or no liquidity, or the look-up fails with an error that says so.\<close>

definition said_gone :: "('b, 'w) xcx \<Rightarrow> string \<Rightarrow> bool" where
  "said_gone cx nft \<longleftrightarrow>
     (\<exists>w w' r. sv_getPosition (xsv cx) nft w = (r, w') \<and>
        (case r of Inr p \<Rightarrow> classifyByrealReconcilePosition (xbn cx) p
                 | Inl e \<Rightarrow> \<not> isTransientError e \<and> isPositionGoneError e))"

lemma position_status_gives: "gives (position_status cx nft) Orphan \<Longrightarrow> said_gone cx nft"
  unfolding position_status_def said_gone_def
  by (elim gives_bindE) (auto dest!: gives_try_request split: sum.splits if_splits, blast+)

lemma setDex_keys: "map fst (positions (on_positions (PM_setDex nft d) s)) = map fst (positions s)"
  by (auto simp: on_positions_def PM_setDex_def set_other_def js_modify_def case_prod_beta split: option.splits)

definition keys_kept :: "string set \<Rightarrow> ('j, 'b, 'w) xbot \<Rightarrow> ('j, 'b, 'w) xbot \<Rightarrow> bool" where
  "keys_kept gone s s' \<longleftrightarrow> (\<forall>k. map_of (positions s) k \<noteq> None \<longrightarrow> k \<notin> gone \<longrightarrow> map_of (positions s') k \<noteq> None)"

interpretation kept: step_relation "keys_kept gone" for gone
  by unfold_locales (auto simp: keys_kept_def)

lemma same_kept: "always (same positions) m \<Longrightarrow> always (keys_kept gone) m"
  by (erule always_mono) (simp add: same_def keys_kept_def)

lemma setDex_kept: "keys_kept gone s (on_positions (PM_setDex nft d) s)"
  unfolding keys_kept_def using setDex_keys [of nft d s] by (metis map_of_eq_None_iff set_map)

lemma other_dex_kept: "always (keys_kept gone) (other_dex cx nft ds)"
  by (induction ds) (auto intro!: kept.bind kept.simple kept.changed setDex_kept same_kept [OF on_net_off])

lemma reconcile_entry_kept:
  "always (keys_kept {k. k = fst e \<and> said_gone cx (fst e) \<and> said_gone cx (snd e)}) (reconcile_entry cx e)"
proof -
  obtain tgt ours where e: "e = (tgt, ours)" by fastforce
  show ?thesis
    unfolding reconcile_entry_def e
    by (auto intro!: kept.bind kept.simple same_kept [OF on_net_off] other_dex_kept kept.changed split: lookup.splits
        dest!: on_net_gives position_status_gives simp: keys_kept_def map_of_forget)
qed

lemma reconcile_scan_kept:
  fixes cx :: "('b, 'w) xcx"
  shows "always (keys_kept {k. \<exists>ours. (k, ours) \<in> set es \<and> said_gone cx k \<and> said_gone cx ours})
    (reconcile_scan cx es :: ('j, 'b, 'w, (string \<times> string) list) xop)"
proof (induction es)
  case (Cons e es)
  let ?G = "{k. \<exists>ours. (k, ours) \<in> set (e # es) \<and> said_gone cx k \<and> said_gone cx ours}"
  have mono: "keys_kept {k. k = fst e \<and> said_gone cx (fst e) \<and> said_gone cx (snd e)} s t \<Longrightarrow> keys_kept ?G s t"
    "keys_kept {k. \<exists>ours. (k, ours) \<in> set es \<and> said_gone cx k \<and> said_gone cx ours} s t \<Longrightarrow> keys_kept ?G s t"
    for s t :: "('j, 'b, 'w) xbot"
    by (force simp: keys_kept_def, auto simp: keys_kept_def)
  show ?case
    unfolding reconcile_scan.simps
    by (intro kept.bind kept.simple always_mono [OF reconcile_entry_kept mono(1)] always_mono [OF Cons.IH mono(2)])
qed (simp add: kept.simple)

section \<open>Dry runs\<close>

lemma sends_nothing: "sends (\<lambda>_. False) m \<Longrightarrow> traffic (snd (m s)) = traffic s"
  by (auto simp: always_def logs_only_def list_all_iff)

lemma decrease_amount_sends: "sends P (decrease_amount cx nft ours cur)"
  unfolding decrease_amount_def Let_def bn_lit_def
  by (auto intro!: sends_rules on_net_sends get_position_submits split: option.splits)

lemma dry_decrease: "dryRun (xc cx) \<Longrightarrow> sends P (byreal_copyDecrease cx nft)"
proof -
  assume dry: "dryRun (xc cx)"
  have act: "sends P (case amt of Some a \<Rightarrow> if bn_isZero (xbn cx) a then collect_fees cx ours else decrease_liquidity cx ours (Some a)
                 | None \<Rightarrow> decrease_liquidity cx ours None)" for amt ours
    using dry by (auto simp: collect_fees_def decrease_liquidity_def intro!: logs.simple split: option.splits)
  have "sends P (bind_op (on_net (retryGetPosition (xsv cx) nft)) (\<lambda>target.
      bind_op (decrease_amount cx nft ours (map_option pos_liquidity target)) (\<lambda>amt.
        case amt of Some a \<Rightarrow> if bn_isZero (xbn cx) a then collect_fees cx ours else decrease_liquidity cx ours (Some a)
                 | None \<Rightarrow> decrease_liquidity cx ours None)))" for ours
    by (intro logs.bind on_net_sends get_position_submits decrease_amount_sends act)
  then show ?thesis
    unfolding always_def byreal_copyDecrease_def by (auto simp: logs.refl split: option.splits)
qed

lemma dry_swap: "dryRun (xc cx) \<Longrightarrow> sends P (swapTokenToUSDC_op cx m limit)"
  unfolding swapTokenToUSDC_op_def Let_def bn_lit_def
  by (auto intro!: sends_rules on_net_sends balance_submits)

lemma decided_dry:
  "executePendingSwap_decide bn True m a b p \<noteq> Inr (Swapping x, q)" "forceSwapPending_decide bn True m a p \<noteq> Inr (Swapping x, q)"
  by (auto simp: executePendingSwap_decide_def forceSwapPending_decide_def bind_result_eq_Inr_iff split: if_splits)

lemma dry_decided:
  assumes "\<And>p x q. decide p \<noteq> Inr (Swapping x, q)"
  shows "sends P (sell_as_decided cx m decide settle)"
  unfolding sell_as_decided_def
proof (intro logs.bind logs.simple, goal_cases)
  case (1 d y)
  then obtain p where "decide p = Inr y" by (auto simp: gives_def op_simps)
  moreover obtain out q where y: "y = (out, q)" by fastforce
  ultimately obtain answer where "out = Returned answer" using assms by (cases out) blast+
  with y show ?case by (auto simp: set_pendings_def intro!: sends_rules)
qed

lemma dry_pending:
  assumes "dryRun (xc cx)"
  shows "sends P (executePendingSwap cx m amt)" "sends P (forceSwapPending cx m)"
proof -
  have e: "sends P (sell_as_decided cx m (executePendingSwap_decide bn True m a b) settle)" for bn a b settle
    by (rule dry_decided) (simp add: decided_dry)
  have f: "sends P (sell_as_decided cx m (forceSwapPending_decide bn True m a) settle)" for bn a settle
    by (rule dry_decided) (simp add: decided_dry)
  show "sends P (executePendingSwap cx m amt)"
    unfolding executePendingSwap_def Let_def using assms
    by (auto intro!: logs.bind logs.simple on_net_sends balance_submits e split: swap_plan.split)
  show "sends P (forceSwapPending cx m)"
    unfolding forceSwapPending_def using assms
    by (auto intro!: logs.bind logs.simple on_net_sends balance_submits f)
qed

lemma dry_collect:
  fixes sdk :: "('b, 'w) fee_sdk"
  assumes dry: "dryRun (xc cx)"
  shows "sends P (collectAllFees cx sdk :: ('j, 'b, 'w, fees_collected) xop)"
  unfolding always_def
proof
  fix s :: "('j, 'b, 'w) xbot"
  have body: "sends P (finally_op (on_net (bind_op (request (fs_positions sdk)) f)) (\<lambda>t. t\<lparr>pendings := release (pendings t)\<rparr>))"
    if "\<And>nfts. submits P (f nfts)" for f :: "string list \<Rightarrow> ('b, 'w, fees_collected) net_op"
    by (intro logs.finalised on_net_sends logs.bind submits_simple that) (simp add: logs_only_def)
  show "logs_only traffic P s (snd (collectAllFees cx sdk s))"
  proof (cases "busy (pendings s)")
    case False
    let ?s = "s\<lparr>pendings := (pendings s)\<lparr>busy := True\<rparr>\<rparr>"
    have "logs_only traffic P ?s (snd (collectAllFees cx sdk s))"
      unfolding collectAllFees_def acquire_def using False dry
      by (auto intro!: body [unfolded always_def, rule_format] simp: logs.refl op_simps)
    then show ?thesis by (simp add: logs_only_def)
  qed (simp add: collectAllFees_def acquire_def logs_only_def)
qed

lemma dry_reconcile: "dryRun (xc cx) \<Longrightarrow> sends P (reconcilePositions cx)"
proof -
  assume dry: "dryRun (xc cx)"
  have "sends P (other_dex cx nft ds)" for nft ds
    by (induction ds) (auto intro!: sends_rules on_net_sends submits_rules)
  then have "sends P (reconcile_at_once cx e)" for e
    using dry unfolding reconcile_at_once_def by (auto intro!: logs.bind logs.simple on_net_sends logs.tried submits_simple split: prod.split)
  then show ?thesis
    unfolding always_def reconcilePositions_def by (intro allI logs.mapped [unfolded always_def, rule_format]) blast
qed

lemma retry_loop_fails: "(\<And>s. fst (m s) = Inl e) \<Longrightarrow> fst (retry_loop (Suc k) m s) = Inl e"
proof (induction k arbitrary: s)
  case 0
  then show ?case by (cases "m s") (use 0 [of s] in \<open>simp add: catch_op_def op_simps\<close>)
next
  case (Suc k)
  then show ?case by (cases "m s") (use Suc.prems [of s] in \<open>simp add: catch_op_def [of m] op_simps\<close>)
qed

lemma close_locked_outcome:
  assumes "with_lock (close_body cx nft ours) s = (r, s')"
  shows "busy (pendings s') = busy (pendings s) \<and>
    ((r = Inr None \<and> positions s' = positions s \<and> referers s' = referers s) \<or>
     (\<exists>sig. (r = Inr None \<or> r = Inr (Some sig)) \<and> close_confirmed (xsv cx) ours sig \<and>
        map_of (positions s') = (map_of (positions s))(nft := None)))"
  using assms
proof (cases rule: with_lock_run)
  case (ran t)
  have eqs: "busy (pendings s') = busy (pendings s)" "positions s' = positions t" "referers s' = referers t"
    using ran(1,3) by (simp_all add: release_def)
  from close_body_outcome [OF ran(2)]
  consider "r = Inr None" "positions t = positions s" "referers t = referers s"
    | sig where "r = Inr None \<or> r = Inr (Some sig)" "close_confirmed (xsv cx) ours sig"
      "positions t = AList.delete nft (positions s)"
    by (auto simp: forget_books)
  then show ?thesis
  proof cases
    case 1 with eqs show ?thesis by simp
  next
    case (2 sig)
    then have "map_of (positions s') = (map_of (positions s))(nft := None)" using eqs by simp
    with 2(1,2) eqs(1) show ?thesis by blast
  qed
qed simp

section \<open>Properties\<close>

text \<open>
  C10: A target that removes part of its liquidity. The remembered liquidity is \<open>st\<close>, the target's new liquidity \<open>c\<close> is
  positive and smaller. When our own position can be read, with liquidity \<open>L\<close>, every transaction the copy hands over
  removes at most \<open>L * (st - c) div st\<close> from it (or only collects its fees when that is zero), so that the target's
  remaining share of our position is kept; when it cannot be read, every one removes all of our liquidity, however
  little the target removed. In both cases another transaction is handed over only after the service refused the one
  before, so at most one of them is not refused; and the remembered liquidity becomes \<open>c\<close>.
\<close>

theorem decrease_in_proportion:
  fixes s s' :: "('j, 'b, 'w) xbot"
  assumes "bn_spec (xbn cx) val"
    and "map_of (positions s) nft = Some e" "ourNft e \<noteq> []" "targetLiquidity e = Some (show_nat st)"
    and "on_net (retryGetPosition (xsv cx) nft) s = (Inr (Some ti), s1)"
    and "0 < val (pos_liquidity ti)" "val (pos_liquidity ti) < int st"
    and "on_net (retryGetPosition (xsv cx) (ourNft e)) s1 = (Inr mine, s2)"
    and "\<And>mi. mine = Some mi \<Longrightarrow> 0 \<le> val (pos_liquidity mi)"
    and "byreal_copyDecrease cx nft s = (r, s')"
  shows "\<exists>ts. traffic s' = traffic s @ ts \<and> list_all (refused cx) (butlast ts) \<and>
    (case mine of
       None \<Rightarrow> set ts \<subseteq> {DecreaseFullTx (ourNft e) False}
     | Some mi \<Rightarrow>
         \<exists>a. val a = val (pos_liquidity mi) * (int st - val (pos_liquidity ti)) div int st \<and>
           list_all (decrease_tx val (ourNft e) (Some a)) ts \<and> val a \<le> val (pos_liquidity mi) \<and>
           val (pos_liquidity mi) * val (pos_liquidity ti) \<le> (val (pos_liquidity mi) - val a) * int st) \<and>
    PM_getTargetLiquidity nft (positions s') = Some (show_int (val (pos_liquidity ti)))"
proof -
  obtain stored ts where st: "val stored = int st" and ts: "traffic s' = traffic s @ ts" "list_all (refused cx) (butlast ts)"
    "list_all (decrease_tx val (ourNft e) (map_option (\<lambda>i. decrease_share (xbn cx) (pos_liquidity i)
       (bn_sub (xbn cx) stored (pos_liquidity ti)) stored) mine)) ts"
    and liq: "PM_getTargetLiquidity nft (positions s') = Some (show_int (val (pos_liquidity ti)))"
    by (rule copyDecrease_outcome [OF assms(1-8) assms(10)])
  show ?thesis
  proof (cases mine)
    case None
    with ts liq show ?thesis by (intro exI [of _ ts]) (auto simp: decrease_tx_def list_all_iff)
  next
    case (Some mi)
    define a where "a = decrease_share (xbn cx) (pos_liquidity mi) (bn_sub (xbn cx) stored (pos_liquidity ti)) stored"
    have L: "0 \<le> val (pos_liquidity mi)" using assms(9) Some by blast
    then have "val a = val (pos_liquidity mi) * (int st - val (pos_liquidity ti)) div int st"
      unfolding a_def decrease_share_def using assms(6,7) st
      by (subst bn_spec_div [OF assms(1)]) (simp_all add: bn_spec_simps [OF assms(1)])
    with ts liq share_bounds [OF L, of "val (pos_liquidity ti)" "int st"] assms(6,7) Some show ?thesis
      by (intro exI [of _ ts]) (auto simp: a_def intro!: exI [of _ a])
  qed
qed

text \<open>
  A decrease that was not carried out is not made up for. The liquidity remembered for the target is replaced
  before the transaction is sent; when the copy is asked again for the same liquidity of the target, whatever
  happened to the first attempt, it only collects fees.
\<close>

theorem failed_decrease_forgotten:
  fixes s s' :: "('j, 'b, 'w) xbot"
  assumes bn: "bn_spec (xbn cx) val"
    and e: "map_of (positions s) nft = Some e" "ourNft e \<noteq> []" "targetLiquidity e = Some (show_nat st)"
    and t: "on_net (retryGetPosition (xsv cx) nft) s = (Inr (Some ti), s1)"
    and cur: "0 < val (pos_liquidity ti)" "val (pos_liquidity ti) < int st"
    and run: "byreal_copyDecrease cx nft s = (r, s')"
  shows "\<exists>z. val z = 0 \<and> fst (decrease_amount cx nft (ourNft e) (Some (pos_liquidity ti)) s') = Inr (Some z)"
proof -
  obtain mine s2 where m: "on_net (retryGetPosition (xsv cx) (ourNft e)) s1 = (Inr mine, s2)"
    using never_throwsD [OF on_net_never_throws [OF get_position_never_throws]] by (metis surj_pair)
  have l: "PM_getTargetLiquidity nft (positions s') = Some (show_nat (nat (val (pos_liquidity ti))))"
    by (rule copyDecrease_outcome [OF bn e t cur m run]) (use cur in \<open>simp add: show_int_def\<close>)
  obtain stored where st: "bn_of_string (xbn cx) (show_nat (nat (val (pos_liquidity ti)))) = Inr stored"
    "val stored = int (nat (val (pos_liquidity ti)))"
    by (rule bn_spec_stringE [OF bn])
  obtain z where z: "bn_lit (xbn cx) 0 s' = (Inr z, s')" "val z = 0" by (rule bn_lit_run [OF bn, of 0]) auto
  have "\<not> bn_lt (xbn cx) (pos_liquidity ti) stored" "\<not> bn_isZero (xbn cx) (pos_liquidity ti)"
    using st(2) cur by (simp_all add: bn_lt_def bn_spec_simps [OF bn])
  then have "decrease_amount cx nft (ourNft e) (Some (pos_liquidity ti)) s' = (Inr (Some z), s')"
    using l st(1) z(1) by (simp add: decrease_amount_def Let_def bind_op_def op_simps)
  with z(2) show ?thesis by auto
qed

text \<open>
  C11: Copying a close drops a mapping only for a close the chain confirmed. It never throws and gives the
  executor's lock back. Either the books are untouched, and then no signature is returned outside a dry run; or
  the node accepted a transaction closing our position, its indexed result has no error, and exactly the
  mapping of the target's position is gone.
\<close>

theorem close_only_when_confirmed:
  fixes s s' :: "('j, 'b, 'w) xbot"
  assumes run: "byreal_copyClose cx nft s = (r, s')"
  shows "\<exists>ans. r = Inr ans \<and> busy (pendings s') = busy (pendings s) \<and>
    ((positions s' = positions s \<and> referers s' = referers s \<and> (ans = None \<or> dryRun (xc cx))) \<or>
     (\<exists>ours sig. PM_get nft (positions s) = Some ours \<and> close_confirmed (xsv cx) ours sig \<and> (ans = None \<or> ans = Some sig) \<and>
        map_of (positions s') = (map_of (positions s))(nft := None)))"
proof (cases "\<exists>ours. PM_get nft (positions s) = Some ours \<and> ours \<noteq> []")
  case False
  then have "r = Inr None" "s' = s" using run by (auto simp: byreal_copyClose_def split: option.splits)
  then show ?thesis by simp
next
  case True
  then obtain ours where ours: "PM_get nft (positions s) = Some ours" "ours \<noteq> []" by blast
  show ?thesis
  proof (cases "dryRun (xc cx)")
    case True
    then have "r = Inr (Some ''dry-run-close'')" "s' = s" using run ours by (auto simp: byreal_copyClose_def)
    with True show ?thesis by simp
  next
    case False
    then have "with_lock (close_body cx nft ours) s = (r, s')" using run ours by (simp add: byreal_copyClose_def close_body_def)
    from close_locked_outcome [OF this] ours(1) show ?thesis by blast
  qed
qed

text \<open>
  C23: The reconciliation scan drops a mapping only on evidence: every mapping of the position map survives the scan
  unless the chain said of both the target's position and ours that it is gone; a transient or unclear error of
  either look-up keeps it.
\<close>

theorem scan_needs_evidence:
  assumes "enqueueReconcile cx s = (r, s')" and "PM_get k (positions s) = Some ours"
    and "\<not> (said_gone cx k \<and> said_gone cx ours)" and "distinct (map fst (positions s))"
  shows "map_of (positions s') k \<noteq> None"
proof -
  have "keys_kept {k. \<exists>ours. (k, ours) \<in> set (PM_entries (positions s)) \<and> said_gone cx k \<and> said_gone cx ours} s s'"
    using assms(1) alwaysD [OF reconcile_scan_kept] by (simp add: enqueueReconcile_def)
  moreover have "ours' = ours" if "(k, ours') \<in> set (PM_entries (positions s))" for ours'
  proof -
    from that obtain b where "(k, b) \<in> set (positions s)" "ours' = ourNft b" by (auto simp: PM_entries_def)
    then show ?thesis using assms(2) map_of_is_SomeI [OF assms(4)] by (auto simp: PM_get_def)
  qed
  ultimately show ?thesis using assms(2,3) by (auto simp: keys_kept_def PM_get_def)
qed

text \<open>
  An orphan's mapping can be lost while its position is open. When the node refuses the close with
  \<^verbatim>\<open>Blockhash not found\<close>, a transient error the code retries on, the last refusal is taken for a missing
  position, because its message contains \<^verbatim>\<open>not found\<close>: the mapping is dropped although nothing was closed.
\<close>

theorem blockhash_drops_mapping:
  assumes "\<not> dryRun (xc cx)"
    and "\<And>w. fst (sv_send (xsv cx) (DecreaseFullTx ours True) w) = Inl (Error ''Blockhash not found'')"
  shows "isTransientError (Error ''Blockhash not found'') \<and>
    map_of (positions (snd (closeOrphan cx tgt ours s))) = (map_of (positions s))(tgt := None)"
proof -
  have t: "isTransientError (Error ''Blockhash not found'')" by code_simp
  have f: "mentions [''not found''] (Error ''Blockhash not found'')" by code_simp
  have "fst (submit (DecreaseFullTx ours True) (sv_send (xsv cx) (DecreaseFullTx ours True)) n) = Inl (Error ''Blockhash not found'')" for n
    using assms(2) [of "world n"] by (auto simp: submit_def split: prod.splits)
  then have send: "fst (send_tx (xsv cx) (DecreaseFullTx ours True) n) = Inl (Error ''Blockhash not found'')" for n
    unfolding send_tx_def retryOnTransient_def numeral_3_eq_3 by (rule retry_loop_fails)
  obtain q t' where q: "send_tx (xsv cx) (DecreaseFullTx ours True) (net (other s)) = (q, t')" by fastforce
  moreover from q send [of "net (other s)"] have "q = Inl (Error ''Blockhash not found'')" by simp
  ultimately obtain u where u: "on_net (bind_op (send_tx (xsv cx) (DecreaseFullTx ours True)) (verifyTxSuccess (xsv cx))) s =
      (Inl (Error ''Blockhash not found''), u)"
    by (simp add: on_net_def zoom_def bind_op_def)
  then have "positions u = positions s" using alwaysD [OF on_net_off [OF off_books(3)] u] by (simp add: same_def)
  with u assms(1) f t show ?thesis
    by (simp add: closeOrphan_def catch_op_def bind_op_def op_simps map_of_forget)
qed

text \<open>
  C24: In a dry run the executor hands no transaction over. All its operations that may send one leave the traffic as it
  is, whatever the services answer: opening, increasing, decreasing (with the fees only, too), closing, closing by hand,
  selling a token, executing and forcing a pending swap, claiming all fees, reconciling and closing an orphan.
\<close>

theorem dry_run_sends_nothing:
  fixes s :: "('j, 'b, 'w) xbot"
  assumes "dryRun (xc cx)"
  shows "traffic (snd (byreal_copyOpen cx nft pid referer wallet s)) = traffic s \<and>
    traffic (snd (byreal_copyIncrease cx nft wallet s)) = traffic s \<and>
    traffic (snd (byreal_copyDecrease cx nft s)) = traffic s \<and>
    traffic (snd (byreal_copyClose cx nft s)) = traffic s \<and>
    traffic (snd (manualClosePosition cx ours s)) = traffic s \<and>
    traffic (snd (swapTokenToUSDC_op cx m limit s)) = traffic s \<and>
    traffic (snd (executePendingSwap cx m sold s)) = traffic s \<and>
    traffic (snd (forceSwapPending cx m s)) = traffic s \<and>
    traffic (snd (collectAllFees cx sdk s)) = traffic s \<and>
    traffic (snd (reconcilePositions cx s)) = traffic s \<and>
    traffic (snd (closeOrphan cx nft ours s)) = traffic s"
proof -
  note dry = dry_decrease [OF assms] dry_swap [OF assms] dry_pending [OF assms] dry_collect [OF assms] dry_reconcile [OF assms]
  have "traffic (snd (byreal_copyOpen cx nft pid referer wallet s)) = traffic s"
    using assms by (simp add: byreal_copyOpen_def Let_def set_skip_reason_def set_exec_def traffic_def)
  moreover have "traffic (snd (byreal_copyIncrease cx nft wallet s)) = traffic s" "traffic (snd (byreal_copyClose cx nft s)) = traffic s"
    "traffic (snd (manualClosePosition cx ours s)) = traffic s" "traffic (snd (closeOrphan cx nft ours s)) = traffic s"
    using assms by (simp_all add: byreal_copyIncrease_def byreal_copyClose_def manualClosePosition_def closeOrphan_def op_simps split: option.splits)
  moreover have "traffic (snd (byreal_copyDecrease cx nft s)) = traffic s" "traffic (snd (swapTokenToUSDC_op cx m limit s)) = traffic s"
    "traffic (snd (executePendingSwap cx m sold s)) = traffic s" "traffic (snd (forceSwapPending cx m s)) = traffic s"
    "traffic (snd (collectAllFees cx sdk s)) = traffic s" "traffic (snd (reconcilePositions cx s)) = traffic s"
    by (intro sends_nothing dry)+
  ultimately show ?thesis by blast
qed

section \<open>Witnesses\<close>

text \<open>
  The world of the opening witness with a mapped position; what the node answers for our own position is an argument.
\<close>

definition held_entry :: "js_num PositionEntry" where
  "held_entry = \<lparr>ourNft = ''OURS'', createdAt = 1, pool = None, targetWallet = Some ''W'', lockedSol = None, tickLower = Some (-10),
     tickUpper = Some 10, dex = Some ''byreal'', targetLiquidity = Some (show_nat 8000)\<rparr>"

definition held_cx :: "int position_info option result \<Rightarrow> (int, nat) xcx" where
  "held_cx mine = xdemo_cx\<lparr>xsv := xdemo_sv\<lparr>sv_getPosition := (\<lambda>nft w. (if nft = ''T'' then Inr (Some xdemo_info) else mine, w))\<rparr>\<rparr>"

abbreviation held_bot :: "(unit, int, nat) xbot" where
  "held_bot \<equiv> xdemo_bot [(''T'', held_entry)]"

lemma held_entry_fields [simp]: "ourNft held_entry = ''OURS''" by (simp add: held_entry_def)

lemma held_liquidity: "targetLiquidity held_entry = Some (show_nat 8000)"
  by (simp add: held_entry_def)

lemma held_fields [simp]: "xbn (held_cx mine) = int_BN" "xc (held_cx mine) = xdemo_config" "positions (xdemo_bot ps) = ps"
  "pos_liquidity xdemo_info = 5000"
  by (simp_all add: held_cx_def xdemo_bot_def xdemo_info_def)

lemma held_read:
  "on_net (retryGetPosition (xsv (held_cx mine)) ''T'') s = (Inr (Some xdemo_info), s)"
  "on_net (retryGetPosition (xsv (held_cx (Inr i))) (ourNft held_entry)) s = (Inr i, s)"
  by (simp_all add: retryGetPosition_def numeral_3_eq_3 on_net_def zoom_def bind_op_def try_op_def request_def held_cx_def op_simps
      set_other_def split: option.splits)

text \<open>The target went from 8000 to 5000; of our 300 at most 112 are removed.\<close>

theorem decrease_in_proportion_witness:
  "list_all (decrease_tx id ''OURS'' (Some 112))
     (traffic (snd (byreal_copyDecrease (held_cx (Inr (Some (xdemo_info\<lparr>pos_liquidity := 300\<rparr>)))) ''T'' held_bot))) \<and>
   set (traffic (snd (byreal_copyDecrease (held_cx (Inr None)) ''T'' held_bot))) \<subseteq> {DecreaseFullTx ''OURS'' False}"
proof
  let ?cx = "held_cx (Inr (Some (xdemo_info\<lparr>pos_liquidity := 300\<rparr>)))"
  have empty: "traffic held_bot = []" by (simp add: traffic_def xdemo_bot_def)
  obtain r s' where run: "byreal_copyDecrease ?cx ''T'' held_bot = (r, s')" by fastforce
  show "list_all (decrease_tx id ''OURS'' (Some 112)) (traffic (snd (byreal_copyDecrease ?cx ''T'' held_bot)))"
    using decrease_in_proportion [of ?cx id held_bot "''T''" held_entry, OF _ _ _ held_liquidity held_read(1) _ _ held_read(2) _ run]
      run int_BN_spec empty by simp
  obtain r' t where run': "byreal_copyDecrease (held_cx (Inr None)) ''T'' held_bot = (r', t)" by fastforce
  show "set (traffic (snd (byreal_copyDecrease (held_cx (Inr None)) ''T'' held_bot))) \<subseteq> {DecreaseFullTx ''OURS'' False}"
    using decrease_in_proportion [of "held_cx (Inr None)" id held_bot "''T''" held_entry, OF _ _ _ held_liquidity held_read(1) _ _ held_read(2) _ run']
      run' int_BN_spec empty by simp
qed

theorem failed_decrease_forgotten_witness:
  "fst (decrease_amount (held_cx (Inr None)) ''T'' ''OURS'' (Some 5000) (snd (byreal_copyDecrease (held_cx (Inr None)) ''T'' held_bot))) =
     Inr (Some 0)"
proof -
  obtain r s' where run: "byreal_copyDecrease (held_cx (Inr None)) ''T'' held_bot = (r, s')" by fastforce
  then show ?thesis
    using failed_decrease_forgotten [of "held_cx (Inr None)" id held_bot "''T''" held_entry,
        OF _ _ _ held_liquidity held_read(1) _ _ run] int_BN_spec by simp
qed

text \<open>The index never shows the transaction, so the mapping stays although it was sent.\<close>

theorem close_only_when_confirmed_witness:
  "positions (snd (byreal_copyClose xdemo_cx ''T'' held_bot)) = [(''T'', held_entry)]"
proof -
  obtain r s' where run: "byreal_copyClose xdemo_cx ''T'' held_bot = (r, s')" by fastforce
  have "\<not> close_confirmed xdemo_sv ours sig" for ours sig by (simp add: close_confirmed_def confirmed_def xdemo_sv_def)
  with close_only_when_confirmed [OF run] run show ?thesis by auto
qed

theorem scan_needs_evidence_witness:
  "map_of (positions (snd (enqueueReconcile (held_cx (Inl (Error ''503''))) held_bot))) ''T'' \<noteq> None"
proof -
  let ?cx = "held_cx (Inl (Error ''503''))"
  obtain r s' where run: "enqueueReconcile ?cx held_bot = (r, s')" by fastforce
  have "\<not> said_gone ?cx ''OURS''" by (simp add: said_gone_def held_cx_def xdemo_transient)
  with scan_needs_evidence [OF run, of "''T''" "''OURS''"] run show ?thesis by (simp add: PM_get_def)
qed

theorem blockhash_drops_mapping_witness:
  "positions (snd (closeOrphan (xdemo_cx\<lparr>xsv := xdemo_sv\<lparr>sv_send := (\<lambda>_ w. (Inl (Error ''Blockhash not found''), w))\<rparr>\<rparr>)
     ''T'' ''OURS'' held_bot)) = []"
proof -
  let ?cx = "xdemo_cx\<lparr>xsv := xdemo_sv\<lparr>sv_send := (\<lambda>_ w. (Inl (Error ''Blockhash not found''), w))\<rparr>\<rparr>"
  have "map_of (positions (snd (closeOrphan ?cx ''T'' ''OURS'' held_bot))) = (map_of [(''T'', held_entry)])(''T'' := None)"
    using blockhash_drops_mapping [of ?cx "''OURS''" "''T''" held_bot] by simp
  then have "map_of (positions (snd (closeOrphan ?cx ''T'' ''OURS'' held_bot))) = Map.empty" by (simp add: fun_eq_iff)
  then show ?thesis by simp
qed

theorem dry_run_sends_nothing_witness:
  "traffic (snd (byreal_copyClose (xdemo_cx\<lparr>xc := xdemo_config\<lparr>xc_swap := (xc_swap xdemo_config)\<lparr>swc_dryRun := True\<rparr>\<rparr>\<rparr>) ''T'' held_bot)) = []"
  using dry_run_sends_nothing [of "xdemo_cx\<lparr>xc := xdemo_config\<lparr>xc_swap := (xc_swap xdemo_config)\<lparr>swc_dryRun := True\<rparr>\<rparr>\<rparr>"
      "''T''" _ _ _ held_bot] by (simp add: traffic_def xdemo_bot_def)

end
