(* ===== verification/Dex_Common.thy ===== *)
theory Dex_Common
  imports Byreal_Copy
begin

text \<open>
  What the executors of the other DEXes have in common: their lock, the wallet's balance of a token, the filters,
  raising a token by swaps, the plan of a decrease, and the cache of pool TVLs. The sources repeat these parts in
  \<^verbatim>\<open>src/executor/orca-position.ts\<close>, \<^verbatim>\<open>meteora-position.ts\<close>, \<^verbatim>\<open>dammv2-position.ts\<close> and
  \<^verbatim>\<open>pancakeswap-position.ts\<close>; where they differ the difference is an argument.
\<close>

section \<open>Locks and flags\<close>

definition upd_dex :: "dex_id \<Rightarrow> (dex_env \<Rightarrow> dex_env) \<Rightarrow> ('j, 'b, 'w) xbot \<Rightarrow> ('j, 'b, 'w) xbot" where
  "upd_dex d f = set_other (\<lambda>x. x\<lparr>dexes := (dexes x)(d := f (dexes x d))\<rparr>)"

abbreviation dex_busy :: "dex_id \<Rightarrow> ('j, 'b, 'w) xbot \<Rightarrow> bool" where
  "dex_busy d s \<equiv> dx_busy (dexes (other s) d)"

definition with_dex_lock :: "dex_id \<Rightarrow> ('j, 'b, 'w, 'a option) xop \<Rightarrow> ('j, 'b, 'w, 'a option) xop" where
  "with_dex_lock d m s =
     (if dex_busy d s then (Inr None, s)
      else finally_op m (upd_dex d (\<lambda>x. x\<lparr>dx_busy := False\<rparr>)) (upd_dex d (\<lambda>x. x\<lparr>dx_busy := True\<rparr>) s))"

definition skip_dex :: "dex_id \<Rightarrow> string \<Rightarrow> ('j, 'b, 'w, 'a option) xop" where
  "skip_dex d reason = bind_op (change (set_exec d (\<lambda>x. x\<lparr>lastSkipReason := Some reason\<rparr>))) (\<lambda>_. ret None)"

definition sol_exhausted :: "('b, 'w) xcx \<Rightarrow> dex_id \<Rightarrow> ('j, 'b, 'w, unit) xop" where
  "sol_exhausted cx d =
     bind_op (now_op cx) (\<lambda>now.
       change (\<lambda>s. upd_dex d (\<lambda>x. x\<lparr>dx_solPausedAt := Some now\<rparr>) (set_exec d (\<lambda>x. x\<lparr>solPaused := True\<rparr>) s)))"

definition retryable :: "js_error \<Rightarrow> bool" where
  "retryable e \<longleftrightarrow> isRetryableSimError e \<or> isTransientError e"

section \<open>Balances and liquidity\<close>

text \<open>Unlike Byreal's, this \<^verbatim>\<open>getTokenBalance\<close> throws when even the lamports cannot be read.\<close>

definition dex_balance :: "('b, 'w) xcx \<Rightarrow> pubkey \<Rightarrow> ('b, 'w, 'b) net_op" where
  "dex_balance cx m =
     bind_op (consult (sv_balance_answers (xsv cx) m)) (\<lambda>(tb, nb).
       of_result
         (case balance_loop (xbn cx) tb nb (m = NATIVE_MINT) TOKEN_PROGRAMS of
            Some b \<Rightarrow> Inr b
          | None \<Rightarrow> if m = NATIVE_MINT then bind_result (nb None) (available_lamports (xbn cx)) else bn_of_num (xbn cx) (Num 0)))"

definition POOL_TVL_CACHE_MS :: int where "POOL_TVL_CACHE_MS = 600000"

text \<open>
  A pool's TVL, cached for ten minutes. \<open>fetch\<close> is the request with the reading of its answer; \<open>Inr None\<close> is an
  answer without the pool. When there is no fresh answer an older one is used.
\<close>

definition fetch_tvl ::
  "('b, 'w) xcx \<Rightarrow> dex_id \<Rightarrow> ('b, 'w, js_num option) net_op \<Rightarrow> string \<Rightarrow> js_num option \<Rightarrow> ('j, 'b, 'w, js_num option) xop" where
  "fetch_tvl cx d fetch p old =
     bind_op (on_net (try_op fetch)) (\<lambda>r.
       case r of
         Inr (Some tvl) \<Rightarrow>
           bind_op (now_op cx) (\<lambda>now.
           bind_op (change (upd_dex d (\<lambda>x. x\<lparr>dx_tvl := AList.update p (tvl, now) (dx_tvl x)\<rparr>))) (\<lambda>_. ret (Some tvl)))
       | _ \<Rightarrow> ret old)"

definition pool_tvl ::
  "('b, 'w) xcx \<Rightarrow> dex_id \<Rightarrow> ('b, 'w, js_num option) net_op \<Rightarrow> string \<Rightarrow> ('j, 'b, 'w, js_num option) xop" where
  "pool_tvl cx d fetch p =
     bind_op (look (\<lambda>s. map_of (dx_tvl (dexes (other s) d)) p)) (\<lambda>cached.
       case cached of
         None \<Rightarrow> fetch_tvl cx d fetch p None
       | Some (tvl, fetchedAt) \<Rightarrow>
           bind_op (now_op cx) (\<lambda>now.
             if now - fetchedAt < POOL_TVL_CACHE_MS then ret (Some tvl) else fetch_tvl cx d fetch p (Some tvl)))"

text \<open>\<^verbatim>\<open>checkTokenLiquidity(mint, dexFallback)\<close>: the source is configured.\<close>

definition liquidity_of ::
  "('b, 'w) xcx \<Rightarrow> bool \<Rightarrow> string \<Rightarrow> ('j, 'b, 'w, js_num option) xop \<Rightarrow> ('j, 'b, 'w, js_num option) xop" where
  "liquidity_of cx fromJupiter m fallback =
     (if fromJupiter then on_net (request (sv_tokenLiquidity (xsv cx) m)) else fallback)"

definition too_thin :: "('b, 'w) xcx \<Rightarrow> js_num option \<Rightarrow> bool" where
  "too_thin cx tvl \<longleftrightarrow> (case tvl of None \<Rightarrow> True | Some v \<Rightarrow> num_lt v (minPoolTvl (xc cx)))"

definition thin_text :: "js_num option \<Rightarrow> js_num \<Rightarrow> string result" where
  "thin_text tvl least =
     bind_result (case tvl of None \<Rightarrow> Inr ''?'' | Some v \<Rightarrow> toFixed v 0) (\<lambda>shown.
       Inr (utf8 [84, 86, 76, 32, 228, 184, 141, 232, 182, 179, 32, 40, 36] @ shown @ '' < $'' @ num_toString least @ '')''))"

definition plain_mint :: "string \<Rightarrow> bool" where
  "plain_mint m \<longleftrightarrow> \<not> is_stable m \<and> m \<noteq> NATIVE_MINT"

text \<open>The filter of an increase: an unapproved pump token.\<close>

definition pump_refused :: "('b, 'w) xcx \<Rightarrow> 'b pool_info \<Rightarrow> ('j, 'b, 'w) xbot \<Rightarrow> bool" where
  "pump_refused cx p s \<longleftrightarrow> pumpFilterMode (xc cx) \<noteq> pump_filter_off \<and>
     (case pump_mint p of Some m \<Rightarrow> \<not> isPumpApproved m (pumps (other s)) | None \<Rightarrow> False)"

definition sol_or_listed :: "('b, 'w) xcx \<Rightarrow> bool \<Rightarrow> 'b pool_info \<Rightarrow> bool" where
  "sol_or_listed cx skipSol p \<longleftrightarrow>
     (skipSol \<and> (pi_mintA p = WSOL_MINT \<or> pi_mintB p = WSOL_MINT)) \<or>
     pi_mintA p \<in> set (tokenBlacklist (risk_cfg (xdc cx))) \<or> pi_mintB p \<in> set (tokenBlacklist (risk_cfg (xdc cx)))"

section \<open>Raising a token\<close>

text \<open>
  One side. \<open>None\<close>: no swap worked. Otherwise the new balance, whether a swap was made, and what it brought (a
  gain that is not positive is not noted). \<open>after\<close> runs as soon as a swap has its signature.
\<close>

definition raise_swap ::
  "('b, 'w) xcx \<Rightarrow> ('b, 'w, unit) net_op \<Rightarrow> ('b \<Rightarrow> ('b, 'w, string option) net_op list) \<Rightarrow> string \<Rightarrow> 'b \<Rightarrow> 'b \<Rightarrow>
   ('b, 'w, ('b \<times> bool \<times> 'b list) option) net_op" where
  "raise_swap cx after ways m balance wanted =
     (if bn_lt (xbn cx) balance wanted \<and> \<not> bn_isZero (xbn cx) wanted \<and> m \<noteq> USDC_MINT then
        bind_op (attempts (ways (bn_sub (xbn cx) wanted balance))) (\<lambda>sig.
          if \<not> truthy sig then ret None
          else bind_op after (\<lambda>_.
            bind_op (getActualSwapOutput (xsv cx) (the sig) m (swc_user (xc_swap (xc cx)))) (\<lambda>added.
            if truthy added
            then bind_op (of_result (bn_of_string (xbn cx) (the added))) (\<lambda>b.
                   ret (Some (bn_add (xbn cx) balance b, True, [b])))
            else bind_op (dex_balance cx m) (\<lambda>b.
                 bind_op (bn_lit (xbn cx) 0) (\<lambda>z.
                 let gained = bn_sub (xbn cx) b balance
                 in ret (Some (b, True, if bn_gt (xbn cx) gained z then [gained] else [])))))))
      else ret (Some (balance, False, [])))"

text \<open>Token A from token B first, then from USDC; token B from USDC first, from token A only if there is a surplus.\<close>

definition dex_ways_to_A :: "('b, 'w) xcx \<Rightarrow> 'b pool_info \<Rightarrow> 'b \<Rightarrow> 'b \<Rightarrow> ('b, 'w, string option) net_op list" where
  "dex_ways_to_A cx p balB deficit =
     (if pi_mintA p = NATIVE_MINT \<or> bn_isZero (xbn cx) balB then []
      else [swap_in cx (pi_mintB p) (pi_mintA p) deficit]) @ [swap_in cx USDC_MINT (pi_mintA p) deficit]"

definition dex_ways_to_B :: "('b, 'w) xcx \<Rightarrow> 'b pool_info \<Rightarrow> 'b \<Rightarrow> 'b \<Rightarrow> 'b \<Rightarrow> ('b, 'w, string option) net_op list" where
  "dex_ways_to_B cx p balA wantA deficit =
     swap_in cx USDC_MINT (pi_mintB p) deficit #
     (if pi_mintB p \<noteq> NATIVE_MINT \<and> bn_gt (xbn cx) balA wantA then [swap_in cx (pi_mintA p) (pi_mintB p) deficit] else [])"

text \<open>
  The most of a token a deposit may use: not more than wanted and not more than there is. For a side of which the
  target holds nothing the whole balance is allowed.
\<close>

definition most_of :: "'b BN \<Rightarrow> 'b \<Rightarrow> 'b \<Rightarrow> 'b \<Rightarrow> 'b" where
  "most_of bn want want_other bal =
     (if bn_isZero bn want \<and> \<not> bn_isZero bn want_other then bal else bn_min bn want bal)"

section \<open>The plan of a decrease\<close>

text \<open>
  As Byreal's \<open>decrease_amount\<close>, for any way of reading our own liquidity.
\<close>

definition planned_decrease ::
  "'b BN \<Rightarrow> ('j, 'b, 'w, 'b option) xop \<Rightarrow> string \<Rightarrow> 'b option \<Rightarrow> ('j, 'b, 'w, 'b option) xop" where
  "planned_decrease bn my_liquidity nft current =
     (case current of
        None \<Rightarrow> ret None
      | Some cur \<Rightarrow>
          if bn_isZero bn cur then ret None
          else bind_op (look (\<lambda>s. PM_getTargetLiquidity nft (positions s))) (\<lambda>storedStr.
            if \<not> truthy storedStr then bind_op (bn_lit bn 0) (\<lambda>z. ret (Some z))
            else bind_op (of_result (bn_of_string bn (the storedStr))) (\<lambda>stored.
              if bn_lt bn cur stored then
                let removed = bn_sub bn stored cur
                in bind_op (bn_lit bn 10000) (\<lambda>tenk.
                   bind_op (of_result (bn_toNumber bn (bn_div bn (bn_mul bn removed tenk) stored))) (\<lambda>_.
                   bind_op my_liquidity (\<lambda>mine.
                   bind_op (change (on_positions (PM_setTargetLiquidity nft (bn_toString bn cur)))) (\<lambda>_.
                     ret (map_option (\<lambda>l. decrease_share bn l removed stored) mine)))))
              else bind_op (bn_lit bn 0) (\<lambda>z. ret (Some z)))))"

lemma decrease_amount_planned:
  "decrease_amount cx nft ours current =
     planned_decrease (xbn cx) (bind_op (on_net (retryGetPosition (xsv cx) ours)) (\<lambda>i. ret (map_option pos_liquidity i))) nft current"
  by (auto simp: decrease_amount_def planned_decrease_def Let_def bind_op_def fun_eq_iff op_simps option.map_comp comp_def
      split: option.splits sum.splits prod.splits)

end
