(* ===== verification/Dex_Safety.thy ===== *)
theory Dex_Safety
  imports Dex_Common Byreal_Copy_Safety
begin

text \<open>
  Facts the proofs about the executors of the other DEXes share: what their locks, flags and caches leave alone, what
  the common steps hand over, and the contracts of operations that write one entry of the position map.
\<close>

section \<open>Frames\<close>

text \<open>The other DEXes' flags and caches are off the traffic too.\<close>

lemma upd_dex_simps [simp]:
  "positions (upd_dex d f s) = positions s" "referers (upd_dex d f s) = referers s" "pendings (upd_dex d f s) = pendings s"
  "traffic (upd_dex d f s) = traffic s" "execs (upd_dex d f s) = execs s" "dexes (other (upd_dex d f s)) = (dexes (other s))(d := f (dexes (other s) d))"
  by (simp_all add: upd_dex_def set_other_def traffic_def)

lemma off_dexes: "off_net (\<lambda>s. dexes (other s))"
  by (auto simp: off_net_def set_other_def on_pumps_def split: prod.splits)

lemma dexes_simps [simp]:
  "dexes (other (set_exec d g s)) = dexes (other s)" "dexes (other (later t s)) = dexes (other s)"
  "dexes (other (on_positions h s)) = dexes (other s)" "dexes (other (s\<lparr>pendings := p\<rparr>)) = dexes (other s)"
  by (simp_all add: set_exec_def later_def on_positions_def set_other_def split: prod.splits)

lemma positions_simps [simp]:
  "positions (set_exec d g s) = positions s" "positions (later t s) = positions s" "positions (s\<lparr>pendings := p\<rparr>) = positions s"
  by (simp_all add: set_exec_def later_def set_other_def)

text \<open>A part of the state that an executor of another DEX touches neither by its flags nor by its traffic.\<close>

definition off_dex :: "(('j, 'b, 'w) xbot \<Rightarrow> 'p) \<Rightarrow> bool" where
  "off_dex g \<longleftrightarrow> off_net g \<and> (\<forall>d f s. g (set_exec d f s) = g s) \<and> (\<forall>t s. g (later t s) = g s)"

lemma off_dexI [simp]: "off_dex positions" "off_dex (\<lambda>s. dexes (other s) d)"
  by (auto simp: off_dex_def off_net_def set_other_def on_pumps_def split: prod.splits)

lemma skip_off: "off_dex g \<Longrightarrow> always (same g) (skip_dex d r)"
  unfolding skip_dex_def by (intro same.bind change_same same.simple) (simp add: off_dex_def)

lemma skip_gives: "gives (skip_dex d r) a \<Longrightarrow> a = None"
  unfolding skip_dex_def by (auto elim!: gives_bindE)

lemma skip_sends: "sends P (skip_dex d r)"
  unfolding skip_dex_def by (auto intro!: sends_rules)

lemma off_net_of: "off_dex g \<Longrightarrow> off_net g" by (simp add: off_dex_def)

text \<open>Filling the TVL cache leaves positions and locks alone.\<close>

definition off_tvl :: "(('j, 'b, 'w) xbot \<Rightarrow> 'p) \<Rightarrow> bool" where
  "off_tvl g \<longleftrightarrow> off_dex g \<and> (\<forall>d h s. g (upd_dex d (\<lambda>x. x\<lparr>dx_tvl := h x\<rparr>) s) = g s)"

lemma off_tvlI [simp]: "off_tvl positions" "off_tvl (dex_busy d)"
proof -
  have "off_dex (dex_busy d)" by (auto simp: off_dex_def off_net_def set_other_def on_pumps_def split: prod.splits)
  then show "off_tvl positions" "off_tvl (dex_busy d)" by (simp_all add: off_tvl_def)
qed

lemma pool_tvl_off: "off_tvl g \<Longrightarrow> always (same g) (pool_tvl cx d fetch p)"
  unfolding pool_tvl_def fetch_tvl_def
  by (auto simp: off_tvl_def off_dex_def intro!: off_rules change_same split: option.splits sum.splits prod.splits)

lemma pool_tvl_sends: "submits P fetch \<Longrightarrow> sends P (pool_tvl cx d fetch p)"
  unfolding pool_tvl_def fetch_tvl_def
  by (auto intro!: sends_rules on_net_sends logs.tried split: option.splits sum.splits prod.splits)

lemma dex_balance_submits: "submits P (dex_balance cx m)"
  unfolding dex_balance_def by (auto intro!: submits_rules split: prod.splits)

lemma raise_swap_submits:
  assumes "\<And>m. P (SwapTx m)" and "submits P after" and "\<And>d. \<exists>ps. ways d = map (\<lambda>(a, b). swap_in cx a b d) ps"
  shows "submits P (raise_swap cx after ways m bal want)"
proof -
  have "submits P (attempts (ways d))" for d
  proof -
    obtain ps where "ways d = map (\<lambda>(a, b). swap_in cx a b d) ps" using assms(3) by blast
    then show ?thesis by (auto simp: swap_in_def intro!: attempts_submits swapForToken_submits assms(1))
  qed
  then show ?thesis
    unfolding raise_swap_def Let_def bn_lit_def
    by (auto intro!: submits_rules assms(2) output_submits dex_balance_submits)
qed

lemma dex_ways_swap:
  "\<exists>ps. dex_ways_to_A cx pl b d = map (\<lambda>(x, y). swap_in cx x y d) ps"
  "\<exists>ps. dex_ways_to_B cx pl b w d = map (\<lambda>(x, y). swap_in cx x y d) ps"
proof -
  show "\<exists>ps. dex_ways_to_A cx pl b d = map (\<lambda>(x, y). swap_in cx x y d) ps"
    by (rule exI [of _ "(if pi_mintA pl = NATIVE_MINT \<or> bn_isZero (xbn cx) b then [] else [(pi_mintB pl, pi_mintA pl)]) @ [(USDC_MINT, pi_mintA pl)]"])
       (simp add: dex_ways_to_A_def)
  show "\<exists>ps. dex_ways_to_B cx pl b w d = map (\<lambda>(x, y). swap_in cx x y d) ps"
    by (rule exI [of _ "(USDC_MINT, pi_mintB pl) # (if pi_mintB pl \<noteq> NATIVE_MINT \<and> bn_gt (xbn cx) b w then [(pi_mintA pl, pi_mintB pl)] else [])"])
       (simp add: dex_ways_to_B_def)
qed

text \<open>
  What a deposit may name as its maximum of one token, of which \<open>w\<close> is wanted (and \<open>w'\<close> of the other): at most \<open>w\<close>; but on a
  side of which nothing is wanted, while something of the other is, exactly the balance the wallet was read to have.
\<close>

definition side_max :: "('b, 'w) xcx \<Rightarrow> ('b \<Rightarrow> int) \<Rightarrow> pubkey \<Rightarrow> 'b \<Rightarrow> 'b \<Rightarrow> 'b \<Rightarrow> bool" where
  "side_max cx val m w w' a \<longleftrightarrow>
     (if val w = 0 \<and> val w' \<noteq> 0 then gives (dex_balance cx m) a else val a \<le> val w)"

text \<open>A balance that was read and not changed since; only known where nothing is wanted.\<close>

definition side_read :: "('b, 'w) xcx \<Rightarrow> ('b \<Rightarrow> int) \<Rightarrow> pubkey \<Rightarrow> 'b \<Rightarrow> 'b \<Rightarrow> bool" where
  "side_read cx val m w b \<longleftrightarrow> (val w = 0 \<longrightarrow> gives (dex_balance cx m) b)"

lemma side_readI: "gives (dex_balance cx m) b \<Longrightarrow> side_read cx val m w b"
  by (simp add: side_read_def)

lemma most_of_side:
  "bn_spec (xbn cx) val \<Longrightarrow> side_read cx val m w b \<Longrightarrow> side_max cx val m w w' (most_of (xbn cx) w w' b)"
  using bn_spec_gt [of "xbn cx" val] by (simp add: side_max_def side_read_def most_of_def bn_min_def bn_lt_def bn_spec_simps)

lemma raise_swap_read:
  assumes "bn_spec (xbn cx) val" and "gives (raise_swap cx after ways m bal want) (Some (b, swapped, gains))"
    and "side_read cx val m want bal"
  shows "side_read cx val m want b"
  using assms by (cases "val want = 0") (auto simp: side_read_def raise_swap_def bn_spec_simps)

text \<open>The lock of the executor around a body.\<close>

lemma dex_lock_run:
  assumes "with_dex_lock d m s = (r, s')"
  obtains (held) "dex_busy d s" "r = Inr None" "s' = s"
  | (ran) t where "\<not> dex_busy d s" "m (upd_dex d (\<lambda>x. x\<lparr>dx_busy := True\<rparr>) s) = (r, t)"
      "s' = upd_dex d (\<lambda>x. x\<lparr>dx_busy := False\<rparr>) t"
  using assms by (cases "dex_busy d s") (auto simp: with_dex_lock_def finally_op_def split: prod.splits)

lemma dex_lock_sends: "sends P m \<Longrightarrow> sends P (with_dex_lock d m)"
  unfolding always_def
proof
  fix s assume m: "\<forall>s. logs_only traffic P s (snd (m s))"
  obtain r s' where run: "with_dex_lock d m s = (r, s')" by fastforce
  then show "logs_only traffic P s (snd (with_dex_lock d m s))"
  proof (cases rule: dex_lock_run)
    case (ran t)
    then show ?thesis using m [rule_format, of "upd_dex d (\<lambda>x. x\<lparr>dx_busy := True\<rparr>) s"] run by (simp add: logs_only_def)
  qed (simp add: run logs_only_def)
qed

section \<open>Contracts\<close>

text \<open>
  Contracts of operations that may write one entry for \<open>nft\<close>: a result means that an entry with \<open>E\<close> was
  written, an error (or, for \<open>opens\<close>, no result) that the position map is as before.
\<close>

definition writes :: "string \<Rightarrow> (js_num PositionEntry \<Rightarrow> bool) \<Rightarrow> js_num position_memory \<Rightarrow> js_num position_memory \<Rightarrow> bool" where
  "writes nft E m m' \<longleftrightarrow> (\<exists>e. E e \<and> map_of m' = (map_of m)(nft \<mapsto> e))"

definition saves ::
  "('s \<Rightarrow> js_num position_memory) \<Rightarrow> string \<Rightarrow> (js_num PositionEntry \<Rightarrow> bool) \<Rightarrow> 's \<Rightarrow> 'a result \<Rightarrow> 's \<Rightarrow> bool" where
  "saves g nft E s r s' \<longleftrightarrow> (case r of Inr _ \<Rightarrow> writes nft E (g s) (g s') | Inl _ \<Rightarrow> g s' = g s)"

definition opens ::
  "('s \<Rightarrow> js_num position_memory) \<Rightarrow> string \<Rightarrow> (js_num PositionEntry \<Rightarrow> bool) \<Rightarrow> 's \<Rightarrow> 'a option result \<Rightarrow> 's \<Rightarrow> bool" where
  "opens g nft E s r s' \<longleftrightarrow> (case r of Inr (Some _) \<Rightarrow> writes nft E (g s) (g s') | _ \<Rightarrow> g s' = g s)"

lemma saves_bind:
  assumes "always (same g) m" and "\<And>a. gives m a \<Longrightarrow> meets (f a) (saves g nft E)"
  shows "meets (bind_op m f) (saves g nft E)"
  using assms by (rule same.meets_bind) (auto simp: saves_def same_def split: sum.splits)

lemma opens_bind:
  assumes "always (same g) m" and "\<And>a. gives m a \<Longrightarrow> meets (f a) (opens g nft E)"
  shows "meets (bind_op m f) (opens g nft E)"
  using assms by (rule same.meets_bind) (auto simp: opens_def same_def split: sum.splits option.splits)

lemma opens_none: "always (same g) m \<Longrightarrow> (\<And>a. gives m a \<Longrightarrow> a = None) \<Longrightarrow> meets m (opens g nft E)"
  by (rule meetsI) (auto simp: opens_def same_def dest: alwaysD givesI split: sum.splits option.splits)

lemma saves_throw: "meets (throw e) (saves g nft E)"
  by (simp add: meets_def saves_def op_simps)

lemma saves_then: "meets m (saves g nft E) \<Longrightarrow> meets (bind_op m (\<lambda>_. ret x)) (saves g nft E)"
  by (auto simp: meets_def saves_def bind_op_def op_simps split: prod.splits sum.splits) (metis fst_conv snd_conv sum.case)+

lemma saves_opens: "meets m (saves g nft E) \<Longrightarrow> meets (bind_op m (\<lambda>a. ret (Some a))) (opens g nft E)"
  by (auto simp: meets_def saves_def opens_def bind_op_def op_simps split: prod.splits sum.splits) (metis fst_conv snd_conv sum.case)+

lemma gives_tried: "gives (try_op m) (Inr a) \<Longrightarrow> gives m a"
proof -
  assume "gives (try_op m) (Inr a)"
  then obtain s s' where g: "try_op m s = (Inr (Inr a), s')" by (auto simp: gives_def)
  obtain r t where "m s = (r, t)" by fastforce
  with g show ?thesis by (auto simp: try_op_def intro: givesI)
qed

lemma opens_catch:
  assumes "meets m (opens g nft E)" and "\<And>e. meets (h e) (opens g nft E)"
  shows "meets (catch_op m h) (opens g nft E)"
proof (rule meetsI)
  fix s r s' assume run: "catch_op m h s = (r, s')"
  obtain q t where m: "m s = (q, t)" by fastforce
  have q: "opens g nft E s q t" using assms(1) m by (rule meetsD)
  show "opens g nft E s r s'"
  proof (cases q)
    case (Inl e)
    then have h: "h e t = (r, s')" "g t = g s" using run m q by (simp_all add: catch_op_def opens_def)
    have "opens g nft E t r s'" using assms(2) h(1) by (rule meetsD)
    with h(2) show ?thesis by (simp add: opens_def split: sum.splits option.splits)
  next
    case (Inr a)
    with run m q show ?thesis by (simp add: catch_op_def)
  qed
qed

end
