(* ===== verification/Orca_Exec.thy ===== *)
theory Orca_Exec
  imports Dex_Common
begin

text \<open>
  The Orca executor (\<^verbatim>\<open>src/executor/orca-position.ts\<close>): copying an open, increase, decrease and close of a
  Whirlpool position, closing by hand, and the reconciliation. The SDK (\<^verbatim>\<open>@orca-so/whirlpools-sdk\<close>) is the record
  \<open>orca_sdk\<close>: reading positions and pools, the quote of a position's token amounts, and building with sending.
\<close>

section \<open>The SDK and the context\<close>

record 'b whirl_position =
  wp_whirlpool :: pubkey
  wp_tickLower :: int
  wp_tickUpper :: int
  wp_liquidity :: 'b

record ('b, 'w) orca_sdk =
  os_getPosition :: "string \<Rightarrow> 'w \<Rightarrow> 'b whirl_position option result \<times> 'w"
  os_getPool :: "pubkey \<Rightarrow> 'w \<Rightarrow> 'b pool_info result \<times> 'w"
  os_extension :: "'b pool_info \<Rightarrow> 'w \<Rightarrow> unit result \<times> 'w" \<comment> \<open>\<^verbatim>\<open>buildTokenExtensionContextForPool\<close>\<close>
  os_quote :: "'b whirl_position \<Rightarrow> 'b pool_info \<Rightarrow> ('b \<times> 'b) result" \<comment> \<open>\<^verbatim>\<open>tokenEstA\<close>, \<^verbatim>\<open>tokenEstB\<close>\<close>
  os_ticksMissing :: "pubkey \<Rightarrow> int \<Rightarrow> int \<Rightarrow> 'w \<Rightarrow> bool result \<times> 'w" \<comment> \<open>\<^verbatim>\<open>initTickArrayForTicks\<close> has a transaction\<close>
  os_openPosition :: "pubkey \<Rightarrow> int \<Rightarrow> int \<Rightarrow> 'b \<Rightarrow> 'b \<Rightarrow> 'w \<Rightarrow> string result \<times> 'w" \<comment> \<open>\<^verbatim>\<open>positionMint\<close>\<close>
  os_execute :: "'b orca_tx \<Rightarrow> 'w \<Rightarrow> string result \<times> 'w" \<comment> \<open>\<^verbatim>\<open>buildAndExecute\<close>\<close>
  os_closeCount :: "'b pool_info \<Rightarrow> string \<Rightarrow> 'w \<Rightarrow> nat result \<times> 'w" \<comment> \<open>number of \<^verbatim>\<open>txBuilders\<close>\<close>
  os_poolTvl :: "string \<Rightarrow> 'w \<Rightarrow> json result \<times> 'w"

record ('b, 'w) ocx =
  ob :: "('b, 'w) xcx"
  osdk :: "('b, 'w) orca_sdk"
  orcaSkipSol :: bool
  tvlFromJupiter :: bool

section \<open>Shared steps\<close>

text \<open>Every failure to read a position is \<open>None\<close>, an unreachable node as well as a missing account.\<close>

definition getPositionByNft :: "('b, 'w) ocx \<Rightarrow> string \<Rightarrow> ('b, 'w, 'b whirl_position option) net_op" where
  "getPositionByNft cx nft = catch_op (request (os_getPosition (osdk cx) nft)) (\<lambda>_. ret None)"

fun await_position :: "('b, 'w) ocx \<Rightarrow> nat \<Rightarrow> string \<Rightarrow> ('b, 'w, 'b whirl_position option) net_op" where
  "await_position cx 0 nft = getPositionByNft cx nft"
| "await_position cx (Suc n) nft =
     bind_op (getPositionByNft cx nft) (\<lambda>p. case p of Some x \<Rightarrow> ret (Some x) | None \<Rightarrow> await_position cx n nft)"

definition execute :: "('b, 'w) ocx \<Rightarrow> 'b orca_tx \<Rightarrow> ('b, 'w, string) net_op" where
  "execute cx t = submit (OrcaTx t) (os_execute (osdk cx) t)"

text \<open>\<^verbatim>\<open>parseFloat(data?.data?.tvlUsdc ?? data?.tvlUsdc ?? '0')\<close>\<close>

definition orca_tvl_of :: "json \<Rightarrow> js_num" where
  "orca_tvl_of js =
     (let a = json_opt (json_opt js ''data'') ''tvlUsdc''; b = json_opt js ''tvlUsdc'';
          nullish = (\<lambda>v. v = JNull \<or> v = JUndefined)
      in parseFloat (js_String (if \<not> nullish a then a else if \<not> nullish b then b else JString ''0'')))"

definition getOrcaPoolTvl :: "('b, 'w) ocx \<Rightarrow> string \<Rightarrow> ('j, 'b, 'w, js_num option) xop" where
  "getOrcaPoolTvl cx p =
     pool_tvl (ob cx) ORCA (bind_op (request (os_poolTvl (osdk cx) p)) (\<lambda>js. ret (Some (orca_tvl_of js)))) p"

definition orca_liquidity :: "('b, 'w) ocx \<Rightarrow> string \<Rightarrow> string \<Rightarrow> ('j, 'b, 'w, js_num option) xop" where
  "orca_liquidity cx p m = liquidity_of (ob cx) (tvlFromJupiter cx) m (getOrcaPoolTvl cx p)"

section \<open>Opening\<close>

text \<open>Only the first mint that is neither whitelisted nor a stable coin nor SOL is checked.\<close>

fun orca_tvl_filter :: "('b, 'w) ocx \<Rightarrow> string \<Rightarrow> string list \<Rightarrow> ('j, 'b, 'w, string option) xop" where
  "orca_tvl_filter cx p [] = ret None"
| "orca_tvl_filter cx p (m # ms) =
     (if m \<in> set (poolTvlWhitelist (xc (ob cx))) \<or> \<not> plain_mint m then orca_tvl_filter cx p ms
      else bind_op (orca_liquidity cx p m) (\<lambda>tvl.
        if too_thin (ob cx) tvl
        then bind_op (of_result (thin_text tvl (minPoolTvl (xc (ob cx))))) (\<lambda>t. ret (Some t)) else ret None))"

definition orca_filters :: "('b, 'w) ocx \<Rightarrow> string \<Rightarrow> string \<Rightarrow> 'b pool_info \<Rightarrow> ('j, 'b, 'w, string option) xop" where
  "orca_filters cx p wallet pl =
     first_reason
       [ret (if sol_or_listed (ob cx) (orcaSkipSol cx) pl
             then Some (utf8 [228, 187, 163, 229, 185, 163, 233, 187, 145, 229, 144, 141, 229, 150, 174]) else None),
        pump_filter (ob cx) wallet pl,
        if num_lt (Num 0) (minPoolTvl (xc (ob cx))) then orca_tvl_filter cx p [pi_mintA pl, pi_mintB pl] else ret None]"

text \<open>The expected cost in USDC of a missing amount, with a margin of 5%; no answer costs nothing.\<close>

definition estimateSwapCost :: "('b, 'w) xcx \<Rightarrow> string \<Rightarrow> 'b \<Rightarrow> ('b, 'w, 'b option) net_op" where
  "estimateSwapCost cx m amt =
     catch_op
       (bind_op (get_quote (xsv cx) USDC_MINT m ''1000000'') (\<lambda>probe.
        bind_op (of_result (needed_input probe (bn_toString (xbn cx) amt))) (\<lambda>n.
          case n of
            None \<Rightarrow> ret None
          | Some needed \<Rightarrow>
              bind_op (of_result (bn_of_string (xbn cx) (show_int (big_div (needed * 105) 100)))) (\<lambda>b. ret (Some b)))))
       (\<lambda>_. ret None)"

definition missing_of :: "'b BN \<Rightarrow> 'b \<Rightarrow> 'b \<Rightarrow> 'b result" where
  "missing_of bn want bal =
     (if bn_gt bn want bal \<and> \<not> bn_isZero bn want then Inr (bn_sub bn want bal) else bn_of_num bn (Num 0))"

definition cost_of :: "('b, 'w) xcx \<Rightarrow> string \<Rightarrow> 'b \<Rightarrow> ('b, 'w, int) net_op" where
  "cost_of cx m d =
     (if bn_isZero (xbn cx) d then ret 0
      else if m = USDC_MINT then of_result (BigInt_of (bn_toString (xbn cx) d))
      else bind_op (estimateSwapCost cx m d) (\<lambda>c.
        case c of None \<Rightarrow> ret 0 | Some x \<Rightarrow> of_result (BigInt_of (bn_toString (xbn cx) x))))"

definition usdc_text :: "int \<Rightarrow> int \<Rightarrow> string result" where
  "usdc_text need have_now =
     bind_result (toFixed (num_div (to_num (of_int need)) 1000000) 2) (\<lambda>a.
     bind_result (toFixed (num_div (to_num (of_int have_now)) 1000000) 2) (\<lambda>b.
       Inr (utf8 [85, 83, 68, 67, 32, 228, 184, 141, 232, 182, 179, 32, 40, 233, 156, 128, 32, 126] @ a @
            utf8 [44, 32, 230, 156, 137, 32] @ b @ '')'')))"

text \<open>The reason not to swap at all: what is missing costs more than the USDC there is.\<close>

definition usdc_precheck ::
  "('b, 'w) xcx \<Rightarrow> 'b pool_info \<Rightarrow> 'b \<Rightarrow> 'b \<Rightarrow> 'b \<Rightarrow> 'b \<Rightarrow> ('b, 'w, string option) net_op" where
  "usdc_precheck cx pl wantA wantB balA balB =
     bind_op (of_result (missing_of (xbn cx) wantA balA)) (\<lambda>dA.
     bind_op (of_result (missing_of (xbn cx) wantB balB)) (\<lambda>dB.
     bind_op (cost_of cx (pi_mintA pl) dA) (\<lambda>cA.
     bind_op (cost_of cx (pi_mintB pl) dB) (\<lambda>cB.
       if cA + cB \<le> 0 then ret None
       else bind_op (if pi_mintA pl = USDC_MINT then ret balA
                     else if pi_mintB pl = USDC_MINT then ret balB else dex_balance cx USDC_MINT) (\<lambda>usdc.
            bind_op (of_result (BigInt_of (bn_toString (xbn cx) usdc))) (\<lambda>usdcBal.
              if cA + cB > usdcBal then bind_op (of_result (usdc_text (cA + cB) usdcBal)) (\<lambda>t. ret (Some t))
              else ret None))))))"

text \<open>
  The tokens swapped in before an open are remembered in a local variable that the handler of a failure reads:
  the operations of the body run on the state paired with it.
\<close>

type_synonym ('j, 'b, 'w, 'a) noting = "(('j, 'b, 'w) xbot \<times> (string \<times> 'b) list, 'a) op"

definition noted :: "('j, 'b, 'w, 'a) xop \<Rightarrow> ('j, 'b, 'w, 'a) noting" where
  "noted m = zoom fst apfst m"

definition raise_noted ::
  "('b, 'w) xcx \<Rightarrow> ('b \<Rightarrow> ('b, 'w, string option) net_op list) \<Rightarrow> string \<Rightarrow> 'b \<Rightarrow> 'b \<Rightarrow>
   ('j, 'b, 'w, ('b \<times> bool) option) noting" where
  "raise_noted cx ways m balance wanted =
     bind_op (noted (on_net (raise_swap cx (ret ()) ways m balance wanted))) (\<lambda>r.
       case r of
         None \<Rightarrow> ret None
       | Some (b, swapped, gains) \<Rightarrow>
           bind_op (change (apsnd (\<lambda>l. l @ map (Pair m) gains))) (\<lambda>_. ret (Some (b, swapped))))"

definition raise_both ::
  "('b, 'w) xcx \<Rightarrow> 'b pool_info \<Rightarrow> 'b \<Rightarrow> 'b \<Rightarrow> 'b \<Rightarrow> 'b \<Rightarrow> ('j, 'b, 'w, ('b \<times> 'b) option) noting" where
  "raise_both cx pl wantA wantB balA0 balB0 =
     bind_op (raise_noted cx (dex_ways_to_A cx pl balB0) (pi_mintA pl) balA0 wantA) (\<lambda>ra.
       case ra of
         None \<Rightarrow> ret None
       | Some (balA, swapped) \<Rightarrow>
           bind_op (if swapped then noted (on_net (dex_balance cx (pi_mintB pl))) else ret balB0) (\<lambda>balB1.
           bind_op (raise_noted cx (dex_ways_to_B cx pl balA wantA) (pi_mintB pl) balB1 wantB) (\<lambda>rb.
             ret (map_option (\<lambda>(balB, _). (balA, balB)) rb))))"

definition save_whirl ::
  "('b, 'w) ocx \<Rightarrow> string \<Rightarrow> string \<Rightarrow> 'b pool_info \<Rightarrow> 'b whirl_position \<Rightarrow> string \<Rightarrow> ('j, 'b, 'w, unit) xop" where
  "save_whirl cx nft wallet pl pos ours =
     bind_op (now_op (ob cx)) (\<lambda>now.
       change (\<lambda>s. on_positions (PM_setTargetLiquidity nft (bn_toString (xbn (ob cx)) (wp_liquidity pos)))
         (on_positions (PM_setLockedSol nft (dx_rent (dexes (other s) ORCA)))
           (on_positions (PM_set now nft ours (Some (pool_label pl)) (Some wallet) (Some (wp_tickLower pos))
             (Some (wp_tickUpper pos)) (Some ''orca'')) s))))"

text \<open>Up to the position's address: initialise the tick arrays if needed, then build the open.\<close>

definition prepare_whirl :: "('b, 'w) ocx \<Rightarrow> 'b whirl_position \<Rightarrow> 'b \<Rightarrow> 'b \<Rightarrow> ('b, 'w, string) net_op" where
  "prepare_whirl cx pos maxA maxB =
     (let p = wp_whirlpool pos; lo = wp_tickLower pos; up = wp_tickUpper pos
      in bind_op (request (os_ticksMissing (osdk cx) p lo up)) (\<lambda>missing.
         bind_op (if missing then execute cx (InitTicksTx p lo up) else ret '''') (\<lambda>_.
           request (os_openPosition (osdk cx) p lo up maxA maxB))))"

text \<open>
  The attempts to open. A position whose transaction failed is looked up once more; when it is there, it is
  recorded all the same.
\<close>

fun whirl_loop ::
  "('b, 'w) ocx \<Rightarrow> string \<Rightarrow> string \<Rightarrow> 'b pool_info \<Rightarrow> 'b whirl_position \<Rightarrow> 'b \<Rightarrow> 'b \<Rightarrow> nat \<Rightarrow> 'b \<times> 'b \<Rightarrow> ('j, 'b, 'w, string) xop" where
  "whirl_loop cx nft wallet pl pos wantA wantB 0 bals = throw (Error ''unreachable'')"
| "whirl_loop cx nft wallet pl pos wantA wantB (Suc n) bals =
     (let maxA = most_of (xbn (ob cx)) wantA wantB (fst bals); maxB = most_of (xbn (ob cx)) wantB wantA (snd bals);
          again = (\<lambda>e. if n > 0 \<and> retryable e then
             bind_op (on_net (dex_balance (ob cx) (pi_mintA pl))) (\<lambda>balA.
             bind_op (on_net (dex_balance (ob cx) (pi_mintB pl))) (\<lambda>balB.
               whirl_loop cx nft wallet pl pos wantA wantB n (balA, balB)))
           else throw e)
      in bind_op (on_net (try_op (prepare_whirl cx pos maxA maxB))) (\<lambda>r.
           case r of
             Inl e \<Rightarrow> again e
           | Inr ours \<Rightarrow>
               bind_op (on_net (try_op (execute cx (WhirlOpenTx (wp_whirlpool pos) (wp_tickLower pos) (wp_tickUpper pos) maxA maxB))))
                 (\<lambda>q. case q of
                    Inr sig \<Rightarrow> bind_op (save_whirl cx nft wallet pl pos ours) (\<lambda>_. ret sig)
                  | Inl e \<Rightarrow>
                      bind_op (on_net (getPositionByNft cx ours)) (\<lambda>there.
                        if there \<noteq> None
                        then bind_op (save_whirl cx nft wallet pl pos ours) (\<lambda>_. ret (''recovered-'' @ take 8 ours))
                        else again e))))"

text \<open>From the amounts on: balances, the check of the USDC, the swaps, the open.\<close>

definition whirl_deposit ::
  "('b, 'w) ocx \<Rightarrow> string \<Rightarrow> string \<Rightarrow> 'b pool_info \<Rightarrow> 'b whirl_position \<Rightarrow> 'b \<Rightarrow> 'b \<Rightarrow> ('j, 'b, 'w, string option) noting" where
  "whirl_deposit cx nft wallet pl pos wantA wantB =
     bind_op (noted (on_net (dex_balance (ob cx) (pi_mintA pl)))) (\<lambda>balA.
     bind_op (noted (on_net (dex_balance (ob cx) (pi_mintB pl)))) (\<lambda>balB.
     bind_op (noted (on_net (usdc_precheck (ob cx) pl wantA wantB balA balB))) (\<lambda>reason.
       case reason of
         Some t \<Rightarrow> noted (skip_dex ORCA t)
       | None \<Rightarrow>
           bind_op (raise_both (ob cx) pl wantA wantB balA balB) (\<lambda>bals.
             case bals of
               None \<Rightarrow> ret None
             | Some b \<Rightarrow>
                 if bn_isZero (xbn (ob cx)) (fst b) \<and> bn_isZero (xbn (ob cx)) (snd b) then ret None
                 else bind_op (noted (whirl_loop cx nft wallet pl pos wantA wantB 2 b)) (\<lambda>sig. ret (Some sig))))))"

definition whirl_open ::
  "('b, 'w) ocx \<Rightarrow> string \<Rightarrow> string \<Rightarrow> string \<Rightarrow> 'b whirl_position \<Rightarrow> ('j, 'b, 'w, string option) noting" where
  "whirl_open cx nft p wallet pos =
     bind_op (noted (on_net (request (os_getPool (osdk cx) (wp_whirlpool pos))))) (\<lambda>pl.
     bind_op (noted (orca_filters cx p wallet pl)) (\<lambda>reason.
       case reason of
         Some t \<Rightarrow> noted (skip_dex ORCA t)
       | None \<Rightarrow>
           bind_op (noted (on_net (request (os_extension (osdk cx) pl)))) (\<lambda>_.
             if bn_isZero (xbn (ob cx)) (wp_liquidity pos)
             then noted (skip_dex ORCA (utf8 [231, 155, 174, 230, 168, 153, 230, 181, 129, 229, 139, 149, 230, 128, 167, 231, 130, 186, 233, 155, 182]))
             else bind_op (of_result (os_quote (osdk cx) pos pl)) (\<lambda>(estA, estB).
                  let ratios = swc_ratios (xc_swap (xc (ob cx)))
                  in bind_op (of_result (scaleAmount (xbn (ob cx)) ratios estA (Some wallet))) (\<lambda>wantA.
                     bind_op (of_result (scaleAmount (xbn (ob cx)) ratios estB (Some wallet))) (\<lambda>wantB.
                       if bn_isZero (xbn (ob cx)) wantA \<and> bn_isZero (xbn (ob cx)) wantB
                       then noted (skip_dex ORCA (utf8 [229, 173, 152, 230, 172, 190, 233, 135, 145, 233, 161, 141, 231, 130, 186, 233, 155, 182]))
                       else whirl_deposit cx nft wallet pl pos wantA wantB))))))"

text \<open>Swapping back what was swapped in; failures are only logged.\<close>

fun swapBackOnFailure :: "('b, 'w) xcx \<Rightarrow> (string \<times> 'b) list \<Rightarrow> ('b, 'w, unit) net_op" where
  "swapBackOnFailure cx [] = ret ()"
| "swapBackOnFailure cx ((m, amt) # rest) =
     bind_op (if plain_mint m then of_result (lte_lit (xbn cx) amt 0) else ret True) (\<lambda>nothing.
     bind_op (if nothing then ret (Inr None)
              else try_op (jupSwapExactIn (xc_swap (xc cx)) (xsv cx) m USDC_MINT (bn_toString (xbn cx) amt))) (\<lambda>_.
       swapBackOnFailure cx rest))"

definition orca_open_failed :: "('b, 'w) ocx \<Rightarrow> js_error \<Rightarrow> ('j, 'b, 'w, string option) noting" where
  "orca_open_failed cx e =
     bind_op (look snd) (\<lambda>swapped.
     bind_op (noted (on_net (swapBackOnFailure (ob cx) swapped))) (\<lambda>_.
     bind_op (if insufficient_lamports e then noted (sol_exhausted (ob cx) ORCA) else ret ()) (\<lambda>_. ret None)))"

text \<open>\<^verbatim>\<open>const swappedTokens = []; try { body } catch { ... }\<close>\<close>

definition with_notes :: "('j, 'b, 'w, 'a) noting \<Rightarrow> ('j, 'b, 'w, 'a) xop" where
  "with_notes m s = (case m (s, []) of (r, (s', _)) \<Rightarrow> (r, s'))"

definition orca_copyOpen :: "('b, 'w) ocx \<Rightarrow> string \<Rightarrow> string \<Rightarrow> string \<Rightarrow> ('j, 'b, 'w, string option) xop" where
  "orca_copyOpen cx nft p wallet s =
     (if truthy (PM_get nft (positions s)) then (Inr None, s)
      else if solPaused (execs s ORCA)
        then skip_dex ORCA (utf8 [83, 79, 76, 32, 228, 184, 141, 232, 182, 179, 230, 154, 171, 229, 129, 156]) s
      else if drawdownPaused (execs s ORCA)
        then skip_dex ORCA (utf8 [229, 155, 158, 230, 146, 164, 228, 191, 157, 232, 173, 183, 230, 154, 171, 229, 129, 156]) s
      else if wallet \<in> set (close_only (xdc (ob cx)) ORCA)
        then skip_dex ORCA (utf8 [67, 108, 111, 115, 101, 45, 111, 110, 108, 121, 32, 233, 140, 162, 229, 140, 133]) s
      else if dryRun (xc (ob cx)) then (Inr (Some ''dry-run-orca-open''), s)
      else with_dex_lock ORCA (finally_op
             (with_notes (catch_op
               (bind_op (noted (on_net (await_position cx 3 nft))) (\<lambda>pos.
                  case pos of None \<Rightarrow> ret None | Some x \<Rightarrow> whirl_open cx nft p wallet x))
               (orca_open_failed cx)))
             (later (RefreshDexSol ORCA))) s)"

section \<open>Closing\<close>

text \<open>The transactions of a close in order; the signature is the last one's.\<close>

fun close_parts :: "('b, 'w) ocx \<Rightarrow> string \<Rightarrow> nat \<Rightarrow> nat \<Rightarrow> string \<Rightarrow> ('b, 'w, string) net_op" where
  "close_parts cx ours i 0 sig = ret sig"
| "close_parts cx ours i (Suc n) sig = bind_op (execute cx (WhirlCloseTx ours i)) (\<lambda>sig'. close_parts cx ours (Suc i) n sig')"

text \<open>One attempt: \<open>None\<close> when our position cannot be read, which drops the mapping.\<close>

definition close_once :: "('b, 'w) ocx \<Rightarrow> string \<Rightarrow> ('b, 'w, string option) net_op" where
  "close_once cx ours =
     bind_op (getPositionByNft cx ours) (\<lambda>p.
       case p of
         None \<Rightarrow> ret None
       | Some pos \<Rightarrow>
           bind_op (request (os_getPool (osdk cx) (wp_whirlpool pos))) (\<lambda>pl.
           bind_op (request (os_closeCount (osdk cx) pl ours)) (\<lambda>n.
           bind_op (close_parts cx ours 0 n '''') (\<lambda>sig. ret (Some sig)))))"

fun orca_close_loop :: "('b, 'w) ocx \<Rightarrow> nat \<Rightarrow> string \<Rightarrow> string \<Rightarrow> ('j, 'b, 'w, string option) xop" where
  "orca_close_loop cx 0 nft ours = ret None"
| "orca_close_loop cx (Suc n) nft ours =
     bind_op (on_net (try_op (close_once cx ours))) (\<lambda>r.
       case r of
         Inl e \<Rightarrow> if n > 0 \<and> retryable e then orca_close_loop cx n nft ours else throw e
       | Inr None \<Rightarrow> bind_op (change (on_positions (PM_delete nft))) (\<lambda>_. ret None)
       | Inr (Some sig) \<Rightarrow>
           if sig = [] then ret None
           else bind_op (on_net (verifyTxSuccess (xsv (ob cx)) sig)) (\<lambda>ok.
             if ok then ret (Some sig) else orca_close_loop cx n nft ours))"

definition orca_copyClose :: "('b, 'w) ocx \<Rightarrow> string \<Rightarrow> ('j, 'b, 'w, string option) xop" where
  "orca_copyClose cx nft s =
     (case PM_get nft (positions s) of
        None \<Rightarrow> (Inr None, s)
      | Some ours \<Rightarrow>
          if ours = [] then (Inr None, s)
          else if dryRun (xc (ob cx)) then (Inr (Some ''dry-run-orca-close''), s)
          else with_dex_lock ORCA (catch_op
                 (bind_op (orca_close_loop cx 3 nft ours) (\<lambda>r.
                    case r of
                      None \<Rightarrow> ret None
                    | Some sig \<Rightarrow>
                        bind_op (change (on_positions (PM_delete nft))) (\<lambda>_.
                        bind_op (credit_received (ob cx) sig) (\<lambda>_. ret (Some sig)))))
                 (\<lambda>_. ret None)) s)"

definition orca_manualClose :: "('b, 'w) ocx \<Rightarrow> string \<Rightarrow> ('j, 'b, 'w, string option) xop" where
  "orca_manualClose cx ours s =
     (case PM_findByOurNft ours (positions s) of
        None \<Rightarrow> (Inr None, s)
      | Some nft \<Rightarrow> if nft = [] then (Inr None, s) else orca_copyClose cx nft s)"

section \<open>Increasing\<close>

text \<open>
  What is missing to the target's scaled amounts, read at most twice: \<open>None\<close> when the target cannot be read.
\<close>

fun whirl_delta ::
  "('b, 'w) ocx \<Rightarrow> string \<Rightarrow> string \<Rightarrow> string \<Rightarrow> 'b pool_info \<Rightarrow> 'b whirl_position \<Rightarrow> bool \<Rightarrow> nat \<Rightarrow>
   ('b, 'w, ('b \<times> 'b) option) net_op" where
  "whirl_delta cx nft ours wallet pl mine again 0 = ret None"
| "whirl_delta cx nft ours wallet pl mine again (Suc n) =
     bind_op (getPositionByNft cx nft) (\<lambda>t.
       case t of
         None \<Rightarrow> ret None
       | Some tpos \<Rightarrow>
           let bn = xbn (ob cx); ratios = swc_ratios (xc_swap (xc (ob cx)))
           in bind_op (of_result (os_quote (osdk cx) tpos pl)) (\<lambda>(estA, estB).
              bind_op (of_result (scaleAmount bn ratios estA (Some wallet))) (\<lambda>wantA.
              bind_op (of_result (scaleAmount bn ratios estB (Some wallet))) (\<lambda>wantB.
              bind_op (if again then getPositionByNft cx ours else ret (Some mine)) (\<lambda>fresh.
              bind_op (of_result (os_quote (osdk cx) (case fresh of Some f \<Rightarrow> f | None \<Rightarrow> mine) pl)) (\<lambda>(haveA, haveB).
              bind_op (bn_lit bn 0) (\<lambda>z.
                let dA = bn_sub bn wantA haveA; dB = bn_sub bn wantB haveB
                in if n > 0 \<and> \<not> bn_gt bn dA z \<and> \<not> bn_gt bn dB z then whirl_delta cx nft ours wallet pl mine True n
                   else ret (Some (dA, dB)))))))))"

definition increase_refused :: "('b, 'w) ocx \<Rightarrow> 'b whirl_position \<Rightarrow> 'b pool_info \<Rightarrow> ('j, 'b, 'w, bool) xop" where
  "increase_refused cx pos pl =
     bind_op (look (pump_refused (ob cx) pl)) (\<lambda>pump.
       if pump then ret True
       else if num_lt (Num 0) (minPoolTvl (xc (ob cx))) then
         bind_op (orca_liquidity cx (wp_whirlpool pos) (if plain_mint (pi_mintA pl) then pi_mintA pl else pi_mintB pl)) (\<lambda>tvl.
           ret (too_thin (ob cx) tvl))
       else ret False)"

text \<open>The amounts are raised as for an open; nothing is swapped back.\<close>

fun whirl_add :: "('b, 'w) ocx \<Rightarrow> string \<Rightarrow> 'b pool_info \<Rightarrow> 'b \<Rightarrow> 'b \<Rightarrow> nat \<Rightarrow> 'b \<times> 'b \<Rightarrow> ('b, 'w, string) net_op" where
  "whirl_add cx ours pl wantA wantB 0 bals = throw (Error ''unreachable'')"
| "whirl_add cx ours pl wantA wantB (Suc n) bals =
     catch_op
       (execute cx (WhirlIncreaseTx ours (most_of (xbn (ob cx)) wantA wantB (fst bals)) (most_of (xbn (ob cx)) wantB wantA (snd bals))))
       (\<lambda>e. if n > 0 \<and> retryable e then
               bind_op (dex_balance (ob cx) (pi_mintA pl)) (\<lambda>balA.
               bind_op (dex_balance (ob cx) (pi_mintB pl)) (\<lambda>balB.
                 whirl_add cx ours pl wantA wantB n (balA, balB)))
             else throw e)"

definition whirl_increase ::
  "('b, 'w) ocx \<Rightarrow> string \<Rightarrow> string \<Rightarrow> 'b pool_info \<Rightarrow> 'b \<times> 'b \<Rightarrow> ('j, 'b, 'w, string option) xop" where
  "whirl_increase cx nft ours pl delta =
     (let bn = xbn (ob cx)
      in bind_op (bn_lit bn 0) (\<lambda>z.
         if \<not> bn_gt bn (fst delta) z \<and> \<not> bn_gt bn (snd delta) z then ret None
         else let wantA = (if bn_gt bn (fst delta) z then fst delta else z); wantB = (if bn_gt bn (snd delta) z then snd delta else z)
           in bind_op (on_net (dex_balance (ob cx) (pi_mintA pl))) (\<lambda>balA.
              bind_op (on_net (dex_balance (ob cx) (pi_mintB pl))) (\<lambda>balB.
              bind_op (with_notes (raise_both (ob cx) pl wantA wantB balA balB)) (\<lambda>bals.
                case bals of
                  None \<Rightarrow> ret None
                | Some b \<Rightarrow>
                    bind_op (on_net (whirl_add cx ours pl wantA wantB 2 b)) (\<lambda>sig.
                    bind_op (on_net (getPositionByNft cx nft)) (\<lambda>t.
                    bind_op (case t of
                        None \<Rightarrow> ret ()
                      | Some x \<Rightarrow> change (on_positions (PM_setTargetLiquidity nft (bn_toString bn (wp_liquidity x))))) (\<lambda>_.
                      ret (Some sig)))))))))"

definition orca_copyIncrease :: "('b, 'w) ocx \<Rightarrow> string \<Rightarrow> string \<Rightarrow> ('j, 'b, 'w, string option) xop" where
  "orca_copyIncrease cx nft wallet s =
     (case PM_get nft (positions s) of
        None \<Rightarrow> (Inr None, s)
      | Some ours \<Rightarrow>
          if ours = [] \<or> solPaused (execs s ORCA) \<or> drawdownPaused (execs s ORCA) \<or> wallet \<in> set (close_only (xdc (ob cx)) ORCA)
          then (Inr None, s)
          else if dryRun (xc (ob cx)) then (Inr (Some ''dry-run-orca-increase''), s)
          else with_dex_lock ORCA (catch_op
                 (bind_op (on_net (getPositionByNft cx ours)) (\<lambda>m.
                    case m of
                      None \<Rightarrow> ret None
                    | Some mine \<Rightarrow>
                        bind_op (on_net (request (os_getPool (osdk cx) (wp_whirlpool mine)))) (\<lambda>pl.
                        bind_op (increase_refused cx mine pl) (\<lambda>no.
                          if no then ret None
                          else bind_op (on_net (request (os_extension (osdk cx) pl))) (\<lambda>_.
                               bind_op (on_net (whirl_delta cx nft ours wallet pl mine False 2)) (\<lambda>d.
                                 case d of None \<Rightarrow> ret None | Some delta \<Rightarrow> whirl_increase cx nft ours pl delta))))))
                 (\<lambda>_. ret None)) s)"

section \<open>Decreasing\<close>

definition orca_collect :: "('b, 'w) ocx \<Rightarrow> string \<Rightarrow> ('b, 'w, (string \<times> string) option) net_op" where
  "orca_collect cx ours =
     bind_op (getPositionByNft cx ours) (\<lambda>p.
       case p of
         None \<Rightarrow> ret None
       | Some _ \<Rightarrow> bind_op (execute cx (WhirlCollectTx ours)) (\<lambda>sig. ret (Some (''COLLECT_FEE'', sig))))"

text \<open>One attempt to decrease; with nothing to remove the fees are collected, and a failure of that is final.\<close>

definition whirl_decrease :: "('b, 'w) ocx \<Rightarrow> string \<Rightarrow> 'b option \<Rightarrow> ('j, 'b, 'w, (string \<times> string) option) xop" where
  "whirl_decrease cx ours amt =
     bind_op (on_net (getPositionByNft cx ours)) (\<lambda>p.
       case p of
         None \<Rightarrow> ret None
       | Some mine \<Rightarrow>
           let liq = (case amt of Some a \<Rightarrow> bn_min (xbn (ob cx)) a (wp_liquidity mine) | None \<Rightarrow> wp_liquidity mine)
           in if bn_isZero (xbn (ob cx)) liq then
                on_net (catch_op (bind_op (execute cx (WhirlCollectTx ours)) (\<lambda>sig. ret (Some (''COLLECT_FEE'', sig)))) (\<lambda>_. ret None))
              else bind_op (on_net (execute cx (WhirlDecreaseTx ours liq))) (\<lambda>sig.
                   bind_op (catch_op (credit_received (ob cx) sig) (\<lambda>_. ret ())) (\<lambda>_.
                     ret (Some (''DECREASE'', sig)))))"

definition orca_copyDecrease :: "('b, 'w) ocx \<Rightarrow> string \<Rightarrow> ('j, 'b, 'w, (string \<times> string) option) xop" where
  "orca_copyDecrease cx nft s =
     (case PM_get nft (positions s) of
        None \<Rightarrow> (Inr None, s)
      | Some ours \<Rightarrow>
          if ours = [] then (Inr None, s)
          else bind_op (on_net (getPositionByNft cx nft)) (\<lambda>target.
               bind_op (planned_decrease (xbn (ob cx))
                   (bind_op (on_net (getPositionByNft cx ours)) (\<lambda>m. ret (map_option wp_liquidity m)))
                   nft (map_option wp_liquidity target)) (\<lambda>amt.
                 case amt of
                   Some a \<Rightarrow>
                     if bn_isZero (xbn (ob cx)) a then
                       if dryRun (xc (ob cx)) then ret (Some (''COLLECT_FEE'', ''dry-run-orca-collect-fee''))
                       else with_dex_lock ORCA (catch_op (on_net (attempt_loop retryable 2 (orca_collect cx ours))) (\<lambda>_. ret None))
                     else if dryRun (xc (ob cx)) then ret (Some (''DECREASE'', ''dry-run-orca-decrease''))
                     else with_dex_lock ORCA (catch_op (attempt_loop retryable 2 (whirl_decrease cx ours (Some a))) (\<lambda>_. ret None))
                 | None \<Rightarrow>
                     if dryRun (xc (ob cx)) then ret (Some (''DECREASE'', ''dry-run-orca-decrease''))
                     else with_dex_lock ORCA (catch_op (attempt_loop retryable 2 (whirl_decrease cx ours None)) (\<lambda>_. ret None)))) s)"

section \<open>Reconciliation\<close>

text \<open>The targets whose copies are queued to be closed. The reader of positions never throws.\<close>

definition orca_orphan :: "('b, 'w) ocx \<Rightarrow> string \<Rightarrow> ('b, 'w, bool) net_op" where
  "orca_orphan cx nft =
     bind_op (try_op (getPositionByNft cx nft)) (\<lambda>r.
       ret (case r of
              Inr None \<Rightarrow> True
            | Inr (Some p) \<Rightarrow> bn_isZero (xbn (ob cx)) (wp_liquidity p)
            | Inl e \<Rightarrow> \<not> isTransientError e))"

fun orca_orphans :: "('b, 'w) ocx \<Rightarrow> string list \<Rightarrow> ('b, 'w, string list) net_op" where
  "orca_orphans cx [] = ret []"
| "orca_orphans cx (n # ns) =
     bind_op (orca_orphan cx n) (\<lambda>b. bind_op (orca_orphans cx ns) (\<lambda>rest. ret (if b then n # rest else rest)))"

definition reconcileOrcaPositions :: "('b, 'w) ocx \<Rightarrow> ('j, 'b, 'w, string list) xop" where
  "reconcileOrcaPositions cx s =
     on_net (orca_orphans cx (filter (\<lambda>n. PM_getDex n (positions s) = Some ''orca'') (map fst (PM_entries (positions s))))) s"

definition isOrcaPosition :: "('b, 'w) ocx \<Rightarrow> string \<Rightarrow> ('b, 'w, bool) net_op" where
  "isOrcaPosition cx nft = bind_op (getPositionByNft cx nft) (\<lambda>p. ret (p \<noteq> None))"

definition orca_backfillLockedSol :: "('j, 'b, 'w) xbot \<Rightarrow> ('j, 'b, 'w) xbot" where
  "orca_backfillLockedSol s =
     fold (\<lambda>n. on_positions (PM_setLockedSol n (dx_rent (dexes (other s) ORCA))))
       (filter (\<lambda>n. PM_getDex n (positions s) = Some ''orca'' \<and> PM_getLockedSol n (Num (-1)) (positions s) = Num (-1))
         (map fst (PM_entries (positions s)))) s"

end
