(* ===== verification/Orca_Safety.thy ===== *)
theory Orca_Safety
  imports Orca_Exec Dex_Safety
begin

text \<open>
  What the copies of Whirlpool positions may do, and what an unreachable node makes of them.
\<close>

section \<open>Frames\<close>

text \<open>Bodies with a local variable: what holds of the state holds beside it.\<close>

lemma noted_same: "always (same g) m \<Longrightarrow> always (same (\<lambda>p. g (fst p))) (noted m)"
  by (auto simp: always_def same_def noted_def zoom_def apfst_def split: prod.splits) (metis snd_conv)

lemma noted_sends: "sends P m \<Longrightarrow> always (logs_only (\<lambda>p. traffic (fst p)) P) (noted m)"
  by (auto simp: always_def logs_only_def noted_def zoom_def apfst_def split: prod.splits) (metis snd_conv)

lemma notes_same: "always (same (\<lambda>p. g (fst p))) m \<Longrightarrow> always (same g) (with_notes m)"
  by (auto simp: always_def same_def with_notes_def split: prod.splits) (metis fst_conv snd_conv)

lemma notes_sends: "always (logs_only (\<lambda>p. traffic (fst p)) P) m \<Longrightarrow> sends P (with_notes m)"
  by (auto simp: always_def logs_only_def with_notes_def split: prod.splits) (metis fst_conv snd_conv)

lemma noted_gives:
  assumes "gives (noted m :: ('j, 'b, 'w, 'a) noting) a"
  shows "gives m a"
proof -
  obtain p p' where g: "(noted m :: ('j, 'b, 'w, 'a) noting) p = (Inr a, p')" using assms by (auto simp: gives_def)
  obtain r t where "m (fst p) = (r, t)" by fastforce
  with g show ?thesis by (auto simp: noted_def zoom_def intro: givesI)
qed

lemma orca_liquidity_off: "off_tvl g \<Longrightarrow> always (same g) (orca_liquidity cx p m)"
  unfolding orca_liquidity_def liquidity_of_def getOrcaPoolTvl_def
  by (auto intro!: pool_tvl_off on_net_off simp: off_tvl_def off_dex_def)

lemma orca_liquidity_sends: "sends P (orca_liquidity cx p m)"
  unfolding orca_liquidity_def liquidity_of_def getOrcaPoolTvl_def
  by (auto intro!: pool_tvl_sends net_request_sends submits_rules)

lemma orca_filters_off: "off_tvl g \<Longrightarrow> always (same g) (orca_filters cx p w pl)"
proof -
  assume g: "off_tvl g"
  have "always (same g) (orca_tvl_filter cx p ms)" for ms
    by (induction ms) (auto intro!: same.rules orca_liquidity_off g)
  then show ?thesis
    unfolding orca_filters_def using g
    by (intro first_reason_off) (auto simp: off_tvl_def off_dex_def simp del: orca_tvl_filter.simps intro!: same.simple filter_off)
qed

lemma orca_filters_send: "sends P (orca_filters cx p w pl)"
proof -
  have "sends P (orca_tvl_filter cx p ms)" for ms
    by (induction ms) (auto intro!: sends_rules orca_liquidity_sends)
  then show ?thesis
    unfolding orca_filters_def
    by (intro first_reason_sends) (auto simp del: orca_tvl_filter.simps intro!: logs.simple filter_sends)
qed

section \<open>What is handed over\<close>

lemma whirl_read_submits: "submits P (getPositionByNft cx nft)" "submits P (await_position cx n nft)"
proof -
  show 1: "submits P (getPositionByNft cx nft)" for nft unfolding getPositionByNft_def by (auto intro!: submits_rules)
  show "submits P (await_position cx n nft)" by (induction n) (auto intro!: submits_rules 1 split: option.splits)
qed

text \<open>The same rules for a body with notes.\<close>

abbreviation note_sends :: "('b chain_tx \<Rightarrow> bool) \<Rightarrow> ('j, 'b, 'w, 'a) noting \<Rightarrow> bool" where
  "note_sends P m \<equiv> always (logs_only (\<lambda>p. traffic (fst p)) P) m"

lemma raise_both_sends:
  assumes "\<And>m. P (SwapTx m)"
  shows "note_sends P (raise_both cx pl wA wB bA bB)"
proof -
  have r: "note_sends P (raise_noted cx ways m bal want)"
    if "\<And>d. \<exists>ps. ways d = map (\<lambda>(a, b). swap_in cx a b d) ps" for ways m bal want
    unfolding raise_noted_def
    by (intro logs.bind noted_sends on_net_sends raise_swap_submits assms that logs.simple)
       (auto intro!: logs.bind logs.simple logs.changed simp: logs_only_def split: option.splits prod.splits)
  show ?thesis
    unfolding raise_both_def
    by (intro logs.bind r dex_ways_swap)
       (auto intro!: logs.bind logs.simple noted_sends on_net_sends dex_balance_submits r dex_ways_swap split: option.splits prod.splits)
qed

lemma swap_back_submits: "(\<And>m. P (SwapTx m)) \<Longrightarrow> submits P (swapBackOnFailure cx l)"
proof (induction l)
  case (Cons x l)
  then show ?case
    by (cases x) (auto intro!: submits_rules jupSwap_submits)
qed (simp add: logs.simple)

lemma precheck_submits: "submits P (usdc_precheck cx pl wA wB bA bB)"
proof -
  have q: "submits P (get_quote sv a b c)" for sv :: "('a, 'b) services" and a b c
    unfolding get_quote_def by (auto intro!: submits_rules)
  have "submits P (cost_of cx m d)" for m d
    unfolding cost_of_def estimateSwapCost_def by (auto intro!: submits_rules q split: option.splits)
  then show ?thesis
    unfolding usdc_precheck_def by (auto intro!: submits_rules dex_balance_submits)
qed

text \<open>A transaction of a copied open: a swap, or one that concerns exactly the target's range, within its amounts.\<close>

definition read_whirl :: "('b, 'w) ocx \<Rightarrow> string \<Rightarrow> 'b whirl_position \<Rightarrow> 'b pool_info \<Rightarrow> bool" where
  "read_whirl cx nft pos pl \<longleftrightarrow>
     (\<exists>w w' v v'. os_getPosition (osdk cx) nft w = (Inr (Some pos), w') \<and> os_getPool (osdk cx) (wp_whirlpool pos) v = (Inr pl, v'))"

definition scaled_whirl :: "('b, 'w) ocx \<Rightarrow> string \<Rightarrow> 'b whirl_position \<Rightarrow> 'b pool_info \<Rightarrow> 'b \<Rightarrow> 'b \<Rightarrow> bool" where
  "scaled_whirl cx wallet pos pl wA wB \<longleftrightarrow>
     (\<exists>eA eB. os_quote (osdk cx) pos pl = Inr (eA, eB) \<and>
        scaleAmount (xbn (ob cx)) (swc_ratios (xc_swap (xc (ob cx)))) eA (Some wallet) = Inr wA \<and>
        scaleAmount (xbn (ob cx)) (swc_ratios (xc_swap (xc (ob cx)))) eB (Some wallet) = Inr wB)"

definition whirl_open_tx :: "('b, 'w) ocx \<Rightarrow> ('b \<Rightarrow> int) \<Rightarrow> string \<Rightarrow> string \<Rightarrow> 'b chain_tx \<Rightarrow> bool" where
  "whirl_open_tx cx val nft wallet t \<longleftrightarrow>
     (\<exists>m. t = SwapTx m) \<or>
     (\<exists>pos pl. read_whirl cx nft pos pl \<and>
        (t = OrcaTx (InitTicksTx (wp_whirlpool pos) (wp_tickLower pos) (wp_tickUpper pos)) \<or>
         (\<exists>a b wA wB. t = OrcaTx (WhirlOpenTx (wp_whirlpool pos) (wp_tickLower pos) (wp_tickUpper pos) a b) \<and>
            scaled_whirl cx wallet pos pl wA wB \<and>
            side_max (ob cx) val (pi_mintA pl) wA wB a \<and> side_max (ob cx) val (pi_mintB pl) wB wA b)))"

text \<open>The balances after raising both sides, as far as nothing of a side is wanted.\<close>

lemma raise_both_read:
  fixes bals :: "'b \<times> 'b"
  assumes bn: "bn_spec (xbn cx) val" and g: "gives (raise_both cx pl wA wB bA bB :: ('j, 'b, 'w, ('b \<times> 'b) option) noting) (Some bals)"
    and bal: "gives (dex_balance cx (pi_mintA pl)) bA" "gives (dex_balance cx (pi_mintB pl)) bB"
  shows "side_read cx val (pi_mintA pl) wA (fst bals) \<and> side_read cx val (pi_mintB pl) wB (snd bals)"
proof -
  have r: "side_read cx val m want b"
    if asm: "gives (raise_noted cx ways m bl want :: ('j, 'b, 'w, ('b \<times> bool) option) noting) (Some (b, sw))" "side_read cx val m want bl"
    for ways m bl want b sw
  proof -
    obtain gains where "gives (raise_swap cx (ret ()) ways m bl want) (Some (b, sw, gains))"
      using asm(1) unfolding raise_noted_def
      by (auto elim!: gives_bindE split: option.splits prod.splits dest!: noted_gives on_net_gives)
    with bn show ?thesis using asm(2) by (rule raise_swap_read)
  qed
  obtain x y z sA sB where a: "gives (raise_noted cx (dex_ways_to_A cx pl bB) (pi_mintA pl) bA wA :: ('j, 'b, 'w, _) noting) (Some (x, sA))"
    and b: "gives (dex_balance cx (pi_mintB pl)) z"
      "gives (raise_noted cx (dex_ways_to_B cx pl x wA) (pi_mintB pl) z wB :: ('j, 'b, 'w, _) noting) (Some (y, sB))"
    and bals: "bals = (x, y)"
    using g bal(2) unfolding raise_both_def
    by (auto elim!: gives_bindE split: option.splits prod.splits if_splits dest!: noted_gives [where 'a = 'b] on_net_gives
        simp: eq_commute [of "Some bals"])
  from r [OF a side_readI [OF bal(1)]] r [OF b(2) side_readI [OF b(1)]] bals show ?thesis by simp
qed

lemma whirl_loop_sends:
  assumes bn: "bn_spec (xbn (ob cx)) val" and rd: "read_whirl cx nft pos pl" "scaled_whirl cx wallet pos pl wA wB"
    and "side_read (ob cx) val (pi_mintA pl) wA (fst bals)" "side_read (ob cx) val (pi_mintB pl) wB (snd bals)"
  shows "sends (whirl_open_tx cx val nft wallet) (whirl_loop cx nft wallet pl pos wA wB n bals :: ('j, 'b, 'w, string) xop)"
  using assms(4,5)
proof (induction n arbitrary: bals)
  case (Suc n)
  let ?P = "whirl_open_tx cx val nft wallet"
  have save: "sends ?P (save_whirl cx nft wallet pl pos ours)" for ours
    unfolding save_whirl_def by (auto intro!: sends_rules)
  have ok: "?P (OrcaTx (InitTicksTx (wp_whirlpool pos) (wp_tickLower pos) (wp_tickUpper pos)))"
    "?P (OrcaTx (WhirlOpenTx (wp_whirlpool pos) (wp_tickLower pos) (wp_tickUpper pos)
        (most_of (xbn (ob cx)) wA wB (fst bals)) (most_of (xbn (ob cx)) wB wA (snd bals))))"
    using rd Suc.prems [THEN most_of_side [OF bn]] unfolding whirl_open_tx_def by blast+
  have prep: "submits ?P (prepare_whirl cx pos x y)" for x y
    unfolding prepare_whirl_def Let_def execute_def by (auto intro!: submits_rules ok)
  have ex: "submits ?P (try_op (execute cx (WhirlOpenTx (wp_whirlpool pos) (wp_tickLower pos) (wp_tickUpper pos)
        (most_of (xbn (ob cx)) wA wB (fst bals)) (most_of (xbn (ob cx)) wB wA (snd bals)))))"
    unfolding execute_def by (intro logs.tried submits_simple ok)
  have there: "sends ?P (on_net (getPositionByNft cx ours))" for ours by (intro on_net_sends whirl_read_submits)
  show ?case
    unfolding whirl_loop.simps Let_def
    by (intro logs.bind on_net_sends [OF logs.tried [OF prep]])
       (auto intro!: logs.bind logs.simple on_net_sends ex save there dex_balance_submits Suc.IH side_readI
          dest!: on_net_gives [where m = "dex_balance c m" for c m] split: sum.splits)
qed (simp add: logs.simple)

lemma whirl_read_gives:
  "gives (getPositionByNft cx nft) (Some pos) \<Longrightarrow> \<exists>w w'. os_getPosition (osdk cx) nft w = (Inr (Some pos), w')"
  "gives (await_position cx n nft) (Some pos) \<Longrightarrow> \<exists>w w'. os_getPosition (osdk cx) nft w = (Inr (Some pos), w')"
proof -
  show 1: "gives (getPositionByNft cx nft) (Some pos) \<Longrightarrow> \<exists>w w'. os_getPosition (osdk cx) nft w = (Inr (Some pos), w')" for pos
    unfolding getPositionByNft_def by (elim gives_catchE) (auto dest: gives_request)
  show "gives (await_position cx n nft) (Some pos) \<Longrightarrow> \<exists>w w'. os_getPosition (osdk cx) nft w = (Inr (Some pos), w')"
  proof (induction n)
    case (Suc n)
    from Suc.prems show ?case
      unfolding await_position.simps by (elim gives_bindE) (auto split: option.splits dest: 1 Suc.IH)
  qed (simp add: 1)
qed

lemma whirl_open_sends:
  assumes bn: "bn_spec (xbn (ob cx)) val" and pos: "\<exists>w w'. os_getPosition (osdk cx) nft w = (Inr (Some pos), w')"
  shows "note_sends (whirl_open_tx cx val nft wallet) (whirl_open cx nft p wallet pos)"
proof -
  let ?P = "whirl_open_tx cx val nft wallet"
  have sw: "?P (SwapTx m)" for m by (simp add: whirl_open_tx_def)
  have dep: "note_sends ?P (whirl_deposit cx nft wallet pl pos wA wB)"
    if "read_whirl cx nft pos pl" "scaled_whirl cx wallet pos pl wA wB" for pl wA wB
    unfolding whirl_deposit_def
  proof (intro logs.bind noted_sends on_net_sends dex_balance_submits precheck_submits, goal_cases)
    case (1 balA balB reason)
    then have "gives (dex_balance (ob cx) (pi_mintA pl)) balA" "gives (dex_balance (ob cx) (pi_mintB pl)) balB"
      by (auto dest!: noted_gives on_net_gives)
    note loop = whirl_loop_sends [OF bn that] raise_both_read [OF bn _ this]
    show ?case
      by (auto intro!: logs.bind logs.simple noted_sends skip_sends raise_both_sends sw loop(1) dest: loop(2) split: option.splits)
  qed
  have get: "note_sends ?P (noted (on_net (request f)))" for f by (intro noted_sends on_net_sends submits_simple)
  show ?thesis
    unfolding whirl_open_def Let_def
  proof (intro logs.bind get noted_sends orca_filters_send, goal_cases)
    case (1 pl reason)
    then have "read_whirl cx nft pos pl"
      using pos unfolding read_whirl_def by (blast dest: noted_gives on_net_gives gives_request)
    then show ?case
      by (auto intro!: logs.bind logs.simple get noted_sends skip_sends dep simp: scaled_whirl_def split: option.splits prod.splits)
  qed
qed

lemma orca_failed_sends:
  assumes "\<And>m. P (SwapTx m)"
  shows "note_sends P (orca_open_failed cx e)"
proof -
  have "sends P (sol_exhausted (ob cx) ORCA)" unfolding sol_exhausted_def by (auto intro!: sends_rules)
  then show ?thesis
    unfolding orca_open_failed_def
    by (auto intro!: logs.bind logs.simple noted_sends on_net_sends swap_back_submits assms)
qed

section \<open>The position map after an open\<close>

lemma noted_saves: "meets m (saves g nft E) \<Longrightarrow> meets (noted m) (saves (\<lambda>p. g (fst p)) nft E)"
  by (rule meetsI) (auto simp: noted_def zoom_def apfst_def dest!: meetsD split: prod.splits sum.splits simp: saves_def)

definition whirl_entry :: "('b, 'w) ocx \<Rightarrow> string \<Rightarrow> string \<Rightarrow> js_num PositionEntry \<Rightarrow> bool" where
  "whirl_entry cx nft wallet e \<longleftrightarrow>
     (\<exists>pos pl a b w w'. read_whirl cx nft pos pl \<and>
        os_openPosition (osdk cx) (wp_whirlpool pos) (wp_tickLower pos) (wp_tickUpper pos) a b w = (Inr (ourNft e), w') \<and>
        pool e = Some (pool_label pl) \<and> targetWallet e = Some wallet \<and> tickLower e = Some (wp_tickLower pos) \<and>
        tickUpper e = Some (wp_tickUpper pos) \<and> dex e = Some ''orca'' \<and>
        targetLiquidity e = Some (bn_toString (xbn (ob cx)) (wp_liquidity pos)))"

lemma save_whirl_saves:
  assumes "read_whirl cx nft pos pl"
    and "\<exists>a b w w'. os_openPosition (osdk cx) (wp_whirlpool pos) (wp_tickLower pos) (wp_tickUpper pos) a b w = (Inr ours, w')"
  shows "meets (save_whirl cx nft wallet pl pos ours) (saves positions nft (whirl_entry cx nft wallet))"
proof (rule meetsI)
  fix s s' r assume run: "save_whirl cx nft wallet pl pos ours s = (r, s')"
  obtain n s1 where n: "now_op (ob cx) s = (Inr n, s1)" "books s1 = books s" by (rule now_opE)
  define e :: "js_num PositionEntry" where "e = \<lparr>ourNft = ours, createdAt = n, pool = Some (pool_label pl), targetWallet = Some wallet,
      lockedSol = Some (dx_rent (dexes (other s1) ORCA)), tickLower = Some (wp_tickLower pos), tickUpper = Some (wp_tickUpper pos),
      dex = Some ''orca'', targetLiquidity = Some (bn_toString (xbn (ob cx)) (wp_liquidity pos))\<rparr>"
  have "r = Inr ()" "map_of (positions s') = (map_of (positions s1))(nft \<mapsto> e)"
    using run n(1) by (auto simp: save_whirl_def bind_op_def op_simps on_positions_def set_other_def PM_set_def PM_setLockedSol_def
        PM_setTargetLiquidity_def e_def fun_eq_iff)
  moreover have "whirl_entry cx nft wallet e"
    unfolding whirl_entry_def using assms by (intro exI [of _ pos] exI [of _ pl]) (simp add: e_def)
  ultimately show "saves positions nft (whirl_entry cx nft wallet) s r s'"
    using n(2) by (auto simp: saves_def writes_def books_def)
qed

lemma whirl_loop_saves:
  assumes "read_whirl cx nft pos pl"
  shows "meets (whirl_loop cx nft wallet pl pos wA wB n bals :: ('j, 'b, 'w, string) xop) (saves positions nft (whirl_entry cx nft wallet))"
proof (induction n arbitrary: bals)
  case (Suc n)
  note off = on_net_off [OF off_books(3)]
  show ?case
    unfolding whirl_loop.simps Let_def
  proof (intro saves_bind [OF off], goal_cases)
    case (1 r)
    show ?case
    proof (cases r)
      case (Inr ours)
      with 1 have "gives (try_op (prepare_whirl cx pos (most_of (xbn (ob cx)) wA wB (fst bals)) (most_of (xbn (ob cx)) wB wA (snd bals)))) (Inr ours)"
        by (auto dest: on_net_gives)
      then have "gives (prepare_whirl cx pos (most_of (xbn (ob cx)) wA wB (fst bals)) (most_of (xbn (ob cx)) wB wA (snd bals))) ours"
        by (rule gives_tried)
      then have "\<exists>a b w w'. os_openPosition (osdk cx) (wp_whirlpool pos) (wp_tickLower pos) (wp_tickUpper pos) a b w = (Inr ours, w')"
        unfolding prepare_whirl_def Let_def by (auto elim!: gives_bindE dest!: gives_request simp del: split_paired_Ex)
      note save = saves_then [OF save_whirl_saves [OF assms this]]
      show ?thesis
        using Inr by (auto intro!: saves_bind off save saves_throw Suc.IH split: sum.splits)
    qed (auto intro!: saves_bind off saves_throw Suc.IH)
  qed
qed (simp add: saves_throw)

lemma raise_both_positions: "always (same (\<lambda>p. positions (fst p))) (raise_both cx pl wA wB bA bB)"
proof -
  have r: "always (same (\<lambda>p. positions (fst p))) (raise_noted cx ways m bal want)" for ways m bal want
    unfolding raise_noted_def
    by (auto intro!: same.rules noted_same on_net_off change_same split: option.splits)
  show ?thesis
    unfolding raise_both_def by (auto intro!: same.bind same.simple noted_same on_net_off r split: option.splits)
qed

lemma whirl_open_contract:
  assumes pos: "\<exists>w w'. os_getPosition (osdk cx) nft w = (Inr (Some pos), w')"
  shows "meets (whirl_open cx nft p wallet pos) (opens (\<lambda>p. positions (fst p)) nft (whirl_entry cx nft wallet))"
proof -
  let ?Q = "opens (\<lambda>p. positions (fst p)) nft (whirl_entry cx nft wallet)"
  have skip: "meets (noted (skip_dex d r)) ?Q" for d r
    by (rule opens_none) (auto intro!: noted_same skip_off dest!: noted_gives skip_gives)
  have none: "meets (ret None) ?Q" by (rule opens_none) (auto intro: same.simple)
  have off: "always (same (\<lambda>p. positions (fst p))) (noted (on_net m))" for m by (intro noted_same on_net_off off_books)
  have dep: "meets (whirl_deposit cx nft wallet pl pos wA wB) ?Q" if "read_whirl cx nft pos pl" for pl wA wB
    unfolding whirl_deposit_def
    by (auto intro!: opens_bind off raise_both_positions skip none saves_opens noted_saves whirl_loop_saves that split: option.splits)
  show ?thesis
    unfolding whirl_open_def Let_def
  proof (intro opens_bind off noted_same orca_filters_off, simp, goal_cases)
    case (1 pl reason)
    then have "read_whirl cx nft pos pl"
      using pos unfolding read_whirl_def by (blast dest: noted_gives on_net_gives gives_request)
    then show ?case
      by (auto intro!: opens_bind off same.simple skip dep split: option.splits prod.splits)
  qed
qed

lemma orca_failed_contract: "meets (orca_open_failed cx e) (opens (\<lambda>p. positions (fst p)) nft E)"
proof (rule opens_none)
  have "always (same positions) (sol_exhausted (ob cx) ORCA)"
    unfolding sol_exhausted_def by (auto intro!: off_rules change_same)
  then show "always (same (\<lambda>p. positions (fst p))) (orca_open_failed cx e)"
    unfolding orca_open_failed_def by (auto intro!: same.bind same.simple noted_same on_net_off)
  show "gives (orca_open_failed cx e) a \<Longrightarrow> a = None" for a
    unfolding orca_open_failed_def by (auto split: if_splits elim!: gives_bindE)
qed

lemma notes_opens: "meets m (opens (\<lambda>p. g (fst p)) nft E) \<Longrightarrow> meets (with_notes m) (opens g nft E)"
proof (rule meetsI)
  fix s r s' assume m: "meets m (opens (\<lambda>p. g (fst p)) nft E)" and run: "with_notes m s = (r, s')"
  obtain q t l where q: "m (s, []) = (q, (t, l))" by (metis surj_pair)
  then have "q = r" "t = s'" using run by (simp_all add: with_notes_def)
  with meetsD [OF m q] show "opens g nft E s r s'" by (simp add: opens_def split: sum.splits option.splits)
qed

text \<open>The locked part of the copy.\<close>

definition orca_body :: "('b, 'w) ocx \<Rightarrow> string \<Rightarrow> string \<Rightarrow> string \<Rightarrow> ('j, 'b, 'w, string option) xop" where
  "orca_body cx nft p wallet =
     with_notes (catch_op
       (bind_op (noted (on_net (await_position cx 3 nft))) (\<lambda>pos.
          case pos of None \<Rightarrow> ret None | Some x \<Rightarrow> whirl_open cx nft p wallet x))
       (orca_open_failed cx))"

lemma orca_body_contract: "meets (orca_body cx nft p wallet) (opens positions nft (whirl_entry cx nft wallet))"
  unfolding orca_body_def
proof (intro notes_opens opens_catch orca_failed_contract opens_bind noted_same on_net_off off_books)
  fix pos assume "gives (noted (on_net (await_position cx 3 nft))) pos"
  then show "meets (case pos of None \<Rightarrow> ret None | Some x \<Rightarrow> whirl_open cx nft p wallet x)
      (opens (\<lambda>p. positions (fst p)) nft (whirl_entry cx nft wallet))"
    by (cases pos) (auto intro!: opens_none same.simple whirl_open_contract dest!: noted_gives on_net_gives whirl_read_gives(2))
qed

lemma orca_body_sends:
  assumes "bn_spec (xbn (ob cx)) val"
  shows "sends (whirl_open_tx cx val nft wallet) (orca_body cx nft p wallet)"
  unfolding orca_body_def
proof (intro notes_sends logs.catched logs.bind noted_sends on_net_sends whirl_read_submits orca_failed_sends)
  fix pos assume "gives (noted (on_net (await_position cx 3 nft))) pos"
  then show "note_sends (whirl_open_tx cx val nft wallet) (case pos of None \<Rightarrow> ret None | Some x \<Rightarrow> whirl_open cx nft p wallet x)"
    by (cases pos) (auto intro!: logs.simple whirl_open_sends assms dest!: noted_gives on_net_gives whirl_read_gives(2))
qed (simp add: whirl_open_tx_def)

lemma orca_open_cases:
  assumes "orca_copyOpen cx nft p wallet s = (r, s')"
  obtains (refused) "r = Inr None" "positions s' = positions s" "traffic s' = traffic s"
  | (dry) "dryRun (xc (ob cx))" "r = Inr (Some ''dry-run-orca-open'')" "s' = s"
  | (ran) t where "\<not> truthy (PM_get nft (positions s))" "\<not> dryRun (xc (ob cx))" "\<not> solPaused (execs s ORCA)"
      "\<not> drawdownPaused (execs s ORCA)" "wallet \<notin> set (close_only (xdc (ob cx)) ORCA)"
      "orca_body cx nft p wallet (upd_dex ORCA (\<lambda>x. x\<lparr>dx_busy := True\<rparr>) s) = (r, t)"
      "s' = upd_dex ORCA (\<lambda>x. x\<lparr>dx_busy := False\<rparr>) (later (RefreshDexSol ORCA) t)"
proof -
  have skip: "skip_dex ORCA x s = (r, s') \<Longrightarrow> r = Inr None \<and> positions s' = positions s \<and> traffic s' = traffic s" for x
    by (auto simp: skip_dex_def op_simps)
  have paused: "\<exists>x. orca_copyOpen cx nft p wallet s = skip_dex ORCA x s"
    if "\<not> truthy (PM_get nft (positions s))"
      "solPaused (execs s ORCA) \<or> drawdownPaused (execs s ORCA) \<or> wallet \<in> set (close_only (xdc (ob cx)) ORCA)"
    using that by (simp add: orca_copyOpen_def) blast
  consider "truthy (PM_get nft (positions s))" | x where "\<not> truthy (PM_get nft (positions s))" "orca_copyOpen cx nft p wallet s = skip_dex ORCA x s"
    | "\<not> truthy (PM_get nft (positions s))" "\<not> solPaused (execs s ORCA)" "\<not> drawdownPaused (execs s ORCA)"
      "wallet \<notin> set (close_only (xdc (ob cx)) ORCA)"
    using paused by blast
  then show thesis
  proof cases
    case 1
    with assms have "r = Inr None" "s' = s" by (simp_all add: orca_copyOpen_def)
    then show thesis by (intro refused) simp_all
  next
    case 2
    with assms skip show thesis by (intro refused) simp_all
  next
    case 3
    show thesis
    proof (cases "dryRun (xc (ob cx))")
      case True
      with 3 assms have "r = Inr (Some ''dry-run-orca-open'')" "s' = s" by (simp_all add: orca_copyOpen_def)
      with True show thesis by (intro dry)
    next
      case False
      with 3 assms have "with_dex_lock ORCA (finally_op (orca_body cx nft p wallet) (later (RefreshDexSol ORCA))) s = (r, s')"
        by (simp add: orca_copyOpen_def orca_body_def)
      then show thesis
      proof (cases rule: dex_lock_run)
        case (ran u)
        from ran(2) obtain t where "orca_body cx nft p wallet (upd_dex ORCA (\<lambda>x. x\<lparr>dx_busy := True\<rparr>) s) = (r, t)" "u = later (RefreshDexSol ORCA) t"
          by (auto simp: finally_op_def split: prod.splits)
        with 3 False ran that(3) [of t] show ?thesis by simp
      qed (auto intro: refused)
    qed
  qed
qed

section \<open>Properties\<close>

text \<open>
  C13: A copied Whirlpool open stays within the target. It is only made when nothing is mapped yet and the executor is
  neither paused nor the wallet close-only. Every transaction handed over is a token swap, the initialisation of
  the target's tick arrays or the open of the target's range in the target's pool. The open names as its maximum of a
  token at most the target's amount scaled by the wallet's ratio; the one exception is a token of which the scaled
  amount is zero while the other's is not: there the maximum is the wallet's whole balance of that token as it was
  read from the node. The position map changes only when a
  signature is returned: then exactly the target's NFT is mapped, to the address the SDK made for such an open,
  with the target's pool, ticks, wallet and liquidity.
\<close>

theorem whirl_open_within_target:
  fixes s s' :: "('j, 'b, 'w) xbot"
  assumes "bn_spec (xbn (ob cx)) val" and "orca_copyOpen cx nft p wallet s = (r, s')"
  shows "(\<exists>ts. traffic s' = traffic s @ ts \<and> list_all (whirl_open_tx cx val nft wallet) ts) \<and>
    (case r of
       Inr (Some sig) \<Rightarrow> dryRun (xc (ob cx)) \<and> s' = s \<or>
         (\<exists>e. whirl_entry cx nft wallet e \<and> map_of (positions s') = (map_of (positions s))(nft \<mapsto> e)) \<and>
         \<not> truthy (PM_get nft (positions s)) \<and> \<not> solPaused (execs s ORCA) \<and> \<not> drawdownPaused (execs s ORCA) \<and>
         wallet \<notin> set (close_only (xdc (ob cx)) ORCA)
     | _ \<Rightarrow> positions s' = positions s)"
  using assms(2)
proof (cases rule: orca_open_cases)
  case (ran t)
  let ?s = "upd_dex ORCA (\<lambda>x. x\<lparr>dx_busy := True\<rparr>) s"
  have "logs_only traffic (whirl_open_tx cx val nft wallet) ?s t" using orca_body_sends [OF assms(1)] ran(6) by (rule alwaysD)
  then have "\<exists>ts. traffic s' = traffic s @ ts \<and> list_all (whirl_open_tx cx val nft wallet) ts"
    using ran(7) by (simp add: logs_only_def)
  moreover have "opens positions nft (whirl_entry cx nft wallet) ?s r t" using orca_body_contract ran(6) by (rule meetsD)
  ultimately show ?thesis using ran by (auto simp: opens_def writes_def split: sum.splits option.splits)
qed auto

text \<open>A node that answers no request for a position.\<close>

definition unreachable :: "('b, 'w) ocx \<Rightarrow> bool" where
  "unreachable cx \<longleftrightarrow> (\<forall>nft w. \<exists>e. fst (os_getPosition (osdk cx) nft w) = Inl e)"

lemma unreachable_read: "unreachable cx \<Longrightarrow> \<exists>n'. getPositionByNft cx nft n = (Inr None, n')"
proof -
  assume "unreachable cx"
  then obtain e w where "os_getPosition (osdk cx) nft (world n) = (Inl e, w)" unfolding unreachable_def by (metis prod.collapse)
  then show ?thesis by (simp add: getPositionByNft_def catch_op_def request_def op_simps)
qed

lemma unreachable_orphans: "unreachable cx \<Longrightarrow> \<exists>n'. orca_orphans cx ns n = (Inr ns, n')"
proof (induction ns arbitrary: n)
  case (Cons k ns)
  obtain n1 where 1: "getPositionByNft cx k n = (Inr None, n1)" using unreachable_read [OF Cons.prems] by blast
  obtain n2 where "orca_orphans cx ns n1 = (Inr ns, n2)" using Cons by blast
  with 1 show ?case by (simp add: orca_orphan_def bind_op_def try_op_def op_simps)
qed (simp add: op_simps)

lemma orca_orphans_submits: "submits P (orca_orphans cx ns)"
  by (induction ns) (auto simp: orca_orphan_def intro!: submits_rules whirl_read_submits)

lemma positions_deleted: "map_of (positions (on_positions (PM_delete nft) s)) = (map_of (positions s))(nft := None)"
  by (auto simp: on_positions_def PM_delete_def set_other_def map_of_delete fun_eq_iff split: prod.splits)

lemma unreachable_close:
  fixes s :: "('j, 'b, 'w) xbot"
  assumes "unreachable cx" "PM_get nft (positions s) = Some ours" "ours \<noteq> []" "\<not> dryRun (xc (ob cx))" "\<not> dex_busy ORCA s"
  shows "\<exists>s'. orca_copyClose cx nft s = (Inr None, s') \<and> map_of (positions s') = (map_of (positions s))(nft := None) \<and>
    traffic s' = traffic s \<and> \<not> dex_busy ORCA s'"
proof -
  let ?s = "upd_dex ORCA (\<lambda>x. x\<lparr>dx_busy := True\<rparr>) s"
  obtain n where n: "getPositionByNft cx ours (net (other ?s)) = (Inr None, n)" using unreachable_read [OF assms(1)] by blast
  have q: "sent n = sent (net (other ?s))"
    using alwaysD [OF whirl_read_submits(1) [of "\<lambda>_. False"] n] by (auto simp: logs_only_def list_all_iff)
  define t where "t = set_other (\<lambda>x. x\<lparr>net := n\<rparr>) ?s"
  have "on_net (try_op (close_once cx ours)) ?s = (Inr (Inr None), t)"
    using n by (simp add: close_once_def on_net_def zoom_def try_op_def bind_op_def op_simps t_def)
  then have "orca_copyClose cx nft s = (Inr None, upd_dex ORCA (\<lambda>x. x\<lparr>dx_busy := False\<rparr>) (on_positions (PM_delete nft) t))"
    using assms(2-5) by (simp add: orca_copyClose_def with_dex_lock_def finally_op_def catch_op_def bind_op_def op_simps numeral_3_eq_3)
  moreover have "traffic t = traffic s" using q by (simp add: t_def traffic_def set_other_def upd_dex_def)
  ultimately show ?thesis by (simp add: positions_deleted) (simp add: t_def set_other_def upd_dex_def)
qed

lemma unreachable_closes:
  fixes s :: "('j, 'b, 'w) xbot"
  assumes "unreachable cx" "\<not> dryRun (xc (ob cx))" "\<not> dex_busy ORCA s" "distinct ns"
    and "\<And>k. k \<in> set ns \<Longrightarrow> \<exists>e. map_of (positions s) k = Some e \<and> ourNft e \<noteq> []"
  shows "traffic (fold (\<lambda>k s. snd (orca_copyClose cx k s)) ns s) = traffic s \<and>
    map_of (positions (fold (\<lambda>k s. snd (orca_copyClose cx k s)) ns s)) = (\<lambda>k. if k \<in> set ns then None else map_of (positions s) k)"
  using assms(3-5)
proof (induction ns arbitrary: s)
  case (Cons k ns)
  then obtain e where e: "map_of (positions s) k = Some e" "ourNft e \<noteq> []" by (meson list.set_intros(1))
  then have "PM_get k (positions s) = Some (ourNft e)" by (simp add: PM_get_def)
  then obtain s1 where 1: "orca_copyClose cx k s = (Inr None, s1)" "map_of (positions s1) = (map_of (positions s))(k := None)"
    "traffic s1 = traffic s" "\<not> dex_busy ORCA s1"
    using unreachable_close [OF assms(1) _ e(2) assms(2) Cons.prems(1)] by blast
  have "traffic (fold (\<lambda>k s. snd (orca_copyClose cx k s)) ns s1) = traffic s1 \<and>
    map_of (positions (fold (\<lambda>k s. snd (orca_copyClose cx k s)) ns s1)) = (\<lambda>k. if k \<in> set ns then None else map_of (positions s1) k)"
    using Cons.prems 1(2) by (intro Cons.IH [OF 1(4)]) auto
  with 1 show ?case by (auto simp: fun_eq_iff)
qed auto

text \<open>
  C30: An unreachable node makes the bot forget its Orca positions. The reader of positions turns every error into "not
  there", so the reconciliation, which means to skip transient errors, queues a close for every Orca position while
  the node answers nothing; each close then takes our own position for gone as well and drops its mapping. No
  transaction is sent: the positions stay open, and nothing in the bot knows of them.
\<close>

theorem orca_outage_forgets_all:
  fixes s :: "('j, 'b, 'w) xbot"
  assumes "unreachable cx" and "\<not> dryRun (xc (ob cx))" and "\<not> dex_busy ORCA s" and "distinct (map fst (positions s))"
    and "\<forall>e \<in> snd ` set (positions s). ourNft e \<noteq> []"
  shows "\<exists>ns s1. reconcileOrcaPositions cx s = (Inr ns, s1) \<and>
    traffic (fold (\<lambda>k s. snd (orca_copyClose cx k s)) ns s1) = traffic s \<and>
    map_of (positions (fold (\<lambda>k s. snd (orca_copyClose cx k s)) ns s1)) =
      (\<lambda>k. if PM_getDex k (positions s) = Some ''orca'' then None else map_of (positions s) k)"
proof -
  define ns where "ns = filter (\<lambda>k. PM_getDex k (positions s) = Some ''orca'') (map fst (PM_entries (positions s)))"
  obtain n where n: "orca_orphans cx ns (net (other s)) = (Inr ns, n)" using unreachable_orphans [OF assms(1)] by blast
  define s1 where "s1 = set_other (\<lambda>x. x\<lparr>net := n\<rparr>) s"
  have r: "reconcileOrcaPositions cx s = (Inr ns, s1)"
    using n by (simp add: reconcileOrcaPositions_def on_net_def zoom_def s1_def flip: ns_def)
  have "sent n = sent (net (other s))"
    using alwaysD [OF orca_orphans_submits [of "\<lambda>_. False"] n] by (auto simp: logs_only_def list_all_iff)
  then have s1: "traffic s1 = traffic s" "positions s1 = positions s" "\<not> dex_busy ORCA s1"
    using assms(3) by (simp_all add: s1_def traffic_def set_other_def)
  have keys: "map fst (PM_entries (positions s)) = map fst (positions s)" by (simp add: PM_entries_def comp_def case_prod_beta)
  have "distinct ns" using assms(4) by (simp add: ns_def keys)
  moreover have "\<exists>e. map_of (positions s1) k = Some e \<and> ourNft e \<noteq> []" if "k \<in> set ns" for k
  proof -
    have "k \<in> set (map fst (positions s))" using that unfolding ns_def keys by simp
    then obtain e where "(k, e) \<in> set (positions s)" by auto
    then show ?thesis using assms(4,5) map_of_is_SomeI s1(2) by force
  qed
  ultimately have "traffic (fold (\<lambda>k s. snd (orca_copyClose cx k s)) ns s1) = traffic s \<and>
    map_of (positions (fold (\<lambda>k s. snd (orca_copyClose cx k s)) ns s1)) = (\<lambda>k. if k \<in> set ns then None else map_of (positions s) k)"
    using unreachable_closes [OF assms(1,2) s1(3)] unfolding s1(1,2) by blast
  moreover have "k \<in> set ns \<longleftrightarrow> PM_getDex k (positions s) = Some ''orca''" for k
  proof -
    have "k \<in> set (map fst (positions s))" if "PM_getDex k (positions s) = Some ''orca''"
      using that by (cases "map_of (positions s) k") (auto simp: PM_getDex_def dest!: map_of_SomeD intro: rev_image_eqI)
    then show ?thesis unfolding ns_def keys by auto
  qed
  ultimately show ?thesis using r by (intro exI [of _ ns] exI [of _ s1]) simp
qed

section \<open>Witnesses\<close>

definition odemo_pos :: "int whirl_position" where
  "odemo_pos = \<lparr>wp_whirlpool = ''WP'', wp_tickLower = -8, wp_tickUpper = 8, wp_liquidity = 5\<rparr>"

text \<open>An SDK for which every NFT is that position; the target holds 1000 and 1200.\<close>

definition odemo_sdk :: "(int, nat) orca_sdk" where
  "odemo_sdk =
     \<lparr>os_getPosition = (\<lambda>nft w. (Inr (Some odemo_pos), w)),
      os_getPool = (\<lambda>_ w. (Inr xdemo_pool, w)), os_extension = (\<lambda>_ w. (Inr (), w)), os_quote = (\<lambda>_ _. Inr (1000, 1200)),
      os_ticksMissing = (\<lambda>_ _ _ w. (Inr True, w)), os_openPosition = (\<lambda>_ _ _ _ _ w. (Inr ''OURS'', w)),
      os_execute = (\<lambda>_ w. (Inr ''SIG'', w)), os_closeCount = (\<lambda>_ _ w. (Inr 1, w)), os_poolTvl = (\<lambda>_ w. (Inl TypeError, w))\<rparr>"

definition odemo_cx :: "(int, nat) ocx" where
  "odemo_cx = \<lparr>ob = xdemo_cx, osdk = odemo_sdk, orcaSkipSol = False, tvlFromJupiter = False\<rparr>"

lemma odemo_fields [simp]: "ob odemo_cx = xdemo_cx" "osdk odemo_cx = odemo_sdk" "os_quote odemo_sdk p q = Inr (1000, 1200)"
  "os_getPosition odemo_sdk nft w = (Inr (Some odemo_pos), w)" "os_getPool odemo_sdk wp w = (Inr xdemo_pool, w)"
  "os_extension odemo_sdk pl w = (Inr (), w)" "os_execute odemo_sdk t w = (Inr ''SIG'', w)"
  by (simp_all add: odemo_cx_def odemo_sdk_def)

lemma odemo_request: "f w = (Inr a, w) \<Longrightarrow> world (net (other s)) = w \<Longrightarrow> on_net (request f) s = (Inr a, s)"
  by (simp add: on_net_def zoom_def request_def set_other_def)

lemma odemo_read: "on_net (await_position odemo_cx 3 nft) s = (Inr (Some odemo_pos), s)"
  by (simp add: numeral_3_eq_3 on_net_def zoom_def bind_op_def getPositionByNft_def catch_op_def request_def op_simps set_other_def)

lemma odemo_filters: "orca_filters odemo_cx p w xdemo_pool s = (Inr None, s)"
proof -
  have "pump_filter xdemo_cx w xdemo_pool s = (Inr None, s)"
    by (simp add: pump_filter_def pump_filter_by_def xdemo_pump op_simps split: pump_mode.splits)
  moreover have "\<not> sol_or_listed xdemo_cx False xdemo_pool" by code_simp
  moreover have "\<not> num_lt (Num 0) (minPoolTvl xdemo_config)" by code_simp
  ultimately show ?thesis by (simp add: orca_filters_def bind_op_def op_simps odemo_cx_def)
qed

lemma odemo_balance: "m \<noteq> NATIVE_MINT \<Longrightarrow> dex_balance xdemo_cx m n = (Inr 1500, n)"
proof -
  have "BigInt_of ''1500'' = Inr 1500" by code_simp
  moreover assume "m \<noteq> NATIVE_MINT"
  ultimately show ?thesis
    by (simp add: dex_balance_def bind_op_def consult_def xdemo_sv_def op_simps TOKEN_PROGRAMS_def int_BN_def)
qed

lemma odemo_mints [simp]: "pi_mintA xdemo_pool \<noteq> NATIVE_MINT" "pi_mintB xdemo_pool \<noteq> NATIVE_MINT"
  by (simp_all add: xdemo_pool_def NATIVE_MINT_def)

lemma odemo_raise:
  "raise_both xdemo_cx xdemo_pool 1000 1200 1500 1500 p = (Inr (Some (1500, 1500)), p)"
  "usdc_precheck xdemo_cx xdemo_pool 1000 1200 1500 1500 n = (Inr None, n)"
proof -
  show "raise_both xdemo_cx xdemo_pool 1000 1200 1500 1500 p = (Inr (Some (1500, 1500)), p)"
    by (cases p) (simp add: raise_both_def raise_noted_def raise_swap_def noted_def on_net_def zoom_def bind_op_def apfst_def
      bn_lt_def int_BN_def op_simps set_other_def)
  show "usdc_precheck xdemo_cx xdemo_pool 1000 1200 1500 1500 n = (Inr None, n)"
  proof -
    have "missing_of int_BN a 1500 = Inr 0" if "a < 1500" for a using that by (simp add: missing_of_def int_BN_def)
    moreover have "cost_of xdemo_cx m 0 = ret 0" for m by (simp add: cost_of_def int_BN_def)
    ultimately show ?thesis by (simp add: bind_op_def op_simps usdc_precheck_def)
  qed
qed

lemma odemo_loop:
  "\<exists>s'. whirl_loop odemo_cx ''T'' ''W'' xdemo_pool odemo_pos 1000 1200 2 (1500, 1500) s = (Inr ''SIG'', s')"
proof -
  have run: "bind_op m f s = f a (snd (m s))" if "fst (m s) = Inr a" for m f s a
    using that by (auto simp: bind_op_def split: prod.splits sum.splits)
  have 1: "fst (on_net (try_op (prepare_whirl odemo_cx odemo_pos a b)) s) = Inr (Inr ''OURS'')" for a b s
    by (simp add: on_net_def zoom_def try_op_def prepare_whirl_def execute_def submit_def request_def bind_op_def op_simps odemo_pos_def
        odemo_cx_def odemo_sdk_def)
  have 2: "fst (on_net (try_op (execute odemo_cx t)) s) = Inr (Inr ''SIG'')" for t s
    by (simp add: on_net_def zoom_def try_op_def execute_def submit_def)
  have 3: "\<exists>s''. bind_op (save_whirl odemo_cx nft w pl pos ours) (\<lambda>_. ret x) s' = (Inr x, s'')" for nft w pl pos ours s' and x :: string
    by (simp add: save_whirl_def bind_op_def op_simps now_op_def on_net_def zoom_def consult_def xdemo_sv_def)
  show ?thesis
    unfolding numeral_2_eq_2
    by (subst whirl_loop.simps(2)) (simp add: Let_def run [OF 1] run [OF 2] 3 del: whirl_loop.simps)
qed

lemma odemo_open: "\<exists>s'. orca_copyOpen odemo_cx ''T'' ''POOL'' ''W'' (xdemo_bot []) = (Inr (Some ''SIG''), s')"
proof -
  have a: "scaleAmount int_BN \<lparr>walletAmountRatios = [], amountRatio = Num 1\<rparr> x (Some ''W'') = Inr x" for x
    by (simp add: scaleAmount_def getAmountRatio_def num_eq_def)
  have z: "\<not> bn_isZero int_BN (wp_liquidity odemo_pos)" "\<not> bn_isZero int_BN 1000" "\<not> bn_isZero int_BN 1500"
    by (simp_all add: odemo_pos_def int_BN_def)
  have id: "noted (on_net m) (s, l) = (Inr x, (s, l))" if "m (net (other s)) = (Inr x, net (other s))"
    for m and s :: "(unit, int, nat) xbot" and l and x :: 'x
    using that by (simp add: noted_def on_net_def zoom_def set_other_def)
  have dep: "\<exists>p. whirl_deposit odemo_cx ''T'' ''W'' xdemo_pool odemo_pos 1000 1200 (s, l) = (Inr (Some ''SIG''), p)"
    for s :: "(unit, int, nat) xbot" and l
  proof -
    obtain s' where "whirl_loop odemo_cx ''T'' ''W'' xdemo_pool odemo_pos 1000 1200 2 (1500, 1500) s = (Inr ''SIG'', s')"
      using odemo_loop by blast
    then have "noted (whirl_loop odemo_cx ''T'' ''W'' xdemo_pool odemo_pos 1000 1200 2 (1500, 1500)) (s, l) = (Inr ''SIG'', (s', l))"
      by (simp add: noted_def zoom_def)
    moreover have bal: "noted (on_net (dex_balance xdemo_cx m)) (s, l) = (Inr 1500, (s, l))" if "m \<noteq> NATIVE_MINT" for m
      by (rule id, rule odemo_balance, rule that)
    moreover have pre: "noted (on_net (usdc_precheck xdemo_cx xdemo_pool 1000 1200 1500 1500)) (s, l) = (Inr None, (s, l))"
      by (rule id, rule odemo_raise(2))
    ultimately show ?thesis
      by (simp add: whirl_deposit_def bind_op_def bal pre odemo_raise(1) z op_simps)
  qed
  have o: "\<exists>p. whirl_open odemo_cx ''T'' ''POOL'' ''W'' odemo_pos (s, l) = (Inr (Some ''SIG''), p)"
    for s :: "(unit, int, nat) xbot" and l
  proof -
    have f: "noted (orca_filters odemo_cx ''POOL'' ''W'' xdemo_pool) (s, l) = (Inr None, (s, l))"
      by (simp add: noted_def zoom_def odemo_filters)
    have r: "noted (on_net (request (os_getPool odemo_sdk wp))) (s, l) = (Inr xdemo_pool, (s, l))"
      "noted (on_net (request (os_extension odemo_sdk pl))) (s, l) = (Inr (), (s, l))" for wp pl
      by (simp_all add: id request_def)
    show ?thesis
      using dep by (simp add: whirl_open_def bind_op_def r f z a op_simps Let_def)
  qed
  have g: "\<not> truthy (PM_get ''T'' (positions (xdemo_bot [])))" by code_simp
  have "dex_busy ORCA (xdemo_bot []) = False" "solPaused (execs (xdemo_bot []) ORCA) = False"
    "drawdownPaused (execs (xdemo_bot []) ORCA) = False" "close_only (xdc xdemo_cx) ORCA = []"
    by (simp_all add: xdemo_bot_def xdemo_cx_def)
  moreover obtain p where "whirl_open odemo_cx ''T'' ''POOL'' ''W'' odemo_pos (upd_dex ORCA (\<lambda>x. x\<lparr>dx_busy := True\<rparr>) (xdemo_bot []), []) =
      (Inr (Some ''SIG''), p)" using o by blast
  moreover have "noted (on_net (await_position odemo_cx 3 ''T'')) (s, l) = (Inr (Some odemo_pos), (s, l))"
    for s :: "(unit, int, nat) xbot" and l
    by (simp add: noted_def zoom_def odemo_read)
  ultimately show ?thesis
    using g by (simp add: orca_copyOpen_def with_dex_lock_def finally_op_def with_notes_def catch_op_def bind_op_def split: prod.splits)
qed

text \<open>The open is made, and no opening transaction exceeds the target's 1000 and 1200.\<close>

theorem whirl_open_within_target_witness:
  "\<exists>s'. orca_copyOpen odemo_cx ''T'' ''POOL'' ''W'' (xdemo_bot []) = (Inr (Some ''SIG''), s') \<and>
     (\<exists>e. map_of (positions s') = [''T'' \<mapsto> e]) \<and>
     (\<forall>p lo up a b. OrcaTx (WhirlOpenTx p lo up a b) \<in> set (traffic s') \<longrightarrow> p = ''WP'' \<and> lo = -8 \<and> up = 8 \<and> a \<le> 1000 \<and> b \<le> 1200)"
proof -
  obtain s' where s': "orca_copyOpen odemo_cx ''T'' ''POOL'' ''W'' (xdemo_bot []) = (Inr (Some ''SIG''), s')" using odemo_open by blast
  have sc: "scaled_whirl odemo_cx ''W'' pos pl wA wB \<Longrightarrow> wA = 1000 \<and> wB = 1200" for pos pl wA wB
    by (auto simp: scaled_whirl_def scaleAmount_def getAmountRatio_def num_eq_def)
  have tx: "p = ''WP'' \<and> lo = -8 \<and> up = 8 \<and> a \<le> 1000 \<and> b \<le> 1200"
    if "whirl_open_tx odemo_cx id ''T'' ''W'' (OrcaTx (WhirlOpenTx p lo up a b))" for p lo up a b
    using that by (auto simp: whirl_open_tx_def read_whirl_def odemo_pos_def side_max_def dest!: sc)
  have "traffic (xdemo_bot []) = []" by (simp add: traffic_def xdemo_bot_def)
  with whirl_open_within_target [OF _ s', of id] int_BN_spec
  have "list_all (whirl_open_tx odemo_cx id ''T'' ''W'') (traffic s')" "\<exists>e. map_of (positions s') = [''T'' \<mapsto> e]" by auto
  moreover from this(1) have "\<forall>p lo up a b. OrcaTx (WhirlOpenTx p lo up a b) \<in> set (traffic s') \<longrightarrow>
      p = ''WP'' \<and> lo = -8 \<and> up = 8 \<and> a \<le> 1000 \<and> b \<le> 1200"
    unfolding list_all_iff using tx by blast
  ultimately show ?thesis using s' by blast
qed

theorem orca_outage_forgets_all_witness:
  "\<exists>ns s1. reconcileOrcaPositions (odemo_cx\<lparr>osdk := odemo_sdk\<lparr>os_getPosition := \<lambda>_ w. (Inl (Error ''503''), w)\<rparr>\<rparr>)
      (xdemo_bot [(''T'', held_entry\<lparr>dex := Some ''orca''\<rparr>)]) = (Inr ns, s1) \<and>
    traffic (fold (\<lambda>k s. snd (orca_copyClose (odemo_cx\<lparr>osdk := odemo_sdk\<lparr>os_getPosition := \<lambda>_ w. (Inl (Error ''503''), w)\<rparr>\<rparr>) k s)) ns s1) = [] \<and>
    positions (fold (\<lambda>k s. snd (orca_copyClose (odemo_cx\<lparr>osdk := odemo_sdk\<lparr>os_getPosition := \<lambda>_ w. (Inl (Error ''503''), w)\<rparr>\<rparr>) k s)) ns s1) = []"
proof -
  let ?cx = "odemo_cx\<lparr>osdk := odemo_sdk\<lparr>os_getPosition := \<lambda>_ w. (Inl (Error ''503''), w)\<rparr>\<rparr>"
  let ?s = "xdemo_bot [(''T'', held_entry\<lparr>dex := Some ''orca''\<rparr>)]"
  have "unreachable ?cx" by (simp add: unreachable_def)
  moreover have "\<not> dex_busy ORCA ?s" "traffic ?s = []" by (simp_all add: xdemo_bot_def traffic_def)
  moreover have "(\<lambda>k. if PM_getDex k (positions ?s) = Some ''orca'' then None else map_of (positions ?s) k) = Map.empty"
    by (auto simp: PM_getDex_def)
  ultimately show ?thesis using orca_outage_forgets_all [of ?cx ?s] by simp
qed

end
