(* ===== verification/Pcs_Exec.thy ===== *)
theory Pcs_Exec
  imports Dex_Common
begin

text \<open>
  The PancakeSwap executor (\<^verbatim>\<open>src/executor/pancakeswap-position.ts\<close>): copying an open, increase, decrease and close of
  a position, closing by hand, and the reconciliation. The program is a fork of the one Byreal uses and is driven
  by the same SDK under another program id; what that SDK answers here is the record \<open>pcs_chain\<close>, and its
  transactions appear in the trace as \<open>PcsTx\<close>.
\<close>

section \<open>The SDK and the context\<close>

record ('b, 'w) pcs_chain =
  pc_getPosition :: "string \<Rightarrow> 'w \<Rightarrow> 'b position_info option result \<times> 'w" \<comment> \<open>\<^verbatim>\<open>getPositionInfoByNftMint\<close>\<close>
  pc_createPosition :: "'b open_params \<Rightarrow> 'w \<Rightarrow> string option result \<times> 'w" \<comment> \<open>\<^verbatim>\<open>nftAddress\<close>\<close>
  pc_lamports :: "'w \<Rightarrow> int result \<times> 'w" \<comment> \<open>\<^verbatim>\<open>getBalance\<close>\<close>
  pc_accounts :: "pubkey \<Rightarrow> pubkey \<Rightarrow> 'w \<Rightarrow> byte list list result \<times> 'w" \<comment> \<open>data of the wallet's accounts of a mint\<close>
  pc_rentExemption :: "nat \<Rightarrow> 'w \<Rightarrow> int result \<times> 'w"

record ('b, 'w) pcx =
  pb :: "('b, 'w) xcx"
  pchain :: "('b, 'w) pcs_chain"

section \<open>Shared steps\<close>

text \<open>\<^verbatim>\<open>new BN(data.slice(64, 72), 'le')\<close>: the little-endian number, as the decimal it prints as.\<close>

fun le_number :: "byte list \<Rightarrow> nat" where
  "le_number [] = 0"
| "le_number (b # bs) = b + 256 * le_number bs"

fun accounts_total :: "'b BN \<Rightarrow> 'b \<Rightarrow> byte list list \<Rightarrow> 'b result" where
  "accounts_total bn acc [] = Inr acc"
| "accounts_total bn acc (d # ds) =
     bind_result (bn_of_string bn (show_nat (le_number (take 8 (drop 64 d))))) (\<lambda>a. accounts_total bn (bn_add bn acc a) ds)"

fun pcs_accounts_loop :: "('b, 'w) pcx \<Rightarrow> pubkey \<Rightarrow> pubkey list \<Rightarrow> ('b, 'w, 'b) net_op" where
  "pcs_accounts_loop cx m [] = bn_lit (xbn (pb cx)) 0"
| "pcs_accounts_loop cx m (p # ps) =
     bind_op (try_op (bind_op (request (pc_accounts (pchain cx) m p)) (\<lambda>accs.
         if accs = [] then ret None
         else bind_op (bn_lit (xbn (pb cx)) 0) (\<lambda>z.
              bind_op (of_result (accounts_total (xbn (pb cx)) z accs)) (\<lambda>b. ret (Some b)))))) (\<lambda>r.
       case r of Inr (Some b) \<Rightarrow> ret b | _ \<Rightarrow> pcs_accounts_loop cx m ps)"

text \<open>This \<^verbatim>\<open>getTokenBalance\<close> never throws: without an answer the balance is zero.\<close>

definition pcs_balance :: "('b, 'w) pcx \<Rightarrow> pubkey \<Rightarrow> ('b, 'w, 'b) net_op" where
  "pcs_balance cx m =
     catch_op
       (if m = NATIVE_MINT
        then bind_op (request (pc_lamports (pchain cx))) (\<lambda>l. of_result (available_lamports (xbn (pb cx)) l))
        else pcs_accounts_loop cx m TOKEN_PROGRAMS)
       (\<lambda>_. bn_lit (xbn (pb cx)) 0)"

fun pcs_read_loop :: "('b, 'w) pcx \<Rightarrow> nat \<Rightarrow> string \<Rightarrow> ('b, 'w, 'b position_info option) net_op" where
  "pcs_read_loop cx 0 nft = ret None"
| "pcs_read_loop cx (Suc n) nft =
     bind_op (try_op (request (pc_getPosition (pchain cx) nft))) (\<lambda>r.
       case r of Inr (Some info) \<Rightarrow> ret (Some info) | _ \<Rightarrow> pcs_read_loop cx n nft)"

definition pcs_retryGetPosition :: "('b, 'w) pcx \<Rightarrow> string \<Rightarrow> ('b, 'w, 'b position_info option) net_op" where
  "pcs_retryGetPosition cx nft = pcs_read_loop cx 5 nft"

definition pcs_transient :: "js_error \<Rightarrow> bool" where
  "pcs_transient e \<longleftrightarrow> mentions [''blockhash'', ''timeout'', ''429'', ''econnreset'', ''fetch failed''] e"

definition pcs_retryOnTransient :: "('s, 'a) op \<Rightarrow> ('s, 'a) op" where
  "pcs_retryOnTransient m = attempt_loop pcs_transient 3 m"

definition pcs_isRetryableSimError :: "js_error \<Rightarrow> bool" where
  "pcs_isRetryableSimError e \<longleftrightarrow> mentions [''simulation'', ''instructionerror'', ''0x1''] e"

definition pcs_retryable :: "js_error \<Rightarrow> bool" where
  "pcs_retryable e \<longleftrightarrow> pcs_isRetryableSimError e \<or> isTransientError e"

definition pcs_submit :: "('b, 'w) pcx \<Rightarrow> 'b chain_tx \<Rightarrow> ('b, 'w, string) net_op" where
  "pcs_submit cx t = submit (PcsTx t) (sv_send (xsv (pb cx)) (PcsTx t))"

definition pcs_send :: "('b, 'w) pcx \<Rightarrow> 'b chain_tx \<Rightarrow> ('b, 'w, string) net_op" where
  "pcs_send cx t = pcs_retryOnTransient (pcs_submit cx t)"

text \<open>Confirmed and in the index; a transaction without metadata counts as a success.\<close>

definition pcs_verifyTxSuccess :: "('b, 'w) pcx \<Rightarrow> string \<Rightarrow> ('b, 'w, bool) net_op" where
  "pcs_verifyTxSuccess cx sig =
     catch_op
       (bind_op (request (sv_confirm (xsv (pb cx)) sig)) (\<lambda>_.
        bind_op (request (sv_getParsedTransaction (xsv (pb cx)) sig)) (\<lambda>tx.
          ret (case tx of None \<Rightarrow> False | Some t \<Rightarrow> (case tx_meta t of None \<Rightarrow> True | Some meta \<Rightarrow> \<not> meta_err meta)))))
       (\<lambda>_. ret False)"

section \<open>Opening\<close>

definition pcs_filters :: "('b, 'w) pcx \<Rightarrow> string \<Rightarrow> 'b position_info \<Rightarrow> ('j, 'b, 'w, string option) xop" where
  "pcs_filters cx wallet info =
     first_reason
       [ret (if pcs_isTokenBlacklisted (xdc (pb cx)) (pool_label (pos_pool info))
             then Some (utf8 [233, 187, 145, 229, 144, 141, 229, 150, 174, 228, 187, 163, 229, 185, 163]) else None),
        pump_filter_by (\<lambda>_. ret '''') (pool_label (pos_pool info)) (pb cx) wallet (pos_pool info),
        tvl_check (pb cx) (pos_pool info),
        tick_filter (pb cx) wallet info]"

definition pcs_ways_to_A :: "('b, 'w) xcx \<Rightarrow> 'b pool_info \<Rightarrow> 'b \<Rightarrow> 'b \<Rightarrow> ('b, 'w, string option) net_op list" where
  "pcs_ways_to_A cx p balB deficit =
     (if pi_mintA p = NATIVE_MINT then usdc_swap cx (pi_mintA p) deficit
      else (if bn_isZero (xbn cx) balB then [] else [swap_in cx (pi_mintB p) (pi_mintA p) deficit]) @ usdc_swap cx (pi_mintA p) deficit)"

definition pcs_ways_to_B :: "('b, 'w) xcx \<Rightarrow> 'b pool_info \<Rightarrow> 'b \<Rightarrow> 'b \<Rightarrow> ('b, 'w, string option) net_op list" where
  "pcs_ways_to_B cx p balA deficit =
     (if pi_mintB p = NATIVE_MINT then usdc_swap cx (pi_mintB p) deficit
      else usdc_swap cx (pi_mintB p) deficit @ (if bn_isZero (xbn cx) balA then [] else [swap_in cx (pi_mintA p) (pi_mintB p) deficit]))"

text \<open>One side: \<open>None\<close> when a swap was needed and none worked.\<close>

definition pcs_raise ::
  "('b, 'w) pcx \<Rightarrow> ('b \<Rightarrow> ('b, 'w, string option) net_op list) \<Rightarrow> string \<Rightarrow> 'b \<Rightarrow> 'b \<Rightarrow> ('b, 'w, 'b option) net_op" where
  "pcs_raise cx ways m balance wanted =
     (if bn_lt (xbn (pb cx)) balance wanted \<and> \<not> bn_isZero (xbn (pb cx)) wanted then
        bind_op (attempts (ways (bn_sub (xbn (pb cx)) wanted balance))) (\<lambda>sig.
          if \<not> truthy sig then ret None
          else bind_op (getActualSwapOutput (xsv (pb cx)) (the sig) m (swc_user (xc_swap (xc (pb cx))))) (\<lambda>added.
            if truthy added
            then bind_op (of_result (bn_of_string (xbn (pb cx)) (the added))) (\<lambda>b. ret (Some (bn_add (xbn (pb cx)) balance b)))
            else bind_op (pcs_balance cx m) (\<lambda>b. ret (Some b))))
      else ret (Some balance))"

text \<open>
  Both sides; \<open>strict\<close> is the open, which gives up when a side cannot be raised. An increase goes on with the
  balance it has.
\<close>

definition pcs_raise_both ::
  "('b, 'w) pcx \<Rightarrow> bool \<Rightarrow> 'b pool_info \<Rightarrow> 'b \<Rightarrow> 'b \<Rightarrow> ('b, 'w, ('b \<times> 'b) option) net_op" where
  "pcs_raise_both cx strict p wantA wantB =
     bind_op (pcs_balance cx (pi_mintA p)) (\<lambda>balA0.
     bind_op (pcs_balance cx (pi_mintB p)) (\<lambda>balB0.
     bind_op (pcs_raise cx (pcs_ways_to_A (pb cx) p balB0) (pi_mintA p) balA0 wantA) (\<lambda>ra.
       if ra = None \<and> strict then ret None
       else let balA = (case ra of Some b \<Rightarrow> b | None \<Rightarrow> balA0)
         in bind_op (pcs_raise cx (pcs_ways_to_B (pb cx) p balA) (pi_mintB p) balB0 wantB) (\<lambda>rb.
              if rb = None \<and> strict then ret None
              else let balB = (case rb of Some b \<Rightarrow> b | None \<Rightarrow> balB0)
                in if bn_isZero (xbn (pb cx)) balA \<and> bn_isZero (xbn (pb cx)) balB then ret None else ret (Some (balA, balB))))))"

fun pcs_deposit_loop ::
  "('b, 'w) pcx \<Rightarrow> 'b pool_info \<Rightarrow> 'b \<Rightarrow> 'b \<Rightarrow> (base_side \<times> 'b \<times> 'b \<Rightarrow> ('b, 'w, 'a) net_op) \<Rightarrow> nat \<Rightarrow> 'b \<times> 'b \<Rightarrow>
   ('b, 'w, 'a) net_op" where
  "pcs_deposit_loop cx p wantA wantB act 0 bals = throw (Error ''unreachable'')"
| "pcs_deposit_loop cx p wantA wantB act (Suc n) bals =
     bind_op (of_result (deposit_of (xbn (pb cx)) wantA wantB bals)) (\<lambda>d.
       catch_op (act d) (\<lambda>e.
         if n > 0 \<and> pcs_isRetryableSimError e then
           bind_op (pcs_balance cx (pi_mintA p)) (\<lambda>balA.
           bind_op (pcs_balance cx (pi_mintB p)) (\<lambda>balB.
             pcs_deposit_loop cx p wantA wantB act n (balA, balB)))
         else throw e))"

definition pcs_open_attempt ::
  "('b, 'w) pcx \<Rightarrow> 'b position_info \<Rightarrow> base_side \<times> 'b \<times> 'b \<Rightarrow> ('b, 'w, string \<times> string option) net_op" where
  "pcs_open_attempt cx info d =
     bind_op (request (pc_createPosition (pchain cx) (open_params_of info d))) (\<lambda>nft.
     bind_op (pcs_send cx (OpenTx (open_params_of info d) None)) (\<lambda>sig. ret (sig, nft)))"

definition pcs_save ::
  "('b, 'w) pcx \<Rightarrow> string \<Rightarrow> string \<Rightarrow> string \<Rightarrow> 'b position_info \<Rightarrow> string option \<Rightarrow> ('j, 'b, 'w, unit) xop" where
  "pcs_save cx nft pid wallet info ours =
     (if truthy ours then
        bind_op (now_op (pb cx)) (\<lambda>now.
          change (\<lambda>s.
            set_exec PCS (\<lambda>x. x\<lparr>poolIdToMints := AList.update pid (pool_label (pos_pool info)) (poolIdToMints x)\<rparr>)
              (on_positions (PM_setTargetLiquidity nft (bn_toString (xbn (pb cx)) (pos_liquidity info)))
                (on_positions (PM_setLockedSol nft (dx_rent (dexes (other s) PCS)))
                  (on_positions (PM_set now nft (the ours) (Some (pool_label (pos_pool info))) (Some wallet)
                    (Some (pos_tickLower info)) (Some (pos_tickUpper info)) (Some ''pancakeswap'')) s)))))
      else ret ())"

definition pcs_open_with ::
  "('b, 'w) pcx \<Rightarrow> string \<Rightarrow> string \<Rightarrow> string \<Rightarrow> 'b position_info \<Rightarrow> ('j, 'b, 'w, string option) xop" where
  "pcs_open_with cx nft pid wallet info =
     bind_op (pcs_filters cx wallet info) (\<lambda>reason.
       case reason of
         Some r \<Rightarrow> skip_dex PCS r
       | None \<Rightarrow>
           let ratios = swc_ratios (xc_swap (xc (pb cx))); bn = xbn (pb cx)
           in bind_op (of_result (scaleAmount bn ratios (pos_amountA info) (Some wallet))) (\<lambda>wantA.
              bind_op (of_result (scaleAmount bn ratios (pos_amountB info) (Some wallet))) (\<lambda>wantB.
              bind_op (on_net (pcs_raise_both cx True (pos_pool info) wantA wantB)) (\<lambda>bals.
                case bals of
                  None \<Rightarrow> ret None
                | Some b \<Rightarrow>
                    bind_op (on_net (pcs_deposit_loop cx (pos_pool info) wantA wantB (pcs_open_attempt cx info) 2 b)) (\<lambda>(sig, ours).
                    bind_op (pcs_save cx nft pid wallet info ours) (\<lambda>_.
                    bind_op (on_net (try_op (request (sv_confirm (xsv (pb cx)) sig)))) (\<lambda>_.
                    bind_op (change (later (ReadLockedSol sig nft))) (\<lambda>_. ret (Some sig)))))))))"

definition pcs_open_failed :: "('b, 'w) pcx \<Rightarrow> js_error \<Rightarrow> ('j, 'b, 'w, string option) xop" where
  "pcs_open_failed cx e =
     bind_op (if insufficient_lamports e then sol_exhausted (pb cx) PCS else ret ()) (\<lambda>_. ret None)"

definition pcs_copyOpen :: "('b, 'w) pcx \<Rightarrow> string \<Rightarrow> string \<Rightarrow> string \<Rightarrow> ('j, 'b, 'w, string option) xop" where
  "pcs_copyOpen cx nft pid wallet s =
     (if truthy (PM_get nft (positions s)) then (Inr None, s)
      else if dryRun (xc (pb cx)) then (Inr (Some ''dry-run-pcs-open''), s)
      else with_dex_lock PCS (finally_op
             (catch_op
               (bind_op (on_net (pcs_retryGetPosition cx nft)) (\<lambda>info.
                  case info of None \<Rightarrow> ret None | Some i \<Rightarrow> pcs_open_with cx nft pid wallet i))
               (pcs_open_failed cx))
             (later (RefreshDexSol PCS))) s)"

section \<open>Increasing\<close>

definition pcs_increase_with ::
  "('b, 'w) pcx \<Rightarrow> string \<Rightarrow> string \<Rightarrow> string \<Rightarrow> 'b position_info \<Rightarrow> ('j, 'b, 'w, string option) xop" where
  "pcs_increase_with cx nft ours wallet info =
     (let ratios = swc_ratios (xc_swap (xc (pb cx))); bn = xbn (pb cx)
      in bind_op (of_result (scaleAmount bn ratios (pos_amountA info) (Some wallet))) (\<lambda>fullA.
         bind_op (of_result (scaleAmount bn ratios (pos_amountB info) (Some wallet))) (\<lambda>fullB.
         bind_op (on_net (pcs_retryGetPosition cx ours)) (\<lambda>mine.
         bind_op (held_amount (pb cx) pos_amountA mine) (\<lambda>myA.
         bind_op (held_amount (pb cx) pos_amountB mine) (\<lambda>myB.
         bind_op (of_result (missing_amount bn fullA myA)) (\<lambda>wantA.
         bind_op (of_result (missing_amount bn fullB myB)) (\<lambda>wantB.
           if bn_isZero bn wantA \<and> bn_isZero bn wantB then ret None
           else bind_op (on_net (pcs_raise_both cx False (pos_pool info) wantA wantB)) (\<lambda>bals.
             case bals of
               None \<Rightarrow> ret None
             | Some b \<Rightarrow>
                 bind_op (on_net (pcs_deposit_loop cx (pos_pool info) wantA wantB
                   (\<lambda>(base, amt, other_max). pcs_send cx (AddLiquidityTx ours base amt other_max)) 2 b)) (\<lambda>sig.
                 bind_op (on_net (pcs_retryGetPosition cx nft)) (\<lambda>updated.
                 bind_op (change (case updated of
                     Some i \<Rightarrow> on_positions (PM_setTargetLiquidity nft (bn_toString bn (pos_liquidity i)))
                   | None \<Rightarrow> (\<lambda>s. s))) (\<lambda>_. ret (Some sig)))))))))))))"

definition pcs_copyIncrease :: "('b, 'w) pcx \<Rightarrow> string \<Rightarrow> string \<Rightarrow> ('j, 'b, 'w, string option) xop" where
  "pcs_copyIncrease cx nft wallet s =
     (case PM_get nft (positions s) of
        None \<Rightarrow> (Inr None, s)
      | Some ours \<Rightarrow>
          if ours = [] then (Inr None, s)
          else if dryRun (xc (pb cx)) then (Inr (Some ''dry-run-pcs-increase''), s)
          else with_dex_lock PCS (catch_op
                 (bind_op (on_net (pcs_retryGetPosition cx nft)) (\<lambda>info.
                    case info of None \<Rightarrow> ret None | Some i \<Rightarrow> pcs_increase_with cx nft ours wallet i))
                 (\<lambda>_. ret None)) s)"

section \<open>Decreasing\<close>

definition pcs_liquidity :: "('b, 'w) pcx \<Rightarrow> string \<Rightarrow> ('j, 'b, 'w, 'b option) xop" where
  "pcs_liquidity cx nft = bind_op (on_net (pcs_retryGetPosition cx nft)) (\<lambda>i. ret (map_option pos_liquidity i))"

text \<open>
  One attempt. A partial decrease never asks for more than we have; with nothing left it collects the fees, and a
  failure of that is final. What the transaction brought is read and only logged.
\<close>

definition pcs_decrease_once :: "('b, 'w) pcx \<Rightarrow> string \<Rightarrow> 'b option \<Rightarrow> ('b, 'w, (string \<times> string) option) net_op" where
  "pcs_decrease_once cx ours amt =
     (case amt of
        None \<Rightarrow> bind_op (pcs_send cx (DecreaseFullTx ours False)) (\<lambda>sig. ret (Some (''DECREASE'', sig)))
      | Some a \<Rightarrow>
          bind_op (pcs_retryGetPosition cx ours) (\<lambda>mine.
            case mine of
              None \<Rightarrow> ret None
            | Some i \<Rightarrow>
                let liq = bn_min (xbn (pb cx)) a (pos_liquidity i)
                in if bn_isZero (xbn (pb cx)) liq then
                     catch_op (bind_op (pcs_submit cx (CollectFeesTx ours)) (\<lambda>sig. ret (Some (''COLLECT_FEE'', sig)))) (\<lambda>_. ret None)
                   else bind_op (pcs_send cx (DecreaseTx ours liq)) (\<lambda>sig.
                        bind_op (try_op (request (sv_getParsedTransaction (xsv (pb cx)) sig))) (\<lambda>_.
                          ret (Some (''DECREASE'', sig))))))"

definition pcs_decrease :: "('b, 'w) pcx \<Rightarrow> string \<Rightarrow> 'b option \<Rightarrow> ('j, 'b, 'w, (string \<times> string) option) xop" where
  "pcs_decrease cx ours amt =
     (if dryRun (xc (pb cx)) then ret (Some (''DECREASE'', ''dry-run-pcs-decrease''))
      else with_dex_lock PCS (catch_op (on_net (attempt_loop pcs_retryable 2 (pcs_decrease_once cx ours amt))) (\<lambda>_. ret None)))"

definition pcs_collect :: "('b, 'w) pcx \<Rightarrow> string \<Rightarrow> ('j, 'b, 'w, (string \<times> string) option) xop" where
  "pcs_collect cx ours =
     (if dryRun (xc (pb cx)) then ret (Some (''COLLECT_FEE'', ''dry-run-pcs-collect-fee''))
      else with_dex_lock PCS (catch_op
        (bind_op (on_net (pcs_send cx (CollectFeesTx ours))) (\<lambda>sig. ret (Some (''COLLECT_FEE'', sig)))) (\<lambda>_. ret None)))"

definition pcs_copyDecrease :: "('b, 'w) pcx \<Rightarrow> string \<Rightarrow> ('j, 'b, 'w, (string \<times> string) option) xop" where
  "pcs_copyDecrease cx nft s =
     (case PM_get nft (positions s) of
        None \<Rightarrow> (Inr None, s)
      | Some ours \<Rightarrow>
          if ours = [] then (Inr None, s)
          else bind_op (pcs_liquidity cx nft) (\<lambda>current.
               bind_op (planned_decrease (xbn (pb cx)) (pcs_liquidity cx ours) nft current) (\<lambda>amt.
                 case amt of
                   Some a \<Rightarrow> if bn_isZero (xbn (pb cx)) a then pcs_collect cx ours else pcs_decrease cx ours (Some a)
                 | None \<Rightarrow> pcs_decrease cx ours None)) s)"

section \<open>Closing\<close>

fun pcs_close_loop :: "('b, 'w) pcx \<Rightarrow> nat \<Rightarrow> string \<Rightarrow> ('b, 'w, string option) net_op" where
  "pcs_close_loop cx 0 ours = ret None"
| "pcs_close_loop cx (Suc n) ours =
     bind_op (try_op (pcs_send cx (DecreaseFullTx ours True))) (\<lambda>r.
       case r of
         Inl e \<Rightarrow> if n > 0 \<and> pcs_retryable e then pcs_close_loop cx n ours else throw e
       | Inr sig \<Rightarrow>
           if sig = [] then ret None
           else bind_op (pcs_verifyTxSuccess cx sig) (\<lambda>ok. if ok then ret (Some sig) else pcs_close_loop cx n ours))"

definition pcs_copyClose :: "('b, 'w) pcx \<Rightarrow> string \<Rightarrow> ('j, 'b, 'w, string option) xop" where
  "pcs_copyClose cx nft s =
     (case PM_get nft (positions s) of
        None \<Rightarrow> (Inr None, s)
      | Some ours \<Rightarrow>
          if ours = [] then (Inr None, s)
          else if dryRun (xc (pb cx)) then (Inr (Some ''dry-run-pcs-close''), s)
          else with_dex_lock PCS (catch_op
                 (bind_op (on_net (pcs_close_loop cx 3 ours)) (\<lambda>r.
                    case r of
                      None \<Rightarrow> ret None
                    | Some sig \<Rightarrow>
                        bind_op (change (on_positions (PM_delete nft))) (\<lambda>_.
                        bind_op (on_net (try_op (request (sv_getParsedTransaction (xsv (pb cx)) sig)))) (\<lambda>_. ret (Some sig)))))
                 (\<lambda>_. ret None)) s)"

text \<open>The close by hand does not look whether the transaction succeeded.\<close>

definition pcs_manualClose :: "('b, 'w) pcx \<Rightarrow> string \<Rightarrow> ('j, 'b, 'w, string option) xop" where
  "pcs_manualClose cx ours s =
     (let target = PM_findByOurNft ours (positions s)
      in if dryRun (xc (pb cx)) then (Inr (Some ''dry-run-pcs-manual-close''), s)
         else with_dex_lock PCS (catch_op
           (bind_op (on_net (pcs_send cx (DecreaseFullTx ours True))) (\<lambda>sig.
            bind_op (change (if truthy target then on_positions (PM_delete (the target)) else (\<lambda>s. s))) (\<lambda>_. ret (Some sig))))
           (\<lambda>_. ret None)) s)"

section \<open>Maintenance\<close>

text \<open>Three sizes of accounts and the transfer for the metadata; an error keeps the value there is.\<close>

definition initRentPerPosition :: "('b, 'w) pcx \<Rightarrow> ('j, 'b, 'w, unit) xop" where
  "initRentPerPosition cx =
     catch_op
       (bind_op (on_net (request (pc_rentExemption (pchain cx) 281))) (\<lambda>rentPDA.
        bind_op (on_net (request (pc_rentExemption (pchain cx) 270))) (\<lambda>rentMint.
        bind_op (on_net (request (pc_rentExemption (pchain cx) 170))) (\<lambda>rentATA.
          change (upd_dex PCS (\<lambda>x. x\<lparr>dx_rent := num_div (to_num (of_int (rentPDA + rentMint + 1322400 + rentATA))) 1000000000\<rparr>))))))
       (\<lambda>_. ret ())"

definition pcs_backfillLockedSol :: "('j, 'b, 'w) xbot \<Rightarrow> ('j, 'b, 'w) xbot" where
  "pcs_backfillLockedSol s =
     fold (\<lambda>n. on_positions (PM_setLockedSol n (dx_rent (dexes (other s) PCS))))
       (map fst (filter (\<lambda>(n, e). dex e = Some ''pancakeswap'' \<and> lockedSol e = None) (positions s))) s"

definition isPcsPosition :: "('b, 'w) pcx \<Rightarrow> string \<Rightarrow> ('b, 'w, bool) net_op" where
  "isPcsPosition cx nft =
     catch_op (bind_op (request (pc_getPosition (pchain cx) nft)) (\<lambda>i. ret (i \<noteq> None))) (\<lambda>_. ret False)"

fun pcs_orphans :: "('b, 'w) pcx \<Rightarrow> string list \<Rightarrow> ('b, 'w, string list) net_op" where
  "pcs_orphans cx [] = ret []"
| "pcs_orphans cx (n # ns) =
     bind_op (try_op (request (pc_getPosition (pchain cx) n))) (\<lambda>r.
     bind_op (pcs_orphans cx ns) (\<lambda>rest. ret (if r = Inr None then n # rest else rest)))"

text \<open>The targets for which a close is queued, and what each queued operation does.\<close>

definition reconcilePcsPositions :: "('b, 'w) pcx \<Rightarrow> ('j, 'b, 'w, string list) xop" where
  "reconcilePcsPositions cx s =
     on_net (pcs_orphans cx (map fst (filter (\<lambda>(n, e). dex e = Some ''pancakeswap'') (positions s)))) s"

definition pcs_close_orphan :: "('b, 'w) pcx \<Rightarrow> string \<Rightarrow> ('j, 'b, 'w, string option) xop" where
  "pcs_close_orphan cx nft s =
     (case PM_get nft (positions s) of
        None \<Rightarrow> (Inr None, s)
      | Some ours \<Rightarrow> if ours = [] then (Inr None, s) else pcs_manualClose cx ours s)"

end
