(* ===== verification/Pcs_Safety.thy ===== *)
theory Pcs_Safety
  imports Pcs_Exec Dex_Safety
begin

text \<open>
  What the copies of PancakeSwap positions may do.
\<close>

section \<open>What is handed over\<close>

lemma pcs_accounts_submits: "submits P (pcs_accounts_loop cx m ps)"
  by (induction ps) (auto simp: bn_lit_def intro!: submits_rules split: sum.splits option.splits)

lemma pcs_balance_submits: "submits P (pcs_balance cx m)"
  unfolding pcs_balance_def by (auto simp: bn_lit_def intro!: submits_rules pcs_accounts_submits)

lemma pcs_read_submits: "submits P (pcs_retryGetPosition cx nft)"
proof -
  have "submits P (pcs_read_loop cx n nft)" for n
    by (induction n) (auto intro!: submits_rules split: sum.splits option.splits)
  then show ?thesis by (simp add: pcs_retryGetPosition_def)
qed

lemma pcs_send_submits: "P (PcsTx t) \<Longrightarrow> submits P (pcs_send cx t)" "P (PcsTx t) \<Longrightarrow> submits P (pcs_submit cx t)"
  unfolding pcs_send_def pcs_retryOnTransient_def pcs_submit_def by (auto intro!: attempt_loop_submits submits_simple)

lemma pcs_verify_submits: "submits P (pcs_verifyTxSuccess cx sig)"
  unfolding pcs_verifyTxSuccess_def by (auto intro!: submits_rules)

lemma pcs_raise_submits:
  assumes "\<And>m. P (SwapTx m)" and "\<And>d. \<exists>ps. ways d = map (\<lambda>(a, b). swap_in (pb cx) a b d) ps"
  shows "submits P (pcs_raise cx ways m bal want)"
proof -
  have "submits P (attempts (ways d))" for d
  proof -
    obtain ps where "ways d = map (\<lambda>(a, b). swap_in (pb cx) a b d) ps" using assms(2) by blast
    then show ?thesis by (auto simp: swap_in_def intro!: attempts_submits swapForToken_submits assms(1))
  qed
  then show ?thesis
    unfolding pcs_raise_def by (auto intro!: submits_rules output_submits pcs_balance_submits)
qed

lemma pcs_ways_swap:
  "\<exists>ps. pcs_ways_to_A cx pl b d = map (\<lambda>(x, y). swap_in cx x y d) ps"
  "\<exists>ps. pcs_ways_to_B cx pl b d = map (\<lambda>(x, y). swap_in cx x y d) ps"
proof -
  let ?u = "\<lambda>m. if m \<noteq> USDC_MINT then [(USDC_MINT, m)] else []"
  show "\<exists>ps. pcs_ways_to_A cx pl b d = map (\<lambda>(x, y). swap_in cx x y d) ps"
    by (rule exI [of _ "(if pi_mintA pl = NATIVE_MINT \<or> bn_isZero (xbn cx) b then [] else [(pi_mintB pl, pi_mintA pl)]) @ ?u (pi_mintA pl)"])
       (simp add: pcs_ways_to_A_def usdc_swap_def)
  show "\<exists>ps. pcs_ways_to_B cx pl b d = map (\<lambda>(x, y). swap_in cx x y d) ps"
    by (rule exI [of _ "?u (pi_mintB pl) @ (if pi_mintB pl = NATIVE_MINT \<or> bn_isZero (xbn cx) b then [] else [(pi_mintA pl, pi_mintB pl)])"])
       (simp add: pcs_ways_to_B_def usdc_swap_def)
qed

lemma pcs_raise_both_submits: "(\<And>m. P (SwapTx m)) \<Longrightarrow> submits P (pcs_raise_both cx strict p wA wB)"
  unfolding pcs_raise_both_def Let_def
  by (auto intro!: submits_rules pcs_balance_submits pcs_raise_submits pcs_ways_swap)

lemma pcs_deposit_submits:
  assumes "\<And>bals d. deposit_of (xbn (pb cx)) wA wB bals = Inr d \<Longrightarrow> submits P (act d)"
  shows "submits P (pcs_deposit_loop cx p wA wB act n bals)"
proof (induction n arbitrary: bals)
  case (Suc n)
  show ?case
    unfolding pcs_deposit_loop.simps
    by (intro logs.bind logs.simple logs.catched) (auto intro!: assms submits_rules pcs_balance_submits Suc.IH)
qed (simp add: logs.simple)

text \<open>A transaction of a copied open: a swap, or the open of the target's range within its scaled amounts.\<close>

definition pcs_read :: "('b, 'w) pcx \<Rightarrow> string \<Rightarrow> 'b position_info \<Rightarrow> bool" where
  "pcs_read cx nft info \<longleftrightarrow> (\<exists>w w'. pc_getPosition (pchain cx) nft w = (Inr (Some info), w'))"

definition pcs_open_tx :: "('b, 'w) pcx \<Rightarrow> ('b \<Rightarrow> int) \<Rightarrow> string \<Rightarrow> string \<Rightarrow> 'b chain_tx \<Rightarrow> bool" where
  "pcs_open_tx cx val nft wallet t \<longleftrightarrow>
     (\<exists>m. t = SwapTx m) \<or>
     (\<exists>info prm wA wB. pcs_read cx nft info \<and> t = PcsTx (OpenTx prm None) \<and> op_pool prm = pos_pool info \<and>
        op_tickLower prm = pos_tickLower info \<and> op_tickUpper prm = pos_tickUpper info \<and>
        scaleAmount (xbn (pb cx)) (swc_ratios (xc_swap (xc (pb cx)))) (pos_amountA info) (Some wallet) = Inr wA \<and>
        scaleAmount (xbn (pb cx)) (swc_ratios (xc_swap (xc (pb cx)))) (pos_amountB info) (Some wallet) = Inr wB \<and>
        bounded_by val wA wB (op_base prm) (op_baseAmount prm) (op_otherAmountMax prm))"

lemma pcs_attempt_sends:
  assumes "bn_spec (xbn (pb cx)) val" and "pcs_read cx nft info" and "deposit_of (xbn (pb cx)) wA wB bals = Inr d"
    and "scaleAmount (xbn (pb cx)) (swc_ratios (xc_swap (xc (pb cx)))) (pos_amountA info) (Some wallet) = Inr wA"
    and "scaleAmount (xbn (pb cx)) (swc_ratios (xc_swap (xc (pb cx)))) (pos_amountB info) (Some wallet) = Inr wB"
  shows "submits (pcs_open_tx cx val nft wallet) (pcs_open_attempt cx info d)"
proof -
  have "bounded_by val wA wB (fst d) (fst (snd d)) (snd (snd d))"
    using assms(3) by (intro deposit_bounded [OF assms(1), of _ _ bals]) simp
  with assms(2,4,5) have "pcs_open_tx cx val nft wallet (PcsTx (OpenTx (open_params_of info d) None))"
    unfolding pcs_open_tx_def open_params_of_def by (intro disjI2 exI [of _ info]) auto
  then show ?thesis unfolding pcs_open_attempt_def by (auto intro!: submits_rules pcs_send_submits)
qed

lemma pump_blank_sends: "sends P (pump_filter_by (\<lambda>_. ret '''') l cx w p)"
  unfolding pump_filter_by_def by (auto intro!: sends_rules split: option.splits pump_mode.splits)

lemma pcs_filters_send: "sends P (pcs_filters cx w i)"
  unfolding pcs_filters_def
  by (intro first_reason_sends) (auto intro!: logs.simple filter_sends pump_blank_sends)

lemma pump_blank_off: "off_dex g \<Longrightarrow> always (same g) (pump_filter_by (\<lambda>_. ret '''') l cx w p)"
  unfolding pump_filter_by_def
  by (auto intro!: off_rules pumps_off same.simple simp: off_dex_def split: option.splits pump_mode.splits)

lemma pcs_filters_off: "off_dex g \<Longrightarrow> always (same g) (pcs_filters cx w i)"
  unfolding pcs_filters_def
  by (intro first_reason_off) (auto intro!: same.simple filter_off pump_blank_off simp: off_dex_def)

section \<open>The position map after an open\<close>

definition pcs_entry :: "('b, 'w) pcx \<Rightarrow> string \<Rightarrow> string \<Rightarrow> js_num PositionEntry \<Rightarrow> bool" where
  "pcs_entry cx nft wallet e \<longleftrightarrow>
     (\<exists>info prm w w'. pcs_read cx nft info \<and> pc_createPosition (pchain cx) prm w = (Inr (Some (ourNft e)), w') \<and>
        op_pool prm = pos_pool info \<and> op_tickLower prm = pos_tickLower info \<and> op_tickUpper prm = pos_tickUpper info \<and>
        pool e = Some (pool_label (pos_pool info)) \<and> targetWallet e = Some wallet \<and> tickLower e = Some (pos_tickLower info) \<and>
        tickUpper e = Some (pos_tickUpper info) \<and> dex e = Some ''pancakeswap'' \<and>
        targetLiquidity e = Some (bn_toString (xbn (pb cx)) (pos_liquidity info)))"

text \<open>An SDK that gives no address for an open: then nothing is recorded.\<close>

definition no_address :: "('b, 'w) pcx \<Rightarrow> bool" where
  "no_address cx \<longleftrightarrow> (\<exists>prm w w' a. pc_createPosition (pchain cx) prm w = (Inr a, w') \<and> \<not> truthy a)"

definition pcs_opens ::
  "('b, 'w) pcx \<Rightarrow> string \<Rightarrow> string \<Rightarrow> ('j, 'b, 'w) xbot \<Rightarrow> string option result \<Rightarrow> ('j, 'b, 'w) xbot \<Rightarrow> bool" where
  "pcs_opens cx nft wallet s r s' \<longleftrightarrow>
     (case r of
        Inr (Some _) \<Rightarrow> writes nft (pcs_entry cx nft wallet) (positions s) (positions s') \<or> no_address cx \<and> positions s' = positions s
      | _ \<Rightarrow> positions s' = positions s)"

lemma pcs_opens_bind:
  assumes "always (same positions) m" and "\<And>a. gives m a \<Longrightarrow> meets (f a) (pcs_opens cx nft wallet)"
  shows "meets (bind_op m f) (pcs_opens cx nft wallet)"
  using assms by (rule same.meets_bind) (auto simp: pcs_opens_def same_def split: sum.splits option.splits)

lemma pcs_opens_none: "always (same positions) m \<Longrightarrow> (\<And>a. gives m a \<Longrightarrow> a = None) \<Longrightarrow> meets m (pcs_opens cx nft wallet)"
  by (rule meetsI) (auto simp: pcs_opens_def same_def dest: alwaysD givesI split: sum.splits option.splits)

lemma pcs_opens_catch:
  assumes "meets m (pcs_opens cx nft wallet)" and "\<And>e. always (same positions) (h e)" and "\<And>e a. gives (h e) a \<Longrightarrow> a = None"
  shows "meets (catch_op m h) (pcs_opens cx nft wallet)"
proof (rule meetsI)
  fix s r s' assume run: "catch_op m h s = (r, s')"
  obtain q t where m: "m s = (q, t)" by fastforce
  have q: "pcs_opens cx nft wallet s q t" using assms(1) m by (rule meetsD)
  show "pcs_opens cx nft wallet s r s'"
  proof (cases q)
    case (Inl e)
    then have h: "h e t = (r, s')" "positions t = positions s" using run m q by (simp_all add: catch_op_def pcs_opens_def)
    have "positions s' = positions t" using alwaysD [OF assms(2) h(1)] by (simp add: same_def)
    moreover have "\<And>a. r = Inr a \<Longrightarrow> a = None" using assms(3) h(1) by (blast intro: givesI)
    ultimately show ?thesis using h(2) by (auto simp: pcs_opens_def split: sum.splits option.splits)
  next
    case (Inr a)
    with run m q show ?thesis by (simp add: catch_op_def)
  qed
qed

lemma pcs_read_gives: "gives (pcs_retryGetPosition cx nft) (Some info) \<Longrightarrow> pcs_read cx nft info"
proof -
  have "gives (pcs_read_loop cx n nft) (Some info) \<Longrightarrow> pcs_read cx nft info" for n
  proof (induction n)
    case (Suc n)
    from Suc.prems show ?case
      unfolding pcs_read_loop.simps
      by (elim gives_bindE) (auto split: sum.splits option.splits dest!: gives_tried gives_request Suc.IH simp: pcs_read_def)
  qed simp
  then show "gives (pcs_retryGetPosition cx nft) (Some info) \<Longrightarrow> pcs_read cx nft info" by (simp add: pcs_retryGetPosition_def)
qed

lemma pcs_deposit_gives: "gives (pcs_deposit_loop cx p wA wB act n bals) x \<Longrightarrow> \<exists>d. gives (act d) x"
proof (induction n arbitrary: bals)
  case (Suc n)
  show ?case
    using Suc.prems unfolding pcs_deposit_loop.simps
    by (elim gives_bindE gives_catchE)
       (auto simp del: split_paired_Ex split: if_splits elim!: gives_bindE dest: Suc.IH)
qed simp

lemma pcs_tail_contract:
  assumes "pcs_read cx nft info" and "gives (pcs_open_attempt cx info d) (sig, ours)"
  shows "meets (bind_op (pcs_save cx nft pid wallet info ours) (\<lambda>_.
     bind_op (on_net (try_op (request (sv_confirm (xsv (pb cx)) sig)))) (\<lambda>_.
     bind_op (change (later (ReadLockedSol sig nft))) (\<lambda>_. ret (Some sig))))) (pcs_opens cx nft wallet)" (is "meets (bind_op _ (\<lambda>_. ?tail)) _")
proof (rule meetsI)
  fix s r s' assume run: "bind_op (pcs_save cx nft pid wallet info ours) (\<lambda>_. ?tail) s = (r, s')"
  from assms(2) obtain w w' where c: "pc_createPosition (pchain cx) (open_params_of info d) w = (Inr ours, w')"
    unfolding pcs_open_attempt_def by (auto elim!: gives_bindE dest!: gives_request)
  have tail: "always (same positions) ?tail" by (intro same.bind same.simple on_net_off off_books change_same) simp_all
  obtain q s1 where s1: "pcs_save cx nft pid wallet info ours s = (q, s1)" by fastforce
  have q: "q = Inr ()" using s1 by (auto simp: pcs_save_def op_simps now_op_def on_net_def zoom_def consult_def bind_op_def split: if_splits prod.splits)
  then have "?tail s1 = (r, s')" using run s1 by (simp add: bind_op_def)
  then have p: "positions s' = positions s1" using alwaysD [OF tail] by (simp add: same_def)
  show "pcs_opens cx nft wallet s r s'"
  proof (cases "truthy ours")
    case False
    with s1 have "s1 = s" by (simp add: pcs_save_def op_simps)
    moreover have "no_address cx" using False c by (auto simp: no_address_def)
    ultimately show ?thesis using p by (auto simp: pcs_opens_def split: sum.splits option.splits)
  next
    case True
    obtain n s0 where n: "now_op (pb cx) s = (Inr n, s0)" "books s0 = books s" by (rule now_opE)
    define e :: "js_num PositionEntry" where "e = \<lparr>ourNft = the ours, createdAt = n, pool = Some (pool_label (pos_pool info)),
      targetWallet = Some wallet, lockedSol = Some (dx_rent (dexes (other s0) PCS)), tickLower = Some (pos_tickLower info),
      tickUpper = Some (pos_tickUpper info), dex = Some ''pancakeswap'',
      targetLiquidity = Some (bn_toString (xbn (pb cx)) (pos_liquidity info))\<rparr>"
    have m: "map_of (positions s1) = (map_of (positions s0))(nft \<mapsto> e)"
      using s1 n(1) True by (auto simp: pcs_save_def bind_op_def op_simps on_positions_def set_other_def PM_set_def PM_setLockedSol_def
          PM_setTargetLiquidity_def e_def fun_eq_iff)
    have "pcs_entry cx nft wallet e"
      unfolding pcs_entry_def using assms(1) c True
      by (intro exI [of _ info] exI [of _ "open_params_of info d"] exI [of _ w] exI [of _ w']) (auto simp: e_def open_params_of_def truthy_def split: option.splits)
    with m n(2) p have "writes nft (pcs_entry cx nft wallet) (positions s) (positions s')" by (auto simp: writes_def books_def)
    moreover have "r = Inr (Some sig)" using \<open>?tail s1 = (r, s')\<close> by (auto simp: bind_op_def try_op_def on_net_def zoom_def op_simps split: prod.splits)
    ultimately show ?thesis by (simp add: pcs_opens_def)
  qed
qed

lemma pcs_open_contract:
  assumes "pcs_read cx nft info"
  shows "meets (pcs_open_with cx nft pid wallet info) (pcs_opens cx nft wallet)"
proof -
  have none: "meets (ret None) (pcs_opens cx nft wallet)" by (rule pcs_opens_none) (auto intro: same.simple)
  have skip: "meets (skip_dex d r) (pcs_opens cx nft wallet)" for d r
    by (rule pcs_opens_none) (auto intro!: skip_off dest!: skip_gives)
  have dep: "meets (bind_op (on_net (pcs_deposit_loop cx (pos_pool info) wA wB (pcs_open_attempt cx info) 2 b)) (\<lambda>(sig, ours).
      bind_op (pcs_save cx nft pid wallet info ours) (\<lambda>_.
      bind_op (on_net (try_op (request (sv_confirm (xsv (pb cx)) sig)))) (\<lambda>_.
      bind_op (change (later (ReadLockedSol sig nft))) (\<lambda>_. ret (Some sig)))))) (pcs_opens cx nft wallet)" for wA wB b
    by (intro pcs_opens_bind on_net_off off_books)
       (auto dest!: on_net_gives pcs_deposit_gives intro: pcs_tail_contract [OF assms])
  show ?thesis
    unfolding pcs_open_with_def Let_def
    by (intro pcs_opens_bind pcs_filters_off)
       (auto intro!: pcs_opens_bind same.simple on_net_off none skip dep split: option.splits)
qed

lemma pcs_open_sends:
  assumes bn: "bn_spec (xbn (pb cx)) val" and rd: "pcs_read cx nft info"
  shows "sends (pcs_open_tx cx val nft wallet) (pcs_open_with cx nft pid wallet info)"
proof -
  let ?P = "pcs_open_tx cx val nft wallet"
  have r: "sends ?P (on_net (pcs_raise_both cx True (pos_pool info) wA wB))" for wA wB
    by (intro on_net_sends pcs_raise_both_submits) (simp add: pcs_open_tx_def)
  have s: "sends ?P (pcs_save cx nft pid wallet info ours)" for ours
    unfolding pcs_save_def by (auto intro!: sends_rules)
  have t: "sends ?P (bind_op (pcs_save cx nft pid wallet info ours) (\<lambda>_.
      bind_op (on_net (try_op (request (sv_confirm (xsv (pb cx)) sig)))) (\<lambda>_.
      bind_op (change (later (ReadLockedSol sig nft))) (\<lambda>_. ret (Some sig)))))" for sig ours
    by (intro logs.bind s on_net_sends logs.tried submits_simple change_sends logs.simple) simp
  have d: "sends ?P (on_net (pcs_deposit_loop cx (pos_pool info) wA wB (pcs_open_attempt cx info) 2 b))"
    if "scaleAmount (xbn (pb cx)) (swc_ratios (xc_swap (xc (pb cx)))) (pos_amountA info) (Some wallet) = Inr wA"
      "scaleAmount (xbn (pb cx)) (swc_ratios (xc_swap (xc (pb cx)))) (pos_amountB info) (Some wallet) = Inr wB" for wA wB b
    by (intro on_net_sends pcs_deposit_submits pcs_attempt_sends [OF bn rd _ that])
  show ?thesis
    unfolding pcs_open_with_def Let_def
    by (intro logs.bind pcs_filters_send)
       (auto intro!: logs.bind logs.simple r t d skip_sends split: option.splits prod.splits)
qed

section \<open>Closing\<close>

definition pcs_confirmed :: "('b, 'w) pcx \<Rightarrow> string \<Rightarrow> string \<Rightarrow> bool" where
  "pcs_confirmed cx ours sig \<longleftrightarrow>
     (\<exists>w w'. sv_send (xsv (pb cx)) (PcsTx (DecreaseFullTx ours True)) w = (Inr sig, w')) \<and>
     (\<exists>w w'. sv_confirm (xsv (pb cx)) sig w = (Inr (), w')) \<and>
     (\<exists>w w' tx. sv_getParsedTransaction (xsv (pb cx)) sig w = (Inr (Some tx), w') \<and> (\<forall>meta. tx_meta tx = Some meta \<longrightarrow> \<not> meta_err meta))"

lemma pcs_send_gives: "gives (pcs_send cx t) sig \<Longrightarrow> \<exists>w w'. sv_send (xsv (pb cx)) (PcsTx t) w = (Inr sig, w')"
  unfolding pcs_send_def pcs_retryOnTransient_def pcs_submit_def by (auto dest!: attempt_loop_gives submit_gives)

lemma pcs_verify_gives:
  assumes "gives (pcs_verifyTxSuccess cx sig) True"
  shows "(\<exists>w w'. sv_confirm (xsv (pb cx)) sig w = (Inr (), w')) \<and>
     (\<exists>w w' tx. sv_getParsedTransaction (xsv (pb cx)) sig w = (Inr (Some tx), w') \<and> (\<forall>meta. tx_meta tx = Some meta \<longrightarrow> \<not> meta_err meta))"
  using assms unfolding pcs_verifyTxSuccess_def
  by (elim gives_catchE gives_bindE) (auto dest!: gives_request split: option.splits, (metis option.distinct(1) option.inject)+)

lemma pcs_close_gives: "gives (pcs_close_loop cx n ours) (Some sig) \<Longrightarrow> pcs_confirmed cx ours sig"
proof (induction n)
  case (Suc n)
  from Suc.prems show ?case
  proof (simp only: pcs_close_loop.simps, elim gives_bindE)
    fix r assume r: "gives (try_op (pcs_send cx (DecreaseFullTx ours True))) r"
      and f: "gives (case r of
         Inl e \<Rightarrow> if n > 0 \<and> pcs_retryable e then pcs_close_loop cx n ours else throw e
       | Inr sig \<Rightarrow>
           if sig = [] then ret None
           else bind_op (pcs_verifyTxSuccess cx sig) (\<lambda>ok. if ok then ret (Some sig) else pcs_close_loop cx n ours)) (Some sig)"
    show ?thesis
    proof (cases r)
      case (Inl e) with f Suc.IH show ?thesis by (auto split: if_splits)
    next
      case (Inr x)
      have "\<exists>w w'. sv_send (xsv (pb cx)) (PcsTx (DecreaseFullTx ours True)) w = (Inr x, w')"
        using r Inr by (blast dest: gives_tried pcs_send_gives)
      with Inr f Suc.IH show ?thesis
        unfolding pcs_confirmed_def by (auto split: if_splits elim!: gives_bindE dest: pcs_verify_gives) blast+
    qed
  qed
qed simp

text \<open>The locked part of the close.\<close>

definition pcs_close_body :: "('b, 'w) pcx \<Rightarrow> string \<Rightarrow> string \<Rightarrow> ('j, 'b, 'w, string option) xop" where
  "pcs_close_body cx nft ours =
     catch_op
       (bind_op (on_net (pcs_close_loop cx 3 ours)) (\<lambda>r.
          case r of
            None \<Rightarrow> ret None
          | Some sig \<Rightarrow>
              bind_op (change (on_positions (PM_delete nft))) (\<lambda>_.
              bind_op (on_net (try_op (request (sv_getParsedTransaction (xsv (pb cx)) sig)))) (\<lambda>_. ret (Some sig)))))
       (\<lambda>_. ret None)"

lemma pcs_close_body_outcome:
  assumes "pcs_close_body cx nft ours s = (r, s')"
  shows "(r = Inr None \<and> positions s' = positions s) \<or>
     (\<exists>sig. r = Inr (Some sig) \<and> pcs_confirmed cx ours sig \<and> positions s' = AList.delete nft (positions s))"
proof -
  obtain q t where q: "on_net (pcs_close_loop cx 3 ours) s = (q, t)" by fastforce
  have t: "positions t = positions s" using alwaysD [OF on_net_off [OF off_books(3)] q] by (simp add: same_def)
  show ?thesis
  proof (cases "\<exists>sig. q = Inr (Some sig)")
    case False
    then have "r = Inr None" "s' = t"
      using assms q by (auto simp: pcs_close_body_def catch_op_def bind_op_def op_simps split: sum.splits option.splits)
    with t show ?thesis by simp
  next
    case True
    then obtain sig where sig: "q = Inr (Some sig)" by blast
    then have "pcs_confirmed cx ours sig" using q by (auto dest!: givesI on_net_gives pcs_close_gives)
    moreover have "r = Inr (Some sig)" "positions s' = positions (on_positions (PM_delete nft) t)"
      using assms q sig by (auto simp: pcs_close_body_def catch_op_def bind_op_def op_simps try_op_def on_net_def zoom_def set_other_def split: prod.splits)
    ultimately show ?thesis using t by (auto simp: on_positions_def PM_delete_def set_other_def)
  qed
qed

section \<open>Properties\<close>

text \<open>
  C14: A copied PancakeSwap open stays within the target, and its book entry is the target's. Every transaction handed over is
  a token swap or the open of the target's tick range in the target's pool with at most the scaled amounts. The copy
  never throws. When it returns a signature outside a dry run, nothing was mapped before and now exactly the target's
  NFT is, to the address the SDK made for such an open (unless the SDK gave none); otherwise the position map is as before.
\<close>

theorem pcs_open_within_target:
  fixes s s' :: "('j, 'b, 'w) xbot"
  assumes "bn_spec (xbn (pb cx)) val" and "pcs_copyOpen cx nft pid wallet s = (r, s')"
  shows "(\<exists>ts. traffic s' = traffic s @ ts \<and> list_all (pcs_open_tx cx val nft wallet) ts) \<and>
    (\<exists>ans. r = Inr ans \<and>
      (case ans of
         None \<Rightarrow> positions s' = positions s
       | Some sig \<Rightarrow> dryRun (xc (pb cx)) \<and> s' = s \<or>
           \<not> truthy (PM_get nft (positions s)) \<and>
           (writes nft (pcs_entry cx nft wallet) (positions s) (positions s') \<or> no_address cx \<and> positions s' = positions s)))"
proof -
  let ?body = "catch_op
       (bind_op (on_net (pcs_retryGetPosition cx nft)) (\<lambda>info.
          case info of None \<Rightarrow> ret None | Some i \<Rightarrow> pcs_open_with cx nft pid wallet i))
       (pcs_open_failed cx) :: ('j, 'b, 'w, string option) xop"
  have failed: "always (same positions) (pcs_open_failed cx e)" "gives (pcs_open_failed cx e) a \<Longrightarrow> a = None"
    "sends (pcs_open_tx cx val nft wallet) (pcs_open_failed cx e)" "never_throws (pcs_open_failed cx e)" for e a
    unfolding pcs_open_failed_def sol_exhausted_def
    by (auto intro!: off_rules change_same sends_rules never_throws_bind never_throws_simple on_net_never_throws net_request_sends elim!: gives_bindE simp: now_op_def)
  have sends: "sends (pcs_open_tx cx val nft wallet) ?body"
    by (intro logs.catched logs.bind on_net_sends pcs_read_submits failed)
       (auto intro!: logs.simple pcs_open_sends assms(1) dest!: on_net_gives pcs_read_gives split: option.splits)
  have contract: "meets ?body (pcs_opens cx nft wallet)"
    by (intro pcs_opens_catch pcs_opens_bind on_net_off off_books failed(1))
       (auto intro!: pcs_opens_none same.simple pcs_open_contract dest!: on_net_gives pcs_read_gives failed(2) split: option.splits)
  have total: "never_throws ?body" by (intro never_throws_catch failed(4))
  consider "r = Inr None" "s' = s" | "dryRun (xc (pb cx))" "r = Inr (Some ''dry-run-pcs-open'')" "s' = s"
    | "\<not> truthy (PM_get nft (positions s))" "with_dex_lock PCS (finally_op ?body (later (RefreshDexSol PCS))) s = (r, s')"
    using assms(2) unfolding pcs_copyOpen_def by (cases "truthy (PM_get nft (positions s))"; cases "dryRun (xc (pb cx))") simp_all
  then show ?thesis
  proof cases
    case 3
    from 3(2) show ?thesis
    proof (cases rule: dex_lock_run)
      case (ran u)
      let ?s = "upd_dex PCS (\<lambda>x. x\<lparr>dx_busy := True\<rparr>) s"
      from ran(2) obtain t where t: "?body ?s = (r, t)" "u = later (RefreshDexSol PCS) t"
        by (auto simp: finally_op_def split: prod.splits)
      have "logs_only traffic (pcs_open_tx cx val nft wallet) ?s t" using sends t(1) by (rule alwaysD)
      moreover have "pcs_opens cx nft wallet ?s r t" using contract t(1) by (rule meetsD)
      moreover obtain ans where "r = Inr ans" using never_throwsD [OF total t(1)] by blast
      moreover have "traffic s' = traffic t" "positions s' = positions t" using ran(3) t(2) by simp_all
      ultimately show ?thesis using 3(1) by (auto simp: logs_only_def pcs_opens_def split: option.splits)
    qed simp
  qed auto
qed

text \<open>
  A copied close of a PancakeSwap position drops a mapping only for a close the chain confirmed: it never throws, and either
  nothing changes in the position map, or exactly the target's mapping is gone and the signature returned is of a
  transaction that closes our position, was confirmed, and stands in the index without an error.
\<close>

theorem pcs_close_only_when_confirmed:
  fixes s s' :: "('j, 'b, 'w) xbot"
  assumes run: "pcs_copyClose cx nft s = (r, s')"
  shows "(positions s' = positions s \<and> (r = Inr None \<or> dryRun (xc (pb cx)) \<and> s' = s)) \<or>
     (\<exists>ours sig. PM_get nft (positions s) = Some ours \<and> r = Inr (Some sig) \<and> pcs_confirmed cx ours sig \<and>
        map_of (positions s') = (map_of (positions s))(nft := None))"
proof -
  consider "r = Inr None" "s' = s" | "dryRun (xc (pb cx))" "s' = s"
    | ours where "PM_get nft (positions s) = Some ours" "with_dex_lock PCS (pcs_close_body cx nft ours) s = (r, s')"
  proof (cases "PM_get nft (positions s)")
    case None
    with run that(1) show thesis by (simp add: pcs_copyClose_def)
  next
    case (Some ours)
    with run that show thesis
      by (cases "ours = []"; cases "dryRun (xc (pb cx))") (simp_all add: pcs_copyClose_def pcs_close_body_def)
  qed
  then show ?thesis
  proof cases
    case (3 ours)
    from 3(2) show ?thesis
    proof (cases rule: dex_lock_run)
      case (ran t)
      from pcs_close_body_outcome [OF ran(2)] 3(1) ran(3) show ?thesis by (auto simp: map_of_delete fun_eq_iff)
    qed simp
  qed auto
qed

text \<open>
  The reconciliation does not look at the outcome. When the node accepts the transaction that closes our position of
  an orphan, the mapping is dropped at once, whatever becomes of the transaction: one that fails on chain leaves a
  position open that the bot no longer knows. A copied close of the same position would have kept the mapping.
\<close>

theorem pcs_orphan_unverified:
  fixes s :: "('j, 'b, 'w) xbot"
  assumes "PM_get nft (positions s) = Some ours" and "ours \<noteq> []" and "nft \<noteq> []" and "PM_findByOurNft ours (positions s) = Some nft"
    and "\<not> dryRun (xc (pb cx))" and "\<not> dex_busy PCS s"
    and "sv_send (xsv (pb cx)) (PcsTx (DecreaseFullTx ours True)) (world (net (other s))) = (Inr sig, w')"
  shows "\<exists>s'. pcs_close_orphan cx nft s = (Inr (Some sig), s') \<and>
    traffic s' = traffic s @ [PcsTx (DecreaseFullTx ours True)] \<and> map_of (positions s') = (map_of (positions s))(nft := None)"
proof -
  have "pcs_send cx (DecreaseFullTx ours True) n = (Inr sig, n\<lparr>world := w', sent := sent n @ [PcsTx (DecreaseFullTx ours True)]\<rparr>)"
    if "world n = world (net (other s))" for n
    using assms(7) that by (simp add: pcs_send_def pcs_retryOnTransient_def numeral_3_eq_3 pcs_submit_def submit_def catch_op_def)
  moreover have "world (net (other (upd_dex PCS f s))) = world (net (other s))" "sent (net (other (upd_dex PCS f s))) = traffic s" for f
    by (simp_all add: upd_dex_def set_other_def traffic_def)
  ultimately show ?thesis
    using assms(1-6)
    by (simp add: pcs_close_orphan_def pcs_manualClose_def Let_def with_dex_lock_def finally_op_def catch_op_def bind_op_def op_simps
        on_net_def zoom_def truthy_def on_positions_def PM_delete_def map_of_delete fun_eq_iff)
       (simp add: set_other_def traffic_def)
qed

section \<open>Witnesses\<close>

text \<open>The world of the other witnesses: the node refuses the first transaction, the index shows none.\<close>

definition pdemo_cx :: "(int, nat) pcx" where
  "pdemo_cx =
     \<lparr>pb = xdemo_cx,
      pchain = \<lparr>pc_getPosition = (\<lambda>nft w. (Inr (if nft = ''T'' then Some xdemo_info else None), w)),
        pc_createPosition = (\<lambda>_ w. (Inr (Some ''OURS''), w)), pc_lamports = (\<lambda>w. (Inr 0, w)),
        pc_accounts = (\<lambda>_ _ w. (Inr [replicate 64 0 @ [220, 5, 0, 0, 0, 0, 0, 0]], w)), pc_rentExemption = (\<lambda>_ w. (Inr 2000000, w))\<rparr>\<rparr>"

abbreviation pdemo_bot :: "(unit, int, nat) xbot" where
  "pdemo_bot \<equiv> xdemo_bot [(''T'', held_entry\<lparr>dex := Some ''pancakeswap''\<rparr>)]"

lemma pdemo_pb [simp]: "pb pdemo_cx = xdemo_cx" by (simp add: pdemo_cx_def)

theorem pcs_open_within_target_witness:
  "list_all (\<lambda>t. case t of
       PcsTx (OpenTx prm None) \<Rightarrow> op_tickLower prm = -10 \<and> op_tickUpper prm = 10 \<and> op_pool prm = xdemo_pool \<and>
         bounded_by id 1000 1200 (op_base prm) (op_baseAmount prm) (op_otherAmountMax prm)
     | SwapTx _ \<Rightarrow> True | _ \<Rightarrow> False) (traffic (snd (pcs_copyOpen pdemo_cx ''T'' ''POOL'' ''W'' (xdemo_bot []))))"
proof -
  obtain r s' where run: "pcs_copyOpen pdemo_cx ''T'' ''POOL'' ''W'' (xdemo_bot []) = (r, s')" by fastforce
  have sc: "scaleAmount int_BN (swc_ratios (xc_swap xdemo_config)) x (Some ''W'') = Inr x" for x
    by (simp add: scaleAmount_def getAmountRatio_def num_eq_def)
  have info: "pcs_read pdemo_cx ''T'' info \<Longrightarrow> info = xdemo_info" for info by (auto simp: pcs_read_def pdemo_cx_def)
  have tx: "case t of
       PcsTx (OpenTx prm None) \<Rightarrow> op_tickLower prm = -10 \<and> op_tickUpper prm = 10 \<and> op_pool prm = xdemo_pool \<and>
         bounded_by id 1000 1200 (op_base prm) (op_baseAmount prm) (op_otherAmountMax prm)
     | SwapTx _ \<Rightarrow> True | _ \<Rightarrow> False"
    if "pcs_open_tx pdemo_cx id ''T'' ''W'' t" for t
    using that unfolding pcs_open_tx_def pdemo_pb xdemo_fields(2,3) sc by (auto dest!: info simp: xdemo_info_def)
  have "traffic (xdemo_bot [] :: (unit, int, nat) xbot) = []" by (simp add: traffic_def xdemo_bot_def)
  with pcs_open_within_target [OF _ run, of id] int_BN_spec have "list_all (pcs_open_tx pdemo_cx id ''T'' ''W'') (traffic s')" by auto
  then show ?thesis unfolding list_all_iff run snd_conv by (blast intro: tx)
qed

theorem pcs_close_only_when_confirmed_witness:
  "positions (snd (pcs_copyClose pdemo_cx ''T'' pdemo_bot)) = positions pdemo_bot"
proof -
  obtain r s' where run: "pcs_copyClose pdemo_cx ''T'' pdemo_bot = (r, s')" by fastforce
  have "\<not> pcs_confirmed pdemo_cx ours sig" for ours sig by (simp add: pcs_confirmed_def xdemo_sv_def)
  with pcs_close_only_when_confirmed [OF run] run show ?thesis by auto
qed

text \<open>The same index, which would confirm nothing.\<close>

theorem pcs_orphan_unverified_witness:
  "\<exists>s'. pcs_close_orphan (pdemo_cx\<lparr>pb := xdemo_cx\<lparr>xsv := xdemo_sv\<lparr>sv_send := \<lambda>_ w. (Inr ''SIG'', w)\<rparr>\<rparr>\<rparr>) ''T'' pdemo_bot =
      (Inr (Some ''SIG''), s') \<and> positions s' = []"
proof -
  let ?cx = "pdemo_cx\<lparr>pb := xdemo_cx\<lparr>xsv := xdemo_sv\<lparr>sv_send := \<lambda>_ w. (Inr ''SIG'', w)\<rparr>\<rparr>\<rparr>"
  have "\<exists>s'. pcs_close_orphan ?cx ''T'' pdemo_bot = (Inr (Some ''SIG''), s') \<and>
    traffic s' = traffic pdemo_bot @ [PcsTx (DecreaseFullTx ''OURS'' True)] \<and> map_of (positions s') = (map_of (positions pdemo_bot))(''T'' := None)"
    by (rule pcs_orphan_unverified) (simp_all add: PM_get_def PM_findByOurNft_def xdemo_bot_def)
  then obtain s' where s': "pcs_close_orphan ?cx ''T'' pdemo_bot = (Inr (Some ''SIG''), s')"
    "map_of (positions s') = (map_of (positions pdemo_bot))(''T'' := None)" by blast
  then have "map_of (positions s') = Map.empty" by (simp add: fun_eq_iff)
  with s'(1) show ?thesis by auto
qed

end
