(* ===== verification/Meteora_Common.thy ===== *)
theory Meteora_Common
  imports Dex_Common
begin

text \<open>
  What the executors of Meteora's two programs share (\<^verbatim>\<open>src/executor/meteora-position.ts\<close> and \<^verbatim>\<open>dammv2-position.ts\<close>, which
  repeat it): sending legacy transactions, raising the tokens, the guards, and the loops of attempts.
\<close>

section \<open>Sending legacy transactions\<close>

text \<open>
  Meteora's SDKs hand out legacy transactions. \<^verbatim>\<open>signAndSend\<close> signs once (\<open>sign\<close>, which also asks for a blockhash) and then
  sends, confirms and looks for an error, up to \<^verbatim>\<open>config.maxRetry\<close> times; \<open>none\<close> is what it does with no attempt allowed.
\<close>

fun raw_send_loop :: "('b, 'w) xcx \<Rightarrow> ('b, 'w, string) net_op \<Rightarrow> 'b chain_tx \<Rightarrow> nat \<Rightarrow> ('b, 'w, string) net_op" where
  "raw_send_loop cx none t 0 = none"
| "raw_send_loop cx none t (Suc n) =
     catch_op
       (bind_op (submit t (sv_send (xsv cx) t)) (\<lambda>sig.
        bind_op (request (sv_confirm (xsv cx) sig)) (\<lambda>_.
        bind_op (request (sv_getTransaction_err (xsv cx) sig)) (\<lambda>failed.
          if failed then throw (Error ''TX confirmed but failed on-chain'') else ret sig))))
       (\<lambda>e. if n = 0 then throw e else raw_send_loop cx none t n)"

definition sign_and_send ::
  "('b, 'w) xcx \<Rightarrow> ('b chain_tx \<Rightarrow> 'w \<Rightarrow> unit result \<times> 'w) \<Rightarrow> ('b, 'w, string) net_op \<Rightarrow> 'b chain_tx \<Rightarrow> ('b, 'w, string) net_op" where
  "sign_and_send cx sign none t =
     bind_op (request (sign t)) (\<lambda>_. raw_send_loop cx none t (swc_maxRetry (xc_swap (xc cx))))"

text \<open>Both balances, then both sides; the holdings cache goes after every swap.\<close>

definition raise_pair ::
  "('b, 'w) xcx \<Rightarrow> 'b pool_info \<Rightarrow> 'b \<Rightarrow> 'b \<Rightarrow> ('b, 'w, ('b \<times> 'b) option) net_op" where
  "raise_pair cx pl wantA wantB =
     bind_op (dex_balance cx (pi_mintA pl)) (\<lambda>balA0.
     bind_op (dex_balance cx (pi_mintB pl)) (\<lambda>balB0.
     bind_op (raise_swap cx (change invalidateHoldingsCache) (dex_ways_to_A cx pl balB0) (pi_mintA pl) balA0 wantA) (\<lambda>ra.
       case ra of
         None \<Rightarrow> ret None
       | Some (balA, swapped, _) \<Rightarrow>
           bind_op (if swapped then dex_balance cx (pi_mintB pl) else ret balB0) (\<lambda>balB1.
           bind_op (raise_swap cx (change invalidateHoldingsCache) (dex_ways_to_B cx pl balA wantA) (pi_mintB pl) balB1 wantB) (\<lambda>rb.
             ret (map_option (\<lambda>(balB, _). (balA, balB)) rb))))))"

text \<open>
  A loop of attempts whose body says with \<open>Some\<close> that it returns: an error the test admits starts another attempt, and
  so does a body that falls through.
\<close>

fun try_until :: "(js_error \<Rightarrow> bool) \<Rightarrow> nat \<Rightarrow> ('s, 'a option option) op \<Rightarrow> ('s, 'a option) op" where
  "try_until again 0 m = ret None"
| "try_until again (Suc n) m =
     bind_op (try_op m) (\<lambda>r.
       case r of
         Inl e \<Rightarrow> if n > 0 \<and> again e then try_until again n m else throw e
       | Inr (Some x) \<Rightarrow> ret x
       | Inr None \<Rightarrow> try_until again n m)"

section \<open>Guards\<close>

text \<open>What comes before the lock, the same in the executors of both Meteora programs; \<open>body\<close> runs under the lock.\<close>

definition open_guards ::
  "('b, 'w) xcx \<Rightarrow> dex_id \<Rightarrow> string \<Rightarrow> string \<Rightarrow> string \<Rightarrow> ('j, 'b, 'w, string option) xop \<Rightarrow> ('j, 'b, 'w, string option) xop" where
  "open_guards cx d nft wallet dry body s =
     (if truthy (PM_get nft (positions s)) then (Inr None, s)
      else if solPaused (execs s d)
        then skip_dex d (utf8 [83, 79, 76, 32, 228, 184, 141, 232, 182, 179, 230, 154, 171, 229, 129, 156]) s
      else if drawdownPaused (execs s d)
        then skip_dex d (utf8 [229, 155, 158, 230, 146, 164, 228, 191, 157, 232, 173, 183, 230, 154, 171, 229, 129, 156]) s
      else if wallet \<in> set (close_only (xdc cx) d)
        then skip_dex d (utf8 [67, 108, 111, 115, 101, 45, 111, 110, 108, 121, 32, 233, 140, 162, 229, 140, 133]) s
      else if dryRun (xc cx) then (Inr (Some dry), s)
      else with_dex_lock d (finally_op body (later (RefreshDexSol d))) s)"

definition add_guards ::
  "('b, 'w) xcx \<Rightarrow> dex_id \<Rightarrow> string \<Rightarrow> string \<Rightarrow> string \<Rightarrow> (string \<Rightarrow> ('j, 'b, 'w, string option) xop) \<Rightarrow> ('j, 'b, 'w, string option) xop" where
  "add_guards cx d nft wallet dry body s =
     (case PM_get nft (positions s) of
        None \<Rightarrow> (Inr None, s)
      | Some ours \<Rightarrow>
          if ours = [] \<or> solPaused (execs s d) \<or> drawdownPaused (execs s d) \<or> wallet \<in> set (close_only (xdc cx) d) then (Inr None, s)
          else if dryRun (xc cx) then (Inr (Some dry), s)
          else with_dex_lock d (catch_op (body ours) (\<lambda>_. ret None)) s)"

definition close_guards ::
  "('b, 'w) xcx \<Rightarrow> dex_id \<Rightarrow> string \<Rightarrow> string \<Rightarrow> (string \<Rightarrow> ('j, 'b, 'w, string option) xop) \<Rightarrow> ('j, 'b, 'w, string option) xop" where
  "close_guards cx d nft dry body s =
     (case PM_get nft (positions s) of
        None \<Rightarrow> (Inr None, s)
      | Some ours \<Rightarrow>
          if ours = [] then (Inr None, s)
          else if dryRun (xc cx) then (Inr (Some dry), s)
          else with_dex_lock d (catch_op (body ours) (\<lambda>_. ret None)) s)"

definition dex_open_failed :: "('b, 'w) xcx \<Rightarrow> dex_id \<Rightarrow> js_error \<Rightarrow> ('j, 'b, 'w, string option) xop" where
  "dex_open_failed cx d e = bind_op (if insufficient_lamports e then sol_exhausted cx d else ret ()) (\<lambda>_. ret None)"

text \<open>A pool's label is \<^verbatim>\<open>mintA/mintB@address\<close>.\<close>

definition address_in_label :: "string option \<Rightarrow> string option" where
  "address_in_label label =
     (case label of
        None \<Rightarrow> None
      | Some l \<Rightarrow>
          let before = takeWhile (\<lambda>c. c \<noteq> CHR ''@'') l
          in if before \<noteq> [] \<and> length before < length l then Some (drop (Suc (length before)) l) else None)"

definition pool_address_of :: "string \<Rightarrow> ('j, 'b, 'w) xbot \<Rightarrow> string option" where
  "pool_address_of nft s = address_in_label (PM_getPool nft (positions s))"

definition owner_of :: "string \<Rightarrow> string \<Rightarrow> ('j, 'b, 'w) xbot \<Rightarrow> string" where
  "owner_of nft wallet s = truthy_or (Option.bind (map_of (positions s) nft) targetWallet) wallet"

definition backfill_locked :: "dex_id \<Rightarrow> string \<Rightarrow> ('j, 'b, 'w) xbot \<Rightarrow> ('j, 'b, 'w) xbot" where
  "backfill_locked d name s =
     fold (\<lambda>n. on_positions (PM_setLockedSol n (dx_rent (dexes (other s) d))))
       (filter (\<lambda>n. PM_getDex n (positions s) = Some name \<and> PM_getLockedSol n (Num (-1)) (positions s) = Num (-1))
         (map fst (PM_entries (positions s)))) s"

section \<open>Attempts\<close>

text \<open>
  The attempts to open. \<open>create key a b\<close> sends the transactions for a fresh address; \<open>save key\<close> writes the mapping, which
  happens before the last transaction is looked up. When that cannot be seen to have succeeded the mapping is
  deleted and the open is made again under another address.
\<close>

fun open_attempts ::
  "('b, 'w) xcx \<Rightarrow> string \<Rightarrow> 'b pool_info \<Rightarrow> ('w \<Rightarrow> string \<times> 'w) \<Rightarrow> (string \<Rightarrow> 'b \<Rightarrow> 'b \<Rightarrow> ('b, 'w, string) net_op) \<Rightarrow>
   (string \<Rightarrow> ('j, 'b, 'w, unit) xop) \<Rightarrow> 'b \<Rightarrow> 'b \<Rightarrow> nat \<Rightarrow> 'b \<times> 'b \<Rightarrow> ('j, 'b, 'w, string option) xop" where
  "open_attempts cx nft pl newKey create save wantA wantB 0 bals = ret None"
| "open_attempts cx nft pl newKey create save wantA wantB (Suc n) bals =
     (let again =
            bind_op (on_net (dex_balance cx (pi_mintA pl))) (\<lambda>balA.
            bind_op (on_net (dex_balance cx (pi_mintB pl))) (\<lambda>balB.
              open_attempts cx nft pl newKey create save wantA wantB n (balA, balB)))
      in bind_op (on_net (consult newKey)) (\<lambda>ours.
         bind_op (on_net (try_op (create ours (most_of (xbn cx) wantA wantB (fst bals)) (most_of (xbn cx) wantB wantA (snd bals))))) (\<lambda>r.
           case r of
             Inl e \<Rightarrow> if n > 0 \<and> retryable e then again else throw e
           | Inr sig \<Rightarrow>
               bind_op (save ours) (\<lambda>_.
               bind_op (on_net (verifyTxSuccess (xsv cx) sig)) (\<lambda>ok.
                 if ok then ret (Some sig)
                 else bind_op (change (on_positions (PM_delete nft))) (\<lambda>_. if n > 0 then again else ret None))))))"

text \<open>The attempts to close; \<open>once\<close> gives \<open>None\<close> when there is nothing left to close.\<close>

fun close_attempts :: "('b, 'w) xcx \<Rightarrow> nat \<Rightarrow> ('j, 'b, 'w, string option) xop \<Rightarrow> ('j, 'b, 'w, string option) xop" where
  "close_attempts cx 0 once = ret None"
| "close_attempts cx (Suc n) once =
     bind_op (try_op once) (\<lambda>r.
       case r of
         Inl e \<Rightarrow> if n > 0 \<and> retryable e then close_attempts cx n once else throw e
       | Inr None \<Rightarrow> ret None
       | Inr (Some sig) \<Rightarrow>
           if sig = [] then ret None
           else bind_op (on_net (verifyTxSuccess (xsv cx) sig)) (\<lambda>ok.
             if ok then ret (Some sig) else close_attempts cx n once))"

definition close_with :: "('b, 'w) xcx \<Rightarrow> string \<Rightarrow> ('j, 'b, 'w, string option) xop \<Rightarrow> ('j, 'b, 'w, string option) xop" where
  "close_with cx nft once =
     bind_op (close_attempts cx 3 once) (\<lambda>r.
       case r of
         None \<Rightarrow> ret None
       | Some sig \<Rightarrow>
           bind_op (change (on_positions (PM_delete nft))) (\<lambda>_.
           bind_op (credit_received cx sig) (\<lambda>_. ret (Some sig))))"

end
