(* ===== verification/Meteora_Exec.thy ===== *)
theory Meteora_Exec
  imports Meteora_Common
begin

text \<open>
  The Meteora executor (\<^verbatim>\<open>src/executor/meteora-position.ts\<close>): copying an open, an addition, a removal and a close of a
  DLMM position, collecting fees, closing by hand, and the reconciliation. The SDK (\<^verbatim>\<open>@meteora-ag/dlmm\<close>) is the record
  \<open>dlmm_sdk\<close>. A position lies in a range of bins; a pool's label ends with \<^verbatim>\<open>@\<close> and the pool's address, which is how
  the pool of a mapped position is found again.
\<close>

section \<open>The SDK and the context\<close>

record dlmm_position =
  dp_lower :: int
  dp_upper :: int
  dp_X :: string \<comment> \<open>\<^verbatim>\<open>totalXAmount\<close>, a decimal\<close>
  dp_Y :: string

record ('b, 'w) dlmm_sdk =
  ml_create :: "string \<Rightarrow> 'w \<Rightarrow> 'b pool_info result \<times> 'w" \<comment> \<open>\<^verbatim>\<open>DLMM.create\<close>\<close>
  ml_getPosition :: "string \<Rightarrow> string \<Rightarrow> 'w \<Rightarrow> dlmm_position option result \<times> 'w" \<comment> \<open>pool, position\<close>
  ml_positionsOf :: "string \<Rightarrow> string \<Rightarrow> 'w \<Rightarrow> (string \<times> dlmm_position) list result \<times> 'w" \<comment> \<open>pool, wallet\<close>
  ml_newKey :: "'w \<Rightarrow> string \<times> 'w" \<comment> \<open>\<^verbatim>\<open>Keypair.generate()\<close>\<close>
  ml_binArrays :: "string \<Rightarrow> int list \<Rightarrow> 'w \<Rightarrow> nat result \<times> 'w" \<comment> \<open>\<^verbatim>\<open>createBinArraysIfNeeded\<close>: how many\<close>
  ml_build :: "'b dlmm_tx \<Rightarrow> 'w \<Rightarrow> nat result \<times> 'w" \<comment> \<open>the number of transactions\<close>
  ml_sign :: "'b chain_tx \<Rightarrow> 'w \<Rightarrow> unit result \<times> 'w" \<comment> \<open>blockhash and signature\<close>
  ml_account :: "string \<Rightarrow> 'w \<Rightarrow> bool result \<times> 'w" \<comment> \<open>\<^verbatim>\<open>getAccountInfo\<close> is not null\<close>
  ml_rentExemption :: "nat \<Rightarrow> 'w \<Rightarrow> int result \<times> 'w"
  ml_pairs :: "string \<Rightarrow> 'w \<Rightarrow> json result \<times> 'w" \<comment> \<open>search by address\<close>

record ('b, 'w) mcx =
  mb :: "('b, 'w) xcx"
  msdk :: "('b, 'w) dlmm_sdk"
  meteoraSkipSol :: bool
  meteoraTvlFromJupiter :: bool

section \<open>Shared steps\<close>

definition DLMM_CACHE_TTL :: int where "DLMM_CACHE_TTL = 1800000"

definition fetchDlmmPool :: "('b, 'w) mcx \<Rightarrow> string \<Rightarrow> ('b, 'w, 'b pool_info) net_op" where
  "fetchDlmmPool cx addr =
     bind_op (request (ml_create (msdk cx) addr)) (\<lambda>pl.
     bind_op (consult (sv_now (xsv (mb cx)))) (\<lambda>now.
     bind_op (change (\<lambda>n. n\<lparr>dlmmPools := AList.update addr (pl, now) (dlmmPools n)\<rparr>)) (\<lambda>_. ret pl)))"

definition getCachedDlmmPool :: "('b, 'w) mcx \<Rightarrow> string \<Rightarrow> ('b, 'w, 'b pool_info) net_op" where
  "getCachedDlmmPool cx addr =
     bind_op (look (\<lambda>n. map_of (dlmmPools n) addr)) (\<lambda>cached.
       case cached of
         None \<Rightarrow> fetchDlmmPool cx addr
       | Some (pl, madeAt) \<Rightarrow>
           bind_op (consult (sv_now (xsv (mb cx)))) (\<lambda>now.
             if now - madeAt < DLMM_CACHE_TTL then ret pl else fetchDlmmPool cx addr))"

definition invalidateDlmmCache :: "string \<Rightarrow> ('b, 'w) net \<Rightarrow> ('b, 'w) net" where
  "invalidateDlmmCache addr n = n\<lparr>dlmmPools := AList.delete addr (dlmmPools n)\<rparr>"

text \<open>\<^verbatim>\<open>data?.groups?.[0]?.pairs\<close>; without pairs there is no answer, without a match the TVL is zero.\<close>

definition pairs_tvl :: "string \<Rightarrow> json \<Rightarrow> js_num option" where
  "pairs_tvl p data =
     (case json_opt (case json_opt data ''groups'' of JArray (g # _) \<Rightarrow> g | _ \<Rightarrow> JUndefined) ''pairs'' of
        JArray pairs \<Rightarrow>
          if pairs = [] then None
          else let tvl = (case find (\<lambda>x. json_opt x ''address'' = JString p) pairs of
                           Some m \<Rightarrow> json_opt m ''tvl'' | None \<Rightarrow> JUndefined)
            in Some (parseFloat (js_String (if tvl = JNull \<or> tvl = JUndefined then JString ''0'' else tvl)))
      | _ \<Rightarrow> None)"

definition getMeteoraPairTvl :: "('b, 'w) mcx \<Rightarrow> string \<Rightarrow> ('j, 'b, 'w, js_num option) xop" where
  "getMeteoraPairTvl cx p =
     pool_tvl (mb cx) METEORA (bind_op (request (ml_pairs (msdk cx) p)) (\<lambda>js. ret (pairs_tvl p js))) p"

text \<open>One transaction; with no attempts allowed nothing is sent and the signature is empty.\<close>

definition dlmm_send :: "('b, 'w) mcx \<Rightarrow> 'b dlmm_tx \<Rightarrow> nat \<Rightarrow> ('b, 'w, string) net_op" where
  "dlmm_send cx t part = sign_and_send (mb cx) (ml_sign (msdk cx)) (ret '''') (DlmmTx t part)"

fun dlmm_send_parts :: "('b, 'w) mcx \<Rightarrow> 'b dlmm_tx \<Rightarrow> nat \<Rightarrow> nat \<Rightarrow> string \<Rightarrow> ('b, 'w, string) net_op" where
  "dlmm_send_parts cx t i 0 sig = ret sig"
| "dlmm_send_parts cx t i (Suc n) sig = bind_op (dlmm_send cx t i) (\<lambda>sig'. dlmm_send_parts cx t (Suc i) n sig')"

text \<open>Build and send: one transaction, or as many as the SDK makes of it.\<close>

definition dlmm_one :: "('b, 'w) mcx \<Rightarrow> 'b dlmm_tx \<Rightarrow> ('b, 'w, string) net_op" where
  "dlmm_one cx t = bind_op (request (ml_build (msdk cx) t)) (\<lambda>_. dlmm_send cx t 0)"

definition dlmm_many :: "('b, 'w) mcx \<Rightarrow> 'b dlmm_tx \<Rightarrow> ('b, 'w, string) net_op" where
  "dlmm_many cx t = bind_op (request (ml_build (msdk cx) t)) (\<lambda>n. dlmm_send_parts cx t 0 n '''')"

text \<open>A wallet's position in a pool.\<close>

definition dlmm_find :: "('b, 'w) mcx \<Rightarrow> string \<Rightarrow> string \<Rightarrow> string \<Rightarrow> ('b, 'w, dlmm_position option) net_op" where
  "dlmm_find cx addr wallet pos =
     bind_op (request (ml_positionsOf (msdk cx) addr wallet)) (\<lambda>ps. ret (map_of ps pos))"

definition dlmm_amounts :: "'b BN \<Rightarrow> dlmm_position \<Rightarrow> ('b \<times> 'b) result" where
  "dlmm_amounts bn p =
     bind_result (bn_of_string bn (dp_X p)) (\<lambda>x. bind_result (bn_of_string bn (dp_Y p)) (\<lambda>y. Inr (x, y)))"

text \<open>What is remembered as the target's liquidity: the sum of the two raw token amounts.\<close>

definition dlmm_total :: "'b BN \<Rightarrow> dlmm_position \<Rightarrow> 'b result" where
  "dlmm_total bn p = bind_result (dlmm_amounts bn p) (\<lambda>(x, y). Inr (bn_add bn x y))"

definition me :: "('b, 'w) mcx \<Rightarrow> string" where
  "me cx = swc_user (xc_swap (xc (mb cx)))"

section \<open>Opening\<close>

text \<open>\<open>binIdToArrayIdx\<close>, with \<^verbatim>\<open>Math.trunc\<close> and the remainder that has the dividend's sign.\<close>

definition MAX_BIN_ARRAY_SIZE :: int where "MAX_BIN_ARRAY_SIZE = 512"
definition LARGE_BIN_THRESHOLD :: int where "LARGE_BIN_THRESHOLD = 70"
definition MAX_RESIZE :: int where "MAX_RESIZE = 91"

definition trunc_div :: "int \<Rightarrow> int \<Rightarrow> int" where
  "trunc_div a b = sgn a * sgn b * (\<bar>a\<bar> div \<bar>b\<bar>)"

definition js_rem :: "int \<Rightarrow> int \<Rightarrow> int" where
  "js_rem a b = a - b * trunc_div a b"

definition binIdToArrayIdx :: "int \<Rightarrow> int" where
  "binIdToArrayIdx i =
     (let d = trunc_div i MAX_BIN_ARRAY_SIZE; m = js_rem i MAX_BIN_ARRAY_SIZE in if i < 0 \<and> m \<noteq> 0 then d - 1 else d)"

definition binArrayIndexes :: "int \<Rightarrow> int \<Rightarrow> int list" where
  "binArrayIndexes lower upper = [binIdToArrayIdx lower..binIdToArrayIdx upper]"

text \<open>The new ends of the position after each \<^verbatim>\<open>increasePositionLength2\<close>.\<close>

function extend_ends :: "int \<Rightarrow> int \<Rightarrow> int list" where
  "extend_ends current upper =
     (if current < upper then let e = min (current + MAX_RESIZE) upper in e # extend_ends e upper else [])"
  by pat_completeness auto
termination by (relation "measure (\<lambda>(current, upper). nat (upper - current))") (auto simp: MAX_RESIZE_def)

declare extend_ends.simps [simp del]

fun dlmm_read :: "('b, 'w) mcx \<Rightarrow> nat \<Rightarrow> string \<Rightarrow> string \<Rightarrow> ('b, 'w, ('b pool_info \<times> dlmm_position) option) net_op" where
  "dlmm_read cx 0 addr pos = ret None"
| "dlmm_read cx (Suc n) addr pos =
     bind_op (try_op (bind_op (getCachedDlmmPool cx addr) (\<lambda>pl.
              bind_op (request (ml_getPosition (msdk cx) addr pos)) (\<lambda>p. ret (map_option (Pair pl) p))))) (\<lambda>r.
       case r of
         Inr (Some x) \<Rightarrow> ret (Some x)
       | Inr None \<Rightarrow> dlmm_read cx n addr pos
       | Inl e \<Rightarrow> if n = 0 then throw e else dlmm_read cx n addr pos)"

definition dlmm_label :: "'b pool_info \<Rightarrow> string \<Rightarrow> string" where
  "dlmm_label pl addr = pool_label pl @ ''@'' @ addr"

definition dlmm_tvl_filter :: "('b, 'w) mcx \<Rightarrow> string \<Rightarrow> 'b pool_info \<Rightarrow> ('j, 'b, 'w, string option) xop" where
  "dlmm_tvl_filter cx addr pl =
     (if num_lt (Num 0) (minPoolTvl (xc (mb cx))) then
        bind_op (liquidity_of (mb cx) (meteoraTvlFromJupiter cx) (if plain_mint (pi_mintA pl) then pi_mintA pl else pi_mintB pl)
                  (getMeteoraPairTvl cx addr)) (\<lambda>tvl.
          if too_thin (mb cx) tvl
          then bind_op (of_result (thin_text tvl (minPoolTvl (xc (mb cx))))) (\<lambda>t. ret (Some t)) else ret None)
      else ret None)"

definition dlmm_filters :: "('b, 'w) mcx \<Rightarrow> string \<Rightarrow> string \<Rightarrow> 'b pool_info \<Rightarrow> dlmm_position \<Rightarrow> ('j, 'b, 'w, string option) xop" where
  "dlmm_filters cx addr wallet pl pos =
     first_reason
       [ret (if sol_or_listed (mb cx) (meteoraSkipSol cx) pl
             then Some (utf8 [228, 187, 163, 229, 185, 163, 233, 187, 145, 229, 144, 141, 229, 150, 174]) else None),
        pump_filter_by (\<lambda>m. on_net (consult (sv_tokenSymbol (xsv (mb cx)) m))) (dlmm_label pl addr) (mb cx) wallet pl,
        dlmm_tvl_filter cx addr pl,
        look (\<lambda>s. if PM_hasDuplicateTickRange wallet (dlmm_label pl addr) (dp_lower pos) (dp_upper pos) (positions s)
                  then Some (utf8 [233, 135, 141, 232, 164, 135, 32, 98, 105, 110, 32, 114, 97, 110, 103, 101]) else None)]"

text \<open>
  The transactions of one attempt for the fresh position \<open>ours\<close>: a single one for up to 70 bins; otherwise one that
  creates the position with 70 bins and extends it, which has to be seen to succeed, and then the deposits.
\<close>

definition dlmm_create ::
  "('b, 'w) mcx \<Rightarrow> string \<Rightarrow> dlmm_position \<Rightarrow> string \<Rightarrow> 'b \<Rightarrow> 'b \<Rightarrow> ('b, 'w, string) net_op" where
  "dlmm_create cx addr pos ours maxX maxY =
     (let lo = dp_lower pos; up = dp_upper pos
      in if up - lo + 1 \<le> LARGE_BIN_THRESHOLD then dlmm_one cx (DlmmOpenTx addr ours lo up maxX maxY)
         else let width = min (up - lo + 1) LARGE_BIN_THRESHOLD
           in bind_op (request (ml_binArrays (msdk cx) addr (binArrayIndexes lo up))) (\<lambda>k.
              bind_op (dlmm_one cx (DlmmInitTx addr ours lo width (extend_ends (lo + width - 1) up) k)) (\<lambda>initSig.
              bind_op (verifyTxSuccess (xsv (mb cx)) initSig) (\<lambda>ok.
                if \<not> ok then throw (Error (''Init position TX failed on-chain: '' @ initSig))
                else dlmm_many cx (DlmmDepositTx addr ours lo up maxX maxY)))))"

definition dlmm_save ::
  "('b, 'w) mcx \<Rightarrow> string \<Rightarrow> string \<Rightarrow> string \<Rightarrow> 'b pool_info \<Rightarrow> dlmm_position \<Rightarrow> string \<Rightarrow> ('j, 'b, 'w, unit) xop" where
  "dlmm_save cx nft addr wallet pl pos ours =
     bind_op (now_op (mb cx)) (\<lambda>now.
     bind_op (change (\<lambda>s. on_positions (PM_setLockedSol nft (dx_rent (dexes (other s) METEORA)))
         (on_positions (PM_set now nft ours (Some (dlmm_label pl addr)) (Some wallet) (Some (dp_lower pos)) (Some (dp_upper pos))
           (Some ''meteora'')) s))) (\<lambda>_.
       change (case dlmm_total (xbn (mb cx)) pos of
           Inr t \<Rightarrow> on_positions (PM_setTargetLiquidity nft (bn_toString (xbn (mb cx)) t))
         | Inl _ \<Rightarrow> (\<lambda>s. s))))"

definition dlmm_open ::
  "('b, 'w) mcx \<Rightarrow> string \<Rightarrow> string \<Rightarrow> string \<Rightarrow> 'b pool_info \<Rightarrow> dlmm_position \<Rightarrow> ('j, 'b, 'w, string option) xop" where
  "dlmm_open cx nft addr wallet pl pos =
     bind_op (dlmm_filters cx addr wallet pl pos) (\<lambda>reason.
       case reason of
         Some t \<Rightarrow> skip_dex METEORA t
       | None \<Rightarrow>
           let bn = xbn (mb cx); ratios = swc_ratios (xc_swap (xc (mb cx)))
           in bind_op (of_result (dlmm_amounts bn pos)) (\<lambda>(tX, tY).
              bind_op (of_result (scaleAmount bn ratios tX (Some wallet))) (\<lambda>wantX.
              bind_op (of_result (scaleAmount bn ratios tY (Some wallet))) (\<lambda>wantY.
                if bn_isZero bn wantX \<and> bn_isZero bn wantY
                then skip_dex METEORA (utf8 [229, 173, 152, 230, 172, 190, 233, 135, 145, 233, 161, 141, 231, 130, 186, 233, 155, 182])
                else bind_op (on_net (raise_pair (mb cx) pl wantX wantY)) (\<lambda>bals.
                  case bals of
                    None \<Rightarrow> ret None
                  | Some b \<Rightarrow>
                      if bn_isZero bn (fst b) \<and> bn_isZero bn (snd b) then ret None
                      else open_attempts (mb cx) nft pl (ml_newKey (msdk cx)) (dlmm_create cx addr pos)
                             (dlmm_save cx nft addr wallet pl pos) wantX wantY 2 b)))))"

definition meteora_copyOpen :: "('b, 'w) mcx \<Rightarrow> string \<Rightarrow> string \<Rightarrow> string \<Rightarrow> ('j, 'b, 'w, string option) xop" where
  "meteora_copyOpen cx nft addr wallet =
     open_guards (mb cx) METEORA nft wallet ''dry-run-meteora-open''
       (catch_op
         (bind_op (on_net (dlmm_read cx 3 addr nft)) (\<lambda>r.
            case r of None \<Rightarrow> ret None | Some (pl, pos) \<Rightarrow> dlmm_open cx nft addr wallet pl pos))
         (dex_open_failed (mb cx) METEORA))"

section \<open>Closing\<close>

text \<open>One attempt: \<open>None\<close> when the mapping was dropped, because there is no pool or the position is said to be gone.\<close>

definition dlmm_close_at :: "('b, 'w) mcx \<Rightarrow> string \<Rightarrow> string \<Rightarrow> string \<Rightarrow> ('j, 'b, 'w, string option) xop" where
  "dlmm_close_at cx nft ours addr =
     bind_op (on_net (getCachedDlmmPool cx addr)) (\<lambda>_.
     bind_op (on_net (try_op (request (ml_getPosition (msdk cx) addr ours)))) (\<lambda>r.
       case r of
         Inl e \<Rightarrow>
           if str_includes (error_message e) ''not found''
           then bind_op (change (on_positions (PM_delete nft))) (\<lambda>_. ret None)
           else bind_op (on_net (change (invalidateDlmmCache addr))) (\<lambda>_. throw e)
       | Inr None \<Rightarrow> throw TypeError
       | Inr (Some pos) \<Rightarrow>
           bind_op (bn_lit (xbn (mb cx)) 10000) (\<lambda>bps.
           bind_op (on_net (dlmm_many cx (DlmmRemoveTx addr ours (dp_lower pos) (dp_upper pos) bps))) (\<lambda>_.
           bind_op (on_net (dlmm_one cx (DlmmCloseTx addr ours))) (\<lambda>sig. ret (Some sig))))))"

definition dlmm_close_once :: "('b, 'w) mcx \<Rightarrow> string \<Rightarrow> string \<Rightarrow> ('j, 'b, 'w, string option) xop" where
  "dlmm_close_once cx nft ours =
     bind_op (look (pool_address_of nft)) (\<lambda>p.
       if \<not> truthy p then bind_op (change (on_positions (PM_delete nft))) (\<lambda>_. ret None)
       else dlmm_close_at cx nft ours (the p))"

definition meteora_copyClose :: "('b, 'w) mcx \<Rightarrow> string \<Rightarrow> ('j, 'b, 'w, string option) xop" where
  "meteora_copyClose cx nft =
     close_guards (mb cx) METEORA nft ''dry-run-meteora-close'' (\<lambda>ours. close_with (mb cx) nft (dlmm_close_once cx nft ours))"

section \<open>Adding\<close>

text \<open>What is missing to the target's scaled amounts, and our range; read at most twice.\<close>

fun dlmm_delta ::
  "('b, 'w) mcx \<Rightarrow> string \<Rightarrow> string \<Rightarrow> string \<Rightarrow> string \<Rightarrow> string \<Rightarrow> nat \<Rightarrow>
   ('b, 'w, (('b \<times> 'b) \<times> dlmm_position) option) net_op" where
  "dlmm_delta cx addr nft ours holder wallet 0 = ret None"
| "dlmm_delta cx addr nft ours holder wallet (Suc n) =
     (let bn = xbn (mb cx); ratios = swc_ratios (xc_swap (xc (mb cx)))
      in bind_op (dlmm_find cx addr holder nft) (\<lambda>t.
           case t of
             None \<Rightarrow> ret None
           | Some tpos \<Rightarrow>
               bind_op (of_result (dlmm_amounts bn tpos)) (\<lambda>(tX, tY).
               bind_op (of_result (scaleAmount bn ratios tX (Some wallet))) (\<lambda>wantX.
               bind_op (of_result (scaleAmount bn ratios tY (Some wallet))) (\<lambda>wantY.
               bind_op (dlmm_find cx addr (me cx) ours) (\<lambda>m.
                 case m of
                   None \<Rightarrow> ret None
                 | Some mine \<Rightarrow>
                     bind_op (of_result (dlmm_amounts bn mine)) (\<lambda>(haveX, haveY).
                     bind_op (bn_lit bn 0) (\<lambda>z.
                       let dX = bn_sub bn wantX haveX; dY = bn_sub bn wantY haveY
                       in if n > 0 \<and> \<not> bn_gt bn dX z \<and> \<not> bn_gt bn dY z then dlmm_delta cx addr nft ours holder wallet n
                          else ret (Some ((dX, dY), mine))))))))))"

fun dlmm_add_loop ::
  "('b, 'w) mcx \<Rightarrow> string \<Rightarrow> 'b pool_info \<Rightarrow> string \<Rightarrow> dlmm_position \<Rightarrow> 'b \<Rightarrow> 'b \<Rightarrow> nat \<Rightarrow> 'b \<times> 'b \<Rightarrow> ('b, 'w, string) net_op" where
  "dlmm_add_loop cx addr pl ours mine wantX wantY 0 bals = throw (Error ''unreachable'')"
| "dlmm_add_loop cx addr pl ours mine wantX wantY (Suc n) bals =
     catch_op
       (dlmm_one cx (DlmmDepositTx addr ours (dp_lower mine) (dp_upper mine)
          (most_of (xbn (mb cx)) wantX wantY (fst bals)) (most_of (xbn (mb cx)) wantY wantX (snd bals))))
       (\<lambda>e. if n > 0 \<and> retryable e then
               bind_op (dex_balance (mb cx) (pi_mintA pl)) (\<lambda>balX.
               bind_op (dex_balance (mb cx) (pi_mintB pl)) (\<lambda>balY.
                 dlmm_add_loop cx addr pl ours mine wantX wantY n (balX, balY)))
             else throw e)"

text \<open>The remembered liquidity afterwards; a failure to read it is ignored.\<close>

definition dlmm_remember :: "('b, 'w) mcx \<Rightarrow> string \<Rightarrow> string \<Rightarrow> string \<Rightarrow> ('j, 'b, 'w, unit) xop" where
  "dlmm_remember cx addr nft holder =
     catch_op
       (bind_op (on_net (dlmm_find cx addr holder nft)) (\<lambda>t.
          case t of
            None \<Rightarrow> ret ()
          | Some p \<Rightarrow> bind_op (of_result (dlmm_total (xbn (mb cx)) p)) (\<lambda>x.
              change (on_positions (PM_setTargetLiquidity nft (bn_toString (xbn (mb cx)) x))))))
       (\<lambda>_. ret ())"

definition dlmm_add :: "('b, 'w) mcx \<Rightarrow> string \<Rightarrow> string \<Rightarrow> string \<Rightarrow> string \<Rightarrow> ('j, 'b, 'w, string option) xop" where
  "dlmm_add cx nft ours wallet addr =
     bind_op (on_net (getCachedDlmmPool cx addr)) (\<lambda>pl.
     bind_op (look (owner_of nft wallet)) (\<lambda>holder.
     bind_op (on_net (dlmm_delta cx addr nft ours holder wallet 2)) (\<lambda>d.
       case d of
         None \<Rightarrow> ret None
       | Some ((dX, dY), mine) \<Rightarrow>
           let bn = xbn (mb cx)
           in bind_op (bn_lit bn 0) (\<lambda>z.
              if \<not> bn_gt bn dX z \<and> \<not> bn_gt bn dY z then ret None
              else let wantX = (if bn_gt bn dX z then dX else z); wantY = (if bn_gt bn dY z then dY else z)
                in bind_op (on_net (raise_pair (mb cx) pl wantX wantY)) (\<lambda>bals.
                   case bals of
                     None \<Rightarrow> ret None
                   | Some b \<Rightarrow>
                       bind_op (on_net (dlmm_add_loop cx addr pl ours mine wantX wantY 2 b)) (\<lambda>sig.
                       bind_op (dlmm_remember cx addr nft holder) (\<lambda>_. ret (Some sig))))))))"

definition meteora_copyAdd :: "('b, 'w) mcx \<Rightarrow> string \<Rightarrow> string \<Rightarrow> ('j, 'b, 'w, string option) xop" where
  "meteora_copyAdd cx nft wallet =
     add_guards (mb cx) METEORA nft wallet ''dry-run-meteora-add'' (\<lambda>ours.
       bind_op (look (pool_address_of nft)) (\<lambda>p. if \<not> truthy p then ret None else dlmm_add cx nft ours wallet (the p)))"

section \<open>Removing\<close>

text \<open>The target's current total; every failure to read it is \<open>None\<close>, which means everything.\<close>

definition dlmm_current :: "('b, 'w) mcx \<Rightarrow> string \<Rightarrow> string option \<Rightarrow> string \<Rightarrow> ('b, 'w, 'b option) net_op" where
  "dlmm_current cx addr holder nft =
     (if \<not> truthy holder then ret None
      else catch_op
        (bind_op (dlmm_find cx addr (the holder) nft) (\<lambda>t.
           case t of
             None \<Rightarrow> ret None
           | Some p \<Rightarrow> bind_op (of_result (dlmm_total (xbn (mb cx)) p)) (\<lambda>x. ret (Some x))))
        (\<lambda>_. ret None))"

text \<open>How many basis points to remove: \<open>None\<close> is everything, zero is only the fees.\<close>

definition clamp_bps :: "js_num \<Rightarrow> js_num" where
  "clamp_bps x = (let y = if num_le x (Num 0) then Num 0 else x in if num_lt (Num 10000) y then Num 10000 else y)"

definition planned_bps :: "'b BN \<Rightarrow> string \<Rightarrow> 'b option \<Rightarrow> ('j, 'b, 'w, js_num option) xop" where
  "planned_bps bn nft current =
     (case current of
        None \<Rightarrow> ret None
      | Some cur \<Rightarrow>
          if bn_isZero bn cur then ret None
          else bind_op (look (\<lambda>s. PM_getTargetLiquidity nft (positions s))) (\<lambda>storedStr.
            if \<not> truthy storedStr then ret (Some (Num 0))
            else bind_op (of_result (bn_of_string bn (the storedStr))) (\<lambda>stored.
              if bn_lt bn cur stored then
                bind_op (bn_lit bn 10000) (\<lambda>tenk.
                bind_op (of_result (bn_toNumber bn (bn_div bn (bn_mul bn (bn_sub bn stored cur) tenk) stored))) (\<lambda>bps.
                bind_op (change (on_positions (PM_setTargetLiquidity nft (bn_toString bn cur)))) (\<lambda>_.
                  ret (Some (clamp_bps bps)))))
              else ret (Some (Num 0)))))"

definition dlmm_claim_once :: "('b, 'w) mcx \<Rightarrow> string \<Rightarrow> string \<Rightarrow> ('b, 'w, (string \<times> string) option option) net_op" where
  "dlmm_claim_once cx addr ours =
     bind_op (dlmm_find cx addr (me cx) ours) (\<lambda>p.
       if p = None then ret (Some None)
       else bind_op (dlmm_many cx (DlmmClaimTx addr ours)) (\<lambda>sig.
         ret (if sig = [] then None else Some (Some (''COLLECT_FEE'', sig)))))"

definition dlmm_remove_once ::
  "('b, 'w) mcx \<Rightarrow> string \<Rightarrow> string \<Rightarrow> js_num \<Rightarrow> ('j, 'b, 'w, (string \<times> string) option option) xop" where
  "dlmm_remove_once cx addr ours bps =
     bind_op (on_net (dlmm_find cx addr (me cx) ours)) (\<lambda>p.
       case p of
         None \<Rightarrow> ret (Some None)
       | Some mine \<Rightarrow>
           bind_op (of_result (bn_of_num (xbn (mb cx)) bps)) (\<lambda>share.
           bind_op (on_net (dlmm_many cx (DlmmRemoveTx addr ours (dp_lower mine) (dp_upper mine) share))) (\<lambda>sig.
             if sig = [] then ret None
             else bind_op (catch_op (credit_received (mb cx) sig) (\<lambda>_. ret ())) (\<lambda>_. ret (Some (Some (''DECREASE'', sig)))))))"

definition dlmm_remove :: "('b, 'w) mcx \<Rightarrow> string \<Rightarrow> string \<Rightarrow> string \<Rightarrow> ('j, 'b, 'w, (string \<times> string) option) xop" where
  "dlmm_remove cx nft ours addr =
     bind_op (on_net (getCachedDlmmPool cx addr)) (\<lambda>_.
     bind_op (look (\<lambda>s. Option.bind (map_of (positions s) nft) targetWallet)) (\<lambda>holder.
     bind_op (on_net (dlmm_current cx addr holder nft)) (\<lambda>current.
     bind_op (planned_bps (xbn (mb cx)) nft current) (\<lambda>bps.
       if bps = Some (Num 0) then try_until isTransientError 2 (on_net (dlmm_claim_once cx addr ours))
       else try_until isTransientError 2 (dlmm_remove_once cx addr ours (case bps of Some b \<Rightarrow> b | None \<Rightarrow> Num 10000))))))"

text \<open>Unlike the other operations this one does not ask for the dry run.\<close>

definition meteora_copyRemove :: "('b, 'w) mcx \<Rightarrow> string \<Rightarrow> ('j, 'b, 'w, (string \<times> string) option) xop" where
  "meteora_copyRemove cx nft s =
     (case PM_get nft (positions s) of
        None \<Rightarrow> (Inr None, s)
      | Some ours \<Rightarrow>
          if ours = [] then (Inr None, s)
          else with_dex_lock METEORA (catch_op
                 (bind_op (look (pool_address_of nft)) (\<lambda>p. if \<not> truthy p then ret None else dlmm_remove cx nft ours (the p)))
                 (\<lambda>_. ret None)) s)"

section \<open>Fees and maintenance\<close>

definition meteora_collectFees :: "('b, 'w) mcx \<Rightarrow> string \<Rightarrow> ('j, 'b, 'w, string option) xop" where
  "meteora_collectFees cx ours s =
     (if dryRun (xc (mb cx)) then (Inr (Some ''dry-run-meteora-fee''), s)
      else with_dex_lock METEORA (catch_op
        (bind_op (look (\<lambda>s. Option.bind (PM_findByOurNft ours (positions s)) (\<lambda>t. if t = [] then None else pool_address_of t s))) (\<lambda>p.
           if \<not> truthy p then ret None
           else bind_op (on_net (getCachedDlmmPool cx (the p))) (\<lambda>_.
                bind_op (on_net (dlmm_find cx (the p) (me cx) ours)) (\<lambda>m.
                  if m = None then ret None
                  else bind_op (on_net (dlmm_many cx (DlmmClaimTx (the p) ours))) (\<lambda>sig. ret (if sig = [] then None else Some sig))))))
        (\<lambda>_. ret None)) s)"

definition meteora_manualClose :: "('b, 'w) mcx \<Rightarrow> string \<Rightarrow> ('j, 'b, 'w, string option) xop" where
  "meteora_manualClose cx ours s =
     (case PM_findByOurNft ours (positions s) of
        None \<Rightarrow> (Inr None, s)
      | Some nft \<Rightarrow> if nft = [] then (Inr None, s) else meteora_copyClose cx nft s)"

definition isMeteoraPosition :: "string \<Rightarrow> ('j, 'b, 'w) xbot \<Rightarrow> bool" where
  "isMeteoraPosition nft s \<longleftrightarrow> list_ex (\<lambda>(t, _). t = nft \<and> PM_getDex t (positions s) = Some ''meteora'') (PM_entries (positions s))"

text \<open>Only our own account is looked up; a missing one drops the mapping.\<close>

fun meteora_reconcile :: "('b, 'w) mcx \<Rightarrow> (string \<times> string) list \<Rightarrow> ('j, 'b, 'w, unit) xop" where
  "meteora_reconcile cx [] = ret ()"
| "meteora_reconcile cx ((t, ours) # es) =
     bind_op (on_net (try_op (request (ml_account (msdk cx) ours)))) (\<lambda>r.
     bind_op (if r = Inr False then change (on_positions (PM_delete t)) else ret ()) (\<lambda>_. meteora_reconcile cx es))"

definition reconcileMeteoraPositions :: "('b, 'w) mcx \<Rightarrow> ('j, 'b, 'w, unit) xop" where
  "reconcileMeteoraPositions cx s =
     meteora_reconcile cx (map (\<lambda>(t, e). (t, ourNft e)) (filter (\<lambda>(t, e). dex e = Some ''meteora'') (positions s))) s"

definition meteora_initRent :: "('b, 'w) mcx \<Rightarrow> ('j, 'b, 'w, unit) xop" where
  "meteora_initRent cx =
     catch_op
       (bind_op (on_net (request (ml_rentExemption (msdk cx) 300))) (\<lambda>r.
          change (upd_dex METEORA (\<lambda>x. x\<lparr>dx_rent := num_div (to_num (of_int r)) 1000000000\<rparr>))))
       (\<lambda>_. ret ())"

definition meteora_backfillLockedSol :: "('j, 'b, 'w) xbot \<Rightarrow> ('j, 'b, 'w) xbot" where
  "meteora_backfillLockedSol = backfill_locked METEORA ''meteora''"

end
