(* ===== verification/Damm_Exec.thy ===== *)
theory Damm_Exec
  imports Meteora_Common
begin

text \<open>
  The DAMM v2 executor (\<^verbatim>\<open>src/executor/dammv2-position.ts\<close>): copying an open, an addition, a removal, a close and a claim
  of fees of a position of Meteora's constant-product program, closing by hand, and the reconciliation. The SDK
  (\<^verbatim>\<open>@meteora-ag/cp-amm-sdk\<close>) is the record \<open>damm_sdk\<close>; a position is its \<^verbatim>\<open>unlockedLiquidity\<close>.
\<close>

section \<open>The SDK and the context\<close>

record ('b, 'w) damm_sdk =
  da_pool :: "string \<Rightarrow> 'w \<Rightarrow> 'b pool_info result \<times> 'w" \<comment> \<open>\<^verbatim>\<open>fetchPoolState\<close>\<close>
  da_position :: "string \<Rightarrow> 'w \<Rightarrow> string result \<times> 'w" \<comment> \<open>\<^verbatim>\<open>fetchPositionState\<close>: \<^verbatim>\<open>unlockedLiquidity.toString()\<close>\<close>
  da_withdraw :: "'b pool_info \<Rightarrow> 'b \<Rightarrow> ('b \<times> 'b) result" \<comment> \<open>\<^verbatim>\<open>getWithdrawQuote\<close>\<close>
  da_deposit :: "'b pool_info \<Rightarrow> 'b \<Rightarrow> 'b result" \<comment> \<open>\<^verbatim>\<open>getDepositQuote\<close> from token A: the liquidity\<close>
  da_newKey :: "'w \<Rightarrow> string \<times> 'w"
  da_build :: "'b damm_tx \<Rightarrow> 'w \<Rightarrow> unit result \<times> 'w"
  da_sign :: "'b chain_tx \<Rightarrow> 'w \<Rightarrow> unit result \<times> 'w"
  da_account :: "string \<Rightarrow> 'w \<Rightarrow> string option result \<times> 'w" \<comment> \<open>owner program of a position's account\<close>
  da_rentExemption :: "nat \<Rightarrow> 'w \<Rightarrow> int result \<times> 'w"

record ('b, 'w) vcx =
  vb :: "('b, 'w) xcx"
  vsdk :: "('b, 'w) damm_sdk"
  dammv2SkipSol :: bool

section \<open>Shared steps\<close>

definition DAMMV2_PROGRAM_ID :: string where
  "DAMMV2_PROGRAM_ID = ''cpamdpZCGKUy5JxQXB4dcpGPiikHawvSWAd6mEn1sGG''"

definition damm_send :: "('b, 'w) vcx \<Rightarrow> 'b damm_tx \<Rightarrow> ('b, 'w, string) net_op" where
  "damm_send cx t =
     bind_op (request (da_build (vsdk cx) t)) (\<lambda>_.
       sign_and_send (vb cx) (da_sign (vsdk cx)) (throw (Error ''signAndSend: exhausted retries'')) (DammTx t))"

definition damm_liquidity :: "('b, 'w) vcx \<Rightarrow> string \<Rightarrow> ('b, 'w, 'b) net_op" where
  "damm_liquidity cx nft =
     bind_op (request (da_position (vsdk cx) nft)) (\<lambda>l. of_result (bn_of_string (xbn (vb cx)) l))"

text \<open>With the pool's price of the moment; the liquidity follows from token A alone.\<close>

definition damm_deposit :: "('b, 'w) vcx \<Rightarrow> string \<Rightarrow> string \<Rightarrow> 'b \<Rightarrow> 'b \<Rightarrow> ('b, 'w, string) net_op" where
  "damm_deposit cx addr ours maxA maxB =
     bind_op (request (da_pool (vsdk cx) addr)) (\<lambda>fresh.
     bind_op (of_result (da_deposit (vsdk cx) fresh maxA)) (\<lambda>liq.
       damm_send cx (DammDepositTx addr ours liq maxA maxB)))"

section \<open>Opening\<close>

fun damm_read :: "('b, 'w) vcx \<Rightarrow> nat \<Rightarrow> string \<Rightarrow> string \<Rightarrow> ('b, 'w, ('b pool_info \<times> string) option) net_op" where
  "damm_read cx 0 addr nft = ret None"
| "damm_read cx (Suc n) addr nft =
     bind_op (try_op (bind_op (request (da_pool (vsdk cx) addr)) (\<lambda>pl.
              bind_op (request (da_position (vsdk cx) nft)) (\<lambda>l. ret (pl, l))))) (\<lambda>r.
       case r of
         Inr x \<Rightarrow> ret (Some x)
       | Inl e \<Rightarrow> if n = 0 then throw e else damm_read cx n addr nft)"

definition damm_label :: "'b pool_info \<Rightarrow> string \<Rightarrow> string" where
  "damm_label pl addr = pool_label pl @ ''@'' @ addr"

fun damm_tvl_filter :: "('b, 'w) xcx \<Rightarrow> (string \<times> string) list \<Rightarrow> ('j, 'b, 'w, string option) xop" where
  "damm_tvl_filter cx [] = ret None"
| "damm_tvl_filter cx ((m, label) # rest) =
     (if m \<in> set (poolTvlWhitelist (xc cx)) \<or> \<not> plain_mint m then damm_tvl_filter cx rest
      else bind_op (on_net (request (sv_tokenLiquidity (xsv cx) m))) (\<lambda>tvl.
        if too_thin cx tvl
        then bind_op (of_result (tvl_text label tvl (minPoolTvl (xc cx)))) (\<lambda>t. ret (Some t))
        else damm_tvl_filter cx rest))"

definition damm_filters :: "('b, 'w) vcx \<Rightarrow> string \<Rightarrow> string \<Rightarrow> 'b pool_info \<Rightarrow> ('j, 'b, 'w, string option) xop" where
  "damm_filters cx addr wallet pl =
     first_reason
       [ret (if sol_or_listed (vb cx) (dammv2SkipSol cx) pl
             then Some (utf8 [228, 187, 163, 229, 185, 163, 233, 187, 145, 229, 144, 141, 229, 150, 174]) else None),
        pump_filter_by (\<lambda>m. on_net (consult (sv_tokenSymbol (xsv (vb cx)) m))) (damm_label pl addr) (vb cx) wallet pl,
        if num_lt (Num 0) (minPoolTvl (xc (vb cx)))
        then damm_tvl_filter (vb cx) [(pi_mintA pl, ''mintA''), (pi_mintB pl, ''mintB'')] else ret None]"

text \<open>Two transactions: the position's NFT, then the liquidity.\<close>

definition damm_create :: "('b, 'w) vcx \<Rightarrow> string \<Rightarrow> string \<Rightarrow> 'b \<Rightarrow> 'b \<Rightarrow> ('b, 'w, string) net_op" where
  "damm_create cx addr ours maxA maxB =
     bind_op (damm_send cx (DammCreateTx addr ours)) (\<lambda>_. damm_deposit cx addr ours maxA maxB)"

definition damm_save ::
  "('b, 'w) vcx \<Rightarrow> string \<Rightarrow> string \<Rightarrow> string \<Rightarrow> 'b pool_info \<Rightarrow> 'b \<Rightarrow> string \<Rightarrow> ('j, 'b, 'w, unit) xop" where
  "damm_save cx nft addr wallet pl liq ours =
     bind_op (now_op (vb cx)) (\<lambda>now.
       change (\<lambda>s. on_positions (PM_setTargetLiquidity nft (bn_toString (xbn (vb cx)) liq))
         (on_positions (PM_setLockedSol nft (dx_rent (dexes (other s) DAMMV2)))
           (on_positions (PM_set now nft ours (Some (damm_label pl addr)) (Some wallet) (Some 0) (Some 0) (Some ''dammv2'')) s))))"

definition damm_open ::
  "('b, 'w) vcx \<Rightarrow> string \<Rightarrow> string \<Rightarrow> string \<Rightarrow> 'b pool_info \<Rightarrow> string \<Rightarrow> ('j, 'b, 'w, string option) xop" where
  "damm_open cx nft addr wallet pl liqStr =
     bind_op (damm_filters cx addr wallet pl) (\<lambda>reason.
       case reason of
         Some t \<Rightarrow> skip_dex DAMMV2 t
       | None \<Rightarrow>
           let bn = xbn (vb cx); ratios = swc_ratios (xc_swap (xc (vb cx)))
           in bind_op (of_result (bn_of_string bn liqStr)) (\<lambda>liq.
                if bn_isZero bn liq
                then skip_dex DAMMV2 (utf8 [231, 155, 174, 230, 168, 153, 230, 181, 129, 229, 139, 149, 230, 128, 167, 231, 130, 186, 233, 155, 182])
                else bind_op (of_result (da_withdraw (vsdk cx) pl liq)) (\<lambda>(tA, tB).
                     bind_op (of_result (scaleAmount bn ratios tA (Some wallet))) (\<lambda>wantA.
                     bind_op (of_result (scaleAmount bn ratios tB (Some wallet))) (\<lambda>wantB.
                       if bn_isZero bn wantA \<and> bn_isZero bn wantB
                       then skip_dex DAMMV2 (utf8 [229, 173, 152, 230, 172, 190, 233, 135, 145, 233, 161, 141, 231, 130, 186, 233, 155, 182])
                       else bind_op (on_net (raise_pair (vb cx) pl wantA wantB)) (\<lambda>bals.
                         case bals of
                           None \<Rightarrow> ret None
                         | Some b \<Rightarrow>
                             if bn_isZero bn (fst b) \<and> bn_isZero bn (snd b) then ret None
                             else open_attempts (vb cx) nft pl (da_newKey (vsdk cx)) (damm_create cx addr)
                                    (damm_save cx nft addr wallet pl liq) wantA wantB 2 b))))))"

definition damm_copyOpen :: "('b, 'w) vcx \<Rightarrow> string \<Rightarrow> string \<Rightarrow> string \<Rightarrow> ('j, 'b, 'w, string option) xop" where
  "damm_copyOpen cx nft addr wallet =
     open_guards (vb cx) DAMMV2 nft wallet ''dry-run-dammv2-open''
       (catch_op
         (bind_op (on_net (damm_read cx 3 addr nft)) (\<lambda>r.
            case r of None \<Rightarrow> ret None | Some (pl, l) \<Rightarrow> damm_open cx nft addr wallet pl l))
         (dex_open_failed (vb cx) DAMMV2))"

section \<open>Adding\<close>

fun damm_delta ::
  "('b, 'w) vcx \<Rightarrow> 'b pool_info \<Rightarrow> string \<Rightarrow> string \<Rightarrow> string \<Rightarrow> nat \<Rightarrow> ('b, 'w, 'b \<times> 'b) net_op" where
  "damm_delta cx pl nft ours wallet 0 = throw (Error ''unreachable'')"
| "damm_delta cx pl nft ours wallet (Suc n) =
     (let bn = xbn (vb cx); ratios = swc_ratios (xc_swap (xc (vb cx)))
      in bind_op (damm_liquidity cx nft) (\<lambda>tLiq.
         bind_op (of_result (da_withdraw (vsdk cx) pl tLiq)) (\<lambda>(tA, tB).
         bind_op (of_result (scaleAmount bn ratios tA (Some wallet))) (\<lambda>wantA.
         bind_op (of_result (scaleAmount bn ratios tB (Some wallet))) (\<lambda>wantB.
         bind_op (damm_liquidity cx ours) (\<lambda>myLiq.
         bind_op (of_result (da_withdraw (vsdk cx) pl myLiq)) (\<lambda>(haveA, haveB).
         bind_op (bn_lit bn 0) (\<lambda>z.
           let dA = bn_sub bn wantA haveA; dB = bn_sub bn wantB haveB
           in if n > 0 \<and> \<not> bn_gt bn dA z \<and> \<not> bn_gt bn dB z then damm_delta cx pl nft ours wallet n else ret (dA, dB)))))))))"

fun damm_add_loop ::
  "('b, 'w) vcx \<Rightarrow> string \<Rightarrow> 'b pool_info \<Rightarrow> string \<Rightarrow> 'b \<Rightarrow> 'b \<Rightarrow> nat \<Rightarrow> 'b \<times> 'b \<Rightarrow> ('b, 'w, string) net_op" where
  "damm_add_loop cx addr pl ours wantA wantB 0 bals = throw (Error ''unreachable'')"
| "damm_add_loop cx addr pl ours wantA wantB (Suc n) bals =
     catch_op
       (damm_deposit cx addr ours (most_of (xbn (vb cx)) wantA wantB (fst bals)) (most_of (xbn (vb cx)) wantB wantA (snd bals)))
       (\<lambda>e. if n > 0 \<and> retryable e then
               bind_op (dex_balance (vb cx) (pi_mintA pl)) (\<lambda>balA.
               bind_op (dex_balance (vb cx) (pi_mintB pl)) (\<lambda>balB.
                 damm_add_loop cx addr pl ours wantA wantB n (balA, balB)))
             else throw e)"

definition damm_remember :: "('b, 'w) vcx \<Rightarrow> string \<Rightarrow> ('j, 'b, 'w, unit) xop" where
  "damm_remember cx nft =
     catch_op
       (bind_op (on_net (damm_liquidity cx nft)) (\<lambda>l. change (on_positions (PM_setTargetLiquidity nft (bn_toString (xbn (vb cx)) l)))))
       (\<lambda>_. ret ())"

definition damm_add :: "('b, 'w) vcx \<Rightarrow> string \<Rightarrow> string \<Rightarrow> string \<Rightarrow> string \<Rightarrow> ('j, 'b, 'w, string option) xop" where
  "damm_add cx nft ours wallet addr =
     bind_op (on_net (request (da_pool (vsdk cx) addr))) (\<lambda>pl.
     bind_op (on_net (damm_delta cx pl nft ours wallet 2)) (\<lambda>(dA, dB).
       let bn = xbn (vb cx)
       in bind_op (bn_lit bn 0) (\<lambda>z.
            if \<not> bn_gt bn dA z \<and> \<not> bn_gt bn dB z then ret None
            else let wantA = (if bn_gt bn dA z then dA else z); wantB = (if bn_gt bn dB z then dB else z)
              in bind_op (on_net (raise_pair (vb cx) pl wantA wantB)) (\<lambda>bals.
                 case bals of
                   None \<Rightarrow> ret None
                 | Some b \<Rightarrow>
                     bind_op (on_net (damm_add_loop cx addr pl ours wantA wantB 2 b)) (\<lambda>sig.
                     bind_op (damm_remember cx nft) (\<lambda>_. ret (Some sig)))))))"

definition damm_copyAdd :: "('b, 'w) vcx \<Rightarrow> string \<Rightarrow> string \<Rightarrow> ('j, 'b, 'w, string option) xop" where
  "damm_copyAdd cx nft wallet =
     add_guards (vb cx) DAMMV2 nft wallet ''dry-run-dammv2-add'' (\<lambda>ours.
       bind_op (look (pool_address_of nft)) (\<lambda>p. if \<not> truthy p then ret None else damm_add cx nft ours wallet (the p)))"

section \<open>Removing\<close>

definition damm_known :: "('b, 'w) vcx \<Rightarrow> string \<Rightarrow> ('j, 'b, 'w, 'b option) xop" where
  "damm_known cx nft = on_net (catch_op (bind_op (damm_liquidity cx nft) (\<lambda>l. ret (Some l))) (\<lambda>_. ret None))"

definition damm_claim_once :: "('b, 'w) vcx \<Rightarrow> string \<Rightarrow> string \<Rightarrow> ('b, 'w, (string \<times> string) option option) net_op" where
  "damm_claim_once cx addr ours =
     bind_op (damm_send cx (DammClaimTx addr ours)) (\<lambda>sig. ret (if sig = [] then None else Some (Some (''COLLECT_FEE'', sig))))"

definition damm_remove_once ::
  "('b, 'w) vcx \<Rightarrow> string \<Rightarrow> string \<Rightarrow> 'b option \<Rightarrow> ('j, 'b, 'w, (string \<times> string) option option) xop" where
  "damm_remove_once cx addr ours amt =
     bind_op (on_net (damm_liquidity cx ours)) (\<lambda>mine.
       if bn_isZero (xbn (vb cx)) mine then ret (Some None)
       else bind_op (on_net (damm_send cx (DammRemoveTx addr ours (map_option (\<lambda>a. bn_min (xbn (vb cx)) a mine) amt)))) (\<lambda>sig.
         if sig = [] then ret None
         else bind_op (credit_received (vb cx) sig) (\<lambda>_. ret (Some (Some (''DECREASE'', sig))))))"

definition damm_remove :: "('b, 'w) vcx \<Rightarrow> string \<Rightarrow> string \<Rightarrow> string \<Rightarrow> ('j, 'b, 'w, (string \<times> string) option) xop" where
  "damm_remove cx nft ours addr =
     bind_op (on_net (request (da_pool (vsdk cx) addr))) (\<lambda>_.
     bind_op (damm_known cx nft) (\<lambda>current.
     bind_op (planned_decrease (xbn (vb cx)) (damm_known cx ours) nft current) (\<lambda>amt.
       case amt of
         Some a \<Rightarrow>
           if bn_isZero (xbn (vb cx)) a then try_until isTransientError 2 (on_net (damm_claim_once cx addr ours))
           else try_until isTransientError 2 (damm_remove_once cx addr ours (Some a))
       | None \<Rightarrow> try_until isTransientError 2 (damm_remove_once cx addr ours None))))"

text \<open>Unlike the other operations this one does not ask for the dry run.\<close>

definition damm_copyRemove :: "('b, 'w) vcx \<Rightarrow> string \<Rightarrow> ('j, 'b, 'w, (string \<times> string) option) xop" where
  "damm_copyRemove cx nft s =
     (case PM_get nft (positions s) of
        None \<Rightarrow> (Inr None, s)
      | Some ours \<Rightarrow>
          if ours = [] then (Inr None, s)
          else with_dex_lock DAMMV2 (catch_op
                 (bind_op (look (pool_address_of nft)) (\<lambda>p. if \<not> truthy p then ret None else damm_remove cx nft ours (the p)))
                 (\<lambda>_. ret None)) s)"

section \<open>Closing\<close>

text \<open>Any failure to read our position drops the mapping.\<close>

definition damm_close_at :: "('b, 'w) vcx \<Rightarrow> string \<Rightarrow> string \<Rightarrow> string \<Rightarrow> ('j, 'b, 'w, string option) xop" where
  "damm_close_at cx nft ours addr =
     bind_op (on_net (request (da_pool (vsdk cx) addr))) (\<lambda>_.
     bind_op (on_net (try_op (request (da_position (vsdk cx) ours)))) (\<lambda>r.
       case r of
         Inl _ \<Rightarrow> bind_op (change (on_positions (PM_delete nft))) (\<lambda>_. ret None)
       | Inr l \<Rightarrow>
           bind_op (of_result (bn_of_string (xbn (vb cx)) l)) (\<lambda>liq.
           bind_op (bn_lit (xbn (vb cx)) 0) (\<lambda>z.
           bind_op (on_net (damm_send cx (DammCloseTx addr ours (bn_gt (xbn (vb cx)) liq z)))) (\<lambda>sig. ret (Some sig))))))"

definition damm_close_once :: "('b, 'w) vcx \<Rightarrow> string \<Rightarrow> string \<Rightarrow> ('j, 'b, 'w, string option) xop" where
  "damm_close_once cx nft ours =
     bind_op (look (pool_address_of nft)) (\<lambda>p.
       if \<not> truthy p then bind_op (change (on_positions (PM_delete nft))) (\<lambda>_. ret None)
       else damm_close_at cx nft ours (the p))"

definition damm_copyClose :: "('b, 'w) vcx \<Rightarrow> string \<Rightarrow> ('j, 'b, 'w, string option) xop" where
  "damm_copyClose cx nft =
     close_guards (vb cx) DAMMV2 nft ''dry-run-dammv2-close'' (\<lambda>ours. close_with (vb cx) nft (damm_close_once cx nft ours))"

section \<open>Fees and maintenance\<close>

definition damm_copyClaimFee :: "('b, 'w) vcx \<Rightarrow> string \<Rightarrow> ('j, 'b, 'w, string option) xop" where
  "damm_copyClaimFee cx nft =
     close_guards (vb cx) DAMMV2 nft ''dry-run-dammv2-fee'' (\<lambda>ours.
       bind_op (look (pool_address_of nft)) (\<lambda>p.
         if \<not> truthy p then ret None
         else bind_op (on_net (request (da_pool (vsdk cx) (the p)))) (\<lambda>_.
              bind_op (on_net (damm_send cx (DammClaimTx (the p) ours))) (\<lambda>sig. ret (Some sig)))))"

definition damm_manualClose :: "('b, 'w) vcx \<Rightarrow> string \<Rightarrow> ('j, 'b, 'w, string option) xop" where
  "damm_manualClose cx ours s =
     (case PM_findByOurNft ours (positions s) of
        None \<Rightarrow> (Inr None, s)
      | Some nft \<Rightarrow> if nft = [] then (Inr None, s) else damm_copyClose cx nft s)"

definition isDammV2Position :: "('b, 'w) vcx \<Rightarrow> string \<Rightarrow> ('b, 'w, bool) net_op" where
  "isDammV2Position cx nft =
     catch_op (bind_op (request (da_account (vsdk cx) nft)) (\<lambda>a. ret (a = Some DAMMV2_PROGRAM_ID))) (\<lambda>_. ret False)"

fun damm_reconcile :: "('b, 'w) vcx \<Rightarrow> (string \<times> string) list \<Rightarrow> ('j, 'b, 'w, unit) xop" where
  "damm_reconcile cx [] = ret ()"
| "damm_reconcile cx ((t, ours) # es) =
     bind_op (on_net (try_op (request (da_account (vsdk cx) ours)))) (\<lambda>r.
     bind_op (if r = Inr None then change (on_positions (PM_delete t)) else ret ()) (\<lambda>_. damm_reconcile cx es))"

definition reconcileDammV2Positions :: "('b, 'w) vcx \<Rightarrow> ('j, 'b, 'w, unit) xop" where
  "reconcileDammV2Positions cx s =
     damm_reconcile cx (map (\<lambda>(t, e). (t, ourNft e)) (filter (\<lambda>(t, e). dex e = Some ''dammv2'') (positions s))) s"

definition damm_initRent :: "('b, 'w) vcx \<Rightarrow> ('j, 'b, 'w, unit) xop" where
  "damm_initRent cx =
     catch_op
       (bind_op (on_net (request (da_rentExemption (vsdk cx) 300))) (\<lambda>a.
        bind_op (on_net (request (da_rentExemption (vsdk cx) 82))) (\<lambda>b.
        bind_op (on_net (request (da_rentExemption (vsdk cx) 165))) (\<lambda>c.
          change (upd_dex DAMMV2 (\<lambda>x. x\<lparr>dx_rent := num_div (to_num (of_int (a + b + c))) 1000000000\<rparr>))))))
       (\<lambda>_. ret ())"

definition damm_backfillLockedSol :: "('j, 'b, 'w) xbot \<Rightarrow> ('j, 'b, 'w) xbot" where
  "damm_backfillLockedSol = backfill_locked DAMMV2 ''dammv2''"

end
