(* ===== verification/Meteora_Safety.thy ===== *)
theory Meteora_Safety
  imports Meteora_Exec Damm_Exec Dex_Safety
begin

text \<open>
  What the copies of positions of Meteora's two programs may do, and what a lagging index makes of them.
\<close>

section \<open>What is handed over\<close>

lemma raw_send_submits: "P t \<Longrightarrow> submits P none \<Longrightarrow> submits P (raw_send_loop cx none t n)"
  by (induction n) (auto intro!: submits_rules)

lemma sign_submits: "P t \<Longrightarrow> submits P none \<Longrightarrow> submits P (sign_and_send cx sign none t)"
  unfolding sign_and_send_def by (intro logs.bind submits_simple raw_send_submits)

lemma raise_pair_submits: "(\<And>m. P (SwapTx m)) \<Longrightarrow> submits P (raise_pair cx pl a b)"
  unfolding raise_pair_def
  by (auto intro!: submits_rules dex_balance_submits raise_swap_submits dex_ways_swap simp: invalidateHoldingsCache_def split: option.splits prod.splits)

lemma raise_pair_read:
  assumes bn: "bn_spec (xbn cx) val" and "gives (raise_pair cx pl wA wB) (Some bals)"
  shows "side_read cx val (pi_mintA pl) wA (fst bals) \<and> side_read cx val (pi_mintB pl) wB (snd bals)"
proof -
  let ?after = "change invalidateHoldingsCache"
  obtain bA bB x y z rA rB where a: "gives (dex_balance cx (pi_mintA pl)) bA"
      "gives (raise_swap cx ?after (dex_ways_to_A cx pl bB) (pi_mintA pl) bA wA) (Some (x, rA))"
    and b: "gives (dex_balance cx (pi_mintB pl)) z" "gives (raise_swap cx ?after (dex_ways_to_B cx pl x wA) (pi_mintB pl) z wB) (Some (y, rB))"
    and bals: "bals = (x, y)"
    using assms(2) unfolding raise_pair_def
    by (auto elim!: gives_bindE split: option.splits prod.splits if_splits simp: eq_commute [of "Some bals"])
  show ?thesis
    using raise_swap_read [OF bn _ side_readI [OF a(1)], where swapped = "fst rA" and gains = "snd rA"] a(2)
      raise_swap_read [OF bn _ side_readI [OF b(1)], where swapped = "fst rB" and gains = "snd rB"] b(2) bals by simp
qed

lemma dlmm_submits:
  assumes "\<And>i. P (DlmmTx t i)"
  shows "submits P (dlmm_send cx t i)" "submits P (dlmm_one cx t)" "submits P (dlmm_many cx t)"
proof -
  show one: "submits P (dlmm_send cx t i)" for i
    unfolding dlmm_send_def by (intro sign_submits assms logs.simple)
  have parts: "submits P (dlmm_send_parts cx t i n sig)" for i n sig
    by (induction n arbitrary: i sig) (auto intro!: logs.bind logs.simple one)
  show "submits P (dlmm_one cx t)" "submits P (dlmm_many cx t)"
    unfolding dlmm_one_def dlmm_many_def by (intro logs.bind submits_simple one parts)+
qed

lemma damm_submits: "P (DammTx t) \<Longrightarrow> submits P (damm_send cx t)"
  unfolding damm_send_def by (intro logs.bind submits_simple sign_submits logs.simple)

lemma cached_pool_submits: "submits P (getCachedDlmmPool cx addr)"
  unfolding getCachedDlmmPool_def fetchDlmmPool_def by (auto intro!: submits_rules split: option.splits prod.splits)

lemma dlmm_read_submits: "submits P (dlmm_read cx n addr pos)"
  by (induction n) (auto intro!: submits_rules cached_pool_submits split: sum.splits option.splits)

lemma damm_read_submits: "submits P (damm_read cx n addr nft)"
  by (induction n) (auto intro!: submits_rules split: sum.splits option.splits)

section \<open>The filters\<close>

lemma symbol_filter_sends: "sends P (pump_filter_by (\<lambda>m. on_net (consult (f m))) l cx w p)"
  unfolding pump_filter_by_def by (auto intro!: sends_rules net_request_sends split: option.splits pump_mode.splits)

lemma symbol_filter_off: "off_net g \<Longrightarrow> always (same g) (pump_filter_by (\<lambda>m. on_net (consult (f m))) l cx w p)"
  unfolding pump_filter_by_def by (auto intro!: off_rules split: option.splits pump_mode.splits)

lemma dlmm_filters_send: "sends P (dlmm_filters cx addr wallet pl pos)"
proof -
  have "sends P (dlmm_tvl_filter cx addr pl)"
    unfolding dlmm_tvl_filter_def liquidity_of_def getMeteoraPairTvl_def
    by (auto intro!: sends_rules net_request_sends pool_tvl_sends submits_rules)
  then show ?thesis
    unfolding dlmm_filters_def by (intro first_reason_sends) (auto intro!: logs.simple symbol_filter_sends)
qed

lemma dlmm_filters_off: "off_tvl g \<Longrightarrow> always (same g) (dlmm_filters cx addr wallet pl pos)"
proof -
  assume g: "off_tvl g"
  then have n: "off_net g" by (simp add: off_tvl_def off_dex_def)
  have "always (same g) (dlmm_tvl_filter cx addr pl)"
    unfolding dlmm_tvl_filter_def liquidity_of_def getMeteoraPairTvl_def
    by (auto intro!: same.rules on_net_off pool_tvl_off g n)
  then show ?thesis
    unfolding dlmm_filters_def by (intro first_reason_off) (auto intro!: same.simple symbol_filter_off n)
qed

lemma damm_filters_send: "sends P (damm_filters cx addr wallet pl)"
proof -
  have "sends P (damm_tvl_filter b ms)" for b ms
    by (induction b ms rule: damm_tvl_filter.induct) (auto intro!: sends_rules net_request_sends)
  then show ?thesis
    unfolding damm_filters_def by (intro first_reason_sends) (auto intro!: logs.simple symbol_filter_sends simp del: damm_tvl_filter.simps)
qed

lemma damm_filters_off: "off_net g \<Longrightarrow> always (same g) (damm_filters cx addr wallet pl)"
proof -
  assume g: "off_net g"
  have "always (same g) (damm_tvl_filter b ms)" for b ms
    by (induction b ms rule: damm_tvl_filter.induct) (auto intro!: off_rules g)
  then show ?thesis
    unfolding damm_filters_def by (intro first_reason_off) (auto intro!: same.simple symbol_filter_off g simp del: damm_tvl_filter.simps)
qed

section \<open>The attempts to open\<close>

text \<open>
  The contract of an open that may take its mapping back: a result means that exactly one entry was written, anything
  else that at most the entry for \<open>nft\<close> is gone.
\<close>

definition reopens ::
  "('s \<Rightarrow> js_num position_memory) \<Rightarrow> string \<Rightarrow> (js_num PositionEntry \<Rightarrow> bool) \<Rightarrow> 's \<Rightarrow> 'a option result \<Rightarrow> 's \<Rightarrow> bool" where
  "reopens g nft E s r s' \<longleftrightarrow>
     (case r of Inr (Some _) \<Rightarrow> writes nft E (g s) (g s')
      | _ \<Rightarrow> map_of (g s') = map_of (g s) \<or> map_of (g s') = (map_of (g s))(nft := None))"

lemma reopens_bind:
  assumes "always (same g) m" and "\<And>a. gives m a \<Longrightarrow> meets (f a) (reopens g nft E)"
  shows "meets (bind_op m f) (reopens g nft E)"
  using assms by (rule same.meets_bind) (auto simp: reopens_def same_def split: sum.splits option.splits)

lemma reopens_none: "always (same g) m \<Longrightarrow> (\<And>a. gives m a \<Longrightarrow> a = None) \<Longrightarrow> meets m (reopens g nft E)"
  by (rule meetsI) (auto simp: reopens_def same_def dest: alwaysD givesI split: sum.splits option.splits)

lemma reopens_after:
  assumes "reopens g nft E t r u" and "map_of (g t) = map_of (g s) \<or> map_of (g t) = (map_of (g s))(nft := None)"
  shows "reopens g nft E s r u"
  using assms by (cases r) (auto simp: reopens_def writes_def split: option.splits)

lemma reopens_catch:
  assumes "meets m (reopens g nft E)" and "\<And>e. meets (h e) (reopens g nft E)"
  shows "meets (catch_op m h) (reopens g nft E)"
proof (rule meetsI)
  fix s r s' assume run: "catch_op m h s = (r, s')"
  obtain q t where m: "m s = (q, t)" by fastforce
  have q: "reopens g nft E s q t" using assms(1) m by (rule meetsD)
  show "reopens g nft E s r s'"
  proof (cases q)
    case (Inl e)
    then have "h e t = (r, s')" using run m by (simp add: catch_op_def)
    then have "reopens g nft E t r s'" by (rule meetsD [OF assms(2)])
    moreover have "map_of (g t) = map_of (g s) \<or> map_of (g t) = (map_of (g s))(nft := None)" using q Inl by (simp add: reopens_def)
    ultimately show ?thesis by (rule reopens_after)
  qed (use run m q in \<open>simp add: catch_op_def\<close>)
qed

text \<open>The mapping is written, and deleted again before another attempt.\<close>

lemma saved_then:
  assumes save: "meets save (saves positions nft E)" and ok: "never_throws verify" and again: "meets again (reopens positions nft E)"
  shows "meets (bind_op save (\<lambda>_. bind_op (on_net verify) (\<lambda>ok.
      if ok then ret (Some sig) else bind_op (change (on_positions (PM_delete nft))) (\<lambda>_. again)))) (reopens positions nft E)"
    (is "meets (bind_op save ?f) _")
proof (rule meetsI)
  fix s r s' assume run: "bind_op save ?f s = (r, s')"
  obtain q t where q: "save s = (q, t)" by fastforce
  have sv: "saves positions nft E s q t" using save q by (rule meetsD)
  show "reopens positions nft E s r s'"
  proof (cases q)
    case (Inl e)
    with run q sv show ?thesis by (auto simp: bind_op_def saves_def reopens_def)
  next
    case (Inr x)
    obtain v u where v: "on_net verify t = (Inr v, u)"
      using never_throwsD [OF on_net_never_throws [OF ok]] by (metis surj_pair)
    have u: "positions u = positions t" using alwaysD [OF on_net_off [OF off_books(3)] v] by (simp add: same_def)
    show ?thesis
    proof (cases v)
      case True
      with run q Inr v u sv show ?thesis by (auto simp: bind_op_def op_simps saves_def reopens_def)
    next
      case False
      then have "again (on_positions (PM_delete nft) u) = (r, s')" using run q Inr v by (simp add: bind_op_def op_simps)
      then have "reopens positions nft E (on_positions (PM_delete nft) u) r s'" by (rule meetsD [OF again])
      moreover have "map_of (positions (on_positions (PM_delete nft) u)) = (map_of (positions s))(nft := None)"
        using u sv Inr by (auto simp: saves_def writes_def on_positions_def set_other_def PM_delete_def map_of_delete fun_eq_iff)
      ultimately show ?thesis by (blast intro: reopens_after)
    qed
  qed
qed

lemma reopens_simple: "meets (ret None) (reopens g nft E)" "meets (throw e) (reopens g nft E)"
  by (simp_all add: meets_def reopens_def op_simps)

lemma gives_consult: "gives (consult f) a \<Longrightarrow> \<exists>w w'. f w = (a, w')"
  unfolding gives_def consult_def by (force split: prod.splits)

lemma attempts_reopen:
  assumes "\<And>ours. \<exists>w w'. newKey w = (ours, w') \<Longrightarrow> meets (save ours) (saves positions nft E)"
  shows "meets (open_attempts cx nft pl newKey create save wA wB n bals) (reopens positions nft E)"
proof (induction n arbitrary: bals)
  case (Suc n)
  note off = on_net_off [OF off_books(3)]
  have verify: "never_throws (verifyTxSuccess sv sig)" for sv sig by (simp add: verifyTxSuccess_def verify_loop_never_throws)
  have again: "meets (bind_op (on_net (dex_balance cx (pi_mintA pl))) (\<lambda>balA. bind_op (on_net (dex_balance cx (pi_mintB pl))) (\<lambda>balB.
      open_attempts cx nft pl newKey create save wA wB n (balA, balB)))) (reopens positions nft E)"
    by (intro reopens_bind off Suc.IH)
  show ?case
    unfolding open_attempts.simps Let_def
  proof (intro reopens_bind [OF off], goal_cases)
    case (1 ours r)
    then have "meets (save ours) (saves positions nft E)" by (blast intro: assms dest: on_net_gives gives_consult)
    then show ?case
      by (cases r) (auto intro!: saved_then verify again reopens_simple)
  qed
qed (simp add: reopens_simple)

lemma attempts_send:
  assumes "\<And>ours a b. side_read cx val (pi_mintA pl) wA a \<Longrightarrow> side_read cx val (pi_mintB pl) wB b \<Longrightarrow>
      submits P (create ours (most_of (xbn cx) wA wB a) (most_of (xbn cx) wB wA b))" and "\<And>ours. sends P (save ours)"
    and "side_read cx val (pi_mintA pl) wA (fst bals) \<and> side_read cx val (pi_mintB pl) wB (snd bals)"
  shows "sends P (open_attempts cx nft pl newKey create save wA wB n bals)"
  using assms(3)
proof (induction n arbitrary: bals)
  case (Suc n)
  have del: "sends P (change (on_positions (PM_delete nft)))" by (intro change_sends) simp
  have verify: "sends P (on_net (verifyTxSuccess sv sig))" for sv sig by (intro on_net_sends verify_submits)
  have create: "sends P (on_net (try_op (create ours (most_of (xbn cx) wA wB (fst bals)) (most_of (xbn cx) wB wA (snd bals)))))" for ours
    using Suc.prems by (intro on_net_sends logs.tried assms) simp_all
  have bal: "sends P (on_net (dex_balance cx m))" for m by (intro on_net_sends dex_balance_submits)
  show ?case
    unfolding open_attempts.simps Let_def
    by (auto intro!: logs.bind logs.simple net_request_sends create bal del verify assms(2) Suc.IH side_readI
        dest!: on_net_gives [where m = "dex_balance c m" for c m] split: sum.splits)
qed (simp add: logs.simple)

text \<open>What the guards of an open leave of its body.\<close>

lemma open_guards_run:
  assumes "open_guards cx d nft wallet dry body s = (r, s')"
  obtains (kept) "r = Inr None" "positions s' = positions s" "traffic s' = traffic s"
  | (dry) "dryRun (xc cx)" "r = Inr (Some dry)" "s' = s"
  | (ran) t where "\<not> truthy (PM_get nft (positions s))" "body (upd_dex d (\<lambda>x. x\<lparr>dx_busy := True\<rparr>) s) = (r, t)"
      "positions s' = positions t" "traffic s' = traffic t"
proof -
  have skip: "r = Inr None \<and> positions s' = positions s \<and> traffic s' = traffic s" if "skip_dex d m s = (r, s')" for m
    using that by (auto simp: skip_dex_def op_simps)
  consider "truthy (PM_get nft (positions s))" | "\<not> truthy (PM_get nft (positions s))" "\<exists>m. skip_dex d m s = (r, s')"
    | "\<not> truthy (PM_get nft (positions s))" "dryRun (xc cx)" "r = Inr (Some dry)" "s' = s"
    | "\<not> truthy (PM_get nft (positions s))" "with_dex_lock d (finally_op body (later (RefreshDexSol d))) s = (r, s')"
    using assms unfolding open_guards_def
    by (cases "truthy (PM_get nft (positions s))"; cases "solPaused (execs s d)"; cases "drawdownPaused (execs s d)";
        cases "wallet \<in> set (close_only (xdc cx) d)"; cases "dryRun (xc cx)") auto
  then show thesis
  proof cases
    case 1
    with assms show ?thesis by (intro kept) (simp_all add: open_guards_def)
  next
    case 2
    with skip show ?thesis by (blast intro: kept)
  next
    case 3
    then show ?thesis by (intro dry)
  next
    case 4
    from 4(2) show ?thesis
    proof (cases rule: dex_lock_run)
      case held
      then show ?thesis by (intro kept) simp_all
    next
      case (ran u)
      from ran(2) obtain t where t: "body (upd_dex d (\<lambda>x. x\<lparr>dx_busy := True\<rparr>) s) = (r, t)" "u = later (RefreshDexSol d) t"
        by (auto simp: finally_op_def split: prod.splits)
      with ran(3) show ?thesis by (intro that(3) [OF 4(1) t(1)]) simp_all
    qed
  qed
qed

section \<open>Ranges of bins\<close>

text \<open>The truncating division with its correction is the floor.\<close>

lemma binIdToArrayIdx_floor: "binIdToArrayIdx i = i div 512"
proof (cases "i < 0")
  case True
  have t: "trunc_div i 512 = - ((- i) div 512)" using True by (simp add: trunc_div_def sgn_if)
  have m: "js_rem i 512 = - ((- i) mod 512)"
    unfolding js_rem_def t using mult_div_mod_eq [of 512 "- i"] by linarith
  show ?thesis
    unfolding binIdToArrayIdx_def MAX_BIN_ARRAY_SIZE_def Let_def t m using True by (simp add: zdiv_zminus1_eq_if zmod_zminus1_eq_if) (use pos_mod_bound [of 512 i] in linarith)
qed (simp add: binIdToArrayIdx_def MAX_BIN_ARRAY_SIZE_def trunc_div_def sgn_if)

lemma bin_arrays_needed:
  assumes "lo \<le> up"
  shows "set (binArrayIndexes lo up) = (\<lambda>b. b div 512) ` {lo..up}"
proof (intro subset_antisym subsetI)
  fix i assume "i \<in> set (binArrayIndexes lo up)"
  then have i: "lo div 512 \<le> i" "i \<le> up div 512" by (simp_all add: binArrayIndexes_def binIdToArrayIdx_floor)
  show "i \<in> (\<lambda>b. b div 512) ` {lo..up}"
  proof (cases "512 * i < lo")
    case True
    then have "lo div 512 = i" using i(1) by linarith
    then show ?thesis using assms by force
  next
    case False
    moreover have "512 * i \<le> up" using i(2) by linarith
    ultimately show ?thesis by (intro image_eqI [of _ _ "512 * i"]) simp_all
  qed
qed (auto simp: binArrayIndexes_def binIdToArrayIdx_floor zdiv_mono1)

text \<open>Each step lengthens the position by one to 91 bins, and as few steps as possible are made.\<close>

definition extension :: "int \<Rightarrow> int \<Rightarrow> bool" where
  "extension a b \<longleftrightarrow> a < b \<and> b \<le> a + MAX_RESIZE"

lemma extend_ends_steps:
  "current \<le> upper \<Longrightarrow> successively extension (current # extend_ends current upper) \<and> last (current # extend_ends current upper) = upper"
proof (induction current upper rule: extend_ends.induct)
  case (1 current upper)
  show ?case
  proof (cases "current < upper")
    case True
    let ?e = "min (current + MAX_RESIZE) upper"
    have "extension current ?e" using True by (simp add: extension_def MAX_RESIZE_def)
    moreover have "successively extension (?e # extend_ends ?e upper) \<and> last (?e # extend_ends ?e upper) = upper"
      using "1.IH" [OF True refl] by simp
    ultimately show ?thesis using True by (subst (1 2) extend_ends.simps) (simp add: Let_def)
  next
    case False
    with "1.prems" show ?thesis by (subst (1 2) extend_ends.simps) simp
  qed
qed

lemma extend_ends_count:
  "int (length (extend_ends current upper)) = (if current < upper then (upper - current + 90) div 91 else 0)"
proof (induction current upper rule: extend_ends.induct)
  case (1 current upper)
  show ?case
  proof (cases "current < upper")
    case True
    have "int (length (extend_ends (min (current + MAX_RESIZE) upper) upper)) =
        (if current + 91 < upper then (upper - (current + 91) + 90) div 91 else 0)"
      using "1.IH" [OF True refl] by (simp add: MAX_RESIZE_def min_def)
    then show ?thesis using True by (subst extend_ends.simps) (auto simp: Let_def)
  qed (subst extend_ends.simps, simp)
qed

text \<open>No sequence of admissible extensions to the same end is shorter.\<close>

lemma extensions_reach: "successively extension (a # es) \<Longrightarrow> last (a # es) \<le> a + 91 * int (length es)"
proof (induction es arbitrary: a)
  case (Cons e es)
  then have "extension a e" "successively extension (e # es)" by simp_all
  with Cons.IH [of e] show ?case by (simp add: extension_def MAX_RESIZE_def)
qed simp

lemma extend_ends_least:
  assumes "successively extension (a # es)" and "last (a # es) = upper"
  shows "length (extend_ends a upper) \<le> length es"
proof -
  have "upper \<le> a + 91 * int (length es)" using extensions_reach [OF assms(1)] assms(2) by simp
  then have "int (length (extend_ends a upper)) \<le> int (length es)" by (simp add: extend_ends_count) linarith
  then show ?thesis by simp
qed

section \<open>A copied open of a DLMM position\<close>

definition dlmm_seen :: "('b, 'w) mcx \<Rightarrow> string \<Rightarrow> string \<Rightarrow> dlmm_position \<Rightarrow> bool" where
  "dlmm_seen cx addr nft pos \<longleftrightarrow> (\<exists>w w'. ml_getPosition (msdk cx) addr nft w = (Inr (Some pos), w'))"

definition dlmm_scaled :: "('b, 'w) mcx \<Rightarrow> string \<Rightarrow> dlmm_position \<Rightarrow> 'b \<Rightarrow> 'b \<Rightarrow> bool" where
  "dlmm_scaled cx wallet pos wX wY \<longleftrightarrow>
     (\<exists>tX tY. dlmm_amounts (xbn (mb cx)) pos = Inr (tX, tY) \<and>
        scaleAmount (xbn (mb cx)) (swc_ratios (xc_swap (xc (mb cx)))) tX (Some wallet) = Inr wX \<and>
        scaleAmount (xbn (mb cx)) (swc_ratios (xc_swap (xc (mb cx)))) tY (Some wallet) = Inr wY)"

text \<open>
  A transaction of a copied open: a swap, the creation of an empty position that ends at the target's bins, or a deposit
  in the target's bins of at most the scaled amounts, and of the wallet's balance on a side the target has none of.
\<close>

fun dlmm_within ::
  "('b, 'w) xcx \<Rightarrow> ('b \<Rightarrow> int) \<Rightarrow> string \<Rightarrow> 'b pool_info \<Rightarrow> dlmm_position \<Rightarrow> 'b \<Rightarrow> 'b \<Rightarrow> 'b dlmm_tx \<Rightarrow> bool" where
  "dlmm_within cx val addr pl pos wX wY (DlmmOpenTx p ours lo up a b) \<longleftrightarrow>
     p = addr \<and> lo = dp_lower pos \<and> up = dp_upper pos \<and>
     side_max cx val (pi_mintA pl) wX wY a \<and> side_max cx val (pi_mintB pl) wY wX b"
| "dlmm_within cx val addr pl pos wX wY (DlmmDepositTx p ours lo up a b) \<longleftrightarrow>
     p = addr \<and> lo = dp_lower pos \<and> up = dp_upper pos \<and>
     side_max cx val (pi_mintA pl) wX wY a \<and> side_max cx val (pi_mintB pl) wY wX b"
| "dlmm_within cx val addr pl pos wX wY (DlmmInitTx p ours lo wd ends k) \<longleftrightarrow>
     p = addr \<and> lo = dp_lower pos \<and> wd = LARGE_BIN_THRESHOLD \<and>
     successively extension ((lo + wd - 1) # ends) \<and> last ((lo + wd - 1) # ends) = dp_upper pos"
| "dlmm_within cx val addr pl pos wX wY _ \<longleftrightarrow> False"

definition dlmm_open_tx :: "('b, 'w) mcx \<Rightarrow> ('b \<Rightarrow> int) \<Rightarrow> string \<Rightarrow> string \<Rightarrow> string \<Rightarrow> 'b chain_tx \<Rightarrow> bool" where
  "dlmm_open_tx cx val nft addr wallet t \<longleftrightarrow>
     (\<exists>m. t = SwapTx m) \<or>
     (\<exists>pl pos wX wY d i. gives (dlmm_read cx 3 addr nft) (Some (pl, pos)) \<and> dlmm_seen cx addr nft pos \<and> dlmm_scaled cx wallet pos wX wY \<and>
        t = DlmmTx d i \<and> dlmm_within (mb cx) val addr pl pos wX wY d)"

lemma dlmm_create_submits:
  assumes bn: "bn_spec (xbn (mb cx)) val"
    and seen: "gives (dlmm_read cx 3 addr nft) (Some (pl, pos))" "dlmm_seen cx addr nft pos" "dlmm_scaled cx wallet pos wX wY"
    and bal: "side_read (mb cx) val (pi_mintA pl) wX a" "side_read (mb cx) val (pi_mintB pl) wY b"
  shows "submits (dlmm_open_tx cx val nft addr wallet)
    (dlmm_create cx addr pos ours (most_of (xbn (mb cx)) wX wY a) (most_of (xbn (mb cx)) wY wX b))"
proof -
  let ?P = "dlmm_open_tx cx val nft addr wallet"
  let ?a = "most_of (xbn (mb cx)) wX wY a" and ?b = "most_of (xbn (mb cx)) wY wX b"
  note bound = bal [THEN most_of_side [OF bn]]
  have ok: "dlmm_within (mb cx) val addr pl pos wX wY d \<Longrightarrow> ?P (DlmmTx d i)" for d i
    unfolding dlmm_open_tx_def using seen by blast
  have opened: "?P (DlmmTx (DlmmOpenTx addr ours (dp_lower pos) (dp_upper pos) ?a ?b) i)"
    "?P (DlmmTx (DlmmDepositTx addr ours (dp_lower pos) (dp_upper pos) ?a ?b) i)" for i
    by (rule ok, use bound in simp)+
  have init: "?P (DlmmTx (DlmmInitTx addr ours (dp_lower pos) LARGE_BIN_THRESHOLD
      (extend_ends (dp_lower pos + LARGE_BIN_THRESHOLD - 1) (dp_upper pos)) k) i)"
    if "LARGE_BIN_THRESHOLD < dp_upper pos - dp_lower pos + 1" for k i
    using that extend_ends_steps [of "dp_lower pos + LARGE_BIN_THRESHOLD - 1" "dp_upper pos"] by (intro ok) simp
  show ?thesis
    unfolding dlmm_create_def Let_def
    by (auto intro!: submits_rules dlmm_submits opened init verify_submits simp: not_le)
qed

lemma dlmm_read_gives: "gives (dlmm_read cx n addr nft) (Some (pl, pos)) \<Longrightarrow> dlmm_seen cx addr nft pos"
proof (induction n)
  case (Suc n)
  from Suc.prems show ?case
  proof (simp only: dlmm_read.simps, elim gives_bindE)
    fix r
    assume r: "gives (try_op (bind_op (getCachedDlmmPool cx addr) (\<lambda>pl. bind_op (request (ml_getPosition (msdk cx) addr nft)) (\<lambda>p. ret (map_option (Pair pl) p))))) r"
      and f: "gives (case r of Inr (Some x) \<Rightarrow> ret (Some x) | Inr None \<Rightarrow> dlmm_read cx n addr nft
        | Inl e \<Rightarrow> if n = 0 then throw e else dlmm_read cx n addr nft) (Some (pl, pos))"
    show ?thesis
    proof (cases "r = Inr (Some (pl, pos))")
      case True
      with r show ?thesis
        unfolding dlmm_seen_def by (auto dest!: gives_tried gives_request elim!: gives_bindE) (metis (no_types) map_option_eq_Some prod.inject)
    next
      case False
      with f Suc.IH show ?thesis by (auto split: sum.splits option.splits if_splits)
    qed
  qed
qed simp

definition dlmm_entry :: "('b, 'w) mcx \<Rightarrow> string \<Rightarrow> string \<Rightarrow> string \<Rightarrow> js_num PositionEntry \<Rightarrow> bool" where
  "dlmm_entry cx nft addr wallet e \<longleftrightarrow>
     (\<exists>pos (pl :: 'b pool_info) w w'. dlmm_seen cx addr nft pos \<and> ml_newKey (msdk cx) w = (ourNft e, w') \<and> pool e = Some (dlmm_label pl addr) \<and>
        targetWallet e = Some wallet \<and> tickLower e = Some (dp_lower pos) \<and> tickUpper e = Some (dp_upper pos) \<and> dex e = Some ''meteora'')"

lemma dlmm_save_saves:
  assumes "dlmm_seen cx addr nft pos" and "\<exists>w w'. ml_newKey (msdk cx) w = (ours, w')"
  shows "meets (dlmm_save cx nft addr wallet pl pos ours) (saves positions nft (dlmm_entry cx nft addr wallet))"
proof (rule meetsI)
  fix s s' r assume run: "dlmm_save cx nft addr wallet pl pos ours s = (r, s')"
  obtain n s1 where n: "now_op (mb cx) s = (Inr n, s1)" "books s1 = books s" by (rule now_opE)
  define e :: "js_num PositionEntry" where "e = \<lparr>ourNft = ours, createdAt = n, pool = Some (dlmm_label pl addr), targetWallet = Some wallet,
      lockedSol = Some (dx_rent (dexes (other s1) METEORA)), tickLower = Some (dp_lower pos), tickUpper = Some (dp_upper pos),
      dex = Some ''meteora'', targetLiquidity = (case dlmm_total (xbn (mb cx)) pos of Inr t \<Rightarrow> Some (bn_toString (xbn (mb cx)) t) | Inl _ \<Rightarrow> None)\<rparr>"
  have "r = Inr ()" "map_of (positions s') = (map_of (positions s1))(nft \<mapsto> e)"
    using run n(1) by (auto simp: dlmm_save_def bind_op_def op_simps on_positions_def set_other_def PM_set_def PM_setLockedSol_def
        PM_setTargetLiquidity_def e_def fun_eq_iff split: sum.splits)
  moreover have "dlmm_entry cx nft addr wallet e"
    unfolding dlmm_entry_def using assms by (intro exI [of _ pos] exI [of _ pl]) (simp add: e_def)
  ultimately show "saves positions nft (dlmm_entry cx nft addr wallet) s r s'"
    using n(2) by (auto simp: saves_def writes_def books_def)
qed

lemma dlmm_open_sends:
  assumes "bn_spec (xbn (mb cx)) val" and rd: "gives (dlmm_read cx 3 addr nft) (Some (pl, pos))"
  shows "sends (dlmm_open_tx cx val nft addr wallet) (dlmm_open cx nft addr wallet pl pos)"
proof -
  let ?P = "dlmm_open_tx cx val nft addr wallet"
  have sw: "?P (SwapTx m)" for m by (simp add: dlmm_open_tx_def)
  have save: "sends ?P (dlmm_save cx nft addr wallet pl pos ours)" for ours
    unfolding dlmm_save_def by (auto intro!: sends_rules split: sum.splits)
  show ?thesis
    unfolding dlmm_open_def Let_def
    by (auto intro!: logs.bind logs.simple dlmm_filters_send skip_sends on_net_sends raise_pair_submits sw attempts_send [where val = val] save
        dlmm_create_submits [OF assms dlmm_read_gives [OF rd]] dest!: on_net_gives raise_pair_read [OF assms(1)] simp: dlmm_scaled_def split: option.splits prod.splits)
qed

lemma dlmm_open_contract:
  assumes "dlmm_seen cx addr nft pos"
  shows "meets (dlmm_open cx nft addr wallet pl pos) (reopens positions nft (dlmm_entry cx nft addr wallet))"
proof -
  have skip: "meets (skip_dex d r) (reopens positions nft E)" for d r and E
    by (rule reopens_none) (auto intro!: skip_off dest!: skip_gives)
  show ?thesis
    unfolding dlmm_open_def Let_def
    by (auto intro!: reopens_bind same.simple dlmm_filters_off on_net_off skip reopens_simple attempts_reopen dlmm_save_saves assms
        split: option.splits prod.splits; blast)
qed

lemma open_failed_facts:
  "always (same positions) (dex_open_failed cx d e)" "gives (dex_open_failed cx d e) a \<Longrightarrow> a = None"
  "sends P (dex_open_failed cx d e)" "never_throws (dex_open_failed cx d e)"
  unfolding dex_open_failed_def sol_exhausted_def now_op_def
  by (auto intro!: off_rules change_same sends_rules never_throws_bind never_throws_simple on_net_never_throws net_request_sends elim!: gives_bindE)

lemma failed_reopens: "meets (dex_open_failed cx d e) (reopens positions nft E)"
  by (rule reopens_none) (auto intro: open_failed_facts(1) dest: open_failed_facts(2))

text \<open>What the guards, a body that keeps the contract, and the catch make of an open together.\<close>

lemma guarded_open:
  fixes s s' :: "('j, 'b, 'w) xbot"
  assumes "open_guards cx d nft wallet dry (catch_op m (dex_open_failed cx d)) s = (r, s')"
    and sends: "sends P m" and contract: "meets m (reopens positions nft E)"
  shows "(\<exists>ts. traffic s' = traffic s @ ts \<and> list_all P ts) \<and>
    (\<exists>ans. r = Inr ans \<and>
      (case ans of
         None \<Rightarrow> map_of (positions s') = map_of (positions s) \<or>
           \<not> truthy (PM_get nft (positions s)) \<and> map_of (positions s') = (map_of (positions s))(nft := None)
       | Some sig \<Rightarrow> dryRun (xc cx) \<and> s' = s \<or> \<not> truthy (PM_get nft (positions s)) \<and> writes nft E (positions s) (positions s')))"
  using assms(1)
proof (cases rule: open_guards_run)
  case (ran t)
  let ?body = "catch_op m (dex_open_failed cx d)" and ?s = "upd_dex d (\<lambda>x. x\<lparr>dx_busy := True\<rparr>) s"
  have "logs_only traffic P ?s t" using alwaysD [OF logs.catched [OF sends open_failed_facts(3)] ran(2)] .
  moreover have "reopens positions nft E ?s r t" using meetsD [OF reopens_catch [OF contract failed_reopens] ran(2)] .
  moreover obtain ans where "r = Inr ans" using never_throwsD [OF never_throws_catch [OF open_failed_facts(4)] ran(2)] by blast
  ultimately show ?thesis using ran(1,3,4) by (auto simp: logs_only_def reopens_def split: option.splits)
qed simp_all

lemma dlmm_copy_parts:
  fixes nft addr wallet :: string
  assumes "bn_spec (xbn (mb cx)) val"
  defines "m \<equiv> bind_op (on_net (dlmm_read cx 3 addr nft)) (\<lambda>r.
      case r of None \<Rightarrow> ret None | Some (pl, pos) \<Rightarrow> dlmm_open cx nft addr wallet pl pos)"
  shows "sends (dlmm_open_tx cx val nft addr wallet) m" "meets m (reopens positions nft (dlmm_entry cx nft addr wallet))"
proof -
  show "sends (dlmm_open_tx cx val nft addr wallet) m"
    unfolding m_def
    by (intro logs.bind on_net_sends dlmm_read_submits)
       (auto intro!: logs.simple dlmm_open_sends assms(1) dest!: on_net_gives split: option.splits)
  show "meets m (reopens positions nft (dlmm_entry cx nft addr wallet))"
    unfolding m_def
    by (intro reopens_bind on_net_off off_books)
       (auto intro!: reopens_simple dlmm_open_contract dest!: on_net_gives dlmm_read_gives split: option.splits)
qed

section \<open>A copied open of a DAMM v2 position\<close>

definition damm_seen :: "('b, 'w) vcx \<Rightarrow> string \<Rightarrow> string \<Rightarrow> 'b pool_info \<Rightarrow> string \<Rightarrow> bool" where
  "damm_seen cx addr nft pl liq \<longleftrightarrow>
     (\<exists>w w' v v'. da_pool (vsdk cx) addr w = (Inr pl, w') \<and> da_position (vsdk cx) nft v = (Inr liq, v'))"

definition damm_scaled :: "('b, 'w) vcx \<Rightarrow> string \<Rightarrow> 'b pool_info \<Rightarrow> string \<Rightarrow> 'b \<Rightarrow> 'b \<Rightarrow> bool" where
  "damm_scaled cx wallet pl liq wA wB \<longleftrightarrow>
     (\<exists>l tA tB. bn_of_string (xbn (vb cx)) liq = Inr l \<and> da_withdraw (vsdk cx) pl l = Inr (tA, tB) \<and>
        scaleAmount (xbn (vb cx)) (swc_ratios (xc_swap (xc (vb cx)))) tA (Some wallet) = Inr wA \<and>
        scaleAmount (xbn (vb cx)) (swc_ratios (xc_swap (xc (vb cx)))) tB (Some wallet) = Inr wB)"

text \<open>
  A transaction of a copied open: a swap, the creation of an empty position in the pool, or a deposit of at most the
  scaled amounts (the wallet's balance on a side the target has none of), for the liquidity the SDK quotes for its own token A amount.
\<close>

definition damm_open_tx :: "('b, 'w) vcx \<Rightarrow> ('b \<Rightarrow> int) \<Rightarrow> string \<Rightarrow> string \<Rightarrow> string \<Rightarrow> 'b chain_tx \<Rightarrow> bool" where
  "damm_open_tx cx val nft addr wallet t \<longleftrightarrow>
     (\<exists>m. t = SwapTx m) \<or> (\<exists>ours. t = DammTx (DammCreateTx addr ours)) \<or>
     (\<exists>pl fresh liq ours l a b wA wB. damm_seen cx addr nft pl liq \<and> damm_scaled cx wallet pl liq wA wB \<and>
        t = DammTx (DammDepositTx addr ours l a b) \<and> da_deposit (vsdk cx) fresh a = Inr l \<and>
        side_max (vb cx) val (pi_mintA pl) wA wB a \<and> side_max (vb cx) val (pi_mintB pl) wB wA b)"

lemma damm_create_submits:
  assumes bn: "bn_spec (xbn (vb cx)) val" and seen: "damm_seen cx addr nft pl liq" "damm_scaled cx wallet pl liq wA wB"
    and bal: "side_read (vb cx) val (pi_mintA pl) wA a" "side_read (vb cx) val (pi_mintB pl) wB b"
  shows "submits (damm_open_tx cx val nft addr wallet)
    (damm_create cx addr ours (most_of (xbn (vb cx)) wA wB a) (most_of (xbn (vb cx)) wB wA b))"
proof -
  let ?P = "damm_open_tx cx val nft addr wallet"
  let ?a = "most_of (xbn (vb cx)) wA wB a" and ?b = "most_of (xbn (vb cx)) wB wA b"
  have "?P (DammTx (DammDepositTx addr ours l ?a ?b))" if "da_deposit (vsdk cx) fresh ?a = Inr l" for fresh l
    unfolding damm_open_tx_def using seen that bal [THEN most_of_side [OF bn]] by blast
  moreover have "?P (DammTx (DammCreateTx addr ours))" by (simp add: damm_open_tx_def)
  ultimately show ?thesis
    unfolding damm_create_def damm_deposit_def by (auto intro!: submits_rules damm_submits)
qed

lemma damm_read_gives: "gives (damm_read cx n addr nft) (Some (pl, liq)) \<Longrightarrow> damm_seen cx addr nft pl liq"
proof (induction n)
  case (Suc n)
  from Suc.prems show ?case
  proof (simp only: damm_read.simps, elim gives_bindE)
    fix r
    assume r: "gives (try_op (bind_op (request (da_pool (vsdk cx) addr)) (\<lambda>pl. bind_op (request (da_position (vsdk cx) nft)) (\<lambda>l. ret (pl, l))))) r"
      and f: "gives (case r of Inr x \<Rightarrow> ret (Some x) | Inl e \<Rightarrow> if n = 0 then throw e else damm_read cx n addr nft) (Some (pl, liq))"
    show ?thesis
    proof (cases "r = Inr (pl, liq)")
      case True
      with r show ?thesis
        unfolding damm_seen_def by (auto dest!: gives_tried gives_request elim!: gives_bindE; blast)
    next
      case False
      with f Suc.IH show ?thesis by (auto split: sum.splits if_splits)
    qed
  qed
qed simp

definition damm_entry :: "('b, 'w) vcx \<Rightarrow> string \<Rightarrow> string \<Rightarrow> string \<Rightarrow> js_num PositionEntry \<Rightarrow> bool" where
  "damm_entry cx nft addr wallet e \<longleftrightarrow>
     (\<exists>pl liq l w w'. damm_seen cx addr nft pl liq \<and> da_newKey (vsdk cx) w = (ourNft e, w') \<and> pool e = Some (damm_label pl addr) \<and>
        targetWallet e = Some wallet \<and> dex e = Some ''dammv2'' \<and> bn_of_string (xbn (vb cx)) liq = Inr l \<and>
        targetLiquidity e = Some (bn_toString (xbn (vb cx)) l))"

lemma damm_save_saves:
  assumes "damm_seen cx addr nft pl liq" and "bn_of_string (xbn (vb cx)) liq = Inr l" and "\<exists>w w'. da_newKey (vsdk cx) w = (ours, w')"
  shows "meets (damm_save cx nft addr wallet pl l ours) (saves positions nft (damm_entry cx nft addr wallet))"
proof (rule meetsI)
  fix s s' r assume run: "damm_save cx nft addr wallet pl l ours s = (r, s')"
  obtain n s1 where n: "now_op (vb cx) s = (Inr n, s1)" "books s1 = books s" by (rule now_opE)
  define e :: "js_num PositionEntry" where "e = \<lparr>ourNft = ours, createdAt = n, pool = Some (damm_label pl addr), targetWallet = Some wallet,
      lockedSol = Some (dx_rent (dexes (other s1) DAMMV2)), tickLower = Some 0, tickUpper = Some 0,
      dex = Some ''dammv2'', targetLiquidity = Some (bn_toString (xbn (vb cx)) l)\<rparr>"
  have "r = Inr ()" "map_of (positions s') = (map_of (positions s1))(nft \<mapsto> e)"
    using run n(1) by (auto simp: damm_save_def bind_op_def op_simps on_positions_def set_other_def PM_set_def PM_setLockedSol_def
        PM_setTargetLiquidity_def e_def fun_eq_iff)
  moreover have "damm_entry cx nft addr wallet e"
    unfolding damm_entry_def using assms by (intro exI [of _ pl] exI [of _ liq] exI [of _ l]) (simp add: e_def)
  ultimately show "saves positions nft (damm_entry cx nft addr wallet) s r s'"
    using n(2) by (auto simp: saves_def writes_def books_def)
qed

lemma damm_open_parts:
  assumes bn: "bn_spec (xbn (vb cx)) val" and seen: "damm_seen cx addr nft pl liq"
  shows "sends (damm_open_tx cx val nft addr wallet) (damm_open cx nft addr wallet pl liq)"
    "meets (damm_open cx nft addr wallet pl liq) (reopens positions nft (damm_entry cx nft addr wallet))"
proof -
  let ?P = "damm_open_tx cx val nft addr wallet"
  have sw: "?P (SwapTx m)" for m by (simp add: damm_open_tx_def)
  have save: "sends ?P (damm_save cx nft addr wallet pl l ours)" for l ours
    unfolding damm_save_def by (auto intro!: sends_rules)
  show "sends ?P (damm_open cx nft addr wallet pl liq)"
    unfolding damm_open_def Let_def
    by (auto intro!: logs.bind logs.simple damm_filters_send skip_sends on_net_sends raise_pair_submits sw attempts_send [where val = val] save
        damm_create_submits [OF bn seen] dest!: on_net_gives raise_pair_read [OF bn] simp: damm_scaled_def split: option.splits prod.splits)
  have skip: "meets (skip_dex d r) (reopens positions nft E)" for d r and E
    by (rule reopens_none) (auto intro!: skip_off dest!: skip_gives)
  have attempts: "meets (open_attempts c nft pl (da_newKey (vsdk cx)) create (damm_save cx nft addr wallet pl l) wA wB n b)
      (reopens positions nft (damm_entry cx nft addr wallet))" if "bn_of_string (xbn (vb cx)) liq = Inr l" for c create l wA wB n b
    by (intro attempts_reopen damm_save_saves [OF seen that])
  show "meets (damm_open cx nft addr wallet pl liq) (reopens positions nft (damm_entry cx nft addr wallet))"
    unfolding damm_open_def Let_def
    by (auto intro!: reopens_bind same.simple damm_filters_off on_net_off skip reopens_simple attempts split: option.splits prod.splits)
qed

lemma damm_copy_parts:
  fixes nft addr wallet :: string
  assumes "bn_spec (xbn (vb cx)) val"
  defines "m \<equiv> bind_op (on_net (damm_read cx 3 addr nft)) (\<lambda>r.
      case r of None \<Rightarrow> ret None | Some (pl, l) \<Rightarrow> damm_open cx nft addr wallet pl l)"
  shows "sends (damm_open_tx cx val nft addr wallet) m" "meets m (reopens positions nft (damm_entry cx nft addr wallet))"
proof -
  show "sends (damm_open_tx cx val nft addr wallet) m"
    unfolding m_def
    by (intro logs.bind on_net_sends damm_read_submits)
       (auto intro!: logs.simple damm_open_parts assms(1) dest!: on_net_gives damm_read_gives split: option.splits)
  show "meets m (reopens positions nft (damm_entry cx nft addr wallet))"
    unfolding m_def
    by (intro reopens_bind on_net_off off_books)
       (auto intro!: reopens_simple damm_open_parts(2) [OF assms(1)] dest!: on_net_gives damm_read_gives split: option.splits)
qed

section \<open>Closing\<close>

definition drops :: "string \<Rightarrow> js_num position_memory \<Rightarrow> js_num position_memory \<Rightarrow> bool" where
  "drops nft m m' \<longleftrightarrow> map_of m' = (map_of m)(nft := None)"

lemma delete_drops: "drops nft (positions s) (positions (on_positions (PM_delete nft) s))"
  by (simp add: drops_def on_positions_def set_other_def PM_delete_def map_of_delete fun_eq_iff)

text \<open>One attempt: giving up drops the mapping, and only when \<open>gone\<close>; a signature is one with \<open>ok\<close>.\<close>

definition closing ::
  "string \<Rightarrow> (js_num position_memory \<Rightarrow> bool) \<Rightarrow> (js_num position_memory \<Rightarrow> string \<Rightarrow> bool) \<Rightarrow>
   ('j, 'b, 'w) xbot \<Rightarrow> string option result \<Rightarrow> ('j, 'b, 'w) xbot \<Rightarrow> bool" where
  "closing nft gone ok s r s' \<longleftrightarrow>
     (case r of
        Inr None \<Rightarrow> gone (positions s) \<and> drops nft (positions s) (positions s') \<or> positions s' = positions s
      | Inr (Some sig) \<Rightarrow> ok (positions s) sig \<and> positions s' = positions s
      | Inl _ \<Rightarrow> positions s' = positions s)"

lemma closing_bind:
  assumes "always (same positions) m" and "\<And>a. gives m a \<Longrightarrow> meets (f a) (closing nft gone ok)"
  shows "meets (bind_op m f) (closing nft gone ok)"
  using assms by (rule same.meets_bind) (auto simp: closing_def same_def split: sum.splits option.splits)

lemma closing_simple:
  "meets (ret None) (closing nft gone ok)" "meets (throw e) (closing nft gone ok)"
  "(\<And>m. ok m sig) \<Longrightarrow> meets (ret (Some sig)) (closing nft gone ok)"
  by (simp_all add: meets_def closing_def op_simps)

lemma close_attempts_closing:
  fixes cx :: "('b, 'w) xcx" and once :: "('j, 'b, 'w, string option) xop" and nft gone ok
  assumes "meets once (closing nft gone ok)"
  defines "Q \<equiv> closing nft gone (\<lambda>m sig. sig \<noteq> [] \<and> ok m sig \<and> confirmed (xsv cx) sig)"
  shows "meets (close_attempts cx n once) Q"
proof (induction n)
  case 0
  show ?case by (simp add: Q_def closing_simple)
next
  case (Suc n)
  show ?case
  proof (rule meetsI)
    fix s r s' assume run: "close_attempts cx (Suc n) once s = (r, s')"
    obtain q t where q: "once s = (q, t)" by fastforce
    have c: "closing nft gone ok s q t" using assms(1) q by (rule meetsD)
    have later: "Q s r s'" if "meets m Q" "m u = (r, s')" "positions u = positions s" for m u
      using meetsD [OF that(1,2)] that(3) by (auto simp: Q_def closing_def split: sum.splits option.splits)
    consider (err) e where "q = Inl e" | (none) "q = Inr None" | (unsent) "q = Inr (Some [])"
      | (sig) sig where "q = Inr (Some sig)" "sig \<noteq> []" by (metis sum.exhaust option.exhaust)
    then show "Q s r s'"
    proof cases
      case err
      then have t: "(if n > 0 \<and> retryable e then close_attempts cx n once else throw e) t = (r, s')"
        using run q by (simp add: bind_op_def try_op_def)
      have m: "meets (if n > 0 \<and> retryable e then close_attempts cx n once else throw e) Q"
        using Suc.IH by (auto simp: Q_def intro!: closing_simple)
      show ?thesis using c err by (intro later [OF m t]) (simp add: closing_def)
    next
      case none
      with run q c show ?thesis by (auto simp: bind_op_def try_op_def op_simps closing_def Q_def)
    next
      case unsent
      with run q c show ?thesis by (auto simp: bind_op_def try_op_def op_simps closing_def Q_def)
    next
      case sig
      obtain v u where v: "on_net (verifyTxSuccess (xsv cx) sig) t = (v, u)" by fastforce
      have u: "positions u = positions s"
        using alwaysD [OF on_net_off [OF off_books(3)] v] c sig by (simp add: same_def closing_def)
      have rest: "(case v of Inl e \<Rightarrow> throw e | Inr b \<Rightarrow> if b then ret (Some sig) else close_attempts cx n once) u = (r, s')"
        using run q sig v by (cases v) (simp_all add: bind_op_def try_op_def op_simps)
      consider (failed) e where "v = Inl e" | (yes) "v = Inr True" | (no) "v = Inr False" by (metis (full_types) sum.exhaust)
      then show ?thesis
      proof cases
        case yes
        then have "confirmed (xsv cx) sig" using v by (blast intro: verify_gives on_net_gives givesI)
        then show ?thesis using yes rest u c sig by (auto simp: Q_def closing_def op_simps)
      qed (use rest u in \<open>auto simp: Q_def closing_def op_simps\<close>, use later [OF Suc.IH _ u] rest in \<open>auto simp: Q_def closing_def\<close>)
    qed
  qed
qed

text \<open>A close leaves the position map alone, or drops the target's mapping with a reason.\<close>

definition closed_for ::
  "string \<Rightarrow> (js_num position_memory \<Rightarrow> bool) \<Rightarrow> (js_num position_memory \<Rightarrow> string \<Rightarrow> bool) \<Rightarrow>
   ('j, 'b, 'w) xbot \<Rightarrow> string option result \<Rightarrow> ('j, 'b, 'w) xbot \<Rightarrow> bool" where
  "closed_for nft gone ok s r s' \<longleftrightarrow>
     (positions s' = positions s \<and> (\<forall>sig. r \<noteq> Inr (Some sig))) \<or>
     drops nft (positions s) (positions s') \<and>
       (gone (positions s) \<and> (\<forall>sig. r \<noteq> Inr (Some sig)) \<or> (\<exists>sig. ok (positions s) sig \<and> (\<forall>x. r = Inr x \<longrightarrow> x = Some sig)))"

lemma credit_positions: "always (same positions) (credit_received cx sig)"
  by (rule credit_off) simp_all

lemma close_with_closed:
  fixes gone ok
  assumes "meets once (closing nft gone ok)" and run: "close_with cx nft once s = (r, s')"
  shows "closed_for nft gone (\<lambda>m sig. sig \<noteq> [] \<and> ok m sig \<and> confirmed (xsv cx) sig) s r s'"
proof -
  obtain q t where q: "close_attempts cx 3 once s = (q, t)" by fastforce
  have c: "closing nft gone (\<lambda>m sig. sig \<noteq> [] \<and> ok m sig \<and> confirmed (xsv cx) sig) s q t"
    using close_attempts_closing [OF assms(1)] q by (rule meetsD)
  consider (err) e where "q = Inl e" | (none) "q = Inr None" | (sig) sig where "q = Inr (Some sig)" by (metis sum.exhaust option.exhaust)
  then show ?thesis
  proof cases
    case sig
    let ?t = "on_positions (PM_delete nft) t"
    from run q sig have rest: "bind_op (credit_received cx sig) (\<lambda>_. ret (Some sig)) ?t = (r, s')"
      by (simp add: close_with_def bind_op_def op_simps)
    then have "positions s' = positions ?t"
      using alwaysD [OF same.bind [OF credit_positions same.simple(1)] rest] by (simp add: same_def)
    moreover have "\<forall>x. r = Inr x \<longrightarrow> x = Some sig" using rest by (auto simp: bind_op_def op_simps split: prod.splits sum.splits)
    moreover have "drops nft (positions s) (positions ?t)" "sig \<noteq> [] \<and> ok (positions s) sig \<and> confirmed (xsv cx) sig"
      using delete_drops [of nft t] c sig by (simp_all add: closing_def)
    ultimately show ?thesis by (auto simp: closed_for_def)
  qed (use run q c in \<open>auto simp: close_with_def bind_op_def op_simps closing_def closed_for_def\<close>)
qed

lemma close_guards_run:
  assumes "close_guards cx d nft dry body s = (r, s')"
  obtains (kept) "r = Inr None" "s' = s" | (dry) "dryRun (xc cx)" "s' = s"
  | (ran) ours t where "PM_get nft (positions s) = Some ours" "ours \<noteq> []"
      "catch_op (body ours) (\<lambda>_. ret None) (upd_dex d (\<lambda>x. x\<lparr>dx_busy := True\<rparr>) s) = (r, t)" "positions s' = positions t" "traffic s' = traffic t"
proof (cases "PM_get nft (positions s)")
  case None
  with assms that(1) show thesis by (simp add: close_guards_def)
next
  case (Some ours)
  consider "ours = []" | "ours \<noteq> []" "dryRun (xc cx)" | "ours \<noteq> []" "\<not> dryRun (xc cx)" by blast
  then show thesis
  proof cases
    case 3
    then have "with_dex_lock d (catch_op (body ours) (\<lambda>_. ret None)) s = (r, s')" using assms Some by (simp add: close_guards_def)
    then show thesis by (cases rule: dex_lock_run) (use that(1) that(3) [OF Some 3(1)] in auto)
  qed (use assms Some that in \<open>auto simp: close_guards_def\<close>)
qed

text \<open>The node said of our position that it does not exist.\<close>

definition dlmm_gone :: "('b, 'w) mcx \<Rightarrow> string \<Rightarrow> string \<Rightarrow> bool" where
  "dlmm_gone cx addr ours \<longleftrightarrow> (\<exists>w w' e. ml_getPosition (msdk cx) addr ours w = (Inl e, w') \<and> str_includes (error_message e) ''not found'')"

definition pool_known :: "string \<Rightarrow> js_num position_memory \<Rightarrow> string option" where
  "pool_known nft m = address_in_label (PM_getPool nft m)"

lemma gives_tried_error: "gives (try_op (request f)) (Inl e) \<Longrightarrow> \<exists>w w'. f w = (Inl e, w')"
  unfolding gives_def try_op_def request_def by (force split: prod.splits)

text \<open>The signature the node gave for the transaction that closes our position in the pool.\<close>

definition dlmm_close_sent :: "('b, 'w) mcx \<Rightarrow> string \<Rightarrow> string \<Rightarrow> string \<Rightarrow> bool" where
  "dlmm_close_sent cx addr ours sig \<longleftrightarrow> (\<exists>w w'. sv_send (xsv (mb cx)) (DlmmTx (DlmmCloseTx addr ours) 0) w = (Inr sig, w'))"

lemma gives_submit: "gives (submit t f) a \<Longrightarrow> \<exists>w w'. f w = (Inr a, w')"
  unfolding gives_def submit_def by (force split: prod.splits)

lemma raw_send_gives: "gives (raw_send_loop cx none t n) sig \<Longrightarrow> gives none sig \<or> (\<exists>w w'. sv_send (xsv cx) t w = (Inr sig, w'))"
  by (induction n) (auto elim!: gives_catchE gives_bindE dest!: gives_submit split: if_splits)

lemma dlmm_close_gives: "gives (dlmm_one cx (DlmmCloseTx addr ours)) sig \<Longrightarrow> sig = [] \<or> dlmm_close_sent cx addr ours sig"
  unfolding dlmm_one_def dlmm_send_def sign_and_send_def dlmm_close_sent_def
  by (auto elim!: gives_bindE dest!: raw_send_gives)

lemma dlmm_once_closing:
  "meets (dlmm_close_once cx nft ours)
     (closing nft (\<lambda>m. \<not> truthy (pool_known nft m) \<or> dlmm_gone cx (the (pool_known nft m)) ours)
       (\<lambda>m sig. sig = [] \<or> truthy (pool_known nft m) \<and> dlmm_close_sent cx (the (pool_known nft m)) ours sig))"
    (is "meets _ (closing nft ?gone ?ok)")
proof (rule meetsI)
  fix s r s' assume run: "dlmm_close_once cx nft ours s = (r, s')"
  let ?addr = "pool_address_of nft s"
  have known: "?addr = pool_known nft (positions s)" by (simp add: pool_address_of_def pool_known_def)
  have drop: "meets (bind_op (change (on_positions (PM_delete nft))) (\<lambda>_. ret None)) (closing nft (\<lambda>_. P) ok)" if P for P ok
    using that delete_drops by (auto simp: meets_def closing_def op_simps)
  have body: "meets (dlmm_close_at cx nft ours a) (closing nft (\<lambda>_. dlmm_gone cx a ours) (\<lambda>_ sig. sig = [] \<or> dlmm_close_sent cx a ours sig))" for a
    unfolding dlmm_close_at_def
    by (auto intro!: closing_bind on_net_off same.simple closing_simple drop simp: bn_lit_def dlmm_gone_def
        dest!: on_net_gives gives_tried_error dlmm_close_gives split: sum.splits option.splits; blast)
  show "closing nft ?gone ?ok s r s'"
  proof (cases "truthy ?addr")
    case True
    then have "closing nft (\<lambda>_. dlmm_gone cx (the ?addr) ours) (\<lambda>_ sig. sig = [] \<or> dlmm_close_sent cx (the ?addr) ours sig) s r s'"
      using run by (intro meetsD [OF body]) (simp add: dlmm_close_once_def bind_op_def op_simps)
    then show ?thesis using True by (auto simp: closing_def known split: sum.splits option.splits)
  next
    case False
    then have "closing nft (\<lambda>_. True) (\<lambda>_ _. False) s r s'"
      using run by (intro meetsD [OF drop]) (simp_all add: dlmm_close_once_def bind_op_def op_simps)
    then show ?thesis using False by (auto simp: closing_def known split: sum.splits option.splits)
  qed
qed

section \<open>An index that lags\<close>

text \<open>The node takes every transaction and finds no fault with it.\<close>

definition answers :: "('w \<Rightarrow> 'a result \<times> 'w) \<Rightarrow> 'a \<Rightarrow> bool" where
  "answers f a \<longleftrightarrow> (\<forall>w. \<exists>w'. f w = (Inr a, w'))"

definition accepting :: "('b, 'w) services \<Rightarrow> string \<Rightarrow> bool" where
  "accepting sv sig \<longleftrightarrow> (\<forall>t. answers (sv_send sv t) sig) \<and> answers (sv_confirm sv sig) () \<and> answers (sv_getTransaction_err sv sig) False"

text \<open>The index that is asked for the outcome does not know the transaction yet.\<close>

definition unseen :: "('b, 'w) services \<Rightarrow> string \<Rightarrow> bool" where
  "unseen sv sig \<longleftrightarrow> answers (sv_getParsedTransaction sv sig) None"

lemma answers_run: "answers f a \<Longrightarrow> \<exists>n'. request f n = (Inr a, n') \<and> sent n' = sent n"
proof -
  assume "answers f a"
  then obtain w' where "f (world n) = (Inr a, w')" unfolding answers_def by blast
  then show ?thesis by (simp add: request_def)
qed

lemma answersE:
  assumes "answers f a"
  obtains n' where "request f n = (Inr a, n')" and "sent n' = sent n"
  using answers_run [OF assms] by blast

lemma accepted_run:
  assumes "accepting sv sig" and "xsv cx = sv" and "0 < swc_maxRetry (xc_swap (xc cx))" and "answers (sign t) ()"
  shows "\<exists>n'. sign_and_send cx sign none t n = (Inr sig, n') \<and> sent n' = sent n @ [t]"
proof -
  obtain k where k: "swc_maxRetry (xc_swap (xc cx)) = Suc k" using assms(3) by (metis gr0_implies_Suc)
  obtain n1 where n1: "request (sign t) n = (Inr (), n1)" "sent n1 = sent n" by (rule answersE [OF assms(4)])
  obtain n2 where n2: "submit t (sv_send sv t) n1 = (Inr sig, n2)" "sent n2 = sent n1 @ [t]"
  proof -
    obtain w' where "sv_send sv t (world n1) = (Inr sig, w')" using assms(1) unfolding accepting_def answers_def by blast
    then show thesis by (intro that) (auto simp: submit_def)
  qed
  obtain n3 where n3: "request (sv_confirm sv sig) n2 = (Inr (), n3)" "sent n3 = sent n2"
    by (rule answersE [of "sv_confirm sv sig" "()" n2]) (use assms(1) in \<open>simp add: accepting_def\<close>)
  obtain n4 where n4: "request (sv_getTransaction_err sv sig) n3 = (Inr False, n4)" "sent n4 = sent n3"
    by (rule answersE [of "sv_getTransaction_err sv sig" False n3]) (use assms(1) in \<open>simp add: accepting_def\<close>)
  have "sign_and_send cx sign none t n = (Inr sig, n4)"
    using k assms(2)
    by (simp add: sign_and_send_def catch_op_def op_simps bind_op_simps(2) [where m = "request (sign t)", OF n1(1)]
        bind_op_simps(2) [where m = "submit t (sv_send sv t)", OF n2(1)]
        bind_op_simps(2) [where m = "request (sv_confirm sv sig)", OF n3(1)]
        bind_op_simps(2) [where m = "request (sv_getTransaction_err sv sig)", OF n4(1)])
  with n1 n2 n3 n4 show ?thesis by simp
qed

lemma look_then: "bind_op (look g) f s = f (g s) s"
  by (simp add: bind_op_def op_simps)

lemma unseen_run:
  assumes "unseen sv sig"
  shows "\<exists>n'. verifyTxSuccess sv sig n = (Inr False, n') \<and> sent n' = sent n"
proof -
  have "\<exists>n'. verify_loop sv k sig n = (Inr False, n') \<and> sent n' = sent n" for k
  proof (induction k arbitrary: n)
    case (Suc k)
    obtain n1 where n1: "request (sv_getParsedTransaction sv sig) n = (Inr None, n1)" "sent n1 = sent n"
      using assms unfolding unseen_def by (rule answersE)
    with Suc.IH [of n1] show ?case by (cases "k = 0") (simp_all add: bind_op_def try_op_def op_simps)
  qed (simp add: op_simps)
  then show ?thesis by (simp add: verifyTxSuccess_def)
qed

lemma on_net_run:
  assumes "m (net (other s)) = (r, n')"
  shows "\<exists>s'. on_net m s = (r, s') \<and> net (other s') = n' \<and> positions s' = positions s"
  using assms by (simp add: on_net_def zoom_def set_other_def)

text \<open>
  One attempt that sends one transaction and does not see it: it leaves no mapping and goes on to the next.
\<close>

lemma unseen_attempt:
  assumes create: "\<And>ours a b n. \<exists>n'. create ours a b n = (Inr sig, n') \<and> sent n' = sent n @ [tx ours a b]"
    and lag: "unseen (xsv cx) sig" and save: "\<And>ours s. \<exists>s'. save ours s = (Inr (), s') \<and> traffic s' = traffic s"
  shows "\<exists>ours a b u. traffic u = traffic s @ [tx ours a b] \<and> map_of (positions u) nft = None \<and>
    open_attempts cx nft pl newKey create save wA wB (Suc n) bals s =
      (if n > 0 then bind_op (on_net (dex_balance cx (pi_mintA pl))) (\<lambda>balA. bind_op (on_net (dex_balance cx (pi_mintB pl))) (\<lambda>balB.
         open_attempts cx nft pl newKey create save wA wB n (balA, balB))) else ret None) u"
proof -
  let ?a = "most_of (xbn cx) wA wB (fst bals)" and ?b = "most_of (xbn cx) wB wA (snd bals)"
  obtain ours s1 where s1: "on_net (consult newKey) s = (Inr ours, s1)" "traffic s1 = traffic s"
  proof -
    obtain k w where "newKey (world (net (other s))) = (k, w)" by fastforce
    then have "on_net (consult newKey) s = (Inr k, set_other (\<lambda>x. x\<lparr>net := (net x)\<lparr>world := w\<rparr>\<rparr>) s)"
      by (simp add: on_net_def zoom_def consult_def set_other_def)
    then show thesis by (rule that) (simp add: set_other_def traffic_def)
  qed
  obtain n' where n': "create ours ?a ?b (net (other s1)) = (Inr sig, n')" "sent n' = traffic s1 @ [tx ours ?a ?b]"
    using create by (force simp: traffic_def)
  then have "try_op (create ours ?a ?b) (net (other s1)) = (Inr (Inr sig), n')" by (simp add: try_op_def)
  then obtain s2 where s2: "on_net (try_op (create ours ?a ?b)) s1 = (Inr (Inr sig), s2)" "traffic s2 = traffic s @ [tx ours ?a ?b]"
    using on_net_run n'(2) s1(2) by (metis traffic_def)
  obtain s3 where s3: "save ours s2 = (Inr (), s3)" "traffic s3 = traffic s2" using save by blast
  obtain m' where m': "verifyTxSuccess (xsv cx) sig (net (other s3)) = (Inr False, m')" "sent m' = traffic s3"
    using unseen_run [OF lag] by (metis traffic_def)
  then obtain s4 where s4: "on_net (verifyTxSuccess (xsv cx) sig) s3 = (Inr False, s4)" "traffic s4 = traffic s3"
    using on_net_run by (metis traffic_def)
  let ?u = "on_positions (PM_delete nft) s4"
  have "open_attempts cx nft pl newKey create save wA wB (Suc n) bals s =
      (if n > 0 then bind_op (on_net (dex_balance cx (pi_mintA pl))) (\<lambda>balA. bind_op (on_net (dex_balance cx (pi_mintB pl))) (\<lambda>balB.
         open_attempts cx nft pl newKey create save wA wB n (balA, balB))) else ret None) ?u"
    by (simp add: Let_def bind_op_simps(2) [where m = "on_net (consult newKey)", OF s1(1)]
        bind_op_simps(2) [where m = "on_net (try_op (create ours ?a ?b))", OF s2(1)] bind_op_simps(2) [where m = "save ours", OF s3(1)]
        bind_op_simps(2) [where m = "on_net (verifyTxSuccess (xsv cx) sig)", OF s4(1)])
  moreover have "map_of (positions ?u) nft = None" using delete_drops [of nft s4] by (simp add: drops_def)
  moreover have "traffic ?u = traffic s @ [tx ours ?a ?b]" using s2 s3 s4 by simp
  ultimately show ?thesis by blast
qed

lemma dlmm_one_accepted:
  assumes "accepting (xsv (mb cx)) sig" and "0 < swc_maxRetry (xc_swap (xc (mb cx)))" and "answers (ml_build (msdk cx) t) k"
    and "answers (ml_sign (msdk cx) (DlmmTx t 0)) ()"
  shows "\<exists>n'. dlmm_one cx t n = (Inr sig, n') \<and> sent n' = sent n @ [DlmmTx t 0]"
proof -
  obtain n1 where n1: "request (ml_build (msdk cx) t) n = (Inr k, n1)" "sent n1 = sent n" using assms(3) by (rule answersE)
  obtain n2 where "dlmm_send cx t 0 n1 = (Inr sig, n2)" "sent n2 = sent n1 @ [DlmmTx t 0]"
    using accepted_run [where sign = "ml_sign (msdk cx)" and t = "DlmmTx t 0", OF assms(1) refl assms(2,4)] unfolding dlmm_send_def by blast
  with n1 show ?thesis
    by (simp add: dlmm_one_def bind_op_simps(2) [where m = "request (ml_build (msdk cx) t)", OF n1(1)])
qed

lemma dlmm_save_run: "\<exists>s'. dlmm_save cx nft addr wallet pl pos ours s = (Inr (), s') \<and> traffic s' = traffic s"
proof -
  obtain n s1 where n: "now_op (mb cx) s = (Inr n, s1)" by (rule now_opE)
  have "traffic s1 = traffic s"
    using alwaysD [OF now_sends [of "\<lambda>_. False"] n] by (auto simp: logs_only_def list_all_iff)
  then show ?thesis
    using n by (auto simp: dlmm_save_def bind_op_def op_simps split: sum.splits)
qed

section \<open>Properties\<close>

text \<open>
  C15: A copied DLMM open stays within the target, and its book entry is the target's. Every transaction handed over is a token
  swap, the creation of an empty position of 70 bins from the target's lower bin that is then extended by at most 91
  bins at a time exactly to the target's upper bin, or a deposit in exactly the target's bins. A deposit names of
  each token at most the scaled amount; the one exception is a token of which the scaled amount is zero while the
  other's is not, as for a single-sided target: there it names the wallet's whole balance of that token as it was read
  from the node. The copy never throws. When it returns a signature outside a dry run, nothing was mapped before and now
  exactly the target's position is, to a fresh address, with the target's pool, wallet and bins; otherwise nothing is mapped.
\<close>

theorem dlmm_open_within_target:
  fixes s s' :: "('j, 'b, 'w) xbot"
  assumes "bn_spec (xbn (mb cx)) val" and "meteora_copyOpen cx nft addr wallet s = (r, s')"
  shows "(\<exists>ts. traffic s' = traffic s @ ts \<and> list_all (dlmm_open_tx cx val nft addr wallet) ts) \<and>
    (\<exists>ans. r = Inr ans \<and>
      (case ans of
         None \<Rightarrow> map_of (positions s') = map_of (positions s) \<or>
           \<not> truthy (PM_get nft (positions s)) \<and> map_of (positions s') = (map_of (positions s))(nft := None)
       | Some sig \<Rightarrow> dryRun (xc (mb cx)) \<and> s' = s \<or>
           \<not> truthy (PM_get nft (positions s)) \<and> writes nft (dlmm_entry cx nft addr wallet) (positions s) (positions s')))"
  using assms(2) unfolding meteora_copyOpen_def by (rule guarded_open) (rule dlmm_copy_parts [OF assms(1)])+

text \<open>
  C16: A copied DAMM v2 open stays within the target. Every transaction handed over is a token swap, the creation of an empty
  position in the target's pool, or a deposit there. A deposit names of each token at most the scaled amount the target's
  liquidity is worth; the one exception is a token of which the scaled amount is zero while the other's is not: there
  it names the wallet's whole balance of that token as it was read from the node. The copy never throws. When it returns a signature outside a dry run, nothing was mapped before and now exactly the
  target's position is, to a fresh NFT, with the target's pool, wallet and liquidity; otherwise nothing is mapped.
\<close>

theorem damm_open_within_target:
  fixes s s' :: "('j, 'b, 'w) xbot"
  assumes "bn_spec (xbn (vb cx)) val" and "damm_copyOpen cx nft addr wallet s = (r, s')"
  shows "(\<exists>ts. traffic s' = traffic s @ ts \<and> list_all (damm_open_tx cx val nft addr wallet) ts) \<and>
    (\<exists>ans. r = Inr ans \<and>
      (case ans of
         None \<Rightarrow> map_of (positions s') = map_of (positions s) \<or>
           \<not> truthy (PM_get nft (positions s)) \<and> map_of (positions s') = (map_of (positions s))(nft := None)
       | Some sig \<Rightarrow> dryRun (xc (vb cx)) \<and> s' = s \<or>
           \<not> truthy (PM_get nft (positions s)) \<and> writes nft (damm_entry cx nft addr wallet) (positions s) (positions s')))"
  using assms(2) unfolding damm_copyOpen_def by (rule guarded_open) (rule damm_copy_parts [OF assms(1)])+


text \<open>
  C20: A copied close of a DLMM position needs a reason to forget it. It never throws; either the position map is as before and
  there is no signature (outside a dry run), or exactly the target's mapping is gone and either no pool address is
  known for it, or the node said that our position is not found, or there is a signature that the node gave for the
  transaction closing our position in that pool and that the index showed without an error; a signature that is
  returned is that one.
\<close>

theorem dlmm_close_needs_evidence:
  fixes s s' :: "('j, 'b, 'w) xbot"
  assumes run: "meteora_copyClose cx nft s = (r, s')"
  shows "(dryRun (xc (mb cx)) \<and> s' = s) \<or> (positions s' = positions s \<and> r = Inr None) \<or>
    (\<exists>ours. PM_get nft (positions s) = Some ours \<and> map_of (positions s') = (map_of (positions s))(nft := None) \<and>
      (r = Inr None \<and> \<not> truthy (pool_address_of nft s) \<or> r = Inr None \<and> dlmm_gone cx (the (pool_address_of nft s)) ours \<or>
       (\<exists>sig. dlmm_close_sent cx (the (pool_address_of nft s)) ours sig \<and> confirmed (xsv (mb cx)) sig \<and>
          (r = Inr None \<or> r = Inr (Some sig)))))"
  using run unfolding meteora_copyClose_def
proof (cases rule: close_guards_run)
  case (ran ours t)
  let ?s = "upd_dex METEORA (\<lambda>x. x\<lparr>dx_busy := True\<rparr>) s"
  obtain q u where q: "close_with (mb cx) nft (dlmm_close_once cx nft ours) ?s = (q, u)" by fastforce
  note c = close_with_closed [OF dlmm_once_closing q]
  have "(\<exists>x. q = Inr x \<and> r = Inr x) \<or> (\<exists>e. q = Inl e) \<and> r = Inr None" "t = u"
    using ran(3) q by (auto simp: catch_op_def op_simps split: sum.splits)
  with c ran(1,4) show ?thesis
    by (auto simp: closed_for_def drops_def pool_known_def pool_address_of_def)
qed simp_all

text \<open>
  When the index lags, a DLMM position is opened twice and forgotten twice. If the node accepts and confirms every
  transaction but the index that is asked for the outcome does not show it, the attempts to open a range of up to 70
  bins hand over two opening transactions, each for a position of its own, and leave no mapping: the copy
  reports failure while both positions exist.
\<close>

theorem unseen_open_repeated:
  fixes s :: "('j, 'b, 'w) xbot"
  assumes "dp_upper pos - dp_lower pos + 1 \<le> LARGE_BIN_THRESHOLD"
    and "accepting (xsv (mb cx)) sig" and "unseen (xsv (mb cx)) sig" and "0 < swc_maxRetry (xc_swap (xc (mb cx)))"
    and "\<forall>t. answers (ml_build (msdk cx) t) 1 \<and> answers (ml_sign (msdk cx) (DlmmTx t 0)) ()"
    and "\<forall>m n. \<exists>b n'. dex_balance (mb cx) m n = (Inr b, n')"
  shows "\<exists>s' k1 k2 x1 y1 x2 y2.
    open_attempts (mb cx) nft pl (ml_newKey (msdk cx)) (dlmm_create cx addr pos) (dlmm_save cx nft addr wallet pl pos) wX wY 2 bals s =
      (Inr None, s') \<and> map_of (positions s') nft = None \<and>
    traffic s' = traffic s @ [DlmmTx (DlmmOpenTx addr k1 (dp_lower pos) (dp_upper pos) x1 y1) 0,
                              DlmmTx (DlmmOpenTx addr k2 (dp_lower pos) (dp_upper pos) x2 y2) 0]"
proof -
  let ?tx = "\<lambda>ours a b. DlmmTx (DlmmOpenTx addr ours (dp_lower pos) (dp_upper pos) a b) 0"
  let ?go = "open_attempts (mb cx) nft pl (ml_newKey (msdk cx)) (dlmm_create cx addr pos) (dlmm_save cx nft addr wallet pl pos) wX wY"
  have create: "\<exists>n'. dlmm_create cx addr pos ours a b n = (Inr sig, n') \<and> sent n' = sent n @ [?tx ours a b]" for ours a b n
    using dlmm_one_accepted [OF assms(2,4), of "DlmmOpenTx addr ours (dp_lower pos) (dp_upper pos) a b" 1 n] assms(1,5)
    by (simp add: dlmm_create_def Let_def)
  note attempt = unseen_attempt [of "dlmm_create cx addr pos" sig ?tx "mb cx" "dlmm_save cx nft addr wallet pl pos", OF create assms(3) dlmm_save_run]
  obtain k1 x1 y1 u where u: "traffic u = traffic s @ [?tx k1 x1 y1]" "map_of (positions u) nft = None"
    "?go 2 bals s = bind_op (on_net (dex_balance (mb cx) (pi_mintA pl))) (\<lambda>balA. bind_op (on_net (dex_balance (mb cx) (pi_mintB pl))) (\<lambda>balB.
         ?go 1 (balA, balB))) u"
    using attempt [of s nft pl "ml_newKey (msdk cx)" wX wY 1 bals] by (auto simp: numeral_2_eq_2)
  have balance: "\<exists>b v'. on_net (dex_balance (mb cx) m) v = (Inr b, v') \<and> traffic v' = traffic v" for m and v :: "('j, 'b, 'w) xbot"
  proof -
    obtain b n' where b: "dex_balance (mb cx) m (net (other v)) = (Inr b, n')" using assms(6) by blast
    then obtain v' where v': "on_net (dex_balance (mb cx) m) v = (Inr b, v')" using on_net_run by blast
    have "sends (\<lambda>_. False) (on_net (dex_balance (mb cx) m) :: ('j, 'b, 'w, 'b) xop)" by (intro on_net_sends dex_balance_submits)
    from alwaysD [OF this v'] v' show ?thesis by (auto simp: logs_only_def list_all_iff)
  qed
  obtain bA v where v: "on_net (dex_balance (mb cx) (pi_mintA pl)) u = (Inr bA, v)" "traffic v = traffic u" using balance by blast
  obtain bB w where w: "on_net (dex_balance (mb cx) (pi_mintB pl)) v = (Inr bB, w)" "traffic w = traffic v" using balance by blast
  obtain k2 x2 y2 z where z: "traffic z = traffic w @ [?tx k2 x2 y2]" "map_of (positions z) nft = None" "?go 1 (bA, bB) w = ret None z"
    using attempt [of w nft pl "ml_newKey (msdk cx)" wX wY 0 "(bA, bB)"] by auto
  have "?go 2 bals s = (Inr None, z)"
    unfolding u(3) bind_op_simps(2) [where m = "on_net (dex_balance (mb cx) (pi_mintA pl))", OF v(1)]
      bind_op_simps(2) [where m = "on_net (dex_balance (mb cx) (pi_mintB pl))", OF w(1)] z(3) by (simp add: op_simps)
  moreover have "traffic z = traffic s @ [?tx k1 x1 y1, ?tx k2 x2 y2]" using u(1) v(2) w(2) z(1) by simp
  ultimately show ?thesis using z(2) by blast
qed

text \<open>
  A close of a DAMM v2 position forgets it when the node fails to answer. If our position cannot be read, for whatever
  reason, a rate limit included, nothing is sent and the mapping is dropped.
\<close>

theorem damm_unreadable_forgotten:
  fixes s :: "('j, 'b, 'w) xbot"
  assumes "PM_get nft (positions s) = Some ours" and "ours \<noteq> []" and "\<not> dryRun (xc (vb cx))" and "\<not> dex_busy DAMMV2 s"
    and "pool_address_of nft s = Some addr" and "addr \<noteq> []"
    and "da_pool (vsdk cx) addr (world (net (other s))) = (Inr pl, w)" and "da_position (vsdk cx) ours w = (Inl e, w')"
  shows "\<exists>s'. damm_copyClose cx nft s = (Inr None, s') \<and> traffic s' = traffic s \<and>
    map_of (positions s') = (map_of (positions s))(nft := None)"
proof -
  let ?s = "upd_dex DAMMV2 (\<lambda>x. x\<lparr>dx_busy := True\<rparr>) s"
  let ?n = "net (other s)"
  have net: "net (other ?s) = ?n" by (simp add: upd_dex_def set_other_def)
  have "request (da_pool (vsdk cx) addr) ?n = (Inr pl, ?n\<lparr>world := w\<rparr>)" using assms(7) by (simp add: request_def)
  then obtain s1 where s1: "on_net (request (da_pool (vsdk cx) addr)) ?s = (Inr pl, s1)" "net (other s1) = ?n\<lparr>world := w\<rparr>" "positions s1 = positions s"
    using on_net_run [of "request (da_pool (vsdk cx) addr)" ?s] net by auto
  have "try_op (request (da_position (vsdk cx) ours)) (net (other s1)) = (Inr (Inl e), ?n\<lparr>world := w'\<rparr>)"
    using assms(8) s1(2) by (simp add: request_def try_op_def)
  then obtain s2 where s2: "on_net (try_op (request (da_position (vsdk cx) ours))) s1 = (Inr (Inl e), s2)"
    "net (other s2) = ?n\<lparr>world := w'\<rparr>" "positions s2 = positions s"
    using on_net_run [of "try_op (request (da_position (vsdk cx) ours))" s1] s1(3) by auto
  let ?u = "on_positions (PM_delete nft) s2"
  have "pool_address_of nft ?s = Some addr" using assms(5) by (simp add: pool_address_of_def)
  then have "damm_close_once cx nft ours ?s = (Inr None, ?u)"
    using assms(6) by (simp add: damm_close_once_def damm_close_at_def truthy_def op_simps look_then
        bind_op_simps(2) [where m = "on_net (request (da_pool (vsdk cx) addr))", OF s1(1)]
        bind_op_simps(2) [where m = "on_net (try_op (request (da_position (vsdk cx) ours)))", OF s2(1)])
  then have "catch_op (close_with (vb cx) nft (damm_close_once cx nft ours)) (\<lambda>_. ret None) ?s = (Inr None, ?u)"
    by (simp add: close_with_def numeral_3_eq_3 catch_op_def bind_op_def try_op_def op_simps)
  then have "damm_copyClose cx nft s = (Inr None, upd_dex DAMMV2 (\<lambda>x. x\<lparr>dx_busy := False\<rparr>) ?u)"
    using assms(1-4) by (simp add: damm_copyClose_def close_guards_def with_dex_lock_def finally_op_def)
  moreover have "traffic s2 = traffic s" using s2(2) by (simp add: traffic_def)
  moreover have "map_of (positions ?u) = (map_of (positions s))(nft := None)" using delete_drops [of nft s2] s2(3) by (simp add: drops_def)
  ultimately show ?thesis by simp
qed

section \<open>Witnesses\<close>

text \<open>A target with a hundred bins; every position can be read, and the index knows no transaction.\<close>

definition mdemo_pos :: dlmm_position where
  "mdemo_pos = \<lparr>dp_lower = -50, dp_upper = 49, dp_X = ''1000'', dp_Y = ''1200''\<rparr>"

definition mdemo_sdk :: "(int, nat) dlmm_sdk" where
  "mdemo_sdk =
     \<lparr>ml_create = (\<lambda>_ w. (Inr xdemo_pool, w)), ml_getPosition = (\<lambda>_ _ w. (Inr (Some mdemo_pos), w)), ml_positionsOf = (\<lambda>_ _ w. (Inr [], w)),
      ml_newKey = (\<lambda>w. (replicate w CHR ''K'', Suc w)), ml_binArrays = (\<lambda>_ _ w. (Inr 1, w)), ml_build = (\<lambda>_ w. (Inr 1, w)),
      ml_sign = (\<lambda>_ w. (Inr (), w)), ml_account = (\<lambda>_ w. (Inr True, w)), ml_rentExemption = (\<lambda>_ w. (Inr 2000000, w)),
      ml_pairs = (\<lambda>_ w. (Inr JNull, w))\<rparr>"

definition mdemo_cx :: "(int, nat) mcx" where
  "mdemo_cx = \<lparr>mb = xdemo_cx\<lparr>xsv := xdemo_sv\<lparr>sv_send := \<lambda>_ w. (Inr ''SIG'', w)\<rparr>\<rparr>, msdk = mdemo_sdk, meteoraSkipSol = False, meteoraTvlFromJupiter = False\<rparr>"

lemma mdemo_fields [simp]: "xbn (mb mdemo_cx) = int_BN" "xc (mb mdemo_cx) = xdemo_config" "msdk mdemo_cx = mdemo_sdk"
  "xsv (mb mdemo_cx) = xdemo_sv\<lparr>sv_send := \<lambda>_ w. (Inr ''SIG'', w)\<rparr>"
  by (simp_all add: mdemo_cx_def)

lemma mdemo_numbers: "BigInt_of ''1000'' = Inr 1000" "BigInt_of ''1200'' = Inr 1200" "BigInt_of ''1500'' = Inr 1500"
  by code_simp+

lemma demo_scale: "scaleAmount int_BN \<lparr>walletAmountRatios = [], amountRatio = Num 1\<rparr> x (Some ''W'') = Inr x"
  by (simp add: scaleAmount_def getAmountRatio_def num_eq_def)

lemma demo_traffic: "traffic (xdemo_bot ps) = []"
  by (simp add: traffic_def xdemo_bot_def)

theorem dlmm_open_within_target_witness:
  "list_all (\<lambda>t. case t of DlmmTx d i \<Rightarrow> \<exists>pl. dlmm_within (mb mdemo_cx) id ''POOL'' pl mdemo_pos 1000 1200 d | SwapTx _ \<Rightarrow> True | _ \<Rightarrow> False)
     (traffic (snd (meteora_copyOpen mdemo_cx ''T'' ''POOL'' ''W'' (xdemo_bot []))))"
proof -
  obtain r s' where run: "meteora_copyOpen mdemo_cx ''T'' ''POOL'' ''W'' (xdemo_bot []) = (r, s')" by fastforce
  have pos: "dlmm_seen mdemo_cx ''POOL'' ''T'' pos \<Longrightarrow> pos = mdemo_pos" for pos by (auto simp: dlmm_seen_def mdemo_sdk_def)
  have amounts: "dlmm_amounts int_BN mdemo_pos = Inr (1000, 1200)"
    by (simp add: dlmm_amounts_def mdemo_pos_def int_BN_def mdemo_numbers)
  have tx: "case t of DlmmTx d i \<Rightarrow> \<exists>pl. dlmm_within (mb mdemo_cx) id ''POOL'' pl mdemo_pos 1000 1200 d | SwapTx _ \<Rightarrow> True | _ \<Rightarrow> False"
    if "dlmm_open_tx mdemo_cx id ''T'' ''POOL'' ''W'' t" for t
    using that unfolding dlmm_open_tx_def dlmm_scaled_def mdemo_fields by (auto dest!: pos simp: amounts demo_scale)
  from dlmm_open_within_target [OF _ run, of id] int_BN_spec demo_traffic
  have "list_all (dlmm_open_tx mdemo_cx id ''T'' ''POOL'' ''W'') (traffic s')" by auto
  then show ?thesis unfolding list_all_iff run snd_conv by (blast intro: tx)
qed


abbreviation mdemo_bot :: "(unit, int, nat) xbot" where
  "mdemo_bot \<equiv> xdemo_bot [(''T'', held_entry\<lparr>pool := Some ''MA/MB@POOL'', dex := Some ''meteora''\<rparr>)]"

lemma mdemo_pool: "pool_address_of ''T'' mdemo_bot = Some ''POOL''"
  by (simp add: pool_address_of_def PM_getPool_def address_in_label_def)

theorem dlmm_close_needs_evidence_witness:
  "positions (snd (meteora_copyClose mdemo_cx ''T'' mdemo_bot)) = positions mdemo_bot"
proof -
  obtain r s' where run: "meteora_copyClose mdemo_cx ''T'' mdemo_bot = (r, s')" by fastforce
  have "\<not> confirmed (xsv (mb mdemo_cx)) sig" "\<not> dlmm_gone mdemo_cx addr ours" for sig addr ours
    by (simp_all add: confirmed_def dlmm_gone_def mdemo_sdk_def xdemo_sv_def)
  with dlmm_close_needs_evidence [OF run] run mdemo_pool show ?thesis by (auto simp: truthy_def)
qed

theorem unseen_open_repeated_witness:
  "\<exists>s' k1 k2 x1 y1 x2 y2.
    open_attempts (mb mdemo_cx) ''T'' xdemo_pool (ml_newKey mdemo_sdk) (dlmm_create mdemo_cx ''POOL'' (mdemo_pos\<lparr>dp_upper := 10\<rparr>))
      (dlmm_save mdemo_cx ''T'' ''POOL'' ''W'' xdemo_pool (mdemo_pos\<lparr>dp_upper := 10\<rparr>)) 1000 1200 2 (1500, 1500) (xdemo_bot []) = (Inr None, s') \<and>
    map_of (positions s') ''T'' = None \<and>
    traffic s' = [DlmmTx (DlmmOpenTx ''POOL'' k1 (-50) 10 x1 y1) 0, DlmmTx (DlmmOpenTx ''POOL'' k2 (-50) 10 x2 y2) 0]"
proof -
  let ?pos = "mdemo_pos\<lparr>dp_upper := 10\<rparr>"
  have accept: "accepting (xsv (mb mdemo_cx)) ''SIG''" "unseen (xsv (mb mdemo_cx)) ''SIG''"
    by (simp_all add: accepting_def unseen_def answers_def xdemo_sv_def)
  have balances: "\<exists>b n'. dex_balance (mb mdemo_cx) m n = (Inr b, n')" for m n
    by (simp add: dex_balance_def bind_op_def consult_def op_simps xdemo_sv_def TOKEN_PROGRAMS_def int_BN_def mdemo_numbers available_lamports_def bind_result_def)
  from unseen_open_repeated [OF _ accept, of ?pos "''T''" xdemo_pool "''POOL''" "''W''" 1000 1200 "(1500, 1500)" "xdemo_bot []"] balances
  show ?thesis by (simp add: demo_traffic answers_def mdemo_sdk_def mdemo_pos_def LARGE_BIN_THRESHOLD_def xdemo_config_def)
qed

text \<open>A DAMM v2 program that does not answer for our position.\<close>

definition vdemo_cx :: "string result \<Rightarrow> (int, nat) vcx" where
  "vdemo_cx mine =
     \<lparr>vb = xdemo_cx,
      vsdk = \<lparr>da_pool = (\<lambda>_ w. (Inr xdemo_pool, w)), da_position = (\<lambda>nft w. (if nft = ''T'' then Inr ''1500'' else mine, w)),
        da_withdraw = (\<lambda>_ l. Inr (l, 2 * l)), da_deposit = (\<lambda>_ a. Inr a), da_newKey = (\<lambda>w. (replicate w CHR ''K'', Suc w)),
        da_build = (\<lambda>_ w. (Inr (), w)), da_sign = (\<lambda>_ w. (Inr (), w)), da_account = (\<lambda>_ w. (Inr None, w)), da_rentExemption = (\<lambda>_ w. (Inr 1, w))\<rparr>,
      dammv2SkipSol = False\<rparr>"

lemma vdemo_fields [simp]: "vb (vdemo_cx mine) = xdemo_cx" by (simp add: vdemo_cx_def)

theorem damm_open_within_target_witness:
  "list_all (\<lambda>t. case t of DammTx (DammDepositTx p ours l a b) \<Rightarrow> p = ''POOL'' \<and> a \<le> 1500 \<and> b \<le> 3000
       | DammTx (DammCreateTx p ours) \<Rightarrow> p = ''POOL'' | SwapTx _ \<Rightarrow> True | _ \<Rightarrow> False)
     (traffic (snd (damm_copyOpen (vdemo_cx (Inr ''0'')) ''T'' ''POOL'' ''W'' (xdemo_bot []))))"
proof -
  let ?cx = "vdemo_cx (Inr ''0'')"
  obtain r s' where run: "damm_copyOpen ?cx ''T'' ''POOL'' ''W'' (xdemo_bot []) = (r, s')" by fastforce
  have seen: "damm_seen ?cx ''POOL'' ''T'' pl liq \<Longrightarrow> liq = ''1500''" for pl liq by (auto simp: damm_seen_def vdemo_cx_def)
  have parse: "bn_of_string int_BN ''1500'' = Inr 1500" by (simp add: int_BN_def mdemo_numbers)
  have scaled: "damm_scaled ?cx ''W'' pl ''1500'' wA wB \<Longrightarrow> wA = 1500 \<and> wB = 3000" for pl wA wB
    unfolding damm_scaled_def by (auto simp: vdemo_cx_def demo_scale parse)
  have tx: "case t of DammTx (DammDepositTx p ours l a b) \<Rightarrow> p = ''POOL'' \<and> a \<le> 1500 \<and> b \<le> 3000
       | DammTx (DammCreateTx p ours) \<Rightarrow> p = ''POOL'' | SwapTx _ \<Rightarrow> True | _ \<Rightarrow> False"
    if "damm_open_tx ?cx id ''T'' ''POOL'' ''W'' t" for t
    using that unfolding damm_open_tx_def by (auto dest!: seen scaled simp: side_max_def)
  from damm_open_within_target [OF _ run, of id] int_BN_spec demo_traffic
  have "list_all (damm_open_tx ?cx id ''T'' ''POOL'' ''W'') (traffic s')" by auto
  then show ?thesis unfolding list_all_iff run snd_conv by (blast intro: tx)
qed

theorem damm_unreadable_forgotten_witness:
  "\<exists>s'. damm_copyClose (vdemo_cx (Inl (Error ''429 Too Many Requests''))) ''T'' mdemo_bot = (Inr None, s') \<and>
    traffic s' = [] \<and> map_of (positions s') ''T'' = None"
proof -
  let ?cx = "vdemo_cx (Inl (Error ''429 Too Many Requests''))"
  have "\<exists>s'. damm_copyClose ?cx ''T'' mdemo_bot = (Inr None, s') \<and> traffic s' = traffic mdemo_bot \<and>
    map_of (positions s') = (map_of (positions mdemo_bot))(''T'' := None)"
    by (rule damm_unreadable_forgotten [where addr = "''POOL''" and ours = "''OURS''"])
       (simp_all add: PM_get_def mdemo_pool vdemo_cx_def, simp add: xdemo_bot_def)
  then show ?thesis by (auto simp: demo_traffic)
qed

end
