(* ===== verification/Spec2Isabelle.thy ===== *)
theory Spec2Isabelle
  imports Prelude Json_Access Ring_Table Activity_Log Dispatch Dispatch_Safety Bot_Main Asset_Trend Ws_Monitor Js_Date Histories Dac Claim_Api Bonus_Claim Fee_Claim Dashboard_Auth Operation_Queue Write_Chain Positions_Repo Position_Map Js_Number Ratio Wallet_Lists
    Bn_Js Keyed_Store Pending_Swaps Byreal_Pending Token_Risk Opened_Referers Pump_Pending
    Parser_Data Parser_Swap Parser_Dex Parser Signer_Wire Signer_Policy Signer_Server
    Async_Ops Chain_World Jupiter_Swap Byreal_Exec Byreal_Open Byreal_Open_Safety Byreal_Copy Byreal_Copy_Safety
    Dex_Common Dex_Safety Orca_Exec Orca_Safety Pcs_Exec Pcs_Safety Meteora_Common Meteora_Exec Damm_Exec Meteora_Safety
begin

text \<open>
  A model of clmm-copybot, a bot that copies the liquidity positions and the swaps of followed Solana wallets on
  five exchanges (Byreal, Orca, Meteora DLMM, PancakeSwap, DAMM v2), and what has been proved of it.

  \<^bold>\<open>The program.\<close> A WebSocket monitor (\<^verbatim>\<open>src/monitor/websocket.ts\<close>) subscribes to the logs of the followed wallets
  and fetches the transactions. The parser (\<^verbatim>\<open>src/monitor/parser.ts\<close>) turns a transaction into events. \<^verbatim>\<open>src/index.ts\<close>
  dispatches events to the executor of their exchange (\<^verbatim>\<open>src/executor\<close>) through one operation queue. An executor
  reads the target's position, applies filters and limits, scales the amounts by the wallet's ratio, swaps for the
  tokens it lacks, and builds, sends and confirms transactions; it keeps the map from the target's position to ours.
  The stores (\<^verbatim>\<open>src/state\<close>) keep memory and the PostgreSQL tables in step through a chain of writes.
  Keys live in a signer process of its own (\<^verbatim>\<open>signer/\<close>) behind a socket; it signs only what its policy admits. Beside
  the copying, timers claim bonuses every week (\<^verbatim>\<open>src/executor/auto-claim.ts\<close>, which claims fees too) and convert a token every day
  (\<^verbatim>\<open>src/executor/dac.ts\<close>), and a dashboard (\<^verbatim>\<open>src/dashboard\<close>) answers those who know its password.

  \<^bold>\<open>Correspondence.\<close> Every theory names its sources at its top; definitions carry the names of the source.
  \<^item> \<open>Prelude\<close>, \<open>Js_Number\<close>, \<open>Js_Date\<close>, \<open>Json_Access\<close>, \<open>Bn_Js\<close>: JavaScript. A number is the real it stands for with its rounding
    written out where the code depends on it, a thrown error is the left summand of \<open>result\<close>, a JSON value is a
    datatype, and bn.js is the record \<open>BN\<close>, whose documented behaviour is the predicate \<open>bn_spec\<close> (with an instance).
  \<^item> \<open>Operation_Queue\<close>, \<open>Write_Chain\<close>: the queue and the chain of writes as transition systems of the event loop.
    Reachable states are inductive; serialisation, order, absence of loss and progress are proved by rule induction.
  \<^item> \<open>Keyed_Store\<close>, \<open>Ring_Table\<close> and the stores over them (\<open>Positions_Repo\<close>, \<open>Position_Map\<close>, \<open>Pending_Swaps\<close>,
    \<open>Token_Risk\<close>, \<open>Opened_Referers\<close>, \<open>Pump_Pending\<close>, \<open>Activity_Log\<close>, \<open>Asset_Trend\<close>, \<open>Histories\<close>): memory, rows and
    writes under way. The locales are the contracts between a store and its table; each is interpreted on the store's
    own definitions. What a restart reads back is what memory held once the writes are through; where a write was
    dropped after its retries, \<open>rowwise_store\<close> gives the agreement for every key that no dropped write concerns.
  \<^item> \<open>Ratio\<close>, \<open>Wallet_Lists\<close>: scaling of amounts, and the environment's lists of wallets and mints.
  \<^item> \<open>Parser_Data\<close>, \<open>Parser_Swap\<close>, \<open>Parser_Dex\<close>, \<open>Parser\<close>: the parser with its discriminators and account positions.
  \<^item> \<open>Signer_Wire\<close>, \<open>Signer_Policy\<close>, \<open>Signer_Server\<close>: framing, decoding, policy and daemon, with the client's side. The
    policy is characterised exactly, and what it admits against its documentation is a theorem of its own.
  \<^item> \<open>Dispatch\<close>, \<open>Dispatch_Safety\<close>, \<open>Bot_Main\<close>, \<open>Ws_Monitor\<close>: dispatch of events, drawdown protection, and the monitor.
    The executors are arguments here: the theorems hold for any.
  \<^item> \<open>Async_Ops\<close>, \<open>Chain_World\<close>, \<open>Jupiter_Swap\<close>: operations on a state that may fail, the outside world as a record of
    functions on a world of its own together with a log of every transaction handed over, and the swaps by Jupiter.
  \<^item> \<open>Byreal_Pending\<close>, \<open>Byreal_Exec\<close>, \<open>Byreal_Open\<close>, \<open>Byreal_Copy\<close> with \<open>Byreal_Open_Safety\<close> and
    \<open>Byreal_Copy_Safety\<close>: the Byreal executor, with its pending swaps, the collection of fees and the reconciliation.
  \<^item> \<open>Dex_Common\<close>, \<open>Dex_Safety\<close>: what the other executors share, and the contracts their proofs share. \<open>Orca_Exec\<close> and
    \<open>Orca_Safety\<close>, \<open>Pcs_Exec\<close> and \<open>Pcs_Safety\<close>: the Orca and the PancakeSwap executor. \<open>Meteora_Common\<close>, \<open>Meteora_Exec\<close>,
    \<open>Damm_Exec\<close> and \<open>Meteora_Safety\<close>: the executors of Meteora's two programs. The bound of a deposit is \<open>side_max\<close>: on a
    side whose scaled amount is zero these executors pass the balance they read, and the bound says so.
  \<^item> \<open>Claim_Api\<close>, \<open>Bonus_Claim\<close>, \<open>Fee_Claim\<close>: the weekly claim of bonuses and the claim of fees, with a trace of the requests and
    their answers. \<open>Dac\<close>: the daily conversion, with its interleaved runs.
  \<^item> \<open>Dashboard_Auth\<close>: the password of the dashboard, over the requests and socket messages of any clients.

  \<^bold>\<open>How operations are judged.\<close> An operation is a function from a state to a result and a state. \<open>always R m\<close> says that
  every run of \<open>m\<close> relates its states by \<open>R\<close>; the locale over it is interpreted for "leaves this part alone"
  and for "logs only such transactions", so that frame conditions and bounds on what is sent compose along binds.
  \<open>meets\<close> relates the result as well, for the contracts of opens and closes.

  \<^bold>\<open>Bounds.\<close> Loops of the source with a fixed number of attempts recurse on that number: three reads of a position and
  three looks at a sent transaction, three transient retries of a send, two or three attempts of a whole operation,
  four of a database write, 1000 remembered signatures and events, 40 swaps, 576 and 720 snapshots, 20 reconnects. The
  recursion needs no fuel beyond them. The claim of bonuses has no bound of its own: it runs with a number of rounds, and
  \<open>bonus_loop_ends\<close> says how many are enough. Rendering a number tries 1 to 17 digits, which is enough for any double.

  \<^bold>\<open>Not modelled.\<close> The building of instructions is the SDKs'; here it is a function of the world. Waiting has no effect but
  on the clock, which the world supplies. Logging and notifications have no effect on the state. Outside the model are
  the valuation of positions for the dashboard, the dashboard's routes and its settings beyond the password,
  database set-up and migration scripts, the browser page, and the second signer in Rust.
\<close>

end
